(* ===== verification/Prelude.thy ===== *)
theory Prelude
  imports Main "HOL-Library.Word"
begin

text \<open>
  The shared vocabulary of the development: the machine types of the Rust sources, their
  checked and saturating arithmetic, the result type of an instruction, and the interface
  of an on-chain account store (address derivation, typed account lookup, the errors that
  the Anchor framework reports for a rejected account).

  Two collections carry the component proofs: \<open>num\<close> moves a statement about words to
  natural or integer arithmetic, \<open>res\<close> inverts the success or the failure of a chain of
  guards.
\<close>

named_theorems num \<open>words to numbers\<close>
named_theorems res \<open>inversion of instruction results\<close>

section \<open>Machine types\<close>

type_synonym u8 = "8 word"
type_synonym u16 = "16 word"
type_synonym u32 = "32 word"
type_synonym u64 = "64 word"
type_synonym u128 = "128 word"

text \<open>A Rust \<open>i64\<close> is a 64-bit word read through \<open>sint\<close> and compared with
  \<open>\<le>s\<close> and \<open><s\<close>.\<close>

type_synonym i64 = "64 word"

text \<open>
  A \<open>[u8; 32]\<close> (an id, a hash, a \<open>Pubkey\<close>) is the 256-bit word whose most significant
  byte is the array's first element: equality agrees, the lexicographic order of the array
  is the order of the words, and \<open>Pubkey::default()\<close> and \<open>[0u8; 32]\<close> are 0.
\<close>

type_synonym bytes32 = "256 word"
type_synonym bytes64 = "512 word"
type_synonym pubkey = bytes32

section \<open>Checked and saturating arithmetic\<close>

definition checked_add :: "'a::len word \<Rightarrow> 'a word \<Rightarrow> 'a word option" where
  "checked_add a b = (if unat a + unat b < 2 ^ LENGTH('a) then Some (a + b) else None)"

definition checked_sub :: "'a::len word \<Rightarrow> 'a word \<Rightarrow> 'a word option" where
  "checked_sub a b = (if b \<le> a then Some (a - b) else None)"

definition checked_mul :: "'a::len word \<Rightarrow> 'a word \<Rightarrow> 'a word option" where
  "checked_mul a b = (if unat a * unat b < 2 ^ LENGTH('a) then Some (a * b) else None)"

definition checked_div :: "'a::len word \<Rightarrow> 'a word \<Rightarrow> 'a word option" where
  "checked_div a b = (if b = 0 then None else Some (a div b))"

text \<open>\<open>u128 \<rightarrow> u64\<close> and its kin: \<open>try_into\<close> fails when the value does not fit.\<close>

definition try_into :: "'a::len word \<Rightarrow> 'b::len word option" where
  "try_into a = (if unat a < 2 ^ LENGTH('b) then Some (ucast a) else None)"

definition saturating_add :: "'a::len word \<Rightarrow> 'a word \<Rightarrow> 'a word" where
  "saturating_add a b = (case checked_add a b of Some c \<Rightarrow> c | None \<Rightarrow> - 1)"

definition saturating_sub :: "'a::len word \<Rightarrow> 'a word \<Rightarrow> 'a word" where
  "saturating_sub a b = (case checked_sub a b of Some c \<Rightarrow> c | None \<Rightarrow> 0)"

definition saturating_mul :: "'a::len word \<Rightarrow> 'a word \<Rightarrow> 'a word" where
  "saturating_mul a b = (case checked_mul a b of Some c \<Rightarrow> c | None \<Rightarrow> - 1)"

text \<open>The signed operations: out of range is \<open>None\<close>.\<close>

definition ichecked_add :: "'a::len word \<Rightarrow> 'a word \<Rightarrow> 'a word option" where
  "ichecked_add a b = (if sint (a + b) = sint a + sint b then Some (a + b) else None)"

definition ichecked_sub :: "'a::len word \<Rightarrow> 'a word \<Rightarrow> 'a word option" where
  "ichecked_sub a b = (if sint (a - b) = sint a - sint b then Some (a - b) else None)"

lemma unat_bound: "unat (a :: 'a::len word) < 2 ^ LENGTH('a)"
  by (rule unsigned_less)

lemma checked_add_Some [num]: "checked_add a b = Some c \<longleftrightarrow> unat c = unat a + unat b"
proof (cases "unat a + unat b < 2 ^ LENGTH('a)")
  case True
  then have "unat (a + b) = unat a + unat b" by (simp add: unat_add_lem)
  with True show ?thesis by (auto simp: checked_add_def word_unat_eq_iff)
next
  case False
  then have "unat c \<noteq> unat a + unat b" using unat_bound [of c] by linarith
  with False show ?thesis by (simp add: checked_add_def)
qed

lemma checked_add_None [num]:
  "checked_add a b = None \<longleftrightarrow> 2 ^ LENGTH('a) \<le> unat (a :: 'a::len word) + unat b"
  by (auto simp: checked_add_def)

lemma checked_sub_Some [num]: "checked_sub a b = Some c \<longleftrightarrow> unat a = unat c + unat b"
proof (cases "b \<le> a")
  case True
  then have "unat (a - b) = unat a - unat b" by (simp add: unat_sub word_le_nat_alt)
  with True show ?thesis by (auto simp: checked_sub_def word_unat_eq_iff word_le_nat_alt)
next
  case False
  then show ?thesis by (auto simp: checked_sub_def word_le_nat_alt)
qed

lemma checked_sub_None [num]: "checked_sub a b = None \<longleftrightarrow> unat a < unat b"
  by (auto simp: checked_sub_def word_le_nat_alt)

lemma checked_mul_Some [num]: "checked_mul a b = Some c \<longleftrightarrow> unat c = unat a * unat b"
proof (cases "unat a * unat b < 2 ^ LENGTH('a)")
  case True
  then have "unat (a * b) = unat a * unat b" by (simp add: unat_mult_lem)
  with True show ?thesis by (auto simp: checked_mul_def word_unat_eq_iff)
next
  case False
  then have "unat c \<noteq> unat a * unat b" using unat_bound [of c] by linarith
  with False show ?thesis by (simp add: checked_mul_def)
qed

lemma checked_mul_None [num]:
  "checked_mul a b = None \<longleftrightarrow> 2 ^ LENGTH('a) \<le> unat (a :: 'a::len word) * unat b"
  by (auto simp: checked_mul_def)

lemma checked_div_Some [num]:
  "checked_div a b = Some c \<longleftrightarrow> unat b \<noteq> 0 \<and> unat c = unat a div unat b"
  unfolding checked_div_def unat_eq_0 by (auto simp: word_unat_eq_iff unat_div)

lemma checked_div_None [num]: "checked_div a b = None \<longleftrightarrow> unat b = 0"
  by (simp add: checked_div_def unat_eq_0)

lemma unat_of_nat_small: "n < 2 ^ LENGTH('a) \<Longrightarrow> unat (of_nat n :: 'a::len word) = n"
  by (simp add: unat_of_nat take_bit_nat_eq_self)

lemma unat_ucast_small:
  "unat (a :: 'a::len word) < 2 ^ LENGTH('b) \<Longrightarrow> unat (ucast a :: 'b::len word) = unat a"
  by (simp add: unsigned_ucast_eq take_bit_nat_eq_self)

lemma unat_ucast_wide [num]:
  "LENGTH('a) \<le> LENGTH('b) \<Longrightarrow> unat (ucast (a :: 'a::len word) :: 'b::len word) = unat a"
  using unat_bound [of a] power_increasing [of "LENGTH('a)" "LENGTH('b)" "2 :: nat"]
  by (intro unat_ucast_small) linarith

lemma try_into_Some [num]:
  "(try_into (a :: 'a::len word) :: 'b::len word option) = Some c \<longleftrightarrow> unat c = unat a"
proof (cases "unat a < 2 ^ LENGTH('b)")
  case True
  then show ?thesis by (auto simp: try_into_def word_unat_eq_iff unat_ucast_small)
next
  case False
  then have "unat c \<noteq> unat a" using unat_bound [of c] by linarith
  with False show ?thesis by (simp add: try_into_def)
qed

lemma try_into_None [num]:
  "(try_into (a :: 'a::len word) :: 'b::len word option) = None \<longleftrightarrow> 2 ^ LENGTH('b) \<le> unat a"
  by (auto simp: try_into_def)

text \<open>When the operations succeed.\<close>

lemma checked_add_fits:
  "unat a + unat b < 2 ^ LENGTH('a) \<Longrightarrow>
   \<exists>c. checked_add a b = Some c \<and> unat (c :: 'a::len word) = unat a + unat b"
  by (metis checked_add_def checked_add_Some)

lemma checked_mul_fits:
  "unat a * unat b < 2 ^ LENGTH('a) \<Longrightarrow>
   \<exists>c. checked_mul a b = Some c \<and> unat (c :: 'a::len word) = unat a * unat b"
  by (metis checked_mul_def checked_mul_Some)

lemma checked_sub_fits:
  "unat b \<le> unat a \<Longrightarrow> \<exists>c. checked_sub a b = Some c \<and> unat (c :: 'a::len word) + unat b = unat a"
  by (metis checked_sub_def checked_sub_Some word_le_nat_alt)

lemma checked_div_fits:
  "unat b \<noteq> 0 \<Longrightarrow> \<exists>c. checked_div a b = Some c \<and> unat (c :: 'a::len word) = unat a div unat b"
  by (metis checked_div_Some checked_div_def unat_0)

lemma try_into_fits:
  "unat (a :: 'a::len word) < 2 ^ LENGTH('b) \<Longrightarrow>
   \<exists>c. try_into a = Some c \<and> unat (c :: 'b::len word) = unat a"
  by (metis try_into_def try_into_Some)

lemma div_le_scaled:
  assumes "(a :: nat) \<le> d"
  shows "t * a div d \<le> t"
proof (cases "d = 0")
  case False
  have "t * a div d \<le> t * d div d" using assms by (intro div_le_mono mult_le_mono2)
  with False show ?thesis by simp
qed simp

lemma unat_max: "unat (- 1 :: 'a::len word) = 2 ^ LENGTH('a) - 1"
  by (simp add: unsigned_minus_1_eq_mask mask_eq_exp_minus_1)

lemma saturating_add_unat [num]:
  "unat (saturating_add (a :: 'a::len word) b) = min (unat a + unat b) (2 ^ LENGTH('a) - 1)"
proof (cases "checked_add a b")
  case (Some c)
  then have "saturating_add a b = c" by (simp add: saturating_add_def)
  moreover from Some have "unat c = unat a + unat b" by (simp add: num)
  ultimately show ?thesis using unat_bound [of c] by simp
next
  case None
  then have "saturating_add a b = - 1" by (simp add: saturating_add_def)
  with None show ?thesis by (simp add: num unat_max)
qed

lemma saturating_sub_unat [num]: "unat (saturating_sub a b) = unat a - unat b"
  by (auto simp: saturating_sub_def num split: option.splits)

lemma saturating_mul_unat [num]:
  "unat (saturating_mul (a :: 'a::len word) b) = min (unat a * unat b) (2 ^ LENGTH('a) - 1)"
proof (cases "checked_mul a b")
  case (Some c)
  then have "saturating_mul a b = c" by (simp add: saturating_mul_def)
  moreover from Some have "unat c = unat a * unat b" by (simp add: num)
  ultimately show ?thesis using unat_bound [of c] by simp
next
  case None
  then have "saturating_mul a b = - 1" by (simp add: saturating_mul_def)
  with None show ?thesis by (simp add: num unat_max)
qed

lemma ichecked_add_Some [num]: "ichecked_add a b = Some c \<longleftrightarrow> sint c = sint a + sint b"
proof -
  have "sint c = sint a + sint b \<Longrightarrow> c = a + b"
    by (metis of_int_add of_int_sint scast_id)
  then show ?thesis by (auto simp: ichecked_add_def)
qed

lemma ichecked_sub_Some [num]: "ichecked_sub a b = Some c \<longleftrightarrow> sint c = sint a - sint b"
proof -
  have "sint c = sint a - sint b \<Longrightarrow> c = a - b"
    by (metis of_int_diff of_int_sint scast_id)
  then show ?thesis by (auto simp: ichecked_sub_def)
qed

text \<open>The order of words, and the cast of a non-negative signed value to a wider type.\<close>

lemmas word_order [num] = word_le_nat_alt word_less_nat_alt word_sle_eq word_sless_alt

lemma unat_scast_nonneg:
  assumes "0 \<le> sint (a :: 'a::len word)" and "LENGTH('a) \<le> LENGTH('b)"
  shows "unat (scast a :: 'b::len word) = nat (sint a)"
proof -
  have "sint a < 2 ^ (LENGTH('a) - 1)" by (rule sint_lt)
  also have "\<dots> \<le> 2 ^ LENGTH('b)" using assms(2) by (intro power_increasing) auto
  finally have "sint a < 2 ^ LENGTH('b)" .
  moreover have "uint (scast a :: 'b word) = take_bit LENGTH('b) (sint a)"
    by transfer (simp add: take_bit_signed_take_bit)
  ultimately have "uint (scast a :: 'b word) = sint a"
    using assms(1) by (simp add: take_bit_int_eq_self)
  then show ?thesis by (metis unat_eq_nat_uint)
qed

section \<open>Instruction results\<close>

text \<open>
  An instruction returns \<open>Inl e\<close> for an error and \<open>Inr r\<close> otherwise. \<open>require\<close> is
  the macro of the same name (and \<open>require_keys_eq!\<close>), \<open>rbind\<close> the \<open>?\<close> operator,
  \<open>ok_or\<close> the method of \<open>Option\<close>.
\<close>

definition require :: "bool \<Rightarrow> 'e \<Rightarrow> 'e + 'a \<Rightarrow> 'e + 'a" where
  "require c e k = (if c then k else Inl e)"

fun rbind :: "'e + 'a \<Rightarrow> ('a \<Rightarrow> 'e + 'b) \<Rightarrow> 'e + 'b" where
  "rbind (Inl e) f = Inl e"
| "rbind (Inr x) f = f x"

fun ok_or :: "'a option \<Rightarrow> 'e \<Rightarrow> 'e + 'a" where
  "ok_or None e = Inl e"
| "ok_or (Some x) e = Inr x"

fun map_error :: "('e \<Rightarrow> 'f) \<Rightarrow> 'e + 'a \<Rightarrow> 'f + 'a" where
  "map_error f (Inl e) = Inl (f e)"
| "map_error f (Inr x) = Inr x"

lemma require_True [simp]: "require True e k = k"
  by (simp add: require_def)

lemma require_False [simp]: "require False e k = Inl e"
  by (simp add: require_def)

lemma require_Inr [res]: "require c e k = Inr r \<longleftrightarrow> c \<and> k = Inr r"
  by (simp add: require_def)

lemma require_Inl [res]: "require c e k = Inl x \<longleftrightarrow> (if c then k = Inl x else x = e)"
  by (auto simp: require_def)

lemma rbind_Inr [res]: "rbind m f = Inr r \<longleftrightarrow> (\<exists>x. m = Inr x \<and> f x = Inr r)"
  by (cases m) auto

lemma rbind_Inl [res]: "rbind m f = Inl e \<longleftrightarrow> m = Inl e \<or> (\<exists>x. m = Inr x \<and> f x = Inl e)"
  by (cases m) auto

lemma ok_or_Inr [res]: "ok_or m e = Inr x \<longleftrightarrow> m = Some x"
  by (cases m) auto

lemma ok_or_Inl [res]: "ok_or m e = Inl x \<longleftrightarrow> m = None \<and> x = e"
  by (cases m) auto

lemma map_error_Inr [res]: "map_error f m = Inr x \<longleftrightarrow> m = Inr x"
  by (cases m) auto

lemma map_error_Inl [res]: "map_error f m = Inl x \<longleftrightarrow> (\<exists>e. m = Inl e \<and> x = f e)"
  by (cases m) auto

lemma ex_pull [res]: "(\<exists>x. (\<exists>n. Q n \<and> x = f n) \<and> R x) \<longleftrightarrow> (\<exists>n. Q n \<and> R (f n))"
  by auto

text \<open>A failing \<open>?\<close> in either position of a short-circuit chain decides the result.\<close>

lemma not_Inr_iff_Inl: "(\<forall>r. m \<noteq> Inr r) \<longleftrightarrow> (\<exists>e. m = Inl e)"
  by (cases m) auto

section \<open>Accounts\<close>

text \<open>
  What Anchor reports when an account of an instruction's \<open>#[derive(Accounts)]\<close> struct is
  rejected, and the error of an instruction: the program's own error enum, a rejected
  account, or a failed call into the SPL token program.
\<close>

datatype anchor_error =
    AccountNotInitialized
  | AccountDiscriminatorMismatch
  | AccountAlreadyInUse
  | ConstraintSeeds
  | ConstraintHasOne
  | ConstraintTokenMint
  | ConstraintTokenOwner

datatype 'e err = Prog 'e | Anchor anchor_error | Spl

text \<open>
  A program-derived address is computed from seeds: literals, 32-byte values, little-endian
  numbers. \<open>find_program_address\<close> (address and canonical bump) and
  \<open>create_program_address\<close> (address for a given bump) are functions of the Solana SDK,
  hence parameters, carried in a record.
\<close>

datatype seed = Lit string | B32 bytes32 | Le64 u64

record pda_sdk =
  find_program_address :: "seed list \<Rightarrow> pubkey \<Rightarrow> pubkey \<times> u8"
  create_program_address :: "seed list \<Rightarrow> u8 \<Rightarrow> pubkey \<Rightarrow> pubkey option"

text \<open>What the SDK documents: the canonical bump recreates the found address.\<close>

definition pda_law :: "pda_sdk \<Rightarrow> bool" where
  "pda_law P \<longleftrightarrow> (\<forall>s g a b. find_program_address P s g = (a, b) \<longrightarrow>
     create_program_address P s b g = Some a)"

text \<open>A concrete SDK, for evaluating the model on concrete inputs: an address mixes the seeds.\<close>

fun seed_num :: "seed \<Rightarrow> bytes32" where
  "seed_num (Lit s) = of_nat (length s)"
| "seed_num (B32 x) = x"
| "seed_num (Le64 n) = ucast n"

definition demo_addr :: "seed list \<Rightarrow> pubkey \<Rightarrow> pubkey" where
  "demo_addr seeds prog = foldl (\<lambda>a s. 3 * a + seed_num s) prog seeds"

definition demo_sdk :: pda_sdk where
  "demo_sdk = \<lparr>find_program_address = \<lambda>seeds prog. (demo_addr seeds prog, 255),
     create_program_address = \<lambda>seeds bump prog. Some (demo_addr seeds prog)\<rparr>"

lemma demo_sdk_law: "pda_law demo_sdk"
  by (simp add: pda_law_def demo_sdk_def)

record clock =
  slot :: u64
  unix_timestamp :: i64

text \<open>
  A program's accounts: what it owns, by address. An address derived from a program's id can
  only be allocated by that program, so a store per program is enough to decide whether an
  \<open>init\<close> address is in use.
\<close>

type_synonym 'a accts = "pubkey \<rightharpoonup> 'a"

text \<open>\<open>seeds = [...], bump\<close>: the key is the canonical address; the bump is the result.\<close>

definition canonical :: "pda_sdk \<Rightarrow> seed list \<Rightarrow> pubkey \<Rightarrow> pubkey \<Rightarrow> 'e err + u8" where
  "canonical P seeds prog key =
     (case find_program_address P seeds prog of
        (a, b) \<Rightarrow> require (key = a) (Anchor ConstraintSeeds) (Inr b))"

text \<open>\<open>seeds = [...], bump = stored\<close>: the key is the address for the stored bump.\<close>

definition seeds_ok :: "pda_sdk \<Rightarrow> seed list \<Rightarrow> u8 \<Rightarrow> pubkey \<Rightarrow> pubkey \<Rightarrow> bool" where
  "seeds_ok P seeds bump prog key \<longleftrightarrow> create_program_address P seeds bump prog = Some key"

text \<open>\<open>init\<close>: the canonical address, not yet in use.\<close>

definition init_account ::
  "pda_sdk \<Rightarrow> seed list \<Rightarrow> pubkey \<Rightarrow> 'a accts \<Rightarrow> pubkey \<Rightarrow> 'e err + u8" where
  "init_account P seeds prog L key =
     rbind (canonical P seeds prog key) (\<lambda>bump.
       require (L key = None) (Anchor AccountAlreadyInUse) (Inr bump))"

text \<open>\<open>Account<T>\<close>: the account exists and deserializes as \<open>T\<close>; \<open>sel\<close> is the
  discriminator check and decoding.\<close>

definition load :: "('a \<Rightarrow> 't option) \<Rightarrow> 'a accts \<Rightarrow> pubkey \<Rightarrow> 'e err + 't" where
  "load sel L key = (case L key of
     None \<Rightarrow> Inl (Anchor AccountNotInitialized)
   | Some a \<Rightarrow> ok_or (sel a) (Anchor AccountDiscriminatorMismatch))"

text \<open>\<open>init_if_needed\<close>: a fresh zeroed \<open>T\<close> when the address is not in use.\<close>

definition init_if_needed :: "pda_sdk \<Rightarrow> seed list \<Rightarrow> pubkey \<Rightarrow> ('a \<Rightarrow> 't option) \<Rightarrow> 't \<Rightarrow>
  'a accts \<Rightarrow> pubkey \<Rightarrow> 'e err + 't \<times> u8" where
  "init_if_needed P seeds prog sel zero L key =
     rbind (canonical P seeds prog key) (\<lambda>bump.
       if L key = None then Inr (zero, bump)
       else rbind (load sel L key) (\<lambda>t. Inr (t, bump)))"

lemma canonical_Inr [res]:
  "canonical P seeds prog key = Inr b \<longleftrightarrow> find_program_address P seeds prog = (key, b)"
  by (auto simp: canonical_def res split: prod.splits)

lemma init_account_Inr [res]:
  "init_account P seeds prog L key = Inr b \<longleftrightarrow>
     find_program_address P seeds prog = (key, b) \<and> L key = None"
  by (auto simp: init_account_def res)

lemma init_account_used: "L key = Some a \<Longrightarrow> init_account P seeds prog L key \<noteq> Inr b"
  by (simp add: res)

lemma load_Inr [res]: "load sel L key = Inr t \<longleftrightarrow> (\<exists>a. L key = Some a \<and> sel a = Some t)"
  by (auto simp: load_def res split: option.splits)

lemma init_if_needed_Inr [res]:
  "init_if_needed P seeds prog sel zero L key = Inr (t, b) \<longleftrightarrow>
     find_program_address P seeds prog = (key, b) \<and>
     (L key = None \<and> t = zero \<or> (\<exists>a. L key = Some a \<and> sel a = Some t))"
  by (auto simp: init_if_needed_def res)

section \<open>Invariants of a program's steps\<close>

text \<open>
  Every program of the development is a transition system on its store: a step is one
  successful instruction. A property that each step keeps holds along every run.
\<close>

locale kept_by_steps =
  fixes step :: "'s \<Rightarrow> 's \<Rightarrow> bool"
    and inv :: "'s \<Rightarrow> bool"
  assumes step_keeps: "step s t \<Longrightarrow> inv s \<Longrightarrow> inv t"
begin

lemma run_keeps: "step\<^sup>*\<^sup>* s t \<Longrightarrow> inv s \<Longrightarrow> inv t"
  by (induction rule: rtranclp_induct) (auto intro: step_keeps)

end

text \<open>The same for a relation between the start and the end of a run.\<close>

locale ordered_by_steps =
  fixes step :: "'s \<Rightarrow> 's \<Rightarrow> bool"
    and rel :: "'s \<Rightarrow> 's \<Rightarrow> bool"
  assumes rel_refl: "rel s s"
    and rel_trans: "rel s t \<Longrightarrow> rel t u \<Longrightarrow> rel s u"
    and step_rel: "step s t \<Longrightarrow> rel s t"
begin

lemma run_rel: "step\<^sup>*\<^sup>* s t \<Longrightarrow> rel s t"
  by (induction rule: rtranclp_induct) (auto intro: rel_refl rel_trans step_rel)

end

section \<open>Sums over a finite store\<close>

text \<open>
  The total of a measure over all accounts of a store: a finite map, so that the effect of a
  write is the difference between the new and the old account.
\<close>

definition total :: "('a \<Rightarrow> nat) \<Rightarrow> 'a accts \<Rightarrow> nat" where
  "total f L = (\<Sum>k\<in>dom L. case L k of Some a \<Rightarrow> f a | None \<Rightarrow> 0)"

definition at :: "('a \<Rightarrow> nat) \<Rightarrow> 'a accts \<Rightarrow> pubkey \<Rightarrow> nat" where
  "at f L k = (case L k of Some a \<Rightarrow> f a | None \<Rightarrow> 0)"

lemma finite_store [simp]: "finite (dom (L :: 'a accts))"
  by simp

lemma total_remove: "total f (L :: 'a accts) = total f (L(k := None)) + at f L k"
proof (cases "L k")
  case None
  then have "L(k := None) = L" by auto
  with None show ?thesis by (simp add: at_def)
next
  case (Some a)
  then have "k \<in> dom L" by auto
  then have "total f L = f a + (\<Sum>j\<in>dom L - {k}. case L j of Some a \<Rightarrow> f a | None \<Rightarrow> 0)"
    unfolding total_def using Some by (subst sum.remove [where x = k]) auto
  also have "(\<Sum>j\<in>dom L - {k}. case L j of Some a \<Rightarrow> f a | None \<Rightarrow> 0) = total f (L(k := None))"
    unfolding total_def by (rule sum.cong) auto
  finally show ?thesis using Some by (simp add: at_def)
qed

lemma total_write:
  "total f (L(k \<mapsto> a)) + at f L k = total f (L :: 'a accts) + f a"
  using total_remove [of f L k] total_remove [of f "L(k \<mapsto> a)" k] by (simp add: at_def)

lemma total_new: "L k = None \<Longrightarrow> total f (L(k \<mapsto> a)) = total f (L :: 'a accts) + f a"
  using total_write [of f L k a] by (simp add: at_def)

lemma total_same:
  "L k = Some b \<Longrightarrow> f b = f a \<Longrightarrow> total f (L(k \<mapsto> a)) = total f (L :: 'a accts)"
  using total_write [of f L k a] by (simp add: at_def)

lemma total_cong: "(\<And>k. at f L k = at f M k) \<Longrightarrow> total f (L :: 'a accts) = total f M"
proof -
  have "total f N = (\<Sum>k\<in>UNIV. at f N k)" for N :: "'a accts"
    unfolding total_def at_def by (rule sum.mono_neutral_left) (auto split: option.splits)
  then show "(\<And>k. at f L k = at f M k) \<Longrightarrow> total f L = total f M" by simp
qed

end
