(* ===== verification/Aeqi_Trust.thy ===== *)
theory Aeqi_Trust
  imports Prelude
begin

text \<open>
  The program \<open>aeqi_trust\<close>: the TRUST account (authority root of an organization), its
  module registry, the provider catalogue of module implementations, the ACL edges between
  modules and the config slots. For each instruction, \<open>X_accounts\<close> is the validation of
  its \<open>#[derive(Accounts)]\<close> struct and \<open>trust_x\<close> the whole instruction on the program's
  store, events included.
\<close>

unbundle bit_operations_syntax

section \<open>ACL flags (acl.rs)\<close>

datatype AclFlag =
    SetNumericConfig | SetAddressConfig | SetBytesConfig | SetBooleanConfig
  | ReplaceModule | RemoveModule | SetAclBetweenModules | Execute | Pause | Unpause
  | CreateTrust | DeployModule | TransferFunds | ResetModules

fun acl_bit :: "AclFlag \<Rightarrow> nat" where
  "acl_bit SetNumericConfig = 0"
| "acl_bit SetAddressConfig = 1"
| "acl_bit SetBytesConfig = 2"
| "acl_bit SetBooleanConfig = 3"
| "acl_bit ReplaceModule = 4"
| "acl_bit RemoveModule = 5"
| "acl_bit SetAclBetweenModules = 6"
| "acl_bit Execute = 7"
| "acl_bit Pause = 8"
| "acl_bit Unpause = 9"
| "acl_bit CreateTrust = 10"
| "acl_bit DeployModule = 11"
| "acl_bit TransferFunds = 12"
| "acl_bit ResetModules = 13"

definition has_acl :: "u64 \<Rightarrow> AclFlag \<Rightarrow> bool" where
  "has_acl acl flag \<longleftrightarrow> (drop_bit (acl_bit flag) acl) AND 1 = 1"

definition add_acl :: "u64 \<Rightarrow> AclFlag \<Rightarrow> u64" where
  "add_acl acl flag = acl OR push_bit (acl_bit flag) 1"

definition remove_acl :: "u64 \<Rightarrow> AclFlag \<Rightarrow> u64" where
  "remove_acl acl flag = acl AND NOT (push_bit (acl_bit flag) 1)"

section \<open>Errors, state and events\<close>

datatype AeqiTrustError =
    Unauthorized | DeniedAccess | TrustPaused | NotInCreationMode | AlreadyFinalized
  | TrustNotFinalized | NoModulesRegistered | InvalidImplementationVersion
  | ImplementationProgramNotExecutable | InactiveImplementation | ImplementationModuleMismatch
  | AclSourceModuleMismatch | AclTargetModuleMismatch | ModuleAlreadyInitialized
  | ModuleNotInitialized | ConfigTooLarge | MathOverflow

record Trust =
  t_trust_id :: bytes32
  t_authority :: pubkey
  t_creation_mode :: bool
  t_paused :: bool
  t_module_count :: u32
  t_bump :: u8

record Module =
  m_trust :: pubkey
  m_module_id :: bytes32
  m_program_id :: pubkey
  m_provider :: pubkey
  m_implementation_version :: u64
  m_implementation_metadata_hash :: bytes32
  m_trust_acl :: u64
  m_initialized :: u8
  m_bump :: u8

record ModuleImplementation =
  i_provider :: pubkey
  i_module_id :: bytes32
  i_implementation_program_id :: pubkey
  i_version :: u64
  i_metadata_hash :: bytes32
  i_active :: bool
  i_bump :: u8

datatype ModuleInitState = Pending | Initialized | Finalized

fun init_state_u8 :: "ModuleInitState \<Rightarrow> u8" where
  "init_state_u8 Pending = 0"
| "init_state_u8 Initialized = 1"
| "init_state_u8 Finalized = 2"

record ModuleAclEdge =
  e_trust :: pubkey
  e_source_module_id :: bytes32
  e_target_module_id :: bytes32
  e_flags :: u64
  e_bump :: u8

record NumericConfig =
  nc_trust :: pubkey
  nc_key :: bytes32
  nc_value :: u128
  nc_bump :: u8

record AddressConfig =
  ac_trust :: pubkey
  ac_key :: bytes32
  ac_value :: pubkey
  ac_bump :: u8

record BytesConfig =
  bc_trust :: pubkey
  bc_key :: bytes32
  bc_value :: "u8 list"
  bc_bump :: u8

definition MAX_BYTES_CONFIG :: nat where
  "MAX_BYTES_CONFIG = 1024"

datatype trust_acct =
    TrustA Trust
  | ModuleA Module
  | ImplementationA ModuleImplementation
  | AclEdgeA ModuleAclEdge
  | NumericConfigA NumericConfig
  | AddressConfigA AddressConfig
  | BytesConfigA BytesConfig

type_synonym trust_store = "trust_acct accts"

fun as_trust :: "trust_acct \<Rightarrow> Trust option" where
  "as_trust (TrustA t) = Some t" | "as_trust _ = None"

fun as_module :: "trust_acct \<Rightarrow> Module option" where
  "as_module (ModuleA m) = Some m" | "as_module _ = None"

fun as_implementation :: "trust_acct \<Rightarrow> ModuleImplementation option" where
  "as_implementation (ImplementationA i) = Some i" | "as_implementation _ = None"

fun as_acl_edge :: "trust_acct \<Rightarrow> ModuleAclEdge option" where
  "as_acl_edge (AclEdgeA e) = Some e" | "as_acl_edge _ = None"

fun as_numeric_config :: "trust_acct \<Rightarrow> NumericConfig option" where
  "as_numeric_config (NumericConfigA c) = Some c" | "as_numeric_config _ = None"

fun as_address_config :: "trust_acct \<Rightarrow> AddressConfig option" where
  "as_address_config (AddressConfigA c) = Some c" | "as_address_config _ = None"

fun as_bytes_config :: "trust_acct \<Rightarrow> BytesConfig option" where
  "as_bytes_config (BytesConfigA c) = Some c" | "as_bytes_config _ = None"

datatype trust_event =
    TrustInitialized pubkey bytes32 pubkey
  | TrustFinalized pubkey u32
  | TrustPauseChanged pubkey bool
  | ModuleRegistered pubkey bytes32 pubkey pubkey u64 bytes32 u64
  | ModuleImplementationPublished pubkey bytes32 u64 pubkey bytes32
  | ModuleImplementationActiveChanged pubkey bytes32 u64 bool
  | ModuleImplementationAdopted pubkey bytes32 pubkey u64 pubkey bytes32 u64
  | ModuleAclSet pubkey bytes32 bytes32 u64

type_synonym trust_result = "AeqiTrustError err + trust_store \<times> trust_event list"

definition AEQI_TRUST_ID :: pubkey where
  "AEQI_TRUST_ID = 0xa6695d6b32b217f2bb4033a738aace018587c2e7cbebd3d932903aa3b6888968"

section \<open>Helpers\<close>

definition gate_config_write :: "Trust \<Rightarrow> pubkey \<Rightarrow> AeqiTrustError err + unit" where
  "gate_config_write trust signer =
     require (\<not> t_paused trust) (Prog TrustPaused)
     (require (signer = t_authority trust) (Prog Unauthorized)
     (Inr ()))"

definition bump_module_count :: "Trust \<Rightarrow> AeqiTrustError err + Trust" where
  "bump_module_count trust =
     rbind (ok_or (checked_add (t_module_count trust) 1) (Prog MathOverflow)) (\<lambda>n.
       Inr (trust\<lparr>t_module_count := n\<rparr>))"

text \<open>The TRUST account of an instruction: \<open>seeds = [b"trust", trust.trust_id], bump =
  trust.bump\<close> under the program's own id. The module programs read the same account with
  \<open>seeds::program = AEQI_TRUST_ID\<close>.\<close>

definition trust_account :: "pda_sdk \<Rightarrow> trust_store \<Rightarrow> pubkey \<Rightarrow> 'e err + Trust" where
  "trust_account P L key =
     rbind (load as_trust L key) (\<lambda>t.
       require (seeds_ok P [Lit ''trust'', B32 (t_trust_id t)] (t_bump t) AEQI_TRUST_ID key)
         (Anchor ConstraintSeeds) (Inr t))"

text \<open>\<open>source_module: Option<Account<Module>>\<close>, reserved: only its type is checked.\<close>

definition optional_module :: "trust_store \<Rightarrow> pubkey option \<Rightarrow> AeqiTrustError err + unit" where
  "optional_module L sm =
     (case sm of None \<Rightarrow> Inr () | Some k \<Rightarrow> rbind (load as_module L k) (\<lambda>_. Inr ()))"

section \<open>Instructions\<close>

definition Initialize_accounts ::
  "pda_sdk \<Rightarrow> bytes32 \<Rightarrow> trust_store \<Rightarrow> pubkey \<Rightarrow> AeqiTrustError err + u8" where
  "Initialize_accounts P trust_id L trust =
     init_account P [Lit ''trust'', B32 trust_id] AEQI_TRUST_ID L trust"

definition trust_initialize ::
  "pda_sdk \<Rightarrow> pubkey \<Rightarrow> pubkey \<Rightarrow> bytes32 \<Rightarrow> trust_store \<Rightarrow> trust_result" where
  "trust_initialize P trust authority trust_id L =
     rbind (Initialize_accounts P trust_id L trust) (\<lambda>bump.
       Inr (L(trust \<mapsto> TrustA
              \<lparr>t_trust_id = trust_id, t_authority = authority, t_creation_mode = True,
               t_paused = False, t_module_count = 0, t_bump = bump\<rparr>),
            [TrustInitialized trust trust_id authority]))"

definition RegisterModule_accounts :: "pda_sdk \<Rightarrow> bytes32 \<Rightarrow> trust_store \<Rightarrow> pubkey \<Rightarrow> pubkey \<Rightarrow>
  AeqiTrustError err + Trust \<times> u8" where
  "RegisterModule_accounts P module_id L trust module =
     rbind (trust_account P L trust) (\<lambda>t.
     rbind (init_account P [Lit ''module'', B32 trust, B32 module_id] AEQI_TRUST_ID L module) (\<lambda>bump.
       Inr (t, bump)))"

definition trust_register_module :: "pda_sdk \<Rightarrow> pubkey \<Rightarrow> pubkey \<Rightarrow> pubkey \<Rightarrow> bytes32 \<Rightarrow> pubkey \<Rightarrow>
  pubkey \<Rightarrow> u64 \<Rightarrow> bytes32 \<Rightarrow> u64 \<Rightarrow> trust_store \<Rightarrow> trust_result" where
  "trust_register_module P trust module authority module_id program_id provider
     implementation_version implementation_metadata_hash trust_acl L =
     rbind (RegisterModule_accounts P module_id L trust module) (\<lambda>(t, bump).
     require (\<not> t_paused t) (Prog TrustPaused)
     (require (implementation_version > 0) (Prog InvalidImplementationVersion)
     (require (t_creation_mode t) (Prog NotInCreationMode)
     (require (authority = t_authority t) (Prog Unauthorized)
     (rbind (bump_module_count t) (\<lambda>t'.
       Inr (L(trust \<mapsto> TrustA t',
              module \<mapsto> ModuleA
                \<lparr>m_trust = trust, m_module_id = module_id, m_program_id = program_id,
                 m_provider = provider, m_implementation_version = implementation_version,
                 m_implementation_metadata_hash = implementation_metadata_hash,
                 m_trust_acl = trust_acl, m_initialized = init_state_u8 Pending,
                 m_bump = bump\<rparr>),
            [ModuleRegistered trust module_id program_id provider implementation_version
               implementation_metadata_hash trust_acl])))))))"

definition PublishModuleImplementation_accounts :: "pda_sdk \<Rightarrow> bytes32 \<Rightarrow> u64 \<Rightarrow> trust_store \<Rightarrow>
  pubkey \<Rightarrow> pubkey \<Rightarrow> AeqiTrustError err + u8" where
  "PublishModuleImplementation_accounts P module_id version L provider implementation =
     init_account P [Lit ''module_impl'', B32 provider, B32 module_id, Le64 version]
       AEQI_TRUST_ID L implementation"

text \<open>\<open>executable\<close> is the flag of the implementation program's account, set by the loader.\<close>

definition trust_publish_module_implementation :: "pda_sdk \<Rightarrow> bool \<Rightarrow> pubkey \<Rightarrow> pubkey \<Rightarrow> pubkey \<Rightarrow>
  bytes32 \<Rightarrow> u64 \<Rightarrow> bytes32 \<Rightarrow> trust_store \<Rightarrow> trust_result" where
  "trust_publish_module_implementation P executable implementation implementation_program provider
     module_id version metadata_hash L =
     rbind (PublishModuleImplementation_accounts P module_id version L provider implementation)
       (\<lambda>bump.
     require (version > 0) (Prog InvalidImplementationVersion)
     (require executable (Prog ImplementationProgramNotExecutable)
     (Inr (L(implementation \<mapsto> ImplementationA
             \<lparr>i_provider = provider, i_module_id = module_id,
              i_implementation_program_id = implementation_program, i_version = version,
              i_metadata_hash = metadata_hash, i_active = True, i_bump = bump\<rparr>),
           [ModuleImplementationPublished provider module_id version implementation_program
              metadata_hash]))))"

text \<open>The catalogue entry of an instruction, with its seeds re-derived from its own fields.\<close>

definition implementation_account :: "pda_sdk \<Rightarrow> trust_store \<Rightarrow> pubkey \<Rightarrow>
  AeqiTrustError err + ModuleImplementation" where
  "implementation_account P L key =
     rbind (load as_implementation L key) (\<lambda>i.
       require (seeds_ok P [Lit ''module_impl'', B32 (i_provider i), B32 (i_module_id i),
           Le64 (i_version i)] (i_bump i) AEQI_TRUST_ID key)
         (Anchor ConstraintSeeds) (Inr i))"

definition SetModuleImplementationActive_accounts :: "pda_sdk \<Rightarrow> trust_store \<Rightarrow> pubkey \<Rightarrow>
  AeqiTrustError err + ModuleImplementation" where
  "SetModuleImplementationActive_accounts P L implementation = implementation_account P L implementation"

definition trust_set_module_implementation_active :: "pda_sdk \<Rightarrow> pubkey \<Rightarrow> pubkey \<Rightarrow> bool \<Rightarrow>
  trust_store \<Rightarrow> trust_result" where
  "trust_set_module_implementation_active P implementation provider active L =
     rbind (SetModuleImplementationActive_accounts P L implementation) (\<lambda>i.
     require (provider = i_provider i) (Prog Unauthorized)
     (Inr (L(implementation \<mapsto> ImplementationA (i\<lparr>i_active := active\<rparr>)),
           [ModuleImplementationActiveChanged (i_provider i) (i_module_id i) (i_version i) active])))"

text \<open>A registered module of the TRUST: seeds, then \<open>module.trust == trust.key()\<close>.\<close>

definition module_account :: "pda_sdk \<Rightarrow> trust_store \<Rightarrow> pubkey \<Rightarrow> bytes32 option \<Rightarrow> AeqiTrustError \<Rightarrow>
  pubkey \<Rightarrow> AeqiTrustError err + Module" where
  "module_account P L trust seed_id mismatch key =
     rbind (load as_module L key) (\<lambda>m.
       require (seeds_ok P [Lit ''module'', B32 trust,
           B32 (case seed_id of None \<Rightarrow> m_module_id m | Some x \<Rightarrow> x)] (m_bump m) AEQI_TRUST_ID key)
         (Anchor ConstraintSeeds)
       (require (m_trust m = trust) (Prog mismatch) (Inr m)))"

definition AdoptModuleImplementation_accounts :: "pda_sdk \<Rightarrow> trust_store \<Rightarrow> pubkey \<Rightarrow> pubkey \<Rightarrow>
  pubkey \<Rightarrow> AeqiTrustError err + Trust \<times> Module \<times> ModuleImplementation" where
  "AdoptModuleImplementation_accounts P L trust module implementation =
     rbind (trust_account P L trust) (\<lambda>t.
     rbind (module_account P L trust None ImplementationModuleMismatch module) (\<lambda>m.
     rbind (implementation_account P L implementation) (\<lambda>i.
       Inr (t, m, i))))"

definition trust_adopt_module_implementation :: "pda_sdk \<Rightarrow> pubkey \<Rightarrow> pubkey \<Rightarrow> pubkey \<Rightarrow> pubkey \<Rightarrow>
  u64 \<Rightarrow> trust_store \<Rightarrow> trust_result" where
  "trust_adopt_module_implementation P trust module implementation authority trust_acl L =
     rbind (AdoptModuleImplementation_accounts P L trust module implementation) (\<lambda>(t, m, i).
     require (\<not> t_paused t) (Prog TrustPaused)
     (require (\<not> t_creation_mode t) (Prog TrustNotFinalized)
     (require (authority = t_authority t) (Prog Unauthorized)
     (require (i_active i) (Prog InactiveImplementation)
     (require (m_module_id m = i_module_id i) (Prog ImplementationModuleMismatch)
     (Inr (L(module \<mapsto> ModuleA (m\<lparr>m_program_id := i_implementation_program_id i,
               m_provider := i_provider i, m_implementation_version := i_version i,
               m_implementation_metadata_hash := i_metadata_hash i,
               m_trust_acl := trust_acl\<rparr>)),
           [ModuleImplementationAdopted trust (m_module_id m) (i_provider i) (i_version i)
              (i_implementation_program_id i) (i_metadata_hash i) trust_acl])))))))"

definition SetModuleAcl_accounts :: "pda_sdk \<Rightarrow> bytes32 \<Rightarrow> trust_store \<Rightarrow> pubkey \<Rightarrow> pubkey \<Rightarrow>
  pubkey \<Rightarrow> pubkey \<Rightarrow> AeqiTrustError err + Trust \<times> Module \<times> Module \<times> ModuleAclEdge \<times> u8" where
  "SetModuleAcl_accounts P target_module_id L trust source_module target_module acl_edge =
     rbind (trust_account P L trust) (\<lambda>t.
     rbind (module_account P L trust None AclSourceModuleMismatch source_module) (\<lambda>sm.
     rbind (module_account P L trust (Some target_module_id) AclTargetModuleMismatch
              target_module) (\<lambda>tm.
     rbind (init_if_needed P [Lit ''acl_edge'', B32 trust, B32 (m_module_id sm),
              B32 target_module_id] AEQI_TRUST_ID as_acl_edge
              \<lparr>e_trust = 0, e_source_module_id = 0, e_target_module_id = 0, e_flags = 0, e_bump = 0\<rparr>
              L acl_edge) (\<lambda>(e, bump).
       Inr (t, sm, tm, e, bump)))))"

definition trust_set_module_acl :: "pda_sdk \<Rightarrow> pubkey \<Rightarrow> pubkey \<Rightarrow> pubkey \<Rightarrow> pubkey \<Rightarrow> pubkey \<Rightarrow>
  bytes32 \<Rightarrow> u64 \<Rightarrow> trust_store \<Rightarrow> trust_result" where
  "trust_set_module_acl P trust source_module target_module acl_edge authority
     target_module_id flags L =
     rbind (SetModuleAcl_accounts P target_module_id L trust source_module target_module acl_edge)
       (\<lambda>(t, sm, tm, e, bump).
     require (\<not> t_paused t) (Prog TrustPaused)
     (require (authority = t_authority t) (Prog Unauthorized)
     (require (m_module_id tm = target_module_id) (Prog AclTargetModuleMismatch)
     (Inr (L(acl_edge \<mapsto> AclEdgeA (e\<lparr>e_trust := trust, e_source_module_id := m_module_id sm,
               e_target_module_id := target_module_id, e_flags := flags, e_bump := bump\<rparr>)),
           [ModuleAclSet trust (m_module_id sm) target_module_id flags])))))"

definition Finalize_accounts :: "pda_sdk \<Rightarrow> trust_store \<Rightarrow> pubkey \<Rightarrow> AeqiTrustError err + Trust" where
  "Finalize_accounts P L trust = trust_account P L trust"

definition trust_finalize :: "pda_sdk \<Rightarrow> pubkey \<Rightarrow> pubkey \<Rightarrow> trust_store \<Rightarrow> trust_result" where
  "trust_finalize P trust authority L =
     rbind (Finalize_accounts P L trust) (\<lambda>t.
     require (authority = t_authority t) (Prog Unauthorized)
     (require (\<not> t_paused t) (Prog TrustPaused)
     (require (t_creation_mode t) (Prog AlreadyFinalized)
     (require (t_module_count t > 0) (Prog NoModulesRegistered)
     (Inr (L(trust \<mapsto> TrustA (t\<lparr>t_creation_mode := False\<rparr>)),
           [TrustFinalized trust (t_module_count t)]))))))"

definition SetNumericConfig_accounts :: "pda_sdk \<Rightarrow> bytes32 \<Rightarrow> trust_store \<Rightarrow> pubkey \<Rightarrow> pubkey \<Rightarrow>
  pubkey option \<Rightarrow> AeqiTrustError err + Trust \<times> NumericConfig \<times> u8" where
  "SetNumericConfig_accounts P key L trust config source_module =
     rbind (trust_account P L trust) (\<lambda>t.
     rbind (init_if_needed P [Lit ''cfg_num'', B32 trust, B32 key] AEQI_TRUST_ID as_numeric_config
              \<lparr>nc_trust = 0, nc_key = 0, nc_value = 0, nc_bump = 0\<rparr> L config) (\<lambda>(c, bump).
     rbind (optional_module L source_module) (\<lambda>_.
       Inr (t, c, bump))))"

definition trust_set_numeric_config :: "pda_sdk \<Rightarrow> pubkey \<Rightarrow> pubkey \<Rightarrow> pubkey option \<Rightarrow> pubkey \<Rightarrow>
  bytes32 \<Rightarrow> u128 \<Rightarrow> trust_store \<Rightarrow> trust_result" where
  "trust_set_numeric_config P trust config source_module authority key value L =
     rbind (SetNumericConfig_accounts P key L trust config source_module) (\<lambda>(t, c, bump).
     rbind (gate_config_write t authority) (\<lambda>_.
       Inr (L(config \<mapsto> NumericConfigA (c\<lparr>nc_trust := trust, nc_key := key, nc_value := value,
                nc_bump := bump\<rparr>)), [])))"

definition SetAddressConfig_accounts :: "pda_sdk \<Rightarrow> bytes32 \<Rightarrow> trust_store \<Rightarrow> pubkey \<Rightarrow> pubkey \<Rightarrow>
  pubkey option \<Rightarrow> AeqiTrustError err + Trust \<times> AddressConfig \<times> u8" where
  "SetAddressConfig_accounts P key L trust config source_module =
     rbind (trust_account P L trust) (\<lambda>t.
     rbind (init_if_needed P [Lit ''cfg_addr'', B32 trust, B32 key] AEQI_TRUST_ID as_address_config
              \<lparr>ac_trust = 0, ac_key = 0, ac_value = 0, ac_bump = 0\<rparr> L config) (\<lambda>(c, bump).
     rbind (optional_module L source_module) (\<lambda>_.
       Inr (t, c, bump))))"

definition trust_set_address_config :: "pda_sdk \<Rightarrow> pubkey \<Rightarrow> pubkey \<Rightarrow> pubkey option \<Rightarrow> pubkey \<Rightarrow>
  bytes32 \<Rightarrow> pubkey \<Rightarrow> trust_store \<Rightarrow> trust_result" where
  "trust_set_address_config P trust config source_module authority key value L =
     rbind (SetAddressConfig_accounts P key L trust config source_module) (\<lambda>(t, c, bump).
     rbind (gate_config_write t authority) (\<lambda>_.
       Inr (L(config \<mapsto> AddressConfigA (c\<lparr>ac_trust := trust, ac_key := key, ac_value := value,
                ac_bump := bump\<rparr>)), [])))"

definition SetBytesConfig_accounts :: "pda_sdk \<Rightarrow> bytes32 \<Rightarrow> trust_store \<Rightarrow> pubkey \<Rightarrow> pubkey \<Rightarrow>
  pubkey option \<Rightarrow> AeqiTrustError err + Trust \<times> BytesConfig \<times> u8" where
  "SetBytesConfig_accounts P key L trust config source_module =
     rbind (trust_account P L trust) (\<lambda>t.
     rbind (init_if_needed P [Lit ''cfg_bytes'', B32 trust, B32 key] AEQI_TRUST_ID as_bytes_config
              \<lparr>bc_trust = 0, bc_key = 0, bc_value = [], bc_bump = 0\<rparr> L config) (\<lambda>(c, bump).
     rbind (optional_module L source_module) (\<lambda>_.
       Inr (t, c, bump))))"

definition trust_set_bytes_config :: "pda_sdk \<Rightarrow> pubkey \<Rightarrow> pubkey \<Rightarrow> pubkey option \<Rightarrow> pubkey \<Rightarrow>
  bytes32 \<Rightarrow> u8 list \<Rightarrow> trust_store \<Rightarrow> trust_result" where
  "trust_set_bytes_config P trust config source_module authority key value L =
     rbind (SetBytesConfig_accounts P key L trust config source_module) (\<lambda>(t, c, bump).
     require (length value \<le> MAX_BYTES_CONFIG) (Prog ConfigTooLarge)
     (rbind (gate_config_write t authority) (\<lambda>_.
       Inr (L(config \<mapsto> BytesConfigA (c\<lparr>bc_trust := trust, bc_key := key, bc_value := value,
                bc_bump := bump\<rparr>)), []))))"

definition SetPaused_accounts :: "pda_sdk \<Rightarrow> trust_store \<Rightarrow> pubkey \<Rightarrow> pubkey option \<Rightarrow>
  AeqiTrustError err + Trust" where
  "SetPaused_accounts P L trust source_module =
     rbind (trust_account P L trust) (\<lambda>t.
     rbind (optional_module L source_module) (\<lambda>_. Inr t))"

definition trust_set_paused :: "pda_sdk \<Rightarrow> pubkey \<Rightarrow> pubkey option \<Rightarrow> pubkey \<Rightarrow> bool \<Rightarrow>
  trust_store \<Rightarrow> trust_result" where
  "trust_set_paused P trust source_module authority paused L =
     rbind (SetPaused_accounts P L trust source_module) (\<lambda>t.
     require (authority = t_authority t) (Prog Unauthorized)
     (Inr (L(trust \<mapsto> TrustA (t\<lparr>t_paused := paused\<rparr>)), [TrustPauseChanged trust paused])))"

section \<open>What a successful instruction did\<close>

lemma as_acct [res]:
  "as_trust a = Some t \<longleftrightarrow> a = TrustA t"
  "as_module a = Some m \<longleftrightarrow> a = ModuleA m"
  "as_implementation a = Some i \<longleftrightarrow> a = ImplementationA i"
  "as_acl_edge a = Some e \<longleftrightarrow> a = AclEdgeA e"
  "as_numeric_config a = Some nc \<longleftrightarrow> a = NumericConfigA nc"
  "as_address_config a = Some ac \<longleftrightarrow> a = AddressConfigA ac"
  "as_bytes_config a = Some bc \<longleftrightarrow> a = BytesConfigA bc"
  by (cases a; simp)+

lemma gate_config_write_Inr [res]:
  "gate_config_write t s = Inr u \<longleftrightarrow> \<not> t_paused t \<and> s = t_authority t"
  by (auto simp: gate_config_write_def res)

lemma bump_module_count_Inr [res]:
  "bump_module_count t = Inr t' \<longleftrightarrow>
     (\<exists>n. unat n = unat (t_module_count t) + 1 \<and> t' = t\<lparr>t_module_count := n\<rparr>)"
  by (auto simp: bump_module_count_def res num)

lemma trust_account_Inr [res]:
  "trust_account P L key = Inr t \<longleftrightarrow> L key = Some (TrustA t) \<and>
     seeds_ok P [Lit ''trust'', B32 (t_trust_id t)] (t_bump t) AEQI_TRUST_ID key"
  by (auto simp: trust_account_def res)

lemma implementation_account_Inr [res]:
  "implementation_account P L key = Inr i \<longleftrightarrow> L key = Some (ImplementationA i) \<and>
     seeds_ok P [Lit ''module_impl'', B32 (i_provider i), B32 (i_module_id i), Le64 (i_version i)]
       (i_bump i) AEQI_TRUST_ID key"
  by (auto simp: implementation_account_def res)

lemma module_account_Inr [res]:
  "module_account P L trust seed_id e key = Inr m \<longleftrightarrow> L key = Some (ModuleA m) \<and> m_trust m = trust \<and>
     seeds_ok P [Lit ''module'', B32 trust,
       B32 (case seed_id of None \<Rightarrow> m_module_id m | Some x \<Rightarrow> x)] (m_bump m) AEQI_TRUST_ID key"
  by (auto simp: module_account_def res)

lemmas trust_accounts_defs =
  Initialize_accounts_def RegisterModule_accounts_def PublishModuleImplementation_accounts_def
  SetModuleImplementationActive_accounts_def AdoptModuleImplementation_accounts_def
  SetModuleAcl_accounts_def Finalize_accounts_def SetNumericConfig_accounts_def
  SetAddressConfig_accounts_def SetBytesConfig_accounts_def SetPaused_accounts_def

lemma trust_initialize_ok:
  "trust_initialize P trust authority trust_id L = Inr (L', ev) \<Longrightarrow>
   \<exists>bump. find_program_address P [Lit ''trust'', B32 trust_id] AEQI_TRUST_ID = (trust, bump) \<and>
     L trust = None \<and>
     L' = L(trust \<mapsto> TrustA \<lparr>t_trust_id = trust_id, t_authority = authority,
       t_creation_mode = True, t_paused = False, t_module_count = 0, t_bump = bump\<rparr>)"
  by (auto simp: trust_initialize_def trust_accounts_defs res)

lemma trust_register_module_ok:
  "trust_register_module P trust module authority module_id program_id provider v h acl L
     = Inr (L', ev) \<Longrightarrow>
   \<exists>t n bump. L trust = Some (TrustA t) \<and> L module = None \<and> \<not> t_paused t \<and>
     t_creation_mode t \<and> authority = t_authority t \<and> unat n = unat (t_module_count t) + 1 \<and>
     L' = L(trust \<mapsto> TrustA (t\<lparr>t_module_count := n\<rparr>),
            module \<mapsto> ModuleA \<lparr>m_trust = trust, m_module_id = module_id, m_program_id = program_id,
              m_provider = provider, m_implementation_version = v,
              m_implementation_metadata_hash = h, m_trust_acl = acl, m_initialized = 0,
              m_bump = bump\<rparr>)"
  by (auto simp: trust_register_module_def trust_accounts_defs res)

lemma trust_publish_ok:
  "trust_publish_module_implementation P x impl prog provider mid v h L = Inr (L', ev) \<Longrightarrow>
   \<exists>bump. L impl = None \<and> x \<and> 0 < v \<and>
     L' = L(impl \<mapsto> ImplementationA \<lparr>i_provider = provider, i_module_id = mid,
       i_implementation_program_id = prog, i_version = v, i_metadata_hash = h, i_active = True,
       i_bump = bump\<rparr>)"
  by (auto simp: trust_publish_module_implementation_def trust_accounts_defs res)

lemma trust_set_active_ok:
  "trust_set_module_implementation_active P impl provider active L = Inr (L', ev) \<Longrightarrow>
   \<exists>i. L impl = Some (ImplementationA i) \<and> provider = i_provider i \<and>
     L' = L(impl \<mapsto> ImplementationA (i\<lparr>i_active := active\<rparr>))"
  by (auto simp: trust_set_module_implementation_active_def trust_accounts_defs res)

lemma trust_adopt_ok:
  "trust_adopt_module_implementation P trust module impl authority acl L = Inr (L', ev) \<Longrightarrow>
   \<exists>t m i. L trust = Some (TrustA t) \<and> L module = Some (ModuleA m) \<and>
     L impl = Some (ImplementationA i) \<and> m_trust m = trust \<and> \<not> t_paused t \<and>
     \<not> t_creation_mode t \<and> authority = t_authority t \<and> i_active i \<and>
     m_module_id m = i_module_id i \<and>
     L' = L(module \<mapsto> ModuleA (m\<lparr>m_program_id := i_implementation_program_id i,
       m_provider := i_provider i, m_implementation_version := i_version i,
       m_implementation_metadata_hash := i_metadata_hash i, m_trust_acl := acl\<rparr>))"
  by (auto simp: trust_adopt_module_implementation_def trust_accounts_defs res)

lemma trust_set_module_acl_ok:
  "trust_set_module_acl P trust src tgt edge authority tid flags L = Inr (L', ev) \<Longrightarrow>
   \<exists>e t. L' = L(edge \<mapsto> AclEdgeA e) \<and> L trust = Some (TrustA t) \<and> \<not> t_paused t \<and>
     authority = t_authority t \<and> (L edge = None \<or> (\<exists>e0. L edge = Some (AclEdgeA e0)))"
  by (auto simp: trust_set_module_acl_def trust_accounts_defs res)

lemma trust_finalize_ok:
  "trust_finalize P trust authority L = Inr (L', ev) \<Longrightarrow>
   \<exists>t. L trust = Some (TrustA t) \<and> authority = t_authority t \<and> \<not> t_paused t \<and>
     t_creation_mode t \<and> 0 < t_module_count t \<and>
     L' = L(trust \<mapsto> TrustA (t\<lparr>t_creation_mode := False\<rparr>))"
  by (auto simp: trust_finalize_def trust_accounts_defs res)

lemma trust_set_paused_ok:
  "trust_set_paused P trust sm authority paused L = Inr (L', ev) \<Longrightarrow>
   \<exists>t. L trust = Some (TrustA t) \<and> authority = t_authority t \<and>
     L' = L(trust \<mapsto> TrustA (t\<lparr>t_paused := paused\<rparr>))"
  by (auto simp: trust_set_paused_def trust_accounts_defs res)

text \<open>The three config writes share one effect: a config account at a free address or over a
  config account, under an unpaused TRUST whose authority signed.\<close>

fun is_config :: "trust_acct \<Rightarrow> bool" where
  "is_config (NumericConfigA _) = True"
| "is_config (AddressConfigA _) = True"
| "is_config (BytesConfigA _) = True"
| "is_config _ = False"

definition config_write :: "trust_store \<Rightarrow> pubkey \<Rightarrow> pubkey \<Rightarrow> pubkey \<Rightarrow> trust_store \<Rightarrow> bool" where
  "config_write L trust config authority L' \<longleftrightarrow>
     (\<exists>c t. L' = L(config \<mapsto> c) \<and> is_config c \<and> L trust = Some (TrustA t) \<and> \<not> t_paused t \<and>
        authority = t_authority t \<and> (L config = None \<or> (\<exists>a. L config = Some a \<and> is_config a)))"

lemma trust_set_numeric_config_ok:
  "trust_set_numeric_config P trust config sm authority key v L = Inr (L', ev) \<Longrightarrow>
   config_write L trust config authority L'"
  by (auto simp: trust_set_numeric_config_def trust_accounts_defs config_write_def res)

lemma trust_set_address_config_ok:
  "trust_set_address_config P trust config sm authority key v L = Inr (L', ev) \<Longrightarrow>
   config_write L trust config authority L'"
  by (auto simp: trust_set_address_config_def trust_accounts_defs config_write_def res)

lemma trust_set_bytes_config_ok:
  "trust_set_bytes_config P trust config sm authority key v L = Inr (L', ev) \<Longrightarrow>
   config_write L trust config authority L'"
  by (auto simp: trust_set_bytes_config_def trust_accounts_defs config_write_def res)

lemma not_trust_config: "is_config c \<Longrightarrow> as_trust c = None \<and> as_module c = None"
  by (cases c) simp_all

lemma config_write_shape:
  "config_write L trust config a L' \<Longrightarrow> \<exists>c. L' = L(config \<mapsto> c) \<and>
     (L config = None \<or> (\<exists>b. L config = Some b \<and> as_trust b = None \<and> as_module b = None)) \<and>
     as_trust c = None \<and> as_module c = None"
  using not_trust_config by (fastforce simp: config_write_def)

section \<open>Runs of the program\<close>

text \<open>A step is one successful instruction, labelled with the account that signed it.\<close>

inductive trust_step :: "pda_sdk \<Rightarrow> pubkey \<Rightarrow> trust_store \<Rightarrow> trust_store \<Rightarrow> bool" for P where
  initialize: "trust_initialize P trust a tid L = Inr (L', ev) \<Longrightarrow> trust_step P a L L'"
| register_module: "trust_register_module P trust module a mid prog prov v h acl L = Inr (L', ev) \<Longrightarrow>
    trust_step P a L L'"
| publish: "trust_publish_module_implementation P x impl prog a mid v h L = Inr (L', ev) \<Longrightarrow>
    trust_step P a L L'"
| set_active: "trust_set_module_implementation_active P impl a active L = Inr (L', ev) \<Longrightarrow>
    trust_step P a L L'"
| adopt: "trust_adopt_module_implementation P trust module impl a acl L = Inr (L', ev) \<Longrightarrow>
    trust_step P a L L'"
| set_module_acl: "trust_set_module_acl P trust src tgt edge a tid flags L = Inr (L', ev) \<Longrightarrow>
    trust_step P a L L'"
| finalize: "trust_finalize P trust a L = Inr (L', ev) \<Longrightarrow> trust_step P a L L'"
| set_numeric_config: "trust_set_numeric_config P trust config sm a key nv L = Inr (L', ev) \<Longrightarrow>
    trust_step P a L L'"
| set_address_config: "trust_set_address_config P trust config sm a key av L = Inr (L', ev) \<Longrightarrow>
    trust_step P a L L'"
| set_bytes_config: "trust_set_bytes_config P trust config sm a key bv L = Inr (L', ev) \<Longrightarrow>
    trust_step P a L L'"
| set_paused: "trust_set_paused P trust sm a paused L = Inr (L', ev) \<Longrightarrow> trust_step P a L L'"

text \<open>The shape of a step: what it wrote, and under whose signature.\<close>

lemma trust_step_shape:
  assumes "trust_step P a L L'"
  obtains
    (new_trust) k t where "L k = None" "t_creation_mode t" "t_module_count t = 0"
      "L' = L(k \<mapsto> TrustA t)"
  | (new_module) k t n j m where "L k = Some (TrustA t)" "L j = None" "t_creation_mode t"
      "a = t_authority t" "unat n = unat (t_module_count t) + 1" "m_trust m = k"
      "L' = L(k \<mapsto> TrustA (t\<lparr>t_module_count := n\<rparr>), j \<mapsto> ModuleA m)"
  | (module_write) k t j m m' where "L k = Some (TrustA t)" "L j = Some (ModuleA m)"
      "a = t_authority t" "m_trust m = k" "m_trust m' = k"
      "L' = L(j \<mapsto> ModuleA m')"
  | (trust_write) k t cm pd where "L k = Some (TrustA t)" "a = t_authority t"
      "cm \<longrightarrow> t_creation_mode t" "\<not> cm \<longrightarrow> \<not> t_creation_mode t \<or> 0 < t_module_count t"
      "L' = L(k \<mapsto> TrustA (t\<lparr>t_creation_mode := cm, t_paused := pd\<rparr>))"
  | (other_write) j c where
      "L j = None \<or> (\<exists>b. L j = Some b \<and> as_trust b = None \<and> as_module b = None)"
      "as_trust c = None" "as_module c = None" "L' = L(j \<mapsto> c)"
  using assms
proof cases
  case initialize
  then show ?thesis by (auto dest!: trust_initialize_ok intro!: new_trust)
next
  case (register_module trust module mid prog prov v h acl ev)
  from trust_register_module_ok [OF this] show ?thesis
    by (elim exE conjE) (rule new_module [rotated -1], assumption, simp_all)
next
  case publish
  then show ?thesis by (auto dest!: trust_publish_ok intro!: other_write)
next
  case set_active
  then show ?thesis by (auto dest!: trust_set_active_ok intro!: other_write)
next
  case (adopt trust module impl acl ev)
  from trust_adopt_ok [OF this] show ?thesis
    by (elim exE conjE) (rule module_write [rotated -1], assumption, simp_all)
next
  case set_module_acl
  then show ?thesis by (auto dest!: trust_set_module_acl_ok intro!: other_write)
next
  case (finalize trust ev)
  then obtain t where "L trust = Some (TrustA t)" "a = t_authority t" "0 < t_module_count t"
    "L' = L(trust \<mapsto> TrustA (t\<lparr>t_creation_mode := False, t_paused := t_paused t\<rparr>))"
    by (auto dest!: trust_finalize_ok)
  then show ?thesis by (intro trust_write [of trust t False "t_paused t"]) auto
next
  case (set_numeric_config trust config sm key v ev)
  from trust_set_numeric_config_ok [OF this, THEN config_write_shape] show ?thesis
    by (elim exE conjE) (rule other_write [rotated -1], assumption, simp_all)
next
  case (set_address_config trust config sm key v ev)
  from trust_set_address_config_ok [OF this, THEN config_write_shape] show ?thesis
    by (elim exE conjE) (rule other_write [rotated -1], assumption, simp_all)
next
  case (set_bytes_config trust config sm key v ev)
  from trust_set_bytes_config_ok [OF this, THEN config_write_shape] show ?thesis
    by (elim exE conjE) (rule other_write [rotated -1], assumption, simp_all)
next
  case (set_paused trust sm paused ev)
  then obtain t where "L trust = Some (TrustA t)" "a = t_authority t"
    "L' = L(trust \<mapsto> TrustA (t\<lparr>t_creation_mode := t_creation_mode t, t_paused := paused\<rparr>))"
    by (auto dest!: trust_set_paused_ok)
  then show ?thesis by (intro trust_write [of trust t "t_creation_mode t" paused]) auto
qed


text \<open>The program's transition relation and its reachable stores.\<close>

definition trust_next :: "pda_sdk \<Rightarrow> trust_store \<Rightarrow> trust_store \<Rightarrow> bool" where
  "trust_next P L L' \<longleftrightarrow> (\<exists>a. trust_step P a L L')"

definition modules_of :: "trust_store \<Rightarrow> pubkey \<Rightarrow> pubkey set" where
  "modules_of L k = {j. \<exists>m. L j = Some (ModuleA m) \<and> m_trust m = k}"

definition trust_inv :: "trust_store \<Rightarrow> bool" where
  "trust_inv L \<longleftrightarrow>
     (\<forall>j m. L j = Some (ModuleA m) \<longrightarrow> (\<exists>t. L (m_trust m) = Some (TrustA t))) \<and>
     (\<forall>k t. L k = Some (TrustA t) \<longrightarrow>
        unat (t_module_count t) = card (modules_of L k) \<and>
        (\<not> t_creation_mode t \<longrightarrow> 0 < t_module_count t))"

lemma modules_of_same:
  "as_module c = None \<Longrightarrow> (\<And>b. L j = Some b \<Longrightarrow> as_module b = None) \<Longrightarrow>
   modules_of (L(j \<mapsto> c)) k = modules_of L k"
  by (auto simp: modules_of_def)

lemma modules_of_rewrite:
  "L j = Some (ModuleA m) \<Longrightarrow> m_trust m' = m_trust m \<Longrightarrow>
   modules_of (L(j \<mapsto> ModuleA m')) k = modules_of L k"
  by (auto simp: modules_of_def)

lemma modules_of_new:
  "L j = None \<Longrightarrow> modules_of (L(j \<mapsto> ModuleA m)) k =
     (if m_trust m = k then insert j (modules_of L k) else modules_of L k)"
  by (auto simp: modules_of_def)

lemma trust_inv_rewrite:
  assumes "trust_inv L" and k: "L k = Some (TrustA t)"
    and "t_module_count t' = t_module_count t"
    and "\<not> t_creation_mode t' \<Longrightarrow> \<not> t_creation_mode t \<or> 0 < t_module_count t"
  shows "trust_inv (L(k \<mapsto> TrustA t'))"
proof -
  have "modules_of (L(k \<mapsto> TrustA t')) = modules_of L"
    using k by (intro ext modules_of_same) auto
  with assms show ?thesis unfolding trust_inv_def by auto
qed

lemma trust_inv_other:
  assumes "trust_inv L" and "as_trust c = None" "as_module c = None"
    and j: "L j = None \<or> (\<exists>b. L j = Some b \<and> as_trust b = None \<and> as_module b = None)"
  shows "trust_inv (L(j \<mapsto> c))"
proof -
  have "modules_of (L(j \<mapsto> c)) = modules_of L"
    using assms by (intro ext modules_of_same) auto
  with assms show ?thesis unfolding trust_inv_def by force
qed

lemma trust_inv_new_trust:
  assumes "trust_inv L" and k: "L k = None" and "t_creation_mode t" "t_module_count t = 0"
  shows "trust_inv (L(k \<mapsto> TrustA t))"
proof -
  have "modules_of (L(k \<mapsto> TrustA t)) = modules_of L"
    using k by (intro ext modules_of_same) auto
  moreover have "modules_of L k = {}"
    using assms(1) k by (fastforce simp: modules_of_def trust_inv_def)
  ultimately show ?thesis using assms unfolding trust_inv_def by auto
qed

lemma trust_inv_new_module:
  assumes inv: "trust_inv L" and k: "L k = Some (TrustA t)" and j: "L j = None"
    and n: "unat n = unat (t_module_count t) + 1" and m: "m_trust m = k"
  shows "trust_inv (L(k \<mapsto> TrustA (t\<lparr>t_module_count := n\<rparr>), j \<mapsto> ModuleA m))"
    (is "trust_inv ?L'")
proof -
  have kj: "k \<noteq> j" using k j by auto
  have "modules_of (L(k \<mapsto> TrustA (t\<lparr>t_module_count := n\<rparr>))) = modules_of L"
    using k by (intro ext modules_of_same) auto
  then have mods: "modules_of ?L' i = (if i = k then insert j (modules_of L k) else modules_of L i)" for i
    using j kj m by (auto simp: modules_of_new)
  have "j \<notin> modules_of L k" using j by (simp add: modules_of_def)
  then have "card (insert j (modules_of L k)) = unat n"
    using inv k n by (simp add: trust_inv_def)
  moreover have "0 < n" using n by (simp add: word_less_nat_alt)
  ultimately show ?thesis
    using inv k j kj m unfolding trust_inv_def mods by auto (metis option.distinct(1))
qed

lemma trust_step_inv: "trust_step P a L L' \<Longrightarrow> trust_inv L \<Longrightarrow> trust_inv L'"
proof (elim trust_step_shape, goal_cases)
  case (1 k t)
  then show ?case by (auto intro: trust_inv_new_trust)
next
  case (2 k t n j m)
  then show ?case by (auto intro: trust_inv_new_module)
next
  case (3 k t j m m')
  then have "modules_of (L(j \<mapsto> ModuleA m')) = modules_of L"
    by (intro ext modules_of_rewrite [of L j m]) auto
  with 3 show ?case unfolding trust_inv_def
    by auto (metis option.inject trust_acct.distinct(1))
next
  case (4 k t cm pd)
  then show ?case by (auto intro: trust_inv_rewrite)
next
  case (5 j c)
  then show ?case by (auto intro!: trust_inv_other)
qed

interpretation trust_run: kept_by_steps "trust_next P" trust_inv for P
  by unfold_locales (auto simp: trust_next_def intro: trust_step_inv)

text \<open>What a run never takes back about a TRUST.\<close>

definition settles :: "Trust \<Rightarrow> Trust \<Rightarrow> bool" where
  "settles t t' \<longleftrightarrow>
     t_trust_id t' = t_trust_id t \<and> t_authority t' = t_authority t \<and>
     (t_creation_mode t' \<longrightarrow> t_creation_mode t) \<and>
     t_module_count t \<le> t_module_count t' \<and>
     (\<not> t_creation_mode t \<longrightarrow> t_module_count t' = t_module_count t)"

definition trust_settled :: "trust_store \<Rightarrow> trust_store \<Rightarrow> bool" where
  "trust_settled L L' \<longleftrightarrow> (\<forall>k t. L k = Some (TrustA t) \<longrightarrow>
     (\<exists>t'. L' k = Some (TrustA t') \<and> settles t t'))"

lemma settles_refl: "settles t t"
  by (simp add: settles_def)

lemma settles_trans: "settles t u \<Longrightarrow> settles u v \<Longrightarrow> settles t v"
  by (auto simp: settles_def)

lemma trust_settled_write:
  "(\<And>t. L j = Some (TrustA t) \<Longrightarrow> \<exists>t'. c = TrustA t' \<and> settles t t') \<Longrightarrow> trust_settled L (L(j \<mapsto> c))"
  by (auto simp: trust_settled_def settles_refl)

lemma trust_settled_trans: "trust_settled L M \<Longrightarrow> trust_settled M N \<Longrightarrow> trust_settled L N"
  unfolding trust_settled_def by (meson settles_trans)

lemma trust_step_settled: "trust_step P a L L' \<Longrightarrow> trust_settled L L'"
proof (elim trust_step_shape, goal_cases)
  case (2 k t n j m)
  then have "trust_settled L (L(k \<mapsto> TrustA (t\<lparr>t_module_count := n\<rparr>)))"
    by (intro trust_settled_write) (simp add: settles_def word_le_nat_alt)
  with 2 show ?case
    by (auto intro!: trust_settled_write elim!: trust_settled_trans split: if_splits)
next
  case (5 j c)
  then show ?case by (simp, intro trust_settled_write) auto
qed (simp, rule trust_settled_write, simp add: settles_def)+

interpretation trust_life: ordered_by_steps "trust_next P" trust_settled for P
proof
  show "trust_settled L L" for L by (simp add: trust_settled_def settles_refl)
qed (auto simp: trust_next_def intro: trust_step_settled trust_settled_trans)


section \<open>The contract of a module's \<open>init\<close>\<close>

text \<open>
  Every module program has an \<open>init\<close> that allocates its state account for a TRUST. What the
  TRUST relies on: it succeeds only in creation mode, only for the TRUST's authority, and only
  on a free address. Hence no outsider can occupy a module's address, a module is initialized
  at most once, and never after the TRUST was finalized.
\<close>

locale module_init =
  fixes init :: "pda_sdk \<Rightarrow> trust_store \<Rightarrow> pubkey \<Rightarrow> pubkey \<Rightarrow> pubkey \<Rightarrow> 's accts \<Rightarrow>
    'e err + 's accts \<times> 'v list"
  assumes gated: "init P TL trust ms payer L = Inr (L', ev) \<Longrightarrow>
    \<exists>t a. TL trust = Some (TrustA t) \<and> t_creation_mode t \<and> payer = t_authority t \<and>
      L ms = None \<and> L' = L(ms \<mapsto> a)"
begin

lemma only_authority:
  "TL trust = Some (TrustA t) \<Longrightarrow> payer \<noteq> t_authority t \<Longrightarrow> init P TL trust ms payer L \<noteq> Inr r"
  using gated [of P TL trust ms payer L "fst r" "snd r"] by auto

lemma once:
  "init P TL trust ms payer L = Inr (L', ev) \<Longrightarrow> init P' TL' trust' ms payer' L' \<noteq> Inr r"
  using gated [of P TL trust ms payer L L' ev] gated [of P' TL' trust' ms payer' L' "fst r" "snd r"]
  by auto

lemma not_when_live:
  "TL trust = Some (TrustA t) \<Longrightarrow> \<not> t_creation_mode t \<Longrightarrow> init P TL trust ms payer L \<noteq> Inr r"
  using gated [of P TL trust ms payer L "fst r" "snd r"] by auto

lemma never_after_finalize:
  assumes "TL trust = Some (TrustA t)" "\<not> t_creation_mode t" "(trust_next P)\<^sup>*\<^sup>* TL TL'"
  shows "init P' TL' trust ms payer L \<noteq> Inr r"
proof -
  obtain t' where "TL' trust = Some (TrustA t')" "\<not> t_creation_mode t'"
    using trust_life.run_rel [OF assms(3)] assms(1,2)
    by (auto simp: trust_settled_def settles_def)
  then show ?thesis by (rule not_when_live)
qed

end

section \<open>A concrete run\<close>

text \<open>Key 7 creates TRUST 5, registers module 9 and finalizes.\<close>

definition demo_trust :: pubkey where
  "demo_trust = demo_addr [Lit ''trust'', B32 5] AEQI_TRUST_ID"

definition demo_module :: pubkey where
  "demo_module = demo_addr [Lit ''module'', B32 demo_trust, B32 9] AEQI_TRUST_ID"

definition demo_t :: "bool \<Rightarrow> bool \<Rightarrow> u32 \<Rightarrow> Trust" where
  "demo_t cm pd n = \<lparr>t_trust_id = 5, t_authority = 7, t_creation_mode = cm, t_paused = pd,
     t_module_count = n, t_bump = 255\<rparr>"

definition demo_m :: Module where
  "demo_m = \<lparr>m_trust = demo_trust, m_module_id = 9, m_program_id = 11, m_provider = 12,
     m_implementation_version = 1, m_implementation_metadata_hash = 13, m_trust_acl = 128,
     m_initialized = 0, m_bump = 255\<rparr>"

definition demo_open :: trust_store where
  "demo_open = [demo_trust \<mapsto> TrustA (demo_t True False 1), demo_module \<mapsto> ModuleA demo_m]"

definition demo_live :: trust_store where
  "demo_live = [demo_trust \<mapsto> TrustA (demo_t False False 1), demo_module \<mapsto> ModuleA demo_m]"

definition demo_i :: ModuleImplementation where
  "demo_i = \<lparr>i_provider = 20, i_module_id = 9, i_implementation_program_id = 21, i_version = 2,
     i_metadata_hash = 22, i_active = True, i_bump = 255\<rparr>"

definition demo_impl :: pubkey where
  "demo_impl = demo_addr [Lit ''module_impl'', B32 20, B32 9, Le64 2] AEQI_TRUST_ID"

lemmas demo_trust_defs = demo_i_def demo_impl_def demo_trust_def demo_module_def demo_t_def demo_m_def demo_open_def
  demo_live_def demo_sdk_def demo_addr_def AEQI_TRUST_ID_def

lemma demo_trust_steps:
  "trust_initialize demo_sdk demo_trust 7 5 Map.empty =
     Inr ([demo_trust \<mapsto> TrustA (demo_t True False 0)], [TrustInitialized demo_trust 5 7])"
  "trust_register_module demo_sdk demo_trust demo_module 7 9 11 12 1 13 128
     [demo_trust \<mapsto> TrustA (demo_t True False 0)] =
     Inr (demo_open, [ModuleRegistered demo_trust 9 11 12 1 13 128])"
  "trust_finalize demo_sdk demo_trust 7 demo_open = Inr (demo_live, [TrustFinalized demo_trust 1])"
  by (simp_all add: trust_initialize_def trust_register_module_def trust_finalize_def
      trust_accounts_defs demo_trust_defs res init_account_def canonical_def require_def
      trust_account_def load_def seeds_ok_def bump_module_count_def checked_add_def
      fun_upd_twist)

lemma demo_trust_run:
  "(trust_next demo_sdk)\<^sup>*\<^sup>* Map.empty demo_open" "(trust_next demo_sdk)\<^sup>*\<^sup>* demo_open demo_live"
proof -
  have "trust_next demo_sdk Map.empty [demo_trust \<mapsto> TrustA (demo_t True False 0)]"
    using trust_step.initialize [OF demo_trust_steps(1)] by (auto simp: trust_next_def)
  moreover have "trust_next demo_sdk [demo_trust \<mapsto> TrustA (demo_t True False 0)] demo_open"
    using trust_step.register_module [OF demo_trust_steps(2)] by (auto simp: trust_next_def)
  ultimately show "(trust_next demo_sdk)\<^sup>*\<^sup>* Map.empty demo_open" by simp
  show "(trust_next demo_sdk)\<^sup>*\<^sup>* demo_open demo_live"
    using trust_step.finalize [OF demo_trust_steps(3)]
    by (intro r_into_rtranclp) (auto simp: trust_next_def)
qed

section \<open>Properties\<close>

lemma trust_inv_empty: "trust_inv Map.empty"
  by (simp add: trust_inv_def)

text \<open>The module counter is exact: in every store that successful instructions produce from
  the empty one, a TRUST's \<open>module_count\<close> is the number of module accounts registered
  under it, and a TRUST that has left creation mode has at least one.
\<close>

theorem trust_module_count_exact:
  assumes "(trust_next P)\<^sup>*\<^sup>* Map.empty L" and "L k = Some (TrustA t)"
  shows "unat (t_module_count t) = card (modules_of L k) \<and>
    (\<not> t_creation_mode t \<longrightarrow> modules_of L k \<noteq> {})"
proof -
  have "trust_inv L" using trust_run.run_keeps [OF assms(1) trust_inv_empty] .
  with assms(2) have "unat (t_module_count t) = card (modules_of L k)"
    "\<not> t_creation_mode t \<longrightarrow> 0 < t_module_count t"
    unfolding trust_inv_def by blast+
  then show ?thesis by (auto simp: word_less_nat_alt)
qed

theorem trust_module_count_exact_witness:
  "(trust_next demo_sdk)\<^sup>*\<^sup>* Map.empty demo_live \<and>
   demo_live demo_trust = Some (TrustA (demo_t False False 1)) \<and>
   1 = card (modules_of demo_live demo_trust)"
proof -
  have run: "(trust_next demo_sdk)\<^sup>*\<^sup>* Map.empty demo_live" using demo_trust_run by simp
  have t: "demo_live demo_trust = Some (TrustA (demo_t False False 1))"
    by (simp add: demo_trust_defs)
  show ?thesis using trust_module_count_exact [OF run t] run t by (simp add: demo_t_def)
qed

text \<open>The lifecycle of a TRUST only moves forward: along every run its id and its authority
  are fixed, it never re-enters creation mode, its module counter never falls, and once it
  is finalized the counter is frozen.
\<close>

theorem trust_lifecycle:
  assumes "(trust_next P)\<^sup>*\<^sup>* L L'" and "L k = Some (TrustA t)"
  shows "\<exists>t'. L' k = Some (TrustA t') \<and> t_trust_id t' = t_trust_id t \<and>
    t_authority t' = t_authority t \<and> (t_creation_mode t' \<longrightarrow> t_creation_mode t) \<and>
    t_module_count t \<le> t_module_count t' \<and>
    (\<not> t_creation_mode t \<longrightarrow> t_module_count t' = t_module_count t)"
  using trust_life.run_rel [OF assms(1)] assms(2) by (simp add: trust_settled_def settles_def)

theorem trust_lifecycle_witness:
  "(trust_next demo_sdk)\<^sup>*\<^sup>* demo_open demo_live \<and>
   demo_open demo_trust = Some (TrustA (demo_t True False 1)) \<and>
   (\<exists>t'. demo_live demo_trust = Some (TrustA t') \<and> t_authority t' = 7 \<and> 1 \<le> t_module_count t')"
proof -
  have t: "demo_open demo_trust = Some (TrustA (demo_t True False 1))"
    by (simp add: demo_trust_defs)
  show ?thesis
    using trust_lifecycle [OF demo_trust_run(2) t] t demo_trust_run(2) by (auto simp: demo_t_def)
qed

text \<open>Authority isolation: an instruction signed by any other key than a TRUST's authority
  changes neither the TRUST nor the set of its modules nor any of them.
\<close>

theorem trust_authority_isolation:
  assumes "trust_step P a L L'" and "L k = Some (TrustA t)" and "a \<noteq> t_authority t"
  shows "L' k = Some (TrustA t) \<and>
    (\<forall>j m. m_trust m = k \<longrightarrow> (L' j = Some (ModuleA m) \<longleftrightarrow> L j = Some (ModuleA m)))"
  using assms(1)
proof (cases rule: trust_step_shape)
  case (other_write j c)
  with assms show ?thesis by auto
qed (use assms in auto)

theorem trust_authority_isolation_witness:
  "trust_step demo_sdk 8 demo_open (demo_open(demo_addr [Lit ''trust'', B32 6] AEQI_TRUST_ID \<mapsto>
      TrustA ((demo_t True False 0)\<lparr>t_trust_id := 6, t_authority := 8\<rparr>))) \<and>
   8 \<noteq> t_authority (demo_t True False 1) \<and>
   (demo_open(demo_addr [Lit ''trust'', B32 6] AEQI_TRUST_ID \<mapsto>
      TrustA ((demo_t True False 0)\<lparr>t_trust_id := 6, t_authority := 8\<rparr>))) demo_trust =
     Some (TrustA (demo_t True False 1))"
proof -
  let ?k = "demo_addr [Lit ''trust'', B32 6] AEQI_TRUST_ID"
  let ?L = "demo_open(?k \<mapsto> TrustA ((demo_t True False 0)\<lparr>t_trust_id := 6, t_authority := 8\<rparr>))"
  have "trust_initialize demo_sdk ?k 8 6 demo_open = Inr (?L, [TrustInitialized ?k 6 8])"
    by (simp add: trust_initialize_def Initialize_accounts_def init_account_def canonical_def
        require_def demo_trust_defs)
  then have s: "trust_step demo_sdk 8 demo_open ?L" by (rule trust_step.initialize)
  have t: "demo_open demo_trust = Some (TrustA (demo_t True False 1))"
    by (simp add: demo_trust_defs)
  have a: "8 \<noteq> t_authority (demo_t True False 1)" by (simp add: demo_t_def)
  show ?thesis using trust_authority_isolation [OF s t a] s a by simp
qed

text \<open>Pause: while a TRUST is paused, registering or adopting a module, setting an ACL edge or
  a config slot, and finalizing all fail, whoever signs.
\<close>

theorem trust_pause_blocks:
  assumes "L k = Some (TrustA t)" and "t_paused t"
  shows "trust_register_module P k module a mid prog prov v h acl L \<noteq> Inr r \<and>
    trust_adopt_module_implementation P k module impl a acl L \<noteq> Inr r \<and>
    trust_set_module_acl P k src tgt edge a tid flags L \<noteq> Inr r \<and>
    trust_finalize P k a L \<noteq> Inr r \<and>
    trust_set_numeric_config P k config sm a key nv L \<noteq> Inr r \<and>
    trust_set_address_config P k config sm a key av L \<noteq> Inr r \<and>
    trust_set_bytes_config P k config sm a key bv L \<noteq> Inr r"
  using assms
  by (cases r) (auto dest!: trust_register_module_ok trust_adopt_ok trust_set_module_acl_ok
      trust_finalize_ok trust_set_numeric_config_ok trust_set_address_config_ok
      trust_set_bytes_config_ok simp: config_write_def)

theorem trust_pause_blocks_witness:
  "t_paused (demo_t False True 1) \<and>
   trust_finalize demo_sdk demo_trust 7 [demo_trust \<mapsto> TrustA (demo_t False True 1)] \<noteq>
     Inr (Map.empty, [])"
  using trust_pause_blocks [of "[demo_trust \<mapsto> TrustA (demo_t False True 1)]" demo_trust
      "demo_t False True 1"]
  by (simp add: demo_t_def)

text \<open>
  The ACL bitset is a set of flags: adding or removing one flag changes the answer of
  \<open>has_acl\<close> for that flag alone.
\<close>

theorem acl_flag_set:
  "(has_acl (add_acl acl f) g \<longleftrightarrow> g = f \<or> has_acl acl g) \<and>
   (has_acl (remove_acl acl f) g \<longleftrightarrow> g \<noteq> f \<and> has_acl acl g)"
proof -
  have inj: "acl_bit f = acl_bit g \<longleftrightarrow> f = g" by (cases f; cases g) simp_all
  have lim: "acl_bit h < 64" for h by (cases h) simp_all
  have has: "has_acl x h \<longleftrightarrow> bit x (acl_bit h)" for x h
    by (simp add: has_acl_def bit_iff_and_drop_bit_eq_1)
  show ?thesis
    using lim [of f] lim [of g] inj unfolding has add_acl_def remove_acl_def
    by (auto simp: bit_simps)
qed

text \<open>
  Adopting an implementation: it succeeds exactly for an unpaused, finalized TRUST whose
  authority signs, with an active catalogue entry for the same module id; the module then
  carries the entry's program, provider, version and metadata hash and the given ACL, and
  keeps its identity and init state.
\<close>

theorem adopt_module_implementation_effect:
  assumes "trust_adopt_module_implementation P trust module impl a acl L = Inr (L', ev)"
  shows "\<exists>t m i. L trust = Some (TrustA t) \<and> L module = Some (ModuleA m) \<and>
    L impl = Some (ImplementationA i) \<and> \<not> t_paused t \<and> \<not> t_creation_mode t \<and>
    a = t_authority t \<and> i_active i \<and> i_module_id i = m_module_id m \<and> m_trust m = trust \<and>
    (\<forall>k. k \<noteq> module \<longrightarrow> L' k = L k) \<and>
    (\<exists>m'. L' module = Some (ModuleA m') \<and> m_program_id m' = i_implementation_program_id i \<and>
      m_provider m' = i_provider i \<and> m_implementation_version m' = i_version i \<and>
      m_implementation_metadata_hash m' = i_metadata_hash i \<and> m_trust_acl m' = acl \<and>
      m_trust m' = trust \<and> m_module_id m' = m_module_id m \<and> m_initialized m' = m_initialized m)"
  using trust_adopt_ok [OF assms] by auto

theorem adopt_module_implementation_effect_witness:
  "\<exists>L' ev m'. trust_adopt_module_implementation demo_sdk demo_trust demo_module demo_impl 7 64
      (demo_live(demo_impl \<mapsto> ImplementationA demo_i)) = Inr (L', ev) \<and>
     L' demo_module = Some (ModuleA m') \<and> m_program_id m' = 21 \<and> m_trust_acl m' = 64"
proof -
  let ?L = "demo_live(demo_impl \<mapsto> ImplementationA demo_i)"
  obtain L' ev where ok: "trust_adopt_module_implementation demo_sdk demo_trust demo_module
      demo_impl 7 64 ?L = Inr (L', ev)"
    by (simp add: trust_adopt_module_implementation_def trust_accounts_defs module_account_def
        implementation_account_def trust_account_def load_def seeds_ok_def require_def
        demo_trust_defs)
  have "?L demo_impl = Some (ImplementationA demo_i)" by simp
  with adopt_module_implementation_effect [OF ok] ok show ?thesis by (auto simp: demo_i_def)
qed

end
