(* ===== verification/Aeqi_Role.thy ===== *)
theory Aeqi_Role
  imports Aeqi_Trust
begin

text \<open>
  The program \<open>aeqi_role\<close>: role types, the forest of roles under parent pointers, the
  bounded authority walk over caller-supplied accounts, delegations and the vote checkpoints
  that governance reads. \<open>remaining_accounts\<close> is the list of keys the client passes. Every
  account of an instruction is its own copy, and the mutable ones are written back in the
  order of the struct's fields, so that for two fields with the same key the later one wins.
\<close>

section \<open>Errors, state and events\<close>

datatype AeqiRoleError =
    Unauthorized | RoleNotVacant | RoleNotOccupied | AuthorityNotFound | InvalidAuthorityWalk
  | AuthorityWalkTooDeep | CheckpointAfterQuery | PrevCheckpointRequired | InvalidDelegatee
  | RoleTypeMismatch | MathOverflow | TrustNotInCreationMode

record RoleModuleState =
  rm_trust :: pubkey
  rm_initialized :: bool
  rm_bump :: u8

record RoleTypeConfig =
  rc_vesting :: bool
  rc_vesting_cliff :: i64
  rc_vesting_duration :: i64
  rc_fdv :: bool
  rc_fdv_start :: u128
  rc_fdv_end :: u128
  rc_probationary_period :: i64
  rc_severance_period :: i64
  rc_contribution :: bool

record RoleType =
  rt_trust :: pubkey
  rt_role_type_id :: bytes32
  rt_hierarchy :: u32
  rt_config :: RoleTypeConfig
  rt_role_count :: u32
  rt_bump :: u8

datatype RoleStatus = Vacant | Occupied | Resigned | Removed

fun role_status_u8 :: "RoleStatus \<Rightarrow> u8" where
  "role_status_u8 Vacant = 0"
| "role_status_u8 Occupied = 1"
| "role_status_u8 Resigned = 2"
| "role_status_u8 Removed = 3"

record Role =
  r_trust :: pubkey
  r_role_id :: bytes32
  r_role_type_id :: bytes32
  r_account :: pubkey
  r_parent_role_id :: bytes32
  r_status :: u8
  r_status_since :: i64
  r_ipfs_cid :: bytes64
  r_bump :: u8

record RoleDelegation =
  d_trust :: pubkey
  d_role_id :: bytes32
  d_delegatee :: pubkey
  d_bump :: u8

record RoleVoteCheckpoint =
  k_account :: pubkey
  k_role_type_id :: bytes32
  k_slot :: u64
  k_count :: u64
  k_bump :: u8

datatype role_acct =
    RoleModuleA RoleModuleState
  | RoleTypeA RoleType
  | RoleA Role
  | DelegationA RoleDelegation
  | CheckpointA RoleVoteCheckpoint

type_synonym role_store = "role_acct accts"

fun as_role_module :: "role_acct \<Rightarrow> RoleModuleState option" where
  "as_role_module (RoleModuleA s) = Some s" | "as_role_module _ = None"

fun as_role_type :: "role_acct \<Rightarrow> RoleType option" where
  "as_role_type (RoleTypeA t) = Some t" | "as_role_type _ = None"

fun as_role :: "role_acct \<Rightarrow> Role option" where
  "as_role (RoleA r) = Some r" | "as_role _ = None"

fun as_delegation :: "role_acct \<Rightarrow> RoleDelegation option" where
  "as_delegation (DelegationA d) = Some d" | "as_delegation _ = None"

fun as_checkpoint :: "role_acct \<Rightarrow> RoleVoteCheckpoint option" where
  "as_checkpoint (CheckpointA c) = Some c" | "as_checkpoint _ = None"

datatype role_event =
    RoleTypeCreated pubkey bytes32 u32
  | RoleCreated pubkey bytes32 bytes32 bytes32
  | RoleAssigned pubkey bytes32 pubkey
  | RoleTransferred pubkey bytes32 pubkey pubkey
  | RoleResigned pubkey bytes32 pubkey
  | RoleDelegated pubkey bytes32 pubkey pubkey

type_synonym role_result = "AeqiRoleError err + role_store \<times> role_event list"

definition AEQI_ROLE_ID :: pubkey where
  "AEQI_ROLE_ID = 0x3088037cd3da4ddeaa1d275c6e0675e5065d1c796e168e3f079ebe2812b16a30"

definition MAX_AUTHORITY_WALK :: nat where
  "MAX_AUTHORITY_WALK = 8"

definition zero_checkpoint :: RoleVoteCheckpoint where
  "zero_checkpoint = \<lparr>k_account = 0, k_role_type_id = 0, k_slot = 0, k_count = 0, k_bump = 0\<rparr>"

section \<open>Helpers\<close>

text \<open>The loop of the walk, at index \<open>i\<close> of the accounts still to visit.\<close>

fun authority_walk :: "role_store \<Rightarrow> Role \<Rightarrow> bytes32 \<Rightarrow> nat \<Rightarrow> pubkey list \<Rightarrow>
  AeqiRoleError err + unit" where
  "authority_walk L caller_role expected_id i [] = Inl (Prog AuthorityNotFound)"
| "authority_walk L caller_role expected_id i (acc # rest) =
     rbind (map_error (\<lambda>_. Prog InvalidAuthorityWalk) (load as_role L acc :: AeqiRoleError err + Role))
       (\<lambda>role.
     require (r_trust role = r_trust caller_role) (Prog InvalidAuthorityWalk)
     (require (r_role_id role = expected_id) (Prog InvalidAuthorityWalk)
     (if r_role_id role = r_role_id caller_role then Inr ()
      else if r_parent_role_id role = 0 then Inl (Prog AuthorityNotFound)
      else if i + 1 = MAX_AUTHORITY_WALK then Inl (Prog AuthorityWalkTooDeep)
      else authority_walk L caller_role (r_parent_role_id role) (i + 1) rest)))"

definition check_authority_walk :: "role_store \<Rightarrow> Role \<Rightarrow> bytes32 \<Rightarrow> pubkey list \<Rightarrow>
  AeqiRoleError err + unit" where
  "check_authority_walk L caller_role target_role_id remaining =
     (if r_role_id caller_role = target_role_id then Inr ()
      else authority_walk L caller_role target_role_id 0 (take MAX_AUTHORITY_WALK remaining))"

definition gate_role_creation :: "role_store \<Rightarrow> pubkey \<Rightarrow> RoleType \<Rightarrow> Role option \<Rightarrow> pubkey \<Rightarrow>
  bytes32 option \<Rightarrow> pubkey list \<Rightarrow> AeqiRoleError err + unit" where
  "gate_role_creation L trust role_type caller_role payer parent_role_id remaining =
     (case caller_role of
        Some c \<Rightarrow>
          require (r_trust c = trust) (Prog Unauthorized)
          (require (r_status c = role_status_u8 Occupied) (Prog Unauthorized)
          (require (r_account c = payer) (Prog Unauthorized)
          (case parent_role_id of
             Some parent \<Rightarrow> check_authority_walk L c parent remaining
           | None \<Rightarrow> Inr ())))
      | None \<Rightarrow>
          require (parent_role_id = None) (Prog Unauthorized)
          (require (rt_role_count role_type = 0) (Prog Unauthorized)
          (Inr ())))"

definition gate_role_assignment :: "role_store \<Rightarrow> Role \<Rightarrow> RoleType \<Rightarrow> Role option \<Rightarrow> pubkey \<Rightarrow>
  pubkey \<Rightarrow> pubkey list \<Rightarrow> AeqiRoleError err + unit" where
  "gate_role_assignment L role role_type caller_role payer assignee remaining =
     require (rt_trust role_type = r_trust role) (Prog Unauthorized)
     (require (r_role_type_id role = rt_role_type_id role_type) (Prog Unauthorized)
     (case caller_role of
        Some c \<Rightarrow>
          require (r_trust c = r_trust role) (Prog Unauthorized)
          (require (r_status c = role_status_u8 Occupied) (Prog Unauthorized)
          (require (r_account c = payer) (Prog Unauthorized)
          (if r_parent_role_id role \<noteq> 0
           then check_authority_walk L c (r_parent_role_id role) remaining
           else Inr ())))
      | None \<Rightarrow>
          require (r_parent_role_id role = 0) (Prog Unauthorized)
          (require (rt_role_count role_type = 1) (Prog Unauthorized)
          (require (assignee = payer) (Prog Unauthorized)
          (Inr ())))))"

definition bump_checkpoint :: "clock \<Rightarrow> RoleVoteCheckpoint \<Rightarrow> pubkey \<Rightarrow> bytes32 \<Rightarrow> i64 \<Rightarrow>
  AeqiRoleError err + RoleVoteCheckpoint" where
  "bump_checkpoint clk ckpt account role_type_id delta =
     rbind (ok_or (if 0 \<le>s delta then checked_add (k_count ckpt) delta
                   else checked_sub (k_count ckpt) (- delta)) (Prog MathOverflow)) (\<lambda>n.
       Inr (ckpt\<lparr>k_account := account, k_role_type_id := role_type_id, k_slot := slot clk,
              k_count := n\<rparr>))"

definition require_role_type_matches :: "Role \<Rightarrow> RoleType \<Rightarrow> AeqiRoleError err + unit" where
  "require_role_type_matches role role_type =
     require (rt_trust role_type = r_trust role) (Prog RoleTypeMismatch)
     (require (rt_role_type_id role_type = r_role_type_id role) (Prog RoleTypeMismatch)
     (Inr ()))"

definition bump_role_count :: "RoleType \<Rightarrow> AeqiRoleError err + RoleType" where
  "bump_role_count role_type =
     rbind (ok_or (checked_add (rt_role_count role_type) 1) (Prog MathOverflow)) (\<lambda>n.
       Inr (role_type\<lparr>rt_role_count := n\<rparr>))"

text \<open>\<open>caller_role: Option<Account<Role>>\<close>.\<close>

definition optional_role :: "role_store \<Rightarrow> pubkey option \<Rightarrow> AeqiRoleError err + Role option" where
  "optional_role L caller_role =
     (case caller_role of None \<Rightarrow> Inr None
      | Some k \<Rightarrow> rbind (load as_role L k) (\<lambda>r. Inr (Some r)))"

definition checkpoint_seeds :: "pubkey \<Rightarrow> bytes32 \<Rightarrow> pubkey \<Rightarrow> seed list" where
  "checkpoint_seeds trust role_type_id account =
     [Lit ''role_ckpt'', B32 trust, B32 role_type_id, B32 account]"

text \<open>The accounts \<open>role\<close> (\<open>has_one = trust\<close>) and \<open>role_type\<close> that assigning, resigning
  and transferring share.\<close>

definition role_and_type :: "role_store \<Rightarrow> pubkey \<Rightarrow> pubkey \<Rightarrow> pubkey \<Rightarrow>
  AeqiRoleError err + Role \<times> RoleType" where
  "role_and_type L role role_type trust =
     rbind (load as_role L role) (\<lambda>r.
     rbind (load as_role_type L role_type) (\<lambda>rt.
     require (r_trust r = trust) (Anchor ConstraintHasOne)
     (Inr (r, rt))))"

section \<open>Instructions\<close>

definition role_InitModule_accounts :: "pda_sdk \<Rightarrow> trust_store \<Rightarrow> role_store \<Rightarrow> pubkey \<Rightarrow> pubkey \<Rightarrow>
  AeqiRoleError err + Trust \<times> u8" where
  "role_InitModule_accounts P TL L trust module_state =
     rbind (trust_account P TL trust) (\<lambda>t.
     rbind (init_account P [Lit ''role_module'', B32 trust] AEQI_ROLE_ID L module_state) (\<lambda>bump.
       Inr (t, bump)))"

definition role_init :: "pda_sdk \<Rightarrow> trust_store \<Rightarrow> pubkey \<Rightarrow> pubkey \<Rightarrow> pubkey \<Rightarrow> role_store \<Rightarrow>
  role_result" where
  "role_init P TL trust module_state payer L =
     rbind (role_InitModule_accounts P TL L trust module_state) (\<lambda>(t, bump).
     require (t_creation_mode t) (Prog TrustNotInCreationMode)
     (require (payer = t_authority t) (Prog Unauthorized)
     (Inr (L(module_state \<mapsto> RoleModuleA
             \<lparr>rm_trust = trust, rm_initialized = True, rm_bump = bump\<rparr>), []))))"

definition role_FinalizeModule_accounts :: "pda_sdk \<Rightarrow> role_store \<Rightarrow> pubkey \<Rightarrow> pubkey \<Rightarrow>
  AeqiRoleError err + RoleModuleState" where
  "role_FinalizeModule_accounts P L trust module_state =
     rbind (load as_role_module L module_state) (\<lambda>s.
     require (seeds_ok P [Lit ''role_module'', B32 trust] (rm_bump s) AEQI_ROLE_ID module_state)
       (Anchor ConstraintSeeds) (Inr s))"

definition role_finalize :: "pda_sdk \<Rightarrow> pubkey \<Rightarrow> pubkey \<Rightarrow> role_store \<Rightarrow> role_result" where
  "role_finalize P trust module_state L =
     rbind (role_FinalizeModule_accounts P L trust module_state) (\<lambda>_. Inr (L, []))"

definition CreateRoleType_accounts :: "pda_sdk \<Rightarrow> bytes32 \<Rightarrow> role_store \<Rightarrow> pubkey \<Rightarrow> pubkey \<Rightarrow>
  AeqiRoleError err + u8" where
  "CreateRoleType_accounts P role_type_id L trust role_type =
     init_account P [Lit ''role_type'', B32 trust, B32 role_type_id] AEQI_ROLE_ID L role_type"

definition role_create_role_type :: "pda_sdk \<Rightarrow> pubkey \<Rightarrow> pubkey \<Rightarrow> bytes32 \<Rightarrow> u32 \<Rightarrow>
  RoleTypeConfig \<Rightarrow> role_store \<Rightarrow> role_result" where
  "role_create_role_type P trust role_type role_type_id hierarchy config L =
     rbind (CreateRoleType_accounts P role_type_id L trust role_type) (\<lambda>bump.
       Inr (L(role_type \<mapsto> RoleTypeA
              \<lparr>rt_trust = trust, rt_role_type_id = role_type_id, rt_hierarchy = hierarchy,
               rt_config = config, rt_role_count = 0, rt_bump = bump\<rparr>),
            [RoleTypeCreated trust role_type_id hierarchy]))"

definition CreateRole_accounts :: "pda_sdk \<Rightarrow> bytes32 \<Rightarrow> bytes32 \<Rightarrow> role_store \<Rightarrow> pubkey \<Rightarrow> pubkey \<Rightarrow>
  pubkey \<Rightarrow> pubkey option \<Rightarrow> AeqiRoleError err + RoleType \<times> u8 \<times> Role option" where
  "CreateRole_accounts P role_id role_type_id L trust role_type role caller_role =
     rbind (load as_role_type L role_type) (\<lambda>rt.
     require (seeds_ok P [Lit ''role_type'', B32 trust, B32 role_type_id] (rt_bump rt)
         AEQI_ROLE_ID role_type) (Anchor ConstraintSeeds)
     (rbind (init_account P [Lit ''role'', B32 trust, B32 role_id] AEQI_ROLE_ID L role) (\<lambda>bump.
     rbind (optional_role L caller_role) (\<lambda>c.
       Inr (rt, bump, c)))))"

definition role_create_role :: "pda_sdk \<Rightarrow> clock \<Rightarrow> pubkey \<Rightarrow> pubkey \<Rightarrow> pubkey \<Rightarrow> pubkey option \<Rightarrow>
  pubkey \<Rightarrow> pubkey list \<Rightarrow> bytes32 \<Rightarrow> bytes32 \<Rightarrow> bytes32 option \<Rightarrow> bytes64 \<Rightarrow> role_store \<Rightarrow>
  role_result" where
  "role_create_role P clk trust role_type role caller_role payer remaining role_id role_type_id
     parent_role_id ipfs_cid L =
     rbind (CreateRole_accounts P role_id role_type_id L trust role_type role caller_role)
       (\<lambda>(rt, bump, c).
     rbind (gate_role_creation L trust rt c payer parent_role_id remaining) (\<lambda>_.
     rbind (bump_role_count rt) (\<lambda>rt'.
       let parent = (case parent_role_id of None \<Rightarrow> 0 | Some p \<Rightarrow> p) in
       Inr (L(role_type \<mapsto> RoleTypeA rt',
              role \<mapsto> RoleA
                \<lparr>r_trust = trust, r_role_id = role_id, r_role_type_id = role_type_id,
                 r_account = 0, r_parent_role_id = parent, r_status = role_status_u8 Vacant,
                 r_status_since = unix_timestamp clk, r_ipfs_cid = ipfs_cid, r_bump = bump\<rparr>),
            [RoleCreated trust role_id role_type_id parent]))))"

definition AssignRole_accounts :: "pda_sdk \<Rightarrow> pubkey \<Rightarrow> role_store \<Rightarrow> pubkey \<Rightarrow> pubkey \<Rightarrow> pubkey \<Rightarrow>
  pubkey option \<Rightarrow> pubkey \<Rightarrow> AeqiRoleError err + Role \<times> RoleType \<times> Role option \<times> RoleVoteCheckpoint" where
  "AssignRole_accounts P account L role role_type trust caller_role checkpoint =
     rbind (role_and_type L role role_type trust) (\<lambda>(r, rt).
     rbind (optional_role L caller_role) (\<lambda>c.
     rbind (init_if_needed P (checkpoint_seeds trust (rt_role_type_id rt) account) AEQI_ROLE_ID
              as_checkpoint zero_checkpoint L checkpoint) (\<lambda>(k, bump).
       Inr (r, rt, c, k))))"

definition role_assign_role :: "pda_sdk \<Rightarrow> clock \<Rightarrow> pubkey \<Rightarrow> pubkey \<Rightarrow> pubkey \<Rightarrow> pubkey option \<Rightarrow>
  pubkey \<Rightarrow> pubkey \<Rightarrow> pubkey list \<Rightarrow> pubkey \<Rightarrow> role_store \<Rightarrow> role_result" where
  "role_assign_role P clk role role_type trust caller_role checkpoint payer remaining account L =
     rbind (AssignRole_accounts P account L role role_type trust caller_role checkpoint)
       (\<lambda>(r, rt, c, k).
     rbind (gate_role_assignment L r rt c payer account remaining) (\<lambda>_.
     rbind (require_role_type_matches r rt) (\<lambda>_.
     require (r_status r = role_status_u8 Vacant) (Prog RoleNotVacant)
     (rbind (bump_checkpoint clk k account (rt_role_type_id rt) 1) (\<lambda>k'.
       Inr (L(role \<mapsto> RoleA (r\<lparr>r_account := account, r_status := role_status_u8 Occupied,
                r_status_since := unix_timestamp clk\<rparr>),
              checkpoint \<mapsto> CheckpointA k'),
            [RoleAssigned (r_trust r) (r_role_id r) account]))))))"

definition ResignRole_accounts :: "pda_sdk \<Rightarrow> role_store \<Rightarrow> pubkey \<Rightarrow> pubkey \<Rightarrow> pubkey \<Rightarrow> pubkey \<Rightarrow>
  AeqiRoleError err + Role \<times> RoleType \<times> RoleVoteCheckpoint" where
  "ResignRole_accounts P L role role_type trust checkpoint =
     rbind (role_and_type L role role_type trust) (\<lambda>(r, rt).
     rbind (load as_checkpoint L checkpoint) (\<lambda>k.
     rbind (canonical P (checkpoint_seeds trust (rt_role_type_id rt) (r_account r)) AEQI_ROLE_ID
              checkpoint) (\<lambda>_.
       Inr (r, rt, k))))"

definition role_resign_role :: "pda_sdk \<Rightarrow> clock \<Rightarrow> pubkey \<Rightarrow> pubkey \<Rightarrow> pubkey \<Rightarrow> pubkey \<Rightarrow> pubkey \<Rightarrow>
  role_store \<Rightarrow> role_result" where
  "role_resign_role P clk role role_type trust checkpoint payer L =
     rbind (ResignRole_accounts P L role role_type trust checkpoint) (\<lambda>(r, rt, k).
     rbind (require_role_type_matches r rt) (\<lambda>_.
     require (r_status r = role_status_u8 Occupied) (Prog RoleNotOccupied)
     (require (payer = r_account r) (Prog Unauthorized)
     (rbind (bump_checkpoint clk k (r_account r) (rt_role_type_id rt) (- 1)) (\<lambda>k'.
       Inr (L(role \<mapsto> RoleA (r\<lparr>r_status := role_status_u8 Resigned,
                r_status_since := unix_timestamp clk, r_account := 0\<rparr>),
              checkpoint \<mapsto> CheckpointA k'),
            [RoleResigned (r_trust r) (r_role_id r) (r_account r)]))))))"

definition TransferRole_accounts :: "pda_sdk \<Rightarrow> role_store \<Rightarrow> pubkey \<Rightarrow> pubkey \<Rightarrow> pubkey \<Rightarrow> pubkey \<Rightarrow>
  pubkey \<Rightarrow> pubkey \<Rightarrow>
  AeqiRoleError err + Role \<times> RoleType \<times> RoleVoteCheckpoint \<times> RoleVoteCheckpoint" where
  "TransferRole_accounts P L role role_type trust prev_checkpoint new_checkpoint new_account =
     rbind (role_and_type L role role_type trust) (\<lambda>(r, rt).
     rbind (load as_checkpoint L prev_checkpoint) (\<lambda>k.
     rbind (canonical P (checkpoint_seeds trust (rt_role_type_id rt) (r_account r)) AEQI_ROLE_ID
              prev_checkpoint) (\<lambda>_.
     rbind (init_if_needed P (checkpoint_seeds trust (rt_role_type_id rt) new_account)
              AEQI_ROLE_ID as_checkpoint zero_checkpoint L new_checkpoint) (\<lambda>(k2, bump).
       Inr (r, rt, k, k2)))))"

definition role_transfer_role :: "pda_sdk \<Rightarrow> clock \<Rightarrow> pubkey \<Rightarrow> pubkey \<Rightarrow> pubkey \<Rightarrow> pubkey \<Rightarrow> pubkey \<Rightarrow>
  pubkey \<Rightarrow> pubkey \<Rightarrow> pubkey \<Rightarrow> role_store \<Rightarrow> role_result" where
  "role_transfer_role P clk role role_type trust prev_checkpoint new_checkpoint new_account_acc
     payer new_account L =
     rbind (TransferRole_accounts P L role role_type trust prev_checkpoint new_checkpoint
              new_account_acc) (\<lambda>(r, rt, k, k2).
     rbind (require_role_type_matches r rt) (\<lambda>_.
     require (new_account_acc = new_account) (Prog InvalidDelegatee)
     (require (r_status r = role_status_u8 Occupied) (Prog RoleNotOccupied)
     (require (payer = r_account r) (Prog Unauthorized)
     (rbind (bump_checkpoint clk k (r_account r) (rt_role_type_id rt) (- 1)) (\<lambda>k'.
     rbind (bump_checkpoint clk k2 new_account (rt_role_type_id rt) 1) (\<lambda>k2'.
       Inr (L(role \<mapsto> RoleA (r\<lparr>r_account := new_account,
                r_status_since := unix_timestamp clk\<rparr>),
              prev_checkpoint \<mapsto> CheckpointA k',
              new_checkpoint \<mapsto> CheckpointA k2'),
            [RoleTransferred (r_trust r) (r_role_id r) (r_account r) new_account])))))))) "

definition DelegateRole_accounts :: "pda_sdk \<Rightarrow> role_store \<Rightarrow> pubkey \<Rightarrow> pubkey \<Rightarrow> pubkey \<Rightarrow>
  pubkey option \<Rightarrow> pubkey \<Rightarrow> pubkey \<Rightarrow>
  AeqiRoleError err + Role \<times> RoleType \<times> RoleDelegation \<times> u8 \<times>
    (pubkey \<times> RoleVoteCheckpoint) option \<times> RoleVoteCheckpoint" where
  "DelegateRole_accounts P L role role_type delegation prev_checkpoint new_checkpoint new_delegatee =
     rbind (load as_role L role) (\<lambda>r.
     rbind (load as_role_type L role_type) (\<lambda>rt.
     rbind (init_if_needed P [Lit ''role_deleg'', B32 (r_trust r), B32 (r_role_id r)] AEQI_ROLE_ID
              as_delegation \<lparr>d_trust = 0, d_role_id = 0, d_delegatee = 0, d_bump = 0\<rparr>
              L delegation) (\<lambda>(d, bump).
     rbind (case prev_checkpoint of None \<Rightarrow> Inr None
            | Some key \<Rightarrow> rbind (load as_checkpoint L key) (\<lambda>k. Inr (Some (key, k)))) (\<lambda>pk.
     rbind (init_if_needed P (checkpoint_seeds (r_trust r) (rt_role_type_id rt) new_delegatee)
              AEQI_ROLE_ID as_checkpoint zero_checkpoint L new_checkpoint) (\<lambda>(k2, _).
       Inr (r, rt, d, bump, pk, k2))))))"

definition role_delegate_role :: "pda_sdk \<Rightarrow> clock \<Rightarrow> pubkey \<Rightarrow> pubkey \<Rightarrow> pubkey \<Rightarrow> pubkey option \<Rightarrow>
  pubkey \<Rightarrow> pubkey \<Rightarrow> pubkey \<Rightarrow> pubkey \<Rightarrow> role_store \<Rightarrow> role_result" where
  "role_delegate_role P clk role role_type delegation prev_checkpoint new_checkpoint new_delegatee
     payer delegatee L =
     rbind (DelegateRole_accounts P L role role_type delegation prev_checkpoint new_checkpoint
              new_delegatee) (\<lambda>(r, rt, d, bump, pk, k2).
     rbind (require_role_type_matches r rt) (\<lambda>_.
     require (delegatee \<noteq> 0) (Prog InvalidDelegatee)
     (require (new_delegatee = delegatee) (Prog InvalidDelegatee)
     (require (r_status r = role_status_u8 Occupied) (Prog RoleNotOccupied)
     (require (payer = r_account r) (Prog Unauthorized)
     (let prev = (if d_delegatee d = 0 then r_account r else d_delegatee d);
          d' = d\<lparr>d_trust := r_trust r, d_role_id := r_role_id r, d_delegatee := delegatee,
                 d_bump := bump\<rparr>;
          ev = [RoleDelegated (r_trust r) (r_role_id r) prev delegatee] in
      if prev = delegatee
      then Inr (L(delegation \<mapsto> DelegationA d', new_checkpoint \<mapsto> CheckpointA k2), ev)
      else
        rbind (ok_or pk (Prog PrevCheckpointRequired)) (\<lambda>(key, k).
        rbind (bump_checkpoint clk k prev (rt_role_type_id rt) (- 1)) (\<lambda>k'.
        rbind (bump_checkpoint clk k2 delegatee (rt_role_type_id rt) 1) (\<lambda>k2'.
          Inr (L(delegation \<mapsto> DelegationA d', key \<mapsto> CheckpointA k',
                 new_checkpoint \<mapsto> CheckpointA k2'), ev))))))))))"

definition GetPastRoleVotes_accounts :: "role_store \<Rightarrow> pubkey \<Rightarrow>
  AeqiRoleError err + RoleVoteCheckpoint" where
  "GetPastRoleVotes_accounts L checkpoint = load as_checkpoint L checkpoint"

definition role_get_past_role_votes :: "pubkey \<Rightarrow> u64 \<Rightarrow> role_store \<Rightarrow> AeqiRoleError err + u64" where
  "role_get_past_role_votes checkpoint query_slot L =
     rbind (GetPastRoleVotes_accounts L checkpoint) (\<lambda>k.
     require (k_slot k \<le> query_slot) (Prog CheckpointAfterQuery)
     (Inr (k_count k)))"


section \<open>What a successful instruction did\<close>

lemma as_role_acct [res]:
  "as_role_module a = Some s \<longleftrightarrow> a = RoleModuleA s"
  "as_role_type a = Some t \<longleftrightarrow> a = RoleTypeA t"
  "as_role a = Some r \<longleftrightarrow> a = RoleA r"
  "as_delegation a = Some d \<longleftrightarrow> a = DelegationA d"
  "as_checkpoint a = Some k \<longleftrightarrow> a = CheckpointA k"
  by (cases a; simp)+

definition ckpt_set :: "clock \<Rightarrow> pubkey \<Rightarrow> bytes32 \<Rightarrow> u64 \<Rightarrow> RoleVoteCheckpoint \<Rightarrow> RoleVoteCheckpoint" where
  "ckpt_set clk acc rt n k =
     k\<lparr>k_account := acc, k_role_type_id := rt, k_slot := slot clk, k_count := n\<rparr>"

lemma ckpt_set_count [simp]: "k_count (ckpt_set clk acc rt n k) = n"
  by (simp add: ckpt_set_def)

lemma bump_checkpoint_up [res]:
  "bump_checkpoint clk k acc rt 1 = Inr k' \<longleftrightarrow>
     (\<exists>n. unat n = unat (k_count k) + 1 \<and> k' = ckpt_set clk acc rt n k)"
  by (auto simp: bump_checkpoint_def ckpt_set_def res num)

lemma bump_checkpoint_down [res]:
  "bump_checkpoint clk k acc rt (- 1) = Inr k' \<longleftrightarrow>
     (\<exists>n. unat (k_count k) = unat n + 1 \<and> k' = ckpt_set clk acc rt n k)"
  by (auto simp: bump_checkpoint_def ckpt_set_def res num)

lemma require_role_type_matches_Inr [res]:
  "require_role_type_matches r rt = Inr u \<longleftrightarrow>
     rt_trust rt = r_trust r \<and> rt_role_type_id rt = r_role_type_id r"
  by (auto simp: require_role_type_matches_def res)

lemma bump_role_count_Inr [res]:
  "bump_role_count rt = Inr rt' \<longleftrightarrow>
     (\<exists>n. unat n = unat (rt_role_count rt) + 1 \<and> rt' = rt\<lparr>rt_role_count := n\<rparr>)"
  by (auto simp: bump_role_count_def res num)

lemma optional_role_Inr [res]:
  "optional_role L k = Inr c \<longleftrightarrow> (k = None \<and> c = None) \<or>
     (\<exists>j r. k = Some j \<and> L j = Some (RoleA r) \<and> c = Some r)"
  by (auto simp: optional_role_def res split: option.splits)

lemma role_and_type_Inr [res]:
  "role_and_type L role role_type trust = Inr (r, rt) \<longleftrightarrow>
     L role = Some (RoleA r) \<and> L role_type = Some (RoleTypeA rt) \<and> r_trust r = trust"
  by (auto simp: role_and_type_def res)

lemmas role_accounts_defs =
  role_InitModule_accounts_def role_FinalizeModule_accounts_def CreateRoleType_accounts_def
  CreateRole_accounts_def AssignRole_accounts_def ResignRole_accounts_def
  TransferRole_accounts_def DelegateRole_accounts_def GetPastRoleVotes_accounts_def

text \<open>The account an \<open>init_if_needed\<close> checkpoint starts from.\<close>

definition checkpoint_at :: "role_store \<Rightarrow> pubkey \<Rightarrow> RoleVoteCheckpoint \<Rightarrow> bool" where
  "checkpoint_at L key k \<longleftrightarrow> L key = None \<and> k = zero_checkpoint \<or> L key = Some (CheckpointA k)"

lemma role_init_ok:
  "role_init P TL trust ms payer L = Inr (L', ev) \<Longrightarrow>
   \<exists>t a. TL trust = Some (TrustA t) \<and> t_creation_mode t \<and> payer = t_authority t \<and>
     L ms = None \<and> L' = L(ms \<mapsto> a)"
  by (auto simp: role_init_def role_accounts_defs res)

lemma role_create_role_type_ok:
  "role_create_role_type P trust rt tid h c L = Inr (L', ev) \<Longrightarrow>
   \<exists>t. L' = L(rt \<mapsto> RoleTypeA t) \<and> L rt = None"
  by (auto simp: role_create_role_type_def role_accounts_defs res)

lemma role_create_role_ok:
  "role_create_role P clk trust rtk role ck payer rem rid rtid par cid L = Inr (L', ev) \<Longrightarrow>
   \<exists>rt n c bump. L rtk = Some (RoleTypeA rt) \<and> L role = None \<and> optional_role L ck = Inr c \<and>
     gate_role_creation L trust rt c payer par rem = Inr () \<and>
     unat n = unat (rt_role_count rt) + 1 \<and>
     L' = L(rtk \<mapsto> RoleTypeA (rt\<lparr>rt_role_count := n\<rparr>), role \<mapsto> RoleA
       \<lparr>r_trust = trust, r_role_id = rid, r_role_type_id = rtid, r_account = 0,
        r_parent_role_id = (case par of None \<Rightarrow> 0 | Some p \<Rightarrow> p), r_status = 0,
        r_status_since = unix_timestamp clk, r_ipfs_cid = cid, r_bump = bump\<rparr>)"
  by (auto simp: role_create_role_def role_accounts_defs res Let_def simp del: optional_role_Inr)

lemma role_assign_role_ok:
  "role_assign_role P clk role rtk trust ck ckpt payer rem acc L = Inr (L', ev) \<Longrightarrow>
   \<exists>r rt c k n. L role = Some (RoleA r) \<and> L rtk = Some (RoleTypeA rt) \<and>
     optional_role L ck = Inr c \<and> checkpoint_at L ckpt k \<and>
     gate_role_assignment L r rt c payer acc rem = Inr () \<and> r_status r = 0 \<and>
     unat n = unat (k_count k) + 1 \<and>
     L' = L(role \<mapsto> RoleA (r\<lparr>r_account := acc, r_status := 1,
         r_status_since := unix_timestamp clk\<rparr>),
       ckpt \<mapsto> CheckpointA (ckpt_set clk acc (rt_role_type_id rt) n k))"
  by (auto simp: role_assign_role_def role_accounts_defs res checkpoint_at_def
      simp del: optional_role_Inr)

lemma role_resign_role_ok:
  "role_resign_role P clk role rtk trust ckpt payer L = Inr (L', ev) \<Longrightarrow>
   \<exists>r rt k n. L role = Some (RoleA r) \<and> L rtk = Some (RoleTypeA rt) \<and>
     L ckpt = Some (CheckpointA k) \<and> r_status r = 1 \<and> payer = r_account r \<and>
     unat (k_count k) = unat n + 1 \<and>
     L' = L(role \<mapsto> RoleA (r\<lparr>r_status := 2, r_status_since := unix_timestamp clk,
         r_account := 0\<rparr>),
       ckpt \<mapsto> CheckpointA (ckpt_set clk (r_account r) (rt_role_type_id rt) n k))"
  by (auto simp: role_resign_role_def role_accounts_defs res)

lemma role_transfer_role_ok:
  assumes "role_transfer_role P clk role rtk trust pk nk na payer acc L = Inr (L', ev)"
  obtains r rt k n k2 n2 where "L role = Some (RoleA r)" "L rtk = Some (RoleTypeA rt)"
    "L pk = Some (CheckpointA k)" "checkpoint_at L nk k2" "r_status r = 1"
    "payer = r_account r" "na = acc" "unat (k_count k) = unat n + 1"
    "unat n2 = unat (k_count k2) + 1" "acc = r_account r \<Longrightarrow> pk = nk"
    "L' = L(role \<mapsto> RoleA (r\<lparr>r_account := acc, r_status_since := unix_timestamp clk\<rparr>),
       pk \<mapsto> CheckpointA (ckpt_set clk (r_account r) (rt_role_type_id rt) n k),
       nk \<mapsto> CheckpointA (ckpt_set clk acc (rt_role_type_id rt) n2 k2))"
proof -
  from assms show thesis
    by (simp add: role_transfer_role_def role_accounts_defs res)
      (elim exE conjE, rule that [rotated -1], erule sym, simp_all add: checkpoint_at_def)
qed

text \<open>A delegation either keeps its delegatee, or moves one vote between two checkpoints.\<close>

lemma role_delegate_role_ok:
  assumes "role_delegate_role P clk role rtk dk pk nk na payer dlg L = Inr (L', ev)"
  obtains
    (same) r d k2 where "L role = Some (RoleA r)" "r_status r = 1" "payer = r_account r"
      "dlg \<noteq> 0" "L dk = None \<or> (\<exists>d0. L dk = Some (DelegationA d0))" "checkpoint_at L nk k2"
      "L' = L(dk \<mapsto> DelegationA d, nk \<mapsto> CheckpointA k2)"
  | (moved) r rt d key k n k2 n2 prev where "L role = Some (RoleA r)" "r_status r = 1"
      "payer = r_account r" "dlg \<noteq> 0" "L dk = None \<or> (\<exists>d0. L dk = Some (DelegationA d0))"
      "pk = Some key" "L key = Some (CheckpointA k)" "checkpoint_at L nk k2"
      "unat (k_count k) = unat n + 1" "unat n2 = unat (k_count k2) + 1"
      "L' = L(dk \<mapsto> DelegationA d, key \<mapsto> CheckpointA (ckpt_set clk prev rt n k),
         nk \<mapsto> CheckpointA (ckpt_set clk dlg rt n2 k2))"
proof -
  note defs = role_delegate_role_def res Let_def
  from assms obtain r rt d bump q k2 where
    A: "DelegateRole_accounts P L role rtk dk pk nk na = Inr (r, rt, d, bump, q, k2)"
    by (auto simp: defs)
  then have r: "L role = Some (RoleA r)"
    and dk: "L dk = None \<or> (\<exists>d0. L dk = Some (DelegationA d0))"
    and k2: "checkpoint_at L nk k2"
    and q: "q = None \<or> (\<exists>key k. pk = Some key \<and> L key = Some (CheckpointA k) \<and> q = Some (key, k))"
    by (auto simp: role_accounts_defs res checkpoint_at_def split: option.splits)
  from assms A have g: "r_status r = 1" "payer = r_account r" "dlg \<noteq> 0"
    by (simp_all add: defs)
  show thesis
  proof (cases "(if d_delegatee d = 0 then r_account r else d_delegatee d) = dlg")
    case True
    with assms A g have "\<exists>d'. L' = L(dk \<mapsto> DelegationA d', nk \<mapsto> CheckpointA k2)"
      by (force simp: defs)
    with r g dk k2 show thesis using same by blast
  next
    case False
    with assms A g have "\<exists>d' key k n n2 prev ty. q = Some (key, k) \<and> unat (k_count k) = unat n + 1 \<and>
        unat n2 = unat (k_count k2) + 1 \<and>
        L' = L(dk \<mapsto> DelegationA d', key \<mapsto> CheckpointA (ckpt_set clk prev ty n k),
          nk \<mapsto> CheckpointA (ckpt_set clk dlg ty n2 k2))"
      by (simp add: defs) blast
    with r g dk k2 q show thesis using moved by blast
  qed
qed


section \<open>The authority walk\<close>

text \<open>One parent pointer of a TRUST's role forest, as the store has it.\<close>

definition parent_of :: "role_store \<Rightarrow> pubkey \<Rightarrow> bytes32 \<Rightarrow> bytes32 \<Rightarrow> bool" where
  "parent_of L trust child parent \<longleftrightarrow> parent \<noteq> 0 \<and>
     (\<exists>k r. L k = Some (RoleA r) \<and> r_trust r = trust \<and> r_role_id r = child \<and>
        r_parent_role_id r = parent)"

lemma authority_walk_sound:
  "authority_walk L c e i ks = Inr () \<Longrightarrow>
   \<exists>n < length ks. (parent_of L (r_trust c) ^^ n) e (r_role_id c)"
proof (induction ks arbitrary: e i)
  case (Cons k ks)
  then obtain r where r: "L k = Some (RoleA r)" "r_trust r = r_trust c" "r_role_id r = e"
    by (auto simp: res)
  show ?case
  proof (cases "e = r_role_id c")
    case True
    then show ?thesis by (intro exI [of _ 0]) simp
  next
    case False
    with Cons.prems r have "authority_walk L c (r_parent_role_id r) (i + 1) ks = Inr ()"
      and p: "r_parent_role_id r \<noteq> 0" by (auto simp: res split: if_splits)
    with Cons.IH obtain n where "n < length ks"
      "(parent_of L (r_trust c) ^^ n) (r_parent_role_id r) (r_role_id c)" by blast
    moreover from r p have "parent_of L (r_trust c) e (r_parent_role_id r)"
      by (auto simp: parent_of_def)
    ultimately show ?thesis 
      by (intro exI [of _ "Suc n"] conjI) (simp, rule relpowp_Suc_I2)
  qed
qed simp

lemma authority_walk_complete:
  assumes "L ck = Some (RoleA c)"
  shows "(parent_of L (r_trust c) ^^ n) e (r_role_id c) \<Longrightarrow> i + n < MAX_AUTHORITY_WALK \<Longrightarrow>
    \<exists>ks. length ks \<le> Suc n \<and> authority_walk L c e i ks = Inr ()"
proof (induction n arbitrary: e i)
  case 0
  then show ?case using assms by (intro exI [of _ "[ck]"]) (simp add: res)
next
  case (Suc n)
  from Suc.prems(1) obtain z where z: "parent_of L (r_trust c) e z"
    "(parent_of L (r_trust c) ^^ n) z (r_role_id c)" by (rule relpowp_Suc_E2)
  from Suc.IH [OF z(2), of "i + 1"] Suc.prems(2) obtain ks where
    ks: "length ks \<le> Suc n" "authority_walk L c z (i + 1) ks = Inr ()" by auto
  from z(1) obtain k r where "L k = Some (RoleA r)" "r_trust r = r_trust c" "r_role_id r = e"
    "r_parent_role_id r = z" "z \<noteq> 0" by (auto simp: parent_of_def)
  with ks Suc.prems(2) show ?case by (intro exI [of _ "k # ks"]) (simp add: res)
qed

lemma check_authority_walk_sound:
  assumes "check_authority_walk L c target remaining = Inr ()"
  shows "\<exists>n < MAX_AUTHORITY_WALK. (parent_of L (r_trust c) ^^ n) target (r_role_id c)"
proof (cases "r_role_id c = target")
  case True
  then show ?thesis by (intro exI [of _ 0]) (simp add: MAX_AUTHORITY_WALK_def)
next
  case False
  with assms authority_walk_sound [of L c target 0 "take MAX_AUTHORITY_WALK remaining"]
  show ?thesis by (auto simp: check_authority_walk_def)
qed

section \<open>Runs of the program\<close>

inductive role_step :: "pda_sdk \<Rightarrow> pubkey \<Rightarrow> role_store \<Rightarrow> role_store \<Rightarrow> bool" for P where
  init: "role_init P TL trust ms a L = Inr (L', ev) \<Longrightarrow> role_step P a L L'"
| finalize: "role_finalize P trust ms L = Inr (L', ev) \<Longrightarrow> role_step P a L L'"
| create_role_type: "role_create_role_type P trust rtk rtid h cfg L = Inr (L', ev) \<Longrightarrow>
    role_step P a L L'"
| create_role: "role_create_role P clk trust rtk role ck a rem rid rtid par cid L = Inr (L', ev) \<Longrightarrow>
    role_step P a L L'"
| assign_role: "role_assign_role P clk role rtk trust ck ckpt a rem acc L = Inr (L', ev) \<Longrightarrow>
    role_step P a L L'"
| resign_role: "role_resign_role P clk role rtk trust ckpt a L = Inr (L', ev) \<Longrightarrow> role_step P a L L'"
| transfer_role: "role_transfer_role P clk role rtk trust pk nk na a acc L = Inr (L', ev) \<Longrightarrow>
    role_step P a L L'"
| delegate_role: "role_delegate_role P clk role rtk dk pk' nk na a dlg L = Inr (L', ev) \<Longrightarrow>
    role_step P a L L'"

text \<open>How one role may change under the signature \<open>a\<close>.\<close>

definition same_role :: "Role \<Rightarrow> Role \<Rightarrow> bool" where
  "same_role r r' \<longleftrightarrow> r_trust r' = r_trust r \<and> r_role_id r' = r_role_id r \<and>
     r_role_type_id r' = r_role_type_id r \<and> r_parent_role_id r' = r_parent_role_id r \<and>
     r_ipfs_cid r' = r_ipfs_cid r"

definition role_change :: "pubkey \<Rightarrow> Role \<Rightarrow> Role \<Rightarrow> bool" where
  "role_change a r r' \<longleftrightarrow> same_role r r' \<and>
     (r' = r \<or>
      r_status r = role_status_u8 Vacant \<and> r_status r' = role_status_u8 Occupied \<or>
      r_status r = role_status_u8 Occupied \<and> a = r_account r \<and>
        r_status r' \<in> {role_status_u8 Occupied, role_status_u8 Resigned})"

lemma role_step_role:
  assumes "role_step P a L L'" and k: "L k = Some (RoleA r)"
  shows "\<exists>r'. L' k = Some (RoleA r') \<and> role_change a r r'"
  using assms(1)
proof cases
  case init
  then show ?thesis using k by (auto dest!: role_init_ok simp: role_change_def same_role_def)
next
  case finalize
  then show ?thesis using k
    by (auto simp: role_finalize_def role_accounts_defs res role_change_def same_role_def)
next
  case create_role_type
  then show ?thesis using k
    by (auto dest!: role_create_role_type_ok simp: role_change_def same_role_def)
next
  case create_role
  then show ?thesis using k
    by (auto dest!: role_create_role_ok simp: role_change_def same_role_def)
next
  case assign_role
  then show ?thesis using k
    by (auto dest!: role_assign_role_ok simp: role_change_def same_role_def checkpoint_at_def)
next
  case resign_role
  then show ?thesis using k
    by (auto dest!: role_resign_role_ok simp: role_change_def same_role_def)
next
  case transfer_role
  then show ?thesis using k
    by (elim role_transfer_role_ok)
      (auto simp: role_change_def same_role_def checkpoint_at_def)
next
  case delegate_role
  then show ?thesis using k
    by (elim role_delegate_role_ok)
      (auto simp: role_change_def same_role_def checkpoint_at_def)
qed


text \<open>The relation a run keeps: identities are fixed, and a resigned role never changes.\<close>

definition role_next :: "pda_sdk \<Rightarrow> role_store \<Rightarrow> role_store \<Rightarrow> bool" where
  "role_next P L L' \<longleftrightarrow> (\<exists>a. role_step P a L L')"

definition role_later :: "Role \<Rightarrow> Role \<Rightarrow> bool" where
  "role_later r r' \<longleftrightarrow> same_role r r' \<and> r_status r \<le> r_status r' \<and>
     (r_status r' = r_status r \<or> r_status r' \<in> {1, 2}) \<and>
     (r_status r \<notin> {0, 1} \<longrightarrow> r' = r)"

definition roles_later :: "role_store \<Rightarrow> role_store \<Rightarrow> bool" where
  "roles_later L L' \<longleftrightarrow> (\<forall>k r. L k = Some (RoleA r) \<longrightarrow>
     (\<exists>r'. L' k = Some (RoleA r') \<and> role_later r r'))"

lemma role_change_later: "role_change a r r' \<Longrightarrow> role_later r r'"
  by (auto simp: role_change_def role_later_def same_role_def)

lemma role_later_trans: "role_later r s \<Longrightarrow> role_later s t \<Longrightarrow> role_later r t"
  by (auto simp: role_later_def same_role_def)

interpretation role_life: ordered_by_steps "role_next P" roles_later for P
proof
  show "roles_later L L" for L by (simp add: roles_later_def role_later_def same_role_def)
  show "roles_later L M \<Longrightarrow> roles_later M N \<Longrightarrow> roles_later L N" for L M N
    unfolding roles_later_def by (meson role_later_trans)
  show "role_next P L L' \<Longrightarrow> roles_later L L'" for L L'
    unfolding roles_later_def role_next_def by (meson role_step_role role_change_later)
qed

interpretation role_module: module_init role_init
  by unfold_locales (rule role_init_ok)

section \<open>Vote accounting\<close>

fun acct_votes :: "role_acct \<Rightarrow> nat" where
  "acct_votes (CheckpointA k) = unat (k_count k)"
| "acct_votes _ = 0"

definition votes :: "role_store \<Rightarrow> nat" where
  "votes L = total acct_votes L"

lemma votes_checkpoint:
  "checkpoint_at L j k \<Longrightarrow>
   votes (L(j \<mapsto> CheckpointA k')) + unat (k_count k) = votes L + unat (k_count k')"
  using total_write [of acct_votes L j "CheckpointA k'"]
  by (auto simp: votes_def checkpoint_at_def at_def zero_checkpoint_def)

lemma votes_other:
  "acct_votes a = 0 \<Longrightarrow> at acct_votes L j = 0 \<Longrightarrow> votes (L(j \<mapsto> a)) = votes L"
  using total_write [of acct_votes L j a] by (simp add: votes_def)

lemma votes_move:
  assumes k: "checkpoint_at L j k" and k2: "checkpoint_at L i k2" and "i \<noteq> j"
    and "unat (k_count k) = unat (k_count k') + 1" "unat (k_count k2') = unat (k_count k2) + 1"
  shows "votes (L(j \<mapsto> CheckpointA k', i \<mapsto> CheckpointA k2')) = votes L"
proof -
  have "checkpoint_at (L(j \<mapsto> CheckpointA k')) i k2"
    using assms by (auto simp: checkpoint_at_def)
  from votes_checkpoint [OF this, of k2'] votes_checkpoint [OF k, of k'] assms(4,5)
  show ?thesis by simp
qed

lemma transfer_votes:
  assumes "role_transfer_role P clk role rtk trust pk nk na payer acc L = Inr (L', ev)"
  shows "votes L' = votes L + (if pk = nk then 1 else 0)"
  using assms
proof (rule role_transfer_role_ok)
  fix r rt k n k2 n2
  assume r: "L role = Some (RoleA r)" and k: "L pk = Some (CheckpointA k)"
    and k2: "checkpoint_at L nk k2"
    and n: "unat (k_count k) = unat n + 1" "unat n2 = unat (k_count k2) + 1"
    and L': "L' = L(role \<mapsto> RoleA (r\<lparr>r_account := acc, r_status_since := unix_timestamp clk\<rparr>),
       pk \<mapsto> CheckpointA (ckpt_set clk (r_account r) (rt_role_type_id rt) n k),
       nk \<mapsto> CheckpointA (ckpt_set clk acc (rt_role_type_id rt) n2 k2))"
  let ?M = "L(role \<mapsto> RoleA (r\<lparr>r_account := acc, r_status_since := unix_timestamp clk\<rparr>))"
  have M: "votes ?M = votes L" using r by (intro votes_other) (simp_all add: at_def)
  have pk: "checkpoint_at ?M pk k" using r k by (auto simp: checkpoint_at_def)
  have nk: "checkpoint_at ?M nk k2" using r k2 by (auto simp: checkpoint_at_def)
  show ?thesis
  proof (cases "pk = nk")
    case True
    with k k2 have "k2 = k" by (auto simp: checkpoint_at_def)
    with True L' M n votes_checkpoint [OF pk, of "ckpt_set clk acc (rt_role_type_id rt) n2 k2"]
    show ?thesis by simp
  next
    case False
    with votes_move [OF pk nk] L' M n show ?thesis by simp
  qed
qed

text \<open>A write at an address that holds no votes may be dropped from the count.\<close>

lemma votes_delegation:
  assumes "L dk = None \<or> (\<exists>d0. L dk = Some (DelegationA d0))"
  shows "votes (L(dk \<mapsto> DelegationA d)) = votes L"
    and "checkpoint_at L j k \<Longrightarrow> j \<noteq> dk \<Longrightarrow> checkpoint_at (L(dk \<mapsto> DelegationA d)) j k"
  using assms by (auto simp: at_def checkpoint_at_def intro!: votes_other)

lemma delegate_votes:
  assumes "role_delegate_role P clk role rtk dk pk nk na payer dlg L = Inr (L', ev)"
    and apart: "pk \<noteq> Some nk"
  shows "votes L' = votes L"
  using assms(1)
proof (cases rule: role_delegate_role_ok)
  case (same r d k2)
  then have "votes (L(nk \<mapsto> CheckpointA k2)) = votes L"
    "nk \<noteq> dk \<Longrightarrow> votes (L(dk \<mapsto> DelegationA d, nk \<mapsto> CheckpointA k2)) = votes (L(dk \<mapsto> DelegationA d))"
    using votes_checkpoint [of L nk k2 k2]
      votes_checkpoint [of "L(dk \<mapsto> DelegationA d)" nk k2 k2] votes_delegation(2) by auto
  with same show ?thesis using votes_delegation(1) by (cases "nk = dk") auto
next
  case (moved r rt d key k n k2 n2 prev)
  let ?a = "ckpt_set clk prev rt n k" and ?b = "ckpt_set clk dlg rt n2 k2"
  from moved apart have key: "checkpoint_at L key k" "nk \<noteq> key" "key \<noteq> dk"
    by (auto simp: checkpoint_at_def)
  show ?thesis
  proof (cases "nk = dk")
    case True
    then have "L' = L(key \<mapsto> CheckpointA ?a, nk \<mapsto> CheckpointA ?b)"
      using moved key by (simp add: fun_upd_twist)
    with votes_move [OF key(1) moved(8) key(2), of ?a ?b] moved show ?thesis by simp
  next
    case False
    have "checkpoint_at (L(dk \<mapsto> DelegationA d)) key k" "checkpoint_at (L(dk \<mapsto> DelegationA d)) nk k2"
      "votes (L(dk \<mapsto> DelegationA d)) = votes L"
      using votes_delegation(1) [of L dk d] votes_delegation(2) [of L dk _ _ d] moved key False
      by blast+
    with votes_move [of "L(dk \<mapsto> DelegationA d)" key k nk k2 ?a ?b] key moved show ?thesis
      by simp
  qed
qed


section \<open>A concrete store\<close>

text \<open>TRUST 50, role type 3, the founder's role 1 (held by key 7) and its vacant child 2.\<close>

definition demo_role :: "bytes32 \<Rightarrow> bytes32 \<Rightarrow> pubkey \<Rightarrow> u8 \<Rightarrow> Role" where
  "demo_role i parent acc st = \<lparr>r_trust = 50, r_role_id = i, r_role_type_id = 3, r_account = acc,
     r_parent_role_id = parent, r_status = st, r_status_since = 0, r_ipfs_cid = 0, r_bump = 255\<rparr>"

definition demo_ckpt :: "pubkey \<Rightarrow> pubkey" where
  "demo_ckpt acc = demo_addr (checkpoint_seeds 50 3 acc) AEQI_ROLE_ID"

definition demo_roles :: role_store where
  "demo_roles = [100 \<mapsto> RoleA (demo_role 1 0 7 1), 101 \<mapsto> RoleA (demo_role 2 1 0 0),
     102 \<mapsto> RoleTypeA \<lparr>rt_trust = 50, rt_role_type_id = 3, rt_hierarchy = 0,
       rt_config = \<lparr>rc_vesting = False, rc_vesting_cliff = 0, rc_vesting_duration = 0,
         rc_fdv = False, rc_fdv_start = 0, rc_fdv_end = 0, rc_probationary_period = 0,
         rc_severance_period = 0, rc_contribution = False\<rparr>, rt_role_count = 2, rt_bump = 255\<rparr>,
     demo_ckpt 7 \<mapsto> CheckpointA \<lparr>k_account = 7, k_role_type_id = 3, k_slot = 1, k_count = 1,
       k_bump = 0\<rparr>]"

definition demo_clock :: clock where
  "demo_clock = \<lparr>slot = 10, unix_timestamp = 1000\<rparr>"

lemmas demo_role_defs = demo_role_def demo_ckpt_def demo_roles_def demo_clock_def demo_sdk_def
  demo_addr_def AEQI_ROLE_ID_def checkpoint_seeds_def zero_checkpoint_def

lemmas eval_role = role_assign_role_def role_transfer_role_def role_accounts_defs
  role_and_type_def optional_role_def load_def require_def init_if_needed_def canonical_def
  gate_role_assignment_def check_authority_walk_def require_role_type_matches_def
  bump_checkpoint_def checked_add_def checked_sub_def word_sle_eq

section \<open>Properties\<close>

text \<open>
  C10. The authority walk decides ancestry: for a role \<open>c\<close> of the store there are accounts
  that make \<open>check_authority_walk\<close> accept a target exactly when \<open>c\<close> is the target or is
  reached from it by fewer than \<open>MAX_AUTHORITY_WALK\<close> parent pointers inside its TRUST.
\<close>

theorem authority_walk_decides:
  assumes "L ck = Some (RoleA c)"
  shows "(\<exists>remaining. check_authority_walk L c target remaining = Inr ()) \<longleftrightarrow>
    (\<exists>n < MAX_AUTHORITY_WALK. (parent_of L (r_trust c) ^^ n) target (r_role_id c))"
proof
  assume "\<exists>n < MAX_AUTHORITY_WALK. (parent_of L (r_trust c) ^^ n) target (r_role_id c)"
  then obtain n where n: "n < MAX_AUTHORITY_WALK"
    "(parent_of L (r_trust c) ^^ n) target (r_role_id c)" by blast
  with authority_walk_complete [OF assms n(2), of 0] obtain ks where
    "length ks \<le> Suc n" "authority_walk L c target 0 ks = Inr ()" by auto
  with n(1) show "\<exists>remaining. check_authority_walk L c target remaining = Inr ()"
    by (intro exI [of _ ks]) (simp add: check_authority_walk_def)
qed (blast dest: check_authority_walk_sound)

theorem authority_walk_decides_witness:
  "demo_roles 100 = Some (RoleA (demo_role 1 0 7 1)) \<and>
   (\<exists>n < MAX_AUTHORITY_WALK. (parent_of demo_roles 50 ^^ n) 2 1)"
proof -
  have c: "demo_roles 100 = Some (RoleA (demo_role 1 0 7 1))" by (simp add: demo_role_defs)
  have "check_authority_walk demo_roles (demo_role 1 0 7 1) 2 [101, 100] = Inr ()"
    by (simp add: check_authority_walk_def MAX_AUTHORITY_WALK_def load_def require_def demo_role_defs)
  with authority_walk_decides [of demo_roles 100 "demo_role 1 0 7 1" 2] c show ?thesis by (auto simp: demo_role_def)
qed

text \<open>The life of a role: along every run a role keeps its TRUST, id, type, parent and CID;
  its status only moves forward, from vacant over occupied to resigned; and a resigned role
  never changes again.
\<close>

theorem role_lifecycle:
  assumes "(role_next P)\<^sup>*\<^sup>* L L'" and "L k = Some (RoleA r)"
  shows "\<exists>r'. L' k = Some (RoleA r') \<and> same_role r r' \<and> r_status r \<le> r_status r' \<and>
    (r_status r' \<in> {r_status r, role_status_u8 Occupied, role_status_u8 Resigned}) \<and>
    (r_status r = role_status_u8 Resigned \<longrightarrow> r' = r)"
  using role_life.run_rel [OF assms(1)] assms(2)
  by (fastforce simp: roles_later_def role_later_def)

lemma demo_assign:
  "role_assign_role demo_sdk demo_clock 101 102 50 (Some 100) (demo_ckpt 8) 7 [] 8 demo_roles =
     Inr (demo_roles(101 \<mapsto> RoleA ((demo_role 2 1 8 1)\<lparr>r_status_since := 1000\<rparr>),
       demo_ckpt 8 \<mapsto> CheckpointA \<lparr>k_account = 8, k_role_type_id = 3, k_slot = 10, k_count = 1,
         k_bump = 0\<rparr>), [RoleAssigned 50 2 8])"
  by (simp add: eval_role demo_role_defs)

theorem role_lifecycle_witness:
  "\<exists>L' r'. role_next demo_sdk demo_roles L' \<and> demo_roles 101 = Some (RoleA (demo_role 2 1 0 0)) \<and>
     L' 101 = Some (RoleA r') \<and> same_role (demo_role 2 1 0 0) r'"
proof -
  obtain L' where "role_step demo_sdk 7 demo_roles L'"
    using role_step.assign_role [OF demo_assign] by blast
  then have n: "role_next demo_sdk demo_roles L'" by (auto simp: role_next_def)
  have k: "demo_roles 101 = Some (RoleA (demo_role 2 1 0 0))" by (simp add: demo_role_defs)
  from role_lifecycle [of demo_sdk demo_roles L' 101, OF r_into_rtranclp [of "role_next demo_sdk", OF n] k] n k
  show ?thesis by blast
qed

text \<open>
  An occupied role is under its holder's control: an instruction signed by any other key
  leaves it exactly as it is.
\<close>

theorem role_holder_control:
  assumes "role_step P a L L'" and "L k = Some (RoleA r)"
    and "r_status r = role_status_u8 Occupied" and "a \<noteq> r_account r"
  shows "L' k = Some (RoleA r)"
  using role_step_role [OF assms(1,2)] assms(3,4) by (auto simp: role_change_def)

theorem role_holder_control_witness:
  "\<exists>L'. role_step demo_sdk 7 (demo_roles(103 \<mapsto> RoleA (demo_role 4 1 9 1))) L' \<and>
     L' 103 = Some (RoleA (demo_role 4 1 9 1))"
proof -
  let ?L = "demo_roles(103 \<mapsto> RoleA (demo_role 4 1 9 1))"
  have "\<exists>L' ev. role_assign_role demo_sdk demo_clock 101 102 50 (Some 100) (demo_ckpt 8) 7 [] 8 ?L =
      Inr (L', ev)"
    by (simp add: eval_role demo_role_defs)
  then obtain L' where s: "role_step demo_sdk 7 ?L L'" by (blast intro: role_step.assign_role)
  from role_holder_control [OF s, of 103 "demo_role 4 1 9 1"] s show ?thesis
    by (auto simp: demo_role_def)
qed

text \<open>Who may assign: a successful \<open>assign_role\<close> either is the bootstrap of a root role that
  is the only role of its type, by its own assignee, or its payer occupies a role of the same
  TRUST that is, unless the assigned role is a root, an ancestor of it within the bound.
\<close>

theorem assign_role_authorized:
  assumes "role_assign_role P clk role rtk trust ck ckpt payer rem acc L = Inr (L', ev)"
  shows "\<exists>r. L role = Some (RoleA r) \<and> r_status r = role_status_u8 Vacant \<and>
    (ck = None \<and> r_parent_role_id r = 0 \<and> acc = payer \<and>
       (\<exists>rt. L rtk = Some (RoleTypeA rt) \<and> rt_role_count rt = 1) \<or>
     (\<exists>c j. ck = Some j \<and> L j = Some (RoleA c) \<and> r_trust c = r_trust r \<and>
       r_status c = role_status_u8 Occupied \<and> r_account c = payer \<and>
       (r_parent_role_id r = 0 \<or>
        (\<exists>n < MAX_AUTHORITY_WALK.
           (parent_of L (r_trust r) ^^ n) (r_parent_role_id r) (r_role_id c)))))"
proof -
  from role_assign_role_ok [OF assms] obtain r rt c where
    r: "L role = Some (RoleA r)" "L rtk = Some (RoleTypeA rt)" "r_status r = 0"
      "optional_role L ck = Inr c" and g: "gate_role_assignment L r rt c payer acc rem = Inr ()"
    by blast
  show ?thesis
  proof (cases c)
    case None
    with r g show ?thesis by (auto simp: gate_role_assignment_def res)
  next
    case (Some d)
    with g have "r_parent_role_id r = 0 \<or>
        (\<exists>n < MAX_AUTHORITY_WALK. (parent_of L (r_trust d) ^^ n) (r_parent_role_id r) (r_role_id d))"
      by (cases "r_parent_role_id r = 0")
        (use check_authority_walk_sound [of L d "r_parent_role_id r" rem] in
          \<open>auto simp: gate_role_assignment_def res\<close>)
    with Some r g show ?thesis by (auto simp: gate_role_assignment_def res)
  qed
qed

theorem assign_role_authorized_witness:
  "\<exists>n < MAX_AUTHORITY_WALK. (parent_of demo_roles 50 ^^ n) 1 1"
  using assign_role_authorized [OF demo_assign] by (auto simp: demo_role_defs)

text \<open>Votes are conserved: a successful transfer between two different checkpoints and a
  successful delegation whose previous checkpoint is not the new one leave the sum of all
  vote checkpoints unchanged.
\<close>

theorem role_votes_conserved:
  "(role_transfer_role P clk role rtk trust pk nk na payer acc L = Inr (L', ev) \<and> pk \<noteq> nk \<longrightarrow>
      votes L' = votes L) \<and>
   (role_delegate_role P clk role rtk dk opk nk na payer dlg L = Inr (L', ev) \<and> opk \<noteq> Some nk \<longrightarrow>
      votes L' = votes L)"
  using transfer_votes delegate_votes by auto

theorem role_votes_conserved_witness:
  "\<exists>L' ev. role_transfer_role demo_sdk demo_clock 100 102 50 (demo_ckpt 7) (demo_ckpt 8) 8 7 8
      demo_roles = Inr (L', ev) \<and> demo_ckpt 7 \<noteq> demo_ckpt 8 \<and> votes L' = votes demo_roles"
proof -
  have "\<exists>L' ev. role_transfer_role demo_sdk demo_clock 100 102 50 (demo_ckpt 7) (demo_ckpt 8) 8 7 8
      demo_roles = Inr (L', ev)" by (simp add: eval_role demo_role_defs)
  then obtain L' ev where ok: "role_transfer_role demo_sdk demo_clock 100 102 50 (demo_ckpt 7)
      (demo_ckpt 8) 8 7 8 demo_roles = Inr (L', ev)" by blast
  moreover have "demo_ckpt 7 \<noteq> demo_ckpt 8" by (simp add: demo_role_defs)
  ultimately show ?thesis using role_votes_conserved by blast
qed

text \<open>
  A transfer to oneself creates a vote: both checkpoints are then the same account, the
  second copy is written last, and the sum of all checkpoints grows by one.
\<close>

theorem transfer_to_self_mints_vote:
  assumes "role_transfer_role P clk role rtk trust pk nk na payer acc L = Inr (L', ev)"
    and "L role = Some (RoleA r)" and "acc = r_account r"
  shows "votes L' = votes L + 1"
proof -
  have "pk = nk" using assms by (elim role_transfer_role_ok) auto
  with transfer_votes [OF assms(1)] show ?thesis by simp
qed

theorem transfer_to_self_mints_vote_witness:
  "\<exists>L' ev. role_transfer_role demo_sdk demo_clock 100 102 50 (demo_ckpt 7) (demo_ckpt 7) 7 7 7
      demo_roles = Inr (L', ev) \<and> votes L' = votes demo_roles + 1"
proof -
  have "\<exists>L' ev. role_transfer_role demo_sdk demo_clock 100 102 50 (demo_ckpt 7) (demo_ckpt 7) 7 7 7
      demo_roles = Inr (L', ev)" by (simp add: eval_role demo_role_defs)
  then obtain L' ev where ok: "role_transfer_role demo_sdk demo_clock 100 102 50 (demo_ckpt 7)
      (demo_ckpt 7) 7 7 7 demo_roles = Inr (L', ev)" by blast
  have r: "demo_roles 100 = Some (RoleA (demo_role 1 0 7 1))" by (simp add: demo_role_defs)
  from transfer_to_self_mints_vote [OF ok r] ok show ?thesis by (simp add: demo_role_def)
qed

end
