(* ===== verification/Bytes.thy ===== *)
theory Bytes
  imports Prelude
begin

text \<open>
  Byte strings: the encodings of integers and 32-byte values that the programs and the indexer
  use, slices, and the round trips between them. They are operations of Rust's standard
  library (\<open>to_le_bytes\<close>, \<open>from_le_bytes\<close>, slice indexing) and of \<open>Pubkey\<close>.
\<close>

unbundle bit_operations_syntax

definition to_le_bytes :: "'a::len word \<Rightarrow> u8 list" where
  "to_le_bytes x = map (\<lambda>i. ucast (drop_bit (8 * i) x)) [0..<LENGTH('a) div 8]"

definition from_le_bytes :: "u8 list \<Rightarrow> 'a::len word" where
  "from_le_bytes bs = foldr (\<lambda>b acc. ucast b OR push_bit 8 acc) bs 0"

text \<open>A 32-byte value, most significant byte first.\<close>

definition to_bytes :: "bytes32 \<Rightarrow> u8 list" where
  "to_bytes x = map (\<lambda>i. ucast (drop_bit (8 * (31 - i)) x)) [0..<32]"

definition new_from_array :: "u8 list \<Rightarrow> bytes32" where
  "new_from_array bs = foldl (\<lambda>acc b. push_bit 8 acc OR ucast b) 0 bs"

text \<open>\<open>&xs[i..j]\<close>, for \<open>i \<le> j \<le> xs.len()\<close>.\<close>

definition slice :: "nat \<Rightarrow> nat \<Rightarrow> 'a list \<Rightarrow> 'a list" where
  "slice i j xs = take (j - i) (drop i xs)"

lemma length_to_le_bytes [simp]: "length (to_le_bytes (x :: 'a::len word)) = LENGTH('a) div 8"
  by (simp add: to_le_bytes_def)

lemma length_to_bytes [simp]: "length (to_bytes x) = 32"
  by (simp add: to_bytes_def)

lemma slice_append_left: "j \<le> length xs \<Longrightarrow> slice i j (xs @ ys) = slice i j xs"
  by (auto simp: slice_def)

lemma slice_append_right: "length xs \<le> i \<Longrightarrow>
  slice i j (xs @ ys) = slice (i - length xs) (j - length xs) ys"
  by (simp add: slice_def)

lemma slice_all [simp]: "slice 0 (length xs) xs = xs"
  by (simp add: slice_def)

section \<open>Round trips\<close>

text \<open>Little end first: the bytes from position \<open>k\<close> on encode \<open>x\<close> shifted right.\<close>

lemma le_step:
  "ucast (ucast (drop_bit (8 * k) (x :: 'a::len word)) :: u8) OR
     push_bit 8 (take_bit (8 * m) (drop_bit (8 * Suc k) x)) =
   take_bit (8 * Suc m) (drop_bit (8 * k) x)"
  by (rule bit_word_eqI) (auto simp: bit_simps not_less)

lemma from_le_bytes_range:
  "from_le_bytes (map (\<lambda>i. ucast (drop_bit (8 * i) (x :: 'a::len word))) [k..<k + m]) =
   take_bit (8 * m) (drop_bit (8 * k) x)"
proof (induction m arbitrary: k)
  case (Suc m)
  have "[k..<k + Suc m] = k # [Suc k..<Suc k + m]" by (simp add: upt_rec)
  with Suc [of "Suc k"] le_step [of k x m] show ?case by (simp add: from_le_bytes_def)
qed (simp add: from_le_bytes_def)

lemma from_to_le_bytes:
  "8 dvd LENGTH('a) \<Longrightarrow> from_le_bytes (to_le_bytes x) = (x :: 'a::len word)"
  using from_le_bytes_range [of x 0 "LENGTH('a) div 8"]
  by (simp add: to_le_bytes_def dvd_mult_div_cancel)

lemmas le_round_trip [simp] =
  from_to_le_bytes [where 'a = 32, simplified] from_to_le_bytes [where 'a = 64, simplified]

text \<open>Big end first.\<close>

lemma be_step:
  "push_bit 8 (drop_bit (8 * Suc k) (x :: bytes32)) OR ucast (ucast (drop_bit (8 * k) x) :: u8) =
   drop_bit (8 * k) x"
  by (rule bit_word_eqI) (auto simp: bit_simps not_less)

lemma new_from_array_prefix:
  "m \<le> 32 \<Longrightarrow> new_from_array (map (\<lambda>i. ucast (drop_bit (8 * (31 - i)) x)) [0..<m]) =
   drop_bit (8 * (32 - m)) x"
proof (induction m)
  case 0
  have "drop_bit 256 x = 0" by (rule bit_word_eqI) (auto simp: bit_simps dest: bit_imp_le_length)
  then show ?case by (simp add: new_from_array_def)
next
  case (Suc m)
  then have "32 - m = Suc (31 - m)" "32 - Suc m = 31 - m" by auto
  with Suc be_step [of "31 - m" x] show ?case by (simp add: new_from_array_def)
qed

lemma new_from_array_to_bytes [simp]: "new_from_array (to_bytes x) = x"
  using new_from_array_prefix [of 32 x] by (simp add: to_bytes_def)

end
