(* ===== verification/Aeqi_Governance.thy ===== *)
theory Aeqi_Governance
  imports Aeqi_Role Bytes
begin

text \<open>
  The program \<open>aeqi_governance\<close>: governance configs, proposals, the two voting paths
  (role checkpoints of \<open>aeqi_role\<close> and Merkle snapshots of token balances) and execution
  behind quorum and support thresholds. SHA-256 is a parameter \<open>H\<close> on byte strings; the
  supply of a mint, read from an account of the SPL token program, is a parameter
  \<open>mint_supply\<close> (\<open>None\<close> when the account is not a mint of that program). An account of
  \<open>aeqi_role\<close> that has another type than the expected one also has another length, so its
  decoding fails.
\<close>

section \<open>Errors, state and events\<close>

datatype GovernanceError =
    InvalidBpsValue | ZeroVotingPeriod | ConfigMismatch | InvalidVoteChoice | ZeroWeight
  | GenericVotingDisabled | ProposalAlreadyExecuted | ProposalCanceled | VotingNotStarted
  | VotingClosed | VotingNotClosed | QuorumNotMet | NoDecisiveVotes | SupportNotMet
  | ExecutionDelayNotMet | CheckpointVoterMismatch | InvalidCheckpoint | CheckpointAfterSnapshot
  | MissingVoteSupplyAccount | VoteSupplyAccountMismatch | InvalidVoteSupplyAccount
  | ZeroVoteSupply | MathOverflow | Unauthorized | TrustNotInCreationMode | CommitRootMismatch
  | SnapshotNotCommitted | InvalidMerkleProof | SnapshotSlotNotYetReached

record GovernanceModuleState =
  gm_trust :: pubkey
  gm_proposal_count :: u64
  gm_config_count :: u32
  gm_bump :: u8

record GovernanceConfig =
  g_trust :: pubkey
  g_governance_config_id :: bytes32
  g_proposal_threshold :: u128
  g_quorum_bps :: u16
  g_support_bps :: u16
  g_voting_period :: i64
  g_execution_delay :: i64
  g_allow_early_enact :: bool
  g_bump :: u8

record GovernanceConfigInput =
  gi_proposal_threshold :: u128
  gi_quorum_bps :: u16
  gi_support_bps :: u16
  gi_voting_period :: i64
  gi_execution_delay :: i64
  gi_allow_early_enact :: bool

record VoteRecord =
  v_trust :: pubkey
  v_proposal_id :: bytes32
  v_voter :: pubkey
  v_choice :: u8
  v_weight :: u128
  v_bump :: u8

record Proposal =
  p_trust :: pubkey
  p_proposal_id :: bytes32
  p_governance_config_id :: bytes32
  p_proposer :: pubkey
  p_ipfs_cid :: bytes64
  p_vote_start :: i64
  p_vote_duration :: i64
  p_execution_delay :: i64
  p_snapshot_slot :: u64
  p_snapshot_root :: bytes32
  p_snapshot_total_supply :: u64
  p_for_votes :: u128
  p_against_votes :: u128
  p_abstain_votes :: u128
  p_executed :: bool
  p_canceled :: bool
  p_succeeded_at :: i64
  p_bump :: u8

datatype gov_acct =
    GovModuleA GovernanceModuleState
  | GovConfigA GovernanceConfig
  | ProposalA Proposal
  | VoteA VoteRecord

type_synonym gov_store = "gov_acct accts"

fun as_gov_module :: "gov_acct \<Rightarrow> GovernanceModuleState option" where
  "as_gov_module (GovModuleA m) = Some m" | "as_gov_module _ = None"

fun as_gov_config :: "gov_acct \<Rightarrow> GovernanceConfig option" where
  "as_gov_config (GovConfigA g) = Some g" | "as_gov_config _ = None"

fun as_proposal :: "gov_acct \<Rightarrow> Proposal option" where
  "as_proposal (ProposalA p) = Some p" | "as_proposal _ = None"

datatype gov_event =
    ConfigRegistered pubkey bytes32 u16 u16
  | ProposalCreated pubkey bytes32 bytes32 pubkey i64 i64
  | ProposalExecuted pubkey bytes32 u128 u128 u128 i64
  | VoteCast pubkey bytes32 pubkey u8 u128
  | SnapshotRootCommitted pubkey bytes32 u64 bytes32 u64

type_synonym gov_result = "GovernanceError err + gov_store \<times> gov_event list"

definition AEQI_GOVERNANCE_ID :: pubkey where
  "AEQI_GOVERNANCE_ID = 0x42ef9b2dab9d56ac260504e51c16371ae91c433c09cebec0dac9f5d28733c25a"

definition AEQI_TOKEN_ID :: pubkey where
  "AEQI_TOKEN_ID = 0x941010e63b2dea78046cd3cff18e78d1b7456c6ad99e1524864c2e8d3690350c"

definition TOKEN_VOTING_CONFIG_ID :: bytes32 where
  "TOKEN_VOTING_CONFIG_ID = 0"

definition BPS_DENOMINATOR :: u128 where
  "BPS_DENOMINATOR = 10000"

section \<open>Helpers\<close>

definition proposal_vote_end :: "Proposal \<Rightarrow> GovernanceError err + i64" where
  "proposal_vote_end p = ok_or (ichecked_add (p_vote_start p) (p_vote_duration p)) (Prog MathOverflow)"

definition checked_bps_ceil :: "u128 \<Rightarrow> u16 \<Rightarrow> GovernanceError err + u128" where
  "checked_bps_ceil value bps =
     rbind (ok_or (checked_mul value (ucast bps)) (Prog MathOverflow)) (\<lambda>numerator.
     rbind (ok_or (checked_add numerator (BPS_DENOMINATOR - 1)) (Prog MathOverflow)) (\<lambda>n.
     ok_or (checked_div n BPS_DENOMINATOR) (Prog MathOverflow)))"

definition load_token_vote_supply :: "pda_sdk \<Rightarrow> (pubkey \<Rightarrow> u64 option) \<Rightarrow> Proposal \<Rightarrow> pubkey \<Rightarrow>
  GovernanceError err + u128" where
  "load_token_vote_supply P mint_supply proposal mint_acct =
     require (mint_acct =
         fst (find_program_address P [Lit ''mint'', B32 (p_trust proposal)] AEQI_TOKEN_ID))
       (Prog VoteSupplyAccountMismatch)
     (rbind (ok_or (mint_supply mint_acct) (Prog InvalidVoteSupplyAccount)) (\<lambda>s.
     let supply = ucast s in
     require (supply > 0) (Prog ZeroVoteSupply) (Inr supply)))"

definition load_role_vote_supply :: "pda_sdk \<Rightarrow> role_store \<Rightarrow> Proposal \<Rightarrow> pubkey \<Rightarrow>
  GovernanceError err + u128" where
  "load_role_vote_supply P RL proposal role_type_acct =
     require (role_type_acct =
         fst (find_program_address P [Lit ''role_type'', B32 (p_trust proposal),
                B32 (p_governance_config_id proposal)] AEQI_ROLE_ID))
       (Prog VoteSupplyAccountMismatch)
     (rbind (map_error (\<lambda>_. Prog InvalidVoteSupplyAccount)
               (load as_role_type RL role_type_acct :: GovernanceError err + RoleType)) (\<lambda>rt.
     require (rt_trust rt = p_trust proposal) (Prog VoteSupplyAccountMismatch)
     (require (rt_role_type_id rt = p_governance_config_id proposal)
        (Prog VoteSupplyAccountMismatch)
     (let supply = ucast (rt_role_count rt) in
      require (supply > 0) (Prog ZeroVoteSupply) (Inr supply)))))"

definition load_total_vote_supply :: "pda_sdk \<Rightarrow> (pubkey \<Rightarrow> u64 option) \<Rightarrow> role_store \<Rightarrow> Proposal \<Rightarrow>
  pubkey \<Rightarrow> GovernanceError err + u128" where
  "load_total_vote_supply P mint_supply RL proposal vote_supply_acct =
     (if p_governance_config_id proposal = TOKEN_VOTING_CONFIG_ID
      then load_token_vote_supply P mint_supply proposal vote_supply_acct
      else load_role_vote_supply P RL proposal vote_supply_acct)"

definition require_vote_open :: "Proposal \<Rightarrow> i64 \<Rightarrow> GovernanceError err + unit" where
  "require_vote_open p now =
     require (\<not> p_executed p) (Prog ProposalAlreadyExecuted)
     (require (\<not> p_canceled p) (Prog ProposalCanceled)
     (require (p_vote_start p \<le>s now) (Prog VotingNotStarted)
     (rbind (proposal_vote_end p) (\<lambda>e.
     require (now <s e) (Prog VotingClosed)
     (Inr ())))))"

definition record_vote :: "Proposal \<Rightarrow> pubkey \<Rightarrow> u8 \<Rightarrow> u128 \<Rightarrow> u8 \<Rightarrow> VoteRecord" where
  "record_vote proposal voter choice weight bump =
     \<lparr>v_trust = p_trust proposal, v_proposal_id = p_proposal_id proposal, v_voter = voter,
      v_choice = choice, v_weight = weight, v_bump = bump\<rparr>"

definition apply_vote_tally :: "Proposal \<Rightarrow> u8 \<Rightarrow> u128 \<Rightarrow> GovernanceError err + Proposal" where
  "apply_vote_tally proposal choice weight =
     require (choice \<le> 2) (Prog InvalidVoteChoice)
     (if choice = 0 then
        rbind (ok_or (checked_add (p_against_votes proposal) weight) (Prog MathOverflow)) (\<lambda>n.
          Inr (proposal\<lparr>p_against_votes := n\<rparr>))
      else if choice = 1 then
        rbind (ok_or (checked_add (p_for_votes proposal) weight) (Prog MathOverflow)) (\<lambda>n.
          Inr (proposal\<lparr>p_for_votes := n\<rparr>))
      else
        rbind (ok_or (checked_add (p_abstain_votes proposal) weight) (Prog MathOverflow)) (\<lambda>n.
          Inr (proposal\<lparr>p_abstain_votes := n\<rparr>)))"

definition token_vote_leaf :: "(u8 list \<Rightarrow> bytes32) \<Rightarrow> pubkey \<Rightarrow> u64 \<Rightarrow> bytes32" where
  "token_vote_leaf H voter balance = H (to_bytes voter @ to_le_bytes balance)"

fun merkle_climb :: "(u8 list \<Rightarrow> bytes32) \<Rightarrow> bytes32 \<Rightarrow> bytes32 list \<Rightarrow> bytes32" where
  "merkle_climb H current [] = current"
| "merkle_climb H current (sibling # proof) =
     merkle_climb H
       (if current \<le> sibling then H (to_bytes current @ to_bytes sibling)
        else H (to_bytes sibling @ to_bytes current)) proof"

definition verify_merkle_proof :: "(u8 list \<Rightarrow> bytes32) \<Rightarrow> bytes32 \<Rightarrow> bytes32 list \<Rightarrow> bytes32 \<Rightarrow> bool" where
  "verify_merkle_proof H leaf proof root \<longleftrightarrow> merkle_climb H leaf proof = root"

definition bump_config_count :: "GovernanceModuleState \<Rightarrow> GovernanceError err + GovernanceModuleState" where
  "bump_config_count m =
     rbind (ok_or (checked_add (gm_config_count m) 1) (Prog MathOverflow)) (\<lambda>n.
       Inr (m\<lparr>gm_config_count := n\<rparr>))"

definition load_governance_config :: "pda_sdk \<Rightarrow> gov_store \<Rightarrow> pubkey \<Rightarrow> pubkey \<Rightarrow> bytes32 \<Rightarrow>
  GovernanceError err + GovernanceConfig" where
  "load_governance_config P L cfg_acct trust governance_config_id =
     require (cfg_acct = fst (find_program_address P
         [Lit ''gov_config'', B32 trust, B32 governance_config_id] AEQI_GOVERNANCE_ID))
       (Prog ConfigMismatch)
     (rbind (map_error (\<lambda>_. Prog ConfigMismatch)
               (load as_gov_config L cfg_acct :: GovernanceError err + GovernanceConfig)) (\<lambda>cfg.
     require (g_trust cfg = trust) (Prog ConfigMismatch)
     (require (g_governance_config_id cfg = governance_config_id) (Prog ConfigMismatch)
     (Inr cfg))))"

section \<open>Instructions\<close>

definition InitGovernance_accounts :: "pda_sdk \<Rightarrow> trust_store \<Rightarrow> gov_store \<Rightarrow> pubkey \<Rightarrow> pubkey \<Rightarrow>
  GovernanceError err + Trust \<times> u8" where
  "InitGovernance_accounts P TL L trust module_state =
     rbind (trust_account P TL trust) (\<lambda>t.
     rbind (init_account P [Lit ''gov_module'', B32 trust] AEQI_GOVERNANCE_ID L module_state) (\<lambda>bump.
       Inr (t, bump)))"

definition gov_init :: "pda_sdk \<Rightarrow> trust_store \<Rightarrow> pubkey \<Rightarrow> pubkey \<Rightarrow> pubkey \<Rightarrow> gov_store \<Rightarrow>
  gov_result" where
  "gov_init P TL trust module_state payer L =
     rbind (InitGovernance_accounts P TL L trust module_state) (\<lambda>(t, bump).
     require (t_creation_mode t) (Prog TrustNotInCreationMode)
     (require (payer = t_authority t) (Prog Unauthorized)
     (Inr (L(module_state \<mapsto> GovModuleA
             \<lparr>gm_trust = trust, gm_proposal_count = 0, gm_config_count = 0, gm_bump = bump\<rparr>), []))))"

definition gov_finalize :: "gov_store \<Rightarrow> gov_result" where
  "gov_finalize L = Inr (L, [])"

text \<open>\<open>module_state\<close> with \<open>seeds = [b"gov_module", trust], bump = module_state.bump\<close>.\<close>

definition gov_module_account :: "pda_sdk \<Rightarrow> gov_store \<Rightarrow> pubkey \<Rightarrow> pubkey \<Rightarrow>
  GovernanceError err + GovernanceModuleState" where
  "gov_module_account P L trust key =
     rbind (load as_gov_module L key) (\<lambda>m.
     require (seeds_ok P [Lit ''gov_module'', B32 trust] (gm_bump m) AEQI_GOVERNANCE_ID key)
       (Anchor ConstraintSeeds) (Inr m))"

definition RegisterConfig_accounts :: "pda_sdk \<Rightarrow> bytes32 \<Rightarrow> trust_store \<Rightarrow> gov_store \<Rightarrow> pubkey \<Rightarrow>
  pubkey \<Rightarrow> pubkey \<Rightarrow> GovernanceError err + Trust \<times> GovernanceModuleState \<times> u8" where
  "RegisterConfig_accounts P governance_config_id TL L trust module_state governance_config =
     rbind (trust_account P TL trust) (\<lambda>t.
     rbind (gov_module_account P L trust module_state) (\<lambda>m.
     rbind (init_account P [Lit ''gov_config'', B32 trust, B32 governance_config_id]
              AEQI_GOVERNANCE_ID L governance_config) (\<lambda>bump.
       Inr (t, m, bump))))"

definition gov_register_config :: "pda_sdk \<Rightarrow> trust_store \<Rightarrow> pubkey \<Rightarrow> pubkey \<Rightarrow> pubkey \<Rightarrow> pubkey \<Rightarrow>
  bytes32 \<Rightarrow> GovernanceConfigInput \<Rightarrow> gov_store \<Rightarrow> gov_result" where
  "gov_register_config P TL trust module_state governance_config payer governance_config_id config L =
     rbind (RegisterConfig_accounts P governance_config_id TL L trust module_state
              governance_config) (\<lambda>(t, m, bump).
     require (payer = t_authority t) (Prog Unauthorized)
     (require (gi_quorum_bps config \<le> 10000) (Prog InvalidBpsValue)
     (require (gi_support_bps config \<le> 10000) (Prog InvalidBpsValue)
     (require (gi_quorum_bps config > 0) (Prog InvalidBpsValue)
     (require (gi_support_bps config > 0) (Prog InvalidBpsValue)
     (require (0 <s gi_voting_period config) (Prog ZeroVotingPeriod)
     (rbind (bump_config_count m) (\<lambda>m'.
       Inr (L(module_state \<mapsto> GovModuleA m',
              governance_config \<mapsto> GovConfigA
                \<lparr>g_trust = trust, g_governance_config_id = governance_config_id,
                 g_proposal_threshold = gi_proposal_threshold config,
                 g_quorum_bps = gi_quorum_bps config, g_support_bps = gi_support_bps config,
                 g_voting_period = gi_voting_period config,
                 g_execution_delay = gi_execution_delay config,
                 g_allow_early_enact = gi_allow_early_enact config, g_bump = bump\<rparr>),
            [ConfigRegistered trust governance_config_id (gi_quorum_bps config)
               (gi_support_bps config)])))))))))"

text \<open>\<open>proposal\<close> with its seeds re-derived from its own fields.\<close>

definition proposal_seeds :: "pubkey \<Rightarrow> bytes32 \<Rightarrow> seed list" where
  "proposal_seeds trust proposal_id = [Lit ''proposal'', B32 trust, B32 proposal_id]"

definition vote_seeds :: "Proposal \<Rightarrow> pubkey \<Rightarrow> seed list" where
  "vote_seeds p voter = [Lit ''vote'', B32 (p_trust p), B32 (p_proposal_id p), B32 voter]"

definition ExecuteProposal_accounts :: "pda_sdk \<Rightarrow> gov_store \<Rightarrow> pubkey \<Rightarrow>
  GovernanceError err + Proposal" where
  "ExecuteProposal_accounts P L proposal =
     rbind (load as_proposal L proposal) (\<lambda>p.
     require (seeds_ok P (proposal_seeds (p_trust p) (p_proposal_id p)) (p_bump p)
         AEQI_GOVERNANCE_ID proposal) (Anchor ConstraintSeeds) (Inr p))"

definition gov_execute_proposal :: "pda_sdk \<Rightarrow> clock \<Rightarrow> (pubkey \<Rightarrow> u64 option) \<Rightarrow> role_store \<Rightarrow>
  pubkey \<Rightarrow> pubkey list \<Rightarrow> gov_store \<Rightarrow> gov_result" where
  "gov_execute_proposal P clk mint_supply RL proposal remaining_accounts L =
     rbind (ExecuteProposal_accounts P L proposal) (\<lambda>p.
     require (\<not> p_executed p) (Prog ProposalAlreadyExecuted)
     (require (\<not> p_canceled p) (Prog ProposalCanceled)
     (case remaining_accounts of
        [] \<Rightarrow> Inl (Prog ConfigMismatch)
      | cfg_acct # rest \<Rightarrow>
     rbind (load_governance_config P L cfg_acct (p_trust p) (p_governance_config_id p)) (\<lambda>cfg.
     case rest of
        [] \<Rightarrow> Inl (Prog MissingVoteSupplyAccount)
      | vote_supply_acct # _ \<Rightarrow>
     rbind (load_total_vote_supply P mint_supply RL p vote_supply_acct) (\<lambda>total_vote_supply.
     let now = unix_timestamp clk in
     rbind (proposal_vote_end p) (\<lambda>vote_end.
     require (vote_end \<le>s now \<or> g_allow_early_enact cfg) (Prog VotingNotClosed)
     (rbind (ok_or (checked_add (p_for_votes p) (p_abstain_votes p)) (Prog MathOverflow)) (\<lambda>participating.
     rbind (checked_bps_ceil total_vote_supply (g_quorum_bps cfg)) (\<lambda>quorum_required.
     require (quorum_required \<le> participating) (Prog QuorumNotMet)
     (rbind (ok_or (checked_add (p_for_votes p) (p_against_votes p)) (Prog MathOverflow)) (\<lambda>decisive.
     require (decisive > 0) (Prog NoDecisiveVotes)
     (rbind (checked_bps_ceil decisive (g_support_bps cfg)) (\<lambda>support_required.
     require (support_required \<le> p_for_votes p) (Prog SupportNotMet)
     (rbind (if 0 <s g_execution_delay cfg
             then rbind (ok_or (ichecked_add vote_end (g_execution_delay cfg)) (Prog MathOverflow))
               (\<lambda>execution_ready_at.
                  require (execution_ready_at \<le>s now) (Prog ExecutionDelayNotMet) (Inr ()))
             else Inr ()) (\<lambda>_.
       Inr (L(proposal \<mapsto> ProposalA (p\<lparr>
                p_succeeded_at := (if p_succeeded_at p = 0 then now else p_succeeded_at p),
                p_executed := True\<rparr>)),
            [ProposalExecuted (p_trust p) (p_proposal_id p) (p_for_votes p) (p_against_votes p)
               (p_abstain_votes p) now]))))))))))))))))"

definition CastVoteRole_accounts :: "pda_sdk \<Rightarrow> gov_store \<Rightarrow> pubkey \<Rightarrow> pubkey \<Rightarrow> pubkey \<Rightarrow> pubkey \<Rightarrow>
  GovernanceError err + Proposal \<times> u8" where
  "CastVoteRole_accounts P L proposal vote voter_checkpoint voter =
     rbind (load as_proposal L proposal) (\<lambda>p.
     require (seeds_ok P (proposal_seeds (p_trust p) (p_proposal_id p)) (p_bump p)
         AEQI_GOVERNANCE_ID proposal) (Anchor ConstraintSeeds)
     (rbind (init_account P (vote_seeds p voter) AEQI_GOVERNANCE_ID L vote) (\<lambda>bump.
     rbind (canonical P [Lit ''role_ckpt'', B32 (p_trust p), B32 (p_governance_config_id p),
              B32 voter] AEQI_ROLE_ID voter_checkpoint) (\<lambda>_.
       Inr (p, bump)))))"

definition gov_cast_vote_role :: "pda_sdk \<Rightarrow> clock \<Rightarrow> role_store \<Rightarrow> pubkey \<Rightarrow> pubkey \<Rightarrow> pubkey \<Rightarrow>
  pubkey \<Rightarrow> u8 \<Rightarrow> gov_store \<Rightarrow> gov_result" where
  "gov_cast_vote_role P clk RL proposal vote voter_checkpoint voter choice L =
     rbind (CastVoteRole_accounts P L proposal vote voter_checkpoint voter) (\<lambda>(p, bump).
     rbind (map_error (\<lambda>_. Prog InvalidCheckpoint)
              (load as_checkpoint RL voter_checkpoint :: GovernanceError err + RoleVoteCheckpoint)) (\<lambda>ckpt.
     require (k_account ckpt = voter) (Prog CheckpointVoterMismatch)
     (require (k_role_type_id ckpt = p_governance_config_id p) (Prog ConfigMismatch)
     (require (k_slot ckpt \<le> p_snapshot_slot p) (Prog CheckpointAfterSnapshot)
     (let weight = ucast (k_count ckpt) in
      require (weight > 0) (Prog ZeroWeight)
     (rbind (require_vote_open p (unix_timestamp clk)) (\<lambda>_.
     rbind (apply_vote_tally p choice weight) (\<lambda>p'.
       Inr (L(proposal \<mapsto> ProposalA p', vote \<mapsto> VoteA (record_vote p' voter choice weight bump)),
            [])))))))))"

definition CastVoteToken_accounts :: "pda_sdk \<Rightarrow> gov_store \<Rightarrow> pubkey \<Rightarrow> pubkey \<Rightarrow> pubkey \<Rightarrow>
  GovernanceError err + Proposal \<times> u8" where
  "CastVoteToken_accounts P L proposal vote voter =
     rbind (load as_proposal L proposal) (\<lambda>p.
     require (seeds_ok P (proposal_seeds (p_trust p) (p_proposal_id p)) (p_bump p)
         AEQI_GOVERNANCE_ID proposal) (Anchor ConstraintSeeds)
     (rbind (init_account P (vote_seeds p voter) AEQI_GOVERNANCE_ID L vote) (\<lambda>bump.
       Inr (p, bump))))"

definition gov_cast_vote_token :: "pda_sdk \<Rightarrow> (u8 list \<Rightarrow> bytes32) \<Rightarrow> clock \<Rightarrow> pubkey \<Rightarrow> pubkey \<Rightarrow>
  pubkey \<Rightarrow> u8 \<Rightarrow> u64 \<Rightarrow> bytes32 list \<Rightarrow> gov_store \<Rightarrow> gov_result" where
  "gov_cast_vote_token P H clk proposal vote voter choice claimed_balance merkle_proof L =
     rbind (CastVoteToken_accounts P L proposal vote voter) (\<lambda>(p, bump).
     require (p_snapshot_root p \<noteq> 0) (Prog SnapshotNotCommitted)
     (require (claimed_balance > 0) (Prog ZeroWeight)
     (require (verify_merkle_proof H (token_vote_leaf H voter claimed_balance) merkle_proof
         (p_snapshot_root p)) (Prog InvalidMerkleProof)
     (let weight = ucast claimed_balance in
      rbind (require_vote_open p (unix_timestamp clk)) (\<lambda>_.
      rbind (apply_vote_tally p choice weight) (\<lambda>p'.
       Inr (L(proposal \<mapsto> ProposalA p', vote \<mapsto> VoteA (record_vote p' voter choice weight bump)),
            [])))))))"

definition CommitSnapshotRoot_accounts :: "pda_sdk \<Rightarrow> gov_store \<Rightarrow> pubkey \<Rightarrow>
  GovernanceError err + Proposal" where
  "CommitSnapshotRoot_accounts P L proposal =
     rbind (load as_proposal L proposal) (\<lambda>p.
     require (seeds_ok P (proposal_seeds (p_trust p) (p_proposal_id p)) (p_bump p)
         AEQI_GOVERNANCE_ID proposal) (Anchor ConstraintSeeds) (Inr p))"

definition gov_commit_snapshot_root :: "pda_sdk \<Rightarrow> clock \<Rightarrow> pubkey \<Rightarrow> bytes32 \<Rightarrow> u64 \<Rightarrow> gov_store \<Rightarrow>
  gov_result" where
  "gov_commit_snapshot_root P clk proposal root total_supply_snapshot L =
     rbind (CommitSnapshotRoot_accounts P L proposal) (\<lambda>p.
     require (root \<noteq> 0) (Prog InvalidMerkleProof)
     (require (p_snapshot_root p = 0) (Prog CommitRootMismatch)
     (require (p_snapshot_slot p < slot clk) (Prog SnapshotSlotNotYetReached)
     (Inr (L(proposal \<mapsto> ProposalA (p\<lparr>p_snapshot_root := root,
               p_snapshot_total_supply := total_supply_snapshot\<rparr>)),
           [SnapshotRootCommitted (p_trust p) (p_proposal_id p) (p_snapshot_slot p) root
              total_supply_snapshot])))))"

definition CastVote_accounts :: "pda_sdk \<Rightarrow> gov_store \<Rightarrow> pubkey \<Rightarrow> pubkey \<Rightarrow> pubkey \<Rightarrow>
  GovernanceError err + Proposal \<times> u8" where
  "CastVote_accounts P L proposal vote voter =
     rbind (load as_proposal L proposal) (\<lambda>p.
     require (seeds_ok P (proposal_seeds (p_trust p) (p_proposal_id p)) (p_bump p)
         AEQI_GOVERNANCE_ID proposal) (Anchor ConstraintSeeds)
     (rbind (init_account P (vote_seeds p voter) AEQI_GOVERNANCE_ID L vote) (\<lambda>bump.
       Inr (p, bump))))"

definition gov_cast_vote :: "pda_sdk \<Rightarrow> pubkey \<Rightarrow> pubkey \<Rightarrow> pubkey \<Rightarrow> u8 \<Rightarrow> u128 \<Rightarrow> gov_store \<Rightarrow>
  gov_result" where
  "gov_cast_vote P proposal vote voter choice weight L =
     rbind (CastVote_accounts P L proposal vote voter) (\<lambda>_. Inl (Prog GenericVotingDisabled))"

definition Propose_accounts :: "pda_sdk \<Rightarrow> bytes32 \<Rightarrow> gov_store \<Rightarrow> pubkey \<Rightarrow> pubkey \<Rightarrow> pubkey \<Rightarrow>
  GovernanceError err + GovernanceModuleState \<times> u8" where
  "Propose_accounts P proposal_id L trust module_state proposal =
     rbind (gov_module_account P L trust module_state) (\<lambda>m.
     rbind (init_account P (proposal_seeds trust proposal_id) AEQI_GOVERNANCE_ID L proposal) (\<lambda>bump.
       Inr (m, bump)))"

definition gov_propose :: "pda_sdk \<Rightarrow> clock \<Rightarrow> pubkey \<Rightarrow> pubkey \<Rightarrow> pubkey \<Rightarrow> pubkey \<Rightarrow> pubkey list \<Rightarrow>
  bytes32 \<Rightarrow> bytes32 \<Rightarrow> bytes64 \<Rightarrow> gov_store \<Rightarrow> gov_result" where
  "gov_propose P clk trust module_state proposal proposer remaining_accounts proposal_id
     governance_config_id ipfs_cid L =
     rbind (Propose_accounts P proposal_id L trust module_state proposal) (\<lambda>(m, bump).
     case remaining_accounts of
       [] \<Rightarrow> Inl (Prog ConfigMismatch)
     | cfg_acct # _ \<Rightarrow>
     rbind (load_governance_config P L cfg_acct trust governance_config_id) (\<lambda>cfg.
     let now = unix_timestamp clk in
     rbind (ok_or (checked_add (gm_proposal_count m) 1) (Prog MathOverflow)) (\<lambda>n.
       Inr (L(module_state \<mapsto> GovModuleA (m\<lparr>gm_proposal_count := n\<rparr>),
              proposal \<mapsto> ProposalA
                \<lparr>p_trust = trust, p_proposal_id = proposal_id,
                 p_governance_config_id = governance_config_id, p_proposer = proposer,
                 p_ipfs_cid = ipfs_cid, p_vote_start = now, p_vote_duration = g_voting_period cfg,
                 p_execution_delay = g_execution_delay cfg, p_snapshot_slot = slot clk,
                 p_snapshot_root = 0, p_snapshot_total_supply = 0, p_for_votes = 0,
                 p_against_votes = 0, p_abstain_votes = 0, p_executed = False,
                 p_canceled = False, p_succeeded_at = 0, p_bump = bump\<rparr>),
            [ProposalCreated trust proposal_id governance_config_id proposer now
               (g_voting_period cfg)]))))"


section \<open>What a successful instruction did\<close>

lemma as_gov_acct [res]:
  "as_gov_module a = Some m \<longleftrightarrow> a = GovModuleA m"
  "as_gov_config a = Some g \<longleftrightarrow> a = GovConfigA g"
  "as_proposal a = Some p \<longleftrightarrow> a = ProposalA p"
  by (cases a; simp)+

lemmas gov_accounts_defs =
  InitGovernance_accounts_def RegisterConfig_accounts_def ExecuteProposal_accounts_def
  CastVoteRole_accounts_def CastVoteToken_accounts_def CommitSnapshotRoot_accounts_def
  CastVote_accounts_def Propose_accounts_def

lemma gov_module_account_Inr [res]:
  "gov_module_account P L trust key = Inr m \<longleftrightarrow> L key = Some (GovModuleA m) \<and>
     seeds_ok P [Lit ''gov_module'', B32 trust] (gm_bump m) AEQI_GOVERNANCE_ID key"
  by (auto simp: gov_module_account_def res)

lemma bump_config_count_Inr [res]:
  "bump_config_count m = Inr m' \<longleftrightarrow>
     (\<exists>n. unat n = unat (gm_config_count m) + 1 \<and> m' = m\<lparr>gm_config_count := n\<rparr>)"
  by (auto simp: bump_config_count_def res num)

lemma proposal_vote_end_Inr [res]:
  "proposal_vote_end p = Inr e \<longleftrightarrow> sint e = sint (p_vote_start p) + sint (p_vote_duration p)"
  by (simp add: proposal_vote_end_def res num)

lemma require_vote_open_Inr [res]:
  "require_vote_open p now = Inr u \<longleftrightarrow> \<not> p_executed p \<and> \<not> p_canceled p \<and>
     sint (p_vote_start p) \<le> sint now \<and>
     (\<exists>e :: i64. sint e = sint (p_vote_start p) + sint (p_vote_duration p) \<and> sint now < sint e)"
  by (auto simp: require_vote_open_def res num)

lemma load_governance_config_Inr [res]:
  "load_governance_config P L key trust gid = Inr cfg \<longleftrightarrow>
     key = fst (find_program_address P [Lit ''gov_config'', B32 trust, B32 gid]
       AEQI_GOVERNANCE_ID) \<and>
     L key = Some (GovConfigA cfg) \<and> g_trust cfg = trust \<and> g_governance_config_id cfg = gid"
  by (auto simp: load_governance_config_def res)

text \<open>Rounding up: the result is the least \<open>c\<close> with \<open>c * 10000 \<ge> value * bps\<close>.\<close>

lemma checked_bps_ceil_Inr:
  "checked_bps_ceil value bps = Inr c \<longleftrightarrow>
     unat value * unat bps + 9999 < 2 ^ 128 \<and> unat c = (unat value * unat bps + 9999) div 10000"
    (is "?l \<longleftrightarrow> ?r")
proof -
  have d: "unat BPS_DENOMINATOR = 10000" "unat (BPS_DENOMINATOR - 1) = 9999"
    by (simp_all add: BPS_DENOMINATOR_def)
  have b: "unat (ucast bps :: u128) = unat bps" by (simp add: unat_ucast_wide)
  show ?thesis
  proof
    assume ?l
    then obtain n m where "unat (n :: u128) = unat value * unat bps" "unat (m :: u128) = unat n + 9999"
      "unat c = unat m div 10000"
      by (auto simp: checked_bps_ceil_def res checked_add_Some checked_mul_Some checked_div_Some d b)
    then show ?r using unat_bound [of m] by simp
  next
    assume r: ?r
    define n m :: u128 where "n = of_nat (unat value * unat bps)"
      and "m = of_nat (unat value * unat bps + 9999)"
    have n: "unat n = unat value * unat bps" and m: "unat m = unat value * unat bps + 9999"
      unfolding n_def m_def using r by (intro unat_of_nat_small, simp)+
    have "checked_mul value (ucast bps) = Some n" using n by (simp add: checked_mul_Some b)
    moreover have "checked_add n (BPS_DENOMINATOR - 1) = Some m"
      using n m by (simp add: checked_add_Some d)
    moreover have "checked_div m BPS_DENOMINATOR = Some c" using m r by (simp add: checked_div_Some d)
    ultimately show ?l by (simp add: checked_bps_ceil_def)
  qed
qed

lemma ceil_div_bounds:
  fixes n :: nat
  shows "n \<le> (n + 9999) div 10000 * 10000" and "m * 10000 < n \<Longrightarrow> m < (n + 9999) div 10000"
  by linarith+

text \<open>The counter that a choice addresses, and what casting does to the three counters.\<close>

definition counter :: "Proposal \<Rightarrow> u8 \<Rightarrow> u128" where
  "counter p c = (if c = 0 then p_against_votes p else if c = 1 then p_for_votes p
     else p_abstain_votes p)"

definition same_terms :: "Proposal \<Rightarrow> Proposal \<Rightarrow> bool" where
  "same_terms p p' \<longleftrightarrow> p_trust p' = p_trust p \<and> p_proposal_id p' = p_proposal_id p \<and>
     p_governance_config_id p' = p_governance_config_id p \<and> p_proposer p' = p_proposer p \<and>
     p_ipfs_cid p' = p_ipfs_cid p \<and> p_vote_start p' = p_vote_start p \<and>
     p_vote_duration p' = p_vote_duration p \<and> p_execution_delay p' = p_execution_delay p \<and>
     p_snapshot_slot p' = p_snapshot_slot p \<and> p_canceled p' = p_canceled p \<and>
     p_bump p' = p_bump p"

definition tallied :: "Proposal \<Rightarrow> u8 \<Rightarrow> u128 \<Rightarrow> Proposal \<Rightarrow> bool" where
  "tallied p choice w p' \<longleftrightarrow>
     same_terms p p' \<and> p_executed p' = p_executed p \<and> p_snapshot_root p' = p_snapshot_root p \<and>
     choice \<in> {0, 1, 2} \<and>
     (\<forall>c \<in> {0, 1, 2}. unat (counter p' c) = unat (counter p c) + (if c = choice then unat w else 0))"

lemma u8_le_2: "(c :: u8) \<le> 2 \<longleftrightarrow> c \<in> {0, 1, 2}"
proof -
  have "unat c \<le> 2 \<longleftrightarrow> unat c = 0 \<or> unat c = 1 \<or> unat c = 2" by auto
  moreover have "unat c = 0 \<longleftrightarrow> c = 0" "unat c = 1 \<longleftrightarrow> c = 1" "unat c = 2 \<longleftrightarrow> c = 2"
    by (simp_all add: word_unat_eq_iff)
  ultimately show ?thesis by (simp add: word_le_nat_alt)
qed

lemma apply_vote_tally_ok:
  assumes "apply_vote_tally p choice w = Inr p'"
  shows "tallied p choice w p'"
proof -
  from assms consider
      n where "choice = 0" "unat n = unat (p_against_votes p) + unat w" "p' = p\<lparr>p_against_votes := n\<rparr>"
    | n where "choice = 1" "unat n = unat (p_for_votes p) + unat w" "p' = p\<lparr>p_for_votes := n\<rparr>"
    | n where "choice = 2" "unat n = unat (p_abstain_votes p) + unat w" "p' = p\<lparr>p_abstain_votes := n\<rparr>"
    unfolding apply_vote_tally_def u8_le_2 by (auto simp: res checked_add_Some split: if_splits)
  then show ?thesis by cases (simp_all add: tallied_def same_terms_def counter_def)
qed

text \<open>Both casts have one effect.\<close>

definition vote_cast :: "pda_sdk \<Rightarrow> pubkey \<Rightarrow> pubkey \<Rightarrow> pubkey \<Rightarrow> u8 \<Rightarrow> u128 \<Rightarrow> gov_store \<Rightarrow>
  gov_store \<Rightarrow> bool" where
  "vote_cast P proposal vote voter choice w L L' \<longleftrightarrow>
     (\<exists>p p' bump. L proposal = Some (ProposalA p) \<and> L vote = None \<and> tallied p choice w p' \<and>
        find_program_address P (vote_seeds p voter) AEQI_GOVERNANCE_ID = (vote, bump) \<and>
        \<not> p_executed p \<and> 0 < w \<and>
        L' = L(proposal \<mapsto> ProposalA p', vote \<mapsto> VoteA (record_vote p' voter choice w bump)))"

lemma gov_cast_vote_role_ok:
  assumes "gov_cast_vote_role P clk RL proposal vote ck voter choice L = Inr (L', ev)"
  shows "\<exists>k. RL ck = Some (CheckpointA k) \<and>
    vote_cast P proposal vote voter choice (ucast (k_count k)) L L'"
  using assms unfolding vote_cast_def
  by (auto simp: gov_cast_vote_role_def gov_accounts_defs res Let_def dest: apply_vote_tally_ok)

lemma gov_cast_vote_token_ok:
  assumes "gov_cast_vote_token P H clk proposal vote voter choice b proof L = Inr (L', ev)"
  shows "vote_cast P proposal vote voter choice (ucast b) L L'"
proof -
  have "0 < b \<Longrightarrow> 0 < (ucast b :: u128)"
    by (simp add: word_less_nat_alt unat_ucast_wide)
  with assms show ?thesis unfolding vote_cast_def
    by (auto simp: gov_cast_vote_token_def gov_accounts_defs res Let_def dest: apply_vote_tally_ok)
qed

lemma vote_cast_after:
  assumes "vote_cast P k j voter c w L L'"
  shows "\<exists>p v. L' k = Some (ProposalA p) \<and> L' j = Some (VoteA v) \<and>
    fst (find_program_address P (vote_seeds p voter) AEQI_GOVERNANCE_ID) = j"
proof -
  from assms obtain p p' bump where p: "L k = Some (ProposalA p)" "L j = None" "tallied p c w p'"
    "find_program_address P (vote_seeds p voter) AEQI_GOVERNANCE_ID = (j, bump)"
    "L' = L(k \<mapsto> ProposalA p', j \<mapsto> VoteA (record_vote p' voter c w bump))"
    unfolding vote_cast_def by blast
  then have "vote_seeds p' voter = vote_seeds p voter"
    by (simp add: tallied_def same_terms_def vote_seeds_def)
  moreover have "k \<noteq> j" using p by auto
  ultimately show ?thesis using p by simp
qed

lemma gov_commit_ok:
  "gov_commit_snapshot_root P clk proposal root supply L = Inr (L', ev) \<Longrightarrow>
   \<exists>p. L proposal = Some (ProposalA p) \<and> p_snapshot_root p = 0 \<and> root \<noteq> 0 \<and>
     p_snapshot_slot p < slot clk \<and>
     L' = L(proposal \<mapsto> ProposalA (p\<lparr>p_snapshot_root := root, p_snapshot_total_supply := supply\<rparr>))"
  by (auto simp: gov_commit_snapshot_root_def gov_accounts_defs res)

lemma gov_propose_ok:
  "gov_propose P clk trust ms proposal proposer rem pid gid cid L = Inr (L', ev) \<Longrightarrow>
   \<exists>m n p. L' = L(ms \<mapsto> GovModuleA (m\<lparr>gm_proposal_count := n\<rparr>), proposal \<mapsto> ProposalA p) \<and>
     L ms = Some (GovModuleA m) \<and> L proposal = None \<and>
     find_program_address P (proposal_seeds trust pid) AEQI_GOVERNANCE_ID = (proposal, p_bump p) \<and>
     p_trust p = trust \<and> p_proposal_id p = pid \<and> p_for_votes p = 0 \<and> p_against_votes p = 0 \<and>
     p_abstain_votes p = 0 \<and> \<not> p_executed p \<and> p_snapshot_root p = 0"
  by (cases rem) (simp_all add: gov_propose_def gov_accounts_defs res Let_def,
      elim exE conjE, hypsubst, intro exI conjI, rule refl, simp_all)

text \<open>The condition on which a proposal passes, in exact arithmetic.\<close>

definition passes :: "nat \<Rightarrow> GovernanceConfig \<Rightarrow> Proposal \<Rightarrow> int \<Rightarrow> bool" where
  "passes supply cfg p now \<longleftrightarrow>
     (let f = unat (p_for_votes p); a = unat (p_against_votes p); b = unat (p_abstain_votes p);
          vote_end = sint (p_vote_start p) + sint (p_vote_duration p);
          delay = sint (g_execution_delay cfg) in
      supply * unat (g_quorum_bps cfg) \<le> (f + b) * 10000 \<and>
      (f + a) * unat (g_support_bps cfg) \<le> f * 10000 \<and> 0 < f + a \<and>
      (vote_end \<le> now \<or> g_allow_early_enact cfg) \<and>
      (0 < delay \<longrightarrow> vote_end + delay \<le> now))"

lemma gov_execute_ok:
  assumes "gov_execute_proposal P clk mint_supply RL proposal rem L = Inr (L', ev)"
  shows "\<exists>p cfg supply ck sk. L proposal = Some (ProposalA p) \<and> \<not> p_executed p \<and> \<not> p_canceled p \<and>
    load_governance_config P L ck (p_trust p) (p_governance_config_id p) = Inr cfg \<and>
    load_total_vote_supply P mint_supply RL p sk = Inr supply \<and>
    passes (unat supply) cfg p (sint (unix_timestamp clk)) \<and>
    L' = L(proposal \<mapsto> ProposalA (p\<lparr>p_succeeded_at :=
      (if p_succeeded_at p = 0 then unix_timestamp clk else p_succeeded_at p), p_executed := True\<rparr>))"
proof -
  from assms obtain p where p: "ExecuteProposal_accounts P L proposal = Inr p"
    by (auto simp: gov_execute_proposal_def res)
  from assms p obtain ck sk rest where rem: "rem = ck # sk # rest"
    by (cases rem; cases "tl rem") (auto simp: gov_execute_proposal_def res)
  from assms p rem obtain cfg sup e part q dec sr where
    ok: "\<not> p_executed p" "\<not> p_canceled p"
      "load_governance_config P L ck (p_trust p) (p_governance_config_id p) = Inr cfg"
      "load_total_vote_supply P mint_supply RL p sk = Inr sup"
      "proposal_vote_end p = Inr e" "e \<le>s unix_timestamp clk \<or> g_allow_early_enact cfg"
      "checked_add (p_for_votes p) (p_abstain_votes p) = Some part"
      "checked_bps_ceil sup (g_quorum_bps cfg) = Inr q" "q \<le> part"
      "checked_add (p_for_votes p) (p_against_votes p) = Some dec" "0 < dec"
      "checked_bps_ceil dec (g_support_bps cfg) = Inr sr" "sr \<le> p_for_votes p"
    and delay: "0 <s g_execution_delay cfg \<Longrightarrow> \<exists>r. ichecked_add e (g_execution_delay cfg) = Some r \<and>
      r \<le>s unix_timestamp clk"
    and L': "L' = L(proposal \<mapsto> ProposalA (p\<lparr>p_succeeded_at :=
      (if p_succeeded_at p = 0 then unix_timestamp clk else p_succeeded_at p), p_executed := True\<rparr>))"
    unfolding gov_execute_proposal_def
    by (auto simp: rbind_Inr require_Inr ok_or_Inr Let_def split: if_splits)
  have "unat q = (unat sup * unat (g_quorum_bps cfg) + 9999) div 10000"
    "unat sr = (unat dec * unat (g_support_bps cfg) + 9999) div 10000"
    using ok(8,12) by (simp_all add: checked_bps_ceil_Inr)
  moreover have "unat part = unat (p_for_votes p) + unat (p_abstain_votes p)"
    "unat dec = unat (p_for_votes p) + unat (p_against_votes p)" "0 < unat dec"
    "unat q \<le> unat part" "unat sr \<le> unat (p_for_votes p)"
    "sint e = sint (p_vote_start p) + sint (p_vote_duration p)"
    using ok by (simp_all add: num res)
  ultimately have "passes (unat sup) cfg p (sint (unix_timestamp clk))"
    unfolding passes_def Let_def
    using ok(6) delay ceil_div_bounds(1) [of "unat sup * unat (g_quorum_bps cfg)"]
      ceil_div_bounds(1) [of "unat dec * unat (g_support_bps cfg)"]
    by (auto simp: num)
  moreover have "L proposal = Some (ProposalA p)" using p by (simp add: gov_accounts_defs res)
  ultimately show ?thesis using ok L' by blast
qed

section \<open>Runs of the program\<close>

inductive gov_step :: "pda_sdk \<Rightarrow> (u8 list \<Rightarrow> bytes32) \<Rightarrow> gov_store \<Rightarrow> gov_store \<Rightarrow> bool" for P H where
  init: "gov_init P TL trust ms payer L = Inr (L', ev) \<Longrightarrow> gov_step P H L L'"
| finalize: "gov_finalize L = Inr (L', ev) \<Longrightarrow> gov_step P H L L'"
| register_config: "gov_register_config P TL trust ms gc payer gid cfg L = Inr (L', ev) \<Longrightarrow>
    gov_step P H L L'"
| execute: "gov_execute_proposal P clk mint_supply RL proposal rem L = Inr (L', ev) \<Longrightarrow>
    gov_step P H L L'"
| cast_vote_role: "gov_cast_vote_role P clk RL proposal vote ck voter choice L = Inr (L', ev) \<Longrightarrow>
    gov_step P H L L'"
| cast_vote_token: "gov_cast_vote_token P H clk proposal vote voter choice b mp L = Inr (L', ev) \<Longrightarrow>
    gov_step P H L L'"
| commit: "gov_commit_snapshot_root P clk proposal root supply L = Inr (L', ev) \<Longrightarrow> gov_step P H L L'"
| cast_vote: "gov_cast_vote P proposal vote voter choice w L = Inr (L', ev) \<Longrightarrow> gov_step P H L L'"
| propose: "gov_propose P clk trust ms proposal proposer rem pid gid cid L = Inr (L', ev) \<Longrightarrow>
    gov_step P H L L'"

text \<open>Accounts that are neither proposals nor votes.\<close>

fun is_setup :: "gov_acct \<Rightarrow> bool" where
  "is_setup (GovModuleA _) = True"
| "is_setup (GovConfigA _) = True"
| "is_setup _ = False"

definition setup_only :: "gov_store \<Rightarrow> gov_store \<Rightarrow> bool" where
  "setup_only L M \<longleftrightarrow> (\<forall>k. M k = L k \<or> (\<exists>a. M k = Some a \<and> is_setup a) \<and>
     (L k = None \<or> (\<exists>b. L k = Some b \<and> is_setup b)))"

lemma gov_init_ok:
  "gov_init P TL trust ms payer L = Inr (L', ev) \<Longrightarrow>
   \<exists>t m. TL trust = Some (TrustA t) \<and> t_creation_mode t \<and> payer = t_authority t \<and>
     L ms = None \<and> L' = L(ms \<mapsto> GovModuleA m)"
  by (auto simp: gov_init_def gov_accounts_defs res)

lemma gov_register_config_ok:
  "gov_register_config P TL trust ms gc payer gid cfg L = Inr (L', ev) \<Longrightarrow>
   \<exists>t m m' g. TL trust = Some (TrustA t) \<and> payer = t_authority t \<and>
     L ms = Some (GovModuleA m) \<and> L gc = None \<and>
     L' = L(ms \<mapsto> GovModuleA m', gc \<mapsto> GovConfigA g) \<and>
     0 < unat (g_quorum_bps g) \<and> unat (g_quorum_bps g) \<le> 10000 \<and>
     0 < unat (g_support_bps g) \<and> unat (g_support_bps g) \<le> 10000 \<and> 0 < sint (g_voting_period g)"
  by (simp add: gov_register_config_def gov_accounts_defs res num, elim exE conjE, hypsubst,
      intro exI conjI) (rule refl | simp | assumption)+

lemma gov_step_shape:
  assumes "gov_step P H L L'"
  obtains
    (setup_write) "setup_only L L'"
  | (new_proposal) M k p where "setup_only L M" "L k = None" "M k = None"
      "k = fst (find_program_address P (proposal_seeds (p_trust p) (p_proposal_id p)) AEQI_GOVERNANCE_ID)"
      "p_for_votes p = 0" "p_against_votes p = 0" "p_abstain_votes p = 0"
      "L' = M(k \<mapsto> ProposalA p)"
  | (cast) k j voter choice w where "vote_cast P k j voter choice w L L'"
  | (prop_write) k p p' where "L k = Some (ProposalA p)" "same_terms p p'"
      "p_for_votes p' = p_for_votes p" "p_against_votes p' = p_against_votes p"
      "p_abstain_votes p' = p_abstain_votes p" "p_executed p \<longrightarrow> p_executed p'"
      "p_snapshot_root p \<noteq> 0 \<longrightarrow> p_snapshot_root p' = p_snapshot_root p"
      "L' = L(k \<mapsto> ProposalA p')"
  using assms
proof cases
  case init
  then show ?thesis by (auto dest!: gov_init_ok intro!: setup_write simp: setup_only_def)
next
  case finalize
  then show ?thesis by (auto intro!: setup_write simp: setup_only_def gov_finalize_def)
next
  case register_config
  then show ?thesis by (auto dest!: gov_register_config_ok intro!: setup_write simp: setup_only_def)
next
  case execute
  from gov_execute_ok [OF this] obtain k p s where "L k = Some (ProposalA p)"
    "L' = L(k \<mapsto> ProposalA (p\<lparr>p_succeeded_at := s, p_executed := True\<rparr>))" by blast
  then show ?thesis by - (rule prop_write [rotated -1], assumption, auto simp: same_terms_def)
next
  case cast_vote_role
  then show ?thesis by (blast dest: gov_cast_vote_role_ok intro: cast)
next
  case cast_vote_token
  then show ?thesis by (blast dest: gov_cast_vote_token_ok intro: cast)
next
  case commit
  from gov_commit_ok [OF this] obtain k p r s where "L k = Some (ProposalA p)" "p_snapshot_root p = 0"
    "L' = L(k \<mapsto> ProposalA (p\<lparr>p_snapshot_root := r, p_snapshot_total_supply := s\<rparr>))" by blast
  then show ?thesis by - (rule prop_write [rotated -1], assumption, auto simp: same_terms_def)
next
  case cast_vote
  then show ?thesis by (simp add: gov_cast_vote_def res)
next
  case (propose clk trust ms proposal)
  from gov_propose_ok [OF this(1)] obtain m n p where
    "L' = L(ms \<mapsto> GovModuleA (m\<lparr>gm_proposal_count := n\<rparr>), proposal \<mapsto> ProposalA p)"
    "L ms = Some (GovModuleA m)" "L proposal = None"
    "proposal = fst (find_program_address P (proposal_seeds (p_trust p) (p_proposal_id p))
       AEQI_GOVERNANCE_ID)" "p_for_votes p = 0" "p_against_votes p = 0" "p_abstain_votes p = 0"
    by auto
  then show ?thesis
    by (intro new_proposal [of "L(ms \<mapsto> GovModuleA (m\<lparr>gm_proposal_count := n\<rparr>))" proposal p])
      (auto simp: setup_only_def)
qed


section \<open>The tally invariant\<close>

definition proposal_key :: "pda_sdk \<Rightarrow> pubkey \<Rightarrow> bytes32 \<Rightarrow> pubkey" where
  "proposal_key P trust pid = fst (find_program_address P (proposal_seeds trust pid) AEQI_GOVERNANCE_ID)"

text \<open>What an account adds to the count of a choice on a proposal.\<close>

fun vote_weight :: "pubkey \<Rightarrow> bytes32 \<Rightarrow> u8 \<Rightarrow> gov_acct \<Rightarrow> nat" where
  "vote_weight trust pid c (VoteA v) =
     (if v_trust v = trust \<and> v_proposal_id v = pid \<and> v_choice v = c then unat (v_weight v) else 0)"
| "vote_weight trust pid c _ = 0"

definition tally :: "gov_store \<Rightarrow> Proposal \<Rightarrow> u8 \<Rightarrow> nat" where
  "tally L p c = total (vote_weight (p_trust p) (p_proposal_id p) c) L"

definition gov_inv :: "pda_sdk \<Rightarrow> gov_store \<Rightarrow> bool" where
  "gov_inv P L \<longleftrightarrow>
     (\<forall>k p. L k = Some (ProposalA p) \<longrightarrow> k = proposal_key P (p_trust p) (p_proposal_id p)) \<and>
     (\<forall>j v. L j = Some (VoteA v) \<longrightarrow>
        (\<exists>p. L (proposal_key P (v_trust v) (v_proposal_id v)) = Some (ProposalA p))) \<and>
     (\<forall>k p c. L k = Some (ProposalA p) \<longrightarrow> c \<in> {0, 1, 2} \<longrightarrow> unat (counter p c) = tally L p c)"

lemma setup_only_at: "setup_only L M \<Longrightarrow> at (vote_weight t i c) M k = at (vote_weight t i c) L k"
  unfolding setup_only_def at_def by (metis (no_types, lifting) is_setup.elims(2) option.simps(4,5)
      vote_weight.simps(2,3))

lemma setup_only_tally: "setup_only L M \<Longrightarrow> tally M p c = tally L p c"
  unfolding tally_def by (intro total_cong setup_only_at)

lemma setup_only_same:
  "setup_only L M \<Longrightarrow> \<not> is_setup a \<Longrightarrow> M k = Some a \<longleftrightarrow> L k = Some a"
  unfolding setup_only_def by (metis option.distinct(1) option.inject)

lemma gov_inv_setup: "setup_only L M \<Longrightarrow> gov_inv P L \<Longrightarrow> gov_inv P M"
  by (simp add: gov_inv_def setup_only_tally setup_only_same)

lemma tally_proposal_write:
  "L k = None \<or> (\<exists>p. L k = Some (ProposalA p)) \<Longrightarrow> tally (L(k \<mapsto> ProposalA q)) p c = tally L p c"
  unfolding tally_def by (rule total_cong) (auto simp: at_def)

lemma vote_weight_0:
  "(\<And>v. a = VoteA v \<Longrightarrow> v_trust v \<noteq> t \<or> v_proposal_id v \<noteq> i) \<Longrightarrow> vote_weight t i c a = 0"
  by (cases a) auto

lemma gov_inv_new_proposal:
  assumes inv: "gov_inv P L" and k: "L k = None" "k = proposal_key P (p_trust p) (p_proposal_id p)"
    and z: "p_for_votes p = 0" "p_against_votes p = 0" "p_abstain_votes p = 0"
  shows "gov_inv P (L(k \<mapsto> ProposalA p))"
proof -
  have "v_trust v \<noteq> p_trust p \<or> v_proposal_id v \<noteq> p_proposal_id p" if "L j = Some (VoteA v)" for j v
    using inv k that unfolding gov_inv_def by fastforce
  then have "tally L p c = tally Map.empty p c" for c
    unfolding tally_def
    by (intro total_cong) (auto simp: at_def intro!: vote_weight_0 split: option.splits)
  then have "tally L p c = 0" for c by (simp add: tally_def total_def)
  with inv k z show ?thesis unfolding gov_inv_def tally_proposal_write [of L k, OF disjI1, OF k(1)]
    by (auto simp: counter_def)
qed

lemma gov_inv_prop_write:
  assumes inv: "gov_inv P L" and k: "L k = Some (ProposalA p)" and s: "same_terms p p'"
    and z: "p_for_votes p' = p_for_votes p" "p_against_votes p' = p_against_votes p"
      "p_abstain_votes p' = p_abstain_votes p"
  shows "gov_inv P (L(k \<mapsto> ProposalA p'))"
proof -
  have "tally (L(k \<mapsto> ProposalA p')) q c = tally L q c" for q c
    using k by (intro tally_proposal_write) auto
  moreover have "counter p' c = counter p c" "tally L p' c = tally L p c" for c
    using z s by (simp_all add: counter_def tally_def same_terms_def)
  ultimately show ?thesis using inv k s unfolding gov_inv_def by (auto simp: same_terms_def)
qed

lemma gov_inv_cast:
  assumes inv: "gov_inv P L" and cast: "vote_cast P k j voter choice w L L'"
  shows "gov_inv P L'"
proof -
  from cast obtain p p' bump where p: "L k = Some (ProposalA p)" and j: "L j = None"
    and t: "tallied p choice w p'"
    and L': "L' = L(k \<mapsto> ProposalA p', j \<mapsto> VoteA (record_vote p' voter choice w bump))"
    by (auto simp: vote_cast_def)
  let ?v = "record_vote p' voter choice w bump" and ?M = "L(k \<mapsto> ProposalA p')"
  have kj: "k \<noteq> j" using p j by auto
  have same: "p_trust p' = p_trust p" "p_proposal_id p' = p_proposal_id p"
    using t by (simp_all add: tallied_def same_terms_def)
  have "tally L' q c = tally ?M q c + vote_weight (p_trust q) (p_proposal_id q) c (VoteA ?v)" for q c
    unfolding tally_def L' by (rule total_new) (simp add: j kj [symmetric])
  then have tal: "tally L' q c = tally L q c + (if p_trust q = p_trust p \<and>
      p_proposal_id q = p_proposal_id p \<and> c = choice then unat w else 0)" for q c
    using tally_proposal_write [of L k p' q c] p same by (auto simp: record_vote_def)
  have other: "p_trust q \<noteq> p_trust p \<or> p_proposal_id q \<noteq> p_proposal_id p"
    if "L i = Some (ProposalA q)" "i \<noteq> k" for i q
    using inv p that unfolding gov_inv_def by metis
  have main: "unat (counter p' c) = tally L' p' c" if "c \<in> {0, 1, 2}" for c
  proof -
    have "unat (counter p' c) = unat (counter p c) + (if c = choice then unat w else 0)"
      using t that by (auto simp: tallied_def)
    moreover have "unat (counter p c) = tally L p c" using inv p that unfolding gov_inv_def by blast
    moreover have "tally L p' c = tally L p c" by (simp add: tally_def same)
    ultimately show ?thesis by (simp add: tal same)
  qed
  show ?thesis unfolding gov_inv_def
  proof (intro conjI allI impI)
    show "i = proposal_key P (p_trust q) (p_proposal_id q)" if "L' i = Some (ProposalA q)" for i q
      using inv p that kj same unfolding gov_inv_def L' by (auto split: if_splits)
    show "\<exists>q. L' (proposal_key P (v_trust v) (v_proposal_id v)) = Some (ProposalA q)"
      if "L' i = Some (VoteA v)" for i v
    proof (cases "i = j")
      case True
      with that L' same have "v_trust v = p_trust p" "v_proposal_id v = p_proposal_id p"
        by (auto simp: record_vote_def)
      moreover have "k = proposal_key P (p_trust p) (p_proposal_id p)"
        using inv p unfolding gov_inv_def by blast
      ultimately show ?thesis using kj L' by auto
    next
      case False
      with that L' have "L i = Some (VoteA v)" by (auto split: if_splits)
      with inv obtain q where "L (proposal_key P (v_trust v) (v_proposal_id v)) = Some (ProposalA q)"
        unfolding gov_inv_def by blast
      then show ?thesis using L' j by auto
    qed
    show "unat (counter q c) = tally L' q c"
      if "L' i = Some (ProposalA q)" "c \<in> {0, 1, 2}" for i q c
    proof (cases "i = k")
      case True
      with that L' kj main show ?thesis by auto
    next
      case False
      with that L' have q: "L i = Some (ProposalA q)" by (auto split: if_splits)
      with inv that(2) have "unat (counter q c) = tally L q c" unfolding gov_inv_def by blast
      with other [OF q False] show ?thesis by (auto simp: tal)
    qed
  qed
qed

lemma gov_step_inv: "gov_step P H L L' \<Longrightarrow> gov_inv P L \<Longrightarrow> gov_inv P L'"
proof (elim gov_step_shape, goal_cases)
  case 1
  then show ?case by (rule gov_inv_setup [rotated])
next
  case (2 M k p)
  then have "gov_inv P M" by (blast intro: gov_inv_setup)
  with 2 show ?case by (auto intro!: gov_inv_new_proposal simp: proposal_key_def)
next
  case (3 k j voter choice w)
  then show ?case by (blast intro: gov_inv_cast)
next
  case (4 k p p')
  then show ?case by (auto intro!: gov_inv_prop_write)
qed

interpretation gov_run: kept_by_steps "gov_step P H" "gov_inv P" for P H
  by unfold_locales (rule gov_step_inv)


text \<open>What a run never takes back: terms, votes, a committed root, an execution.\<close>

definition proposal_later :: "Proposal \<Rightarrow> Proposal \<Rightarrow> bool" where
  "proposal_later p p' \<longleftrightarrow> same_terms p p' \<and>
     (\<forall>c \<in> {0, 1, 2}. counter p c \<le> counter p' c \<and> (p_executed p \<longrightarrow> counter p' c = counter p c)) \<and>
     (p_executed p \<longrightarrow> p_executed p') \<and>
     (p_snapshot_root p \<noteq> 0 \<longrightarrow> p_snapshot_root p' = p_snapshot_root p)"

definition gov_later :: "gov_store \<Rightarrow> gov_store \<Rightarrow> bool" where
  "gov_later L L' \<longleftrightarrow>
     (\<forall>k p. L k = Some (ProposalA p) \<longrightarrow> (\<exists>p'. L' k = Some (ProposalA p') \<and> proposal_later p p')) \<and>
     (\<forall>j v. L j = Some (VoteA v) \<longrightarrow> L' j = Some (VoteA v))"

lemma proposal_later_refl: "proposal_later p p"
  by (simp add: proposal_later_def same_terms_def)

lemma same_terms_trans: "same_terms p q \<Longrightarrow> same_terms q r \<Longrightarrow> same_terms p r"
  by (simp add: same_terms_def)

lemma proposal_later_trans:
  assumes a: "proposal_later p q" and b: "proposal_later q r"
  shows "proposal_later p r"
proof -
  have "same_terms p r" using a b same_terms_trans unfolding proposal_later_def by blast
  moreover have "counter p c \<le> counter r c \<and> (p_executed p \<longrightarrow> counter r c = counter p c)"
    if c: "c \<in> {0, 1, 2}" for c
  proof -
    have "counter p c \<le> counter q c" "counter q c \<le> counter r c"
      "p_executed p \<longrightarrow> counter q c = counter p c \<and> p_executed q"
      "p_executed q \<longrightarrow> counter r c = counter q c"
      using a b c unfolding proposal_later_def by blast+
    then show ?thesis by auto
  qed
  moreover have "p_executed p \<longrightarrow> p_executed r"
    "p_snapshot_root p \<noteq> 0 \<longrightarrow> p_snapshot_root r = p_snapshot_root p"
    using a b unfolding proposal_later_def by metis+
  ultimately show ?thesis unfolding proposal_later_def by blast
qed

lemma gov_later_trans: "gov_later L M \<Longrightarrow> gov_later M N \<Longrightarrow> gov_later L N"
  unfolding gov_later_def by (meson proposal_later_trans)

lemma gov_step_later: "gov_step P H L L' \<Longrightarrow> gov_later L L'"
proof (elim gov_step_shape, goal_cases)
  case 1
  then show ?case by (auto simp: gov_later_def setup_only_same proposal_later_refl)
next
  case (2 M k p)
  then show ?case by (auto simp: gov_later_def setup_only_same proposal_later_refl)
next
  case (3 k j voter choice w)
  then obtain p p' bump where p: "L k = Some (ProposalA p)" "L j = None" "tallied p choice w p'"
    "\<not> p_executed p" "L' = L(k \<mapsto> ProposalA p', j \<mapsto> VoteA (record_vote p' voter choice w bump))"
    unfolding vote_cast_def by blast
  then have "proposal_later p p'"
    unfolding proposal_later_def tallied_def by (auto simp: word_le_nat_alt)
  with p show ?case by (auto simp: gov_later_def proposal_later_refl)
next
  case (4 k p p')
  then have "proposal_later p p'" by (auto simp: proposal_later_def counter_def)
  with 4 show ?case by (auto simp: gov_later_def proposal_later_refl)
qed

interpretation gov_life: ordered_by_steps "gov_step P H" gov_later for P H
proof
  show "gov_later L L" for L by (simp add: gov_later_def proposal_later_refl)
qed (auto intro: gov_later_trans gov_step_later)

interpretation gov_module: module_init gov_init
  by unfold_locales (auto dest!: gov_init_ok)


section \<open>A concrete store\<close>

text \<open>TRUST 50, token voting (quorum 40\%, support 50\%), and proposal 6.\<close>

definition demo_cfg :: GovernanceConfig where
  "demo_cfg = \<lparr>g_trust = 50, g_governance_config_id = 0, g_proposal_threshold = 0,
     g_quorum_bps = 4000, g_support_bps = 5000, g_voting_period = 60, g_execution_delay = 0,
     g_allow_early_enact = True, g_bump = 255\<rparr>"

definition demo_proposal :: "bytes32 \<Rightarrow> u128 \<Rightarrow> bool \<Rightarrow> Proposal" where
  "demo_proposal root f x = \<lparr>p_trust = 50, p_proposal_id = 6, p_governance_config_id = 0,
     p_proposer = 7, p_ipfs_cid = 0, p_vote_start = 1000, p_vote_duration = 60,
     p_execution_delay = 0, p_snapshot_slot = 9, p_snapshot_root = root,
     p_snapshot_total_supply = 0, p_for_votes = f, p_against_votes = 0, p_abstain_votes = 0,
     p_executed = x, p_canceled = False, p_succeeded_at = 0, p_bump = 255\<rparr>"

definition demo_pk :: pubkey where
  "demo_pk = demo_addr (proposal_seeds 50 6) AEQI_GOVERNANCE_ID"

definition demo_ck :: pubkey where
  "demo_ck = demo_addr [Lit ''gov_config'', B32 50, B32 0] AEQI_GOVERNANCE_ID"

definition demo_vk :: "pubkey \<Rightarrow> pubkey" where
  "demo_vk voter = demo_addr [Lit ''vote'', B32 50, B32 6, B32 voter] AEQI_GOVERNANCE_ID"

definition demo_gov :: "Proposal \<Rightarrow> gov_store" where
  "demo_gov p = [demo_ck \<mapsto> GovConfigA demo_cfg, demo_pk \<mapsto> ProposalA p]"

lemmas demo_gov_defs = demo_cfg_def demo_proposal_def demo_pk_def demo_ck_def demo_vk_def
  demo_gov_def demo_addr_def AEQI_GOVERNANCE_ID_def proposal_seeds_def demo_clock_def
  vote_seeds_def demo_sdk_def

lemma demo_vote:
  "gov_cast_vote_token demo_sdk (\<lambda>_. 42) demo_clock demo_pk (demo_vk 8) 8 1 100 []
     (demo_gov (demo_proposal 42 0 False)) =
   Inr ((demo_gov (demo_proposal 42 100 False))(demo_vk 8 \<mapsto> VoteA \<lparr>v_trust = 50, v_proposal_id = 6,
     v_voter = 8, v_choice = 1, v_weight = 100, v_bump = 255\<rparr>), [])"
  by (simp add: gov_cast_vote_token_def gov_accounts_defs load_def require_def seeds_ok_def
      init_account_def canonical_def verify_merkle_proof_def token_vote_leaf_def
      require_vote_open_def proposal_vote_end_def apply_vote_tally_def record_vote_def
      checked_add_def ichecked_add_def word_sle_eq word_sless_alt demo_gov_defs Let_def)

section \<open>Properties\<close>

lemma gov_inv_empty: "gov_inv P Map.empty"
  by (simp add: gov_inv_def)

text \<open>
  C1. The tally is the ballot box: in every store that successful instructions produce from
  the empty one, each of a proposal's three counters is the sum of the weights of the vote
  records cast on it with that choice.
\<close>

theorem gov_tally_exact:
  assumes "(gov_step P H)\<^sup>*\<^sup>* Map.empty L" and "L k = Some (ProposalA p)"
  shows "unat (p_against_votes p) = tally L p 0 \<and> unat (p_for_votes p) = tally L p 1 \<and>
    unat (p_abstain_votes p) = tally L p 2"
proof -
  have "gov_inv P L" using gov_run.run_keeps [OF assms(1) gov_inv_empty] .
  then have "unat (counter p c) = tally L p c" if "c \<in> {0, 1, 2}" for c
    using assms(2) that unfolding gov_inv_def by blast
  from this [of 0] this [of 1] this [of 2] show ?thesis by (simp add: counter_def)
qed

text \<open>A complete run: init, register, propose, commit a root, vote.\<close>

definition demo_input :: GovernanceConfigInput where
  "demo_input = \<lparr>gi_proposal_threshold = 0, gi_quorum_bps = 4000, gi_support_bps = 5000,
     gi_voting_period = 60, gi_execution_delay = 0, gi_allow_early_enact = True\<rparr>"

definition demo_gkey :: "string \<Rightarrow> bytes32 list \<Rightarrow> pubkey" where
  "demo_gkey tag xs = demo_addr (Lit tag # map B32 (demo_trust # xs)) AEQI_GOVERNANCE_ID"

definition demo_gov_run :: gov_result where
  "demo_gov_run =
     (let ms = demo_gkey ''gov_module'' []; gc = demo_gkey ''gov_config'' [0];
          pk = demo_gkey ''proposal'' [6]; vk = demo_gkey ''vote'' [6, 8] in
      rbind (gov_init demo_sdk demo_open demo_trust ms 7 Map.empty) (\<lambda>(L1, _).
      rbind (gov_register_config demo_sdk demo_open demo_trust ms gc 7 0 demo_input L1) (\<lambda>(L2, _).
      rbind (gov_propose demo_sdk (demo_clock\<lparr>slot := 9\<rparr>) demo_trust ms pk 7 [gc] 6 0 0 L2) (\<lambda>(L3, _).
      rbind (gov_commit_snapshot_root demo_sdk demo_clock pk 42 100 L3) (\<lambda>(L4, _).
      gov_cast_vote_token demo_sdk (\<lambda>_. 42) demo_clock pk vk 8 1 100 [] L4)))))"

lemma demo_gov_run_ok:
  "\<exists>L ev p. demo_gov_run = Inr (L, ev) \<and> L (demo_gkey ''proposal'' [6]) = Some (ProposalA p) \<and>
     p_for_votes p = 100"
  by (simp add: demo_gov_run_def gov_init_def gov_register_config_def gov_propose_def
      gov_commit_snapshot_root_def gov_cast_vote_token_def gov_accounts_defs gov_module_account_def
      load_governance_config_def demo_gkey_def demo_input_def demo_trust_defs trust_account_def
      load_def require_def seeds_ok_def init_account_def canonical_def verify_merkle_proof_def
      token_vote_leaf_def require_vote_open_def proposal_vote_end_def apply_vote_tally_def
      bump_config_count_def checked_add_def ichecked_add_def word_sle_eq word_sless_alt
      demo_gov_defs Let_def)

lemma demo_gov_run_steps:
  "demo_gov_run = Inr (L, ev) \<Longrightarrow> (gov_step demo_sdk (\<lambda>_. 42))\<^sup>*\<^sup>* Map.empty L"
  unfolding demo_gov_run_def Let_def
  by (auto simp: rbind_Inr dest!: gov_step.init [where H = "\<lambda>_. 42"]
      gov_step.register_config [where H = "\<lambda>_. 42"] gov_step.propose [where H = "\<lambda>_. 42"]
      gov_step.commit [where H = "\<lambda>_. 42"] gov_step.cast_vote_token
      intro: rtranclp.rtrancl_into_rtrancl)

theorem gov_tally_exact_witness:
  "\<exists>L p. (gov_step demo_sdk (\<lambda>_. 42))\<^sup>*\<^sup>* Map.empty L \<and>
     L (demo_gkey ''proposal'' [6]) = Some (ProposalA p) \<and> tally L p 1 = 100"
  using demo_gov_run_ok demo_gov_run_steps gov_tally_exact [of demo_sdk "\<lambda>_. 42"] by fastforce

text \<open>
  C13. One vote per voter: once a voter has cast a vote on a proposal, by token or by role, no
  later vote of that voter on that proposal succeeds, on either path.
\<close>

theorem gov_no_double_vote:
  assumes "gov_cast_vote_token P H clk k j voter c b mp L = Inr (L1, ev) \<or>
      gov_cast_vote_role P clk RL k j ck voter c L = Inr (L1, ev)"
    and "(gov_step P H)\<^sup>*\<^sup>* L1 L2"
  shows "gov_cast_vote_token P H clk' k j' voter c' b' mp' L2 \<noteq> Inr r \<and>
    gov_cast_vote_role P clk' RL' k j' ck' voter c' L2 \<noteq> Inr r"
proof -
  from assms(1) obtain w where "vote_cast P k j voter c w L L1"
    by (auto dest: gov_cast_vote_token_ok gov_cast_vote_role_ok)
  from vote_cast_after [OF this] obtain p v where
    p: "L1 k = Some (ProposalA p)" "L1 j = Some (VoteA v)"
      "fst (find_program_address P (vote_seeds p voter) AEQI_GOVERNANCE_ID) = j" by blast
  with gov_life.run_rel [OF assms(2)] obtain p' where
    p': "L2 k = Some (ProposalA p')" "same_terms p p'" "L2 j = Some (VoteA v)"
    unfolding gov_later_def proposal_later_def by blast
  then have "vote_seeds p' voter = vote_seeds p voter" by (simp add: same_terms_def vote_seeds_def)
  with p p' have "\<not> vote_cast P k j' voter c' w' L2 L3" for w' L3
    by (auto simp: vote_cast_def)
  then show ?thesis
    using gov_cast_vote_token_ok [of P H clk' k j' voter c' b' mp' L2 "fst r" "snd r"]
      gov_cast_vote_role_ok [of P clk' RL' k j' ck' voter c' L2 "fst r" "snd r"] by auto
qed

theorem gov_no_double_vote_witness:
  "gov_cast_vote_token demo_sdk (\<lambda>_. 42) demo_clock demo_pk (demo_vk 8) 8 0 100 []
     ((demo_gov (demo_proposal 42 100 False))(demo_vk 8 \<mapsto> VoteA \<lparr>v_trust = 50, v_proposal_id = 6,
       v_voter = 8, v_choice = 1, v_weight = 100, v_bump = 255\<rparr>)) \<noteq> Inr (Map.empty, [])"
  using gov_no_double_vote [OF disjI1, OF demo_vote rtranclp.rtrancl_refl] by blast

text \<open>
  C7. Execution is gated: a proposal is executed only if it was not executed before, its
  config and vote supply are the canonical ones, and, in exact arithmetic, the votes for and
  abstaining reach the quorum share of the supply, the votes for reach the support share of
  the votes for and against, some vote is decisive, the period is over or early enactment is
  allowed, and the execution delay has passed; afterwards it is marked executed.
\<close>

theorem gov_execute_gate:
  assumes "gov_execute_proposal P clk mint_supply RL k remaining L = Inr (L', ev)"
  shows "\<exists>p cfg s ck sk p'. L k = Some (ProposalA p) \<and> \<not> p_executed p \<and>
    load_governance_config P L ck (p_trust p) (p_governance_config_id p) = Inr cfg \<and>
    load_total_vote_supply P mint_supply RL p sk = Inr s \<and>
    passes (unat s) cfg p (sint (unix_timestamp clk)) \<and>
    L' = L(k \<mapsto> ProposalA p') \<and> p_executed p' \<and> same_terms p p' \<and>
    (\<forall>c \<in> {0, 1, 2}. counter p' c = counter p c)"
proof -
  from gov_execute_ok [OF assms] obtain p cfg s ck sk t where
    ok: "L k = Some (ProposalA p)" "\<not> p_executed p"
      "load_governance_config P L ck (p_trust p) (p_governance_config_id p) = Inr cfg"
      "load_total_vote_supply P mint_supply RL p sk = Inr s"
      "passes (unat s) cfg p (sint (unix_timestamp clk))"
      "L' = L(k \<mapsto> ProposalA (p\<lparr>p_succeeded_at := t, p_executed := True\<rparr>))"
    by blast
  show ?thesis
    by (rule exI [of _ p], rule exI [of _ cfg], rule exI [of _ s], rule exI [of _ ck],
        rule exI [of _ sk], rule exI [of _ "p\<lparr>p_succeeded_at := t, p_executed := True\<rparr>"])
      (use ok in \<open>simp add: same_terms_def counter_def\<close>)
qed

theorem gov_execute_gate_witness:
  "\<exists>L' ev. gov_execute_proposal demo_sdk demo_clock (\<lambda>_. Some 100) Map.empty demo_pk
      [demo_ck, demo_addr [Lit ''mint'', B32 50] AEQI_TOKEN_ID] (demo_gov (demo_proposal 42 100 False)) =
      Inr (L', ev) \<and> (\<exists>p cfg. passes 100 cfg p 1000)"
proof -
  have "\<exists>L' ev. gov_execute_proposal demo_sdk demo_clock (\<lambda>_. Some 100) Map.empty demo_pk
      [demo_ck, demo_addr [Lit ''mint'', B32 50] AEQI_TOKEN_ID] (demo_gov (demo_proposal 42 100 False)) =
      Inr (L', ev)"
    by (simp add: gov_execute_proposal_def gov_accounts_defs load_def require_def seeds_ok_def
        load_governance_config_def load_total_vote_supply_def load_token_vote_supply_def
        TOKEN_VOTING_CONFIG_ID_def AEQI_TOKEN_ID_def BPS_DENOMINATOR_def proposal_vote_end_def
        checked_bps_ceil_def checked_add_def checked_mul_def checked_div_def ichecked_add_def
        word_sle_eq word_sless_alt demo_gov_defs Let_def)
  then obtain L' ev where ok: "gov_execute_proposal demo_sdk demo_clock (\<lambda>_. Some 100) Map.empty demo_pk
      [demo_ck, demo_addr [Lit ''mint'', B32 50] AEQI_TOKEN_ID] (demo_gov (demo_proposal 42 100 False)) =
      Inr (L', ev)" by blast
  have "load_total_vote_supply demo_sdk (\<lambda>_. Some 100) Map.empty p sk = Inr s \<Longrightarrow>
      p_governance_config_id p = 0 \<Longrightarrow> unat s = 100" for p sk s
    by (auto simp: load_total_vote_supply_def TOKEN_VOTING_CONFIG_ID_def load_token_vote_supply_def
        res Let_def)
  moreover have "demo_gov (demo_proposal 42 100 False) demo_pk = Some (ProposalA (demo_proposal 42 100 False))"
    "p_governance_config_id (demo_proposal 42 100 False) = 0"
    by (simp_all add: demo_gov_def demo_proposal_def)
  ultimately show ?thesis
    using gov_execute_gate [OF ok] ok by (fastforce simp: demo_clock_def)
qed

text \<open>An executed proposal is closed: along every later run it stays executed, its three
  counters do not change, and executing it again fails.
\<close>

theorem gov_executed_is_final:
  assumes "(gov_step P H)\<^sup>*\<^sup>* L L'" and "L k = Some (ProposalA p)" and "p_executed p"
  shows "\<exists>p'. L' k = Some (ProposalA p') \<and> p_executed p' \<and>
    (\<forall>c \<in> {0, 1, 2}. counter p' c = counter p c) \<and>
    gov_execute_proposal P clk mint_supply RL k remaining L' \<noteq> Inr r"
proof -
  from gov_life.run_rel [OF assms(1)] assms(2,3) obtain p' where
    p': "L' k = Some (ProposalA p')" "p_executed p'" "\<forall>c \<in> {0, 1, 2}. counter p' c = counter p c"
    unfolding gov_later_def proposal_later_def by metis
  then have "gov_execute_proposal P clk mint_supply RL k remaining L' \<noteq> Inr r"
    using gov_execute_ok [of P clk mint_supply RL k remaining L' "fst r" "snd r"] by auto
  with p' show ?thesis by blast
qed

theorem gov_executed_is_final_witness:
  "gov_execute_proposal demo_sdk demo_clock (\<lambda>_. Some 100) Map.empty demo_pk []
     (demo_gov (demo_proposal 42 100 True)) \<noteq> Inr (Map.empty, [])"
proof -
  have p: "demo_gov (demo_proposal 42 100 True) demo_pk = Some (ProposalA (demo_proposal 42 100 True))"
    "p_executed (demo_proposal 42 100 True)" by (simp_all add: demo_gov_def demo_proposal_def)
  from gov_executed_is_final [of demo_sdk "\<lambda>_. 42" "demo_gov (demo_proposal 42 100 True)"
      "demo_gov (demo_proposal 42 100 True)" demo_pk, OF rtranclp.rtrancl_refl p] show ?thesis by blast
qed

text \<open>
  Thresholds round up: \<open>checked_bps_ceil\<close> succeeds exactly when the product and the
  rounding term fit in 128 bits, and then returns the least number whose ten-thousandfold is
  at least \<open>value * bps\<close>.
\<close>

theorem checked_bps_ceil_least:
  "(\<exists>c. checked_bps_ceil value bps = Inr c) = (unat value * unat bps + 9999 < 2 ^ 128) \<and>
   (checked_bps_ceil value bps = Inr c \<longrightarrow>
      unat value * unat bps \<le> unat c * 10000 \<and>
      (\<forall>m. unat value * unat bps \<le> m * 10000 \<longrightarrow> unat c \<le> m))"
proof -
  let ?n = "unat value * unat bps"
  have "\<exists>c. checked_bps_ceil value bps = Inr c" if "?n + 9999 < 2 ^ 128"
  proof -
    have "(?n + 9999) div 10000 < 2 ^ LENGTH(128)" using that by simp
    then have "unat (of_nat ((?n + 9999) div 10000) :: u128) = (?n + 9999) div 10000"
      by (rule unat_of_nat_small)
    with that checked_bps_ceil_Inr show ?thesis by blast
  qed
  moreover have "(?n + 9999) div 10000 \<le> m" if "?n \<le> m * 10000" for m using that by linarith
  ultimately show ?thesis
    using ceil_div_bounds(1) [of ?n] by (auto simp: checked_bps_ceil_Inr)
qed

theorem checked_bps_ceil_least_witness:
  "checked_bps_ceil 3 3334 = Inr 2 \<and> 3 * 3334 \<le> (2 :: nat) * 10000"
proof -
  have "checked_bps_ceil 3 3334 = Inr 2"
    by (simp add: checked_bps_ceil_def checked_mul_def checked_add_def checked_div_def
        BPS_DENOMINATOR_def)
  with checked_bps_ceil_least [of 3 3334 2] show ?thesis by simp
qed

text \<open>The snapshot is whatever is committed first: while a proposal's root is unset, its slot
  has passed and its vote is open, anyone can commit as the root the leaf of an account and a
  balance of their choice, and that account can then vote with exactly that weight and an
  empty proof, whatever it holds.
\<close>

theorem gov_snapshot_forgeable:
  assumes "ExecuteProposal_accounts P L k = Inr p" and "p_snapshot_root p = 0"
    and "p_snapshot_slot p < slot clk" and "require_vote_open p (unix_timestamp clk) = Inr ()"
    and "token_vote_leaf H voter b \<noteq> 0" and "0 < b"
    and "find_program_address P (vote_seeds p voter) AEQI_GOVERNANCE_ID = (j, bump)" and "L j = None"
    and "unat (p_for_votes p) + unat b < 2 ^ 128"
  shows "\<exists>L1 L2 ev1 ev2 p'.
    gov_commit_snapshot_root P clk k (token_vote_leaf H voter b) s L = Inr (L1, ev1) \<and>
    gov_cast_vote_token P H clk k j voter 1 b [] L1 = Inr (L2, ev2) \<and>
    L2 k = Some (ProposalA p') \<and> unat (p_for_votes p') = unat (p_for_votes p) + unat b"
proof -
  let ?leaf = "token_vote_leaf H voter b"
  let ?q = "p\<lparr>p_snapshot_root := ?leaf, p_snapshot_total_supply := s\<rparr>"
  have p: "L k = Some (ProposalA p)" "seeds_ok P (proposal_seeds (p_trust p) (p_proposal_id p))
      (p_bump p) AEQI_GOVERNANCE_ID k"
    using assms(1) by (simp_all add: gov_accounts_defs res)
  have jk: "j \<noteq> k" using p assms(8) by auto
  define n :: u128 where "n = of_nat (unat (p_for_votes p) + unat b)"
  have n: "unat n = unat (p_for_votes p) + unat (ucast b :: u128)"
    unfolding n_def unat_ucast_wide [where 'a = 64 and 'b = 128, simplified]
    using assms(9) by (intro unat_of_nat_small) simp
  have tally: "apply_vote_tally ?q 1 (ucast b) = Inr (?q\<lparr>p_for_votes := n\<rparr>)"
    using checked_add_Some [of "p_for_votes p" "ucast b" n] n by (simp add: apply_vote_tally_def)
  have "vote_seeds ?q voter = vote_seeds p voter" by (simp add: vote_seeds_def)
  moreover have "require_vote_open ?q (unix_timestamp clk) = Inr ()"
    using assms(4) by (simp add: require_vote_open_def proposal_vote_end_def)
  ultimately have "gov_cast_vote_token P H clk k j voter 1 b [] (L(k \<mapsto> ProposalA ?q)) =
      Inr (L(k \<mapsto> ProposalA (?q\<lparr>p_for_votes := n\<rparr>),
        j \<mapsto> VoteA (record_vote (?q\<lparr>p_for_votes := n\<rparr>) voter 1 (ucast b) bump)), [])"
    using p assms(5-8) jk tally
    by (simp add: gov_cast_vote_token_def gov_accounts_defs load_def init_account_def canonical_def
        verify_merkle_proof_def Let_def)
  moreover have "gov_commit_snapshot_root P clk k ?leaf s L = Inr (L(k \<mapsto> ProposalA ?q),
      [SnapshotRootCommitted (p_trust p) (p_proposal_id p) (p_snapshot_slot p) ?leaf s])"
    using p assms(2,3,5) by (simp add: gov_commit_snapshot_root_def gov_accounts_defs load_def)
  ultimately show ?thesis using n jk
    by (auto simp: unat_ucast_wide)
qed

theorem gov_snapshot_forgeable_witness:
  "\<exists>L1 L2 ev1 ev2 p'. gov_commit_snapshot_root demo_sdk demo_clock demo_pk 42 0
      (demo_gov (demo_proposal 0 0 False)) = Inr (L1, ev1) \<and>
    gov_cast_vote_token demo_sdk (\<lambda>_. 42) demo_clock demo_pk (demo_vk 8) 8 1 1000000 [] L1 =
      Inr (L2, ev2) \<and> L2 demo_pk = Some (ProposalA p') \<and> unat (p_for_votes p') = 1000000"
proof -
  let ?p = "demo_proposal 0 0 False"
  have "ExecuteProposal_accounts demo_sdk (demo_gov ?p) demo_pk = Inr ?p"
    by (simp add: gov_accounts_defs load_def seeds_ok_def demo_gov_defs)
  moreover have "require_vote_open ?p (unix_timestamp demo_clock) = Inr ()"
    by (simp add: require_vote_open_def proposal_vote_end_def require_def ichecked_add_def
        word_sle_eq word_sless_alt demo_gov_defs)
  moreover have "find_program_address demo_sdk (vote_seeds ?p 8) AEQI_GOVERNANCE_ID = (demo_vk 8, 255)"
    by (simp add: demo_gov_defs)
  moreover have "demo_gov ?p (demo_vk 8) = None" by (simp add: demo_gov_defs)
  ultimately show ?thesis
    using gov_snapshot_forgeable [of demo_sdk "demo_gov ?p" demo_pk ?p demo_clock "\<lambda>_. 42" 8 1000000
        "demo_vk 8" 255 0]
    by (simp add: token_vote_leaf_def demo_proposal_def demo_clock_def)
qed

end
