(* ===== verification/Spl_Interface.thy ===== *)
theory Spl_Interface
  imports Prelude
begin

text \<open>
  The interface to the SPL token programs (Token and Token-2022), which are not part of the
  repository: a record of the functions that the programs call over an abstract token state,
  the documented effects of those calls as the predicate \<open>spl_law\<close>, and Anchor's typed views
  of mints and token accounts. \<open>spl_law\<close> describes plain mints: no transfer fee, hook or
  interest extension. A concrete token ledger satisfies it.
\<close>

record mint_data =
  mi_supply :: u64
  mi_decimals :: u8

record token_data =
  ta_mint :: pubkey
  ta_owner :: pubkey
  ta_amount :: u64

record 'tk spl =
  mint_info :: "'tk \<Rightarrow> pubkey \<Rightarrow> mint_data option"
  token_info :: "'tk \<Rightarrow> pubkey \<Rightarrow> token_data option"
  transfer_checked :: "pubkey \<Rightarrow> pubkey \<Rightarrow> pubkey \<Rightarrow> pubkey \<Rightarrow> u64 \<Rightarrow> u8 \<Rightarrow> 'tk \<Rightarrow> 'tk option"
  mint_to :: "pubkey \<Rightarrow> pubkey \<Rightarrow> pubkey \<Rightarrow> u64 \<Rightarrow> 'tk \<Rightarrow> 'tk option"
  burn :: "pubkey \<Rightarrow> pubkey \<Rightarrow> pubkey \<Rightarrow> u64 \<Rightarrow> 'tk \<Rightarrow> 'tk option"
  initialize_mint2 :: "pubkey \<Rightarrow> u8 \<Rightarrow> pubkey \<Rightarrow> pubkey option \<Rightarrow> 'tk \<Rightarrow> 'tk option"

text \<open>\<open>transfer_checked from mint to authority amount decimals\<close>, \<open>mint_to mint to authority
  amount\<close>, \<open>burn mint from authority amount\<close> and \<open>initialize_mint2 mint decimals authority
  freeze_authority\<close> return the new token state, or \<open>None\<close> when the call fails.\<close>

definition bal :: "'tk spl \<Rightarrow> 'tk \<Rightarrow> pubkey \<Rightarrow> nat" where
  "bal S tk k = (case token_info S tk k of None \<Rightarrow> 0 | Some a \<Rightarrow> unat (ta_amount a))"

definition supply_of :: "'tk spl \<Rightarrow> 'tk \<Rightarrow> pubkey \<Rightarrow> nat" where
  "supply_of S tk m = (case mint_info S tk m of None \<Rightarrow> 0 | Some a \<Rightarrow> unat (mi_supply a))"

definition transfer_law :: "'tk spl \<Rightarrow> bool" where
  "transfer_law S \<longleftrightarrow> (\<forall>from mint to auth n d tk tk'.
     transfer_checked S from mint to auth n d tk = Some tk' \<longrightarrow>
       unat n \<le> bal S tk from \<and>
       (\<forall>k. bal S tk' k = (if from = to then bal S tk k
          else if k = from then bal S tk k - unat n
          else if k = to then bal S tk k + unat n else bal S tk k)) \<and>
       (\<forall>m. mint_info S tk' m = mint_info S tk m))"

definition mint_law :: "'tk spl \<Rightarrow> bool" where
  "mint_law S \<longleftrightarrow> (\<forall>mint to auth n tk tk'. mint_to S mint to auth n tk = Some tk' \<longrightarrow>
     (\<forall>k. bal S tk' k = (if k = to then bal S tk k + unat n else bal S tk k)) \<and>
     (\<forall>m. supply_of S tk' m = (if m = mint then supply_of S tk m + unat n else supply_of S tk m)))"

definition burn_law :: "'tk spl \<Rightarrow> bool" where
  "burn_law S \<longleftrightarrow> (\<forall>mint from auth n tk tk'. burn S mint from auth n tk = Some tk' \<longrightarrow>
     unat n \<le> bal S tk from \<and> unat n \<le> supply_of S tk mint \<and>
     (\<forall>k. bal S tk' k = (if k = from then bal S tk k - unat n else bal S tk k)) \<and>
     (\<forall>m. supply_of S tk' m = (if m = mint then supply_of S tk m - unat n else supply_of S tk m)))"

definition spl_law :: "'tk spl \<Rightarrow> bool" where
  "spl_law S \<longleftrightarrow> transfer_law S \<and> mint_law S \<and> burn_law S"

section \<open>Anchor's views\<close>

text \<open>\<open>InterfaceAccount<Mint>\<close>, and \<open>InterfaceAccount<TokenAccount>\<close> with the constraints
  \<open>token::mint\<close> and \<open>token::authority\<close> where present.\<close>

definition mint_account :: "'tk spl \<Rightarrow> 'tk \<Rightarrow> pubkey \<Rightarrow> 'e err + mint_data" where
  "mint_account S tk key = ok_or (mint_info S tk key) (Anchor AccountNotInitialized)"

definition token_account :: "'tk spl \<Rightarrow> 'tk \<Rightarrow> pubkey \<Rightarrow> pubkey \<Rightarrow> pubkey option \<Rightarrow>
  'e err + token_data" where
  "token_account S tk key mint authority =
     rbind (ok_or (token_info S tk key) (Anchor AccountNotInitialized)) (\<lambda>a.
     require (ta_mint a = mint) (Anchor ConstraintTokenMint)
     (require (case authority of None \<Rightarrow> True | Some o' \<Rightarrow> ta_owner a = o') (Anchor ConstraintTokenOwner)
     (Inr a)))"

lemma mint_account_Inr [res]: "mint_account S tk key = Inr m \<longleftrightarrow> mint_info S tk key = Some m"
  by (simp add: mint_account_def res)

lemma token_account_Inr [res]:
  "token_account S tk key mint authority = Inr a \<longleftrightarrow> token_info S tk key = Some a \<and>
     ta_mint a = mint \<and> (\<forall>ow. authority = Some ow \<longrightarrow> ta_owner a = ow)"
  by (auto simp: token_account_def res split: option.splits)

text \<open>A CPI into the token program: its failure is the error \<open>Spl\<close>.\<close>

definition spl_call :: "'tk option \<Rightarrow> 'e err + 'tk" where
  "spl_call r = ok_or r Spl"

lemma spl_call_Inr [res]: "spl_call r = Inr tk \<longleftrightarrow> r = Some tk"
  by (simp add: spl_call_def res)

section \<open>Consequences\<close>

lemma transfer_bal:
  assumes "spl_law S" and "transfer_checked S from mint to auth n d tk = Some tk'"
  shows "unat n \<le> bal S tk from"
    and "from \<noteq> to \<Longrightarrow> bal S tk' from + unat n = bal S tk from"
    and "from \<noteq> to \<Longrightarrow> bal S tk' to = bal S tk to + unat n"
    and "k \<noteq> from \<Longrightarrow> k \<noteq> to \<Longrightarrow> bal S tk' k = bal S tk k"
    and "mint_info S tk' m = mint_info S tk m"
  using assms unfolding spl_law_def transfer_law_def by simp_all

lemma mint_to_supply:
  assumes "spl_law S" and "mint_to S mint to auth n tk = Some tk'"
  shows "supply_of S tk' mint = supply_of S tk mint + unat n"
    and "bal S tk' to = bal S tk to + unat n"
    and "m \<noteq> mint \<Longrightarrow> supply_of S tk' m = supply_of S tk m"
    and "k \<noteq> to \<Longrightarrow> bal S tk' k = bal S tk k"
  using assms unfolding spl_law_def mint_law_def by simp_all

lemma burn_supply:
  assumes "spl_law S" and "burn S mint from auth n tk = Some tk'"
  shows "supply_of S tk' mint + unat n = supply_of S tk mint"
    and "bal S tk' from + unat n = bal S tk from"
    and "k \<noteq> from \<Longrightarrow> bal S tk' k = bal S tk k"
  using assms unfolding spl_law_def burn_law_def by simp_all

section \<open>A concrete ledger\<close>

record ledger =
  mints :: "pubkey \<rightharpoonup> mint_data"
  wallets :: "pubkey \<rightharpoonup> token_data"

definition credit :: "pubkey \<Rightarrow> u64 \<Rightarrow> ledger \<Rightarrow> ledger option" where
  "credit k n l = (case wallets l k of None \<Rightarrow> None | Some a \<Rightarrow>
     (case checked_add (ta_amount a) n of None \<Rightarrow> None | Some x \<Rightarrow>
        Some (l\<lparr>wallets := (wallets l)(k \<mapsto> a\<lparr>ta_amount := x\<rparr>)\<rparr>)))"

definition debit :: "pubkey \<Rightarrow> u64 \<Rightarrow> ledger \<Rightarrow> ledger option" where
  "debit k n l = (case wallets l k of None \<Rightarrow> None | Some a \<Rightarrow>
     (case checked_sub (ta_amount a) n of None \<Rightarrow> None | Some x \<Rightarrow>
        Some (l\<lparr>wallets := (wallets l)(k \<mapsto> a\<lparr>ta_amount := x\<rparr>)\<rparr>)))"

definition resupply :: "pubkey \<Rightarrow> (u64 \<Rightarrow> u64 option) \<Rightarrow> ledger \<Rightarrow> ledger option" where
  "resupply m f l = (case mints l m of None \<Rightarrow> None | Some a \<Rightarrow>
     (case f (mi_supply a) of None \<Rightarrow> None | Some x \<Rightarrow>
        Some (l\<lparr>mints := (mints l)(m \<mapsto> a\<lparr>mi_supply := x\<rparr>)\<rparr>)))"

definition demo_spl :: "ledger spl" where
  "demo_spl = \<lparr>mint_info = mints, token_info = wallets,
     transfer_checked = (\<lambda>from mint to auth n d l. Option.bind (debit from n l) (credit to n)),
     mint_to = (\<lambda>mint to auth n l.
       Option.bind (resupply mint (\<lambda>s. checked_add s n) l) (credit to n)),
     burn = (\<lambda>mint from auth n l.
       Option.bind (resupply mint (\<lambda>s. checked_sub s n) l) (debit from n)),
     initialize_mint2 = (\<lambda>mint d auth fr l.
       if mints l mint = None then Some (l\<lparr>mints := (mints l)(mint \<mapsto> \<lparr>mi_supply = 0, mi_decimals = d\<rparr>)\<rparr>)
       else None)\<rparr>"

lemma credit_Some:
  "credit k n l = Some l' \<Longrightarrow> mints l' = mints l \<and>
   (\<forall>j. bal demo_spl l' j = bal demo_spl l j + (if j = k then unat n else 0))"
  by (auto simp: credit_def bal_def demo_spl_def checked_add_Some split: option.splits)

lemma debit_Some:
  "debit k n l = Some l' \<Longrightarrow> mints l' = mints l \<and> unat n \<le> bal demo_spl l k \<and>
   (\<forall>j. bal demo_spl l j = bal demo_spl l' j + (if j = k then unat n else 0))"
  by (auto simp: debit_def bal_def demo_spl_def checked_sub_Some split: option.splits)

lemma resupply_Some:
  "resupply m f l = Some l' \<Longrightarrow> wallets l' = wallets l \<and>
   (\<exists>a x. mints l m = Some a \<and> f (mi_supply a) = Some x \<and>
     mints l' = (mints l)(m \<mapsto> a\<lparr>mi_supply := x\<rparr>))"
  by (auto simp: resupply_def split: option.splits)

lemma demo_views: "mint_info demo_spl = mints" "token_info demo_spl = wallets"
  by (simp_all add: demo_spl_def)

lemma demo_transfer_law: "transfer_law demo_spl"
  unfolding transfer_law_def
proof (intro allI impI)
  fix "from" mint to auth n d l l'
  assume "transfer_checked demo_spl from mint to auth n d l = Some l'"
  then obtain l1 where "debit from n l = Some l1" "credit to n l1 = Some l'"
    by (auto simp: demo_spl_def bind_eq_Some_conv)
  from debit_Some [OF this(1)] credit_Some [OF this(2)]
  show "unat n \<le> bal demo_spl l from \<and> (\<forall>k. bal demo_spl l' k = (if from = to then bal demo_spl l k
      else if k = from then bal demo_spl l k - unat n
      else if k = to then bal demo_spl l k + unat n else bal demo_spl l k)) \<and>
      (\<forall>m. mint_info demo_spl l' m = mint_info demo_spl l m)"
    by (auto simp: demo_views)
qed

lemma demo_mint_law: "mint_law demo_spl"
  unfolding mint_law_def
proof (intro allI impI)
  fix mint to auth n l l'
  assume "mint_to demo_spl mint to auth n l = Some l'"
  then obtain l1 where 1: "resupply mint (\<lambda>s. checked_add s n) l = Some l1" "credit to n l1 = Some l'"
    by (auto simp: demo_spl_def bind_eq_Some_conv)
  have "bal demo_spl l1 k = bal demo_spl l k" for k
    using resupply_Some [OF 1(1)] by (simp add: bal_def demo_views)
  with credit_Some [OF 1(2)] resupply_Some [OF 1(1)]
  show "(\<forall>k. bal demo_spl l' k = (if k = to then bal demo_spl l k + unat n else bal demo_spl l k)) \<and>
      (\<forall>m. supply_of demo_spl l' m =
        (if m = mint then supply_of demo_spl l m + unat n else supply_of demo_spl l m))"
    by (auto simp: supply_of_def demo_views checked_add_Some)
qed

lemma demo_burn_law: "burn_law demo_spl"
  unfolding burn_law_def
proof (intro allI impI)
  fix mint "from" auth n l l'
  assume "burn demo_spl mint from auth n l = Some l'"
  then obtain l1 where 1: "resupply mint (\<lambda>s. checked_sub s n) l = Some l1" "debit from n l1 = Some l'"
    by (auto simp: demo_spl_def bind_eq_Some_conv)
  have "bal demo_spl l1 k = bal demo_spl l k" for k
    using resupply_Some [OF 1(1)] by (simp add: bal_def demo_views)
  with debit_Some [OF 1(2)] resupply_Some [OF 1(1)]
  show "unat n \<le> bal demo_spl l from \<and> unat n \<le> supply_of demo_spl l mint \<and>
      (\<forall>k. bal demo_spl l' k = (if k = from then bal demo_spl l k - unat n else bal demo_spl l k)) \<and>
      (\<forall>m. supply_of demo_spl l' m =
        (if m = mint then supply_of demo_spl l m - unat n else supply_of demo_spl l m))"
    by (auto simp: supply_of_def demo_views checked_sub_Some)
qed

lemma demo_spl_law: "spl_law demo_spl"
  by (simp add: spl_law_def demo_transfer_law demo_mint_law demo_burn_law)

end
