(* ===== verification/Aeqi_Token.thy ===== *)
theory Aeqi_Token
  imports Aeqi_Trust Spl_Interface Bytes
begin

text \<open>
  The program \<open>aeqi_token\<close>: the cap-table mint of a TRUST. \<open>finalize\<close> reads the token's
  configuration out of the raw bytes of a configuration account of \<open>aeqi_trust\<close>;
  \<open>create_mint\<close>, \<open>mint_tokens\<close> and \<open>burn_tokens\<close> drive the SPL token program under a
  program-derived mint authority. The raw view of an account (owner and data), which the
  runtime provides, is the argument \<open>raw\<close>.
\<close>

section \<open>Errors, state and events\<close>

datatype TokenError =
    NotInitialized | NotFinalized | MintAlreadyCreated | MintMismatch | InvalidConfig
  | SupplyCapExceeded | InvalidTokenProgram | TrustMismatch | UnauthorizedMintAuthority
  | ZeroAmount | DecimalsMismatch | Unauthorized | TrustNotInCreationMode

datatype TokenInitState = Pending | Initialized | Finalized

primrec token_init_state_u8 :: "TokenInitState \<Rightarrow> u8" where
  "token_init_state_u8 Pending = 0"
| "token_init_state_u8 Initialized = 1"
| "token_init_state_u8 Finalized = 2"

record TokenModuleState =
  tm_trust :: pubkey
  tm_mint :: pubkey
  tm_initialized :: u8
  tm_decimals :: u8
  tm_max_supply_cap :: u64
  tm_bump :: u8

type_synonym token_store = "TokenModuleState accts"

record BytesConfigData =
  bd_trust :: pubkey
  bd_key :: bytes32
  bd_value :: "u8 list"
  bd_bump :: u8

record TokenInitConfig =
  ti_decimals :: u8
  ti_max_supply_cap :: u64

datatype token_event =
    TokenModuleInitialized pubkey pubkey
  | MintCreated pubkey pubkey u8
  | TokensMinted pubkey pubkey pubkey u64
  | TokensBurned pubkey pubkey pubkey u64

definition TOKEN_ID :: pubkey where
  "TOKEN_ID = 0x941010e63b2dea78046cd3cff18e78d1b7456c6ad99e1524864c2e8d3690350c"

text \<open>The id of Token-2022, a constant of \<open>anchor_spl\<close>.\<close>

definition TOKEN_2022_ID :: pubkey where
  "TOKEN_2022_ID = 0x06ddf6e1ee758fde18425dbce46ccddab61afc4d83b90d27febdf928d8a18bfc"

text \<open>\<open>[1, 0, \<dots>, 0]\<close>.\<close>

definition TOKEN_CONFIG_KEY :: bytes32 where
  "TOKEN_CONFIG_KEY = push_bit 248 1"

section \<open>Decoding\<close>

definition require_token_2022 :: "pubkey \<Rightarrow> TokenError err + unit" where
  "require_token_2022 token_program =
     require (token_program = TOKEN_2022_ID) (Prog InvalidTokenProgram) (Inr ())"

definition decode_bytes_config_account :: "u8 list \<Rightarrow> TokenError err + BytesConfigData" where
  "decode_bytes_config_account data =
     (let FIXED_PREFIX = 8 + 32 + 32 + 4 in
      require (length data > FIXED_PREFIX) (Prog InvalidConfig)
      (let trust = new_from_array (slice 8 (8 + 32) data);
           key_start = 8 + 32;
           key = new_from_array (slice key_start (key_start + 32) data);
           len_start = key_start + 32;
           value_len = unat (from_le_bytes (slice len_start (len_start + 4) data) :: u32);
           value_start = len_start + 4;
           value_end = value_start + value_len in
       require (value_end < length data) (Prog InvalidConfig)
       (Inr \<lparr>bd_trust = trust, bd_key = key, bd_value = slice value_start value_end data,
             bd_bump = data ! value_end\<rparr>)))"

text \<open>Borsh's \<open>try_from_slice\<close> on \<open>TokenInitConfig\<close>: a byte, a little-endian \<open>u64\<close>, and
  nothing left over.\<close>

definition decode_token_init_config :: "u8 list \<Rightarrow> TokenInitConfig option" where
  "decode_token_init_config bs =
     (if length bs = 9 then Some \<lparr>ti_decimals = bs ! 0, ti_max_supply_cap = from_le_bytes (slice 1 9 bs)\<rparr>
      else None)"

section \<open>Instructions\<close>

definition token_module_seeds :: "pubkey \<Rightarrow> seed list" where
  "token_module_seeds trust = [Lit ''token_module'', B32 trust]"

definition mint_seeds :: "pubkey \<Rightarrow> seed list" where
  "mint_seeds trust = [Lit ''mint'', B32 trust]"

definition InitToken_accounts :: "pda_sdk \<Rightarrow> trust_store \<Rightarrow> token_store \<Rightarrow> pubkey \<Rightarrow> pubkey \<Rightarrow>
  TokenError err + Trust \<times> u8" where
  "InitToken_accounts P TL L trust module_state =
     rbind (trust_account P TL trust) (\<lambda>t.
     rbind (init_account P (token_module_seeds trust) TOKEN_ID L module_state)
       (\<lambda>bump. Inr (t, bump)))"

definition token_init :: "pda_sdk \<Rightarrow> trust_store \<Rightarrow> pubkey \<Rightarrow> pubkey \<Rightarrow> pubkey \<Rightarrow> token_store \<Rightarrow>
  TokenError err + token_store \<times> token_event list" where
  "token_init P TL trust module_state payer L =
     rbind (InitToken_accounts P TL L trust module_state) (\<lambda>(t, bump).
     require (t_creation_mode t) (Prog TrustNotInCreationMode)
     (require (payer = t_authority t) (Prog Unauthorized)
     (Inr (L(module_state \<mapsto>
             \<lparr>tm_trust = trust, tm_mint = 0, tm_initialized = token_init_state_u8 Initialized,
              tm_decimals = 0, tm_max_supply_cap = 0, tm_bump = bump\<rparr>),
           [TokenModuleInitialized trust module_state]))))"

text \<open>The constraint on \<open>module_state\<close> in every later context.\<close>

definition token_module_account :: "pda_sdk \<Rightarrow> token_store \<Rightarrow> pubkey \<Rightarrow> pubkey \<Rightarrow>
  TokenError err + TokenModuleState" where
  "token_module_account P L trust module_state =
     rbind (load Some L module_state) (\<lambda>m.
     require (seeds_ok P (token_module_seeds trust) (tm_bump m) TOKEN_ID module_state)
       (Anchor ConstraintSeeds) (Inr m))"

definition FinalizeToken_accounts :: "pda_sdk \<Rightarrow> token_store \<Rightarrow> pubkey \<Rightarrow> pubkey \<Rightarrow> pubkey \<Rightarrow>
  TokenError err + TokenModuleState" where
  "FinalizeToken_accounts P L trust module_state bytes_config =
     rbind (token_module_account P L trust module_state) (\<lambda>m.
     rbind (canonical P [Lit ''cfg_bytes'', B32 trust, B32 TOKEN_CONFIG_KEY] AEQI_TRUST_ID bytes_config)
       (\<lambda>_. Inr m))"

definition token_finalize :: "pda_sdk \<Rightarrow> (pubkey \<Rightarrow> pubkey \<times> u8 list) \<Rightarrow> pubkey \<Rightarrow> pubkey \<Rightarrow> pubkey \<Rightarrow>
  token_store \<Rightarrow> TokenError err + token_store" where
  "token_finalize P raw trust module_state bytes_config L =
     rbind (FinalizeToken_accounts P L trust module_state bytes_config) (\<lambda>m.
     require (tm_initialized m = token_init_state_u8 Initialized) (Prog NotInitialized)
     (require (fst (raw bytes_config) = AEQI_TRUST_ID) (Prog InvalidConfig)
     (rbind (decode_bytes_config_account (snd (raw bytes_config))) (\<lambda>cfg.
     require (bd_trust cfg = trust) (Prog InvalidConfig)
     (require (bd_key cfg = TOKEN_CONFIG_KEY) (Prog InvalidConfig)
     (rbind (ok_or (decode_token_init_config (bd_value cfg)) (Prog InvalidConfig)) (\<lambda>init_cfg.
       Inr (L(module_state \<mapsto> m\<lparr>tm_decimals := ti_decimals init_cfg,
                tm_max_supply_cap := ti_max_supply_cap init_cfg,
                tm_initialized := token_init_state_u8 Finalized\<rparr>))))))))) "

definition BurnTokens_accounts :: "pda_sdk \<Rightarrow> 'tk spl \<Rightarrow> token_store \<Rightarrow> 'tk \<Rightarrow> pubkey \<Rightarrow> pubkey \<Rightarrow>
  pubkey \<Rightarrow> pubkey \<Rightarrow> TokenError err + TokenModuleState" where
  "BurnTokens_accounts P S L tk trust module_state mint owner_ta =
     rbind (token_module_account P L trust module_state) (\<lambda>m.
     rbind (canonical P (mint_seeds trust) TOKEN_ID mint) (\<lambda>_.
     rbind (mint_account S tk mint) (\<lambda>_.
     rbind (ok_or (token_info S tk owner_ta) (Anchor AccountNotInitialized)) (\<lambda>_. Inr m))))"

definition token_burn_tokens :: "pda_sdk \<Rightarrow> 'tk spl \<Rightarrow> pubkey \<Rightarrow> pubkey \<Rightarrow> pubkey \<Rightarrow> pubkey \<Rightarrow> pubkey \<Rightarrow>
  pubkey \<Rightarrow> u64 \<Rightarrow> token_store \<Rightarrow> 'tk \<Rightarrow> TokenError err + 'tk \<times> token_event list" where
  "token_burn_tokens P S trust module_state mint owner_ta owner token_program amount L tk =
     rbind (BurnTokens_accounts P S L tk trust module_state mint owner_ta) (\<lambda>m.
     require (amount > 0) (Prog ZeroAmount)
     (rbind (require_token_2022 token_program) (\<lambda>_.
     require (tm_initialized m = token_init_state_u8 Finalized) (Prog NotFinalized)
     (require (tm_mint m = mint) (Prog MintMismatch)
     (require (tm_trust m = trust) (Prog TrustMismatch)
     (rbind (spl_call (burn S mint owner_ta owner amount tk)) (\<lambda>tk'.
       Inr (tk', [TokensBurned (tm_trust m) (tm_mint m) owner_ta amount]))))))))"

definition MintTokens_accounts :: "pda_sdk \<Rightarrow> 'tk spl \<Rightarrow> trust_store \<Rightarrow> token_store \<Rightarrow> 'tk \<Rightarrow> pubkey \<Rightarrow>
  pubkey \<Rightarrow> pubkey \<Rightarrow> pubkey \<Rightarrow> pubkey \<Rightarrow> TokenError err + Trust \<times> TokenModuleState \<times> mint_data" where
  "MintTokens_accounts P S TL L tk trust module_state mint_authority mint recipient_ta =
     rbind (trust_account P TL trust) (\<lambda>t.
     rbind (token_module_account P L trust module_state) (\<lambda>m.
     rbind (canonical P [Lit ''token_authority'', B32 trust] TOKEN_ID mint_authority) (\<lambda>_.
     rbind (canonical P (mint_seeds trust) TOKEN_ID mint) (\<lambda>_.
     rbind (mint_account S tk mint) (\<lambda>mi.
     rbind (ok_or (token_info S tk recipient_ta) (Anchor AccountNotInitialized)) (\<lambda>_.
       Inr (t, m, mi)))))))"

definition token_mint_tokens :: "pda_sdk \<Rightarrow> 'tk spl \<Rightarrow> trust_store \<Rightarrow> pubkey \<Rightarrow> pubkey \<Rightarrow> pubkey \<Rightarrow>
  pubkey \<Rightarrow> pubkey \<Rightarrow> pubkey \<Rightarrow> pubkey \<Rightarrow> u64 \<Rightarrow> token_store \<Rightarrow> 'tk \<Rightarrow>
  TokenError err + 'tk \<times> token_event list" where
  "token_mint_tokens P S TL trust module_state mint_authority mint recipient_ta authority
     token_program amount L tk =
     rbind (MintTokens_accounts P S TL L tk trust module_state mint_authority mint recipient_ta)
       (\<lambda>(t, m, mi).
     require (amount > 0) (Prog ZeroAmount)
     (rbind (require_token_2022 token_program) (\<lambda>_.
     require (tm_initialized m = token_init_state_u8 Finalized) (Prog NotFinalized)
     (require (tm_mint m = mint) (Prog MintMismatch)
     (require (tm_trust m = trust) (Prog TrustMismatch)
     (require (mi_decimals mi = tm_decimals m) (Prog DecimalsMismatch)
     (require (authority = t_authority t) (Prog UnauthorizedMintAuthority)
     (rbind (if tm_max_supply_cap m > 0 then
               rbind (ok_or (checked_add (mi_supply mi) amount) (Prog SupplyCapExceeded))
                 (\<lambda>new_supply. require (new_supply \<le> tm_max_supply_cap m) (Prog SupplyCapExceeded)
                   (Inr ()))
             else Inr ()) (\<lambda>_.
     rbind (spl_call (mint_to S mint recipient_ta mint_authority amount tk)) (\<lambda>tk'.
       Inr (tk', [TokensMinted (tm_trust m) (tm_mint m) recipient_ta amount])))))))))))"

definition CreateMint_accounts :: "pda_sdk \<Rightarrow> token_store \<Rightarrow> pubkey \<Rightarrow> pubkey \<Rightarrow> pubkey \<Rightarrow> pubkey \<Rightarrow>
  TokenError err + TokenModuleState" where
  "CreateMint_accounts P L trust module_state mint_authority mint =
     rbind (token_module_account P L trust module_state) (\<lambda>m.
     rbind (canonical P [Lit ''token_authority'', B32 trust] TOKEN_ID mint_authority) (\<lambda>_.
     rbind (canonical P (mint_seeds trust) TOKEN_ID mint) (\<lambda>_. Inr m)))"

text \<open>Allocating the mint account through the system program and initializing it are one call
  of the interface, \<open>initialize_mint2\<close>.\<close>

definition token_create_mint :: "pda_sdk \<Rightarrow> 'tk spl \<Rightarrow> pubkey \<Rightarrow> pubkey \<Rightarrow> pubkey \<Rightarrow> pubkey \<Rightarrow> pubkey \<Rightarrow>
  u8 \<Rightarrow> token_store \<Rightarrow> 'tk \<Rightarrow> TokenError err + token_store \<times> 'tk \<times> token_event list" where
  "token_create_mint P S trust module_state mint_authority mint token_program decimals L tk =
     rbind (CreateMint_accounts P L trust module_state mint_authority mint) (\<lambda>m.
     rbind (require_token_2022 token_program) (\<lambda>_.
     require (tm_initialized m = token_init_state_u8 Finalized) (Prog NotFinalized)
     (require (tm_trust m = trust) (Prog TrustMismatch)
     (require (decimals = tm_decimals m) (Prog DecimalsMismatch)
     (require (tm_mint m = 0) (Prog MintAlreadyCreated)
     (rbind (spl_call (initialize_mint2 S mint decimals mint_authority None tk)) (\<lambda>tk'.
       Inr (L(module_state \<mapsto> m\<lparr>tm_mint := mint\<rparr>), tk',
            [MintCreated (tm_trust m) mint decimals]))))))))"

section \<open>What a successful instruction did\<close>

lemma token_module_account_Inr [res]:
  "token_module_account P L trust ms = Inr m \<longleftrightarrow> L ms = Some m \<and>
     seeds_ok P (token_module_seeds trust) (tm_bump m) TOKEN_ID ms"
  by (auto simp: token_module_account_def res)

lemma require_token_2022_Inr [res]: "require_token_2022 tp = Inr u \<longleftrightarrow> tp = TOKEN_2022_ID"
  by (simp add: require_token_2022_def res)

lemmas token_accounts_defs = InitToken_accounts_def FinalizeToken_accounts_def
  BurnTokens_accounts_def MintTokens_accounts_def CreateMint_accounts_def

lemma token_init_ok:
  "token_init P TL trust ms payer L = Inr (L', ev) \<Longrightarrow>
   \<exists>t m. TL trust = Some (TrustA t) \<and> t_creation_mode t \<and> payer = t_authority t \<and>
     L ms = None \<and> L' = L(ms \<mapsto> m) \<and> tm_mint m = 0 \<and> tm_trust m = trust \<and>
     ms = fst (find_program_address P (token_module_seeds trust) TOKEN_ID)"
  by (fastforce simp: token_init_def token_accounts_defs res)

lemma token_finalize_ok:
  "token_finalize P raw trust ms bc L = Inr L' \<Longrightarrow>
   \<exists>m cfg ic. L ms = Some m \<and> tm_initialized m = 1 \<and> fst (raw bc) = AEQI_TRUST_ID \<and>
     decode_bytes_config_account (snd (raw bc)) = Inr cfg \<and>
     decode_token_init_config (bd_value cfg) = Some ic \<and>
     L' = L(ms \<mapsto> m\<lparr>tm_decimals := ti_decimals ic, tm_max_supply_cap := ti_max_supply_cap ic,
       tm_initialized := 2\<rparr>)"
  by (auto simp: token_finalize_def token_accounts_defs res)

lemma token_burn_ok:
  "token_burn_tokens P S trust ms mint ota ow tp n L tk = Inr (tk', ev) \<Longrightarrow>
   \<exists>m. L ms = Some m \<and> tm_mint m = mint \<and> burn S mint ota ow n tk = Some tk'"
  by (auto simp: token_burn_tokens_def token_accounts_defs res)

lemma token_create_ok:
  "token_create_mint P S trust ms ma mint tp d L tk = Inr (L', tk', ev) \<Longrightarrow>
   \<exists>m. L ms = Some m \<and> tm_initialized m = 2 \<and> tm_trust m = trust \<and> tm_mint m = 0 \<and>
     mint = fst (find_program_address P (mint_seeds trust) TOKEN_ID) \<and>
     initialize_mint2 S mint d ma None tk = Some tk' \<and> L' = L(ms \<mapsto> m\<lparr>tm_mint := mint\<rparr>)"
  by (auto simp: token_create_mint_def token_accounts_defs res)

lemma token_mint_ok:
  assumes "token_mint_tokens P S TL trust ms ma mint rta auth tp n L tk = Inr (tk', ev)"
  obtains t m mi where "TL trust = Some (TrustA t)" "auth = t_authority t" "L ms = Some m"
    "tm_mint m = mint" "tm_initialized m = 2" "mint_info S tk mint = Some mi"
    "mi_decimals mi = tm_decimals m" "mint_to S mint rta ma n tk = Some tk'"
    "0 < tm_max_supply_cap m \<Longrightarrow> supply_of S tk mint + unat n \<le> unat (tm_max_supply_cap m)"
proof -
  from assms obtain t m mi where
    acc: "MintTokens_accounts P S TL L tk trust ms ma mint rta = Inr (t, m, mi)"
    by (auto simp: token_mint_tokens_def res)
  then have a: "TL trust = Some (TrustA t)" "L ms = Some m" "mint_info S tk mint = Some mi"
    by (auto simp: token_accounts_defs res)
  have pick: "(if b then rbind (ok_or x e) (\<lambda>y. require (y \<le> c) e (Inr ())) else Inr ()) = Inr u \<longleftrightarrow>
      (b \<longrightarrow> (\<exists>y. x = Some y \<and> y \<le> c))"
    for b u and x :: "u64 option" and c and e :: "TokenError err" by (auto simp: res)
  from assms acc have p: "tm_initialized m = 2" "tm_mint m = mint" "mi_decimals mi = tm_decimals m"
      "auth = t_authority t" "mint_to S mint rta ma n tk = Some tk'"
      "0 < tm_max_supply_cap m \<longrightarrow> (\<exists>y. checked_add (mi_supply mi) n = Some y \<and> y \<le> tm_max_supply_cap m)"
    by (simp_all add: token_mint_tokens_def rbind_Inr require_Inr ok_or_Inr spl_call_Inr pick)
  show thesis
    by (rule that [OF a(1) p(4) a(2) p(2) p(1) a(3) p(3) p(5)])
      (use p(6) a in \<open>auto simp: supply_of_def checked_add_Some word_le_nat_alt\<close>)
qed

section \<open>Runs of the program\<close>

text \<open>
  The last rule stands for everything else that happens to tokens: since only this program can
  sign for the mint authorities of its mints, it does not raise the supply of one of them.
\<close>

inductive token_step :: "pda_sdk \<Rightarrow> 'tk spl \<Rightarrow> token_store \<times> 'tk \<Rightarrow> token_store \<times> 'tk \<Rightarrow> bool"
  for P S where
  init: "token_init P TL trust ms payer L = Inr (L', ev) \<Longrightarrow> token_step P S (L, tk) (L', tk)"
| finalize: "token_finalize P raw trust ms bc L = Inr L' \<Longrightarrow> token_step P S (L, tk) (L', tk)"
| create: "token_create_mint P S trust ms ma mint tp d L tk = Inr (L', tk', ev) \<Longrightarrow>
    token_step P S (L, tk) (L', tk')"
| mint: "token_mint_tokens P S TL trust ms ma mint rta auth tp n L tk = Inr (tk', ev) \<Longrightarrow>
    token_step P S (L, tk) (L, tk')"
| burn: "token_burn_tokens P S trust ms mint ota ow tp n L tk = Inr (tk', ev) \<Longrightarrow>
    token_step P S (L, tk) (L, tk')"
| other: "\<forall>k m. L k = Some m \<longrightarrow> supply_of S tk' (tm_mint m) \<le> supply_of S tk (tm_mint m) \<Longrightarrow>
    token_step P S (L, tk) (L, tk')"

text \<open>What the invariant needs of the outside: a new mint has no supply, and two TRUSTs never
  derive the same mint address.\<close>

definition init_law :: "'tk spl \<Rightarrow> bool" where
  "init_law S \<longleftrightarrow> (\<forall>mint d a fr tk tk'. initialize_mint2 S mint d a fr tk = Some tk' \<longrightarrow>
     (\<forall>m. supply_of S tk' m = (if m = mint then 0 else supply_of S tk m)))"

definition mints_distinct :: "pda_sdk \<Rightarrow> bool" where
  "mints_distinct P \<longleftrightarrow> inj (\<lambda>trust. fst (find_program_address P (mint_seeds trust) TOKEN_ID))"

definition capped :: "pda_sdk \<Rightarrow> 'tk spl \<Rightarrow> 'tk \<Rightarrow> pubkey \<Rightarrow> TokenModuleState \<Rightarrow> bool" where
  "capped P S tk k m \<longleftrightarrow> k = fst (find_program_address P (token_module_seeds (tm_trust m)) TOKEN_ID) \<and>
     (tm_mint m \<noteq> 0 \<longrightarrow> tm_initialized m = 2 \<and>
        tm_mint m = fst (find_program_address P (mint_seeds (tm_trust m)) TOKEN_ID) \<and>
        (0 < tm_max_supply_cap m \<longrightarrow> supply_of S tk (tm_mint m) \<le> unat (tm_max_supply_cap m)))"

definition token_inv :: "pda_sdk \<Rightarrow> 'tk spl \<Rightarrow> token_store \<times> 'tk \<Rightarrow> bool" where
  "token_inv P S s \<longleftrightarrow> (spl_law S \<and> init_law S \<and> mints_distinct P \<longrightarrow>
     (\<forall>k m. fst s k = Some m \<longrightarrow> capped P S (snd s) k m))"

lemma capped_mono:
  "capped P S tk k m \<Longrightarrow> supply_of S tk' (tm_mint m) \<le> supply_of S tk (tm_mint m) \<Longrightarrow>
   capped P S tk' k m"
  by (auto simp: capped_def)

lemma capped_other:
  assumes "mints_distinct P" "capped P S tk k m" "capped P S tk k' m'" "k \<noteq> k'" "tm_mint m' \<noteq> 0"
  shows "tm_mint m \<noteq> tm_mint m' \<or> tm_mint m = 0"
  using assms unfolding capped_def mints_distinct_def inj_def by metis

lemma token_step_inv:
  assumes "token_step P S s s'" and inv: "token_inv P S s"
  shows "token_inv P S s'"
  unfolding token_inv_def
proof (intro impI)
  assume laws: "spl_law S \<and> init_law S \<and> mints_distinct P"
  with inv have cap: "capped P S (snd s) k m" if "fst s k = Some m" for k m
    using that by (simp add: token_inv_def)
  from assms(1) show "\<forall>k m. fst s' k = Some m \<longrightarrow> capped P S (snd s') k m"
  proof cases
    case init
    with cap show ?thesis by (auto dest!: token_init_ok simp: capped_def split: if_splits)
  next
    case finalize
    with cap show ?thesis by (auto dest!: token_finalize_ok simp: capped_def split: if_splits)
  next
    case (create trust ms ma mint tp d L tk L' tk' ev)
    from token_create_ok [OF create(3)] obtain m where m: "L ms = Some m" "tm_initialized m = 2"
      "tm_trust m = trust" "mint = fst (find_program_address P (mint_seeds trust) TOKEN_ID)"
      "initialize_mint2 S mint d ma None tk = Some tk'" "L' = L(ms \<mapsto> m\<lparr>tm_mint := mint\<rparr>)" by blast
    from laws m(5) have "supply_of S tk' j = (if j = mint then 0 else supply_of S tk j)" for j
      by (simp add: init_law_def)
    with create cap m show ?thesis
      by (auto simp: capped_def split: if_splits)
  next
    case (mint TL trust ms ma mint rta auth tp n L tk tk' ev)
    from mint(3) obtain m where m: "L ms = Some m" "tm_mint m = mint"
      "mint_to S mint rta ma n tk = Some tk'"
      "0 < tm_max_supply_cap m \<Longrightarrow> supply_of S tk mint + unat n \<le> unat (tm_max_supply_cap m)"
      by (rule token_mint_ok) blast
    have sup: "supply_of S tk' mint = supply_of S tk mint + unat n"
      "j \<noteq> mint \<Longrightarrow> supply_of S tk' j = supply_of S tk j" for j
      using mint_to_supply [of S, OF _ m(3)] laws by auto
    have "capped P S tk' k m'" if k: "L k = Some m'" for k m'
    proof (cases "tm_mint m' = mint \<and> mint \<noteq> 0")
      case True
      with capped_other [of P S tk k m' ms m] laws cap mint k m have "k = ms" by auto
      with k m sup cap [of ms m] mint show ?thesis by (auto simp: capped_def)
    next
      case False
      with sup(2) [of "tm_mint m'"] cap [of k m'] k mint show ?thesis
        by (cases "tm_mint m' = mint") (auto simp: capped_def)
    qed
    with mint show ?thesis by simp
  next
    case (burn trust ms mint ota ow tp n L tk tk' ev)
    from token_burn_ok [OF burn(3)] obtain m where "burn S mint ota ow n tk = Some tk'" by blast
    with laws have "supply_of S tk' j \<le> supply_of S tk j" for j
      by (auto simp: spl_law_def burn_law_def)
    with burn cap show ?thesis by (auto intro: capped_mono)
  next
    case other
    with cap show ?thesis by (simp, blast intro: capped_mono)
  qed
qed

interpretation token_run: kept_by_steps "token_step P S" "token_inv P S" for P S
  by unfold_locales (rule token_step_inv)

interpretation token_module: module_init token_init
  by unfold_locales (auto dest!: token_init_ok)

section \<open>The configuration account\<close>

text \<open>
  How Anchor stores a \<open>BytesConfig\<close> of \<open>aeqi_trust\<close>: an 8-byte discriminator, the fields in
  Borsh encoding, and the unused rest of the allocated space.
\<close>

definition bytes_config_data :: "u8 list \<Rightarrow> BytesConfig \<Rightarrow> u8 list \<Rightarrow> u8 list" where
  "bytes_config_data disc c rest = disc @ to_bytes (bc_trust c) @ to_bytes (bc_key c) @
     to_le_bytes (of_nat (length (bc_value c)) :: u32) @ bc_value c @ bc_bump c # rest"

definition encode_token_init_config :: "TokenInitConfig \<Rightarrow> u8 list" where
  "encode_token_init_config c = ti_decimals c # to_le_bytes (ti_max_supply_cap c)"

lemma decode_encode_bytes_config:
  assumes "length disc = 8" and "length (bc_value c) < 2 ^ 32"
  shows "decode_bytes_config_account (bytes_config_data disc c rest) =
    Inr \<lparr>bd_trust = bc_trust c, bd_key = bc_key c, bd_value = bc_value c, bd_bump = bc_bump c\<rparr>"
proof -
  let ?n = "length (bc_value c)"
  let ?d = "bytes_config_data disc c rest"
  have "length ?d = 77 + ?n + length rest" by (simp add: bytes_config_data_def assms)
  moreover have "slice 8 40 ?d = to_bytes (bc_trust c)" "slice 40 72 ?d = to_bytes (bc_key c)"
    "slice 72 76 ?d = to_le_bytes (of_nat ?n :: u32)" "slice 76 (76 + ?n) ?d = bc_value c"
    "?d ! (76 + ?n) = bc_bump c"
    by (simp_all add: bytes_config_data_def slice_def nth_append assms)
  moreover have "unat (of_nat ?n :: u32) = ?n" using assms(2) by (simp add: unat_of_nat_small)
  ultimately show ?thesis by (simp add: decode_bytes_config_account_def Let_def add.commute)
qed

lemma decode_encode_token_init: "decode_token_init_config (encode_token_init_config c) = Some c"
  by (simp add: decode_token_init_config_def encode_token_init_config_def slice_def)

section \<open>Properties\<close>

text \<open>
  C2. The supply cap holds: in every state reached from the empty store, for a module with a
  mint and a cap, the supply of the mint is at most the cap, provided that the token program
  keeps its contract and that mint addresses of different TRUSTs do not collide.
\<close>

theorem token_supply_capped:
  assumes "spl_law S" and "init_law S" and "mints_distinct P"
    and "(token_step P S)\<^sup>*\<^sup>* (Map.empty, tk) (L, tk')"
    and "L k = Some m" and "tm_mint m \<noteq> 0" and "0 < tm_max_supply_cap m"
  shows "supply_of S tk' (tm_mint m) \<le> unat (tm_max_supply_cap m)"
proof -
  have "token_inv P S (Map.empty, tk)" by (simp add: token_inv_def)
  from token_run.run_keeps [OF assms(4) this] assms show ?thesis
    by (simp add: token_inv_def capped_def)
qed

text \<open>
  C16. The hand-written decoder is right: on the stored bytes of any configuration account,
  whatever the discriminator and the unused rest of the account, \<open>decode_bytes_config_account\<close>
  returns exactly the fields that were stored.
\<close>

theorem decode_bytes_config_roundtrip:
  assumes "length disc = 8" and "length (bc_value c) \<le> MAX_BYTES_CONFIG"
  shows "decode_bytes_config_account (bytes_config_data disc c rest) =
    Inr \<lparr>bd_trust = bc_trust c, bd_key = bc_key c, bd_value = bc_value c, bd_bump = bc_bump c\<rparr>"
  using assms by (intro decode_encode_bytes_config) (simp_all add: MAX_BYTES_CONFIG_def)

text \<open>
  Minting: it succeeds only with the signature of the TRUST's authority, on a finalized
  module and its recorded mint, and it raises the supply of that mint and the recipient's
  balance by exactly the amount.
\<close>

theorem token_mint_exact:
  assumes "spl_law S"
    and "token_mint_tokens P S TL trust ms ma mint rta auth tp n L tk = Inr (tk', ev)"
  shows "\<exists>t m. TL trust = Some (TrustA t) \<and> auth = t_authority t \<and> L ms = Some m \<and>
    tm_initialized m = token_init_state_u8 Finalized \<and> tm_mint m = mint \<and>
    supply_of S tk' mint = supply_of S tk mint + unat n \<and> bal S tk' rta = bal S tk rta + unat n \<and>
    (\<forall>j. j \<noteq> rta \<longrightarrow> bal S tk' j = bal S tk j)"
  using assms(2)
proof (rule token_mint_ok)
  fix t m mi
  assume "TL trust = Some (TrustA t)" "auth = t_authority t" "L ms = Some m" "tm_mint m = mint"
    "tm_initialized m = 2" and t: "mint_to S mint rta ma n tk = Some tk'"
  with mint_to_supply [OF assms(1) t] show ?thesis by (intro exI [of _ t] exI [of _ m]) simp
qed

section \<open>Concrete inputs\<close>

definition demo_token_key :: "seed list \<Rightarrow> pubkey" where
  "demo_token_key s = demo_addr s TOKEN_ID"

definition demo_token_config :: BytesConfig where
  "demo_token_config = \<lparr>bc_trust = demo_trust, bc_key = TOKEN_CONFIG_KEY,
     bc_value = encode_token_init_config \<lparr>ti_decimals = 6, ti_max_supply_cap = 1000\<rparr>, bc_bump = 255\<rparr>"

definition demo_raw :: "pubkey \<Rightarrow> pubkey \<times> u8 list" where
  "demo_raw k = (AEQI_TRUST_ID, bytes_config_data (replicate 8 0) demo_token_config [])"

definition demo_token_ledger :: ledger where
  "demo_token_ledger = \<lparr>mints = Map.empty, wallets = [32 \<mapsto>
     \<lparr>ta_mint = demo_token_key (mint_seeds demo_trust), ta_owner = 9, ta_amount = 0\<rparr>]\<rparr>"

definition demo_ms :: pubkey where
  "demo_ms = demo_token_key (token_module_seeds demo_trust)"

text \<open>The module is set up with six decimals and a cap of 1000, the mint is created.\<close>

definition demo_token_ready :: "TokenError err + token_store \<times> ledger \<times> token_event list" where
  "demo_token_ready =
     rbind (token_init demo_sdk demo_open demo_trust demo_ms 7 Map.empty) (\<lambda>(L1, _).
     rbind (token_finalize demo_sdk demo_raw demo_trust demo_ms
       (demo_addr [Lit ''cfg_bytes'', B32 demo_trust, B32 TOKEN_CONFIG_KEY] AEQI_TRUST_ID) L1) (\<lambda>L2.
     token_create_mint demo_sdk demo_spl demo_trust demo_ms
       (demo_token_key [Lit ''token_authority'', B32 demo_trust]) (demo_token_key (mint_seeds demo_trust))
       TOKEN_2022_ID 6 L2 demo_token_ledger))"

definition demo_mint :: "u64 \<Rightarrow> token_store \<Rightarrow> ledger \<Rightarrow> TokenError err + ledger \<times> token_event list" where
  "demo_mint n = token_mint_tokens demo_sdk demo_spl demo_open demo_trust demo_ms
     (demo_token_key [Lit ''token_authority'', B32 demo_trust]) (demo_token_key (mint_seeds demo_trust))
     32 7 TOKEN_2022_ID n"

lemma demo_init_law: "init_law demo_spl"
  by (auto simp: init_law_def supply_of_def demo_spl_def)

lemma demo_mints_distinct: "mints_distinct demo_sdk"
  by (simp add: mints_distinct_def demo_sdk_def demo_addr_def mint_seeds_def inj_def)

lemma demo_config_decoded:
  "decode_bytes_config_account (snd (demo_raw k)) =
     Inr \<lparr>bd_trust = demo_trust, bd_key = TOKEN_CONFIG_KEY,
       bd_value = encode_token_init_config \<lparr>ti_decimals = 6, ti_max_supply_cap = 1000\<rparr>, bd_bump = 255\<rparr>"
  unfolding demo_raw_def snd_conv
  by (subst decode_encode_bytes_config) (simp_all add: demo_token_config_def encode_token_init_config_def)

lemma demo_raw_owner: "fst (demo_raw k) = AEQI_TRUST_ID"
  by (simp add: demo_raw_def)

lemmas demo_token_defs = demo_raw_owner demo_token_ready_def demo_mint_def token_init_def token_finalize_def
  token_create_mint_def token_mint_tokens_def token_accounts_defs token_module_account_def
  require_token_2022_def trust_account_def load_def require_def seeds_ok_def canonical_def init_account_def
  mint_account_def spl_call_def token_module_seeds_def mint_seeds_def demo_token_key_def demo_ms_def
  demo_token_ledger_def demo_spl_def credit_def resupply_def checked_add_def demo_trust_defs
  demo_config_decoded decode_encode_token_init

lemma demo_token_run:
  obtains L tk ev m tk' ev' where "demo_token_ready = Inr (L, tk, ev)" "L demo_ms = Some m"
    "tm_mint m \<noteq> 0" "0 < tm_max_supply_cap m" "demo_mint 400 L tk = Inr (tk', ev')"
proof -
  have "\<exists>L tk ev m tk' ev'. demo_token_ready = Inr (L, tk, ev) \<and> L demo_ms = Some m \<and>
    tm_mint m \<noteq> 0 \<and> 0 < tm_max_supply_cap m \<and> demo_mint 400 L tk = Inr (tk', ev')"
    by (simp add: demo_token_defs TOKEN_ID_def)
  then show thesis using that by blast
qed

theorem token_supply_capped_witness:
  "\<exists>L tk m. (token_step demo_sdk demo_spl)\<^sup>*\<^sup>* (Map.empty, demo_token_ledger) (L, tk) \<and>
     L demo_ms = Some m \<and> tm_mint m \<noteq> 0 \<and>
     supply_of demo_spl tk (tm_mint m) \<le> unat (tm_max_supply_cap m)"
proof -
  obtain L tk ev m tk' ev' where r: "demo_token_ready = Inr (L, tk, ev)" and m: "L demo_ms = Some m"
    "tm_mint m \<noteq> 0" "0 < tm_max_supply_cap m" and n: "demo_mint 400 L tk = Inr (tk', ev')"
    by (rule demo_token_run)
  from r have "(token_step demo_sdk demo_spl)\<^sup>*\<^sup>* (Map.empty, demo_token_ledger) (L, tk)"
    unfolding demo_token_ready_def
    by (auto simp: rbind_Inr dest!: token_step.init [where S = demo_spl and tk = demo_token_ledger]
        token_step.finalize [where S = demo_spl and tk = demo_token_ledger]
        token_step.create intro: rtranclp.rtrancl_into_rtrancl)
  also have "token_step demo_sdk demo_spl (L, tk) (L, tk')"
    using n unfolding demo_mint_def by (rule token_step.mint)
  finally have run: "(token_step demo_sdk demo_spl)\<^sup>*\<^sup>* (Map.empty, demo_token_ledger) (L, tk')" .
  from token_supply_capped [OF demo_spl_law demo_init_law demo_mints_distinct run m] run m
  show ?thesis by blast
qed

theorem decode_bytes_config_roundtrip_witness:
  "decode_bytes_config_account (bytes_config_data (replicate 8 0) demo_token_config [0, 0]) =
     Inr \<lparr>bd_trust = demo_trust, bd_key = TOKEN_CONFIG_KEY,
       bd_value = bc_value demo_token_config, bd_bump = 255\<rparr>"
proof -
  have "length (bc_value demo_token_config) \<le> MAX_BYTES_CONFIG"
    by (simp add: demo_token_config_def encode_token_init_config_def MAX_BYTES_CONFIG_def)
  from decode_bytes_config_roundtrip [OF _ this, of "replicate 8 0" "[0, 0]"] show ?thesis
    by (simp add: demo_token_config_def)
qed

theorem token_mint_exact_witness:
  "\<exists>L tk tk' ev. demo_mint 400 L tk = Inr (tk', ev) \<and>
     bal demo_spl tk' 32 = bal demo_spl tk 32 + 400"
proof -
  obtain L tk tk' ev' where n: "demo_mint 400 L tk = Inr (tk', ev')" by (rule demo_token_run)
  from token_mint_exact [OF demo_spl_law n [unfolded demo_mint_def]] n show ?thesis by auto
qed

end
