(* ===== verification/Aeqi_Factory.thy ===== *)
theory Aeqi_Factory
  imports Aeqi_Governance Aeqi_Token
begin

text \<open>
  The program \<open>aeqi_factory\<close>: companies created by calls into \<open>aeqi_trust\<close>, \<open>aeqi_role\<close>,
  \<open>aeqi_token\<close> and \<open>aeqi_governance\<close>, and templates (module sets with an ACL graph) that
  are registered once and replayed against a fresh TRUST. The calls are the instructions of
  those programs' own theories; the events those calls emit are theirs and not repeated.
\<close>

section \<open>Errors, state and events\<close>

datatype FactoryError =
    EmptyModuleSet | TooManyModules | TooManyAclEdges | ModuleAccountCountMismatch
  | TemplateAccountCountMismatch | DuplicateModuleId | UnknownAclModuleReference
  | InvalidImplementationVersion | ImplementationAccountMismatch | InactiveImplementation

record ModuleSpec =
  ms_module_id :: bytes32
  ms_program_id :: pubkey
  ms_provider :: pubkey
  ms_implementation_version :: u64
  ms_implementation_metadata_hash :: bytes32
  ms_trust_acl :: u64

record AclEdgeSpec =
  ae_source_module_id :: bytes32
  ae_target_module_id :: bytes32
  ae_flags :: u64

record Template =
  tp_template_id :: bytes32
  tp_admin :: pubkey
  tp_modules :: "ModuleSpec list"
  tp_acl_edges :: "AclEdgeSpec list"
  tp_bump :: u8

type_synonym template_store = "Template accts"

datatype factory_event =
    CompanyCreated pubkey bytes32 pubkey
  | TemplateRegistered bytes32 pubkey u8 u8
  | CompanyFullySpawned pubkey bytes32 pubkey
  | TemplateInstantiated pubkey bytes32 bytes32 u8
  | CompanySpawned pubkey bytes32 pubkey u8

text \<open>An instruction fails with its own error or with the error of the program it calls.\<close>

datatype factory_fault =
    FactoryFault "FactoryError err"
  | TrustFault "AeqiTrustError err"
  | RoleFault "AeqiRoleError err"
  | TokenFault "TokenError err"
  | GovernanceFault "GovernanceError err"

type_synonym factory_result = "factory_fault + trust_store \<times> factory_event list"

definition AEQI_FACTORY_ID :: pubkey where
  "AEQI_FACTORY_ID = 0x2a1ee5e7bcd31b96d947d5b4572261a58ac7e4936ed74755429d3f65b2fb14cb"

text \<open>\<open>InitSpace\<close> of the two specs, and the space of a template account.\<close>

definition MODULE_SPEC_INIT_SPACE :: nat where
  "MODULE_SPEC_INIT_SPACE = 32 + 32 + 32 + 8 + 32 + 8"

definition ACL_EDGE_SPEC_INIT_SPACE :: nat where
  "ACL_EDGE_SPEC_INIT_SPACE = 32 + 32 + 8"

definition template_space :: "nat \<Rightarrow> nat \<Rightarrow> nat" where
  "template_space num_modules num_edges =
     8 + 32 + 32 + 4 + num_modules * MODULE_SPEC_INIT_SPACE +
     4 + num_edges * ACL_EDGE_SPEC_INIT_SPACE + 1"

section \<open>Creating a company\<close>

definition factory_create_company :: "pda_sdk \<Rightarrow> pubkey \<Rightarrow> pubkey \<Rightarrow> bytes32 \<Rightarrow> trust_store \<Rightarrow>
  factory_result" where
  "factory_create_company P trust authority trust_id TL =
     rbind (map_error TrustFault (trust_initialize P trust authority trust_id TL)) (\<lambda>(TL', _).
       Inr (TL', [CompanyCreated trust trust_id authority]))"

text \<open>The registration loop over the zipped specs and module accounts.\<close>

fun register_modules :: "pda_sdk \<Rightarrow> pubkey \<Rightarrow> pubkey \<Rightarrow> (ModuleSpec \<times> pubkey) list \<Rightarrow> trust_store \<Rightarrow>
  factory_fault + trust_store" where
  "register_modules P trust authority [] TL = Inr TL"
| "register_modules P trust authority ((spec, module_acct) # rest) TL =
     rbind (map_error TrustFault (trust_register_module P trust module_acct authority
              (ms_module_id spec) (ms_program_id spec) (ms_provider spec)
              (ms_implementation_version spec) (ms_implementation_metadata_hash spec)
              (ms_trust_acl spec) TL)) (\<lambda>(TL', _).
     register_modules P trust authority rest TL')"

definition factory_create_with_modules :: "pda_sdk \<Rightarrow> pubkey \<Rightarrow> pubkey \<Rightarrow> pubkey list \<Rightarrow> bytes32 \<Rightarrow>
  ModuleSpec list \<Rightarrow> trust_store \<Rightarrow> factory_result" where
  "factory_create_with_modules P trust authority remaining_accounts trust_id modules TL =
     require (modules \<noteq> []) (FactoryFault (Prog EmptyModuleSet))
     (require (length modules \<le> 16) (FactoryFault (Prog TooManyModules))
     (require (length remaining_accounts = length modules)
        (FactoryFault (Prog ModuleAccountCountMismatch))
     (rbind (map_error TrustFault (trust_initialize P trust authority trust_id TL)) (\<lambda>(TL1, _).
     rbind (register_modules P trust authority (zip modules remaining_accounts) TL1) (\<lambda>TL2.
       Inr (TL2, [CompanySpawned trust trust_id authority (of_nat (length modules))]))))))"

text \<open>The stores that \<open>create_company_full\<close> writes, and its accounts.\<close>

record company =
  co_trust :: trust_store
  co_role :: role_store
  co_token :: token_store
  co_gov :: gov_store

record CreateCompanyFull =
  cf_trust :: pubkey
  cf_role_module :: pubkey
  cf_token_module :: pubkey
  cf_gov_module :: pubkey
  cf_role_module_state :: pubkey
  cf_token_module_state :: pubkey
  cf_gov_module_state :: pubkey
  cf_token_bytes_config :: pubkey
  cf_authority :: pubkey

text \<open>Borsh's \<open>try_to_vec\<close> on \<open>TokenInitConfig\<close>: a byte and a little-endian \<open>u64\<close>.\<close>

definition token_init_config_bytes :: "u8 \<Rightarrow> u64 \<Rightarrow> u8 list" where
  "token_init_config_bytes decimals cap =
     encode_token_init_config \<lparr>ti_decimals = decimals, ti_max_supply_cap = cap\<rparr>"

definition register_one :: "pda_sdk \<Rightarrow> pubkey \<Rightarrow> pubkey \<Rightarrow> pubkey \<Rightarrow> bytes32 \<Rightarrow> pubkey \<Rightarrow> u64 \<Rightarrow>
  trust_store \<Rightarrow> factory_fault + trust_store" where
  "register_one P trust module authority module_id program acl TL =
     rbind (map_error TrustFault (trust_register_module P trust module authority module_id program
              program 1 0 acl TL)) (\<lambda>(TL', _). Inr TL')"

definition factory_create_company_full :: "pda_sdk \<Rightarrow> (trust_store \<Rightarrow> pubkey \<Rightarrow> pubkey \<times> u8 list) \<Rightarrow>
  CreateCompanyFull \<Rightarrow> bytes32 \<Rightarrow> bytes32 \<Rightarrow> bytes32 \<Rightarrow> bytes32 \<Rightarrow> u64 \<Rightarrow> u64 \<Rightarrow> u64 \<Rightarrow> u8 \<Rightarrow> u64 \<Rightarrow>
  company \<Rightarrow> factory_fault + company \<times> factory_event list" where
  "factory_create_company_full P raw x trust_id role_module_id token_module_id gov_module_id
     role_acl token_acl gov_acl token_decimals token_max_supply_cap W =
     (let trust = cf_trust x; authority = cf_authority x in
      rbind (map_error TrustFault (trust_initialize P trust authority trust_id (co_trust W))) (\<lambda>(T1, _).
      rbind (register_one P trust (cf_role_module x) authority role_module_id AEQI_ROLE_ID role_acl T1) (\<lambda>T2.
      rbind (register_one P trust (cf_token_module x) authority token_module_id TOKEN_ID token_acl T2) (\<lambda>T3.
      rbind (register_one P trust (cf_gov_module x) authority gov_module_id AEQI_GOVERNANCE_ID gov_acl
               T3) (\<lambda>T4.
      rbind (map_error RoleFault (role_init P T4 trust (cf_role_module_state x) authority
               (co_role W))) (\<lambda>(R1, _).
      rbind (map_error TokenFault (token_init P T4 trust (cf_token_module_state x) authority
               (co_token W))) (\<lambda>(K1, _).
      rbind (map_error GovernanceFault (gov_init P T4 trust (cf_gov_module_state x) authority
               (co_gov W))) (\<lambda>(G1, _).
      rbind (map_error TrustFault (trust_set_bytes_config P trust (cf_token_bytes_config x) None
               authority TOKEN_CONFIG_KEY
               (token_init_config_bytes token_decimals token_max_supply_cap) T4)) (\<lambda>(T5, _).
      rbind (map_error RoleFault (role_finalize P trust (cf_role_module_state x) R1)) (\<lambda>(R2, _).
      rbind (map_error TokenFault (token_finalize P (raw T5) trust (cf_token_module_state x)
               (cf_token_bytes_config x) K1)) (\<lambda>K2.
      rbind (map_error GovernanceFault (gov_finalize G1)) (\<lambda>(G2, _).
      rbind (map_error TrustFault (trust_finalize P trust authority T5)) (\<lambda>(T6, _).
        Inr (\<lparr>co_trust = T6, co_role = R2, co_token = K2, co_gov = G2\<rparr>,
             [CompanyFullySpawned trust trust_id authority])))))))))))))) "

section \<open>Templates\<close>

text \<open>The two loops of \<open>validate_template_graph\<close>: \<open>prev\<close> holds the modules before the current.\<close>

fun validate_modules :: "ModuleSpec list \<Rightarrow> ModuleSpec list \<Rightarrow> FactoryError err + unit" where
  "validate_modules prev [] = Inr ()"
| "validate_modules prev (m # ms) =
     require (ms_implementation_version m > 0) (Prog InvalidImplementationVersion)
     (require (\<forall>p\<in>set prev. ms_module_id p \<noteq> ms_module_id m) (Prog DuplicateModuleId)
     (validate_modules (prev @ [m]) ms))"

fun validate_edges :: "ModuleSpec list \<Rightarrow> AclEdgeSpec list \<Rightarrow> FactoryError err + unit" where
  "validate_edges modules [] = Inr ()"
| "validate_edges modules (e # es) =
     require (\<exists>m\<in>set modules. ms_module_id m = ae_source_module_id e) (Prog UnknownAclModuleReference)
     (require (\<exists>m\<in>set modules. ms_module_id m = ae_target_module_id e) (Prog UnknownAclModuleReference)
     (validate_edges modules es))"

definition validate_template_graph :: "ModuleSpec list \<Rightarrow> AclEdgeSpec list \<Rightarrow> FactoryError err + unit" where
  "validate_template_graph modules acl_edges =
     rbind (validate_modules [] modules) (\<lambda>_. validate_edges modules acl_edges)"

definition RegisterTemplate_accounts :: "pda_sdk \<Rightarrow> bytes32 \<Rightarrow> template_store \<Rightarrow> pubkey \<Rightarrow>
  FactoryError err + u8" where
  "RegisterTemplate_accounts P template_id L template =
     init_account P [Lit ''template'', B32 template_id] AEQI_FACTORY_ID L template"

definition factory_register_template :: "pda_sdk \<Rightarrow> pubkey \<Rightarrow> pubkey \<Rightarrow> bytes32 \<Rightarrow> ModuleSpec list \<Rightarrow>
  AclEdgeSpec list \<Rightarrow> template_store \<Rightarrow> FactoryError err + template_store \<times> factory_event list" where
  "factory_register_template P template admin template_id modules acl_edges L =
     rbind (RegisterTemplate_accounts P template_id L template) (\<lambda>bump.
     require (modules \<noteq> []) (Prog EmptyModuleSet)
     (require (length modules \<le> 16) (Prog TooManyModules)
     (require (length acl_edges \<le> 64) (Prog TooManyAclEdges)
     (rbind (validate_template_graph modules acl_edges) (\<lambda>_.
       Inr (L(template \<mapsto> \<lparr>tp_template_id = template_id, tp_admin = admin, tp_modules = modules,
                tp_acl_edges = acl_edges, tp_bump = bump\<rparr>),
            [TemplateRegistered template_id admin (of_nat (length modules))
               (of_nat (length acl_edges))]))))))"

text \<open>\<open>Iterator::position\<close>.\<close>

fun position :: "('a \<Rightarrow> bool) \<Rightarrow> 'a list \<Rightarrow> nat option" where
  "position p [] = None"
| "position p (x # xs) = (if p x then Some 0 else map_option Suc (position p xs))"

definition validate_implementation_account :: "pda_sdk \<Rightarrow> trust_store \<Rightarrow> ModuleSpec \<Rightarrow> pubkey \<Rightarrow>
  FactoryError err + unit" where
  "validate_implementation_account P TL spec implementation =
     require (implementation = fst (find_program_address P [Lit ''module_impl'', B32 (ms_provider spec),
        B32 (ms_module_id spec), Le64 (ms_implementation_version spec)] AEQI_TRUST_ID))
       (Prog ImplementationAccountMismatch)
     (rbind (load as_implementation TL implementation) (\<lambda>i.
     require (i_active i) (Prog InactiveImplementation)
     (require (i_provider i = ms_provider spec) (Prog ImplementationAccountMismatch)
     (require (i_module_id i = ms_module_id spec) (Prog ImplementationAccountMismatch)
     (require (i_implementation_program_id i = ms_program_id spec) (Prog ImplementationAccountMismatch)
     (require (i_version i = ms_implementation_version spec) (Prog ImplementationAccountMismatch)
     (require (i_metadata_hash i = ms_implementation_metadata_hash spec)
        (Prog ImplementationAccountMismatch) (Inr ()))))))))"

fun validate_implementations :: "pda_sdk \<Rightarrow> trust_store \<Rightarrow> (ModuleSpec \<times> pubkey) list \<Rightarrow>
  FactoryError err + unit" where
  "validate_implementations P TL [] = Inr ()"
| "validate_implementations P TL ((spec, implementation) # rest) =
     rbind (validate_implementation_account P TL spec implementation) (\<lambda>_.
     validate_implementations P TL rest)"

text \<open>The ACL loop: source and target accounts are found by the position of their module ids.\<close>

fun replay_edges :: "pda_sdk \<Rightarrow> pubkey \<Rightarrow> pubkey \<Rightarrow> ModuleSpec list \<Rightarrow> pubkey list \<Rightarrow>
  (AclEdgeSpec \<times> pubkey) list \<Rightarrow> trust_store \<Rightarrow> factory_fault + trust_store" where
  "replay_edges P trust authority modules accounts [] TL = Inr TL"
| "replay_edges P trust authority modules accounts ((edge, acl_edge_acct) # rest) TL =
     rbind (ok_or (position (\<lambda>m. ms_module_id m = ae_source_module_id edge) modules)
              (FactoryFault (Prog UnknownAclModuleReference))) (\<lambda>source_index.
     rbind (ok_or (position (\<lambda>m. ms_module_id m = ae_target_module_id edge) modules)
              (FactoryFault (Prog UnknownAclModuleReference))) (\<lambda>target_index.
     rbind (map_error TrustFault (trust_set_module_acl P trust (accounts ! source_index)
              (accounts ! target_index) acl_edge_acct authority (ae_target_module_id edge)
              (ae_flags edge) TL)) (\<lambda>(TL', _).
     replay_edges P trust authority modules accounts rest TL')))"

definition InstantiateTemplate_accounts :: "pda_sdk \<Rightarrow> template_store \<Rightarrow> pubkey \<Rightarrow>
  FactoryError err + Template" where
  "InstantiateTemplate_accounts P L template =
     rbind (load Some L template) (\<lambda>tp.
     require (seeds_ok P [Lit ''template'', B32 (tp_template_id tp)] (tp_bump tp) AEQI_FACTORY_ID
         template) (Anchor ConstraintSeeds) (Inr tp))"

definition factory_instantiate_template :: "pda_sdk \<Rightarrow> template_store \<Rightarrow> pubkey \<Rightarrow> pubkey \<Rightarrow> pubkey \<Rightarrow>
  pubkey list \<Rightarrow> bytes32 \<Rightarrow> trust_store \<Rightarrow> factory_result" where
  "factory_instantiate_template P L template trust authority remaining_accounts trust_id TL =
     rbind (map_error FactoryFault (InstantiateTemplate_accounts P L template)) (\<lambda>tp.
     require (tp_modules tp \<noteq> []) (FactoryFault (Prog EmptyModuleSet))
     (require (length remaining_accounts = length (tp_modules tp) * 2 + length (tp_acl_edges tp))
        (FactoryFault (Prog TemplateAccountCountMismatch))
     (let module_count = length (tp_modules tp);
          module_accounts = take module_count remaining_accounts;
          implementation_accounts = slice module_count (module_count * 2) remaining_accounts;
          acl_edge_accounts = drop (module_count * 2) remaining_accounts in
      rbind (map_error FactoryFault (validate_implementations P TL
               (zip (tp_modules tp) implementation_accounts))) (\<lambda>_.
      rbind (map_error TrustFault (trust_initialize P trust authority trust_id TL)) (\<lambda>(TL1, _).
      rbind (register_modules P trust authority (zip (tp_modules tp) module_accounts) TL1) (\<lambda>TL2.
      rbind (replay_edges P trust authority (tp_modules tp) module_accounts
               (zip (tp_acl_edges tp) acl_edge_accounts) TL2) (\<lambda>TL3.
        Inr (TL3, [TemplateInstantiated trust trust_id (tp_template_id tp)
               (of_nat module_count)]))))))))"

section \<open>What the loops do\<close>

definition spec_module :: "pubkey \<Rightarrow> ModuleSpec \<Rightarrow> u8 \<Rightarrow> Module" where
  "spec_module trust spec bump =
     \<lparr>m_trust = trust, m_module_id = ms_module_id spec, m_program_id = ms_program_id spec,
      m_provider = ms_provider spec, m_implementation_version = ms_implementation_version spec,
      m_implementation_metadata_hash = ms_implementation_metadata_hash spec,
      m_trust_acl = ms_trust_acl spec, m_initialized = 0, m_bump = bump\<rparr>"

text \<open>Registering: the counter grows by the number of modules, every module account was free,
  is used once and holds exactly its spec, and nothing else changes.\<close>

definition registered :: "pubkey \<Rightarrow> Trust \<Rightarrow> (ModuleSpec \<times> pubkey) list \<Rightarrow> trust_store \<Rightarrow> trust_store \<Rightarrow>
  bool" where
  "registered trust t pairs TL TL' \<longleftrightarrow>
     (\<exists>n. TL' trust = Some (TrustA (t\<lparr>t_module_count := n\<rparr>)) \<and>
        unat n = unat (t_module_count t) + length pairs) \<and>
     (\<forall>(s, k)\<in>set pairs. TL k = None \<and> (\<exists>b. TL' k = Some (ModuleA (spec_module trust s b)))) \<and>
     distinct (map snd pairs) \<and>
     (\<forall>k. k \<noteq> trust \<longrightarrow> k \<notin> snd ` set pairs \<longrightarrow> TL' k = TL k)"

lemma register_modules_ok:
  assumes "register_modules P trust a pairs TL = Inr TL'" and "TL trust = Some (TrustA t)"
  shows "registered trust t pairs TL TL'"
  using assms
proof (induction P trust a pairs TL arbitrary: t rule: register_modules.induct)
  case (1 P trust a TL)
  then have "TL' trust = Some (TrustA (t\<lparr>t_module_count := t_module_count t\<rparr>))" by simp
  with 1 show ?case unfolding registered_def by fastforce
next
  case (2 P trust a spec k rest TL)
  from 2(2) obtain TL1 ev where
    r: "trust_register_module P trust k a (ms_module_id spec) (ms_program_id spec) (ms_provider spec)
      (ms_implementation_version spec) (ms_implementation_metadata_hash spec) (ms_trust_acl spec) TL =
      Inr (TL1, ev)" and rest: "register_modules P trust a rest TL1 = Inr TL'"
    by (auto simp: res)
  from trust_register_module_ok [OF r] 2(3) obtain n b where
    n: "unat n = unat (t_module_count t) + 1" and k: "TL k = None"
    and TL1: "TL1 = TL(trust \<mapsto> TrustA (t\<lparr>t_module_count := n\<rparr>), k \<mapsto> ModuleA (spec_module trust spec b))"
    by (auto simp: spec_module_def)
  from k 2(3) have "k \<noteq> trust" by auto
  with TL1 have t1: "TL1 trust = Some (TrustA (t\<lparr>t_module_count := n\<rparr>))"
    and k1: "TL1 k = Some (ModuleA (spec_module trust spec b))" by simp_all
  have IH: "registered trust (t\<lparr>t_module_count := n\<rparr>) rest TL1 TL'"
    using 2(1) [of TL1] r rest t1 by (simp add: res)
  have fresh: "TL1 j = None" if "(s, j) \<in> set rest" for s j
    using IH that by (auto simp: registered_def)
  then have new: "j \<noteq> k \<and> j \<noteq> trust \<and> TL j = None" if "(s, j) \<in> set rest" for s j
    using that k1 t1 TL1 by (force split: if_splits)
  then have "k \<notin> snd ` set rest" by force
  with IH \<open>k \<noteq> trust\<close> k1 have "TL' k = Some (ModuleA (spec_module trust spec b))"
    by (simp add: registered_def)
  moreover have "\<forall>j. j \<noteq> trust \<longrightarrow> j \<notin> snd ` set ((spec, k) # rest) \<longrightarrow> TL' j = TL j"
    using IH TL1 by (simp add: registered_def)
  ultimately show ?case
    using IH n new k \<open>k \<notin> snd ` set rest\<close> unfolding registered_def by fastforce
qed

text \<open>Replaying the edges: the TRUST and its modules stay, and each edge account holds the edge.\<close>

lemma set_module_acl_effect:
  "trust_set_module_acl P trust src tgt ek a tid flags L = Inr (L', ev) \<Longrightarrow>
   \<exists>e sm. L' = L(ek \<mapsto> AclEdgeA e) \<and> (L ek = None \<or> (\<exists>e0. L ek = Some (AclEdgeA e0))) \<and>
     L src = Some (ModuleA sm) \<and> e_trust e = trust \<and> e_source_module_id e = m_module_id sm \<and>
     e_target_module_id e = tid \<and> e_flags e = flags"
  by (auto simp: trust_set_module_acl_def trust_accounts_defs res)

definition edge_at :: "pubkey \<Rightarrow> AclEdgeSpec \<Rightarrow> trust_store \<Rightarrow> pubkey \<Rightarrow> bool" where
  "edge_at trust s L k \<longleftrightarrow> (\<exists>e. L k = Some (AclEdgeA e) \<and> e_trust e = trust \<and>
     e_source_module_id e = ae_source_module_id s \<and> e_target_module_id e = ae_target_module_id s \<and>
     e_flags e = ae_flags s)"

lemma position_Some: "position p xs = Some i \<Longrightarrow> i < length xs \<and> p (xs ! i)"
  by (induction p xs arbitrary: i rule: position.induct) (auto split: if_splits)

lemma position_None: "position p xs = None \<longleftrightarrow> (\<forall>x\<in>set xs. \<not> p x)"
  by (induction p xs rule: position.induct) auto

lemma replay_edges_ok:
  assumes "replay_edges P trust a modules accounts pairs TL = Inr TL'"
    and "\<And>i. i < length modules \<Longrightarrow> \<exists>b. TL (accounts ! i) = Some (ModuleA (spec_module trust (modules ! i) b))"
    and "distinct (map snd pairs)"
  shows "(\<forall>k x. TL k = Some (ModuleA x) \<longrightarrow> TL' k = Some (ModuleA x)) \<and>
    (\<forall>k x. TL k = Some (TrustA x) \<longrightarrow> TL' k = Some (TrustA x)) \<and>
    (\<forall>k. k \<notin> snd ` set pairs \<longrightarrow> TL' k = TL k) \<and> (\<forall>(s, k)\<in>set pairs. edge_at trust s TL' k)"
  using assms
proof (induction pairs arbitrary: TL)
  case Nil
  then show ?case by simp
next
  case (Cons p rest)
  obtain s ek where p: "p = (s, ek)" by fastforce
  from Cons(2) obtain i j TL1 ev where
    i: "position (\<lambda>m. ms_module_id m = ae_source_module_id s) modules = Some i" and
    set: "trust_set_module_acl P trust (accounts ! i) (accounts ! j) ek a (ae_target_module_id s)
      (ae_flags s) TL = Inr (TL1, ev)" and
    rest: "replay_edges P trust a modules accounts rest TL1 = Inr TL'"
    by (auto simp: res p)
  from set_module_acl_effect [OF set] obtain e sm where
    TL1: "TL1 = TL(ek \<mapsto> AclEdgeA e)" and ek: "TL ek = None \<or> (\<exists>e0. TL ek = Some (AclEdgeA e0))" and
    sm: "TL (accounts ! i) = Some (ModuleA sm)" and
    e: "e_trust e = trust" "e_source_module_id e = m_module_id sm"
      "e_target_module_id e = ae_target_module_id s" "e_flags e = ae_flags s" by blast
  have "m_module_id sm = ae_source_module_id s"
    using position_Some [OF i] Cons(3) [of i] sm by (auto simp: spec_module_def)
  with e TL1 have at: "edge_at trust s TL1 ek" by (simp add: edge_at_def)
  have keep: "TL1 k = Some (ModuleA x)" if "TL k = Some (ModuleA x)" for k x
    using that ek by (auto simp: TL1)
  have keep': "TL1 k = Some (TrustA x)" if "TL k = Some (TrustA x)" for k x
    using that ek by (auto simp: TL1)
  from keep have "\<exists>b. TL1 (accounts ! i) = Some (ModuleA (spec_module trust (modules ! i) b))"
    if "i < length modules" for i using Cons(3) [OF that] by blast
  from Cons(1) [OF rest this] Cons(4)
  have IH: "(\<forall>k x. TL1 k = Some (ModuleA x) \<longrightarrow> TL' k = Some (ModuleA x)) \<and>
    (\<forall>k x. TL1 k = Some (TrustA x) \<longrightarrow> TL' k = Some (TrustA x)) \<and>
    (\<forall>k. k \<notin> snd ` set rest \<longrightarrow> TL' k = TL1 k) \<and> (\<forall>(s, k)\<in>set rest. edge_at trust s TL' k)" by simp
  have "ek \<notin> snd ` set rest" using Cons(4) p by simp
  with IH at have "edge_at trust s TL' ek" by (simp add: edge_at_def)
  moreover have "\<forall>k. k \<notin> snd ` set (p # rest) \<longrightarrow> TL' k = TL k" using IH by (simp add: p TL1)
  ultimately show ?case using IH keep keep' p by simp
qed

text \<open>The template check is the graph condition.\<close>

definition template_ok :: "ModuleSpec list \<Rightarrow> AclEdgeSpec list \<Rightarrow> bool" where
  "template_ok modules edges \<longleftrightarrow> distinct (map ms_module_id modules) \<and>
     (\<forall>m\<in>set modules. 0 < ms_implementation_version m) \<and>
     (\<forall>e\<in>set edges. ae_source_module_id e \<in> ms_module_id ` set modules \<and>
        ae_target_module_id e \<in> ms_module_id ` set modules)"

lemma validate_modules_Inr:
  "validate_modules prev ms = Inr u \<longleftrightarrow> (\<forall>m\<in>set ms. 0 < ms_implementation_version m) \<and>
     distinct (map ms_module_id ms) \<and> ms_module_id ` set prev \<inter> ms_module_id ` set ms = {}"
proof (induction prev ms rule: validate_modules.induct)
  case (2 prev m ms)
  have "(\<forall>p\<in>set prev. ms_module_id p \<noteq> ms_module_id m) \<longleftrightarrow> ms_module_id m \<notin> ms_module_id ` set prev"
    by (metis image_iff)
  with 2 show ?case by (auto simp: res)
qed simp

lemma validate_edges_Inr:
  "validate_edges modules es = Inr u \<longleftrightarrow> (\<forall>e\<in>set es. ae_source_module_id e \<in> ms_module_id ` set modules \<and>
     ae_target_module_id e \<in> ms_module_id ` set modules)"
  by (induction modules es rule: validate_edges.induct) (auto simp: res intro: rev_image_eqI)

lemma validate_template_graph_Inr [res]:
  "validate_template_graph modules es = Inr u \<longleftrightarrow> template_ok modules es"
  by (auto simp: validate_template_graph_def template_ok_def res validate_modules_Inr validate_edges_Inr)

lemma validate_implementations_Inr:
  "validate_implementations P TL pairs = Inr u \<longleftrightarrow>
     (\<forall>(s, k)\<in>set pairs. validate_implementation_account P TL s k = Inr ())"
  by (induction P TL pairs rule: validate_implementations.induct) (auto simp: res)

lemma validate_implementation_account_ok:
  "validate_implementation_account P TL s k = Inr u \<Longrightarrow>
   \<exists>i. TL k = Some (ImplementationA i) \<and> i_active i \<and> i_provider i = ms_provider s \<and>
     i_module_id i = ms_module_id s \<and> i_implementation_program_id i = ms_program_id s \<and>
     i_version i = ms_implementation_version s \<and> i_metadata_hash i = ms_implementation_metadata_hash s"
  by (auto simp: validate_implementation_account_def res)

section \<open>Runs of the template registry\<close>

inductive factory_step :: "pda_sdk \<Rightarrow> template_store \<Rightarrow> template_store \<Rightarrow> bool" for P where
  register: "factory_register_template P k admin tid modules edges L = Inr (L', ev) \<Longrightarrow> factory_step P L L'"

definition factory_inv :: "template_store \<Rightarrow> bool" where
  "factory_inv L \<longleftrightarrow> (\<forall>k tp. L k = Some tp \<longrightarrow> tp_modules tp \<noteq> [] \<and> length (tp_modules tp) \<le> 16 \<and>
     length (tp_acl_edges tp) \<le> 64 \<and> template_ok (tp_modules tp) (tp_acl_edges tp))"

interpretation factory_run: kept_by_steps "factory_step P" factory_inv for P
proof unfold_locales
  show "factory_inv L'" if "factory_step P L L'" "factory_inv L" for L L'
    using that
    by cases (auto simp: factory_register_template_def RegisterTemplate_accounts_def res factory_inv_def
        split: if_splits)
qed

text \<open>A template that passed the registry's check has a position for both ends of every edge.\<close>

lemma replay_edges_known:
  assumes "\<forall>(s, k)\<in>set pairs. ae_source_module_id s \<in> ms_module_id ` set modules \<and>
    ae_target_module_id s \<in> ms_module_id ` set modules"
    and "replay_edges P trust a modules accounts pairs TL = Inl f"
  shows "\<exists>e. f = TrustFault e"
  using assms
proof (induction pairs arbitrary: TL)
  case (Cons p rest)
  obtain s k where p: "p = (s, k)" by fastforce
  with Cons(2) have "position (\<lambda>m. ms_module_id m = ae_source_module_id s) modules \<noteq> None"
    "position (\<lambda>m. ms_module_id m = ae_target_module_id s) modules \<noteq> None"
    by (auto simp: position_None)
  with Cons p show ?case by (auto simp: res)
qed simp

lemma register_modules_fault:
  "register_modules P trust a pairs TL = Inl f \<Longrightarrow> \<exists>e. f = TrustFault e"
  by (induction P trust a pairs TL rule: register_modules.induct) (auto simp: res)

section \<open>The full spawn\<close>

text \<open>The runtime's raw view of a configuration account: owned by \<open>aeqi_trust\<close>, an eight-byte
  discriminator, the Borsh encoding of the fields, and whatever is left of the account.\<close>

definition raw_law :: "(trust_store \<Rightarrow> pubkey \<Rightarrow> pubkey \<times> u8 list) \<Rightarrow> bool" where
  "raw_law raw \<longleftrightarrow> (\<forall>TL k c. TL k = Some (BytesConfigA c) \<longrightarrow>
     (\<exists>disc rest. length disc = 8 \<and> raw TL k = (AEQI_TRUST_ID, bytes_config_data disc c rest)))"

lemma raw_decode:
  assumes "raw_law raw" and "TL k = Some (BytesConfigA c)" and "length (bc_value c) < 2 ^ 32"
  shows "decode_bytes_config_account (snd (raw TL k)) =
    Inr \<lparr>bd_trust = bc_trust c, bd_key = bc_key c, bd_value = bc_value c, bd_bump = bc_bump c\<rparr>"
    and "fst (raw TL k) = AEQI_TRUST_ID"
proof -
  from assms(1,2) obtain disc rest where
    "length disc = 8" "raw TL k = (AEQI_TRUST_ID, bytes_config_data disc c rest)"
    unfolding raw_law_def by blast
  then show "decode_bytes_config_account (snd (raw TL k)) =
      Inr \<lparr>bd_trust = bc_trust c, bd_key = bc_key c, bd_value = bc_value c, bd_bump = bc_bump c\<rparr>"
    and "fst (raw TL k) = AEQI_TRUST_ID"
    using decode_encode_bytes_config assms(3) by simp_all
qed

lemma token_init_config_bytes_length [simp]: "length (token_init_config_bytes d c) = 9"
  by (simp add: token_init_config_bytes_def encode_token_init_config_def)

lemma decode_token_init_config_bytes [simp]:
  "decode_token_init_config (token_init_config_bytes d c) = Some \<lparr>ti_decimals = d, ti_max_supply_cap = c\<rparr>"
  by (simp add: token_init_config_bytes_def decode_encode_token_init)

lemma set_bytes_config_effect:
  "trust_set_bytes_config P trust ck sm a key v L = Inr (L', ev) \<Longrightarrow>
   \<exists>c t. L' = L(ck \<mapsto> BytesConfigA c) \<and> bc_trust c = trust \<and> bc_key c = key \<and> bc_value c = v \<and>
     L trust = Some (TrustA t) \<and> (L ck = None \<or> (\<exists>c0. L ck = Some (BytesConfigA c0)))"
  by (auto simp: trust_set_bytes_config_def trust_accounts_defs res)

lemma token_finalize_config:
  assumes "raw_law raw" and "TL k = Some (BytesConfigA c)"
    and "bc_value c = token_init_config_bytes d cap"
    and "token_finalize P (raw TL) trust ms k K = Inr K'"
  shows "\<exists>m. K ms = Some m \<and> K' = K(ms \<mapsto> m\<lparr>tm_decimals := d, tm_max_supply_cap := cap, tm_initialized := 2\<rparr>)"
proof -
  have "length (bc_value c) < 2 ^ 32" using assms(3) by simp
  from raw_decode [of raw TL k c, OF assms(1,2) this] token_finalize_ok [OF assms(4)] assms(3) show ?thesis
    by auto
qed

text \<open>The module account that one registration of the full spawn leaves.\<close>

definition spawned_module :: "trust_store \<Rightarrow> pubkey \<Rightarrow> pubkey \<Rightarrow> bytes32 \<Rightarrow> pubkey \<Rightarrow> u64 \<Rightarrow> bool" where
  "spawned_module TL trust k module_id program acl \<longleftrightarrow>
     (\<exists>m. TL k = Some (ModuleA m) \<and> m_trust m = trust \<and> m_module_id m = module_id \<and>
        m_program_id m = program \<and> m_provider m = program \<and> m_implementation_version m = 1 \<and>
        m_trust_acl m = acl)"

lemma register_one_ok:
  assumes "register_one P trust k a mid prog acl TL = Inr TL'" and "TL trust = Some (TrustA t)"
  obtains n m where "TL k = None" "\<not> t_paused t" "unat n = unat (t_module_count t) + 1"
    "TL' = TL(trust \<mapsto> TrustA (t\<lparr>t_module_count := n\<rparr>), k \<mapsto> ModuleA m)"
    "spawned_module TL' trust k mid prog acl" "TL' trust = Some (TrustA (t\<lparr>t_module_count := n\<rparr>))"
proof -
  from assms(1) obtain ev where
    "trust_register_module P trust k a mid prog prog 1 0 acl TL = Inr (TL', ev)"
    by (auto simp: register_one_def res)
  from trust_register_module_ok [OF this] assms(2) show thesis
    by (elim exE conjE) (rule that, auto simp: spawned_module_def)
qed

lemma spawned_module_write:
  "spawned_module TL trust k mid prog acl \<Longrightarrow> j \<noteq> k \<Longrightarrow> spawned_module (TL(j \<mapsto> b)) trust k mid prog acl"
  by (auto simp: spawned_module_def)

lemma spawned_module_used: "spawned_module TL trust k mid prog acl \<Longrightarrow> \<exists>m. TL k = Some (ModuleA m)"
  by (auto simp: spawned_module_def)

section \<open>Properties\<close>

text \<open>
  C3. The full spawn delivers a live company: after a successful \<open>create_company_full\<close> the TRUST
  has left creation mode under the caller's authority with exactly three modules, the role,
  token and governance programs are registered under the given ids and ACLs, each has its
  module state, and the token module is finalized with the given decimals and supply cap,
  which it has read back from the raw bytes of the configuration written in the same
  transaction.
\<close>

theorem create_company_full_delivers:
  assumes "raw_law raw"
    and "factory_create_company_full P raw x tid rid kid gid ra ka ga d cap W = Inr (W', ev)"
  shows "(\<exists>t. co_trust W' (cf_trust x) = Some (TrustA t) \<and> t_authority t = cf_authority x \<and>
      \<not> t_creation_mode t \<and> \<not> t_paused t \<and> unat (t_module_count t) = 3) \<and>
    spawned_module (co_trust W') (cf_trust x) (cf_role_module x) rid AEQI_ROLE_ID ra \<and>
    spawned_module (co_trust W') (cf_trust x) (cf_token_module x) kid TOKEN_ID ka \<and>
    spawned_module (co_trust W') (cf_trust x) (cf_gov_module x) gid AEQI_GOVERNANCE_ID ga \<and>
    (\<exists>r. co_role W' (cf_role_module_state x) = Some r) \<and>
    (\<exists>g. co_gov W' (cf_gov_module_state x) = Some g) \<and>
    (\<exists>m. co_token W' (cf_token_module_state x) = Some m \<and> tm_trust m = cf_trust x \<and>
       tm_initialized m = 2 \<and> tm_decimals m = d \<and> tm_max_supply_cap m = cap \<and> tm_mint m = 0)"
proof -
  let ?tr = "cf_trust x" and ?a = "cf_authority x"
  from assms(2) obtain T1 e1 T2 T3 T4 R1 e2 K1 e3 G1 e4 T5 e5 e6 R2 K2 e7 G2 e8 T6 where
    i: "trust_initialize P ?tr ?a tid (co_trust W) = Inr (T1, e1)" and
    r1: "register_one P ?tr (cf_role_module x) ?a rid AEQI_ROLE_ID ra T1 = Inr T2" and
    r2: "register_one P ?tr (cf_token_module x) ?a kid TOKEN_ID ka T2 = Inr T3" and
    r3: "register_one P ?tr (cf_gov_module x) ?a gid AEQI_GOVERNANCE_ID ga T3 = Inr T4" and
    ri: "role_init P T4 ?tr (cf_role_module_state x) ?a (co_role W) = Inr (R1, e2)" and
    ki: "token_init P T4 ?tr (cf_token_module_state x) ?a (co_token W) = Inr (K1, e3)" and
    gi: "gov_init P T4 ?tr (cf_gov_module_state x) ?a (co_gov W) = Inr (G1, e4)" and
    sc: "trust_set_bytes_config P ?tr (cf_token_bytes_config x) None ?a TOKEN_CONFIG_KEY
      (token_init_config_bytes d cap) T4 = Inr (T5, e5)" and
    rf: "role_finalize P ?tr (cf_role_module_state x) R1 = Inr (R2, e6)" and
    kf: "token_finalize P (raw T5) ?tr (cf_token_module_state x) (cf_token_bytes_config x) K1 = Inr K2" and
    gf: "gov_finalize G1 = Inr (G2, e7)" and
    tf: "trust_finalize P ?tr ?a T5 = Inr (T6, e8)" and
    W': "\<lparr>co_trust = T6, co_role = R2, co_token = K2, co_gov = G2\<rparr> = W'"
    unfolding factory_create_company_full_def Let_def rbind_Inr map_error_Inr split_paired_Ex prod.case
      sum.inject prod.inject by blast
  from trust_initialize_ok [OF i] obtain t0 where
    t0: "T1 ?tr = Some (TrustA t0)" "t_module_count t0 = 0" "t_authority t0 = ?a" by fastforce
  obtain n1 m1 where s1: "T1 (cf_role_module x) = None" "\<not> t_paused t0" "unat n1 = 0 + 1"
      "T2 = T1(?tr \<mapsto> TrustA (t0\<lparr>t_module_count := n1\<rparr>), cf_role_module x \<mapsto> ModuleA m1)"
      "spawned_module T2 ?tr (cf_role_module x) rid AEQI_ROLE_ID ra"
    and t1: "T2 ?tr = Some (TrustA (t0\<lparr>t_module_count := n1\<rparr>))"
    using t0(2) by (auto intro: register_one_ok [OF r1 t0(1)])
  obtain n2 m2 where s2: "T2 (cf_token_module x) = None" "unat n2 = unat n1 + 1"
      "T3 = T2(?tr \<mapsto> TrustA (t0\<lparr>t_module_count := n2\<rparr>), cf_token_module x \<mapsto> ModuleA m2)"
      "spawned_module T3 ?tr (cf_token_module x) kid TOKEN_ID ka"
    and t2: "T3 ?tr = Some (TrustA (t0\<lparr>t_module_count := n2\<rparr>))"
    by (rule register_one_ok [OF r2 t1]) simp
  obtain n3 m3 where s3: "T3 (cf_gov_module x) = None" "unat n3 = unat n2 + 1"
      "T4 = T3(?tr \<mapsto> TrustA (t0\<lparr>t_module_count := n3\<rparr>), cf_gov_module x \<mapsto> ModuleA m3)"
      "spawned_module T4 ?tr (cf_gov_module x) gid AEQI_GOVERNANCE_ID ga"
    and t3: "T4 ?tr = Some (TrustA (t0\<lparr>t_module_count := n3\<rparr>))"
    by (rule register_one_ok [OF r3 t2]) simp
  from set_bytes_config_effect [OF sc] obtain c where
    c: "T5 = T4(cf_token_bytes_config x \<mapsto> BytesConfigA c)" "bc_value c = token_init_config_bytes d cap"
      "T4 (cf_token_bytes_config x) = None \<or> (\<exists>c0. T4 (cf_token_bytes_config x) = Some (BytesConfigA c0))"
    by blast
  have t5: "T5 ?tr = Some (TrustA (t0\<lparr>t_module_count := n3\<rparr>))" using c t3 by auto
  with trust_finalize_ok [OF tf] have
    t6: "T6 = T5(?tr \<mapsto> TrustA (t0\<lparr>t_module_count := n3, t_creation_mode := False\<rparr>))" by auto
  have keep: "spawned_module T6 ?tr k mid pr acl" if "spawned_module T4 ?tr k mid pr acl" for k mid pr acl
    using spawned_module_used [OF that] that t3 c t6 by (auto intro!: spawned_module_write)
  have m1: "spawned_module T3 ?tr (cf_role_module x) rid AEQI_ROLE_ID ra"
    using s1(5) s2(1,3) t1 spawned_module_used [OF s1(5)] by (auto intro!: spawned_module_write)
  then have "spawned_module T4 ?tr (cf_role_module x) rid AEQI_ROLE_ID ra"
    using s3(1,3) t2 spawned_module_used [OF m1] by (auto intro!: spawned_module_write)
  moreover have "spawned_module T4 ?tr (cf_token_module x) kid TOKEN_ID ka"
    using s2(4) s3(1,3) t2 spawned_module_used [OF s2(4)] by (auto intro!: spawned_module_write)
  moreover have "R2 = R1" "G2 = G1" using rf gf by (auto simp: role_finalize_def gov_finalize_def res)
  moreover have "T5 (cf_token_bytes_config x) = Some (BytesConfigA c)" by (simp add: c)
  from token_finalize_config [of raw T5 "cf_token_bytes_config x" c, OF assms(1) this c(2) kf] token_init_ok [OF ki] obtain m where
    "K2 (cf_token_module_state x) = Some m" "tm_trust m = ?tr" "tm_initialized m = 2"
    "tm_decimals m = d" "tm_max_supply_cap m = cap" "tm_mint m = 0" by fastforce
  ultimately show ?thesis
    using keep s1(2,3) s2(2) s3 t6 t0 W' [symmetric] role_init_ok [OF ri] gov_init_ok [OF gi] by auto
qed

lemma seeds_ok_canonical: "pda_law P \<Longrightarrow> find_program_address P s g = (k, b) \<Longrightarrow> seeds_ok P s b g k"
  by (simp add: pda_law_def seeds_ok_def)

lemma full_spawn_total:
  assumes "pda_law P" and "raw_law raw"
    and "find_program_address P [Lit ''trust'', B32 tid] AEQI_TRUST_ID = (cf_trust x, b0)"
    and "find_program_address P [Lit ''module'', B32 (cf_trust x), B32 rid] AEQI_TRUST_ID = (cf_role_module x, b1)"
    and "find_program_address P [Lit ''module'', B32 (cf_trust x), B32 kid] AEQI_TRUST_ID = (cf_token_module x, b2)"
    and "find_program_address P [Lit ''module'', B32 (cf_trust x), B32 gid] AEQI_TRUST_ID = (cf_gov_module x, b3)"
    and "find_program_address P [Lit ''cfg_bytes'', B32 (cf_trust x), B32 TOKEN_CONFIG_KEY] AEQI_TRUST_ID =
      (cf_token_bytes_config x, b4)"
    and "find_program_address P [Lit ''role_module'', B32 (cf_trust x)] AEQI_ROLE_ID = (cf_role_module_state x, b5)"
    and "find_program_address P (token_module_seeds (cf_trust x)) TOKEN_ID = (cf_token_module_state x, b6)"
    and "find_program_address P [Lit ''gov_module'', B32 (cf_trust x)] AEQI_GOVERNANCE_ID = (cf_gov_module_state x, b7)"
    and "\<forall>k\<in>{cf_trust x, cf_role_module x, cf_token_module x, cf_gov_module x, cf_token_bytes_config x}.
      co_trust W k = None"
    and "co_role W (cf_role_module_state x) = None" "co_token W (cf_token_module_state x) = None"
      "co_gov W (cf_gov_module_state x) = None"
    and "distinct [cf_trust x, cf_role_module x, cf_token_module x, cf_gov_module x, cf_token_bytes_config x]"
  shows "\<exists>r. factory_create_company_full P raw x tid rid kid gid ra ka ga d cap W = Inr r"
proof -
  let ?c = "\<lparr>bc_trust = cf_trust x, bc_key = TOKEN_CONFIG_KEY, bc_value = token_init_config_bytes d cap,
    bc_bump = b4\<rparr>"
  have raw: "TL (cf_token_bytes_config x) = Some (BytesConfigA ?c) \<Longrightarrow>
      decode_bytes_config_account (snd (raw TL (cf_token_bytes_config x))) =
        Inr \<lparr>bd_trust = cf_trust x, bd_key = TOKEN_CONFIG_KEY, bd_value = token_init_config_bytes d cap,
          bd_bump = b4\<rparr> \<and> fst (raw TL (cf_token_bytes_config x)) = AEQI_TRUST_ID" for TL
    using raw_decode [of raw TL "cf_token_bytes_config x" ?c] assms(2) by simp
  note canon = seeds_ok_canonical [OF assms(1)]
  show ?thesis
    using assms(3-) canon [OF assms(3)] canon [OF assms(8)] canon [OF assms(9)]
    by (auto simp: factory_create_company_full_def register_one_def Let_def trust_initialize_def
      trust_register_module_def role_init_def token_init_def gov_init_def trust_set_bytes_config_def
      role_finalize_def token_finalize_def gov_finalize_def trust_finalize_def trust_accounts_defs
      role_accounts_defs gov_accounts_defs token_accounts_defs token_module_account_def
      init_account_def canonical_def init_if_needed_def load_def trust_account_def
      bump_module_count_def checked_add_def gate_config_write_def MAX_BYTES_CONFIG_def raw
      optional_module_def)
qed

text \<open>
  C14. The full spawn goes through: with the canonical addresses, none of them in use and the
  TRUST's five different from each other, \<open>create_company_full\<close> succeeds for every caller, id,
  ACL, decimals and cap.
\<close>

theorem create_company_full_succeeds:
  assumes "pda_law P" and "raw_law raw"
    and "find_program_address P [Lit ''trust'', B32 tid] AEQI_TRUST_ID = (cf_trust x, b0)"
    and "find_program_address P [Lit ''module'', B32 (cf_trust x), B32 rid] AEQI_TRUST_ID = (cf_role_module x, b1)"
    and "find_program_address P [Lit ''module'', B32 (cf_trust x), B32 kid] AEQI_TRUST_ID = (cf_token_module x, b2)"
    and "find_program_address P [Lit ''module'', B32 (cf_trust x), B32 gid] AEQI_TRUST_ID = (cf_gov_module x, b3)"
    and "find_program_address P [Lit ''cfg_bytes'', B32 (cf_trust x), B32 TOKEN_CONFIG_KEY] AEQI_TRUST_ID =
      (cf_token_bytes_config x, b4)"
    and "find_program_address P [Lit ''role_module'', B32 (cf_trust x)] AEQI_ROLE_ID = (cf_role_module_state x, b5)"
    and "find_program_address P (token_module_seeds (cf_trust x)) TOKEN_ID = (cf_token_module_state x, b6)"
    and "find_program_address P [Lit ''gov_module'', B32 (cf_trust x)] AEQI_GOVERNANCE_ID = (cf_gov_module_state x, b7)"
    and "\<forall>k\<in>{cf_trust x, cf_role_module x, cf_token_module x, cf_gov_module x, cf_token_bytes_config x}.
      co_trust W k = None"
    and "co_role W (cf_role_module_state x) = None" "co_token W (cf_token_module_state x) = None"
      "co_gov W (cf_gov_module_state x) = None"
    and "distinct [cf_trust x, cf_role_module x, cf_token_module x, cf_gov_module x, cf_token_bytes_config x]"
  shows "\<exists>r. factory_create_company_full P raw x tid rid kid gid ra ka ga d cap W = Inr r"
  by (rule full_spawn_total [OF assms])

text \<open>Instantiating a template replays it: every module's published implementation was active
  and matched its spec, the TRUST is fresh, belongs to the caller and is still in creation
  mode, its counter is the number of modules, each module account holds exactly its spec, and,
  when the edge accounts are distinct, each of them holds exactly its edge.
\<close>

theorem instantiate_template_replays:
  assumes "factory_instantiate_template P L template trust a accounts trust_id TL = Inr (TL', ev)"
    and "L template = Some tp" and "n = length (tp_modules tp)"
    and "distinct (drop (2 * n) accounts)"
  shows "(\<exists>t. TL' trust = Some (TrustA t) \<and> t_authority t = a \<and> t_creation_mode t \<and> \<not> t_paused t \<and>
      unat (t_module_count t) = n) \<and>
    (\<forall>i<n. (\<exists>im. TL (accounts ! (n + i)) = Some (ImplementationA im) \<and> i_active im \<and>
        i_implementation_program_id im = ms_program_id (tp_modules tp ! i) \<and>
        i_version im = ms_implementation_version (tp_modules tp ! i)) \<and>
      (\<exists>b. TL' (accounts ! i) = Some (ModuleA (spec_module trust (tp_modules tp ! i) b)))) \<and>
    (\<forall>i<length (tp_acl_edges tp). edge_at trust (tp_acl_edges tp ! i) TL' (accounts ! (2 * n + i)))"
proof -
  let ?ms = "take n accounts" and ?is = "slice n (n * 2) accounts" and ?es = "drop (n * 2) accounts"
  from assms(1,2,3) obtain TL1 TL2 ev1 where
    len: "length accounts = n * 2 + length (tp_acl_edges tp)" and
    imp: "validate_implementations P TL (zip (tp_modules tp) ?is) = Inr ()" and
    ini: "trust_initialize P trust a trust_id TL = Inr (TL1, ev1)" and
    reg: "register_modules P trust a (zip (tp_modules tp) ?ms) TL1 = Inr TL2" and
    rep: "replay_edges P trust a (tp_modules tp) ?ms (zip (tp_acl_edges tp) ?es) TL2 = Inr TL'"
    by (auto simp: factory_instantiate_template_def InstantiateTemplate_accounts_def res Let_def)
  from trust_initialize_ok [OF ini] obtain t where
    t: "TL1 trust = Some (TrustA t)" "t_authority t = a" "t_creation_mode t" "\<not> t_paused t"
      "t_module_count t = 0" by fastforce
  from register_modules_ok [OF reg t(1)] assms(3) len t(5) obtain c where
    c: "TL2 trust = Some (TrustA (t\<lparr>t_module_count := c\<rparr>))" "unat c = n"
    by (auto simp: registered_def)
  have mods: "\<exists>b. TL2 (?ms ! i) = Some (ModuleA (spec_module trust (tp_modules tp ! i) b))" if "i < n" for i
  proof -
    have "(tp_modules tp ! i, ?ms ! i) \<in> set (zip (tp_modules tp) ?ms)"
      using that assms(3) len by (auto simp: set_zip)
    with register_modules_ok [OF reg t(1)] show ?thesis by (auto simp: registered_def)
  qed
  have "distinct (map snd (zip (tp_acl_edges tp) ?es))" using assms(4) len by (simp add: mult.commute)
  from replay_edges_ok [OF rep _ this] mods assms(3) have
    fin: "\<forall>k x. TL2 k = Some (ModuleA x) \<longrightarrow> TL' k = Some (ModuleA x)"
      "\<forall>k x. TL2 k = Some (TrustA x) \<longrightarrow> TL' k = Some (TrustA x)"
      "\<forall>(s, k)\<in>set (zip (tp_acl_edges tp) ?es). edge_at trust s TL' k" by blast+
  have "edge_at trust (tp_acl_edges tp ! i) TL' (accounts ! (2 * n + i))"
    if "i < length (tp_acl_edges tp)" for i
  proof -
    have "(tp_acl_edges tp ! i, ?es ! i) \<in> set (zip (tp_acl_edges tp) ?es)"
      using that len by (auto simp: set_zip)
    with fin(3) len that show ?thesis by (auto simp: mult.commute)
  qed
  moreover have "\<exists>im. TL (accounts ! (n + i)) = Some (ImplementationA im) \<and> i_active im \<and>
      i_implementation_program_id im = ms_program_id (tp_modules tp ! i) \<and>
      i_version im = ms_implementation_version (tp_modules tp ! i)" if "i < n" for i
  proof -
    have "(tp_modules tp ! i, accounts ! (n + i)) \<in> set (zip (tp_modules tp) ?is)"
      using that assms(3) len by (auto simp: set_zip slice_def intro!: exI [of _ i])
    with imp show ?thesis
      by (auto simp: validate_implementations_Inr dest!: validate_implementation_account_ok)
  qed
  moreover have "\<exists>b. TL' (accounts ! i) = Some (ModuleA (spec_module trust (tp_modules tp ! i) b))"
    if "i < n" for i using mods [OF that] fin(1) that by auto
  ultimately show ?thesis using c t fin(2) by auto
qed

text \<open>Registered templates are closed: whatever registered a template, instantiating it never
  fails because an edge names an unknown module, and never because the module set is empty.
\<close>

theorem registered_template_closed:
  assumes "(factory_step P)\<^sup>*\<^sup>* Map.empty L" and "L template = Some tp"
    and "factory_instantiate_template P L template trust a accounts trust_id TL = Inl f"
  shows "f \<noteq> FactoryFault (Prog UnknownAclModuleReference) \<and> f \<noteq> FactoryFault (Prog EmptyModuleSet)"
proof -
  have "factory_inv Map.empty" by (simp add: factory_inv_def)
  from factory_run.run_keeps [OF assms(1) this] assms(2)
  have ok: "tp_modules tp \<noteq> []" "template_ok (tp_modules tp) (tp_acl_edges tp)"
    by (auto simp: factory_inv_def)
  have known: "\<forall>(s, k)\<in>set (zip (tp_acl_edges tp) ks). ae_source_module_id s \<in> ms_module_id ` set (tp_modules tp) \<and>
      ae_target_module_id s \<in> ms_module_id ` set (tp_modules tp)" for ks :: "pubkey list"
    using ok(2) by (auto simp: template_ok_def dest!: set_zip_leftD)
  have impl: "e \<noteq> Prog UnknownAclModuleReference \<and> e \<noteq> Prog EmptyModuleSet"
    if "validate_implementations P TL pairs = Inl e" for pairs e
    using that
    by (induction P TL pairs rule: validate_implementations.induct)
      (auto simp: res validate_implementation_account_def load_def split: option.splits if_splits)
  from assms(3) ok(1) show ?thesis
    by (auto simp: factory_instantiate_template_def InstantiateTemplate_accounts_def res Let_def load_def
        assms(2) split: if_splits dest: impl register_modules_fault replay_edges_known [OF known])
qed

section \<open>Concrete companies\<close>

definition demo_view :: "trust_store \<Rightarrow> pubkey \<Rightarrow> pubkey \<times> u8 list" where
  "demo_view TL k = (AEQI_TRUST_ID, case TL k of Some (BytesConfigA c) \<Rightarrow>
     bytes_config_data (replicate 8 0) c [] | _ \<Rightarrow> [])"

lemma demo_view_law: "raw_law demo_view"
  unfolding raw_law_def demo_view_def
proof (intro allI impI)
  fix TL :: trust_store and k c
  assume "TL k = Some (BytesConfigA c)"
  then show "\<exists>disc rest. length disc = 8 \<and> (AEQI_TRUST_ID, case TL k of Some (BytesConfigA c) \<Rightarrow>
      bytes_config_data (replicate 8 0) c [] | _ \<Rightarrow> []) = (AEQI_TRUST_ID, bytes_config_data disc c rest)"
    by (intro exI [of _ "replicate 8 0"] exI [of _ "[]"]) simp
qed

definition demo_tkey' :: "seed list \<Rightarrow> pubkey" where
  "demo_tkey' s = demo_addr s AEQI_TRUST_ID"

text \<open>Key 7 spawns TRUST 5 with modules 1, 2 and 3.\<close>

definition demo_full :: CreateCompanyFull where
  "demo_full = \<lparr>cf_trust = demo_trust,
     cf_role_module = demo_tkey' [Lit ''module'', B32 demo_trust, B32 1],
     cf_token_module = demo_tkey' [Lit ''module'', B32 demo_trust, B32 2],
     cf_gov_module = demo_tkey' [Lit ''module'', B32 demo_trust, B32 3],
     cf_role_module_state = demo_addr [Lit ''role_module'', B32 demo_trust] AEQI_ROLE_ID,
     cf_token_module_state = demo_addr (token_module_seeds demo_trust) TOKEN_ID,
     cf_gov_module_state = demo_addr [Lit ''gov_module'', B32 demo_trust] AEQI_GOVERNANCE_ID,
     cf_token_bytes_config = demo_tkey' [Lit ''cfg_bytes'', B32 demo_trust, B32 TOKEN_CONFIG_KEY],
     cf_authority = 7\<rparr>"

definition demo_empty :: company where
  "demo_empty = \<lparr>co_trust = Map.empty, co_role = Map.empty, co_token = Map.empty, co_gov = Map.empty\<rparr>"

lemma demo_full_addresses:
  "find_program_address demo_sdk [Lit ''trust'', B32 5] AEQI_TRUST_ID = (cf_trust demo_full, 255)"
  "find_program_address demo_sdk [Lit ''module'', B32 (cf_trust demo_full), B32 1] AEQI_TRUST_ID = (cf_role_module demo_full, 255)"
  "find_program_address demo_sdk [Lit ''module'', B32 (cf_trust demo_full), B32 2] AEQI_TRUST_ID = (cf_token_module demo_full, 255)"
  "find_program_address demo_sdk [Lit ''module'', B32 (cf_trust demo_full), B32 3] AEQI_TRUST_ID = (cf_gov_module demo_full, 255)"
  "find_program_address demo_sdk [Lit ''cfg_bytes'', B32 (cf_trust demo_full), B32 TOKEN_CONFIG_KEY] AEQI_TRUST_ID = (cf_token_bytes_config demo_full, 255)"
  "find_program_address demo_sdk [Lit ''role_module'', B32 (cf_trust demo_full)] AEQI_ROLE_ID = (cf_role_module_state demo_full, 255)"
  "find_program_address demo_sdk (token_module_seeds (cf_trust demo_full)) TOKEN_ID = (cf_token_module_state demo_full, 255)"
  "find_program_address demo_sdk [Lit ''gov_module'', B32 (cf_trust demo_full)] AEQI_GOVERNANCE_ID = (cf_gov_module_state demo_full, 255)"
  by (simp_all only: demo_sdk_def pda_sdk.simps demo_full_def CreateCompanyFull.simps demo_tkey'_def demo_trust_def)

lemma demo_full_distinct:
  "distinct [cf_trust demo_full, cf_role_module demo_full, cf_token_module demo_full,
     cf_gov_module demo_full, cf_token_bytes_config demo_full]"
  by (simp add: demo_full_def demo_tkey'_def demo_trust_defs TOKEN_CONFIG_KEY_def)

theorem create_company_full_succeeds_witness:
  "\<exists>r. factory_create_company_full demo_sdk demo_view demo_full 5 1 2 3 0 0 0 6 1000 demo_empty = Inr r"
  by (rule create_company_full_succeeds [OF demo_sdk_law demo_view_law demo_full_addresses
      _ _ _ _ demo_full_distinct]) (simp_all add: demo_empty_def)

theorem create_company_full_delivers_witness:
  "\<exists>W' ev m. factory_create_company_full demo_sdk demo_view demo_full 5 1 2 3 0 0 0 6 1000 demo_empty =
     Inr (W', ev) \<and> co_token W' (cf_token_module_state demo_full) = Some m \<and> tm_decimals m = 6 \<and>
     tm_max_supply_cap m = 1000"
proof -
  have "\<exists>r. factory_create_company_full demo_sdk demo_view demo_full 5 1 2 3 0 0 0 6 1000 demo_empty = Inr r"
    by (rule full_spawn_total [OF demo_sdk_law demo_view_law demo_full_addresses
        _ _ _ _ demo_full_distinct]) (simp_all add: demo_empty_def)
  then obtain W' ev where
    r: "factory_create_company_full demo_sdk demo_view demo_full 5 1 2 3 0 0 0 6 1000 demo_empty = Inr (W', ev)"
    by (metis surj_pair)
  from create_company_full_delivers [OF demo_view_law r] r show ?thesis by blast
qed

text \<open>A template of two modules, 9 and 10, with an edge from 9 to 10; both implementations are
  published by provider 20.\<close>

definition demo_spec :: "bytes32 \<Rightarrow> ModuleSpec" where
  "demo_spec i = \<lparr>ms_module_id = i, ms_program_id = 21, ms_provider = 20, ms_implementation_version = 2,
     ms_implementation_metadata_hash = 22, ms_trust_acl = 128\<rparr>"

definition demo_edge :: AclEdgeSpec where
  "demo_edge = \<lparr>ae_source_module_id = 9, ae_target_module_id = 10, ae_flags = 3\<rparr>"

definition demo_template :: Template where
  "demo_template = \<lparr>tp_template_id = 77, tp_admin = 8, tp_modules = [demo_spec 9, demo_spec 10],
     tp_acl_edges = [demo_edge], tp_bump = 255\<rparr>"

definition demo_tpk :: pubkey where
  "demo_tpk = demo_addr [Lit ''template'', B32 77] AEQI_FACTORY_ID"

definition demo_impl_at :: "bytes32 \<Rightarrow> pubkey" where
  "demo_impl_at i = demo_tkey' [Lit ''module_impl'', B32 20, B32 i, Le64 2]"

definition demo_catalogue :: trust_store where
  "demo_catalogue = [demo_impl_at 9 \<mapsto> ImplementationA demo_i,
     demo_impl_at 10 \<mapsto> ImplementationA (demo_i\<lparr>i_module_id := 10\<rparr>)]"

definition demo_accounts :: "pubkey list" where
  "demo_accounts = [demo_tkey' [Lit ''module'', B32 demo_trust, B32 9],
     demo_tkey' [Lit ''module'', B32 demo_trust, B32 10], demo_impl_at 9, demo_impl_at 10,
     demo_tkey' [Lit ''acl_edge'', B32 demo_trust, B32 9, B32 10]]"

lemma demo_template_registered:
  "factory_register_template demo_sdk demo_tpk 8 77 [demo_spec 9, demo_spec 10] [demo_edge] Map.empty =
     Inr ([demo_tpk \<mapsto> demo_template], [TemplateRegistered 77 8 2 1])"
  by (simp add: factory_register_template_def RegisterTemplate_accounts_def init_account_def canonical_def
      demo_sdk_def demo_tpk_def demo_template_def validate_template_graph_def demo_spec_def demo_edge_def)

lemma demo_template_instantiated:
  "\<exists>TL ev. factory_instantiate_template demo_sdk [demo_tpk \<mapsto> demo_template] demo_tpk demo_trust 7
     demo_accounts 5 demo_catalogue = Inr (TL, ev)"
  by (simp add: factory_instantiate_template_def InstantiateTemplate_accounts_def load_def seeds_ok_def
      demo_template_def demo_tpk_def demo_accounts_def demo_catalogue_def demo_impl_at_def demo_tkey'_def
      demo_spec_def demo_edge_def slice_def validate_implementation_account_def
      trust_initialize_def trust_register_module_def trust_set_module_acl_def trust_accounts_defs
      trust_account_def module_account_def init_account_def init_if_needed_def canonical_def
      bump_module_count_def checked_add_def require_def demo_trust_defs AEQI_FACTORY_ID_def Let_def)

theorem instantiate_template_replays_witness:
  "\<exists>TL ev t. factory_instantiate_template demo_sdk [demo_tpk \<mapsto> demo_template] demo_tpk demo_trust 7
     demo_accounts 5 demo_catalogue = Inr (TL, ev) \<and> TL demo_trust = Some (TrustA t) \<and>
     unat (t_module_count t) = 2 \<and> edge_at demo_trust demo_edge TL (demo_accounts ! 4)"
proof -
  obtain TL ev where
    r: "factory_instantiate_template demo_sdk [demo_tpk \<mapsto> demo_template] demo_tpk demo_trust 7
      demo_accounts 5 demo_catalogue = Inr (TL, ev)" using demo_template_instantiated by blast
  from instantiate_template_replays [OF r, of demo_template 2] r show ?thesis
    by (simp add: demo_template_def demo_accounts_def) blast
qed

theorem registered_template_closed_witness:
  "(factory_step demo_sdk)\<^sup>*\<^sup>* Map.empty [demo_tpk \<mapsto> demo_template] \<and>
   (\<exists>f. factory_instantiate_template demo_sdk [demo_tpk \<mapsto> demo_template] demo_tpk demo_trust 7 []
     5 demo_catalogue = Inl f \<and> f \<noteq> FactoryFault (Prog UnknownAclModuleReference))"
proof -
  have s: "(factory_step demo_sdk)\<^sup>*\<^sup>* Map.empty [demo_tpk \<mapsto> demo_template]"
    by (rule r_into_rtranclp, rule factory_step.register [OF demo_template_registered])
  have f: "factory_instantiate_template demo_sdk [demo_tpk \<mapsto> demo_template] demo_tpk demo_trust 7 []
     5 demo_catalogue = Inl (FactoryFault (Prog TemplateAccountCountMismatch))"
    by (simp add: factory_instantiate_template_def InstantiateTemplate_accounts_def load_def seeds_ok_def
        demo_template_def demo_tpk_def demo_sdk_def)
  from registered_template_closed [OF s _ f, of demo_template] s f show ?thesis by simp
qed

end
