(* ===== verification/Rust_Str.thy ===== *)
theory Rust_Str
  imports Main "HOL-Library.Word" "HOL-Library.Sublist" Prelude
begin

text \<open>
  The part of Rust's \<open>str\<close> that the off-chain crates use. A string is its UTF-8 encoding,
  one \<open>char\<close> per byte, as \<open>str\<close> stores it: \<open>len\<close>, \<open>starts_with\<close> and slicing at
  an ASCII separator are byte operations. The section ends with the inverse pair of the decimal
  format \<open>{n:03}\<close> and \<open>parse::<u32>\<close>, and with how \<open>lines\<close> reads back an appended
  line.
\<close>

section \<open>Splitting\<close>

text \<open>\<open>s.split(c)\<close>: the pieces between the separators, at least one.\<close>

fun split :: "char \<Rightarrow> string \<Rightarrow> string list" where
  "split c [] = [[]]"
| "split c (x # xs) =
     (if x = c then [] # split c xs else (x # hd (split c xs)) # tl (split c xs))"

text \<open>\<open>s.rfind(c)\<close> as the slices before and after the last occurrence.\<close>

fun rsplit_once :: "char \<Rightarrow> string \<Rightarrow> (string \<times> string) option" where
  "rsplit_once c [] = None"
| "rsplit_once c (x # xs) =
     (case rsplit_once c xs of
        Some (a, b) \<Rightarrow> Some (x # a, b)
      | None \<Rightarrow> (if x = c then Some ([], xs) else None))"

text \<open>\<open>s.lines()\<close>: pieces ended by \<open>\n\<close> or \<open>\r\n\<close>; a last piece without a
  line end is a line when it is not empty, and keeps its \<open>\r\<close>.\<close>

definition strip_cr :: "string \<Rightarrow> string" where
  "strip_cr s = (if s \<noteq> [] \<and> last s = CHR 0x0D then butlast s else s)"

definition lines :: "string \<Rightarrow> string list" where
  "lines s = (let ps = split CHR 0x0A s in
     map strip_cr (butlast ps) @ (if last ps = [] then [] else [last ps]))"

text \<open>\<open>s.trim()\<close>: the Unicode white space, as UTF-8.\<close>

definition white_space :: "string list" where
  "white_space =
     [[CHR 0x09], [CHR 0x0A], [CHR 0x0B], [CHR 0x0C], [CHR 0x0D], [CHR 0x20],
      [CHR 0xC2, CHR 0x85], [CHR 0xC2, CHR 0xA0], [CHR 0xE1, CHR 0x9A, CHR 0x80]] @
     map (\<lambda>c. [CHR 0xE2, CHR 0x80, c])
       [CHR 0x80, CHR 0x81, CHR 0x82, CHR 0x83, CHR 0x84, CHR 0x85, CHR 0x86, CHR 0x87,
        CHR 0x88, CHR 0x89, CHR 0x8A, CHR 0xA8, CHR 0xA9, CHR 0xAF] @
     [[CHR 0xE2, CHR 0x81, CHR 0x9F], [CHR 0xE3, CHR 0x80, CHR 0x80]]"

fun strip_while :: "nat \<Rightarrow> string list \<Rightarrow> string \<Rightarrow> string" where
  "strip_while 0 ws s = s"
| "strip_while (Suc n) ws s =
     (case find (\<lambda>w. prefix w s) ws of
        Some w \<Rightarrow> strip_while n ws (drop (length w) s)
      | None \<Rightarrow> s)"

text \<open>A byte at least goes with each stripped character, so the length is fuel enough.\<close>

definition trim_start :: "string \<Rightarrow> string" where
  "trim_start s = strip_while (length s) white_space s"

definition trim_end :: "string \<Rightarrow> string" where
  "trim_end s = rev (strip_while (length s) (map rev white_space) (rev s))"

definition trim :: "string \<Rightarrow> string" where
  "trim s = trim_end (trim_start s)"

section \<open>Decimal numbers\<close>

definition digit :: "nat \<Rightarrow> char" where
  "digit n = char_of (48 + n)"

fun show_nat :: "nat \<Rightarrow> string" where
  "show_nat n = (if n < 10 then [digit n] else show_nat (n div 10) @ [digit (n mod 10)])"

declare show_nat.simps [simp del]

text \<open>The format \<open>{n:03}\<close>: at least three digits, padded with zeros.\<close>

definition show_pad3 :: "nat \<Rightarrow> string" where
  "show_pad3 n = replicate (3 - length (show_nat n)) CHR ''0'' @ show_nat n"

definition is_digit :: "char \<Rightarrow> bool" where
  "is_digit c \<longleftrightarrow> 48 \<le> (of_char c :: nat) \<and> (of_char c :: nat) \<le> 57"

definition digits_val :: "string \<Rightarrow> nat" where
  "digits_val s = foldl (\<lambda>a c. 10 * a + ((of_char c :: nat) - 48)) 0 s"

text \<open>\<open>s.parse::<u32>()\<close>: an optional \<open>+\<close>, then digits only, no more than \<open>u32::MAX\<close>.\<close>

definition strip_plus :: "string \<Rightarrow> string" where
  "strip_plus s = (if 1 < length s \<and> hd s = CHR ''+'' then tl s else s)"

definition parse_u32 :: "string \<Rightarrow> u32 option" where
  "parse_u32 s = (let d = strip_plus s in
     if d \<noteq> [] \<and> list_all is_digit d \<and> int (digits_val d) < 4294967296
     then Some (of_nat (digits_val d))
     else None)"

section \<open>Facts about splitting\<close>

lemma split_ne [simp]: "split c s \<noteq> []"
  by (cases s) auto

lemma split_no_sep: "c \<notin> set s \<Longrightarrow> split c s = [s]"
  by (induction s) auto

lemma split_append_sep: "c \<notin> set a \<Longrightarrow> split c (a @ c # b) = a # split c b"
  by (induction a) auto

lemma hd_split: "hd (split c s) = takeWhile (\<lambda>x. x \<noteq> c) s"
  by (induction s) auto

lemma split_snoc_sep: "split c (s @ [c]) = split c s @ [[]]"
  by (induction s) (auto simp: hd_append tl_append split: list.splits)

lemma split_append_line:
  "c \<notin> set l \<Longrightarrow> split c (s @ c # l) = split c s @ [l]"
  by (induction s) (auto simp: split_no_sep hd_append tl_append split: list.splits)

lemma rsplit_once_None: "rsplit_once c s = None \<longleftrightarrow> c \<notin> set s"
  by (induction s) (auto split: option.splits)

lemma rsplit_once_Some:
  "rsplit_once c s = Some (a, b) \<longleftrightarrow> s = a @ c # b \<and> c \<notin> set b"
proof (induction s arbitrary: a b)
  case (Cons x xs)
  show ?case
  proof (cases "rsplit_once c xs")
    case None
    then have "c \<notin> set xs" by (simp add: rsplit_once_None)
    with None show ?thesis by (cases a) auto
  next
    case (Some p)
    obtain d e where p: "p = (d, e)" by (cases p)
    with Some Cons.IH [of d e] have "c \<in> set xs" "rsplit_once c xs = Some (d, e)" by auto
    with Cons.IH show ?thesis by (cases a) (auto simp: p)
  qed
qed simp

text \<open>A line appended with its line end to a text of whole lines is the last line.\<close>

definition whole_lines :: "string \<Rightarrow> bool" where
  "whole_lines s \<longleftrightarrow> s = [] \<or> last s = CHR 0x0A"

lemma whole_lines_append: "whole_lines (s @ l @ [CHR 0x0A])"
  by (simp add: whole_lines_def)

lemma lines_append:
  assumes "whole_lines s" and "CHR 0x0A \<notin> set l" and "l = [] \<or> last l \<noteq> CHR 0x0D"
  shows "lines (s @ l @ [CHR 0x0A]) = lines s @ [l]"
proof (cases "s = []")
  case True
  with assms(2,3) show ?thesis
    using split_append_sep [of "CHR 0x0A" l "[]"] by (auto simp: lines_def strip_cr_def)
next
  case False
  with assms(1) obtain t where s: "s = t @ [CHR 0x0A]"
    unfolding whole_lines_def by (metis append_butlast_last_id)
  have "split CHR 0x0A (s @ l @ [CHR 0x0A]) = split CHR 0x0A t @ [l, []]"
    using split_snoc_sep [of "CHR 0x0A" "t @ CHR 0x0A # l"] split_append_line [OF assms(2)]
    by (simp add: s)
  moreover have "split CHR 0x0A s = split CHR 0x0A t @ [[]]" by (simp add: s split_snoc_sep)
  ultimately show ?thesis using assms(3) by (auto simp: lines_def strip_cr_def butlast_append)
qed

section \<open>Facts about trimming\<close>

lemma strip_while_stop: "find (\<lambda>w. prefix w s) ws = None \<Longrightarrow> strip_while n ws s = s"
  by (cases n) auto

lemma trim_braces:
  assumes "s = CHR ''{'' # t" and "last s = CHR ''}''"
  shows "trim s = s"
proof -
  have "find (\<lambda>w. prefix w s) white_space = None"
    by (simp add: assms(1) white_space_def)
  then have "trim_start s = s" by (simp add: trim_start_def strip_while_stop)
  moreover obtain u where r: "rev s = CHR ''}'' # u"
    using assms by (metis append_butlast_last_id list.distinct(1) rev.simps(2) rev_rev_ident
        rev_append append_Cons append_Nil)
  have "find (\<lambda>w. prefix w (rev s)) (map rev white_space) = None"
    by (simp add: r white_space_def)
  then have "trim_end s = s" by (simp add: trim_end_def strip_while_stop)
  ultimately show ?thesis by (simp add: trim_def)
qed

section \<open>Facts about decimal numbers\<close>

lemma of_char_digit [simp]: "n < 10 \<Longrightarrow> (of_char (digit n) :: nat) = 48 + n"
  by (simp add: digit_def)

lemma is_digit_digit [simp]: "n < 10 \<Longrightarrow> is_digit (digit n)"
  by (simp add: is_digit_def)

lemma digits_val_snoc:
  "digits_val (s @ [c]) = 10 * digits_val s + ((of_char c :: nat) - 48)"
  by (simp add: digits_val_def)

lemma show_nat_ne [simp]: "show_nat n \<noteq> []"
  by (subst show_nat.simps) auto

lemma show_nat_digits: "list_all is_digit (show_nat n)"
  by (induction n rule: show_nat.induct) (subst show_nat.simps, auto)

lemma digits_val_show [simp]: "digits_val (show_nat n) = n"
proof (induction n rule: show_nat.induct)
  case (1 n)
  show ?case
  proof (cases "n < 10")
    case True
    then show ?thesis by (subst show_nat.simps) (simp add: digits_val_def)
  next
    case False
    with 1 show ?thesis
      by (subst show_nat.simps) (simp add: digits_val_snoc)
  qed
qed

lemma digits_val_zeros: "digits_val (replicate k CHR ''0'' @ s) = digits_val s"
  by (induction k) (simp_all add: digits_val_def)

lemma show_pad3_digits: "list_all is_digit (show_pad3 n)"
  using show_nat_digits [of n] by (auto simp: show_pad3_def list_all_iff is_digit_def)

lemma digits_val_pad3 [simp]: "digits_val (show_pad3 n) = n"
  by (simp add: show_pad3_def digits_val_zeros)

lemma show_pad3_ne [simp]: "show_pad3 n \<noteq> []"
  by (simp add: show_pad3_def)

lemma show_pad3_inj: "show_pad3 m = show_pad3 n \<longleftrightarrow> m = n"
  by (metis digits_val_pad3)

lemma show_nat_inj: "show_nat m = show_nat n \<longleftrightarrow> m = n"
  by (metis digits_val_show)

lemma digit_not_sep:
  "list_all is_digit s \<Longrightarrow> c \<in> set s \<Longrightarrow> c \<noteq> CHR ''-'' \<and> c \<noteq> CHR ''.'' \<and> c \<noteq> CHR ''+''"
  by (induction s) (auto simp: is_digit_def)

lemma pad3_seps [simp]:
  "CHR ''-'' \<notin> set (show_pad3 n)" "CHR ''.'' \<notin> set (show_pad3 n)"
  using digit_not_sep [OF show_pad3_digits [of n]] by auto

lemma show_nat_seps [simp]:
  "CHR ''-'' \<notin> set (show_nat n)" "CHR ''.'' \<notin> set (show_nat n)"
  using digit_not_sep [OF show_nat_digits [of n]] by auto

lemma strip_plus_digits: "list_all is_digit s \<Longrightarrow> strip_plus s = s"
  by (cases s) (auto simp: strip_plus_def is_digit_def)

lemma parse_show_pad3: "parse_u32 (show_pad3 (unat n)) = Some n"
proof -
  have "strip_plus (show_pad3 (unat n)) = show_pad3 (unat n)"
    by (rule strip_plus_digits, rule show_pad3_digits)
  moreover have "unat n < 4294967296" using unat_bound [of n] by simp
  ultimately show ?thesis by (simp add: parse_u32_def show_pad3_digits)
qed

end
