(* ===== verification/Budget_Registry.thy ===== *)
theory Budget_Registry
  imports Rust_Str "HOL-Library.AList"
begin

text \<open>
  The off-chain budget registry (\<open>crates/aeqi-orchestrator/src/budget_registry.rs\<close>): budgets
  owned by roles, one allowance row per budget and epoch, refresh policies, an audit log of
  treasury events and a per-trust configuration. The state \<open>reg_db\<close> is the SQLite database,
  a record of tables; a statement is a partial function on it, \<open>None\<close> when a primary key, a
  unique index, a foreign key or a check of the schema is violated. An operation returns its
  result together with the database: outside a transaction an operation that fails half way
  keeps the statements already executed, inside one it keeps none.

  Integers are \<open>int\<close>; Rust's \<open>i64\<close> arithmetic wraps (\<open>i64\<close>, the release profile has no
  overflow checks), SQLite's does not, and a column that has left the range of \<open>i64\<close> cannot be
  read back. The clock and the UUIDs are arguments.
\<close>

section \<open>Numbers, time, text\<close>

definition wrap64 :: "int \<Rightarrow> int" where
  "wrap64 x = (x + 2 ^ 63) mod 2 ^ 64 - 2 ^ 63"

definition in_i64 :: "int \<Rightarrow> bool" where
  "in_i64 x \<longleftrightarrow> - (2 ^ 63) \<le> x \<and> x < 2 ^ 63"

text \<open>\<open>DateTime<Utc>\<close> in nanoseconds; \<open>timestamp()\<close> in seconds.\<close>

type_synonym stamp = int

definition timestamp :: "stamp \<Rightarrow> int" where
  "timestamp t = t div 1000000000"

section \<open>Errors\<close>

datatype RegBudgetError =
    ENotOwner
  | ENotOccupant string
  | EAmbiguousCallerRole "string list"
  | EAgentNotInTrust
  | EInsufficientInference int int
  | EInsufficientTreasury int int
  | EInsufficientSuballoc int int
  | EHireCapExceeded int int
  | EPaused
  | EVacantOwnerCannotSpend
  | EGatewayMismatch string
  | EPolicyMissing string
  | EDuplicateRequestHash string
  | EBudgetHasDescendants string
  | EBudgetNonZeroBalance string
  | EOwnerRoleNotInTrust string string
  | EParentBudgetNotInTrust string string
  | ENotFound string
  | EPrimaryBudgetCannotDissolve

fun code :: "RegBudgetError \<Rightarrow> string" where
  "code ENotOwner = ''ENotOwner''"
| "code (ENotOccupant _) = ''ENotOccupant''"
| "code (EAmbiguousCallerRole _) = ''EAmbiguousCallerRole''"
| "code EAgentNotInTrust = ''EAgentNotInTrust''"
| "code (EInsufficientInference _ _) = ''EInsufficientInference''"
| "code (EInsufficientTreasury _ _) = ''EInsufficientTreasury''"
| "code (EInsufficientSuballoc _ _) = ''EInsufficientSuballoc''"
| "code (EHireCapExceeded _ _) = ''EHireCapExceeded''"
| "code EPaused = ''EPaused''"
| "code EVacantOwnerCannotSpend = ''EVacantOwnerCannotSpend''"
| "code (EGatewayMismatch _) = ''EGatewayMismatch''"
| "code (EPolicyMissing _) = ''EPolicyMissing''"
| "code (EDuplicateRequestHash _) = ''EDuplicateRequestHash''"
| "code (EBudgetHasDescendants _) = ''EBudgetHasDescendants''"
| "code (EBudgetNonZeroBalance _) = ''EBudgetNonZeroBalance''"
| "code (EOwnerRoleNotInTrust _ _) = ''EOwnerRoleNotInTrust''"
| "code (EParentBudgetNotInTrust _ _) = ''EParentBudgetNotInTrust''"
| "code (ENotFound _) = ''ENotFound''"
| "code EPrimaryBudgetCannotDissolve = ''EPrimaryBudgetCannotDissolve''"

text \<open>An \<open>anyhow::Error\<close>: one of the above, a failed statement or row conversion, a message.\<close>

datatype reg_error = Budget_Error RegBudgetError | Sql_Error | Message string

section \<open>Rows\<close>

datatype BudgetKind = Primary | Operating | Hiring | Project | Discretionary

fun kind_as_db :: "BudgetKind \<Rightarrow> string" where
  "kind_as_db Primary = ''primary''"
| "kind_as_db Operating = ''operating''"
| "kind_as_db Hiring = ''hiring''"
| "kind_as_db Project = ''project''"
| "kind_as_db Discretionary = ''discretionary''"

definition kind_from_str :: "string \<Rightarrow> BudgetKind option" where
  "kind_from_str s =
     (if s = ''primary'' then Some Primary else if s = ''operating'' then Some Operating
      else if s = ''hiring'' then Some Hiring else if s = ''project'' then Some Project
      else if s = ''discretionary'' then Some Discretionary else None)"

datatype RolloverMode = Burn | Rollover

fun rollover_as_db :: "RolloverMode \<Rightarrow> string" where
  "rollover_as_db Burn = ''burn''"
| "rollover_as_db Rollover = ''rollover''"

definition rollover_from_str :: "string \<Rightarrow> RolloverMode option" where
  "rollover_from_str s =
     (if s = ''burn'' then Some Burn else if s = ''rollover'' then Some Rollover else None)"

record AllowanceBundle =
  inference_credits :: int
  treasury_cap :: int
  suballoc_cap :: int
  hire_cap :: int

definition bundle_zero :: AllowanceBundle where
  "bundle_zero = \<lparr>inference_credits = 0, treasury_cap = 0, suballoc_cap = 0, hire_cap = 0\<rparr>"

record RegBudget =
  bg_id :: string
  trust_id :: string
  parent_budget_id :: "string option"
  owner_role_id :: string
  bg_name :: string
  bg_kind :: BudgetKind
  is_primary :: bool
  created_by_role_id :: "string option"
  bg_created_at :: stamp

record BudgetAllowance =
  al_budget_id :: string
  epoch :: int
  caps :: AllowanceBundle
  spent_inference :: int
  spent_treasury :: int
  spent_suballoc :: int
  used_hire :: int
  last_event_at :: stamp

definition remaining_inference :: "BudgetAllowance \<Rightarrow> int" where
  "remaining_inference a = max (wrap64 (inference_credits (caps a) - spent_inference a)) 0"

definition remaining_treasury :: "BudgetAllowance \<Rightarrow> int" where
  "remaining_treasury a = max (wrap64 (treasury_cap (caps a) - spent_treasury a)) 0"

definition remaining_suballoc :: "BudgetAllowance \<Rightarrow> int" where
  "remaining_suballoc a = max (wrap64 (suballoc_cap (caps a) - spent_suballoc a)) 0"

definition remaining_hire :: "BudgetAllowance \<Rightarrow> int" where
  "remaining_hire a = max (wrap64 (hire_cap (caps a) - used_hire a)) 0"

record BudgetPolicy =
  po_budget_id :: string
  defaults :: AllowanceBundle
  epoch_period_secs :: int
  rollover_mode :: RolloverMode
  set_by_role_id :: "string option"
  po_updated_at :: stamp

definition policy_zero :: "string \<Rightarrow> stamp \<Rightarrow> BudgetPolicy" where
  "policy_zero b now = \<lparr>po_budget_id = b, defaults = bundle_zero, epoch_period_secs = 604800,
     rollover_mode = Burn, set_by_role_id = None, po_updated_at = now\<rparr>"

datatype event_type =
    EV_BUDGET_CREATED | EV_ALLOWANCE_CREATED | EV_ALLOCATED | EV_INFERENCE_SPENT
  | EV_TREASURY_SPENT | EV_HIRED | EV_EPOCH_REFRESHED | EV_POLICY_SET | EV_BUDGET_DISSOLVED
  | EV_TREASURY_PAUSED

record TreasuryEvent =
  event_id :: int
  ev_type :: event_type
  ev_budget_id :: string
  acting_role_id :: string
  actor_agent_id :: "string option"
  counter_budget_id :: "string option"
  ev_epoch :: int
  amount :: "int option"
  request_hash :: "string option"
  idempotency_key :: "string option"
  ev_created_at :: stamp

record TreasuryConfig =
  cfg_trust_id :: string
  inference_gateway :: string
  paused :: bool
  admin_role_id :: string
  cfg_updated_at :: stamp

record BudgetTree =
  nodes :: "RegBudget list"
  tree_edges :: "(string \<times> string) list"

record NewRoleSpec =
  ns_title :: string
  ns_role_type :: "string option"
  ns_grants :: "string list option"
  ns_occupant_kind :: "string option"
  ns_occupant_id :: "string option"

record HireResult =
  hr_role_id :: string
  hr_primary_budget_id :: string

text \<open>A row of \<open>roles\<close>.\<close>

record role_row =
  rr_trust_id :: string
  rr_title :: string
  rr_occupant_kind :: string
  rr_occupant_id :: "string option"
  rr_role_type :: string
  rr_founder :: bool
  rr_created_at :: stamp
  rr_updated_at :: "stamp option"
  rr_description_idea_id :: "string option"

section \<open>The database\<close>

text \<open>\<open>entities\<close> maps a trust to its creation time, \<open>None\<close> when the text does not parse.\<close>

record reg_db =
  entities :: "(string \<times> stamp option) list"
  roles :: "(string \<times> role_row) list"
  role_grants :: "(string \<times> string) list"
  role_edges :: "(string \<times> string) list"
  budgets :: "(string \<times> RegBudget) list"
  allowances :: "((string \<times> int) \<times> BudgetAllowance) list"
  policies :: "(string \<times> BudgetPolicy) list"
  events :: "TreasuryEvent list"
  configs :: "(string \<times> TreasuryConfig) list"
  next_event :: int

definition has :: "(string \<times> 'a) list \<Rightarrow> string \<Rightarrow> bool" where
  "has t k \<longleftrightarrow> map_of t k \<noteq> None"

definition has_opt :: "(string \<times> 'a) list \<Rightarrow> string option \<Rightarrow> bool" where
  "has_opt t k = (case k of None \<Rightarrow> True | Some x \<Rightarrow> has t x)"

text \<open>Statements: \<open>None\<close> is a violated constraint of the schema.\<close>

definition event_allowed :: "reg_db \<Rightarrow> TreasuryEvent \<Rightarrow> bool" where
  "event_allowed d e \<longleftrightarrow>
     has (budgets d) (ev_budget_id e) \<and> has (roles d) (acting_role_id e) \<and>
     has_opt (budgets d) (counter_budget_id e) \<and>
     (request_hash e = None \<or> list_all (\<lambda>x. request_hash x \<noteq> request_hash e) (events d)) \<and>
     (idempotency_key e = None \<or>
      list_all (\<lambda>x. ev_budget_id x \<noteq> ev_budget_id e \<or> idempotency_key x \<noteq> idempotency_key e)
        (events d))"

definition insert_event :: "TreasuryEvent \<Rightarrow> reg_db \<Rightarrow> reg_db option" where
  "insert_event e d =
     (if event_allowed d e
      then Some (d\<lparr>events := events d @ [e\<lparr>event_id := next_event d\<rparr>], next_event := next_event d + 1\<rparr>)
      else None)"

definition insert_budget :: "RegBudget \<Rightarrow> reg_db \<Rightarrow> reg_db option" where
  "insert_budget b d =
     (if \<not> has (budgets d) (bg_id b) \<and> has_opt (budgets d) (parent_budget_id b) \<and>
         has (roles d) (owner_role_id b) \<and> has_opt (roles d) (created_by_role_id b) \<and>
         (is_primary b \<longrightarrow>
          list_all (\<lambda>(_, x). \<not> (is_primary x \<and> owner_role_id x = owner_role_id b)) (budgets d))
      then Some (d\<lparr>budgets := budgets d @ [(bg_id b, b)]\<rparr>) else None)"

definition insert_policy :: "BudgetPolicy \<Rightarrow> reg_db \<Rightarrow> reg_db option" where
  "insert_policy p d =
     (if \<not> has (policies d) (po_budget_id p) \<and> has (budgets d) (po_budget_id p) \<and>
         has_opt (roles d) (set_by_role_id p)
      then Some (d\<lparr>policies := policies d @ [(po_budget_id p, p)]\<rparr>) else None)"

definition upsert_policy :: "BudgetPolicy \<Rightarrow> reg_db \<Rightarrow> reg_db option" where
  "upsert_policy p d =
     (if has (budgets d) (po_budget_id p) \<and> has_opt (roles d) (set_by_role_id p)
      then Some (d\<lparr>policies := AList.update (po_budget_id p) p (policies d)\<rparr>) else None)"

definition fresh_row :: "string \<Rightarrow> int \<Rightarrow> AllowanceBundle \<Rightarrow> stamp \<Rightarrow> BudgetAllowance" where
  "fresh_row b ep c now = \<lparr>al_budget_id = b, epoch = ep, caps = c, spent_inference = 0,
     spent_treasury = 0, spent_suballoc = 0, used_hire = 0, last_event_at = now\<rparr>"

text \<open>\<open>INSERT \<dots> ON CONFLICT(budget_id, epoch) DO NOTHING\<close>, and with \<open>DO UPDATE\<close> of the caps.\<close>

definition insert_allowance_if_absent ::
  "string \<Rightarrow> int \<Rightarrow> AllowanceBundle \<Rightarrow> stamp \<Rightarrow> reg_db \<Rightarrow> reg_db option" where
  "insert_allowance_if_absent b ep c now d =
     (if map_of (allowances d) (b, ep) \<noteq> None then Some d
      else if has (budgets d) b
      then Some (d\<lparr>allowances := allowances d @ [((b, ep), fresh_row b ep c now)]\<rparr>) else None)"

definition upsert_allowance ::
  "string \<Rightarrow> int \<Rightarrow> AllowanceBundle \<Rightarrow> stamp \<Rightarrow> reg_db \<Rightarrow> reg_db option" where
  "upsert_allowance b ep c now d = (case map_of (allowances d) (b, ep) of
     Some a \<Rightarrow> Some (d\<lparr>allowances :=
       AList.update (b, ep) (a\<lparr>caps := c, last_event_at := now\<rparr>) (allowances d)\<rparr>)
   | None \<Rightarrow> insert_allowance_if_absent b ep c now d)"

text \<open>\<open>UPDATE budget_allowances SET \<dots> WHERE budget_id = \<dots> AND epoch = \<dots>\<close>\<close>

definition update_allowance ::
  "string \<Rightarrow> int \<Rightarrow> (BudgetAllowance \<Rightarrow> BudgetAllowance) \<Rightarrow> reg_db \<Rightarrow> reg_db" where
  "update_allowance b ep f d = (case map_of (allowances d) (b, ep) of
     None \<Rightarrow> d
   | Some a \<Rightarrow> d\<lparr>allowances := AList.update (b, ep) (f a) (allowances d)\<rparr>)"

definition credit_bundle :: "AllowanceBundle \<Rightarrow> stamp \<Rightarrow> BudgetAllowance \<Rightarrow> BudgetAllowance" where
  "credit_bundle x now a = a\<lparr>
     caps := \<lparr>inference_credits = inference_credits (caps a) + inference_credits x,
              treasury_cap = treasury_cap (caps a) + treasury_cap x,
              suballoc_cap = suballoc_cap (caps a) + suballoc_cap x,
              hire_cap = hire_cap (caps a) + hire_cap x\<rparr>,
     last_event_at := now\<rparr>"

definition debit_suballoc :: "int \<Rightarrow> int \<Rightarrow> stamp \<Rightarrow> BudgetAllowance \<Rightarrow> BudgetAllowance" where
  "debit_suballoc n hires now a = a\<lparr>spent_suballoc := spent_suballoc a + n,
     used_hire := used_hire a + hires, last_event_at := now\<rparr>"

section \<open>Results\<close>

type_synonym 'a reg = "(reg_error + 'a) \<times> reg_db"

definition bindR :: "'a reg \<Rightarrow> ('a \<Rightarrow> reg_db \<Rightarrow> 'b reg) \<Rightarrow> 'b reg" where
  "bindR m f = (case m of (Inl e, d) \<Rightarrow> (Inl e, d) | (Inr x, d) \<Rightarrow> f x d)"

definition failB :: "RegBudgetError \<Rightarrow> reg_db \<Rightarrow> 'a reg" where
  "failB e d = (Inl (Budget_Error e), d)"

text \<open>\<open>db.execute(..)?\<close>: the database of before when the statement fails.\<close>

definition exec :: "reg_db option \<Rightarrow> reg_db \<Rightarrow> unit reg" where
  "exec r d = (case r of None \<Rightarrow> (Inl Sql_Error, d) | Some d' \<Rightarrow> (Inr (), d'))"

text \<open>A transaction that is not committed leaves the database of before.\<close>

definition transaction :: "reg_db \<Rightarrow> 'a reg \<Rightarrow> 'a reg" where
  "transaction d m = (case m of (Inl e, _) \<Rightarrow> (Inl e, d) | (Inr x, d') \<Rightarrow> (Inr x, d'))"

section \<open>Reads\<close>

definition get_budget :: "string \<Rightarrow> reg_db \<Rightarrow> RegBudget option" where
  "get_budget b d = map_of (budgets d) b"

text \<open>\<open>.ok_or_else(|| BudgetError::ENotFound(..))?\<close>\<close>

definition with_budget :: "string \<Rightarrow> (RegBudget \<Rightarrow> reg_db \<Rightarrow> 'a reg) \<Rightarrow> reg_db \<Rightarrow> 'a reg" where
  "with_budget b k d = (case get_budget b d of None \<Rightarrow> failB (ENotFound b) d | Some x \<Rightarrow> k x d)"

definition list_budgets ::
  "string \<Rightarrow> string option \<Rightarrow> string option \<Rightarrow> bool option \<Rightarrow> reg_db \<Rightarrow> RegBudget list" where
  "list_budgets trust own par only_primary d =
     (let rows = filter (\<lambda>b. trust_id b = trust \<and>
            (case own of None \<Rightarrow> True | Some r \<Rightarrow> owner_role_id b = r) \<and>
            (case par of None \<Rightarrow> True | Some p \<Rightarrow> parent_budget_id b = Some p) \<and>
            (case only_primary of None \<Rightarrow> True | Some x \<Rightarrow> is_primary b = x)) (map snd (budgets d))
      in if only_primary = None then sort_key bg_created_at rows else rows)"

definition budget_tree :: "string \<Rightarrow> reg_db \<Rightarrow> BudgetTree" where
  "budget_tree trust d =
     (let rows = filter (\<lambda>b. trust_id b = trust) (map snd (budgets d)) in
      \<lparr>nodes = sort_key bg_created_at rows,
       tree_edges = List.map_filter (\<lambda>b. map_option (\<lambda>p. (p, bg_id b)) (parent_budget_id b)) rows\<rparr>)"

text \<open>\<open>row_to_allowance\<close>: every column has to be an \<open>i64\<close>.\<close>

definition readable :: "BudgetAllowance \<Rightarrow> bool" where
  "readable a \<longleftrightarrow> list_all in_i64
     [epoch a, inference_credits (caps a), treasury_cap (caps a), suballoc_cap (caps a),
      hire_cap (caps a), spent_inference a, spent_treasury a, spent_suballoc a, used_hire a]"

definition read_row :: "BudgetAllowance option \<Rightarrow> reg_error + BudgetAllowance option" where
  "read_row r = (case r of None \<Rightarrow> Inr None
     | Some a \<Rightarrow> if readable a then Inr (Some a) else Inl Sql_Error)"

definition get_allowance :: "string \<Rightarrow> int \<Rightarrow> reg_db \<Rightarrow> reg_error + BudgetAllowance option" where
  "get_allowance b ep d = read_row (map_of (allowances d) (b, ep))"

text \<open>\<open>ORDER BY epoch DESC LIMIT 1\<close>\<close>

fun latest_of :: "BudgetAllowance list \<Rightarrow> BudgetAllowance option" where
  "latest_of [] = None"
| "latest_of (a # as) = (case latest_of as of
     None \<Rightarrow> Some a
   | Some x \<Rightarrow> if epoch x \<le> epoch a then Some a else Some x)"

definition latest_row :: "string \<Rightarrow> reg_db \<Rightarrow> BudgetAllowance option" where
  "latest_row b d = latest_of (map snd (filter (\<lambda>((x, _), _). x = b) (allowances d)))"

definition latest_allowance :: "string \<Rightarrow> reg_db \<Rightarrow> reg_error + BudgetAllowance option" where
  "latest_allowance b d = read_row (latest_row b d)"

text \<open>\<open>self.latest_allowance(..).await?.ok_or_else(|| EPolicyMissing)?\<close>\<close>

definition with_latest :: "string \<Rightarrow> (BudgetAllowance \<Rightarrow> reg_db \<Rightarrow> 'a reg) \<Rightarrow> reg_db \<Rightarrow> 'a reg" where
  "with_latest b k d = (case latest_allowance b d of
     Inl e \<Rightarrow> (Inl e, d)
   | Inr None \<Rightarrow> failB (EPolicyMissing b) d
   | Inr (Some a) \<Rightarrow> k a d)"

definition get_policy :: "string \<Rightarrow> reg_db \<Rightarrow> BudgetPolicy option" where
  "get_policy b d = map_of (policies d) b"

definition get_treasury_config :: "string \<Rightarrow> reg_db \<Rightarrow> TreasuryConfig option" where
  "get_treasury_config trust d = map_of (configs d) trust"

definition clamp :: "int \<Rightarrow> int \<Rightarrow> int \<Rightarrow> int" where
  "clamp lo hi x = (if x < lo then lo else if hi < x then hi else x)"

definition spend_history ::
  "string \<Rightarrow> stamp option \<Rightarrow> event_type option \<Rightarrow> int \<Rightarrow> reg_db \<Rightarrow> TreasuryEvent list" where
  "spend_history b since ty limit d =
     take (nat (clamp 1 500 limit)) (rev (filter (\<lambda>e. ev_budget_id e = b \<and>
       (case since of None \<Rightarrow> True | Some t \<Rightarrow> t \<le> ev_created_at e) \<and>
       (case ty of None \<Rightarrow> True | Some x \<Rightarrow> ev_type e = x)) (events d)))"

section \<open>Checks shared by the writes\<close>

definition assert_not_paused :: "string \<Rightarrow> reg_db \<Rightarrow> bool" where
  "assert_not_paused trust d = (case get_treasury_config trust d of
     None \<Rightarrow> True | Some c \<Rightarrow> \<not> paused c)"

definition role_in_trust :: "string \<Rightarrow> string \<Rightarrow> reg_db \<Rightarrow> bool" where
  "role_in_trust r trust d = (case map_of (roles d) r of None \<Rightarrow> False | Some x \<Rightarrow> rr_trust_id x = trust)"

text \<open>\<open>ORDER BY id DESC LIMIT 1\<close>: events are kept in the order of their ids.\<close>

definition dedup_existing :: "string option \<Rightarrow> string \<Rightarrow> reg_db \<Rightarrow> TreasuryEvent option" where
  "dedup_existing b key d =
     find (\<lambda>e. (case b of None \<Rightarrow> True | Some x \<Rightarrow> ev_budget_id e = x) \<and> idempotency_key e = Some key)
       (rev (events d))"

text \<open>\<open>if let Some(key) = idempotency_key && ..dedup_existing(..).await?.is_some()\<close>\<close>

definition seen_before :: "string \<Rightarrow> string option \<Rightarrow> reg_db \<Rightarrow> bool" where
  "seen_before b key d = (case key of None \<Rightarrow> False | Some k \<Rightarrow> dedup_existing (Some b) k d \<noteq> None)"

definition dedup_request_hash :: "string \<Rightarrow> reg_db \<Rightarrow> TreasuryEvent option" where
  "dedup_request_hash h d = find (\<lambda>e. request_hash e = Some h) (rev (events d))"

definition trust_anchor_unix :: "string \<Rightarrow> reg_db \<Rightarrow> int" where
  "trust_anchor_unix trust d = (case map_of (entities d) trust of
     Some (Some t) \<Rightarrow> timestamp t
   | _ \<Rightarrow> 0)"

text \<open>\<open>((now - anchor) / period.max(1)).max(0)\<close>; below zero the rounding does not matter.\<close>

definition epoch_at :: "int \<Rightarrow> int \<Rightarrow> int \<Rightarrow> int" where
  "epoch_at now anchor period = max ((now - anchor) div (max period 1)) 0"

definition ensure_allowance_row :: "string \<Rightarrow> int \<Rightarrow> stamp \<Rightarrow> reg_db \<Rightarrow> reg_db option" where
  "ensure_allowance_row b ep now d =
     insert_allowance_if_absent b ep
       (case get_policy b d of None \<Rightarrow> bundle_zero | Some p \<Rightarrow> defaults p) now d"

definition need_total :: "AllowanceBundle \<Rightarrow> int" where
  "need_total x = wrap64 (wrap64 (inference_credits x + treasury_cap x) + suballoc_cap x)"

definition make_event :: "event_type \<Rightarrow> string \<Rightarrow> string \<Rightarrow> string option \<Rightarrow> string option \<Rightarrow> int \<Rightarrow>
  int option \<Rightarrow> string option \<Rightarrow> string option \<Rightarrow> stamp \<Rightarrow> TreasuryEvent" where
  "make_event ty b r agent counter ep amt hash key now =
     \<lparr>event_id = 0, ev_type = ty, ev_budget_id = b, acting_role_id = r, actor_agent_id = agent,
      counter_budget_id = counter, ev_epoch = ep, amount = amt, request_hash = hash,
      idempotency_key = key, ev_created_at = now\<rparr>"

section \<open>Epochs\<close>

definition rolled_caps :: "BudgetPolicy \<Rightarrow> BudgetAllowance option \<Rightarrow> AllowanceBundle" where
  "rolled_caps p latest = (case latest of
     Some l \<Rightarrow> if rollover_mode p = Rollover
       then (defaults p)\<lparr>
          inference_credits := wrap64 (inference_credits (defaults p) + remaining_inference l),
          treasury_cap := wrap64 (treasury_cap (defaults p) + remaining_treasury l),
          suballoc_cap := wrap64 (suballoc_cap (defaults p) + remaining_suballoc l)\<rparr>
       else defaults p
   | None \<Rightarrow> defaults p)"

definition refresh_tx :: "RegBudget \<Rightarrow> BudgetPolicy \<Rightarrow> BudgetAllowance option \<Rightarrow> int \<Rightarrow> stamp \<Rightarrow> reg_db \<Rightarrow>
  BudgetAllowance option reg" where
  "refresh_tx b p latest cur now d =
     bindR (transaction d
        (bindR (exec (upsert_allowance (bg_id b) cur (rolled_caps p latest) now d) d) (\<lambda>_ d1.
           exec (insert_event (make_event
             (if latest = None then EV_ALLOWANCE_CREATED else EV_EPOCH_REFRESHED)
             (bg_id b) (owner_role_id b) None None cur None None None now) d1) d1)))
       (\<lambda>_ d2. (case get_allowance (bg_id b) cur d2 of
          Inl e \<Rightarrow> (Inl e, d2)
        | Inr None \<Rightarrow> (Inl Sql_Error, d2)
        | Inr (Some a) \<Rightarrow> (Inr (Some a), d2)))"

definition refresh_at :: "string \<Rightarrow> stamp \<Rightarrow> reg_db \<Rightarrow> BudgetAllowance option reg" where
  "refresh_at bid now = with_budget bid (\<lambda>b d.
     case get_policy bid d of
       None \<Rightarrow> failB (EPolicyMissing bid) d
     | Some p \<Rightarrow>
         (let cur = epoch_at (timestamp now) (trust_anchor_unix (trust_id b) d) (epoch_period_secs p) in
          case latest_allowance bid d of
            Inl e \<Rightarrow> (Inl e, d)
          | Inr latest \<Rightarrow>
              if (case latest of None \<Rightarrow> True | Some l \<Rightarrow> epoch l < cur)
              then refresh_tx b p latest cur now d
              else (Inr None, d)))"

definition current_allowance :: "string \<Rightarrow> stamp \<Rightarrow> reg_db \<Rightarrow> BudgetAllowance reg" where
  "current_allowance bid now d =
     bindR (refresh_at bid now d) (\<lambda>_. with_latest bid (\<lambda>a d'. (Inr a, d')))"

section \<open>Budgets and policies\<close>

text \<open>\<open>"Primary \<dots> {title}"\<close>, with an em dash between.\<close>

definition primary_name :: "string \<Rightarrow> string" where
  "primary_name t = ''Primary '' @ [CHR 0xE2, CHR 0x80, CHR 0x94, CHR '' ''] @ t"

definition primary_budget :: "string \<Rightarrow> string \<Rightarrow> stamp \<Rightarrow> reg_db \<Rightarrow> RegBudget reg" where
  "primary_budget r uuid now d =
     (case find (\<lambda>b. owner_role_id b = r \<and> is_primary b) (map snd (budgets d)) of
        Some b \<Rightarrow> (Inr b, d)
      | None \<Rightarrow> (case map_of (roles d) r of
          None \<Rightarrow> (Inl Sql_Error, d)
        | Some row \<Rightarrow>
            bindR (exec (insert_budget \<lparr>bg_id = uuid, trust_id = rr_trust_id row,
                parent_budget_id = None, owner_role_id = r, bg_name = primary_name (rr_title row),
                bg_kind = Primary, is_primary = True, created_by_role_id = None,
                bg_created_at = now\<rparr> d) d) (\<lambda>_ d1.
            bindR (exec (insert_policy (policy_zero uuid now) d1) d1) (\<lambda>_ d2.
              case get_budget uuid d2 of
                Some b \<Rightarrow> (Inr b, d2)
              | None \<Rightarrow> (Inl (Message ''primary budget vanished after insert''), d2)))))"

text \<open>The authorization part of \<open>create_budget\<close>: the caller owns the parent.\<close>

definition check_parent :: "string \<Rightarrow> string option \<Rightarrow> string \<Rightarrow> reg_db \<Rightarrow> unit reg" where
  "check_parent trust par caller d = (case par of
     None \<Rightarrow> (Inr (), d)
   | Some p \<Rightarrow> with_budget p (\<lambda>pb d.
       if trust_id pb \<noteq> trust then failB (EParentBudgetNotInTrust p trust) d
       else if owner_role_id pb \<noteq> caller then failB ENotOwner d else (Inr (), d)) d)"

definition create_budget :: "string \<Rightarrow> string option \<Rightarrow> string \<Rightarrow> string \<Rightarrow> BudgetKind \<Rightarrow> string \<Rightarrow>
  string option \<Rightarrow> string option \<Rightarrow> string \<Rightarrow> stamp \<Rightarrow> reg_db \<Rightarrow> string reg" where
  "create_budget trust par own name kind caller agent key uuid now d =
     (if \<not> assert_not_paused trust d then failB EPaused d
      else if \<not> role_in_trust own trust d then failB (EOwnerRoleNotInTrust own trust) d
      else bindR (check_parent trust par caller d) (\<lambda>_ d.
        case (case key of None \<Rightarrow> None | Some k \<Rightarrow> dedup_existing par k d) of
          Some e \<Rightarrow> (case counter_budget_id e of
              Some c \<Rightarrow> (Inr c, d)
            | None \<Rightarrow> (Inl (Message ''dedup row has no counter_budget_id''), d))
        | None \<Rightarrow>
            bindR (exec (insert_budget \<lparr>bg_id = uuid, trust_id = trust, parent_budget_id = par,
                owner_role_id = own, bg_name = name, bg_kind = kind, is_primary = False,
                created_by_role_id = Some caller, bg_created_at = now\<rparr> d) d) (\<lambda>_ d1.
            bindR (exec (insert_policy ((policy_zero uuid now)\<lparr>set_by_role_id := Some caller\<rparr>) d1) d1) (\<lambda>_ d2.
            bindR (exec (insert_event (make_event EV_BUDGET_CREATED
                (case par of None \<Rightarrow> uuid | Some p \<Rightarrow> p) caller agent (Some uuid) 0 None None key now)
                d2) d2) (\<lambda>_ d3. (Inr uuid, d3))))))"

definition set_policy :: "string \<Rightarrow> AllowanceBundle \<Rightarrow> int \<Rightarrow> RolloverMode \<Rightarrow> string \<Rightarrow>
  string option \<Rightarrow> string option \<Rightarrow> stamp \<Rightarrow> reg_db \<Rightarrow> unit reg" where
  "set_policy bid defs period mode caller agent key now = with_budget bid (\<lambda>b d.
     if \<not> assert_not_paused (trust_id b) d then failB EPaused d
     else if owner_role_id b \<noteq> caller then failB ENotOwner d
     else if seen_before bid key d then (Inr (), d)
     else bindR (exec (upsert_policy \<lparr>po_budget_id = bid, defaults = defs,
             epoch_period_secs = period, rollover_mode = mode, set_by_role_id = Some caller,
             po_updated_at = now\<rparr> d) d) (\<lambda>_ d1.
          exec (insert_event (make_event EV_POLICY_SET bid caller agent None 0 None None key now) d1) d1))"

section \<open>Moving and spending money\<close>

text \<open>The clock of an operation gives its readings in order.\<close>

definition allocate_write :: "string \<Rightarrow> string \<Rightarrow> AllowanceBundle \<Rightarrow> BudgetAllowance \<Rightarrow> BudgetAllowance \<Rightarrow>
  string \<Rightarrow> string option \<Rightarrow> string option \<Rightarrow> stamp \<Rightarrow> reg_db \<Rightarrow> unit reg" where
  "allocate_write par ch x pa ca caller agent key now d =
     (if remaining_suballoc pa < need_total x
      then failB (EInsufficientSuballoc (need_total x) (remaining_suballoc pa)) d
      else if remaining_hire pa < hire_cap x
      then failB (EHireCapExceeded (hire_cap (caps pa)) (wrap64 (used_hire pa + hire_cap x))) d
      else
        (let d1 = update_allowance par (epoch pa) (debit_suballoc (need_total x) (hire_cap x) now) d;
             d2 = update_allowance ch (epoch ca) (credit_bundle x now) d1
         in exec (insert_event (make_event EV_ALLOCATED par caller agent (Some ch) (epoch pa)
                    (Some (need_total x)) None key now) d2) d2))"

definition allocate :: "string \<Rightarrow> string \<Rightarrow> AllowanceBundle \<Rightarrow> string \<Rightarrow> string option \<Rightarrow>
  string option \<Rightarrow> (nat \<Rightarrow> stamp) \<Rightarrow> reg_db \<Rightarrow> unit reg" where
  "allocate par ch x caller agent key clk = with_budget par (\<lambda>pb. with_budget ch (\<lambda>cb d.
     if \<not> assert_not_paused (trust_id pb) d then failB EPaused d
     else if owner_role_id pb \<noteq> caller then failB ENotOwner d
     else if trust_id pb \<noteq> trust_id cb then failB (EParentBudgetNotInTrust par (trust_id cb)) d
     else if seen_before par key d then (Inr (), d)
     else bindR (refresh_at par (clk 0) d) (\<lambda>_ d1.
          bindR (refresh_at ch (clk 1) d1) (\<lambda>_.
            with_latest par (\<lambda>pa. with_latest ch (\<lambda>ca.
              allocate_write par ch x pa ca caller agent key (clk 2)))))))"

text \<open>
  A spend releases the connection between its check and its write; the two halves are separate
  functions, and the operation is one after the other. The check gives the epoch to debit, or
  \<open>None\<close> when the request was seen before.
\<close>

definition spend_inference_check :: "string \<Rightarrow> int \<Rightarrow> string \<Rightarrow> string \<Rightarrow> stamp \<Rightarrow> reg_db \<Rightarrow> int option reg"
where
  "spend_inference_check bid amt hash gateway now = with_budget bid (\<lambda>b d.
     case get_treasury_config (trust_id b) d of
       None \<Rightarrow> failB (EGatewayMismatch gateway) d
     | Some cfg \<Rightarrow>
         if paused cfg then failB EPaused d
         else if inference_gateway cfg \<noteq> gateway then failB (EGatewayMismatch gateway) d
         else if dedup_request_hash hash d \<noteq> None then (Inr None, d)
         else bindR (refresh_at bid now d) (\<lambda>_. with_latest bid (\<lambda>a d.
              if remaining_inference a < amt
              then failB (EInsufficientInference amt (remaining_inference a)) d
              else (Inr (Some (epoch a)), d))))"

definition spend_inference_write :: "string \<Rightarrow> string \<Rightarrow> int \<Rightarrow> string \<Rightarrow> string \<Rightarrow> stamp \<Rightarrow> int \<Rightarrow> reg_db \<Rightarrow> unit reg"
where
  "spend_inference_write bid own amt hash actor now ep d =
     (let d1 = update_allowance bid ep
            (\<lambda>a. a\<lparr>spent_inference := spent_inference a + amt, last_event_at := now\<rparr>) d
      in exec (insert_event (make_event EV_INFERENCE_SPENT bid own (Some actor) None ep (Some amt)
            (Some hash) None now) d1) d1)"

definition spend_inference :: "string \<Rightarrow> int \<Rightarrow> string \<Rightarrow> string \<Rightarrow> string \<Rightarrow> (nat \<Rightarrow> stamp) \<Rightarrow> reg_db \<Rightarrow> unit reg"
where
  "spend_inference bid amt hash actor gateway clk = with_budget bid (\<lambda>b d.
     bindR (spend_inference_check bid amt hash gateway (clk 0) d) (\<lambda>r d1.
       case r of
         None \<Rightarrow> (Inr (), d1)
       | Some ep \<Rightarrow> spend_inference_write bid (owner_role_id b) amt hash actor (clk 1) ep d1))"

definition spend_treasury_check :: "string \<Rightarrow> int \<Rightarrow> string \<Rightarrow> string option \<Rightarrow> stamp \<Rightarrow> reg_db \<Rightarrow> int option reg"
where
  "spend_treasury_check bid amt caller key now = with_budget bid (\<lambda>b d.
     if \<not> assert_not_paused (trust_id b) d then failB EPaused d
     else if owner_role_id b \<noteq> caller then failB ENotOwner d
     else case map_of (roles d) (owner_role_id b) of
       None \<Rightarrow> (Inl Sql_Error, d)
     | Some row \<Rightarrow>
         if rr_occupant_kind row = ''vacant'' then failB EVacantOwnerCannotSpend d
         else if seen_before bid key d then (Inr None, d)
         else bindR (refresh_at bid now d) (\<lambda>_. with_latest bid (\<lambda>a d.
              if remaining_treasury a < amt
              then failB (EInsufficientTreasury amt (remaining_treasury a)) d
              else (Inr (Some (epoch a)), d))))"

definition spend_treasury_write :: "string \<Rightarrow> int \<Rightarrow> string \<Rightarrow> string option \<Rightarrow> string option \<Rightarrow> stamp \<Rightarrow> int \<Rightarrow>
  reg_db \<Rightarrow> unit reg" where
  "spend_treasury_write bid amt caller agent key now ep d =
     (let d1 = update_allowance bid ep
            (\<lambda>a. a\<lparr>spent_treasury := spent_treasury a + amt, last_event_at := now\<rparr>) d
      in exec (insert_event (make_event EV_TREASURY_SPENT bid caller agent None ep (Some amt)
            None key now) d1) d1)"

text \<open>\<open>destination\<close> and \<open>memo\<close> are not used yet.\<close>

definition spend_treasury :: "string \<Rightarrow> string \<Rightarrow> int \<Rightarrow> string option \<Rightarrow> string \<Rightarrow> string option \<Rightarrow>
  string option \<Rightarrow> (nat \<Rightarrow> stamp) \<Rightarrow> reg_db \<Rightarrow> unit reg" where
  "spend_treasury bid destination amt memo caller agent key clk d =
     bindR (spend_treasury_check bid amt caller key (clk 0) d) (\<lambda>r d1.
       case r of
         None \<Rightarrow> (Inr (), d1)
       | Some ep \<Rightarrow> spend_treasury_write bid amt caller agent key (clk 1) ep d1)"

section \<open>Hiring\<close>

definition default_grants :: "string \<Rightarrow> string list" where
  "default_grants ty =
     (if ty = ''director'' then [''roles.manage'', ''agents.spawn'', ''agents.configure'',
        ''treasury.read'', ''governance.read'', ''settings.modify'']
      else if ty = ''advisor'' then [''treasury.read'', ''governance.read'']
      else [''roles.manage'', ''agents.spawn'', ''agents.configure'', ''treasury.read''])"

text \<open>The foreign key and the checks of \<open>roles\<close>.\<close>

definition insert_role :: "string \<Rightarrow> role_row \<Rightarrow> reg_db \<Rightarrow> reg_db option" where
  "insert_role r row d =
     (if \<not> has (roles d) r \<and> has (entities d) (rr_trust_id row) \<and>
         (if rr_occupant_kind row = ''vacant'' then rr_occupant_id row = None
          else rr_occupant_kind row \<in> {''human'', ''agent'', ''trust''} \<and> rr_occupant_id row \<noteq> None) \<and>
         rr_role_type row \<in> {''director'', ''advisor'', ''operational''}
      then Some (d\<lparr>roles := roles d @ [(r, row)]\<rparr>) else None)"

definition insert_grant :: "string \<Rightarrow> string \<Rightarrow> reg_db \<Rightarrow> reg_db option" where
  "insert_grant r g d =
     (if (r, g) \<in> set (role_grants d) then Some d
      else if has (roles d) r then Some (d\<lparr>role_grants := role_grants d @ [(r, g)]\<rparr>) else None)"

fun insert_grants :: "string \<Rightarrow> string list \<Rightarrow> reg_db \<Rightarrow> reg_db option" where
  "insert_grants r [] d = Some d"
| "insert_grants r (g # gs) d = Option.bind (insert_grant r g d) (insert_grants r gs)"

definition insert_edge :: "string \<Rightarrow> string \<Rightarrow> reg_db \<Rightarrow> reg_db option" where
  "insert_edge par ch d =
     (if (par, ch) \<in> set (role_edges d) then Some d
      else if has (roles d) par \<and> has (roles d) ch \<and> par \<noteq> ch
      then Some (d\<lparr>role_edges := role_edges d @ [(par, ch)]\<rparr>) else None)"

text \<open>Steps 1 to 4 of the transaction: role, grants, edge, primary budget, policy, epoch rows.\<close>

definition hire_setup :: "RegBudget \<Rightarrow> string \<Rightarrow> NewRoleSpec \<Rightarrow> string \<Rightarrow> string \<Rightarrow> string \<Rightarrow> stamp \<Rightarrow>
  int \<Rightarrow> int \<Rightarrow> reg_db \<Rightarrow> reg_db option" where
  "hire_setup pb parent_role spec caller rid bid now pep cep d =
     (let kind = (case ns_occupant_kind spec of None \<Rightarrow> ''vacant'' | Some k \<Rightarrow> k);
          ty = (case ns_role_type spec of None \<Rightarrow> ''operational'' | Some t \<Rightarrow> t);
          grants = (case ns_grants spec of None \<Rightarrow> default_grants ty | Some g \<Rightarrow> g)
      in Option.bind (insert_role rid \<lparr>rr_trust_id = trust_id pb, rr_title = ns_title spec,
             rr_occupant_kind = kind,
             rr_occupant_id = (if kind = ''vacant'' then None else ns_occupant_id spec),
             rr_role_type = ty, rr_founder = False, rr_created_at = now,
             rr_updated_at = None, rr_description_idea_id = None\<rparr> d) (\<lambda>d.
         Option.bind (insert_grants rid grants d) (\<lambda>d.
         Option.bind (if parent_role \<noteq> rid then insert_edge parent_role rid d else Some d) (\<lambda>d.
         Option.bind (insert_budget \<lparr>bg_id = bid, trust_id = trust_id pb,
             parent_budget_id = Some (bg_id pb), owner_role_id = rid,
             bg_name = primary_name (ns_title spec), bg_kind = Primary, is_primary = True,
             created_by_role_id = Some caller, bg_created_at = now\<rparr> d) (\<lambda>d.
         Option.bind (insert_policy ((policy_zero bid now)\<lparr>set_by_role_id := Some caller\<rparr>) d) (\<lambda>d.
         Option.bind (ensure_allowance_row (bg_id pb) pep now d)
           (insert_allowance_if_absent bid cep bundle_zero now)))))))"

text \<open>Step 5, the check and the two updates, and step 6, the audit events.\<close>

definition hire_write :: "string \<Rightarrow> string \<Rightarrow> AllowanceBundle \<Rightarrow> string \<Rightarrow> string option \<Rightarrow> string option \<Rightarrow>
  stamp \<Rightarrow> int \<Rightarrow> int \<Rightarrow> BudgetAllowance \<Rightarrow> reg_db \<Rightarrow> unit reg" where
  "hire_write par bid x caller agent key now pep cep pa d =
     (if remaining_suballoc pa < need_total x
      then failB (EInsufficientSuballoc (need_total x) (remaining_suballoc pa)) d
      else if remaining_hire pa < 1
      then failB (EHireCapExceeded (hire_cap (caps pa)) (wrap64 (used_hire pa + 1))) d
      else
        (let d1 = update_allowance par pep (debit_suballoc (need_total x) 1 now) d;
             d2 = update_allowance bid cep (credit_bundle x now) d1
         in bindR (exec (insert_event (make_event EV_BUDGET_CREATED par caller agent (Some bid) pep
                None None None now) d2) d2) (\<lambda>_ d3.
            bindR (exec (insert_event (make_event EV_ALLOCATED par caller agent (Some bid) pep
                (Some (need_total x)) None None now) d3) d3) (\<lambda>_ d4.
            exec (insert_event (make_event EV_HIRED par caller agent (Some bid) pep
                None None key now) d4) d4))))"

definition hire_tx :: "RegBudget \<Rightarrow> string \<Rightarrow> NewRoleSpec \<Rightarrow> AllowanceBundle \<Rightarrow> string \<Rightarrow> string option \<Rightarrow>
  string option \<Rightarrow> string \<Rightarrow> string \<Rightarrow> (nat \<Rightarrow> stamp) \<Rightarrow> reg_db \<Rightarrow> unit reg" where
  "hire_tx pb parent_role spec x caller agent key rid bid clk d =
     (let period = (case get_policy (bg_id pb) d of None \<Rightarrow> 604800 | Some p \<Rightarrow> epoch_period_secs p);
          anchor = trust_anchor_unix (trust_id pb) d;
          pep = epoch_at (timestamp (clk 1)) anchor period;
          cep = epoch_at (timestamp (clk 1)) anchor 604800
      in bindR (exec (hire_setup pb parent_role spec caller rid bid (clk 0) pep cep d) d) (\<lambda>_ d1.
         case get_allowance (bg_id pb) pep d1 of
           Inl e \<Rightarrow> (Inl e, d1)
         | Inr None \<Rightarrow> (Inl Sql_Error, d1)
         | Inr (Some pa) \<Rightarrow> hire_write (bg_id pb) bid x caller agent key (clk 0) pep cep pa d1))"

definition hire :: "string \<Rightarrow> string \<Rightarrow> NewRoleSpec \<Rightarrow> AllowanceBundle \<Rightarrow> string \<Rightarrow> string option \<Rightarrow>
  string option \<Rightarrow> string \<Rightarrow> string \<Rightarrow> (nat \<Rightarrow> stamp) \<Rightarrow> reg_db \<Rightarrow> HireResult reg" where
  "hire par parent_role spec x caller agent key rid bid clk = with_budget par (\<lambda>pb d.
     if \<not> assert_not_paused (trust_id pb) d then failB EPaused d
     else if owner_role_id pb \<noteq> caller then failB ENotOwner d
     else case (case key of None \<Rightarrow> None | Some k \<Rightarrow> dedup_existing (Some par) k d) of
       Some e \<Rightarrow> (Inr \<lparr>hr_role_id = [], hr_primary_budget_id =
           (case counter_budget_id e of None \<Rightarrow> [] | Some c \<Rightarrow> c)\<rparr>, d)
     | None \<Rightarrow> bindR (transaction d (hire_tx pb parent_role spec x caller agent key rid bid clk d))
         (\<lambda>_ d'. (Inr \<lparr>hr_role_id = rid, hr_primary_budget_id = bid\<rparr>, d')))"

section \<open>Dissolving, pausing, configuring\<close>

definition may_dissolve :: "RegBudget \<Rightarrow> string \<Rightarrow> reg_db \<Rightarrow> RegBudgetError option" where
  "may_dissolve b caller d =
     (if owner_role_id b = caller then None
      else case parent_budget_id b of
        None \<Rightarrow> Some ENotOwner
      | Some p \<Rightarrow> (case get_budget p d of
          None \<Rightarrow> Some (ENotFound p)
        | Some pb \<Rightarrow> if owner_role_id pb = caller then None else Some ENotOwner))"

definition settled_row :: "BudgetAllowance \<Rightarrow> bool" where
  "settled_row a \<longleftrightarrow> inference_credits (caps a) = spent_inference a \<and>
     treasury_cap (caps a) = spent_treasury a \<and> suballoc_cap (caps a) = spent_suballoc a \<and>
     hire_cap (caps a) = used_hire a"

text \<open>The delete cascades to the allowances and the policy.\<close>

definition delete_budget :: "string \<Rightarrow> reg_db \<Rightarrow> reg_db" where
  "delete_budget bid d = d\<lparr>budgets := filter (\<lambda>(k, _). k \<noteq> bid) (budgets d),
     allowances := filter (\<lambda>((k, _), _). k \<noteq> bid) (allowances d),
     policies := filter (\<lambda>(k, _). k \<noteq> bid) (policies d)\<rparr>"

definition dissolve_tx :: "string \<Rightarrow> string \<Rightarrow> string option \<Rightarrow> string option \<Rightarrow> stamp \<Rightarrow> reg_db \<Rightarrow> unit reg" where
  "dissolve_tx bid caller agent key now d =
     (let d1 = d\<lparr>events := filter (\<lambda>e. ev_budget_id e \<noteq> bid \<and> counter_budget_id e \<noteq> Some bid) (events d)\<rparr>
      in bindR (exec (insert_event (make_event EV_BUDGET_DISSOLVED bid caller agent None 0 None None key now)
                  d1) d1) (\<lambda>_ d2.
           (Inr (), delete_budget bid (d2\<lparr>events := filter (\<lambda>e. ev_budget_id e \<noteq> bid) (events d2)\<rparr>))))"

definition dissolve :: "string \<Rightarrow> string \<Rightarrow> string option \<Rightarrow> string option \<Rightarrow> stamp \<Rightarrow> reg_db \<Rightarrow> unit reg" where
  "dissolve bid caller agent key now = with_budget bid (\<lambda>b d.
     if \<not> assert_not_paused (trust_id b) d then failB EPaused d
     else case may_dissolve b caller d of
       Some e \<Rightarrow> failB e d
     | None \<Rightarrow>
         if is_primary b then failB EPrimaryBudgetCannotDissolve d
         else if seen_before bid key d then (Inr (), d)
         else if \<exists>(k, x)\<in>set (budgets d). parent_budget_id x = Some bid
         then failB (EBudgetHasDescendants bid) d
         else if \<exists>((k, _), a)\<in>set (allowances d). k = bid \<and> \<not> settled_row a
         then failB (EBudgetNonZeroBalance bid) d
         else transaction d (dissolve_tx bid caller agent key now d))"

definition set_pause :: "string \<Rightarrow> bool \<Rightarrow> string \<Rightarrow> string option \<Rightarrow> stamp \<Rightarrow> reg_db \<Rightarrow> unit reg" where
  "set_pause trust p caller agent now d = (case get_treasury_config trust d of
     None \<Rightarrow> failB (ENotFound (''treasury_config:'' @ trust)) d
   | Some cfg \<Rightarrow>
       if admin_role_id cfg \<noteq> caller then failB ENotOwner d
       else
         (let d1 = d\<lparr>configs := AList.update trust (cfg\<lparr>paused := p, cfg_updated_at := now\<rparr>) (configs d)\<rparr>
          in case sort_key bg_created_at (filter (\<lambda>b. trust_id b = trust) (map snd (budgets d1))) of
               [] \<Rightarrow> (Inr (), d1)
             | b # _ \<Rightarrow> exec (insert_event (make_event EV_TREASURY_PAUSED (bg_id b) caller agent None 0
                 (Some (if p then 1 else 0)) None None now) d1) d1))"

definition init_treasury_config :: "string \<Rightarrow> string \<Rightarrow> string \<Rightarrow> stamp \<Rightarrow> reg_db \<Rightarrow> unit reg" where
  "init_treasury_config trust gateway admin now d =
     exec (if has (roles d) admin
           then Some (d\<lparr>configs := AList.update trust
             \<lparr>cfg_trust_id = trust, inference_gateway = gateway,
              paused = (case map_of (configs d) trust of None \<Rightarrow> False | Some c \<Rightarrow> paused c),
              admin_role_id = admin, cfg_updated_at = now\<rparr> (configs d)\<rparr>)
           else None) d"

end
