(* ===== verification/Budget_Registry_Schema.thy ===== *)
theory Budget_Registry_Schema
  imports Budget_Registry
begin

text \<open>
  What the schema of the budget registry guarantees (keys, foreign keys, unique indices, one
  primary budget per role, budgets forming a forest), the statements that keep it, the
  operations as one datatype with its step function, and the locale \<open>reg_invariant\<close>: a
  property of the database that every statement keeps, under the conditions the operations have
  checked when they issue it, is kept by every operation.
\<close>

named_theorems stmt \<open>the effect of a successful statement\<close>

section \<open>The schema\<close>

text \<open>The parent of a budget was there before it.\<close>

fun forest :: "string set \<Rightarrow> (string \<times> RegBudget) list \<Rightarrow> bool" where
  "forest S [] \<longleftrightarrow> True"
| "forest S ((k, b) # bs) \<longleftrightarrow>
     (case parent_budget_id b of None \<Rightarrow> True | Some p \<Rightarrow> p \<in> S) \<and> forest (insert k S) bs"

definition budgets_ok :: "reg_db \<Rightarrow> bool" where
  "budgets_ok d \<longleftrightarrow> distinct (map fst (budgets d)) \<and> forest {} (budgets d) \<and>
     distinct (map owner_role_id (filter is_primary (map snd (budgets d)))) \<and>
     (\<forall>(k, b)\<in>set (budgets d). bg_id b = k \<and> has (roles d) (owner_role_id b) \<and>
        has_opt (roles d) (created_by_role_id b))"

definition rows_ok :: "reg_db \<Rightarrow> bool" where
  "rows_ok d \<longleftrightarrow> distinct (map fst (allowances d)) \<and>
     (\<forall>((b, ep), a)\<in>set (allowances d). al_budget_id a = b \<and> epoch a = ep \<and> has (budgets d) b)"

definition policies_ok :: "reg_db \<Rightarrow> bool" where
  "policies_ok d \<longleftrightarrow> distinct (map fst (policies d)) \<and>
     (\<forall>(b, p)\<in>set (policies d). po_budget_id p = b \<and> has (budgets d) b \<and>
        has_opt (roles d) (set_by_role_id p))"

definition event_keys :: "TreasuryEvent list \<Rightarrow> (string \<times> string) list" where
  "event_keys es = List.map_filter (\<lambda>e. map_option (Pair (ev_budget_id e)) (idempotency_key e)) es"

definition events_ok :: "reg_db \<Rightarrow> bool" where
  "events_ok d \<longleftrightarrow> sorted_wrt (<) (map event_id (events d)) \<and>
     (\<forall>e\<in>set (events d). event_id e < next_event d) \<and>
     (\<forall>e\<in>set (events d). has (budgets d) (ev_budget_id e) \<and> has (roles d) (acting_role_id e) \<and>
        has_opt (budgets d) (counter_budget_id e)) \<and>
     distinct (List.map_filter request_hash (events d)) \<and> distinct (event_keys (events d))"

definition roles_ok :: "reg_db \<Rightarrow> bool" where
  "roles_ok d \<longleftrightarrow> distinct (map fst (roles d)) \<and>
     distinct (role_grants d) \<and> (\<forall>(r, _)\<in>set (role_grants d). has (roles d) r) \<and>
     distinct (role_edges d) \<and>
     (\<forall>(p, c)\<in>set (role_edges d). has (roles d) p \<and> has (roles d) c \<and> p \<noteq> c) \<and>
     (\<forall>(k, c)\<in>set (configs d). cfg_trust_id c = k \<and> has (roles d) (admin_role_id c))"

definition schema :: "reg_db \<Rightarrow> bool" where
  "schema d \<longleftrightarrow>
     budgets_ok d \<and> rows_ok d \<and> policies_ok d \<and> events_ok d \<and> roles_ok d"

lemmas schema_defs = schema_def budgets_ok_def rows_ok_def policies_ok_def events_ok_def roles_ok_def

section \<open>Lemmas on the tables\<close>

lemma has_append [simp]: "has (t @ u) k \<longleftrightarrow> has t k \<or> has u k"
  by (auto simp: has_def map_add_def split: option.splits)

lemma has_single [simp]: "has [(k, v)] x \<longleftrightarrow> x = k"
  by (simp add: has_def)

lemma has_nil [simp]: "\<not> has [] x"
  by (simp add: has_def)

lemma has_set: "has t k \<longleftrightarrow> k \<in> fst ` set t"
  by (auto simp: has_def map_of_eq_None_iff)

lemma has_opt_mono: "has_opt t k \<Longrightarrow> (\<And>x. has t x \<Longrightarrow> has u x) \<Longrightarrow> has_opt u k"
  by (auto simp: has_opt_def split: option.splits)

lemma has_update [simp]: "has (AList.update k v t) x \<longleftrightarrow> x = k \<or> has t x"
  by (simp add: has_def update_conv')

lemma has_optI: "k = None \<or> (\<exists>x. k = Some x \<and> has t x) \<Longrightarrow> has_opt t k"
  by (auto simp: has_opt_def)

lemma has_opt_None [simp]: "has_opt t None"
  by (simp add: has_opt_def)

lemma has_opt_Some [simp]: "has_opt t (Some k) \<longleftrightarrow> has t k"
  by (simp add: has_opt_def)

lemma forest_append:
  "forest S (bs @ [(k, b)]) \<longleftrightarrow> forest S bs \<and>
     (case parent_budget_id b of None \<Rightarrow> True | Some p \<Rightarrow> p \<in> S \<union> set (map fst bs))"
  by (cases "parent_budget_id b"; induction bs arbitrary: S) (auto simp del: set_map)

lemma forest_mono: "forest S bs \<Longrightarrow> S \<subseteq> T \<Longrightarrow> forest T bs"
proof (induction bs arbitrary: S T)
  case (Cons x bs)
  then show ?case
    by (cases x) (auto split: option.splits intro: Cons.IH [of "insert (fst x) S"])
qed simp

lemma forest_remove:
  "forest S bs \<Longrightarrow> \<forall>(k, x)\<in>set bs. parent_budget_id x \<noteq> Some b \<Longrightarrow>
     forest (S - {b}) (filter (\<lambda>(k, _). k \<noteq> b) bs)"
proof (induction bs arbitrary: S)
  case (Cons x bs)
  obtain k v where x: "x = (k, v)" by force
  have "forest (insert k S - {b}) (filter (\<lambda>(k, _). k \<noteq> b) bs)"
    using Cons by (simp add: x)
  moreover have "insert k S - {b} = (if k = b then S - {b} else insert k (S - {b}))" by auto
  ultimately show ?case using Cons.prems by (auto simp: x split: option.splits if_splits)
qed simp

lemma map_filter_append [simp]: "List.map_filter f (xs @ ys) = List.map_filter f xs @ List.map_filter f ys"
  by (simp add: List.map_filter_def)

lemma map_filter_one [simp]: "List.map_filter f [x] = (case f x of None \<Rightarrow> [] | Some y \<Rightarrow> [y])"
  by (simp add: List.map_filter_def split: option.splits)

lemma set_map_filter: "y \<in> set (List.map_filter f xs) \<longleftrightarrow> (\<exists>x\<in>set xs. f x = Some y)"
  by (force simp: List.map_filter_def)

lemma distinct_map_filter_filter:
  "distinct (List.map_filter f xs) \<Longrightarrow> distinct (List.map_filter f (filter P xs))"
  by (induction xs) (auto simp: map_filter_simps set_map_filter split: option.splits)

lemma distinct_map_fst_filter: "distinct (map fst t) \<Longrightarrow> distinct (map fst (filter P t))"
  by (rule distinct_map_filter)

lemma set_update_alist: "(x, y) \<in> set (AList.update k v t) \<Longrightarrow> (x, y) \<in> set t \<or> x = k \<and> y = v"
  by (induction t) (auto split: if_splits)

lemma update_split: "y \<in> set (AList.update k v t) \<Longrightarrow> y \<in> set t \<or> y = (k, v)"
  using set_update_alist [of "fst y" "snd y" k v t] by auto

section \<open>The statements keep the schema\<close>

lemma insert_event_eq [stmt]:
  "insert_event e d = Some d' \<longleftrightarrow> event_allowed d e \<and>
     d' = d\<lparr>events := events d @ [e\<lparr>event_id := next_event d\<rparr>], next_event := next_event d + 1\<rparr>"
  by (auto simp: insert_event_def)

lemma event_key_fresh:
  "event_allowed d e \<Longrightarrow> idempotency_key e = Some k \<Longrightarrow> (ev_budget_id e, k) \<notin> set (event_keys (events d))"
  by (auto simp: event_allowed_def event_keys_def set_map_filter list_all_iff)

lemma event_hash_fresh:
  "event_allowed d e \<Longrightarrow> request_hash e = Some h \<Longrightarrow> h \<notin> set (List.map_filter request_hash (events d))"
  by (auto simp: event_allowed_def set_map_filter list_all_iff)

lemma insert_event_schema:
  assumes "schema d" "insert_event e d = Some d'"
  shows "schema d'"
proof -
  have a: "event_allowed d e"
    and d': "d' = d\<lparr>events := events d @ [e\<lparr>event_id := next_event d\<rparr>], next_event := next_event d + 1\<rparr>"
    using assms(2) by (simp_all add: stmt)
  have "distinct (event_keys (events d'))"
    using assms(1) event_key_fresh [OF a]
    by (auto simp: d' schema_defs event_keys_def split: option.splits)
  moreover have "distinct (List.map_filter request_hash (events d'))"
    using assms(1) event_hash_fresh [OF a] by (auto simp: d' schema_defs split: option.splits)
  moreover have "sorted_wrt (<) (map event_id (events d')) \<and> (\<forall>e\<in>set (events d'). event_id e < next_event d')"
    using assms(1) by (fastforce simp: d' schema_defs sorted_wrt_append)
  moreover have "\<forall>x\<in>set (events d'). has (budgets d) (ev_budget_id x) \<and> has (roles d) (acting_role_id x) \<and>
        has_opt (budgets d) (counter_budget_id x)"
    using assms(1) a by (auto simp: d' schema_defs event_allowed_def)
  moreover have "budgets_ok d' \<and> rows_ok d' \<and> policies_ok d' \<and> roles_ok d'"
    using assms(1) by (simp add: d' schema_defs)
  ultimately show ?thesis by (simp add: schema_def events_ok_def) (simp add: d')
qed

lemma insert_budget_eq [stmt]:
  "insert_budget b d = Some d' \<longleftrightarrow> d' = d\<lparr>budgets := budgets d @ [(bg_id b, b)]\<rparr> \<and>
     \<not> has (budgets d) (bg_id b) \<and> has_opt (budgets d) (parent_budget_id b) \<and>
     has (roles d) (owner_role_id b) \<and> has_opt (roles d) (created_by_role_id b) \<and>
     (is_primary b \<longrightarrow>
      list_all (\<lambda>(_, x). \<not> (is_primary x \<and> owner_role_id x = owner_role_id b)) (budgets d))"
  by (auto simp: insert_budget_def)

lemma schema_more_budgets:
  assumes "schema d" "d' = d\<lparr>budgets := budgets d @ [(k, b)]\<rparr>"
  shows "rows_ok d' \<and> policies_ok d' \<and> events_ok d' \<and> roles_ok d'"
  using assms(1) unfolding assms(2) schema_defs
  by (fastforce intro: has_opt_mono)

lemma insert_budget_schema:
  assumes "schema d" "insert_budget b d = Some d'"
  shows "schema d'"
proof -
  have d': "d' = d\<lparr>budgets := budgets d @ [(bg_id b, b)]\<rparr>"
    and new: "\<not> has (budgets d) (bg_id b)" and par: "has_opt (budgets d) (parent_budget_id b)"
    and fk: "has (roles d) (owner_role_id b)" "has_opt (roles d) (created_by_role_id b)"
    and prim: "is_primary b \<longrightarrow> owner_role_id b \<notin> owner_role_id ` set (filter is_primary (map snd (budgets d)))"
    using assms(2) by (auto simp: stmt list_all_iff)
  have "distinct (map owner_role_id (filter is_primary (map snd (budgets d'))))"
    using assms(1) prim by (auto simp: d' schema_defs)
  moreover have "forest {} (budgets d')"
    using assms(1) par by (auto simp: d' schema_defs forest_append has_set has_opt_def split: option.splits)
  moreover have "distinct (map fst (budgets d'))"
    using assms(1) new by (auto simp: d' schema_defs has_set)
  moreover have "\<forall>(k, x)\<in>set (budgets d'). bg_id x = k \<and> has (roles d') (owner_role_id x) \<and>
        has_opt (roles d') (created_by_role_id x)"
    using assms(1) fk by (auto simp: d' schema_defs)
  ultimately show ?thesis
    using schema_more_budgets [OF assms(1) d'] by (simp add: schema_def budgets_ok_def)
qed

lemma insert_policy_eq [stmt]:
  "insert_policy p d = Some d' \<longleftrightarrow> d' = d\<lparr>policies := policies d @ [(po_budget_id p, p)]\<rparr> \<and>
     \<not> has (policies d) (po_budget_id p) \<and> has (budgets d) (po_budget_id p) \<and>
     has_opt (roles d) (set_by_role_id p)"
  by (auto simp: insert_policy_def)

lemma insert_policy_schema: "schema d \<Longrightarrow> insert_policy p d = Some d' \<Longrightarrow> schema d'"
  by (auto simp: stmt schema_defs has_set)

lemma upsert_policy_eq [stmt]:
  "upsert_policy p d = Some d' \<longleftrightarrow> d' = d\<lparr>policies := AList.update (po_budget_id p) p (policies d)\<rparr> \<and>
     has (budgets d) (po_budget_id p) \<and> has_opt (roles d) (set_by_role_id p)"
  by (auto simp: upsert_policy_def)

lemma upsert_policy_schema:
  assumes "schema d" "upsert_policy p d = Some d'"
  shows "schema d'"
proof -
  have d': "d' = d\<lparr>policies := AList.update (po_budget_id p) p (policies d)\<rparr>"
    and fk: "has (budgets d) (po_budget_id p)" "has_opt (roles d) (set_by_role_id p)"
    using assms(2) by (simp_all add: stmt)
  have "policies_ok d'"
    using assms(1) fk by (auto simp: d' schema_defs distinct_update dest!: update_split)
  then show ?thesis using assms(1) by (simp add: d' schema_defs)
qed

lemma schema_more_rows:
  assumes "schema d" "map_of (allowances d) (b, ep) = None" "has (budgets d) b"
  shows "schema (d\<lparr>allowances := allowances d @ [((b, ep), fresh_row b ep c now)]\<rparr>)"
  using assms by (auto simp: schema_defs map_of_eq_None_iff fresh_row_def)

text \<open>A row is changed in place, keeping its key.\<close>

lemma schema_update_row:
  assumes "schema d" "map_of (allowances d) (b, ep) = Some a" "al_budget_id a' = al_budget_id a"
    "epoch a' = epoch a"
  shows "schema (d\<lparr>allowances := AList.update (b, ep) a' (allowances d)\<rparr>)"
proof -
  have "al_budget_id a = b \<and> epoch a = ep \<and> has (budgets d) b"
    using assms(1,2) by (auto simp: schema_defs dest!: map_of_SomeD)
  then have "rows_ok (d\<lparr>allowances := AList.update (b, ep) a' (allowances d)\<rparr>)"
    using assms by (auto simp: schema_defs distinct_update dest!: update_split)
  then show ?thesis using assms(1) by (simp add: schema_defs)
qed

lemma insert_role_eq [stmt]:
  "insert_role r row d = Some d' \<Longrightarrow> d' = d\<lparr>roles := roles d @ [(r, row)]\<rparr> \<and> \<not> has (roles d) r \<and>
     has (entities d) (rr_trust_id row)"
  by (auto simp: insert_role_def split: if_splits)

lemma schema_more_roles:
  assumes "schema d" "\<not> has (roles d) r"
  shows "schema (d\<lparr>roles := roles d @ [(r, row)]\<rparr>)"
proof -
  have "\<And>k. has_opt (roles d) k \<Longrightarrow> has_opt (roles d @ [(r, row)]) k"
    by (rule has_opt_mono) auto
  then show ?thesis using assms unfolding schema_defs by (auto simp: has_set)
qed

lemma insert_role_schema: "schema d \<Longrightarrow> insert_role r w d = Some d' \<Longrightarrow> schema d'"
  using insert_role_eq schema_more_roles by fastforce

lemma insert_grant_schema: "schema d \<Longrightarrow> insert_grant r g d = Some d' \<Longrightarrow> schema d'"
  by (auto simp: insert_grant_def schema_defs split: if_splits)

lemma insert_edge_schema: "schema d \<Longrightarrow> insert_edge p c d = Some d' \<Longrightarrow> schema d'"
  by (auto simp: insert_edge_def schema_defs split: if_splits)

lemma configs_schema:
  assumes "schema d" "cfg_trust_id c = t" "has (roles d) (admin_role_id c)"
  shows "schema (d\<lparr>configs := AList.update t c (configs d)\<rparr>)"
proof -
  have "\<forall>(k, x)\<in>set (AList.update t c (configs d)). cfg_trust_id x = k \<and> has (roles d) (admin_role_id x)"
    using assms by (auto simp: schema_defs dest!: update_split)
  then show ?thesis using assms(1) by (simp add: schema_defs)
qed

section \<open>Rows of a budget\<close>

lemma latest_of_None: "latest_of as = None \<longleftrightarrow> as = []"
  by (cases as) (auto split: option.splits)

lemma latest_of_Some:
  "latest_of as = Some a \<Longrightarrow> a \<in> set as \<and> (\<forall>x\<in>set as. epoch x \<le> epoch a)"
  by (induction as arbitrary: a)
    (auto simp: latest_of_None split: option.splits if_splits intro: order_trans)

lemma row_of_budget:
  assumes "schema d"
  shows "a \<in> set (map snd (filter (\<lambda>((x, _), _). x = b) (allowances d))) \<longleftrightarrow>
    map_of (allowances d) (b, epoch a) = Some a" (is "?l \<longleftrightarrow> ?r")
proof -
  have dist: "distinct (map fst (allowances d))"
    and key: "\<And>x ep. ((x, ep), a) \<in> set (allowances d) \<Longrightarrow> epoch a = ep"
    using assms by (auto simp: schema_defs)
  have "?l \<longleftrightarrow> (\<exists>ep. ((b, ep), a) \<in> set (allowances d))" by force
  also have "\<dots> \<longleftrightarrow> ((b, epoch a), a) \<in> set (allowances d)" using key by blast
  also have "\<dots> \<longleftrightarrow> ?r" using map_of_eq_Some_iff [OF dist, of "(b, epoch a)" a] by simp
  finally show ?thesis .
qed

lemma latest_row_Some:
  assumes "schema d" "latest_row b d = Some a"
  shows "map_of (allowances d) (b, epoch a) = Some a"
    and "map_of (allowances d) (b, ep) = Some x \<Longrightarrow> ep \<le> epoch a"
proof -
  note L = latest_of_Some [OF assms(2) [unfolded latest_row_def], unfolded Ball_def row_of_budget [OF assms(1)]]
  show "map_of (allowances d) (b, epoch a) = Some a" using L by blast
  assume x: "map_of (allowances d) (b, ep) = Some x"
  then have "epoch x = ep" using assms(1) by (auto simp: schema_defs dest!: map_of_SomeD)
  with x L show "ep \<le> epoch a" by blast
qed

lemma latest_row_None:
  assumes "schema d" "latest_row b d = None"
  shows "map_of (allowances d) (b, ep) = None"
proof (rule ccontr)
  assume "map_of (allowances d) (b, ep) \<noteq> None"
  then obtain x where "((b, ep), x) \<in> set (allowances d)" by (auto dest: map_of_SomeD)
  then show False using assms(2) by (force simp: latest_row_def latest_of_None filter_empty_conv)
qed

lemma latest_allowance_Some:
  "latest_allowance b d = Inr (Some a) \<longleftrightarrow> latest_row b d = Some a \<and> readable a"
  by (auto simp: latest_allowance_def read_row_def split: option.splits)

lemma latest_allowance_None: "latest_allowance b d = Inr None \<longleftrightarrow> latest_row b d = None"
  by (auto simp: latest_allowance_def read_row_def split: option.splits)

lemma get_allowance_Some:
  "get_allowance b ep d = Inr (Some a) \<longleftrightarrow> map_of (allowances d) (b, ep) = Some a \<and> readable a"
  by (auto simp: get_allowance_def read_row_def split: option.splits)

text \<open>A budget is refreshed into an epoch it has no row for.\<close>

lemma refresh_epoch_absent:
  assumes "schema d" "latest_allowance b d = Inr latest"
    "case latest of None \<Rightarrow> True | Some l \<Rightarrow> epoch l < cur"
  shows "map_of (allowances d) (b, cur) = None"
proof (cases latest)
  case None
  then show ?thesis using assms latest_row_None by (simp add: latest_allowance_None)
next
  case (Some l)
  then show ?thesis
    using assms latest_row_Some(2) [of d b l cur] by (fastforce simp: latest_allowance_Some)
qed

section \<open>Results\<close>

lemma bindR_keeps:
  "P (snd m) \<Longrightarrow> (\<And>x d. m = (Inr x, d) \<Longrightarrow> P (snd (f x d))) \<Longrightarrow> P (snd (bindR m f))"
  by (auto simp: bindR_def split: prod.splits sum.splits)

lemma with_budget_keeps:
  "P d \<Longrightarrow> (\<And>x. get_budget b d = Some x \<Longrightarrow> P (snd (k x d))) \<Longrightarrow> P (snd (with_budget b k d))"
  by (auto simp: with_budget_def failB_def split: option.splits)

lemma with_latest_keeps:
  "P d \<Longrightarrow> (\<And>a. latest_row b d = Some a \<Longrightarrow> readable a \<Longrightarrow> P (snd (k a d))) \<Longrightarrow>
     P (snd (with_latest b k d))"
  by (auto simp: with_latest_def failB_def latest_allowance_Some split: option.splits sum.splits)

lemma exec_keeps: "P d \<Longrightarrow> (\<And>d'. r = Some d' \<Longrightarrow> P d') \<Longrightarrow> P (snd (exec r d))"
  by (auto simp: exec_def split: option.splits)

lemma transaction_keeps: "P d \<Longrightarrow> (\<And>x d'. m = (Inr x, d') \<Longrightarrow> P d') \<Longrightarrow> P (snd (transaction d m))"
  by (auto simp: transaction_def split: prod.splits sum.splits)

lemma failB_snd [simp]: "snd (failB e d) = d"
  by (simp add: failB_def)

lemma bindR_Inr: "bindR m f = (Inr y, d'') \<longleftrightarrow> (\<exists>x d'. m = (Inr x, d') \<and> f x d' = (Inr y, d''))"
  by (auto simp: bindR_def split: prod.splits sum.splits)

lemma exec_Inr: "exec r d = (Inr x, d') \<longleftrightarrow> r = Some d'"
  by (auto simp: exec_def split: option.splits)

lemma transaction_Inr: "transaction d m = (Inr x, d') \<longleftrightarrow> m = (Inr x, d')"
  by (auto simp: transaction_def split: prod.splits sum.splits)

lemma with_budget_Inr:
  "with_budget b k d = (Inr y, d') \<longleftrightarrow> (\<exists>x. get_budget b d = Some x \<and> k x d = (Inr y, d'))"
  by (auto simp: with_budget_def failB_def split: option.splits)

lemma with_latest_Inr:
  "with_latest b k d = (Inr y, d') \<longleftrightarrow> (\<exists>a. latest_row b d = Some a \<and> readable a \<and> k a d = (Inr y, d'))"
  unfolding latest_allowance_Some [symmetric] conj_assoc [symmetric]
  by (auto simp: with_latest_def failB_def split: option.splits sum.splits)

lemma failB_Inr [simp]: "failB e d \<noteq> (Inr y, d')"
  by (simp add: failB_def)

lemmas ok_simps = bindR_Inr exec_Inr transaction_Inr with_budget_Inr with_latest_Inr

lemma get_budget_has: "get_budget b d = Some x \<Longrightarrow> has (budgets d) b"
  by (simp add: get_budget_def has_def)

lemma owner_exists: "schema d \<Longrightarrow> get_budget b d = Some x \<Longrightarrow> has (roles d) (owner_role_id x)"
  by (auto simp: schema_defs get_budget_def dest!: map_of_SomeD)

lemma bg_id_eq: "schema d \<Longrightarrow> get_budget b d = Some x \<Longrightarrow> bg_id x = b"
  by (auto simp: schema_defs get_budget_def dest!: map_of_SomeD)

lemma edge_ends: "schema d \<Longrightarrow> (p, c) \<in> set (role_edges d) \<Longrightarrow> has (roles d) p \<and> has (roles d) c \<and> p \<noteq> c"
  by (auto simp: schema_defs)

section \<open>The operations\<close>

datatype reg_op =
    OpRefresh string stamp
  | OpPrimary string string stamp
  | OpCreate string "string option" string string BudgetKind string "string option" "string option" string stamp
  | OpPolicy string AllowanceBundle int RolloverMode string "string option" "string option" stamp
  | OpAllocate string string AllowanceBundle string "string option" "string option" "nat \<Rightarrow> stamp"
  | OpInference string int string string string "nat \<Rightarrow> stamp"
  | OpTreasury string string int "string option" string "string option" "string option" "nat \<Rightarrow> stamp"
  | OpHire string string NewRoleSpec AllowanceBundle string "string option" "string option" string string
      "nat \<Rightarrow> stamp"
  | OpDissolve string string "string option" "string option" stamp
  | OpPause string bool string "string option" stamp
  | OpConfig string string string stamp

fun apply_op :: "reg_op \<Rightarrow> reg_db \<Rightarrow> reg_db" where
  "apply_op (OpRefresh b now) d = snd (current_allowance b now d)"
| "apply_op (OpPrimary r uuid now) d = snd (primary_budget r uuid now d)"
| "apply_op (OpCreate trust par own name kind caller agent key uuid now) d =
     snd (create_budget trust par own name kind caller agent key uuid now d)"
| "apply_op (OpPolicy b defs period mode caller agent key now) d =
     snd (set_policy b defs period mode caller agent key now d)"
| "apply_op (OpAllocate par ch x caller agent key clk) d = snd (allocate par ch x caller agent key clk d)"
| "apply_op (OpInference b amt hash actor gateway clk) d = snd (spend_inference b amt hash actor gateway clk d)"
| "apply_op (OpTreasury b dest amt memo caller agent key clk) d =
     snd (spend_treasury b dest amt memo caller agent key clk d)"
| "apply_op (OpHire par prole spec x caller agent key rid bid clk) d =
     snd (hire par prole spec x caller agent key rid bid clk d)"
| "apply_op (OpDissolve b caller agent key now) d = snd (dissolve b caller agent key now d)"
| "apply_op (OpPause trust p caller agent now) d = snd (set_pause trust p caller agent now d)"
| "apply_op (OpConfig trust gateway admin now) d = snd (init_treasury_config trust gateway admin now d)"

definition run :: "reg_op list \<Rightarrow> reg_db \<Rightarrow> reg_db" where
  "run = fold apply_op"

lemma run_simps [simp]: "run [] d = d" "run (x # xs) d = run xs (apply_op x d)"
  by (simp_all add: run_def)

text \<open>The operations that move an allowance: source, target, bundle, hires used.\<close>

fun moves :: "reg_op \<Rightarrow> (string \<times> string \<times> AllowanceBundle \<times> int) option" where
  "moves (OpAllocate par ch x _ _ _ _) = Some (par, ch, x, hire_cap x)"
| "moves (OpHire par _ _ x _ _ _ _ bid _) = Some (par, bid, x, 1)"
| "moves _ = None"

text \<open>What has been checked when the two rows are updated.\<close>

definition may_move :: "reg_db \<Rightarrow> string \<Rightarrow> string \<Rightarrow> AllowanceBundle \<Rightarrow> int \<Rightarrow> int \<Rightarrow> int \<Rightarrow> bool" where
  "may_move d par ch x h pep cep \<longleftrightarrow> (\<exists>pb cb pa.
     get_budget par d = Some pb \<and> get_budget ch d = Some cb \<and> trust_id cb = trust_id pb \<and>
     assert_not_paused (trust_id pb) d \<and>
     map_of (allowances d) (par, pep) = Some pa \<and> readable pa \<and>
     map_of (allowances d) (ch, cep) \<noteq> None \<and>
     need_total x \<le> remaining_suballoc pa \<and> h \<le> remaining_hire pa)"

definition moved :: "string \<Rightarrow> string \<Rightarrow> AllowanceBundle \<Rightarrow> int \<Rightarrow> int \<Rightarrow> int \<Rightarrow> stamp \<Rightarrow> reg_db \<Rightarrow> reg_db" where
  "moved par ch x h pep cep now d = update_allowance ch cep (credit_bundle x now)
     (update_allowance par pep (debit_suballoc (need_total x) h now) d)"

definition may_spend_inference :: "reg_db \<Rightarrow> string \<Rightarrow> int \<Rightarrow> int \<Rightarrow> bool" where
  "may_spend_inference d b amt ep \<longleftrightarrow> (\<exists>x a. get_budget b d = Some x \<and> assert_not_paused (trust_id x) d \<and>
     map_of (allowances d) (b, ep) = Some a \<and> readable a \<and> amt \<le> remaining_inference a)"

definition may_spend_treasury :: "reg_db \<Rightarrow> string \<Rightarrow> int \<Rightarrow> string \<Rightarrow> int \<Rightarrow> bool" where
  "may_spend_treasury d b amt caller ep \<longleftrightarrow> (\<exists>x a row. get_budget b d = Some x \<and>
     assert_not_paused (trust_id x) d \<and> owner_role_id x = caller \<and>
     map_of (roles d) caller = Some row \<and> rr_occupant_kind row \<noteq> ''vacant'' \<and>
     map_of (allowances d) (b, ep) = Some a \<and> readable a \<and> amt \<le> remaining_treasury a)"

definition may_remove :: "reg_db \<Rightarrow> string \<Rightarrow> bool" where
  "may_remove d b \<longleftrightarrow> (\<exists>x. get_budget b d = Some x \<and> assert_not_paused (trust_id x) d \<and> \<not> is_primary x) \<and>
     (\<forall>(_, x)\<in>set (budgets d). parent_budget_id x \<noteq> Some b) \<and>
     (\<forall>((k, _), a)\<in>set (allowances d). k = b \<longrightarrow> settled_row a)"

definition removed :: "string \<Rightarrow> reg_db \<Rightarrow> reg_db" where
  "removed b d = delete_budget b (d\<lparr>events :=
     filter (\<lambda>e. ev_budget_id e \<noteq> b \<and> counter_budget_id e \<noteq> Some b) (events d),
     next_event := next_event d + 1\<rparr>)"

definition is_spend :: "event_type \<Rightarrow> bool" where
  "is_spend ty \<longleftrightarrow> ty = EV_INFERENCE_SPENT \<or> ty = EV_TREASURY_SPENT"

lemma is_spend_simps [simp]:
  "is_spend EV_INFERENCE_SPENT" "is_spend EV_TREASURY_SPENT" "\<not> is_spend EV_BUDGET_CREATED"
  "\<not> is_spend EV_ALLOWANCE_CREATED" "\<not> is_spend EV_ALLOCATED" "\<not> is_spend EV_HIRED"
  "\<not> is_spend EV_EPOCH_REFRESHED" "\<not> is_spend EV_POLICY_SET" "\<not> is_spend EV_BUDGET_DISSOLVED"
  "\<not> is_spend EV_TREASURY_PAUSED"
  by (simp_all add: is_spend_def)

lemma make_event_simps [simp]:
  "ev_type (make_event ty b r agent counter ep amt hash key now) = ty"
  "ev_budget_id (make_event ty b r agent counter ep amt hash key now) = b"
  "acting_role_id (make_event ty b r agent counter ep amt hash key now) = r"
  "counter_budget_id (make_event ty b r agent counter ep amt hash key now) = counter"
  "ev_epoch (make_event ty b r agent counter ep amt hash key now) = ep"
  "amount (make_event ty b r agent counter ep amt hash key now) = amt"
  "request_hash (make_event ty b r agent counter ep amt hash key now) = hash"
  "idempotency_key (make_event ty b r agent counter ep amt hash key now) = key"
  by (simp_all add: make_event_def)

end
