(* ===== verification/Budget_Registry_Steps.thy ===== *)
theory Budget_Registry_Steps
  imports Budget_Registry_Schema
begin

text \<open>
  The operations of the budget registry step by step: what a refresh does, that the writes of an
  operation never fail half way on a well-formed database, and the locale \<open>reg_invariant\<close> with
  its first interpretation, the schema itself.
\<close>

section \<open>Refreshing\<close>

definition with_row :: "string \<Rightarrow> int \<Rightarrow> AllowanceBundle \<Rightarrow> stamp \<Rightarrow> reg_db \<Rightarrow> reg_db" where
  "with_row b ep c now d = d\<lparr>allowances := allowances d @ [((b, ep), fresh_row b ep c now)]\<rparr>"

lemma with_row_simps [simp]:
  "budgets (with_row b ep c now d) = budgets d" "roles (with_row b ep c now d) = roles d"
  "policies (with_row b ep c now d) = policies d" "configs (with_row b ep c now d) = configs d"
  "events (with_row b ep c now d) = events d" "next_event (with_row b ep c now d) = next_event d"
  "entities (with_row b ep c now d) = entities d"
  by (simp_all add: with_row_def)

lemma upsert_absent:
  "map_of (allowances d) (b, ep) = None \<Longrightarrow> has (budgets d) b \<Longrightarrow>
     upsert_allowance b ep c now d = Some (with_row b ep c now d)"
  by (simp add: upsert_allowance_def insert_allowance_if_absent_def with_row_def)

lemma row_if_absent:
  "insert_allowance_if_absent b ep c now d = Some d' \<longleftrightarrow>
     map_of (allowances d) (b, ep) \<noteq> None \<and> d' = d \<or>
     map_of (allowances d) (b, ep) = None \<and> has (budgets d) b \<and> d' = with_row b ep c now d"
  by (auto simp: insert_allowance_if_absent_def with_row_def)

text \<open>A refresh changes nothing, or adds the row of the current epoch and its event.\<close>

definition refreshed :: "reg_db \<Rightarrow> string \<Rightarrow> reg_db \<Rightarrow> bool" where
  "refreshed d b d' \<longleftrightarrow> (\<exists>x cur c ty now. get_budget b d = Some x \<and>
     map_of (allowances d) (b, cur) = None \<and> \<not> is_spend ty \<and>
     insert_event (make_event ty b (owner_role_id x) None None cur None None None now)
       (with_row b cur c now d) = Some d')"

lemma refresh_at_effect:
  assumes "schema d"
  shows "snd (refresh_at b now d) = d \<or> refreshed d b (snd (refresh_at b now d))"
  unfolding refresh_at_def
proof (rule with_budget_keeps)
  fix x assume x: "get_budget b d = Some x"
  let ?P = "\<lambda>d'. d' = d \<or> refreshed d b d'"
  have tx: "?P (snd (refresh_tx x p l cur now d))"
    if "map_of (allowances d) (b, cur) = None" for p l cur
  proof -
    let ?tx = "bindR (exec (upsert_allowance (bg_id x) cur (rolled_caps p l) now d) d) (\<lambda>_ d1.
           exec (insert_event (make_event (if l = None then EV_ALLOWANCE_CREATED else EV_EPOCH_REFRESHED)
             (bg_id x) (owner_role_id x) None None cur None None None now) d1) d1)"
    have T: "?P (snd (transaction d ?tx))"
    proof (rule transaction_keeps)
      fix u d' assume "?tx = (Inr u, d')"
      then have "insert_event (make_event (if l = None then EV_ALLOWANCE_CREATED else EV_EPOCH_REFRESHED)
               b (owner_role_id x) None None cur None None None now)
             (with_row b cur (rolled_caps p l) now d) = Some d'"
        using that x get_budget_has [OF x] by (auto simp: ok_simps upsert_absent bg_id_eq [OF assms])
      then have "refreshed d b d'" using x that unfolding refreshed_def by (metis is_spend_simps(4,7))
      then show "?P d'" ..
    qed simp
    show ?thesis unfolding refresh_tx_def
      by (rule bindR_keeps [of ?P, OF T]) (use T in \<open>auto split: sum.splits option.splits\<close>)
  qed
  then show "?P (snd (case get_policy b d of None \<Rightarrow> failB (EPolicyMissing b) d
     | Some p \<Rightarrow> (let cur = epoch_at (timestamp now) (trust_anchor_unix (trust_id x) d) (epoch_period_secs p) in
          case latest_allowance b d of
            Inl e \<Rightarrow> (Inl e, d)
          | Inr latest \<Rightarrow> if (case latest of None \<Rightarrow> True | Some l \<Rightarrow> epoch l < cur)
              then refresh_tx x p latest cur now d else (Inr None, d))))"
    using refresh_epoch_absent [OF assms]
    by (auto simp: Let_def split: option.splits sum.splits)
qed simp

lemma refreshed_frame:
  assumes "refreshed d b d'"
  shows "budgets d' = budgets d" "roles d' = roles d" "configs d' = configs d" "policies d' = policies d"
    "entities d' = entities d"
    "map_of (allowances d) k = Some a \<Longrightarrow> map_of (allowances d') k = Some a"
    "dedup_existing ob key d' = dedup_existing ob key d" "dedup_request_hash h d' = dedup_request_hash h d"
  using assms
  by (auto simp: refreshed_def stmt with_row_def dedup_existing_def dedup_request_hash_def map_add_def
      make_event_def split: option.splits)

lemma refresh_frame:
  assumes "schema d" "refresh_at b now d = (r, d')"
  shows "budgets d' = budgets d" "roles d' = roles d" "configs d' = configs d" "policies d' = policies d"
    "entities d' = entities d"
    "map_of (allowances d) k = Some a \<Longrightarrow> map_of (allowances d') k = Some a"
    "dedup_existing ob key d' = dedup_existing ob key d" "dedup_request_hash h d' = dedup_request_hash h d"
proof -
  consider "d' = d" | "refreshed d b d'"
    using refresh_at_effect [OF assms(1), of b now] assms(2) by auto
  then show "budgets d' = budgets d" "roles d' = roles d" "configs d' = configs d" "policies d' = policies d"
    "entities d' = entities d"
    "map_of (allowances d) k = Some a \<Longrightarrow> map_of (allowances d') k = Some a"
    "dedup_existing ob key d' = dedup_existing ob key d" "dedup_request_hash h d' = dedup_request_hash h d"
    by (metis refreshed_frame)+
qed

lemma refresh_frame_reads:
  assumes "schema d" "refresh_at b now d = (r, d')"
  shows "get_budget x d' = get_budget x d" "assert_not_paused t d' = assert_not_paused t d"
    "seen_before ob key d' = seen_before ob key d"
  using refresh_frame [OF assms]
  by (simp_all add: get_budget_def assert_not_paused_def get_treasury_config_def seen_before_def split: option.split)

section \<open>Updating rows\<close>

lemma update_allowance_frame [simp]:
  "budgets (update_allowance b ep f d) = budgets d" "roles (update_allowance b ep f d) = roles d"
  "policies (update_allowance b ep f d) = policies d" "configs (update_allowance b ep f d) = configs d"
  "events (update_allowance b ep f d) = events d" "next_event (update_allowance b ep f d) = next_event d"
  "entities (update_allowance b ep f d) = entities d"
  "role_grants (update_allowance b ep f d) = role_grants d"
  "role_edges (update_allowance b ep f d) = role_edges d"
  by (simp_all add: update_allowance_def split: option.splits)

lemma update_allowance_rows:
  "map_of (allowances (update_allowance b ep f d)) k =
     (if k = (b, ep) then map_option f (map_of (allowances d) k) else map_of (allowances d) k)"
  by (simp add: update_allowance_def update_conv' split: option.splits)

lemma update_allowance_schema:
  assumes "schema d" "\<And>a. al_budget_id (f a) = al_budget_id a" "\<And>a. epoch (f a) = epoch a"
  shows "schema (update_allowance b ep f d)"
  using assms by (auto simp: update_allowance_def intro: schema_update_row split: option.splits)

definition spent_inf :: "int \<Rightarrow> stamp \<Rightarrow> BudgetAllowance \<Rightarrow> BudgetAllowance" where
  "spent_inf amt now a = a\<lparr>spent_inference := spent_inference a + amt, last_event_at := now\<rparr>"

definition spent_tre :: "int \<Rightarrow> stamp \<Rightarrow> BudgetAllowance \<Rightarrow> BudgetAllowance" where
  "spent_tre amt now a = a\<lparr>spent_treasury := spent_treasury a + amt, last_event_at := now\<rparr>"

text \<open>The audit event of a checked spend is always accepted.\<close>

lemma not_seen_key: "\<not> seen_before b key d \<Longrightarrow> key = None \<or>
    list_all (\<lambda>x. ev_budget_id x \<noteq> b \<or> idempotency_key x \<noteq> key) (events d)"
  by (cases key) (auto simp: seen_before_def dedup_existing_def find_None_iff list_all_iff)

lemma not_seen_hash: "dedup_request_hash h d = None \<Longrightarrow>
    list_all (\<lambda>x. request_hash x \<noteq> Some h) (events d)"
  by (auto simp: dedup_request_hash_def find_None_iff list_all_iff)

lemma event_allowed_rows: "event_allowed (update_allowance b ep f d) e = event_allowed d e"
  by (simp add: event_allowed_def)

lemma spend_event_allowed:
  assumes "has (budgets d) b" "has (roles d) r" "has_opt (budgets d) counter"
    "\<not> seen_before b key d" "hash = None \<or> dedup_request_hash (the hash) d = None"
  shows "event_allowed d (make_event ty b r agent counter ep amt hash key now)"
  using assms(1-3) not_seen_key [OF assms(4)] assms(5) not_seen_hash [of "the hash" d]
  by (auto simp: event_allowed_def list_all_iff)

lemma event_allowed_insert:
  "event_allowed d e \<Longrightarrow> insert_event e d =
     Some (d\<lparr>events := events d @ [e\<lparr>event_id := next_event d\<rparr>], next_event := next_event d + 1\<rparr>)"
  by (simp add: insert_event_def)

lemma spend_inference_write_eq:
  "spend_inference_write b own amt hash actor now ep d =
     exec (insert_event (make_event EV_INFERENCE_SPENT b own (Some actor) None ep (Some amt) (Some hash) None now)
       (update_allowance b ep (spent_inf amt now) d)) (update_allowance b ep (spent_inf amt now) d)"
  by (simp add: spend_inference_write_def Let_def spent_inf_def [abs_def])

lemma spend_treasury_write_eq:
  "spend_treasury_write b amt caller agent key now ep d =
     exec (insert_event (make_event EV_TREASURY_SPENT b caller agent None ep (Some amt) None key now)
       (update_allowance b ep (spent_tre amt now) d)) (update_allowance b ep (spent_tre amt now) d)"
  by (simp add: spend_treasury_write_def Let_def spent_tre_def [abs_def])

section \<open>Spending from the treasury\<close>

lemma refreshed_schema: "schema d \<Longrightarrow> refreshed d b d' \<Longrightarrow> schema d'"
  unfolding refreshed_def
  by (metis get_budget_has insert_event_schema schema_more_rows with_row_def)

lemma refresh_result:
  assumes "schema d" "refresh_at b now d = (r, d')"
  shows "d' = d \<or> refreshed d b d'"
  using refresh_at_effect [OF assms(1), of b now] assms(2) by simp

text \<open>A spend changes nothing, refreshes the budget, or makes the payment with its event.\<close>

lemma spend_treasury_effect:
  assumes S: "schema d"
    and d': "spend_treasury b dest amt memo caller agent key clk d = (res, d')"
  obtains (no_spend) "d' = d \<or> refreshed d b d'" "seen_before b key d \<or> (\<exists>e. res = Inl e)"
  | (spend) d1 ep where "d1 = d \<or> refreshed d b d1" "\<not> seen_before b key d" "res = Inr ()"
      "may_spend_treasury d1 b amt caller ep"
      "insert_event (make_event EV_TREASURY_SPENT b caller agent None ep (Some amt) None key (clk 1))
        (update_allowance b ep (spent_tre amt (clk 1)) d1) = Some d'"
proof -
  let ?c = "spend_treasury_check b amt caller key (clk 0) d"
  define U where "U d' \<longleftrightarrow> d' = d \<or> refreshed d b d'" for d'
  have U: "U d" "U (snd (refresh_at b (clk 0) d))"
    using refresh_at_effect [OF S, of b "clk 0"] by (auto simp: U_def)
  have "U (snd ?c)"
    unfolding spend_treasury_check_def using U
    by (auto split: option.splits intro!: with_budget_keeps [of U] bindR_keeps [of U] with_latest_keeps [of U])
  then have keep: "snd ?c = d \<or> refreshed d b (snd ?c)" by (simp add: U_def)
  obtain rc d1 where c: "?c = (rc, d1)" by (cases ?c)
  show thesis
  proof (cases "\<exists>ep. rc = Inr (Some ep)")
    case False
    then have "d' = d1" "res = (case rc of Inl e \<Rightarrow> Inl e | Inr _ \<Rightarrow> Inr ())"
      using d' by (auto simp: spend_treasury_def bindR_def c split: sum.splits option.splits)
    moreover have "seen_before b key d" if "rc = Inr None"
      using c that by (auto simp: spend_treasury_check_def ok_simps split: option.splits if_splits)
    moreover have "rc = Inr None \<or> (\<exists>e. rc = Inl e)" using False by (cases rc) auto
    ultimately show thesis using no_spend keep c by auto
  next
    case True
    then obtain ep where ep: "?c = (Inr (Some ep), d1)" using c by auto
    then obtain x row r a where x: "get_budget b d = Some x" "assert_not_paused (trust_id x) d"
        "owner_role_id x = caller" "map_of (roles d) caller = Some row" "rr_occupant_kind row \<noteq> ''vacant''"
      and s: "\<not> seen_before b key d" and r: "refresh_at b (clk 0) d = (r, d1)"
      and a: "latest_row b d1 = Some a" "readable a" "amt \<le> remaining_treasury a" "ep = epoch a"
      by (auto simp: spend_treasury_check_def ok_simps split: option.splits if_splits)
    have R: "d1 = d \<or> refreshed d b d1" by (rule refresh_result [OF S r])
    then have S1: "schema d1" using S refreshed_schema by blast
    note F = refresh_frame [OF S r] refresh_frame_reads [OF S r]
    have m: "may_spend_treasury d1 b amt caller ep"
      using F x a latest_row_Some(1) [OF S1 a(1)] by (auto simp: may_spend_treasury_def)
    have "event_allowed d1 (make_event EV_TREASURY_SPENT b caller agent None ep (Some amt) None key (clk 1))"
      using F s x owner_exists [OF S x(1)] get_budget_has [OF x(1)] by (intro spend_event_allowed) auto
    then have "insert_event (make_event EV_TREASURY_SPENT b caller agent None ep (Some amt) None key (clk 1))
        (update_allowance b ep (spent_tre amt (clk 1)) d1) = Some d'" "res = Inr ()"
      using d' by (auto simp: spend_treasury_def bindR_def ep spend_treasury_write_eq exec_def
          event_allowed_insert event_allowed_rows)
    then show thesis using spend [OF R s _ m] by blast
  qed
qed

section \<open>Setting up a hire\<close>

definition hired_role :: "RegBudget \<Rightarrow> NewRoleSpec \<Rightarrow> stamp \<Rightarrow> role_row" where
  "hired_role pb spec now =
     (let kind = (case ns_occupant_kind spec of None \<Rightarrow> ''vacant'' | Some k \<Rightarrow> k) in
      \<lparr>rr_trust_id = trust_id pb, rr_title = ns_title spec, rr_occupant_kind = kind,
       rr_occupant_id = (if kind = ''vacant'' then None else ns_occupant_id spec),
       rr_role_type = (case ns_role_type spec of None \<Rightarrow> ''operational'' | Some t \<Rightarrow> t),
       rr_founder = False, rr_created_at = now,
             rr_updated_at = None, rr_description_idea_id = None\<rparr>)"

definition hired_budget :: "RegBudget \<Rightarrow> NewRoleSpec \<Rightarrow> string \<Rightarrow> string \<Rightarrow> string \<Rightarrow> stamp \<Rightarrow> RegBudget" where
  "hired_budget pb spec caller rid bid now = \<lparr>bg_id = bid, trust_id = trust_id pb,
     parent_budget_id = Some (bg_id pb), owner_role_id = rid, bg_name = primary_name (ns_title spec),
     bg_kind = Primary, is_primary = True, created_by_role_id = Some caller, bg_created_at = now\<rparr>"

definition hired_grants :: "NewRoleSpec \<Rightarrow> string list" where
  "hired_grants spec = (case ns_grants spec of
     None \<Rightarrow> default_grants (case ns_role_type spec of None \<Rightarrow> ''operational'' | Some t \<Rightarrow> t)
   | Some g \<Rightarrow> g)"

lemma hire_setup_steps:
  assumes "hire_setup pb prole spec caller rid bid now pep cep d = Some d'"
  obtains d1 d2 d3 d4 d5 d6 where
    "insert_role rid (hired_role pb spec now) d = Some d1" "insert_grants rid (hired_grants spec) d1 = Some d2"
    "(if prole \<noteq> rid then insert_edge prole rid d2 else Some d2) = Some d3"
    "insert_budget (hired_budget pb spec caller rid bid now) d3 = Some d4"
    "insert_policy ((policy_zero bid now)\<lparr>set_by_role_id := Some caller\<rparr>) d4 = Some d5"
    "ensure_allowance_row (bg_id pb) pep now d5 = Some d6"
    "insert_allowance_if_absent bid cep bundle_zero now d6 = Some d'"
  using assms unfolding hire_setup_def Let_def bind_eq_Some_conv
  by (auto simp: hired_role_def hired_budget_def hired_grants_def Let_def)

lemma insert_grant_frame:
  "insert_grant r a d = Some d' \<Longrightarrow> \<exists>g. d' = d\<lparr>role_grants := g\<rparr> \<and> set g = insert (r, a) (set (role_grants d))"
  by (auto simp: insert_grant_def split: if_splits intro: exI [of _ "role_grants d"])

lemma insert_grants_frame:
  "insert_grants r gs d = Some d' \<Longrightarrow> \<exists>g. d' = d\<lparr>role_grants := g\<rparr> \<and> set g = set (role_grants d) \<union> Pair r ` set gs"
proof (induction gs arbitrary: d)
  case (Cons a gs)
  obtain y where y: "insert_grant r a d = Some y" "insert_grants r gs y = Some d'"
    using Cons.prems by (auto simp: bind_eq_Some_conv)
  obtain h where h: "y = d\<lparr>role_grants := h\<rparr>" "set h = insert (r, a) (set (role_grants d))"
    using insert_grant_frame [OF y(1)] by blast
  obtain g where "d' = y\<lparr>role_grants := g\<rparr>" "set g = set (role_grants y) \<union> Pair r ` set gs"
    using Cons.IH [OF y(2)] by blast
  then show ?case using h by auto
qed (auto intro: exI [of _ "role_grants d'"])

lemma insert_edge_frame: "insert_edge p c d = Some d' \<Longrightarrow> \<exists>e. d' = d\<lparr>role_edges := e\<rparr> \<and> set e = insert (p, c) (set (role_edges d))"
  by (auto simp: insert_edge_def split: if_splits intro: exI [of _ "role_edges d"])

lemma hire_setup_frame:
  assumes "hire_setup pb prole spec caller rid bid now pep cep d = Some d'"
  shows "budgets d' = budgets d @ [(bid, hired_budget pb spec caller rid bid now)]"
    and "roles d' = roles d @ [(rid, hired_role pb spec now)]"
    and "configs d' = configs d" "events d' = events d"
    and "policies d' = policies d @ [(bid, (policy_zero bid now)\<lparr>set_by_role_id := Some caller\<rparr>)]"
    and "\<not> has (budgets d) bid" "\<not> has (roles d) rid"
    and "set (role_grants d') = set (role_grants d) \<union> Pair rid ` set (hired_grants spec)"
    and "prole \<noteq> rid \<Longrightarrow> (prole, rid) \<in> set (role_edges d')"
    and "\<exists>c. allowances d' = allowances d \<and> map_of (allowances d) (bg_id pb, pep) \<noteq> None \<and>
           map_of (allowances d) (bid, cep) \<noteq> None \<or>
         allowances d' = allowances d @ [((bid, cep), fresh_row bid cep bundle_zero now)] \<and>
           map_of (allowances d) (bid, cep) = None \<or>
         allowances d' = allowances d @ [((bg_id pb, pep), c)] \<or>
         allowances d' = allowances d @ [((bg_id pb, pep), c), ((bid, cep), fresh_row bid cep bundle_zero now)]"
    and "map_of (allowances d') (bid, cep) \<noteq> None"
proof -
  obtain d1 d2 d3 d4 d5 d6 where S:
    "insert_role rid (hired_role pb spec now) d = Some d1" "insert_grants rid (hired_grants spec) d1 = Some d2"
    "(if prole \<noteq> rid then insert_edge prole rid d2 else Some d2) = Some d3"
    "insert_budget (hired_budget pb spec caller rid bid now) d3 = Some d4"
    "insert_policy ((policy_zero bid now)\<lparr>set_by_role_id := Some caller\<rparr>) d4 = Some d5"
    "ensure_allowance_row (bg_id pb) pep now d5 = Some d6"
    "insert_allowance_if_absent bid cep bundle_zero now d6 = Some d'"
    using hire_setup_steps [OF assms] by metis
  obtain g where g: "d2 = d1\<lparr>role_grants := g\<rparr>" "set g = set (role_grants d1) \<union> Pair rid ` set (hired_grants spec)"
    using insert_grants_frame [OF S(2)] by blast
  obtain e where e: "d3 = d2\<lparr>role_edges := e\<rparr>" "prole \<noteq> rid \<Longrightarrow> (prole, rid) \<in> set e"
  proof (cases "prole = rid")
    case True
    then show ?thesis using S(3) that [of "role_edges d2"] by simp
  next
    case False
    then show ?thesis using S(3) insert_edge_frame [of prole rid d2 d3] that by auto
  qed
  have 1: "d1 = d\<lparr>roles := roles d @ [(rid, hired_role pb spec now)]\<rparr>" and n: "\<not> has (roles d) rid"
    using insert_role_eq [OF S(1)] by auto
  have 5: "d5 = d3\<lparr>budgets := budgets d3 @ [(bid, hired_budget pb spec caller rid bid now)],
      policies := policies d3 @ [(bid, (policy_zero bid now)\<lparr>set_by_role_id := Some caller\<rparr>)]\<rparr>"
    and b: "\<not> has (budgets d) bid"
    using S(4,5) by (auto simp: stmt hired_budget_def policy_zero_def g e 1)
  have 6: "d6 = d5 \<and> map_of (allowances d) (bg_id pb, pep) \<noteq> None \<or>
      map_of (allowances d) (bg_id pb, pep) = None \<and> (\<exists>c. d6 = with_row (bg_id pb) pep c now d5)"
    using S(6) by (auto simp: ensure_allowance_row_def row_if_absent 5 g e 1)
  have 7: "d' = d6 \<and> map_of (allowances d6) (bid, cep) \<noteq> None \<or>
      map_of (allowances d6) (bid, cep) = None \<and> d' = with_row bid cep bundle_zero now d6"
    using S(7) by (auto simp: row_if_absent)
  note all = 5 g e 1
  show "budgets d' = budgets d @ [(bid, hired_budget pb spec caller rid bid now)]"
    "roles d' = roles d @ [(rid, hired_role pb spec now)]" "configs d' = configs d" "events d' = events d"
    "policies d' = policies d @ [(bid, (policy_zero bid now)\<lparr>set_by_role_id := Some caller\<rparr>)]"
    using 6 7 by (auto simp: all)
  show "\<not> has (budgets d) bid" "\<not> has (roles d) rid" by (rule b, rule n)
  show "set (role_grants d') = set (role_grants d) \<union> Pair rid ` set (hired_grants spec)"
    "prole \<noteq> rid \<Longrightarrow> (prole, rid) \<in> set (role_edges d')"
    using 6 7 by (auto simp: all with_row_def)
  show "map_of (allowances d') (bid, cep) \<noteq> None"
    using 7 by (auto simp: with_row_def map_add_def)
  show "\<exists>c. allowances d' = allowances d \<and> map_of (allowances d) (bg_id pb, pep) \<noteq> None \<and>
           map_of (allowances d) (bid, cep) \<noteq> None \<or>
         allowances d' = allowances d @ [((bid, cep), fresh_row bid cep bundle_zero now)] \<and>
           map_of (allowances d) (bid, cep) = None \<or>
         allowances d' = allowances d @ [((bg_id pb, pep), c)] \<or>
         allowances d' = allowances d @ [((bg_id pb, pep), c), ((bid, cep), fresh_row bid cep bundle_zero now)]"
    using 6 7 by (auto simp: all with_row_def)
qed

text \<open>The epochs a hire charges and credits.\<close>

definition parent_epoch :: "RegBudget \<Rightarrow> (nat \<Rightarrow> stamp) \<Rightarrow> reg_db \<Rightarrow> int" where
  "parent_epoch pb clk d = epoch_at (timestamp (clk 1)) (trust_anchor_unix (trust_id pb) d)
     (case get_policy (bg_id pb) d of None \<Rightarrow> 604800 | Some p \<Rightarrow> epoch_period_secs p)"

definition child_epoch :: "RegBudget \<Rightarrow> (nat \<Rightarrow> stamp) \<Rightarrow> reg_db \<Rightarrow> int" where
  "child_epoch pb clk d = epoch_at (timestamp (clk 1)) (trust_anchor_unix (trust_id pb) d) 604800"

lemma read_parent_Inr:
  "(case get_allowance b ep d1 of Inl e \<Rightarrow> (Inl e, d1) | Inr None \<Rightarrow> (Inl Sql_Error, d1)
      | Inr (Some pa) \<Rightarrow> k pa) = (Inr u, d') \<longleftrightarrow>
   (\<exists>pa. map_of (allowances d1) (b, ep) = Some pa \<and> readable pa \<and> k pa = (Inr u, d'))"
  unfolding get_allowance_Some [symmetric] conj_assoc [symmetric] by (auto split: sum.splits option.splits)

lemma hire_tx_ok:
  assumes "hire_tx pb prole spec x caller agent key rid bid clk d = (Inr u, d')"
  obtains d1 pa where
    "hire_setup pb prole spec caller rid bid (clk 0) (parent_epoch pb clk d) (child_epoch pb clk d) d = Some d1"
    "map_of (allowances d1) (bg_id pb, parent_epoch pb clk d) = Some pa" "readable pa"
    "hire_write (bg_id pb) bid x caller agent key (clk 0) (parent_epoch pb clk d) (child_epoch pb clk d) pa d1
      = (Inr u, d')"
proof -
  have "bindR (exec (hire_setup pb prole spec caller rid bid (clk 0) (parent_epoch pb clk d)
      (child_epoch pb clk d) d) d) (\<lambda>_ d1.
         case get_allowance (bg_id pb) (parent_epoch pb clk d) d1 of
           Inl e \<Rightarrow> (Inl e, d1)
         | Inr None \<Rightarrow> (Inl Sql_Error, d1)
         | Inr (Some pa) \<Rightarrow> hire_write (bg_id pb) bid x caller agent key (clk 0) (parent_epoch pb clk d)
             (child_epoch pb clk d) pa d1) = (Inr u, d')"
    using assms unfolding hire_tx_def Let_def parent_epoch_def child_epoch_def .
  then show thesis
    using that by (auto simp: bindR_Inr exec_Inr read_parent_Inr)
qed

section \<open>Invariants of the registry\<close>

locale reg_invariant =
  fixes P :: "reg_db \<Rightarrow> bool" and ok :: "reg_op \<Rightarrow> bool"
  assumes P_schema: "P d \<Longrightarrow> schema d"
    and event: "insert_event e d = Some d' \<Longrightarrow> P d \<Longrightarrow> \<not> is_spend (ev_type e) \<Longrightarrow> P d'"
    and budget: "insert_budget b d = Some d' \<Longrightarrow> P d \<Longrightarrow> P d'"
    and new_policy: "insert_policy p d = Some d' \<Longrightarrow> P d \<Longrightarrow> P d'"
    and put_policy: "upsert_policy p d = Some d' \<Longrightarrow> P d \<Longrightarrow> P d'"
    and row: "P d \<Longrightarrow> map_of (allowances d) (bk, ep) = None \<Longrightarrow> has (budgets d) bk \<Longrightarrow>
      P (with_row bk ep c now d)"
    and role: "insert_role r w d = Some d' \<Longrightarrow> P d \<Longrightarrow> P d'"
    and grant: "insert_grant r g d = Some d' \<Longrightarrow> P d \<Longrightarrow> P d'"
    and edge: "insert_edge r r' d = Some d' \<Longrightarrow> P d \<Longrightarrow>
      (\<And>e. e \<in> set (role_edges d) \<Longrightarrow> fst e \<noteq> r' \<and> snd e \<noteq> r') \<Longrightarrow> P d'"
    and move: "P d \<Longrightarrow> ok op \<Longrightarrow> moves op = Some (par, ch, x, h) \<Longrightarrow> may_move d par ch x h pep cep \<Longrightarrow>
      P (moved par ch x h pep cep now d)"
    and inference: "P d \<Longrightarrow> ok (OpInference bk amt hash actor gw clk) \<Longrightarrow>
      may_spend_inference d bk amt ep \<Longrightarrow>
      insert_event (make_event EV_INFERENCE_SPENT bk own (Some actor) None ep (Some amt) (Some hash) None now)
        (update_allowance bk ep (spent_inf amt now) d) = Some d' \<Longrightarrow> P d'"
    and treasury: "P d \<Longrightarrow> ok (OpTreasury bk dest amt memo caller agent key clk) \<Longrightarrow>
      may_spend_treasury d bk amt caller ep \<Longrightarrow>
      insert_event (make_event EV_TREASURY_SPENT bk caller agent None ep (Some amt) None key now)
        (update_allowance bk ep (spent_tre amt now) d) = Some d' \<Longrightarrow> P d'"
    and remove: "P d \<Longrightarrow> ok (OpDissolve bk caller agent key now) \<Longrightarrow> may_remove d bk \<Longrightarrow> P (removed bk d)"
    and pause: "P d \<Longrightarrow> ok (OpPause t flag caller agent now) \<Longrightarrow> map_of (configs d) t = Some cfg \<Longrightarrow>
      admin_role_id cfg = caller \<Longrightarrow>
      P (d\<lparr>configs := AList.update t (cfg\<lparr>paused := flag, cfg_updated_at := now\<rparr>) (configs d)\<rparr>)"
    and config: "P d \<Longrightarrow> ok (OpConfig t gw admin now) \<Longrightarrow> has (roles d) admin \<Longrightarrow>
      P (d\<lparr>configs := AList.update t \<lparr>cfg_trust_id = t, inference_gateway = gw,
              paused = (case map_of (configs d) t of None \<Rightarrow> False | Some c \<Rightarrow> paused c),
              admin_role_id = admin, cfg_updated_at = now\<rparr> (configs d)\<rparr>)"
begin

lemmas keep = bindR_keeps [of P] with_budget_keeps [of P] with_latest_keeps [of P] exec_keeps [of P]
  transaction_keeps [of P]

lemma seq:
  assumes "P d" "\<And>d'. r = Some d' \<Longrightarrow> P d \<Longrightarrow> P d'" "\<And>d'. P d' \<Longrightarrow> r = Some d' \<Longrightarrow> P (snd (f () d'))"
  shows "P (snd (bindR (exec r d) f))"
  using assms by (auto simp: bindR_def exec_def split: option.splits)

lemma event_exec: "P d \<Longrightarrow> \<not> is_spend (ev_type e) \<Longrightarrow> P (snd (exec (insert_event e d) d))"
  by (rule exec_keeps [of P]) (auto intro: event)

lemma refreshed_keeps: "P d \<Longrightarrow> refreshed d b d' \<Longrightarrow> P d'"
  unfolding refreshed_def by (metis event get_budget_has make_event_simps(1) row)

lemma refresh_keeps: "P d \<Longrightarrow> P (snd (refresh_at b now d))"
  using refresh_at_effect [OF P_schema] refreshed_keeps by metis

lemma current_allowance_keeps: "P d \<Longrightarrow> P (snd (current_allowance b now d))"
  unfolding current_allowance_def
  by (rule keep(1)) (auto intro!: keep(3) refresh_keeps dest: refresh_keeps [of _ b now])

lemma primary_budget_keeps: "P d \<Longrightarrow> P (snd (primary_budget r uuid now d))"
  unfolding primary_budget_def
  by (auto split: option.splits intro!: seq elim: budget new_policy)

lemma check_parent_same: "snd (check_parent t par caller d) = d"
  by (auto simp: check_parent_def with_budget_def split: option.splits)

lemma check_parent_Inr: "check_parent t par caller d = (Inr u, d') \<Longrightarrow> d' = d"
  using check_parent_same [of t par caller d] by simp

lemma check_seq:
  assumes "P d" "P (snd (f () d))"
  shows "P (snd (bindR (check_parent t par caller d) f))"
  using assms check_parent_same [of t par caller d]
  by (auto simp: bindR_def split: sum.splits prod.splits)

lemma create_budget_keeps: "P d \<Longrightarrow> P (snd (create_budget t par own n k caller agent key uuid now d))"
  unfolding create_budget_def
  by (auto split: option.splits intro!: check_seq seq) (erule budget new_policy event; simp)+

lemma set_policy_keeps: "P d \<Longrightarrow> P (snd (set_policy b defs per mode caller agent key now d))"
  unfolding set_policy_def
  by (rule keep(2)) (auto intro!: seq event_exec elim: put_policy)

lemma spend_inference_keeps:
  assumes P: "P d" and k: "ok (OpInference b amt hash actor gw clk)"
  shows "P (snd (spend_inference b amt hash actor gw clk d))"
  unfolding spend_inference_def
proof (rule keep(2) [OF P])
  fix x assume x: "get_budget b d = Some x"
  let ?c = "spend_inference_check b amt hash gw (clk 0) d"
  have "P (snd ?c)" unfolding spend_inference_check_def
    using P refresh_keeps [OF P, of b "clk 0"]
    by (auto simp: split: option.splits intro!: keep)
  moreover have "P (snd (spend_inference_write b (owner_role_id x) amt hash actor (clk 1) ep d1))"
    if c: "?c = (Inr (Some ep), d1)" for ep d1
  proof -
    obtain cfg r a where cfg: "get_treasury_config (trust_id x) d = Some cfg" "\<not> paused cfg"
      and h: "dedup_request_hash hash d = None" and r: "refresh_at b (clk 0) d = (r, d1)"
      and a: "latest_row b d1 = Some a" "readable a" "amt \<le> remaining_inference a" "ep = epoch a"
      using c x by (auto simp: spend_inference_check_def ok_simps split: option.splits if_splits)
    have P1: "P d1" using refresh_keeps [OF P, of b "clk 0"] r by simp
    note F = refresh_frame [OF P_schema [OF P] r] refresh_frame_reads [OF P_schema [OF P] r]
    have "may_spend_inference d1 b amt ep"
      using F x cfg a latest_row_Some(1) [OF P_schema [OF P1] a(1)]
      by (auto simp: may_spend_inference_def assert_not_paused_def)
    moreover have "event_allowed d1 (make_event EV_INFERENCE_SPENT b (owner_role_id x) (Some actor) None
        ep (Some amt) (Some hash) None (clk 1))"
      using F h x owner_exists [OF P_schema [OF P] x] get_budget_has [OF x]
      by (intro spend_event_allowed) (auto simp: seen_before_def)
    ultimately show ?thesis
      using inference [OF P1 k _ event_allowed_insert [OF event_allowed_rows [THEN iffD2]]]
      by (simp add: spend_inference_write_eq exec_def event_allowed_insert event_allowed_rows)
  qed
  ultimately show "P (snd (bindR ?c (\<lambda>r d1. case r of None \<Rightarrow> (Inr (), d1)
       | Some ep \<Rightarrow> spend_inference_write b (owner_role_id x) amt hash actor (clk 1) ep d1)))"
    by (auto intro!: keep split: option.splits)
qed

lemma spend_treasury_keeps:
  assumes P: "P d" and k: "ok (OpTreasury b dest amt memo caller agent key clk)"
  shows "P (snd (spend_treasury b dest amt memo caller agent key clk d))"
proof -
  obtain res d' where d': "spend_treasury b dest amt memo caller agent key clk d = (res, d')" by force
  from P_schema [OF P] d' show ?thesis
  proof (cases rule: spend_treasury_effect)
    case no_spend
    then show ?thesis using P d' refreshed_keeps by auto
  next
    case (spend d1 ep)
    have "P d1" using spend(1) P refreshed_keeps by blast
    from treasury [OF this k spend(4,5)] show ?thesis using d' by simp
  qed
qed

lemma allocate_keeps:
  assumes P: "P d" and k: "ok (OpAllocate par ch x caller agent key clk)"
  shows "P (snd (allocate par ch x caller agent key clk d))"
  unfolding allocate_def
proof (rule keep(2) [OF P], rule keep(2) [OF P])
  fix pb cb assume pb: "get_budget par d = Some pb" and cb: "get_budget ch d = Some cb"
  have W: "P (snd (allocate_write par ch x pa ca caller agent key (clk 2) d2))"
    if g: "assert_not_paused (trust_id pb) d" "trust_id pb = trust_id cb"
      and r1: "refresh_at par (clk 0) d = (u, d1)" and r2: "refresh_at ch (clk 1) d1 = (v, d2)"
      and pa: "latest_row par d2 = Some pa" "readable pa" and ca: "latest_row ch d2 = Some ca"
    for u v d1 d2 pa ca
  proof -
    have P1: "P d1" using refresh_keeps [OF P, of par "clk 0"] r1 by simp
    have P2: "P d2" using refresh_keeps [OF P1, of ch "clk 1"] r2 by simp
    note F = refresh_frame_reads [OF P_schema [OF P] r1] refresh_frame_reads [OF P_schema [OF P1] r2]
    have "may_move d2 par ch x (hire_cap x) (epoch pa) (epoch ca)"
      if "need_total x \<le> remaining_suballoc pa" "hire_cap x \<le> remaining_hire pa"
      using F g pb cb pa latest_row_Some(1) [OF P_schema [OF P2] pa(1)]
        latest_row_Some(1) [OF P_schema [OF P2] ca] that by (auto simp: may_move_def)
    then show ?thesis
      using P2 move [OF P2 k, of par ch x "hire_cap x" "epoch pa" "epoch ca" "clk 2"]
      by (auto simp: allocate_write_def Let_def moved_def intro!: event_exec)
  qed
  have R: "P (snd (bindR (refresh_at par (clk 0) d) (\<lambda>_ d1. bindR (refresh_at ch (clk 1) d1) (\<lambda>_.
            with_latest par (\<lambda>pa. with_latest ch (\<lambda>ca.
              allocate_write par ch x pa ca caller agent key (clk 2)))))))"
    if g: "assert_not_paused (trust_id pb) d" "trust_id pb = trust_id cb"
  proof (rule keep(1) [OF refresh_keeps [OF P]], rule keep(1))
    fix u d1 assume r1: "refresh_at par (clk 0) d = (Inr u, d1)"
    then have P1: "P d1" using refresh_keeps [OF P, of par "clk 0"] by simp
    then show "P (snd (refresh_at ch (clk 1) d1))" by (rule refresh_keeps)
    fix v d2 assume r2: "refresh_at ch (clk 1) d1 = (Inr v, d2)"
    have "P d2" using refresh_keeps [OF P1, of ch "clk 1"] r2 by simp
    then show "P (snd (with_latest par (\<lambda>pa. with_latest ch (\<lambda>ca.
              allocate_write par ch x pa ca caller agent key (clk 2))) d2))"
      by (intro keep(3)) (auto intro: W [OF g r1 r2])
  qed
  show "P (snd (if \<not> assert_not_paused (trust_id pb) d then failB EPaused d
     else if owner_role_id pb \<noteq> caller then failB ENotOwner d
     else if trust_id pb \<noteq> trust_id cb then failB (EParentBudgetNotInTrust par (trust_id cb)) d
     else if seen_before par key d then (Inr (), d)
     else bindR (refresh_at par (clk 0) d) (\<lambda>_ d1.
          bindR (refresh_at ch (clk 1) d1) (\<lambda>_.
            with_latest par (\<lambda>pa. with_latest ch (\<lambda>ca.
              allocate_write par ch x pa ca caller agent key (clk 2)))))))"
    using P R by simp
qed

lemma insert_grants_keeps: "insert_grants r gs d = Some d' \<Longrightarrow> P d \<Longrightarrow> P d'"
  by (induction gs arbitrary: d) (auto simp: bind_eq_Some_conv, metis grant)

lemma if_absent_keeps: "insert_allowance_if_absent b ep c now d = Some d' \<Longrightarrow> P d \<Longrightarrow> P d'"
  by (auto simp: row_if_absent intro: row)

lemma hire_setup_keeps:
  assumes P: "P d" and s: "hire_setup pb prole spec caller rid bid now pep cep d = Some d'"
  shows "P d'"
  using s
proof (rule hire_setup_steps)
  fix d1 d2 d3 d4 d5 d6 assume 1: "insert_role rid (hired_role pb spec now) d = Some d1"
    and 2: "insert_grants rid (hired_grants spec) d1 = Some d2"
    and 3: "(if prole \<noteq> rid then insert_edge prole rid d2 else Some d2) = Some d3"
    and 4: "insert_budget (hired_budget pb spec caller rid bid now) d3 = Some d4"
    and 5: "insert_policy ((policy_zero bid now)\<lparr>set_by_role_id := Some caller\<rparr>) d4 = Some d5"
    and 6: "ensure_allowance_row (bg_id pb) pep now d5 = Some d6"
    and 7: "insert_allowance_if_absent bid cep bundle_zero now d6 = Some d'"
  have "P d2" by (rule insert_grants_keeps [OF 2 role [OF 1 P]])
  moreover have "fst e \<noteq> rid \<and> snd e \<noteq> rid" if "e \<in> set (role_edges d2)" for e
    using that insert_role_eq [OF 1] insert_grants_frame [OF 2] edge_ends [OF P_schema [OF P], of "fst e" "snd e"]
    by auto
  ultimately have "P d3" using 3 by (auto split: if_splits elim!: edge)
  from new_policy [OF 5 budget [OF 4 this]] have "P d5" .
  from if_absent_keeps [OF 6 [unfolded ensure_allowance_row_def] this] show ?thesis
    by (rule if_absent_keeps [OF 7])
qed

lemma dissolve_tx_removed: "dissolve_tx b caller agent key now d = (Inr u, d') \<Longrightarrow> d' = removed b d"
  by (auto simp: dissolve_tx_def Let_def ok_simps stmt removed_def delete_budget_def
      intro!: reg_db.equality filter_cong)

lemma dissolve_keeps:
  assumes P: "P d" and k: "ok (OpDissolve b caller agent key now)"
  shows "P (snd (dissolve b caller agent key now d))"
proof -
  have "P (snd (transaction d (dissolve_tx b caller agent key now d)))"
    if "get_budget b d = Some x" "assert_not_paused (trust_id x) d" "\<not> is_primary x"
      "\<not> (\<exists>(k, x)\<in>set (budgets d). parent_budget_id x = Some b)"
      "\<not> (\<exists>((k, _), a)\<in>set (allowances d). k = b \<and> \<not> settled_row a)" for x
  proof (rule keep(5) [OF P])
    fix u d' assume "dissolve_tx b caller agent key now d = (Inr u, d')"
    moreover have "may_remove d b" using that unfolding may_remove_def by blast
    ultimately show "P d'" using remove [OF P k] dissolve_tx_removed by simp
  qed
  then show ?thesis
    unfolding dissolve_def using P
    by (intro keep(2)) (auto split: option.splits)
qed

lemma set_pause_keeps:
  "P d \<Longrightarrow> ok (OpPause t fl caller agent now) \<Longrightarrow> P (snd (set_pause t fl caller agent now d))"
  using pause [of d t fl caller agent now]
  by (auto simp: set_pause_def get_treasury_config_def Let_def split: option.splits list.splits
      intro!: event_exec)

lemma init_config_keeps:
  "P d \<Longrightarrow> ok (OpConfig t gw admin now) \<Longrightarrow> P (snd (init_treasury_config t gw admin now d))"
  unfolding init_treasury_config_def by (rule keep(4)) (auto split: if_splits intro: config)

lemma hire_tx_keeps:
  assumes P: "P d" and k: "ok (OpHire par prole spec x caller agent key rid bid clk)"
    and pb: "get_budget par d = Some pb" "assert_not_paused (trust_id pb) d"
    and tx: "hire_tx pb prole spec x caller agent key rid bid clk d = (Inr u, d')"
  shows "P d'"
proof -
  have id: "bg_id pb = par" using bg_id_eq [OF P_schema [OF P] pb(1)] .
  obtain pep cep d1 pa where s: "hire_setup pb prole spec caller rid bid (clk 0) pep cep d = Some d1"
    and pa: "map_of (allowances d1) (par, pep) = Some pa" "readable pa"
    and w: "hire_write par bid x caller agent key (clk 0) pep cep pa d1 = (Inr u, d')"
    using hire_tx_ok [OF tx] unfolding id by metis
  have P1: "P d1" by (rule hire_setup_keeps [OF P s])
  note F = hire_setup_frame [OF s]
  have le: "need_total x \<le> remaining_suballoc pa" "1 \<le> remaining_hire pa"
    using w by (auto simp: hire_write_def split: if_splits)
  have "get_budget par d1 = Some pb" "get_budget bid d1 = Some (hired_budget pb spec caller rid bid (clk 0))"
    using F(1,6) pb(1) by (auto simp: get_budget_def map_add_def has_def split: option.splits)
  then have "may_move d1 par bid x 1 pep cep"
    using F(3,11) pb(2) pa le
    by (auto simp: may_move_def hired_budget_def assert_not_paused_def get_treasury_config_def)
  then have "P (moved par bid x 1 pep cep (clk 0) d1)"
    by (intro move [OF P1 k]) simp_all
  then show "P d'"
    using w le by (auto simp: hire_write_def Let_def ok_simps moved_def elim!: event)
qed

lemma hire_keeps:
  assumes P: "P d" and k: "ok (OpHire par prole spec x caller agent key rid bid clk)"
  shows "P (snd (hire par prole spec x caller agent key rid bid clk d))"
  unfolding hire_def
proof (rule keep(2) [OF P])
  fix pb assume pb: "get_budget par d = Some pb"
  let ?tx = "hire_tx pb prole spec x caller agent key rid bid clk d"
  have T: "P (snd (transaction d ?tx))" if "assert_not_paused (trust_id pb) d"
    using hire_tx_keeps [OF P k pb that] by (intro keep(5) [OF P])
  have "P (snd (bindR (transaction d ?tx) (\<lambda>_ d'. (Inr \<lparr>hr_role_id = rid, hr_primary_budget_id = bid\<rparr>, d'))))"
    if g: "assert_not_paused (trust_id pb) d"
    using T [OF g] by (intro keep(1)) auto
  then show "P (snd (if \<not> assert_not_paused (trust_id pb) d then failB EPaused d
     else if owner_role_id pb \<noteq> caller then failB ENotOwner d
     else case (case key of None \<Rightarrow> None | Some k \<Rightarrow> dedup_existing (Some par) k d) of
       Some e \<Rightarrow> (Inr \<lparr>hr_role_id = [], hr_primary_budget_id =
           (case counter_budget_id e of None \<Rightarrow> [] | Some c \<Rightarrow> c)\<rparr>, d)
     | None \<Rightarrow> bindR (transaction d ?tx)
         (\<lambda>_ d'. (Inr \<lparr>hr_role_id = rid, hr_primary_budget_id = bid\<rparr>, d'))))"
    using P by (auto split: option.splits)
qed

lemma apply_op_keeps: "P d \<Longrightarrow> ok op \<Longrightarrow> P (apply_op op d)"
  by (cases op) (simp_all add: current_allowance_keeps primary_budget_keeps create_budget_keeps
      set_policy_keeps spend_inference_keeps spend_treasury_keeps allocate_keeps hire_keeps
      dissolve_keeps set_pause_keeps init_config_keeps)

lemma run_keeps: "P d \<Longrightarrow> list_all ok ops \<Longrightarrow> P (run ops d)"
  by (induction ops arbitrary: d) (simp_all add: apply_op_keeps)

end

end
