(* ===== verification/Budget_Registry_Safety.thy ===== *)
theory Budget_Registry_Safety
  imports Budget_Registry_Properties
begin

text \<open>
  Who can move money in the budget registry and when: a paused trust is frozen, treasury money
  leaves a budget only through its occupied owner role, a keyed spend happens once, and what an
  allocation and a hire move. The last section shows what two unchecked inputs and the gap between
  check and write allow.
\<close>

section \<open>A paused trust\<close>

fun unpauses :: "string \<Rightarrow> reg_op \<Rightarrow> bool" where
  "unpauses t (OpPause t' flag _ _ _) \<longleftrightarrow> t' = t \<and> \<not> flag"
| "unpauses t _ \<longleftrightarrow> False"

definition frozen_in :: "reg_db \<Rightarrow> string \<Rightarrow> reg_db \<Rightarrow> bool" where
  "frozen_in d0 t d \<longleftrightarrow> \<not> assert_not_paused t d \<and>
     (\<forall>b x. get_budget b d0 = Some x \<and> trust_id x = t \<longrightarrow> get_budget b d = Some x) \<and>
     (\<forall>b x ep a. get_budget b d0 = Some x \<and> trust_id x = t \<and> map_of (allowances d0) (b, ep) = Some a \<longrightarrow>
        map_of (allowances d) (b, ep) = Some a)"

lemma reads_cong:
  "budgets d' = budgets d \<Longrightarrow> get_budget b d' = get_budget b d"
  "configs d' = configs d \<Longrightarrow> assert_not_paused t d' = assert_not_paused t d"
  by (simp_all add: get_budget_def assert_not_paused_def get_treasury_config_def)

lemma frozenI:
  assumes "\<not> assert_not_paused t d"
    "\<And>b x. get_budget b d0 = Some x \<Longrightarrow> trust_id x = t \<Longrightarrow> get_budget b d = Some x"
    "\<And>b x ep a. get_budget b d0 = Some x \<Longrightarrow> trust_id x = t \<Longrightarrow> map_of (allowances d0) (b, ep) = Some a \<Longrightarrow>
       map_of (allowances d) (b, ep) = Some a"
  shows "frozen_in d0 t d"
  unfolding frozen_in_def using assms by blast

lemma frozenD:
  assumes "frozen_in d0 t d"
  shows "\<not> assert_not_paused t d"
    "get_budget b d0 = Some x \<Longrightarrow> trust_id x = t \<Longrightarrow> get_budget b d = Some x"
    "get_budget b d0 = Some x \<Longrightarrow> trust_id x = t \<Longrightarrow> map_of (allowances d0) (b, ep) = Some a \<Longrightarrow>
       map_of (allowances d) (b, ep) = Some a"
  using assms unfolding frozen_in_def by blast+

lemma frozen_frame:
  "frozen_in d0 t d \<Longrightarrow> budgets d' = budgets d \<Longrightarrow> configs d' = configs d \<Longrightarrow>
     (\<And>k a. map_of (allowances d) k = Some a \<Longrightarrow> map_of (allowances d') k = Some a) \<Longrightarrow> frozen_in d0 t d'"
  by (rule frozenI) (simp_all add: reads_cong [of d' d] frozenD)

text \<open>An operation that saw its trust unpaused did not touch the frozen budgets.\<close>

lemma frozen_other:
  assumes "frozen_in d0 t d" "get_budget k d = Some y" "assert_not_paused (trust_id y) d"
    "get_budget b d0 = Some x" "trust_id x = t"
  shows "b \<noteq> k"
  using frozenD(1,2) [OF assms(1)] assms(2-5) by auto

lemma frozen_update:
  assumes "frozen_in d0 t d" "get_budget k d = Some y" "assert_not_paused (trust_id y) d"
  shows "frozen_in d0 t (update_allowance k ep f d)"
  by (rule frozenI)
    (use frozenD [OF assms(1)] frozen_other [OF assms] in
      \<open>auto simp: reads_cong [of "update_allowance k ep f d" d] update_allowance_rows\<close>)

lemma with_row_rows: "map_of (allowances d) k = Some a \<Longrightarrow> map_of (allowances (with_row b ep c now d)) k = Some a"
  by (simp add: with_row_def map_add_def)

lemma map_of_filter_key: "b \<noteq> k \<Longrightarrow> map_of (filter (\<lambda>(x, _). x \<noteq> k) t) b = map_of t b"
  by (induction t) auto

lemma map_of_filter_row: "b \<noteq> k \<Longrightarrow> map_of (filter (\<lambda>((x, _), _). x \<noteq> k) t) (b, ep) = map_of t (b, ep)"
  by (induction t) auto

interpretation frozen_inv: money_invariant "frozen_in d0 t" "\<lambda>op. \<not> unpauses t op" for d0 t
proof (unfold_locales, goal_cases)
  case (3 d k b)
  then have "get_budget x (d\<lparr>budgets := budgets d @ [(k, b)]\<rparr>) = Some y" if "get_budget x d = Some y" for x y
    using that by (simp add: get_budget_def map_add_def)
  then show ?case by (intro frozenI) (use frozenD [OF 3(2)] reads_cong(2) [of "d\<lparr>budgets := budgets d @ [(k, b)]\<rparr>" d] in
        \<open>simp_all\<close>)
next
  case (4 d bk ep c now)
  then show ?case by (auto intro: frozen_frame with_row_rows)
next
  case (5 d op par ch x h pep cep now)
  obtain pb cb where "get_budget par d = Some pb" "get_budget ch d = Some cb"
      "assert_not_paused (trust_id pb) d" "assert_not_paused (trust_id cb) d"
    using 5(5) by (auto simp: may_move_def)
  then show ?case unfolding moved_def
    by (intro frozen_update [where y = cb] frozen_update [where y = pb] 5(2))
      (simp_all add: reads_cong [where d' = "update_allowance _ _ _ d" and d = d])
next
  case (6 d bk amt hash actor gw clk ep now own i)
  then show ?case by (auto simp: may_spend_inference_def intro: frozen_frame [OF frozen_update])
next
  case (7 d bk dest amt memo caller agent key clk ep now i)
  then show ?case by (auto simp: may_spend_treasury_def intro: frozen_frame [OF frozen_update])
next
  case (8 d bk)
  then obtain y where y: "get_budget bk d = Some y" "assert_not_paused (trust_id y) d"
    by (auto simp: may_remove_def)
  have "get_budget b (removed bk d) = get_budget b d" if "b \<noteq> bk" for b
    using that by (simp add: get_budget_def map_of_filter_key)
  then show ?case
    by (intro frozenI) (use frozenD [OF 8(2)] frozen_other [OF 8(2) y] in
        \<open>simp_all add: map_of_filter_row reads_cong(2) [of "removed bk d" d]\<close>)
next
  case (9 d t' cfg caller agent now cfg0 gw)
  then have "\<not> assert_not_paused t (d\<lparr>configs := AList.update t' cfg (configs d)\<rparr>)"
    using frozenD(1) [OF 9(2)] 9(3)
    by (auto simp: assert_not_paused_def get_treasury_config_def update_conv' split: option.splits)
  then show ?case by (intro frozenI) (use frozenD [OF 9(2)] in \<open>simp_all add: get_budget_def\<close>)
qed (auto intro: frozen_frame)

text \<open>While a trust is paused nothing of it moves: until an operation lifts the pause, whatever
  else runs, every budget of the trust and every one of its allowance rows stays exactly as it
  was.\<close>

theorem paused_trust_frozen:
  assumes "schema d" "map_of (configs d) t = Some c" "paused c"
    and "list_all (\<lambda>op. \<not> unpauses t op) ops"
    and "get_budget b d = Some x" "trust_id x = t" "map_of (allowances d) (b, ep) = Some a"
  shows "get_budget b (run ops d) = Some x \<and> map_of (allowances (run ops d)) (b, ep) = Some a"
proof -
  have "frozen_in d t d" using assms(2,3) by (simp add: frozen_in_def assert_not_paused_def get_treasury_config_def)
  then have "frozen_in d t (run ops d)"
    using frozen_inv.run_keeps [of d d t ops] assms(1,4) by simp
  then show ?thesis using frozenD(2,3) assms(5-7) by blast
qed

theorem paused_trust_frozen_witness:
  "map_of (allowances (run demo_run (demo_reg True))) (''b'', 0) = Some (fresh_row ''b'' 0 (demo_bundle 100) 0)"
proof -
  have "list_all (\<lambda>op. \<not> unpauses ''t'' op) demo_run" by code_simp
  moreover have "get_budget ''b'' (demo_reg True) = Some (demo_budget ''b'' ''t'' ''r'' True)" by code_simp
  moreover have "map_of (allowances (demo_reg True)) (''b'', 0) = Some (fresh_row ''b'' 0 (demo_bundle 100) 0)"
    by code_simp
  moreover have "map_of (configs (demo_reg True)) ''t'' = Some \<lparr>cfg_trust_id = ''t'', inference_gateway = ''g'',
      paused = True, admin_role_id = ''r'', cfg_updated_at = 0\<rparr>" by code_simp
  ultimately show ?thesis
    using paused_trust_frozen [OF demo_reg_ok(1) [of True], of "''t''" _ demo_run "''b''" _ 0] 
    by (simp add: demo_budget_def)
qed

section \<open>Who spends from the treasury\<close>

fun pays :: "string \<Rightarrow> reg_op \<Rightarrow> bool" where
  "pays b (OpTreasury b' _ _ _ _ _ _ _) \<longleftrightarrow> b' = b"
| "pays b _ \<longleftrightarrow> False"

fun dissolves :: "string \<Rightarrow> reg_op \<Rightarrow> bool" where
  "dissolves b (OpDissolve b' _ _ _ _) \<longleftrightarrow> b' = b"
| "dissolves b _ \<longleftrightarrow> False"

definition paid :: "string \<Rightarrow> int \<Rightarrow> int \<Rightarrow> reg_db \<Rightarrow> bool" where
  "paid b ep v d \<longleftrightarrow> (\<exists>a. map_of (allowances d) (b, ep) = Some a \<and> spent_treasury a = v)"

lemma paid_update: "paid b ep v d \<Longrightarrow> (\<And>a. spent_treasury (f a) = spent_treasury a) \<Longrightarrow>
    paid b ep v (update_allowance k e f d)"
  by (auto simp: paid_def update_allowance_rows)

lemma paid_frame: "paid b ep v d \<Longrightarrow> allowances d' = allowances d \<Longrightarrow> paid b ep v d'"
  by (simp add: paid_def)

interpretation paid_inv: money_invariant "paid b ep v" "\<lambda>op. \<not> pays b op \<and> \<not> dissolves b op" for b ep v
proof (unfold_locales, goal_cases)
  case (4 d bk ep c now)
  then show ?case by (auto simp: paid_def with_row_def map_add_def split: option.splits)
next
  case (5 d op par ch x h pep cep now)
  then show ?case unfolding moved_def
    by (intro paid_update) (simp_all add: credit_bundle_def debit_suballoc_def)
next
  case (6 d bk amt hash actor gw clk ep0 now own i)
  then have "paid b ep v (update_allowance bk ep' (spent_inf amt tm) d)" for ep' tm
    by (intro paid_update) (simp_all add: spent_inf_def)
  then show ?case by (rule paid_frame) simp
next
  case (7 d bk dest amt memo caller agent key clk ep now i)
  then show ?case by (auto simp: paid_def update_allowance_rows)
next
  case (8 d bk)
  then show ?case by (auto simp: paid_def map_of_filter_row)
qed (auto intro: paid_frame)

lemma dissolve_result: "snd (dissolve b caller agent key now d) \<in> {d, removed b d}"
proof -
  have "snd (transaction d (dissolve_tx b caller agent key now d)) \<in> {d, removed b d}"
    using schema_inv.dissolve_tx_removed [of b caller agent key now d]
    by (auto simp: transaction_def split: prod.splits sum.splits)
  then show ?thesis by (simp add: dissolve_def with_budget_def split: option.splits)
qed

lemma dissolve_row:
  "map_of (allowances (snd (dissolve b caller agent key now d))) (b, ep) = Some a' \<Longrightarrow>
     map_of (allowances d) (b, ep) = Some a'"
proof -
  assume "map_of (allowances (snd (dissolve b caller agent key now d))) (b, ep) = Some a'"
  moreover have "map_of (allowances (removed b d)) (b, ep) = None" by (auto simp: map_of_eq_None_iff)
  ultimately show ?thesis using dissolve_result [of b caller agent key now d]
    by (metis empty_iff insert_iff option.distinct(1))
qed

text \<open>C21. Treasury money leaves a budget in one way only: when an operation changes what a row has
  spent from the treasury, it is a treasury spend on that very budget, called by the role that
  owns it, while that role is occupied and the trust is not paused, with a key that was not used
  before; and the row grows by exactly the requested amount.\<close>

theorem only_owner_pays:
  assumes S: "schema d" and a: "map_of (allowances d) (b, ep) = Some a"
    and a': "map_of (allowances (apply_op op d)) (b, ep) = Some a'"
    and ne: "spent_treasury a' \<noteq> spent_treasury a"
  shows "\<exists>x row dest amt memo agent key clk. op = OpTreasury b dest amt memo (owner_role_id x) agent key clk \<and>
    get_budget b d = Some x \<and> assert_not_paused (trust_id x) d \<and>
    map_of (roles d) (owner_role_id x) = Some row \<and> rr_occupant_kind row \<noteq> ''vacant'' \<and>
    \<not> seen_before b key d \<and> spent_treasury a' = spent_treasury a + amt"
proof -
  have "paid b ep (spent_treasury a) d" using a by (simp add: paid_def)
  then have "pays b op \<or> dissolves b op"
    using paid_inv.apply_op_keeps [of d b ep "spent_treasury a" op] S a' ne by (auto simp: paid_def)
  moreover have "\<not> dissolves b op"
  proof
    assume "dissolves b op"
    then obtain caller agent key now where "op = OpDissolve b caller agent key now" by (cases op) auto
    then show False using a a' ne dissolve_row [of b caller agent key now d ep a'] by simp
  qed
  ultimately have "pays b op" by simp
  then obtain dest amt memo caller agent key clk where
    op: "op = OpTreasury b dest amt memo caller agent key clk" by (cases op) auto
  obtain res d' where d': "spend_treasury b dest amt memo caller agent key clk d = (res, d')" by force
  then have r': "map_of (allowances d') (b, ep) = Some a'" using a' by (simp add: op)
  from S d' show ?thesis
  proof (cases rule: spend_treasury_effect)
    case no_spend
    then have "map_of (allowances d') (b, ep) = Some a" using a refreshed_frame(6) by blast
    then show ?thesis using r' ne by simp
  next
    case (spend d1 e)
    have f: "map_of (allowances d1) (b, ep) = Some a" using spend(1) a refreshed_frame(6) by blast
    have g: "budgets d1 = budgets d" "roles d1 = roles d" "configs d1 = configs d"
      using spend(1) refreshed_frame(1-3) by blast+
    have "e = ep" using r' spend(5) f ne by (auto simp: stmt update_allowance_rows split: if_splits)
    then have "spent_treasury a' = spent_treasury a + amt"
      using r' spend(5) f by (auto simp: stmt update_allowance_rows spent_tre_def)
    then show ?thesis using op spend(2,4) g
      by (auto simp: may_spend_treasury_def get_budget_def assert_not_paused_def get_treasury_config_def)
  qed
qed

theorem only_owner_pays_witness:
  "\<exists>x row. get_budget ''b'' (demo_reg False) = Some x \<and> owner_role_id x = ''r'' \<and>
     map_of (roles (demo_reg False)) ''r'' = Some row \<and> rr_occupant_kind row \<noteq> ''vacant''"
proof -
  let ?op = "OpTreasury ''b'' ''x'' 40 None ''r'' None (Some ''k'') (\<lambda>_. 1)"
  have 1: "map_of (allowances (demo_reg False)) (''b'', 0) = Some (fresh_row ''b'' 0 (demo_bundle 100) 0)"
    by code_simp
  have 2: "map_of (allowances (apply_op ?op (demo_reg False))) (''b'', 0) =
      Some (spent_tre 40 1 (fresh_row ''b'' 0 (demo_bundle 100) 0))" by code_simp
  have 3: "spent_treasury (spent_tre 40 1 (fresh_row ''b'' 0 (demo_bundle 100) 0)) \<noteq>
      spent_treasury (fresh_row ''b'' 0 (demo_bundle 100) 0)" by code_simp
  show ?thesis using only_owner_pays [OF demo_reg_ok(1) [of False] 1 2 3] by auto
qed

section \<open>A keyed spend happens once\<close>

definition keyed :: "string \<Rightarrow> string \<Rightarrow> reg_db \<Rightarrow> bool" where
  "keyed b k d \<longleftrightarrow> (\<exists>e\<in>set (events d). ev_budget_id e = b \<and> idempotency_key e = Some k \<and>
     counter_budget_id e = None)"

lemma keyed_frame: "keyed b k d \<Longrightarrow> set (events d) \<subseteq> set (events d') \<Longrightarrow> keyed b k d'"
  by (auto simp: keyed_def)

interpretation keyed_inv: money_invariant "keyed b k" "\<lambda>op. \<not> dissolves b op" for b k
proof (unfold_locales, goal_cases)
  case (8 d bk)
  then show ?case by (auto simp: keyed_def)
qed (auto simp: moved_def with_row_def intro: keyed_frame)

lemma keyed_seen: "keyed b k d \<Longrightarrow> seen_before b (Some k) d"
  by (auto simp: keyed_def seen_before_def dedup_existing_def find_None_iff)

lemma seen_spend_same: "seen_before b key d \<Longrightarrow> snd (spend_treasury b dest amt memo caller agent key clk d) = d"
  by (auto simp: spend_treasury_def spend_treasury_check_def with_budget_def bindR_def failB_def
      split: option.splits if_splits)

text \<open>A keyed treasury spend is executed once: after it succeeded, and after any further
  operations that do not dissolve the budget, spending again from the budget with the same key
  changes nothing, whatever the other arguments are.\<close>

theorem treasury_spend_once:
  assumes "schema d" "\<not> seen_before b (Some k) d"
    and "spend_treasury b dest amt memo caller agent (Some k) clk d = (Inr (), d')"
    and "list_all (\<lambda>op. \<not> dissolves b op) ops"
  shows "snd (spend_treasury b dest2 amt2 memo2 caller2 agent2 (Some k) clk2 (run ops d')) = run ops d'"
  using assms(1,3)
proof (cases rule: spend_treasury_effect)
  case no_spend
  then show ?thesis using assms(2) by simp
next
  case (spend d1 ep)
  have "schema d1" using spend(1) assms(1) refreshed_schema by blast
  then have "schema d'" using insert_event_schema [OF spent_schema(2) spend(5)] by blast
  moreover have "keyed b k d'" using spend(5) by (auto simp: stmt keyed_def)
  ultimately have "keyed b k (run ops d')" using keyed_inv.run_keeps [of d' b k ops] assms(4) by simp
  then show ?thesis by (rule seen_spend_same [OF keyed_seen])
qed

theorem treasury_spend_once_witness:
  "\<exists>d'. spend_treasury ''b'' ''x'' 40 None ''r'' None (Some ''k'') (\<lambda>_. 1) (demo_reg False) = (Inr (), d') \<and>
     snd (spend_treasury ''b'' ''y'' 7 None ''r'' None (Some ''k'') (\<lambda>_. 2) (run demo_run d')) = run demo_run d'"
proof -
  have "\<not> seen_before ''b'' (Some ''k'') (demo_reg False)" by code_simp
  moreover have "fst (spend_treasury ''b'' ''x'' 40 None ''r'' None (Some ''k'') (\<lambda>_. 1) (demo_reg False)) = Inr ()"
    by code_simp
  moreover have "list_all (\<lambda>op. \<not> dissolves ''b'' op) demo_run" by code_simp
  ultimately show ?thesis
    using treasury_spend_once [OF demo_reg_ok(1) [of False]] by (metis prod.collapse)
qed

section \<open>What an allocation moves\<close>

text \<open>What a row is worth to the budgets below the treasury: its caps less what it has passed on.\<close>

definition worth :: "BudgetAllowance \<Rightarrow> int" where
  "worth a = inference_credits (caps a) + treasury_cap (caps a) + suballoc_cap (caps a) - spent_suballoc a"

definition allowance_total :: "reg_db \<Rightarrow> int" where
  "allowance_total d = sum_list (map (\<lambda>(_, a). worth a) (allowances d))"

lemma total_update_list:
  "map_of t k = Some a \<Longrightarrow> sum_list (map (\<lambda>(_, a). worth a) (AList.update k v t)) =
     sum_list (map (\<lambda>(_, a). worth a) t) + worth v - worth a"
  by (induction t) (auto split: if_splits)

lemma total_update:
  "map_of (allowances d) (b, ep) = Some a \<Longrightarrow>
     allowance_total (update_allowance b ep f d) = allowance_total d + worth (f a) - worth a"
  by (simp add: allowance_total_def update_allowance_def total_update_list)

lemma moved_total:
  assumes "bundle_ok x" "map_of (allowances d) (par, pep) \<noteq> None" "map_of (allowances d) (ch, cep) \<noteq> None"
  shows "allowance_total (moved par ch x h pep cep now d) = allowance_total d"
proof -
  obtain pa where pa: "map_of (allowances d) (par, pep) = Some pa" using assms(2) by auto
  let ?d = "update_allowance par pep (debit_suballoc (need_total x) h now) d"
  obtain ca where ca: "map_of (allowances ?d) (ch, cep) = Some ca"
    using assms(3) by (cases "map_of (allowances ?d) (ch, cep)") (auto simp: update_allowance_rows split: if_splits)
  show ?thesis
    using total_update [OF pa] total_update [OF ca] need_total_ok [OF assms(1)]
    by (simp add: moved_def worth_def credit_bundle_def debit_suballoc_def)
qed

lemma allocate_ok:
  assumes S: "schema d" and n: "\<not> seen_before par key d"
    and r1: "refresh_at par (clk 0) d = (r, d1)" and r2: "refresh_at ch (clk 1) d1 = (r', d2)"
    and ok: "allocate par ch x caller agent key clk d = (Inr (), d')"
  obtains pa ca where "latest_row par d2 = Some pa" "readable pa" "latest_row ch d2 = Some ca"
    "need_total x \<le> remaining_suballoc pa" "hire_cap x \<le> remaining_hire pa"
    "allowances d' = allowances (moved par ch x (hire_cap x) (epoch pa) (epoch ca) (clk 2) d2)"
    "budgets d' = budgets d2"
  using ok n r1 r2
  by (auto simp: allocate_def ok_simps allocate_write_def Let_def stmt moved_def split: if_splits)

lemma debit_remaining:
  assumes "row_sound a" "readable a" "0 \<le> n" "n \<le> remaining_suballoc a" "0 \<le> h" "h \<le> remaining_hire a"
  shows "remaining_suballoc (debit_suballoc n h now a) = remaining_suballoc a - n \<and>
    remaining_hire (debit_suballoc n h now a) = remaining_hire a - h"
proof -
  have "row_sound (debit_suballoc n h now a)" by (rule debit_sound [OF assms])
  then show ?thesis using assms readable_caps [OF assms(2)]
    by (auto simp: row_sound_def remaining_suballoc_def remaining_hire_def remaining_within debit_suballoc_def)
qed

text \<open>C24. An allocation conserves money, in a database that satisfies the schema and whose rows are
  not overspent, for a bundle of non-negative rails that sum to less than 2^63, under an idempotency key
  that the source budget has not used (a used key makes the call succeed without effect): once both
  budgets are refreshed, a successful allocation leaves the sum over all allowance rows of caps less
  sub-allocations as it was, and every row but the latest of the two budgets keeps its value. If the
  budgets differ, the source can pass on that much less and hire that much less, and the target's caps
  grow by the bundle. The code does not check the bundle: a negative rail or a total that wraps
  passes (lemma bundle_total_wraps).\<close>

theorem allocate_conserves:
  assumes S: "schema d" and R: "rails_ok d" and x: "bundle_ok x" and n: "\<not> seen_before par key d"
    and r1: "refresh_at par (clk 0) d = (r, d1)" and r2: "refresh_at ch (clk 1) d1 = (r', d2)"
    and ok: "allocate par ch x caller agent key clk d = (Inr (), d')"
  shows "allowance_total d' = allowance_total d2 \<and>
    (\<exists>pa ca. latest_row par d2 = Some pa \<and> latest_row ch d2 = Some ca \<and>
      (\<forall>k. k \<noteq> (par, epoch pa) \<and> k \<noteq> (ch, epoch ca) \<longrightarrow>
        map_of (allowances d') k = map_of (allowances d2) k) \<and>
      (par = ch \<or> (\<exists>pa' ca'.
        map_of (allowances d') (par, epoch pa) = Some pa' \<and> map_of (allowances d') (ch, epoch ca) = Some ca' \<and>
        remaining_suballoc pa' =
          remaining_suballoc pa - (inference_credits x + treasury_cap x + suballoc_cap x) \<and>
        remaining_hire pa' = remaining_hire pa - hire_cap x \<and>
        caps ca' = \<lparr>inference_credits = inference_credits (caps ca) + inference_credits x,
          treasury_cap = treasury_cap (caps ca) + treasury_cap x,
          suballoc_cap = suballoc_cap (caps ca) + suballoc_cap x,
          hire_cap = hire_cap (caps ca) + hire_cap x\<rparr>)))"
proof -
  obtain pa ca where pa: "latest_row par d2 = Some pa" "readable pa" and ca: "latest_row ch d2 = Some ca"
    and le: "need_total x \<le> remaining_suballoc pa" "hire_cap x \<le> remaining_hire pa"
    and d': "allowances d' = allowances (moved par ch x (hire_cap x) (epoch pa) (epoch ca) (clk 2) d2)"
    using allocate_ok [OF S n r1 r2 ok] by metis
  have I1: "schema d1 \<and> rails_ok d1" using rails_inv.refresh_keeps [of d par "clk 0"] S R r1 by simp
  then have I2: "schema d2 \<and> rails_ok d2" using rails_inv.refresh_keeps [of d1 ch "clk 1"] r2 by simp
  have rp: "map_of (allowances d2) (par, epoch pa) = Some pa" and rc: "map_of (allowances d2) (ch, epoch ca) = Some ca"
    using latest_row_Some(1) I2 pa(1) ca by blast+
  have snd: "row_sound pa" using rails_row I2 rp by blast
  have t: "allowance_total d' = allowance_total d2"
    using moved_total [OF x, of d2 par "epoch pa" ch "epoch ca"] rp rc d' by (simp add: allowance_total_def)
  have rows: "map_of (allowances d') k = (if k = (ch, epoch ca)
      then map_option (credit_bundle x (clk 2)) (if k = (par, epoch pa) then map_option
        (debit_suballoc (need_total x) (hire_cap x) (clk 2)) (map_of (allowances d2) k) else map_of (allowances d2) k)
      else if k = (par, epoch pa) then map_option (debit_suballoc (need_total x) (hire_cap x) (clk 2))
        (map_of (allowances d2) k) else map_of (allowances d2) k)" for k
    by (simp add: d' moved_def update_allowance_rows)
  let ?pa = "debit_suballoc (need_total x) (hire_cap x) (clk 2) pa"
  have "remaining_suballoc ?pa = remaining_suballoc pa - need_total x \<and>
      remaining_hire ?pa = remaining_hire pa - hire_cap x"
    using debit_remaining [OF snd pa(2) _ le(1) _ le(2)] x by (simp add: need_total_ok bundle_ok_def)
  then show ?thesis using t pa(1) ca rp rc rows
    by (auto simp: need_total_ok [OF x] credit_bundle_def)
qed

theorem allocate_conserves_witness:
  "\<exists>d'. allocate ''b'' ''c'' (demo_bundle 10) ''r'' None None (\<lambda>_. 1) (demo_reg False) = (Inr (), d') \<and>
     allowance_total d' = allowance_total (demo_reg False)"
proof -
  let ?clk = "\<lambda>_. 1 :: int"
  have "bundle_ok (demo_bundle 10)" "\<not> seen_before ''b'' None (demo_reg False)"
    "refresh_at ''b'' (?clk 0) (demo_reg False) = (Inr None, demo_reg False)"
    "refresh_at ''c'' (?clk 1) (demo_reg False) = (Inr None, demo_reg False)" by code_simp+
  moreover have "fst (allocate ''b'' ''c'' (demo_bundle 10) ''r'' None None ?clk (demo_reg False)) = Inr ()"
    by code_simp
  ultimately show ?thesis
    using allocate_conserves [OF demo_reg_ok(1,2) [of False]] by (metis prod.collapse)
qed

section \<open>What a hire delivers\<close>

lemma hire_failure: "hire par prole spec x caller agent key rid bid clk d = (Inl e, d') \<Longrightarrow> d' = d"
  by (auto simp: hire_def with_budget_def failB_def bindR_def transaction_def
      split: option.splits if_splits prod.splits sum.splits)

lemma hire_ok:
  assumes S: "schema d" and n: "\<not> seen_before par key d"
    and ok: "hire par prole spec x caller agent key rid bid clk d = (Inr r, d')"
  obtains pb d1 pa where "get_budget par d = Some pb" "owner_role_id pb = caller"
    "assert_not_paused (trust_id pb) d" "r = \<lparr>hr_role_id = rid, hr_primary_budget_id = bid\<rparr>"
    "hire_setup pb prole spec caller rid bid (clk 0) (parent_epoch pb clk d) (child_epoch pb clk d) d = Some d1"
    "map_of (allowances d1) (par, parent_epoch pb clk d) = Some pa" "readable pa"
    "hire_write par bid x caller agent key (clk 0) (parent_epoch pb clk d) (child_epoch pb clk d) pa d1
      = (Inr (), d')"
proof -
  have k: "(case key of None \<Rightarrow> None | Some k \<Rightarrow> dedup_existing (Some par) k d) = None"
    using n by (auto simp: seen_before_def split: option.splits)
  obtain pb where pb: "get_budget par d = Some pb" "owner_role_id pb = caller"
      "assert_not_paused (trust_id pb) d" "r = \<lparr>hr_role_id = rid, hr_primary_budget_id = bid\<rparr>"
    and tx: "hire_tx pb prole spec x caller agent key rid bid clk d = (Inr (), d')"
    using ok by (auto simp: hire_def ok_simps k split: if_splits)
  have "bg_id pb = par" by (rule bg_id_eq [OF S pb(1)])
  with hire_tx_ok [OF tx] that [OF pb] show thesis by metis
qed

lemma hire_write_ok:
  assumes "hire_write par bid x caller agent key now pep cep pa d = (Inr (), d')"
  shows "need_total x \<le> remaining_suballoc pa" "1 \<le> remaining_hire pa"
    "budgets d' = budgets d" "roles d' = roles d" "role_grants d' = role_grants d" "role_edges d' = role_edges d"
    "policies d' = policies d" "allowances d' = allowances (moved par bid x 1 pep cep now d)"
  using assms
  by (auto simp: hire_write_def Let_def ok_simps stmt moved_def split: if_splits)

lemma hired_row:
  assumes S: "schema d" and s: "hire_setup pb prole spec caller rid bid now pep cep d = Some d1"
    and b: "get_budget (bg_id pb) d = Some pb"
  shows "map_of (allowances d1) (bid, cep) = Some (fresh_row bid cep bundle_zero now)"
    "map_of (allowances d1) (bid, ep) \<noteq> None \<Longrightarrow> ep = cep"
proof -
  note F = hire_setup_frame [OF s]
  have ne: "bg_id pb \<noteq> bid" using F(6) b by (auto simp: get_budget_def has_def)
  have no: "map_of (allowances d) (bid, e) = None" for e
    using S F(6) by (auto simp: schema_defs map_of_eq_None_iff)
  show "map_of (allowances d1) (bid, cep) = Some (fresh_row bid cep bundle_zero now)"
    "map_of (allowances d1) (bid, ep) \<noteq> None \<Longrightarrow> ep = cep"
    using F(10,11) ne no by (auto simp: map_add_def split: if_splits)
qed

text \<open>C23. A hire is atomic and delivers everything it promises. If it fails, the database is the one
  of before. If it succeeds with a key not used before, the caller owns the parent budget, the new
  role exists in the parent's trust with the requested title, occupant and type, it has exactly
  the requested (or default) grants, reports to the parent role, and owns a primary budget below
  the parent budget whose only allowance row has the bundle as its caps and nothing spent; the
  parent's row had at least the bundle's total and one hire left.\<close>

theorem hire_delivers:
  assumes S: "schema d" and n: "\<not> seen_before par key d"
  shows "case hire par prole spec x caller agent key rid bid clk d of
     (Inl e, d') \<Rightarrow> d' = d
   | (Inr r, d') \<Rightarrow> \<exists>pb ca pa cep. r = \<lparr>hr_role_id = rid, hr_primary_budget_id = bid\<rparr> \<and>
       get_budget par d = Some pb \<and> owner_role_id pb = caller \<and>
       \<not> has (roles d) rid \<and> map_of (roles d') rid = Some (hired_role pb spec (clk 0)) \<and>
       (\<forall>g. (rid, g) \<in> set (role_grants d') \<longleftrightarrow> g \<in> set (hired_grants spec)) \<and>
       (prole = rid \<or> (prole, rid) \<in> set (role_edges d')) \<and>
       get_budget bid d' = Some (hired_budget pb spec caller rid bid (clk 0)) \<and>
       (\<forall>ep. map_of (allowances d') (bid, ep) = (if ep = cep then Some ca else None)) \<and>
       caps ca = x \<and> spent_inference ca = 0 \<and> spent_treasury ca = 0 \<and> spent_suballoc ca = 0 \<and> used_hire ca = 0 \<and>
       map_of (allowances d') (par, parent_epoch pb clk d) =
         Some (debit_suballoc (need_total x) 1 (clk 0) pa) \<and>
       need_total x \<le> remaining_suballoc pa \<and> 1 \<le> remaining_hire pa"
proof -
  obtain res d' where h: "hire par prole spec x caller agent key rid bid clk d = (res, d')" by force
  show ?thesis
  proof (cases res)
    case (Inl e)
    then show ?thesis using h hire_failure by auto
  next
    case (Inr r)
    obtain pb d1 pa where pb: "get_budget par d = Some pb" "owner_role_id pb = caller"
      and r: "r = \<lparr>hr_role_id = rid, hr_primary_budget_id = bid\<rparr>"
      and s: "hire_setup pb prole spec caller rid bid (clk 0) (parent_epoch pb clk d) (child_epoch pb clk d) d = Some d1"
      and pa: "map_of (allowances d1) (par, parent_epoch pb clk d) = Some pa"
      and w: "hire_write par bid x caller agent key (clk 0) (parent_epoch pb clk d) (child_epoch pb clk d) pa d1
        = (Inr (), d')"
      using hire_ok [OF S n h [unfolded Inr]] by metis
    note F = hire_setup_frame [OF s] and W = hire_write_ok [OF w]
    have id: "bg_id pb = par" by (rule bg_id_eq [OF S pb(1)])
    have ne: "par \<noteq> bid" using F(6) pb(1) by (auto simp: get_budget_def has_def)
    note C = hired_row [OF S s, unfolded id, OF pb(1)]
    let ?ca = "credit_bundle x (clk 0) (fresh_row bid (child_epoch pb clk d) bundle_zero (clk 0))"
    have rows: "map_of (allowances d') (bid, ep) = (if ep = child_epoch pb clk d then Some ?ca else None)" for ep
    proof (cases "ep = child_epoch pb clk d")
      case True
      then show ?thesis using C(1) ne by (simp add: W(8) moved_def update_allowance_rows)
    next
      case False
      then have "map_of (allowances d1) (bid, ep) = None" using C(2) by blast
      then show ?thesis using False ne by (simp add: W(8) moved_def update_allowance_rows)
    qed
    have prow: "map_of (allowances d') (par, parent_epoch pb clk d) =
        Some (debit_suballoc (need_total x) 1 (clk 0) pa)"
      using pa ne by (simp add: W(8) moved_def update_allowance_rows)
    have role: "map_of (roles d') rid = Some (hired_role pb spec (clk 0))"
      using F(2,7) W(4) by (simp add: map_add_def has_def split: option.splits)
    have bud: "get_budget bid d' = Some (hired_budget pb spec caller rid bid (clk 0))"
      using F(1,6) W(3) by (simp add: get_budget_def map_add_def has_def split: option.splits)
    have grants: "(rid, g) \<in> set (role_grants d') \<longleftrightarrow> g \<in> set (hired_grants spec)" for g
    proof -
      have "(rid, g) \<notin> set (role_grants d)" using S F(7) unfolding schema_def roles_ok_def by blast
      then show ?thesis using F(8) W(5) by auto
    qed
    have ca: "caps ?ca = x" "spent_inference ?ca = 0" "spent_treasury ?ca = 0" "spent_suballoc ?ca = 0"
        "used_hire ?ca = 0"
      by (simp_all add: credit_bundle_def fresh_row_def bundle_zero_def)
    have edge: "prole = rid \<or> (prole, rid) \<in> set (role_edges d')" using F(9) W(6) by auto
    show ?thesis unfolding h Inr prod.case sum.case
      by (rule exI [of _ pb], rule exI [of _ ?ca], rule exI [of _ pa], rule exI [of _ "child_epoch pb clk d"])
        (intro conjI allI r pb F(7) role grants edge bud rows ca prow W(1,2))
  qed
qed

theorem hire_delivers_witness:
  "\<exists>d'. hire ''b'' ''r'' demo_spec (demo_bundle 10) ''r'' None None ''q'' ''n'' (\<lambda>_. 1) (demo_reg False) =
      (Inr \<lparr>hr_role_id = ''q'', hr_primary_budget_id = ''n''\<rparr>, d') \<and>
     (\<exists>ca. map_of (allowances d') (''n'', 0) = Some ca \<and> caps ca = demo_bundle 10)"
proof -
  let ?h = "hire ''b'' ''r'' demo_spec (demo_bundle 10) ''r'' None None ''q'' ''n'' (\<lambda>_. 1) (demo_reg False)"
  have s: "\<not> seen_before ''b'' None (demo_reg False)" by code_simp
  have f: "fst ?h = Inr \<lparr>hr_role_id = ''q'', hr_primary_budget_id = ''n''\<rparr>" by code_simp
  then obtain d' where h: "?h = (Inr \<lparr>hr_role_id = ''q'', hr_primary_budget_id = ''n''\<rparr>, d')" by (metis prod.collapse)
  have "map_of (allowances (snd ?h)) (''n'', 0) \<noteq> None" by code_simp
  moreover obtain ca cep where
    "\<forall>ep. map_of (allowances d') (''n'', ep) = (if ep = cep then Some ca else None)" "caps ca = demo_bundle 10"
    using hire_delivers [OF demo_reg_ok(1) [of False] s,
        where prole = "''r''" and spec = demo_spec and x = "demo_bundle 10" and caller = "''r''" and agent = None
        and rid = "''q''" and bid = "''n''" and clk = "\<lambda>_. 1"]
    unfolding h prod.case sum.case by blast
  ultimately show ?thesis using h by (metis snd_conv)
qed

section \<open>What is not checked\<close>

text \<open>
  A spend reads the allowance and writes it in two critical sections. When two spends of 60 are
  both checked before either is written, both go through and a row with a cap of 100 has 120 spent.
\<close>

lemma check_write_race:
  "spend_treasury_check ''b'' 60 ''r'' None 1 (demo_reg False) = (Inr (Some 0), demo_reg False) \<and>
   map_option (\<lambda>a. (spent_treasury a, treasury_cap (caps a)))
     (map_of (allowances (snd (spend_treasury_write ''b'' 60 ''r'' None None 1 0
        (snd (spend_treasury_write ''b'' 60 ''r'' None None 1 0 (demo_reg False)))))) (''b'', 0)) = Some (120, 100)"
  by code_simp

text \<open>
  The rails of a bundle may be negative: inference credits of minus 50 pay for a treasury cap of
  50, and the parent is charged nothing.
\<close>

lemma negative_bundle_mints:
  "let x = \<lparr>inference_credits = - 50, treasury_cap = 50, suballoc_cap = 0, hire_cap = 0\<rparr>;
       d = snd (allocate ''b'' ''c'' x ''r'' None None (\<lambda>_. 1) (demo_reg False))
   in map_option spent_suballoc (map_of (allowances d) (''b'', 0)) = Some 0 \<and>
      map_option (\<lambda>a. treasury_cap (caps a)) (map_of (allowances d) (''c'', 0)) = Some 50"
  by code_simp

text \<open>The total of a bundle wraps: two rails of \<open>2\<^sup>6\<^sup>2\<close> need less than nothing.\<close>

lemma bundle_total_wraps:
  "need_total \<lparr>inference_credits = 2 ^ 62, treasury_cap = 2 ^ 62, suballoc_cap = 0, hire_cap = 0\<rparr> = - (2 ^ 63)"
  by code_simp

text \<open>
  A key is looked up without the kind of the operation: after a policy change with key \<open>k\<close>, a
  treasury spend with that key reports success and pays nothing.
\<close>

lemma shared_key_skips_spend:
  "let d = apply_op (OpPolicy ''b'' (demo_bundle 100) 604800 Burn ''r'' None (Some ''k'') 1) (demo_reg False)
   in spend_treasury ''b'' ''x'' 40 None ''r'' None (Some ''k'') (\<lambda>_. 2) d = (Inr (), d)"
  by code_simp

text \<open>Dissolving a budget also deletes the parent's audit events about it.\<close>

lemma dissolve_erases_parent_log:
  "let d = apply_op (OpCreate ''t'' (Some ''b'') ''r'' ''N'' Project ''r'' None None ''n'' 1) (demo_reg False)
   in map ev_budget_id (events d) = [''b''] \<and> events (apply_op (OpDissolve ''n'' ''r'' None None 2) d) = []"
  by code_simp

end
