(* ===== verification/Prorata.thy ===== *)
theory Prorata
  imports Prelude
begin

text \<open>
  Pro-rata arithmetic shared by the fund, the liquidity pool, the commitment sale and the
  exit: the quotient \<open>a * b / d\<close> computed in 128 bits and narrowed to 64, and the contract
  of a pool whose shares are never diluted.
\<close>

section \<open>Multiply, divide, narrow\<close>

text \<open>
  \<open>(a as u128).checked_mul(b as u128)?.checked_div(d as u128)?.try_into()?\<close>, the idiom of
  every pro-rata computation; \<open>None\<close> is any of its three failures, which the callers map to
  one and the same error.
\<close>

definition mul_div :: "u64 \<Rightarrow> u64 \<Rightarrow> u64 \<Rightarrow> u64 option" where
  "mul_div a b d =
     Option.bind (checked_mul (ucast a :: u128) (ucast b)) (\<lambda>m.
     Option.bind (checked_div m (ucast d)) try_into)"

lemma mul_wide:
  "\<exists>m. checked_mul (ucast (a :: u64) :: u128) (ucast (b :: u64)) = Some m \<and>
     unat m = unat a * unat b"
proof -
  have "unat a * unat b < 2 ^ 64 * 2 ^ 64"
    using unat_bound [of a] unat_bound [of b] by (intro mult_strict_mono) auto
  then show ?thesis
    using checked_mul_fits [of "ucast a :: u128" "ucast b"] by (simp add: unat_ucast_wide)
qed

lemma mul_div_Some [num]:
  "mul_div a b d = Some q \<longleftrightarrow> unat d \<noteq> 0 \<and> unat q = unat a * unat b div unat d"
proof -
  obtain m where m: "checked_mul (ucast a :: u128) (ucast b) = Some m" "unat m = unat a * unat b"
    using mul_wide by blast
  have d: "unat (ucast d :: u128) = unat d" by (simp add: unat_ucast_wide)
  show ?thesis
    using checked_div_fits [of "ucast d :: u128" m]
    by (auto simp: mul_div_def m d bind_eq_Some_conv checked_div_Some try_into_Some) metis
qed

lemma mul_div_fits:
  assumes "unat d \<noteq> 0" and "unat a * unat b div unat d < 2 ^ 64"
  shows "\<exists>q. mul_div a b d = Some q \<and> unat q = unat a * unat b div unat d"
  using assms unat_of_nat_small [of "unat a * unat b div unat d", where 'a = 64]
  by (auto simp: mul_div_Some intro!: exI [of _ "of_nat (unat a * unat b div unat d)"])

section \<open>Shares that are never diluted\<close>

text \<open>
  A step of a pool is fair when it does not lower the assets behind one share. Over any run
  of fair steps that keeps shares outstanding, what a holding of \<open>n\<close> shares is worth never
  falls.
\<close>

locale share_pool =
  fixes assets shares :: "'s \<Rightarrow> nat"
    and step :: "'s \<Rightarrow> 's \<Rightarrow> bool"
  assumes fair: "step s t \<Longrightarrow> 0 < shares s \<Longrightarrow> assets s * shares t \<le> assets t * shares s"
begin

lemma run_fair:
  assumes "(\<lambda>s t. step s t \<and> 0 < shares t)\<^sup>*\<^sup>* s t" and "0 < shares s"
  shows "assets s * shares t \<le> assets t * shares s \<and> 0 < shares t"
  using assms(1)
proof induction
  case base
  with assms(2) show ?case by simp
next
  case (step t u)
  then have "assets s * shares t * shares u \<le> assets t * shares s * shares u"
    by (intro mult_le_mono1) simp
  also have "\<dots> = assets t * shares u * shares s" by simp
  also have "\<dots> \<le> assets u * shares t * shares s"
    using step fair [of t u] by (intro mult_le_mono1) simp
  finally have "assets s * shares u * shares t \<le> assets u * shares s * shares t"
    by (simp add: ac_simps)
  with step show ?case by simp
qed

lemma holding_keeps_value:
  assumes "(\<lambda>s t. step s t \<and> 0 < shares t)\<^sup>*\<^sup>* s t" and "0 < shares s"
  shows "n * assets s div shares s \<le> n * assets t div shares t"
proof -
  from run_fair [OF assms] have "assets s * shares t \<le> assets t * shares s" "0 < shares t" by auto
  then have "n * assets s * shares t div (shares s * shares t)
      \<le> n * assets t * shares s div (shares t * shares s)"
    by (metis div_le_mono mult.assoc mult.commute mult_le_mono2)
  with assms(2) \<open>0 < shares t\<close> show ?thesis by simp
qed

end

text \<open>Rounding down in the pool's favour is what makes issue and redemption fair.\<close>

lemma issue_fair:
  "0 < (N :: nat) \<Longrightarrow> N * (T + a * T div N) \<le> (N + a) * T"
  by (simp add: add_mult_distrib add_mult_distrib2)

lemma redeem_fair:
  assumes "s \<le> (T :: nat)"
  shows "N * (T - s) \<le> (N - s * N div T) * T"
proof (cases "T = 0")
  case False
  have "N * T - s * N \<le> N * T - s * N div T * T" by (intro diff_le_mono2) simp
  then show ?thesis by (simp add: diff_mult_distrib diff_mult_distrib2 mult.commute [of N s])
qed simp

lemma issue_then_redeem:
  assumes "s * N \<le> a * T" and "0 < T + s"
  shows "s * (N + a) div (T + s) \<le> (a :: nat)"
proof -
  have "s * (N + a) \<le> a * (T + s)" using assms by (simp add: algebra_simps)
  then have "s * (N + a) div (T + s) \<le> a * (T + s) div (T + s)" by (rule div_le_mono)
  with assms(2) show ?thesis by simp
qed

end
