(* ===== verification/Aeqi_Fund.thy ===== *)
theory Aeqi_Fund
  imports Aeqi_Trust Spl_Interface Prorata
begin

text \<open>
  The program \<open>aeqi_fund\<close>: funds that issue LP shares against deposits at the current net
  asset value, redeem them pro rata, and split a carry off every rise of the value above a
  high-water mark.
\<close>

section \<open>Errors, state and events\<close>

datatype FundError =
    ZeroAmount | InvalidBps | MathOverflow | ShareTooSmall | EmptyFund | Unauthorized
  | InsufficientShares | NotManager | NoCarry | QuoteMintMismatch | TrustNotInCreationMode

record FundModuleState =
  fm_trust :: pubkey
  fm_fund_count :: u64
  fm_bump :: u8

record Fund =
  fd_trust :: pubkey
  fd_fund_id :: bytes32
  fd_manager :: pubkey
  fd_quote_mint :: pubkey
  fd_gross_nav :: u64
  fd_total_shares :: u64
  fd_high_water_mark :: u64
  fd_carry_bps :: u16
  fd_accrued_carry :: u64
  fd_bump :: u8

record LpShare =
  lp_trust :: pubkey
  lp_fund_id :: bytes32
  lp_lp :: pubkey
  lp_shares :: u64
  lp_bump :: u8

datatype fund_acct = FundModuleA FundModuleState | FundA Fund | LpShareA LpShare

type_synonym fund_store = "fund_acct accts"

fun as_fund_module :: "fund_acct \<Rightarrow> FundModuleState option" where
  "as_fund_module (FundModuleA m) = Some m" | "as_fund_module _ = None"

fun as_fund :: "fund_acct \<Rightarrow> Fund option" where
  "as_fund (FundA f) = Some f" | "as_fund _ = None"

fun as_lp_share :: "fund_acct \<Rightarrow> LpShare option" where
  "as_lp_share (LpShareA s) = Some s" | "as_lp_share _ = None"

definition zero_lp_share :: LpShare where
  "zero_lp_share = \<lparr>lp_trust = 0, lp_fund_id = 0, lp_lp = 0, lp_shares = 0, lp_bump = 0\<rparr>"

datatype fund_event =
    FundCreated pubkey bytes32 pubkey pubkey u16
  | FundDeposited pubkey bytes32 pubkey u64 u64
  | FundRedeemed pubkey bytes32 pubkey u64 u64
  | NavUpdated pubkey bytes32 u64 u64 u64
  | CarryClaimed pubkey bytes32 pubkey u64

definition AEQI_FUND_ID :: pubkey where
  "AEQI_FUND_ID = 0xbad12ab94461c5f695a7021537f5e6cd32f6a5bf81a4506a4ecab4d3b87492cc"

section \<open>Instructions\<close>

definition InitFund_accounts :: "pda_sdk \<Rightarrow> trust_store \<Rightarrow> fund_store \<Rightarrow> pubkey \<Rightarrow> pubkey \<Rightarrow>
  FundError err + Trust \<times> u8" where
  "InitFund_accounts P TL L trust module_state =
     rbind (trust_account P TL trust) (\<lambda>t.
     rbind (init_account P [Lit ''fund_module'', B32 trust] AEQI_FUND_ID L module_state)
       (\<lambda>bump. Inr (t, bump)))"

definition fund_init :: "pda_sdk \<Rightarrow> trust_store \<Rightarrow> pubkey \<Rightarrow> pubkey \<Rightarrow> pubkey \<Rightarrow> fund_store \<Rightarrow>
  FundError err + fund_store \<times> fund_event list" where
  "fund_init P TL trust module_state payer L =
     rbind (InitFund_accounts P TL L trust module_state) (\<lambda>(t, bump).
     require (t_creation_mode t) (Prog TrustNotInCreationMode)
     (require (payer = t_authority t) (Prog Unauthorized)
     (Inr (L(module_state \<mapsto> FundModuleA
             \<lparr>fm_trust = trust, fm_fund_count = 0, fm_bump = bump\<rparr>), []))))"

definition CreateFund_accounts :: "pda_sdk \<Rightarrow> 'tk spl \<Rightarrow> bytes32 \<Rightarrow> fund_store \<Rightarrow> 'tk \<Rightarrow> pubkey \<Rightarrow>
  pubkey \<Rightarrow> pubkey \<Rightarrow> pubkey \<Rightarrow> FundError err + FundModuleState \<times> u8" where
  "CreateFund_accounts P S fund_id L tk trust module_state fund quote_mint =
     rbind (load as_fund_module L module_state) (\<lambda>m.
     require (seeds_ok P [Lit ''fund_module'', B32 trust] (fm_bump m) AEQI_FUND_ID module_state)
       (Anchor ConstraintSeeds)
     (rbind (init_account P [Lit ''fund'', B32 trust, B32 fund_id] AEQI_FUND_ID L fund) (\<lambda>bump.
     rbind (mint_account S tk quote_mint) (\<lambda>_.
       Inr (m, bump)))))"

definition fund_create_fund :: "pda_sdk \<Rightarrow> 'tk spl \<Rightarrow> pubkey \<Rightarrow> pubkey \<Rightarrow> pubkey \<Rightarrow> pubkey \<Rightarrow> pubkey \<Rightarrow>
  bytes32 \<Rightarrow> u16 \<Rightarrow> fund_store \<Rightarrow> 'tk \<Rightarrow> FundError err + fund_store \<times> fund_event list" where
  "fund_create_fund P S trust module_state fund quote_mint manager fund_id carry_bps L tk =
     rbind (CreateFund_accounts P S fund_id L tk trust module_state fund quote_mint) (\<lambda>(m, bump).
     require (carry_bps \<le> 10000) (Prog InvalidBps)
     (rbind (ok_or (checked_add (fm_fund_count m) 1) (Prog MathOverflow)) (\<lambda>n.
       Inr (L(module_state \<mapsto> FundModuleA (m\<lparr>fm_fund_count := n\<rparr>),
              fund \<mapsto> FundA
                \<lparr>fd_trust = trust, fd_fund_id = fund_id, fd_manager = manager,
                 fd_quote_mint = quote_mint, fd_gross_nav = 0, fd_total_shares = 0,
                 fd_high_water_mark = 0, fd_carry_bps = carry_bps, fd_accrued_carry = 0,
                 fd_bump = bump\<rparr>),
            [FundCreated trust fund_id manager quote_mint carry_bps]))))"

text \<open>The constraint on \<open>fund\<close> in every context that loads it.\<close>

definition fund_account :: "pda_sdk \<Rightarrow> fund_store \<Rightarrow> pubkey \<Rightarrow> FundError err + Fund" where
  "fund_account P L fund =
     rbind (load as_fund L fund) (\<lambda>f.
     require (seeds_ok P [Lit ''fund'', B32 (fd_trust f), B32 (fd_fund_id f)] (fd_bump f)
         AEQI_FUND_ID fund) (Anchor ConstraintSeeds) (Inr f))"

definition fund_authority_seeds :: "Fund \<Rightarrow> seed list" where
  "fund_authority_seeds f = [Lit ''fund_authority'', B32 (fd_trust f), B32 (fd_fund_id f)]"

definition lp_share_seeds :: "Fund \<Rightarrow> pubkey \<Rightarrow> seed list" where
  "lp_share_seeds f lp = [Lit ''lp_share'', B32 (fd_trust f), B32 (fd_fund_id f), B32 lp]"

definition FundDeposit_accounts :: "pda_sdk \<Rightarrow> 'tk spl \<Rightarrow> fund_store \<Rightarrow> 'tk \<Rightarrow> pubkey \<Rightarrow> pubkey \<Rightarrow>
  pubkey \<Rightarrow> pubkey \<Rightarrow> pubkey \<Rightarrow> pubkey \<Rightarrow> pubkey \<Rightarrow>
  FundError err + Fund \<times> mint_data \<times> LpShare \<times> u8" where
  "FundDeposit_accounts P S L tk fund fund_authority quote_mint fund_quote_vault lp_quote_ta
     lp_share lp =
     rbind (fund_account P L fund) (\<lambda>f.
     rbind (canonical P (fund_authority_seeds f) AEQI_FUND_ID fund_authority) (\<lambda>_.
     rbind (mint_account S tk quote_mint) (\<lambda>mi.
     rbind (token_account S tk fund_quote_vault quote_mint (Some fund_authority)) (\<lambda>_.
     rbind (token_account S tk lp_quote_ta quote_mint (Some lp)) (\<lambda>_.
     rbind (init_if_needed P (lp_share_seeds f lp) AEQI_FUND_ID as_lp_share zero_lp_share L lp_share)
       (\<lambda>(s, bump). Inr (f, mi, s, bump)))))))"

definition fund_deposit :: "pda_sdk \<Rightarrow> 'tk spl \<Rightarrow> pubkey \<Rightarrow> pubkey \<Rightarrow> pubkey \<Rightarrow> pubkey \<Rightarrow> pubkey \<Rightarrow>
  pubkey \<Rightarrow> pubkey \<Rightarrow> u64 \<Rightarrow> fund_store \<Rightarrow> 'tk \<Rightarrow>
  FundError err + fund_store \<times> 'tk \<times> fund_event list" where
  "fund_deposit P S fund fund_authority quote_mint fund_quote_vault lp_quote_ta lp_share lp amount
     L tk =
     rbind (FundDeposit_accounts P S L tk fund fund_authority quote_mint fund_quote_vault
              lp_quote_ta lp_share lp) (\<lambda>(f, mi, s, bump).
     require (amount > 0) (Prog ZeroAmount)
     (require (quote_mint = fd_quote_mint f) (Prog QuoteMintMismatch)
     (rbind (spl_call (transfer_checked S lp_quote_ta quote_mint fund_quote_vault lp amount
               (mi_decimals mi) tk)) (\<lambda>tk'.
     rbind (if fd_gross_nav f = 0 \<or> fd_total_shares f = 0 then Inr amount
            else ok_or (mul_div amount (fd_total_shares f) (fd_gross_nav f)) (Prog MathOverflow))
       (\<lambda>shares.
     require (shares > 0) (Prog ShareTooSmall)
     (rbind (ok_or (checked_add (fd_gross_nav f) amount) (Prog MathOverflow)) (\<lambda>nav.
     rbind (ok_or (checked_add (fd_total_shares f) shares) (Prog MathOverflow)) (\<lambda>total.
     rbind (ok_or (checked_add (lp_shares s) shares) (Prog MathOverflow)) (\<lambda>held.
       Inr (L(fund \<mapsto> FundA (f\<lparr>fd_gross_nav := nav, fd_total_shares := total\<rparr>),
              lp_share \<mapsto> LpShareA \<lparr>lp_trust = fd_trust f, lp_fund_id = fd_fund_id f, lp_lp = lp,
                lp_shares = held, lp_bump = bump\<rparr>), tk',
            [FundDeposited (fd_trust f) (fd_fund_id f) lp amount shares]))))))))))"

definition UpdateNav_accounts :: "pda_sdk \<Rightarrow> fund_store \<Rightarrow> pubkey \<Rightarrow> FundError err + Fund" where
  "UpdateNav_accounts P L fund = fund_account P L fund"

definition fund_update_nav :: "pda_sdk \<Rightarrow> pubkey \<Rightarrow> pubkey \<Rightarrow> u64 \<Rightarrow> fund_store \<Rightarrow>
  FundError err + fund_store \<times> fund_event list" where
  "fund_update_nav P fund manager new_gross_nav L =
     rbind (UpdateNav_accounts P L fund) (\<lambda>f.
     require (manager = fd_manager f) (Prog NotManager)
     (rbind (ok_or (checked_sub new_gross_nav (fd_accrued_carry f)) (Prog MathOverflow)) (\<lambda>lp_nav.
     rbind (if lp_nav > fd_high_water_mark f then
              let increase = lp_nav - fd_high_water_mark f in
              rbind (ok_or (mul_div increase (ucast (fd_carry_bps f)) 10000) (Prog MathOverflow))
                (\<lambda>carry.
              rbind (ok_or (checked_add (fd_accrued_carry f) carry) (Prog MathOverflow)) (\<lambda>accrued.
              rbind (ok_or (checked_sub lp_nav carry) (Prog MathOverflow)) (\<lambda>nav.
                Inr (f\<lparr>fd_accrued_carry := accrued, fd_gross_nav := nav, fd_high_water_mark := nav\<rparr>))))
            else Inr (f\<lparr>fd_gross_nav := lp_nav\<rparr>)) (\<lambda>f'.
       Inr (L(fund \<mapsto> FundA f'),
            [NavUpdated (fd_trust f') (fd_fund_id f') (fd_gross_nav f') (fd_high_water_mark f')
               (fd_accrued_carry f')])))))"

definition ClaimCarry_accounts :: "pda_sdk \<Rightarrow> 'tk spl \<Rightarrow> fund_store \<Rightarrow> 'tk \<Rightarrow> pubkey \<Rightarrow> pubkey \<Rightarrow>
  pubkey \<Rightarrow> pubkey \<Rightarrow> pubkey \<Rightarrow> FundError err + Fund \<times> mint_data" where
  "ClaimCarry_accounts P S L tk fund fund_authority quote_mint fund_quote_vault manager_quote_ta =
     rbind (fund_account P L fund) (\<lambda>f.
     rbind (canonical P (fund_authority_seeds f) AEQI_FUND_ID fund_authority) (\<lambda>_.
     rbind (mint_account S tk quote_mint) (\<lambda>mi.
     rbind (token_account S tk fund_quote_vault quote_mint (Some fund_authority)) (\<lambda>_.
     rbind (token_account S tk manager_quote_ta quote_mint None) (\<lambda>_. Inr (f, mi))))))"

definition fund_claim_carry :: "pda_sdk \<Rightarrow> 'tk spl \<Rightarrow> pubkey \<Rightarrow> pubkey \<Rightarrow> pubkey \<Rightarrow> pubkey \<Rightarrow> pubkey \<Rightarrow>
  pubkey \<Rightarrow> fund_store \<Rightarrow> 'tk \<Rightarrow> FundError err + fund_store \<times> 'tk \<times> fund_event list" where
  "fund_claim_carry P S fund fund_authority quote_mint fund_quote_vault manager_quote_ta manager L tk =
     rbind (ClaimCarry_accounts P S L tk fund fund_authority quote_mint fund_quote_vault
              manager_quote_ta) (\<lambda>(f, mi).
     require (manager = fd_manager f) (Prog NotManager)
     (require (quote_mint = fd_quote_mint f) (Prog QuoteMintMismatch)
     (let carry = fd_accrued_carry f in
     require (carry > 0) (Prog NoCarry)
     (rbind (spl_call (transfer_checked S fund_quote_vault quote_mint manager_quote_ta
               fund_authority carry (mi_decimals mi) tk)) (\<lambda>tk'.
       Inr (L(fund \<mapsto> FundA (f\<lparr>fd_accrued_carry := 0\<rparr>)), tk',
            [CarryClaimed (fd_trust f) (fd_fund_id f) (fd_manager f) carry]))))))"

definition FundRedeem_accounts :: "pda_sdk \<Rightarrow> 'tk spl \<Rightarrow> fund_store \<Rightarrow> 'tk \<Rightarrow> pubkey \<Rightarrow> pubkey \<Rightarrow>
  pubkey \<Rightarrow> pubkey \<Rightarrow> pubkey \<Rightarrow> pubkey \<Rightarrow> pubkey \<Rightarrow> FundError err + Fund \<times> mint_data \<times> LpShare" where
  "FundRedeem_accounts P S L tk fund fund_authority quote_mint fund_quote_vault lp_quote_ta
     lp_share lp =
     rbind (fund_account P L fund) (\<lambda>f.
     rbind (canonical P (fund_authority_seeds f) AEQI_FUND_ID fund_authority) (\<lambda>_.
     rbind (mint_account S tk quote_mint) (\<lambda>mi.
     rbind (token_account S tk fund_quote_vault quote_mint (Some fund_authority)) (\<lambda>_.
     rbind (token_account S tk lp_quote_ta quote_mint None) (\<lambda>_.
     rbind (load as_lp_share L lp_share) (\<lambda>s.
     require (seeds_ok P (lp_share_seeds f lp) (lp_bump s) AEQI_FUND_ID lp_share)
       (Anchor ConstraintSeeds) (Inr (f, mi, s))))))))"

definition fund_redeem :: "pda_sdk \<Rightarrow> 'tk spl \<Rightarrow> pubkey \<Rightarrow> pubkey \<Rightarrow> pubkey \<Rightarrow> pubkey \<Rightarrow> pubkey \<Rightarrow>
  pubkey \<Rightarrow> pubkey \<Rightarrow> u64 \<Rightarrow> fund_store \<Rightarrow> 'tk \<Rightarrow>
  FundError err + fund_store \<times> 'tk \<times> fund_event list" where
  "fund_redeem P S fund fund_authority quote_mint fund_quote_vault lp_quote_ta lp_share lp shares
     L tk =
     rbind (FundRedeem_accounts P S L tk fund fund_authority quote_mint fund_quote_vault
              lp_quote_ta lp_share lp) (\<lambda>(f, mi, s).
     require (shares > 0) (Prog ZeroAmount)
     (require (quote_mint = fd_quote_mint f) (Prog QuoteMintMismatch)
     (require (fd_total_shares f > 0) (Prog EmptyFund)
     (require (lp = lp_lp s) (Prog Unauthorized)
     (require (shares \<le> lp_shares s) (Prog InsufficientShares)
     (rbind (ok_or (mul_div shares (fd_gross_nav f) (fd_total_shares f)) (Prog MathOverflow))
       (\<lambda>quote_out.
     require (quote_out > 0) (Prog ShareTooSmall)
     (rbind (spl_call (transfer_checked S fund_quote_vault quote_mint lp_quote_ta fund_authority
               quote_out (mi_decimals mi) tk)) (\<lambda>tk'.
     rbind (ok_or (checked_sub (lp_shares s) shares) (Prog MathOverflow)) (\<lambda>held.
     rbind (ok_or (checked_sub (fd_total_shares f) shares) (Prog MathOverflow)) (\<lambda>total.
     rbind (ok_or (checked_sub (fd_gross_nav f) quote_out) (Prog MathOverflow)) (\<lambda>nav.
       Inr (L(fund \<mapsto> FundA (f\<lparr>fd_gross_nav := nav, fd_total_shares := total\<rparr>),
              lp_share \<mapsto> LpShareA (s\<lparr>lp_shares := held\<rparr>)), tk',
            [FundRedeemed (fd_trust f) (fd_fund_id f) (lp_lp s) shares quote_out])))))))))))))"


section \<open>What a successful instruction did\<close>

lemma as_fund_acct [res]:
  "as_fund_module a = Some m \<longleftrightarrow> a = FundModuleA m"
  "as_fund a = Some f \<longleftrightarrow> a = FundA f"
  "as_lp_share a = Some s \<longleftrightarrow> a = LpShareA s"
  by (cases a; simp)+

lemma fund_account_Inr [res]:
  "fund_account P L fund = Inr f \<longleftrightarrow> L fund = Some (FundA f) \<and>
     seeds_ok P [Lit ''fund'', B32 (fd_trust f), B32 (fd_fund_id f)] (fd_bump f) AEQI_FUND_ID fund"
  by (auto simp: fund_account_def res)

lemmas fund_accounts_defs = InitFund_accounts_def CreateFund_accounts_def FundDeposit_accounts_def
  UpdateNav_accounts_def ClaimCarry_accounts_def FundRedeem_accounts_def

lemma fund_init_ok:
  "fund_init P TL trust ms payer L = Inr (L', ev) \<Longrightarrow>
   \<exists>t m. TL trust = Some (TrustA t) \<and> t_creation_mode t \<and> payer = t_authority t \<and>
     L ms = None \<and> L' = L(ms \<mapsto> FundModuleA m)"
  by (auto simp: fund_init_def fund_accounts_defs res)

lemma fund_create_ok:
  assumes "fund_create_fund P S trust ms fk qm mgr fid bps L tk = Inr (L', ev)"
  obtains m n f where "L ms = Some (FundModuleA m)" "L fk = None" "fd_total_shares f = 0"
    "fd_gross_nav f = 0" "fd_accrued_carry f = 0" "fd_high_water_mark f = 0"
    "unat (fd_carry_bps f) \<le> 10000"
    "L' = L(ms \<mapsto> FundModuleA (m\<lparr>fm_fund_count := n\<rparr>), fk \<mapsto> FundA f)"
proof -
  from assms show thesis
    by (simp add: fund_create_fund_def fund_accounts_defs res)
      (elim exE conjE, rule that [rotated -1], erule sym, simp_all add: word_le_nat_alt)
qed

text \<open>How many shares a deposit buys.\<close>

definition issued :: "Fund \<Rightarrow> nat \<Rightarrow> nat" where
  "issued f amount = (if fd_gross_nav f = 0 \<or> fd_total_shares f = 0 then amount
     else amount * unat (fd_total_shares f) div unat (fd_gross_nav f))"

lemma fund_deposit_ok:
  assumes "fund_deposit P S fk fa qm vault ta sk lp amt L tk = Inr (L', tk', ev)"
  obtains f s d nav total s' where "L fk = Some (FundA f)"
    "L sk = None \<and> lp_shares s = 0 \<or> L sk = Some (LpShareA s)"
    "qm = fd_quote_mint f" "0 < unat amt" "0 < issued f (unat amt)"
    "transfer_checked S ta qm vault lp amt d tk = Some tk'"
    "unat nav = unat (fd_gross_nav f) + unat amt"
    "unat total = unat (fd_total_shares f) + issued f (unat amt)"
    "lp_lp s' = lp" "unat (lp_shares s') = unat (lp_shares s) + issued f (unat amt)"
    "L' = L(fk \<mapsto> FundA (f\<lparr>fd_gross_nav := nav, fd_total_shares := total\<rparr>), sk \<mapsto> LpShareA s')"
proof -
  from assms obtain f mi s bump where
    acc: "FundDeposit_accounts P S L tk fk fa qm vault ta sk lp = Inr (f, mi, s, bump)"
    by (auto simp: fund_deposit_def res)
  then have a: "L fk = Some (FundA f)" "L sk = None \<and> lp_shares s = 0 \<or> L sk = Some (LpShareA s)"
    by (auto simp: fund_accounts_defs res zero_lp_share_def)
  have pick: "(if b then Inr x else ok_or m e) = Inr y \<longleftrightarrow> (if b then y = x else m = Some y)"
    for b and x y :: u64 and m and e :: "FundError err" by (auto simp: res)
  from assms acc obtain n nav total held where
    p: "0 < amt" "qm = fd_quote_mint f"
      "transfer_checked S ta qm vault lp amt (mi_decimals mi) tk = Some tk'"
      "if fd_gross_nav f = 0 \<or> fd_total_shares f = 0 then n = amt
       else mul_div amt (fd_total_shares f) (fd_gross_nav f) = Some n" "0 < n"
      "checked_add (fd_gross_nav f) amt = Some nav" "checked_add (fd_total_shares f) n = Some total"
      "checked_add (lp_shares s) n = Some held"
      "L' = L(fk \<mapsto> FundA (f\<lparr>fd_gross_nav := nav, fd_total_shares := total\<rparr>),
         sk \<mapsto> LpShareA \<lparr>lp_trust = fd_trust f, lp_fund_id = fd_fund_id f, lp_lp = lp,
           lp_shares = held, lp_bump = bump\<rparr>)"
    by (simp add: fund_deposit_def rbind_Inr require_Inr ok_or_Inr spl_call_Inr pick) blast
  from p(4) have n: "unat n = issued f (unat amt)"
    by (auto simp: issued_def mul_div_Some split: if_splits)
  show thesis
    by (rule that [OF a p(2) _ _ p(3) _ _ _ _ p(9)])
      (use p n in \<open>simp_all add: word_less_nat_alt checked_add_Some\<close>)
qed

definition carry_due :: "Fund \<Rightarrow> nat \<Rightarrow> nat" where
  "carry_due f lp_nav = (lp_nav - unat (fd_high_water_mark f)) * unat (fd_carry_bps f) div 10000"

lemma fund_update_nav_ok:
  assumes "fund_update_nav P fk mgr nn L = Inr (L', ev)"
  obtains f f' where "L fk = Some (FundA f)" "mgr = fd_manager f" "L' = L(fk \<mapsto> FundA f')"
    "unat (fd_accrued_carry f) \<le> unat nn"
    "unat (fd_accrued_carry f') = unat (fd_accrued_carry f)
       + carry_due f (unat nn - unat (fd_accrued_carry f))"
    "unat (fd_gross_nav f') + unat (fd_accrued_carry f') = unat nn"
    "fd_high_water_mark f' = (if unat (fd_high_water_mark f) < unat nn - unat (fd_accrued_carry f)
       then fd_gross_nav f' else fd_high_water_mark f)"
    "fd_total_shares f' = fd_total_shares f" "fd_manager f' = fd_manager f"
    "fd_carry_bps f' = fd_carry_bps f"
proof -
  from assms obtain f lpn where a: "L fk = Some (FundA f)" "mgr = fd_manager f"
    "checked_sub nn (fd_accrued_carry f) = Some lpn"
    by (auto simp: fund_update_nav_def fund_accounts_defs res)
  then have lpn: "unat lpn = unat nn - unat (fd_accrued_carry f)"
    "unat (fd_accrued_carry f) \<le> unat nn" by (simp_all add: checked_sub_Some)
  have bps: "unat (ucast (fd_carry_bps f) :: u64) = unat (fd_carry_bps f)"
    by (simp add: unat_ucast_wide)
  have thous: "unat (10000 :: u64) = 10000" by simp
  show thesis
  proof (cases "lpn > fd_high_water_mark f")
    case True
    with assms a obtain c acc nav where
      c: "mul_div (lpn - fd_high_water_mark f) (ucast (fd_carry_bps f)) 10000 = Some c"
        "checked_add (fd_accrued_carry f) c = Some acc" "checked_sub lpn c = Some nav"
        "L' = L(fk \<mapsto> FundA (f\<lparr>fd_accrued_carry := acc, fd_gross_nav := nav,
           fd_high_water_mark := nav\<rparr>))"
      by (auto simp: fund_update_nav_def fund_accounts_defs res Let_def)
    have "unat (lpn - fd_high_water_mark f) = unat lpn - unat (fd_high_water_mark f)"
      using True by (intro unat_sub) simp
    with c(1) have "unat c = carry_due f (unat nn - unat (fd_accrued_carry f))"
      by (simp add: mul_div_Some bps lpn carry_due_def)
    with True lpn c show thesis
      by (intro that [OF a(1,2) c(4) lpn(2)])
        (simp_all add: checked_add_Some checked_sub_Some word_less_nat_alt)
  next
    case False
    with assms a have L': "L' = L(fk \<mapsto> FundA (f\<lparr>fd_gross_nav := lpn\<rparr>))"
      by (auto simp: fund_update_nav_def fund_accounts_defs res)
    from False lpn show thesis
      by (intro that [OF a(1,2) L' lpn(2)]) (simp_all add: word_less_nat_alt carry_due_def)
  qed
qed

lemma fund_claim_carry_ok:
  "fund_claim_carry P S fk fa qm vault ta mgr L tk = Inr (L', tk', ev) \<Longrightarrow>
   \<exists>f d. L fk = Some (FundA f) \<and> mgr = fd_manager f \<and> qm = fd_quote_mint f \<and>
     0 < unat (fd_accrued_carry f) \<and>
     transfer_checked S vault qm ta fa (fd_accrued_carry f) d tk = Some tk' \<and>
     L' = L(fk \<mapsto> FundA (f\<lparr>fd_accrued_carry := 0\<rparr>))"
  by (auto simp: fund_claim_carry_def fund_accounts_defs res Let_def unat_gt_0)

lemma fund_redeem_ok:
  assumes "fund_redeem P S fk fa qm vault ta sk lp n L tk = Inr (L', tk', ev)"
  obtains f s q d nav total held where "L fk = Some (FundA f)" "L sk = Some (LpShareA s)"
    "lp = lp_lp s" "qm = fd_quote_mint f" "0 < unat n" "0 < unat (fd_total_shares f)"
    "unat q = unat n * unat (fd_gross_nav f) div unat (fd_total_shares f)" "0 < unat q"
    "transfer_checked S vault qm ta fa q d tk = Some tk'"
    "unat (lp_shares s) = unat held + unat n"
    "unat (fd_total_shares f) = unat total + unat n" "unat (fd_gross_nav f) = unat nav + unat q"
    "L' = L(fk \<mapsto> FundA (f\<lparr>fd_gross_nav := nav, fd_total_shares := total\<rparr>),
       sk \<mapsto> LpShareA (s\<lparr>lp_shares := held\<rparr>))"
proof -
  from assms obtain f mi s where
    acc: "FundRedeem_accounts P S L tk fk fa qm vault ta sk lp = Inr (f, mi, s)"
    by (auto simp: fund_redeem_def res)
  then have a: "L fk = Some (FundA f)" "L sk = Some (LpShareA s)"
    by (auto simp: fund_accounts_defs res)
  from assms acc obtain q nav total held where
    p: "0 < n" "qm = fd_quote_mint f" "0 < fd_total_shares f" "lp = lp_lp s"
      "mul_div n (fd_gross_nav f) (fd_total_shares f) = Some q" "0 < q"
      "transfer_checked S vault qm ta fa q (mi_decimals mi) tk = Some tk'"
      "checked_sub (lp_shares s) n = Some held" "checked_sub (fd_total_shares f) n = Some total"
      "checked_sub (fd_gross_nav f) q = Some nav"
      "L' = L(fk \<mapsto> FundA (f\<lparr>fd_gross_nav := nav, fd_total_shares := total\<rparr>),
         sk \<mapsto> LpShareA (s\<lparr>lp_shares := held\<rparr>))"
    by (simp add: fund_redeem_def rbind_Inr require_Inr ok_or_Inr spl_call_Inr) blast
  show thesis
    by (rule that [OF a p(4) p(2) _ _ _ _ p(7) _ _ _ p(11)])
      (use p in \<open>simp_all add: word_less_nat_alt checked_sub_Some mul_div_Some\<close>)
qed

section \<open>Runs of the program\<close>

inductive fund_step :: "pda_sdk \<Rightarrow> 'tk spl \<Rightarrow> fund_store \<times> 'tk \<Rightarrow> fund_store \<times> 'tk \<Rightarrow> bool"
  for P S where
  init: "fund_init P TL trust ms payer L = Inr (L', ev) \<Longrightarrow> fund_step P S (L, tk) (L', tk)"
| create: "fund_create_fund P S trust ms fk qm mgr fid bps L tk = Inr (L', ev) \<Longrightarrow>
    fund_step P S (L, tk) (L', tk)"
| deposit: "fund_deposit P S fk fa qm vault ta sk lp amt L tk = Inr (L', tk', ev) \<Longrightarrow>
    fund_step P S (L, tk) (L', tk')"
| update: "fund_update_nav P fk mgr nn L = Inr (L', ev) \<Longrightarrow> fund_step P S (L, tk) (L', tk)"
| carry: "fund_claim_carry P S fk fa qm vault ta mgr L tk = Inr (L', tk', ev) \<Longrightarrow>
    fund_step P S (L, tk) (L', tk')"
| redeem: "fund_redeem P S fk fa qm vault ta sk lp n L tk = Inr (L', tk', ev) \<Longrightarrow>
    fund_step P S (L, tk) (L', tk')"
| token: "fund_step P S (L, tk) (L, tk')"

text \<open>The last rule stands for everything that other programs do to the token state. The
  books: the shares the funds have issued, and the shares the LP accounts hold.\<close>

fun issued_by :: "fund_acct \<Rightarrow> nat" where
  "issued_by (FundA f) = unat (fd_total_shares f)" | "issued_by _ = 0"

fun held_in :: "fund_acct \<Rightarrow> nat" where
  "held_in (LpShareA s) = unat (lp_shares s)" | "held_in _ = 0"

definition fund_inv :: "fund_store \<times> 'tk \<Rightarrow> bool" where
  "fund_inv s \<longleftrightarrow> total issued_by (fst s) = total held_in (fst s)"

lemma books_balance:
  assumes "k \<noteq> j" and "total issued_by L = total held_in L"
    and "issued_by a + issued_by b + at held_in L k + at held_in L j =
      held_in a + held_in b + at issued_by L k + at issued_by L j"
  shows "total issued_by (L(k \<mapsto> a, j \<mapsto> b)) = total held_in (L(k \<mapsto> a, j \<mapsto> b))"
proof -
  have "total g (L(k \<mapsto> a, j \<mapsto> b)) + at g L k + at g L j = total g L + g a + g b" for g
    using total_write [of g "L(k \<mapsto> a)" j b] total_write [of g L k a] assms(1) by (simp add: at_def)
  from this [of issued_by] this [of held_in] assms(2,3) show ?thesis by simp
qed

lemma fund_step_inv:
  assumes "fund_step P S s s'" and inv: "fund_inv s"
  shows "fund_inv s'"
  using assms(1)
proof cases
  case init
  with inv show ?thesis by (auto dest!: fund_init_ok simp: fund_inv_def total_new)
next
  case (create trust ms fk qm mgr fid bps L tk L' ev)
  from create(3) obtain m n f where "L ms = Some (FundModuleA m)" "L fk = None"
    "fd_total_shares f = 0"
    "L' = L(ms \<mapsto> FundModuleA (m\<lparr>fm_fund_count := n\<rparr>), fk \<mapsto> FundA f)"
    by (rule fund_create_ok)
  moreover from this have "ms \<noteq> fk" by auto
  ultimately show ?thesis
    using inv create by (auto simp: fund_inv_def at_def intro!: books_balance)
next
  case (deposit fk fa qm vault ta sk lp amt L tk L' tk' ev)
  from deposit(3) obtain f s1 nav tot s2 where "L fk = Some (FundA f)"
    "L sk = None \<and> lp_shares s1 = 0 \<or> L sk = Some (LpShareA s1)"
    "unat tot = unat (fd_total_shares f) + issued f (unat amt)"
    "unat (lp_shares s2) = unat (lp_shares s1) + issued f (unat amt)"
    "L' = L(fk \<mapsto> FundA (f\<lparr>fd_gross_nav := nav, fd_total_shares := tot\<rparr>), sk \<mapsto> LpShareA s2)"
    by (rule fund_deposit_ok)
  moreover from this have "fk \<noteq> sk" by auto
  ultimately show ?thesis
    using inv deposit by (auto simp: fund_inv_def at_def intro!: books_balance)
next
  case update
  with inv show ?thesis
    by (elim fund_update_nav_ok) (auto simp: fund_inv_def total_same)
next
  case carry
  with inv show ?thesis by (auto dest!: fund_claim_carry_ok simp: fund_inv_def total_same)
next
  case (redeem fk fa qm vault ta sk lp n L tk L' tk' ev)
  from redeem(3) obtain f s1 nav tot held where "L fk = Some (FundA f)" "L sk = Some (LpShareA s1)"
    "unat (lp_shares s1) = unat held + unat n" "unat (fd_total_shares f) = unat tot + unat n"
    "L' = L(fk \<mapsto> FundA (f\<lparr>fd_gross_nav := nav, fd_total_shares := tot\<rparr>),
       sk \<mapsto> LpShareA (s1\<lparr>lp_shares := held\<rparr>))"
    by (rule fund_redeem_ok)
  moreover from this have "fk \<noteq> sk" by auto
  ultimately show ?thesis
    using inv redeem by (auto simp: fund_inv_def at_def intro!: books_balance)
next
  case token
  with inv show ?thesis by (simp add: fund_inv_def)
qed

interpretation fund_run: kept_by_steps "fund_step P S" fund_inv for P S
  by unfold_locales (rule fund_step_inv)

interpretation fund_module: module_init fund_init
  by unfold_locales (auto dest!: fund_init_ok)

section \<open>The value of a share\<close>

fun nav_of :: "fund_acct \<Rightarrow> nat" where
  "nav_of (FundA f) = unat (fd_gross_nav f)" | "nav_of _ = 0"

text \<open>A trade with the fund at \<open>k\<close>: a deposit or a redemption by anybody.\<close>

inductive fund_trade :: "pda_sdk \<Rightarrow> 'tk spl \<Rightarrow> pubkey \<Rightarrow> fund_store \<Rightarrow> fund_store \<Rightarrow> bool"
  for P S k where
  buy: "fund_deposit P S k fa qm vault ta sk lp amt L tk = Inr (L', tk', ev) \<Longrightarrow> fund_trade P S k L L'"
| sell: "fund_redeem P S k fa qm vault ta sk lp n L tk = Inr (L', tk', ev) \<Longrightarrow> fund_trade P S k L L'"

lemma fund_trade_fair:
  assumes "fund_trade P S k L L'" and "0 < at issued_by L k"
  shows "at nav_of L k * at issued_by L' k \<le> at nav_of L' k * at issued_by L k"
  using assms(1)
proof cases
  case (buy fa qm vault ta sk lp amt tk tk' ev)
  from buy obtain f s nav tot s' where f: "L k = Some (FundA f)"
      "L sk = None \<and> lp_shares s = 0 \<or> L sk = Some (LpShareA s)"
      "unat nav = unat (fd_gross_nav f) + unat amt"
      "unat tot = unat (fd_total_shares f) + issued f (unat amt)"
      "L' = L(k \<mapsto> FundA (f\<lparr>fd_gross_nav := nav, fd_total_shares := tot\<rparr>), sk \<mapsto> LpShareA s')"
    by (rule fund_deposit_ok)
  then have "k \<noteq> sk" by auto
  with f assms(2) issue_fair [of "unat (fd_gross_nav f)" "unat (fd_total_shares f)" "unat amt"]
  show ?thesis by (auto simp: at_def issued_def unat_gt_0)
next
  case (sell fa qm vault ta sk lp n tk tk' ev)
  from sell obtain f s and q :: u64 and nav tot held where f: "L k = Some (FundA f)" "L sk = Some (LpShareA s)"
      "unat q = unat n * unat (fd_gross_nav f) div unat (fd_total_shares f)"
      "unat (fd_total_shares f) = unat tot + unat n" "unat (fd_gross_nav f) = unat nav + unat q"
      "L' = L(k \<mapsto> FundA (f\<lparr>fd_gross_nav := nav, fd_total_shares := tot\<rparr>),
         sk \<mapsto> LpShareA (s\<lparr>lp_shares := held\<rparr>))"
    by (rule fund_redeem_ok) blast
  then have "k \<noteq> sk" by auto
  have "unat nav = unat (fd_gross_nav f) - unat n * unat (fd_gross_nav f) div unat (fd_total_shares f)"
    "unat tot = unat (fd_total_shares f) - unat n" using f(3-5) by linarith+
  with f(1,2,4,6) \<open>k \<noteq> sk\<close>
    redeem_fair [of "unat n" "unat (fd_total_shares f)" "unat (fd_gross_nav f)"]
  show ?thesis by (simp add: at_def)
qed

interpretation fund_shares: share_pool "\<lambda>L. at nav_of L k" "\<lambda>L. at issued_by L k" "fund_trade P S k"
  for P S k
  by unfold_locales (rule fund_trade_fair)

section \<open>Properties\<close>

text \<open>Shares are neither created nor lost: in every state reached from the empty store, the
  shares issued by all funds add up to exactly the shares held in the LP accounts.
\<close>

theorem fund_shares_conserved:
  assumes "(fund_step P S)\<^sup>*\<^sup>* (Map.empty, tk) (L, tk')"
  shows "total issued_by L = total held_in L"
proof -
  have "fund_inv (Map.empty, tk)" by (simp add: fund_inv_def total_def)
  from fund_run.run_keeps [OF assms this] show ?thesis by (simp add: fund_inv_def)
qed

text \<open>
  C11. Nobody's holding is diluted by the trades of others: over any sequence of deposits and
  redemptions in a fund that keeps shares outstanding, what \<open>n\<close> shares redeem for never
  falls.
\<close>

theorem fund_holding_keeps_value:
  assumes "(\<lambda>L L'. fund_trade P S k L L' \<and> 0 < at issued_by L' k)\<^sup>*\<^sup>* L L'"
    and "0 < at issued_by L k"
  shows "n * at nav_of L k div at issued_by L k \<le> n * at nav_of L' k div at issued_by L' k"
  by (rule fund_shares.holding_keeps_value [OF assms])

text \<open>
  Depositing and redeeming at once never profits: when the shares bought by a deposit are
  redeemed against the resulting state, the vault is left with no less than before. The fund
  must not hold value without shares, the one state in which a first deposit is priced 1:1
  although it buys all the existing value.
\<close>

theorem fund_round_trip_no_profit:
  assumes "spl_law S" and "vault \<noteq> ta" and "vault \<noteq> ta'" and "L fk = Some (FundA f)"
    and "fd_total_shares f = 0 \<longrightarrow> fd_gross_nav f = 0"
    and dep: "fund_deposit P S fk fa qm vault ta sk lp amt L tk = Inr (L1, tk1, ev1)"
    and "unat n = issued f (unat amt)"
    and red: "fund_redeem P S fk fa' qm' vault ta' sk lp n L1 tk1 = Inr (L2, tk2, ev2)"
  shows "bal S tk vault \<le> bal S tk2 vault"
proof -
  from dep obtain g s nav tot s' d where g: "L fk = Some (FundA g)"
      "L sk = None \<and> lp_shares s = 0 \<or> L sk = Some (LpShareA s)"
      "transfer_checked S ta qm vault lp amt d tk = Some tk1"
      "unat nav = unat (fd_gross_nav g) + unat amt" "0 < issued g (unat amt)"
      "unat tot = unat (fd_total_shares g) + issued g (unat amt)"
      "L1 = L(fk \<mapsto> FundA (g\<lparr>fd_gross_nav := nav, fd_total_shares := tot\<rparr>), sk \<mapsto> LpShareA s')"
    by (rule fund_deposit_ok)
  then have [simp]: "g = f" and "fk \<noteq> sk" using assms(4) by auto
  with red g(7) obtain q d' where q: "unat q = unat n * unat nav div unat tot"
      "transfer_checked S vault qm' ta' fa' q d' tk1 = Some tk2"
    by (auto elim!: fund_redeem_ok)
  have "unat n * unat (fd_gross_nav f) \<le> unat amt * unat (fd_total_shares f)"
    using assms(5,7) by (auto simp: issued_def)
  then have "unat q \<le> unat amt"
    using issue_then_redeem [of "unat n" "unat (fd_gross_nav f)" "unat amt" "unat (fd_total_shares f)"]
      g(4-6) q(1) assms(7) by simp
  with transfer_bal(3) [OF assms(1) g(3)] transfer_bal(2) [OF assms(1) q(2)] assms(2,3)
  show ?thesis by simp
qed

text \<open>Marking to market: only the manager can, and the reported value is split exactly between
  the LPs and the carry. The carry grows by the agreed share of what exceeds the high-water
  mark, rounded down, the mark then moves to the LPs' value, and below the mark nothing is
  charged and the mark stays.
\<close>

theorem fund_update_nav_splits:
  assumes "fund_update_nav P fk mgr nn L = Inr (L', ev)" and "L fk = Some (FundA f)"
  shows "mgr = fd_manager f \<and> (\<exists>f'. L' = L(fk \<mapsto> FundA f') \<and>
    unat (fd_gross_nav f') + unat (fd_accrued_carry f') = unat nn \<and>
    (let lp_nav = unat nn - unat (fd_accrued_carry f); mark = unat (fd_high_water_mark f) in
     if mark < lp_nav
     then unat (fd_accrued_carry f') = unat (fd_accrued_carry f)
            + (lp_nav - mark) * unat (fd_carry_bps f) div 10000 \<and>
          fd_high_water_mark f' = fd_gross_nav f'
     else fd_accrued_carry f' = fd_accrued_carry f \<and>
          fd_high_water_mark f' = fd_high_water_mark f))"
  using assms(1)
proof (rule fund_update_nav_ok)
  fix g f'
  assume "L fk = Some (FundA g)" "mgr = fd_manager g" "L' = L(fk \<mapsto> FundA f')"
    "unat (fd_accrued_carry f') = unat (fd_accrued_carry g)
       + carry_due g (unat nn - unat (fd_accrued_carry g))"
    "unat (fd_gross_nav f') + unat (fd_accrued_carry f') = unat nn"
    "fd_high_water_mark f' = (if unat (fd_high_water_mark g) < unat nn - unat (fd_accrued_carry g)
       then fd_gross_nav f' else fd_high_water_mark g)"
  with assms(2) show ?thesis
    by (intro conjI exI [of _ f']) (auto simp: Let_def carry_due_def word_unat_eq_iff)
qed

section \<open>Concrete inputs\<close>

definition demo_fund_key :: "seed list \<Rightarrow> pubkey" where
  "demo_fund_key s = demo_addr s AEQI_FUND_ID"

definition demo_fk :: pubkey where
  "demo_fk = demo_fund_key [Lit ''fund'', B32 demo_trust, B32 3]"

definition demo_fa :: pubkey where
  "demo_fa = demo_fund_key [Lit ''fund_authority'', B32 demo_trust, B32 3]"

definition demo_sk :: pubkey where
  "demo_sk = demo_fund_key [Lit ''lp_share'', B32 demo_trust, B32 3, B32 9]"

definition demo_fund_ledger :: ledger where
  "demo_fund_ledger = \<lparr>mints = [30 \<mapsto> \<lparr>mi_supply = 5000, mi_decimals = 6\<rparr>],
     wallets = [31 \<mapsto> \<lparr>ta_mint = 30, ta_owner = demo_fa, ta_amount = 0\<rparr>,
       32 \<mapsto> \<lparr>ta_mint = 30, ta_owner = 9, ta_amount = 5000\<rparr>]\<rparr>"

text \<open>A fund of manager 7 with 20% carry; LP 9 deposits 1000.\<close>

definition demo_fund_opened :: "FundError err + fund_store \<times> fund_event list" where
  "demo_fund_opened =
     (let ms = demo_fund_key [Lit ''fund_module'', B32 demo_trust] in
      rbind (fund_init demo_sdk demo_open demo_trust ms 7 Map.empty) (\<lambda>(L1, _).
      fund_create_fund demo_sdk demo_spl demo_trust ms demo_fk 30 7 3 2000 L1 demo_fund_ledger))"

definition demo_deposit :: "fund_store \<Rightarrow> ledger \<Rightarrow>
  FundError err + fund_store \<times> ledger \<times> fund_event list" where
  "demo_deposit = fund_deposit demo_sdk demo_spl demo_fk demo_fa 30 31 32 demo_sk 9 1000"

definition demo_redeem :: "u64 \<Rightarrow> fund_store \<Rightarrow> ledger \<Rightarrow>
  FundError err + fund_store \<times> ledger \<times> fund_event list" where
  "demo_redeem n = fund_redeem demo_sdk demo_spl demo_fk demo_fa 30 31 32 demo_sk 9 n"

lemmas demo_fund_defs = demo_fund_opened_def demo_deposit_def demo_redeem_def fund_init_def
  fund_create_fund_def fund_deposit_def fund_redeem_def fund_update_nav_def fund_accounts_defs
  trust_account_def fund_account_def load_def require_def seeds_ok_def canonical_def
  init_account_def init_if_needed_def mint_account_def token_account_def spl_call_def
  fund_authority_seeds_def lp_share_seeds_def demo_fund_key_def demo_fk_def demo_fa_def demo_sk_def
  demo_fund_ledger_def demo_spl_def debit_def credit_def checked_add_def checked_sub_def
  checked_mul_def checked_div_def try_into_def mul_div_def zero_lp_share_def demo_trust_defs
  AEQI_FUND_ID_def Let_def

lemma demo_fund_run:
  obtains L1 ev1 L2 tk2 ev2 f where "demo_fund_opened = Inr (L1, ev1)"
    "demo_deposit L1 demo_fund_ledger = Inr (L2, tk2, ev2)" "L1 demo_fk = Some (FundA f)"
    "fd_gross_nav f = 0" "at nav_of L2 demo_fk = 1000" "at issued_by L2 demo_fk = 1000"
    "\<exists>L3 tk3 ev3. demo_redeem 400 L2 tk2 = Inr (L3, tk3, ev3) \<and> at issued_by L3 demo_fk = 600 \<and>
       at nav_of L3 demo_fk = 600"
    "\<exists>L3 tk3 ev3. demo_redeem 1000 L2 tk2 = Inr (L3, tk3, ev3)"
proof -
  have "\<exists>L1 ev1 L2 tk2 ev2 f. demo_fund_opened = Inr (L1, ev1) \<and>
    demo_deposit L1 demo_fund_ledger = Inr (L2, tk2, ev2) \<and> L1 demo_fk = Some (FundA f) \<and>
    fd_gross_nav f = 0 \<and> at nav_of L2 demo_fk = 1000 \<and> at issued_by L2 demo_fk = 1000 \<and>
    (\<exists>L3 tk3 ev3. demo_redeem 400 L2 tk2 = Inr (L3, tk3, ev3) \<and> at issued_by L3 demo_fk = 600 \<and>
       at nav_of L3 demo_fk = 600) \<and>
    (\<exists>L3 tk3 ev3. demo_redeem 1000 L2 tk2 = Inr (L3, tk3, ev3))"
    by (simp add: demo_fund_defs at_def)
  then show thesis using that by blast
qed

theorem fund_shares_conserved_witness:
  "\<exists>L tk. (fund_step demo_sdk demo_spl)\<^sup>*\<^sup>* (Map.empty, demo_fund_ledger) (L, tk) \<and>
     at issued_by L demo_fk = 1000 \<and> total issued_by L = total held_in L"
proof -
  obtain L1 ev1 L2 tk2 ev2 where o: "demo_fund_opened = Inr (L1, ev1)"
    and d: "demo_deposit L1 demo_fund_ledger = Inr (L2, tk2, ev2)"
    and n: "at issued_by L2 demo_fk = 1000"
    by (rule demo_fund_run)
  from o have "(fund_step demo_sdk demo_spl)\<^sup>*\<^sup>* (Map.empty, demo_fund_ledger) (L1, demo_fund_ledger)"
    unfolding demo_fund_opened_def Let_def
    by (auto simp: rbind_Inr dest!: fund_step.init [where S = demo_spl and tk = demo_fund_ledger]
        fund_step.create intro: rtranclp.rtrancl_into_rtrancl)
  also have "fund_step demo_sdk demo_spl (L1, demo_fund_ledger) (L2, tk2)"
    using d unfolding demo_deposit_def by (rule fund_step.deposit)
  finally have r: "(fund_step demo_sdk demo_spl)\<^sup>*\<^sup>* (Map.empty, demo_fund_ledger) (L2, tk2)" .
  from fund_shares_conserved [OF r] r n show ?thesis by blast
qed

theorem fund_holding_keeps_value_witness:
  "\<exists>L L'. fund_trade demo_sdk demo_spl demo_fk L L' \<and> 0 < at issued_by L' demo_fk \<and>
     0 < at issued_by L demo_fk \<and>
     10 * at nav_of L demo_fk div at issued_by L demo_fk
       \<le> 10 * at nav_of L' demo_fk div at issued_by L' demo_fk"
proof -
  obtain L2 tk2 L3 tk3 ev3 where n: "at issued_by L2 demo_fk = 1000"
    and red: "demo_redeem 400 L2 tk2 = Inr (L3, tk3, ev3)" and m: "at issued_by L3 demo_fk = 600"
    by (rule demo_fund_run) blast
  from red have t: "fund_trade demo_sdk demo_spl demo_fk L2 L3"
    unfolding demo_redeem_def by (rule fund_trade.sell)
  with m have "(\<lambda>L L'. fund_trade demo_sdk demo_spl demo_fk L L' \<and> 0 < at issued_by L' demo_fk)\<^sup>*\<^sup>* L2 L3"
    by (intro r_into_rtranclp) simp
  then have "10 * at nav_of L2 demo_fk div at issued_by L2 demo_fk
      \<le> 10 * at nav_of L3 demo_fk div at issued_by L3 demo_fk"
    using n by (intro fund_holding_keeps_value) simp_all
  with t n m show ?thesis by (intro exI [of _ L2] exI [of _ L3]) simp
qed

theorem fund_round_trip_no_profit_witness:
  "\<exists>L1 L2 tk2 ev2 L3 tk3 ev3. demo_deposit L1 demo_fund_ledger = Inr (L2, tk2, ev2) \<and>
     demo_redeem 1000 L2 tk2 = Inr (L3, tk3, ev3) \<and>
     bal demo_spl demo_fund_ledger 31 \<le> bal demo_spl tk3 31"
proof -
  obtain L1 L2 tk2 ev2 f L3 tk3 ev3 where
    d: "demo_deposit L1 demo_fund_ledger = Inr (L2, tk2, ev2)" and f: "L1 demo_fk = Some (FundA f)"
    and nav: "fd_gross_nav f = 0" and red: "demo_redeem 1000 L2 tk2 = Inr (L3, tk3, ev3)"
    by (rule demo_fund_run) blast
  from nav have "unat (1000 :: u64) = issued f (unat (1000 :: u64))" by (simp add: issued_def)
  from fund_round_trip_no_profit [OF demo_spl_law _ _ f _ d [unfolded demo_deposit_def] this
      red [unfolded demo_redeem_def]] nav
  have "bal demo_spl demo_fund_ledger 31 \<le> bal demo_spl tk3 31" by simp
  with d red show ?thesis by blast
qed

text \<open>
  The high-water mark starts at zero and deposits do not raise it, so the first valuation
  charges the carry on the LPs' principal: a deposit of 1000, marked at the 1000 that lie in
  the vault, leaves 800 to the LP and 200 to the manager.
\<close>

lemma demo_carry_on_principal:
  "\<exists>L1 ev1 L2 tk2 ev2 L3 ev3 f. demo_fund_opened = Inr (L1, ev1) \<and>
     demo_deposit L1 demo_fund_ledger = Inr (L2, tk2, ev2) \<and>
     fund_update_nav demo_sdk demo_fk 7 1000 L2 = Inr (L3, ev3) \<and> L3 demo_fk = Some (FundA f) \<and>
     bal demo_spl tk2 31 = 1000 \<and> fd_gross_nav f = 800 \<and> fd_accrued_carry f = 200"
  by (simp add: demo_fund_defs bal_def)

theorem fund_update_nav_splits_witness:
  "\<exists>L L' ev f f'. fund_update_nav demo_sdk demo_fk 7 1000 L = Inr (L', ev) \<and>
     L demo_fk = Some (FundA f) \<and> fd_gross_nav f = 1000 \<and> L' demo_fk = Some (FundA f') \<and>
     unat (fd_gross_nav f') + unat (fd_accrued_carry f') = 1000"
proof -
  obtain L2 L3 ev3 where u: "fund_update_nav demo_sdk demo_fk 7 1000 L2 = Inr (L3, ev3)"
    and n: "at nav_of L2 demo_fk = 1000"
    using demo_carry_on_principal demo_fund_run by (metis old.sum.inject(2) prod.inject)
  from u obtain f where f: "L2 demo_fk = Some (FundA f)" by (rule fund_update_nav_ok)
  from n f have "fd_gross_nav f = 1000" by (simp add: at_def word_unat_eq_iff)
  moreover from fund_update_nav_splits [OF u f] obtain f' where "L3 demo_fk = Some (FundA f')"
    "unat (fd_gross_nav f') + unat (fd_accrued_carry f') = 1000" by auto
  ultimately show ?thesis using u f by blast
qed

end
