(* ===== verification/Aeqi_Budget.thy ===== *)
theory Aeqi_Budget
  imports Aeqi_Role
begin

text \<open>
  The program \<open>aeqi_budget\<close>: allocations to a role, spends recorded against the cap by the
  occupant of that role, freezing by the grantor, expiry. The role of the spender is read from
  the store of \<open>aeqi_role\<close>.
\<close>

section \<open>Errors, state and events\<close>

datatype BudgetError =
    ZeroAmount | InvalidExpiry | BudgetFrozen | BudgetExpired | ExceedsAllocation | MathOverflow
  | Unauthorized | TrustNotInCreationMode

record BudgetModuleState =
  bm_trust :: pubkey
  bm_budget_count :: u64
  bm_bump :: u8

record Budget =
  b_trust :: pubkey
  b_budget_id :: bytes32
  b_grantor :: pubkey
  b_target_role_id :: bytes32
  b_parent_budget_id :: bytes32
  b_amount :: u64
  b_spent :: u64
  b_expiry :: i64
  b_frozen :: bool
  b_bump :: u8

datatype budget_acct = BudgetModuleA BudgetModuleState | BudgetA Budget

type_synonym budget_store = "budget_acct accts"

fun as_budget_module :: "budget_acct \<Rightarrow> BudgetModuleState option" where
  "as_budget_module (BudgetModuleA m) = Some m" | "as_budget_module _ = None"

fun as_budget :: "budget_acct \<Rightarrow> Budget option" where
  "as_budget (BudgetA b) = Some b" | "as_budget _ = None"

datatype budget_event =
    BudgetCreated pubkey bytes32 pubkey bytes32 u64 i64
  | BudgetSpent pubkey bytes32 u64 u64
  | BudgetFrozenEvent pubkey bytes32
  | BudgetUnfrozen pubkey bytes32

type_synonym budget_result = "BudgetError err + budget_store \<times> budget_event list"

definition AEQI_BUDGET_ID :: pubkey where
  "AEQI_BUDGET_ID = 0x413838dfb21b0e555df50224fda1ae5968d59b251a049d30e6425736cb3e95ab"

section \<open>Instructions\<close>

definition InitBudget_accounts :: "pda_sdk \<Rightarrow> trust_store \<Rightarrow> budget_store \<Rightarrow> pubkey \<Rightarrow> pubkey \<Rightarrow>
  BudgetError err + Trust \<times> u8" where
  "InitBudget_accounts P TL L trust module_state =
     rbind (trust_account P TL trust) (\<lambda>t.
     rbind (init_account P [Lit ''budget_module'', B32 trust] AEQI_BUDGET_ID L module_state) (\<lambda>bump.
       Inr (t, bump)))"

definition budget_init :: "pda_sdk \<Rightarrow> trust_store \<Rightarrow> pubkey \<Rightarrow> pubkey \<Rightarrow> pubkey \<Rightarrow> budget_store \<Rightarrow>
  budget_result" where
  "budget_init P TL trust module_state payer L =
     rbind (InitBudget_accounts P TL L trust module_state) (\<lambda>(t, bump).
     require (t_creation_mode t) (Prog TrustNotInCreationMode)
     (require (payer = t_authority t) (Prog Unauthorized)
     (Inr (L(module_state \<mapsto> BudgetModuleA
             \<lparr>bm_trust = trust, bm_budget_count = 0, bm_bump = bump\<rparr>), []))))"

definition CreateBudget_accounts :: "pda_sdk \<Rightarrow> bytes32 \<Rightarrow> trust_store \<Rightarrow> budget_store \<Rightarrow> pubkey \<Rightarrow>
  pubkey \<Rightarrow> pubkey \<Rightarrow> BudgetError err + Trust \<times> BudgetModuleState \<times> u8" where
  "CreateBudget_accounts P budget_id TL L trust module_state budget =
     rbind (trust_account P TL trust) (\<lambda>t.
     rbind (load as_budget_module L module_state) (\<lambda>m.
     require (seeds_ok P [Lit ''budget_module'', B32 trust] (bm_bump m) AEQI_BUDGET_ID module_state)
       (Anchor ConstraintSeeds)
     (rbind (init_account P [Lit ''budget'', B32 trust, B32 budget_id] AEQI_BUDGET_ID L budget) (\<lambda>bump.
       Inr (t, m, bump)))))"

definition budget_create_budget :: "pda_sdk \<Rightarrow> clock \<Rightarrow> trust_store \<Rightarrow> pubkey \<Rightarrow> pubkey \<Rightarrow> pubkey \<Rightarrow>
  pubkey \<Rightarrow> bytes32 \<Rightarrow> bytes32 \<Rightarrow> u64 \<Rightarrow> i64 \<Rightarrow> bytes32 option \<Rightarrow> budget_store \<Rightarrow> budget_result" where
  "budget_create_budget P clk TL trust module_state budget grantor budget_id target_role_id amount
     expiry parent_budget_id L =
     rbind (CreateBudget_accounts P budget_id TL L trust module_state budget) (\<lambda>(t, m, bump).
     require (amount > 0) (Prog ZeroAmount)
     (require (expiry = 0 \<or> unix_timestamp clk <s expiry) (Prog InvalidExpiry)
     (require (grantor = t_authority t) (Prog Unauthorized)
     (rbind (ok_or (checked_add (bm_budget_count m) 1) (Prog MathOverflow)) (\<lambda>n.
       Inr (L(module_state \<mapsto> BudgetModuleA (m\<lparr>bm_budget_count := n\<rparr>),
              budget \<mapsto> BudgetA
                \<lparr>b_trust = trust, b_budget_id = budget_id, b_grantor = grantor,
                 b_target_role_id = target_role_id,
                 b_parent_budget_id = (case parent_budget_id of None \<Rightarrow> 0 | Some x \<Rightarrow> x),
                 b_amount = amount, b_spent = 0, b_expiry = expiry, b_frozen = False,
                 b_bump = bump\<rparr>),
            [BudgetCreated trust budget_id grantor target_role_id amount expiry]))))))"

text \<open>\<open>budget\<close> with its seeds re-derived from its own fields.\<close>

definition budget_account :: "pda_sdk \<Rightarrow> budget_store \<Rightarrow> pubkey \<Rightarrow> BudgetError err + Budget" where
  "budget_account P L key =
     rbind (load as_budget L key) (\<lambda>b.
     require (seeds_ok P [Lit ''budget'', B32 (b_trust b), B32 (b_budget_id b)] (b_bump b)
         AEQI_BUDGET_ID key) (Anchor ConstraintSeeds) (Inr b))"

definition RecordSpend_accounts :: "pda_sdk \<Rightarrow> role_store \<Rightarrow> budget_store \<Rightarrow> pubkey \<Rightarrow> pubkey \<Rightarrow>
  BudgetError err + Budget \<times> Role" where
  "RecordSpend_accounts P RL L budget spender_role =
     rbind (budget_account P L budget) (\<lambda>b.
     rbind (load as_role RL spender_role) (\<lambda>r.
       Inr (b, r)))"

definition budget_record_spend :: "pda_sdk \<Rightarrow> clock \<Rightarrow> role_store \<Rightarrow> pubkey \<Rightarrow> pubkey \<Rightarrow> pubkey \<Rightarrow>
  u64 \<Rightarrow> budget_store \<Rightarrow> budget_result" where
  "budget_record_spend P clk RL budget spender_role spender amount L =
     rbind (RecordSpend_accounts P RL L budget spender_role) (\<lambda>(b, r).
     require (amount > 0) (Prog ZeroAmount)
     (require (r_trust r = b_trust b) (Prog Unauthorized)
     (require (r_role_id r = b_target_role_id b) (Prog Unauthorized)
     (require (r_status r = role_status_u8 Occupied) (Prog Unauthorized)
     (require (r_account r = spender) (Prog Unauthorized)
     (require (\<not> b_frozen b) (Prog BudgetFrozen)
     (require (b_expiry b = 0 \<or> unix_timestamp clk <s b_expiry b) (Prog BudgetExpired)
     (rbind (ok_or (checked_add (b_spent b) amount) (Prog MathOverflow)) (\<lambda>new_spent.
     require (new_spent \<le> b_amount b) (Prog ExceedsAllocation)
     (Inr (L(budget \<mapsto> BudgetA (b\<lparr>b_spent := new_spent\<rparr>)),
           [BudgetSpent (b_trust b) (b_budget_id b) amount new_spent])))))))))))"

definition Freeze_accounts :: "pda_sdk \<Rightarrow> budget_store \<Rightarrow> pubkey \<Rightarrow> BudgetError err + Budget" where
  "Freeze_accounts P L budget = budget_account P L budget"

definition budget_freeze :: "pda_sdk \<Rightarrow> pubkey \<Rightarrow> pubkey \<Rightarrow> budget_store \<Rightarrow> budget_result" where
  "budget_freeze P budget grantor L =
     rbind (Freeze_accounts P L budget) (\<lambda>b.
     require (grantor = b_grantor b) (Prog Unauthorized)
     (Inr (L(budget \<mapsto> BudgetA (b\<lparr>b_frozen := True\<rparr>)),
           [BudgetFrozenEvent (b_trust b) (b_budget_id b)])))"

definition budget_unfreeze :: "pda_sdk \<Rightarrow> pubkey \<Rightarrow> pubkey \<Rightarrow> budget_store \<Rightarrow> budget_result" where
  "budget_unfreeze P budget grantor L =
     rbind (Freeze_accounts P L budget) (\<lambda>b.
     require (grantor = b_grantor b) (Prog Unauthorized)
     (Inr (L(budget \<mapsto> BudgetA (b\<lparr>b_frozen := False\<rparr>)),
           [BudgetUnfrozen (b_trust b) (b_budget_id b)])))"

section \<open>What a successful instruction did\<close>

lemma as_budget_acct [res]:
  "as_budget_module a = Some m \<longleftrightarrow> a = BudgetModuleA m"
  "as_budget a = Some b \<longleftrightarrow> a = BudgetA b"
  by (cases a; simp)+

lemmas budget_accounts_defs = InitBudget_accounts_def CreateBudget_accounts_def
  RecordSpend_accounts_def Freeze_accounts_def budget_account_def

lemma budget_init_ok:
  "budget_init P TL trust ms payer L = Inr (L', ev) \<Longrightarrow>
   \<exists>t m. TL trust = Some (TrustA t) \<and> t_creation_mode t \<and> payer = t_authority t \<and>
     L ms = None \<and> L' = L(ms \<mapsto> BudgetModuleA m)"
  by (auto simp: budget_init_def budget_accounts_defs res)

lemma budget_create_ok:
  assumes "budget_create_budget P clk TL trust ms bk grantor bid rid amount expiry par L = Inr (L', ev)"
  obtains m n b t where "L ms = Some (BudgetModuleA m)" "L bk = None" "b_spent b = 0"
    "b_amount b = amount" "0 < amount" "TL trust = Some (TrustA t)" "grantor = t_authority t"
    "b_grantor b = grantor" "L' = L(ms \<mapsto> BudgetModuleA (m\<lparr>bm_budget_count := n\<rparr>), bk \<mapsto> BudgetA b)"
proof -
  from assms show thesis
    by (simp add: budget_create_budget_def budget_accounts_defs res num)
      (elim exE conjE, rule that [rotated -1], erule sym, simp_all add: num)
qed

lemma budget_spend_ok:
  "budget_record_spend P clk RL bk rk spender amount L = Inr (L', ev) \<Longrightarrow>
   \<exists>b r n. L bk = Some (BudgetA b) \<and> RL rk = Some (RoleA r) \<and> 0 < amount \<and> r_trust r = b_trust b \<and>
     r_role_id r = b_target_role_id b \<and> r_status r = 1 \<and> r_account r = spender \<and> \<not> b_frozen b \<and>
     (b_expiry b = 0 \<or> sint (unix_timestamp clk) < sint (b_expiry b)) \<and>
     unat n = unat (b_spent b) + unat amount \<and> unat n \<le> unat (b_amount b) \<and>
     L' = L(bk \<mapsto> BudgetA (b\<lparr>b_spent := n\<rparr>))"
  by (auto simp: budget_record_spend_def budget_accounts_defs res checked_add_Some word_le_nat_alt
      word_sless_alt)

lemma budget_freeze_ok:
  "budget_freeze P bk g L = Inr (L', ev) \<Longrightarrow>
   \<exists>b. L bk = Some (BudgetA b) \<and> g = b_grantor b \<and> L' = L(bk \<mapsto> BudgetA (b\<lparr>b_frozen := True\<rparr>))"
  "budget_unfreeze P bk g L = Inr (L', ev) \<Longrightarrow>
   \<exists>b. L bk = Some (BudgetA b) \<and> g = b_grantor b \<and> L' = L(bk \<mapsto> BudgetA (b\<lparr>b_frozen := False\<rparr>))"
  by (auto simp: budget_freeze_def budget_unfreeze_def budget_accounts_defs res)

section \<open>Runs of the program\<close>

text \<open>A step is labelled with its signer; the role store is the one the spend read.\<close>

inductive budget_step :: "pda_sdk \<Rightarrow> pubkey \<Rightarrow> role_store \<Rightarrow> budget_store \<Rightarrow> budget_store \<Rightarrow> bool"
  for P where
  init: "budget_init P TL trust ms a L = Inr (L', ev) \<Longrightarrow> budget_step P a RL L L'"
| create: "budget_create_budget P clk TL trust ms bk a bid rid amount expiry par L = Inr (L', ev) \<Longrightarrow>
    budget_step P a RL L L'"
| spend: "budget_record_spend P clk RL bk rk a amount L = Inr (L', ev) \<Longrightarrow> budget_step P a RL L L'"
| freeze: "budget_freeze P bk a L = Inr (L', ev) \<Longrightarrow> budget_step P a RL L L'"
| unfreeze: "budget_unfreeze P bk a L = Inr (L', ev) \<Longrightarrow> budget_step P a RL L L'"

definition budget_next :: "pda_sdk \<Rightarrow> budget_store \<Rightarrow> budget_store \<Rightarrow> bool" where
  "budget_next P L L' \<longleftrightarrow> (\<exists>a RL. budget_step P a RL L L')"

lemma budget_nextI: "budget_step P a RL L L' \<Longrightarrow> budget_next P L L'"
  by (auto simp: budget_next_def)

definition budget_inv :: "budget_store \<Rightarrow> bool" where
  "budget_inv L \<longleftrightarrow> (\<forall>k b. L k = Some (BudgetA b) \<longrightarrow> b_spent b \<le> b_amount b)"

text \<open>How one budget changes in a step signed by \<open>a\<close>: spending needs the occupied target role,
  freezing the grantor, and everything else is fixed.\<close>

definition same_budget :: "Budget \<Rightarrow> Budget \<Rightarrow> bool" where
  "same_budget b b' \<longleftrightarrow> b_trust b' = b_trust b \<and> b_budget_id b' = b_budget_id b \<and>
     b_grantor b' = b_grantor b \<and> b_target_role_id b' = b_target_role_id b \<and>
     b_amount b' = b_amount b \<and> b_expiry b' = b_expiry b"

definition holds_role :: "role_store \<Rightarrow> pubkey \<Rightarrow> pubkey \<Rightarrow> bytes32 \<Rightarrow> bool" where
  "holds_role RL a trust role_id \<longleftrightarrow> (\<exists>k r. RL k = Some (RoleA r) \<and> r_trust r = trust \<and>
     r_role_id r = role_id \<and> r_status r = role_status_u8 Occupied \<and> r_account r = a)"

definition budget_change :: "pubkey \<Rightarrow> role_store \<Rightarrow> Budget \<Rightarrow> Budget \<Rightarrow> bool" where
  "budget_change a RL b b' \<longleftrightarrow> same_budget b b' \<and> b_spent b \<le> b_spent b' \<and>
     (b_spent b' \<noteq> b_spent b \<longrightarrow> \<not> b_frozen b \<and> b_spent b' \<le> b_amount b \<and>
        holds_role RL a (b_trust b) (b_target_role_id b)) \<and>
     (b_frozen b' \<noteq> b_frozen b \<longrightarrow> a = b_grantor b)"

lemma budget_step_budget:
  assumes "budget_step P a RL L L'" and k: "L k = Some (BudgetA b)"
  shows "\<exists>b'. L' k = Some (BudgetA b') \<and> budget_change a RL b b'"
  using assms(1)
proof cases
  case init
  then show ?thesis using k by (auto dest!: budget_init_ok simp: budget_change_def same_budget_def)
next
  case create
  then show ?thesis using k
    by (elim budget_create_ok) (auto simp: budget_change_def same_budget_def)
next
  case (spend clk bk rk amount ev)
  from budget_spend_ok [OF this] obtain c r n where
    c: "L bk = Some (BudgetA c)" "RL rk = Some (RoleA r)" "r_trust r = b_trust c"
      "r_role_id r = b_target_role_id c" "r_status r = 1" "r_account r = a" "\<not> b_frozen c"
      "unat n = unat (b_spent c) + unat amount" "unat n \<le> unat (b_amount c)"
      "L' = L(bk \<mapsto> BudgetA (c\<lparr>b_spent := n\<rparr>))" by blast
  then have "holds_role RL a (b_trust c) (b_target_role_id c)" by (auto simp: holds_role_def)
  with c k show ?thesis
    by (cases "k = bk") (auto simp: budget_change_def same_budget_def word_le_nat_alt)
next
  case freeze
  then show ?thesis using k by (auto dest!: budget_freeze_ok simp: budget_change_def same_budget_def)
next
  case unfreeze
  then show ?thesis using k by (auto dest!: budget_freeze_ok simp: budget_change_def same_budget_def)
qed

lemma budget_step_new:
  assumes "budget_step P a RL L L'" and "L' k = Some (BudgetA b')"
  shows "(\<exists>b. L k = Some (BudgetA b)) \<or> b_spent b' = 0"
  using assms(1)
proof cases
  case init
  with assms(2) show ?thesis by (auto dest!: budget_init_ok split: if_splits)
next
  case create
  with assms(2) show ?thesis by (elim budget_create_ok) (auto split: if_splits)
next
  case spend
  with assms(2) show ?thesis by (auto dest!: budget_spend_ok split: if_splits)
next
  case freeze
  with assms(2) show ?thesis by (auto dest!: budget_freeze_ok split: if_splits)
next
  case unfreeze
  with assms(2) show ?thesis by (auto dest!: budget_freeze_ok split: if_splits)
qed

lemma budget_step_inv:
  assumes "budget_step P a RL L L'" and "budget_inv L"
  shows "budget_inv L'"
  unfolding budget_inv_def
proof (intro allI impI)
  fix k b'
  assume b': "L' k = Some (BudgetA b')"
  show "b_spent b' \<le> b_amount b'"
  proof (cases "\<exists>b. L k = Some (BudgetA b)")
    case True
    then obtain b where b: "L k = Some (BudgetA b)" ..
    with budget_step_budget [OF assms(1) b] b' have "budget_change a RL b b'" by auto
    moreover have "b_spent b \<le> b_amount b" using assms(2) b by (simp add: budget_inv_def)
    ultimately show ?thesis
      by (cases "b_spent b' = b_spent b") (auto simp: budget_change_def same_budget_def)
  next
    case False
    with budget_step_new [OF assms(1) b'] show ?thesis by simp
  qed
qed

interpretation budget_run: kept_by_steps "budget_next P" budget_inv for P
  by unfold_locales (auto simp: budget_next_def intro: budget_step_inv)

interpretation budget_module: module_init budget_init
  by unfold_locales (auto dest!: budget_init_ok)

section \<open>Properties\<close>

text \<open>A budget is never overspent: in every store that successful instructions produce from
  the empty one, the recorded spends of each budget are at most its allocation.
\<close>

theorem budget_never_overspent:
  assumes "(budget_next P)\<^sup>*\<^sup>* Map.empty L" and "L k = Some (BudgetA b)"
  shows "unat (b_spent b) \<le> unat (b_amount b)"
proof -
  have "budget_inv Map.empty" by (simp add: budget_inv_def)
  from budget_run.run_keeps [OF assms(1) this] assms(2) show ?thesis
    by (auto simp: budget_inv_def word_le_nat_alt)
qed

text \<open>Who can change a budget: in one instruction, a budget's terms never change and its spent
  counter never falls; the counter grows only when the budget is not frozen and the signer
  occupies the budget's target role in its TRUST; the frozen flag changes only under the
  grantor's signature.
\<close>

theorem budget_change_authorized:
  assumes "budget_step P a RL L L'" and "L k = Some (BudgetA b)"
  shows "\<exists>b'. L' k = Some (BudgetA b') \<and> same_budget b b' \<and> b_spent b \<le> b_spent b' \<and>
    (b_spent b' \<noteq> b_spent b \<longrightarrow> \<not> b_frozen b \<and> holds_role RL a (b_trust b) (b_target_role_id b)) \<and>
    (b_frozen b' \<noteq> b_frozen b \<longrightarrow> a = b_grantor b)"
  using budget_step_budget [OF assms] unfolding budget_change_def by blast

section \<open>Concrete inputs\<close>

definition demo_bkey :: "string \<Rightarrow> bytes32 list \<Rightarrow> pubkey" where
  "demo_bkey tag xs = demo_addr (Lit tag # map B32 (demo_trust # xs)) AEQI_BUDGET_ID"

definition demo_budget_role :: Role where
  "demo_budget_role = (demo_role 1 0 7 1)\<lparr>r_trust := demo_trust\<rparr>"

definition demo_budget_run :: budget_result where
  "demo_budget_run =
     (let ms = demo_bkey ''budget_module'' []; bk = demo_bkey ''budget'' [4] in
      rbind (budget_init demo_sdk demo_open demo_trust ms 7 Map.empty) (\<lambda>(L1, _).
      rbind (budget_create_budget demo_sdk demo_clock demo_open demo_trust ms bk 7 4 1 100 0 None L1)
        (\<lambda>(L2, _).
      budget_record_spend demo_sdk demo_clock [100 \<mapsto> RoleA demo_budget_role] bk 100 7 60 L2)))"

lemma demo_budget_run_ok:
  "\<exists>L ev b. demo_budget_run = Inr (L, ev) \<and> L (demo_bkey ''budget'' [4]) = Some (BudgetA b) \<and>
     b_spent b = 60 \<and> b_amount b = 100"
  by (simp add: demo_budget_run_def budget_init_def budget_create_budget_def budget_record_spend_def
      budget_accounts_defs demo_bkey_def demo_trust_defs demo_budget_role_def demo_role_def
      demo_clock_def trust_account_def load_def require_def seeds_ok_def init_account_def
      canonical_def checked_add_def AEQI_BUDGET_ID_def Let_def)

lemma demo_budget_run_steps:
  "demo_budget_run = Inr (L, ev) \<Longrightarrow> (budget_next demo_sdk)\<^sup>*\<^sup>* Map.empty L"
  unfolding demo_budget_run_def Let_def
  by (auto simp: rbind_Inr dest!: budget_step.init [THEN budget_nextI]
      budget_step.create [THEN budget_nextI] budget_step.spend [THEN budget_nextI]
      intro: rtranclp.rtrancl_into_rtrancl)

theorem budget_never_overspent_witness:
  "\<exists>L b. (budget_next demo_sdk)\<^sup>*\<^sup>* Map.empty L \<and> L (demo_bkey ''budget'' [4]) = Some (BudgetA b) \<and>
     b_spent b = 60 \<and> unat (b_spent b) \<le> unat (b_amount b)"
  using demo_budget_run_ok demo_budget_run_steps budget_never_overspent by blast

theorem budget_change_authorized_witness:
  "\<exists>L L' b b'. budget_step demo_sdk 7 [100 \<mapsto> RoleA demo_budget_role] L L' \<and>
     L (demo_bkey ''budget'' [4]) = Some (BudgetA b) \<and>
     L' (demo_bkey ''budget'' [4]) = Some (BudgetA b') \<and> same_budget b b' \<and> b_spent b \<le> b_spent b'"
proof -
  obtain L ev where "demo_budget_run = Inr (L, ev)" using demo_budget_run_ok by blast
  then obtain L2 where s: "budget_record_spend demo_sdk demo_clock [100 \<mapsto> RoleA demo_budget_role]
      (demo_bkey ''budget'' [4]) 100 7 60 L2 = Inr (L, ev)"
    unfolding demo_budget_run_def Let_def by (auto simp: rbind_Inr)
  from budget_spend_ok [OF s] obtain b where "L2 (demo_bkey ''budget'' [4]) = Some (BudgetA b)" by blast
  with budget_change_authorized [OF budget_step.spend [OF s] this] budget_step.spend [OF s]
  show ?thesis by blast
qed

end
