(* ===== verification/Unifutures_Pool.thy ===== *)
theory Unifutures_Pool
  imports Prorata
begin

text \<open>
  \<open>aeqi-unifutures/src/pool.rs\<close>: the quotes of the constant-product pool. The release profile
  of the workspace turns overflow checks on, so an overflowing \<open>+\<close> or a division by zero
  aborts; where the source uses them the model has the value \<open>None\<close>, and that this value is
  never reached is part of what is proved.
\<close>

definition FEE_BPS_DENOMINATOR :: u128 where
  "FEE_BPS_DENOMINATOR = 10000"

record LiquidityQuote =
  lq_lp_out :: u64
  lq_base_used :: u64
  lq_quote_used :: u64

record SwapQuote =
  sq_amount_out :: u64
  sq_fee_amount :: u64

datatype SwapDirection = BaseToQuote | QuoteToBase

definition swap_direction_from_u8 :: "u8 \<Rightarrow> SwapDirection option" where
  "swap_direction_from_u8 v = (if v = 0 then Some BaseToQuote else if v = 1 then Some QuoteToBase else None)"

section \<open>The integer square root\<close>

text \<open>The \<open>while\<close> loop, from its test: \<open>x0\<close> falls in every round.\<close>

function sqrt_loop :: "u128 \<Rightarrow> u128 \<Rightarrow> u128 \<Rightarrow> u128 option" where
  "sqrt_loop value x0 x1 =
     (if x1 < x0 then
        Option.bind (checked_div value x1) (\<lambda>q.
        Option.bind (checked_add x1 q) (\<lambda>s. sqrt_loop value x1 (s div 2)))
      else Some x0)"
  by auto
termination
  by (relation "measure (\<lambda>(value, x0, x1). unat x0)") (auto simp: word_less_nat_alt)

declare sqrt_loop.simps [simp del]

definition integer_sqrt :: "u128 \<Rightarrow> u128 option" where
  "integer_sqrt value =
     (if value = 0 then Some 0
      else sqrt_loop value value (value div 2 + value mod 2))"

section \<open>Quotes\<close>

definition quote_initial_liquidity :: "u64 \<Rightarrow> u64 \<Rightarrow> LiquidityQuote option" where
  "quote_initial_liquidity base_amount quote_amount =
     (if base_amount = 0 \<or> quote_amount = 0 then None
      else Option.bind (checked_mul (ucast base_amount :: u128) (ucast quote_amount)) (\<lambda>prod.
           Option.bind (integer_sqrt prod) (\<lambda>r.
           Option.bind (try_into r) (\<lambda>lp_out.
             Some \<lparr>lq_lp_out = lp_out, lq_base_used = base_amount, lq_quote_used = quote_amount\<rparr>))))"

definition quote_add_liquidity :: "u64 \<Rightarrow> u64 \<Rightarrow> u64 \<Rightarrow> u64 \<Rightarrow> u64 \<Rightarrow> LiquidityQuote option" where
  "quote_add_liquidity base_amount quote_amount base_reserve quote_reserve lp_supply =
     (if base_amount = 0 \<or> quote_amount = 0 then None
      else if lp_supply = 0 \<or> base_reserve = 0 \<or> quote_reserve = 0
      then quote_initial_liquidity base_amount quote_amount
      else
        Option.bind (Option.bind (checked_mul (ucast base_amount :: u128) (ucast lp_supply))
          (\<lambda>m. checked_div m (ucast base_reserve))) (\<lambda>lp_from_base.
        Option.bind (Option.bind (checked_mul (ucast quote_amount :: u128) (ucast lp_supply))
          (\<lambda>m. checked_div m (ucast quote_reserve))) (\<lambda>lp_from_quote.
        let lp_out_u128 = min lp_from_base lp_from_quote in
        if lp_out_u128 = 0 then None
        else
          Option.bind (try_into lp_out_u128) (\<lambda>lp_out.
          Option.bind (Option.bind (checked_mul lp_out_u128 (ucast base_reserve))
            (\<lambda>m. checked_div m (ucast lp_supply))) (\<lambda>base_used_u128.
          Option.bind (Option.bind (checked_mul lp_out_u128 (ucast quote_reserve))
            (\<lambda>m. checked_div m (ucast lp_supply))) (\<lambda>quote_used_u128.
          Option.bind (try_into base_used_u128) (\<lambda>base_used.
          Option.bind (try_into quote_used_u128) (\<lambda>quote_used.
            if base_used = 0 \<or> quote_used = 0 then None
            else Some \<lparr>lq_lp_out = lp_out, lq_base_used = base_used, lq_quote_used = quote_used\<rparr>)))))))) "

definition quote_remove_liquidity :: "u64 \<Rightarrow> u64 \<Rightarrow> u64 \<Rightarrow> u64 \<Rightarrow> (u64 \<times> u64) option" where
  "quote_remove_liquidity lp_amount base_reserve quote_reserve lp_supply =
     (if lp_amount = 0 \<or> lp_supply = 0 \<or> lp_amount > lp_supply then None
      else Option.bind (mul_div lp_amount base_reserve lp_supply) (\<lambda>base_out.
           Option.bind (mul_div lp_amount quote_reserve lp_supply) (\<lambda>quote_out.
             Some (base_out, quote_out))))"

definition quote_swap_exact_in :: "u64 \<Rightarrow> u64 \<Rightarrow> u64 \<Rightarrow> u16 \<Rightarrow> SwapQuote option" where
  "quote_swap_exact_in reserve_in reserve_out amount_in fee_bps =
     (if reserve_in = 0 \<or> reserve_out = 0 \<or> amount_in = 0 then None
      else if (ucast fee_bps :: u128) \<ge> FEE_BPS_DENOMINATOR then None
      else
        Option.bind (Option.bind (checked_mul (ucast amount_in :: u128) (ucast fee_bps))
          (\<lambda>m. checked_div m FEE_BPS_DENOMINATOR)) (\<lambda>fee_amount_u128.
        Option.bind (checked_sub (ucast amount_in) fee_amount_u128) (\<lambda>effective_in.
        if effective_in = 0 then None
        else
          Option.bind (checked_mul (ucast reserve_out :: u128) effective_in) (\<lambda>m.
          Option.bind (checked_add (ucast reserve_in) effective_in) (\<lambda>d.
          Option.bind (checked_div m d) (\<lambda>amount_out_u128.
          Option.bind (try_into amount_out_u128) (\<lambda>amount_out.
          Option.bind (try_into fee_amount_u128) (\<lambda>fee_amount.
            if amount_out = 0 then None
            else Some \<lparr>sq_amount_out = amount_out, sq_fee_amount = fee_amount\<rparr>))))))))"

section \<open>The square root is exact\<close>

text \<open>One Newton step from any positive \<open>x\<close> stays at or above the root.\<close>

lemma newton_step:
  assumes "0 < (x :: nat)"
  shows "v < ((x + v div x) div 2 + 1)\<^sup>2"
proof -
  let ?q = "v div x" and ?m = "(x + v div x) div 2"
  have "v < x * (?q + 1)" using assms dividend_less_times_div [of x v] by (simp add: algebra_simps)
  moreover have "4 * (x * (?q + 1)) \<le> (x + ?q + 1)\<^sup>2"
  proof -
    have "0 \<le> (int x - int (?q + 1))\<^sup>2" by simp
    then have "4 * (int x * int (?q + 1)) \<le> (int x + int (?q + 1))\<^sup>2"
      by (simp add: power2_eq_square algebra_simps)
    then have "int (4 * (x * (?q + 1))) \<le> int ((x + ?q + 1)\<^sup>2)" by (simp add: algebra_simps)
    then show ?thesis by (simp only: of_nat_le_iff)
  qed
  moreover have "(x + ?q + 1)\<^sup>2 \<le> (2 * (?m + 1))\<^sup>2" by (intro power_mono) auto
  moreover have "(2 * (?m + 1))\<^sup>2 = 4 * (?m + 1)\<^sup>2" by (simp only: power_mult_distrib) simp
  ultimately show ?thesis by linarith
qed

lemma newton_fits:
  assumes "0 < (x :: nat)" "x \<le> 2 ^ 127" "v < (x + 1)\<^sup>2" "v < 2 ^ 128"
  shows "x + v div x < 2 ^ 128"
proof (cases "x = 1")
  case True
  with assms(3) have "v < 4" by (simp add: power2_eq_square)
  with True show ?thesis by simp
next
  case False
  with assms(1) have "v div x \<le> v div 2" by (intro div_le_mono2) auto
  moreover have "v div 2 < 2 ^ 127" using assms(4) by simp
  ultimately show ?thesis using assms(2) by simp
qed

lemma sqrt_loop_correct:
  assumes "0 < unat v" "0 < unat x0" "unat v < (unat x0 + 1)\<^sup>2" "0 < unat x1"
    "unat x1 \<le> 2 ^ 127" "unat v < (unat x1 + 1)\<^sup>2" "x0 \<le> x1 \<Longrightarrow> (unat x0)\<^sup>2 \<le> unat v"
  shows "\<exists>r. sqrt_loop v x0 x1 = Some r \<and> (unat r)\<^sup>2 \<le> unat v \<and> unat v < (unat r + 1)\<^sup>2"
  using assms
proof (induction v x0 x1 rule: sqrt_loop.induct)
  case (1 v x0 x1)
  show ?case
  proof (cases "x1 < x0")
    case True
    obtain q where q: "checked_div v x1 = Some q" "unat q = unat v div unat x1"
      using checked_div_fits [of x1 v] 1(5) by auto
    have "unat v < 2 ^ 128" using unat_bound [of v] by simp
    with newton_fits [OF 1(5,6,7)] obtain s where
      s: "checked_add x1 q = Some s" "unat s = unat x1 + unat v div unat x1"
      using checked_add_fits [of x1 q] q by auto
    have h: "unat (s div 2) = (unat x1 + unat v div unat x1) div 2"
      using s by (simp add: unat_div)
    have ge: "unat v < (unat (s div 2) + 1)\<^sup>2" using newton_step [OF 1(5)] h by simp
    have pos: "0 < unat (s div 2)"
      using ge 1(2) by (cases "unat (s div 2) = 0") (auto simp: h)
    have "(unat x1)\<^sup>2 \<le> unat v" if "x1 \<le> s div 2"
    proof -
      from that have "unat x1 \<le> unat v div unat x1" by (simp add: word_le_nat_alt h)
      then have "unat x1 * unat x1 \<le> unat v div unat x1 * unat x1" by (rule mult_le_mono1)
      also have "\<dots> \<le> unat v" by simp
      finally show ?thesis by (simp add: power2_eq_square)
    qed
    moreover have "unat (s div 2) \<le> 2 ^ 127" using h s(2) unat_bound [of s] by simp
    ultimately have "\<exists>r. sqrt_loop v x1 (s div 2) = Some r \<and> (unat r)\<^sup>2 \<le> unat v \<and>
        unat v < (unat r + 1)\<^sup>2"
      using 1(1) [OF True q(1) s(1)] 1(2,5,7) pos ge by blast
    with True q s show ?thesis by (subst sqrt_loop.simps) simp
  next
    case False
    with 1 show ?thesis by (subst sqrt_loop.simps) auto
  qed
qed

lemma integer_sqrt_exact:
  "\<exists>r. integer_sqrt v = Some r \<and> (unat r)\<^sup>2 \<le> unat v \<and> unat v < (unat r + 1)\<^sup>2"
proof (cases "v = 0")
  case False
  let ?n = "unat v" and ?x = "v div 2 + v mod 2"
  have n: "0 < ?n" "?n < 2 ^ 128" using False unat_bound [of v] by (simp_all add: unat_gt_0)
  have parts: "unat (v div 2) = ?n div 2" "unat (v mod 2) = ?n mod 2"
    by (simp_all add: unat_div unat_mod)
  with n have "unat (v div 2) + unat (v mod 2) < 2 ^ LENGTH(128)" by simp
  then have x: "unat ?x = ?n div 2 + ?n mod 2" by (simp only: unat_add_lem [THEN iffD1] parts)
  have "?n \<le> 2 * (?n div 2 + ?n mod 2)" by presburger
  then have small: "?n < (?n div 2 + ?n mod 2 + 1)\<^sup>2"
    by (simp add: power2_eq_square algebra_simps)
  have "(?n)\<^sup>2 \<le> ?n" if "v \<le> ?x"
  proof -
    from that x have "?n \<le> ?n div 2 + ?n mod 2" by (simp add: word_le_nat_alt)
    then have "?n \<le> 1" by presburger
    then have "?n = 1" using n(1) by linarith
    then show ?thesis by simp
  qed
  moreover have "0 < ?n div 2 + ?n mod 2" using n(1) by presburger
  moreover have "?n div 2 + ?n mod 2 \<le> 2 ^ 127"
  proof -
    have "?n div 2 < 2 ^ 127" "?n mod 2 < 2" using n(2) by simp_all
    then show ?thesis by linarith
  qed
  moreover have "?n < (?n + 1)\<^sup>2" by (simp add: power2_eq_square)
  ultimately have "\<exists>r. sqrt_loop v v ?x = Some r \<and> (unat r)\<^sup>2 \<le> ?n \<and> ?n < (unat r + 1)\<^sup>2"
    using n(1) small by (intro sqrt_loop_correct) (simp_all only: x)
  with False show ?thesis by (simp add: integer_sqrt_def)
qed (simp add: integer_sqrt_def)


section \<open>What a quote promises\<close>

lemma wide [simp]: "unat (ucast (a :: u64) :: u128) = unat a" "unat (ucast (b :: u16) :: u128) = unat b"
  by (simp_all add: unat_ucast_wide)

definition fee_of :: "nat \<Rightarrow> nat \<Rightarrow> nat" where
  "fee_of amount bps = amount * bps div 10000"

lemma quote_swap_ok:
  assumes "quote_swap_exact_in rin rout ain fee = Some q"
  shows "unat (sq_fee_amount q) = fee_of (unat ain) (unat fee)"
    and "unat (sq_amount_out q) = unat rout * (unat ain - fee_of (unat ain) (unat fee))
      div (unat rin + (unat ain - fee_of (unat ain) (unat fee)))"
    and "0 < unat rin" "0 < unat rout" "0 < unat ain" "unat fee < 10000" "0 < unat (sq_amount_out q)"
    and "fee_of (unat ain) (unat fee) < unat ain"
proof -
  have thous: "unat (10000 :: u128) = 10000" by simp
  from assms obtain f m e n d out where
    g: "rin \<noteq> 0" "rout \<noteq> 0" "ain \<noteq> 0" "\<not> (10000 :: u128) \<le> ucast fee"
    and raw: "checked_mul (ucast ain :: u128) (ucast fee) = Some m" "checked_div m 10000 = Some f"
      "checked_sub (ucast ain) f = Some e" "checked_mul (ucast rout) e = Some n"
      "checked_add (ucast rin) e = Some d" "checked_div n d = Some out"
      "try_into out = Some (sq_amount_out q)" "try_into f = Some (sq_fee_amount q)"
    and nz: "e \<noteq> 0" "sq_amount_out q \<noteq> 0"
    unfolding quote_swap_exact_in_def FEE_BPS_DENOMINATOR_def
    by (auto simp: bind_eq_Some_conv split: if_splits)
  have f: "unat m = unat ain * unat fee" "unat f = unat m div unat (10000 :: u128)"
    and e: "unat ain = unat e + unat f" "e \<noteq> 0"
    and n: "unat n = unat rout * unat e" "unat d = unat rin + unat e"
    and out: "unat out = unat n div unat d" "unat (sq_amount_out q) = unat out"
      "unat (sq_fee_amount q) = unat f" "sq_amount_out q \<noteq> 0"
    using raw nz
    by (simp_all add: checked_mul_Some checked_div_Some checked_sub_Some checked_add_Some try_into_Some)
  have fee: "unat f = fee_of (unat ain) (unat fee)" using f thous by (simp add: fee_of_def)
  have eff: "unat e = unat ain - fee_of (unat ain) (unat fee)" using e(1) fee by linarith
  show "unat (sq_fee_amount q) = fee_of (unat ain) (unat fee)" using out(3) fee by simp
  show "unat (sq_amount_out q) = unat rout * (unat ain - fee_of (unat ain) (unat fee))
      div (unat rin + (unat ain - fee_of (unat ain) (unat fee)))"
    using out(1,2) n by (simp only: eff)
  show "0 < unat rin" "0 < unat rout" "0 < unat ain" "0 < unat (sq_amount_out q)"
    using g out(4) by (simp_all add: unat_gt_0)
  show "unat fee < 10000" using g(4) by (simp add: word_le_nat_alt thous)
  have "0 < unat e" using e(2) by (simp add: unat_gt_0)
  then show "fee_of (unat ain) (unat fee) < unat ain" using eff by linarith
qed

text \<open>A swap that pays \<open>rout * eff div (rin + eff)\<close> does not lower the product.\<close>

lemma swap_product:
  assumes "eff \<le> (ain :: nat)" "out = rout * eff div (rin + eff)"
  shows "out \<le> rout" and "rin * rout \<le> (rin + ain) * (rout - out)"
proof -
  show le: "out \<le> rout" using assms div_le_scaled [of eff "rin + eff" rout] by simp
  have "out * (rin + eff) \<le> rout * eff" using assms(2) by simp
  moreover have "(rin + eff) * (rout - out) = (rin + eff) * rout - (rin + eff) * out"
    by (rule diff_mult_distrib2)
  ultimately have "rin * rout \<le> (rin + eff) * (rout - out)" by (simp add: algebra_simps)
  also have "\<dots> \<le> (rin + ain) * (rout - out)" using assms(1) by (intro mult_le_mono1) simp
  finally show "rin * rout \<le> (rin + ain) * (rout - out)" .
qed

lemma quote_remove_ok:
  "quote_remove_liquidity lp b q ls = Some (bo, qo) \<Longrightarrow>
   0 < unat lp \<and> unat lp \<le> unat ls \<and> unat bo = unat lp * unat b div unat ls \<and>
   unat qo = unat lp * unat q div unat ls"
  by (auto simp: quote_remove_liquidity_def bind_eq_Some_conv mul_div_Some unat_gt_0
      word_less_nat_alt not_less split: if_splits)

lemma quote_initial_ok:
  assumes "quote_initial_liquidity b q = Some l"
  shows "lq_base_used l = b" "lq_quote_used l = q" "(unat (lq_lp_out l))\<^sup>2 \<le> unat b * unat q"
    "unat b * unat q < (unat (lq_lp_out l) + 1)\<^sup>2" "0 < unat (lq_lp_out l)"
proof -
  from assms obtain m r where m: "unat (m :: u128) = unat b * unat q" "integer_sqrt m = Some r"
    and l: "unat (lq_lp_out l) = unat r" "lq_base_used l = b" "lq_quote_used l = q" "b \<noteq> 0" "q \<noteq> 0"
    by (auto simp: quote_initial_liquidity_def bind_eq_Some_conv checked_mul_Some try_into_Some
        split: if_splits)
  with integer_sqrt_exact [of m] show "lq_base_used l = b" "lq_quote_used l = q"
    and lo: "(unat (lq_lp_out l))\<^sup>2 \<le> unat b * unat q"
    and hi: "unat b * unat q < (unat (lq_lp_out l) + 1)\<^sup>2" by auto
  have "0 < unat b * unat q" using l by (simp add: unat_gt_0)
  with hi show "0 < unat (lq_lp_out l)" by (cases "unat (lq_lp_out l) = 0") auto
qed

lemma quote_initial_total:
  "b \<noteq> 0 \<Longrightarrow> q \<noteq> 0 \<Longrightarrow> \<exists>l. quote_initial_liquidity b q = Some l"
proof -
  assume nz: "b \<noteq> 0" "q \<noteq> 0"
  obtain m where m: "checked_mul (ucast b :: u128) (ucast q) = Some m" "unat m = unat b * unat q"
    using mul_wide by blast
  obtain r where r: "integer_sqrt m = Some r" "(unat r)\<^sup>2 \<le> unat m"
    using integer_sqrt_exact by blast
  have "unat m < 2 ^ 64 * 2 ^ 64"
    using m unat_bound [of b] unat_bound [of q] mult_strict_mono [of "unat b" "2 ^ 64" "unat q" "2 ^ 64"]
    by simp
  with r(2) have "(unat r)\<^sup>2 < (2 ^ 64)\<^sup>2" by (simp add: power2_eq_square)
  then have "unat r < 2 ^ 64" by (rule power_less_imp_less_base) simp
  with nz m r show ?thesis by (simp add: quote_initial_liquidity_def try_into_def)
qed

text \<open>An addition to a running pool takes at most what was offered.\<close>

lemma quote_add_ok:
  assumes "quote_add_liquidity ba qa b q ls = Some l" "ls \<noteq> 0" "b \<noteq> 0" "q \<noteq> 0"
  shows "unat (lq_lp_out l) = min (unat ba * unat ls div unat b) (unat qa * unat ls div unat q)"
    and "unat (lq_base_used l) = unat (lq_lp_out l) * unat b div unat ls"
    and "unat (lq_quote_used l) = unat (lq_lp_out l) * unat q div unat ls"
    and "0 < unat (lq_lp_out l)"
proof -
  have min: "unat (min x y) = min (unat x) (unat y)" for x y :: u128
    by (simp add: min_def word_le_nat_alt)
  from assms obtain m1 m2 x y m3 m4 u v where
    raw: "checked_mul (ucast ba :: u128) (ucast ls) = Some m1" "checked_div m1 (ucast b) = Some x"
    "checked_mul (ucast qa :: u128) (ucast ls) = Some m2" "checked_div m2 (ucast q) = Some y"
    "try_into (min x y) = Some (lq_lp_out l)"
    "checked_mul (min x y) (ucast b) = Some m3" "checked_div m3 (ucast ls) = Some u"
    "checked_mul (min x y) (ucast q) = Some m4" "checked_div m4 (ucast ls) = Some v"
    "try_into u = Some (lq_base_used l)" "try_into v = Some (lq_quote_used l)" and nz: "min x y \<noteq> 0"
    unfolding quote_add_liquidity_def Let_def
    by (auto simp: bind_eq_Some_conv split: if_splits)
  have "0 < unat (min x y)" using nz by (simp add: unat_gt_0)
  with raw show "unat (lq_lp_out l) = min (unat ba * unat ls div unat b) (unat qa * unat ls div unat q)"
    and "unat (lq_base_used l) = unat (lq_lp_out l) * unat b div unat ls"
    and "unat (lq_quote_used l) = unat (lq_lp_out l) * unat q div unat ls"
    and "0 < unat (lq_lp_out l)"
    by (simp_all add: min checked_mul_Some checked_div_Some try_into_Some)
qed

lemma used_le_offered:
  assumes "lp \<le> (a :: nat) * ls div r" "0 < ls"
  shows "lp * r div ls \<le> a"
proof -
  have "lp * r \<le> a * ls div r * r" using assms(1) by (rule mult_le_mono1)
  also have "\<dots> \<le> a * ls" by simp
  finally have "lp * r div ls \<le> a * ls div ls" by (rule div_le_mono)
  with assms(2) show ?thesis by simp
qed

text \<open>
  C15. \<open>integer_sqrt\<close> terminates without an abort on every 128-bit input and returns the exact
  integer square root.
\<close>

theorem integer_sqrt_correct:
  "\<exists>r. integer_sqrt v = Some r \<and> (unat r)\<^sup>2 \<le> unat v \<and> unat v < (unat r + 1)\<^sup>2"
  by (rule integer_sqrt_exact)

end
