(* ===== verification/Unifutures_Curve.thy ===== *)
theory Unifutures_Curve
  imports Prelude
begin

text \<open>
  \<open>aeqi-unifutures/src/curve.rs\<close>: the price of a bonding curve, the cost of a purchase and the
  return of a sale, in 128-bit arithmetic with saturation where the source saturates.
\<close>

definition PRECISION :: u128 where
  "PRECISION = 1000000000000000000"

datatype CurveType = Linear | Exponential

definition curve_type_from_u8 :: "u8 \<Rightarrow> CurveType option" where
  "curve_type_from_u8 v = (if v = 0 then Some Linear else if v = 1 then Some Exponential else None)"

text \<open>\<open>saturating_div\<close> of unsigned numbers is plain division; no divisor here is zero.\<close>

definition price_at :: "CurveType \<Rightarrow> u128 \<Rightarrow> u128 \<Rightarrow> u128 \<Rightarrow> u128 \<Rightarrow> u128" where
  "price_at curve_type start_price end_price max_supply current_supply =
     (if max_supply = 0 then start_price
      else
        let progress = min (saturating_mul current_supply PRECISION div max_supply) PRECISION;
            scale = (case curve_type of
                Linear \<Rightarrow> progress
              | Exponential \<Rightarrow> saturating_mul progress progress div PRECISION)
        in if end_price \<ge> start_price then
             let delta = end_price - start_price in
             saturating_add start_price (saturating_mul delta scale div PRECISION)
           else
             let delta = start_price - end_price in
             saturating_sub start_price (saturating_mul delta scale div PRECISION))"

definition purchase_cost :: "CurveType \<Rightarrow> u128 \<Rightarrow> u128 \<Rightarrow> u128 \<Rightarrow> u128 \<Rightarrow> u128 \<Rightarrow> u128 option" where
  "purchase_cost curve_type start_price end_price max_supply current_supply token_amount =
     (if token_amount = 0 then Some 0
      else
        let p_start = price_at curve_type start_price end_price max_supply current_supply in
        Option.bind (checked_add current_supply token_amount) (\<lambda>s.
        let p_end = price_at curve_type start_price end_price max_supply s in
        Option.bind (checked_add p_start p_end) (\<lambda>sum.
        let avg_price = sum div 2 in
        Option.bind (checked_mul token_amount avg_price) (\<lambda>m. checked_div m PRECISION))))"

definition sale_return :: "CurveType \<Rightarrow> u128 \<Rightarrow> u128 \<Rightarrow> u128 \<Rightarrow> u128 \<Rightarrow> u128 \<Rightarrow> u32 \<Rightarrow> u128 option" where
  "sale_return curve_type start_price end_price max_supply current_supply token_amount
     reserve_ratio_ppm =
     (if token_amount = 0 \<or> token_amount > current_supply then None
      else
        Option.bind (checked_sub current_supply token_amount) (\<lambda>new_supply.
        let p_end = price_at curve_type start_price end_price max_supply new_supply;
            p_start = price_at curve_type start_price end_price max_supply current_supply in
        Option.bind (checked_add p_end p_start) (\<lambda>sum.
        let avg_price = sum div 2 in
        Option.bind (checked_mul token_amount avg_price) (\<lambda>m.
        Option.bind (checked_div m PRECISION) (\<lambda>gross.
        Option.bind (checked_mul gross (ucast reserve_ratio_ppm)) (\<lambda>g.
          checked_div g 1000000))))))"

section \<open>The price in exact arithmetic\<close>

abbreviation prec :: nat where
  "prec \<equiv> 1000000000000000000"

definition progress_of :: "nat \<Rightarrow> nat \<Rightarrow> nat" where
  "progress_of max_supply s = min (min (s * prec) (2 ^ 128 - 1) div max_supply) prec"

definition scale_of :: "CurveType \<Rightarrow> nat \<Rightarrow> nat \<Rightarrow> nat" where
  "scale_of ct max_supply s = (case ct of Linear \<Rightarrow> progress_of max_supply s
     | Exponential \<Rightarrow> progress_of max_supply s * progress_of max_supply s div prec)"

text \<open>How far the price has moved from its start, with the saturation of the product.\<close>

definition moved :: "nat \<Rightarrow> nat \<Rightarrow> nat" where
  "moved delta scale = min (delta * scale) (2 ^ 128 - 1) div prec"

lemma progress_le: "progress_of m s \<le> prec"
  by (simp add: progress_of_def)

lemma progress_mono: "s \<le> t \<Longrightarrow> progress_of m s \<le> progress_of m t"
  unfolding progress_of_def by (intro min.mono div_le_mono order_refl) auto

lemma scale_le: "scale_of ct m s \<le> prec"
proof (cases ct)
  case Exponential
  have "progress_of m s * progress_of m s div prec \<le> progress_of m s"
    using progress_le by (rule div_le_scaled)
  with Exponential progress_le [of m s] show ?thesis by (simp add: scale_of_def)
qed (simp add: scale_of_def progress_le)

lemma scale_mono: "s \<le> t \<Longrightarrow> scale_of ct m s \<le> scale_of ct m t"
  by (cases ct) (auto simp: scale_of_def progress_mono intro!: div_le_mono mult_le_mono)

lemma moved_le: "sc \<le> prec \<Longrightarrow> moved delta sc \<le> delta"
proof -
  assume "sc \<le> prec"
  have "moved delta sc \<le> delta * sc div prec" unfolding moved_def by (intro div_le_mono) simp
  also have "\<dots> \<le> delta" using \<open>sc \<le> prec\<close> by (rule div_le_scaled)
  finally show ?thesis .
qed

lemma moved_mono: "sc \<le> sc' \<Longrightarrow> moved delta sc \<le> moved delta sc'"
  unfolding moved_def by (intro div_le_mono min.mono mult_le_mono2 order_refl)

lemma unat_PRECISION [simp]: "unat PRECISION = prec"
  by (simp add: PRECISION_def)

lemma price_at_unat:
  assumes "m \<noteq> 0"
  shows "unat (price_at ct sp ep m s) =
    (let sc = scale_of ct (unat m) (unat s) in
     if unat sp \<le> unat ep then unat sp + moved (unat ep - unat sp) sc
     else unat sp - moved (unat sp - unat ep) sc)"
proof -
  define pr where "pr = min (saturating_mul s PRECISION div m) PRECISION"
  define sc where "sc = (case ct of Linear \<Rightarrow> pr | Exponential \<Rightarrow> saturating_mul pr pr div PRECISION)"
  have min: "unat (min x y) = min (unat x) (unat y)" for x y :: u128
    by (simp add: min_def word_le_nat_alt)
  have pr: "unat pr = progress_of (unat m) (unat s)"
    by (simp add: pr_def min unat_div saturating_mul_unat progress_of_def)
  have "unat pr * unat pr \<le> prec * prec" using pr progress_le by (intro mult_le_mono) simp_all
  then have sc: "unat sc = scale_of ct (unat m) (unat s)"
    by (cases ct) (simp_all add: sc_def pr unat_div saturating_mul_unat scale_of_def)
  have mv: "unat (saturating_mul d sc div PRECISION) = moved (unat d) (scale_of ct (unat m) (unat s))" for d
    by (simp add: unat_div saturating_mul_unat moved_def sc)
  have price: "price_at ct sp ep m s =
     (if ep \<ge> sp then saturating_add sp (saturating_mul (ep - sp) sc div PRECISION)
      else saturating_sub sp (saturating_mul (sp - ep) sc div PRECISION))"
    unfolding price_at_def Let_def sc_def pr_def using assms by simp
  show ?thesis
  proof (cases "sp \<le> ep")
    case True
    then have d: "unat (ep - sp) = unat ep - unat sp" by (rule unat_sub)
    have "unat sp + moved (unat ep - unat sp) (scale_of ct (unat m) (unat s)) \<le> unat ep"
      using moved_le [OF scale_le, of "unat ep - unat sp" ct "unat m" "unat s"] True
      by (simp add: word_le_nat_alt)
    moreover have "unat ep < 2 ^ 128" using unat_bound [of ep] by simp
    ultimately show ?thesis
      using True by (simp add: price saturating_add_unat mv d word_le_nat_alt Let_def)
  next
    case False
    then have "unat (sp - ep) = unat sp - unat ep" by (intro unat_sub) simp
    with False show ?thesis by (simp add: price saturating_sub_unat mv word_le_nat_alt Let_def)
  qed
qed

lemma price_at_zero_supply [simp]: "price_at ct sp ep 0 s = sp"
  by (simp add: price_at_def)

lemma price_at_mono:
  assumes "s \<le> t"
  shows "sp \<le> ep \<Longrightarrow> price_at ct sp ep m s \<le> price_at ct sp ep m t"
    and "ep \<le> sp \<Longrightarrow> price_at ct sp ep m t \<le> price_at ct sp ep m s"
proof -
  let ?f = "\<lambda>s. scale_of ct (unat m) (unat s)"
  have mv: "moved d (?f s) \<le> moved d (?f t)" for d
    using assms by (intro moved_mono scale_mono) (simp add: word_le_nat_alt)
  show "sp \<le> ep \<Longrightarrow> price_at ct sp ep m s \<le> price_at ct sp ep m t"
    using mv by (cases "m = 0") (simp_all add: word_le_nat_alt price_at_unat Let_def)
  show "ep \<le> sp \<Longrightarrow> price_at ct sp ep m t \<le> price_at ct sp ep m s"
    using mv by (cases "m = 0")
      (auto simp: word_le_nat_alt price_at_unat Let_def moved_def intro!: diff_le_mono2)
qed

lemma price_at_between:
  "min sp ep \<le> price_at ct sp ep m s \<and> price_at ct sp ep m s \<le> max sp ep"
proof (cases "m = 0")
  case False
  have "moved d (scale_of ct (unat m) (unat s)) \<le> d" for d by (intro moved_le scale_le)
  from this [of "unat ep - unat sp"] this [of "unat sp - unat ep"] False show ?thesis
    by (auto simp: min_def max_def word_le_nat_alt price_at_unat Let_def)
qed (auto simp: min_def max_def not_le)

lemma price_at_ends:
  assumes "m \<noteq> 0" and "unat m * prec < 2 ^ 128"
    and "(max (unat sp) (unat ep) - min (unat sp) (unat ep)) * prec < 2 ^ 128"
  shows "price_at ct sp ep m 0 = sp" and "price_at ct sp ep m m = ep"
proof -
  have "progress_of (unat m) 0 = 0" "progress_of (unat m) (unat m) = prec"
    using assms by (simp_all add: progress_of_def unat_gt_0 min_absorb1)
  then have sc: "scale_of ct (unat m) 0 = 0" "scale_of ct (unat m) (unat m) = prec"
    by (cases ct; simp add: scale_of_def)+
  have mv: "moved d prec = d" if "d * prec < 2 ^ 128" for d
    using that by (simp add: moved_def min_absorb1)
  show "price_at ct sp ep m 0 = sp"
    using assms(1) by (simp add: word_unat_eq_iff price_at_unat sc moved_def)
  show "price_at ct sp ep m m = ep"
    using assms(1,3) mv [of "unat ep - unat sp"] mv [of "unat sp - unat ep"]
    by (auto simp: word_unat_eq_iff price_at_unat sc max_def min_def)
qed

section \<open>Buying and selling back\<close>

lemma purchase_cost_Some:
  assumes "purchase_cost ct sp ep m s n = Some c" and "n \<noteq> 0"
  shows "unat c = unat n * ((unat (price_at ct sp ep m s) + unat (price_at ct sp ep m (s + n))) div 2)
    div prec" and "unat (s + n) = unat s + unat n"
proof -
  from assms obtain s' sum a where raw: "checked_add s n = Some s'"
    "checked_add (price_at ct sp ep m s) (price_at ct sp ep m s') = Some sum"
    "checked_mul n (sum div 2) = Some a" "checked_div a PRECISION = Some c"
    by (auto simp: purchase_cost_def Let_def bind_eq_Some_conv)
  then have "s' = s + n" by (auto simp: checked_add_def split: if_splits)
  with raw show "unat c = unat n * ((unat (price_at ct sp ep m s) +
      unat (price_at ct sp ep m (s + n))) div 2) div prec" and "unat (s + n) = unat s + unat n"
    by (simp_all add: checked_add_Some checked_mul_Some checked_div_Some unat_div)
qed

lemma sale_return_Some:
  assumes "sale_return ct sp ep m s n r = Some c"
  shows "unat c = unat n * ((unat (price_at ct sp ep m (s - n)) + unat (price_at ct sp ep m s)) div 2)
    div prec * unat r div 1000000" and "n \<le> s"
proof -
  from assms obtain s' sum a g b where raw: "\<not> n > s" "checked_sub s n = Some s'"
    "checked_add (price_at ct sp ep m s') (price_at ct sp ep m s) = Some sum"
    "checked_mul n (sum div 2) = Some a" "checked_div a PRECISION = Some g"
    "checked_mul g (ucast r) = Some b" "checked_div b 1000000 = Some c"
    by (auto simp: sale_return_def Let_def bind_eq_Some_conv split: if_splits)
  then have "s' = s - n" "n \<le> s" by (auto simp: checked_sub_def not_less)
  with raw show "unat c = unat n * ((unat (price_at ct sp ep m (s - n)) +
      unat (price_at ct sp ep m s)) div 2) div prec * unat r div 1000000" and "n \<le> s"
    by (simp_all add: checked_add_Some checked_mul_Some checked_div_Some unat_div unat_ucast_wide)
qed

text \<open>Selling what was just bought returns the reserve share of what it cost.\<close>

lemma sell_back:
  assumes "purchase_cost ct sp ep m s n = Some c" and "sale_return ct sp ep m (s + n) n r = Some d"
    and "n \<noteq> 0" and "r \<le> 1000000"
  shows "unat d = unat c * unat r div 1000000" and "d \<le> c"
proof -
  show d: "unat d = unat c * unat r div 1000000"
    using purchase_cost_Some(1) [OF assms(1,3)] sale_return_Some(1) [OF assms(2)] by simp
  have "unat r \<le> 1000000" using assms(4) by (simp add: word_le_nat_alt)
  then show "d \<le> c" using d div_le_scaled [of "unat r" 1000000 "unat c"]
    by (simp add: word_le_nat_alt)
qed

section \<open>Properties\<close>

text \<open>The curve price is sound for every curve and supply, saturation included: it stays
  between the two end prices, and follows the direction of the curve as the supply grows.
  Where the products fit in 128 bits it starts at the start price and ends at the end price.
\<close>

theorem price_at_sound:
  assumes "s \<le> t"
  shows "min sp ep \<le> price_at ct sp ep m s \<and> price_at ct sp ep m s \<le> max sp ep \<and>
    (if sp \<le> ep then price_at ct sp ep m s \<le> price_at ct sp ep m t
     else price_at ct sp ep m t \<le> price_at ct sp ep m s) \<and>
    (m \<noteq> 0 \<and> unat m * 1000000000000000000 < 2 ^ 128 \<and>
     (max (unat sp) (unat ep) - min (unat sp) (unat ep)) * 1000000000000000000 < 2 ^ 128 \<longrightarrow>
     price_at ct sp ep m 0 = sp \<and> price_at ct sp ep m m = ep)"
proof (intro conjI impI)
  show "min sp ep \<le> price_at ct sp ep m s" "price_at ct sp ep m s \<le> max sp ep"
    using price_at_between by blast+
  show "if sp \<le> ep then price_at ct sp ep m s \<le> price_at ct sp ep m t
     else price_at ct sp ep m t \<le> price_at ct sp ep m s"
    using price_at_mono(1) [OF assms, of sp ep ct m] price_at_mono(2) [OF assms, of ep sp ct m]
    by (auto simp: not_le)
qed (use price_at_ends in blast)+

theorem price_at_sound_witness:
  "price_at Exponential 0 1000000000000000000 1000 500 \<le> price_at Exponential 0 1000000000000000000 1000 600 \<and>
   price_at Exponential 0 1000000000000000000 1000 1000 = 1000000000000000000"
  using price_at_sound [of 500 600 0 1000000000000000000 Exponential 1000] by simp

text \<open>
  With a wider range the product saturates and the curve stops short of its end price: from 0
  to \<open>10\<^sup>2\<^sup>1\<close> over 1000 tokens, the price at full supply is about a third of the end price.
\<close>

lemma price_at_saturates:
  "price_at Linear 0 1000000000000000000000 1000 1000 = 340282366920938463463"
  by (simp add: price_at_def Let_def PRECISION_def saturating_mul_def saturating_add_def
      checked_mul_def checked_add_def min_def)

end
