(* ===== verification/Aeqi_Unifutures.thy ===== *)
theory Aeqi_Unifutures
  imports Aeqi_Trust Spl_Interface Unifutures_Pool Unifutures_Curve
begin

text \<open>
  The program \<open>aeqi_unifutures\<close>: bonding curves, constant-product liquidity pools, commitment
  sales and exits, on the arithmetic of \<open>Unifutures_Curve\<close> and \<open>Unifutures_Pool\<close>. The
  associated-token program, which creates a pool's vaults, is the parameter \<open>create_ata\<close>
  (mint, owner and address of the new account; \<open>None\<close> when the call fails).
\<close>

section \<open>Errors, state and events\<close>

datatype UnifuturesError =
    ZeroMaxSupply | InvalidReserveRatio | InvalidCurveType | InvalidFeeBps | IdenticalMints
  | PoolMintMismatch | InvalidSwapDirection | MathOverflow | ZeroAmount | ExceedsMaxSupply
  | SlippageExceeded | ExceedsSupply | InsufficientReserve | InsufficientInitialLiquidity
  | InsufficientLiquidity | InvalidOverflowTarget | InvalidDuration | SaleNotActive | SaleClosed
  | OverflowExceeded | Unauthorized | AlreadySettled | NotSettled | ShareTooSmall
  | CannotFinalizeYet | SaleNotCompleted | AlreadyClaimed | TrustNotInCreationMode
  | AssetMintMismatch | QuoteMintMismatch | SupplySnapshotMismatch

record UnifuturesModuleState =
  um_trust :: pubkey
  um_curve_count :: u64
  um_sale_count :: u64
  um_exit_count :: u64
  um_pool_count :: u64
  um_bump :: u8

record LiquidityPool =
  pl_trust :: pubkey
  pl_pool_id :: bytes32
  pl_base_mint :: pubkey
  pl_quote_mint :: pubkey
  pl_base_vault :: pubkey
  pl_quote_vault :: pubkey
  pl_lp_mint :: pubkey
  pl_lp_supply :: u64
  pl_base_reserve :: u64
  pl_quote_reserve :: u64
  pl_fee_bps :: u16
  pl_bump :: u8

datatype SaleStatus = Active | Completed | Cancelled

primrec sale_status_u8 :: "SaleStatus \<Rightarrow> u8" where
  "sale_status_u8 Active = 0"
| "sale_status_u8 Completed = 1"
| "sale_status_u8 Cancelled = 2"

record CommitmentSale =
  sl_trust :: pubkey
  sl_sale_id :: bytes32
  sl_creator :: pubkey
  sl_asset_amount :: u64
  sl_target_quote :: u64
  sl_overflow_quote :: u64
  sl_proceeds_collected :: u64
  sl_commitments_collected :: u64
  sl_status :: u8
  sl_start_time :: i64
  sl_end_time :: i64
  sl_bump :: u8

record SaleCommitment =
  sc_trust :: pubkey
  sc_sale_id :: bytes32
  sc_buyer :: pubkey
  sc_amount :: u64
  sc_bump :: u8

record Exit =
  ex_trust :: pubkey
  ex_exit_id :: bytes32
  ex_creator :: pubkey
  ex_asset_mint :: pubkey
  ex_exit_quote :: u64
  ex_total_supply_snapshot :: u64
  ex_proceeds_collected :: u64
  ex_remaining_proceeds :: u64
  ex_status :: u8
  ex_start_time :: i64
  ex_end_time :: i64
  ex_bump :: u8

record BondingCurve =
  cv_trust :: pubkey
  cv_curve_id :: bytes32
  cv_creator :: pubkey
  cv_asset_mint :: pubkey
  cv_quote_mint :: pubkey
  cv_curve_type :: u8
  cv_start_price :: u128
  cv_end_price :: u128
  cv_max_supply :: u64
  cv_current_supply :: u64
  cv_reserve_balance :: u128
  cv_reserve_ratio_ppm :: u32
  cv_proceeds_collected :: u128
  cv_bump :: u8

datatype uni_acct =
    UniModuleA UnifuturesModuleState
  | PoolA LiquidityPool
  | SaleA CommitmentSale
  | CommitmentA SaleCommitment
  | ExitA Exit
  | CurveA BondingCurve

type_synonym uni_store = "uni_acct accts"

fun as_uni_module :: "uni_acct \<Rightarrow> UnifuturesModuleState option" where
  "as_uni_module (UniModuleA m) = Some m" | "as_uni_module _ = None"

fun as_pool :: "uni_acct \<Rightarrow> LiquidityPool option" where
  "as_pool (PoolA p) = Some p" | "as_pool _ = None"

fun as_sale :: "uni_acct \<Rightarrow> CommitmentSale option" where
  "as_sale (SaleA s) = Some s" | "as_sale _ = None"

fun as_commitment :: "uni_acct \<Rightarrow> SaleCommitment option" where
  "as_commitment (CommitmentA c) = Some c" | "as_commitment _ = None"

fun as_exit :: "uni_acct \<Rightarrow> Exit option" where
  "as_exit (ExitA e) = Some e" | "as_exit _ = None"

fun as_curve :: "uni_acct \<Rightarrow> BondingCurve option" where
  "as_curve (CurveA c) = Some c" | "as_curve _ = None"

definition zero_commitment :: SaleCommitment where
  "zero_commitment = \<lparr>sc_trust = 0, sc_sale_id = 0, sc_buyer = 0, sc_amount = 0, sc_bump = 0\<rparr>"

datatype uni_event =
    CurveCreated pubkey bytes32 pubkey pubkey pubkey u8 u128 u128 u64
  | CurveBuy pubkey bytes32 pubkey u64 u64
  | CurveSell pubkey bytes32 pubkey u64 u64
  | LiquidityPoolCreated pubkey bytes32 pubkey pubkey pubkey u16
  | LiquidityAdded pubkey bytes32 pubkey u64 u64 u64
  | LiquidityRemoved pubkey bytes32 pubkey u64 u64 u64
  | SwapExecuted pubkey bytes32 pubkey u8 u64 u64 u64
  | SaleCreated pubkey bytes32 pubkey u64 u64 u64 i64
  | ExitCreated pubkey bytes32 pubkey pubkey u64 u64 i64
  | SaleCommitted pubkey bytes32 pubkey u64 u64
  | SaleFinalized pubkey bytes32 u64 u64 i64
  | AllocationClaimed pubkey bytes32 pubkey u64
  | ExitSettled pubkey bytes32 pubkey u64
  | ProRataClaimed pubkey bytes32 pubkey u64 u64

definition AEQI_UNIFUTURES_ID :: pubkey where
  "AEQI_UNIFUTURES_ID = 0xa5ff5cbdbc0b564bf7b8cebfcca067a4cc6efe3de032b0d06ab5b1a551e73e84"

text \<open>The result of an instruction that moves tokens.\<close>

type_synonym 'tk uni_result = "UnifuturesError err + uni_store \<times> 'tk \<times> uni_event list"

section \<open>The module\<close>

definition InitUnifutures_accounts :: "pda_sdk \<Rightarrow> trust_store \<Rightarrow> uni_store \<Rightarrow> pubkey \<Rightarrow> pubkey \<Rightarrow>
  UnifuturesError err + Trust \<times> u8" where
  "InitUnifutures_accounts P TL L trust module_state =
     rbind (trust_account P TL trust) (\<lambda>t.
     rbind (init_account P [Lit ''unifutures_module'', B32 trust] AEQI_UNIFUTURES_ID L module_state)
       (\<lambda>bump. Inr (t, bump)))"

definition uni_init :: "pda_sdk \<Rightarrow> trust_store \<Rightarrow> pubkey \<Rightarrow> pubkey \<Rightarrow> pubkey \<Rightarrow> uni_store \<Rightarrow>
  UnifuturesError err + uni_store \<times> uni_event list" where
  "uni_init P TL trust module_state payer L =
     rbind (InitUnifutures_accounts P TL L trust module_state) (\<lambda>(t, bump).
     require (t_creation_mode t) (Prog TrustNotInCreationMode)
     (require (payer = t_authority t) (Prog Unauthorized)
     (Inr (L(module_state \<mapsto> UniModuleA
             \<lparr>um_trust = trust, um_curve_count = 0, um_sale_count = 0, um_exit_count = 0,
              um_pool_count = 0, um_bump = bump\<rparr>), []))))"

text \<open>The constraint on \<open>module_state\<close> in the four creating contexts.\<close>

definition uni_module_account :: "pda_sdk \<Rightarrow> uni_store \<Rightarrow> pubkey \<Rightarrow> pubkey \<Rightarrow>
  UnifuturesError err + UnifuturesModuleState" where
  "uni_module_account P L trust module_state =
     rbind (load as_uni_module L module_state) (\<lambda>m.
     require (seeds_ok P [Lit ''unifutures_module'', B32 trust] (um_bump m) AEQI_UNIFUTURES_ID
         module_state) (Anchor ConstraintSeeds) (Inr m))"

section \<open>Bonding curves\<close>

definition CreateCurve_accounts :: "pda_sdk \<Rightarrow> 'tk spl \<Rightarrow> bytes32 \<Rightarrow> uni_store \<Rightarrow> 'tk \<Rightarrow> pubkey \<Rightarrow>
  pubkey \<Rightarrow> pubkey \<Rightarrow> pubkey \<Rightarrow> pubkey \<Rightarrow> UnifuturesError err + UnifuturesModuleState \<times> u8" where
  "CreateCurve_accounts P S curve_id L tk trust module_state curve asset_mint quote_mint =
     rbind (uni_module_account P L trust module_state) (\<lambda>m.
     rbind (init_account P [Lit ''curve'', B32 trust, B32 curve_id] AEQI_UNIFUTURES_ID L curve) (\<lambda>bump.
     rbind (mint_account S tk asset_mint) (\<lambda>_.
     rbind (mint_account S tk quote_mint) (\<lambda>_. Inr (m, bump)))))"

definition uni_create_curve :: "pda_sdk \<Rightarrow> 'tk spl \<Rightarrow> pubkey \<Rightarrow> pubkey \<Rightarrow> pubkey \<Rightarrow> pubkey \<Rightarrow> pubkey \<Rightarrow>
  pubkey \<Rightarrow> bytes32 \<Rightarrow> u8 \<Rightarrow> u128 \<Rightarrow> u128 \<Rightarrow> u64 \<Rightarrow> u32 \<Rightarrow> uni_store \<Rightarrow> 'tk \<Rightarrow>
  UnifuturesError err + uni_store \<times> uni_event list" where
  "uni_create_curve P S trust module_state curve asset_mint quote_mint creator curve_id curve_type
     start_price end_price max_supply reserve_ratio_ppm L tk =
     rbind (CreateCurve_accounts P S curve_id L tk trust module_state curve asset_mint quote_mint)
       (\<lambda>(m, bump).
     require (max_supply > 0) (Prog ZeroMaxSupply)
     (require (reserve_ratio_ppm \<le> 1000000) (Prog InvalidReserveRatio)
     (require (asset_mint \<noteq> quote_mint) (Prog IdenticalMints)
     (rbind (ok_or (curve_type_from_u8 curve_type) (Prog InvalidCurveType)) (\<lambda>_.
     rbind (ok_or (checked_add (um_curve_count m) 1) (Prog MathOverflow)) (\<lambda>n.
       Inr (L(module_state \<mapsto> UniModuleA (m\<lparr>um_curve_count := n\<rparr>),
              curve \<mapsto> CurveA
                \<lparr>cv_trust = trust, cv_curve_id = curve_id, cv_creator = creator,
                 cv_asset_mint = asset_mint, cv_quote_mint = quote_mint, cv_curve_type = curve_type,
                 cv_start_price = start_price, cv_end_price = end_price, cv_max_supply = max_supply,
                 cv_current_supply = 0, cv_reserve_balance = 0,
                 cv_reserve_ratio_ppm = reserve_ratio_ppm, cv_proceeds_collected = 0,
                 cv_bump = bump\<rparr>),
            [CurveCreated trust curve_id creator asset_mint quote_mint curve_type start_price
               end_price max_supply])))))))"

text \<open>The accounts of \<open>BuyFromCurve\<close> and \<open>SellToCurve\<close>: \<open>user\<close> is the buyer or the seller.\<close>

record curve_ctx =
  ck_curve :: pubkey
  ck_curve_authority :: pubkey
  ck_asset_mint :: pubkey
  ck_quote_mint :: pubkey
  ck_curve_asset_vault :: pubkey
  ck_curve_quote_vault :: pubkey
  ck_user_asset_ta :: pubkey
  ck_user_quote_ta :: pubkey
  ck_user :: pubkey

text \<open>The accounts that both structs constrain alike.\<close>

definition curve_accounts :: "pda_sdk \<Rightarrow> 'tk spl \<Rightarrow> uni_store \<Rightarrow> 'tk \<Rightarrow> curve_ctx \<Rightarrow>
  UnifuturesError err + BondingCurve \<times> mint_data \<times> mint_data" where
  "curve_accounts P S L tk x =
     rbind (load as_curve L (ck_curve x)) (\<lambda>c.
     require (seeds_ok P [Lit ''curve'', B32 (cv_trust c), B32 (cv_curve_id c)] (cv_bump c)
         AEQI_UNIFUTURES_ID (ck_curve x)) (Anchor ConstraintSeeds)
     (rbind (canonical P [Lit ''curve_authority'', B32 (cv_trust c), B32 (cv_curve_id c)]
               AEQI_UNIFUTURES_ID (ck_curve_authority x)) (\<lambda>_.
     rbind (mint_account S tk (ck_asset_mint x)) (\<lambda>am.
     rbind (mint_account S tk (ck_quote_mint x)) (\<lambda>qm.
     rbind (token_account S tk (ck_curve_asset_vault x) (ck_asset_mint x)
              (Some (ck_curve_authority x))) (\<lambda>_.
     rbind (token_account S tk (ck_curve_quote_vault x) (ck_quote_mint x)
              (Some (ck_curve_authority x))) (\<lambda>_.
       Inr (c, am, qm))))))))"

definition BuyFromCurve_accounts :: "pda_sdk \<Rightarrow> 'tk spl \<Rightarrow> uni_store \<Rightarrow> 'tk \<Rightarrow> curve_ctx \<Rightarrow>
  UnifuturesError err + BondingCurve \<times> mint_data \<times> mint_data" where
  "BuyFromCurve_accounts P S L tk x =
     rbind (curve_accounts P S L tk x) (\<lambda>r.
     rbind (token_account S tk (ck_user_asset_ta x) (ck_asset_mint x) None) (\<lambda>_.
     rbind (token_account S tk (ck_user_quote_ta x) (ck_quote_mint x) (Some (ck_user x))) (\<lambda>_. Inr r)))"

definition uni_buy_from_curve :: "pda_sdk \<Rightarrow> 'tk spl \<Rightarrow> curve_ctx \<Rightarrow> u64 \<Rightarrow> u64 \<Rightarrow> uni_store \<Rightarrow> 'tk \<Rightarrow>
  'tk uni_result" where
  "uni_buy_from_curve P S x token_amount max_cost L tk =
     rbind (BuyFromCurve_accounts P S L tk x) (\<lambda>(c, am, qm).
     require (token_amount > 0) (Prog ZeroAmount)
     (rbind (ok_or (curve_type_from_u8 (cv_curve_type c)) (Prog InvalidCurveType)) (\<lambda>ct.
     require (ck_asset_mint x = cv_asset_mint c) (Prog AssetMintMismatch)
     (require (ck_quote_mint x = cv_quote_mint c) (Prog QuoteMintMismatch)
     (rbind (ok_or (checked_add (cv_current_supply c) token_amount) (Prog MathOverflow)) (\<lambda>supply'.
     require (supply' \<le> cv_max_supply c) (Prog ExceedsMaxSupply)
     (rbind (ok_or (purchase_cost ct (cv_start_price c) (cv_end_price c) (ucast (cv_max_supply c))
               (ucast (cv_current_supply c)) (ucast token_amount)) (Prog MathOverflow)) (\<lambda>cost_u128.
     rbind (ok_or (try_into cost_u128) (Prog MathOverflow)) (\<lambda>cost.
     require (cost \<le> max_cost) (Prog SlippageExceeded)
     (rbind (spl_call (transfer_checked S (ck_user_quote_ta x) (ck_quote_mint x)
               (ck_curve_quote_vault x) (ck_user x) cost (mi_decimals qm) tk)) (\<lambda>tk1.
     rbind (spl_call (transfer_checked S (ck_curve_asset_vault x) (ck_asset_mint x)
               (ck_user_asset_ta x) (ck_curve_authority x) token_amount (mi_decimals am) tk1)) (\<lambda>tk2.
     rbind (ok_or (checked_add (cv_reserve_balance c) (ucast cost)) (Prog MathOverflow)) (\<lambda>reserve.
     rbind (ok_or (checked_add (cv_proceeds_collected c) (ucast cost)) (Prog MathOverflow)) (\<lambda>proceeds.
       Inr (L(ck_curve x \<mapsto> CurveA (c\<lparr>cv_current_supply := supply', cv_reserve_balance := reserve,
                cv_proceeds_collected := proceeds\<rparr>)), tk2,
            [CurveBuy (cv_trust c) (cv_curve_id c) (ck_user x) token_amount cost])))))))))))))))"

definition SellToCurve_accounts :: "pda_sdk \<Rightarrow> 'tk spl \<Rightarrow> uni_store \<Rightarrow> 'tk \<Rightarrow> curve_ctx \<Rightarrow>
  UnifuturesError err + BondingCurve \<times> mint_data \<times> mint_data" where
  "SellToCurve_accounts P S L tk x =
     rbind (curve_accounts P S L tk x) (\<lambda>r.
     rbind (token_account S tk (ck_user_asset_ta x) (ck_asset_mint x) (Some (ck_user x))) (\<lambda>_.
     rbind (token_account S tk (ck_user_quote_ta x) (ck_quote_mint x) None) (\<lambda>_. Inr r)))"

definition uni_sell_to_curve :: "pda_sdk \<Rightarrow> 'tk spl \<Rightarrow> curve_ctx \<Rightarrow> u64 \<Rightarrow> u64 \<Rightarrow> uni_store \<Rightarrow> 'tk \<Rightarrow>
  'tk uni_result" where
  "uni_sell_to_curve P S x token_amount min_return L tk =
     rbind (SellToCurve_accounts P S L tk x) (\<lambda>(c, am, qm).
     require (token_amount > 0) (Prog ZeroAmount)
     (rbind (ok_or (curve_type_from_u8 (cv_curve_type c)) (Prog InvalidCurveType)) (\<lambda>ct.
     require (ck_asset_mint x = cv_asset_mint c) (Prog AssetMintMismatch)
     (require (ck_quote_mint x = cv_quote_mint c) (Prog QuoteMintMismatch)
     (require (token_amount \<le> cv_current_supply c) (Prog ExceedsSupply)
     (rbind (ok_or (sale_return ct (cv_start_price c) (cv_end_price c) (ucast (cv_max_supply c))
               (ucast (cv_current_supply c)) (ucast token_amount) (cv_reserve_ratio_ppm c))
               (Prog MathOverflow)) (\<lambda>return_u128.
     rbind (ok_or (try_into return_u128) (Prog MathOverflow)) (\<lambda>return_amount.
     require (return_amount \<ge> min_return) (Prog SlippageExceeded)
     (require ((ucast return_amount :: u128) \<le> cv_reserve_balance c) (Prog InsufficientReserve)
     (rbind (spl_call (transfer_checked S (ck_user_asset_ta x) (ck_asset_mint x)
               (ck_curve_asset_vault x) (ck_user x) token_amount (mi_decimals am) tk)) (\<lambda>tk1.
     rbind (spl_call (transfer_checked S (ck_curve_quote_vault x) (ck_quote_mint x)
               (ck_user_quote_ta x) (ck_curve_authority x) return_amount (mi_decimals qm) tk1)) (\<lambda>tk2.
     rbind (ok_or (checked_sub (cv_current_supply c) token_amount) (Prog MathOverflow)) (\<lambda>supply'.
     rbind (ok_or (checked_sub (cv_reserve_balance c) (ucast return_amount)) (Prog MathOverflow))
       (\<lambda>reserve.
       Inr (L(ck_curve x \<mapsto> CurveA (c\<lparr>cv_current_supply := supply', cv_reserve_balance := reserve\<rparr>)),
            tk2, [CurveSell (cv_trust c) (cv_curve_id c) (ck_user x) token_amount return_amount])))))))))))))))"

definition uni_quote_buy :: "uni_store \<Rightarrow> pubkey \<Rightarrow> u64 \<Rightarrow> UnifuturesError err + u128" where
  "uni_quote_buy L curve token_amount =
     rbind (load as_curve L curve) (\<lambda>c.
     rbind (ok_or (curve_type_from_u8 (cv_curve_type c)) (Prog InvalidCurveType)) (\<lambda>ct.
     ok_or (purchase_cost ct (cv_start_price c) (cv_end_price c) (ucast (cv_max_supply c))
              (ucast (cv_current_supply c)) (ucast token_amount)) (Prog MathOverflow)))"

section \<open>Liquidity pools\<close>

definition pool_authority_seeds :: "pubkey \<Rightarrow> bytes32 \<Rightarrow> seed list" where
  "pool_authority_seeds trust pool_id = [Lit ''liquidity_pool_authority'', B32 trust, B32 pool_id]"

definition lp_mint_seeds :: "pubkey \<Rightarrow> bytes32 \<Rightarrow> seed list" where
  "lp_mint_seeds trust pool_id = [Lit ''lp_mint'', B32 trust, B32 pool_id]"

text \<open>Besides the pool account, \<open>CreateLiquidityPool\<close> creates the LP mint and the two vaults.\<close>

definition CreateLiquidityPool_accounts :: "pda_sdk \<Rightarrow> 'tk spl \<Rightarrow>
  (pubkey \<Rightarrow> pubkey \<Rightarrow> pubkey \<Rightarrow> 'tk \<Rightarrow> 'tk option) \<Rightarrow> bytes32 \<Rightarrow> uni_store \<Rightarrow> 'tk \<Rightarrow> pubkey \<Rightarrow>
  pubkey \<Rightarrow> pubkey \<Rightarrow> pubkey \<Rightarrow> pubkey \<Rightarrow> pubkey \<Rightarrow> pubkey \<Rightarrow> pubkey \<Rightarrow> pubkey \<Rightarrow>
  UnifuturesError err + u8 \<times> 'tk" where
  "CreateLiquidityPool_accounts P S create_ata pool_id L tk trust module_state pool pool_authority
     base_mint quote_mint lp_mint base_vault quote_vault =
     rbind (uni_module_account P L trust module_state) (\<lambda>_.
     rbind (init_account P [Lit ''liquidity_pool'', B32 trust, B32 pool_id] AEQI_UNIFUTURES_ID L pool)
       (\<lambda>bump.
     rbind (canonical P (pool_authority_seeds trust pool_id) AEQI_UNIFUTURES_ID pool_authority) (\<lambda>_.
     rbind (mint_account S tk base_mint) (\<lambda>_.
     rbind (mint_account S tk quote_mint) (\<lambda>_.
     rbind (canonical P (lp_mint_seeds trust pool_id) AEQI_UNIFUTURES_ID lp_mint) (\<lambda>_.
     rbind (spl_call (initialize_mint2 S lp_mint 6 pool_authority None tk)) (\<lambda>tk1.
     rbind (spl_call (create_ata base_mint pool_authority base_vault tk1)) (\<lambda>tk2.
     rbind (spl_call (create_ata quote_mint pool_authority quote_vault tk2)) (\<lambda>tk3.
       Inr (bump, tk3))))))))))"

definition uni_create_liquidity_pool :: "pda_sdk \<Rightarrow> 'tk spl \<Rightarrow>
  (pubkey \<Rightarrow> pubkey \<Rightarrow> pubkey \<Rightarrow> 'tk \<Rightarrow> 'tk option) \<Rightarrow> pubkey \<Rightarrow> pubkey \<Rightarrow> pubkey \<Rightarrow> pubkey \<Rightarrow> pubkey \<Rightarrow>
  pubkey \<Rightarrow> pubkey \<Rightarrow> pubkey \<Rightarrow> pubkey \<Rightarrow> bytes32 \<Rightarrow> u16 \<Rightarrow> uni_store \<Rightarrow> 'tk \<Rightarrow> 'tk uni_result" where
  "uni_create_liquidity_pool P S create_ata trust module_state pool pool_authority base_mint
     quote_mint lp_mint base_vault quote_vault pool_id fee_bps L tk =
     rbind (CreateLiquidityPool_accounts P S create_ata pool_id L tk trust module_state pool
              pool_authority base_mint quote_mint lp_mint base_vault quote_vault) (\<lambda>(bump, tk').
     require (base_mint \<noteq> quote_mint) (Prog IdenticalMints)
     (require (fee_bps < 10000) (Prog InvalidFeeBps)
     (Inr (L(pool \<mapsto> PoolA
             \<lparr>pl_trust = trust, pl_pool_id = pool_id, pl_base_mint = base_mint,
              pl_quote_mint = quote_mint, pl_base_vault = base_vault, pl_quote_vault = quote_vault,
              pl_lp_mint = lp_mint, pl_lp_supply = 0, pl_base_reserve = 0, pl_quote_reserve = 0,
              pl_fee_bps = fee_bps, pl_bump = bump\<rparr>), tk',
           [LiquidityPoolCreated trust pool_id base_mint quote_mint lp_mint fee_bps]))))"

text \<open>The accounts of \<open>AddLiquidity\<close> and \<open>RemoveLiquidity\<close>, and those of \<open>SwapExactIn\<close>,
  which has no LP mint and no LP token account: \<open>user\<close> is the provider or the trader.\<close>

record pool_ctx =
  pk_pool :: pubkey
  pk_pool_authority :: pubkey
  pk_base_mint :: pubkey
  pk_quote_mint :: pubkey
  pk_lp_mint :: pubkey
  pk_user_base_ta :: pubkey
  pk_user_quote_ta :: pubkey
  pk_user_lp_ta :: pubkey
  pk_base_vault :: pubkey
  pk_quote_vault :: pubkey
  pk_user :: pubkey

definition pool_account :: "pda_sdk \<Rightarrow> uni_store \<Rightarrow> pubkey \<Rightarrow> UnifuturesError err + LiquidityPool" where
  "pool_account P L pool =
     rbind (load as_pool L pool) (\<lambda>p.
     require (seeds_ok P [Lit ''liquidity_pool'', B32 (pl_trust p), B32 (pl_pool_id p)] (pl_bump p)
         AEQI_UNIFUTURES_ID pool) (Anchor ConstraintSeeds) (Inr p))"

definition pool_token_accounts :: "'tk spl \<Rightarrow> 'tk \<Rightarrow> pool_ctx \<Rightarrow> UnifuturesError err + unit" where
  "pool_token_accounts S tk x =
     rbind (token_account S tk (pk_user_base_ta x) (pk_base_mint x) (Some (pk_user x))) (\<lambda>_.
     rbind (token_account S tk (pk_user_quote_ta x) (pk_quote_mint x) (Some (pk_user x))) (\<lambda>_.
     rbind (token_account S tk (pk_base_vault x) (pk_base_mint x) (Some (pk_pool_authority x))) (\<lambda>_.
     rbind (token_account S tk (pk_quote_vault x) (pk_quote_mint x) (Some (pk_pool_authority x))) (\<lambda>_.
       Inr ()))))"

definition AddLiquidity_accounts :: "pda_sdk \<Rightarrow> 'tk spl \<Rightarrow> uni_store \<Rightarrow> 'tk \<Rightarrow> pool_ctx \<Rightarrow>
  UnifuturesError err + LiquidityPool \<times> mint_data \<times> mint_data" where
  "AddLiquidity_accounts P S L tk x =
     rbind (pool_account P L (pk_pool x)) (\<lambda>p.
     rbind (canonical P (pool_authority_seeds (pl_trust p) (pl_pool_id p)) AEQI_UNIFUTURES_ID
              (pk_pool_authority x)) (\<lambda>_.
     rbind (mint_account S tk (pk_base_mint x)) (\<lambda>bm.
     rbind (mint_account S tk (pk_quote_mint x)) (\<lambda>qm.
     rbind (canonical P (lp_mint_seeds (pl_trust p) (pl_pool_id p)) AEQI_UNIFUTURES_ID (pk_lp_mint x))
       (\<lambda>_.
     rbind (mint_account S tk (pk_lp_mint x)) (\<lambda>_.
     rbind (pool_token_accounts S tk x) (\<lambda>_.
     rbind (token_account S tk (pk_user_lp_ta x) (pk_lp_mint x) (Some (pk_user x))) (\<lambda>_.
       Inr (p, bm, qm)))))))))"

definition require_pool_mints :: "LiquidityPool \<Rightarrow> pool_ctx \<Rightarrow> UnifuturesError err + 'a \<Rightarrow>
  UnifuturesError err + 'a" where
  "require_pool_mints p x k =
     require (pk_base_mint x = pl_base_mint p) (Prog PoolMintMismatch)
     (require (pk_quote_mint x = pl_quote_mint p) (Prog PoolMintMismatch) k)"

definition uni_add_liquidity :: "pda_sdk \<Rightarrow> 'tk spl \<Rightarrow> pool_ctx \<Rightarrow> u64 \<Rightarrow> u64 \<Rightarrow> u64 \<Rightarrow> uni_store \<Rightarrow>
  'tk \<Rightarrow> 'tk uni_result" where
  "uni_add_liquidity P S x base_amount quote_amount min_lp_out L tk =
     rbind (AddLiquidity_accounts P S L tk x) (\<lambda>(p, bm, qm).
     require (base_amount > 0) (Prog ZeroAmount)
     (require (quote_amount > 0) (Prog ZeroAmount)
     (require_pool_mints p x
     (require (pk_lp_mint x = pl_lp_mint p) (Prog PoolMintMismatch)
     (rbind (if pl_lp_supply p = 0
             then ok_or (quote_initial_liquidity base_amount quote_amount)
                    (Prog InsufficientInitialLiquidity)
             else ok_or (quote_add_liquidity base_amount quote_amount (pl_base_reserve p)
                    (pl_quote_reserve p) (pl_lp_supply p)) (Prog InsufficientLiquidity)) (\<lambda>quote.
     require (lq_lp_out quote \<ge> min_lp_out) (Prog SlippageExceeded)
     (rbind (spl_call (transfer_checked S (pk_user_base_ta x) (pk_base_mint x) (pk_base_vault x)
               (pk_user x) (lq_base_used quote) (mi_decimals bm) tk)) (\<lambda>tk1.
     rbind (spl_call (transfer_checked S (pk_user_quote_ta x) (pk_quote_mint x) (pk_quote_vault x)
               (pk_user x) (lq_quote_used quote) (mi_decimals qm) tk1)) (\<lambda>tk2.
     rbind (spl_call (mint_to S (pk_lp_mint x) (pk_user_lp_ta x) (pk_pool_authority x)
               (lq_lp_out quote) tk2)) (\<lambda>tk3.
     rbind (ok_or (checked_add (pl_base_reserve p) (lq_base_used quote)) (Prog MathOverflow)) (\<lambda>base'.
     rbind (ok_or (checked_add (pl_quote_reserve p) (lq_quote_used quote)) (Prog MathOverflow)) (\<lambda>quote'.
     rbind (ok_or (checked_add (pl_lp_supply p) (lq_lp_out quote)) (Prog MathOverflow)) (\<lambda>lp'.
       Inr (L(pk_pool x \<mapsto> PoolA (p\<lparr>pl_base_reserve := base', pl_quote_reserve := quote',
                pl_lp_supply := lp'\<rparr>)), tk3,
            [LiquidityAdded (pl_trust p) (pl_pool_id p) (pk_user x) (lq_base_used quote)
               (lq_quote_used quote) (lq_lp_out quote)])))))))))))))) "

definition uni_remove_liquidity :: "pda_sdk \<Rightarrow> 'tk spl \<Rightarrow> pool_ctx \<Rightarrow> u64 \<Rightarrow> u64 \<Rightarrow> u64 \<Rightarrow> uni_store \<Rightarrow>
  'tk \<Rightarrow> 'tk uni_result" where
  "uni_remove_liquidity P S x lp_amount min_base_out min_quote_out L tk =
     rbind (AddLiquidity_accounts P S L tk x) (\<lambda>(p, bm, qm).
     require (lp_amount > 0) (Prog ZeroAmount)
     (require_pool_mints p x
     (require (pk_lp_mint x = pl_lp_mint p) (Prog PoolMintMismatch)
     (rbind (ok_or (quote_remove_liquidity lp_amount (pl_base_reserve p) (pl_quote_reserve p)
               (pl_lp_supply p)) (Prog InsufficientLiquidity)) (\<lambda>(base_out, quote_out).
     require (base_out \<ge> min_base_out) (Prog SlippageExceeded)
     (require (quote_out \<ge> min_quote_out) (Prog SlippageExceeded)
     (rbind (spl_call (burn S (pk_lp_mint x) (pk_user_lp_ta x) (pk_user x) lp_amount tk)) (\<lambda>tk1.
     rbind (spl_call (transfer_checked S (pk_base_vault x) (pk_base_mint x) (pk_user_base_ta x)
               (pk_pool_authority x) base_out (mi_decimals bm) tk1)) (\<lambda>tk2.
     rbind (spl_call (transfer_checked S (pk_quote_vault x) (pk_quote_mint x) (pk_user_quote_ta x)
               (pk_pool_authority x) quote_out (mi_decimals qm) tk2)) (\<lambda>tk3.
     rbind (ok_or (checked_sub (pl_base_reserve p) base_out) (Prog InsufficientLiquidity)) (\<lambda>base'.
     rbind (ok_or (checked_sub (pl_quote_reserve p) quote_out) (Prog InsufficientLiquidity)) (\<lambda>quote'.
     rbind (ok_or (checked_sub (pl_lp_supply p) lp_amount) (Prog InsufficientLiquidity)) (\<lambda>lp'.
       Inr (L(pk_pool x \<mapsto> PoolA (p\<lparr>pl_base_reserve := base', pl_quote_reserve := quote',
                pl_lp_supply := lp'\<rparr>)), tk3,
            [LiquidityRemoved (pl_trust p) (pl_pool_id p) (pk_user x) lp_amount base_out
               quote_out])))))))))))))) "

definition SwapExactIn_accounts :: "pda_sdk \<Rightarrow> 'tk spl \<Rightarrow> uni_store \<Rightarrow> 'tk \<Rightarrow> pool_ctx \<Rightarrow>
  UnifuturesError err + LiquidityPool \<times> mint_data \<times> mint_data" where
  "SwapExactIn_accounts P S L tk x =
     rbind (pool_account P L (pk_pool x)) (\<lambda>p.
     rbind (canonical P (pool_authority_seeds (pl_trust p) (pl_pool_id p)) AEQI_UNIFUTURES_ID
              (pk_pool_authority x)) (\<lambda>_.
     rbind (mint_account S tk (pk_base_mint x)) (\<lambda>bm.
     rbind (mint_account S tk (pk_quote_mint x)) (\<lambda>qm.
     rbind (pool_token_accounts S tk x) (\<lambda>_. Inr (p, bm, qm))))))"

definition uni_swap_exact_in :: "pda_sdk \<Rightarrow> 'tk spl \<Rightarrow> pool_ctx \<Rightarrow> u8 \<Rightarrow> u64 \<Rightarrow> u64 \<Rightarrow> uni_store \<Rightarrow>
  'tk \<Rightarrow> 'tk uni_result" where
  "uni_swap_exact_in P S x direction amount_in min_out L tk =
     rbind (SwapExactIn_accounts P S L tk x) (\<lambda>(p, bm, qm).
     require (amount_in > 0) (Prog ZeroAmount)
     (rbind (ok_or (swap_direction_from_u8 direction) (Prog InvalidSwapDirection)) (\<lambda>dir.
     require_pool_mints p x
     (rbind (ok_or (case dir of
               BaseToQuote \<Rightarrow> quote_swap_exact_in (pl_base_reserve p) (pl_quote_reserve p) amount_in (pl_fee_bps p)
             | QuoteToBase \<Rightarrow> quote_swap_exact_in (pl_quote_reserve p) (pl_base_reserve p) amount_in (pl_fee_bps p))
             (Prog InsufficientLiquidity)) (\<lambda>quote.
     require (sq_amount_out quote \<ge> min_out) (Prog SlippageExceeded)
     (rbind (case dir of
         BaseToQuote \<Rightarrow>
           rbind (spl_call (transfer_checked S (pk_user_base_ta x) (pk_base_mint x) (pk_base_vault x)
                    (pk_user x) amount_in (mi_decimals bm) tk)) (\<lambda>tk1.
           rbind (spl_call (transfer_checked S (pk_quote_vault x) (pk_quote_mint x)
                    (pk_user_quote_ta x) (pk_pool_authority x) (sq_amount_out quote) (mi_decimals qm) tk1)) (\<lambda>tk2.
           rbind (ok_or (checked_add (pl_base_reserve p) amount_in) (Prog MathOverflow)) (\<lambda>base'.
           rbind (ok_or (checked_sub (pl_quote_reserve p) (sq_amount_out quote))
                    (Prog InsufficientLiquidity)) (\<lambda>quote'.
             Inr (p\<lparr>pl_base_reserve := base', pl_quote_reserve := quote'\<rparr>, tk2)))))
       | QuoteToBase \<Rightarrow>
           rbind (spl_call (transfer_checked S (pk_user_quote_ta x) (pk_quote_mint x)
                    (pk_quote_vault x) (pk_user x) amount_in (mi_decimals qm) tk)) (\<lambda>tk1.
           rbind (spl_call (transfer_checked S (pk_base_vault x) (pk_base_mint x)
                    (pk_user_base_ta x) (pk_pool_authority x) (sq_amount_out quote) (mi_decimals bm) tk1)) (\<lambda>tk2.
           rbind (ok_or (checked_add (pl_quote_reserve p) amount_in) (Prog MathOverflow)) (\<lambda>quote'.
           rbind (ok_or (checked_sub (pl_base_reserve p) (sq_amount_out quote))
                    (Prog InsufficientLiquidity)) (\<lambda>base'.
             Inr (p\<lparr>pl_quote_reserve := quote', pl_base_reserve := base'\<rparr>, tk2)))))) (\<lambda>(p', tk').
       Inr (L(pk_pool x \<mapsto> PoolA p'), tk',
            [SwapExecuted (pl_trust p) (pl_pool_id p) (pk_user x) direction amount_in
               (sq_amount_out quote) (sq_fee_amount quote)])))))))) "

section \<open>Commitment sales\<close>

definition CreateCommitmentSale_accounts :: "pda_sdk \<Rightarrow> bytes32 \<Rightarrow> uni_store \<Rightarrow> pubkey \<Rightarrow> pubkey \<Rightarrow>
  pubkey \<Rightarrow> UnifuturesError err + UnifuturesModuleState \<times> u8" where
  "CreateCommitmentSale_accounts P sale_id L trust module_state sale =
     rbind (uni_module_account P L trust module_state) (\<lambda>m.
     rbind (init_account P [Lit ''sale'', B32 trust, B32 sale_id] AEQI_UNIFUTURES_ID L sale)
       (\<lambda>bump. Inr (m, bump)))"

definition uni_create_commitment_sale :: "pda_sdk \<Rightarrow> clock \<Rightarrow> pubkey \<Rightarrow> pubkey \<Rightarrow> pubkey \<Rightarrow> pubkey \<Rightarrow>
  bytes32 \<Rightarrow> u64 \<Rightarrow> u64 \<Rightarrow> u64 \<Rightarrow> i64 \<Rightarrow> uni_store \<Rightarrow>
  UnifuturesError err + uni_store \<times> uni_event list" where
  "uni_create_commitment_sale P clk trust module_state sale creator sale_id asset_amount
     target_quote overflow_quote duration_secs L =
     rbind (CreateCommitmentSale_accounts P sale_id L trust module_state sale) (\<lambda>(m, bump).
     require (asset_amount > 0) (Prog ZeroAmount)
     (require (target_quote > 0) (Prog ZeroAmount)
     (require (overflow_quote \<ge> target_quote) (Prog InvalidOverflowTarget)
     (require (0 <s duration_secs) (Prog InvalidDuration)
     (let now = unix_timestamp clk in
     rbind (ok_or (ichecked_add now duration_secs) (Prog MathOverflow)) (\<lambda>end_time.
     rbind (ok_or (checked_add (um_sale_count m) 1) (Prog MathOverflow)) (\<lambda>n.
       Inr (L(module_state \<mapsto> UniModuleA (m\<lparr>um_sale_count := n\<rparr>),
              sale \<mapsto> SaleA
                \<lparr>sl_trust = trust, sl_sale_id = sale_id, sl_creator = creator,
                 sl_asset_amount = asset_amount, sl_target_quote = target_quote,
                 sl_overflow_quote = overflow_quote, sl_proceeds_collected = 0,
                 sl_commitments_collected = 0, sl_status = sale_status_u8 Active,
                 sl_start_time = now, sl_end_time = end_time, sl_bump = bump\<rparr>),
            [SaleCreated trust sale_id creator asset_amount target_quote overflow_quote end_time]))))))))"

definition sale_account :: "pda_sdk \<Rightarrow> uni_store \<Rightarrow> pubkey \<Rightarrow> UnifuturesError err + CommitmentSale" where
  "sale_account P L sale =
     rbind (load as_sale L sale) (\<lambda>s.
     require (seeds_ok P [Lit ''sale'', B32 (sl_trust s), B32 (sl_sale_id s)] (sl_bump s)
         AEQI_UNIFUTURES_ID sale) (Anchor ConstraintSeeds) (Inr s))"

definition sale_authority_seeds :: "CommitmentSale \<Rightarrow> seed list" where
  "sale_authority_seeds s = [Lit ''sale_authority'', B32 (sl_trust s), B32 (sl_sale_id s)]"

definition commitment_seeds :: "CommitmentSale \<Rightarrow> pubkey \<Rightarrow> seed list" where
  "commitment_seeds s buyer = [Lit ''sale_commitment'', B32 (sl_trust s), B32 (sl_sale_id s), B32 buyer]"

definition CommitToSale_accounts :: "pda_sdk \<Rightarrow> 'tk spl \<Rightarrow> uni_store \<Rightarrow> 'tk \<Rightarrow> pubkey \<Rightarrow> pubkey \<Rightarrow>
  pubkey \<Rightarrow> pubkey \<Rightarrow> pubkey \<Rightarrow> pubkey \<Rightarrow> pubkey \<Rightarrow>
  UnifuturesError err + CommitmentSale \<times> mint_data \<times> SaleCommitment \<times> u8" where
  "CommitToSale_accounts P S L tk sale sale_authority quote_mint sale_quote_vault buyer_quote_ta
     commitment buyer =
     rbind (sale_account P L sale) (\<lambda>s.
     rbind (canonical P (sale_authority_seeds s) AEQI_UNIFUTURES_ID sale_authority) (\<lambda>_.
     rbind (mint_account S tk quote_mint) (\<lambda>mi.
     rbind (token_account S tk sale_quote_vault quote_mint (Some sale_authority)) (\<lambda>_.
     rbind (token_account S tk buyer_quote_ta quote_mint (Some buyer)) (\<lambda>_.
     rbind (init_if_needed P (commitment_seeds s buyer) AEQI_UNIFUTURES_ID as_commitment
              zero_commitment L commitment) (\<lambda>(c, bump). Inr (s, mi, c, bump)))))))"

definition uni_commit_to_sale :: "pda_sdk \<Rightarrow> 'tk spl \<Rightarrow> clock \<Rightarrow> pubkey \<Rightarrow> pubkey \<Rightarrow> pubkey \<Rightarrow> pubkey \<Rightarrow>
  pubkey \<Rightarrow> pubkey \<Rightarrow> pubkey \<Rightarrow> u64 \<Rightarrow> uni_store \<Rightarrow> 'tk \<Rightarrow> 'tk uni_result" where
  "uni_commit_to_sale P S clk sale sale_authority quote_mint sale_quote_vault buyer_quote_ta
     commitment buyer amount L tk =
     rbind (CommitToSale_accounts P S L tk sale sale_authority quote_mint sale_quote_vault
              buyer_quote_ta commitment buyer) (\<lambda>(s, mi, c, bump).
     require (amount > 0) (Prog ZeroAmount)
     (require (sl_status s = sale_status_u8 Active) (Prog SaleNotActive)
     (require (unix_timestamp clk <s sl_end_time s) (Prog SaleClosed)
     (rbind (ok_or (checked_add (sl_proceeds_collected s) amount) (Prog MathOverflow)) (\<lambda>proceeds.
     require (proceeds \<le> sl_overflow_quote s) (Prog OverflowExceeded)
     (rbind (spl_call (transfer_checked S buyer_quote_ta quote_mint sale_quote_vault buyer amount
               (mi_decimals mi) tk)) (\<lambda>tk'.
     rbind (ok_or (checked_add (sc_amount c) amount) (Prog MathOverflow)) (\<lambda>committed.
     rbind (ok_or (checked_add (sl_commitments_collected s) amount) (Prog MathOverflow)) (\<lambda>commitments.
       Inr (L(commitment \<mapsto> CommitmentA \<lparr>sc_trust = sl_trust s, sc_sale_id = sl_sale_id s,
                sc_buyer = buyer, sc_amount = committed, sc_bump = bump\<rparr>,
              sale \<mapsto> SaleA (s\<lparr>sl_proceeds_collected := proceeds,
                sl_commitments_collected := commitments\<rparr>)), tk',
            [SaleCommitted (sl_trust s) (sl_sale_id s) buyer amount committed]))))))))))"

definition uni_finalize_sale :: "pda_sdk \<Rightarrow> clock \<Rightarrow> pubkey \<Rightarrow> pubkey \<Rightarrow> uni_store \<Rightarrow>
  UnifuturesError err + uni_store \<times> uni_event list" where
  "uni_finalize_sale P clk sale signer L =
     rbind (sale_account P L sale) (\<lambda>s.
     require (sl_status s = sale_status_u8 Active) (Prog SaleNotActive)
     (let now = unix_timestamp clk;
          voluntary = (signer = sl_creator s \<and> sl_proceeds_collected s \<ge> sl_target_quote s);
          elapsed = (sl_end_time s \<le>s now) in
      require (voluntary \<or> elapsed) (Prog CannotFinalizeYet)
      (Inr (L(sale \<mapsto> SaleA (s\<lparr>sl_status := sale_status_u8 Completed\<rparr>)),
            [SaleFinalized (sl_trust s) (sl_sale_id s) (sl_proceeds_collected s)
               (sl_commitments_collected s) now]))))"

definition ClaimAllocation_accounts :: "pda_sdk \<Rightarrow> 'tk spl \<Rightarrow> uni_store \<Rightarrow> 'tk \<Rightarrow> pubkey \<Rightarrow> pubkey \<Rightarrow>
  pubkey \<Rightarrow> pubkey \<Rightarrow> pubkey \<Rightarrow> pubkey \<Rightarrow> pubkey \<Rightarrow>
  UnifuturesError err + CommitmentSale \<times> mint_data \<times> SaleCommitment" where
  "ClaimAllocation_accounts P S L tk sale sale_authority asset_mint sale_asset_vault commitment
     buyer_asset_ta buyer =
     rbind (sale_account P L sale) (\<lambda>s.
     rbind (canonical P (sale_authority_seeds s) AEQI_UNIFUTURES_ID sale_authority) (\<lambda>_.
     rbind (mint_account S tk asset_mint) (\<lambda>mi.
     rbind (token_account S tk sale_asset_vault asset_mint (Some sale_authority)) (\<lambda>_.
     rbind (load as_commitment L commitment) (\<lambda>c.
     require (seeds_ok P (commitment_seeds s buyer) (sc_bump c) AEQI_UNIFUTURES_ID commitment)
       (Anchor ConstraintSeeds)
     (rbind (token_account S tk buyer_asset_ta asset_mint None) (\<lambda>_. Inr (s, mi, c))))))))"

definition uni_claim_allocation :: "pda_sdk \<Rightarrow> 'tk spl \<Rightarrow> pubkey \<Rightarrow> pubkey \<Rightarrow> pubkey \<Rightarrow> pubkey \<Rightarrow>
  pubkey \<Rightarrow> pubkey \<Rightarrow> pubkey \<Rightarrow> uni_store \<Rightarrow> 'tk \<Rightarrow> 'tk uni_result" where
  "uni_claim_allocation P S sale sale_authority asset_mint sale_asset_vault commitment buyer_asset_ta
     buyer L tk =
     rbind (ClaimAllocation_accounts P S L tk sale sale_authority asset_mint sale_asset_vault
              commitment buyer_asset_ta buyer) (\<lambda>(s, mi, c).
     require (sl_status s = sale_status_u8 Completed) (Prog SaleNotCompleted)
     (require (sc_buyer c = buyer) (Prog Unauthorized)
     (require (sc_amount c > 0) (Prog AlreadyClaimed)
     (rbind (ok_or (mul_div (sc_amount c) (sl_asset_amount s) (sl_commitments_collected s))
               (Prog MathOverflow)) (\<lambda>allocation.
     require (allocation > 0) (Prog ShareTooSmall)
     (rbind (spl_call (transfer_checked S sale_asset_vault asset_mint buyer_asset_ta sale_authority
               allocation (mi_decimals mi) tk)) (\<lambda>tk'.
       Inr (L(commitment \<mapsto> CommitmentA (c\<lparr>sc_amount := 0\<rparr>)), tk',
            [AllocationClaimed (sl_trust s) (sl_sale_id s) (sc_buyer c) allocation])))))))) "

section \<open>Exits\<close>

definition CreateExit_accounts :: "pda_sdk \<Rightarrow> 'tk spl \<Rightarrow> bytes32 \<Rightarrow> uni_store \<Rightarrow> 'tk \<Rightarrow> pubkey \<Rightarrow>
  pubkey \<Rightarrow> pubkey \<Rightarrow> pubkey \<Rightarrow> UnifuturesError err + UnifuturesModuleState \<times> u8 \<times> mint_data" where
  "CreateExit_accounts P S exit_id L tk trust module_state ex asset_mint =
     rbind (uni_module_account P L trust module_state) (\<lambda>m.
     rbind (init_account P [Lit ''exit'', B32 trust, B32 exit_id] AEQI_UNIFUTURES_ID L ex) (\<lambda>bump.
     rbind (mint_account S tk asset_mint) (\<lambda>mi. Inr (m, bump, mi))))"

definition uni_create_exit :: "pda_sdk \<Rightarrow> 'tk spl \<Rightarrow> clock \<Rightarrow> pubkey \<Rightarrow> pubkey \<Rightarrow> pubkey \<Rightarrow> pubkey \<Rightarrow>
  pubkey \<Rightarrow> bytes32 \<Rightarrow> u64 \<Rightarrow> u64 \<Rightarrow> i64 \<Rightarrow> uni_store \<Rightarrow> 'tk \<Rightarrow>
  UnifuturesError err + uni_store \<times> uni_event list" where
  "uni_create_exit P S clk trust module_state ex asset_mint creator exit_id exit_quote
     total_supply_snapshot duration_secs L tk =
     rbind (CreateExit_accounts P S exit_id L tk trust module_state ex asset_mint) (\<lambda>(m, bump, mi).
     require (exit_quote > 0) (Prog ZeroAmount)
     (require (total_supply_snapshot > 0) (Prog ZeroAmount)
     (require (0 <s duration_secs) (Prog InvalidDuration)
     (require (total_supply_snapshot = mi_supply mi) (Prog SupplySnapshotMismatch)
     (let now = unix_timestamp clk in
     rbind (ok_or (ichecked_add now duration_secs) (Prog MathOverflow)) (\<lambda>end_time.
     rbind (ok_or (checked_add (um_exit_count m) 1) (Prog MathOverflow)) (\<lambda>n.
       Inr (L(module_state \<mapsto> UniModuleA (m\<lparr>um_exit_count := n\<rparr>),
              ex \<mapsto> ExitA
                \<lparr>ex_trust = trust, ex_exit_id = exit_id, ex_creator = creator,
                 ex_asset_mint = asset_mint, ex_exit_quote = exit_quote,
                 ex_total_supply_snapshot = total_supply_snapshot, ex_proceeds_collected = 0,
                 ex_remaining_proceeds = exit_quote, ex_status = sale_status_u8 Active,
                 ex_start_time = now, ex_end_time = end_time, ex_bump = bump\<rparr>),
            [ExitCreated trust exit_id creator asset_mint exit_quote total_supply_snapshot
               end_time]))))))))"

definition exit_account :: "pda_sdk \<Rightarrow> uni_store \<Rightarrow> pubkey \<Rightarrow> UnifuturesError err + Exit" where
  "exit_account P L ex =
     rbind (load as_exit L ex) (\<lambda>e.
     require (seeds_ok P [Lit ''exit'', B32 (ex_trust e), B32 (ex_exit_id e)] (ex_bump e)
         AEQI_UNIFUTURES_ID ex) (Anchor ConstraintSeeds) (Inr e))"

definition exit_authority_seeds :: "Exit \<Rightarrow> seed list" where
  "exit_authority_seeds e = [Lit ''exit_authority'', B32 (ex_trust e), B32 (ex_exit_id e)]"

definition SettleExit_accounts :: "pda_sdk \<Rightarrow> 'tk spl \<Rightarrow> uni_store \<Rightarrow> 'tk \<Rightarrow> pubkey \<Rightarrow> pubkey \<Rightarrow>
  pubkey \<Rightarrow> pubkey \<Rightarrow> pubkey \<Rightarrow> pubkey \<Rightarrow> UnifuturesError err + Exit \<times> mint_data" where
  "SettleExit_accounts P S L tk ex exit_authority quote_mint exit_quote_vault creator_quote_ta
     creator =
     rbind (exit_account P L ex) (\<lambda>e.
     rbind (canonical P (exit_authority_seeds e) AEQI_UNIFUTURES_ID exit_authority) (\<lambda>_.
     rbind (mint_account S tk quote_mint) (\<lambda>mi.
     rbind (token_account S tk exit_quote_vault quote_mint (Some exit_authority)) (\<lambda>_.
     rbind (token_account S tk creator_quote_ta quote_mint (Some creator)) (\<lambda>_. Inr (e, mi))))))"

definition uni_settle_exit :: "pda_sdk \<Rightarrow> 'tk spl \<Rightarrow> pubkey \<Rightarrow> pubkey \<Rightarrow> pubkey \<Rightarrow> pubkey \<Rightarrow> pubkey \<Rightarrow>
  pubkey \<Rightarrow> uni_store \<Rightarrow> 'tk \<Rightarrow> 'tk uni_result" where
  "uni_settle_exit P S ex exit_authority quote_mint exit_quote_vault creator_quote_ta creator L tk =
     rbind (SettleExit_accounts P S L tk ex exit_authority quote_mint exit_quote_vault
              creator_quote_ta creator) (\<lambda>(e, mi).
     require (ex_status e = sale_status_u8 Active) (Prog SaleNotActive)
     (require (creator = ex_creator e) (Prog Unauthorized)
     (require (ex_proceeds_collected e = 0) (Prog AlreadySettled)
     (rbind (spl_call (transfer_checked S creator_quote_ta quote_mint exit_quote_vault creator
               (ex_exit_quote e) (mi_decimals mi) tk)) (\<lambda>tk'.
       Inr (L(ex \<mapsto> ExitA (e\<lparr>ex_proceeds_collected := ex_exit_quote e\<rparr>)), tk',
            [ExitSettled (ex_trust e) (ex_exit_id e) (ex_creator e) (ex_exit_quote e)]))))))"

definition ClaimProRata_accounts :: "pda_sdk \<Rightarrow> 'tk spl \<Rightarrow> uni_store \<Rightarrow> 'tk \<Rightarrow> pubkey \<Rightarrow> pubkey \<Rightarrow>
  pubkey \<Rightarrow> pubkey \<Rightarrow> pubkey \<Rightarrow> pubkey \<Rightarrow> pubkey \<Rightarrow> pubkey \<Rightarrow> UnifuturesError err + Exit \<times> mint_data" where
  "ClaimProRata_accounts P S L tk ex exit_authority asset_mint quote_mint exit_quote_vault
     holder_asset_ta holder_quote_ta holder =
     rbind (exit_account P L ex) (\<lambda>e.
     rbind (canonical P (exit_authority_seeds e) AEQI_UNIFUTURES_ID exit_authority) (\<lambda>_.
     rbind (mint_account S tk asset_mint) (\<lambda>_.
     require (asset_mint = ex_asset_mint e) (Prog AssetMintMismatch)
     (rbind (mint_account S tk quote_mint) (\<lambda>mi.
     rbind (token_account S tk exit_quote_vault quote_mint (Some exit_authority)) (\<lambda>_.
     rbind (token_account S tk holder_asset_ta asset_mint (Some holder)) (\<lambda>_.
     rbind (token_account S tk holder_quote_ta quote_mint None) (\<lambda>_. Inr (e, mi)))))))))"

definition uni_claim_pro_rata :: "pda_sdk \<Rightarrow> 'tk spl \<Rightarrow> pubkey \<Rightarrow> pubkey \<Rightarrow> pubkey \<Rightarrow> pubkey \<Rightarrow> pubkey \<Rightarrow>
  pubkey \<Rightarrow> pubkey \<Rightarrow> pubkey \<Rightarrow> u64 \<Rightarrow> uni_store \<Rightarrow> 'tk \<Rightarrow> 'tk uni_result" where
  "uni_claim_pro_rata P S ex exit_authority asset_mint quote_mint exit_quote_vault holder_asset_ta
     holder_quote_ta holder burn_amount L tk =
     rbind (ClaimProRata_accounts P S L tk ex exit_authority asset_mint quote_mint exit_quote_vault
              holder_asset_ta holder_quote_ta holder) (\<lambda>(e, mi).
     require (burn_amount > 0) (Prog ZeroAmount)
     (require (ex_proceeds_collected e > 0) (Prog NotSettled)
     (require (ex_status e = sale_status_u8 Active) (Prog SaleNotActive)
     (require (asset_mint = ex_asset_mint e) (Prog AssetMintMismatch)
     (rbind (ok_or (mul_div burn_amount (ex_exit_quote e) (ex_total_supply_snapshot e))
               (Prog MathOverflow)) (\<lambda>share.
     require (share > 0) (Prog ShareTooSmall)
     (require (share \<le> ex_remaining_proceeds e) (Prog InsufficientReserve)
     (rbind (spl_call (burn S asset_mint holder_asset_ta holder burn_amount tk)) (\<lambda>tk1.
     rbind (spl_call (transfer_checked S exit_quote_vault quote_mint holder_quote_ta exit_authority
               share (mi_decimals mi) tk1)) (\<lambda>tk2.
     rbind (ok_or (checked_sub (ex_remaining_proceeds e) share) (Prog MathOverflow)) (\<lambda>remaining.
       Inr (L(ex \<mapsto> ExitA (e\<lparr>ex_remaining_proceeds := remaining\<rparr>)), tk2,
            [ProRataClaimed (ex_trust e) (ex_exit_id e) holder burn_amount share]))))))))))))"

section \<open>What a successful instruction did\<close>

lemma as_uni_acct [res]:
  "as_uni_module a = Some m \<longleftrightarrow> a = UniModuleA m"
  "as_pool a = Some p \<longleftrightarrow> a = PoolA p"
  "as_sale a = Some s \<longleftrightarrow> a = SaleA s"
  "as_commitment a = Some c \<longleftrightarrow> a = CommitmentA c"
  "as_exit a = Some e \<longleftrightarrow> a = ExitA e"
  "as_curve a = Some v \<longleftrightarrow> a = CurveA v"
  by (cases a; simp)+

lemmas uni_accounts_defs = InitUnifutures_accounts_def uni_module_account_def CreateCurve_accounts_def
  curve_accounts_def BuyFromCurve_accounts_def SellToCurve_accounts_def
  CreateLiquidityPool_accounts_def pool_account_def pool_token_accounts_def AddLiquidity_accounts_def
  SwapExactIn_accounts_def CreateCommitmentSale_accounts_def sale_account_def
  CommitToSale_accounts_def ClaimAllocation_accounts_def CreateExit_accounts_def exit_account_def
  SettleExit_accounts_def ClaimProRata_accounts_def

lemmas run_Inr = rbind.simps prod.case rbind_Inr require_Inr ok_or_Inr spl_call_Inr sum.inject prod.inject

lemma require_pool_mints_Inr [res]:
  "require_pool_mints p x k = Inr r \<longleftrightarrow> pk_base_mint x = pl_base_mint p \<and>
     pk_quote_mint x = pl_quote_mint p \<and> k = Inr r"
  by (auto simp: require_pool_mints_def res)

lemma uni_init_ok:
  "uni_init P TL trust ms payer L = Inr (L', ev) \<Longrightarrow>
   \<exists>t m. TL trust = Some (TrustA t) \<and> t_creation_mode t \<and> payer = t_authority t \<and>
     L ms = None \<and> L' = L(ms \<mapsto> UniModuleA m)"
  by (auto simp: uni_init_def uni_accounts_defs res)

lemma uni_create_curve_ok:
  assumes "uni_create_curve P S trust ms ck am qm cr cid ct sp ep mx rr L tk = Inr (L', ev)"
  obtains m n c where "L ms = Some (UniModuleA m)" "L ck = None" "cv_current_supply c = 0"
    "cv_reserve_balance c = 0" "cv_proceeds_collected c = 0" "cv_reserve_ratio_ppm c \<le> 1000000"
    "cv_asset_mint c \<noteq> cv_quote_mint c"
    "L' = L(ms \<mapsto> UniModuleA (m\<lparr>um_curve_count := n\<rparr>), ck \<mapsto> CurveA c)"
proof -
  from assms show thesis
    by (simp add: uni_create_curve_def uni_accounts_defs res)
      (elim exE conjE, rule that [rotated -1], erule sym, simp_all)
qed

lemma uni_create_pool_ok:
  assumes "uni_create_liquidity_pool P S ata trust ms pk pa bm qm lm bv qv pid fee L tk = Inr (L', tk', ev)"
  obtains p where "L pk = None" "pl_lp_supply p = 0" "pl_base_reserve p = 0" "pl_quote_reserve p = 0"
    "pl_fee_bps p < 10000" "pl_base_mint p \<noteq> pl_quote_mint p" "L' = L(pk \<mapsto> PoolA p)"
proof -
  from assms show thesis
    by (simp add: uni_create_liquidity_pool_def uni_accounts_defs res)
      (elim exE conjE, rule that [rotated -1], erule sym, simp_all)
qed

lemma uni_create_sale_ok:
  assumes "uni_create_commitment_sale P clk trust ms sk cr sid amt tq oq dur L = Inr (L', ev)"
  obtains m n s where "L ms = Some (UniModuleA m)" "L sk = None" "sl_proceeds_collected s = 0"
    "sl_commitments_collected s = 0" "sl_status s = 0"
    "L' = L(ms \<mapsto> UniModuleA (m\<lparr>um_sale_count := n\<rparr>), sk \<mapsto> SaleA s)"
proof -
  from assms show thesis
    by (simp add: uni_create_commitment_sale_def uni_accounts_defs res Let_def)
      (elim exE conjE, rule that [rotated -1], erule sym, simp_all)
qed

lemma uni_create_exit_ok:
  assumes "uni_create_exit P S clk trust ms ek am cr eid q snap dur L tk = Inr (L', ev)"
  obtains m n e where "L ms = Some (UniModuleA m)" "L ek = None" "ex_proceeds_collected e = 0"
    "ex_remaining_proceeds e = ex_exit_quote e" "ex_asset_mint e = am"
    "unat (ex_total_supply_snapshot e) = supply_of S tk am"
    "L' = L(ms \<mapsto> UniModuleA (m\<lparr>um_exit_count := n\<rparr>), ek \<mapsto> ExitA e)"
proof -
  from assms show thesis
    by (simp add: uni_create_exit_def uni_accounts_defs res Let_def)
      (elim exE conjE, rule that [rotated -1], erule sym, simp_all add: supply_of_def)
qed

lemma uni_buy_ok:
  assumes "uni_buy_from_curve P S x n mxc L tk = Inr (L', tk', ev)"
  obtains c ct cost d d' tk1 sup reserve proceeds where "L (ck_curve x) = Some (CurveA c)"
    "curve_type_from_u8 (cv_curve_type c) = Some ct" "0 < n" "cost \<le> mxc"
    "ck_asset_mint x = cv_asset_mint c" "ck_quote_mint x = cv_quote_mint c"
    "unat sup = unat (cv_current_supply c) + unat n" "sup \<le> cv_max_supply c"
    "purchase_cost ct (cv_start_price c) (cv_end_price c) (ucast (cv_max_supply c))
       (ucast (cv_current_supply c)) (ucast n) = Some (ucast cost)"
    "transfer_checked S (ck_user_quote_ta x) (ck_quote_mint x) (ck_curve_quote_vault x) (ck_user x)
       cost d tk = Some tk1"
    "transfer_checked S (ck_curve_asset_vault x) (ck_asset_mint x) (ck_user_asset_ta x)
       (ck_curve_authority x) n d' tk1 = Some tk'"
    "unat reserve = unat (cv_reserve_balance c) + unat cost"
    "unat proceeds = unat (cv_proceeds_collected c) + unat cost"
    "L' = L(ck_curve x \<mapsto> CurveA (c\<lparr>cv_current_supply := sup, cv_reserve_balance := reserve,
       cv_proceeds_collected := proceeds\<rparr>))"
proof -
  from assms obtain c am qm where acc: "BuyFromCurve_accounts P S L tk x = Inr (c, am, qm)"
    by (auto simp: uni_buy_from_curve_def res)
  then have a: "L (ck_curve x) = Some (CurveA c)" by (auto simp: uni_accounts_defs res)
  from assms [unfolded uni_buy_from_curve_def acc run_Inr] obtain ct sup w cost tk1 reserve proceeds where
    p: "0 < n" "curve_type_from_u8 (cv_curve_type c) = Some ct" "ck_asset_mint x = cv_asset_mint c"
      "ck_quote_mint x = cv_quote_mint c" "checked_add (cv_current_supply c) n = Some sup"
      "sup \<le> cv_max_supply c"
      "purchase_cost ct (cv_start_price c) (cv_end_price c) (ucast (cv_max_supply c))
         (ucast (cv_current_supply c)) (ucast n) = Some w" "try_into w = Some cost" "cost \<le> mxc"
      "transfer_checked S (ck_user_quote_ta x) (ck_quote_mint x) (ck_curve_quote_vault x) (ck_user x)
         cost (mi_decimals qm) tk = Some tk1"
      "transfer_checked S (ck_curve_asset_vault x) (ck_asset_mint x) (ck_user_asset_ta x)
         (ck_curve_authority x) n (mi_decimals am) tk1 = Some tk'"
      "checked_add (cv_reserve_balance c) (ucast cost) = Some reserve"
      "checked_add (cv_proceeds_collected c) (ucast cost) = Some proceeds"
      "L' = L(ck_curve x \<mapsto> CurveA (c\<lparr>cv_current_supply := sup, cv_reserve_balance := reserve,
         cv_proceeds_collected := proceeds\<rparr>))"
    by blast
  have "w = ucast cost" using p(8) by (simp add: try_into_Some word_unat_eq_iff)
  with p a show thesis
    by (intro that [OF a p(2,1,9,3,4) _ p(6) _ p(10,11) _ _ p(14)])
      (simp_all add: checked_add_Some)
qed

lemma uni_sell_ok:
  assumes "uni_sell_to_curve P S x n mn L tk = Inr (L', tk', ev)"
  obtains c ct ret d d' tk1 sup reserve where "L (ck_curve x) = Some (CurveA c)"
    "curve_type_from_u8 (cv_curve_type c) = Some ct" "0 < n" "mn \<le> ret"
    "ck_asset_mint x = cv_asset_mint c" "ck_quote_mint x = cv_quote_mint c"
    "unat (cv_current_supply c) = unat sup + unat n"
    "sale_return ct (cv_start_price c) (cv_end_price c) (ucast (cv_max_supply c))
       (ucast (cv_current_supply c)) (ucast n) (cv_reserve_ratio_ppm c) = Some (ucast ret)"
    "transfer_checked S (ck_user_asset_ta x) (ck_asset_mint x) (ck_curve_asset_vault x) (ck_user x)
       n d tk = Some tk1"
    "transfer_checked S (ck_curve_quote_vault x) (ck_quote_mint x) (ck_user_quote_ta x)
       (ck_curve_authority x) ret d' tk1 = Some tk'"
    "unat (cv_reserve_balance c) = unat reserve + unat ret"
    "L' = L(ck_curve x \<mapsto> CurveA (c\<lparr>cv_current_supply := sup, cv_reserve_balance := reserve\<rparr>))"
proof -
  from assms obtain c am qm where acc: "SellToCurve_accounts P S L tk x = Inr (c, am, qm)"
    by (auto simp: uni_sell_to_curve_def res)
  then have a: "L (ck_curve x) = Some (CurveA c)" by (auto simp: uni_accounts_defs res)
  from assms [unfolded uni_sell_to_curve_def acc run_Inr] obtain ct w ret tk1 sup reserve where
    p: "0 < n" "curve_type_from_u8 (cv_curve_type c) = Some ct" "ck_asset_mint x = cv_asset_mint c"
      "ck_quote_mint x = cv_quote_mint c"
      "sale_return ct (cv_start_price c) (cv_end_price c) (ucast (cv_max_supply c))
         (ucast (cv_current_supply c)) (ucast n) (cv_reserve_ratio_ppm c) = Some w"
      "try_into w = Some ret" "mn \<le> ret"
      "transfer_checked S (ck_user_asset_ta x) (ck_asset_mint x) (ck_curve_asset_vault x) (ck_user x)
         n (mi_decimals am) tk = Some tk1"
      "transfer_checked S (ck_curve_quote_vault x) (ck_quote_mint x) (ck_user_quote_ta x)
         (ck_curve_authority x) ret (mi_decimals qm) tk1 = Some tk'"
      "checked_sub (cv_current_supply c) n = Some sup"
      "checked_sub (cv_reserve_balance c) (ucast ret) = Some reserve"
      "L' = L(ck_curve x \<mapsto> CurveA (c\<lparr>cv_current_supply := sup, cv_reserve_balance := reserve\<rparr>))"
    by blast
  have "w = ucast ret" using p(6) by (simp add: try_into_Some word_unat_eq_iff)
  with p a show thesis
    by (intro that [OF a p(2,1,7,3,4) _ _ p(8,9) _ p(12)]) (simp_all add: checked_sub_Some)
qed

lemma uni_add_ok:
  assumes "uni_add_liquidity P S x ba qa mn L tk = Inr (L', tk', ev)"
  obtains p q base' quote' lp' where "L (pk_pool x) = Some (PoolA p)"
    "if pl_lp_supply p = 0 then quote_initial_liquidity ba qa = Some q
     else quote_add_liquidity ba qa (pl_base_reserve p) (pl_quote_reserve p) (pl_lp_supply p) = Some q"
    "mn \<le> lq_lp_out q"
    "unat base' = unat (pl_base_reserve p) + unat (lq_base_used q)"
    "unat quote' = unat (pl_quote_reserve p) + unat (lq_quote_used q)"
    "unat lp' = unat (pl_lp_supply p) + unat (lq_lp_out q)"
    "L' = L(pk_pool x \<mapsto> PoolA (p\<lparr>pl_base_reserve := base', pl_quote_reserve := quote',
       pl_lp_supply := lp'\<rparr>))"
proof -
  from assms obtain p bm qm where acc: "AddLiquidity_accounts P S L tk x = Inr (p, bm, qm)"
    by (auto simp: uni_add_liquidity_def res)
  then have a: "L (pk_pool x) = Some (PoolA p)" by (auto simp: uni_accounts_defs res)
  have pick: "(if b then ok_or u d else ok_or v e) = Inr y \<longleftrightarrow> (if b then u = Some y else v = Some y)"
    for b y u v and d e :: "UnifuturesError err" by (auto simp: res)
  from assms [unfolded uni_add_liquidity_def acc run_Inr require_pool_mints_Inr pick]
  obtain q base' quote' lp' where
    p: "if pl_lp_supply p = 0 then quote_initial_liquidity ba qa = Some q
     else quote_add_liquidity ba qa (pl_base_reserve p) (pl_quote_reserve p) (pl_lp_supply p) = Some q"
    "mn \<le> lq_lp_out q"
    "checked_add (pl_base_reserve p) (lq_base_used q) = Some base'"
    "checked_add (pl_quote_reserve p) (lq_quote_used q) = Some quote'"
    "checked_add (pl_lp_supply p) (lq_lp_out q) = Some lp'"
    "L' = L(pk_pool x \<mapsto> PoolA (p\<lparr>pl_base_reserve := base', pl_quote_reserve := quote',
       pl_lp_supply := lp'\<rparr>))" by blast
  then show thesis by (intro that [OF a p(1,2) _ _ _ p(6)]) (simp_all add: checked_add_Some)
qed

lemma uni_remove_ok:
  assumes "uni_remove_liquidity P S x n mb mq L tk = Inr (L', tk', ev)"
  obtains p bo qo base' quote' lp' where "L (pk_pool x) = Some (PoolA p)"
    "quote_remove_liquidity n (pl_base_reserve p) (pl_quote_reserve p) (pl_lp_supply p) = Some (bo, qo)"
    "unat (pl_base_reserve p) = unat base' + unat bo"
    "unat (pl_quote_reserve p) = unat quote' + unat qo"
    "unat (pl_lp_supply p) = unat lp' + unat n"
    "L' = L(pk_pool x \<mapsto> PoolA (p\<lparr>pl_base_reserve := base', pl_quote_reserve := quote',
       pl_lp_supply := lp'\<rparr>))"
proof -
  from assms obtain p bm qm where acc: "AddLiquidity_accounts P S L tk x = Inr (p, bm, qm)"
    by (auto simp: uni_remove_liquidity_def res)
  then have a: "L (pk_pool x) = Some (PoolA p)" by (auto simp: uni_accounts_defs res)
  from assms [unfolded uni_remove_liquidity_def acc run_Inr require_pool_mints_Inr]
  obtain bo qo base' quote' lp' where
    p: "quote_remove_liquidity n (pl_base_reserve p) (pl_quote_reserve p) (pl_lp_supply p) = Some (bo, qo)"
    "checked_sub (pl_base_reserve p) bo = Some base'" "checked_sub (pl_quote_reserve p) qo = Some quote'"
    "checked_sub (pl_lp_supply p) n = Some lp'"
    "L' = L(pk_pool x \<mapsto> PoolA (p\<lparr>pl_base_reserve := base', pl_quote_reserve := quote',
       pl_lp_supply := lp'\<rparr>))"
    by (auto simp: run_Inr split: prod.splits)
  then show thesis by (intro that [OF a p(1) _ _ _ p(5)]) (simp_all add: checked_sub_Some)
qed

lemma uni_swap_ok:
  assumes "uni_swap_exact_in P S x dir ain mn L tk = Inr (L', tk', ev)"
  obtains p p' q where "L (pk_pool x) = Some (PoolA p)" "L' = L(pk_pool x \<mapsto> PoolA p')"
    "pl_lp_supply p' = pl_lp_supply p" "pl_fee_bps p' = pl_fee_bps p" "mn \<le> sq_amount_out q"
    "quote_swap_exact_in (pl_base_reserve p) (pl_quote_reserve p) ain (pl_fee_bps p) = Some q \<and>
       unat (pl_base_reserve p') = unat (pl_base_reserve p) + unat ain \<and>
       unat (pl_quote_reserve p) = unat (pl_quote_reserve p') + unat (sq_amount_out q) \<or>
     quote_swap_exact_in (pl_quote_reserve p) (pl_base_reserve p) ain (pl_fee_bps p) = Some q \<and>
       unat (pl_quote_reserve p') = unat (pl_quote_reserve p) + unat ain \<and>
       unat (pl_base_reserve p) = unat (pl_base_reserve p') + unat (sq_amount_out q)"
proof -
  from assms obtain p bm qm where acc: "SwapExactIn_accounts P S L tk x = Inr (p, bm, qm)"
    by (auto simp: uni_swap_exact_in_def res)
  then have a: "L (pk_pool x) = Some (PoolA p)" by (auto simp: uni_accounts_defs res)
  from assms [unfolded uni_swap_exact_in_def acc run_Inr require_pool_mints_Inr]
  obtain d where d: "swap_direction_from_u8 dir = Some d" by blast
  show thesis
  proof (cases d)
    case BaseToQuote
    with assms [unfolded uni_swap_exact_in_def acc run_Inr require_pool_mints_Inr d]
    obtain q base' quote' where
      p: "quote_swap_exact_in (pl_base_reserve p) (pl_quote_reserve p) ain (pl_fee_bps p) = Some q"
      "mn \<le> sq_amount_out q" "checked_add (pl_base_reserve p) ain = Some base'"
      "checked_sub (pl_quote_reserve p) (sq_amount_out q) = Some quote'"
      "L' = L(pk_pool x \<mapsto> PoolA (p\<lparr>pl_base_reserve := base', pl_quote_reserve := quote'\<rparr>))"
      by (auto simp: run_Inr)
    then show thesis
      by (intro that [OF a p(5) _ _ p(2)]) (simp_all add: checked_sub_Some checked_add_Some)
  next
    case QuoteToBase
    with assms [unfolded uni_swap_exact_in_def acc run_Inr require_pool_mints_Inr d]
    obtain q base' quote' where
      p: "quote_swap_exact_in (pl_quote_reserve p) (pl_base_reserve p) ain (pl_fee_bps p) = Some q"
      "mn \<le> sq_amount_out q" "checked_add (pl_quote_reserve p) ain = Some quote'"
      "checked_sub (pl_base_reserve p) (sq_amount_out q) = Some base'"
      "L' = L(pk_pool x \<mapsto> PoolA (p\<lparr>pl_quote_reserve := quote', pl_base_reserve := base'\<rparr>))"
      by (auto simp: run_Inr)
    then show thesis
      by (intro that [OF a p(5) _ _ p(2)]) (simp_all add: checked_sub_Some checked_add_Some)
  qed
qed

lemma uni_commit_ok:
  assumes "uni_commit_to_sale P S clk sk sa qm vault ta ck buyer n L tk = Inr (L', tk', ev)"
  obtains s c c' proceeds commitments where "L sk = Some (SaleA s)"
    "L ck = None \<and> sc_amount c = 0 \<or> L ck = Some (CommitmentA c)" "sl_status s = 0"
    "unat proceeds = unat (sl_proceeds_collected s) + unat n" "proceeds \<le> sl_overflow_quote s"
    "unat commitments = unat (sl_commitments_collected s) + unat n"
    "sc_buyer c' = buyer" "unat (sc_amount c') = unat (sc_amount c) + unat n"
    "L' = L(ck \<mapsto> CommitmentA c', sk \<mapsto> SaleA (s\<lparr>sl_proceeds_collected := proceeds,
       sl_commitments_collected := commitments\<rparr>))"
proof -
  from assms obtain s mi c bump where
    acc: "CommitToSale_accounts P S L tk sk sa qm vault ta ck buyer = Inr (s, mi, c, bump)"
    by (auto simp: uni_commit_to_sale_def res)
  then have a: "L sk = Some (SaleA s)" "L ck = None \<and> sc_amount c = 0 \<or> L ck = Some (CommitmentA c)"
    by (auto simp: uni_accounts_defs res zero_commitment_def)
  from assms [unfolded uni_commit_to_sale_def acc run_Inr] obtain proceeds committed commitments where
    p: "sl_status s = sale_status_u8 Active" "checked_add (sl_proceeds_collected s) n = Some proceeds"
    "proceeds \<le> sl_overflow_quote s" "checked_add (sc_amount c) n = Some committed"
    "checked_add (sl_commitments_collected s) n = Some commitments"
    "L' = L(ck \<mapsto> CommitmentA \<lparr>sc_trust = sl_trust s, sc_sale_id = sl_sale_id s, sc_buyer = buyer,
       sc_amount = committed, sc_bump = bump\<rparr>,
       sk \<mapsto> SaleA (s\<lparr>sl_proceeds_collected := proceeds, sl_commitments_collected := commitments\<rparr>))"
    by blast
  then show thesis by (intro that [OF a _ _ p(3) _ _ _ p(6)]) (simp_all add: checked_add_Some)
qed

lemma uni_finalize_ok:
  "uni_finalize_sale P clk sk signer L = Inr (L', ev) \<Longrightarrow>
   \<exists>s. L sk = Some (SaleA s) \<and> sl_status s = 0 \<and>
     (signer = sl_creator s \<and> sl_target_quote s \<le> sl_proceeds_collected s \<or>
      sint (sl_end_time s) \<le> sint (unix_timestamp clk)) \<and>
     L' = L(sk \<mapsto> SaleA (s\<lparr>sl_status := 1\<rparr>))"
  by (auto simp: uni_finalize_sale_def uni_accounts_defs res Let_def word_sle_eq)

lemma uni_claim_alloc_ok:
  assumes "uni_claim_allocation P S sk sa am vault ck ta buyer L tk = Inr (L', tk', ev)"
  shows "\<exists>s c n d. L sk = Some (SaleA s) \<and> L ck = Some (CommitmentA c) \<and> sl_status s = 1 \<and>
    sc_buyer c = buyer \<and> 0 < unat (sc_amount c) \<and>
    unat n = unat (sc_amount c) * unat (sl_asset_amount s) div unat (sl_commitments_collected s) \<and>
    transfer_checked S vault am ta sa n d tk = Some tk' \<and>
    L' = L(ck \<mapsto> CommitmentA (c\<lparr>sc_amount := 0\<rparr>))"
proof -
  from assms obtain s mi c where
    acc: "ClaimAllocation_accounts P S L tk sk sa am vault ck ta buyer = Inr (s, mi, c)"
    by (auto simp: uni_claim_allocation_def res)
  then have a: "L sk = Some (SaleA s)" "L ck = Some (CommitmentA c)"
    by (auto simp: uni_accounts_defs res)
  from assms [unfolded uni_claim_allocation_def acc run_Inr] obtain n where
    "sl_status s = sale_status_u8 Completed" "sc_buyer c = buyer" "0 < sc_amount c"
    "mul_div (sc_amount c) (sl_asset_amount s) (sl_commitments_collected s) = Some n"
    "transfer_checked S vault am ta sa n (mi_decimals mi) tk = Some tk'"
    "L' = L(ck \<mapsto> CommitmentA (c\<lparr>sc_amount := 0\<rparr>))" by blast
  with a show ?thesis by (auto simp: mul_div_Some word_less_nat_alt)
qed

lemma uni_settle_ok:
  "uni_settle_exit P S ek ea qm vault ta cr L tk = Inr (L', tk', ev) \<Longrightarrow>
   \<exists>e d. L ek = Some (ExitA e) \<and> cr = ex_creator e \<and> ex_proceeds_collected e = 0 \<and>
     transfer_checked S ta qm vault cr (ex_exit_quote e) d tk = Some tk' \<and>
     L' = L(ek \<mapsto> ExitA (e\<lparr>ex_proceeds_collected := ex_exit_quote e\<rparr>))"
  by (auto simp: uni_settle_exit_def uni_accounts_defs res)

lemma uni_claim_ok:
  assumes "uni_claim_pro_rata P S ek ea am qm vault ata qta h n L tk = Inr (L', tk', ev)"
  obtains e q tk1 d rem where "L ek = Some (ExitA e)" "am = ex_asset_mint e" "0 < unat n"
    "0 < unat (ex_proceeds_collected e)" "0 < unat (ex_total_supply_snapshot e)" "0 < unat q"
    "unat q = unat n * unat (ex_exit_quote e) div unat (ex_total_supply_snapshot e)"
    "burn S am ata h n tk = Some tk1" "transfer_checked S vault qm qta ea q d tk1 = Some tk'"
    "unat (ex_remaining_proceeds e) = unat rem + unat q"
    "L' = L(ek \<mapsto> ExitA (e\<lparr>ex_remaining_proceeds := rem\<rparr>))"
proof -
  from assms obtain e mi where
    acc: "ClaimProRata_accounts P S L tk ek ea am qm vault ata qta h = Inr (e, mi)"
    by (auto simp: uni_claim_pro_rata_def res)
  then have a: "L ek = Some (ExitA e)" by (auto simp: uni_accounts_defs res)
  from assms [unfolded uni_claim_pro_rata_def acc run_Inr] obtain q tk1 rem where
    p: "0 < n" "0 < ex_proceeds_collected e" "am = ex_asset_mint e"
    "mul_div n (ex_exit_quote e) (ex_total_supply_snapshot e) = Some q" "0 < q"
    "burn S am ata h n tk = Some tk1"
    "transfer_checked S vault qm qta ea q (mi_decimals mi) tk1 = Some tk'"
    "checked_sub (ex_remaining_proceeds e) q = Some rem"
    "L' = L(ek \<mapsto> ExitA (e\<lparr>ex_remaining_proceeds := rem\<rparr>))" by blast
  then show thesis
    by (intro that [OF a p(3) _ _ _ _ _ p(6,7) _ p(9)])
      (simp_all add: mul_div_Some word_less_nat_alt checked_sub_Some)
qed

section \<open>Runs of the program\<close>

inductive uni_step :: "pda_sdk \<Rightarrow> 'tk spl \<Rightarrow> uni_store \<times> 'tk \<Rightarrow> uni_store \<times> 'tk \<Rightarrow> bool"
  for P S where
  init: "uni_init P TL trust ms payer L = Inr (L', ev) \<Longrightarrow> uni_step P S (L, tk) (L', tk)"
| create_curve: "uni_create_curve P S trust ms ck am qm cr cid ct sp ep mx rr L tk = Inr (L', ev) \<Longrightarrow>
    uni_step P S (L, tk) (L', tk)"
| buy: "uni_buy_from_curve P S x n mxc L tk = Inr (L', tk', ev) \<Longrightarrow> uni_step P S (L, tk) (L', tk')"
| sell: "uni_sell_to_curve P S x n mn L tk = Inr (L', tk', ev) \<Longrightarrow> uni_step P S (L, tk) (L', tk')"
| create_pool: "uni_create_liquidity_pool P S ata trust ms pk pa bm qm lm bv qv pid fee L tk =
    Inr (L', tk', ev) \<Longrightarrow> uni_step P S (L, tk) (L', tk')"
| add: "uni_add_liquidity P S y ba qa mn L tk = Inr (L', tk', ev) \<Longrightarrow> uni_step P S (L, tk) (L', tk')"
| remove: "uni_remove_liquidity P S y n mb mq L tk = Inr (L', tk', ev) \<Longrightarrow> uni_step P S (L, tk) (L', tk')"
| swap: "uni_swap_exact_in P S y dir ain mn L tk = Inr (L', tk', ev) \<Longrightarrow> uni_step P S (L, tk) (L', tk')"
| create_sale: "uni_create_commitment_sale P clk trust ms sk cr sid amt tq oq dur L = Inr (L', ev) \<Longrightarrow>
    uni_step P S (L, tk) (L', tk)"
| commit: "uni_commit_to_sale P S clk sk sa qm vault ta ck buyer n L tk = Inr (L', tk', ev) \<Longrightarrow>
    uni_step P S (L, tk) (L', tk')"
| finalize: "uni_finalize_sale P clk sk signer L = Inr (L', ev) \<Longrightarrow> uni_step P S (L, tk) (L', tk)"
| claim_alloc: "uni_claim_allocation P S sk sa am vault ck ta buyer L tk = Inr (L', tk', ev) \<Longrightarrow>
    uni_step P S (L, tk) (L', tk')"
| create_exit: "uni_create_exit P S clk trust ms ek am cr eid q snap dur L tk = Inr (L', ev) \<Longrightarrow>
    uni_step P S (L, tk) (L', tk)"
| settle: "uni_settle_exit P S ek ea qm vault ta cr L tk = Inr (L', tk', ev) \<Longrightarrow>
    uni_step P S (L, tk) (L', tk')"
| claim: "uni_claim_pro_rata P S ek ea am qm vault aa qa h n L tk = Inr (L', tk', ev) \<Longrightarrow>
    uni_step P S (L, tk) (L', tk')"
| token: "uni_step P S (L, tk) (L, tk')"

text \<open>What is true of every account: a curve never sells more than its supply and never holds
  less than nothing of what it collected, a sale's two counters agree and respect the
  overflow bound, an exit pays out at most its proceeds and nothing before it is settled.\<close>

fun sound_acct :: "uni_acct \<Rightarrow> bool" where
  "sound_acct (CurveA c) \<longleftrightarrow> cv_current_supply c \<le> cv_max_supply c \<and>
     cv_reserve_ratio_ppm c \<le> 1000000 \<and> cv_reserve_balance c \<le> cv_proceeds_collected c"
| "sound_acct (SaleA s) \<longleftrightarrow> sl_proceeds_collected s = sl_commitments_collected s \<and>
     sl_proceeds_collected s \<le> sl_overflow_quote s"
| "sound_acct (ExitA e) \<longleftrightarrow> ex_remaining_proceeds e \<le> ex_exit_quote e \<and>
     (if ex_proceeds_collected e = 0 then ex_remaining_proceeds e = ex_exit_quote e
      else ex_proceeds_collected e = ex_exit_quote e)"
| "sound_acct (PoolA p) \<longleftrightarrow> pl_fee_bps p < 10000"
| "sound_acct _ \<longleftrightarrow> True"

definition uni_inv :: "uni_store \<times> 'tk \<Rightarrow> bool" where
  "uni_inv s \<longleftrightarrow> (\<forall>k a. fst s k = Some a \<longrightarrow> sound_acct a)"

lemma uni_inv_update:
  "uni_inv (L, tk) \<Longrightarrow> sound_acct a \<Longrightarrow> uni_inv (L(k \<mapsto> a), tk')"
  "uni_inv (L, tk) \<Longrightarrow> sound_acct a \<Longrightarrow> sound_acct b \<Longrightarrow> uni_inv (L(k \<mapsto> a, j \<mapsto> b), tk')"
  by (auto simp: uni_inv_def)

lemma uni_inv_at: "uni_inv (L, tk) \<Longrightarrow> L k = Some a \<Longrightarrow> sound_acct a"
  by (auto simp: uni_inv_def)

lemma uni_step_inv:
  assumes "uni_step P S s s'" and inv: "uni_inv s"
  shows "uni_inv s'"
  using assms
proof cases
  case init
  then show ?thesis using inv by (auto dest!: uni_init_ok intro!: uni_inv_update)
next
  case create_curve
  then show ?thesis using inv
    by (elim uni_create_curve_ok) (auto intro!: uni_inv_update)
next
  case buy
  then show ?thesis using inv
    by (elim uni_buy_ok) (auto intro!: uni_inv_update dest: uni_inv_at simp: word_le_nat_alt)
next
  case (sell x n mn L tk L' tk' ev)
  from sell(3) obtain c and r :: u64 and sup reserve where "L (ck_curve x) = Some (CurveA c)"
    "unat (cv_current_supply c) = unat sup + unat n" "unat (cv_reserve_balance c) = unat reserve + unat r"
    "L' = L(ck_curve x \<mapsto> CurveA (c\<lparr>cv_current_supply := sup, cv_reserve_balance := reserve\<rparr>))"
    by (rule uni_sell_ok)
  with inv sell uni_inv_at [of L tk "ck_curve x" "CurveA c"] show ?thesis
    by (auto intro!: uni_inv_update(1) simp: word_le_nat_alt)
next
  case create_pool
  then show ?thesis using inv by (elim uni_create_pool_ok) (auto intro!: uni_inv_update)
next
  case add
  then show ?thesis using inv
    by (elim uni_add_ok) (auto intro!: uni_inv_update(1) dest: uni_inv_at)
next
  case remove
  then show ?thesis using inv
    by (elim uni_remove_ok) (auto intro!: uni_inv_update(1) dest: uni_inv_at)
next
  case swap
  then show ?thesis using inv
    by (elim uni_swap_ok) (auto intro!: uni_inv_update(1) dest: uni_inv_at)
next
  case create_sale
  then show ?thesis using inv by (elim uni_create_sale_ok) (auto intro!: uni_inv_update)
next
  case (commit clk sk sa qm vault ta ck buyer n L tk L' tk' ev)
  from commit(3) obtain s1 c' pr co where c: "L sk = Some (SaleA s1)"
    "unat pr = unat (sl_proceeds_collected s1) + unat n" "pr \<le> sl_overflow_quote s1"
    "unat co = unat (sl_commitments_collected s1) + unat n"
    "L' = L(ck \<mapsto> CommitmentA c', sk \<mapsto> SaleA (s1\<lparr>sl_proceeds_collected := pr,
       sl_commitments_collected := co\<rparr>))" by (rule uni_commit_ok)
  with inv commit uni_inv_at [of L tk sk "SaleA s1"] show ?thesis
    by (auto intro!: uni_inv_update(2) simp: word_unat_eq_iff)
next
  case (finalize clk sk signer L L' ev tk)
  from uni_finalize_ok [OF finalize(3)] obtain s1 where "L sk = Some (SaleA s1)"
    "L' = L(sk \<mapsto> SaleA (s1\<lparr>sl_status := 1\<rparr>))" by blast
  with inv finalize uni_inv_at [of L tk sk "SaleA s1"] show ?thesis
    by (auto intro!: uni_inv_update(1))
next
  case claim_alloc
  then show ?thesis using inv
    by (auto dest!: uni_claim_alloc_ok intro!: uni_inv_update(1))
next
  case create_exit
  then show ?thesis using inv by (elim uni_create_exit_ok) (auto intro!: uni_inv_update)
next
  case (settle ek ea qm vault ta cr L tk L' tk' ev)
  from uni_settle_ok [OF settle(3)] obtain e where "L ek = Some (ExitA e)"
    "L' = L(ek \<mapsto> ExitA (e\<lparr>ex_proceeds_collected := ex_exit_quote e\<rparr>))" "ex_proceeds_collected e = 0"
    by blast
  with inv settle uni_inv_at [of L tk ek "ExitA e"] show ?thesis
    by (auto intro!: uni_inv_update(1))
next
  case (claim ek ea am qm vault aa qa h n L tk L' tk' ev)
  from claim(3) obtain e and q :: u64 and rem where "L ek = Some (ExitA e)"
    "0 < unat (ex_proceeds_collected e)" "unat (ex_remaining_proceeds e) = unat rem + unat q"
    "L' = L(ek \<mapsto> ExitA (e\<lparr>ex_remaining_proceeds := rem\<rparr>))" by (rule uni_claim_ok)
  with inv claim uni_inv_at [of L tk ek "ExitA e"] show ?thesis
    by (auto intro!: uni_inv_update(1) simp: word_le_nat_alt)
next
  case token
  with inv show ?thesis by (simp add: uni_inv_def)
qed

interpretation uni_run: kept_by_steps "uni_step P S" uni_inv for P S
  by unfold_locales (rule uni_step_inv)

interpretation uni_module: module_init uni_init
  by unfold_locales (auto dest!: uni_init_ok)

section \<open>The value behind an LP token\<close>

fun pool_product :: "uni_acct \<Rightarrow> nat" where
  "pool_product (PoolA p) = unat (pl_base_reserve p) * unat (pl_quote_reserve p)"
| "pool_product _ = 0"

fun pool_lp_square :: "uni_acct \<Rightarrow> nat" where
  "pool_lp_square (PoolA p) = (unat (pl_lp_supply p))\<^sup>2"
| "pool_lp_square _ = 0"

text \<open>A trade with the pool at \<open>k\<close>: a swap or a withdrawal.\<close>

inductive pool_trade :: "pda_sdk \<Rightarrow> 'tk spl \<Rightarrow> pubkey \<Rightarrow> uni_store \<Rightarrow> uni_store \<Rightarrow> bool" for P S k where
  swap: "uni_swap_exact_in P S x dir ain mn L tk = Inr (L', tk', ev) \<Longrightarrow> pk_pool x = k \<Longrightarrow>
    pool_trade P S k L L'"
| withdraw: "uni_remove_liquidity P S x n mb mq L tk = Inr (L', tk', ev) \<Longrightarrow> pk_pool x = k \<Longrightarrow>
    pool_trade P S k L L'"

lemma swap_keeps_product:
  assumes "quote_swap_exact_in rin rout ain fee = Some q"
    and "unat rin' = unat rin + unat ain" and "unat rout = unat rout' + unat (sq_amount_out q)"
  shows "unat rin * unat rout \<le> unat rin' * unat rout'"
proof -
  have "unat rout' = unat rout - unat (sq_amount_out q)" using assms(3) by simp
  with swap_product(2) [of "unat ain - fee_of (unat ain) (unat fee)" "unat ain" _ "unat rout" "unat rin",
      OF diff_le_self quote_swap_ok(2) [OF assms(1)]] assms(2) show ?thesis by simp
qed

lemma pool_trade_fair:
  assumes "pool_trade P S k L L'"
  shows "at pool_product L k * at pool_lp_square L' k \<le> at pool_product L' k * at pool_lp_square L k"
  using assms
proof cases
  case (swap x dir ain mn tk tk' ev)
  from swap(1) obtain p p' q where p: "L (pk_pool x) = Some (PoolA p)"
    "L' = L(pk_pool x \<mapsto> PoolA p')" "pl_lp_supply p' = pl_lp_supply p"
    "quote_swap_exact_in (pl_base_reserve p) (pl_quote_reserve p) ain (pl_fee_bps p) = Some q \<and>
       unat (pl_base_reserve p') = unat (pl_base_reserve p) + unat ain \<and>
       unat (pl_quote_reserve p) = unat (pl_quote_reserve p') + unat (sq_amount_out q) \<or>
     quote_swap_exact_in (pl_quote_reserve p) (pl_base_reserve p) ain (pl_fee_bps p) = Some q \<and>
       unat (pl_quote_reserve p') = unat (pl_quote_reserve p) + unat ain \<and>
       unat (pl_base_reserve p) = unat (pl_base_reserve p') + unat (sq_amount_out q)"
    by (rule uni_swap_ok)
  from p(4) have "unat (pl_base_reserve p) * unat (pl_quote_reserve p)
      \<le> unat (pl_base_reserve p') * unat (pl_quote_reserve p')"
    using swap_keeps_product by (metis mult.commute)
  with p swap show ?thesis by (simp add: at_def)
next
  case (withdraw x n mb mq tk tk' ev)
  from withdraw(1) obtain p bo qo b' q' l' where p: "L (pk_pool x) = Some (PoolA p)"
    "quote_remove_liquidity n (pl_base_reserve p) (pl_quote_reserve p) (pl_lp_supply p) = Some (bo, qo)"
    "unat (pl_base_reserve p) = unat b' + unat bo" "unat (pl_quote_reserve p) = unat q' + unat qo"
    "unat (pl_lp_supply p) = unat l' + unat n"
    "L' = L(pk_pool x \<mapsto> PoolA (p\<lparr>pl_base_reserve := b', pl_quote_reserve := q', pl_lp_supply := l'\<rparr>))"
    by (rule uni_remove_ok)
  let ?T = "unat (pl_lp_supply p)" and ?B = "unat (pl_base_reserve p)" and ?Q = "unat (pl_quote_reserve p)"
  from quote_remove_ok [OF p(2)] have o: "unat n \<le> ?T" "unat bo = unat n * ?B div ?T"
    "unat qo = unat n * ?Q div ?T" by auto
  have "unat b' = ?B - unat n * ?B div ?T" "unat q' = ?Q - unat n * ?Q div ?T" "unat l' = ?T - unat n"
    using p(3-5) o by linarith+
  with redeem_fair [OF o(1)] have "?B * unat l' \<le> unat b' * ?T" "?Q * unat l' \<le> unat q' * ?T" by auto
  then have "(?B * unat l') * (?Q * unat l') \<le> (unat b' * ?T) * (unat q' * ?T)" by (rule mult_le_mono)
  with p withdraw show ?thesis by (simp add: at_def power2_eq_square ac_simps)
qed

interpretation pool_value: share_pool "\<lambda>L. at pool_product L k" "\<lambda>L. at pool_lp_square L k"
  "pool_trade P S k" for P S k
  by unfold_locales (rule pool_trade_fair)

end
