(* ===== verification/Aeqi_Funding.thy ===== *)
theory Aeqi_Funding
  imports Aeqi_Budget Aeqi_Unifutures
begin

text \<open>
  The program \<open>aeqi_funding\<close>: the intent to raise capital, bound to a budget of
  \<open>aeqi_budget\<close> and activated by a call into \<open>aeqi_unifutures\<close>, which creates the commitment
  sale, the bonding curve or the exit. The budget store is read; the store of
  \<open>aeqi_unifutures\<close> is written through that program's own instructions.
\<close>

section \<open>Errors, state and events\<close>

datatype FundingError =
    InvalidKind | ZeroAmount | MathOverflow | Unauthorized | TrustMismatch | CannotCancel
  | CannotActivate | CannotFinalize | WrongKind | BudgetMismatch | BudgetUnavailable
  | BudgetCapacityExceeded | TrustNotInCreationMode

record FundingModuleState =
  fm_trust :: pubkey
  fm_request_count :: u64
  fm_bump :: u8

datatype RequestStatus = Pending | Activated | Finalized | Cancelled

fun request_status_u8 :: "RequestStatus \<Rightarrow> u8" where
  "request_status_u8 Pending = 0"
| "request_status_u8 Activated = 1"
| "request_status_u8 Finalized = 2"
| "request_status_u8 Cancelled = 3"

record FundingRequest =
  fr_trust :: pubkey
  fr_request_id :: bytes32
  fr_creator :: pubkey
  fr_kind :: u8
  fr_budget_id :: bytes32
  fr_asset_amount :: u64
  fr_target_quote :: u64
  fr_status :: u8
  fr_created_at :: i64
  fr_primitive_id :: bytes32
  fr_bump :: u8

datatype funding_acct = FundingModuleA FundingModuleState | RequestA FundingRequest

type_synonym funding_store = "funding_acct accts"

fun as_funding_module :: "funding_acct \<Rightarrow> FundingModuleState option" where
  "as_funding_module (FundingModuleA m) = Some m" | "as_funding_module _ = None"

fun as_request :: "funding_acct \<Rightarrow> FundingRequest option" where
  "as_request (RequestA r) = Some r" | "as_request _ = None"

datatype funding_event =
    FundingRequestCreated pubkey bytes32 pubkey u8 bytes32 u64 u64
  | FundingRequestCancelled pubkey bytes32
  | FundingRequestActivated pubkey bytes32 u8 bytes32
  | FundingRequestFinalized pubkey bytes32 u8 bytes32

text \<open>An activation fails with an error of its own or with the error of the program it calls.\<close>

datatype funding_fault = OwnError "FundingError err" | UnifuturesFault "UnifuturesError err"

type_synonym funding_result = "FundingError err + funding_store \<times> funding_event list"
type_synonym activate_result =
  "funding_fault + funding_store \<times> uni_store \<times> funding_event list \<times> uni_event list"

definition AEQI_FUNDING_ID :: pubkey where
  "AEQI_FUNDING_ID = 0x71478bffeac2f4b1b739644f4e011d8057a9c250fcda4552012ef9512a408d7b"

section \<open>The budget check\<close>

definition require_budget_capacity :: "clock \<Rightarrow> Budget \<Rightarrow> pubkey \<Rightarrow> bytes32 \<Rightarrow> u64 \<Rightarrow>
  FundingError err + unit" where
  "require_budget_capacity clk budget trust budget_id required_amount =
     require (b_trust budget = trust) (Prog BudgetMismatch)
     (require (b_budget_id budget = budget_id) (Prog BudgetMismatch)
     (require (\<not> b_frozen budget) (Prog BudgetUnavailable)
     (require (b_expiry budget \<noteq> 0 \<longrightarrow> unix_timestamp clk <s b_expiry budget) (Prog BudgetUnavailable)
     (if required_amount > 0 then
        rbind (ok_or (checked_sub (b_amount budget) (b_spent budget)) (Prog MathOverflow)) (\<lambda>remaining.
        require (remaining \<ge> required_amount) (Prog BudgetCapacityExceeded) (Inr ()))
      else Inr ()))))"

section \<open>Instructions\<close>

definition InitFunding_accounts :: "pda_sdk \<Rightarrow> trust_store \<Rightarrow> funding_store \<Rightarrow> pubkey \<Rightarrow> pubkey \<Rightarrow>
  FundingError err + Trust \<times> u8" where
  "InitFunding_accounts P TL L trust module_state =
     rbind (trust_account P TL trust) (\<lambda>t.
     rbind (init_account P [Lit ''funding_module'', B32 trust] AEQI_FUNDING_ID L module_state)
       (\<lambda>bump. Inr (t, bump)))"

definition funding_init :: "pda_sdk \<Rightarrow> trust_store \<Rightarrow> pubkey \<Rightarrow> pubkey \<Rightarrow> pubkey \<Rightarrow> funding_store \<Rightarrow>
  funding_result" where
  "funding_init P TL trust module_state payer L =
     rbind (InitFunding_accounts P TL L trust module_state) (\<lambda>(t, bump).
     require (t_creation_mode t) (Prog TrustNotInCreationMode)
     (require (payer = t_authority t) (Prog Unauthorized)
     (Inr (L(module_state \<mapsto> FundingModuleA
             \<lparr>fm_trust = trust, fm_request_count = 0, fm_bump = bump\<rparr>), []))))"

definition request_seeds :: "pubkey \<Rightarrow> bytes32 \<Rightarrow> seed list" where
  "request_seeds trust request_id = [Lit ''funding_request'', B32 trust, B32 request_id]"

definition CreateFundingRequest_accounts :: "pda_sdk \<Rightarrow> bytes32 \<Rightarrow> budget_store \<Rightarrow> funding_store \<Rightarrow>
  pubkey \<Rightarrow> pubkey \<Rightarrow> pubkey \<Rightarrow> pubkey \<Rightarrow> FundingError err + FundingModuleState \<times> u8 \<times> Budget" where
  "CreateFundingRequest_accounts P request_id BL L trust module_state request budget =
     rbind (load as_funding_module L module_state) (\<lambda>m.
     require (seeds_ok P [Lit ''funding_module'', B32 trust] (fm_bump m) AEQI_FUNDING_ID module_state)
       (Anchor ConstraintSeeds)
     (rbind (init_account P (request_seeds trust request_id) AEQI_FUNDING_ID L request) (\<lambda>bump.
     rbind (load as_budget BL budget) (\<lambda>b. Inr (m, bump, b)))))"

definition funding_create_funding_request :: "pda_sdk \<Rightarrow> clock \<Rightarrow> budget_store \<Rightarrow> pubkey \<Rightarrow> pubkey \<Rightarrow>
  pubkey \<Rightarrow> pubkey \<Rightarrow> pubkey \<Rightarrow> bytes32 \<Rightarrow> u8 \<Rightarrow> bytes32 \<Rightarrow> u64 \<Rightarrow> u64 \<Rightarrow> funding_store \<Rightarrow>
  funding_result" where
  "funding_create_funding_request P clk BL trust module_state request budget creator request_id kind
     budget_id asset_amount target_quote L =
     rbind (CreateFundingRequest_accounts P request_id BL L trust module_state request budget)
       (\<lambda>(m, bump, b).
     require (kind \<le> 2) (Prog InvalidKind)
     (require (kind = 0 \<longrightarrow> asset_amount > 0) (Prog ZeroAmount)
     (require (kind = 0 \<longrightarrow> target_quote > 0) (Prog ZeroAmount)
     (rbind (require_budget_capacity clk b trust budget_id (if kind = 0 then asset_amount else 0)) (\<lambda>_.
     rbind (ok_or (checked_add (fm_request_count m) 1) (Prog MathOverflow)) (\<lambda>n.
       Inr (L(request \<mapsto> RequestA
                \<lparr>fr_trust = trust, fr_request_id = request_id, fr_creator = creator, fr_kind = kind,
                 fr_budget_id = budget_id, fr_asset_amount = asset_amount,
                 fr_target_quote = target_quote, fr_status = request_status_u8 Pending,
                 fr_created_at = unix_timestamp clk, fr_primitive_id = 0, fr_bump = bump\<rparr>,
              module_state \<mapsto> FundingModuleA (m\<lparr>fm_request_count := n\<rparr>)),
            [FundingRequestCreated trust request_id creator kind budget_id asset_amount
               target_quote]))))))) "

text \<open>\<open>request\<close> with its seeds re-derived from its own fields.\<close>

definition request_account :: "pda_sdk \<Rightarrow> funding_store \<Rightarrow> pubkey \<Rightarrow> FundingError err + FundingRequest" where
  "request_account P L key =
     rbind (load as_request L key) (\<lambda>r.
     require (seeds_ok P (request_seeds (fr_trust r) (fr_request_id r)) (fr_bump r) AEQI_FUNDING_ID key)
       (Anchor ConstraintSeeds) (Inr r))"

definition ActivateCommitmentSale_accounts :: "pda_sdk \<Rightarrow> budget_store \<Rightarrow> funding_store \<Rightarrow> pubkey \<Rightarrow>
  pubkey \<Rightarrow> FundingError err + FundingRequest \<times> Budget" where
  "ActivateCommitmentSale_accounts P BL L request budget =
     rbind (request_account P L request) (\<lambda>r.
     rbind (load as_budget BL budget) (\<lambda>b. Inr (r, b)))"

text \<open>The guards that the three activations share, \<open>kind\<close> being the one each expects.\<close>

definition activate_guard :: "clock \<Rightarrow> FundingRequest \<Rightarrow> Budget \<Rightarrow> pubkey \<Rightarrow> pubkey \<Rightarrow> u64 \<Rightarrow> u8 \<Rightarrow>
  FundingError err + unit" where
  "activate_guard clk r b creator trust required kind =
     require (creator = fr_creator r) (Prog Unauthorized)
     (require (trust = fr_trust r) (Prog TrustMismatch)
     (rbind (require_budget_capacity clk b (fr_trust r) (fr_budget_id r) required) (\<lambda>_.
     require (fr_status r = request_status_u8 Pending) (Prog CannotActivate)
     (require (fr_kind r = kind) (Prog WrongKind) (Inr ())))))"

definition funding_activate_commitment_sale :: "pda_sdk \<Rightarrow> clock \<Rightarrow> budget_store \<Rightarrow> pubkey \<Rightarrow> pubkey \<Rightarrow>
  pubkey \<Rightarrow> pubkey \<Rightarrow> pubkey \<Rightarrow> pubkey \<Rightarrow> bytes32 \<Rightarrow> u64 \<Rightarrow> i64 \<Rightarrow> funding_store \<Rightarrow> uni_store \<Rightarrow>
  activate_result" where
  "funding_activate_commitment_sale P clk BL request budget trust unifutures_module_state sale creator
     sale_id overflow_quote duration_secs L UL =
     rbind (map_error OwnError (ActivateCommitmentSale_accounts P BL L request budget)) (\<lambda>(r, b).
     rbind (map_error OwnError (activate_guard clk r b creator trust (fr_asset_amount r) 0)) (\<lambda>_.
     rbind (map_error UnifuturesFault (uni_create_commitment_sale P clk trust unifutures_module_state
              sale creator sale_id (fr_asset_amount r) (fr_target_quote r) overflow_quote
              duration_secs UL)) (\<lambda>(UL', uev).
       Inr (L(request \<mapsto> RequestA (r\<lparr>fr_status := request_status_u8 Activated,
                fr_primitive_id := sale_id\<rparr>)), UL',
            [FundingRequestActivated (fr_trust r) (fr_request_id r) (fr_kind r) sale_id], uev))))"

definition ActivateBondingCurve_accounts :: "pda_sdk \<Rightarrow> 'tk spl \<Rightarrow> budget_store \<Rightarrow> funding_store \<Rightarrow>
  'tk \<Rightarrow> pubkey \<Rightarrow> pubkey \<Rightarrow> pubkey \<Rightarrow> pubkey \<Rightarrow> FundingError err + FundingRequest \<times> Budget" where
  "ActivateBondingCurve_accounts P S BL L tk request budget asset_mint quote_mint =
     rbind (request_account P L request) (\<lambda>r.
     rbind (load as_budget BL budget) (\<lambda>b.
     rbind (mint_account S tk asset_mint) (\<lambda>_.
     rbind (mint_account S tk quote_mint) (\<lambda>_. Inr (r, b)))))"

definition funding_activate_bonding_curve :: "pda_sdk \<Rightarrow> 'tk spl \<Rightarrow> clock \<Rightarrow> budget_store \<Rightarrow> pubkey \<Rightarrow>
  pubkey \<Rightarrow> pubkey \<Rightarrow> pubkey \<Rightarrow> pubkey \<Rightarrow> pubkey \<Rightarrow> pubkey \<Rightarrow> pubkey \<Rightarrow> bytes32 \<Rightarrow> u8 \<Rightarrow> u128 \<Rightarrow> u128 \<Rightarrow>
  u64 \<Rightarrow> u32 \<Rightarrow> funding_store \<Rightarrow> uni_store \<Rightarrow> 'tk \<Rightarrow> activate_result" where
  "funding_activate_bonding_curve P S clk BL request budget trust unifutures_module_state curve
     asset_mint quote_mint creator curve_id curve_type start_price end_price max_supply
     reserve_ratio_ppm L UL tk =
     rbind (map_error OwnError (ActivateBondingCurve_accounts P S BL L tk request budget asset_mint
              quote_mint)) (\<lambda>(r, b).
     rbind (map_error OwnError (activate_guard clk r b creator trust max_supply 1)) (\<lambda>_.
     rbind (map_error UnifuturesFault (uni_create_curve P S trust unifutures_module_state curve
              asset_mint quote_mint creator curve_id curve_type start_price end_price max_supply
              reserve_ratio_ppm UL tk)) (\<lambda>(UL', uev).
       Inr (L(request \<mapsto> RequestA (r\<lparr>fr_status := request_status_u8 Activated,
                fr_primitive_id := curve_id\<rparr>)), UL',
            [FundingRequestActivated (fr_trust r) (fr_request_id r) (fr_kind r) curve_id], uev))))"

definition ActivateExit_accounts :: "pda_sdk \<Rightarrow> budget_store \<Rightarrow> funding_store \<Rightarrow> pubkey \<Rightarrow> pubkey \<Rightarrow>
  FundingError err + FundingRequest \<times> Budget" where
  "ActivateExit_accounts P BL L request budget =
     rbind (request_account P L request) (\<lambda>r.
     rbind (load as_budget BL budget) (\<lambda>b. Inr (r, b)))"

definition funding_activate_exit :: "pda_sdk \<Rightarrow> 'tk spl \<Rightarrow> clock \<Rightarrow> budget_store \<Rightarrow> pubkey \<Rightarrow> pubkey \<Rightarrow>
  pubkey \<Rightarrow> pubkey \<Rightarrow> pubkey \<Rightarrow> pubkey \<Rightarrow> pubkey \<Rightarrow> bytes32 \<Rightarrow> u64 \<Rightarrow> u64 \<Rightarrow> i64 \<Rightarrow> funding_store \<Rightarrow>
  uni_store \<Rightarrow> 'tk \<Rightarrow> activate_result" where
  "funding_activate_exit P S clk BL request budget trust unifutures_module_state ex asset_mint creator
     exit_id exit_quote total_supply_snapshot duration_secs L UL tk =
     rbind (map_error OwnError (ActivateExit_accounts P BL L request budget)) (\<lambda>(r, b).
     rbind (map_error OwnError (activate_guard clk r b creator trust exit_quote 2)) (\<lambda>_.
     rbind (map_error UnifuturesFault (uni_create_exit P S clk trust unifutures_module_state ex
              asset_mint creator exit_id exit_quote total_supply_snapshot duration_secs UL tk)) (\<lambda>(UL', uev).
       Inr (L(request \<mapsto> RequestA (r\<lparr>fr_status := request_status_u8 Activated,
                fr_primitive_id := exit_id\<rparr>)), UL',
            [FundingRequestActivated (fr_trust r) (fr_request_id r) (fr_kind r) exit_id], uev))))"

definition FinalizeFundingRequest_accounts :: "pda_sdk \<Rightarrow> funding_store \<Rightarrow> pubkey \<Rightarrow>
  FundingError err + FundingRequest" where
  "FinalizeFundingRequest_accounts P L request = request_account P L request"

definition funding_finalize_funding_request :: "pda_sdk \<Rightarrow> pubkey \<Rightarrow> pubkey \<Rightarrow> funding_store \<Rightarrow>
  funding_result" where
  "funding_finalize_funding_request P request creator L =
     rbind (FinalizeFundingRequest_accounts P L request) (\<lambda>r.
     require (creator = fr_creator r) (Prog Unauthorized)
     (require (fr_status r = request_status_u8 Activated) (Prog CannotFinalize)
     (Inr (L(request \<mapsto> RequestA (r\<lparr>fr_status := request_status_u8 Finalized\<rparr>)),
           [FundingRequestFinalized (fr_trust r) (fr_request_id r) (fr_kind r) (fr_primitive_id r)]))))"

definition CancelFundingRequest_accounts :: "pda_sdk \<Rightarrow> funding_store \<Rightarrow> pubkey \<Rightarrow>
  FundingError err + FundingRequest" where
  "CancelFundingRequest_accounts P L request = request_account P L request"

definition funding_cancel_funding_request :: "pda_sdk \<Rightarrow> pubkey \<Rightarrow> pubkey \<Rightarrow> funding_store \<Rightarrow>
  funding_result" where
  "funding_cancel_funding_request P request creator L =
     rbind (CancelFundingRequest_accounts P L request) (\<lambda>r.
     require (creator = fr_creator r) (Prog Unauthorized)
     (require (fr_status r = request_status_u8 Pending) (Prog CannotCancel)
     (Inr (L(request \<mapsto> RequestA (r\<lparr>fr_status := request_status_u8 Cancelled\<rparr>)),
           [FundingRequestCancelled (fr_trust r) (fr_request_id r)]))))"

section \<open>What a successful instruction did\<close>

lemma as_funding_acct [res]:
  "as_funding_module a = Some m \<longleftrightarrow> a = FundingModuleA m"
  "as_request a = Some r \<longleftrightarrow> a = RequestA r"
  by (cases a; simp)+

lemmas funding_accounts_defs = InitFunding_accounts_def CreateFundingRequest_accounts_def
  request_account_def ActivateCommitmentSale_accounts_def ActivateBondingCurve_accounts_def
  ActivateExit_accounts_def FinalizeFundingRequest_accounts_def CancelFundingRequest_accounts_def

text \<open>What the budget check guarantees: the right budget, usable now, with enough left.\<close>

definition covers :: "clock \<Rightarrow> Budget \<Rightarrow> pubkey \<Rightarrow> bytes32 \<Rightarrow> u64 \<Rightarrow> bool" where
  "covers clk b trust bid n \<longleftrightarrow> b_trust b = trust \<and> b_budget_id b = bid \<and> \<not> b_frozen b \<and>
     (b_expiry b = 0 \<or> sint (unix_timestamp clk) < sint (b_expiry b)) \<and>
     (0 < unat n \<longrightarrow> unat (b_spent b) + unat n \<le> unat (b_amount b))"

lemma remaining_enough:
  "(\<exists>c. checked_sub a s = Some c \<and> n \<le> c) \<longleftrightarrow> unat s + unat n \<le> unat (a :: u64)"
proof
  assume "\<exists>c. checked_sub a s = Some c \<and> n \<le> c"
  then obtain c where "checked_sub a s = Some c" "n \<le> c" by blast
  then have "unat a = unat c + unat s" "unat n \<le> unat c"
    by (simp_all add: checked_sub_Some word_le_nat_alt)
  then show "unat s + unat n \<le> unat a" by simp
next
  assume le: "unat s + unat n \<le> unat a"
  then obtain c where "checked_sub a s = Some c" "unat c + unat s = unat a"
    using checked_sub_fits [of s a] by auto
  with le show "\<exists>c. checked_sub a s = Some c \<and> n \<le> c" by (auto simp: word_le_nat_alt)
qed

lemma require_budget_capacity_Inr [res]:
  "require_budget_capacity clk b trust bid n = Inr u \<longleftrightarrow> covers clk b trust bid n"
proof (cases "n = 0")
  case True
  then show ?thesis by (auto simp: require_budget_capacity_def covers_def res word_sless_alt)
next
  case False
  then have "0 < n" "0 < unat n" by (simp_all add: word_neq_0_conv unat_gt_0)
  then show ?thesis
    unfolding require_budget_capacity_def covers_def word_sless_alt remaining_enough [symmetric]
    by (simp add: res) blast
qed

lemma activate_guard_Inr [res]:
  "activate_guard clk r b creator trust n kind = Inr u \<longleftrightarrow>
     creator = fr_creator r \<and> trust = fr_trust r \<and> covers clk b (fr_trust r) (fr_budget_id r) n \<and>
     fr_status r = 0 \<and> fr_kind r = kind"
  by (auto simp: activate_guard_def res)

lemma funding_init_ok:
  "funding_init P TL trust ms payer L = Inr (L', ev) \<Longrightarrow>
   \<exists>t m. TL trust = Some (TrustA t) \<and> t_creation_mode t \<and> payer = t_authority t \<and>
     L ms = None \<and> L' = L(ms \<mapsto> FundingModuleA m)"
  by (auto simp: funding_init_def funding_accounts_defs res)

lemma funding_create_ok:
  assumes "funding_create_funding_request P clk BL trust ms rk bk cr rid kind bid amt tq L = Inr (L', ev)"
  obtains m n r b where "L ms = Some (FundingModuleA m)" "L rk = None" "fr_status r = 0"
    "fr_creator r = cr" "fr_kind r \<le> 2" "BL bk = Some (BudgetA b)"
    "covers clk b (fr_trust r) (fr_budget_id r) (if fr_kind r = 0 then fr_asset_amount r else 0)"
    "L' = L(rk \<mapsto> RequestA r, ms \<mapsto> FundingModuleA (m\<lparr>fm_request_count := n\<rparr>))"
proof -
  from assms show thesis
    by (simp add: funding_create_funding_request_def funding_accounts_defs res)
      (elim exE conjE, rule that [rotated -1], erule sym, simp_all split: if_splits)
qed

lemma funding_activate_sale_ok:
  assumes "funding_activate_commitment_sale P clk BL rk bk trust ums sk cr sid oq dur L UL =
    Inr (L', UL', ev, uev)"
  obtains r b where "L rk = Some (RequestA r)" "BL bk = Some (BudgetA b)" "cr = fr_creator r"
    "trust = fr_trust r" "fr_status r = 0" "fr_kind r = 0"
    "covers clk b (fr_trust r) (fr_budget_id r) (fr_asset_amount r)"
    "uni_create_commitment_sale P clk trust ums sk cr sid (fr_asset_amount r) (fr_target_quote r)
       oq dur UL = Inr (UL', uev)"
    "L' = L(rk \<mapsto> RequestA (r\<lparr>fr_status := 1, fr_primitive_id := sid\<rparr>))"
proof -
  from assms show thesis
    by (simp add: funding_activate_commitment_sale_def funding_accounts_defs res)
      (elim exE conjE, rule that [rotated -1], erule sym, simp_all)
qed

lemma funding_activate_curve_ok:
  assumes "funding_activate_bonding_curve P S clk BL rk bk trust ums ck am qm cr cid ct sp ep mx rr
    L UL tk = Inr (L', UL', ev, uev)"
  obtains r b where "L rk = Some (RequestA r)" "BL bk = Some (BudgetA b)" "cr = fr_creator r"
    "trust = fr_trust r" "fr_status r = 0" "fr_kind r = 1"
    "covers clk b (fr_trust r) (fr_budget_id r) mx"
    "uni_create_curve P S trust ums ck am qm cr cid ct sp ep mx rr UL tk = Inr (UL', uev)"
    "L' = L(rk \<mapsto> RequestA (r\<lparr>fr_status := 1, fr_primitive_id := cid\<rparr>))"
proof -
  from assms show thesis
    by (simp add: funding_activate_bonding_curve_def funding_accounts_defs res)
      (elim exE conjE, rule that [rotated -1], erule sym, simp_all)
qed

lemma funding_activate_exit_ok:
  assumes "funding_activate_exit P S clk BL rk bk trust ums ek am cr eid q snap dur L UL tk =
    Inr (L', UL', ev, uev)"
  obtains r b where "L rk = Some (RequestA r)" "BL bk = Some (BudgetA b)" "cr = fr_creator r"
    "trust = fr_trust r" "fr_status r = 0" "fr_kind r = 2"
    "covers clk b (fr_trust r) (fr_budget_id r) q"
    "uni_create_exit P S clk trust ums ek am cr eid q snap dur UL tk = Inr (UL', uev)"
    "L' = L(rk \<mapsto> RequestA (r\<lparr>fr_status := 1, fr_primitive_id := eid\<rparr>))"
proof -
  from assms show thesis
    by (simp add: funding_activate_exit_def funding_accounts_defs res)
      (elim exE conjE, rule that [rotated -1], erule sym, simp_all)
qed

lemma funding_close_ok:
  "funding_finalize_funding_request P rk cr L = Inr (L', ev) \<Longrightarrow>
   \<exists>r. L rk = Some (RequestA r) \<and> cr = fr_creator r \<and> fr_status r = 1 \<and>
     L' = L(rk \<mapsto> RequestA (r\<lparr>fr_status := 2\<rparr>))"
  "funding_cancel_funding_request P rk cr L = Inr (L', ev) \<Longrightarrow>
   \<exists>r. L rk = Some (RequestA r) \<and> cr = fr_creator r \<and> fr_status r = 0 \<and>
     L' = L(rk \<mapsto> RequestA (r\<lparr>fr_status := 3\<rparr>))"
  by (auto simp: funding_finalize_funding_request_def funding_cancel_funding_request_def
      funding_accounts_defs res)

section \<open>The markets that activations create\<close>

text \<open>
  The terms of a market of \<open>aeqi_unifutures\<close>: what a later instruction of that program
  never changes.
\<close>

datatype market =
    SaleM pubkey bytes32 pubkey u64 u64
  | CurveM pubkey bytes32 pubkey u64
  | ExitM pubkey bytes32 pubkey u64

fun market_of :: "uni_acct \<Rightarrow> market option" where
  "market_of (SaleA s) = Some (SaleM (sl_trust s) (sl_sale_id s) (sl_creator s) (sl_asset_amount s)
     (sl_target_quote s))"
| "market_of (CurveA c) = Some (CurveM (cv_trust c) (cv_curve_id c) (cv_creator c) (cv_max_supply c))"
| "market_of (ExitA e) = Some (ExitM (ex_trust e) (ex_exit_id e) (ex_creator e) (ex_exit_quote e))"
| "market_of _ = None"

definition market_at :: "uni_store \<Rightarrow> pubkey \<Rightarrow> market option" where
  "market_at UL k = Option.bind (UL k) market_of"

definition markets_kept :: "uni_store \<Rightarrow> uni_store \<Rightarrow> bool" where
  "markets_kept L L' \<longleftrightarrow> (\<forall>k x. market_at L k = Some x \<longrightarrow> market_at L' k = Some x)"

lemma market_at_write [simp]:
  "market_at (L(j \<mapsto> b)) k = (if k = j then market_of b else market_at L k)"
  by (simp add: market_at_def)

lemma market_at_simps [simp]:
  "L k = None \<Longrightarrow> market_at L k = None"
  "L k = Some a \<Longrightarrow> market_at L k = market_of a"
  by (simp_all add: market_at_def)

lemma markets_kept_refl: "markets_kept L L"
  by (simp add: markets_kept_def)

lemma markets_kept_trans: "markets_kept L M \<Longrightarrow> markets_kept M N \<Longrightarrow> markets_kept L N"
  by (simp add: markets_kept_def)

lemma markets_kept_write:
  "market_at L j = None \<or> market_at L j = market_of b \<Longrightarrow> markets_kept L (L(j \<mapsto> b))"
  by (auto simp: markets_kept_def)

lemmas markets_kept_write2 = markets_kept_trans [OF markets_kept_write markets_kept_write]

lemma uni_step_markets:
  assumes "uni_step P S s s'"
  shows "markets_kept (fst s) (fst s')"
  using assms
proof cases
  case init
  then show ?thesis by (auto dest!: uni_init_ok intro: markets_kept_write)
next
  case create_curve
  then show ?thesis by (elim uni_create_curve_ok) (simp add: markets_kept_write2)
next
  case buy
  then show ?thesis by (elim uni_buy_ok) (simp add: markets_kept_write)
next
  case sell
  then show ?thesis by (elim uni_sell_ok) (simp add: markets_kept_write)
next
  case create_pool
  then show ?thesis by (elim uni_create_pool_ok) (simp add: markets_kept_write)
next
  case add
  then show ?thesis by (elim uni_add_ok) (simp add: markets_kept_write)
next
  case remove
  then show ?thesis by (elim uni_remove_ok) (simp add: markets_kept_write)
next
  case swap
  then show ?thesis by (elim uni_swap_ok) (simp add: markets_kept_write)
next
  case create_sale
  then show ?thesis by (elim uni_create_sale_ok) (simp add: markets_kept_write2)
next
  case commit
  then show ?thesis by (elim uni_commit_ok) (elim disjE; simp add: markets_kept_write2)
next
  case finalize
  then show ?thesis by (auto dest!: uni_finalize_ok intro: markets_kept_write)
next
  case claim_alloc
  then show ?thesis by (auto dest!: uni_claim_alloc_ok intro: markets_kept_write)
next
  case create_exit
  then show ?thesis by (elim uni_create_exit_ok) (simp add: markets_kept_write2)
next
  case settle
  then show ?thesis by (auto dest!: uni_settle_ok intro: markets_kept_write)
next
  case claim
  then show ?thesis by (elim uni_claim_ok) (simp add: markets_kept_write)
next
  case token
  then show ?thesis by (simp add: markets_kept_refl)
qed

interpretation uni_markets: ordered_by_steps "uni_step P S"
  "\<lambda>s s'. markets_kept (fst s) (fst s')" for P S
  by unfold_locales (auto intro: markets_kept_refl markets_kept_trans uni_step_markets)

text \<open>The three creating instructions: the market they leave behind and where.\<close>

lemma uni_create_sale_market:
  "uni_create_commitment_sale P clk trust ms sk cr sid amt tq oq dur UL = Inr (UL', ev) \<Longrightarrow>
   market_at UL' sk = Some (SaleM trust sid cr amt tq) \<and>
   fst (find_program_address P [Lit ''sale'', B32 trust, B32 sid] AEQI_UNIFUTURES_ID) = sk"
  by (auto simp: uni_create_commitment_sale_def uni_accounts_defs res Let_def)

lemma uni_create_curve_market:
  "uni_create_curve P S trust ms ck am qm cr cid ct sp ep mx rr UL tk = Inr (UL', ev) \<Longrightarrow>
   market_at UL' ck = Some (CurveM trust cid cr mx) \<and>
   fst (find_program_address P [Lit ''curve'', B32 trust, B32 cid] AEQI_UNIFUTURES_ID) = ck"
  by (auto simp: uni_create_curve_def uni_accounts_defs res)

lemma uni_create_exit_market:
  "uni_create_exit P S clk trust ms ek am cr eid q snap dur UL tk = Inr (UL', ev) \<Longrightarrow>
   market_at UL' ek = Some (ExitM trust eid cr q) \<and>
   fst (find_program_address P [Lit ''exit'', B32 trust, B32 eid] AEQI_UNIFUTURES_ID) = ek"
  by (auto simp: uni_create_exit_def uni_accounts_defs res Let_def)

section \<open>Runs of the two programs\<close>

text \<open>
  A step is one successful instruction of \<open>aeqi_funding\<close>, signed by \<open>a\<close>, or any step of
  \<open>aeqi_unifutures\<close> and of the token ledger in between.
\<close>

type_synonym 'tk funding_state = "funding_store \<times> uni_store \<times> 'tk"

inductive funding_step :: "pda_sdk \<Rightarrow> 'tk spl \<Rightarrow> pubkey \<Rightarrow> 'tk funding_state \<Rightarrow> 'tk funding_state \<Rightarrow> bool"
  for P S where
  init: "funding_init P TL trust ms a L = Inr (L', ev) \<Longrightarrow> funding_step P S a (L, UL, tk) (L', UL, tk)"
| create: "funding_create_funding_request P clk BL trust ms rk bk a rid kind bid amt tq L = Inr (L', ev) \<Longrightarrow>
    funding_step P S a (L, UL, tk) (L', UL, tk)"
| activate_sale: "funding_activate_commitment_sale P clk BL rk bk trust ums sk a sid oq dur L UL =
    Inr (L', UL', ev, uev) \<Longrightarrow> funding_step P S a (L, UL, tk) (L', UL', tk)"
| activate_curve: "funding_activate_bonding_curve P S clk BL rk bk trust ums ck am qm a cid ct sp ep mx rr
    L UL tk = Inr (L', UL', ev, uev) \<Longrightarrow> funding_step P S a (L, UL, tk) (L', UL', tk)"
| activate_exit: "funding_activate_exit P S clk BL rk bk trust ums ek am a eid q snap dur L UL tk =
    Inr (L', UL', ev, uev) \<Longrightarrow> funding_step P S a (L, UL, tk) (L', UL', tk)"
| finalize: "funding_finalize_funding_request P rk a L = Inr (L', ev) \<Longrightarrow>
    funding_step P S a (L, UL, tk) (L', UL, tk)"
| cancel: "funding_cancel_funding_request P rk a L = Inr (L', ev) \<Longrightarrow>
    funding_step P S a (L, UL, tk) (L', UL, tk)"
| market: "uni_step P S (UL, tk) (UL', tk') \<Longrightarrow> funding_step P S a (L, UL, tk) (L, UL', tk')"

definition funding_next :: "pda_sdk \<Rightarrow> 'tk spl \<Rightarrow> 'tk funding_state \<Rightarrow> 'tk funding_state \<Rightarrow> bool" where
  "funding_next P S s s' \<longleftrightarrow> (\<exists>a. funding_step P S a s s')"

lemma funding_nextI: "funding_step P S a s s' \<Longrightarrow> funding_next P S s s'"
  by (auto simp: funding_next_def)

text \<open>The life of one request in a step signed by \<open>a\<close>.\<close>

definition same_request :: "FundingRequest \<Rightarrow> FundingRequest \<Rightarrow> bool" where
  "same_request r r' \<longleftrightarrow> r' = r\<lparr>fr_status := fr_status r', fr_primitive_id := fr_primitive_id r'\<rparr>"

definition request_change :: "pubkey \<Rightarrow> FundingRequest \<Rightarrow> FundingRequest \<Rightarrow> bool" where
  "request_change a r r' \<longleftrightarrow> same_request r r' \<and>
     (r' = r \<or> a = fr_creator r \<and>
       (fr_status r = 0 \<and> fr_status r' = 1 \<or>
        fr_primitive_id r' = fr_primitive_id r \<and>
          (fr_status r = 1 \<and> fr_status r' = 2 \<or> fr_status r = 0 \<and> fr_status r' = 3)))"

lemma request_change_simps [simp]:
  "request_change a r r"
  "fr_status r = 0 \<Longrightarrow> request_change (fr_creator r) r (r\<lparr>fr_status := 1, fr_primitive_id := i\<rparr>)"
  "fr_status r = 1 \<Longrightarrow> request_change (fr_creator r) r (r\<lparr>fr_status := 2\<rparr>)"
  "fr_status r = 0 \<Longrightarrow> request_change (fr_creator r) r (r\<lparr>fr_status := 3\<rparr>)"
  by (simp_all add: request_change_def same_request_def)

lemma funding_step_request:
  assumes "funding_step P S a s s'" and k: "fst s k = Some (RequestA r)"
  shows "\<exists>r'. fst s' k = Some (RequestA r') \<and> request_change a r r'"
  using assms(1)
proof cases
  case init
  then show ?thesis using k by (auto dest!: funding_init_ok)
next
  case create
  then show ?thesis using k by (elim funding_create_ok) auto
next
  case activate_sale
  then show ?thesis using k by (elim funding_activate_sale_ok) auto
next
  case activate_curve
  then show ?thesis using k by (elim funding_activate_curve_ok) auto
next
  case activate_exit
  then show ?thesis using k by (elim funding_activate_exit_ok) auto
next
  case finalize
  then show ?thesis using k by (auto dest!: funding_close_ok)
next
  case cancel
  then show ?thesis using k by (auto dest!: funding_close_ok)
next
  case market
  then show ?thesis using k by simp
qed

text \<open>The same along a run: the status moves on, the market of a request is fixed once set.\<close>

definition request_later :: "FundingRequest \<Rightarrow> FundingRequest \<Rightarrow> bool" where
  "request_later r r' \<longleftrightarrow> same_request r r' \<and>
     (fr_status r \<noteq> 0 \<longrightarrow> fr_primitive_id r' = fr_primitive_id r) \<and>
     (fr_status r = 0 \<or> fr_status r' = fr_status r \<or> fr_status r = 1 \<and> fr_status r' = 2)"

definition requests_later :: "'tk funding_state \<Rightarrow> 'tk funding_state \<Rightarrow> bool" where
  "requests_later s s' \<longleftrightarrow> (\<forall>k r. fst s k = Some (RequestA r) \<longrightarrow>
     (\<exists>r'. fst s' k = Some (RequestA r') \<and> request_later r r'))"

lemma request_change_later: "request_change a r r' \<Longrightarrow> request_later r r'"
  by (auto simp: request_change_def request_later_def)

lemma same_request_trans: "same_request r s \<Longrightarrow> same_request s t \<Longrightarrow> same_request r t"
  by (cases r; cases s; cases t) (auto simp: same_request_def)

lemma request_later_trans:
  assumes "request_later r s" and "request_later s t"
  shows "request_later r t"
proof -
  have "same_request r t" using assms by (auto simp: request_later_def intro: same_request_trans)
  with assms show ?thesis unfolding request_later_def by auto
qed

interpretation funding_life: ordered_by_steps "funding_next P S" requests_later for P S
proof unfold_locales
  show "requests_later s s" for s :: "'a funding_state"
    by (auto simp: requests_later_def request_later_def same_request_def)
  show "requests_later s u" if "requests_later s t" "requests_later t u" for s t u :: "'a funding_state"
    using that unfolding requests_later_def by (meson request_later_trans)
  show "requests_later s t" if "funding_next P S s t" for s t
    using that funding_step_request request_change_later
    unfolding requests_later_def funding_next_def by meson
qed

interpretation funding_module: module_init funding_init
  by unfold_locales (auto dest!: funding_init_ok)

text \<open>The market of an activated request: at the canonical address of its kind, with the
  request's TRUST, primitive id, creator and, for a sale, amounts.\<close>

definition request_market :: "pda_sdk \<Rightarrow> uni_store \<Rightarrow> FundingRequest \<Rightarrow> market option" where
  "request_market P UL r =
     market_at UL (fst (find_program_address P
       [Lit (if fr_kind r = 0 then ''sale'' else if fr_kind r = 1 then ''curve'' else ''exit''),
        B32 (fr_trust r), B32 (fr_primitive_id r)] AEQI_UNIFUTURES_ID))"

definition funded :: "pda_sdk \<Rightarrow> uni_store \<Rightarrow> FundingRequest \<Rightarrow> bool" where
  "funded P UL r \<longleftrightarrow>
     fr_kind r = 0 \<and> request_market P UL r = Some (SaleM (fr_trust r) (fr_primitive_id r)
       (fr_creator r) (fr_asset_amount r) (fr_target_quote r)) \<or>
     fr_kind r = 1 \<and> (\<exists>n. request_market P UL r = Some (CurveM (fr_trust r) (fr_primitive_id r)
       (fr_creator r) n)) \<or>
     fr_kind r = 2 \<and> (\<exists>n. request_market P UL r = Some (ExitM (fr_trust r) (fr_primitive_id r)
       (fr_creator r) n))"

definition funding_inv :: "pda_sdk \<Rightarrow> 'tk funding_state \<Rightarrow> bool" where
  "funding_inv P s \<longleftrightarrow> (\<forall>k r. fst s k = Some (RequestA r) \<longrightarrow>
     fr_status r = 1 \<or> fr_status r = 2 \<longrightarrow> funded P (fst (snd s)) r)"

lemma funded_kept: "funded P UL r \<Longrightarrow> markets_kept UL UL' \<Longrightarrow> funded P UL' r"
  by (auto simp: funded_def request_market_def markets_kept_def)

lemma funded_status [simp]: "funded P UL (r\<lparr>fr_status := n\<rparr>) = funded P UL r"
  by (simp add: funded_def request_market_def)

lemma funding_inv_write:
  assumes "funding_inv P (L, UL, tk)" and "markets_kept UL UL'"
    and "\<And>r. b = RequestA r \<Longrightarrow> fr_status r = 1 \<or> fr_status r = 2 \<Longrightarrow> funded P UL' r"
  shows "funding_inv P (L(j \<mapsto> b), UL', tk')"
  using assms by (auto simp: funding_inv_def intro: funded_kept)

lemma funding_step_inv:
  assumes "funding_step P S a s s'" and inv: "funding_inv P s"
  shows "funding_inv P s'"
  using assms(1)
proof cases
  case init
  then show ?thesis using inv
    by (auto dest!: funding_init_ok intro!: funding_inv_write markets_kept_refl)
next
  case (create clk BL trust ms rk bk rid kind bid amt tq L L' ev UL tk)
  then show ?thesis using inv
    by (elim funding_create_ok) (auto intro!: funding_inv_write markets_kept_refl)
next
  case (activate_sale clk BL rk bk trust ums sk sid oq dur L UL L' UL' ev uev tk)
  from activate_sale(3) obtain r where
    c: "uni_create_commitment_sale P clk (fr_trust r) ums sk (fr_creator r) sid (fr_asset_amount r)
      (fr_target_quote r) oq dur UL = Inr (UL', uev)" and r: "fr_kind r = 0"
    "L' = L(rk \<mapsto> RequestA (r\<lparr>fr_status := 1, fr_primitive_id := sid\<rparr>))"
    by (auto elim!: funding_activate_sale_ok)
  from uni_step_markets [OF uni_step.create_sale [OF c]] have "markets_kept UL UL'" by simp
  with inv activate_sale(1,2) r uni_create_sale_market [OF c] show ?thesis
    by (auto intro!: funding_inv_write simp: funded_def request_market_def)
next
  case (activate_curve clk BL rk bk trust ums ck am qm cid ct sp ep mx rr L UL tk L' UL' ev uev)
  from activate_curve(3) obtain r where
    c: "uni_create_curve P S (fr_trust r) ums ck am qm (fr_creator r) cid ct sp ep mx rr UL tk =
      Inr (UL', uev)" and r: "fr_kind r = 1"
    "L' = L(rk \<mapsto> RequestA (r\<lparr>fr_status := 1, fr_primitive_id := cid\<rparr>))"
    by (auto elim!: funding_activate_curve_ok)
  from uni_step_markets [OF uni_step.create_curve [OF c]] have "markets_kept UL UL'" by simp
  with inv activate_curve(1,2) r uni_create_curve_market [OF c] show ?thesis
    by (auto intro!: funding_inv_write simp: funded_def request_market_def)
next
  case (activate_exit clk BL rk bk trust ums ek am eid q snap dur L UL tk L' UL' ev uev)
  from activate_exit(3) obtain r where
    c: "uni_create_exit P S clk (fr_trust r) ums ek am (fr_creator r) eid q snap dur UL tk =
      Inr (UL', uev)" and r: "fr_kind r = 2"
    "L' = L(rk \<mapsto> RequestA (r\<lparr>fr_status := 1, fr_primitive_id := eid\<rparr>))"
    by (auto elim!: funding_activate_exit_ok)
  from uni_step_markets [OF uni_step.create_exit [OF c]] have "markets_kept UL UL'" by simp
  with inv activate_exit(1,2) r uni_create_exit_market [OF c] show ?thesis
    by (auto intro!: funding_inv_write simp: funded_def request_market_def)
next
  case finalize
  then show ?thesis using inv
    by (auto dest!: funding_close_ok simp: funding_inv_def split: if_splits)
next
  case cancel
  then show ?thesis using inv
    by (auto dest!: funding_close_ok intro!: funding_inv_write markets_kept_refl)
next
  case (market UL tk UL' tk' L)
  from uni_step_markets [OF market(3)] have "markets_kept UL UL'" by simp
  with market inv show ?thesis by (auto simp: funding_inv_def intro: funded_kept)
qed

interpretation funding_run: kept_by_steps "funding_next P S" "funding_inv P" for P S
  by unfold_locales (auto simp: funding_next_def intro: funding_step_inv)

section \<open>Properties\<close>

text \<open>
  C9. An activated request has its market: in every state that the two programs reach from
  empty stores, an activated or finalized request has, at the canonical address of its kind,
  a sale, curve or exit with the request's TRUST, primitive id and creator, and a sale has
  the request's amounts.
\<close>

theorem funding_activated_has_market:
  assumes "(funding_next P S)\<^sup>*\<^sup>* (Map.empty, UL0, tk0) (L, UL, tk)" and "L k = Some (RequestA r)"
    and "fr_status r = request_status_u8 Activated \<or> fr_status r = request_status_u8 Finalized"
  shows "funded P UL r"
proof -
  have "funding_inv P (Map.empty, UL0, tk0)" by (simp add: funding_inv_def)
  from funding_run.run_keeps [OF assms(1) this] assms(2,3) show ?thesis
    by (auto simp: funding_inv_def)
qed

text \<open>The life of a funding request: its terms never change; only its creator's signature
  moves its status; and along every run it goes from pending to activated to finalized or
  from pending to cancelled, keeping its market once it is activated.
\<close>

theorem funding_request_lifecycle:
  assumes "(funding_next P S)\<^sup>*\<^sup>* s s'" and "fst s k = Some (RequestA r)"
  shows "(\<exists>r'. fst s' k = Some (RequestA r') \<and> request_later r r') \<and>
    (\<forall>a t. funding_step P S a s t \<and> a \<noteq> fr_creator r \<longrightarrow> fst t k = Some (RequestA r))"
proof
  show "\<exists>r'. fst s' k = Some (RequestA r') \<and> request_later r r'"
    using funding_life.run_rel [OF assms(1)] assms(2) by (simp add: requests_later_def)
  show "\<forall>a t. funding_step P S a s t \<and> a \<noteq> fr_creator r \<longrightarrow> fst t k = Some (RequestA r)"
    using funding_step_request [OF _ assms(2)] by (fastforce simp: request_change_def)
qed

section \<open>A concrete round\<close>

text \<open>
  Key 7 opens both modules for TRUST 5, files two requests of 100 against budget 4, which has
  100 in all, and activates both.
\<close>

definition demo_fkey :: "seed list \<Rightarrow> pubkey" where
  "demo_fkey s = demo_addr s AEQI_FUNDING_ID"

definition demo_fms :: pubkey where
  "demo_fms = demo_fkey [Lit ''funding_module'', B32 demo_trust]"

definition demo_rq :: "bytes32 \<Rightarrow> pubkey" where
  "demo_rq i = demo_fkey (request_seeds demo_trust i)"

definition demo_mkey :: "seed list \<Rightarrow> pubkey" where
  "demo_mkey s = demo_addr s AEQI_UNIFUTURES_ID"

definition demo_mms :: pubkey where
  "demo_mms = demo_mkey [Lit ''unifutures_module'', B32 demo_trust]"

definition demo_sale :: "bytes32 \<Rightarrow> pubkey" where
  "demo_sale i = demo_mkey [Lit ''sale'', B32 demo_trust, B32 i]"

definition demo_budgets :: budget_store where
  "demo_budgets = [50 \<mapsto> BudgetA
     \<lparr>b_trust = demo_trust, b_budget_id = 4, b_grantor = 7, b_target_role_id = 1,
      b_parent_budget_id = 0, b_amount = 100, b_spent = 0, b_expiry = 0, b_frozen = False,
      b_bump = 255\<rparr>]"

definition demo_activate :: "bytes32 \<Rightarrow> bytes32 \<Rightarrow> funding_store \<Rightarrow> uni_store \<Rightarrow> activate_result" where
  "demo_activate i sid = funding_activate_commitment_sale demo_sdk demo_clock demo_budgets (demo_rq i)
     50 demo_trust demo_mms (demo_sale sid) 7 sid 500 60"

definition demo_request :: "bytes32 \<Rightarrow> funding_store \<Rightarrow> funding_result" where
  "demo_request i = funding_create_funding_request demo_sdk demo_clock demo_budgets demo_trust demo_fms
     (demo_rq i) 50 7 i 0 4 100 10"

lemmas demo_funding_defs = funding_init_def funding_create_funding_request_def
  funding_activate_commitment_sale_def funding_accounts_defs demo_request_def demo_activate_def
  uni_init_def uni_create_commitment_sale_def uni_accounts_defs activate_guard_def
  require_budget_capacity_def demo_fms_def demo_rq_def demo_mms_def demo_sale_def demo_fkey_def
  demo_mkey_def demo_budgets_def demo_clock_def request_seeds_def demo_trust_defs trust_account_def
  load_def require_def seeds_ok_def init_account_def canonical_def checked_add_def checked_sub_def
  ichecked_add_def word_sless_alt Let_def

lemma demo_funding_run:
  obtains U1 e1 L1 e2 L2 e3 L3 e4 L4 U2 e5 u5 L5 U3 e6 u6 r1 r2 where
    "uni_init demo_sdk demo_open demo_trust demo_mms 7 Map.empty = Inr (U1, e1)"
    "funding_init demo_sdk demo_open demo_trust demo_fms 7 Map.empty = Inr (L1, e2)"
    "demo_request 1 L1 = Inr (L2, e3)" "demo_request 2 L2 = Inr (L3, e4)"
    "demo_activate 1 8 L3 U1 = Inr (L4, U2, e5, u5)"
    "demo_activate 2 9 L4 U2 = Inr (L5, U3, e6, u6)"
    "L5 (demo_rq 1) = Some (RequestA r1)" "fr_status r1 = 1" "fr_asset_amount r1 = 100"
    "L5 (demo_rq 2) = Some (RequestA r2)" "fr_status r2 = 1" "fr_asset_amount r2 = 100"
    "fr_creator r1 = 7"
proof -
  have "\<exists>U1 e1 L1 e2 L2 e3 L3 e4 L4 U2 e5 u5 L5 U3 e6 u6 r1 r2.
    uni_init demo_sdk demo_open demo_trust demo_mms 7 Map.empty = Inr (U1, e1) \<and>
    funding_init demo_sdk demo_open demo_trust demo_fms 7 Map.empty = Inr (L1, e2) \<and>
    demo_request 1 L1 = Inr (L2, e3) \<and> demo_request 2 L2 = Inr (L3, e4) \<and>
    demo_activate 1 8 L3 U1 = Inr (L4, U2, e5, u5) \<and>
    demo_activate 2 9 L4 U2 = Inr (L5, U3, e6, u6) \<and>
    L5 (demo_rq 1) = Some (RequestA r1) \<and> fr_status r1 = 1 \<and> fr_asset_amount r1 = 100 \<and>
    L5 (demo_rq 2) = Some (RequestA r2) \<and> fr_status r2 = 1 \<and> fr_asset_amount r2 = 100 \<and>
    fr_creator r1 = 7"
    by (simp add: demo_funding_defs AEQI_FUNDING_ID_def AEQI_UNIFUTURES_ID_def)
  then show thesis using that by blast
qed

definition demo_tokens :: ledger where
  "demo_tokens = \<lparr>mints = Map.empty, wallets = Map.empty\<rparr>"

lemma demo_funding_steps:
  obtains L4 U2 L5 U3 r1 where
    "(funding_next demo_sdk S)\<^sup>*\<^sup>* (Map.empty, Map.empty, tk) (L4, U2, tk)"
    "(funding_next demo_sdk S)\<^sup>*\<^sup>* (L4, U2, tk) (L5, U3, tk)"
    "L4 (demo_rq 1) = Some (RequestA r1)" "L5 (demo_rq 1) = Some (RequestA r1)" "fr_status r1 = 1"
    "fr_creator r1 = 7"
proof -
  obtain U1 e1 L1 e2 L2 e3 L3 e4 L4 U2 e5 u5 L5 U3 e6 u6 r1 r2 where
    u: "uni_init demo_sdk demo_open demo_trust demo_mms 7 Map.empty = Inr (U1, e1)" and
    f: "funding_init demo_sdk demo_open demo_trust demo_fms 7 Map.empty = Inr (L1, e2)" and
    q: "demo_request 1 L1 = Inr (L2, e3)" "demo_request 2 L2 = Inr (L3, e4)" and
    a: "demo_activate 1 8 L3 U1 = Inr (L4, U2, e5, u5)" "demo_activate 2 9 L4 U2 = Inr (L5, U3, e6, u6)"
    and r: "L5 (demo_rq 1) = Some (RequestA r1)" "fr_status r1 = 1" "fr_creator r1 = 7"
    by (rule demo_funding_run)
  have "(funding_next demo_sdk S)\<^sup>*\<^sup>* (Map.empty, Map.empty, tk) (Map.empty, U1, tk)"
    by (rule r_into_rtranclp, rule funding_nextI, rule funding_step.market [OF uni_step.init [OF u]])
  also have "(funding_next demo_sdk S)\<^sup>*\<^sup>* (Map.empty, U1, tk) (L1, U1, tk)"
    by (rule r_into_rtranclp, rule funding_nextI, rule funding_step.init [OF f])
  also have "(funding_next demo_sdk S)\<^sup>*\<^sup>* (L1, U1, tk) (L2, U1, tk)"
    by (rule r_into_rtranclp, rule funding_nextI, rule funding_step.create [OF q(1) [unfolded demo_request_def]])
  also have "(funding_next demo_sdk S)\<^sup>*\<^sup>* (L2, U1, tk) (L3, U1, tk)"
    by (rule r_into_rtranclp, rule funding_nextI, rule funding_step.create [OF q(2) [unfolded demo_request_def]])
  also have "(funding_next demo_sdk S)\<^sup>*\<^sup>* (L3, U1, tk) (L4, U2, tk)"
    by (rule r_into_rtranclp, rule funding_nextI, rule funding_step.activate_sale [OF a(1) [unfolded demo_activate_def]])
  finally have 1: "(funding_next demo_sdk S)\<^sup>*\<^sup>* (Map.empty, Map.empty, tk) (L4, U2, tk)" .
  have 2: "(funding_next demo_sdk S)\<^sup>*\<^sup>* (L4, U2, tk) (L5, U3, tk)"
    by (rule r_into_rtranclp, rule funding_nextI, rule funding_step.activate_sale [OF a(2) [unfolded demo_activate_def]])
  have "demo_rq 1 \<noteq> demo_rq 2"
    by (simp add: demo_rq_def demo_fkey_def request_seeds_def demo_trust_defs AEQI_FUNDING_ID_def)
  with a(2) r(1) have "L4 (demo_rq 1) = Some (RequestA r1)"
    unfolding demo_activate_def by (auto elim!: funding_activate_sale_ok)
  then show thesis by (rule that [OF 1 2 _ r])
qed

theorem funding_activated_has_market_witness:
  "\<exists>L UL r. (funding_next demo_sdk demo_spl)\<^sup>*\<^sup>* (Map.empty, Map.empty, demo_tokens) (L, UL, demo_tokens) \<and>
     L (demo_rq 1) = Some (RequestA r) \<and> fr_status r = 1 \<and> funded demo_sdk UL r"
proof -
  obtain L UL L5 U3 r where
    s: "(funding_next demo_sdk demo_spl)\<^sup>*\<^sup>* (Map.empty, Map.empty, demo_tokens) (L, UL, demo_tokens)"
    and r: "L (demo_rq 1) = Some (RequestA r)" "fr_status r = 1" by (rule demo_funding_steps)
  from funding_activated_has_market [OF s r(1)] r(2) have "funded demo_sdk UL r" by simp
  with s r show ?thesis by blast
qed

theorem funding_request_lifecycle_witness:
  "\<exists>L UL L' UL' r. (funding_next demo_sdk demo_spl)\<^sup>*\<^sup>* (L, UL, demo_tokens) (L', UL', demo_tokens) \<and>
     L (demo_rq 1) = Some (RequestA r) \<and> fr_status r = 1 \<and>
     (\<exists>r'. L' (demo_rq 1) = Some (RequestA r') \<and> request_later r r')"
proof -
  obtain L4 U2 L5 U3 r where
    s: "(funding_next demo_sdk demo_spl)\<^sup>*\<^sup>* (L4, U2, demo_tokens) (L5, U3, demo_tokens)"
    and r: "L4 (demo_rq 1) = Some (RequestA r)" "fr_status r = 1" by (rule demo_funding_steps)
  from funding_request_lifecycle [OF s, of "demo_rq 1" r] r
  have "\<exists>r'. L5 (demo_rq 1) = Some (RequestA r') \<and> request_later r r'" by simp
  with s r show ?thesis by blast
qed

end
