(* ===== verification/Aeqi_Treasury.thy ===== *)
theory Aeqi_Treasury
  imports Aeqi_Trust Spl_Interface
begin

text \<open>
  The program \<open>aeqi_treasury\<close>: a vault of SPL tokens under a program-derived authority.
  Anyone deposits, the recorded treasury authority withdraws. The state of an instruction is
  the program's store and the token state.
\<close>

datatype TreasuryError = Unauthorized | TrustNotInCreationMode

record TreasuryModuleState =
  tm_trust :: pubkey
  tm_treasury_authority :: pubkey
  tm_bump :: u8

datatype treasury_acct = TreasuryModuleA TreasuryModuleState

type_synonym treasury_store = "treasury_acct accts"

fun as_treasury_module :: "treasury_acct \<Rightarrow> TreasuryModuleState option" where
  "as_treasury_module (TreasuryModuleA m) = Some m"

datatype treasury_event =
    TreasuryWithdrew pubkey pubkey u64
  | TreasuryDeposited pubkey pubkey u64

definition AEQI_TREASURY_ID :: pubkey where
  "AEQI_TREASURY_ID = 0x1383c2fc79e77df581e2cc90a28a4381a6cd2a8bab11ffec409beda9619b86fa"

section \<open>Instructions\<close>

definition InitTreasury_accounts :: "pda_sdk \<Rightarrow> trust_store \<Rightarrow> treasury_store \<Rightarrow> pubkey \<Rightarrow> pubkey \<Rightarrow>
  TreasuryError err + Trust \<times> u8" where
  "InitTreasury_accounts P TL L trust module_state =
     rbind (trust_account P TL trust) (\<lambda>t.
     rbind (init_account P [Lit ''treasury_module'', B32 trust] AEQI_TREASURY_ID L module_state)
       (\<lambda>bump. Inr (t, bump)))"

definition treasury_init :: "pubkey \<Rightarrow> pda_sdk \<Rightarrow> trust_store \<Rightarrow> pubkey \<Rightarrow> pubkey \<Rightarrow> pubkey \<Rightarrow>
  treasury_store \<Rightarrow> TreasuryError err + treasury_store \<times> treasury_event list" where
  "treasury_init treasury_authority P TL trust module_state payer L =
     rbind (InitTreasury_accounts P TL L trust module_state) (\<lambda>(t, bump).
     require (t_creation_mode t) (Prog TrustNotInCreationMode)
     (require (payer = t_authority t) (Prog Unauthorized)
     (Inr (L(module_state \<mapsto> TreasuryModuleA
             \<lparr>tm_trust = trust, tm_treasury_authority = treasury_authority, tm_bump = bump\<rparr>), []))))"

text \<open>The module state and the vault authority of a deposit or a withdrawal.\<close>

definition treasury_module_account :: "pda_sdk \<Rightarrow> treasury_store \<Rightarrow> pubkey \<Rightarrow> pubkey \<Rightarrow>
  TreasuryError err + TreasuryModuleState" where
  "treasury_module_account P L trust key =
     rbind (load as_treasury_module L key) (\<lambda>m.
     require (seeds_ok P [Lit ''treasury_module'', B32 trust] (tm_bump m) AEQI_TREASURY_ID key)
       (Anchor ConstraintSeeds) (Inr m))"

definition treasury_vault_seeds :: "pubkey \<Rightarrow> seed list" where
  "treasury_vault_seeds trust = [Lit ''treasury_vault_authority'', B32 trust]"

definition TreasuryDeposit_accounts :: "pda_sdk \<Rightarrow> 'tk spl \<Rightarrow> treasury_store \<Rightarrow> 'tk \<Rightarrow> pubkey \<Rightarrow> pubkey \<Rightarrow>
  pubkey \<Rightarrow> pubkey \<Rightarrow> pubkey \<Rightarrow> pubkey \<Rightarrow> TreasuryError err + TreasuryModuleState \<times> mint_data" where
  "TreasuryDeposit_accounts P S L tk trust module_state vault_authority mint vault depositor_ta =
     rbind (treasury_module_account P L trust module_state) (\<lambda>m.
     rbind (canonical P (treasury_vault_seeds trust) AEQI_TREASURY_ID vault_authority) (\<lambda>_.
     rbind (mint_account S tk mint) (\<lambda>mi.
     rbind (token_account S tk vault mint (Some vault_authority)) (\<lambda>_.
     rbind (token_account S tk depositor_ta mint None) (\<lambda>_.
       Inr (m, mi))))))"

definition treasury_deposit :: "pda_sdk \<Rightarrow> 'tk spl \<Rightarrow> pubkey \<Rightarrow> pubkey \<Rightarrow> pubkey \<Rightarrow> pubkey \<Rightarrow> pubkey \<Rightarrow>
  pubkey \<Rightarrow> pubkey \<Rightarrow> u64 \<Rightarrow> treasury_store \<Rightarrow> 'tk \<Rightarrow>
  TreasuryError err + treasury_store \<times> 'tk \<times> treasury_event list" where
  "treasury_deposit P S trust module_state vault_authority mint vault depositor_ta depositor amount
     L tk =
     rbind (TreasuryDeposit_accounts P S L tk trust module_state vault_authority mint vault
              depositor_ta) (\<lambda>(m, mi).
     rbind (spl_call (transfer_checked S depositor_ta mint vault depositor amount
              (mi_decimals mi) tk)) (\<lambda>tk'.
       Inr (L, tk', [TreasuryDeposited (tm_trust m) depositor_ta amount])))"

definition TreasuryWithdraw_accounts :: "pda_sdk \<Rightarrow> 'tk spl \<Rightarrow> treasury_store \<Rightarrow> 'tk \<Rightarrow> pubkey \<Rightarrow> pubkey \<Rightarrow>
  pubkey \<Rightarrow> pubkey \<Rightarrow> pubkey \<Rightarrow> pubkey \<Rightarrow> TreasuryError err + TreasuryModuleState \<times> mint_data" where
  "TreasuryWithdraw_accounts P S L tk trust module_state vault_authority mint vault recipient_ta =
     rbind (treasury_module_account P L trust module_state) (\<lambda>m.
     rbind (canonical P (treasury_vault_seeds trust) AEQI_TREASURY_ID vault_authority) (\<lambda>_.
     rbind (mint_account S tk mint) (\<lambda>mi.
     rbind (token_account S tk vault mint (Some vault_authority)) (\<lambda>_.
     rbind (token_account S tk recipient_ta mint None) (\<lambda>_.
       Inr (m, mi))))))"

text \<open>The vault authority signs the transfer by its seeds; \<open>authority\<close> signs the transaction.\<close>

definition treasury_withdraw :: "pda_sdk \<Rightarrow> 'tk spl \<Rightarrow> pubkey \<Rightarrow> pubkey \<Rightarrow> pubkey \<Rightarrow> pubkey \<Rightarrow> pubkey \<Rightarrow>
  pubkey \<Rightarrow> pubkey \<Rightarrow> u64 \<Rightarrow> treasury_store \<Rightarrow> 'tk \<Rightarrow>
  TreasuryError err + treasury_store \<times> 'tk \<times> treasury_event list" where
  "treasury_withdraw P S trust module_state vault_authority mint vault recipient_ta authority amount
     L tk =
     rbind (TreasuryWithdraw_accounts P S L tk trust module_state vault_authority mint vault
              recipient_ta) (\<lambda>(m, mi).
     require (authority = tm_treasury_authority m) (Prog Unauthorized)
     (rbind (spl_call (transfer_checked S vault mint recipient_ta vault_authority amount
              (mi_decimals mi) tk)) (\<lambda>tk'.
       Inr (L, tk', [TreasuryWithdrew (tm_trust m) recipient_ta amount]))))"

section \<open>Lemmas\<close>

lemma as_treasury_acct [res]: "as_treasury_module a = Some m \<longleftrightarrow> a = TreasuryModuleA m"
  by (cases a) simp

lemmas treasury_accounts_defs = InitTreasury_accounts_def TreasuryDeposit_accounts_def
  TreasuryWithdraw_accounts_def treasury_module_account_def

lemma treasury_init_ok:
  "treasury_init ta P TL trust ms payer L = Inr (L', ev) \<Longrightarrow>
   \<exists>t a. TL trust = Some (TrustA t) \<and> t_creation_mode t \<and> payer = t_authority t \<and>
     L ms = None \<and> L' = L(ms \<mapsto> a)"
  by (auto simp: treasury_init_def treasury_accounts_defs res)

interpretation treasury_module: module_init "treasury_init ta" for ta
  by unfold_locales (rule treasury_init_ok)

lemma treasury_withdraw_ok:
  "treasury_withdraw P S trust ms va mint vault rta a n L tk = Inr (L', tk', ev) \<Longrightarrow>
   \<exists>m d. L ms = Some (TreasuryModuleA m) \<and> a = tm_treasury_authority m \<and> L' = L \<and>
     transfer_checked S vault mint rta va n d tk = Some tk'"
  by (auto simp: treasury_withdraw_def treasury_accounts_defs res)

lemma treasury_deposit_ok:
  "treasury_deposit P S trust ms va mint vault dta a n L tk = Inr (L', tk', ev) \<Longrightarrow>
   \<exists>d. L' = L \<and> transfer_checked S dta mint vault a n d tk = Some tk'"
  by (auto simp: treasury_deposit_def treasury_accounts_defs res)

section \<open>Properties\<close>

text \<open>Only the treasury authority withdraws, and a withdrawal moves exactly its amount: it
  succeeds only under the recorded authority's signature, the vault loses and the recipient
  gains the amount, every other balance and the program's state are unchanged.
\<close>

theorem treasury_withdraw_exact:
  assumes "spl_law S" and "vault \<noteq> rta"
    and "treasury_withdraw P S trust ms va mint vault rta a n L tk = Inr (L', tk', ev)"
  shows "\<exists>m. L ms = Some (TreasuryModuleA m) \<and> a = tm_treasury_authority m \<and> L' = L \<and>
    bal S tk' vault + unat n = bal S tk vault \<and> bal S tk' rta = bal S tk rta + unat n \<and>
    (\<forall>k. k \<noteq> vault \<and> k \<noteq> rta \<longrightarrow> bal S tk' k = bal S tk k)"
proof -
  from treasury_withdraw_ok [OF assms(3)] obtain m d where
    m: "L ms = Some (TreasuryModuleA m)" "a = tm_treasury_authority m" "L' = L"
    and t: "transfer_checked S vault mint rta va n d tk = Some tk'" by blast
  from transfer_bal(2-4) [OF assms(1) t] assms(2) m show ?thesis by auto
qed

definition demo_tkey :: "string \<Rightarrow> pubkey" where
  "demo_tkey tag = demo_addr [Lit tag, B32 50] AEQI_TREASURY_ID"

definition demo_treasury :: treasury_store where
  "demo_treasury = [demo_tkey ''treasury_module'' \<mapsto> TreasuryModuleA
     \<lparr>tm_trust = 50, tm_treasury_authority = 7, tm_bump = 255\<rparr>]"

definition demo_ledger :: ledger where
  "demo_ledger = \<lparr>mints = [30 \<mapsto> \<lparr>mi_supply = 1000, mi_decimals = 6\<rparr>],
     wallets = [31 \<mapsto> \<lparr>ta_mint = 30, ta_owner = demo_tkey ''treasury_vault_authority'', ta_amount = 500\<rparr>,
       32 \<mapsto> \<lparr>ta_mint = 30, ta_owner = 9, ta_amount = 0\<rparr>]\<rparr>"

theorem treasury_withdraw_exact_witness:
  "\<exists>L' tk' ev. treasury_withdraw demo_sdk demo_spl 50 (demo_tkey ''treasury_module'')
      (demo_tkey ''treasury_vault_authority'') 30 31 32 7 200 demo_treasury demo_ledger =
      Inr (L', tk', ev) \<and> bal demo_spl tk' 32 = bal demo_spl demo_ledger 32 + 200"
proof -
  have "\<exists>L' tk' ev. treasury_withdraw demo_sdk demo_spl 50 (demo_tkey ''treasury_module'')
      (demo_tkey ''treasury_vault_authority'') 30 31 32 7 200 demo_treasury demo_ledger =
      Inr (L', tk', ev)"
    by (simp add: treasury_withdraw_def treasury_accounts_defs load_def require_def seeds_ok_def
        canonical_def mint_account_def token_account_def spl_call_def treasury_vault_seeds_def
        demo_tkey_def demo_treasury_def demo_ledger_def demo_spl_def debit_def credit_def
        checked_add_def checked_sub_def demo_sdk_def)
  then obtain L' tk' ev where ok: "treasury_withdraw demo_sdk demo_spl 50 (demo_tkey ''treasury_module'')
      (demo_tkey ''treasury_vault_authority'') 30 31 32 7 200 demo_treasury demo_ledger =
      Inr (L', tk', ev)" by blast
  from treasury_withdraw_exact [OF demo_spl_law _ ok] ok show ?thesis by auto
qed

end
