(* ===== verification/Aeqi_Vesting.thy ===== *)
theory Aeqi_Vesting
  imports Aeqi_Trust Spl_Interface
begin

text \<open>
  The program \<open>aeqi_vesting\<close>: positions with a cliff and a linear schedule, an optional
  contribution that must be burnt first, a milestone that vests everything, and claims paid
  out of a vault under a program-derived authority.
\<close>

section \<open>Errors, state and events\<close>

datatype VestingError =
    InvalidSchedule | ZeroAmount | NothingToClaim | Unauthorized | AlreadyUnlocked
  | ContributionUnpaid | NoContributionRequired | ContributionAlreadyPaid
  | ContributionMintMismatch | MathOverflow | TrustNotInCreationMode

record VestingModuleState =
  vm_trust :: pubkey
  vm_position_count :: u64
  vm_bump :: u8

record VestingPosition =
  vp_trust :: pubkey
  vp_position_id :: bytes32
  vp_recipient :: pubkey
  vp_mint :: pubkey
  vp_grantor :: pubkey
  vp_total_amount :: u64
  vp_claimed_amount :: u64
  vp_start_time :: i64
  vp_cliff_time :: i64
  vp_end_time :: i64
  vp_fdv_milestone_unlocked :: bool
  vp_contribution_required :: u64
  vp_contribution_paid :: bool
  vp_contribution_mint :: pubkey
  vp_bump :: u8

datatype vesting_acct = VestingModuleA VestingModuleState | PositionA VestingPosition

type_synonym vesting_store = "vesting_acct accts"

fun as_vesting_module :: "vesting_acct \<Rightarrow> VestingModuleState option" where
  "as_vesting_module (VestingModuleA m) = Some m" | "as_vesting_module _ = None"

fun as_position :: "vesting_acct \<Rightarrow> VestingPosition option" where
  "as_position (PositionA p) = Some p" | "as_position _ = None"

datatype vesting_event =
    PositionCreated pubkey bytes32 pubkey pubkey u64 i64 i64 i64
  | Claimed pubkey bytes32 pubkey u64 u64
  | FdvMilestoneHit pubkey bytes32 pubkey u64
  | ContributionPaid pubkey bytes32 pubkey u64

definition AEQI_VESTING_ID :: pubkey where
  "AEQI_VESTING_ID = 0xb5422c7bfb97bfdfa3c26e6fdc6bff70618f78a69e505297901878a59eb6c8dc"

section \<open>The schedule\<close>

text \<open>An \<open>i64\<close> cast to \<open>u128\<close> is sign-extended.\<close>

definition vested_amount_at :: "VestingPosition \<Rightarrow> i64 \<Rightarrow> u64 option" where
  "vested_amount_at p now =
     (if now <s vp_cliff_time p then Some 0
      else if vp_end_time p \<le>s now then Some (vp_total_amount p)
      else
        Option.bind (ichecked_sub now (vp_start_time p)) (\<lambda>e.
        let elapsed = (scast e :: u128) in
        Option.bind (ichecked_sub (vp_end_time p) (vp_start_time p)) (\<lambda>d.
        let duration = (scast d :: u128); total = (ucast (vp_total_amount p) :: u128) in
        Option.bind (checked_mul total elapsed) (\<lambda>m.
        Option.bind (checked_div m duration) (\<lambda>vested. try_into vested)))))"

section \<open>Instructions\<close>

definition InitVesting_accounts :: "pda_sdk \<Rightarrow> trust_store \<Rightarrow> vesting_store \<Rightarrow> pubkey \<Rightarrow> pubkey \<Rightarrow>
  VestingError err + Trust \<times> u8" where
  "InitVesting_accounts P TL L trust module_state =
     rbind (trust_account P TL trust) (\<lambda>t.
     rbind (init_account P [Lit ''vesting_module'', B32 trust] AEQI_VESTING_ID L module_state)
       (\<lambda>bump. Inr (t, bump)))"

definition vesting_init :: "pda_sdk \<Rightarrow> trust_store \<Rightarrow> pubkey \<Rightarrow> pubkey \<Rightarrow> pubkey \<Rightarrow> vesting_store \<Rightarrow>
  VestingError err + vesting_store \<times> vesting_event list" where
  "vesting_init P TL trust module_state payer L =
     rbind (InitVesting_accounts P TL L trust module_state) (\<lambda>(t, bump).
     require (t_creation_mode t) (Prog TrustNotInCreationMode)
     (require (payer = t_authority t) (Prog Unauthorized)
     (Inr (L(module_state \<mapsto> VestingModuleA
             \<lparr>vm_trust = trust, vm_position_count = 0, vm_bump = bump\<rparr>), []))))"

definition CreatePosition_accounts :: "pda_sdk \<Rightarrow> 'tk spl \<Rightarrow> bytes32 \<Rightarrow> vesting_store \<Rightarrow> 'tk \<Rightarrow> pubkey \<Rightarrow>
  pubkey \<Rightarrow> pubkey \<Rightarrow> pubkey \<Rightarrow> VestingError err + VestingModuleState \<times> u8" where
  "CreatePosition_accounts P S position_id L tk trust module_state position mint =
     rbind (load as_vesting_module L module_state) (\<lambda>m.
     require (seeds_ok P [Lit ''vesting_module'', B32 trust] (vm_bump m) AEQI_VESTING_ID module_state)
       (Anchor ConstraintSeeds)
     (rbind (init_account P [Lit ''vesting_pos'', B32 trust, B32 position_id] AEQI_VESTING_ID L
               position) (\<lambda>bump.
     rbind (mint_account S tk mint) (\<lambda>_.
       Inr (m, bump)))))"

definition vesting_create_position :: "pda_sdk \<Rightarrow> 'tk spl \<Rightarrow> pubkey \<Rightarrow> pubkey \<Rightarrow> pubkey \<Rightarrow> pubkey \<Rightarrow>
  pubkey \<Rightarrow> bytes32 \<Rightarrow> pubkey \<Rightarrow> u64 \<Rightarrow> i64 \<Rightarrow> i64 \<Rightarrow> i64 \<Rightarrow> u64 \<Rightarrow> pubkey \<Rightarrow> vesting_store \<Rightarrow> 'tk \<Rightarrow>
  VestingError err + vesting_store \<times> vesting_event list" where
  "vesting_create_position P S trust module_state position mint grantor position_id recipient
     total_amount start_time cliff_time end_time contribution_required contribution_mint L tk =
     rbind (CreatePosition_accounts P S position_id L tk trust module_state position mint)
       (\<lambda>(m, bump).
     require (start_time <s end_time) (Prog InvalidSchedule)
     (require (start_time \<le>s cliff_time) (Prog InvalidSchedule)
     (require (cliff_time \<le>s end_time) (Prog InvalidSchedule)
     (require (total_amount > 0) (Prog ZeroAmount)
     (rbind (ok_or (checked_add (vm_position_count m) 1) (Prog MathOverflow)) (\<lambda>n.
       Inr (L(module_state \<mapsto> VestingModuleA (m\<lparr>vm_position_count := n\<rparr>),
              position \<mapsto> PositionA
                \<lparr>vp_trust = trust, vp_position_id = position_id, vp_recipient = recipient,
                 vp_mint = mint, vp_grantor = grantor, vp_total_amount = total_amount,
                 vp_claimed_amount = 0, vp_start_time = start_time, vp_cliff_time = cliff_time,
                 vp_end_time = end_time, vp_fdv_milestone_unlocked = False,
                 vp_contribution_required = contribution_required,
                 vp_contribution_paid = False, vp_contribution_mint = contribution_mint,
                 vp_bump = bump\<rparr>),
            [PositionCreated trust position_id recipient mint total_amount start_time cliff_time
               end_time])))))))"

definition position_seeds :: "pubkey \<Rightarrow> bytes32 \<Rightarrow> seed list" where
  "position_seeds trust position_id = [Lit ''vesting_pos'', B32 trust, B32 position_id]"

definition PayContribution_accounts :: "pda_sdk \<Rightarrow> 'tk spl \<Rightarrow> vesting_store \<Rightarrow> 'tk \<Rightarrow> pubkey \<Rightarrow> pubkey \<Rightarrow>
  pubkey \<Rightarrow> pubkey \<Rightarrow> VestingError err + VestingPosition" where
  "PayContribution_accounts P S L tk position contribution_mint recipient_contribution_ta recipient =
     rbind (load as_position L position) (\<lambda>p.
     require (seeds_ok P (position_seeds (vp_trust p) (vp_position_id p)) (vp_bump p)
         AEQI_VESTING_ID position) (Anchor ConstraintSeeds)
     (rbind (mint_account S tk contribution_mint) (\<lambda>_.
     rbind (token_account S tk recipient_contribution_ta contribution_mint (Some recipient)) (\<lambda>_.
       Inr p))))"

definition vesting_pay_contribution :: "pda_sdk \<Rightarrow> 'tk spl \<Rightarrow> pubkey \<Rightarrow> pubkey \<Rightarrow> pubkey \<Rightarrow> pubkey \<Rightarrow>
  vesting_store \<Rightarrow> 'tk \<Rightarrow> VestingError err + vesting_store \<times> 'tk \<times> vesting_event list" where
  "vesting_pay_contribution P S position contribution_mint recipient_contribution_ta recipient L tk =
     rbind (PayContribution_accounts P S L tk position contribution_mint
              recipient_contribution_ta recipient) (\<lambda>p.
     require (recipient = vp_recipient p) (Prog Unauthorized)
     (require (vp_contribution_required p > 0) (Prog NoContributionRequired)
     (require (\<not> vp_contribution_paid p) (Prog ContributionAlreadyPaid)
     (require (contribution_mint = vp_contribution_mint p) (Prog ContributionMintMismatch)
     (rbind (spl_call (burn S contribution_mint recipient_contribution_ta recipient
               (vp_contribution_required p) tk)) (\<lambda>tk'.
       Inr (L(position \<mapsto> PositionA (p\<lparr>vp_contribution_paid := True\<rparr>)), tk',
            [ContributionPaid (vp_trust p) (vp_position_id p) (vp_recipient p)
               (vp_contribution_required p)])))))))"

definition MarkFdvMilestone_accounts :: "pda_sdk \<Rightarrow> vesting_store \<Rightarrow> pubkey \<Rightarrow>
  VestingError err + VestingPosition" where
  "MarkFdvMilestone_accounts P L position =
     rbind (load as_position L position) (\<lambda>p.
     require (seeds_ok P (position_seeds (vp_trust p) (vp_position_id p)) (vp_bump p)
         AEQI_VESTING_ID position) (Anchor ConstraintSeeds) (Inr p))"

definition vesting_mark_fdv_milestone :: "pda_sdk \<Rightarrow> pubkey \<Rightarrow> pubkey \<Rightarrow> vesting_store \<Rightarrow>
  VestingError err + vesting_store \<times> vesting_event list" where
  "vesting_mark_fdv_milestone P position grantor L =
     rbind (MarkFdvMilestone_accounts P L position) (\<lambda>p.
     require (grantor = vp_grantor p) (Prog Unauthorized)
     (require (\<not> vp_fdv_milestone_unlocked p) (Prog AlreadyUnlocked)
     (Inr (L(position \<mapsto> PositionA (p\<lparr>vp_fdv_milestone_unlocked := True\<rparr>)),
           [FdvMilestoneHit (vp_trust p) (vp_position_id p) (vp_recipient p) (vp_total_amount p)]))))"

definition Claim_accounts :: "pda_sdk \<Rightarrow> 'tk spl \<Rightarrow> vesting_store \<Rightarrow> 'tk \<Rightarrow> pubkey \<Rightarrow> pubkey \<Rightarrow> pubkey \<Rightarrow>
  pubkey \<Rightarrow> pubkey \<Rightarrow> pubkey \<Rightarrow> VestingError err + VestingPosition \<times> mint_data" where
  "Claim_accounts P S L tk trust position vault_authority mint vault recipient_ta =
     rbind (load as_position L position) (\<lambda>p.
     require (seeds_ok P (position_seeds trust (vp_position_id p)) (vp_bump p)
         AEQI_VESTING_ID position) (Anchor ConstraintSeeds)
     (rbind (canonical P [Lit ''vesting_vault_authority'', B32 trust] AEQI_VESTING_ID vault_authority) (\<lambda>_.
     rbind (mint_account S tk mint) (\<lambda>mi.
     rbind (token_account S tk vault mint (Some vault_authority)) (\<lambda>_.
     rbind (token_account S tk recipient_ta mint (Some (vp_recipient p))) (\<lambda>_.
       Inr (p, mi)))))))"

definition vesting_claim :: "pda_sdk \<Rightarrow> 'tk spl \<Rightarrow> clock \<Rightarrow> pubkey \<Rightarrow> pubkey \<Rightarrow> pubkey \<Rightarrow> pubkey \<Rightarrow>
  pubkey \<Rightarrow> pubkey \<Rightarrow> vesting_store \<Rightarrow> 'tk \<Rightarrow>
  VestingError err + vesting_store \<times> 'tk \<times> vesting_event list" where
  "vesting_claim P S clk trust position vault_authority mint vault recipient_ta L tk =
     rbind (Claim_accounts P S L tk trust position vault_authority mint vault recipient_ta)
       (\<lambda>(p, mi).
     require (vp_contribution_required p = 0 \<or> vp_contribution_paid p) (Prog ContributionUnpaid)
     (rbind (if vp_fdv_milestone_unlocked p then Inr (vp_total_amount p)
             else ok_or (vested_amount_at p (unix_timestamp clk)) (Prog MathOverflow)) (\<lambda>vested.
     rbind (ok_or (checked_sub vested (vp_claimed_amount p)) (Prog MathOverflow)) (\<lambda>claimable.
     require (claimable > 0) (Prog NothingToClaim)
     (rbind (spl_call (transfer_checked S vault mint recipient_ta vault_authority claimable
               (mi_decimals mi) tk)) (\<lambda>tk'.
     rbind (ok_or (checked_add (vp_claimed_amount p) claimable) (Prog MathOverflow)) (\<lambda>claimed.
       Inr (L(position \<mapsto> PositionA (p\<lparr>vp_claimed_amount := claimed\<rparr>)), tk',
            [Claimed (vp_trust p) (vp_position_id p) (vp_recipient p) claimable claimed]))))))))"

section \<open>The schedule in exact arithmetic\<close>

definition valid_schedule :: "VestingPosition \<Rightarrow> bool" where
  "valid_schedule p \<longleftrightarrow> sint (vp_start_time p) < sint (vp_end_time p) \<and>
     sint (vp_start_time p) \<le> sint (vp_cliff_time p) \<and> sint (vp_cliff_time p) \<le> sint (vp_end_time p)"

definition linear_vest :: "VestingPosition \<Rightarrow> int \<Rightarrow> nat" where
  "linear_vest p now =
     (if now < sint (vp_cliff_time p) then 0
      else if sint (vp_end_time p) \<le> now then unat (vp_total_amount p)
      else unat (vp_total_amount p) * nat (now - sint (vp_start_time p))
             div nat (sint (vp_end_time p) - sint (vp_start_time p)))"

lemma linear_vest_le: "linear_vest p now \<le> unat (vp_total_amount p)"
  unfolding linear_vest_def by (auto intro!: div_le_scaled)

lemma linear_vest_mono:
  assumes "valid_schedule p" and "s \<le> t"
  shows "linear_vest p s \<le> linear_vest p t"
proof (cases "s < sint (vp_cliff_time p) \<or> sint (vp_end_time p) \<le> t")
  case True
  then show ?thesis
    using linear_vest_le [of p s] assms by (auto simp: linear_vest_def valid_schedule_def)
next
  case False
  with assms show ?thesis
    unfolding linear_vest_def by (auto intro!: div_le_mono mult_le_mono2 nat_mono)
qed

lemma vested_amount_at_exact:
  assumes "valid_schedule p" and "vested_amount_at p now = Some v"
  shows "unat v = linear_vest p (sint now)"
proof (cases "sint now < sint (vp_cliff_time p) \<or> sint (vp_end_time p) \<le> sint now")
  case True
  with assms show ?thesis
    by (auto simp: vested_amount_at_def linear_vest_def word_sless_alt word_sle_eq split: if_splits)
next
  case False
  with assms obtain e d m w where
    e: "sint (e :: i64) = sint now - sint (vp_start_time p)"
    and d: "sint (d :: i64) = sint (vp_end_time p) - sint (vp_start_time p)"
    and m: "unat (m :: u128) = unat (ucast (vp_total_amount p) :: u128) * unat (scast e :: u128)"
    and w: "unat (w :: u128) = unat m div unat (scast d :: u128)" "unat v = unat w"
    by (auto simp: vested_amount_at_def word_sless_alt word_sle_eq bind_eq_Some_conv Let_def
        ichecked_sub_Some checked_mul_Some checked_div_Some try_into_Some)
  from False assms(1) have "0 \<le> sint e" "0 \<le> sint d"
    using e d by (auto simp: valid_schedule_def)
  then have "unat (scast e :: u128) = nat (sint e)" "unat (scast d :: u128) = nat (sint d)"
    by (simp_all add: unat_scast_nonneg)
  with False m w e d show ?thesis by (simp add: linear_vest_def unat_ucast_wide)
qed

lemma ichecked_sub_fits:
  "- (2 ^ 63) \<le> sint a - sint b \<Longrightarrow> sint a - sint b < 2 ^ 63 \<Longrightarrow>
   \<exists>c. ichecked_sub (a :: i64) b = Some c"
  by (auto simp: ichecked_sub_def sint_word_ariths signed_take_bit_int_eq_self)

lemma vested_amount_at_total:
  assumes "valid_schedule p" and fits: "sint (vp_end_time p) - sint (vp_start_time p) < 2 ^ 63"
  shows "\<exists>v. vested_amount_at p now = Some v"
proof (cases "sint now < sint (vp_cliff_time p) \<or> sint (vp_end_time p) \<le> sint now")
  case True
  then show ?thesis by (auto simp: vested_amount_at_def word_sless_alt word_sle_eq)
next
  case False
  with assms have "0 \<le> sint now - sint (vp_start_time p)" "sint now - sint (vp_start_time p) < 2 ^ 63"
    and d0: "0 < sint (vp_end_time p) - sint (vp_start_time p)"
    by (auto simp: valid_schedule_def)
  with fits obtain e d where e: "ichecked_sub now (vp_start_time p) = Some e"
    and d: "ichecked_sub (vp_end_time p) (vp_start_time p) = Some d"
    using ichecked_sub_fits [of now "vp_start_time p"]
      ichecked_sub_fits [of "vp_end_time p" "vp_start_time p"] by auto
  have es: "sint e = sint now - sint (vp_start_time p)"
    and ds: "sint d = sint (vp_end_time p) - sint (vp_start_time p)"
    using e d by (simp_all add: ichecked_sub_Some)
  have e0: "0 \<le> sint e" and "0 < sint d" using False d0 es ds assms(1) by (auto simp: valid_schedule_def)
  from this e0 have ed: "unat (scast e :: u128) = nat (sint e)" "unat (scast d :: u128) = nat (sint d)"
    "nat (sint d) \<noteq> 0" by (simp_all add: unat_scast_nonneg)
  let ?t = "unat (vp_total_amount p)"
  have wide: "unat (ucast (vp_total_amount p) :: u128) = ?t" by (simp add: unat_ucast_wide)
  have le: "?t * nat (sint e) div nat (sint d) \<le> ?t"
    using False es ds d0 by (intro div_le_scaled) auto
  have t: "?t < 2 ^ 64" using unat_bound [of "vp_total_amount p"] by simp
  have "sint e < 2 ^ 63" using fits False es by linarith
  then have "nat (sint e) < 2 ^ 63" using e0 by (simp add: nat_less_iff)
  with t have "?t * nat (sint e) < 2 ^ 64 * 2 ^ 63" by (intro mult_strict_mono) auto
  then obtain m where m: "checked_mul (ucast (vp_total_amount p) :: u128) (scast e) = Some m"
    "unat m = ?t * nat (sint e)"
    using checked_mul_fits [of "ucast (vp_total_amount p) :: u128" "scast e"] ed wide by auto
  obtain w where w: "checked_div m (scast d) = Some w" "unat w = ?t * nat (sint e) div nat (sint d)"
    using checked_div_fits [of "scast d" m] ed m by auto
  have "\<exists>v. (try_into w :: u64 option) = Some v"
    using w(2) le t by (simp add: try_into_def)
  with False e d m w show ?thesis
    by (auto simp: vested_amount_at_def word_sless_alt word_sle_eq Let_def)
qed


section \<open>What a successful instruction did\<close>

lemma as_vesting_acct [res]:
  "as_vesting_module a = Some m \<longleftrightarrow> a = VestingModuleA m"
  "as_position a = Some p \<longleftrightarrow> a = PositionA p"
  by (cases a; simp)+

lemmas vesting_accounts_defs = InitVesting_accounts_def CreatePosition_accounts_def
  PayContribution_accounts_def MarkFdvMilestone_accounts_def Claim_accounts_def

lemma vesting_init_ok:
  "vesting_init P TL trust ms payer L = Inr (L', ev) \<Longrightarrow>
   \<exists>t m. TL trust = Some (TrustA t) \<and> t_creation_mode t \<and> payer = t_authority t \<and>
     L ms = None \<and> L' = L(ms \<mapsto> VestingModuleA m)"
  by (auto simp: vesting_init_def vesting_accounts_defs res)

lemma vesting_create_ok:
  assumes "vesting_create_position P S trust ms pk mint g pid rec amt st cl en cr cm L tk = Inr (L', ev)"
  obtains m n p where "L ms = Some (VestingModuleA m)" "L pk = None" "vp_claimed_amount p = 0"
    "valid_schedule p" "L' = L(ms \<mapsto> VestingModuleA (m\<lparr>vm_position_count := n\<rparr>), pk \<mapsto> PositionA p)"
proof -
  from assms show thesis
    by (simp add: vesting_create_position_def vesting_accounts_defs res)
      (elim exE conjE, rule that [rotated -1], erule sym,
        simp_all add: valid_schedule_def word_sle_eq word_sless_alt)
qed

lemma vesting_pay_ok:
  "vesting_pay_contribution P S pk cm ta rec L tk = Inr (L', tk', ev) \<Longrightarrow>
   \<exists>p. L pk = Some (PositionA p) \<and> rec = vp_recipient p \<and> \<not> vp_contribution_paid p \<and>
     burn S (vp_contribution_mint p) ta rec (vp_contribution_required p) tk = Some tk' \<and>
     L' = L(pk \<mapsto> PositionA (p\<lparr>vp_contribution_paid := True\<rparr>))"
  by (auto simp: vesting_pay_contribution_def vesting_accounts_defs res)

lemma vesting_mark_ok:
  "vesting_mark_fdv_milestone P pk g L = Inr (L', ev) \<Longrightarrow>
   \<exists>p. L pk = Some (PositionA p) \<and> g = vp_grantor p \<and>
     L' = L(pk \<mapsto> PositionA (p\<lparr>vp_fdv_milestone_unlocked := True\<rparr>))"
  by (auto simp: vesting_mark_fdv_milestone_def vesting_accounts_defs res)

text \<open>What is vested for a claim at time \<open>now\<close>.\<close>

definition vested_now :: "VestingPosition \<Rightarrow> int \<Rightarrow> nat" where
  "vested_now p now =
     (if vp_fdv_milestone_unlocked p then unat (vp_total_amount p) else linear_vest p now)"

lemma vesting_claim_ok:
  assumes "vesting_claim P S clk trust pk va mint vault rta L tk = Inr (L', tk', ev)"
  shows "\<exists>p v c d n a. L pk = Some (PositionA p) \<and>
    (vp_contribution_required p = 0 \<or> vp_contribution_paid p) \<and>
    (if vp_fdv_milestone_unlocked p then v = vp_total_amount p
     else vested_amount_at p (unix_timestamp clk) = Some v) \<and>
    unat v = unat c + unat (vp_claimed_amount p) \<and> 0 < unat c \<and> n = v \<and>
    token_info S tk rta = Some a \<and> ta_owner a = vp_recipient p \<and>
    transfer_checked S vault mint rta va c d tk = Some tk' \<and>
    L' = L(pk \<mapsto> PositionA (p\<lparr>vp_claimed_amount := n\<rparr>))"
proof -
  from assms obtain p mi where
    acc: "Claim_accounts P S L tk trust pk va mint vault rta = Inr (p, mi)"
    by (auto simp: vesting_claim_def res)
  then obtain a where a: "L pk = Some (PositionA p)" "token_info S tk rta = Some a"
    "ta_owner a = vp_recipient p" by (auto simp: vesting_accounts_defs res)
  have pick: "(if b then Inr x else ok_or m e) = Inr y \<longleftrightarrow> (if b then y = x else m = Some y)"
    for b and x y :: u64 and m and e :: "VestingError err" by (auto simp: res)
  from assms acc obtain v c n where
    p: "vp_contribution_required p = 0 \<or> vp_contribution_paid p"
      "if vp_fdv_milestone_unlocked p then v = vp_total_amount p
       else vested_amount_at p (unix_timestamp clk) = Some v"
      "checked_sub v (vp_claimed_amount p) = Some c" "0 < c"
      "transfer_checked S vault mint rta va c (mi_decimals mi) tk = Some tk'"
      "checked_add (vp_claimed_amount p) c = Some n"
      "L' = L(pk \<mapsto> PositionA (p\<lparr>vp_claimed_amount := n\<rparr>))"
    by (simp add: vesting_claim_def rbind_Inr require_Inr ok_or_Inr spl_call_Inr pick) blast
  then have "n = v" by (auto simp: checked_add_Some checked_sub_Some word_unat_eq_iff)
  moreover have "unat v = unat c + unat (vp_claimed_amount p)" "0 < unat c"
    using p(3,4) by (simp_all add: checked_sub_Some word_less_nat_alt)
  ultimately show ?thesis using p a by blast
qed

section \<open>Runs of the program\<close>

inductive vesting_step :: "pda_sdk \<Rightarrow> 'tk spl \<Rightarrow> vesting_store \<times> 'tk \<Rightarrow> vesting_store \<times> 'tk \<Rightarrow> bool"
  for P S where
  init: "vesting_init P TL trust ms payer L = Inr (L', ev) \<Longrightarrow> vesting_step P S (L, tk) (L', tk)"
| create: "vesting_create_position P S trust ms pk mint g pid rec amt st cl en cr cm L tk = Inr (L', ev)
    \<Longrightarrow> vesting_step P S (L, tk) (L', tk)"
| pay: "vesting_pay_contribution P S pk cm ta rec L tk = Inr (L', tk', ev) \<Longrightarrow>
    vesting_step P S (L, tk) (L', tk')"
| mark: "vesting_mark_fdv_milestone P pk g L = Inr (L', ev) \<Longrightarrow> vesting_step P S (L, tk) (L', tk)"
| claim: "vesting_claim P S clk trust pk va mint vault rta L tk = Inr (L', tk', ev) \<Longrightarrow>
    vesting_step P S (L, tk) (L', tk')"
| token: "vesting_step P S (L, tk) (L, tk')"

text \<open>The last rule stands for everything that other programs do to the token state.\<close>

definition vesting_inv :: "vesting_store \<times> 'tk \<Rightarrow> bool" where
  "vesting_inv s \<longleftrightarrow> (\<forall>k p. fst s k = Some (PositionA p) \<longrightarrow>
     valid_schedule p \<and> vp_claimed_amount p \<le> vp_total_amount p)"

lemma claim_bound:
  assumes "valid_schedule p" and "if vp_fdv_milestone_unlocked p then v = vp_total_amount p
      else vested_amount_at p now = Some v"
  shows "unat v = vested_now p (sint now)" and "unat v \<le> unat (vp_total_amount p)"
  using assms vested_amount_at_exact [of p now v] linear_vest_le [of p "sint now"]
  by (auto simp: vested_now_def split: if_splits)

lemma vesting_step_inv:
  assumes "vesting_step P S s s'" and inv: "vesting_inv s"
  shows "vesting_inv s'"
  using assms(1)
proof cases
  case init
  with inv show ?thesis by (auto dest!: vesting_init_ok simp: vesting_inv_def split: if_splits)
next
  case create
  with inv show ?thesis by (elim vesting_create_ok) (auto simp: vesting_inv_def split: if_splits)
next
  case pay
  with inv show ?thesis by (auto dest!: vesting_pay_ok simp: vesting_inv_def valid_schedule_def split: if_splits)
next
  case mark
  with inv show ?thesis by (auto dest!: vesting_mark_ok simp: vesting_inv_def valid_schedule_def split: if_splits)
next
  case (claim clk trust pk va mint vault rta L tk L' tk' ev)
  from vesting_claim_ok [OF claim(3)] obtain p v where
    p: "L pk = Some (PositionA p)" "if vp_fdv_milestone_unlocked p then v = vp_total_amount p
      else vested_amount_at p (unix_timestamp clk) = Some v"
      "L' = L(pk \<mapsto> PositionA (p\<lparr>vp_claimed_amount := v\<rparr>))" by blast
  from inv p claim have "valid_schedule p" by (auto simp: vesting_inv_def)
  from claim_bound(2) [OF this p(2)] inv p claim show ?thesis
    by (auto simp: vesting_inv_def valid_schedule_def word_le_nat_alt split: if_splits)
next
  case token
  with inv show ?thesis by (simp add: vesting_inv_def)
qed

interpretation vesting_run: kept_by_steps "vesting_step P S" vesting_inv for P S
  by unfold_locales (rule vesting_step_inv)

interpretation vesting_module: module_init vesting_init
  by unfold_locales (auto dest!: vesting_init_ok)

section \<open>Properties\<close>

text \<open>
  C12. The vesting curve: for a valid schedule whose length fits in 63 bits,
  \<open>vested_amount_at\<close> always returns, with exactly the rounded-down linear share between cliff
  and end, and what is vested never falls over time and never exceeds the total. The function does not
  read \<open>fdv_milestone_unlocked\<close>, although the comment on that field says that it short-circuits to the
  total when the flag is set: for such a position too it returns the linear share, and it is \<open>claim\<close>
  that pays the total instead of calling it (lemma vesting_claim_exact).
\<close>

theorem vested_amount_correct:
  assumes "valid_schedule p" and "sint (vp_end_time p) - sint (vp_start_time p) < 2 ^ 63"
  shows "(\<exists>v. vested_amount_at p now = Some v \<and> unat v = linear_vest p (sint now)) \<and>
    linear_vest p (sint now) \<le> unat (vp_total_amount p) \<and>
    (\<forall>later. sint now \<le> later \<longrightarrow> linear_vest p (sint now) \<le> linear_vest p later)"
  using vested_amount_at_total [OF assms, of now] vested_amount_at_exact [OF assms(1), of now]
    linear_vest_le [of p "sint now"] linear_vest_mono [OF assms(1), of "sint now"] by blast

text \<open>Claims never exceed the grant: in every state reached from the empty store, whatever
  happens to the tokens in between, each position has claimed at most its total.
\<close>

theorem vesting_claimed_bounded:
  assumes "(vesting_step P S)\<^sup>*\<^sup>* (Map.empty, tk) (L, tk')" and "L k = Some (PositionA p)"
  shows "unat (vp_claimed_amount p) \<le> unat (vp_total_amount p)"
proof -
  have "vesting_inv (Map.empty, tk)" by (simp add: vesting_inv_def)
  from vesting_run.run_keeps [OF assms(1) this] assms(2) show ?thesis
    by (auto simp: vesting_inv_def word_le_nat_alt)
qed

text \<open>A claim pays exactly what is due: it moves the vested amount less what was claimed
  before, out of the vault into a token account of the position's recipient, and afterwards
  the position has claimed exactly what is vested.
\<close>

theorem vesting_claim_exact:
  assumes "spl_law S" and "valid_schedule p" and "L pk = Some (PositionA p)" and "vault \<noteq> rta"
    and "vesting_claim P S clk trust pk va mint vault rta L tk = Inr (L', tk', ev)"
  shows "\<exists>p' a. L' = L(pk \<mapsto> PositionA p') \<and> token_info S tk rta = Some a \<and>
    ta_owner a = vp_recipient p \<and>
    unat (vp_claimed_amount p') = vested_now p (sint (unix_timestamp clk)) \<and>
    bal S tk' rta + unat (vp_claimed_amount p) = bal S tk rta + unat (vp_claimed_amount p') \<and>
    bal S tk' vault + unat (vp_claimed_amount p') = bal S tk vault + unat (vp_claimed_amount p)"
proof -
  from vesting_claim_ok [OF assms(5)] assms(3) obtain v c d a where
    v: "if vp_fdv_milestone_unlocked p then v = vp_total_amount p
        else vested_amount_at p (unix_timestamp clk) = Some v"
      "unat v = unat c + unat (vp_claimed_amount p)" "token_info S tk rta = Some a"
      "ta_owner a = vp_recipient p"
    and t: "transfer_checked S vault mint rta va c d tk = Some tk'"
    and L': "L' = L(pk \<mapsto> PositionA (p\<lparr>vp_claimed_amount := v\<rparr>))" by auto
  from transfer_bal(2,3) [OF assms(1) t assms(4)] claim_bound(1) [OF assms(2) v(1)] v L'
  show ?thesis by (intro exI [of _ "p\<lparr>vp_claimed_amount := v\<rparr>"] exI [of _ a]) simp
qed

section \<open>Concrete inputs\<close>

definition demo_position :: "u64 \<Rightarrow> VestingPosition" where
  "demo_position claimed = \<lparr>vp_trust = 50, vp_position_id = 4, vp_recipient = 9, vp_mint = 30,
     vp_grantor = 7, vp_total_amount = 1000, vp_claimed_amount = claimed, vp_start_time = 500,
     vp_cliff_time = 600, vp_end_time = 1500, vp_fdv_milestone_unlocked = False,
     vp_contribution_required = 0, vp_contribution_paid = False, vp_contribution_mint = 0,
     vp_bump = 255\<rparr>"

definition demo_vclock :: clock where
  "demo_vclock = \<lparr>slot = 10, unix_timestamp = 1000\<rparr>"

definition demo_vest_key :: "seed list \<Rightarrow> pubkey" where
  "demo_vest_key s = demo_addr s AEQI_VESTING_ID"

definition demo_vest_ledger :: ledger where
  "demo_vest_ledger = \<lparr>mints = [30 \<mapsto> \<lparr>mi_supply = 5000, mi_decimals = 6\<rparr>, 33 \<mapsto> \<lparr>mi_supply = 5000, mi_decimals = 6\<rparr>],
     wallets = [31 \<mapsto> \<lparr>ta_mint = 30, ta_owner = demo_vest_key [Lit ''vesting_vault_authority'', B32 50], ta_amount = 2000\<rparr>,
       32 \<mapsto> \<lparr>ta_mint = 30, ta_owner = 9, ta_amount = 0\<rparr>,
       34 \<mapsto> \<lparr>ta_mint = 33, ta_owner = demo_vest_key [Lit ''vesting_vault_authority'', B32 50], ta_amount = 2000\<rparr>,
       35 \<mapsto> \<lparr>ta_mint = 33, ta_owner = 9, ta_amount = 0\<rparr>]\<rparr>"

definition demo_vest :: vesting_store where
  "demo_vest = [demo_vest_key (position_seeds 50 4) \<mapsto> PositionA (demo_position 200)]"

definition demo_claim :: "pubkey \<Rightarrow> pubkey \<Rightarrow> pubkey \<Rightarrow>
  VestingError err + vesting_store \<times> ledger \<times> vesting_event list" where
  "demo_claim mint vault rta = vesting_claim demo_sdk demo_spl demo_vclock 50
     (demo_vest_key (position_seeds 50 4)) (demo_vest_key [Lit ''vesting_vault_authority'', B32 50])
     mint vault rta demo_vest demo_vest_ledger"

lemmas demo_claim_defs = demo_claim_def vesting_claim_def vesting_accounts_defs load_def require_def
  seeds_ok_def canonical_def mint_account_def token_account_def spl_call_def position_seeds_def
  demo_vest_key_def demo_vest_def demo_vest_ledger_def demo_position_def demo_vclock_def
  demo_spl_def debit_def credit_def checked_add_def checked_sub_def checked_mul_def checked_div_def
  try_into_def ichecked_sub_def vested_amount_at_def word_sle_eq word_sless_alt demo_sdk_def

theorem vested_amount_correct_witness:
  "valid_schedule (demo_position 0) \<and> linear_vest (demo_position 0) 1000 \<le> 1000"
proof -
  have "valid_schedule (demo_position 0)" by (simp add: valid_schedule_def demo_position_def)
  with vested_amount_correct [of "demo_position 0" 1000] show ?thesis
    by (simp add: demo_position_def)
qed

theorem vesting_claim_exact_witness:
  "\<exists>L' tk' ev. demo_claim 30 31 32 = Inr (L', tk', ev) \<and>
     bal demo_spl tk' 32 + 200 = bal demo_spl demo_vest_ledger 32 + 500"
proof -
  have "\<exists>L' tk' ev. demo_claim 30 31 32 = Inr (L', tk', ev)"
    by (simp add: demo_claim_defs)
  then obtain L' tk' ev where ok: "demo_claim 30 31 32 = Inr (L', tk', ev)" by blast
  have p: "demo_vest (demo_vest_key (position_seeds 50 4)) = Some (PositionA (demo_position 200))"
    by (simp add: demo_vest_def)
  have v: "valid_schedule (demo_position 200)" by (simp add: valid_schedule_def demo_position_def)
  have n: "vested_now (demo_position 200) 1000 = 500"
    by (simp add: vested_now_def linear_vest_def demo_position_def)
  from vesting_claim_exact [OF demo_spl_law v p _ ok [unfolded demo_claim_def]] ok n show ?thesis
    by (auto simp: demo_position_def demo_vclock_def)
qed

definition demo_vest_run :: "VestingError err + vesting_store \<times> vesting_event list" where
  "demo_vest_run =
     (let ms = demo_vest_key [Lit ''vesting_module'', B32 demo_trust];
          pk = demo_vest_key (position_seeds demo_trust 4) in
      rbind (vesting_init demo_sdk demo_open demo_trust ms 7 Map.empty) (\<lambda>(L1, _).
      vesting_create_position demo_sdk demo_spl demo_trust ms pk 30 7 4 9 1000 500 600 1500 0 0 L1
        demo_vest_ledger))"

theorem vesting_claimed_bounded_witness:
  "\<exists>L p. (vesting_step demo_sdk demo_spl)\<^sup>*\<^sup>* (Map.empty, demo_vest_ledger) (L, demo_vest_ledger) \<and>
     L (demo_vest_key (position_seeds demo_trust 4)) = Some (PositionA p) \<and>
     unat (vp_claimed_amount p) \<le> unat (vp_total_amount p)"
proof -
  have "\<exists>L ev p. demo_vest_run = Inr (L, ev) \<and>
      L (demo_vest_key (position_seeds demo_trust 4)) = Some (PositionA p)"
    by (simp add: demo_vest_run_def vesting_init_def vesting_create_position_def trust_account_def
        init_account_def demo_trust_defs AEQI_VESTING_ID_def demo_claim_defs Let_def)
  then obtain L ev p where run: "demo_vest_run = Inr (L, ev)"
    and p: "L (demo_vest_key (position_seeds demo_trust 4)) = Some (PositionA p)" by blast
  from run have r: "(vesting_step demo_sdk demo_spl)\<^sup>*\<^sup>* (Map.empty, demo_vest_ledger) (L, demo_vest_ledger)"
    unfolding demo_vest_run_def Let_def
    by (auto simp: rbind_Inr dest!: vesting_step.init [where S = demo_spl and tk = demo_vest_ledger]
        vesting_step.create intro: rtranclp.rtrancl_into_rtrancl)
  with vesting_claimed_bounded [OF r p] p show ?thesis by blast
qed

text \<open>
  The claimed token is not the granted one by necessity: \<open>claim\<close> takes the mint from the
  caller and does not compare it with the mint recorded in the position, so a position that
  grants mint 30 can be paid, through the same vault authority, in mint 33.
\<close>

theorem vesting_claim_any_mint:
  "\<exists>L' tk' ev. vp_mint (demo_position 200) = 30 \<and> demo_claim 33 34 35 = Inr (L', tk', ev) \<and>
     bal demo_spl tk' 35 = 300"
proof -
  have "\<exists>L' tk' ev. demo_claim 33 34 35 = Inr (L', tk', ev) \<and> bal demo_spl tk' 35 = 300"
    by (simp add: demo_claim_defs bal_def)
  then show ?thesis by (auto simp: demo_position_def)
qed

end
