(* ===== verification/Indexer_Snapshot.thy ===== *)
theory Indexer_Snapshot
  imports Aeqi_Governance "HOL-Library.Multiset"
begin

text \<open>
  The snapshot job of the off-chain indexer (\<open>indexer/src/snapshot.rs\<close>): from the token
  accounts that an RPC node returns it extracts owners and balances, sorts them, sums the
  supply and builds the Merkle root that \<open>commit_snapshot_root\<close> publishes, and the proofs
  that \<open>cast_vote_token\<close> checks. The reply of the node (address and data of each account) is
  an argument, SHA-256 the parameter \<open>H\<close> that the governance program uses; network and
  signing are left out.
\<close>

section \<open>Parsing\<close>

datatype snapshot_error = TokenAccountTooShort | ProposalAccountTooShort | SupplyOverflow

definition parse_token_amount :: "u8 list \<Rightarrow> snapshot_error + u64" where
  "parse_token_amount data =
     (if length data < 72 then Inl TokenAccountTooShort
      else Inr (from_le_bytes (slice 64 72 data)))"

definition parse_token_owner :: "u8 list \<Rightarrow> snapshot_error + pubkey" where
  "parse_token_owner data =
     (if length data < 64 then Inl TokenAccountTooShort
      else Inr (new_from_array (slice 32 64 data)))"

definition read_proposal_snapshot_root :: "u8 list \<Rightarrow> snapshot_error + bytes32" where
  "read_proposal_snapshot_root data =
     (let OFFSET = 8 + 32 + 32 + 32 + 32 + 64 + 8 + 8 + 8 + 8 in
      if length data < OFFSET + 32 then Inl ProposalAccountTooShort
      else Inr (new_from_array (slice OFFSET (OFFSET + 32) data)))"

section \<open>The Merkle tree\<close>

definition sha256_concat :: "(u8 list \<Rightarrow> bytes32) \<Rightarrow> bytes32 \<Rightarrow> bytes32 \<Rightarrow> bytes32" where
  "sha256_concat H a b = H (to_bytes a @ to_bytes b)"

definition indexer_token_vote_leaf :: "(u8 list \<Rightarrow> bytes32) \<Rightarrow> pubkey \<Rightarrow> u64 \<Rightarrow> bytes32" where
  "indexer_token_vote_leaf H voter balance = H (to_bytes voter @ to_le_bytes balance)"

text \<open>One round over \<open>layer.chunks(2)\<close>.\<close>

fun next_layer :: "(u8 list \<Rightarrow> bytes32) \<Rightarrow> bytes32 list \<Rightarrow> bytes32 list" where
  "next_layer H [] = []"
| "next_layer H [a] = [a]"
| "next_layer H (a # b # rest) =
     (if a \<le> b then sha256_concat H a b else sha256_concat H b a) # next_layer H rest"

lemma length_next_layer [simp]: "length (next_layer H xs) = (length xs + 1) div 2"
  by (induction xs rule: next_layer.induct) simp_all

function root_loop :: "(u8 list \<Rightarrow> bytes32) \<Rightarrow> bytes32 list \<Rightarrow> bytes32 list" where
  "root_loop H layer = (if length layer > 1 then root_loop H (next_layer H layer) else layer)"
  by auto
termination by (relation "measure (\<lambda>(H, xs). length xs)") auto

declare root_loop.simps [simp del]

definition compute_merkle_root :: "(u8 list \<Rightarrow> bytes32) \<Rightarrow> bytes32 list \<Rightarrow> bytes32" where
  "compute_merkle_root H leaves =
     (if leaves = [] then 0
      else if length leaves = 1 then leaves ! 0
      else root_loop H leaves ! 0)"

text \<open>The layers of the tree, bottom first, and the walk of a leaf's index up to the root.\<close>

function layers_loop :: "(u8 list \<Rightarrow> bytes32) \<Rightarrow> bytes32 list \<Rightarrow> bytes32 list list" where
  "layers_loop H layer =
     layer # (if length layer > 1 then layers_loop H (next_layer H layer) else [])"
  by auto
termination by (relation "measure (\<lambda>(H, xs). length xs)") auto

declare layers_loop.simps [simp del]

fun proof_walk :: "nat \<Rightarrow> bytes32 list list \<Rightarrow> bytes32 list" where
  "proof_walk idx [] = []"
| "proof_walk idx (layer # layers) =
     (let sibling = idx XOR 1 in
      (if sibling < length layer then [layer ! sibling] else []) @ proof_walk (idx div 2) layers)"

text \<open>\<open>None\<close> is the failed assertion on the index.\<close>

definition merkle_proof :: "(u8 list \<Rightarrow> bytes32) \<Rightarrow> bytes32 list \<Rightarrow> nat \<Rightarrow> bytes32 list option" where
  "merkle_proof H leaves target_leaf_index =
     (if target_leaf_index < length leaves
      then Some (if length leaves = 1 then []
                 else proof_walk target_leaf_index (butlast (layers_loop H leaves)))
      else None)"

section \<open>The snapshot\<close>

record MerkleSnapshot =
  ms_root :: bytes32
  ms_total_supply :: u64
  ms_leaves :: "(pubkey \<times> u64) list"

fun collect_holders :: "(pubkey \<times> u8 list) list \<Rightarrow> snapshot_error + (pubkey \<times> u64) list" where
  "collect_holders [] = Inr []"
| "collect_holders ((token_acct_addr, data) # accounts) =
     rbind (parse_token_amount data) (\<lambda>amount.
       if amount = 0 then collect_holders accounts
       else rbind (parse_token_owner data) (\<lambda>owner.
         rbind (collect_holders accounts) (\<lambda>holders. Inr ((owner, amount) # holders))))"

fun checked_sum :: "u64 \<Rightarrow> u64 list \<Rightarrow> u64 option" where
  "checked_sum acc [] = Some acc"
| "checked_sum acc (x # xs) =
     (case checked_add acc x of None \<Rightarrow> None | Some s \<Rightarrow> checked_sum s xs)"

definition snapshot_proposal :: "(u8 list \<Rightarrow> bytes32) \<Rightarrow> (pubkey \<times> u8 list) list \<Rightarrow>
  snapshot_error + MerkleSnapshot" where
  "snapshot_proposal H accounts =
     rbind (collect_holders accounts) (\<lambda>hs.
     let holders = sort_key fst hs in
     rbind (ok_or (checked_sum 0 (map snd holders)) SupplyOverflow) (\<lambda>total_supply.
     let leaves = map (\<lambda>(p, b). indexer_token_vote_leaf H p b) holders in
     Inr \<lparr>ms_root = compute_merkle_root H leaves, ms_total_supply = total_supply,
          ms_leaves = holders\<rparr>))"

section \<open>Proofs climb to the root\<close>

definition pair_hash :: "(u8 list \<Rightarrow> bytes32) \<Rightarrow> bytes32 \<Rightarrow> bytes32 \<Rightarrow> bytes32" where
  "pair_hash H a b = (if a \<le> b then sha256_concat H a b else sha256_concat H b a)"

lemma pair_hash_commute: "pair_hash H a b = pair_hash H b a"
  by (auto simp: pair_hash_def)

lemma climb_step: "merkle_climb H x (y # ys) = merkle_climb H (pair_hash H x y) ys"
  by (simp add: pair_hash_def sha256_concat_def)

lemma climb_append: "merkle_climb H x (ys @ zs) = merkle_climb H (merkle_climb H x ys) zs"
  by (induction ys arbitrary: x) (simp_all del: merkle_climb.simps(2) add: climb_step)

lemma next_layer_nth:
  "i < (length xs + 1) div 2 \<Longrightarrow> next_layer H xs ! i =
     (if 2 * i + 1 < length xs then pair_hash H (xs ! (2 * i)) (xs ! (2 * i + 1)) else xs ! (2 * i))"
proof (induction xs arbitrary: i rule: next_layer.induct)
  case (3 H a b rest)
  show ?case
  proof (cases i)
    case 0
    then show ?thesis by (simp add: pair_hash_def)
  next
    case (Suc j)
    with 3 show ?thesis by simp
  qed
qed simp_all

lemma climb_sibling:
  assumes "idx < length xs"
  shows "merkle_climb H (xs ! idx) (if idx XOR 1 < length xs then [xs ! (idx XOR 1)] else []) =
    next_layer H xs ! (idx div 2)"
proof (cases "even idx")
  case True
  then obtain j where "idx = 2 * j" by blast
  with assms next_layer_nth [of j xs H] show ?thesis
    by (simp add: xor_Suc_0_eq climb_step del: merkle_climb.simps(2))
next
  case False
  then obtain j where "idx = 2 * j + 1" using oddE by blast
  with assms next_layer_nth [of j xs H] show ?thesis
    by (simp add: xor_Suc_0_eq climb_step pair_hash_commute del: merkle_climb.simps(2))
qed

lemma layers_loop_neq_Nil: "layers_loop H xs \<noteq> []"
  by (subst layers_loop.simps) simp

lemma climb_proof:
  "idx < length xs \<Longrightarrow>
   merkle_climb H (xs ! idx) (proof_walk idx (butlast (layers_loop H xs))) = root_loop H xs ! 0"
proof (induction H xs arbitrary: idx rule: root_loop.induct)
  case (1 H xs)
  show ?case
  proof (cases "length xs > 1")
    case True
    let ?ys = "next_layer H xs"
    from True have "butlast (layers_loop H xs) = xs # butlast (layers_loop H ?ys)"
      by (subst layers_loop.simps) (simp add: layers_loop_neq_Nil)
    moreover have "idx div 2 < length ?ys" using 1(2) by simp
    moreover have "root_loop H xs = root_loop H ?ys"
      using True by (subst root_loop.simps) simp
    ultimately show ?thesis
      using 1(1) [OF True, of "idx div 2"] climb_sibling [OF 1(2), of H]
      by (simp only: proof_walk.simps Let_def climb_append)
  next
    case False
    moreover from this 1(2) have "idx = 0" by linarith
    ultimately show ?thesis by (subst layers_loop.simps, subst root_loop.simps) auto
  qed
qed


lemma merkle_proof_verifies:
  assumes "i < length leaves"
  shows "\<exists>prf. merkle_proof H leaves i = Some prf \<and>
    verify_merkle_proof H (leaves ! i) prf (compute_merkle_root H leaves)"
proof (cases "length leaves = 1")
  case True
  with assms show ?thesis
    by (auto simp: merkle_proof_def verify_merkle_proof_def compute_merkle_root_def)
next
  case False
  with assms climb_proof [OF assms, of H] show ?thesis
    by (auto simp: merkle_proof_def verify_merkle_proof_def compute_merkle_root_def)
qed

section \<open>What the snapshot contains\<close>

definition amount_of :: "u8 list \<Rightarrow> u64" where
  "amount_of data = from_le_bytes (slice 64 72 data)"

definition owner_of :: "u8 list \<Rightarrow> pubkey" where
  "owner_of data = new_from_array (slice 32 64 data)"

definition holders_of :: "(pubkey \<times> u8 list) list \<Rightarrow> (pubkey \<times> u64) list" where
  "holders_of accounts =
     map (\<lambda>(_, d). (owner_of d, amount_of d)) (filter (\<lambda>(_, d). amount_of d \<noteq> 0) accounts)"

lemma collect_holders_eq:
  "collect_holders accounts =
     (if \<forall>(_, d) \<in> set accounts. 72 \<le> length d then Inr (holders_of accounts)
      else Inl TokenAccountTooShort)"
proof (induction accounts)
  case (Cons a accounts)
  obtain k d where a: "a = (k, d)" by (cases a)
  show ?case
  proof (cases "72 \<le> length d")
    case True
    with Cons a show ?thesis
      by (auto simp: parse_token_amount_def parse_token_owner_def amount_of_def owner_of_def
          holders_of_def)
  next
    case False
    with a show ?thesis by (auto simp: parse_token_amount_def)
  qed
qed (simp add: holders_of_def)

lemma checked_sum_Some: "checked_sum acc xs = Some t \<Longrightarrow> unat t = unat acc + sum_list (map unat xs)"
  by (induction xs arbitrary: acc) (auto simp: num split: option.splits)

lemma snapshot_ok:
  assumes "snapshot_proposal H accounts = Inr s"
  shows "ms_leaves s = sort_key fst (holders_of accounts)"
    and "unat (ms_total_supply s) = (\<Sum>(_, b) \<leftarrow> ms_leaves s. unat b)"
    and "ms_root s = compute_merkle_root H (map (\<lambda>(p, b). token_vote_leaf H p b) (ms_leaves s))"
proof -
  from assms obtain t where t: "checked_sum 0 (map snd (sort_key fst (holders_of accounts))) = Some t"
    and s: "s = \<lparr>ms_root = compute_merkle_root H (map (\<lambda>(p, b). indexer_token_vote_leaf H p b)
        (sort_key fst (holders_of accounts))), ms_total_supply = t,
        ms_leaves = sort_key fst (holders_of accounts)\<rparr>"
    by (auto simp: snapshot_proposal_def collect_holders_eq res Let_def split: if_splits)
  have "(\<lambda>(_ :: pubkey, b :: u64). unat b) = (\<lambda>x. unat (snd x))" by auto
  with checked_sum_Some [OF t] s
  show "ms_leaves s = sort_key fst (holders_of accounts)"
    "unat (ms_total_supply s) = (\<Sum>(_, b) \<leftarrow> ms_leaves s. unat b)"
    "ms_root s = compute_merkle_root H (map (\<lambda>(p, b). token_vote_leaf H p b) (ms_leaves s))"
    by (simp_all add: comp_def indexer_token_vote_leaf_def token_vote_leaf_def)
qed

section \<open>Properties\<close>

text \<open>
  C5. Snapshot and verifier agree: for every holder in a snapshot, the proof that the indexer
  builds for its position makes the on-chain \<open>verify_merkle_proof\<close> accept the holder's leaf
  against the snapshot's root.
\<close>

theorem snapshot_vote_verifies:
  assumes "snapshot_proposal H accounts = Inr s" and "i < length (ms_leaves s)"
    and "ms_leaves s ! i = (voter, balance)"
  shows "\<exists>prf. merkle_proof H (map (\<lambda>(p, b). indexer_token_vote_leaf H p b) (ms_leaves s)) i = Some prf \<and>
    verify_merkle_proof H (token_vote_leaf H voter balance) prf (ms_root s)"
proof -
  have "indexer_token_vote_leaf H = token_vote_leaf H"
    by (intro ext) (simp add: indexer_token_vote_leaf_def token_vote_leaf_def)
  with merkle_proof_verifies [of i "map (\<lambda>(p, b). token_vote_leaf H p b) (ms_leaves s)" H]
    assms snapshot_ok(3) [OF assms(1)]
  show ?thesis by simp
qed

text \<open>The snapshot is the set of holders: it lists exactly the accounts with a balance, sorted
  by owner, its supply is the sum of the listed balances, and as long as no owner appears
  twice it does not depend on the order in which the node returned the accounts.
\<close>

theorem snapshot_holders_exact:
  assumes "snapshot_proposal H accounts = Inr s"
  shows "mset (ms_leaves s) = mset (holders_of accounts) \<and> sorted (map fst (ms_leaves s)) \<and>
    unat (ms_total_supply s) = (\<Sum>(_, b) \<leftarrow> ms_leaves s. unat b) \<and>
    (mset accounts' = mset accounts \<and> distinct (map fst (holders_of accounts)) \<longrightarrow>
       snapshot_proposal H accounts' = Inr s)"
proof -
  have "snapshot_proposal H accounts' = snapshot_proposal H accounts"
    if m: "mset accounts' = mset accounts" and d: "distinct (map fst (holders_of accounts))"
  proof -
    have "mset (holders_of accounts') = mset (holders_of accounts)"
      unfolding holders_of_def by (simp add: m mset_filter)
    moreover from this have "inj_on fst (set (holders_of accounts'))"
      using d by (metis distinct_map mset_eq_setD)
    ultimately have "sort_key fst (holders_of accounts') = sort_key fst (holders_of accounts)"
      by (intro sort_key_inj_key_eq) simp_all
    moreover have "set accounts' = set accounts" using m by (rule mset_eq_setD)
    ultimately show ?thesis by (simp add: snapshot_proposal_def collect_holders_eq)
  qed
  with assms snapshot_ok [OF assms] show ?thesis by simp
qed

section \<open>Concrete inputs\<close>

text \<open>Two token accounts of mint 0, owners 2 and 1, with balances 5 and 7.\<close>

definition demo_account :: "u8 \<Rightarrow> u8 \<Rightarrow> u8 list" where
  "demo_account owner amount =
     replicate 63 0 @ [owner, amount] @ replicate 7 0"

definition demo_hash :: "u8 list \<Rightarrow> bytes32" where
  "demo_hash bs = foldl (\<lambda>a b. 3 * a + ucast b) 1 bs"

lemma demo_snapshot:
  "\<exists>s. snapshot_proposal demo_hash [(100, demo_account 2 5), (101, demo_account 1 7)] = Inr s \<and>
     ms_leaves s = [(1, 7), (2, 5)]"
proof -
  have "collect_holders [(100, demo_account 2 5), (101, demo_account 1 7)] = Inr [(2, 5), (1, 7)]"
    by code_simp
  then show ?thesis by (simp add: snapshot_proposal_def Let_def checked_add_def word_le_nat_alt)
qed

theorem snapshot_vote_verifies_witness:
  "\<exists>s prf. snapshot_proposal demo_hash [(100, demo_account 2 5), (101, demo_account 1 7)] = Inr s \<and>
     verify_merkle_proof demo_hash (token_vote_leaf demo_hash 2 5) prf (ms_root s)"
proof -
  obtain s where s: "snapshot_proposal demo_hash [(100, demo_account 2 5), (101, demo_account 1 7)] = Inr s"
    "ms_leaves s = [(1, 7), (2, 5)]" using demo_snapshot by blast
  with snapshot_vote_verifies [OF s(1), of 1 2 5] show ?thesis by auto
qed

theorem snapshot_holders_exact_witness:
  "\<exists>s. snapshot_proposal demo_hash [(100, demo_account 2 5), (101, demo_account 1 7)] = Inr s \<and>
     unat (ms_total_supply s) = 12"
proof -
  obtain s where s: "snapshot_proposal demo_hash [(100, demo_account 2 5), (101, demo_account 1 7)] = Inr s"
    "ms_leaves s = [(1, 7), (2, 5)]" using demo_snapshot by blast
  with snapshot_holders_exact [OF s(1)] show ?thesis by auto
qed

end
