(* ===== verification/Quests_Quest.thy ===== *)
theory Quests_Quest
  imports Rust_Str "HOL-Library.AList"
begin

text \<open>
  The data of the quest tracker (\<open>crates/aeqi-quests/src/quest.rs\<close>): hierarchical quest
  ids, the six statuses, the quest record with its metadata and outcome. A JSON object and a
  \<open>HashMap\<close> are association lists read with \<open>map_of\<close> and written with
  \<open>AList.update\<close>. The functions of \<open>serde_json\<close> are parameters, in the record
  \<open>serde\<close>.
\<close>

section \<open>Quest ids\<close>

text \<open>\<open>QuestId\<close> is a newtype of \<open>String\<close>.\<close>

type_synonym QuestId = string

definition root :: "string \<Rightarrow> u32 \<Rightarrow> QuestId" where
  "root pre seq = pre @ ''-'' @ show_pad3 (unat seq)"

definition child :: "QuestId \<Rightarrow> u32 \<Rightarrow> QuestId" where
  "child i child_seq = i @ ''.'' @ show_nat (unat child_seq)"

definition id_prefix :: "QuestId \<Rightarrow> string" where
  "id_prefix i = hd (split CHR ''-'' i)"

definition parent :: "QuestId \<Rightarrow> QuestId option" where
  "parent i = map_option fst (rsplit_once CHR ''.'' i)"

definition depth :: "QuestId \<Rightarrow> nat" where
  "depth i = count_list i CHR ''.''"

definition is_ancestor_of :: "QuestId \<Rightarrow> QuestId \<Rightarrow> bool" where
  "is_ancestor_of i other \<longleftrightarrow> prefix i other \<and> length i < length other"

section \<open>Status, outcome, priority\<close>

datatype QuestStatus = Backlog | Todo | InProgress | InReview | Done | Cancelled

fun show_status :: "QuestStatus \<Rightarrow> string" where
  "show_status Backlog = ''backlog''"
| "show_status Todo = ''todo''"
| "show_status InProgress = ''in_progress''"
| "show_status InReview = ''in_review''"
| "show_status Done = ''done''"
| "show_status Cancelled = ''cancelled''"

datatype QuestOutcomeKind =
    OutcomeDone | OutcomeBlocked | OutcomeHandoff | OutcomeFailed | OutcomeCancelled

fun show_outcome_kind :: "QuestOutcomeKind \<Rightarrow> string" where
  "show_outcome_kind OutcomeDone = ''done''"
| "show_outcome_kind OutcomeBlocked = ''blocked''"
| "show_outcome_kind OutcomeHandoff = ''handoff''"
| "show_outcome_kind OutcomeFailed = ''failed''"
| "show_outcome_kind OutcomeCancelled = ''cancelled''"

datatype Priority = Low | Normal | High | Critical

fun priority_num :: "Priority \<Rightarrow> nat" where
  "priority_num Low = 0"
| "priority_num Normal = 1"
| "priority_num High = 2"
| "priority_num Critical = 3"

fun show_priority :: "Priority \<Rightarrow> string" where
  "show_priority Low = ''low''"
| "show_priority Normal = ''normal''"
| "show_priority High = ''high''"
| "show_priority Critical = ''critical''"

text \<open>The derived \<open>Ord\<close> is the order of the discriminants.\<close>

lemma priority_num_inj: "priority_num a = priority_num b \<longleftrightarrow> a = b"
  by (cases a; cases b) simp_all

instantiation Priority :: linorder
begin

definition less_eq_Priority :: "Priority \<Rightarrow> Priority \<Rightarrow> bool" where
  "less_eq_Priority a b \<longleftrightarrow> priority_num a \<le> priority_num b"

definition less_Priority :: "Priority \<Rightarrow> Priority \<Rightarrow> bool" where
  "less_Priority a b \<longleftrightarrow> priority_num a < priority_num b"

instance
  by standard (auto simp: less_eq_Priority_def less_Priority_def priority_num_inj)

end

section \<open>Quests\<close>

text \<open>\<open>DateTime<Utc>\<close> counts nanoseconds from the epoch; an \<open>f64\<close> is its bit pattern.\<close>

type_synonym datetime = int
type_synonym f64 = "64 word"

datatype json_number = PosInt u64 | NegInt i64 | Float f64

datatype json =
    JNull
  | JBool bool
  | JNumber json_number
  | JString string
  | JArray "json list"
  | JObject "(string \<times> json) list"

fun as_object :: "json \<Rightarrow> (string \<times> json) list option" where
  "as_object (JObject m) = Some m"
| "as_object _ = None"

fun as_bool :: "json \<Rightarrow> bool option" where
  "as_bool (JBool b) = Some b"
| "as_bool _ = None"

record Checkpoint =
  cp_timestamp :: datetime
  agent_name :: string
  progress :: string
  cost_usd :: f64
  steps_used :: u32

record QuestOutcomeRecord =
  outcome_kind :: QuestOutcomeKind
  summary :: string
  reason :: "string option"
  next_action :: "string option"

definition outcome_new :: "QuestOutcomeKind \<Rightarrow> string \<Rightarrow> QuestOutcomeRecord" where
  "outcome_new k s = \<lparr>outcome_kind = k, summary = s, reason = None, next_action = None\<rparr>"

datatype Scope = SelfScope | Siblings | Children | Branch | Global

record Idea =
  idea_key :: string
  idea_name :: string
  content :: string
  tags :: "string list"
  idea_agent_id :: "string option"
  idea_created_at :: datetime
  session_id :: "string option"
  score :: f64
  idea_scope :: Scope
  inheritance :: string
  tool_allow :: "string list"
  tool_deny :: "string list"
  parent_idea_id :: "string option"
  properties :: "json option"
  idea_kind :: string
  file_id :: "string option"

record Quest =
  quest_id :: QuestId
  idea_id :: string
  idea :: "Idea option"
  status :: QuestStatus
  priority :: Priority
  quest_kind :: string
  agent_id :: "string option"
  assignee :: "string option"
  scope :: Scope
  depends_on :: "QuestId list"
  retry_count :: u32
  checkpoints :: "Checkpoint list"
  metadata :: json
  created_at :: datetime
  updated_at :: "datetime option"
  closed_at :: "datetime option"
  due_at :: "datetime option"
  outcome :: "QuestOutcomeRecord option"
  worktree_branch :: "string option"
  worktree_path :: "string option"
  creator_session_id :: "string option"

definition default_quest_kind :: string where
  "default_quest_kind = ''task''"

text \<open>\<open>Utc::now()\<close> is an argument.\<close>

definition with_agent :: "datetime \<Rightarrow> QuestId \<Rightarrow> string \<Rightarrow> string option \<Rightarrow> Quest" where
  "with_agent now i idea_i agent =
     \<lparr>quest_id = i, idea_id = idea_i, idea = None, status = Todo, priority = Normal,
      quest_kind = default_quest_kind, agent_id = agent, assignee = None,
      scope = (if agent = None then Global else SelfScope), depends_on = [], retry_count = 0,
      checkpoints = [], metadata = JNull, created_at = now, updated_at = None,
      closed_at = None, due_at = None, outcome = None, worktree_branch = None,
      worktree_path = None, creator_session_id = None\<rparr>"

definition quest_new :: "datetime \<Rightarrow> QuestId \<Rightarrow> string \<Rightarrow> Quest" where
  "quest_new now i idea_i = with_agent now i idea_i None"

definition title :: "Quest \<Rightarrow> string" where
  "title q = (case idea q of None \<Rightarrow> [] | Some x \<Rightarrow> idea_name x)"

definition body :: "Quest \<Rightarrow> string" where
  "body q = (case idea q of None \<Rightarrow> [] | Some x \<Rightarrow> content x)"

definition idea_tags :: "Quest \<Rightarrow> string list" where
  "idea_tags q = (case idea q of None \<Rightarrow> [] | Some x \<Rightarrow> tags x)"

definition is_agent_bound :: "Quest \<Rightarrow> bool" where
  "is_agent_bound q \<longleftrightarrow> agent_id q \<noteq> None"

definition is_closed :: "Quest \<Rightarrow> bool" where
  "is_closed q \<longleftrightarrow> status q = Done \<or> status q = Cancelled"

definition is_ready :: "(QuestId \<Rightarrow> bool) \<Rightarrow> Quest \<Rightarrow> bool" where
  "is_ready resolved q \<longleftrightarrow>
     (status q = Todo \<or> status q = Backlog) \<and> list_all resolved (depends_on q)"

section \<open>Metadata and outcome\<close>

definition aeqi_metadata :: "Quest \<Rightarrow> string \<Rightarrow> json option" where
  "aeqi_metadata q key =
     Option.bind (as_object (metadata q)) (\<lambda>meta.
       Option.bind (map_of meta ''aeqi'') (\<lambda>aeqi.
         Option.bind (as_object aeqi) (\<lambda>m. map_of m key)))"

text \<open>\<open>metadata.pointer("/aeqi/hold")\<close> descends through objects, as above.\<close>

definition is_scheduler_held :: "Quest \<Rightarrow> bool" where
  "is_scheduler_held q \<longleftrightarrow>
     Option.bind (aeqi_metadata q ''hold'') as_bool = Some True"

fun metadata_map :: "json \<Rightarrow> (string \<times> json) list" where
  "metadata_map (JObject m) = m"
| "metadata_map JNull = []"
| "metadata_map other = [(''_legacy'', other)]"

definition aeqi_section :: "(string \<times> json) list \<Rightarrow> (string \<times> json) list" where
  "aeqi_section meta = (case Option.bind (map_of meta ''aeqi'') as_object of
     Some m \<Rightarrow> m
   | None \<Rightarrow> [])"

definition set_aeqi_metadata :: "string \<Rightarrow> json \<Rightarrow> Quest \<Rightarrow> Quest" where
  "set_aeqi_metadata key v q =
     (let meta = metadata_map (metadata q);
          meta' = AList.update ''aeqi'' (JObject (AList.update key v (aeqi_section meta))) meta
      in q\<lparr>metadata := (if meta' = [] then JNull else JObject meta')\<rparr>)"

text \<open>
  \<open>serde_json\<close> for quests (\<open>to_string\<close>, \<open>from_str\<close>) and outcomes (\<open>to_value\<close>,
  \<open>from_value\<close>); \<open>None\<close> is an error.
\<close>

record serde =
  to_string :: "Quest \<Rightarrow> string option"
  from_str :: "string \<Rightarrow> Quest option"
  to_value :: "QuestOutcomeRecord \<Rightarrow> json option"
  from_value :: "json \<Rightarrow> QuestOutcomeRecord option"

definition quest_outcome :: "serde \<Rightarrow> Quest \<Rightarrow> QuestOutcomeRecord option" where
  "quest_outcome S q = (case outcome q of
     Some r \<Rightarrow> Some r
   | None \<Rightarrow> Option.bind (aeqi_metadata q ''task_outcome'') (from_value S))"

definition set_quest_outcome :: "serde \<Rightarrow> QuestOutcomeRecord \<Rightarrow> Quest \<Rightarrow> Quest" where
  "set_quest_outcome S r q =
     (let q' = q\<lparr>outcome := Some r\<rparr> in
      case to_value S r of
        Some v \<Rightarrow> set_aeqi_metadata ''task_outcome'' v q'
      | None \<Rightarrow> q')"

definition runtime :: "Quest \<Rightarrow> json option" where
  "runtime q = aeqi_metadata q ''runtime''"

definition outcome_summary :: "serde \<Rightarrow> Quest \<Rightarrow> string option" where
  "outcome_summary S q = (case quest_outcome S q of
     None \<Rightarrow> None
   | Some r \<Rightarrow> if trim (summary r) \<noteq> [] then Some (summary r) else None)"

definition blocker_context :: "serde \<Rightarrow> Quest \<Rightarrow> string option" where
  "blocker_context S q = Option.bind (quest_outcome S q) (\<lambda>r.
     case reason r of
       Some x \<Rightarrow> if trim x \<noteq> [] then Some x
                 else if trim (summary r) \<noteq> [] then Some (summary r) else None
     | None \<Rightarrow> if trim (summary r) \<noteq> [] then Some (summary r) else None)"

section \<open>Laws of ids\<close>

lemma id_prefix_takeWhile: "id_prefix i = takeWhile (\<lambda>c. c \<noteq> CHR ''-'') i"
  by (simp add: id_prefix_def hd_split)

lemma id_prefix_root: "CHR ''-'' \<notin> set p \<Longrightarrow> id_prefix (root p n) = p"
  by (simp add: id_prefix_def root_def split_append_sep)

lemma parent_Some: "parent i = Some p \<longleftrightarrow> (\<exists>s. i = p @ CHR ''.'' # s \<and> CHR ''.'' \<notin> set s)"
  by (auto simp: parent_def rsplit_once_Some)

lemma parent_None: "parent i = None \<longleftrightarrow> CHR ''.'' \<notin> set i"
  by (simp add: parent_def rsplit_once_None)

lemma parent_child [simp]: "parent (child i n) = Some i"
  by (auto simp: parent_Some child_def)

lemma parent_shorter: "parent i = Some p \<Longrightarrow> length p < length i"
  by (auto simp: parent_Some)

lemma depth_0: "depth i = 0 \<longleftrightarrow> CHR ''.'' \<notin> set i"
  by (simp add: depth_def count_list_0_iff)

lemma depth_parent: "parent i = Some p \<Longrightarrow> depth i = Suc (depth p)"
  by (auto simp: parent_Some depth_def count_list_0_iff)

lemma child_inj: "child i m = child j n \<longleftrightarrow> i = j \<and> m = n"
proof
  assume eq: "child i m = child j n"
  then have "parent (child i m) = parent (child j n)" by simp
  then have "i = j" by simp
  with eq show "i = j \<and> m = n" by (simp add: child_def show_nat_inj word_unat_eq_iff)
qed simp

lemma root_inj: "root p m = root p n \<longleftrightarrow> m = n"
  by (simp add: root_def show_pad3_inj word_unat_eq_iff)

lemma id_prefix_child:
  "CHR ''-'' \<in> set i \<Longrightarrow> id_prefix (child i n) = id_prefix i"
  by (simp add: id_prefix_takeWhile child_def takeWhile_append1)

section \<open>Laws of metadata\<close>

lemma metadata_map_set:
  "metadata (set_aeqi_metadata key v q) =
     JObject (AList.update ''aeqi'' (JObject (AList.update key v
       (aeqi_section (metadata_map (metadata q))))) (metadata_map (metadata q)))"
proof -
  have "AList.update k x m \<noteq> []" for k :: string and x :: json and m
    by (cases m) (auto split: if_splits)
  then show ?thesis by (simp add: set_aeqi_metadata_def Let_def)
qed

lemma aeqi_metadata_set:
  "aeqi_metadata (set_aeqi_metadata key v q) k =
     (if k = key then Some v else aeqi_metadata q k)"
proof -
  have "aeqi_metadata q k = map_of (aeqi_section (metadata_map (metadata q))) k"
    by (cases "metadata q")
       (auto simp: aeqi_metadata_def aeqi_section_def split: option.splits Option.bind_splits)
  then show ?thesis
    by (simp add: aeqi_metadata_def metadata_map_set update_conv')
qed

lemma set_aeqi_metadata_keeps [simp]:
  "quest_id (set_aeqi_metadata k v q) = quest_id q"
  "status (set_aeqi_metadata k v q) = status q"
  "depends_on (set_aeqi_metadata k v q) = depends_on q"
  "checkpoints (set_aeqi_metadata k v q) = checkpoints q"
  "outcome (set_aeqi_metadata k v q) = outcome q"
  "updated_at (set_aeqi_metadata k v q) = updated_at q"
  "closed_at (set_aeqi_metadata k v q) = closed_at q"
  by (simp_all add: set_aeqi_metadata_def Let_def)

lemma set_quest_outcome_keeps [simp]:
  "quest_id (set_quest_outcome S r q) = quest_id q"
  "status (set_quest_outcome S r q) = status q"
  "depends_on (set_quest_outcome S r q) = depends_on q"
  "checkpoints (set_quest_outcome S r q) = checkpoints q"
  "outcome (set_quest_outcome S r q) = Some r"
  "updated_at (set_quest_outcome S r q) = updated_at q"
  "closed_at (set_quest_outcome S r q) = closed_at q"
  by (simp_all add: set_quest_outcome_def Let_def split: option.splits)

text \<open>The outcome survives in the legacy metadata: a reader that drops the new field gets it.\<close>

lemma legacy_outcome:
  assumes "to_value S r = Some v" and "from_value S v = Some r"
  shows "quest_outcome S (set_quest_outcome S r q\<lparr>outcome := None\<rparr>) = Some r"
proof -
  have "aeqi_metadata (set_quest_outcome S r q\<lparr>outcome := None\<rparr>) ''task_outcome'' =
        aeqi_metadata (set_aeqi_metadata ''task_outcome'' v (q\<lparr>outcome := Some r\<rparr>))
          ''task_outcome''"
    by (simp add: set_quest_outcome_def assms(1) aeqi_metadata_def)
  then show ?thesis by (simp add: quest_outcome_def aeqi_metadata_set assms(2))
qed

text \<open>An outcome, once set, does not put a quest on hold or take it off.\<close>

lemma held_set_outcome [simp]:
  "is_scheduler_held (set_quest_outcome S r q) = is_scheduler_held q"
proof -
  have "aeqi_metadata (q\<lparr>outcome := Some r\<rparr>) k = aeqi_metadata q k" for k
    by (simp add: aeqi_metadata_def)
  then show ?thesis
    by (simp add: is_scheduler_held_def set_quest_outcome_def Let_def aeqi_metadata_set
        split: option.splits)
qed

end
