(* ===== verification/Session_Queue.thy ===== *)
theory Session_Queue
  imports Prelude "HOL-Library.Multiset" "HOL-Library.AList"
begin

text \<open>
  The per-session execution queue of the orchestrator: the table \<open>pending_messages\<close> with its
  operations (\<open>session_store.rs\<close>), the payload of a row (\<open>queue_executor.rs\<close>), the loop that claims
  and runs a session's messages, enqueuing and boot recovery (\<open>session_queue.rs\<close>), and the
  injection of late messages at a step boundary of a running agent (\<open>aeqi-core\<close>).

  \<open>parse\<close> stands for \<open>serde_json::from_str\<close>; \<open>ord\<close> for the order in which SQLite returns the rows of
  \<open>DELETE \<dots> RETURNING\<close>, which it leaves open. An \<open>f64\<close> is its bit pattern. The rows are kept in the
  order of their ids.
\<close>

section \<open>Payloads\<close>

record QueuedMessage =
  agent_hint :: string
  qm_message :: string
  sender_id :: "string option"
  transport :: "string option"
  qm_kind :: "string option"
  qm_quest_id :: "string option"
  creator_session_id :: "string option"
  budget_usd :: "u64 option"
  initial_message_recorded :: bool
  source_user_id :: "string option"

definition qm_chat :: "string \<Rightarrow> string \<Rightarrow> string option \<Rightarrow> string option \<Rightarrow> QueuedMessage" where
  "qm_chat hint text sender via = \<lparr>agent_hint = hint, qm_message = text, sender_id = sender,
     transport = via, qm_kind = None, qm_quest_id = None, creator_session_id = None, budget_usd = None,
     initial_message_recorded = False, source_user_id = None\<rparr>"

definition with_initial_message_recorded :: "QueuedMessage \<Rightarrow> QueuedMessage" where
  "with_initial_message_recorded m = m\<lparr>initial_message_recorded := True\<rparr>"

definition qm_quest :: "string \<Rightarrow> string \<Rightarrow> string \<Rightarrow> string option \<Rightarrow> u64 option \<Rightarrow> QueuedMessage" where
  "qm_quest hint text quest creator budget = \<lparr>agent_hint = hint, qm_message = text, sender_id = None,
     transport = Some ''quest'', qm_kind = Some ''quest'', qm_quest_id = Some quest,
     creator_session_id = creator, budget_usd = budget, initial_message_recorded = False,
     source_user_id = None\<rparr>"

definition qm_user_reply :: "string \<Rightarrow> string \<Rightarrow> string option \<Rightarrow> QueuedMessage" where
  "qm_user_reply hint text user = \<lparr>agent_hint = hint, qm_message = text, sender_id = user,
     transport = Some ''inbox'', qm_kind = Some ''user_reply'', qm_quest_id = None, creator_session_id = None,
     budget_usd = None, initial_message_recorded = False, source_user_id = user\<rparr>"

definition is_quest :: "QueuedMessage \<Rightarrow> bool" where
  "is_quest m \<longleftrightarrow> qm_kind m = Some ''quest'' \<and> qm_quest_id m \<noteq> None"

definition is_user_reply :: "QueuedMessage \<Rightarrow> bool" where
  "is_user_reply m \<longleftrightarrow> qm_kind m = Some ''user_reply''"

section \<open>The table\<close>

datatype pm_status = Queued | Running

record PendingRow =
  pm_id :: int
  pm_session :: string
  pm_payload :: string
  pm_status :: pm_status
  pm_created_at :: int
  pm_started_at :: "int option"

record PendingClaim =
  pc_id :: int
  pc_payload :: string

record InjectedMessage =
  im_id :: int
  im_content :: string

text \<open>\<open>awaiting\<close>: for a row of \<open>sessions\<close>, its \<open>awaiting_at\<close> and \<open>awaiting_subject\<close> when set.\<close>

record queue_db =
  pending :: "PendingRow list"
  next_pending :: int
  awaiting :: "(string \<times> (string \<times> string) option) list"

type_synonym payload_parser = "string \<Rightarrow> QueuedMessage option"

definition insert_pending :: "string \<Rightarrow> string \<Rightarrow> int \<Rightarrow> queue_db \<Rightarrow> int \<times> queue_db" where
  "insert_pending sid payload now q =
     (next_pending q,
      q\<lparr>pending := pending q @ [\<lparr>pm_id = next_pending q, pm_session = sid, pm_payload = payload,
          pm_status = Queued, pm_created_at = now, pm_started_at = None\<rparr>],
        next_pending := next_pending q + 1\<rparr>)"

text \<open>\<open>UPDATE sessions SET awaiting_at = NULL \<dots> WHERE id = ?1 AND awaiting_at IS NOT NULL\<close>\<close>

definition clear_if_awaiting :: "string \<Rightarrow> queue_db \<Rightarrow> bool \<times> queue_db" where
  "clear_if_awaiting sid q = (case map_of (awaiting q) sid of
     Some (Some _) \<Rightarrow> (True, q\<lparr>awaiting := AList.update sid None (awaiting q)\<rparr>)
   | _ \<Rightarrow> (False, q))"

definition enqueue_pending :: "payload_parser \<Rightarrow> string \<Rightarrow> string \<Rightarrow> int \<Rightarrow> queue_db \<Rightarrow> int \<times> queue_db" where
  "enqueue_pending parse sid payload now q =
     (let (i, q1) = insert_pending sid payload now q;
          user_originated = (case parse payload of Some m \<Rightarrow> \<not> is_quest m | None \<Rightarrow> True)
      in (i, if user_originated then snd (clear_if_awaiting sid q1) else q1))"

definition claimable :: "string \<Rightarrow> queue_db \<Rightarrow> PendingRow list" where
  "claimable sid q =
     (if list_ex (\<lambda>r. pm_session r = sid \<and> pm_status r = Running) (pending q) then []
      else sort_key pm_id (filter (\<lambda>r. pm_session r = sid \<and> pm_status r = Queued) (pending q)))"

definition set_running :: "int \<Rightarrow> int \<Rightarrow> PendingRow \<Rightarrow> PendingRow" where
  "set_running i now r = (if pm_id r = i then r\<lparr>pm_status := Running, pm_started_at := Some now\<rparr> else r)"

definition claim_next_pending :: "string \<Rightarrow> int \<Rightarrow> queue_db \<Rightarrow> PendingClaim option \<times> queue_db" where
  "claim_next_pending sid now q = (case claimable sid q of
     [] \<Rightarrow> (None, q)
   | r # _ \<Rightarrow> (Some \<lparr>pc_id = pm_id r, pc_payload = pm_payload r\<rparr>,
       q\<lparr>pending := map (set_running (pm_id r) now) (pending q)\<rparr>))"

definition delete_pending :: "int \<Rightarrow> queue_db \<Rightarrow> queue_db" where
  "delete_pending i q = q\<lparr>pending := filter (\<lambda>r. pm_id r \<noteq> i) (pending q)\<rparr>"

definition injectable :: "string \<Rightarrow> int option \<Rightarrow> PendingRow \<Rightarrow> bool" where
  "injectable sid since r \<longleftrightarrow> pm_session r = sid \<and> pm_status r = Queued \<and>
     (case since of None \<Rightarrow> - (2 ^ 63) | Some w \<Rightarrow> w) < pm_id r"

definition claim_pending_for_session :: "payload_parser \<Rightarrow> (PendingRow list \<Rightarrow> PendingRow list) \<Rightarrow> string \<Rightarrow>
  int option \<Rightarrow> queue_db \<Rightarrow> InjectedMessage list \<times> queue_db" where
  "claim_pending_for_session parse ord sid since q =
     (map (\<lambda>r. \<lparr>im_id = pm_id r,
          im_content = (case parse (pm_payload r) of Some m \<Rightarrow> qm_message m | None \<Rightarrow> pm_payload r)\<rparr>)
        (ord (filter (injectable sid since) (pending q))),
      q\<lparr>pending := filter (\<lambda>r. \<not> injectable sid since r) (pending q)\<rparr>)"

definition sessions_with_queued :: "queue_db \<Rightarrow> string list" where
  "sessions_with_queued q = remdups (map pm_session (filter (\<lambda>r. pm_status r = Queued) (pending q)))"

definition recover_orphaned_running :: "queue_db \<Rightarrow> nat \<times> queue_db" where
  "recover_orphaned_running q =
     (length (filter (\<lambda>r. pm_status r = Running) (pending q)),
      q\<lparr>pending := filter (\<lambda>r. pm_status r \<noteq> Running) (pending q)\<rparr>)"

section \<open>Waiting for a person\<close>

definition set_awaiting :: "string \<Rightarrow> string \<Rightarrow> string \<Rightarrow> queue_db \<Rightarrow> queue_db" where
  "set_awaiting sid subject now q = (case map_of (awaiting q) sid of
     None \<Rightarrow> q
   | Some _ \<Rightarrow> q\<lparr>awaiting := AList.update sid (Some (now, subject)) (awaiting q)\<rparr>)"

definition clear_awaiting :: "string \<Rightarrow> queue_db \<Rightarrow> queue_db" where
  "clear_awaiting sid q = (case map_of (awaiting q) sid of
     None \<Rightarrow> q
   | Some _ \<Rightarrow> q\<lparr>awaiting := AList.update sid None (awaiting q)\<rparr>)"

definition answer_awaiting :: "string \<Rightarrow> string \<Rightarrow> int \<Rightarrow> queue_db \<Rightarrow> bool \<times> queue_db" where
  "answer_awaiting sid payload now q =
     (let (cleared, q1) = clear_if_awaiting sid q in (cleared, snd (insert_pending sid payload now q1)))"

definition dismiss_awaiting :: "string \<Rightarrow> queue_db \<Rightarrow> bool \<times> queue_db" where
  "dismiss_awaiting sid q = clear_if_awaiting sid q"

section \<open>The claim loop\<close>

text \<open>
  \<open>exec\<close> is the \<open>SessionExecutor\<close>: whether it succeeded, and the queue it leaves. The database may
  refuse the claim or the delete (\<open>claim_ok\<close>, \<open>delete_ok\<close>); \<open>clk\<close> is read once per round.
\<close>

type_synonym executor = "string \<Rightarrow> PendingClaim \<Rightarrow> queue_db \<Rightarrow> bool \<times> queue_db"

datatype loop_result = Loop_Done | Loop_Error

partial_function (option) claim_and_run_loop :: "executor \<Rightarrow> (nat \<Rightarrow> bool) \<Rightarrow> (nat \<Rightarrow> bool) \<Rightarrow> (nat \<Rightarrow> int) \<Rightarrow>
  nat \<Rightarrow> string \<Rightarrow> queue_db \<Rightarrow> (loop_result \<times> queue_db) option" where
  "claim_and_run_loop exec claim_ok delete_ok clk n sid q =
     (if \<not> claim_ok n then Some (Loop_Error, q)
      else case claim_next_pending sid (clk n) q of
        (None, q1) \<Rightarrow> Some (Loop_Done, q1)
      | (Some c, q1) \<Rightarrow>
          (let q2 = snd (exec sid c q1) in
           if \<not> delete_ok n then Some (Loop_Error, q2)
           else claim_and_run_loop exec claim_ok delete_ok clk (Suc n) sid (delete_pending (pc_id c) q2)))"

section \<open>Tasks\<close>

text \<open>
  A task of the daemon that works on a session: a caller that has committed a row and not yet
  spawned the loop, a loop about to claim, a loop in its executor (with the watermark of the
  agent's injections), a loop about to delete its row.
\<close>

datatype task =
    Enqueuing string
  | Claiming string
  | Executing string PendingClaim int
  | Finishing string PendingClaim

text \<open>The ghost fields record the life of a message: (session, id).\<close>

record daemon =
  queue :: queue_db
  tasks :: "task multiset"
  g_enqueued :: "(string \<times> int) list"
  g_claimed :: "(string \<times> int) list"
  g_injected :: "(string \<times> int) list"

datatype qact =
    A_Enqueue string string int
  | A_Answer string string int
  | A_Answer_Deferred string string int
  | A_Spawn string
  | A_Claim string int
  | A_Claim_Error string
  | A_Inject string
  | A_Finish string
  | A_Delete string
  | A_Delete_Error string
  | A_Await string
  | A_Crash
  | A_Recover

text \<open>\<open>injection_watermark = Some(row.id)\<close> for each row in turn.\<close>

definition advance :: "InjectedMessage list \<Rightarrow> int \<Rightarrow> int" where
  "advance ms w = (if ms = [] then w else im_id (last ms))"

text \<open>
  The atomic sections of the daemon. \<open>enqueue\<close> commits a row and spawns a loop; an answer from the
  inbox does the same, or leaves the row for later when no provider is configured; a crash loses
  the tasks and keeps the table; \<open>recover_on_boot\<close> drops the running rows and spawns a loop for
  every session with queued rows.
\<close>

inductive qstep :: "payload_parser \<Rightarrow> (PendingRow list \<Rightarrow> PendingRow list) \<Rightarrow> qact \<Rightarrow> daemon \<Rightarrow> daemon \<Rightarrow> bool"
  for parse :: payload_parser and ord :: "PendingRow list \<Rightarrow> PendingRow list" where
  enqueue: "enqueue_pending parse sid payload now (queue S) = (i, q) \<Longrightarrow>
    qstep parse ord (A_Enqueue sid payload now) S
      (S\<lparr>queue := q, tasks := add_mset (Enqueuing sid) (tasks S), g_enqueued := g_enqueued S @ [(sid, i)]\<rparr>)"
| answer: "answer_awaiting sid payload now (queue S) = (cleared, q) \<Longrightarrow>
    qstep parse ord (A_Answer sid payload now) S
      (S\<lparr>queue := q, tasks := add_mset (Enqueuing sid) (tasks S),
        g_enqueued := g_enqueued S @ [(sid, next_pending (queue S))]\<rparr>)"
| answer_deferred: "answer_awaiting sid payload now (queue S) = (cleared, q) \<Longrightarrow>
    qstep parse ord (A_Answer_Deferred sid payload now) S
      (S\<lparr>queue := q, g_enqueued := g_enqueued S @ [(sid, next_pending (queue S))]\<rparr>)"
| spawn: "tasks S = add_mset (Enqueuing sid) ts \<Longrightarrow>
    qstep parse ord (A_Spawn sid) S (S\<lparr>tasks := add_mset (Claiming sid) ts\<rparr>)"
| claim: "tasks S = add_mset (Claiming sid) ts \<Longrightarrow> claim_next_pending sid now (queue S) = (Some c, q) \<Longrightarrow>
    qstep parse ord (A_Claim sid now) S (S\<lparr>queue := q, tasks := add_mset (Executing sid c (pc_id c)) ts,
      g_claimed := g_claimed S @ [(sid, pc_id c)]\<rparr>)"
| claim_none: "tasks S = add_mset (Claiming sid) ts \<Longrightarrow> claim_next_pending sid now (queue S) = (None, q) \<Longrightarrow>
    qstep parse ord (A_Claim sid now) S (S\<lparr>queue := q, tasks := ts\<rparr>)"
| claim_error: "tasks S = add_mset (Claiming sid) ts \<Longrightarrow>
    qstep parse ord (A_Claim_Error sid) S (S\<lparr>tasks := ts\<rparr>)"
| inject: "tasks S = add_mset (Executing sid c w) ts \<Longrightarrow>
    claim_pending_for_session parse ord sid (Some w) (queue S) = (ms, q) \<Longrightarrow>
    qstep parse ord (A_Inject sid) S (S\<lparr>queue := q, tasks := add_mset (Executing sid c (advance ms w)) ts,
      g_injected := g_injected S @ map (\<lambda>m. (sid, im_id m)) ms\<rparr>)"
| finish: "tasks S = add_mset (Executing sid c w) ts \<Longrightarrow>
    qstep parse ord (A_Finish sid) S (S\<lparr>tasks := add_mset (Finishing sid c) ts\<rparr>)"
| delete: "tasks S = add_mset (Finishing sid c) ts \<Longrightarrow>
    qstep parse ord (A_Delete sid) S
      (S\<lparr>queue := delete_pending (pc_id c) (queue S), tasks := add_mset (Claiming sid) ts\<rparr>)"
| delete_error: "tasks S = add_mset (Finishing sid c) ts \<Longrightarrow>
    qstep parse ord (A_Delete_Error sid) S (S\<lparr>tasks := ts\<rparr>)"
| await: "q = set_awaiting sid subject now (queue S) \<or> q = clear_awaiting sid (queue S) \<or>
      q = snd (dismiss_awaiting sid (queue S)) \<Longrightarrow>
    qstep parse ord (A_Await sid) S (S\<lparr>queue := q\<rparr>)"
| crash: "qstep parse ord A_Crash S (S\<lparr>tasks := {#}\<rparr>)"
| recover: "recover_orphaned_running (queue S) = (n, q) \<Longrightarrow>
    qstep parse ord A_Recover S
      (S\<lparr>queue := q, tasks := mset (map Claiming (sessions_with_queued q)) + tasks S\<rparr>)"

section \<open>A step of the agent\<close>

text \<open>
  The request of a step is built from the messages so far and the step's own context; then the rows
  that arrived since the turn began are taken from the queue and appended to the messages. \<open>claim_ok\<close>:
  the claim did not fail (a failure is logged and the step goes on).
\<close>

definition step_request :: "payload_parser \<Rightarrow> (PendingRow list \<Rightarrow> PendingRow list) \<Rightarrow> bool \<Rightarrow> string \<Rightarrow>
  string list \<Rightarrow> int option \<Rightarrow> string list \<Rightarrow> queue_db \<Rightarrow> string list \<times> string list \<times> int option \<times> queue_db" where
  "step_request parse ord claim_ok session_id contexts watermark messages q =
     (let request = messages @ contexts in
      if session_id = [] \<or> \<not> claim_ok then (request, messages, watermark, q)
      else let (ms, q') = claim_pending_for_session parse ord session_id watermark q
           in (request, messages @ map im_content ms,
               (if ms = [] then watermark else Some (im_id (last ms))), q'))"

end
