(* ===== verification/Quest_Registry.thy ===== *)
theory Quest_Registry
  imports Quests_Quest Session_Queue "HOL-Library.List_Lexorder" "HOL-Library.Char_ord"
begin

text \<open>
  The quests of the orchestrator: the table \<open>quests\<close> in SQLite with the operations of
  \<open>AgentRegistry\<close> on it (\<open>agent_registry.rs\<close>). A row keeps status, priority and scope as text, as
  the table does; the JSON columns (checkpoints, metadata, depends_on, outcome) are the values they
  encode and the time columns are instants. Ids are ASCII. \<open>lower\<close> is \<open>str::to_lowercase\<close>; a UUID
  and the clock are arguments.
\<close>

section \<open>Tables\<close>

record Agent =
  ag_id :: string
  ag_name :: string
  quest_prefix :: "string option"
  ag_budget_usd :: "f64 option"
  max_concurrent :: u32

record quest_row =
  qr_id :: QuestId
  qr_idea_id :: string
  qr_status :: string
  qr_priority :: string
  qr_agent_id :: "string option"
  qr_assignee :: "string option"
  qr_scope :: string
  qr_retry_count :: int
  qr_checkpoints :: "Checkpoint list"
  qr_metadata :: json
  qr_depends_on :: "QuestId list"
  qr_outcome :: "QuestOutcomeRecord option"
  qr_worktree_branch :: "string option"
  qr_worktree_path :: "string option"
  qr_created_at :: datetime
  qr_updated_at :: "datetime option"
  qr_closed_at :: "datetime option"
  qr_closed_reason :: "string option"
  qr_creator_session_id :: "string option"
  qr_due_at :: "int option"

record idea_row =
  ir_id :: string
  ir_name :: string
  ir_content :: string
  ir_scope :: string
  ir_agent_id :: "string option"
  ir_session_id :: "string option"
  ir_created_at :: datetime
  ir_kind :: string
  ir_file_id :: "string option"
  ir_tags :: "string list"

record quest_db =
  quest_rows :: "quest_row list"
  quest_sequences :: "(string \<times> int) list"
  ideas :: "idea_row list"
  agents :: "Agent list"

datatype qr_error = EAgentNotFound | EDailyLimit | EPanic | EConstraint | ERange | EQuestNotFound

type_synonym 'a qreg = "quest_db \<Rightarrow> (qr_error + 'a) \<times> quest_db"

definition qbind :: "'a qreg \<Rightarrow> ('a \<Rightarrow> 'b qreg) \<Rightarrow> 'b qreg" where
  "qbind m f d = (case m d of (Inl e, d') \<Rightarrow> (Inl e, d') | (Inr x, d') \<Rightarrow> f x d')"

definition qfail :: "qr_error \<Rightarrow> 'a qreg" where
  "qfail e d = (Inl e, d)"

definition qret :: "'a \<Rightarrow> 'a qreg" where
  "qret x d = (Inr x, d)"

section \<open>Text columns\<close>

definition row_status :: "string \<Rightarrow> QuestStatus" where
  "row_status s =
     (if s = ''backlog'' then Backlog else if s = ''todo'' then Todo
      else if s = ''in_progress'' then InProgress else if s = ''done'' then Done
      else if s = ''cancelled'' then Cancelled else if s = ''pending'' then Todo
      else if s = ''blocked'' then Backlog else Todo)"

definition row_priority :: "string \<Rightarrow> Priority" where
  "row_priority s =
     (if s = ''low'' then Low else if s = ''high'' then High else if s = ''critical'' then Critical else Normal)"

fun scope_as_str :: "Scope \<Rightarrow> string" where
  "scope_as_str SelfScope = ''self''"
| "scope_as_str Siblings = ''siblings''"
| "scope_as_str Children = ''children''"
| "scope_as_str Branch = ''branch''"
| "scope_as_str Global = ''global''"

definition scope_from_str :: "string \<Rightarrow> Scope option" where
  "scope_from_str s =
     (if s = ''self'' then Some SelfScope else if s = ''siblings'' then Some Siblings
      else if s = ''children'' then Some Children else if s = ''branch'' then Some Branch
      else if s = ''global'' then Some Global else None)"

definition row_outcome :: "quest_row \<Rightarrow> QuestOutcomeRecord option" where
  "row_outcome r = (case qr_outcome r of
     Some x \<Rightarrow> Some x
   | None \<Rightarrow> (case qr_closed_reason r of
       Some why \<Rightarrow> (if why = [] then None
         else Some (outcome_new (if qr_status r = ''cancelled'' then OutcomeCancelled else OutcomeDone) why))
     | None \<Rightarrow> None))"

definition row_to_task :: "quest_row \<Rightarrow> Quest" where
  "row_to_task r =
     \<lparr>quest_id = qr_id r, idea_id = qr_idea_id r, idea = None, status = row_status (qr_status r),
      priority = row_priority (qr_priority r), quest_kind = ''task'', agent_id = qr_agent_id r,
      assignee = qr_assignee r,
      scope = (case scope_from_str (qr_scope r) of Some s \<Rightarrow> s | None \<Rightarrow> SelfScope),
      depends_on = qr_depends_on r,
      retry_count = (if 0 \<le> qr_retry_count r \<and> qr_retry_count r < 2 ^ 32 then word_of_int (qr_retry_count r) else 0),
      checkpoints = qr_checkpoints r, metadata = qr_metadata r, created_at = qr_created_at r,
      updated_at = qr_updated_at r, closed_at = qr_closed_at r,
      due_at = map_option (\<lambda>s. s * 1000000000) (qr_due_at r), outcome = row_outcome r,
      worktree_branch = qr_worktree_branch r, worktree_path = qr_worktree_path r,
      creator_session_id = qr_creator_session_id r\<rparr>"

section \<open>Creating quests\<close>

text \<open>
  A creation is made of sections, each under one lock: the prefix of the agent, the daily limit, the
  idea, the id, the row. The functions below compose them for a creation that nobody interrupts;
  the steps of \<open>Quest_Dispatch\<close> are the sections, and other sections may come between.
\<close>

definition get_agent :: "string \<Rightarrow> quest_db \<Rightarrow> Agent option" where
  "get_agent a d = find (\<lambda>x. ag_id x = a) (agents d)"

text \<open>\<open>name[..2]\<close> panics when the second byte is not the end of a character.\<close>

definition char_boundary :: "nat \<Rightarrow> string \<Rightarrow> bool" where
  "char_boundary i s \<longleftrightarrow> i = length s \<or>
     i < length s \<and> \<not> (128 \<le> (of_char (s ! i) :: nat) \<and> (of_char (s ! i) :: nat) < 192)"

definition agent_quest_prefix :: "(string \<Rightarrow> string) \<Rightarrow> string \<Rightarrow> string qreg" where
  "agent_quest_prefix lower a d = (case get_agent a d of
     None \<Rightarrow> qfail EAgentNotFound d
   | Some ag \<Rightarrow> (case quest_prefix ag of
       Some p \<Rightarrow> qret p d
     | None \<Rightarrow>
         (if length (ag_name ag) < 2 then qret ''t'' d
          else if char_boundary 2 (ag_name ag) then qret (lower (take 2 (ag_name ag))) d
          else qfail EPanic d)))"

text \<open>\<open>created_at > date('now')\<close> compares the text of an instant with the text of a day.\<close>

definition day :: "datetime \<Rightarrow> int" where
  "day t = t div (86400 * 1000000000)"

definition created_today :: "string \<Rightarrow> datetime \<Rightarrow> quest_db \<Rightarrow> nat" where
  "created_today a now d = length (filter (\<lambda>r. qr_agent_id r = Some a \<and> day now \<le> day (qr_created_at r)) (quest_rows d))"

definition check_daily_limit :: "string \<Rightarrow> datetime \<Rightarrow> unit qreg" where
  "check_daily_limit a now d =
     (if 2 ^ 32 \<le> created_today a now d then qfail ERange d
      else if 50 \<le> created_today a now d then qfail EDailyLimit d
      else qret () d)"

definition coalesce :: "string option \<Rightarrow> string" where
  "coalesce x = (case x of None \<Rightarrow> [] | Some s \<Rightarrow> s)"

definition mint_or_reuse_quest_idea :: "(string \<Rightarrow> string) \<Rightarrow> string \<Rightarrow> string \<Rightarrow> string list \<Rightarrow> string option \<Rightarrow>
  Scope \<Rightarrow> string \<Rightarrow> datetime \<Rightarrow> string qreg" where
  "mint_or_reuse_quest_idea lower name text labels agent sc uuid now d =
     (let lookup = (if trim name = [] then ''(untitled)'' else name) in
      case find (\<lambda>i. coalesce (ir_agent_id i) = coalesce agent \<and> ir_name i = lookup) (ideas d) of
        Some i \<Rightarrow> qret (ir_id i) d
      | None \<Rightarrow>
          (if uuid \<in> ir_id ` set (ideas d) then qfail EConstraint d
           else qret uuid (d\<lparr>ideas := ideas d @
             [\<lparr>ir_id = uuid, ir_name = lookup, ir_content = text, ir_scope = scope_as_str sc,
               ir_agent_id = agent, ir_session_id = None, ir_created_at = now,
               ir_kind = ''note'', ir_file_id = None,
               ir_tags = remdups (filter (\<lambda>t. t \<noteq> []) (map (\<lambda>t. lower (trim t)) labels))\<rparr>]\<rparr>)))"

text \<open>SQL's \<open>LIKE\<close>: \<open>%\<close> any text, \<open>_\<close> one character, letters without their case.\<close>

definition ascii_lower :: "char \<Rightarrow> nat" where
  "ascii_lower c = (let n = of_char c in if 65 \<le> n \<and> n \<le> 90 then n + 32 else n)"

fun like :: "string \<Rightarrow> string \<Rightarrow> bool" where
  "like [] s \<longleftrightarrow> s = []"
| "like (p # ps) [] \<longleftrightarrow> p = CHR ''%'' \<and> like ps []"
| "like (p # ps) (c # s) \<longleftrightarrow>
     (if p = CHR ''%'' then like ps (c # s) \<or> like (p # ps) s
      else (p = CHR ''_'' \<or> ascii_lower p = ascii_lower c) \<and> like ps s)"

definition child_count :: "QuestId \<Rightarrow> quest_db \<Rightarrow> nat" where
  "child_count pid d = length (filter (\<lambda>r. like (pid @ ''.%'') (qr_id r)) (quest_rows d))"

definition next_child_id :: "QuestId \<Rightarrow> QuestId qreg" where
  "next_child_id pid d =
     (if 2 ^ 32 \<le> child_count pid d then qfail ERange d
      else qret (child pid (of_nat (child_count pid d) + 1)) d)"

definition next_root_id :: "string \<Rightarrow> QuestId qreg" where
  "next_root_id pre d =
     (let n = (case map_of (quest_sequences d) pre of None \<Rightarrow> 1 | Some n \<Rightarrow> n);
          d' = d\<lparr>quest_sequences := AList.update pre (n + 1) (quest_sequences d)\<rparr>
      in if 0 \<le> n \<and> n < 2 ^ 32 then qret (root pre (word_of_int n)) d' else qfail ERange d')"

definition next_quest_id :: "string \<Rightarrow> QuestId option \<Rightarrow> QuestId qreg" where
  "next_quest_id pre parent_id =
     (case parent_id of Some pid \<Rightarrow> next_child_id pid | None \<Rightarrow> next_root_id pre)"

definition new_quest_row :: "QuestId \<Rightarrow> string \<Rightarrow> string option \<Rightarrow> Scope \<Rightarrow> QuestId list \<Rightarrow> datetime \<Rightarrow> quest_row" where
  "new_quest_row i spec agent sc deps now =
     \<lparr>qr_id = i, qr_idea_id = spec, qr_status = ''todo'', qr_priority = ''normal'', qr_agent_id = agent,
      qr_assignee = None, qr_scope = scope_as_str sc, qr_retry_count = 0, qr_checkpoints = [],
      qr_metadata = JObject [], qr_depends_on = deps, qr_outcome = None, qr_worktree_branch = None,
      qr_worktree_path = None, qr_created_at = now, qr_updated_at = None, qr_closed_at = None,
      qr_closed_reason = None, qr_creator_session_id = None, qr_due_at = None\<rparr>"

definition insert_quest :: "quest_row \<Rightarrow> unit qreg" where
  "insert_quest r d =
     (if qr_id r \<in> qr_id ` set (quest_rows d) then qfail EConstraint d
      else qret () (d\<lparr>quest_rows := quest_rows d @ [r]\<rparr>))"

definition store_quest :: "QuestId \<Rightarrow> string \<Rightarrow> string option \<Rightarrow> Scope \<Rightarrow> QuestId list \<Rightarrow> datetime \<Rightarrow> Quest qreg" where
  "store_quest i spec agent sc deps now =
     qbind (insert_quest (new_quest_row i spec agent sc deps now)) (\<lambda>_.
       qret ((with_agent now i spec agent)\<lparr>depends_on := deps, scope := sc\<rparr>))"

definition create_task_scoped :: "(string \<Rightarrow> string) \<Rightarrow> string \<Rightarrow> string \<Rightarrow> string \<Rightarrow> string list \<Rightarrow> Scope \<Rightarrow>
  string \<Rightarrow> datetime \<Rightarrow> Quest qreg" where
  "create_task_scoped lower a subject description labels sc uuid now =
     qbind (agent_quest_prefix lower a) (\<lambda>pre.
     qbind (check_daily_limit a now) (\<lambda>_.
     qbind (mint_or_reuse_quest_idea lower subject description labels (Some a) sc uuid now) (\<lambda>spec.
     qbind (next_root_id pre) (\<lambda>i. store_quest i spec (Some a) sc [] now))))"

definition create_task :: "(string \<Rightarrow> string) \<Rightarrow> string \<Rightarrow> string \<Rightarrow> string \<Rightarrow> string list \<Rightarrow> string \<Rightarrow> datetime \<Rightarrow> Quest qreg" where
  "create_task lower a subject description labels uuid now =
     create_task_scoped lower a subject description labels SelfScope uuid now"

definition create_task_with_idea_id :: "(string \<Rightarrow> string) \<Rightarrow> string \<Rightarrow> string \<Rightarrow> QuestId list \<Rightarrow> QuestId option \<Rightarrow>
  Scope \<Rightarrow> datetime \<Rightarrow> Quest qreg" where
  "create_task_with_idea_id lower a spec deps parent_id sc now =
     qbind (agent_quest_prefix lower a) (\<lambda>pre.
     qbind (check_daily_limit a now) (\<lambda>_.
     qbind (next_quest_id pre parent_id) (\<lambda>i. store_quest i spec (Some a) sc deps now)))"

definition create_task_v2_scoped :: "(string \<Rightarrow> string) \<Rightarrow> string \<Rightarrow> string \<Rightarrow> string \<Rightarrow> string list \<Rightarrow> QuestId list \<Rightarrow>
  QuestId option \<Rightarrow> Scope \<Rightarrow> string \<Rightarrow> datetime \<Rightarrow> Quest qreg" where
  "create_task_v2_scoped lower a subject description labels deps parent_id sc uuid now =
     qbind (agent_quest_prefix lower a) (\<lambda>pre.
     qbind (check_daily_limit a now) (\<lambda>_.
     qbind (mint_or_reuse_quest_idea lower subject description labels (Some a) sc uuid now) (\<lambda>spec.
     qbind (next_quest_id pre parent_id) (\<lambda>i. store_quest i spec (Some a) sc deps now))))"

definition create_task_v2 :: "(string \<Rightarrow> string) \<Rightarrow> string \<Rightarrow> string \<Rightarrow> string \<Rightarrow> string list \<Rightarrow> QuestId list \<Rightarrow>
  QuestId option \<Rightarrow> string \<Rightarrow> datetime \<Rightarrow> Quest qreg" where
  "create_task_v2 lower a subject description labels deps parent_id uuid now =
     create_task_v2_scoped lower a subject description labels deps parent_id SelfScope uuid now"

definition is_ascii_alphanumeric :: "char \<Rightarrow> bool" where
  "is_ascii_alphanumeric c \<longleftrightarrow> (let n = of_char c :: nat in 48 \<le> n \<and> n \<le> 57 \<or> 65 \<le> n \<and> n \<le> 90 \<or> 97 \<le> n \<and> n \<le> 122)"

definition fallback_quest_prefix :: "string \<Rightarrow> string" where
  "fallback_quest_prefix label =
     (let normalized = map (\<lambda>c. char_of (ascii_lower c)) (take 2 (filter is_ascii_alphanumeric label))
      in if normalized = [] then ''q'' else normalized)"

text \<open>\<open>default_agent\<close>: what \<open>default_agent(Some(project))\<close> found.\<close>

definition quest_prefix_for_project :: "Agent option \<Rightarrow> string \<Rightarrow> string" where
  "quest_prefix_for_project default_agent project = (case default_agent of
     Some ag \<Rightarrow> (case quest_prefix ag of Some p \<Rightarrow> p | None \<Rightarrow> fallback_quest_prefix (ag_name ag))
   | None \<Rightarrow> fallback_quest_prefix project)"

definition create_unbound_task_scoped :: "(string \<Rightarrow> string) \<Rightarrow> Agent option \<Rightarrow> string \<Rightarrow> string \<Rightarrow> string \<Rightarrow>
  string list \<Rightarrow> string option \<Rightarrow> QuestId list \<Rightarrow> QuestId option \<Rightarrow> string \<Rightarrow> datetime \<Rightarrow> Quest qreg" where
  "create_unbound_task_scoped lower default_agent project subject description labels linked_idea_id deps parent_id uuid now =
     qbind (case linked_idea_id of
         Some i \<Rightarrow> qret i
       | None \<Rightarrow> mint_or_reuse_quest_idea lower subject description labels None Global uuid now) (\<lambda>spec.
     qbind (next_quest_id (quest_prefix_for_project default_agent project) parent_id) (\<lambda>i.
       store_quest i spec None Global deps now))"

section \<open>Reading quests\<close>

definition find_quest :: "QuestId \<Rightarrow> quest_db \<Rightarrow> quest_row option" where
  "find_quest i d = find (\<lambda>r. qr_id r = i) (quest_rows d)"

definition get_task :: "QuestId \<Rightarrow> quest_db \<Rightarrow> Quest option" where
  "get_task i d = map_option row_to_task (find_quest i d)"

definition find_open_task_by_subject :: "string \<Rightarrow> quest_db \<Rightarrow> Quest option" where
  "find_open_task_by_subject subject d = (case find (\<lambda>i. ir_name i = subject) (ideas d) of
     None \<Rightarrow> None
   | Some i \<Rightarrow> map_option row_to_task
       (find (\<lambda>r. qr_idea_id r = ir_id i \<and> (qr_status r = ''todo'' \<or> qr_status r = ''in_progress'')) (quest_rows d)))"

definition priority_rank :: "string \<Rightarrow> nat" where
  "priority_rank s =
     (if s = ''critical'' then 0 else if s = ''high'' then 1 else if s = ''normal'' then 2
      else if s = ''low'' then 3 else 4)"

definition dep_done :: "quest_db \<Rightarrow> QuestId \<Rightarrow> bool" where
  "dep_done d i \<longleftrightarrow> map_option qr_status (find_quest i d) = Some ''done''"

definition ready_tasks :: "quest_db \<Rightarrow> Quest list" where
  "ready_tasks d = filter (\<lambda>t. list_all (dep_done d) (depends_on t))
     (map row_to_task (sort_key (\<lambda>r. priority_rank (qr_priority r)) (sort_key qr_created_at
       (filter (\<lambda>r. qr_status r = ''todo'') (quest_rows d)))))"

definition in_progress_of :: "string \<Rightarrow> quest_db \<Rightarrow> nat" where
  "in_progress_of a d = length (filter (\<lambda>r. qr_status r = ''in_progress'' \<and> qr_agent_id r = Some a) (quest_rows d))"

definition in_progress_counts_by_agent :: "quest_db \<Rightarrow> (string \<times> u32) list" where
  "in_progress_counts_by_agent d =
     map (\<lambda>a. (a, of_nat (in_progress_of a d)))
       (remdups (concat (map (\<lambda>r. if qr_status r = ''in_progress'' then (case qr_agent_id r of Some a \<Rightarrow> [a] | None \<Rightarrow> []) else [])
          (quest_rows d))))"

definition get_max_concurrent :: "string \<Rightarrow> quest_db \<Rightarrow> u32" where
  "get_max_concurrent a d = (case get_agent a d of Some x \<Rightarrow> max_concurrent x | None \<Rightarrow> 1)"

definition hydrate_quest_idea :: "quest_db \<Rightarrow> Quest \<Rightarrow> Quest" where
  "hydrate_quest_idea d q =
     (if idea_id q = [] then q
      else case find (\<lambda>i. ir_id i = idea_id q) (ideas d) of
        None \<Rightarrow> q
      | Some i \<Rightarrow> q\<lparr>idea := Some \<lparr>idea_key = ir_id i, idea_name = ir_name i, content = ir_content i, tags = sort (ir_tags i),
          idea_agent_id = ir_agent_id i, idea_created_at = ir_created_at i, session_id = ir_session_id i, score = 0,
          idea_scope = (case scope_from_str (ir_scope i) of Some s \<Rightarrow> s | None \<Rightarrow> SelfScope),
          inheritance = ''self'', tool_allow = [], tool_deny = [], parent_idea_id = None, properties = None,
          idea_kind = ir_kind i, file_id = ir_file_id i\<rparr>\<rparr>)"

definition find_quests_by_idea_id :: "string \<Rightarrow> quest_db \<Rightarrow> QuestId list" where
  "find_quests_by_idea_id i d = sort (map qr_id (filter (\<lambda>r. qr_idea_id r = i) (quest_rows d)))"

definition list_tasks :: "string option \<Rightarrow> string option \<Rightarrow> quest_db \<Rightarrow> Quest list" where
  "list_tasks st a d = map row_to_task (sort_key (\<lambda>r. - qr_created_at r)
     (filter (\<lambda>r. (st = None \<or> st = Some (qr_status r)) \<and> (a = None \<or> qr_agent_id r = a)) (quest_rows d)))"

definition list_tasks_by_prefix :: "QuestId \<Rightarrow> quest_db \<Rightarrow> Quest list" where
  "list_tasks_by_prefix pre d = map row_to_task
     (filter (\<lambda>r. CHR ''.'' \<notin> set (drop (length pre + 1) (qr_id r)))
       (sort_key qr_id (filter (\<lambda>r. like (pre @ ''.%'') (qr_id r)) (quest_rows d))))"

section \<open>Changing quests\<close>

definition update_where :: "(quest_row \<Rightarrow> bool) \<Rightarrow> (quest_row \<Rightarrow> quest_row) \<Rightarrow> quest_db \<Rightarrow> quest_db" where
  "update_where P f d = d\<lparr>quest_rows := map (\<lambda>r. if P r then f r else r) (quest_rows d)\<rparr>"

definition closes :: "QuestStatus \<Rightarrow> bool" where
  "closes st \<longleftrightarrow> st = Done \<or> st = Cancelled"

definition set_status :: "QuestStatus \<Rightarrow> datetime \<Rightarrow> quest_row \<Rightarrow> quest_row" where
  "set_status st now r = r\<lparr>qr_status := show_status st, qr_updated_at := Some now,
     qr_closed_at := (if closes st then Some now else qr_closed_at r)\<rparr>"

definition update_task_status :: "QuestId \<Rightarrow> QuestStatus \<Rightarrow> datetime \<Rightarrow> quest_db \<Rightarrow> quest_db" where
  "update_task_status i st now = update_where (\<lambda>r. qr_id r = i) (set_status st now)"

definition finalize_quest :: "QuestId \<Rightarrow> QuestStatus \<Rightarrow> bool \<Rightarrow> datetime \<Rightarrow> quest_db \<Rightarrow> quest_db" where
  "finalize_quest i st bump_retry now = update_where (\<lambda>r. qr_id r = i)
     (\<lambda>r. (set_status st now r)\<lparr>qr_retry_count := qr_retry_count r + (if bump_retry then 1 else 0)\<rparr>)"

definition reset_stale_in_progress :: "quest_db \<Rightarrow> nat \<times> quest_db" where
  "reset_stale_in_progress d =
     (length (filter (\<lambda>r. qr_status r = ''in_progress'') (quest_rows d)),
      update_where (\<lambda>r. qr_status r = ''in_progress'')
        (\<lambda>r. r\<lparr>qr_status := ''todo'', qr_retry_count := qr_retry_count r + 1\<rparr>) d)"

definition write_task :: "Quest \<Rightarrow> datetime \<Rightarrow> quest_row \<Rightarrow> quest_row" where
  "write_task q now r = r\<lparr>qr_idea_id := idea_id q, qr_status := show_status (status q),
     qr_priority := show_priority (priority q), qr_agent_id := agent_id q, qr_assignee := assignee q,
     qr_scope := scope_as_str (scope q), qr_retry_count := uint (retry_count q),
     qr_checkpoints := checkpoints q, qr_metadata := metadata q, qr_depends_on := depends_on q,
     qr_updated_at := Some now, qr_closed_at := closed_at q, qr_outcome := outcome q,
     qr_due_at := map_option (\<lambda>t. t div 1000000000) (due_at q),
     qr_worktree_branch := worktree_branch q, qr_worktree_path := worktree_path q\<rparr>"

definition update_task :: "QuestId \<Rightarrow> (Quest \<Rightarrow> Quest) \<Rightarrow> datetime \<Rightarrow> Quest qreg" where
  "update_task i f now d = (case get_task i d of
     None \<Rightarrow> qfail EQuestNotFound d
   | Some q \<Rightarrow> let q' = f q in
       qret q' (update_where (\<lambda>r. qr_id r = quest_id q') (write_task q' now) d))"

definition set_quest_idea_id :: "QuestId \<Rightarrow> string \<Rightarrow> datetime \<Rightarrow> Quest qreg" where
  "set_quest_idea_id i spec now = update_task i (\<lambda>q. q\<lparr>idea_id := spec\<rparr>) now"

definition update_task_scope :: "QuestId \<Rightarrow> Scope \<Rightarrow> datetime \<Rightarrow> quest_db \<Rightarrow> quest_db" where
  "update_task_scope i sc now = update_where (\<lambda>r. qr_id r = i)
     (\<lambda>r. r\<lparr>qr_scope := scope_as_str sc, qr_updated_at := Some now\<rparr>)"

end
