(* ===== verification/Session_Queue_Protocol.thy ===== *)
theory Session_Queue_Protocol
  imports Session_Queue
begin

text \<open>
  The queue under every interleaving of enqueuing callers, claim loops, running agents, database
  errors, crashes and recoveries: one execution per session, every message claimed or injected
  once, claims in order of arrival.
\<close>

section \<open>Keys of rows and tasks\<close>

definition row_key :: "PendingRow \<Rightarrow> string \<times> int" where
  "row_key r = (pm_session r, pm_id r)"

abbreviation is_queued :: "PendingRow \<Rightarrow> bool" where
  "is_queued r \<equiv> pm_status r = Queued"

abbreviation is_running :: "PendingRow \<Rightarrow> bool" where
  "is_running r \<equiv> pm_status r = Running"

definition queued_keys :: "queue_db \<Rightarrow> (string \<times> int) multiset" where
  "queued_keys q = mset (map row_key (filter is_queued (pending q)))"

definition running_keys :: "queue_db \<Rightarrow> (string \<times> int) multiset" where
  "running_keys q = mset (map row_key (filter is_running (pending q)))"

fun lease :: "task \<Rightarrow> (string \<times> int) multiset" where
  "lease (Executing sid c _) = {#(sid, pc_id c)#}"
| "lease (Finishing sid c) = {#(sid, pc_id c)#}"
| "lease _ = {#}"

definition leases :: "task multiset \<Rightarrow> (string \<times> int) multiset" where
  "leases M = \<Sum>\<^sub># (image_mset lease M)"

lemma leases_simps [simp]:
  "leases {#} = {#}" "leases (add_mset t M) = lease t + leases M" "leases (M + N) = leases M + leases N"
  by (simp_all add: leases_def)

lemma leases_claiming [simp]: "leases (image_mset Claiming M) = {#}"
  by (induction M) simp_all

definition one_each :: "(string \<times> int) multiset \<Rightarrow> bool" where
  "one_each K \<longleftrightarrow> (\<forall>s. size {#k \<in># K. fst k = s#} \<le> 1)"

lemma filter_mset_none: "\<forall>x\<in>#M. \<not> P x \<Longrightarrow> filter_mset P M = {#}"
  by (induction M) auto

lemma one_each_mono: "A \<subseteq># B \<Longrightarrow> one_each B \<Longrightarrow> one_each A"
  unfolding one_each_def by (meson multiset_filter_mono order_trans size_mset_mono)

lemma one_each_add: "one_each K \<Longrightarrow> {#k \<in># K. fst k = s#} = {#} \<Longrightarrow> one_each (add_mset (s, i) K)"
  by (simp add: one_each_def)

section \<open>The operations on the table\<close>

definition table_ok :: "queue_db \<Rightarrow> bool" where
  "table_ok q \<longleftrightarrow> sorted_wrt (<) (map pm_id (pending q)) \<and> (\<forall>r\<in>set (pending q). pm_id r < next_pending q) \<and>
     one_each (running_keys q)"

lemma sorted_ids_distinct: "sorted_wrt (<) (map pm_id rs) \<Longrightarrow> distinct (map pm_id rs)"
  by (simp add: strict_sorted_iff)

lemma set_running_id [simp]: "pm_id (set_running i now r) = pm_id r" "pm_session (set_running i now r) = pm_session r"
  by (simp_all add: set_running_def)

lemma set_running_self [simp]: "pm_status (set_running (pm_id r) now r) = Running"
  "row_key (set_running i now r) = row_key r"
  by (simp_all add: set_running_def row_key_def)

lemma set_running_other: "pm_id r \<noteq> i \<Longrightarrow> set_running i now r = r"
  by (simp add: set_running_def)

lemma map_set_running_other: "i \<notin> pm_id ` set rs \<Longrightarrow> map (set_running i now) rs = rs"
  by (induction rs) (auto simp: set_running_other)

lemma set_running_queued:
  "distinct (map pm_id rs) \<Longrightarrow> r \<in> set rs \<Longrightarrow> is_queued r \<Longrightarrow>
     mset (map row_key (filter is_queued rs)) =
      add_mset (row_key r) (mset (map row_key (filter is_queued (map (set_running (pm_id r) now) rs))))"
proof (induction rs)
  case (Cons x rs)
  show ?case
  proof (cases "x = r")
    case True
    then have "map (set_running (pm_id r) now) rs = rs"
      using Cons.prems(1) by (intro map_set_running_other) auto
    then show ?thesis using True Cons.prems(3) by (simp del: mset_map mset_filter)
  next
    case False
    then have "pm_id x \<noteq> pm_id r" using Cons.prems(1,2) by auto
    then show ?thesis using Cons False by (simp add: set_running_other)
  qed
qed simp

lemma set_running_running:
  "distinct (map pm_id rs) \<Longrightarrow> r \<in> set rs \<Longrightarrow> is_queued r \<Longrightarrow>
     mset (map row_key (filter is_running (map (set_running (pm_id r) now) rs))) =
      add_mset (row_key r) (mset (map row_key (filter is_running rs)))"
proof (induction rs)
  case (Cons x rs)
  show ?case
  proof (cases "x = r")
    case True
    then have "map (set_running (pm_id r) now) rs = rs"
      using Cons.prems(1) by (intro map_set_running_other) auto
    then show ?thesis using True Cons.prems(3) by (simp del: mset_map mset_filter)
  next
    case False
    then have "pm_id x \<noteq> pm_id r" using Cons.prems(1,2) by auto
    then show ?thesis using Cons False by (simp add: set_running_other)
  qed
qed simp

lemma sort_key_Nil [simp]: "sort_key f xs = [] \<longleftrightarrow> xs = []"
  by (metis set_empty set_sort)

lemma claim_SomeD:
  assumes "claim_next_pending sid now q = (Some c, q')"
  obtains r where "r \<in> set (pending q)" "is_queued r" "pm_session r = sid" "pc_id c = pm_id r"
    "pc_payload c = pm_payload r" "q' = q\<lparr>pending := map (set_running (pm_id r) now) (pending q)\<rparr>"
    "\<forall>x\<in>set (pending q). \<not> (pm_session x = sid \<and> is_running x)"
    "\<forall>x\<in>set (pending q). pm_session x = sid \<and> is_queued x \<longrightarrow> pm_id r \<le> pm_id x"
proof -
  obtain r rs where r: "claimable sid q = r # rs" "c = \<lparr>pc_id = pm_id r, pc_payload = pm_payload r\<rparr>"
      "q' = q\<lparr>pending := map (set_running (pm_id r) now) (pending q)\<rparr>"
    using assms by (auto simp: claim_next_pending_def split: list.splits)
  have n: "\<forall>x\<in>set (pending q). \<not> (pm_session x = sid \<and> is_running x)"
    and s: "sort_key pm_id (filter (\<lambda>r. pm_session r = sid \<and> is_queued r) (pending q)) = r # rs"
    using r(1) by (auto simp: claimable_def list_ex_iff split: if_splits)
  have "set (r # rs) = set (filter (\<lambda>r. pm_session r = sid \<and> is_queued r) (pending q))"
    using s by (metis set_sort)
  moreover have "\<forall>x\<in>set (r # rs). pm_id r \<le> pm_id x"
    using sorted_sort_key [of pm_id "filter (\<lambda>r. pm_session r = sid \<and> is_queued r) (pending q)"] by (simp add: s)
  ultimately show thesis using that [of r] r(2,3) n by auto
qed

lemma claim_NoneD:
  assumes "claim_next_pending sid now q = (None, q')"
  shows "q' = q" and "(\<exists>x\<in>set (pending q). pm_session x = sid \<and> is_running x) \<or>
    (\<forall>x\<in>set (pending q). pm_session x = sid \<longrightarrow> \<not> is_queued x)"
  using assms by (auto simp: claim_next_pending_def claimable_def list_ex_iff filter_empty_conv
      split: list.splits if_splits)

lemma clear_pending [simp]: "pending (snd (clear_if_awaiting sid q)) = pending q"
  "next_pending (snd (clear_if_awaiting sid q)) = next_pending q"
  by (simp_all add: clear_if_awaiting_def split: option.splits)

lemma enqueue_effect:
  assumes "enqueue_pending parse sid payload now q = (i, q')"
  shows "i = next_pending q" "next_pending q' = next_pending q + 1"
    "\<exists>r. pending q' = pending q @ [r] \<and> is_queued r \<and> row_key r = (sid, i) \<and> pm_payload r = payload"
  using assms by (auto simp: enqueue_pending_def insert_pending_def row_key_def)

lemma answer_effect:
  assumes "answer_awaiting sid payload now q = (b, q')"
  shows "next_pending q' = next_pending q + 1"
    "\<exists>r. pending q' = pending q @ [r] \<and> is_queued r \<and> row_key r = (sid, next_pending q) \<and> pm_payload r = payload"
proof -
  obtain b' q1 where c: "clear_if_awaiting sid q = (b', q1)" by force
  then have "pending q1 = pending q" "next_pending q1 = next_pending q"
    using clear_pending [of sid q] by simp_all
  then show "next_pending q' = next_pending q + 1"
    "\<exists>r. pending q' = pending q @ [r] \<and> is_queued r \<and> row_key r = (sid, next_pending q) \<and> pm_payload r = payload"
    using assms c by (auto simp: answer_awaiting_def insert_pending_def row_key_def)
qed

section \<open>Effects on the keys\<close>

lemma keys_append:
  assumes "table_ok q" "pending q' = pending q @ [r]" "is_queued r" "pm_id r = next_pending q"
    "next_pending q' = next_pending q + 1"
  shows "queued_keys q' = add_mset (row_key r) (queued_keys q)" "running_keys q' = running_keys q" "table_ok q'"
  using assms by (auto simp: queued_keys_def running_keys_def table_ok_def sorted_wrt_append)

lemma keys_same:
  assumes "pending q' = pending q" "next_pending q' = next_pending q"
  shows "queued_keys q' = queued_keys q" "running_keys q' = running_keys q" "table_ok q' = table_ok q"
  using assms by (simp_all add: queued_keys_def running_keys_def table_ok_def)

lemma keys_claim:
  assumes T: "table_ok q" and c: "claim_next_pending sid now q = (Some c, q')"
  shows "queued_keys q = add_mset (sid, pc_id c) (queued_keys q')"
    "running_keys q' = add_mset (sid, pc_id c) (running_keys q)" "table_ok q'" "next_pending q' = next_pending q"
    "\<forall>r\<in>set (pending q'). is_queued r \<and> pm_session r = sid \<longrightarrow> pc_id c < pm_id r"
    "\<forall>r\<in>set (pending q'). is_queued r \<longrightarrow> r \<in> set (pending q)" "pc_id c < next_pending q"
proof -
  obtain r where r: "r \<in> set (pending q)" "is_queued r" "pm_session r = sid" "pc_id c = pm_id r"
    and q': "q' = q\<lparr>pending := map (set_running (pm_id r) now) (pending q)\<rparr>"
    and none: "\<forall>x\<in>set (pending q). \<not> (pm_session x = sid \<and> is_running x)"
    and least: "\<forall>x\<in>set (pending q). pm_session x = sid \<and> is_queued x \<longrightarrow> pm_id r \<le> pm_id x"
    using c by (rule claim_SomeD) blast
  have d: "distinct (map pm_id (pending q))" using T by (simp add: table_ok_def sorted_ids_distinct)
  show "queued_keys q = add_mset (sid, pc_id c) (queued_keys q')"
    using set_running_queued [OF d r(1,2), of now] r(3,4) by (simp add: queued_keys_def q' row_key_def)
  show R: "running_keys q' = add_mset (sid, pc_id c) (running_keys q)"
    using set_running_running [OF d r(1,2), of now] r(3,4) by (simp add: running_keys_def q' row_key_def)
  have "{#k \<in># running_keys q. fst k = sid#} = {#}"
    using none by (intro filter_mset_none) (auto simp: running_keys_def row_key_def)
  then have "one_each (running_keys q')" using T R by (simp add: table_ok_def one_each_add)
  then show "table_ok q'" using T by (simp add: table_ok_def q' o_def)
  show "next_pending q' = next_pending q" by (simp add: q')
  show orig: "\<forall>x\<in>set (pending q'). is_queued x \<longrightarrow> x \<in> set (pending q)"
    by (auto simp: q' set_running_def split: if_splits)
  have "pm_id x \<noteq> pm_id r" if "x \<in> set (pending q')" "is_queued x" for x
    using that by (auto simp: q' set_running_def split: if_splits)
  then show "\<forall>x\<in>set (pending q'). is_queued x \<and> pm_session x = sid \<longrightarrow> pc_id c < pm_id x"
    using least orig r(4) by fastforce
  show "pc_id c < next_pending q" using T r by (simp add: table_ok_def)
qed

lemma keys_filter:
  assumes "table_ok q" "\<And>r. r \<in> set (pending q) \<Longrightarrow> is_running r \<Longrightarrow> \<not> P r"
  shows "queued_keys q = mset (map row_key (filter P (filter is_queued (pending q)))) +
      queued_keys (q\<lparr>pending := filter (\<lambda>r. \<not> P r) (pending q)\<rparr>)"
    "running_keys (q\<lparr>pending := filter (\<lambda>r. \<not> P r) (pending q)\<rparr>) = running_keys q"
    "table_ok (q\<lparr>pending := filter (\<lambda>r. \<not> P r) (pending q)\<rparr>)"
proof -
  have split: "mset (map f xs) = mset (map f (filter P xs)) + mset (map f (filter (\<lambda>r. \<not> P r) xs))"
    for f :: "PendingRow \<Rightarrow> string \<times> int" and xs by (induction xs) simp_all
  show "queued_keys q = mset (map row_key (filter P (filter is_queued (pending q)))) +
      queued_keys (q\<lparr>pending := filter (\<lambda>r. \<not> P r) (pending q)\<rparr>)"
    using split [of row_key "filter is_queued (pending q)"]
    by (simp add: queued_keys_def conj_commute)
  have "filter is_running (filter (\<lambda>r. \<not> P r) (pending q)) = filter is_running (pending q)"
    using assms(2) by (auto simp: filter_filter intro: filter_cong)
  then show R: "running_keys (q\<lparr>pending := filter (\<lambda>r. \<not> P r) (pending q)\<rparr>) = running_keys q"
    by (simp add: running_keys_def)
  show "table_ok (q\<lparr>pending := filter (\<lambda>r. \<not> P r) (pending q)\<rparr>)"
    using assms(1) R by (simp add: table_ok_def sorted_wrt_map sorted_wrt_filter)
qed

lemma keys_delete:
  assumes T: "table_ok q" and k: "(sid, i) \<in># running_keys q"
  shows "queued_keys (delete_pending i q) = queued_keys q"
    "running_keys q = add_mset (sid, i) (running_keys (delete_pending i q))" "table_ok (delete_pending i q)"
proof -
  have d: "distinct (map pm_id (pending q))" using T by (simp add: table_ok_def sorted_ids_distinct)
  obtain r where r: "r \<in> set (pending q)" "is_running r" "row_key r = (sid, i)"
    using k by (auto simp: running_keys_def)
  have only: "x = r" if "x \<in> set (pending q)" "pm_id x = i" for x
    using that r d by (auto simp: row_key_def distinct_map inj_on_def)
  have "filter is_queued (filter (\<lambda>x. pm_id x \<noteq> i) (pending q)) = filter is_queued (pending q)"
    using only r(2) by (auto simp: filter_filter intro!: filter_cong)
  then show "queued_keys (delete_pending i q) = queued_keys q"
    by (simp add: queued_keys_def delete_pending_def)
  have gen: "mset (map row_key (filter is_running xs)) =
      add_mset (row_key r) (mset (map row_key (filter is_running (filter (\<lambda>x. pm_id x \<noteq> pm_id r) xs))))"
    if "distinct (map pm_id xs)" "r \<in> set xs" for xs
    using that
  proof (induction xs)
    case (Cons x xs)
    show ?case
    proof (cases "x = r")
      case True
      then have "filter (\<lambda>x. pm_id x \<noteq> pm_id r) xs = xs" using Cons.prems(1) by (auto simp: filter_id_conv image_iff)
      then show ?thesis using True r(2) by (simp del: mset_map mset_filter)
    next
      case False
      then have "pm_id x \<noteq> pm_id r" using Cons.prems by auto
      then show ?thesis using Cons False by auto
    qed
  qed simp
  show "running_keys q = add_mset (sid, i) (running_keys (delete_pending i q))"
    using gen [OF d r(1)] r(3) by (simp add: running_keys_def delete_pending_def row_key_def)
  then have "running_keys (delete_pending i q) \<subseteq># running_keys q" by simp
  then show "table_ok (delete_pending i q)"
    using T one_each_mono by (auto simp: table_ok_def delete_pending_def sorted_wrt_map sorted_wrt_filter)
qed

lemma keys_recover:
  assumes "table_ok q" "recover_orphaned_running q = (n, q')"
  shows "queued_keys q' = queued_keys q" "running_keys q' = {#}" "table_ok q'" "next_pending q' = next_pending q"
    "set (pending q') \<subseteq> set (pending q)"
proof -
  have q': "q' = q\<lparr>pending := filter (\<lambda>r. \<not> is_running r) (pending q)\<rparr>"
    using assms(2) by (auto simp: recover_orphaned_running_def)
  have "filter is_queued (filter (\<lambda>r. \<not> is_running r) (pending q)) = filter is_queued (pending q)"
    by (auto simp: filter_filter intro: filter_cong)
  then show "queued_keys q' = queued_keys q" by (simp add: queued_keys_def q')
  have "filter is_running (filter (\<lambda>r. \<not> is_running r) (pending q)) = []" by (simp add: filter_empty_conv)
  then show R: "running_keys q' = {#}" by (simp add: running_keys_def q')
  then show "table_ok q'"
    using assms(1) by (simp add: table_ok_def q' sorted_wrt_map sorted_wrt_filter one_each_def)
  show "next_pending q' = next_pending q" "set (pending q') \<subseteq> set (pending q)" by (auto simp: q')
qed

lemma keys_delete_any:
  assumes T: "table_ok q" and n: "\<forall>r\<in>set (pending q). is_queued r \<longrightarrow> pm_id r \<noteq> i"
  shows "queued_keys (delete_pending i q) = queued_keys q" "table_ok (delete_pending i q)"
proof -
  have "filter is_queued (filter (\<lambda>x. pm_id x \<noteq> i) (pending q)) = filter is_queued (pending q)"
    using n by (auto simp: filter_filter intro!: filter_cong)
  then show "queued_keys (delete_pending i q) = queued_keys q"
    by (simp add: queued_keys_def delete_pending_def)
  have "filter is_running (filter (\<lambda>x. pm_id x \<noteq> i) (pending q)) =
      filter (\<lambda>x. pm_id x \<noteq> i) (filter is_running (pending q))" by (simp add: conj_commute)
  then have "running_keys (delete_pending i q) \<subseteq># running_keys q"
    by (simp add: running_keys_def delete_pending_def image_mset_subseteq_mono del: filter_filter)
  then show "table_ok (delete_pending i q)"
    using T one_each_mono by (auto simp: table_ok_def delete_pending_def sorted_wrt_map sorted_wrt_filter)
qed

section \<open>Every message is handled once\<close>

text \<open>The keys that have left the queue, and what is known of them.\<close>

definition taken :: "daemon \<Rightarrow> (string \<times> int) list" where
  "taken S = g_claimed S @ g_injected S"

fun marks :: "task \<Rightarrow> (string \<times> int) set" where
  "marks (Executing sid c w) = {(sid, pc_id c), (sid, w)}"
| "marks (Finishing sid c) = {(sid, pc_id c)}"
| "marks _ = {}"

definition log_inv :: "daemon \<Rightarrow> bool" where
  "log_inv S \<longleftrightarrow> table_ok (queue S) \<and>
     mset (g_enqueued S) = mset (taken S) + queued_keys (queue S) \<and>
     sorted_wrt (\<lambda>x y. snd x < snd y) (g_enqueued S) \<and>
     (\<forall>x\<in>set (g_enqueued S). snd x < next_pending (queue S)) \<and>
     sorted_wrt (\<lambda>x y. fst x = fst y \<longrightarrow> snd x < snd y) (g_claimed S) \<and>
     (\<forall>x\<in>set (taken S). \<forall>r\<in>set (pending (queue S)).
        is_queued r \<and> pm_session r = fst x \<longrightarrow> snd x < pm_id r) \<and>
     (\<forall>t\<in>#tasks S. marks t \<subseteq> set (taken S))"

lemma log_invD:
  assumes "log_inv S"
  shows "table_ok (queue S)" "mset (g_enqueued S) = mset (taken S) + queued_keys (queue S)"
    "sorted_wrt (\<lambda>x y. snd x < snd y) (g_enqueued S)"
    "\<And>x. x \<in> set (g_enqueued S) \<Longrightarrow> snd x < next_pending (queue S)"
    "sorted_wrt (\<lambda>x y. fst x = fst y \<longrightarrow> snd x < snd y) (g_claimed S)"
    "\<And>x r. x \<in> set (taken S) \<Longrightarrow> r \<in> set (pending (queue S)) \<Longrightarrow> is_queued r \<Longrightarrow> pm_session r = fst x \<Longrightarrow>
      snd x < pm_id r"
    "\<And>t. t \<in># tasks S \<Longrightarrow> marks t \<subseteq> set (taken S)"
  using assms unfolding log_inv_def by blast+

lemma taken_enqueued: "log_inv S \<Longrightarrow> x \<in> set (taken S) \<Longrightarrow> x \<in> set (g_enqueued S)"
  using log_invD(2) by (metis set_mset_mset union_iff)

lemma queued_enqueued: "log_inv S \<Longrightarrow> r \<in> set (pending (queue S)) \<Longrightarrow> is_queued r \<Longrightarrow> row_key r \<in> set (g_enqueued S)"
proof -
  assume I: "log_inv S" and r: "r \<in> set (pending (queue S))" "is_queued r"
  then have "row_key r \<in># queued_keys (queue S)" by (auto simp: queued_keys_def)
  then show ?thesis using log_invD(2) [OF I] by (metis set_mset_mset union_iff)
qed

lemma enqueued_distinct: "log_inv S \<Longrightarrow> distinct (map snd (g_enqueued S))"
  using log_invD(3) [of S] by (simp add: sorted_ids_distinct strict_sorted_iff sorted_wrt_map flip: sorted_wrt_map)

text \<open>A new row.\<close>

lemma log_enqueue:
  assumes I: "log_inv S" and q: "next_pending q = next_pending (queue S) + 1"
    "pending q = pending (queue S) @ [r]" "is_queued r" "row_key r = (sid, next_pending (queue S))"
    and t: "\<forall>t\<in>#ts. marks t \<subseteq> set (taken S)"
  shows "log_inv (S\<lparr>queue := q, tasks := ts, g_enqueued := g_enqueued S @ [(sid, next_pending (queue S))]\<rparr>)"
proof -
  note D = log_invD [OF I]
  have id: "pm_id r = next_pending (queue S)" using q(4) by (simp add: row_key_def)
  note K = keys_append [OF D(1) q(2,3) id q(1)]
  have "snd x < next_pending (queue S)" if "x \<in> set (taken S)" for x
    using D(4) taken_enqueued [OF I that] by simp
  then show ?thesis
    using D K(1,3) q t id unfolding log_inv_def
    by (auto simp: taken_def sorted_wrt_append intro: less_imp_le)
qed

text \<open>The queue is unchanged in what it has queued, or loses rows that are not queued.\<close>

lemma log_keep:
  assumes I: "log_inv S" and "table_ok q" "queued_keys q = queued_keys (queue S)"
    "next_pending q = next_pending (queue S)"
    "\<And>r. r \<in> set (pending q) \<Longrightarrow> is_queued r \<Longrightarrow> r \<in> set (pending (queue S))"
    and "\<forall>t\<in>#ts. marks t \<subseteq> set (taken S)"
  shows "log_inv (S\<lparr>queue := q, tasks := ts\<rparr>)"
  using log_invD [OF I] assms(2-6) unfolding log_inv_def by (simp add: taken_def)

text \<open>A claim.\<close>

lemma log_claim:
  assumes I: "log_inv S" and c: "claim_next_pending sid now (queue S) = (Some c, q)"
    and t: "\<forall>t\<in>#ts. marks t \<subseteq> set (taken S)"
  shows "log_inv (S\<lparr>queue := q, tasks := add_mset (Executing sid c (pc_id c)) ts,
      g_claimed := g_claimed S @ [(sid, pc_id c)]\<rparr>)"
proof -
  note D = log_invD [OF I] and K = keys_claim [OF log_invD(1) [OF I] c]
  obtain r where r: "r \<in> set (pending (queue S))" "is_queued r" "pm_session r = sid" "pc_id c = pm_id r"
    using c by (rule claim_SomeD) blast
  have "snd x < pc_id c" if "x \<in> set (g_claimed S)" "fst x = sid" for x
    using D(6) [of x r] r that by (simp add: taken_def)
  then have "sorted_wrt (\<lambda>x y. fst x = fst y \<longrightarrow> snd x < snd y) (g_claimed S @ [(sid, pc_id c)])"
    using D(5) by (simp add: sorted_wrt_append)
  moreover have "mset (g_enqueued S) = mset (taken (S\<lparr>g_claimed := g_claimed S @ [(sid, pc_id c)]\<rparr>)) + queued_keys q"
    using D(2) K(1) by (simp add: taken_def)
  moreover have "snd x < pm_id y" if "x \<in> set (taken (S\<lparr>g_claimed := g_claimed S @ [(sid, pc_id c)]\<rparr>))"
      "y \<in> set (pending q)" "is_queued y" "pm_session y = fst x" for x y
    using that D(6) [of x y] K(5,6) by (auto simp: taken_def)
  moreover have "\<forall>t\<in>#add_mset (Executing sid c (pc_id c)) ts.
      marks t \<subseteq> set (taken (S\<lparr>g_claimed := g_claimed S @ [(sid, pc_id c)]\<rparr>))"
    using t by (auto simp: taken_def)
  ultimately show ?thesis using D(3,4) K(3,4) unfolding log_inv_def by (simp add: taken_def)
qed

text \<open>An injection: the watermark is a key that was taken, so every queued row is above it.\<close>

lemma injectable_all:
  assumes "log_inv S" "(sid, w) \<in> set (taken S)" "r \<in> set (pending (queue S))"
  shows "injectable sid (Some w) r \<longleftrightarrow> pm_session r = sid \<and> is_queued r"
  using log_invD(6) [OF assms(1,2,3)] by (auto simp: injectable_def)

lemma injectable_keys:
  "map (\<lambda>r. (sid, pm_id r)) (filter (injectable sid since) rs) =
     map row_key (filter (injectable sid since) (filter is_queued rs))"
  by (induction rs) (auto simp: injectable_def row_key_def)

lemma log_inject:
  assumes I: "log_inv S" and w: "(sid, w) \<in> set (taken S)" "(sid, pc_id c) \<in> set (taken S)"
    and c: "claim_pending_for_session parse ord sid (Some w) (queue S) = (ms, q)"
    and ord: "\<forall>xs. mset (ord xs) = mset xs" and t: "\<forall>t\<in>#ts. marks t \<subseteq> set (taken S)"
  shows "log_inv (S\<lparr>queue := q, tasks := add_mset (Executing sid c (advance ms w)) ts,
      g_injected := g_injected S @ map (\<lambda>m. (sid, im_id m)) ms\<rparr>)"
proof -
  note D = log_invD [OF I]
  let ?P = "injectable sid (Some w)"
  have q: "q = (queue S)\<lparr>pending := filter (\<lambda>r. \<not> ?P r) (pending (queue S))\<rparr>"
    and ms: "map (\<lambda>m. (sid, im_id m)) ms = map (\<lambda>r. (sid, pm_id r)) (ord (filter ?P (pending (queue S))))"
    using c by (auto simp: claim_pending_for_session_def)
  have "mset (map (\<lambda>m. (sid, im_id m)) ms) = mset (map (\<lambda>r. (sid, pm_id r)) (filter ?P (pending (queue S))))"
    using ord by (simp add: ms)
  also have "map (\<lambda>r. (sid, pm_id r)) (filter ?P (pending (queue S))) =
      map row_key (filter ?P (filter is_queued (pending (queue S))))"
    by (rule injectable_keys)
  finally have inj: "mset (map (\<lambda>m. (sid, im_id m)) ms) =
      mset (map row_key (filter ?P (filter is_queued (pending (queue S)))))" .
  have K: "queued_keys (queue S) = mset (map (\<lambda>m. (sid, im_id m)) ms) + queued_keys q" "table_ok q"
    unfolding inj q by (rule keys_filter [OF D(1)], simp add: injectable_def)+
  have none: "pm_session r \<noteq> sid \<or> \<not> is_queued r" if "r \<in> set (pending q)" for r
    using that injectable_all [OF I w(1)] by (auto simp: q)
  have "(sid, advance ms w) \<in> set (taken S @ map (\<lambda>m. (sid, im_id m)) ms)"
    using w(1) by (auto simp: advance_def)
  moreover have "snd x < pm_id r" if "x \<in> set (taken S @ map (\<lambda>m. (sid, im_id m)) ms)" "r \<in> set (pending q)"
      "is_queued r" "pm_session r = fst x" for x r
    using that D(6) [of x r] none [of r] by (auto simp: q)
  moreover have "mset (taken (S\<lparr>g_injected := g_injected S @ map (\<lambda>m. (sid, im_id m)) ms\<rparr>)) =
      mset (taken S @ map (\<lambda>m. (sid, im_id m)) ms)"
    "set (taken (S\<lparr>g_injected := g_injected S @ map (\<lambda>m. (sid, im_id m)) ms\<rparr>)) =
      set (taken S @ map (\<lambda>m. (sid, im_id m)) ms)"
    by (simp_all add: taken_def)
  ultimately show ?thesis
    using D(2-5) K w t unfolding log_inv_def by (simp add: taken_def q) blast
qed

definition permutes :: "(PendingRow list \<Rightarrow> PendingRow list) \<Rightarrow> bool" where
  "permutes ord \<longleftrightarrow> (\<forall>xs. mset (ord xs) = mset xs)"

lemma log_step:
  assumes "qstep parse ord a S S'" "log_inv S" "permutes ord"
  shows "log_inv S'"
  using assms(1)
proof cases
  case (enqueue sid payload now i q)
  from enqueue_effect [OF enqueue(3)] obtain r where r: "i = next_pending (queue S)"
    "next_pending q = next_pending (queue S) + 1" "pending q = pending (queue S) @ [r]" "is_queued r"
    "row_key r = (sid, next_pending (queue S))" by auto
  show ?thesis unfolding enqueue(2) r(1)
    by (rule log_enqueue [OF assms(2) r(2-5)]) (use log_invD(7) [OF assms(2)] in auto)
next
  case (answer sid payload now cleared q)
  from answer_effect [OF answer(3)] obtain r where r: "next_pending q = next_pending (queue S) + 1"
    "pending q = pending (queue S) @ [r]" "is_queued r" "row_key r = (sid, next_pending (queue S))" by auto
  show ?thesis unfolding answer(2)
    by (rule log_enqueue [OF assms(2) r]) (use log_invD(7) [OF assms(2)] in auto)
next
  case (answer_deferred sid payload now cleared q)
  from answer_effect [OF answer_deferred(3)] obtain r where r: "next_pending q = next_pending (queue S) + 1"
    "pending q = pending (queue S) @ [r]" "is_queued r" "row_key r = (sid, next_pending (queue S))" by auto
  have "log_inv (S\<lparr>queue := q, tasks := tasks S, g_enqueued := g_enqueued S @ [(sid, next_pending (queue S))]\<rparr>)"
    by (rule log_enqueue [OF assms(2) r]) (use log_invD(7) [OF assms(2)] in auto)
  then show ?thesis using answer_deferred(2) by simp
next
  case (claim sid ts now c q)
  show ?thesis unfolding claim(2)
    by (rule log_claim [OF assms(2) claim(4)]) (use log_invD(7) [OF assms(2)] claim(3) in auto)
next
  case (inject sid c w ts ms q)
  have m: "(sid, w) \<in> set (taken S)" "(sid, pc_id c) \<in> set (taken S)"
    using log_invD(7) [OF assms(2), of "Executing sid c w"] inject(3) by simp_all
  show ?thesis unfolding inject(2)
    by (rule log_inject [OF assms(2) m inject(4)])
      (use log_invD(7) [OF assms(2)] inject(3) assms(3) in \<open>auto simp: permutes_def\<close>)
next
  case (delete sid c ts)
  have k: "(sid, pc_id c) \<in> set (taken S)"
    using log_invD(7) [OF assms(2), of "Finishing sid c"] delete(3) by simp
  have "pm_id r \<noteq> pc_id c" if "r \<in> set (pending (queue S))" "is_queued r" for r
  proof
    assume e: "pm_id r = pc_id c"
    have "row_key r \<in> set (g_enqueued S)" "(sid, pc_id c) \<in> set (g_enqueued S)"
      using queued_enqueued [OF assms(2) that] taken_enqueued [OF assms(2) k] by simp_all
    then have "row_key r = (sid, pc_id c)"
      using enqueued_distinct [OF assms(2)] e
      by (intro inj_onD [where f = snd and A = "set (g_enqueued S)"]) (auto simp: distinct_map row_key_def)
    then show False using log_invD(6) [OF assms(2) k that] e by (simp add: row_key_def)
  qed
  then have K: "queued_keys (delete_pending (pc_id c) (queue S)) = queued_keys (queue S)"
    "table_ok (delete_pending (pc_id c) (queue S))"
    using keys_delete_any [OF log_invD(1) [OF assms(2)]] by blast+
  show ?thesis unfolding delete(2)
    by (rule log_keep [OF assms(2) K(2,1)]) (use log_invD(7) [OF assms(2)] delete(3) in \<open>auto simp: delete_pending_def\<close>)
next
  case (recover n q)
  note K = keys_recover [OF log_invD(1) [OF assms(2)] recover(3)]
  show ?thesis unfolding recover(2)
    by (rule log_keep [OF assms(2) K(3,1,4)]) (use K(5) log_invD(7) [OF assms(2)] in auto)
next
  case (await q sid subject now)
  have p: "pending q = pending (queue S)" "next_pending q = next_pending (queue S)"
    using await(3) by (auto simp: set_awaiting_def clear_awaiting_def dismiss_awaiting_def split: option.splits)
  have "log_inv (S\<lparr>queue := q, tasks := tasks S\<rparr>)"
    by (rule log_keep [OF assms(2)]) (use keys_same [OF p] p log_invD [OF assms(2)] in auto)
  then show ?thesis using await(2) by simp
next
  case (claim_none sid ts now q)
  have "q = queue S" using claim_NoneD(1) [OF claim_none(4)] .
  then show ?thesis using claim_none(2,3) assms(2) unfolding log_inv_def by (auto simp: taken_def)
qed (use assms(2) in \<open>auto simp: log_inv_def taken_def\<close>)

section \<open>The daemon\<close>

definition fresh_daemon :: "(string \<times> (string \<times> string) option) list \<Rightarrow> daemon" where
  "fresh_daemon aw = \<lparr>queue = \<lparr>pending = [], next_pending = 1, awaiting = aw\<rparr>, tasks = {#},
     g_enqueued = [], g_claimed = [], g_injected = []\<rparr>"

definition next_state :: "payload_parser \<Rightarrow> (PendingRow list \<Rightarrow> PendingRow list) \<Rightarrow> daemon \<Rightarrow> daemon \<Rightarrow> bool" where
  "next_state parse ord S S' \<longleftrightarrow> (\<exists>a. qstep parse ord a S S')"

text \<open>A recovery is calm when no loop holds a lease.\<close>

definition calm :: "qact \<Rightarrow> daemon \<Rightarrow> bool" where
  "calm a S \<longleftrightarrow> (a = A_Recover \<longrightarrow> leases (tasks S) = {#})"

definition calm_state :: "payload_parser \<Rightarrow> (PendingRow list \<Rightarrow> PendingRow list) \<Rightarrow> daemon \<Rightarrow> daemon \<Rightarrow> bool" where
  "calm_state parse ord S S' \<longleftrightarrow> (\<exists>a. qstep parse ord a S S' \<and> calm a S)"

lemma log_fresh: "log_inv (fresh_daemon aw)"
  by (simp add: log_inv_def fresh_daemon_def table_ok_def taken_def queued_keys_def running_keys_def one_each_def)

lemma log_reachable:
  assumes "(next_state parse ord)\<^sup>*\<^sup>* (fresh_daemon aw) S" "permutes ord"
  shows "log_inv S"
  using assms(1) by (induction rule: rtranclp_induct) (auto simp: next_state_def log_fresh intro: log_step assms(2))

lemma calm_reachable: "(calm_state parse ord)\<^sup>*\<^sup>* S S' \<Longrightarrow> (next_state parse ord)\<^sup>*\<^sup>* S S'"
  by (rule rtranclp_mono [THEN predicate2D]) (auto simp: calm_state_def next_state_def)

section \<open>One execution per session\<close>

definition leased :: "daemon \<Rightarrow> bool" where
  "leased S \<longleftrightarrow> leases (tasks S) \<subseteq># running_keys (queue S)"

lemma lease_step:
  assumes "qstep parse ord a S S'" "calm a S" "log_inv S" "leased S"
  shows "leased S'"
  using assms(1)
proof cases
  case (enqueue sid payload now i q)
  then show ?thesis using enqueue_effect [OF enqueue(3)] assms(4)
    by (auto simp: leased_def running_keys_def)
next
  case (answer sid payload now cleared q)
  then show ?thesis using answer_effect [OF answer(3)] assms(4)
    by (auto simp: leased_def running_keys_def)
next
  case (answer_deferred sid payload now cleared q)
  then show ?thesis using answer_effect [OF answer_deferred(3)] assms(4)
    by (auto simp: leased_def running_keys_def)
next
  case (claim sid ts now c q)
  then show ?thesis using keys_claim(2) [OF log_invD(1) [OF assms(3)] claim(4)] assms(4)
    by (simp add: leased_def)
next
  case (claim_none sid ts now q)
  then show ?thesis using claim_NoneD(1) [OF claim_none(4)] assms(4) by (simp add: leased_def)
next
  case (inject sid c w ts ms q)
  have "q = (queue S)\<lparr>pending := filter (\<lambda>r. \<not> injectable sid (Some w) r) (pending (queue S))\<rparr>"
    using inject(4) by (auto simp: claim_pending_for_session_def)
  then have "running_keys q = running_keys (queue S)"
    using keys_filter(2) [OF log_invD(1) [OF assms(3)], of "injectable sid (Some w)"] by (auto simp: injectable_def)
  then show ?thesis using inject assms(4) by (simp add: leased_def)
next
  case (delete sid c ts)
  then have "(sid, pc_id c) \<in># running_keys (queue S)"
    using assms(4) by (auto simp: leased_def dest: insert_subset_eq_iff [THEN iffD1])
  from keys_delete(2) [OF log_invD(1) [OF assms(3)] this] show ?thesis
    using delete assms(4) by (simp add: leased_def)
next
  case (delete_error sid c ts)
  then show ?thesis using assms(4) by (auto simp: leased_def dest: mset_subset_eq_insertD)
next
  case (await q sid subject now)
  have "pending q = pending (queue S)"
    using await(3) by (auto simp: set_awaiting_def clear_awaiting_def dismiss_awaiting_def split: option.splits)
  then show ?thesis using await assms(4) by (simp add: leased_def running_keys_def)
next
  case (recover n q)
  then show ?thesis using assms(2) by (simp add: leased_def calm_def)
qed (use assms(4) in \<open>auto simp: leased_def\<close>)

lemma lease_reachable:
  assumes "(calm_state parse ord)\<^sup>*\<^sup>* (fresh_daemon aw) S" "permutes ord"
  shows "log_inv S \<and> leased S"
  using assms(1)
proof (induction rule: rtranclp_induct)
  case base
  then show ?case using log_fresh by (simp add: leased_def fresh_daemon_def)
next
  case (step S S')
  then show ?case using lease_step log_step assms(2) by (auto simp: calm_state_def)
qed

fun executes :: "string \<Rightarrow> task \<Rightarrow> bool" where
  "executes sid (Executing s _ _) \<longleftrightarrow> s = sid"
| "executes sid (Finishing s _) \<longleftrightarrow> s = sid"
| "executes sid _ \<longleftrightarrow> False"

lemma executes_lease: "size {#t \<in># M. executes sid t#} = size {#k \<in># leases M. fst k = sid#}"
proof (induction M)
  case (add t M)
  then show ?case by (cases t) auto
qed simp

lemma exclusive_reachable:
  assumes "permutes ord" "(calm_state parse ord)\<^sup>*\<^sup>* (fresh_daemon aw) S"
  shows "size {#t \<in># tasks S. executes sid t#} \<le> 1"
proof -
  have "leases (tasks S) \<subseteq># running_keys (queue S)" "table_ok (queue S)"
    using lease_reachable [OF assms(2,1)] log_invD(1) by (auto simp: leased_def)
  then have "one_each (leases (tasks S))" using one_each_mono by (auto simp: table_ok_def)
  then show ?thesis by (simp add: executes_lease one_each_def)
qed

end
