(* ===== verification/Quest_Dispatch.thy ===== *)
theory Quest_Dispatch
  imports Quest_Registry Session_Queue_Protocol
begin

text \<open>
  How a quest is run: \<open>QuestEnqueuer::tick\<close> admits ready quests into the session queue
  (\<open>quest_enqueuer.rs\<close>), \<open>QueueExecutor::execute\<close> runs a claimed message and settles the quest
  (\<open>queue_executor.rs\<close>), a boot resets what a crash left (\<open>daemon.rs\<close>). The state is the quest
  registry and the daemon of the session queue side by side.

  An operation is a sequence of sections, each under one lock of a database. The functions here
  compose the sections of one operation as the code does; the step relation \<open>dstep\<close> at the end has
  the sections as its steps, so that any others may come between two of them.

  What the database, the clock and the provider answer is given by the records \<open>tick_env\<close> and
  \<open>exec_env\<close>; \<open>to_payload\<close> and \<open>parse\<close> are the two directions of \<open>serde_json\<close>.
\<close>

section \<open>Configuration\<close>

record DispatchConfig =
  max_workers :: u32
  default_timeout_secs :: u64
  worker_max_budget_usd :: f64
  daily_budget_usd :: f64
  adaptive_retry :: bool
  failure_analysis_model :: string
  max_task_retries :: u32

definition queue_enqueue :: "payload_parser \<Rightarrow> string \<Rightarrow> string \<Rightarrow> int \<Rightarrow> daemon \<Rightarrow> daemon" where
  "queue_enqueue parse sid payload now D =
     (let (i, q) = enqueue_pending parse sid payload now (queue D) in
      D\<lparr>queue := q, tasks := add_mset (Enqueuing sid) (tasks D), g_enqueued := g_enqueued D @ [(sid, i)]\<rparr>)"

lemma queue_enqueue_step: "qstep parse ord (A_Enqueue sid payload now) D (queue_enqueue parse sid payload now D)"
  using qstep.enqueue [of parse sid payload now D _ _ ord]
  by (auto simp: queue_enqueue_def split: prod.splits)

section \<open>State\<close>

text \<open>
  \<open>budget_exhausted\<close>: today's cost has reached \<open>daily_budget_usd\<close>. The functions of a number are
  about the n-th quest of the ready list: whether a database call for it succeeds, the session
  minted for it, the session that created it, the time.
\<close>

record tick_env =
  te_parse :: payload_parser
  te_to_payload :: "QueuedMessage \<Rightarrow> string option"
  ready_ok :: bool
  counts_ok :: bool
  budget_exhausted :: bool
  cancel_ok :: "nat \<Rightarrow> bool"
  limit_ok :: "nat \<Rightarrow> bool"
  get_ok :: "nat \<Rightarrow> bool"
  flip_ok :: "nat \<Rightarrow> bool"
  enqueue_ok :: "nat \<Rightarrow> bool"
  rollback_ok :: "nat \<Rightarrow> bool"
  te_creator :: "nat \<Rightarrow> string option"
  te_session :: "nat \<Rightarrow> string"
  te_now :: "nat \<Rightarrow> datetime"

text \<open>
  A tick under way: it has the ready list, or it is at its n-th quest with the counters of the
  loop, \<open>tk_hand\<close> the agent of a quest that it flipped and has not sent yet.
\<close>

record tick_rounds =
  tk_env :: tick_env
  tk_total :: u32
  tk_n :: nat
  tk_rest :: "Quest list"
  tk_hand :: "Agent option"
  tk_per_agent :: "(string \<times> u32) list"
  tk_enqueued :: u32

datatype tick_pc = Listed tick_env "Quest list" | Rounds tick_rounds

text \<open>
  The rail: the tables, the daemon, the tick under way if there is one, and the rows of creations
  that have their id and are not inserted yet. \<open>g_admitted\<close> logs the quests that were enqueued,
  \<open>g_reopened\<close> the quests that a write of a user or an agent made todo again, \<open>g_late\<close> whether a
  recovery ran while a loop held a lease.
\<close>

record rail =
  reg :: quest_db
  dmn :: daemon
  ticking :: "tick_pc option"
  inserting :: "quest_row list"
  g_admitted :: "QuestId list"
  g_reopened :: "QuestId list"
  g_late :: bool

section \<open>Writes of users and agents\<close>

definition quest_status_of :: "QuestId \<Rightarrow> quest_db \<Rightarrow> string option" where
  "quest_status_of i d = map_option qr_status (find_quest i d)"

definition rewrite_quest :: "QuestId \<Rightarrow> (Quest \<Rightarrow> Quest) \<Rightarrow> datetime \<Rightarrow> rail \<Rightarrow> rail" where
  "rewrite_quest i f now R =
     (let d = snd (update_task i f now (reg R)) in
      R\<lparr>reg := d, g_reopened := g_reopened R @
        (if quest_status_of i (reg R) \<noteq> Some ''todo'' \<and> quest_status_of i d = Some ''todo'' then [i] else [])\<rparr>)"

text \<open>What the quests tool of an agent writes: a new status, priority or assignee; a close; a cancellation.\<close>

definition tool_update :: "QuestStatus option \<Rightarrow> Priority option \<Rightarrow> string option option \<Rightarrow> datetime \<Rightarrow> Quest \<Rightarrow> Quest" where
  "tool_update st prio next_assignee now q =
     (let q1 = (case st of
          Some s \<Rightarrow> q\<lparr>status := s, closed_at := (if closes s then Some now else closed_at q)\<rparr>
        | None \<Rightarrow> q);
          q2 = (case prio of Some p \<Rightarrow> q1\<lparr>priority := p\<rparr> | None \<Rightarrow> q1)
      in (case next_assignee of Some a \<Rightarrow> q2\<lparr>assignee := a\<rparr> | None \<Rightarrow> q2))"

definition tool_close :: "serde \<Rightarrow> string \<Rightarrow> string option option \<Rightarrow> Quest \<Rightarrow> Quest" where
  "tool_close S result next_assignee q =
     (let q1 = set_quest_outcome S (outcome_new OutcomeDone result) (q\<lparr>status := Done\<rparr>)
      in (case next_assignee of Some a \<Rightarrow> q1\<lparr>assignee := a\<rparr> | None \<Rightarrow> q1))"

definition tool_cancel :: "serde \<Rightarrow> string \<Rightarrow> Quest \<Rightarrow> Quest" where
  "tool_cancel S why q = set_quest_outcome S (outcome_new OutcomeCancelled why) (q\<lparr>status := Cancelled\<rparr>)"

section \<open>Admission\<close>

definition set_quest_status :: "QuestId \<Rightarrow> QuestStatus \<Rightarrow> datetime \<Rightarrow> rail \<Rightarrow> rail" where
  "set_quest_status i st now R = R\<lparr>reg := update_task_status i st now (reg R)\<rparr>"

definition roll_back :: "tick_env \<Rightarrow> nat \<Rightarrow> Quest \<Rightarrow> rail \<Rightarrow> rail" where
  "roll_back E n t R = (if rollback_ok E n then set_quest_status (quest_id t) Todo (te_now E n) R else R)"

definition quest_message :: "DispatchConfig \<Rightarrow> tick_env \<Rightarrow> nat \<Rightarrow> Quest \<Rightarrow> Agent \<Rightarrow> QueuedMessage" where
  "quest_message C E n t ag = qm_quest (ag_id ag) (body t) (quest_id t) (te_creator E n)
     (Some (case ag_budget_usd ag of Some b \<Rightarrow> b | None \<Rightarrow> worker_max_budget_usd C))"

definition in_flight :: "(string \<times> u32) list \<Rightarrow> string \<Rightarrow> u32" where
  "in_flight per_agent a = (case map_of per_agent a of Some k \<Rightarrow> k | None \<Rightarrow> 0)"

definition send_quest :: "DispatchConfig \<Rightarrow> tick_env \<Rightarrow> nat \<Rightarrow> Quest \<Rightarrow> Agent \<Rightarrow> (string \<times> u32) list \<Rightarrow> u32 \<Rightarrow> rail \<Rightarrow>
  (string \<times> u32) list \<times> u32 \<times> rail" where
  "send_quest C E n t ag per_agent enqueued R =
     (case te_to_payload E (quest_message C E n t ag) of
        None \<Rightarrow> (per_agent, enqueued, roll_back E n t R)
      | Some payload \<Rightarrow>
          (if enqueue_ok E n
           then (AList.update (ag_id ag) (in_flight per_agent (ag_id ag) + 1) per_agent, enqueued + 1,
             R\<lparr>dmn := queue_enqueue (te_parse E) (te_session E n) payload (te_now E n div 1000000000) (dmn R),
               g_admitted := g_admitted R @ [quest_id t]\<rparr>)
           else (per_agent, enqueued, roll_back E n t R)))"

definition admit :: "DispatchConfig \<Rightarrow> tick_env \<Rightarrow> nat \<Rightarrow> Quest \<Rightarrow> Agent \<Rightarrow> (string \<times> u32) list \<Rightarrow> u32 \<Rightarrow> rail \<Rightarrow>
  (string \<times> u32) list \<times> u32 \<times> rail" where
  "admit C E n t ag per_agent enqueued R =
     send_quest C E n t ag per_agent enqueued (set_quest_status (quest_id t) InProgress (te_now E n) R)"

text \<open>What the gates say of a quest; for \<open>Flip\<close> it is the agent of the quest.\<close>

datatype gate_answer = Skip_Quest | Give_Up | Flip Agent

definition gate :: "DispatchConfig \<Rightarrow> tick_env \<Rightarrow> nat \<Rightarrow> Quest \<Rightarrow> (string \<times> u32) list \<Rightarrow> rail \<Rightarrow> gate_answer" where
  "gate C E n t per_agent R = (case agent_id t of
     None \<Rightarrow> Skip_Quest
   | Some a \<Rightarrow>
       (if max_task_retries C \<le> retry_count t then Give_Up
        else if (if limit_ok E n then get_max_concurrent a (reg R) else 1) \<le> in_flight per_agent a then Skip_Quest
        else case (if get_ok E n then get_agent a (reg R) else None) of
          None \<Rightarrow> Skip_Quest
        | Some ag \<Rightarrow> (if flip_ok E n then Flip ag else Skip_Quest)))"

definition give_up :: "tick_env \<Rightarrow> nat \<Rightarrow> Quest \<Rightarrow> rail \<Rightarrow> rail" where
  "give_up E n t R = (if cancel_ok E n then set_quest_status (quest_id t) Cancelled (te_now E n) R else R)"

definition tick_task :: "DispatchConfig \<Rightarrow> tick_env \<Rightarrow> nat \<Rightarrow> Quest \<Rightarrow> (string \<times> u32) list \<Rightarrow> u32 \<Rightarrow> rail \<Rightarrow>
  (string \<times> u32) list \<times> u32 \<times> rail" where
  "tick_task C E n t per_agent enqueued R = (case gate C E n t per_agent R of
     Skip_Quest \<Rightarrow> (per_agent, enqueued, R)
   | Give_Up \<Rightarrow> (per_agent, enqueued, give_up E n t R)
   | Flip ag \<Rightarrow> admit C E n t ag per_agent enqueued R)"

fun tick_loop :: "DispatchConfig \<Rightarrow> tick_env \<Rightarrow> u32 \<Rightarrow> nat \<Rightarrow> Quest list \<Rightarrow> (string \<times> u32) list \<Rightarrow> u32 \<Rightarrow> rail \<Rightarrow>
  u32 \<times> rail" where
  "tick_loop C E total_in_flight n [] per_agent enqueued R = (enqueued, R)"
| "tick_loop C E total_in_flight n (t # ts) per_agent enqueued R =
     (if max_workers C \<le> total_in_flight + enqueued then (enqueued, R)
      else case tick_task C E n t per_agent enqueued R of
        (per_agent', enqueued', R') \<Rightarrow> tick_loop C E total_in_flight (Suc n) ts per_agent' enqueued' R')"

text \<open>The flag is \<open>Ok\<close>.\<close>

definition tick :: "DispatchConfig \<Rightarrow> tick_env \<Rightarrow> rail \<Rightarrow> bool \<times> rail" where
  "tick C E R =
     (if \<not> ready_ok E then (False, R)
      else let ready = ready_tasks (reg R) in
        if ready = [] then (True, R)
        else let per_agent = (if counts_ok E then in_progress_counts_by_agent (reg R) else []);
               total_in_flight = sum_list (map snd per_agent)
          in if budget_exhausted E then (True, R)
             else (True, snd (tick_loop C E total_in_flight 0 ready per_agent 0 R)))"

text \<open>
  The same tick in sections: the ready list is read; then the counts; then, quest by quest, one
  section for the gates with the flip or the cancellation, and one for the send or the rollback.
\<close>

definition tick_open :: "tick_env \<Rightarrow> rail \<Rightarrow> tick_pc option" where
  "tick_open E R = (if ready_ok E then Some (Listed E (ready_tasks (reg R))) else None)"

definition round_over :: "tick_rounds \<Rightarrow> tick_rounds" where
  "round_over T = T\<lparr>tk_n := Suc (tk_n T), tk_rest := tl (tk_rest T), tk_hand := None\<rparr>"

definition round_section :: "DispatchConfig \<Rightarrow> tick_rounds \<Rightarrow> Quest \<Rightarrow> rail \<Rightarrow> tick_pc option \<times> rail" where
  "round_section C T t R = (case tk_hand T of
     Some ag \<Rightarrow> (case send_quest C (tk_env T) (tk_n T) t ag (tk_per_agent T) (tk_enqueued T) R of
       (per_agent, enqueued, R') \<Rightarrow>
         (Some (Rounds (round_over (T\<lparr>tk_per_agent := per_agent, tk_enqueued := enqueued\<rparr>))), R'))
   | None \<Rightarrow>
       (if max_workers C \<le> tk_total T + tk_enqueued T then (None, R)
        else case gate C (tk_env T) (tk_n T) t (tk_per_agent T) R of
          Skip_Quest \<Rightarrow> (Some (Rounds (round_over T)), R)
        | Give_Up \<Rightarrow> (Some (Rounds (round_over T)), give_up (tk_env T) (tk_n T) t R)
        | Flip ag \<Rightarrow> (Some (Rounds (T\<lparr>tk_hand := Some ag\<rparr>)),
            set_quest_status (quest_id t) InProgress (te_now (tk_env T) (tk_n T)) R)))"

fun tick_section :: "DispatchConfig \<Rightarrow> tick_pc \<Rightarrow> rail \<Rightarrow> tick_pc option \<times> rail" where
  "tick_section C (Listed E ready) R =
     (if ready = [] \<or> budget_exhausted E then (None, R)
      else let per_agent = (if counts_ok E then in_progress_counts_by_agent (reg R) else [])
        in (Some (Rounds \<lparr>tk_env = E, tk_total = sum_list (map snd per_agent), tk_n = 0, tk_rest = ready, tk_hand = None,
             tk_per_agent = per_agent, tk_enqueued = 0\<rparr>), R))"
| "tick_section C (Rounds T) R = (case tk_rest T of [] \<Rightarrow> (None, R) | t # _ \<Rightarrow> round_section C T t R)"

fun env_of :: "tick_pc \<Rightarrow> tick_env" where
  "env_of (Listed E _) = E"
| "env_of (Rounds T) = tk_env T"

section \<open>Execution\<close>

datatype AgentStopReason =
    EndTurn
  | MaxIterations
  | Halted string
  | ApiError string
  | ContextExhausted
  | FallbackActivated
  | Stopped_Cancelled

record AgentResult =
  ar_text :: string
  total_prompt_tokens :: u32
  total_completion_tokens :: u32
  ar_iterations :: u32
  ar_model :: string
  stop_reason :: AgentStopReason

datatype FailureMode =
  MissingContext | WrongApproach | ToolFailure | BudgetExhausted | ExternalBlocker | UnknownFailure

text \<open>What joining the agent task gives: \<open>Ok(Ok(r))\<close>, \<open>Ok(Err(e))\<close>, \<open>Err(e)\<close>.\<close>

datatype run_result = Ran AgentResult | Agent_Failed string | Task_Failed string

record spawned =
  sp_session_id :: string
  sp_agent_id :: string
  sp_agent_name :: string
  sp_sandbox :: bool

text \<open>What the executor does besides the tables of this model.\<close>

datatype effect =
    Inference_Call string string string u32 u32 AgentStopReason
  | Assistant_Message string string string
  | Enrich_Idea QuestId string
  | Quest_End QuestId string
  | Quest_Completed QuestId string
  | Auto_Commit
  | Teardown

text \<open>
  \<open>x_worktree\<close>: the path and the branch of the sandbox that the spawn opens. \<open>x_during\<close>: what becomes
  of the rail while the agent runs, by its own tools or by others.
\<close>

record exec_env =
  x_parse :: payload_parser
  x_to_payload :: "QueuedMessage \<Rightarrow> string option"
  x_worktree :: "(string \<times> string) option"
  x_during :: "rail \<Rightarrow> rail"
  x_spawn :: "QueuedMessage \<Rightarrow> spawned option"
  x_run :: run_result
  x_config :: DispatchConfig
  x_activity_log :: bool
  x_session_store :: bool
  x_classified :: "(string \<times> FailureMode) option"
  x_finalize_ok :: bool
  x_enqueue_ok :: bool
  x_now :: datetime

fun stop_outcome :: "AgentStopReason \<Rightarrow> string" where
  "stop_outcome EndTurn = ''done''"
| "stop_outcome FallbackActivated = ''done''"
| "stop_outcome MaxIterations = ''retry''"
| "stop_outcome (Halted _) = ''retry''"
| "stop_outcome ContextExhausted = ''retry''"
| "stop_outcome (ApiError _) = ''error''"
| "stop_outcome Stopped_Cancelled = ''error''"

fun run_outcome :: "run_result \<Rightarrow> string \<times> string" where
  "run_outcome (Ran r) = (stop_outcome (stop_reason r), ar_text r)"
| "run_outcome (Agent_Failed e) = (''error'', ''agent error: '' @ e)"
| "run_outcome (Task_Failed e) = (''error'', ''task error: '' @ e)"

definition outcome_to_status :: "string \<Rightarrow> QuestStatus" where
  "outcome_to_status out = (if out = ''done'' then Done else if out = ''blocked'' then Backlog else Todo)"

definition classified :: "exec_env \<Rightarrow> (string \<times> FailureMode) option" where
  "classified E =
     (let out = fst (run_outcome (x_run E)) in
      if adaptive_retry (x_config E) \<and> failure_analysis_model (x_config E) \<noteq> [] \<and>
         outcome_to_status out = Todo \<and> out \<noteq> ''done'' \<and> x_activity_log E
      then x_classified E else None)"

definition terminal_status :: "exec_env \<Rightarrow> QuestStatus" where
  "terminal_status E = (case classified E of
     Some (_, mode) \<Rightarrow> (if mode = ExternalBlocker \<or> mode = BudgetExhausted then Backlog
       else outcome_to_status (fst (run_outcome (x_run E))))
   | None \<Rightarrow> outcome_to_status (fst (run_outcome (x_run E))))"

definition inference_effects :: "exec_env \<Rightarrow> spawned \<Rightarrow> effect list" where
  "inference_effects E sp = (case x_run E of
     Ran r \<Rightarrow> (if 0 < total_prompt_tokens r \<or> 0 < total_completion_tokens r
       then [Inference_Call (sp_agent_id sp) (sp_session_id sp) (ar_model r) (total_prompt_tokens r)
          (total_completion_tokens r) (stop_reason r)]
       else [])
   | _ \<Rightarrow> [])"

definition transcript_effects :: "exec_env \<Rightarrow> QueuedMessage \<Rightarrow> spawned \<Rightarrow> effect list" where
  "transcript_effects E m sp = (case x_run E of
     Ran r \<Rightarrow> (if transport m \<noteq> Some ''web'' \<and> x_session_store E \<and> ar_text r \<noteq> []
       then [Assistant_Message (sp_session_id sp)
         (case transport m of Some t \<Rightarrow> t | None \<Rightarrow> ''internal'') (ar_text r)]
       else [])
   | _ \<Rightarrow> [])"

text \<open>The result text goes back to the session that created the quest.\<close>

definition result_text :: "QuestId \<Rightarrow> string \<Rightarrow> spawned \<Rightarrow> string \<Rightarrow> string" where
  "result_text qid out sp txt = ''Quest '' @ qid @ '' completed ('' @ out @ ''): '' @ sp_agent_name sp @
     [CHR '' '', CHR 0xE2, CHR 0x80, CHR 0x94, CHR '' ''] @ txt"

definition fan_out :: "exec_env \<Rightarrow> QueuedMessage \<Rightarrow> spawned \<Rightarrow> QuestId \<Rightarrow> rail \<Rightarrow> rail" where
  "fan_out E m sp qid R = (case Session_Queue.creator_session_id m of
     Some creator \<Rightarrow>
       (if x_session_store E then
          (let (out, txt) = run_outcome (x_run E) in
           case x_to_payload E (qm_chat (sp_agent_id sp) (result_text qid out sp txt) None (Some ''scheduler'')) of
             Some p \<Rightarrow> (if x_enqueue_ok E
               then R\<lparr>dmn := queue_enqueue (x_parse E) creator p (x_now E div 1000000000) (dmn R)\<rparr> else R)
           | None \<Rightarrow> R)
        else R)
   | None \<Rightarrow> R)"

definition settle_quest :: "exec_env \<Rightarrow> QueuedMessage \<Rightarrow> spawned \<Rightarrow> QuestId \<Rightarrow> rail \<Rightarrow> effect list \<times> rail" where
  "settle_quest E m sp qid R =
     (let (out, txt) = run_outcome (x_run E);
          st = terminal_status E;
          R1 = (if x_finalize_ok E then R\<lparr>reg := finalize_quest qid st (st = Todo) (x_now E) (reg R)\<rparr> else R);
          enrich = (case classified E of Some (s, _) \<Rightarrow> [Enrich_Idea qid s] | None \<Rightarrow> []);
          ended = (if x_finalize_ok E \<and> st = Done then [Quest_End qid txt] else []);
          completed = (if x_activity_log E then [Quest_Completed qid out] else []);
          sandbox = (if sp_sandbox sp
            then Auto_Commit # (if out = ''done'' \<or> out = ''error'' then [Teardown] else []) else [])
      in (enrich @ ended @ completed @ sandbox, fan_out E m sp qid R1))"

text \<open>\<open>spawn_session\<close> records the worktree of a quest that has none.\<close>

definition keep_worktree :: "string \<Rightarrow> string \<Rightarrow> Quest \<Rightarrow> Quest" where
  "keep_worktree path branch q =
     (if worktree_path q = None then q\<lparr>worktree_path := Some path, worktree_branch := Some branch\<rparr> else q)"

definition spawn_writes :: "exec_env \<Rightarrow> QueuedMessage \<Rightarrow> rail \<Rightarrow> rail" where
  "spawn_writes E m R = (case (x_worktree E, if is_quest m then qm_quest_id m else None) of
     (Some (path, branch), Some qid) \<Rightarrow> rewrite_quest qid (keep_worktree path branch) (x_now E) R
   | _ \<Rightarrow> R)"

text \<open>After the run: accounting, transcript and, for a quest, its settlement.\<close>

definition conclude :: "exec_env \<Rightarrow> QueuedMessage \<Rightarrow> spawned \<Rightarrow> rail \<Rightarrow> bool \<times> effect list \<times> rail" where
  "conclude E m sp R =
     (let (effs, R') = (if is_quest m then settle_quest E m sp (the (qm_quest_id m)) R else ([], R))
      in (case x_run E of Ran _ \<Rightarrow> True | _ \<Rightarrow> False,
          inference_effects E sp @ transcript_effects E m sp @ effs, R'))"

definition execute :: "exec_env \<Rightarrow> PendingClaim \<Rightarrow> rail \<Rightarrow> bool \<times> effect list \<times> rail" where
  "execute E c R = (case x_parse E (pc_payload c) of
     None \<Rightarrow> (False, [], R)
   | Some m \<Rightarrow> (case x_spawn E m of
       None \<Rightarrow> (False, [], spawn_writes E m R)
     | Some sp \<Rightarrow> conclude E m sp (x_during E (spawn_writes E m R))))"

section \<open>Boot\<close>

text \<open>
  After a crash the tasks are gone: quests in progress go back to \<open>todo\<close>, running rows are
  dropped, a loop starts for every session with queued rows. The boot starts the IPC listener
  before either, so that other steps may come between and before them; \<open>reboot\<close> is a boot that
  nobody interrupts.
\<close>

definition crash_rail :: "rail \<Rightarrow> rail" where
  "crash_rail R = R\<lparr>dmn := (dmn R)\<lparr>tasks := {#}\<rparr>, ticking := None, inserting := []\<rparr>"

definition reset_quests :: "rail \<Rightarrow> rail" where
  "reset_quests R = R\<lparr>reg := snd (reset_stale_in_progress (reg R))\<rparr>"

definition recover_rail :: "rail \<Rightarrow> rail" where
  "recover_rail R =
     (let q = snd (recover_orphaned_running (queue (dmn R))) in
      R\<lparr>dmn := (dmn R)\<lparr>queue := q, tasks := mset (map Claiming (sessions_with_queued q)) + tasks (dmn R)\<rparr>,
        g_late := (g_late R \<or> leases (tasks (dmn R)) \<noteq> {#})\<rparr>)"

definition reboot :: "rail \<Rightarrow> rail" where
  "reboot R = recover_rail (reset_quests (crash_rail R))"

section \<open>Steps\<close>

text \<open>Creations as a whole.\<close>

inductive creation :: "quest_db \<Rightarrow> quest_db \<Rightarrow> bool" where
  scoped: "create_task_scoped lower a subject description labels sc uuid now d = (x, d') \<Longrightarrow> creation d d'"
| with_idea: "create_task_with_idea_id lower a spec deps parent_id sc now d = (x, d') \<Longrightarrow> creation d d'"
| v2: "create_task_v2_scoped lower a subject description labels deps parent_id sc uuid now d = (x, d') \<Longrightarrow>
    creation d d'"
| unbound: "create_unbound_task_scoped lower ag project subject description labels linked deps parent_id uuid now d =
      (x, d') \<Longrightarrow> creation d d'"

text \<open>The steps of the queue that no rule below has as its own.\<close>

fun loop_act :: "qact \<Rightarrow> bool" where
  "loop_act A_Crash = False"
| "loop_act A_Recover = False"
| "loop_act _ = True"

text \<open>No write of the program touches the id or the retry counter.\<close>

definition keeps_counter :: "(Quest \<Rightarrow> Quest) \<Rightarrow> bool" where
  "keeps_counter f \<longleftrightarrow> (\<forall>q. quest_id (f q) = quest_id q \<and> retry_count (f q) = retry_count q)"

text \<open>
  The daemon at work, section by section. A creation mints its idea, computes its id and inserts
  its row (\<open>mint\<close>, \<open>number\<close>, \<open>insert\<close>); the table of agents is the affair of others (\<open>staff\<close>). A tick
  starts when none is under way, as there is one enqueuer (\<open>tick_begin\<close>, \<open>tick_go\<close>). The loops of the
  queue take their steps (\<open>queue\<close>; an executor that returns early is the step \<open>A_Finish\<close>). An
  execution spawns its session and settles its quest (\<open>spawned\<close>, \<open>settled\<close>). The tools of agents, the
  IPC and the chat write quests, back to \<open>todo\<close> as well (\<open>rewrite\<close>, \<open>rescope\<close>). A boot is \<open>crash\<close>,
  \<open>reset\<close> and \<open>recover\<close> with anything in between.
\<close>

inductive dstep :: "payload_parser \<Rightarrow> (PendingRow list \<Rightarrow> PendingRow list) \<Rightarrow> DispatchConfig \<Rightarrow> rail \<Rightarrow> rail \<Rightarrow> bool"
  for parse :: payload_parser and ord :: "PendingRow list \<Rightarrow> PendingRow list" and C :: DispatchConfig where
  mint: "mint_or_reuse_quest_idea lower name text labels agent sc uuid now (reg R) = (x, d) \<Longrightarrow>
    dstep parse ord C R (R\<lparr>reg := d\<rparr>)"
| number: "next_quest_id pre parent_id (reg R) = (Inr i, d) \<Longrightarrow>
    dstep parse ord C R (R\<lparr>reg := d, inserting := inserting R @ [new_quest_row i spec agent sc deps now]\<rparr>)"
| number_error: "next_quest_id pre parent_id (reg R) = (Inl e, d) \<Longrightarrow> dstep parse ord C R (R\<lparr>reg := d\<rparr>)"
| insert: "inserting R = rs @ r # rs' \<Longrightarrow> insert_quest r (reg R) = (x, d) \<Longrightarrow>
    dstep parse ord C R (R\<lparr>reg := d, inserting := rs @ rs'\<rparr>)"
| staff: "dstep parse ord C R (R\<lparr>reg := (reg R)\<lparr>agents := ags\<rparr>\<rparr>)"
| tick_begin: "ticking R = None \<Longrightarrow> dstep parse ord C R (R\<lparr>ticking := tick_open E R\<rparr>)"
| tick_go: "ticking R = Some T \<Longrightarrow> te_parse (env_of T) = parse \<Longrightarrow> tick_section C T R = (T', R') \<Longrightarrow>
    dstep parse ord C R (R'\<lparr>ticking := T'\<rparr>)"
| queue: "qstep parse ord a (dmn R) D \<Longrightarrow> loop_act a \<Longrightarrow> dstep parse ord C R (R\<lparr>dmn := D\<rparr>)"
| spawned: "x_parse E = parse \<Longrightarrow> Executing sid c w \<in># tasks (dmn R) \<Longrightarrow> parse (pc_payload c) = Some m \<Longrightarrow>
    dstep parse ord C R (spawn_writes E m R)"
| settled: "x_parse E = parse \<Longrightarrow> x_config E = C \<Longrightarrow> Executing sid c w \<in># tasks (dmn R) \<Longrightarrow>
    parse (pc_payload c) = Some m \<Longrightarrow> x_spawn E m = Some sp \<Longrightarrow> conclude E m sp R = (b, effs, R') \<Longrightarrow>
    dstep parse ord C R (R'\<lparr>dmn := (dmn R')\<lparr>tasks :=
      add_mset (Finishing sid c) (tasks (dmn R') - {#Executing sid c w#})\<rparr>\<rparr>)"
| rewrite: "keeps_counter f \<Longrightarrow> dstep parse ord C R (rewrite_quest i f now R)"
| rescope: "dstep parse ord C R (R\<lparr>reg := update_task_scope i sc now (reg R)\<rparr>)"
| crash: "dstep parse ord C R (crash_rail R)"
| reset: "dstep parse ord C R (reset_quests R)"
| recover: "dstep parse ord C R (recover_rail R)"

text \<open>The state in which the tables are empty.\<close>

definition fresh_rail :: "Agent list \<Rightarrow> (string \<times> (string \<times> string) option) list \<Rightarrow> rail" where
  "fresh_rail ags aw = \<lparr>reg = \<lparr>quest_rows = [], quest_sequences = [], ideas = [], agents = ags\<rparr>, dmn = fresh_daemon aw,
     ticking = None, inserting = [], g_admitted = [], g_reopened = [], g_late = False\<rparr>"

end
