(* ===== verification/Quest_Dispatch_Sections.thy ===== *)
theory Quest_Dispatch_Sections
  imports Quest_Dispatch
begin

text \<open>
  The operations of the rail, taken as a whole, are runs of its sections: a creation, a tick, an
  execution and a boot that nobody interrupts.
\<close>

abbreviation dsteps :: "payload_parser \<Rightarrow> (PendingRow list \<Rightarrow> PendingRow list) \<Rightarrow> DispatchConfig \<Rightarrow> rail \<Rightarrow> rail \<Rightarrow> bool" where
  "dsteps parse ord C \<equiv> (dstep parse ord C)\<^sup>*\<^sup>*"

lemma dsteps_then: "dsteps parse ord C R S \<Longrightarrow> dstep parse ord C S T \<Longrightarrow> dsteps parse ord C R T"
  by (rule rtranclp.rtrancl_into_rtrancl)

section \<open>What the sections leave alone\<close>

lemma set_quest_status_fields [simp]:
  "dmn (set_quest_status i st now R) = dmn R"
  "g_admitted (set_quest_status i st now R) = g_admitted R"
  "g_reopened (set_quest_status i st now R) = g_reopened R"
  "g_late (set_quest_status i st now R) = g_late R"
  "ticking (set_quest_status i st now R) = ticking R"
  "inserting (set_quest_status i st now R) = inserting R"
  by (simp_all add: set_quest_status_def)

lemma roll_back_fields [simp]:
  "dmn (roll_back E n t R) = dmn R"
  "g_admitted (roll_back E n t R) = g_admitted R"
  "g_reopened (roll_back E n t R) = g_reopened R"
  "g_late (roll_back E n t R) = g_late R"
  "ticking (roll_back E n t R) = ticking R"
  "inserting (roll_back E n t R) = inserting R"
  by (simp_all add: roll_back_def)

lemma give_up_fields [simp]:
  "dmn (give_up E n t R) = dmn R"
  "g_admitted (give_up E n t R) = g_admitted R"
  "g_reopened (give_up E n t R) = g_reopened R"
  "g_late (give_up E n t R) = g_late R"
  "ticking (give_up E n t R) = ticking R"
  "inserting (give_up E n t R) = inserting R"
  by (simp_all add: give_up_def)

lemma rewrite_quest_fields [simp]:
  "dmn (rewrite_quest i f now R) = dmn R"
  "g_admitted (rewrite_quest i f now R) = g_admitted R"
  "g_late (rewrite_quest i f now R) = g_late R"
  "ticking (rewrite_quest i f now R) = ticking R"
  "inserting (rewrite_quest i f now R) = inserting R"
  by (simp_all add: rewrite_quest_def Let_def)

lemma spawn_writes_fields [simp]:
  "dmn (spawn_writes E m R) = dmn R"
  "g_admitted (spawn_writes E m R) = g_admitted R"
  "g_late (spawn_writes E m R) = g_late R"
  "ticking (spawn_writes E m R) = ticking R"
  "inserting (spawn_writes E m R) = inserting R"
  by (simp_all add: spawn_writes_def split: option.splits)

section \<open>Creations\<close>

definition in_sections :: "payload_parser \<Rightarrow> (PendingRow list \<Rightarrow> PendingRow list) \<Rightarrow> DispatchConfig \<Rightarrow> 'a qreg \<Rightarrow> bool" where
  "in_sections parse ord C m \<longleftrightarrow> (\<forall>R. dsteps parse ord C R (R\<lparr>reg := snd (m (reg R))\<rparr>))"

lemma in_sections_bind:
  assumes "in_sections parse ord C m" "\<And>x. in_sections parse ord C (f x)"
  shows "in_sections parse ord C (qbind m f)"
  unfolding in_sections_def
proof
  fix R :: rail
  obtain r d where m: "m (reg R) = (r, d)" by force
  have 1: "dsteps parse ord C R (R\<lparr>reg := d\<rparr>)" using assms(1) m unfolding in_sections_def by (metis snd_conv)
  show "dsteps parse ord C R (R\<lparr>reg := snd (qbind m f (reg R))\<rparr>)"
  proof (cases r)
    case (Inr x)
    have "dsteps parse ord C (R\<lparr>reg := d\<rparr>) (R\<lparr>reg := d, reg := snd (f x d)\<rparr>)"
      using assms(2) [of x] unfolding in_sections_def by (metis rail.select_convs(1) rail.surjective rail.update_convs(1))
    with 1 show ?thesis using m Inr by (simp add: qbind_def)
  qed (use 1 m in \<open>simp add: qbind_def\<close>)
qed

lemma in_sections_idle: "(\<And>d. snd (m d) = d) \<Longrightarrow> in_sections parse ord C m"
  by (simp add: in_sections_def)

lemma in_sections_mint: "in_sections parse ord C (mint_or_reuse_quest_idea lower name text labels agent sc uuid now)"
  unfolding in_sections_def by (auto intro!: r_into_rtranclp dstep.mint [OF prod.collapse [symmetric]])

lemma in_sections_store:
  "in_sections parse ord C (qbind (next_quest_id pre parent_id) (\<lambda>i. store_quest i spec agent sc deps now))"
  unfolding in_sections_def
proof
  fix R :: rail
  let ?m = "qbind (next_quest_id pre parent_id) (\<lambda>i. store_quest i spec agent sc deps now)"
  obtain x d where n: "next_quest_id pre parent_id (reg R) = (x, d)" by force
  show "dsteps parse ord C R (R\<lparr>reg := snd (?m (reg R))\<rparr>)"
  proof (cases x)
    case (Inl e)
    then show ?thesis using dstep.number_error [of pre parent_id R e d] n by (auto simp: qbind_def)
  next
    case (Inr i)
    let ?r = "new_quest_row i spec agent sc deps now"
    let ?S = "R\<lparr>reg := d, inserting := inserting R @ [?r]\<rparr>"
    have 1: "dstep parse ord C R ?S" by (rule dstep.number) (use n Inr in simp)
    obtain y d' where y: "insert_quest ?r d = (y, d')" by force
    have "dstep parse ord C ?S (?S\<lparr>reg := d', inserting := inserting R @ []\<rparr>)"
      by (rule dstep.insert) (use y in simp_all)
    moreover have "snd (?m (reg R)) = d'"
      using n Inr y by (cases y) (simp_all add: qbind_def store_quest_def qret_def)
    ultimately show ?thesis using 1 by (simp add: converse_rtranclp_into_rtranclp)
  qed
qed

lemmas section_parts = in_sections_bind in_sections_mint in_sections_store
  in_sections_store [where parent_id = None, unfolded next_quest_id_def option.case]

lemma section_idle:
  "in_sections parse ord C (agent_quest_prefix lower a)" "in_sections parse ord C (check_daily_limit a now)"
  "in_sections parse ord C (qret x)"
  by (rule in_sections_idle, simp add: agent_quest_prefix_def check_daily_limit_def qret_def qfail_def split: option.splits)+

lemma creation_run:
  fixes R :: rail
  assumes "creation (reg R) d"
  shows "dsteps parse ord C R (R\<lparr>reg := d\<rparr>)"
proof -
  have run: "dsteps parse ord C R (R\<lparr>reg := d\<rparr>)" if "in_sections parse ord C m" "m (reg R) = (x, d)" for m :: "Quest qreg" and x
    using that unfolding in_sections_def by (metis snd_conv)
  from assms show ?thesis
  proof cases
    case (scoped lower a subject description labels sc uuid now x)
    show ?thesis by (rule run [where m = "create_task_scoped lower a subject description labels sc uuid now", OF _ scoped(1)]) (unfold create_task_scoped_def, intro section_parts section_idle)
  next
    case (with_idea lower a spec deps parent_id sc now x)
    show ?thesis by (rule run [where m = "create_task_with_idea_id lower a spec deps parent_id sc now", OF _ with_idea(1)]) (unfold create_task_with_idea_id_def, intro section_parts section_idle)
  next
    case (v2 lower a subject description labels deps parent_id sc uuid now x)
    show ?thesis by (rule run [where m = "create_task_v2_scoped lower a subject description labels deps parent_id sc uuid now", OF _ v2(1)]) (unfold create_task_v2_scoped_def, intro section_parts section_idle)
  next
    case (unbound lower ag project subject description labels linked deps parent_id uuid now x)
    show ?thesis
      by (rule run [where m = "create_unbound_task_scoped lower ag project subject description labels linked deps parent_id uuid now", OF _ unbound(1)], unfold create_unbound_task_scoped_def, cases linked)
        (simp_all, (intro section_parts section_idle)+)
  qed
qed

section \<open>Ticks\<close>

text \<open>The functions of a tick do not look at the field \<open>ticking\<close>.\<close>

lemma set_quest_status_ticking:
  "set_quest_status i st now (R\<lparr>ticking := p\<rparr>) = (set_quest_status i st now R)\<lparr>ticking := p\<rparr>"
  by (simp add: set_quest_status_def)

lemma roll_back_ticking: "roll_back E n t (R\<lparr>ticking := p\<rparr>) = (roll_back E n t R)\<lparr>ticking := p\<rparr>"
  by (simp add: roll_back_def set_quest_status_ticking)

lemma send_quest_ticking:
  "send_quest C E n t ag pa enq (R\<lparr>ticking := p\<rparr>) =
     (case send_quest C E n t ag pa enq R of (pa', enq', R') \<Rightarrow> (pa', enq', R'\<lparr>ticking := p\<rparr>))"
  by (simp add: send_quest_def roll_back_ticking split: option.splits)

lemma gate_ticking: "gate C E n t pa (R\<lparr>ticking := p\<rparr>) = gate C E n t pa R"
  by (cases "agent_id t") (simp_all add: gate_def)

lemma tick_task_ticking:
  "tick_task C E n t pa enq (R\<lparr>ticking := p\<rparr>) =
     (case tick_task C E n t pa enq R of (pa', enq', R') \<Rightarrow> (pa', enq', R'\<lparr>ticking := p\<rparr>))"
  by (simp add: tick_task_def gate_ticking admit_def give_up_def set_quest_status_ticking send_quest_ticking
      split: gate_answer.splits)

lemma tick_loop_ticking:
  "snd (tick_loop C E tif n ts pa enq (R\<lparr>ticking := p\<rparr>)) = (snd (tick_loop C E tif n ts pa enq R))\<lparr>ticking := p\<rparr>"
  by (induction ts arbitrary: n pa enq R) (simp_all add: tick_task_ticking split: prod.splits)

lemma rounds_run:
  assumes "ticking R = Some (Rounds T)" "tk_hand T = None" "te_parse (tk_env T) = parse"
  shows "dsteps parse ord C R ((snd (tick_loop C (tk_env T) (tk_total T) (tk_n T) (tk_rest T) (tk_per_agent T) (tk_enqueued T) R))
    \<lparr>ticking := None\<rparr>)"
  using assms
proof (induction "tk_rest T" arbitrary: T R)
  case Nil
  have "dstep parse ord C R (R\<lparr>ticking := None\<rparr>)"
    by (rule dstep.tick_go [OF Nil.prems(1)]) (use Nil in \<open>simp_all flip: Nil.hyps\<close>)
  then show ?case by (simp flip: Nil.hyps)
next
  case (Cons t ts)
  note rest = Cons.hyps(2) [symmetric]
  show ?case
  proof (cases "max_workers C \<le> tk_total T + tk_enqueued T")
    case True
    have "dstep parse ord C R (R\<lparr>ticking := None\<rparr>)"
      by (rule dstep.tick_go [OF Cons.prems(1)]) (use Cons.prems True rest in \<open>simp_all add: round_section_def\<close>)
    then show ?thesis using True rest by simp
  next
    case False
    obtain pa enq R' where k: "tick_task C (tk_env T) (tk_n T) t (tk_per_agent T) (tk_enqueued T) R = (pa, enq, R')"
      by (cases "tick_task C (tk_env T) (tk_n T) t (tk_per_agent T) (tk_enqueued T) R") auto
    let ?T = "round_over (T\<lparr>tk_per_agent := pa, tk_enqueued := enq\<rparr>)"
    have "dsteps parse ord C R (R'\<lparr>ticking := Some (Rounds ?T)\<rparr>)"
    proof (cases "gate C (tk_env T) (tk_n T) t (tk_per_agent T) R")
      case (Flip ag)
      let ?F = "(set_quest_status (quest_id t) InProgress (te_now (tk_env T) (tk_n T)) R)\<lparr>ticking := Some (Rounds (T\<lparr>tk_hand := Some ag\<rparr>))\<rparr>"
      have 1: "dstep parse ord C R ?F"
        by (rule dstep.tick_go [OF Cons.prems(1)]) (use Cons.prems False rest Flip in \<open>simp_all add: round_section_def\<close>)
      have s: "send_quest C (tk_env T) (tk_n T) t ag (tk_per_agent T) (tk_enqueued T) ?F = (pa, enq, R'\<lparr>ticking := ticking ?F\<rparr>)"
        using k Flip by (simp add: tick_task_def admit_def send_quest_ticking)
      have "dstep parse ord C ?F (R'\<lparr>ticking := ticking ?F, ticking := Some (Rounds ?T)\<rparr>)"
        by (rule dstep.tick_go [where T = "Rounds (T\<lparr>tk_hand := Some ag\<rparr>)"])
          (use Cons.prems rest s in \<open>simp_all add: round_section_def round_over_def\<close>)
      with 1 show ?thesis by (simp add: converse_rtranclp_into_rtranclp)
    next
      case Skip_Quest
      have "dstep parse ord C R (R'\<lparr>ticking := Some (Rounds ?T)\<rparr>)"
        by (rule dstep.tick_go [OF Cons.prems(1)])
          (use Cons.prems False rest Skip_Quest k in \<open>auto simp: round_section_def tick_task_def round_over_def\<close>)
      then show ?thesis by (rule r_into_rtranclp)
    next
      case Give_Up
      have "dstep parse ord C R (R'\<lparr>ticking := Some (Rounds ?T)\<rparr>)"
        by (rule dstep.tick_go [OF Cons.prems(1)])
          (use Cons.prems False rest Give_Up k in \<open>auto simp: round_section_def tick_task_def round_over_def\<close>)
      then show ?thesis by (rule r_into_rtranclp)
    qed
    moreover have "dsteps parse ord C (R'\<lparr>ticking := Some (Rounds ?T)\<rparr>)
      ((snd (tick_loop C (tk_env T) (tk_total T) (Suc (tk_n T)) ts pa enq R'))\<lparr>ticking := None\<rparr>)"
      using Cons.hyps(1) [of ?T "R'\<lparr>ticking := Some (Rounds ?T)\<rparr>"] Cons.prems(3) rest
      by (simp add: round_over_def tick_loop_ticking)
    ultimately show ?thesis using False rest k by simp
  qed
qed

lemma tick_run:
  fixes R :: rail
  assumes "ticking R = None" "te_parse E = parse"
  shows "dsteps parse ord C R (snd (Quest_Dispatch.tick C E R))"
proof (cases "ready_ok E")
  case False
  then show ?thesis by (simp add: Quest_Dispatch.tick_def)
next
  case True
  let ?L = "R\<lparr>ticking := Some (Listed E (ready_tasks (reg R)))\<rparr>"
  have same: "R\<lparr>ticking := None\<rparr> = R" using assms(1) by (cases R) simp
  have 1: "dstep parse ord C R ?L" using dstep.tick_begin [OF assms(1), of parse ord C E] True by (simp add: tick_open_def)
  show ?thesis
  proof (cases "ready_tasks (reg R) = [] \<or> budget_exhausted E")
    case idle: True
    have "dstep parse ord C ?L (?L\<lparr>ticking := None\<rparr>)"
      by (rule dstep.tick_go [where T = "Listed E (ready_tasks (reg R))"]) (use idle assms in simp_all)
    then have "dsteps parse ord C R R" by simp
    then show ?thesis using idle True by (auto simp: Quest_Dispatch.tick_def Let_def)
  next
    case busy: False
    let ?pa = "if counts_ok E then in_progress_counts_by_agent (reg R) else []"
    let ?T = "\<lparr>tk_env = E, tk_total = sum_list (map snd ?pa), tk_n = 0, tk_rest = ready_tasks (reg R), tk_hand = None,
      tk_per_agent = ?pa, tk_enqueued = 0\<rparr>"
    have 2: "dstep parse ord C ?L (?L\<lparr>ticking := Some (Rounds ?T)\<rparr>)"
      by (rule dstep.tick_go [where T = "Listed E (ready_tasks (reg R))"]) (use busy assms in \<open>simp_all add: Let_def\<close>)
    have "dsteps parse ord C (?L\<lparr>ticking := Some (Rounds ?T)\<rparr>)
      ((snd (tick_loop C E (sum_list (map snd ?pa)) 0 (ready_tasks (reg R)) ?pa 0 (R\<lparr>ticking := Some (Rounds ?T)\<rparr>)))\<lparr>ticking := None\<rparr>)"
      using rounds_run [of "?L\<lparr>ticking := Some (Rounds ?T)\<rparr>" ?T parse ord C] assms(2) by simp
    moreover have "(snd (tick_loop C E tif 0 ts pa 0 (R\<lparr>ticking := p\<rparr>)))\<lparr>ticking := None\<rparr> = snd (tick_loop C E tif 0 ts pa 0 R)" for tif ts pa p
      using tick_loop_ticking [of C E tif 0 ts pa 0, where R = R and p = None] by (simp add: tick_loop_ticking same)
    ultimately have "dsteps parse ord C (?L\<lparr>ticking := Some (Rounds ?T)\<rparr>) (snd (Quest_Dispatch.tick C E R))"
      using busy True by (simp add: Quest_Dispatch.tick_def Let_def)
    then show ?thesis using 1 2 by (meson converse_rtranclp_into_rtranclp)
  qed
qed

section \<open>Executions and boots\<close>

lemma execute_run_sections:
  assumes "x_parse E = parse" "x_config E = C" "parse (pc_payload c) = Some m" "x_spawn E m = Some sp"
    and "Executing sid c w \<in># tasks (dmn R)" "execute E c R = (b, effs, R')"
    and "dsteps parse ord C (spawn_writes E m R) (x_during E (spawn_writes E m R))"
      "Executing sid c w \<in># tasks (dmn (x_during E (spawn_writes E m R)))"
  shows "dsteps parse ord C R (R'\<lparr>dmn := (dmn R')\<lparr>tasks :=
    add_mset (Finishing sid c) (tasks (dmn R') - {#Executing sid c w#})\<rparr>\<rparr>)"
proof -
  have 1: "dstep parse ord C R (spawn_writes E m R)" by (rule dstep.spawned [OF assms(1,5,3)])
  have "conclude E m sp (x_during E (spawn_writes E m R)) = (b, effs, R')" using assms by (simp add: execute_def)
  from dstep.settled [OF assms(1,2,8,3,4) this] show ?thesis
    using 1 assms(7) by (meson converse_rtranclp_into_rtranclp rtranclp.rtrancl_into_rtrancl)
qed

lemma reboot_run: "dsteps parse ord C R (reboot R)"
  unfolding reboot_def by (meson dstep.crash dstep.reset dstep.recover rtranclp.rtrancl_refl dsteps_then)

end
