(* ===== verification/Quest_Dispatch_Runs.thy ===== *)
theory Quest_Dispatch_Runs
  imports Quest_Dispatch_Sections
begin

text \<open>
  What status changes, ticks, executions and boots do to the rows of the quest table: most of them
  only move a row on, towards the end of its retry budget.
\<close>

section \<open>Rows that only move on\<close>

text \<open>The admissions a row may have behind it.\<close>

definition spent :: "quest_row \<Rightarrow> int" where
  "spent r = qr_retry_count r + (if qr_status r = ''todo'' then 0 else 1)"

definition moves_on :: "quest_row \<Rightarrow> quest_row \<Rightarrow> bool" where
  "moves_on r r' \<longleftrightarrow> qr_id r' = qr_id r \<and> qr_agent_id r' = qr_agent_id r \<and>
     qr_retry_count r \<le> qr_retry_count r' \<and> spent r \<le> spent r'"

lemma moves_on_refl [simp]: "moves_on r r"
  by (simp add: moves_on_def)

lemma show_status_todo [simp]: "show_status st = ''todo'' \<longleftrightarrow> st = Todo"
  by (cases st) simp_all

lemma show_status_in_progress [simp]: "show_status st = ''in_progress'' \<longleftrightarrow> st = InProgress"
  by (cases st) simp_all

lemma moves_on_status: "st \<noteq> Todo \<Longrightarrow> moves_on r (set_status st now r)"
  by (simp add: moves_on_def set_status_def spent_def)

lemma moves_on_finalize:
  "moves_on r ((set_status st now r)\<lparr>qr_retry_count := qr_retry_count r + (if st = Todo then 1 else 0)\<rparr>)"
  by (simp add: moves_on_def set_status_def spent_def)

lemma moves_on_reset:
  "qr_status r = ''in_progress'' \<Longrightarrow> moves_on r (r\<lparr>qr_status := ''todo'', qr_retry_count := qr_retry_count r + 1\<rparr>)"
  by (simp add: moves_on_def spent_def)

text \<open>Rows move on one by one.\<close>

definition rows_move :: "quest_db \<Rightarrow> quest_db \<Rightarrow> bool" where
  "rows_move d d' \<longleftrightarrow> (\<exists>g. quest_rows d' = map g (quest_rows d) \<and> (\<forall>r\<in>set (quest_rows d). moves_on r (g r))) \<and>
     agents d' = agents d \<and> quest_sequences d' = quest_sequences d"

lemma rows_move_refl [simp]: "rows_move d d"
  unfolding rows_move_def by (rule conjI [OF exI [of _ "\<lambda>r. r"]]) simp_all

lemma rows_move_where:
  assumes "\<And>r. r \<in> set (quest_rows d) \<Longrightarrow> P r \<Longrightarrow> moves_on r (f r)"
  shows "rows_move d (update_where P f d)"
  unfolding rows_move_def update_where_def
  by (rule conjI [OF exI [of _ "\<lambda>r. if P r then f r else r"]]) (use assms in simp_all)

lemma rows_move_update_status: "st \<noteq> Todo \<Longrightarrow> rows_move d (update_task_status i st now d)"
  unfolding update_task_status_def by (rule rows_move_where) (rule moves_on_status)

lemma rows_move_finalize_quest: "rows_move d (finalize_quest i st (st = Todo) now d)"
  unfolding finalize_quest_def by (rule rows_move_where) (rule moves_on_finalize)

lemma rows_move_reset_stale: "rows_move d (snd (reset_stale_in_progress d))"
  unfolding reset_stale_in_progress_def snd_conv by (rule rows_move_where) (rule moves_on_reset)

lemma rows_move_scope: "rows_move d (update_task_scope i sc now d)"
  unfolding update_task_scope_def by (rule rows_move_where) (simp add: moves_on_def spent_def)

section \<open>A tick\<close>

text \<open>A quest of the ready list is read off its row, which is still \<open>todo\<close> when its turn comes.\<close>

definition snap :: "rail \<Rightarrow> Quest \<Rightarrow> bool" where
  "snap R t \<longleftrightarrow> (\<exists>r\<in>set (quest_rows (reg R)). t = row_to_task r \<and> qr_status r = ''todo'')"

lemma ready_snap: "t \<in> set (ready_tasks (reg R)) \<Longrightarrow> snap R t"
  by (auto simp: ready_tasks_def snap_def)

lemma ready_distinct:
  assumes "distinct (map qr_id (quest_rows d))"
  shows "distinct (map quest_id (ready_tasks d))"
proof -
  let ?s = "sort_key (\<lambda>r. priority_rank (qr_priority r)) (sort_key qr_created_at (filter (\<lambda>r. qr_status r = ''todo'') (quest_rows d)))"
  have "mset (map qr_id ?s) = mset (map qr_id (filter (\<lambda>r. qr_status r = ''todo'') (quest_rows d)))" by simp
  then have "distinct (map qr_id ?s)"
    using distinct_map_filter [OF assms] by (metis mset_eq_imp_distinct_iff)
  then have "distinct (map quest_id (map row_to_task ?s))" by (simp add: o_def row_to_task_def)
  then show ?thesis unfolding ready_tasks_def by (rule distinct_map_filter)
qed

text \<open>What one round of the loop does to the table: it changes the status of its quest at most.\<close>

definition round_eff :: "rail \<Rightarrow> Quest \<Rightarrow> QuestStatus option \<Rightarrow> bool \<Rightarrow> rail \<Rightarrow> bool" where
  "round_eff R t st adm R' \<longleftrightarrow> agents (reg R') = agents (reg R) \<and> quest_sequences (reg R') = quest_sequences (reg R) \<and>
     (\<exists>g. quest_rows (reg R') = map g (quest_rows (reg R)) \<and> (\<forall>r. qr_id r \<noteq> quest_id t \<longrightarrow> g r = r) \<and>
       (\<forall>r. qr_id (g r) = qr_id r \<and> qr_agent_id (g r) = qr_agent_id r \<and> qr_retry_count (g r) = qr_retry_count r) \<and>
       (\<forall>r. qr_id r = quest_id t \<longrightarrow> qr_status (g r) = (case st of None \<Rightarrow> qr_status r | Some s \<Rightarrow> show_status s))) \<and>
     g_admitted R' = g_admitted R @ (if adm then [quest_id t] else [])"

lemma round_none: "round_eff R t None False R"
  unfolding round_eff_def by (auto intro!: exI [of _ "\<lambda>r. r"])

lemma round_status: "round_eff R t (Some st) False (set_quest_status (quest_id t) st now R)"
  unfolding round_eff_def set_quest_status_def update_task_status_def update_where_def
  by (rule conjI, simp, rule conjI, simp, rule conjI,
      rule exI [of _ "\<lambda>r. if qr_id r = quest_id t then set_status st now r else r"])
    (simp_all add: set_status_def)

lemma round_trans:
  assumes "round_eff R t st a R1" "round_eff R1 t (Some st') False R2"
  shows "round_eff R t (Some st') a R2"
proof -
  obtain g where g: "quest_rows (reg R1) = map g (quest_rows (reg R))" "\<forall>r. qr_id r \<noteq> quest_id t \<longrightarrow> g r = r"
    "\<forall>r. qr_id (g r) = qr_id r \<and> qr_agent_id (g r) = qr_agent_id r \<and> qr_retry_count (g r) = qr_retry_count r"
    using assms(1) unfolding round_eff_def by blast
  obtain h where h: "quest_rows (reg R2) = map h (quest_rows (reg R1))" "\<forall>r. qr_id r \<noteq> quest_id t \<longrightarrow> h r = r"
    "\<forall>r. qr_id (h r) = qr_id r \<and> qr_agent_id (h r) = qr_agent_id r \<and> qr_retry_count (h r) = qr_retry_count r"
    "\<forall>r. qr_id r = quest_id t \<longrightarrow> qr_status (h r) = show_status st'"
    using assms(2) unfolding round_eff_def by (simp del: map_map) blast
  show ?thesis
    using assms g h unfolding round_eff_def by (auto intro!: exI [of _ "h \<circ> g"])
qed

text \<open>The outcomes of a round, on a quest that is \<open>todo\<close>.\<close>

definition round_ok :: "DispatchConfig \<Rightarrow> tick_env \<Rightarrow> nat \<Rightarrow> Quest \<Rightarrow> rail \<Rightarrow> rail \<Rightarrow> bool" where
  "round_ok C E n t R R' \<longleftrightarrow>
     round_eff R t None False R' \<or> round_eff R t (Some Cancelled) False R' \<or> round_eff R t (Some Todo) False R' \<or>
     (\<not> rollback_ok E n \<and> round_eff R t (Some InProgress) False R') \<or>
     (retry_count t < max_task_retries C \<and> round_eff R t (Some InProgress) True R')"

lemma round_roll_back:
  "round_ok C E n t R (roll_back E n t (set_quest_status (quest_id t) InProgress now R))"
proof (cases "rollback_ok E n")
  case True
  have "round_eff R t (Some Todo) False
      (set_quest_status (quest_id t) Todo (te_now E n) (set_quest_status (quest_id t) InProgress now R))"
    by (rule round_trans [OF round_status round_status])
  then show ?thesis using True by (simp add: roll_back_def round_ok_def)
next
  case False
  then show ?thesis using round_status [of R t InProgress now] by (simp add: roll_back_def round_ok_def)
qed

lemma round_admitted:
  "round_eff R t (Some InProgress) True
     ((set_quest_status (quest_id t) InProgress now R)\<lparr>dmn := D, g_admitted := g_admitted R @ [quest_id t]\<rparr>)"
  using round_status [of R t InProgress now] unfolding round_eff_def by simp

lemma admit_round:
  assumes "admit C E n t ag pa enq R = (pa', enq', R')" "retry_count t < max_task_retries C"
  shows "round_ok C E n t R R'"
proof -
  let ?R1 = "set_quest_status (quest_id t) InProgress (te_now E n) R"
  have g: "g_admitted ?R1 = g_admitted R" by (simp add: set_quest_status_def)
  from assms(1) consider "R' = roll_back E n t ?R1" |
    D where "R' = ?R1\<lparr>dmn := D, g_admitted := g_admitted R @ [quest_id t]\<rparr>"
    by (auto simp: admit_def send_quest_def g split: option.splits if_splits)
  then show ?thesis
    using round_roll_back round_admitted [where now = "te_now E n"] assms(2) unfolding round_ok_def by cases blast+
qed

lemma tick_task_round:
  assumes "tick_task C E n t pa enq R = (pa', enq', R')"
  shows "round_ok C E n t R R'"
proof (cases "agent_id t")
  case None
  then show ?thesis using assms round_none by (simp add: tick_task_def gate_def round_ok_def)
next
  case (Some a)
  show ?thesis
  proof (cases "max_task_retries C \<le> retry_count t")
    case True
    then show ?thesis using assms Some round_none round_status [of R t Cancelled]
      by (auto simp: tick_task_def gate_def give_up_def round_ok_def split: if_splits)
  next
    case False
    then have lt: "retry_count t < max_task_retries C" by simp
    from assms Some False consider "R' = R" | ag where "admit C E n t ag pa enq R = (pa', enq', R')"
      by (auto simp: tick_task_def gate_def split: if_splits option.splits)
    then show ?thesis using admit_round [OF _ lt] round_none unfolding round_ok_def by cases blast+
  qed
qed

lemma round_snap:
  assumes "round_eff R t st a R'" "snap R t'" "quest_id t' \<noteq> quest_id t"
  shows "snap R' t'"
proof -
  obtain r where r: "r \<in> set (quest_rows (reg R))" "t' = row_to_task r" "qr_status r = ''todo''"
    using assms(2) by (auto simp: snap_def)
  obtain g where g: "quest_rows (reg R') = map g (quest_rows (reg R))" "\<forall>r. qr_id r \<noteq> quest_id t \<longrightarrow> g r = r"
    using assms(1) by (auto simp: round_eff_def)
  have "g r = r" using g(2) r(2) assms(3) by (simp add: row_to_task_def)
  then have "r \<in> set (quest_rows (reg R'))" using g(1) r(1) by (metis image_eqI set_map)
  then show ?thesis using r by (auto simp: snap_def)
qed

text \<open>The row behind a quest of the ready list.\<close>

lemma snap_row:
  assumes "snap R t" "distinct (map qr_id (quest_rows (reg R)))" "r \<in> set (quest_rows (reg R))" "qr_id r = quest_id t"
  shows "t = row_to_task r" "qr_status r = ''todo''"
proof -
  obtain s where s: "s \<in> set (quest_rows (reg R))" "t = row_to_task s" "qr_status s = ''todo''"
    using assms(1) by (auto simp: snap_def)
  have "qr_id s = qr_id r" using s(2) assms(4) by (simp add: row_to_task_def)
  then have "s = r" using assms(2,3) s(1) by (auto simp: distinct_map dest: inj_onD)
  then show "t = row_to_task r" "qr_status r = ''todo''" using s by simp_all
qed

text \<open>A relation kept by every round on a quest that is \<open>todo\<close> is kept by the loop.\<close>

lemma tick_loop_keeps:
  assumes "\<And>n t pa enq R pa' enq' R'. tick_task C E n t pa enq R = (pa', enq', R') \<Longrightarrow> snap R t \<Longrightarrow> P R \<Longrightarrow> P R'"
    and "P R" "distinct (map quest_id ts)" "\<forall>t\<in>set ts. snap R t"
  shows "P (snd (tick_loop C E tif n ts pa enq R))"
  using assms(2-4)
proof (induction ts arbitrary: n pa enq R)
  case (Cons t ts)
  show ?case
  proof (cases "max_workers C \<le> tif + enq")
    case False
    obtain pa' enq' R' where k: "tick_task C E n t pa enq R = (pa', enq', R')" by (cases "tick_task C E n t pa enq R") auto
    have P: "P R'" using assms(1) [OF k] Cons.prems by simp
    obtain st a where "round_eff R t st a R'" using tick_task_round [OF k] unfolding round_ok_def by blast
    then have "\<forall>t'\<in>set ts. snap R' t'" using Cons.prems(2,3) round_snap by (metis distinct.simps(2) image_eqI list.set_intros(2) list.simps(9) set_map)
    then show ?thesis using Cons.IH [OF P, of "Suc n" pa' enq'] Cons.prems(2) k False by simp
  qed (use Cons.prems in simp)
qed simp

section \<open>An execution\<close>

lemma fan_out_reg [simp]: "reg (fan_out E m sp qid R) = reg R" "g_admitted (fan_out E m sp qid R) = g_admitted R"
  by (simp_all add: fan_out_def split: option.splits prod.splits)

lemma settle_moves:
  "rows_move (reg R) (reg (snd (settle_quest E m sp qid R)))" "g_admitted (snd (settle_quest E m sp qid R)) = g_admitted R"
  by (simp_all add: settle_quest_def Let_def rows_move_finalize_quest split: prod.splits)

lemma conclude_moves:
  assumes "conclude E m sp R = (b, effs, R')"
  shows "rows_move (reg R) (reg R')" "g_admitted R' = g_admitted R"
proof -
  from assms consider "R' = R" | qid es where "settle_quest E m sp qid R = (es, R')"
    by (auto simp: conclude_def split: if_splits prod.splits)
  then show "rows_move (reg R) (reg R')" "g_admitted R' = g_admitted R"
    using settle_moves by (cases, simp, metis snd_conv)+
qed

end
