(* ===== verification/Session_Queue_Liveness.thy ===== *)
theory Session_Queue_Liveness
  imports Session_Queue_Protocol
begin

text \<open>
  That the messages of a session are eventually handled: after a boot, while nothing fails, every
  queued message has a task in charge of it, the work of the tasks is bounded, and the tasks stop
  only when the queue is empty. The last section is about one loop run alone.
\<close>

section \<open>Runs without faults\<close>

fun fault :: "qact \<Rightarrow> bool" where
  "fault (A_Claim_Error _) = True"
| "fault (A_Delete_Error _) = True"
| "fault (A_Answer_Deferred _ _ _) = True"
| "fault A_Crash = True"
| "fault A_Recover = True"
| "fault _ = False"

definition smooth :: "payload_parser \<Rightarrow> (PendingRow list \<Rightarrow> PendingRow list) \<Rightarrow> daemon \<Rightarrow> daemon \<Rightarrow> bool" where
  "smooth parse ord S S' \<longleftrightarrow> (\<exists>a. qstep parse ord a S S' \<and> \<not> fault a)"

lemma smooth_calm: "smooth parse ord S S' \<Longrightarrow> calm_state parse ord S S'"
  unfolding smooth_def calm_state_def calm_def by (metis fault.simps(5))

lemma smooth_run_calm: "(smooth parse ord)\<^sup>*\<^sup>* S S' \<Longrightarrow> (calm_state parse ord)\<^sup>*\<^sup>* S S'"
  by (rule rtranclp_mono [THEN predicate2D]) (auto simp: smooth_calm)

fun task_session :: "task \<Rightarrow> string" where
  "task_session (Enqueuing s) = s"
| "task_session (Claiming s) = s"
| "task_session (Executing s _ _) = s"
| "task_session (Finishing s _) = s"

text \<open>The leases are exactly the running rows, and every queued row has a task.\<close>

definition served :: "daemon \<Rightarrow> bool" where
  "served S \<longleftrightarrow> leases (tasks S) = running_keys (queue S) \<and>
     (\<forall>r\<in>set (pending (queue S)). is_queued r \<longrightarrow> pm_session r \<in> task_session ` set_mset (tasks S))"

lemma lease_task: "k \<in># leases M \<Longrightarrow> \<exists>t\<in>#M. task_session t = fst k"
proof (induction M)
  case (add t M)
  then show ?case by (cases t) auto
qed simp

lemma served_append:
  assumes "served S" "pending q = pending (queue S) @ [r]" "is_queued r" "pm_session r = sid"
  shows "served (S\<lparr>queue := q, tasks := add_mset (Enqueuing sid) (tasks S), g_enqueued := g\<rparr>)"
  using assms by (auto simp: served_def running_keys_def)

lemma served_finishing:
  assumes "served S" "tasks S = add_mset (Finishing sid c) ts"
  shows "(sid, pc_id c) \<in># running_keys (queue S)"
proof -
  have "running_keys (queue S) = leases (tasks S)" using assms(1) by (simp add: served_def)
  then show ?thesis by (simp add: assms(2))
qed

text \<open>A task hands its session on to its successor.\<close>

lemma served_replace:
  assumes "served S" "tasks S = add_mset t ts" "task_session t' = task_session t"
    and "lease t' + leases ts = running_keys q"
    and "\<And>r. r \<in> set (pending q) \<Longrightarrow> is_queued r \<Longrightarrow> r \<in> set (pending (queue S))"
  shows "served (S\<lparr>queue := q, tasks := add_mset t' ts, g_claimed := g, g_injected := h\<rparr>)"
  using assms by (auto simp: served_def)

lemma served_step:
  assumes "qstep parse ord a S S'" "\<not> fault a" "log_inv S" "served S"
  shows "served S'"
  using assms(1)
proof cases
  case (enqueue sid payload now i q)
  then show ?thesis using enqueue_effect(3) [OF enqueue(3)] served_append [OF assms(4), of q]
    by (auto simp: row_key_def)
next
  case (answer sid payload now cleared q)
  then show ?thesis using answer_effect(2) [OF answer(3)] served_append [OF assms(4), of q]
    by (auto simp: row_key_def)
next
  case (spawn sid ts)
  then show ?thesis using assms(4) by (auto simp: served_def)
next
  case (claim sid ts now c q)
  note K = keys_claim [OF log_invD(1) [OF assms(3)] claim(4)]
  have "lease (Executing sid c (pc_id c)) + leases ts = running_keys q"
    using K(2) assms(4) claim(3) by (simp add: served_def)
  from served_replace [OF assms(4) claim(3) _ this, where h = "g_injected S"] K(6) show ?thesis
    by (simp add: claim(2))
next
  case (claim_none sid ts now q)
  have L: "leases ts = running_keys (queue S)" using assms(4) claim_none(3) by (simp add: served_def)
  have "sid \<in> task_session ` set_mset ts" if "r \<in> set (pending (queue S))" "is_queued r" "pm_session r = sid" for r
  proof -
    from claim_NoneD(2) [OF claim_none(4)] that obtain x where
      "x \<in> set (pending (queue S))" "pm_session x = sid" "is_running x" by blast
    then have "(sid, pm_id x) \<in># leases ts" by (auto simp: L running_keys_def row_key_def)
    from lease_task [OF this] show ?thesis by auto
  qed
  then show ?thesis using assms(4) claim_none(2,3) L claim_NoneD(1) [OF claim_none(4)]
    by (auto simp: served_def)
next
  case (inject sid c w ts ms q)
  have q: "q = (queue S)\<lparr>pending := filter (\<lambda>r. \<not> injectable sid (Some w) r) (pending (queue S))\<rparr>"
    using inject(4) by (auto simp: claim_pending_for_session_def)
  then have "running_keys q = running_keys (queue S)"
    using keys_filter(2) [OF log_invD(1) [OF assms(3)], of "injectable sid (Some w)"] by (auto simp: injectable_def)
  then have "lease (Executing sid c (advance ms w)) + leases ts = running_keys q"
    using assms(4) inject(3) by (simp add: served_def)
  from served_replace [OF assms(4) inject(3) _ this, where g = "g_claimed S"] q show ?thesis
    by (simp add: inject(2))
next
  case (finish sid c w ts)
  then show ?thesis using assms(4) by (auto simp: served_def)
next
  case (delete sid c ts)
  from keys_delete(2) [OF log_invD(1) [OF assms(3)] served_finishing [OF assms(4) delete(3)]]
  have "lease (Claiming sid) + leases ts = running_keys (delete_pending (pc_id c) (queue S))"
    using delete(3) assms(4) by (simp add: served_def)
  from served_replace [OF assms(4) delete(3) _ this, where g = "g_claimed S" and h = "g_injected S"]
  show ?thesis by (simp add: delete(2) delete_pending_def)
next
  case (await q sid subject now)
  have "pending q = pending (queue S)"
    using await(3) by (auto simp: set_awaiting_def clear_awaiting_def dismiss_awaiting_def split: option.splits)
  then show ?thesis using await assms(4) by (simp add: served_def running_keys_def)
qed (use assms(2) in auto)

text \<open>A boot: the tables of any earlier run, no task, then \<open>recover_on_boot\<close>.\<close>

definition boot :: "payload_parser \<Rightarrow> (PendingRow list \<Rightarrow> PendingRow list) \<Rightarrow> daemon \<Rightarrow> daemon \<Rightarrow> bool" where
  "boot parse ord S S' \<longleftrightarrow> tasks S = {#} \<and> qstep parse ord A_Recover S S'"

lemma served_boot:
  assumes "boot parse ord S S'" "log_inv S"
  shows "served S'"
proof -
  obtain n q where r: "recover_orphaned_running (queue S) = (n, q)"
    "S' = S\<lparr>queue := q, tasks := mset (map Claiming (sessions_with_queued q)) + tasks S\<rparr>" "tasks S = {#}"
    using assms(1) unfolding boot_def by (auto elim: qstep.cases)
  then show ?thesis using keys_recover(2) [OF log_invD(1) [OF assms(2)] r(1)]
    by (force simp: served_def sessions_with_queued_def)
qed

lemma served_smooth:
  assumes "(smooth parse ord)\<^sup>*\<^sup>* S S'" "permutes ord" "log_inv S" "served S"
  shows "log_inv S' \<and> served S'"
  using assms(1)
proof (induction rule: rtranclp_induct)
  case (step T T')
  then show ?case using served_step log_step assms(2) by (auto simp: smooth_def)
qed (use assms in simp)

lemma served_since_boot:
  assumes "permutes ord" "(next_state parse ord)\<^sup>*\<^sup>* (fresh_daemon aw) S0" "boot parse ord S0 S1"
    "(smooth parse ord)\<^sup>*\<^sup>* S1 S"
  shows "log_inv S \<and> served S"
proof -
  have I: "log_inv S0" by (rule log_reachable [OF assms(2,1)])
  moreover have "qstep parse ord A_Recover S0 S1" using assms(3) by (simp add: boot_def)
  ultimately show ?thesis using served_smooth [OF assms(4,1)] log_step [OF _ _ assms(1)] served_boot [OF assms(3)]
    by blast
qed

section \<open>The work left\<close>

fun effort :: "task \<Rightarrow> nat" where
  "effort (Enqueuing _) = 2"
| "effort (Claiming _) = 1"
| "effort (Executing _ _ _) = 3"
| "effort (Finishing _ _) = 2"

definition work :: "daemon \<Rightarrow> nat" where
  "work S = 3 * size (queued_keys (queue S)) + \<Sum>\<^sub># (image_mset effort (tasks S))"

text \<open>The steps of the loops, those that are not the arrival of a message or the agent's own.\<close>

fun progress :: "qact \<Rightarrow> bool" where
  "progress (A_Spawn _) = True"
| "progress (A_Claim _ _) = True"
| "progress (A_Finish _) = True"
| "progress (A_Delete _) = True"
| "progress _ = False"

lemma progress_smooth: "progress a \<Longrightarrow> \<not> fault a"
  by (cases a) simp_all

lemma progress_work:
  assumes "qstep parse ord a S S'" "progress a" "log_inv S" "served S"
  shows "work S' < work S"
  using assms(1)
proof cases
  case (claim sid ts now c q)
  then show ?thesis using keys_claim(1) [OF log_invD(1) [OF assms(3)] claim(4)] by (simp add: work_def)
next
  case (claim_none sid ts now q)
  then show ?thesis using claim_NoneD(1) [OF claim_none(4)] by (simp add: work_def)
next
  case (delete sid c ts)
  then show ?thesis
    using keys_delete(1) [OF log_invD(1) [OF assms(3)] served_finishing [OF assms(4) delete(3)]]
    by (simp add: work_def)
qed (use assms(2) in \<open>auto simp: work_def\<close>)

lemma inject_work:
  assumes "qstep parse ord (A_Inject sid) S S'" "log_inv S"
  shows "work S' \<le> work S"
  using assms(1)
proof cases
  case (inject c w ts ms q)
  have q: "q = (queue S)\<lparr>pending := filter (\<lambda>r. \<not> injectable sid (Some w) r) (pending (queue S))\<rparr>"
    using inject(3) by (auto simp: claim_pending_for_session_def)
  have "queued_keys q \<subseteq># queued_keys (queue S)"
    using keys_filter(1) [OF log_invD(1) [OF assms(2)], of "injectable sid (Some w)"]
    by (simp add: q injectable_def)
  then show ?thesis using inject by (simp add: work_def size_mset_mono)
qed

lemma task_enabled:
  assumes "t \<in># tasks S"
  shows "\<exists>a S'. progress a \<and> qstep parse ord a S S'"
proof -
  obtain ts where ts: "tasks S = add_mset t ts" using assms by (metis mset_add)
  show ?thesis
  proof (cases t)
    case (Enqueuing sid)
    then show ?thesis using qstep.spawn ts by (metis progress.simps(1))
  next
    case (Claiming sid)
    obtain x q where "claim_next_pending sid 0 (queue S) = (x, q)" by force
    then show ?thesis using qstep.claim qstep.claim_none ts Claiming
      by (cases x) (metis progress.simps(2))+
  next
    case (Executing sid c w)
    then show ?thesis using qstep.finish ts by (metis progress.simps(3))
  next
    case (Finishing sid c)
    then show ?thesis using qstep.delete ts by (metis progress.simps(4))
  qed
qed

text \<open>A run with the list of its actions.\<close>

inductive run :: "payload_parser \<Rightarrow> (PendingRow list \<Rightarrow> PendingRow list) \<Rightarrow> daemon \<Rightarrow> qact list \<Rightarrow> daemon \<Rightarrow> bool"
  for parse :: payload_parser and ord :: "PendingRow list \<Rightarrow> PendingRow list" where
  stop: "run parse ord S [] S"
| go: "qstep parse ord a S T \<Longrightarrow> run parse ord T as S' \<Longrightarrow> run parse ord S (a # as) S'"

fun inner :: "qact \<Rightarrow> bool" where
  "inner (A_Inject _) = True"
| "inner a = progress a"

lemma run_work:
  assumes "run parse ord S as S'" "list_all inner as" "permutes ord" "log_inv S" "served S"
  shows "length (filter progress as) + work S' \<le> work S \<and> log_inv S' \<and> served S'"
  using assms
proof (induction rule: run.induct)
  case (go a S T as S')
  have "\<not> fault a" using go.prems(1) by (cases a) auto
  then have T: "log_inv T" "served T"
    using served_step [OF go.hyps(1)] log_step [OF go.hyps(1)] go.prems(2-4) by auto
  have "(if progress a then 1 else 0) + work T \<le> work S"
    using go.prems(1,3,4) progress_work [OF go.hyps(1)] inject_work go.hyps(1) by (cases a) fastforce+
  then show ?case using go.IH go.prems T by auto
qed simp

section \<open>The loop alone\<close>

definition session_rows :: "string \<Rightarrow> queue_db \<Rightarrow> PendingRow set" where
  "session_rows sid q = {r \<in> set (pending q). pm_session r = sid}"

text \<open>The executor of a session puts no new row into the queue of that session.\<close>

definition keeps_session :: "executor \<Rightarrow> bool" where
  "keeps_session exec \<longleftrightarrow> (\<forall>sid c q. session_rows sid (snd (exec sid c q)) \<subseteq> session_rows sid q)"

lemma loop_round:
  assumes "claim_next_pending sid now q = (Some c, q1)" "keeps_session exec"
  defines "q2 \<equiv> delete_pending (pc_id c) (snd (exec sid c q1))"
  shows "card (session_rows sid q2) < card (session_rows sid q)" "\<forall>r\<in>session_rows sid q2. is_queued r"
proof -
  obtain r where r: "r \<in> set (pending q)" "pm_session r = sid" "pc_id c = pm_id r"
    and q1: "q1 = q\<lparr>pending := map (set_running (pm_id r) now) (pending q)\<rparr>"
    and none: "\<forall>x\<in>set (pending q). \<not> (pm_session x = sid \<and> is_running x)"
    using assms(1) by (rule claim_SomeD) blast
  have sub: "session_rows sid q2 \<subseteq> {x \<in> session_rows sid q. pm_id x \<noteq> pm_id r}"
  proof
    fix x assume x: "x \<in> session_rows sid q2"
    then have "x \<in> session_rows sid (snd (exec sid c q1))" and n: "pm_id x \<noteq> pm_id r"
      by (auto simp: q2_def session_rows_def delete_pending_def r(3))
    then have "x \<in> session_rows sid q1" using assms(2) unfolding keeps_session_def by blast
    then show "x \<in> {x \<in> session_rows sid q. pm_id x \<noteq> pm_id r}"
      using n by (auto simp: q1 session_rows_def set_running_def split: if_splits)
  qed
  show "\<forall>r\<in>session_rows sid q2. is_queued r"
  proof
    fix x assume "x \<in> session_rows sid q2"
    then have "x \<in> set (pending q)" "pm_session x = sid" using sub by (auto simp: session_rows_def)
    then show "is_queued x" using none by (cases "pm_status x") auto
  qed
  have "session_rows sid q2 \<subset> session_rows sid q" using sub r by (auto simp: session_rows_def)
  then show "card (session_rows sid q2) < card (session_rows sid q)"
    by (rule psubset_card_mono [rotated]) (simp add: session_rows_def)
qed

end
