(* ===== verification/Quest_Dispatch_Queue.thy ===== *)
theory Quest_Dispatch_Queue
  imports Quest_Dispatch_Runs Session_Queue_Liveness
begin

text \<open>
  The rail runs on the session queue: every step of the rail is a run of the queue's own steps on
  its daemon, and a calm one as long as no recovery comes while a loop holds a lease. So the
  guarantees of the queue hold of the rail.
\<close>

section \<open>The daemon of the rail\<close>

abbreviation calm_run :: "payload_parser \<Rightarrow> (PendingRow list \<Rightarrow> PendingRow list) \<Rightarrow> daemon \<Rightarrow> daemon \<Rightarrow> bool" where
  "calm_run parse ord \<equiv> (calm_state parse ord)\<^sup>*\<^sup>*"

lemma calm_step: "qstep parse ord a D D' \<Longrightarrow> a \<noteq> A_Recover \<Longrightarrow> calm_run parse ord D D'"
  by (rule r_into_rtranclp) (auto simp: calm_state_def calm_def)

lemma enqueue_run: "calm_run parse ord D (queue_enqueue parse sid payload now D)"
  by (rule calm_step [OF queue_enqueue_step]) simp

lemma queue_enqueue_tasks: "tasks (queue_enqueue parse sid payload now D) = add_mset (Enqueuing sid) (tasks D)"
  by (simp add: queue_enqueue_def split: prod.splits)

lemma send_quest_run:
  assumes "send_quest C E n t ag pa enq R = (pa', enq', R')"
  shows "calm_run (te_parse E) ord (dmn R) (dmn R') \<and> g_late R' = g_late R"
proof -
  from assms consider "dmn R' = dmn R" "g_late R' = g_late R" |
    payload where "dmn R' = queue_enqueue (te_parse E) (te_session E n) payload (te_now E n div 1000000000) (dmn R)" "g_late R' = g_late R"
    by (auto simp: send_quest_def split: option.splits if_splits)
  then show ?thesis using enqueue_run by cases auto
qed

lemma tick_section_run:
  assumes "tick_section C T R = (T', R')"
  shows "calm_run (te_parse (env_of T)) ord (dmn R) (dmn R') \<and> g_late R' = g_late R"
proof (cases T)
  case (Listed E ready)
  then show ?thesis using assms by (auto simp: Let_def split: if_splits)
next
  case (Rounds S)
  show ?thesis
  proof (cases "tk_rest S")
    case Nil
    then show ?thesis using assms Rounds by simp
  next
    case (Cons t ts)
    then have r: "round_section C S t R = (T', R')" using assms Rounds by simp
    show ?thesis
    proof (cases "tk_hand S")
      case None
      then have "dmn R' = dmn R \<and> g_late R' = g_late R"
        using r by (auto simp: round_section_def give_up_def split: if_splits gate_answer.splits)
      then show ?thesis by simp
    next
      case (Some ag)
      obtain pa enq S' where k: "send_quest C (tk_env S) (tk_n S) t ag (tk_per_agent S) (tk_enqueued S) R = (pa, enq, S')"
        by (cases "send_quest C (tk_env S) (tk_n S) t ag (tk_per_agent S) (tk_enqueued S) R") auto
      then have "S' = R'" using r Some by (simp add: round_section_def)
      then show ?thesis using send_quest_run [OF k] Rounds by simp
    qed
  qed
qed

lemma conclude_run:
  assumes "conclude E m sp R = (b, effs, R')"
  shows "calm_run (x_parse E) ord (dmn R) (dmn R') \<and> tasks (dmn R) \<subseteq># tasks (dmn R') \<and> g_late R' = g_late R"
proof -
  have f: "calm_run (x_parse E) ord (dmn S) (dmn (fan_out E m sp qid S)) \<and>
      tasks (dmn S) \<subseteq># tasks (dmn (fan_out E m sp qid S)) \<and> g_late (fan_out E m sp qid S) = g_late S" for qid S
    by (auto simp: fan_out_def queue_enqueue_tasks intro: enqueue_run split: option.splits prod.splits)
  have g: "calm_run (x_parse E) ord (dmn R) (dmn (snd (settle_quest E m sp qid R))) \<and>
      tasks (dmn R) \<subseteq># tasks (dmn (snd (settle_quest E m sp qid R))) \<and>
      g_late (snd (settle_quest E m sp qid R)) = g_late R" for qid
    using f [of R qid] f [of "R\<lparr>reg := finalize_quest qid (terminal_status E) (terminal_status E = Todo) (x_now E) (reg R)\<rparr>" qid]
    by (simp add: settle_quest_def Let_def split: prod.splits)
  from assms consider "R' = R" | qid es where "settle_quest E m sp qid R = (es, R')"
    by (auto simp: conclude_def split: if_splits prod.splits)
  then show ?thesis
  proof cases
    case (2 qid es)
    then show ?thesis using g [of qid] by simp
  qed simp
qed

text \<open>What a step of the rail does to its daemon.\<close>

definition daemon_run :: "payload_parser \<Rightarrow> (PendingRow list \<Rightarrow> PendingRow list) \<Rightarrow> rail \<Rightarrow> rail \<Rightarrow> bool" where
  "daemon_run parse ord R R' \<longleftrightarrow> (next_state parse ord)\<^sup>*\<^sup>* (dmn R) (dmn R') \<and> (g_late R \<longrightarrow> g_late R') \<and>
     (\<not> g_late R' \<longrightarrow> calm_run parse ord (dmn R) (dmn R'))"

lemma daemon_runI: "calm_run parse ord (dmn R) (dmn R') \<Longrightarrow> g_late R' = g_late R \<Longrightarrow> daemon_run parse ord R R'"
  using calm_reachable by (simp add: daemon_run_def)

lemma daemon_run_trans: "daemon_run parse ord R S \<Longrightarrow> daemon_run parse ord S T \<Longrightarrow> daemon_run parse ord R T"
  unfolding daemon_run_def by (meson rtranclp_trans)

lemma recover_run: "daemon_run parse ord R (recover_rail R)"
proof -
  obtain n q where q: "recover_orphaned_running (queue (dmn R)) = (n, q)" by force
  let ?D = "(dmn R)\<lparr>queue := q, tasks := mset (map Claiming (sessions_with_queued q)) + tasks (dmn R)\<rparr>"
  have step: "qstep parse ord A_Recover (dmn R) ?D" by (rule qstep.recover [OF q])
  have d: "dmn (recover_rail R) = ?D" by (simp add: recover_rail_def q)
  have "(next_state parse ord)\<^sup>*\<^sup>* (dmn R) ?D" using step by (intro r_into_rtranclp) (auto simp: next_state_def)
  moreover have "calm_run parse ord (dmn R) ?D" if "leases (tasks (dmn R)) = {#}"
    using step that by (intro r_into_rtranclp) (auto simp: calm_state_def calm_def)
  ultimately show ?thesis unfolding daemon_run_def d by (auto simp: recover_rail_def Let_def)
qed

lemma dstep_run:
  assumes "dstep parse ord C R R'"
  shows "daemon_run parse ord R R'"
  using assms
proof (induction rule: dstep.induct)
  case (tick_go R T T' R')
  then show ?case using tick_section_run [of C T R T' R' ord] by (intro daemon_runI) auto
next
  case (queue a R D)
  then show ?case by (intro daemon_runI) (auto intro!: calm_step)
next
  case (settled E sid c w R m sp b effs R')
  let ?D = "(dmn R')\<lparr>tasks := add_mset (Finishing sid c) (tasks (dmn R') - {#Executing sid c w#})\<rparr>"
  have x: "calm_run parse ord (dmn R) (dmn R')" "Executing sid c w \<in># tasks (dmn R')" "g_late R' = g_late R"
    using conclude_run [OF settled.hyps(6), of ord] settled.hyps(1,3) by (auto dest: mset_subset_eqD)
  have "qstep parse ord (A_Finish sid) (dmn R') ?D"
    using x(2) by (intro qstep.finish [where w = w]) simp
  then have "calm_run parse ord (dmn R') ?D" by (rule calm_step) simp
  then show ?case using x(1,3) by (intro daemon_runI) auto
next
  case (crash R)
  have "calm_run parse ord (dmn R) ((dmn R)\<lparr>tasks := {#}\<rparr>)" by (rule calm_step [OF qstep.crash]) simp
  then show ?case by (intro daemon_runI) (simp_all add: crash_rail_def)
next
  case (recover R)
  then show ?case by (rule recover_run)
qed (rule daemon_runI; simp add: reset_quests_def)+

lemma rail_daemon_run:
  assumes "(dstep parse ord C)\<^sup>*\<^sup>* R S"
  shows "daemon_run parse ord R S"
  using assms by (induction rule: rtranclp_induct) (auto intro: daemon_runI dstep_run daemon_run_trans)

section \<open>Counting quests in progress\<close>

definition in_progress_total :: "quest_db \<Rightarrow> nat" where
  "in_progress_total d = length (filter (\<lambda>r. qr_status r = ''in_progress'' \<and> qr_agent_id r \<noteq> None) (quest_rows d))"

lemma sum_by_agent:
  assumes "finite A" "\<forall>r\<in>set rs. \<forall>a. P r \<and> f r = Some a \<longrightarrow> a \<in> A"
  shows "(\<Sum>a\<in>A. length (filter (\<lambda>r. P r \<and> f r = Some a) rs)) = length (filter (\<lambda>r. P r \<and> f r \<noteq> None) rs)"
  using assms(2)
proof (induction rs)
  case (Cons r rs)
  then have IH: "(\<Sum>a\<in>A. length (filter (\<lambda>r. P r \<and> f r = Some a) rs)) = length (filter (\<lambda>r. P r \<and> f r \<noteq> None) rs)" by simp
  have "(\<Sum>a\<in>A. length (filter (\<lambda>r. P r \<and> f r = Some a) (r # rs))) =
      (\<Sum>a\<in>A. (if P r \<and> f r = Some a then 1 else 0)) + (\<Sum>a\<in>A. length (filter (\<lambda>r. P r \<and> f r = Some a) rs))"
    by (simp flip: sum.distrib) (rule sum.cong, auto)
  also have "(\<Sum>a\<in>A. (if P r \<and> f r = Some a then 1 else 0)) = (if P r \<and> f r \<noteq> None then 1 else 0 :: nat)"
    using Cons.prems assms(1) by (cases "f r") auto
  finally show ?case using IH by simp
qed simp

lemma map_of_tagged: "map_of (map (\<lambda>a. (a, h a)) xs) a = (if a \<in> set xs then Some (h a) else None)"
  by (induction xs) auto

lemma counts_exact:
  "in_flight (in_progress_counts_by_agent d) a = of_nat (in_progress_of a d)"
  "sum_list (map snd (in_progress_counts_by_agent d)) = of_nat (in_progress_total d)"
proof -
  let ?f = "\<lambda>r. if qr_status r = ''in_progress'' then (case qr_agent_id r of Some a \<Rightarrow> [a] | None \<Rightarrow> []) else []"
  let ?xs = "remdups (concat (map ?f (quest_rows d)))"
  have mem: "a \<in> set ?xs \<longleftrightarrow> (\<exists>r\<in>set (quest_rows d). qr_status r = ''in_progress'' \<and> qr_agent_id r = Some a)" for a
    by (auto split: if_splits option.splits) force+
  have "in_progress_of a d = 0" if "a \<notin> set ?xs"
    using that mem by (auto simp: in_progress_of_def filter_empty_conv)
  then show "in_flight (in_progress_counts_by_agent d) a = of_nat (in_progress_of a d)"
    by (simp add: in_flight_def in_progress_counts_by_agent_def map_of_tagged del: set_remdups)
  have "sum_list (map snd (in_progress_counts_by_agent d)) = (\<Sum>a\<leftarrow>?xs. of_nat (in_progress_of a d))"
    by (simp add: in_progress_counts_by_agent_def o_def)
  also have "\<dots> = of_nat (\<Sum>a\<in>set ?xs. in_progress_of a d)"
    by (simp add: sum_list_distinct_conv_sum_set)
  also have "(\<Sum>a\<in>set ?xs. in_progress_of a d) = in_progress_total d"
    unfolding in_progress_of_def in_progress_total_def
    by (rule sum_by_agent) (use mem in blast)+
  finally show "sum_list (map snd (in_progress_counts_by_agent d)) = of_nat (in_progress_total d)" .
qed

end
