(* ===== verification/Quest_Dispatch_Tick.thy ===== *)
theory Quest_Dispatch_Tick
  imports Quest_Dispatch_Queue
begin

text \<open>
  A tick in detail: the rounds of its loop, the counts of quests in progress that it works with,
  and what it leaves in the queue.
\<close>

section \<open>The rounds of the loop\<close>

definition admitted_round :: "DispatchConfig \<Rightarrow> tick_env \<Rightarrow> nat \<Rightarrow> Quest \<Rightarrow> Agent \<Rightarrow> string \<Rightarrow> rail \<Rightarrow> rail \<Rightarrow> bool" where
  "admitted_round C E n t ag payload R R' \<longleftrightarrow>
     agent_id t = Some (ag_id ag) \<and> get_agent (ag_id ag) (reg R) = Some ag \<and> retry_count t < max_task_retries C \<and>
     te_to_payload E (quest_message C E n t ag) = Some payload \<and> round_eff R t (Some InProgress) True R' \<and>
     dmn R' = queue_enqueue (te_parse E) (te_session E n) payload (te_now E n div 1000000000) (dmn R)"

definition idle_round :: "tick_env \<Rightarrow> nat \<Rightarrow> Quest \<Rightarrow> rail \<Rightarrow> rail \<Rightarrow> bool" where
  "idle_round E n t R R' \<longleftrightarrow> dmn R' = dmn R \<and>
     (\<exists>st. round_eff R t st False R' \<and> (rollback_ok E n \<longrightarrow> st \<noteq> Some InProgress))"

lemma get_agent_id: "get_agent a d = Some ag \<Longrightarrow> ag_id ag = a"
  by (auto simp: get_agent_def find_Some_iff)

lemma idle_roll_back: "idle_round E n t R (roll_back E n t (set_quest_status (quest_id t) InProgress now R))"
proof (cases "rollback_ok E n")
  case True
  have "round_eff R t (Some Todo) False
      (set_quest_status (quest_id t) Todo (te_now E n) (set_quest_status (quest_id t) InProgress now R))"
    by (rule round_trans [OF round_status round_status])
  then show ?thesis using True by (auto simp: roll_back_def idle_round_def)
next
  case False
  then show ?thesis using round_status [of R t InProgress now] by (auto simp: roll_back_def idle_round_def)
qed

lemma tick_task_admits:
  assumes "tick_task C E n t pa enq R = (pa', enq', R')" "agent_id t = Some a" "\<not> max_task_retries C \<le> retry_count t"
  obtains "pa' = pa" "enq' = enq" "R' = R"
  | ag where "admit C E n t ag pa enq R = (pa', enq', R')" "get_agent a (reg R) = Some ag"
      "limit_ok E n \<longrightarrow> in_flight pa a < get_max_concurrent a (reg R)"
proof (cases "(if limit_ok E n then get_max_concurrent a (reg R) else 1) \<le> in_flight pa a")
  case True
  then show thesis using assms that(1) by (simp add: tick_task_def gate_def give_up_def)
next
  case False
  then have lim: "limit_ok E n \<longrightarrow> in_flight pa a < get_max_concurrent a (reg R)" by auto
  show thesis
  proof (cases "if get_ok E n then get_agent a (reg R) else None")
    case None
    then show thesis using assms False that(1) by (simp add: tick_task_def gate_def give_up_def)
  next
    case (Some ag)
    then have ag: "get_agent a (reg R) = Some ag" by (simp split: if_splits)
    show thesis
    proof (cases "flip_ok E n")
      case True
      then show thesis using assms False Some that(2) [OF _ ag lim] by (simp add: tick_task_def gate_def give_up_def)
    next
      case flip: False
      then show thesis using assms False Some that(1) by (simp add: tick_task_def gate_def give_up_def)
    qed
  qed
qed

lemma tick_task_cases:
  assumes "tick_task C E n t pa enq R = (pa', enq', R')"
  obtains (idle) "pa' = pa" "enq' = enq" "idle_round E n t R R'"
  | (admitted) ag payload where "admitted_round C E n t ag payload R R'" "enq' = enq + 1"
      "pa' = AList.update (ag_id ag) (in_flight pa (ag_id ag) + 1) pa"
      "limit_ok E n \<longrightarrow> in_flight pa (ag_id ag) < get_max_concurrent (ag_id ag) (reg R)"
proof -
  let ?R1 = "set_quest_status (quest_id t) InProgress (te_now E n) R"
  have none: "idle_round E n t R R" using round_none by (auto simp: idle_round_def)
  have cancel: "idle_round E n t R (set_quest_status (quest_id t) Cancelled (te_now E n) R)"
    using round_status [of R t Cancelled] by (auto simp: idle_round_def)
  show thesis
  proof (cases "agent_id t")
    case None
    then show thesis using assms none idle by (simp add: tick_task_def gate_def give_up_def)
  next
    case (Some a)
    show thesis
    proof (cases "max_task_retries C \<le> retry_count t")
      case True
      then show thesis using assms Some none cancel idle by (auto simp: tick_task_def gate_def give_up_def split: if_splits)
    next
      case False
      consider "pa' = pa" "enq' = enq" "R' = R" |
        ag where "admit C E n t ag pa enq R = (pa', enq', R')" "get_agent a (reg R) = Some ag"
          "limit_ok E n \<longrightarrow> in_flight pa a < get_max_concurrent a (reg R)"
        by (rule tick_task_admits [OF assms Some False])
      then show thesis
      proof cases
        case 1
        then show thesis using none idle by simp
      next
        case 2
        have a: "ag_id ag = a" by (rule get_agent_id [OF 2(2)])
        from 2(1) consider "pa' = pa" "enq' = enq" "R' = roll_back E n t ?R1" |
          payload where "te_to_payload E (quest_message C E n t ag) = Some payload" "enq' = enq + 1"
            "pa' = AList.update (ag_id ag) (in_flight pa (ag_id ag) + 1) pa"
            "R' = ?R1\<lparr>dmn := queue_enqueue (te_parse E) (te_session E n) payload (te_now E n div 1000000000) (dmn R),
               g_admitted := g_admitted R @ [quest_id t]\<rparr>"
          by (auto simp: admit_def send_quest_def split: option.splits if_splits)
        then show thesis
        proof cases
          case 1
          then show thesis using idle_roll_back idle by simp
        next
          case (2 payload)
          have "admitted_round C E n t ag payload R R'"
            using 2 \<open>get_agent a (reg R) = Some ag\<close> Some False a round_admitted [where R = R and t = t and now = "te_now E n"]
            by (simp add: admitted_round_def)
          then show thesis
            using admitted 2 \<open>limit_ok E n \<longrightarrow> in_flight pa a < get_max_concurrent a (reg R)\<close> a by blast
        qed
      qed
    qed
  qed
qed

section \<open>Counting\<close>

lemma count_changed:
  assumes "distinct (map qr_id rs)" "r0 \<in> set rs" "\<And>r. qr_id r \<noteq> qr_id r0 \<Longrightarrow> g r = r" "\<not> P r0"
  shows "length (filter P (map g rs)) = length (filter P rs) + (if P (g r0) then 1 else 0)"
proof -
  obtain xs ys where rs: "rs = xs @ r0 # ys" using assms(2) by (metis in_set_conv_decomp)
  have "\<forall>x\<in>set xs \<union> set ys. qr_id x \<noteq> qr_id r0" using assms(1) by (simp add: rs) (metis UnE image_eqI)
  then have "map g xs = xs" "map g ys = ys" by (auto intro!: map_idI assms(3))
  then show ?thesis using assms(4) by (simp add: rs)
qed

lemma round_counts:
  assumes e: "round_eff R t st adm R'" and t: "snap R t" and d: "distinct (map qr_id (quest_rows (reg R)))"
  shows "in_progress_of a (reg R') = in_progress_of a (reg R) +
      (if st = Some InProgress \<and> agent_id t = Some a then 1 else 0)"
    "in_progress_total (reg R') = in_progress_total (reg R) +
      (if st = Some InProgress \<and> agent_id t \<noteq> None then 1 else 0)"
    "length (quest_rows (reg R')) = length (quest_rows (reg R))" "distinct (map qr_id (quest_rows (reg R')))"
    "get_max_concurrent a (reg R') = get_max_concurrent a (reg R)"
proof -
  obtain g where g: "quest_rows (reg R') = map g (quest_rows (reg R))" "\<forall>r. qr_id r \<noteq> quest_id t \<longrightarrow> g r = r"
    "\<forall>r. qr_id (g r) = qr_id r \<and> qr_agent_id (g r) = qr_agent_id r \<and> qr_retry_count (g r) = qr_retry_count r"
    "\<forall>r. qr_id r = quest_id t \<longrightarrow> qr_status (g r) = (case st of None \<Rightarrow> qr_status r | Some s \<Rightarrow> show_status s)"
    and ag: "agents (reg R') = agents (reg R)"
    using e unfolding round_eff_def by blast
  obtain r where r: "r \<in> set (quest_rows (reg R))" "t = row_to_task r" "qr_status r = ''todo''"
    using t by (auto simp: snap_def)
  have id: "quest_id t = qr_id r" "agent_id t = qr_agent_id r" by (simp_all add: r(2) row_to_task_def)
  have s: "qr_status (g r) = ''in_progress'' \<longleftrightarrow> st = Some InProgress"
    using g(4) id r(3) by (cases st) auto
  have keep: "qr_id x \<noteq> qr_id r \<Longrightarrow> g x = x" for x using g(2) id by simp
  show "in_progress_of a (reg R') = in_progress_of a (reg R) +
      (if st = Some InProgress \<and> agent_id t = Some a then 1 else 0)"
    unfolding in_progress_of_def g(1) by (subst count_changed [OF d r(1) keep]) (use s g(3) id r(3) in auto)
  show "in_progress_total (reg R') = in_progress_total (reg R) +
      (if st = Some InProgress \<and> agent_id t \<noteq> None then 1 else 0)"
    unfolding in_progress_total_def g(1) by (subst count_changed [OF d r(1) keep]) (use s g(3) id r(3) in auto)
  show "length (quest_rows (reg R')) = length (quest_rows (reg R))" "distinct (map qr_id (quest_rows (reg R')))"
    using g(1,3) d by (simp_all add: o_def)
  show "get_max_concurrent a (reg R') = get_max_concurrent a (reg R)"
    by (simp add: get_max_concurrent_def get_agent_def ag)
qed

lemma in_progress_le: "in_progress_of a d \<le> length (quest_rows d)" "in_progress_total d \<le> length (quest_rows d)"
  by (simp_all add: in_progress_of_def in_progress_total_def)

lemma in_flight_update: "in_flight (AList.update a k pa) b = (if b = a then k else in_flight pa b)"
  by (simp add: in_flight_def update_conv')

lemma of_nat_less_u32: "k < 2 ^ 32 \<Longrightarrow> (of_nat k :: u32) < w \<longleftrightarrow> k < unat w"
  by (simp add: word_less_nat_alt unat_of_nat)

text \<open>The counters of the loop are the counts of the table.\<close>

definition counters_ok :: "u32 \<Rightarrow> (string \<times> u32) list \<Rightarrow> u32 \<Rightarrow> rail \<Rightarrow> bool" where
  "counters_ok tif pa enq R \<longleftrightarrow> (\<forall>a. in_flight pa a = of_nat (in_progress_of a (reg R))) \<and>
     tif + enq = of_nat (in_progress_total (reg R)) \<and> length (quest_rows (reg R)) < 2 ^ 32 \<and>
     distinct (map qr_id (quest_rows (reg R)))"

definition within_caps :: "DispatchConfig \<Rightarrow> rail \<Rightarrow> rail \<Rightarrow> bool" where
  "within_caps C R R' \<longleftrightarrow>
     (\<forall>a. in_progress_of a (reg R') \<le> max (in_progress_of a (reg R)) (unat (get_max_concurrent a (reg R)))) \<and>
     in_progress_total (reg R') \<le> max (in_progress_total (reg R)) (unat (max_workers C))"

lemma tick_task_caps:
  assumes k: "tick_task C E n t pa enq R = (pa', enq', R')" and ok: "limit_ok E n" "rollback_ok E n"
    and c: "counters_ok tif pa enq R" and t: "snap R t" and m: "\<not> max_workers C \<le> tif + enq"
  shows "counters_ok tif pa' enq' R'" "within_caps C R R'"
    "\<And>a. get_max_concurrent a (reg R') = get_max_concurrent a (reg R)"
proof -
  have d: "distinct (map qr_id (quest_rows (reg R)))" and len: "length (quest_rows (reg R)) < 2 ^ 32"
    using c by (simp_all add: counters_ok_def)
  have small: "in_progress_of a (reg R) < 2 ^ 32" "in_progress_total (reg R) < 2 ^ 32" for a
    using in_progress_le len le_less_trans by metis+
  have "counters_ok tif pa' enq' R' \<and> within_caps C R R' \<and>
      (\<forall>a. get_max_concurrent a (reg R') = get_max_concurrent a (reg R))"
    using k
  proof (cases rule: tick_task_cases)
    case idle
    then obtain st where e: "round_eff R t st False R'" "st \<noteq> Some InProgress" using ok(2) by (auto simp: idle_round_def)
    note N = round_counts [OF e(1) t d]
    show ?thesis using c idle(1,2) N e(2) by (simp add: counters_ok_def within_caps_def)
  next
    case (admitted ag payload)
    have e: "round_eff R t (Some InProgress) True R'" "agent_id t = Some (ag_id ag)"
      using admitted(1) by (simp_all add: admitted_round_def)
    note N = round_counts [OF e(1) t d]
    have "in_progress_of (ag_id ag) (reg R) < unat (get_max_concurrent (ag_id ag) (reg R))"
      using admitted(4) ok(1) c small by (simp add: counters_ok_def of_nat_less_u32)
    moreover have "in_progress_total (reg R) < unat (max_workers C)"
      using m c small by (simp add: counters_ok_def of_nat_less_u32 not_le)
    ultimately have "within_caps C R R'" using N e(2) by (auto simp: within_caps_def)
    moreover have "tif + enq' = tif + enq + 1" using admitted(2) by simp
    then have "counters_ok tif pa' enq' R'"
      using c N e(2) unfolding counters_ok_def admitted(3) by (simp add: in_flight_update)
    ultimately show ?thesis using N by simp
  qed
  then show "counters_ok tif pa' enq' R'" "within_caps C R R'"
    "\<And>a. get_max_concurrent a (reg R') = get_max_concurrent a (reg R)" by blast+
qed

lemma within_caps_trans:
  assumes "within_caps C R R1" "within_caps C R1 R2" "\<And>a. get_max_concurrent a (reg R1) = get_max_concurrent a (reg R)"
  shows "within_caps C R R2"
proof -
  have le: "z \<le> max x c" if "z \<le> max y c" "y \<le> max x c" for x y z c :: nat
    using that by (auto simp: max_def split: if_splits)
  show ?thesis using assms le unfolding within_caps_def by metis
qed

lemma tick_loop_caps:
  assumes "\<forall>n. limit_ok E n \<and> rollback_ok E n" "counters_ok tif pa enq R" "distinct (map quest_id ts)" "\<forall>t\<in>set ts. snap R t"
  shows "within_caps C R (snd (tick_loop C E tif n ts pa enq R))"
  using assms(2-4)
proof (induction ts arbitrary: n pa enq R)
  case (Cons t ts)
  show ?case
  proof (cases "max_workers C \<le> tif + enq")
    case False
    obtain pa' enq' R' where k: "tick_task C E n t pa enq R = (pa', enq', R')" by (cases "tick_task C E n t pa enq R") auto
    have ok: "limit_ok E n" "rollback_ok E n" using assms(1) by auto
    note T = tick_task_caps [OF k ok Cons.prems(1) _ False]
    obtain st a where "round_eff R t st a R'" using tick_task_round [OF k] unfolding round_ok_def by blast
    then have "\<forall>t'\<in>set ts. snap R' t'"
      using Cons.prems(2,3) round_snap by (metis distinct.simps(2) image_eqI list.set_intros(2) list.simps(9) set_map)
    then have "within_caps C R' (snd (tick_loop C E tif (Suc n) ts pa' enq' R'))"
      using Cons.IH [of pa' enq' R' "Suc n"] T(1) Cons.prems by simp
    then show ?thesis using within_caps_trans [of C R R'] T(2,3) Cons.prems(3) k False by simp
  qed (simp add: within_caps_def)
qed (simp add: within_caps_def)

section \<open>What a tick dispatches\<close>

text \<open>The admitted quests of a run of the loop, each with its payload.\<close>

definition dispatched :: "DispatchConfig \<Rightarrow> tick_env \<Rightarrow> rail \<Rightarrow> rail \<Rightarrow> (Quest \<times> string) list \<Rightarrow> bool" where
  "dispatched C E R R' adm \<longleftrightarrow>
     g_admitted R' = g_admitted R @ map (quest_id \<circ> fst) adm \<and>
     map pm_payload (pending (queue (dmn R'))) = map pm_payload (pending (queue (dmn R))) @ map snd adm \<and>
     (\<forall>(t, p)\<in>set adm. retry_count t < max_task_retries C \<and>
        (\<exists>n ag. agent_id t = Some (ag_id ag) \<and> ag \<in> set (agents (reg R)) \<and>
           te_to_payload E (quest_message C E n t ag) = Some p) \<and>
        (\<exists>r\<in>set (quest_rows (reg R')). qr_id r = quest_id t \<and> qr_status r = ''in_progress''))"

lemma queue_enqueue_payloads:
  "map pm_payload (pending (queue (queue_enqueue parse sid payload now D))) = map pm_payload (pending (queue D)) @ [payload]"
  by (simp add: queue_enqueue_def enqueue_pending_def insert_pending_def clear_if_awaiting_def split: option.splits prod.splits)

lemma round_agents: "round_eff R t st a R' \<Longrightarrow> agents (reg R') = agents (reg R)"
  by (simp add: round_eff_def)

lemma round_in_progress_kept:
  assumes "round_eff R t st a R'" "r \<in> set (quest_rows (reg R))" "qr_id r \<noteq> quest_id t"
  shows "r \<in> set (quest_rows (reg R'))"
proof -
  obtain g where "quest_rows (reg R') = map g (quest_rows (reg R))" "\<forall>r. qr_id r \<noteq> quest_id t \<longrightarrow> g r = r"
    using assms(1) unfolding round_eff_def by blast
  then show ?thesis using assms(2,3) by (metis image_eqI set_map)
qed

lemma round_in_progress:
  assumes "round_eff R t (Some InProgress) a R'" "snap R t"
  shows "\<exists>r\<in>set (quest_rows (reg R')). qr_id r = quest_id t \<and> qr_status r = ''in_progress''"
proof -
  obtain r where r: "r \<in> set (quest_rows (reg R))" "qr_id r = quest_id t"
    using assms(2) by (auto simp: snap_def row_to_task_def)
  obtain g where g: "quest_rows (reg R') = map g (quest_rows (reg R))" "\<forall>r. qr_id (g r) = qr_id r"
    "\<forall>r. qr_id r = quest_id t \<longrightarrow> qr_status (g r) = (case Some InProgress of None \<Rightarrow> qr_status r | Some s \<Rightarrow> show_status s)"
    using assms(1) unfolding round_eff_def by blast
  have "g r \<in> set (quest_rows (reg R'))" using g(1) r(1) by simp
  then show ?thesis using g(2,3) r(2) by (intro bexI [of _ "g r"]) simp_all
qed

text \<open>The loop touches only the quests it is given.\<close>

lemma tick_loop_untouched:
  assumes "r \<in> set (quest_rows (reg R))" "qr_id r \<notin> quest_id ` set ts"
  shows "r \<in> set (quest_rows (reg (snd (tick_loop C E tif n ts pa enq R))))"
  using assms
proof (induction ts arbitrary: n pa enq R)
  case (Cons t ts)
  obtain pa' enq' R' where k: "tick_task C E n t pa enq R = (pa', enq', R')" by (cases "tick_task C E n t pa enq R") auto
  obtain st a where "round_eff R t st a R'" using tick_task_round [OF k] unfolding round_ok_def by blast
  then have "r \<in> set (quest_rows (reg R'))" using round_in_progress_kept Cons.prems by (metis image_eqI list.set_intros(1))
  then show ?case using Cons.IH [of R'] Cons.prems k by auto
qed simp

lemma tick_loop_dispatches:
  assumes "distinct (map quest_id ts)" "\<forall>t\<in>set ts. snap R t"
  shows "\<exists>adm. subseq (map fst adm) ts \<and> dispatched C E R (snd (tick_loop C E tif n ts pa enq R)) adm"
  using assms
proof (induction ts arbitrary: n pa enq R)
  case Nil
  then show ?case by (auto simp: dispatched_def intro: exI [of _ "[]"])
next
  case (Cons t ts)
  show ?case
  proof (cases "max_workers C \<le> tif + enq")
    case True
    then show ?thesis by (auto simp: dispatched_def intro: exI [of _ "[]"])
  next
    case False
    obtain pa' enq' R' where k: "tick_task C E n t pa enq R = (pa', enq', R')" by (cases "tick_task C E n t pa enq R") auto
    let ?S = "snd (tick_loop C E tif (Suc n) ts pa' enq' R')"
    obtain st a where e: "round_eff R t st a R'" using tick_task_round [OF k] unfolding round_ok_def by blast
    have "\<forall>t'\<in>set ts. snap R' t'"
      using Cons.prems e round_snap by (metis distinct.simps(2) image_eqI list.set_intros(2) list.simps(9) set_map)
    then obtain adm where adm: "subseq (map fst adm) ts" "dispatched C E R' ?S adm"
      using Cons.IH [of R' "Suc n" pa' enq'] Cons.prems(1) by auto
    have goal: "snd (tick_loop C E tif n (t # ts) pa enq R) = ?S" using k False by simp
    have "\<exists>adm. subseq (map fst adm) (t # ts) \<and> dispatched C E R ?S adm"
      using k
    proof (cases rule: tick_task_cases)
      case idle
      then have "g_admitted R' = g_admitted R" "dmn R' = dmn R" by (auto simp: idle_round_def round_eff_def)
      then have "dispatched C E R ?S adm" using adm(2) round_agents [OF e] unfolding dispatched_def by simp
      then show ?thesis using adm(1) by (auto intro: subseq_Cons')
    next
      case (admitted ag payload)
      note A = admitted(1) [unfolded admitted_round_def]
      have "\<exists>r\<in>set (quest_rows (reg R')). qr_id r = quest_id t \<and> qr_status r = ''in_progress''"
        using A Cons.prems(2) by (intro round_in_progress [of R]) auto
      then have ip: "\<exists>r\<in>set (quest_rows (reg ?S)). qr_id r = quest_id t \<and> qr_status r = ''in_progress''"
        using tick_loop_untouched Cons.prems(1) by (metis distinct.simps(2) list.simps(9) set_map)
      have ag: "ag \<in> set (agents (reg R))" using A by (auto simp: get_agent_def find_Some_iff)
      have "g_admitted R' = g_admitted R @ [quest_id t]" using A by (simp add: round_eff_def)
      moreover have "map pm_payload (pending (queue (dmn R'))) = map pm_payload (pending (queue (dmn R))) @ [payload]"
        using A by (simp add: queue_enqueue_payloads)
      ultimately have "dispatched C E R ?S ((t, payload) # adm)"
        using adm(2) round_agents [OF e] A ip ag unfolding dispatched_def by auto
      then show ?thesis using adm(1) by (intro exI [of _ "(t, payload) # adm"]) simp
    qed
    then show ?thesis unfolding goal .
  qed
qed

end
