(* ===== verification/Quest_Dispatch_Account.thy ===== *)
theory Quest_Dispatch_Account
  imports Quest_Dispatch_Runs
begin

text \<open>
  The account of the sends of a quest, over every interleaving of the sections: a send takes one of
  the \<open>max_task_retries\<close> that a quest has, or one of the occasions on which somebody made it todo
  again. The invariants are about the rows, the logs, and the quests that a tick still holds.
\<close>

section \<open>The quests of the tick under way\<close>

fun pc_rest :: "tick_pc \<Rightarrow> Quest list" where
  "pc_rest (Listed _ ready) = ready"
| "pc_rest (Rounds T) = tk_rest T"

fun pc_hand :: "tick_pc \<Rightarrow> Quest option" where
  "pc_hand (Listed _ _) = None"
| "pc_hand (Rounds T) = (case tk_hand T of None \<Rightarrow> None | Some _ \<Rightarrow> (case tk_rest T of [] \<Rightarrow> None | t # _ \<Rightarrow> Some t))"

definition tick_rest :: "tick_pc option \<Rightarrow> Quest list" where
  "tick_rest p = (case p of None \<Rightarrow> [] | Some T \<Rightarrow> pc_rest T)"

definition in_hand :: "tick_pc option \<Rightarrow> Quest option" where
  "in_hand p = (case p of None \<Rightarrow> None | Some T \<Rightarrow> pc_hand T)"

lemma tick_rest_simps [simp]: "tick_rest None = []" "tick_rest (Some T) = pc_rest T"
  "in_hand None = None" "in_hand (Some T) = pc_hand T"
  by (simp_all add: tick_rest_def in_hand_def)

lemma send_quest_cases:
  assumes "send_quest C E n t ag pa enq R = (pa', enq', R')"
  obtains "R' = R" | now where "R' = set_quest_status (quest_id t) Todo now R"
  | D where "R' = R\<lparr>dmn := D, g_admitted := g_admitted R @ [quest_id t]\<rparr>"
  using assms by (auto simp: send_quest_def roll_back_def split: option.splits if_splits)

lemma tick_section_cases:
  assumes "tick_section C T R = (T', R')"
  obtains (stop) "T' = None" "R' = R"
  | (keep) P where "T' = Some P" "pc_rest P = pc_rest T \<or> pc_rest P = tl (pc_rest T)" "pc_hand P = None" "R' = R"
  | (cancel) t :: Quest and P now where "T' = Some P" "pc_rest P = tl (pc_rest T)" "pc_hand P = None"
      "R' = set_quest_status (quest_id t) Cancelled now R"
  | (flip) t ts P now where "T' = Some P" "pc_rest P = pc_rest T" "pc_rest T = t # ts" "pc_hand P = Some t"
      "retry_count t < max_task_retries C" "R' = set_quest_status (quest_id t) InProgress now R"
  | (undo) t ts P now where "T' = Some P" "pc_rest T = t # ts" "pc_rest P = ts" "pc_hand P = None"
      "R' = set_quest_status (quest_id t) Todo now R"
  | (sent) t ts P D where "T' = Some P" "pc_rest T = t # ts" "pc_hand T = Some t" "pc_rest P = ts" "pc_hand P = None"
      "R' = R\<lparr>dmn := D, g_admitted := g_admitted R @ [quest_id t]\<rparr>"
proof (cases T)
  case (Listed E ready)
  show thesis
  proof (cases "ready = [] \<or> budget_exhausted E")
    case True
    then show thesis using assms Listed stop by simp
  next
    case False
    then obtain S where "T' = Some (Rounds S)" "tk_rest S = ready" "tk_hand S = None" "R' = R"
      using assms Listed by (auto simp: Let_def)
    then show thesis using Listed keep [of "Rounds S"] by simp
  qed
next
  case (Rounds S)
  show thesis
  proof (cases "tk_rest S")
    case Nil
    then show thesis using assms Rounds stop by simp
  next
    case (Cons t ts)
    then have r: "round_section C S t R = (T', R')" using assms Rounds by simp
    show thesis
    proof (cases "tk_hand S")
      case (Some ag)
      obtain pa enq S' where k: "send_quest C (tk_env S) (tk_n S) t ag (tk_per_agent S) (tk_enqueued S) R = (pa, enq, S')"
        by (cases "send_quest C (tk_env S) (tk_n S) t ag (tk_per_agent S) (tk_enqueued S) R") auto
      then have "T' = Some (Rounds (round_over (S\<lparr>tk_per_agent := pa, tk_enqueued := enq\<rparr>)))" "S' = R'"
        using r Some by (simp_all add: round_section_def)
      then obtain P where P: "T' = Some P" "pc_rest P = ts" "pc_hand P = None" "S' = R'"
        using Cons by (simp add: round_over_def)
      have h: "pc_rest T = t # ts" "pc_hand T = Some t" using Rounds Cons Some by simp_all
      from k show thesis
      proof (cases rule: send_quest_cases)
        case 1
        then show thesis using keep [OF P(1)] P h by simp
      next
        case (2 now)
        then show thesis using undo [OF P(1) h(1) P(2,3)] P(4) by simp
      next
        case (3 D)
        then show thesis using sent [OF P(1) h P(2,3)] P(4) by simp
      qed
    next
      case None
      show thesis
      proof (cases "max_workers C \<le> tk_total S + tk_enqueued S")
        case True
        then show thesis using r None stop by (simp add: round_section_def)
      next
        case False
        note r = r [unfolded round_section_def, simplified None False]
        show thesis
        proof (cases "gate C (tk_env S) (tk_n S) t (tk_per_agent S) R")
          case Skip_Quest
          then have "T' = Some (Rounds (round_over S))" "R' = R" using r by simp_all
          then show thesis using keep [of "Rounds (round_over S)"] Rounds by (simp add: round_over_def)
        next
          case Give_Up
          then have o: "T' = Some (Rounds (round_over S))" "R' = give_up (tk_env S) (tk_n S) t R" using r by simp_all
          then show thesis
            using keep [of "Rounds (round_over S)"] cancel [of "Rounds (round_over S)" t] Rounds
            by (cases "cancel_ok (tk_env S) (tk_n S)") (simp_all add: round_over_def give_up_def)
        next
          case (Flip ag)
          then have "retry_count t < max_task_retries C" by (auto simp: gate_def split: option.splits if_splits)
          then show thesis using r Flip flip [of "Rounds (S\<lparr>tk_hand := Some ag\<rparr>)"] Rounds Cons by auto
        qed
      qed
    qed
  qed
qed

section \<open>Sound rails\<close>

lemma fan_out_fields [simp]:
  "g_reopened (fan_out E m sp qid R) = g_reopened R" "ticking (fan_out E m sp qid R) = ticking R"
  "inserting (fan_out E m sp qid R) = inserting R"
  by (simp_all add: fan_out_def split: option.splits prod.splits)

lemma conclude_fields:
  assumes "conclude E m sp R = (b, effs, R')"
  shows "g_reopened R' = g_reopened R" "ticking R' = ticking R" "inserting R' = inserting R"
proof -
  from assms consider "R' = R" | qid es where "settle_quest E m sp qid R = (es, R')"
    by (auto simp: conclude_def split: if_splits prod.splits)
  then show "g_reopened R' = g_reopened R" "ticking R' = ticking R" "inserting R' = inserting R"
    by (cases; auto simp: settle_quest_def Let_def split: prod.splits)+
qed

abbreviation quest_ids :: "rail \<Rightarrow> QuestId set" where
  "quest_ids R \<equiv> qr_id ` set (quest_rows (reg R))"

definition rail_sound :: "rail \<Rightarrow> bool" where
  "rail_sound R \<longleftrightarrow> distinct (map qr_id (quest_rows (reg R))) \<and> set (g_admitted R) \<subseteq> quest_ids R \<and>
     (\<forall>r\<in>set (quest_rows (reg R)). 0 \<le> qr_retry_count r) \<and> (\<forall>r\<in>set (inserting R). 0 \<le> qr_retry_count r) \<and>
     distinct (map quest_id (tick_rest (ticking R))) \<and> quest_id ` set (tick_rest (ticking R)) \<subseteq> quest_ids R"

lemma rail_soundD:
  assumes "rail_sound R"
  shows "distinct (map qr_id (quest_rows (reg R)))" "set (g_admitted R) \<subseteq> quest_ids R"
    "\<And>r. r \<in> set (quest_rows (reg R)) \<Longrightarrow> 0 \<le> qr_retry_count r" "\<And>r. r \<in> set (inserting R) \<Longrightarrow> 0 \<le> qr_retry_count r"
    "distinct (map quest_id (tick_rest (ticking R)))" "quest_id ` set (tick_rest (ticking R)) \<subseteq> quest_ids R"
  using assms unfolding rail_sound_def by blast+

lemma fresh_rail_sound: "rail_sound (fresh_rail ags aw)"
  by (simp add: rail_sound_def fresh_rail_def)

text \<open>The rows keep their ids, none of their counters falls below zero.\<close>

lemma sound_mapped:
  assumes "rail_sound R" "quest_rows (reg R') = map g (quest_rows (reg R))"
    and "\<And>r. r \<in> set (quest_rows (reg R)) \<Longrightarrow> qr_id (g r) = qr_id r \<and> (0 \<le> qr_retry_count r \<longrightarrow> 0 \<le> qr_retry_count (g r))"
    and "set (g_admitted R') \<subseteq> quest_ids R" "\<forall>r\<in>set (inserting R'). 0 \<le> qr_retry_count r"
    and "distinct (map quest_id (tick_rest (ticking R')))" "quest_id ` set (tick_rest (ticking R')) \<subseteq> quest_ids R"
  shows "rail_sound R'"
proof -
  have ids: "map qr_id (quest_rows (reg R')) = map qr_id (quest_rows (reg R))" using assms(2,3) by simp
  then have "quest_ids R' = quest_ids R" by (metis set_map)
  moreover have "distinct (map qr_id (quest_rows (reg R')))" using ids rail_soundD(1) [OF assms(1)] by metis
  moreover have "\<forall>r\<in>set (quest_rows (reg R')). 0 \<le> qr_retry_count r" using assms(2,3) rail_soundD(3) [OF assms(1)] by auto
  ultimately show ?thesis unfolding rail_sound_def using assms(4-7) by simp
qed

lemma sound_moves:
  assumes "rail_sound R" "rows_move (reg R) (reg R')" "g_admitted R' = g_admitted R" "inserting R' = inserting R"
    and "ticking R' = ticking R"
  shows "rail_sound R'"
proof -
  obtain g where g: "quest_rows (reg R') = map g (quest_rows (reg R))" "\<forall>r\<in>set (quest_rows (reg R)). moves_on r (g r)"
    using assms(2) by (auto simp: rows_move_def)
  show ?thesis
    by (rule sound_mapped [OF assms(1) g(1)])
      (use g(2) rail_soundD [OF assms(1)] assms(3-5) in \<open>auto simp: moves_on_def intro: order_trans\<close>)
qed

lemma sound_same:
  assumes "rail_sound R" "quest_rows (reg R') = quest_rows (reg R)" "g_admitted R' = g_admitted R"
    and "\<forall>r\<in>set (inserting R'). r \<in> set (inserting R) \<or> 0 \<le> qr_retry_count r" "ticking R' = ticking R \<or> ticking R' = None"
  shows "rail_sound R'"
  by (rule sound_mapped [OF assms(1), of _ "\<lambda>r. r"]) (use rail_soundD [OF assms(1)] assms(2-5) in auto)

lemma update_task_rows:
  assumes "update_task i f now d = (x, d')" "keeps_counter f" "distinct (map qr_id (quest_rows d))"
  obtains g where "quest_rows d' = map g (quest_rows d)" "\<And>r. qr_id r \<noteq> i \<Longrightarrow> g r = r"
    "\<And>r. r \<in> set (quest_rows d) \<Longrightarrow> qr_id (g r) = qr_id r \<and>
       qr_retry_count (g r) \<in> {qr_retry_count r, uint (retry_count (row_to_task r))}"
    "\<And>r. r \<in> set (quest_rows d) \<Longrightarrow> qr_id r = i \<Longrightarrow>
       quest_status_of i d = Some (qr_status r) \<and> quest_status_of i d' = Some (qr_status (g r))"
proof (cases "find_quest i d")
  case None
  then have "d' = d" using assms(1) by (simp add: update_task_def get_task_def qfail_def)
  moreover have "qr_id r \<noteq> i" if "r \<in> set (quest_rows d)" for r
    using None that by (auto simp: find_quest_def find_None_iff)
  ultimately show thesis by (intro that [of "\<lambda>r. r"]) auto
next
  case (Some s)
  then have s: "s \<in> set (quest_rows d)" "qr_id s = i" by (auto simp: find_quest_def find_Some_iff)
  have only: "r = s" if "r \<in> set (quest_rows d)" "qr_id r = i" for r
    using assms(3) that s by (auto simp: distinct_map dest: inj_onD)
  let ?q = "f (row_to_task s)"
  let ?g = "\<lambda>r. if qr_id r = i then write_task ?q now r else r"
  have q: "quest_id ?q = i" "retry_count ?q = retry_count (row_to_task s)"
    using assms(2) s(2) by (simp_all add: keeps_counter_def row_to_task_def)
  have d': "quest_rows d' = map ?g (quest_rows d)"
    using assms(1) Some q(1) by (simp add: update_task_def get_task_def Let_def qret_def update_where_def) (auto simp: update_where_def)
  have "find_quest i d' = Some (?g s)"
  proof -
    have "find (\<lambda>r. qr_id r = i) (map ?g rs) = map_option ?g (find (\<lambda>r. qr_id r = i) rs)" for rs
      by (induction rs) (auto simp: write_task_def)
    then show ?thesis using Some d' by (simp add: find_quest_def)
  qed
  then have st: "quest_status_of i d' = Some (qr_status (?g s))" "quest_status_of i d = Some (qr_status s)"
    using Some by (simp_all add: quest_status_of_def)
  have w: "qr_id (?g r) = qr_id r \<and> qr_retry_count (?g r) \<in> {qr_retry_count r, uint (retry_count (row_to_task r))}"
    if "r \<in> set (quest_rows d)" for r
  proof (cases "qr_id r = i")
    case True
    then have "r = s" by (rule only [OF that])
    then show ?thesis using q(2) by (simp add: write_task_def)
  qed simp
  show thesis
  proof (rule that [OF d'])
    show "quest_status_of i d = Some (qr_status r) \<and> quest_status_of i d' = Some (qr_status (?g r))"
      if "r \<in> set (quest_rows d)" "qr_id r = i" for r
      using only [OF that] st by simp
  qed (use w in simp_all)
qed

lemma sound_rewrite:
  assumes "rail_sound R" "keeps_counter f"
  shows "rail_sound (rewrite_quest i f now R)"
proof -
  obtain x d where u: "update_task i f now (reg R) = (x, d)" by force
  obtain g where g: "quest_rows d = map g (quest_rows (reg R))"
    "\<And>r. r \<in> set (quest_rows (reg R)) \<Longrightarrow> qr_id (g r) = qr_id r \<and>
       qr_retry_count (g r) \<in> {qr_retry_count r, uint (retry_count (row_to_task r))}"
    by (rule update_task_rows [OF u assms(2) rail_soundD(1) [OF assms(1)]]) blast
  have c: "qr_id (g r) = qr_id r \<and> (0 \<le> qr_retry_count r \<longrightarrow> 0 \<le> qr_retry_count (g r))"
    if "r \<in> set (quest_rows (reg R))" for r using g(2) [OF that] by auto
  show ?thesis
    by (rule sound_mapped [OF assms(1), of _ g])
      (use g(1) c rail_soundD [OF assms(1)] in \<open>simp_all add: rewrite_quest_def u Let_def\<close>)
qed

lemma keep_worktree_counter: "keeps_counter (keep_worktree path branch)"
  by (simp add: keeps_counter_def keep_worktree_def)

lemma tool_writes_counter:
  "keeps_counter (tool_update st prio next_assignee now)" "keeps_counter (tool_close S result next_assignee)"
  "keeps_counter (tool_cancel S why)"
  by (auto simp: keeps_counter_def tool_update_def tool_close_def tool_cancel_def set_quest_outcome_def set_aeqi_metadata_def
      Let_def split: option.splits)

lemma spawn_writes_cases:
  obtains "spawn_writes E m R = R" | i path branch where
    "spawn_writes E m R = rewrite_quest i (keep_worktree path branch) (x_now E) R"
proof (cases "\<exists>w i. x_worktree E = Some w \<and> is_quest m \<and> qm_quest_id m = Some i")
  case True
  then obtain path branch i where "x_worktree E = Some (path, branch)" "is_quest m" "qm_quest_id m = Some i" by auto
  then show thesis using that(2) [of i path branch] by (simp add: spawn_writes_def)
next
  case False
  then have "spawn_writes E m R = R" by (auto simp: spawn_writes_def split: option.splits)
  then show thesis by (rule that(1))
qed

lemma sound_tick_begin:
  assumes "rail_sound R"
  shows "rail_sound (R\<lparr>ticking := tick_open E R\<rparr>)"
proof -
  have "quest_id ` set (ready_tasks (reg R)) \<subseteq> quest_ids R"
    by (auto simp: ready_tasks_def row_to_task_def)
  then show ?thesis
    by (intro sound_mapped [OF assms, of _ "\<lambda>r. r"])
      (use rail_soundD [OF assms] ready_distinct in \<open>auto simp: tick_open_def\<close>)
qed

lemma set_quest_status_rows:
  "quest_rows (reg (set_quest_status i st now R)) = map (\<lambda>r. if qr_id r = i then set_status st now r else r) (quest_rows (reg R))"
  by (simp add: set_quest_status_def update_task_status_def update_where_def)

lemma sound_tick_go:
  assumes "rail_sound R" "ticking R = Some T" "tick_section C T R = (T', R')"
  shows "rail_sound (R'\<lparr>ticking := T'\<rparr>)"
proof -
  note D = rail_soundD [OF assms(1)]
  have tl: "distinct (map quest_id (tl (pc_rest T)))" "quest_id ` set (tl (pc_rest T)) \<subseteq> quest_ids R"
    using D(5,6) assms(2) by (cases "pc_rest T"; simp)+
  show ?thesis
    using assms(3)
  proof (cases rule: tick_section_cases)
    case stop
    then show ?thesis by (intro sound_same [OF assms(1)]) auto
  next
    case (keep P)
    then show ?thesis
      by (intro sound_mapped [OF assms(1), of _ "\<lambda>r. r"]) (use D assms(2) tl in auto)
  next
    case (cancel t P now)
    then show ?thesis
      by (intro sound_mapped [OF assms(1) trans [OF _ set_quest_status_rows]])
        (use D assms(2) tl in \<open>auto simp: set_status_def\<close>)
  next
    case (flip t ts P now)
    then show ?thesis
      by (intro sound_mapped [OF assms(1) trans [OF _ set_quest_status_rows]])
        (use D assms(2) in \<open>auto simp: set_status_def\<close>)
  next
    case (undo t ts P now)
    then show ?thesis
      by (intro sound_mapped [OF assms(1) trans [OF _ set_quest_status_rows]])
        (use D assms(2) tl in \<open>auto simp: set_status_def\<close>)
  next
    case (sent t ts P D)
    then show ?thesis
      by (intro sound_mapped [OF assms(1), of _ "\<lambda>r. r"]) (use rail_soundD [OF assms(1)] assms(2) tl in auto)
  qed
qed

lemma insert_quest_cases:
  assumes "insert_quest r d = (x, d')"
  obtains "quest_rows d' = quest_rows d" | "quest_rows d' = quest_rows d @ [r]" "qr_id r \<notin> qr_id ` set (quest_rows d)"
  using assms by (auto simp: insert_quest_def qfail_def qret_def split: if_splits)

lemma mint_rows: "mint_or_reuse_quest_idea lower name text labels agent sc uuid now d = (x, d') \<Longrightarrow> quest_rows d' = quest_rows d"
  by (auto simp: mint_or_reuse_quest_idea_def qfail_def qret_def Let_def split: option.splits if_splits)

lemma next_id_rows: "next_quest_id pre parent_id d = (x, d') \<Longrightarrow> quest_rows d' = quest_rows d"
  by (cases parent_id)
    (auto simp: next_quest_id_def next_root_id_def next_child_id_def qfail_def qret_def Let_def split: if_splits)

lemma sound_insert:
  assumes "rail_sound R" "inserting R = rs @ r # rs'" "insert_quest r (reg R) = (x, d)"
  shows "rail_sound (R\<lparr>reg := d, inserting := rs @ rs'\<rparr>)"
  using assms(3)
proof (cases rule: insert_quest_cases)
  case 1
  then show ?thesis by (intro sound_same [OF assms(1)]) (use assms(2) in auto)
next
  case 2
  then show ?thesis using rail_soundD [OF assms(1)] assms(2) by (auto simp: rail_sound_def)
qed

lemma dstep_sound:
  assumes "dstep parse ord C R R'" "rail_sound R"
  shows "rail_sound R'"
  using assms
proof (induction rule: dstep.induct)
  case mint
  then show ?case using mint_rows by (intro sound_same [OF mint.prems]) auto
next
  case number
  then show ?case using next_id_rows by (intro sound_same [OF number.prems]) (auto simp: new_quest_row_def)
next
  case number_error
  then show ?case using next_id_rows by (intro sound_same [OF number_error.prems]) auto
next
  case insert
  then show ?case using sound_insert by blast
next
  case staff
  then show ?case by (intro sound_same [OF staff.prems]) auto
next
  case tick_begin
  then show ?case using sound_tick_begin by blast
next
  case tick_go
  then show ?case using sound_tick_go by blast
next
  case queue
  then show ?case by (intro sound_same [OF queue.prems]) auto
next
  case (spawned E sid c w R m)
  then show ?case using sound_rewrite keep_worktree_counter by (metis spawn_writes_cases)
next
  case (settled E sid c w R m sp b effs R')
  note cm = conclude_moves [OF settled.hyps(6)] conclude_fields [OF settled.hyps(6)]
  show ?case by (rule sound_moves [OF settled.prems]) (use cm in simp_all)
next
  case rewrite
  then show ?case using sound_rewrite by blast
next
  case (rescope R i sc now)
  show ?case by (rule sound_moves [OF rescope.prems]) (simp_all add: rows_move_scope)
next
  case crash
  then show ?case by (intro sound_same [OF crash.prems]) (auto simp: crash_rail_def)
next
  case (reset R)
  show ?case by (rule sound_moves [OF reset.prems]) (simp_all add: reset_quests_def rows_move_reset_stale)
next
  case recover
  then show ?case by (intro sound_same [OF recover.prems]) (auto simp: recover_rail_def Let_def)
qed

section \<open>The account\<close>

abbreviation sends :: "rail \<Rightarrow> QuestId \<Rightarrow> int" where
  "sends R i \<equiv> int (count_list (g_admitted R) i)"

abbreviation reopens :: "rail \<Rightarrow> QuestId \<Rightarrow> int" where
  "reopens R i \<equiv> int (count_list (g_reopened R) i)"

text \<open>
  Behind each row there are at most as many sends as it has \<open>spent\<close>, behind each quest that the tick
  holds at most as many as its counter says, reopenings apart.
\<close>

definition account :: "DispatchConfig \<Rightarrow> rail \<Rightarrow> bool" where
  "account C R \<longleftrightarrow>
     (\<forall>r\<in>set (quest_rows (reg R)). sends R (qr_id r) \<le> spent r + reopens R (qr_id r)) \<and>
     (\<forall>i. sends R i \<le> uint (max_task_retries C) + reopens R i) \<and>
     (\<forall>t\<in>set (tick_rest (ticking R)). \<forall>r\<in>set (quest_rows (reg R)). qr_id r = quest_id t \<longrightarrow>
        sends R (quest_id t) \<le> uint (retry_count t) + reopens R (quest_id t) \<and> uint (retry_count t) \<le> qr_retry_count r) \<and>
     (\<forall>t. in_hand (ticking R) = Some t \<longrightarrow> retry_count t < max_task_retries C \<and>
        (\<forall>r\<in>set (quest_rows (reg R)). qr_id r = quest_id t \<longrightarrow> sends R (quest_id t) + 1 \<le> spent r + reopens R (quest_id t)))"

lemma accountD:
  assumes "account C R"
  shows "\<And>r. r \<in> set (quest_rows (reg R)) \<Longrightarrow> sends R (qr_id r) \<le> spent r + reopens R (qr_id r)"
    "\<And>i. sends R i \<le> uint (max_task_retries C) + reopens R i"
    "\<And>t r. t \<in> set (tick_rest (ticking R)) \<Longrightarrow> r \<in> set (quest_rows (reg R)) \<Longrightarrow> qr_id r = quest_id t \<Longrightarrow>
       sends R (quest_id t) \<le> uint (retry_count t) + reopens R (quest_id t) \<and> uint (retry_count t) \<le> qr_retry_count r"
    "\<And>t. in_hand (ticking R) = Some t \<Longrightarrow> retry_count t < max_task_retries C"
    "\<And>t r. in_hand (ticking R) = Some t \<Longrightarrow> r \<in> set (quest_rows (reg R)) \<Longrightarrow> qr_id r = quest_id t \<Longrightarrow>
       sends R (quest_id t) + 1 \<le> spent r + reopens R (quest_id t)"
  using assms unfolding account_def by blast+

lemma fresh_account: "account C (fresh_rail ags aw)"
  by (simp add: account_def fresh_rail_def)

text \<open>Nothing is sent, and what a row has spent falls by a reopening at most.\<close>

definition carries :: "rail \<Rightarrow> rail \<Rightarrow> bool" where
  "carries R R' \<longleftrightarrow> g_admitted R' = g_admitted R \<and> (\<forall>i. reopens R i \<le> reopens R' i) \<and>
     (\<exists>g. quest_rows (reg R') = map g (quest_rows (reg R)) \<and> (\<forall>r\<in>set (quest_rows (reg R)). qr_id (g r) = qr_id r \<and>
       qr_retry_count r \<le> qr_retry_count (g r) \<and> spent r + reopens R (qr_id r) \<le> spent (g r) + reopens R' (qr_id r)))"

lemma carries_moves:
  assumes "rows_move (reg R) (reg R')" "g_admitted R' = g_admitted R" "g_reopened R' = g_reopened R"
  shows "carries R R'"
  using assms by (auto simp: carries_def rows_move_def moves_on_def)

lemma carries_same:
  assumes "quest_rows (reg R') = quest_rows (reg R)" "g_admitted R' = g_admitted R" "g_reopened R' = g_reopened R"
  shows "carries R R'"
  using assms by (auto simp: carries_def intro!: exI [of _ "\<lambda>r. r"])

lemma account_carries:
  assumes "account C R" "carries R R'" "set (tick_rest (ticking R')) \<subseteq> set (tick_rest (ticking R))"
    and "in_hand (ticking R') = None \<or> in_hand (ticking R') = in_hand (ticking R)"
  shows "account C R'"
proof -
  note D = accountD [OF assms(1)]
  have adm: "g_admitted R' = g_admitted R" and re: "\<And>i. reopens R i \<le> reopens R' i" using assms(2) by (simp_all add: carries_def)
  have behind: "\<exists>r\<in>set (quest_rows (reg R)). qr_id r = qr_id r' \<and> qr_retry_count r \<le> qr_retry_count r' \<and>
      spent r + reopens R (qr_id r) \<le> spent r' + reopens R' (qr_id r)" if "r' \<in> set (quest_rows (reg R'))" for r'
    using assms(2) that unfolding carries_def by fastforce
  have 1: "sends R' (qr_id r') \<le> spent r' + reopens R' (qr_id r')" if "r' \<in> set (quest_rows (reg R'))" for r'
    using behind [OF that] D(1) adm by fastforce
  have 2: "sends R' i \<le> uint (max_task_retries C) + reopens R' i" for i
    using D(2) [of i] re [of i] adm by simp
  have 3: "sends R' (quest_id t) \<le> uint (retry_count t) + reopens R' (quest_id t) \<and> uint (retry_count t) \<le> qr_retry_count r'"
    if t: "t \<in> set (tick_rest (ticking R'))" and m: "r' \<in> set (quest_rows (reg R'))" and e: "qr_id r' = quest_id t" for t r'
  proof -
    obtain r where r: "r \<in> set (quest_rows (reg R))" "qr_id r = quest_id t" "qr_retry_count r \<le> qr_retry_count r'"
      using behind [OF m] e by auto
    have "t \<in> set (tick_rest (ticking R))" using t assms(3) by blast
    from D(3) [OF this r(1,2)] r(3) re [of "quest_id t"] adm show ?thesis by simp
  qed
  have 4: "retry_count t < max_task_retries C" if "in_hand (ticking R') = Some t" for t
    using D(4) that assms(4) by auto
  have 5: "sends R' (quest_id t) + 1 \<le> spent r' + reopens R' (quest_id t)"
    if t: "in_hand (ticking R') = Some t" and m: "r' \<in> set (quest_rows (reg R'))" and e: "qr_id r' = quest_id t" for t r'
  proof -
    have h: "in_hand (ticking R) = Some t" using t assms(4) by auto
    obtain r where r: "r \<in> set (quest_rows (reg R))" "qr_id r = quest_id t"
      "spent r + reopens R (qr_id r) \<le> spent r' + reopens R' (qr_id r)"
      using behind [OF m] e by auto
    from D(5) [OF h r(1,2)] r(2,3) adm show ?thesis by simp
  qed
  show ?thesis unfolding account_def using 1 2 3 4 5 by blast
qed

text \<open>The retry counters are read as 32-bit numbers.\<close>

definition counters_fit :: "rail \<Rightarrow> bool" where
  "counters_fit R \<longleftrightarrow> (\<forall>r\<in>set (quest_rows (reg R)). qr_retry_count r < 2 ^ 32)"

lemma counter_read:
  assumes "0 \<le> qr_retry_count r" "qr_retry_count r < 2 ^ 32"
  shows "uint (retry_count (row_to_task r)) = qr_retry_count r"
  using assms by (simp add: row_to_task_def uint_word_of_int)

lemma carries_rewrite:
  assumes "rail_sound R" "counters_fit R" "keeps_counter f"
  shows "carries R (rewrite_quest i f now R)"
proof -
  let ?R' = "rewrite_quest i f now R"
  obtain x d where u: "update_task i f now (reg R) = (x, d)" by force
  obtain g where g: "quest_rows d = map g (quest_rows (reg R))" "\<And>r. qr_id r \<noteq> i \<Longrightarrow> g r = r"
    "\<And>r. r \<in> set (quest_rows (reg R)) \<Longrightarrow> qr_id (g r) = qr_id r \<and>
       qr_retry_count (g r) \<in> {qr_retry_count r, uint (retry_count (row_to_task r))}"
    "\<And>r. r \<in> set (quest_rows (reg R)) \<Longrightarrow> qr_id r = i \<Longrightarrow>
       quest_status_of i (reg R) = Some (qr_status r) \<and> quest_status_of i d = Some (qr_status (g r))"
    by (rule update_task_rows [OF u assms(3) rail_soundD(1) [OF assms(1)]], rule that)
  have re: "g_reopened ?R' = g_reopened R @
      (if quest_status_of i (reg R) \<noteq> Some ''todo'' \<and> quest_status_of i d = Some ''todo'' then [i] else [])"
    by (simp add: rewrite_quest_def u Let_def)
  have c: "qr_retry_count (g r) = qr_retry_count r" if "r \<in> set (quest_rows (reg R))" for r
    using g(3) [OF that] counter_read [of r] rail_soundD(3) [OF assms(1) that] assms(2) that by (auto simp: counters_fit_def)
  have s: "spent r + reopens R (qr_id r) \<le> spent (g r) + reopens ?R' (qr_id r)" if m: "r \<in> set (quest_rows (reg R))" for r
  proof (cases "qr_id r = i")
    case True
    then show ?thesis using g(4) [OF m True] c [OF m] re by (auto simp: spent_def count_list_append)
  next
    case False
    then show ?thesis using g(2) re by (simp add: count_list_append)
  qed
  have rows: "quest_rows (reg ?R') = map g (quest_rows (reg R))" by (simp add: rewrite_quest_def u Let_def g(1))
  have "\<forall>i. reopens R i \<le> reopens ?R' i" by (simp add: re count_list_append)
  then show ?thesis unfolding carries_def
    by (intro conjI exI [of _ g] ballI) (use rows g(3) c s in simp_all)
qed

lemma account_insert:
  assumes "rail_sound R" "account C R" "inserting R = rs @ r # rs'" "insert_quest r (reg R) = (x, d)"
  shows "account C (R\<lparr>reg := d, inserting := rs @ rs'\<rparr>)"
  using assms(4)
proof (cases rule: insert_quest_cases)
  case 1
  then show ?thesis using account_carries [OF assms(2) carries_same] by simp
next
  case 2
  note S = rail_soundD [OF assms(1)]
  have z: "sends R (qr_id r) = 0" using subsetD [OF S(2), of "qr_id r"] 2(2) by (auto simp: count_list_0_iff)
  have n: "0 \<le> spent r" using S(4) [of r] assms(3) by (simp add: spent_def)
  have q: "quest_id t \<noteq> qr_id r" if "t \<in> set (tick_rest (ticking R))" for t
    using subsetD [OF S(6) imageI [OF that]] 2(2) by metis
  have h: "t \<in> set (tick_rest (ticking R))" if hand: "in_hand (ticking R) = Some t" for t
  proof -
    obtain T where T: "ticking R = Some T" "pc_hand T = Some t" using hand by (cases "ticking R") auto
    then show ?thesis by (cases T) (auto split: option.splits list.splits)
  qed
  note A = accountD [OF assms(2)]
  let ?rows = "set (quest_rows (reg R))"
  have 1: "sends R (qr_id s) \<le> spent s + reopens R (qr_id s)" if "s \<in> insert r ?rows" for s
    using that A(1) z n by auto
  have 3: "sends R (quest_id t) \<le> uint (retry_count t) + reopens R (quest_id t) \<and> uint (retry_count t) \<le> qr_retry_count s"
    if "t \<in> set (tick_rest (ticking R))" "s \<in> insert r ?rows" "qr_id s = quest_id t" for t s
    using that A(3) [of t s] q [OF that(1)] by auto
  have 5: "sends R (quest_id t) + 1 \<le> spent s + reopens R (quest_id t)"
    if "in_hand (ticking R) = Some t" "s \<in> insert r ?rows" "qr_id s = quest_id t" for t s
    using that A(5) [of t s] q [OF h [OF that(1)]] by auto
  have rows: "set (quest_rows (reg (R\<lparr>reg := d, inserting := rs @ rs'\<rparr>))) = insert r ?rows" using 2(1) by simp
  show ?thesis unfolding account_def rows using 1 A(2) 3 A(4) 5 by simp
qed

lemma ready_counter:
  assumes "rail_sound R" "counters_fit R" "t \<in> set (ready_tasks (reg R))"
    and "r \<in> set (quest_rows (reg R))" "qr_id r = quest_id t"
  shows "uint (retry_count t) = qr_retry_count r" "spent r = qr_retry_count r"
proof -
  have s: "t = row_to_task r" "qr_status r = ''todo''"
    using snap_row [OF ready_snap [OF assms(3)] rail_soundD(1) [OF assms(1)] assms(4,5)] by simp_all
  then show "uint (retry_count t) = qr_retry_count r" "spent r = qr_retry_count r"
    using counter_read [of r] rail_soundD(3) [OF assms(1,4)] assms(2,4) by (simp_all add: counters_fit_def spent_def)
qed

lemma account_tick_begin:
  assumes "rail_sound R" "account C R" "counters_fit R"
  shows "account C (R\<lparr>ticking := tick_open E R\<rparr>)"
proof -
  note D = accountD [OF assms(2)]
  have "sends R (quest_id t) \<le> uint (retry_count t) + reopens R (quest_id t) \<and> uint (retry_count t) \<le> qr_retry_count r"
    if "t \<in> set (ready_tasks (reg R))" "r \<in> set (quest_rows (reg R))" "qr_id r = quest_id t" for t r
    using ready_counter [OF assms(1,3) that] D(1) [OF that(2)] that(3) by simp
  then show ?thesis unfolding account_def using D(1,2) by (simp add: tick_open_def)
qed

text \<open>A status change of one quest that the tick makes.\<close>

lemma carries_status: "st \<noteq> Todo \<Longrightarrow> carries R ((set_quest_status i st now R)\<lparr>ticking := p\<rparr>)"
  by (rule carries_moves) (simp_all add: set_quest_status_def rows_move_update_status)

lemma account_flip:
  assumes "account C R" "ticking R = Some T" "pc_rest T = t # ts" "pc_rest P = pc_rest T" "pc_hand P = Some t"
    "retry_count t < max_task_retries C"
  shows "account C ((set_quest_status (quest_id t) InProgress now R)\<lparr>ticking := Some P\<rparr>)" (is "account C ?R'")
proof -
  let ?S = "(set_quest_status (quest_id t) InProgress now R)\<lparr>ticking := None\<rparr>"
  have S: "account C ?S" by (rule account_carries [OF assms(1) carries_status]) simp_all
  note D = accountD [OF assms(1)] and E = accountD [OF S]
  have rows: "\<exists>s\<in>set (quest_rows (reg R)). qr_id s = qr_id r \<and> qr_retry_count s = qr_retry_count r \<and>
      (qr_id r = quest_id t \<longrightarrow> spent r = qr_retry_count r + 1)" if "r \<in> set (quest_rows (reg ?R'))" for r
    using that by (auto simp: set_quest_status_rows set_status_def spent_def split: if_splits)
  have 3: "sends R (quest_id u) \<le> uint (retry_count u) + reopens R (quest_id u) \<and> uint (retry_count u) \<le> qr_retry_count r"
    if "u \<in> set (t # ts)" "r \<in> set (quest_rows (reg ?R'))" "qr_id r = quest_id u" for u r
    using rows [OF that(2)] D(3) [of u] that(1,3) assms(2,3) by fastforce
  have "sends R (quest_id t) + 1 \<le> spent r + reopens R (quest_id t)"
    if "r \<in> set (quest_rows (reg ?R'))" "qr_id r = quest_id t" for r
  proof -
    have "spent r = qr_retry_count r + 1" using rows [OF that(1)] that(2) by blast
    then show ?thesis using 3 [OF _ that] that(2) by simp
  qed
  then show ?thesis unfolding account_def using E(1,2) 3 assms(3-6) by simp
qed

lemma account_undo:
  assumes "rail_sound R" "account C R" "ticking R = Some T" "pc_rest T = t # ts" "pc_rest P = ts" "pc_hand P = None"
  shows "account C ((set_quest_status (quest_id t) Todo now R)\<lparr>ticking := Some P\<rparr>)" (is "account C ?R'")
proof -
  note D = accountD [OF assms(2)]
  have rows: "\<exists>s\<in>set (quest_rows (reg R)). qr_id s = qr_id r \<and> qr_retry_count s = qr_retry_count r \<and>
      (if qr_id r = quest_id t then spent r = qr_retry_count r else spent s = spent r)" if m: "r \<in> set (quest_rows (reg ?R'))" for r
  proof -
    obtain s where "s \<in> set (quest_rows (reg R))" "r = (if qr_id s = quest_id t then set_status Todo now s else s)"
      using m by (auto simp: set_quest_status_rows)
    then show ?thesis by (intro bexI [of _ s]) (simp_all add: set_status_def spent_def)
  qed
  have 1: "sends R (qr_id r) \<le> spent r + reopens R (qr_id r)" if m: "r \<in> set (quest_rows (reg ?R'))" for r
  proof -
    obtain s where s: "s \<in> set (quest_rows (reg R))" "qr_id s = qr_id r" "qr_retry_count s = qr_retry_count r"
      "if qr_id r = quest_id t then spent r = qr_retry_count r else spent s = spent r" using rows [OF m] by blast
    show ?thesis
    proof (cases "qr_id r = quest_id t")
      case True
      then show ?thesis using D(3) [of t s] s assms(3,4) by simp
    next
      case False
      then show ?thesis using D(1) [OF s(1)] s by simp
    qed
  qed
  have 3: "sends R (quest_id u) \<le> uint (retry_count u) + reopens R (quest_id u) \<and> uint (retry_count u) \<le> qr_retry_count r"
    if "u \<in> set ts" "r \<in> set (quest_rows (reg ?R'))" "qr_id r = quest_id u" for u r
    using rows [OF that(2)] D(3) [of u] that(1,3) assms(3,4) by fastforce
  show ?thesis unfolding account_def using D(2) 1 3 assms(5,6) by simp
qed

lemma account_sent:
  assumes "rail_sound R" "account C R" "ticking R = Some T" "pc_rest T = t # ts" "pc_hand T = Some t" "pc_rest P = ts" "pc_hand P = None"
  shows "account C (R\<lparr>dmn := D, g_admitted := g_admitted R @ [quest_id t], ticking := Some P\<rparr>)"
proof -
  note S = rail_soundD [OF assms(1)] and A = accountD [OF assms(2)]
  have h: "in_hand (ticking R) = Some t" using assms(3,5) by simp
  have "quest_id t \<in> quest_ids R" using S(6) assms(3,4) by simp
  then obtain s where s: "s \<in> set (quest_rows (reg R))" "qr_id s = quest_id t" by auto
  have "uint (retry_count t) < uint (max_task_retries C)" using A(4) [OF h] by (simp add: word_less_def)
  then have bound: "sends R (quest_id t) + 1 \<le> uint (max_task_retries C) + reopens R (quest_id t)"
    using A(3) [of t s] s assms(3,4) by simp
  have "quest_id t \<notin> quest_id ` set ts" using S(5) assms(3,4) by simp
  then have other: "quest_id u \<noteq> quest_id t" if "u \<in> set ts" for u using that by (metis imageI)
  have 1: "int (count_list (g_admitted R @ [quest_id t]) (qr_id r)) \<le> spent r + reopens R (qr_id r)"
    if "r \<in> set (quest_rows (reg R))" for r
    using A(1) [OF that] A(5) [OF h that] by (auto simp: count_list_append)
  have 2: "int (count_list (g_admitted R @ [quest_id t]) i) \<le> uint (max_task_retries C) + reopens R i" for i
    using A(2) [of i] bound by (auto simp: count_list_append)
  have 3: "int (count_list (g_admitted R @ [quest_id t]) (quest_id u)) \<le> uint (retry_count u) + reopens R (quest_id u) \<and>
      uint (retry_count u) \<le> qr_retry_count r"
    if "u \<in> set ts" "r \<in> set (quest_rows (reg R))" "qr_id r = quest_id u" for u r
    using A(3) [of u r] other [OF that(1)] that assms(3,4) by (simp add: count_list_append)
  show ?thesis unfolding account_def using 1 2 3 assms(6,7) by simp
qed

lemma account_tick_go:
  assumes "rail_sound R" "account C R" "ticking R = Some T" "tick_section C T R = (T', R')"
  shows "account C (R'\<lparr>ticking := T'\<rparr>)"
  using assms(4)
proof (cases rule: tick_section_cases)
  case stop
  then show ?thesis using account_carries [OF assms(2) carries_same] by simp
next
  case (keep P)
  have "set (tl (pc_rest T)) \<subseteq> set (pc_rest T)" by (cases "pc_rest T") auto
  with keep show ?thesis
    by (intro account_carries [OF assms(2) carries_same]) (use assms(3) in auto)
next
  case (cancel t P now)
  have "set (tl (pc_rest T)) \<subseteq> set (pc_rest T)" by (cases "pc_rest T") auto
  with cancel show ?thesis
    by (intro account_carries [OF assms(2)]) (use assms(3) carries_status in auto)
next
  case (flip t ts P now)
  then show ?thesis using account_flip [OF assms(2,3)] by simp
next
  case (undo t ts P now)
  then show ?thesis using account_undo [OF assms(1-3)] by simp
next
  case (sent t ts P D)
  then show ?thesis using account_sent [OF assms(1-3)] by simp
qed

lemma dstep_account:
  assumes "dstep parse ord C R R'" "rail_sound R" "account C R" "counters_fit R"
  shows "account C R'"
  using assms
proof (induction rule: dstep.induct)
  case mint
  then show ?case using mint_rows by (intro account_carries [OF mint.prems(2) carries_same]) auto
next
  case number
  then show ?case using next_id_rows by (intro account_carries [OF number.prems(2) carries_same]) auto
next
  case number_error
  then show ?case using next_id_rows by (intro account_carries [OF number_error.prems(2) carries_same]) auto
next
  case insert
  then show ?case using account_insert by blast
next
  case staff
  then show ?case by (intro account_carries [OF staff.prems(2) carries_same]) auto
next
  case tick_begin
  then show ?case using account_tick_begin by blast
next
  case tick_go
  then show ?case using account_tick_go by blast
next
  case queue
  then show ?case by (intro account_carries [OF queue.prems(2) carries_same]) auto
next
  case (spawned E sid c w R m)
  have "carries R (spawn_writes E m R)"
  proof (cases rule: spawn_writes_cases [of E m R])
    case 1
    then show ?thesis by (simp add: carries_same)
  next
    case 2
    then show ?thesis using carries_rewrite [OF spawned.prems(1,3) keep_worktree_counter] by simp
  qed
  then show ?case by (rule account_carries [OF spawned.prems(2)]) simp_all
next
  case (settled E sid c w R m sp b effs R')
  note cm = conclude_moves [OF settled.hyps(6)] conclude_fields [OF settled.hyps(6)]
  show ?case by (rule account_carries [OF settled.prems(2) carries_moves]) (use cm in simp_all)
next
  case (rewrite f R i now)
  show ?case by (rule account_carries [OF rewrite.prems(2) carries_rewrite [OF rewrite.prems(1,3) rewrite.hyps]]) simp_all
next
  case (rescope R i sc now)
  show ?case by (rule account_carries [OF rescope.prems(2) carries_moves]) (simp_all add: rows_move_scope)
next
  case crash
  then show ?case by (intro account_carries [OF crash.prems(2) carries_same]) (auto simp: crash_rail_def)
next
  case (reset R)
  show ?case by (rule account_carries [OF reset.prems(2) carries_moves]) (simp_all add: reset_quests_def rows_move_reset_stale)
next
  case recover
  then show ?case by (intro account_carries [OF recover.prems(2) carries_same]) (auto simp: recover_rail_def Let_def)
qed

section \<open>Runs\<close>

lemma run_sound:
  assumes "(dstep parse ord C)\<^sup>*\<^sup>* (fresh_rail ags aw) R"
  shows "rail_sound R"
  using assms by (induction rule: rtranclp_induct) (auto intro: fresh_rail_sound dstep_sound)

text \<open>A step from a state in which every counter fits.\<close>

definition fitting_step :: "payload_parser \<Rightarrow> (PendingRow list \<Rightarrow> PendingRow list) \<Rightarrow> DispatchConfig \<Rightarrow> rail \<Rightarrow> rail \<Rightarrow> bool" where
  "fitting_step parse ord C R R' \<longleftrightarrow> counters_fit R \<and> dstep parse ord C R R'"

lemma fitting_run_account:
  assumes "(fitting_step parse ord C)\<^sup>*\<^sup>* (fresh_rail ags aw) R"
  shows "rail_sound R \<and> account C R"
  using assms
proof (induction rule: rtranclp_induct)
  case base
  show ?case using fresh_rail_sound fresh_account by blast
next
  case (step R R')
  then show ?case using dstep_sound dstep_account unfolding fitting_step_def by blast
qed

end
