(* ===== verification/Quests_Board.thy ===== *)
theory Quests_Board
  imports Quests_Quest "HOL-Library.Product_Lexorder"
begin

text \<open>
  The quest store (\<open>crates/aeqi-quests/src/store.rs\<close>): the in-memory index, the sequence
  numbers, and the JSONL files behind them, one per id prefix, to which every change is
  appended. The operating system is a parameter: the clock, and the outcome of each file
  operation, which may fail or, when writing, stop half way. An operation returns its
  result, an error or a value, together with the board, since a failing operation may have
  changed the board before it failed. The iteration order of a \<open>HashMap\<close> is the order of
  the association list; no theorem depends on it.
\<close>

section \<open>State and environment\<close>

datatype io = IoOk | IoRefused | IoTorn nat

text \<open>\<open>tick\<close> counts the board's interactions with the operating system; the world gives
  the outcome of the n-th one.\<close>

record world =
  codec :: serde
  utc_now :: "nat \<Rightarrow> datetime"
  append_io :: "nat \<Rightarrow> io"
  write_io :: "nat \<Rightarrow> io"
  read_io :: "nat \<Rightarrow> bool"
  dir_io :: "nat \<Rightarrow> bool"

record QuestBoard =
  files :: "(string \<times> string) list"
  quests :: "(string \<times> Quest) list"
  sequences :: "(string \<times> u32) list"
  tick :: nat

datatype board_error =
    QuestNotFound string
  | NotTodo string QuestStatus
  | SelfDependency string
  | CircularDependency string string
  | ReleaseDeprecated
  | SerializeFailed
  | IoFailed

type_synonym 'a outcome = "(board_error + 'a) \<times> QuestBoard"

definition tock :: "QuestBoard \<Rightarrow> QuestBoard" where
  "tock b = b\<lparr>tick := Suc (tick b)\<rparr>"

fun valid_transition :: "QuestStatus \<Rightarrow> QuestStatus \<Rightarrow> bool" where
  "valid_transition Backlog to = (to \<in> {Todo, Cancelled, Backlog})"
| "valid_transition Todo to = (to \<in> {InProgress, Backlog, Cancelled, Todo})"
| "valid_transition InProgress to =
     (to \<in> {InReview, Done, Cancelled, Todo, Backlog, InProgress})"
| "valid_transition InReview to = (to \<in> {Done, Cancelled, InProgress, InReview})"
| "valid_transition Done to = False"
| "valid_transition Cancelled to = False"

section \<open>Files\<close>

text \<open>
  The path of a file is relative to the directory of the board: \<open>dir.join(...)\<close> takes a prefix with
  a slash to another directory (of the root, when the slash comes first), where the write succeeds
  or fails as the world says. \<open>read_dir\<close> is not recursive: it lists the paths without a slash.
\<close>

definition file_name :: "string \<Rightarrow> string" where
  "file_name p = p @ ''.jsonl''"

definition listed :: "string \<Rightarrow> bool" where
  "listed path \<longleftrightarrow> CHR ''/'' \<notin> set path"

definition dir_entries :: "(string \<times> string) list \<Rightarrow> (string \<times> string) list" where
  "dir_entries fs = filter (\<lambda>f. listed (fst f)) fs"

text \<open>\<open>Path::extension\<close>: the part after the last dot, unless the dot starts the name.\<close>

definition is_jsonl :: "string \<Rightarrow> bool" where
  "is_jsonl name \<longleftrightarrow> (\<exists>a\<in>set (case rsplit_once CHR ''.'' name of None \<Rightarrow> [] | Some p \<Rightarrow> [p]).
     fst a \<noteq> [] \<and> snd a = ''jsonl'')"

definition file_content :: "string \<Rightarrow> (string \<times> string) list \<Rightarrow> string" where
  "file_content name fs = (case map_of fs name of None \<Rightarrow> [] | Some c \<Rightarrow> c)"

definition append_file :: "string \<Rightarrow> string \<Rightarrow> (string \<times> string) list \<Rightarrow> (string \<times> string) list"
where
  "append_file name txt fs = AList.update name (file_content name fs @ txt) fs"

text \<open>The sequence number of a root quest, from its id.\<close>

definition track_sequence :: "Quest \<Rightarrow> (string \<times> u32) list \<Rightarrow> (string \<times> u32) list" where
  "track_sequence q seqs =
     (let i = quest_id q; parts = split CHR ''-'' i in
      if depth i = 0 \<and> 1 < length parts then
        case parse_u32 (hd (split CHR ''.'' (parts ! 1))) of
          Some s \<Rightarrow> AList.update (id_prefix i)
            (max (case map_of seqs (id_prefix i) of None \<Rightarrow> 0 | Some n \<Rightarrow> n) s) seqs
        | None \<Rightarrow> seqs
      else seqs)"

definition load_line :: "world \<Rightarrow> string \<Rightarrow> QuestBoard \<Rightarrow> QuestBoard" where
  "load_line W raw b =
     (let line = trim raw in
      if line = [] \<or> hd line = CHR ''#'' then b
      else case from_str (codec W) line of
        Some q \<Rightarrow> b\<lparr>sequences := track_sequence q (sequences b),
                     quests := AList.update (quest_id q) q (quests b)\<rparr>
      | None \<Rightarrow> b)"

definition load_file :: "world \<Rightarrow> string \<Rightarrow> QuestBoard \<Rightarrow> unit outcome" where
  "load_file W text b =
     (if read_io W (tick b) then (Inr (), fold (load_line W) (lines text) (tock b))
      else (Inl IoFailed, tock b))"

fun load_entries :: "world \<Rightarrow> (string \<times> string) list \<Rightarrow> QuestBoard \<Rightarrow> unit outcome" where
  "load_entries W [] b = (Inr (), b)"
| "load_entries W ((name, text) # es) b =
     (if \<not> dir_io W (tick b) then (Inl IoFailed, tock b)
      else if is_jsonl name then
        (case load_file W text (tock b) of
           (Inl e, b') \<Rightarrow> (Inl e, b')
         | (Inr _, b') \<Rightarrow> load_entries W es b')
      else load_entries W es (tock b))"

definition load_all :: "world \<Rightarrow> QuestBoard \<Rightarrow> unit outcome" where
  "load_all W b =
     (if dir_io W (tick b) then load_entries W (dir_entries (files b)) (tock b) else (Inl IoFailed, tock b))"

text \<open>\<open>open\<close>: the directory is made when it does not exist; \<open>fs\<close> is what it holds.\<close>

definition board_open :: "world \<Rightarrow> (string \<times> string) list \<Rightarrow> unit outcome" where
  "board_open W fs =
     (let b = \<lparr>files = fs, quests = [], sequences = [], tick = 0\<rparr> in
      if dir_io W 0 then load_all W (tock b) else (Inl IoFailed, tock b))"

definition persist :: "world \<Rightarrow> Quest \<Rightarrow> QuestBoard \<Rightarrow> unit outcome" where
  "persist W q b = (case to_string (codec W) q of
     None \<Rightarrow> (Inl SerializeFailed, b)
   | Some s \<Rightarrow>
       (let name = file_name (id_prefix (quest_id q)); line = s @ [CHR 0x0A] in
        case append_io W (tick b) of
          IoOk \<Rightarrow> (Inr (), tock b\<lparr>files := append_file name line (files b)\<rparr>)
        | IoRefused \<Rightarrow> (Inl IoFailed, tock b)
        | IoTorn k \<Rightarrow>
            (Inl IoFailed, tock b\<lparr>files := append_file name (take k line) (files b)\<rparr>)))"

fun serialize_all :: "serde \<Rightarrow> Quest list \<Rightarrow> string option" where
  "serialize_all S [] = Some []"
| "serialize_all S (q # qs) = (case to_string S q of
     None \<Rightarrow> None
   | Some s \<Rightarrow> map_option (\<lambda>t. s @ CHR 0x0A # t) (serialize_all S qs))"

definition by_prefix :: "string \<Rightarrow> QuestBoard \<Rightarrow> Quest list" where
  "by_prefix p b = sort_key created_at
     (filter (\<lambda>q. id_prefix (quest_id q) = p) (map snd (quests b)))"

definition rewrite_prefix :: "world \<Rightarrow> string \<Rightarrow> QuestBoard \<Rightarrow> unit outcome" where
  "rewrite_prefix W p b = (case serialize_all (codec W) (by_prefix p b) of
     None \<Rightarrow> (Inl SerializeFailed, b)
   | Some text \<Rightarrow> (case write_io W (tick b) of
       IoOk \<Rightarrow> (Inr (), tock b\<lparr>files := AList.update (file_name p) text (files b)\<rparr>)
     | IoRefused \<Rightarrow> (Inl IoFailed, tock b)
     | IoTorn k \<Rightarrow>
         (Inl IoFailed, tock b\<lparr>files := AList.update (file_name p) (take k text) (files b)\<rparr>)))"

fun rewrite_prefixes :: "world \<Rightarrow> string list \<Rightarrow> QuestBoard \<Rightarrow> unit outcome" where
  "rewrite_prefixes W [] b = (Inr (), b)"
| "rewrite_prefixes W (p # ps) b = (case rewrite_prefix W p b of
     (Inl e, b') \<Rightarrow> (Inl e, b')
   | (Inr _, b') \<Rightarrow> rewrite_prefixes W ps b')"

definition compact_all :: "world \<Rightarrow> QuestBoard \<Rightarrow> unit outcome" where
  "compact_all W b =
     rewrite_prefixes W (remdups (map (id_prefix \<circ> quest_id \<circ> snd) (quests b))) b"

definition reload :: "world \<Rightarrow> QuestBoard \<Rightarrow> unit outcome" where
  "reload W b = (case load_all W (b\<lparr>quests := [], sequences := []\<rparr>) of
     (Inl e, b') \<Rightarrow> (Inl e, b')
   | (Inr _, b') \<Rightarrow> compact_all W b')"

section \<open>Operations\<close>

definition board_get :: "string \<Rightarrow> QuestBoard \<Rightarrow> Quest option" where
  "board_get i b = map_of (quests b) i"

text \<open>\<open>*seq += 1\<close> wraps: the release profile has no overflow checks.\<close>

definition next_seq :: "string \<Rightarrow> QuestBoard \<Rightarrow> u32" where
  "next_seq p b = (case map_of (sequences b) p of None \<Rightarrow> 0 | Some n \<Rightarrow> n) + 1"

text \<open>\<open>self.persist(&quest)?; self.quests.insert(..)\<close>\<close>

definition persist_insert :: "world \<Rightarrow> Quest \<Rightarrow> QuestBoard \<Rightarrow> Quest outcome" where
  "persist_insert W q b = (case persist W q b of
     (Inl e, b') \<Rightarrow> (Inl e, b')
   | (Inr _, b') \<Rightarrow> (Inr q, b'\<lparr>quests := AList.update (quest_id q) q (quests b')\<rparr>))"

definition create_with_agent ::
  "world \<Rightarrow> string \<Rightarrow> string \<Rightarrow> string option \<Rightarrow> QuestBoard \<Rightarrow> Quest outcome" where
  "create_with_agent W p name agent b =
     (let seq = next_seq p b;
          q = with_agent (utc_now W (tick b)) (root p seq) name agent
      in persist_insert W q (tock b\<lparr>sequences := AList.update p seq (sequences b)\<rparr>))"

definition children :: "QuestId \<Rightarrow> QuestBoard \<Rightarrow> Quest list" where
  "children p b = filter (\<lambda>q. parent (quest_id q) = Some p) (map snd (quests b))"

definition create_child :: "world \<Rightarrow> QuestId \<Rightarrow> string \<Rightarrow> QuestBoard \<Rightarrow> Quest outcome" where
  "create_child W p name b =
     (let parent_agent_id = Option.bind (board_get p b) agent_id;
          child_count = (of_nat (length (children p b)) :: u32);
          q = (quest_new (utc_now W (tick b)) (child p (child_count + 1)) name)
                \<lparr>agent_id := parent_agent_id, depends_on := []\<rparr>
      in persist_insert W q (tock b))"

text \<open>The closure of \<open>update\<close> gets a clock reading, for those that read the clock.\<close>

definition update :: "world \<Rightarrow> string \<Rightarrow> (datetime \<Rightarrow> Quest \<Rightarrow> Quest) \<Rightarrow> QuestBoard \<Rightarrow> Quest outcome"
where
  "update W i f b = (case board_get i b of
     None \<Rightarrow> (Inl (QuestNotFound i), b)
   | Some q \<Rightarrow>
       (let q' = (f (utc_now W (tick b)) q)\<lparr>updated_at := Some (utc_now W (Suc (tick b)))\<rparr>;
            b' = tock (tock b)\<lparr>quests := AList.update i q' (quests b)\<rparr>
        in case persist W q' b' of
             (Inl e, b'') \<Rightarrow> (Inl e, b'')
           | (Inr _, b'') \<Rightarrow> (Inr q', b'')))"

text \<open>The second component says whether a warning was logged.\<close>

definition validated_update ::
  "world \<Rightarrow> string \<Rightarrow> (datetime \<Rightarrow> Quest \<Rightarrow> Quest) \<Rightarrow> QuestBoard \<Rightarrow> (Quest \<times> bool) outcome" where
  "validated_update W i f b = (case board_get i b of
     None \<Rightarrow> (Inl (QuestNotFound i), b)
   | Some old \<Rightarrow> (case update W i f b of
       (Inl e, b') \<Rightarrow> (Inl e, b')
     | (Inr q, b') \<Rightarrow> (Inr (q, \<not> valid_transition (status old) (status q)), b')))"

definition checkout :: "world \<Rightarrow> string \<Rightarrow> string \<Rightarrow> QuestBoard \<Rightarrow> Quest outcome" where
  "checkout W i worker b = (case board_get i b of
     None \<Rightarrow> (Inl (QuestNotFound i), b)
   | Some q \<Rightarrow> if status q \<noteq> Todo then (Inl (NotTodo i (status q)), b)
               else update W i (\<lambda>_ t. t\<lparr>status := InProgress\<rparr>) b)"

definition release :: "string \<Rightarrow> QuestBoard \<Rightarrow> Quest outcome" where
  "release i b = (Inl ReleaseDeprecated, b)"

text \<open>The closure that closes a quest with a status, an outcome kind and a reason.\<close>

definition close_with ::
  "serde \<Rightarrow> QuestStatus \<Rightarrow> QuestOutcomeKind \<Rightarrow> string \<Rightarrow> datetime \<Rightarrow> Quest \<Rightarrow> Quest" where
  "close_with S st k why now q =
     set_quest_outcome S (outcome_new k why) (q\<lparr>status := st, closed_at := Some now\<rparr>)"

fun join :: "string \<Rightarrow> string list \<Rightarrow> string" where
  "join sep [] = []"
| "join sep [s] = s"
| "join sep (s # t # ss) = s @ sep @ join sep (t # ss)"

text \<open>\<open>"  {title} \<dots> {summary}"\<close>, with an em dash between.\<close>

definition child_summary :: "serde \<Rightarrow> string \<Rightarrow> Quest \<Rightarrow> string" where
  "child_summary S verb q =
     (let s = (case outcome_summary S q of Some x \<Rightarrow> x | None \<Rightarrow> verb);
          t = (if title q = [] then quest_id q else title q)
      in ''  '' @ t @ [CHR '' '', CHR 0xE2, CHR 0x80, CHR 0x94, CHR '' ''] @ s)"

definition cascade_reason :: "serde \<Rightarrow> string \<Rightarrow> nat \<Rightarrow> Quest list \<Rightarrow> string" where
  "cascade_reason S verb n cs =
     ''All '' @ show_nat n @ '' steps '' @ verb @ '':'' @ [CHR 0x0A] @
     join [CHR 0x0A] (map (child_summary S verb) cs)"

text \<open>The children are listed by id and looked up again.\<close>

definition lookup_children :: "QuestId \<Rightarrow> QuestBoard \<Rightarrow> Quest option list" where
  "lookup_children p b = map (\<lambda>q. board_get (quest_id q) b) (children p b)"

definition is_some_and :: "('a \<Rightarrow> bool) \<Rightarrow> 'a option \<Rightarrow> bool" where
  "is_some_and P m = (case m of None \<Rightarrow> False | Some x \<Rightarrow> P x)"

definition cascade_verdict :: "Quest option list \<Rightarrow> QuestStatus \<times> QuestOutcomeKind \<times> string" where
  "cascade_verdict ms =
     (if list_all (is_some_and (\<lambda>q. status q = Cancelled)) ms
      then (Cancelled, OutcomeCancelled, ''cancelled'')
      else (Done, OutcomeDone, ''completed''))"

text \<open>The closure that closes a parent whose children are \<open>ms\<close>.\<close>

definition cascade_close :: "serde \<Rightarrow> Quest option list \<Rightarrow> datetime \<Rightarrow> Quest \<Rightarrow> Quest" where
  "cascade_close S ms = (case cascade_verdict ms of (st, k, verb) \<Rightarrow>
     close_with S st k (cascade_reason S verb (length ms) (List.map_filter (\<lambda>m. m) ms)))"

function cascade_parent_close :: "world \<Rightarrow> QuestId \<Rightarrow> QuestBoard \<Rightarrow> QuestBoard" where
  "cascade_parent_close W c b = (case parent c of
     None \<Rightarrow> b
   | Some p \<Rightarrow> (case board_get p b of
       None \<Rightarrow> b
     | Some pq \<Rightarrow>
         (let ms = lookup_children p b in
          if is_closed pq \<or> ms = [] \<or> \<not> list_all (is_some_and is_closed) ms then b
          else if checkpoints pq \<noteq> [] then snd (update W p (\<lambda>_ q. q\<lparr>status := Todo\<rparr>) b)
          else (case update W p (cascade_close (codec W) ms) b of
                  (Inl e, b') \<Rightarrow> b'
                | (Inr _, b') \<Rightarrow> cascade_parent_close W p b'))))"
  by pat_completeness auto

termination
  by (relation "measure (\<lambda>(W, c, b). length c)") (auto dest: parent_shorter)

declare cascade_parent_close.simps [simp del]

definition close :: "world \<Rightarrow> string \<Rightarrow> string \<Rightarrow> QuestBoard \<Rightarrow> Quest outcome" where
  "close W i why b = (case update W i (close_with (codec W) Done OutcomeDone why) b of
     (Inl e, b') \<Rightarrow> (Inl e, b')
   | (Inr q, b') \<Rightarrow> (Inr q, cascade_parent_close W (quest_id q) b'))"

definition cancel :: "world \<Rightarrow> string \<Rightarrow> string \<Rightarrow> QuestBoard \<Rightarrow> Quest outcome" where
  "cancel W i why b = update W i (close_with (codec W) Cancelled OutcomeCancelled why) b"

section \<open>Dependencies\<close>

text \<open>
  The search of \<open>would_cycle\<close>: \<open>visited\<close> as a list, the stack with its top first. A step
  either puts a stored quest among the visited ones or makes the stack shorter.
\<close>

definition deps_of :: "(string \<times> Quest) list \<Rightarrow> string \<Rightarrow> string list" where
  "deps_of qs n = (case map_of qs n of None \<Rightarrow> [] | Some q \<Rightarrow> depends_on q)"

definition unvisited :: "(string \<times> Quest) list \<Rightarrow> string list \<Rightarrow> nat" where
  "unvisited qs vs = card (fst ` set qs - set vs)"

lemma unvisited_less:
  "n \<in> fst ` set qs \<Longrightarrow> n \<notin> set vs \<Longrightarrow> unvisited qs (n # vs) < unvisited qs vs"
  unfolding unvisited_def by (rule psubset_card_mono) auto

lemma unvisited_same: "n \<notin> fst ` set qs \<Longrightarrow> unvisited qs (n # vs) = unvisited qs vs"
  unfolding unvisited_def by (rule arg_cong [where f = card]) auto

function cycle_search ::
  "(string \<times> Quest) list \<Rightarrow> string \<Rightarrow> string list \<Rightarrow> string list \<Rightarrow> bool" where
  "cycle_search qs i visited [] = False"
| "cycle_search qs i visited (node # stack) =
     (if node = i then True
      else if node \<in> set visited then cycle_search qs i visited stack
      else cycle_search qs i (node # visited) (rev (deps_of qs node) @ stack))"
  by pat_completeness auto

termination
proof (relation "measures [\<lambda>(qs, i, vs, st). unvisited qs vs, \<lambda>(qs, i, vs, st). length st]",
    goal_cases)
  case (3 qs i visited node stack)
  show ?case
  proof (cases "node \<in> fst ` set qs")
    case True
    then show ?thesis using unvisited_less 3(2) by simp
  next
    case False
    then have "map_of qs node = None" by (simp add: map_of_eq_None_iff)
    with False show ?thesis by (simp add: deps_of_def unvisited_same)
  qed
qed auto

definition would_cycle :: "string \<Rightarrow> string \<Rightarrow> QuestBoard \<Rightarrow> bool" where
  "would_cycle i dep b = cycle_search (quests b) i [] [dep]"

definition push_dep :: "QuestId \<Rightarrow> Quest \<Rightarrow> Quest" where
  "push_dep d q = (if d \<in> set (depends_on q) then q else q\<lparr>depends_on := depends_on q @ [d]\<rparr>)"

definition add_dependency :: "world \<Rightarrow> string \<Rightarrow> string \<Rightarrow> QuestBoard \<Rightarrow> unit outcome" where
  "add_dependency W i dep b =
     (if i = dep then (Inl (SelfDependency i), b)
      else if would_cycle i dep b then (Inl (CircularDependency i dep), b)
      else case update W i (\<lambda>_. push_dep dep) b of
             (Inl e, b') \<Rightarrow> (Inl e, b')
           | (Inr _, b') \<Rightarrow> (Inr (), b'))"

text \<open>\<open>apply_inferred_dependencies\<close>, over the suggested pairs (from, to).\<close>

fun apply_dependencies ::
  "world \<Rightarrow> (QuestId \<times> QuestId) list \<Rightarrow> nat \<Rightarrow> QuestBoard \<Rightarrow> nat \<times> QuestBoard" where
  "apply_dependencies W [] applied b = (applied, b)"
| "apply_dependencies W ((from, to) # ds) applied b =
     (if would_cycle from to b then apply_dependencies W ds applied b
      else case add_dependency W from to b of
             (Inl _, b') \<Rightarrow> apply_dependencies W ds applied b'
           | (Inr _, b') \<Rightarrow> apply_dependencies W ds (Suc applied) b')"

section \<open>Queries\<close>

definition resolved :: "QuestBoard \<Rightarrow> QuestId \<Rightarrow> bool" where
  "resolved b i = is_some_and is_closed (board_get i b)"

text \<open>The highest priority first, then the oldest.\<close>

definition rank :: "Quest \<Rightarrow> nat \<times> datetime" where
  "rank q = (3 - priority_num (priority q), created_at q)"

definition ready :: "QuestBoard \<Rightarrow> Quest list" where
  "ready b = sort_key rank
     (filter (\<lambda>q. is_ready (resolved b) q \<and> \<not> is_scheduler_held q) (map snd (quests b)))"

definition board_all :: "QuestBoard \<Rightarrow> Quest list" where
  "board_all b = sort_key created_at (map snd (quests b))"

definition by_agent :: "string \<Rightarrow> QuestBoard \<Rightarrow> Quest list" where
  "by_agent a b = filter (\<lambda>q. agent_id q = Some a \<and> \<not> is_closed q) (map snd (quests b))"

definition count_open :: "Quest \<Rightarrow> (string \<times> nat) list \<Rightarrow> (string \<times> nat) list" where
  "count_open q counts =
     (if is_closed q then counts
      else let p = id_prefix (quest_id q) in
        AList.update p (Suc (case map_of counts p of None \<Rightarrow> 0 | Some n \<Rightarrow> n)) counts)"

definition open_count_by_prefix :: "QuestBoard \<Rightarrow> (string \<times> nat) list" where
  "open_count_by_prefix b = fold count_open (map snd (quests b)) []"

definition board_len :: "QuestBoard \<Rightarrow> nat" where
  "board_len b = length (quests b)"

record QuestQuery =
  qq_prefix :: "string option"
  qq_status :: "QuestStatus option"
  qq_agent_id :: "string option"
  qq_label :: "string option"
  qq_min_priority :: "Priority option"
  include_closed :: bool

definition query_new :: QuestQuery where
  "query_new = \<lparr>qq_prefix = None, qq_status = None, qq_agent_id = None, qq_label = None,
     qq_min_priority = None, include_closed = False\<rparr>"

definition query_prefix :: "string \<Rightarrow> QuestQuery \<Rightarrow> QuestQuery" where
  "query_prefix p Q = Q\<lparr>qq_prefix := Some p\<rparr>"

definition query_status :: "QuestStatus \<Rightarrow> QuestQuery \<Rightarrow> QuestQuery" where
  "query_status s Q = Q\<lparr>qq_status := Some s\<rparr>"

definition query_agent_id :: "string \<Rightarrow> QuestQuery \<Rightarrow> QuestQuery" where
  "query_agent_id a Q = Q\<lparr>qq_agent_id := Some a\<rparr>"

definition query_label :: "string \<Rightarrow> QuestQuery \<Rightarrow> QuestQuery" where
  "query_label l Q = Q\<lparr>qq_label := Some l\<rparr>"

definition query_min_priority :: "Priority \<Rightarrow> QuestQuery \<Rightarrow> QuestQuery" where
  "query_min_priority p Q = Q\<lparr>qq_min_priority := Some p\<rparr>"

definition query_include_closed :: "QuestQuery \<Rightarrow> QuestQuery" where
  "query_include_closed Q = Q\<lparr>include_closed := True\<rparr>"

definition query_matches :: "QuestQuery \<Rightarrow> Quest \<Rightarrow> bool" where
  "query_matches Q q \<longleftrightarrow>
     (if \<not> include_closed Q \<and> is_closed q then False
      else if (case qq_prefix Q of None \<Rightarrow> False | Some p \<Rightarrow> id_prefix (quest_id q) \<noteq> p) then False
      else if (case qq_status Q of None \<Rightarrow> False | Some s \<Rightarrow> status q \<noteq> s) then False
      else if (case qq_agent_id Q of None \<Rightarrow> False | Some a \<Rightarrow> agent_id q \<noteq> Some a) then False
      else if (case qq_label Q of None \<Rightarrow> False | Some l \<Rightarrow> l \<notin> set (idea_tags q)) then False
      else if (case qq_min_priority Q of None \<Rightarrow> False | Some m \<Rightarrow> priority q < m) then False
      else True)"

definition query_execute :: "QuestQuery \<Rightarrow> QuestBoard \<Rightarrow> Quest list" where
  "query_execute Q b = sort_key rank (filter (query_matches Q) (board_all b))"

text \<open>A query lists exactly the matching quests, the highest priority first, then the oldest.\<close>

lemma query_execute_exact:
  "set (query_execute Q b) = {q \<in> snd ` set (quests b). query_matches Q q}"
  by (auto simp: query_execute_def board_all_def)

lemma rank_le:
  "rank p \<le> rank q \<longleftrightarrow> priority q < priority p \<or> (priority q = priority p \<and> created_at p \<le> created_at q)"
  by (cases "priority p"; cases "priority q") (auto simp: rank_def less_Priority_def)

lemma query_execute_ordered:
  "sorted_wrt (\<lambda>p q. priority q < priority p \<or> (priority q = priority p \<and> created_at p \<le> created_at q))
     (query_execute Q b)"
proof -
  have "sorted (map rank (query_execute Q b))" by (simp add: query_execute_def)
  then show ?thesis by (simp add: sorted_map rank_le)
qed

end
