(* ===== verification/Quests_Deps.thy ===== *)
theory Quests_Deps
  imports Quests_Board
begin

text \<open>
  What the store promises about its index: the search of \<open>would_cycle\<close> decides
  reachability, so the dependency graph stays acyclic under every operation, failed ones
  included; hence some quest is always ready while work is left. The operations are collected
  in the step relation \<open>board_op\<close>; the locale \<open>index_invariant\<close> reduces the
  preservation of an invariant of the index to the three ways in which an operation writes
  to it.
\<close>

section \<open>How operations write to the index\<close>

definition index_wf :: "(string \<times> Quest) list \<Rightarrow> bool" where
  "index_wf qs \<longleftrightarrow> distinct (map fst qs) \<and> (\<forall>(k, q)\<in>set qs. quest_id q = k)"

text \<open>A closure that neither renames its quest nor adds a dependency.\<close>

definition modest :: "(datetime \<Rightarrow> Quest \<Rightarrow> Quest) \<Rightarrow> bool" where
  "modest f \<longleftrightarrow> (\<forall>t q. quest_id (f t q) = quest_id q \<and> set (depends_on (f t q)) \<subseteq> set (depends_on q))"

lemma tock_sel [simp]:
  "files (tock b) = files b" "quests (tock b) = quests b" "sequences (tock b) = sequences b"
  "tick (tock b) = Suc (tick b)"
  by (simp_all add: tock_def)

lemma persist_keeps [simp]:
  "quests (snd (persist W q b)) = quests b"
  "sequences (snd (persist W q b)) = sequences b"
  by (simp_all add: persist_def Let_def split: option.splits io.splits)

lemma persist_same: "persist W q b = (r, b') \<Longrightarrow> quests b' = quests b \<and> sequences b' = sequences b"
  using persist_keeps [of W q b] by simp

lemma modestD:
  "modest f \<Longrightarrow> quest_id (f t q) = quest_id q"
  "modest f \<Longrightarrow> set (depends_on (f t q)) \<subseteq> set (depends_on q)"
  by (auto simp: modest_def)

lemma persist_insert_index:
  "quests (snd (persist_insert W q b)) = quests b \<or>
   quests (snd (persist_insert W q b)) = AList.update (quest_id q) q (quests b)"
  by (auto simp: persist_insert_def dest: persist_same split: prod.splits sum.splits)

text \<open>The quest that a creation makes.\<close>

definition new_root :: "world \<Rightarrow> string \<Rightarrow> string \<Rightarrow> string option \<Rightarrow> QuestBoard \<Rightarrow> Quest" where
  "new_root W p name agent b = with_agent (utc_now W (tick b)) (root p (next_seq p b)) name agent"

definition new_child :: "world \<Rightarrow> QuestId \<Rightarrow> string \<Rightarrow> QuestBoard \<Rightarrow> Quest" where
  "new_child W p name b =
     (quest_new (utc_now W (tick b)) (child p (of_nat (length (children p b)) + 1)) name)
       \<lparr>agent_id := Option.bind (board_get p b) agent_id, depends_on := []\<rparr>"

lemma create_eq:
  "create_with_agent W p name agent b = persist_insert W (new_root W p name agent b)
     (tock b\<lparr>sequences := AList.update p (next_seq p b) (sequences b)\<rparr>)"
  by (simp add: create_with_agent_def new_root_def Let_def)

lemma create_child_eq: "create_child W p name b = persist_insert W (new_child W p name b) (tock b)"
  by (simp add: create_child_def new_child_def Let_def)

lemma new_root_sel [simp]:
  "quest_id (new_root W p name agent b) = root p (next_seq p b)"
  "depends_on (new_root W p name agent b) = []"
  by (simp_all add: new_root_def with_agent_def)

lemma new_child_sel [simp]:
  "quest_id (new_child W p name b) = child p (of_nat (length (children p b)) + 1)"
  "depends_on (new_child W p name b) = []"
  by (simp_all add: new_child_def quest_new_def with_agent_def)

lemma update_index:
  "quests (snd (update W i f b)) = (case map_of (quests b) i of
     None \<Rightarrow> quests b
   | Some q \<Rightarrow> AList.update i
       ((f (utc_now W (tick b)) q)\<lparr>updated_at := Some (utc_now W (Suc (tick b)))\<rparr>) (quests b))"
proof (cases "map_of (quests b) i")
  case (Some q)
  let ?q = "(f (utc_now W (tick b)) q)\<lparr>updated_at := Some (utc_now W (Suc (tick b)))\<rparr>"
  let ?b = "tock (tock b)\<lparr>quests := AList.update i ?q (quests b)\<rparr>"
  have "quests (snd (persist W ?q ?b)) = AList.update i ?q (quests b)" by simp
  with Some show ?thesis
    by (auto simp: update_def board_get_def Let_def simp del: persist_keeps
        split: prod.splits sum.splits)
qed (simp add: update_def board_get_def)

lemma modest_closures:
  "modest (\<lambda>_ q. q\<lparr>status := s\<rparr>)" "modest (close_with S st k why)" "modest (cascade_close S ms)"
  by (auto simp: modest_def close_with_def cascade_close_def split: prod.splits)

section \<open>The operations as steps\<close>

text \<open>
  Each public operation, whatever its result. A root id is a fresh one until the sequence
  number of its prefix, an \<open>u32\<close>, wraps around.
\<close>

inductive board_op :: "world \<Rightarrow> QuestBoard \<Rightarrow> QuestBoard \<Rightarrow> bool" for W where
  op_create: "create_with_agent W p name agent b = (r, b') \<Longrightarrow> next_seq p b \<noteq> 0 \<Longrightarrow> board_op W b b'"
| op_child: "create_child W p name b = (r, b') \<Longrightarrow> board_op W b b'"
| op_update: "update W i f b = (r, b') \<Longrightarrow> modest f \<Longrightarrow> board_op W b b'"
| op_validated: "validated_update W i f b = (v, b') \<Longrightarrow> modest f \<Longrightarrow> board_op W b b'"
| op_checkout: "checkout W i worker b = (r, b') \<Longrightarrow> board_op W b b'"
| op_close: "close W i why b = (r, b') \<Longrightarrow> board_op W b b'"
| op_cancel: "cancel W i why b = (r, b') \<Longrightarrow> board_op W b b'"
| op_depend: "add_dependency W i dep b = (u, b') \<Longrightarrow> board_op W b b'"
| op_infer: "apply_dependencies W ds n b = (m, b') \<Longrightarrow> board_op W b b'"

text \<open>
  The three ways an operation writes to the index: a new quest without dependencies, a
  modest change of a stored quest, a dependency that closes no cycle.
\<close>

locale index_invariant =
  fixes I :: "(string \<times> Quest) list \<Rightarrow> bool"
  assumes new_quest: "I qs \<Longrightarrow> depends_on q = [] \<Longrightarrow> I (AList.update (quest_id q) q qs)"
    and changed_quest: "I qs \<Longrightarrow> map_of qs i = Some q \<Longrightarrow> quest_id q' = quest_id q \<Longrightarrow>
      set (depends_on q') \<subseteq> set (depends_on q) \<Longrightarrow> I (AList.update i q' qs)"
    and linked_quest: "I qs \<Longrightarrow> map_of qs i = Some q \<Longrightarrow> quest_id q' = quest_id q \<Longrightarrow>
      set (depends_on q') \<subseteq> insert d (set (depends_on q)) \<Longrightarrow> i \<noteq> d \<Longrightarrow>
      \<not> cycle_search qs i [] [d] \<Longrightarrow> I (AList.update i q' qs)"
begin

lemma insert_keeps:
  "I (quests b) \<Longrightarrow> depends_on q = [] \<Longrightarrow> I (quests (snd (persist_insert W q b)))"
  using persist_insert_index [of W q b] new_quest by auto

lemma update_keeps:
  assumes "I (quests b)" and "modest f"
  shows "I (quests (snd (update W i f b)))"
proof (cases "map_of (quests b) i")
  case (Some q)
  have "I (AList.update i ((f t q)\<lparr>updated_at := u\<rparr>) (quests b))" for t u
    by (rule changed_quest [OF assms(1) Some]) (simp_all add: modestD [OF assms(2)])
  with Some show ?thesis by (simp add: update_index)
qed (simp add: update_index assms(1))

lemma cascade_keeps: "I (quests b) \<Longrightarrow> I (quests (cascade_parent_close W c b))"
proof (induction W c b rule: cascade_parent_close.induct)
  case (1 W c b)
  have up: "I (quests (snd (update W p f b)))" if "modest f" for p f
    using update_keeps [OF 1(2) that] .
  show ?case
  proof (cases "parent c")
    case (Some p)
    note par = Some
    show ?thesis
    proof (cases "board_get p b")
      case (Some pq)
      obtain r b' where u: "update W p (cascade_close (codec W) (lookup_children p b)) b = (r, b')"
        by fastforce
      have "I (quests b')" using up [OF modest_closures(3), of p] u by (metis snd_conv)
      with 1 par Some u up [OF modest_closures(1)] show ?thesis
        by (subst cascade_parent_close.simps) (auto simp: Let_def split: sum.splits)
    qed (use 1 par in \<open>simp add: cascade_parent_close.simps\<close>)
  qed (use 1 in \<open>simp add: cascade_parent_close.simps\<close>)
qed

lemma add_dependency_keeps:
  assumes "I (quests b)"
  shows "I (quests (snd (add_dependency W i d b)))"
proof (cases "i = d \<or> would_cycle i d b")
  case False
  obtain r b' where u: "update W i (\<lambda>_. push_dep d) b = (r, b')" by fastforce
  have "I (quests b')"
  proof (cases "map_of (quests b) i")
    case None
    then show ?thesis using u assms by (metis option.case(1) snd_conv update_index)
  next
    case (Some q)
    have "I (quests (snd (update W i (\<lambda>_. push_dep d) b)))"
      unfolding update_index Some option.case
      by (rule linked_quest [OF assms Some, where d = d])
         (use False in \<open>auto simp: push_dep_def would_cycle_def\<close>)
    then show ?thesis using u by simp
  qed
  with False u show ?thesis by (auto simp: add_dependency_def split: sum.splits)
qed (auto simp: add_dependency_def assms)

lemma apply_dependencies_keeps:
  "I (quests b) \<Longrightarrow> I (quests (snd (apply_dependencies W ds n b)))"
proof (induction W ds n b rule: apply_dependencies.induct)
  case (2 W "from" to ds n b)
  obtain r b' where a: "add_dependency W from to b = (r, b')" by fastforce
  with add_dependency_keeps [OF 2(4)] have "I (quests b')" by (metis snd_conv)
  with 2 a show ?case by (auto split: sum.splits)
qed simp

lemma op_keeps: "board_op W b b' \<Longrightarrow> I (quests b) \<Longrightarrow> I (quests b')"
proof (induction rule: board_op.induct)
  case (op_create p name agent b r b')
  let ?b = "tock b\<lparr>sequences := AList.update p (next_seq p b) (sequences b)\<rparr>"
  show ?case using insert_keeps [of ?b "new_root W p name agent b" W] op_create
    by (simp add: create_eq)
next
  case (op_child p name b r b')
  then show ?case using insert_keeps [of "tock b" "new_child W p name b" W]
    by (simp add: create_child_eq)
next
  case (op_update i f b r b')
  then show ?case using update_keeps [of b f W i] by simp
next
  case (op_validated i f b v b')
  then show ?case using update_keeps [of b f W i]
    by (auto simp: validated_update_def split: option.splits prod.splits sum.splits)
next
  case (op_checkout i worker b r b')
  then show ?case using update_keeps [OF _ modest_closures(1), of b W i InProgress]
    by (auto simp: checkout_def split: option.splits if_splits)
next
  case (op_close i why b r b')
  then show ?case using update_keeps [OF _ modest_closures(2), of b W i] cascade_keeps
    by (auto simp: close_def split: prod.splits sum.splits) (metis snd_conv)+
next
  case (op_cancel i why b r b')
  then show ?case using update_keeps [OF _ modest_closures(2), of b W i]
    by (metis cancel_def snd_conv)
next
  case (op_depend i dep b u b')
  then show ?case using add_dependency_keeps [of b W i dep] by simp
next
  case (op_infer ds n b m b')
  then show ?case using apply_dependencies_keeps [of b W ds n] by simp
qed

lemma run_keeps: "(board_op W)\<^sup>*\<^sup>* b b' \<Longrightarrow> I (quests b) \<Longrightarrow> I (quests b')"
  by (induction rule: rtranclp_induct) (auto intro: op_keeps)

end

section \<open>The index is well formed\<close>

lemma map_of_index: "index_wf qs \<Longrightarrow> map_of qs i = Some q \<longleftrightarrow> (i, q) \<in> set qs"
  by (simp add: index_wf_def)

lemma index_id: "index_wf qs \<Longrightarrow> map_of qs i = Some q \<Longrightarrow> quest_id q = i"
  by (auto simp: index_wf_def)

lemma index_quest: "index_wf qs \<Longrightarrow> q \<in> snd ` set qs \<longleftrightarrow> map_of qs (quest_id q) = Some q"
  by (force simp: index_wf_def)

lemma index_wf_update: "index_wf qs \<Longrightarrow> quest_id q = i \<Longrightarrow> index_wf (AList.update i q qs)"
proof -
  assume wf: "index_wf qs" and i: "quest_id q = i"
  have "set (AList.update i q qs) \<subseteq> insert (i, q) (set qs)"
    by (induction qs) (auto split: if_splits)
  with wf i show ?thesis by (auto simp: index_wf_def distinct_update)
qed

interpretation wf_index: index_invariant index_wf
  by unfold_locales (auto intro: index_wf_update dest: index_id)

section \<open>The dependency graph\<close>

definition dep_edges :: "(string \<times> Quest) list \<Rightarrow> (string \<times> string) set" where
  "dep_edges qs = {(a, d). d \<in> set (deps_of qs a)}"

lemma deps_of_update:
  "deps_of (AList.update i q qs) a = (if a = i then depends_on q else deps_of qs a)"
  by (simp add: deps_of_def update_conv')

text \<open>What the search finds is reachable.\<close>

lemma cycle_search_sound:
  "cycle_search qs i vs st \<Longrightarrow> \<exists>s\<in>set st. (s, i) \<in> (dep_edges qs)\<^sup>*"
proof (induction qs i vs st rule: cycle_search.induct)
  case (2 qs i vs n st)
  have step: "(n, d) \<in> dep_edges qs" if "d \<in> set (deps_of qs n)" for d
    using that by (simp add: dep_edges_def)
  show ?case
  proof (cases "n = i \<or> n \<in> set vs")
    case False
    with 2 obtain s where "s \<in> set (deps_of qs n) \<union> set st" "(s, i) \<in> (dep_edges qs)\<^sup>*" by auto
    with step show ?thesis by (auto intro: converse_rtrancl_into_rtrancl)
  qed (use 2 in auto)
qed simp

text \<open>A search that finds nothing has covered a closed set without the target.\<close>

lemma cycle_search_complete:
  "\<not> cycle_search qs i vs st \<Longrightarrow> i \<notin> set vs \<Longrightarrow>
   (\<And>v. v \<in> set vs \<Longrightarrow> set (deps_of qs v) \<subseteq> set vs \<union> set st) \<Longrightarrow>
   \<exists>V. set vs \<union> set st \<subseteq> V \<and> i \<notin> V \<and> dep_edges qs `` V \<subseteq> V"
proof (induction qs i vs st rule: cycle_search.induct)
  case (1 qs i vs)
  then show ?case by (intro exI [of _ "set vs"]) (auto simp: dep_edges_def)
next
  case (2 qs i vs n st)
  then have n: "n \<noteq> i" by auto
  show ?case
  proof (cases "n \<in> set vs")
    case True
    have "set (deps_of qs v) \<subseteq> set vs \<union> set st" if "v \<in> set vs" for v
      using 2(5) [OF that] True by auto
    moreover have "\<not> cycle_search qs i vs st" using 2(3) n True by simp
    ultimately obtain V where "set vs \<union> set st \<subseteq> V" "i \<notin> V" "dep_edges qs `` V \<subseteq> V"
      using 2(1) [OF n True] 2(4) by blast
    with True show ?thesis by (intro exI [of _ V]) auto
  next
    case False
    have "set (deps_of qs v) \<subseteq> set (n # vs) \<union> set (rev (deps_of qs n) @ st)"
      if "v \<in> set (n # vs)" for v
      using 2(5) [of v] that by (cases "v = n") auto
    moreover have "\<not> cycle_search qs i (n # vs) (rev (deps_of qs n) @ st)" "i \<notin> set (n # vs)"
      using 2(3,4) n False by simp_all
    ultimately obtain V where "set (n # vs) \<union> set (rev (deps_of qs n) @ st) \<subseteq> V" "i \<notin> V"
      "dep_edges qs `` V \<subseteq> V" using 2(2) [OF n False] by blast
    then show ?thesis by (intro exI [of _ V]) simp
  qed
qed

lemma would_cycle_reach:
  "would_cycle i d b \<longleftrightarrow> (d, i) \<in> (dep_edges (quests b))\<^sup>*"
proof
  assume "would_cycle i d b"
  then show "(d, i) \<in> (dep_edges (quests b))\<^sup>*"
    using cycle_search_sound [of "quests b" i "[]" "[d]"] by (simp add: would_cycle_def)
next
  assume reach: "(d, i) \<in> (dep_edges (quests b))\<^sup>*"
  show "would_cycle i d b"
  proof (rule ccontr)
    assume "\<not> would_cycle i d b"
    from cycle_search_complete [OF this [unfolded would_cycle_def]]
    obtain V where V: "d \<in> V" "i \<notin> V" "dep_edges (quests b) `` V \<subseteq> V" by auto
    then have "i \<in> V" using reach Image_closed_trancl by blast
    with V show False by simp
  qed
qed

lemma acyclic_link:
  assumes "acyclic (dep_edges qs)" and "(d, i) \<notin> (dep_edges qs)\<^sup>*"
    and "set (depends_on q') \<subseteq> insert d (set (deps_of qs i))"
  shows "acyclic (dep_edges (AList.update i q' qs))"
proof -
  have "dep_edges (AList.update i q' qs) \<subseteq> insert (i, d) (dep_edges qs)"
    using assms(3) by (auto simp: dep_edges_def deps_of_update split: if_splits)
  moreover have "acyclic (insert (i, d) (dep_edges qs))" using assms(1,2) by (simp add: acyclic_insert)
  ultimately show ?thesis by (rule acyclic_subset [rotated])
qed

lemma acyclic_less:
  assumes "acyclic (dep_edges qs)" and "set (depends_on q') \<subseteq> set (deps_of qs i)"
  shows "acyclic (dep_edges (AList.update i q' qs))"
  by (rule acyclic_subset [OF assms(1)])
     (use assms(2) in \<open>auto simp: dep_edges_def deps_of_update split: if_splits\<close>)

interpretation acyclic_index: index_invariant "\<lambda>qs. acyclic (dep_edges qs)"
proof
  fix qs i d and q q' :: Quest
  assume "acyclic (dep_edges qs)" "map_of qs i = Some q" "\<not> cycle_search qs i [] [d]"
    and "set (depends_on q') \<subseteq> insert d (set (depends_on q))"
  then show "acyclic (dep_edges (AList.update i q' qs))"
    using would_cycle_reach [of i d "\<lparr>files = [], quests = qs, sequences = [], tick = 0\<rparr>"]
    by (intro acyclic_link [where d = d]) (auto simp: would_cycle_def deps_of_def)
next
  fix qs i and q q' :: Quest
  assume "acyclic (dep_edges qs)" "map_of qs i = Some q" "set (depends_on q') \<subseteq> set (depends_on q)"
  then show "acyclic (dep_edges (AList.update i q' qs))"
    by (intro acyclic_less) (simp_all add: deps_of_def)
qed (auto intro: acyclic_less)

lemma acyclic_empty_index: "acyclic (dep_edges [])"
  by (simp add: dep_edges_def deps_of_def acyclic_def)

section \<open>Fresh ids\<close>

lemma unat_of_nat_le: "unat (of_nat n :: 'a::len word) \<le> n"
  by (simp add: unat_of_nat take_bit_nat_less_eq_self)

text \<open>Every operation but the two creations keeps the ids and the sequence numbers.\<close>

definition same_ids :: "QuestBoard \<Rightarrow> QuestBoard \<Rightarrow> bool" where
  "same_ids b b' \<longleftrightarrow>
     dom (map_of (quests b')) = dom (map_of (quests b)) \<and> sequences b' = sequences b"

lemma same_ids_refl [simp]: "same_ids b b"
  by (simp add: same_ids_def)

lemma same_ids_trans: "same_ids a b \<Longrightarrow> same_ids b c \<Longrightarrow> same_ids a c"
  by (simp add: same_ids_def)

lemma update_sequences: "sequences (snd (update W i f b)) = sequences b"
  by (auto simp: update_def Let_def dest: persist_same split: option.splits prod.splits sum.splits)

lemma update_same_ids: "same_ids b (snd (update W i f b))"
  by (auto simp: same_ids_def update_sequences update_index update_conv' split: option.splits)

lemma update_same: "update W i f b = (r, b') \<Longrightarrow> same_ids b b'"
  using update_same_ids [of b W i f] by simp

lemma cascade_same_ids: "same_ids b (cascade_parent_close W c b)"
proof (induction W c b rule: cascade_parent_close.induct)
  case (1 W c b)
  show ?case
  proof (cases "\<exists>p pq. parent c = Some p \<and> board_get p b = Some pq")
    case True
    then obtain p pq where p: "parent c = Some p" "board_get p b = Some pq" by blast
    obtain r b' where u: "update W p (cascade_close (codec W) (lookup_children p b)) b = (r, b')"
      by fastforce
    show ?thesis using 1 [OF p refl] p u update_same [OF u] update_same_ids [of b W p]
      by (subst cascade_parent_close.simps)
         (auto simp: Let_def split: sum.splits intro: same_ids_trans)
  qed (auto simp: cascade_parent_close.simps [of W c b] split: option.splits)
qed

lemma add_dependency_same: "add_dependency W i d b = (r, b') \<Longrightarrow> same_ids b b'"
  by (auto simp: add_dependency_def dest: update_same split: if_splits prod.splits sum.splits)

lemma apply_dependencies_same: "apply_dependencies W ds n b = (m, b') \<Longrightarrow> same_ids b b'"
proof (induction W ds n b rule: apply_dependencies.induct)
  case (2 W "from" to ds n b)
  obtain r b1 where a: "add_dependency W from to b = (r, b1)" by fastforce
  with 2 add_dependency_same [OF a] show ?case
    by (auto split: if_splits sum.splits intro: same_ids_trans)
qed simp

lemma board_op_ids:
  assumes "board_op W b b'"
  obtains "same_ids b b'"
  | p name agent where "b' = snd (create_with_agent W p name agent b)" "next_seq p b \<noteq> 0"
  | p name where "b' = snd (create_child W p name b)"
  using assms
proof (cases rule: board_op.cases)
  case (op_create p name agent r)
  then show ?thesis using that(2) [of p name agent] by simp
next
  case (op_child p name r)
  then show ?thesis using that(3) [of p name] by simp
next
  case (op_validated i f v)
  then have "same_ids b b'"
    by (auto simp: validated_update_def dest: update_same split: option.splits prod.splits sum.splits)
  then show ?thesis by (rule that(1))
next
  case (op_checkout i worker r)
  then have "same_ids b b'"
    by (auto simp: checkout_def dest: update_same split: option.splits if_splits)
  then show ?thesis by (rule that(1))
next
  case (op_close i why r)
  then have "same_ids b b'"
    by (auto simp: close_def dest!: update_same split: prod.splits sum.splits
        intro: same_ids_trans cascade_same_ids)
  then show ?thesis by (rule that(1))
qed (auto intro: that(1) dest: update_same add_dependency_same apply_dependencies_same
      simp: cancel_def)

text \<open>An id ends in its number: the digits after the last character that is not one.\<close>

lemma digit_suffix:
  assumes "a @ c # ds = b @ d # es" and "list_all is_digit ds" "list_all is_digit es"
    and "\<not> is_digit c" "\<not> is_digit d"
  shows "a = b \<and> c = d \<and> ds = es"
proof -
  have tw: "takeWhile is_digit (rev (x @ y # zs)) = rev zs"
    if "list_all is_digit zs" "\<not> is_digit y" for x y zs
    using that by (simp add: takeWhile_append2 takeWhile_append list_all_iff)
  have "rev ds = rev es"
    using tw [OF assms(2,4), of a] tw [OF assms(3,5), of b] assms(1) by simp
  with assms(1) show ?thesis by auto
qed

lemma sep_not_digit: "\<not> is_digit CHR ''-''" "\<not> is_digit CHR ''.''"
  by (simp_all add: is_digit_def)

lemma root_eq: "root p m = root p' n \<longleftrightarrow> p = p' \<and> m = n"
proof
  assume "root p m = root p' n"
  then have "p = p'"
    using digit_suffix [OF _ show_pad3_digits show_pad3_digits sep_not_digit(1) sep_not_digit(1)]
    by (simp add: root_def)
  with \<open>root p m = root p' n\<close> show "p = p' \<and> m = n" by (simp add: root_inj)
qed simp

lemma root_not_child: "root p m \<noteq> child i n"
proof
  assume "root p m = child i n"
  then show False
    using digit_suffix [OF _ show_pad3_digits show_nat_digits sep_not_digit(1) sep_not_digit(2)]
    by (simp add: root_def child_def)
qed

text \<open>The numbers in use: a root's is at most its prefix's, a child's at most their count.\<close>

definition seq_of :: "string \<Rightarrow> QuestBoard \<Rightarrow> u32" where
  "seq_of p b = (case map_of (sequences b) p of None \<Rightarrow> 0 | Some n \<Rightarrow> n)"

definition child_ids :: "QuestId \<Rightarrow> QuestBoard \<Rightarrow> string set" where
  "child_ids p b = {k \<in> dom (map_of (quests b)). parent k = Some p}"

definition roots_counted :: "(string \<Rightarrow> bool) \<Rightarrow> QuestBoard \<Rightarrow> bool" where
  "roots_counted P b \<longleftrightarrow>
     (\<forall>p n. P p \<longrightarrow> root p n \<in> dom (map_of (quests b)) \<longrightarrow> n \<le> seq_of p b)"

definition children_counted :: "QuestBoard \<Rightarrow> bool" where
  "children_counted b \<longleftrightarrow>
     (\<forall>p n. child p n \<in> dom (map_of (quests b)) \<longrightarrow> unat n \<le> card (child_ids p b))"

lemma child_ids_finite [simp]: "finite (child_ids p b)"
  by (simp add: child_ids_def finite_dom_map_of)

lemma children_count:
  assumes "index_wf (quests b)"
  shows "length (children p b) = card (child_ids p b)"
proof -
  have d: "distinct (map fst (quests b))" and i: "\<forall>x\<in>set (quests b). quest_id (snd x) = fst x"
    using assms by (auto simp: index_wf_def)
  have "map quest_id (children p b) = filter (\<lambda>k. parent k = Some p) (map fst (quests b))"
    using i by (simp add: children_def filter_map o_def cong: filter_cong map_cong)
  moreover have "set (filter (\<lambda>k. parent k = Some p) (map fst (quests b))) = child_ids p b"
    by (auto simp: child_ids_def dom_map_of_conv_image_fst)
  ultimately show ?thesis using d by (metis distinct_card distinct_filter length_map)
qed

lemma counted_same:
  "roots_counted P b \<Longrightarrow> same_ids b b' \<Longrightarrow> roots_counted P b'"
  "children_counted b \<Longrightarrow> same_ids b b' \<Longrightarrow> children_counted b'"
  by (simp_all add: roots_counted_def children_counted_def same_ids_def seq_of_def child_ids_def)

lemma child_ids_mono:
  "dom (map_of (quests b)) \<subseteq> dom (map_of (quests b')) \<Longrightarrow> card (child_ids p b) \<le> card (child_ids p b')"
  by (rule card_mono [OF child_ids_finite]) (auto simp: child_ids_def)

lemma persist_insert_dom:
  "dom (map_of (quests (snd (persist_insert W q b)))) = dom (map_of (quests b)) \<or>
   dom (map_of (quests (snd (persist_insert W q b)))) = insert (quest_id q) (dom (map_of (quests b)))"
  using persist_insert_index [of W q b]
  by (elim disjE) (simp_all only: update_conv' dom_fun_upd option.distinct if_False simp_thms)

lemma persist_insert_result: "persist_insert W q b = (Inr x, b') \<Longrightarrow> x = q"
  by (auto simp: persist_insert_def split: prod.splits sum.splits)

lemma persist_insert_sequences: "sequences (snd (persist_insert W q b)) = sequences b"
  by (auto simp: persist_insert_def dest: persist_same split: prod.splits sum.splits)

lemma create_dom:
  "dom (map_of (quests (snd (create_with_agent W p name agent b)))) \<in>
     {dom (map_of (quests b)), insert (root p (next_seq p b)) (dom (map_of (quests b)))}"
  using persist_insert_dom [of W "new_root W p name agent b"
      "tock b\<lparr>sequences := AList.update p (next_seq p b) (sequences b)\<rparr>"]
  by (simp add: create_eq)

lemma create_child_dom:
  "dom (map_of (quests (snd (create_child W p name b)))) \<in>
     {dom (map_of (quests b)),
      insert (child p (of_nat (length (children p b)) + 1)) (dom (map_of (quests b)))}"
  using persist_insert_dom [of W "new_child W p name b" "tock b"] by (simp add: create_child_eq)

lemma next_seq_greater: "next_seq p b \<noteq> 0 \<Longrightarrow> seq_of p b < next_seq p b"
  using unatSuc [of "seq_of p b"]
  by (simp add: next_seq_def seq_of_def [symmetric] word_less_nat_alt add.commute)

lemma roots_counted_create:
  assumes "roots_counted P b" and "next_seq p b \<noteq> 0"
  shows "roots_counted P (snd (create_with_agent W p name agent b))"
    (is "roots_counted P ?b'")
  unfolding roots_counted_def
proof (intro allI impI)
  fix p' n
  assume P: "P p'" and dom: "root p' n \<in> dom (map_of (quests ?b'))"
  have seq: "seq_of p' ?b' = (if p' = p then next_seq p b else seq_of p' b)"
    by (simp add: seq_of_def create_eq persist_insert_sequences update_conv')
  show "n \<le> seq_of p' ?b'"
  proof (cases "root p' n \<in> dom (map_of (quests b))")
    case True
    then have "n \<le> seq_of p' b" using P assms(1) unfolding roots_counted_def by blast
    with next_seq_greater [OF assms(2)] show ?thesis unfolding seq by (auto intro: order_trans)
  next
    case False
    with dom create_dom [of W p name agent b] have "root p' n = root p (next_seq p b)"
      by (metis insert_iff singletonD)
    then show ?thesis unfolding seq by (simp add: root_eq)
  qed
qed

lemma roots_counted_child:
  assumes "roots_counted P b"
  shows "roots_counted P (snd (create_child W p name b))"
proof -
  have "seq_of p' (snd (create_child W p name b)) = seq_of p' b" for p'
    by (simp add: seq_of_def create_child_eq persist_insert_sequences)
  with assms create_child_dom [of W p name b] root_not_child show ?thesis
    unfolding roots_counted_def by (metis insert_iff singletonD)
qed

lemma children_counted_create:
  assumes "children_counted b"
  shows "children_counted (snd (create_with_agent W p name agent b))"
    (is "children_counted ?b'")
  unfolding children_counted_def
proof (intro allI impI)
  fix p' n
  assume "child p' n \<in> dom (map_of (quests ?b'))"
  then have "child p' n \<in> dom (map_of (quests b))"
    using create_dom [of W p name agent b] root_not_child [of p "next_seq p b" p' n]
    by (metis insert_iff singletonD)
  moreover have "dom (map_of (quests b)) \<subseteq> dom (map_of (quests ?b'))"
    using create_dom [of W p name agent b] by blast
  ultimately show "unat n \<le> card (child_ids p' ?b')"
    using assms child_ids_mono by (meson children_counted_def order_trans)
qed

lemma children_counted_child:
  assumes "children_counted b" and "index_wf (quests b)"
  shows "children_counted (snd (create_child W p name b))"
    (is "children_counted ?b'")
proof -
  let ?n = "of_nat (length (children p b)) + 1 :: u32"
  let ?D = "dom (map_of (quests b))" and ?D' = "dom (map_of (quests ?b'))"
  have D: "?D' = ?D \<or> ?D' = insert (child p ?n) ?D" using create_child_dom [of W p name b] by blast
  have mono: "card (child_ids p' b) \<le> card (child_ids p' ?b')" for p'
    using D by (intro child_ids_mono) auto
  have new: "unat ?n \<le> card (child_ids p ?b')" if "child p ?n \<notin> ?D" "child p ?n \<in> ?D'"
  proof -
    have "child_ids p ?b' = insert (child p ?n) (child_ids p b)"
      using that D by (auto simp: child_ids_def)
    then have "card (child_ids p ?b') = Suc (length (children p b))"
      using that(1) child_ids_finite [of p b]
      by (simp add: children_count [OF assms(2)] card_insert_if)
         (simp add: child_ids_def)
    moreover have "unat ?n \<le> Suc (length (children p b))"
      using unat_of_nat_le [of "Suc (length (children p b))", where 'a = 32]
      by (simp add: add.commute)
    ultimately show ?thesis by simp
  qed
  have "unat n \<le> card (child_ids p' ?b')" if "child p' n \<in> ?D'" for p' n
  proof (cases "child p' n \<in> ?D")
    case True
    then show ?thesis using assms(1) mono [of p'] by (meson children_counted_def order_trans)
  next
    case False
    with that D have "child p' n = child p ?n" by auto
    then have "p' = p" "n = ?n" by (simp_all add: child_inj)
    with new False that show ?thesis by simp
  qed
  then show ?thesis by (simp add: children_counted_def)
qed

lemma op_roots_counted:
  assumes "board_op W b b'" and "roots_counted P b"
  shows "roots_counted P b'"
  using assms(1)
  by (cases rule: board_op_ids)
     (use assms(2) in \<open>auto intro: counted_same roots_counted_create roots_counted_child\<close>)

lemma op_children_counted:
  assumes "board_op W b b'" and "children_counted b" and "index_wf (quests b)"
  shows "children_counted b'"
  using assms(1)
  by (cases rule: board_op_ids)
     (use assms(2,3) in \<open>auto intro: counted_same children_counted_create children_counted_child\<close>)

lemma run_roots_counted: "(board_op W)\<^sup>*\<^sup>* b b' \<Longrightarrow> roots_counted P b \<Longrightarrow> roots_counted P b'"
  by (induction rule: rtranclp_induct) (auto intro: op_roots_counted)

lemma run_children_counted:
  assumes "(board_op W)\<^sup>*\<^sup>* b b'" and "children_counted b" and "index_wf (quests b)"
  shows "children_counted b'"
  using assms(1)
proof (induction rule: rtranclp_induct)
  case (step y z)
  then show ?case using op_children_counted wf_index.run_keeps [OF step(1) assms(3)] by simp
qed (use assms in simp)

lemma root_is_new:
  assumes "roots_counted P b" and "P p" and "next_seq p b \<noteq> 0"
  shows "board_get (root p (next_seq p b)) b = None"
  using assms next_seq_greater [OF assms(3)]
  unfolding roots_counted_def board_get_def by (meson domIff leD)

lemma empty_board: "board_open W [] = (r, b) \<Longrightarrow> quests b = [] \<and> sequences b = [] \<and> files b = []"
  by (auto simp: board_open_def load_all_def dir_entries_def Let_def split: if_splits)

section \<open>Progress\<close>

lemma finite_dep_edges: "finite (dep_edges qs)"
proof -
  have "a \<in> fst ` set qs" if "d \<in> set (deps_of qs a)" for a d
    using that map_of_eq_None_iff [of qs a] by (auto simp: deps_of_def)
  then have "dep_edges qs \<subseteq> (SIGMA a : fst ` set qs. set (deps_of qs a))"
    by (auto simp: dep_edges_def)
  then show ?thesis by (rule finite_subset) auto
qed

text \<open>Some open quest depends on closed quests only.\<close>

lemma minimal_open:
  assumes "acyclic (dep_edges (quests b))" and "board_get j b = Some q" "\<not> is_closed q"
    and stored: "\<And>i r d. board_get i b = Some r \<Longrightarrow> d \<in> set (depends_on r) \<Longrightarrow> board_get d b \<noteq> None"
  obtains i r where "board_get i b = Some r" "\<not> is_closed r" "list_all (resolved b) (depends_on r)"
proof -
  let ?open = "{i. \<exists>r. board_get i b = Some r \<and> \<not> is_closed r}"
  have "wf ((dep_edges (quests b))\<inverse>)"
    using finite_dep_edges assms(1) by (rule finite_acyclic_wf_converse)
  moreover have "j \<in> ?open" using assms(2,3) by simp
  ultimately obtain i where i: "i \<in> ?open" "\<And>d. (d, i) \<in> (dep_edges (quests b))\<inverse> \<Longrightarrow> d \<notin> ?open"
    by (metis (no_types, lifting) wf_eq_minimal)
  from i(1) obtain r where r: "board_get i b = Some r" "\<not> is_closed r" by auto
  have "resolved b d" if "d \<in> set (depends_on r)" for d
  proof -
    have "(i, d) \<in> dep_edges (quests b)"
      using that r(1) by (simp add: dep_edges_def deps_of_def board_get_def)
    with i(2) have "d \<notin> ?open" by auto
    with stored [OF r(1) that] show ?thesis by (auto simp: resolved_def is_some_and_def)
  qed
  with r that show thesis by (simp add: list_all_iff)
qed

lemma ready_set:
  "set (ready b) = {q \<in> snd ` set (quests b). is_ready (resolved b) q \<and> \<not> is_scheduler_held q}"
  by (auto simp: ready_def)

section \<open>A concrete world\<close>

text \<open>
  For evaluating the model: every file operation succeeds, the clock counts the interactions,
  and a quest is written as its id and status; \<open>from_str\<close> looks a line up among the lines
  of the given quests.
\<close>

definition demo_line :: "Quest \<Rightarrow> string" where
  "demo_line q = ''{'' @ quest_id q @ '' '' @ show_status (status q) @ ''}''"

definition demo_world :: "Quest list \<Rightarrow> world" where
  "demo_world known =
     \<lparr>codec = \<lparr>to_string = \<lambda>q. Some (demo_line q),
                from_str = map_of (map (\<lambda>q. (demo_line q, q)) known),
                to_value = \<lambda>r. Some (JString (summary r)),
                from_value = \<lambda>v. None\<rparr>,
      utc_now = int, append_io = \<lambda>_. IoOk, write_io = \<lambda>_. IoOk,
      read_io = \<lambda>_. True, dir_io = \<lambda>_. True\<rparr>"

definition demo0 :: QuestBoard where
  "demo0 = snd (board_open (demo_world []) [])"

definition demo1 :: QuestBoard where
  "demo1 = snd (create_with_agent (demo_world []) ''as'' ''Epic'' None demo0)"

definition demo2 :: QuestBoard where
  "demo2 = snd (create_with_agent (demo_world []) ''as'' ''Fix'' None demo1)"

definition demo3 :: QuestBoard where
  "demo3 = snd (add_dependency (demo_world []) ''as-002'' ''as-001'' demo2)"

lemma demo_op_create:
  "next_seq p b \<noteq> 0 \<Longrightarrow> board_op W b (snd (create_with_agent W p name agent b))"
  by (rule op_create [of _ p name agent b "fst (create_with_agent W p name agent b)"]) simp_all

lemma demo_op_depend: "board_op W b (snd (add_dependency W i d b))"
  by (rule op_depend [of _ i d b "fst (add_dependency W i d b)"]) simp

lemma demo_run: "(board_op (demo_world []))\<^sup>*\<^sup>* demo0 demo3"
proof -
  have "board_op (demo_world []) demo0 demo1"
    unfolding demo1_def by (rule demo_op_create) code_simp
  moreover have "board_op (demo_world []) demo1 demo2"
    unfolding demo2_def by (rule demo_op_create) code_simp
  moreover have "board_op (demo_world []) demo2 demo3"
    unfolding demo3_def by (rule demo_op_depend)
  ultimately show ?thesis by (meson converse_rtranclp_into_rtranclp rtranclp.rtrancl_refl)
qed

lemma demo_opened: "board_open (demo_world []) [] = (Inr (), demo0)"
  unfolding demo0_def by code_simp

section \<open>Properties\<close>

text \<open>C17. The depth-first search of \<open>would_cycle\<close> terminates on every board, cyclic or not,
  and answers true exactly when the quest is reachable from the proposed dependency along
  \<open>depends_on\<close> edges, that is when adding the dependency would close a cycle.\<close>

theorem would_cycle_decides:
  "would_cycle i d b \<longleftrightarrow> (d, i) \<in> (dep_edges (quests b))\<^sup>*"
  by (rule would_cycle_reach)

text \<open>C18. On a board opened on an empty directory, the dependency graph is acyclic after any
  sequence of the store's operations: creations, updates that add no dependency, checkouts,
  closes with their cascade, cancellations, explicit and inferred dependencies, whether or not
  the file operations succeed.\<close>

theorem board_deps_acyclic:
  assumes "board_open W [] = (r, b0)" and "(board_op W)\<^sup>*\<^sup>* b0 b"
  shows "acyclic (dep_edges (quests b))"
proof -
  have "acyclic (dep_edges (quests b0))"
    using empty_board [OF assms(1)] acyclic_empty_index by simp
  then show ?thesis by (rule acyclic_index.run_keeps [OF assms(2)])
qed

theorem board_deps_acyclic_witness: "acyclic (dep_edges (quests demo3))"
  by (rule board_deps_acyclic [OF demo_opened demo_run])

text \<open>The scheduler never starves on such a board. When a quest is open, every dependency
  is a stored quest, no quest is being worked on or reviewed, and none is on hold, then
  \<open>ready\<close> is not empty.\<close>

theorem ready_makes_progress:
  assumes "board_open W [] = (r, b0)" and "(board_op W)\<^sup>*\<^sup>* b0 b"
    and "board_get j b = Some q" "\<not> is_closed q"
    and "\<And>i q. board_get i b = Some q \<Longrightarrow>
           status q \<notin> {InProgress, InReview} \<and> \<not> is_scheduler_held q \<and>
           (\<forall>d\<in>set (depends_on q). board_get d b \<noteq> None)"
  shows "ready b \<noteq> []"
proof -
  have "acyclic (dep_edges (quests b))"
    using empty_board [OF assms(1)] acyclic_empty_index
    by (intro acyclic_index.run_keeps [OF assms(2)]) simp
  then obtain i q' where q': "board_get i b = Some q'" "\<not> is_closed q'"
    "list_all (resolved b) (depends_on q')"
    by (rule minimal_open [OF _ assms(3,4)]) (use assms(5) in blast)+
  then have "q' \<in> set (ready b)"
    using assms(5) [OF q'(1)]
    by (cases "status q'") (auto simp: ready_set is_ready_def is_closed_def board_get_def
        dest: map_of_SomeD intro: rev_image_eqI)
  then show ?thesis by auto
qed

theorem ready_makes_progress_witness: "ready demo3 \<noteq> []"
proof (rule ready_makes_progress [OF demo_opened demo_run])
  show "board_get ''as-002'' demo3 = Some (the (board_get ''as-002'' demo3))" by code_simp
  show "\<not> is_closed (the (board_get ''as-002'' demo3))" by code_simp
next
  fix i q
  assume q: "board_get i demo3 = Some q"
  have "\<forall>q\<in>snd ` set (quests demo3). status q \<notin> {InProgress, InReview} \<and>
     \<not> is_scheduler_held q \<and> (\<forall>d\<in>set (depends_on q). board_get d demo3 \<noteq> None)" by code_simp
  then show "status q \<notin> {InProgress, InReview} \<and> \<not> is_scheduler_held q \<and>
     (\<forall>d\<in>set (depends_on q). board_get d demo3 \<noteq> None)"
    using q by (metis board_get_def image_eqI map_of_SomeD snd_conv)
qed

text \<open>A created quest never replaces another one: on a board reached from an empty
  directory, the id that \<open>create_with_agent\<close> makes (while the sequence number of the prefix
  does not wrap) or \<open>create_child\<close> makes (with fewer than \<open>u32::MAX\<close> siblings) names no
  stored quest.\<close>

theorem created_quest_is_new:
  assumes "board_open W [] = (r, b0)" and "(board_op W)\<^sup>*\<^sup>* b0 b"
    and "(create_with_agent W p name agent b = (Inr q, b') \<and> next_seq p b \<noteq> 0) \<or>
         (create_child W p name b = (Inr q, b') \<and> length (children p b) < 2 ^ 32 - 1)"
  shows "board_get (quest_id q) b = None"
proof -
  have wf: "index_wf (quests b)"
    using empty_board [OF assms(1)]
    by (intro wf_index.run_keeps [OF assms(2)]) (simp add: index_wf_def)
  have roots: "roots_counted (\<lambda>_. True) b"
    by (rule run_roots_counted [OF assms(2)])
       (simp add: roots_counted_def empty_board [OF assms(1)])
  have kids: "children_counted b"
    by (rule run_children_counted [OF assms(2)])
       (simp_all add: children_counted_def index_wf_def empty_board [OF assms(1)])
  from assms(3) show ?thesis
  proof (elim disjE conjE)
    assume c: "create_with_agent W p name agent b = (Inr q, b')" "next_seq p b \<noteq> 0"
    have "q = new_root W p name agent b"
      using c(1) unfolding create_eq by (rule persist_insert_result)
    then show ?thesis using root_is_new [OF roots TrueI c(2)] by simp
  next
    assume c: "create_child W p name b = (Inr q, b')" "length (children p b) < 2 ^ 32 - 1"
    let ?n = "of_nat (length (children p b)) + 1 :: u32"
    have "?n = of_nat (Suc (length (children p b)))" by simp
    moreover have "Suc (length (children p b)) < 2 ^ LENGTH(32)" using c(2) by simp
    ultimately have "unat ?n = Suc (length (children p b))" by (metis unat_of_nat_small)
    then have "card (child_ids p b) < unat ?n" by (simp add: children_count [OF wf])
    with kids have "child p ?n \<notin> dom (map_of (quests b))"
      unfolding children_counted_def by (meson leD)
    moreover have "q = new_child W p name b"
      using c(1) unfolding create_child_eq by (rule persist_insert_result)
    ultimately show ?thesis by (auto simp: board_get_def)
  qed
qed

theorem created_quest_is_new_witness: "board_get ''as-001.1'' demo3 = None"
proof -
  let ?c = "create_child (demo_world []) ''as-001'' ''Step'' demo3"
  have "fst ?c = Inr (new_child (demo_world []) ''as-001'' ''Step'' demo3)" by code_simp
  then have "?c = (Inr (new_child (demo_world []) ''as-001'' ''Step'' demo3), snd ?c)"
    by (metis prod.collapse)
  moreover have "children ''as-001'' demo3 = []" by code_simp
  ultimately have "board_get (quest_id (new_child (demo_world []) ''as-001'' ''Step'' demo3)) demo3 = None"
    by (intro created_quest_is_new [OF demo_opened demo_run, of "''as-001''" "''Step''" None _ "snd ?c"])
       simp
  moreover have "quest_id (new_child (demo_world []) ''as-001'' ''Step'' demo3) = ''as-001.1''"
    by code_simp
  ultimately show ?thesis by simp
qed

end
