(* ===== verification/Quest_Registry_Ids.thy ===== *)
theory Quest_Registry_Ids
  imports Quest_Dispatch_Account Quests_Deps
begin

text \<open>
  The ids of new quests. A root id takes the next number of its prefix; a child id takes the number
  of the rows that \<open>LIKE\<close> finds below the parent, plus one. Neither meets an id in the table when
  it is computed. The row is inserted in a later section: a root id is still free then, a child id
  may have been taken by another creation under the same parent.
\<close>

section \<open>Patterns\<close>

lemma like_percent: "like q t \<Longrightarrow> like (CHR ''%'' # q) t"
  by (cases t) simp_all

lemma like_Cons: "like q t \<Longrightarrow> like (c # q) (c # t)"
  by (simp add: like_percent)

lemma like_all: "like ''%'' s"
  by (induction s) simp_all

lemma like_below: "like (p @ ''.%'') (p @ ''.'' @ s)"
proof (induction p)
  case Nil
  then show ?case using like_Cons [OF like_all [of s], of "CHR ''.''"] by (simp del: like.simps)
next
  case (Cons c p)
  then show ?case using like_Cons [of _ _ c] by (simp del: like.simps)
qed

section \<open>Numbered rails\<close>

definition next_seq_of :: "string \<Rightarrow> quest_db \<Rightarrow> int" where
  "next_seq_of pre d = (case map_of (quest_sequences d) pre of None \<Rightarrow> 1 | Some n \<Rightarrow> n)"

text \<open>The ids of the table and of the rows on their way into it.\<close>

definition all_ids :: "rail \<Rightarrow> QuestId list" where
  "all_ids R = map qr_id (quest_rows (reg R)) @ map qr_id (inserting R)"

abbreviation pending_ids :: "rail \<Rightarrow> QuestId set" where
  "pending_ids R \<equiv> qr_id ` set (inserting R)"

definition numbered :: "rail \<Rightarrow> bool" where
  "numbered R \<longleftrightarrow>
     (\<forall>p n. count_list (all_ids R) (root p n) \<le> (if uint n < next_seq_of p (reg R) then 1 else 0)) \<and>
     (\<forall>p k. child p k \<in> quest_ids R \<longrightarrow> unat k \<le> child_count p (reg R)) \<and>
     (\<forall>p k. child p k \<in> pending_ids R \<longrightarrow> unat k \<le> child_count p (reg R) + 1) \<and>
     (\<forall>i\<in>pending_ids R. \<exists>p. (\<exists>n. i = root p n) \<or> (\<exists>k. i = child p k))"

lemma numberedD:
  assumes "numbered R"
  shows "\<And>p n. count_list (all_ids R) (root p n) \<le> (if uint n < next_seq_of p (reg R) then 1 else 0)"
    "\<And>p k. child p k \<in> quest_ids R \<Longrightarrow> unat k \<le> child_count p (reg R)"
    "\<And>p k. child p k \<in> pending_ids R \<Longrightarrow> unat k \<le> child_count p (reg R) + 1"
    "\<And>i. i \<in> pending_ids R \<Longrightarrow> \<exists>p. (\<exists>n. i = root p n) \<or> (\<exists>k. i = child p k)"
  using assms unfolding numbered_def by blast+

lemma fresh_numbered: "numbered (fresh_rail ags aw)"
  by (simp add: numbered_def all_ids_def fresh_rail_def)

lemma child_count_ids: "child_count p d = length (filter (like (p @ ''.%'')) (map qr_id (quest_rows d)))"
  by (simp add: child_count_def filter_map o_def)

lemma child_count_le: "child_count p d \<le> length (quest_rows d)"
  by (simp add: child_count_def)

text \<open>The ids of the table stay, the sequences only rise, and no id is on its way that was not.\<close>

lemma numbered_keep:
  assumes "numbered R" "map qr_id (quest_rows (reg R')) = map qr_id (quest_rows (reg R))"
    and "\<And>p. next_seq_of p (reg R) \<le> next_seq_of p (reg R')" "inserting R' = inserting R \<or> inserting R' = []"
  shows "numbered R'"
proof -
  note N = numberedD [OF assms(1)]
  have c: "child_count p (reg R') = child_count p (reg R)" for p using assms(2) by (simp add: child_count_ids)
  have q: "quest_ids R' = quest_ids R" using assms(2) by (metis set_map)
  have le: "count_list (all_ids R') i \<le> count_list (all_ids R) i" for i
    using assms(2,4) by (auto simp: all_ids_def count_list_append)
  have "count_list (all_ids R') (root p n) \<le> (if uint n < next_seq_of p (reg R') then 1 else 0)" for p n
    using N(1) [of p n] le [of "root p n"] assms(3) [of p] by (auto split: if_splits)
  then show ?thesis unfolding numbered_def c q using N(2-4) assms(4) by auto
qed

section \<open>Computing an id\<close>

lemma next_root_cases:
  assumes "next_root_id pre d = (x, d')"
  shows "quest_rows d' = quest_rows d" "next_seq_of p d' = (if p = pre then next_seq_of pre d + 1 else next_seq_of p d)"
    "x = Inr i \<Longrightarrow> i = root pre (word_of_int (next_seq_of pre d)) \<and> 0 \<le> next_seq_of pre d \<and> next_seq_of pre d < 2 ^ 32"
  using assms
  by (auto simp: next_root_id_def next_seq_of_def Let_def qret_def qfail_def update_conv' split: if_splits)

lemma next_child_cases:
  assumes "next_child_id pid d = (x, d')"
  shows "d' = d" "x = Inr i \<Longrightarrow> i = child pid (of_nat (child_count pid d) + 1)"
  using assms by (auto simp: next_child_id_def qret_def qfail_def split: if_splits)

lemma next_number:
  assumes "length (quest_rows d) < 2 ^ 32 - 1"
  shows "unat (of_nat (child_count pid d) + 1 :: u32) = child_count pid d + 1"
proof -
  have "child_count pid d < 2 ^ 32 - 1" using child_count_le assms le_less_trans by metis
  then show ?thesis by (simp add: unat_word_ariths unat_of_nat)
qed

lemma fresh_root:
  assumes "numbered R" "next_root_id pre (reg R) = (Inr i, d)"
  shows "count_list (all_ids R) i = 0"
proof -
  have i: "i = root pre (word_of_int (next_seq_of pre (reg R)))" "0 \<le> next_seq_of pre (reg R)" "next_seq_of pre (reg R) < 2 ^ 32"
    using next_root_cases(3) [OF assms(2)] by simp_all
  then have "uint (word_of_int (next_seq_of pre (reg R)) :: u32) = next_seq_of pre (reg R)" by (simp add: uint_word_of_int)
  then show ?thesis using numberedD(1) [OF assms(1), of pre "word_of_int (next_seq_of pre (reg R))"] i(1) by simp
qed

lemma fresh_child:
  assumes "numbered R" "length (quest_rows (reg R)) < 2 ^ 32 - 1" "next_child_id pid (reg R) = (Inr i, d)"
  shows "i \<notin> quest_ids R"
  using numberedD(2) [OF assms(1), of pid "of_nat (child_count pid (reg R)) + 1"] next_number [OF assms(2), of pid]
    next_child_cases(2) [OF assms(3)] by auto

lemma root_in_all: "i \<in> quest_ids R \<or> i \<in> pending_ids R \<longleftrightarrow> count_list (all_ids R) i \<noteq> 0"
  by (auto simp: all_ids_def count_list_append count_list_0_iff)

text \<open>A root id on its way is not in the table yet.\<close>

lemma pending_root_free:
  assumes "numbered R" "r \<in> set (inserting R)" "qr_id r \<in> quest_ids R"
  shows "\<exists>p k. qr_id r = child p k"
proof (rule ccontr)
  assume "\<nexists>p k. qr_id r = child p k"
  then obtain p n where n: "qr_id r = root p n" using numberedD(4) [OF assms(1), of "qr_id r"] assms(2) by auto
  have "count_list (map qr_id (quest_rows (reg R))) (qr_id r) \<noteq> 0" "count_list (map qr_id (inserting R)) (qr_id r) \<noteq> 0"
    using assms(2,3) by (auto simp: count_list_0_iff)
  then have "2 \<le> count_list (all_ids R) (root p n)" by (simp add: all_ids_def count_list_append n)
  then show False using numberedD(1) [OF assms(1), of p n] by (simp split: if_splits)
qed

lemma numbered_root:
  assumes "numbered R" "next_root_id pre (reg R) = (Inr i, d)" "qr_id r = i"
  shows "numbered (R\<lparr>reg := d, inserting := inserting R @ [r]\<rparr>)" (is "numbered ?R'")
proof -
  note N = numberedD [OF assms(1)]
  have q: "quest_rows d = quest_rows (reg R)" by (rule next_root_cases(1) [OF assms(2)])
  have i: "i = root pre (word_of_int (next_seq_of pre (reg R)))" "0 \<le> next_seq_of pre (reg R)" "next_seq_of pre (reg R) < 2 ^ 32"
    using next_root_cases(3) [OF assms(2)] by simp_all
  have u: "uint (word_of_int (next_seq_of pre (reg R)) :: u32) = next_seq_of pre (reg R)" using i by (simp add: uint_word_of_int)
  have all: "count_list (all_ids ?R') j = count_list (all_ids R) j + (if j = i then 1 else 0)" for j
    using q assms(3) by (simp add: all_ids_def count_list_append)
  have "count_list (all_ids ?R') (root p n) \<le> (if uint n < next_seq_of p d then 1 else 0)" for p n
  proof (cases "root p n = i")
    case True
    then have "p = pre" "n = word_of_int (next_seq_of pre (reg R))" using i(1) by (simp_all add: root_eq)
    then show ?thesis using True all [of i] fresh_root [OF assms(1,2)] next_root_cases(2) [OF assms(2), of pre] u by simp
  next
    case False
    then have "count_list (all_ids ?R') (root p n) \<le> (if uint n < next_seq_of p (reg R) then 1 else 0)"
      using all [of "root p n"] N(1) [of p n] by simp
    then show ?thesis using next_root_cases(2) [OF assms(2), of p] by (auto split: if_splits)
  qed
  moreover have "child_count p d = child_count p (reg R)" for p using q by (simp add: child_count_def)
  moreover have "child p k \<noteq> i" for p k using i(1) root_not_child by metis
  ultimately show ?thesis unfolding numbered_def using N(2-4) q assms(3) i(1) by auto
qed

lemma numbered_child:
  assumes "numbered R" "length (quest_rows (reg R)) < 2 ^ 32 - 1" "next_child_id pid (reg R) = (Inr i, d)" "qr_id r = i"
  shows "numbered (R\<lparr>reg := d, inserting := inserting R @ [r]\<rparr>)" (is "numbered ?R'")
proof -
  note N = numberedD [OF assms(1)]
  have d: "d = reg R" by (rule next_child_cases(1) [OF assms(3)])
  have i: "i = child pid (of_nat (child_count pid (reg R)) + 1)" using next_child_cases(2) [OF assms(3)] by simp
  have "i \<noteq> root p n" for p n using i root_not_child by metis
  then have "count_list (all_ids ?R') (root p n) = count_list (all_ids R) (root p n)" for p n
    using d assms(4) by (simp add: all_ids_def count_list_append)
  moreover have "unat k \<le> child_count p (reg R) + 1" if "child p k = i" for p k
  proof -
    have "p = pid" "k = of_nat (child_count pid (reg R)) + 1" using that i by (simp_all add: child_inj)
    then show ?thesis using next_number [OF assms(2), of pid] by simp
  qed
  ultimately show ?thesis unfolding numbered_def using N d assms(4) i by auto
qed

section \<open>Insertions\<close>

lemma count_mid: "count_list (xs @ x # ys) i = count_list (xs @ ys) i + (if i = x then 1 else 0)"
  by (simp add: count_list_append)

lemma numbered_insert:
  assumes "numbered R" "inserting R = rs @ r # rs'" "insert_quest r (reg R) = (x, d)"
  shows "numbered (R\<lparr>reg := d, inserting := rs @ rs'\<rparr>)" (is "numbered ?R'")
proof -
  note N = numberedD [OF assms(1)]
  have seq: "next_seq_of p d = next_seq_of p (reg R)" for p
    using assms(3) by (auto simp: insert_quest_def qfail_def qret_def next_seq_of_def split: if_splits)
  have pend: "pending_ids ?R' \<subseteq> pending_ids R" using assms(2) by auto
  from assms(3) show ?thesis
  proof (cases rule: insert_quest_cases)
    case 1
    then have "child_count p d = child_count p (reg R)" for p by (simp add: child_count_def)
    moreover have "count_list (all_ids ?R') (root p n) \<le> (if uint n < next_seq_of p d then 1 else 0)" for p n
      using N(1) [of p n] 1 assms(2) unfolding seq by (simp add: all_ids_def count_list_append split: if_splits)
    ultimately show ?thesis unfolding numbered_def using N(2-4) pend 1 by auto
  next
    case 2
    have c: "child_count p d = child_count p (reg R) + (if like (p @ ''.%'') (qr_id r) then 1 else 0)" for p
      using 2(1) by (simp add: child_count_def del: like.simps)
    have "count_list (all_ids ?R') j = count_list (all_ids R) j" for j
      using 2(1) assms(2) by (simp add: all_ids_def count_list_append)
    moreover have "unat k \<le> child_count p d" if "child p k \<in> quest_ids ?R'" for p k
    proof (cases "child p k = qr_id r")
      case True
      then have "unat k \<le> child_count p (reg R) + 1" using N(3) [of p k] assms(2) by (auto simp: image_iff)
      moreover have "like (p @ ''.%'') (qr_id r)" using like_below [of p] True by (simp add: child_def flip: True del: like.simps)
      ultimately show ?thesis using c [of p] by simp
    next
      case False
      then have "child p k \<in> quest_ids R" using that 2(1) by auto
      then show ?thesis using N(2) [of p k] c [of p] by simp
    qed
    moreover have "unat k \<le> child_count p d + 1" if "child p k \<in> pending_ids ?R'" for p k
      using N(3) [of p k] subsetD [OF pend that] c [of p] by simp
    moreover have "\<exists>p. (\<exists>n. i = root p n) \<or> (\<exists>k. i = child p k)" if "i \<in> pending_ids ?R'" for i
      using N(4) subsetD [OF pend that] by blast
    ultimately show ?thesis unfolding numbered_def using N(1) seq by simp
  qed
qed

section \<open>Every step of the rail\<close>

definition ids_same :: "rail \<Rightarrow> rail \<Rightarrow> bool" where
  "ids_same R R' \<longleftrightarrow> map qr_id (quest_rows (reg R')) = map qr_id (quest_rows (reg R)) \<and>
     quest_sequences (reg R') = quest_sequences (reg R) \<and> (inserting R' = inserting R \<or> inserting R' = [])"

lemma numbered_ids_same: "numbered R \<Longrightarrow> ids_same R R' \<Longrightarrow> numbered R'"
  by (rule numbered_keep [of R]) (auto simp: ids_same_def next_seq_of_def)

lemma rows_move_ids: "rows_move (reg R) (reg R') \<Longrightarrow> inserting R' = inserting R \<Longrightarrow> ids_same R R'"
  by (auto simp: rows_move_def ids_same_def moves_on_def)

lemma set_quest_status_ids: "ids_same R ((set_quest_status i st now R)\<lparr>ticking := p\<rparr>)"
  by (simp add: ids_same_def set_quest_status_def update_task_status_def update_where_def set_status_def)

lemma tick_section_ids:
  assumes "tick_section C T R = (T', R')"
  shows "ids_same R (R'\<lparr>ticking := p\<rparr>)"
  using assms by (cases rule: tick_section_cases) (simp_all add: set_quest_status_ids, simp_all add: ids_same_def)

lemma rewrite_ids:
  assumes "rail_sound R" "keeps_counter f"
  shows "ids_same R (rewrite_quest i f now R)"
proof -
  obtain x d where u: "update_task i f now (reg R) = (x, d)" by force
  obtain g where g: "quest_rows d = map g (quest_rows (reg R))"
    "\<And>r. r \<in> set (quest_rows (reg R)) \<Longrightarrow> qr_id (g r) = qr_id r \<and>
       qr_retry_count (g r) \<in> {qr_retry_count r, uint (retry_count (row_to_task r))}"
    by (rule update_task_rows [OF u assms(2) rail_soundD(1) [OF assms(1)]]) blast
  have "map qr_id (quest_rows d) = map qr_id (quest_rows (reg R))" using g by simp
  moreover have "quest_sequences d = quest_sequences (reg R)"
    using u by (auto simp: update_task_def qfail_def qret_def Let_def update_where_def split: option.splits)
  ultimately show ?thesis by (simp add: ids_same_def rewrite_quest_def u Let_def)
qed

lemma mint_sequences: "mint_or_reuse_quest_idea lower name text labels agent sc uuid now d = (x, d') \<Longrightarrow> quest_sequences d' = quest_sequences d"
  by (auto simp: mint_or_reuse_quest_idea_def qfail_def qret_def Let_def split: option.splits if_splits)

text \<open>A creation that fails may have taken a number.\<close>

lemma number_error_numbered:
  assumes "numbered R" "next_quest_id pre parent_id (reg R) = (Inl e, d)"
  shows "numbered (R\<lparr>reg := d\<rparr>)"
proof (cases parent_id)
  case None
  then have r: "next_root_id pre (reg R) = (Inl e, d)" using assms(2) by (simp add: next_quest_id_def)
  show ?thesis by (rule numbered_keep [OF assms(1)]) (simp_all add: next_root_cases(1,2) [OF r])
next
  case (Some pid)
  then have "next_child_id pid (reg R) = (Inl e, d)" using assms(2) by (simp add: next_quest_id_def)
  then have "d = reg R" by (rule next_child_cases(1))
  then show ?thesis using assms(1) by (intro numbered_keep [OF assms(1)]) simp_all
qed

lemma number_numbered:
  assumes "numbered R" "length (quest_rows (reg R)) < 2 ^ 32 - 1" "next_quest_id pre parent_id (reg R) = (Inr i, d)" "qr_id r = i"
  shows "numbered (R\<lparr>reg := d, inserting := inserting R @ [r]\<rparr>)"
  using assms numbered_root [of R pre i d r] numbered_child [of R _ i d r]
  by (cases parent_id) (simp_all add: next_quest_id_def)

lemma dstep_numbered:
  assumes "dstep parse ord C R R'" "rail_sound R" "numbered R" "length (quest_rows (reg R)) < 2 ^ 32 - 1"
  shows "numbered R'"
  using assms
proof (induction rule: dstep.induct)
  case mint
  then show ?case using mint_rows mint_sequences by (intro numbered_ids_same [OF mint.prems(2)]) (auto simp: ids_same_def)
next
  case number
  then show ?case using number_numbered by (auto simp: new_quest_row_def)
next
  case number_error
  then show ?case using number_error_numbered by blast
next
  case insert
  then show ?case using numbered_insert by blast
next
  case tick_go
  then show ?case using tick_section_ids numbered_ids_same by blast
next
  case (spawned E sid c w R m)
  have "ids_same R (spawn_writes E m R)"
  proof (cases rule: spawn_writes_cases [of E m R])
    case 1
    then show ?thesis by (simp add: ids_same_def)
  next
    case 2
    then show ?thesis using rewrite_ids [OF spawned.prems(1) keep_worktree_counter] by simp
  qed
  then show ?case using numbered_ids_same spawned.prems(2) by blast
next
  case (settled E sid c w R m sp b effs R')
  have "ids_same R R'"
    using conclude_moves(1) [OF settled.hyps(6)] conclude_fields(3) [OF settled.hyps(6)] by (rule rows_move_ids)
  then show ?case by (intro numbered_ids_same [OF settled.prems(2)]) (simp add: ids_same_def)
next
  case rewrite
  then show ?case using rewrite_ids numbered_ids_same by blast
next
  case (rescope R i sc now)
  show ?case by (rule numbered_ids_same [OF rescope.prems(2) rows_move_ids]) (simp_all add: rows_move_scope)
next
  case (reset R)
  show ?case by (rule numbered_ids_same [OF reset.prems(2) rows_move_ids]) (simp_all add: reset_quests_def rows_move_reset_stale)
next
  case (staff R ags)
  show ?case by (rule numbered_ids_same [OF staff.prems(2)]) (simp add: ids_same_def)
next
  case (tick_begin R E)
  show ?case by (rule numbered_ids_same [OF tick_begin.prems(2)]) (simp add: ids_same_def)
next
  case (queue a R D)
  show ?case by (rule numbered_ids_same [OF queue.prems(2)]) (simp add: ids_same_def)
next
  case (crash R)
  show ?case by (rule numbered_ids_same [OF crash.prems(2)]) (simp add: ids_same_def crash_rail_def)
next
  case (recover R)
  show ?case by (rule numbered_ids_same [OF recover.prems(2)]) (simp add: ids_same_def recover_rail_def Let_def)
qed

text \<open>The table never shrinks.\<close>

lemma dstep_grows:
  assumes "dstep parse ord C R R'" "rail_sound R"
  shows "length (quest_rows (reg R)) \<le> length (quest_rows (reg R'))"
proof -
  have same: "length (quest_rows (reg S)) \<le> length (quest_rows (reg S'))" if "ids_same S S'" for S S'
    using that unfolding ids_same_def by (metis length_map order_refl)
  from assms show ?thesis
  proof (induction rule: dstep.induct)
    case mint
    then show ?case using mint_rows by simp
  next
    case number
    then show ?case using next_id_rows by simp
  next
    case number_error
    then show ?case using next_id_rows by simp
  next
    case (insert R rs r rs' x d)
    from insert.hyps(2) show ?case by (cases rule: insert_quest_cases) simp_all
  next
    case tick_go
    then show ?case using same [OF tick_section_ids] by simp
  next
    case (spawned E sid c w R m)
    then show ?case using same rewrite_ids keep_worktree_counter by (metis order_refl spawn_writes_cases)
  next
    case (settled E sid c w R m sp b effs R')
    have "ids_same R R'"
      using conclude_moves(1) [OF settled.hyps(6)] conclude_fields(3) [OF settled.hyps(6)] by (rule rows_move_ids)
    then show ?case using same by simp
  next
    case rewrite
    then show ?case using same rewrite_ids by blast
  next
    case (rescope R i sc now)
    show ?case by (rule same [OF rows_move_ids]) (simp_all add: rows_move_scope)
  next
    case (reset R)
    show ?case by (rule same [OF rows_move_ids]) (simp_all add: reset_quests_def rows_move_reset_stale)
  qed (simp_all add: crash_rail_def recover_rail_def Let_def)
qed

lemma run_numbered:
  assumes "(dstep parse ord C)\<^sup>*\<^sup>* (fresh_rail ags aw) R" "length (quest_rows (reg R)) < 2 ^ 32 - 1"
  shows "numbered R"
  using assms
proof (induction rule: rtranclp_induct)
  case base
  show ?case by (rule fresh_numbered)
next
  case (step R R')
  note s = run_sound [OF step.hyps(1)]
  have "length (quest_rows (reg R)) < 2 ^ 32 - 1" using dstep_grows [OF step.hyps(2) s] step.prems by simp
  then show ?case using dstep_numbered [OF step.hyps(2) s] step.IH by simp
qed

end
