(* ===== verification/Session_Queue_Properties.thy ===== *)
theory Session_Queue_Properties
  imports Session_Queue_Liveness
begin

text \<open>
  The guarantees of the session queue, over every interleaving, with a small run as their witness;
  and what the code does where they end: a recovery that runs while a loop is executing, a delete
  that fails, a message injected after the request was built.
\<close>

section \<open>A run\<close>

text \<open>Two messages for one session; the loop of the first has claimed it, the second is injected.\<close>

definition demo_row :: "int \<Rightarrow> string \<Rightarrow> PendingRow" where
  "demo_row i p = \<lparr>pm_id = i, pm_session = ''s'', pm_payload = p, pm_status = Queued, pm_created_at = 0,
     pm_started_at = None\<rparr>"

definition demo_running :: "int \<Rightarrow> string \<Rightarrow> PendingRow" where
  "demo_running i p = (demo_row i p)\<lparr>pm_status := Running, pm_started_at := Some 5\<rparr>"

definition demo_queue :: "PendingRow list \<Rightarrow> queue_db" where
  "demo_queue rs = \<lparr>pending = rs, next_pending = 3, awaiting = []\<rparr>"

definition demo_claim :: PendingClaim where
  "demo_claim = \<lparr>pc_id = 1, pc_payload = ''a''\<rparr>"

definition demo_two :: daemon where
  "demo_two = \<lparr>queue = demo_queue [demo_row 1 ''a'', demo_row 2 ''b''],
     tasks = {#Enqueuing ''s'', Enqueuing ''s''#}, g_enqueued = [(''s'', 1), (''s'', 2)], g_claimed = [], g_injected = []\<rparr>"

definition demo_exec :: daemon where
  "demo_exec = \<lparr>queue = demo_queue [demo_running 1 ''a'', demo_row 2 ''b''],
     tasks = {#Executing ''s'' demo_claim 1, Enqueuing ''s''#}, g_enqueued = [(''s'', 1), (''s'', 2)],
     g_claimed = [(''s'', 1)], g_injected = []\<rparr>"

lemmas demo_defs = fresh_daemon_def demo_row_def demo_running_def demo_queue_def demo_claim_def demo_two_def demo_exec_def

lemma smooth_stepI:
  "(smooth parse ord)\<^sup>*\<^sup>* S T \<Longrightarrow> qstep parse ord a T U \<Longrightarrow> \<not> fault a \<Longrightarrow> U = V \<Longrightarrow> (smooth parse ord)\<^sup>*\<^sup>* S V"
  by (rule rtranclp.rtrancl_into_rtrancl) (auto simp: smooth_def)

lemma smooth_demo_two: "(smooth Map.empty id)\<^sup>*\<^sup>* (fresh_daemon []) demo_two"
proof -
  have 1: "(smooth Map.empty id)\<^sup>*\<^sup>* (fresh_daemon []) (demo_two\<lparr>queue := \<lparr>pending = [demo_row 1 ''a''],
      next_pending = 2, awaiting = []\<rparr>, tasks := {#Enqueuing ''s''#}, g_enqueued := [(''s'', 1)]\<rparr>)"
    by (rule smooth_stepI [OF rtranclp.rtrancl_refl qstep.enqueue [of _ "''s''" "''a''" 0 _ 1
        "\<lparr>pending = [demo_row 1 ''a''], next_pending = 2, awaiting = []\<rparr>"]])
      (simp_all add: demo_defs enqueue_pending_def insert_pending_def clear_if_awaiting_def)
  show ?thesis
    by (rule smooth_stepI [OF 1 qstep.enqueue [of _ "''s''" "''b''" 0 _ 2
        "demo_queue [demo_row 1 ''a'', demo_row 2 ''b'']"]])
      (simp_all add: demo_defs enqueue_pending_def insert_pending_def clear_if_awaiting_def)
qed

lemma smooth_demo_exec: "(smooth Map.empty id)\<^sup>*\<^sup>* (fresh_daemon []) demo_exec"
proof -
  have 1: "(smooth Map.empty id)\<^sup>*\<^sup>* (fresh_daemon []) (demo_two\<lparr>tasks := {#Claiming ''s'', Enqueuing ''s''#}\<rparr>)"
    by (rule smooth_stepI [OF smooth_demo_two qstep.spawn [of _ "''s''" "{#Enqueuing ''s''#}"]])
      (simp_all add: demo_defs)
  show ?thesis
    by (rule smooth_stepI [OF 1 qstep.claim [of _ "''s''" "{#Enqueuing ''s''#}" 5 demo_claim
        "demo_queue [demo_running 1 ''a'', demo_row 2 ''b'']"]])
      (simp_all add: demo_defs claim_next_pending_def claimable_def set_running_def)
qed

lemma permutes_id: "permutes id"
  by (simp add: permutes_def)

lemma boot_fresh: "boot Map.empty id (fresh_daemon []) (fresh_daemon [])"
  using qstep.recover [of "fresh_daemon []" 0 "queue (fresh_daemon [])"]
  by (simp add: boot_def fresh_daemon_def recover_orphaned_running_def sessions_with_queued_def)


section \<open>Guarantees\<close>

text \<open>C26. One execution per session: whatever callers, loops, database errors and crashes interleave,
  as long as recovery runs when no loop holds a lease, at most one task is between the claim of a
  message and the deletion of its row for any session.\<close>

theorem session_exclusive:
  assumes "permutes ord" "(calm_state parse ord)\<^sup>*\<^sup>* (fresh_daemon aw) S"
  shows "size {#t \<in># tasks S. executes sid t#} \<le> 1"
  by (rule exclusive_reachable [OF assms])

theorem session_exclusive_witness: "size {#t \<in># tasks demo_exec. executes ''s'' t#} \<le> 1"
  by (rule session_exclusive [OF permutes_id smooth_run_calm [OF smooth_demo_exec]])

text \<open>C27. No message is lost or handled twice: in every reachable state of the daemon, crashes,
  errors and untimely recoveries included, each message that was enqueued is still queued, or was
  claimed by a loop, or was injected into a running turn, and exactly one of these, exactly once;
  and the messages of a session are claimed in the order in which they were enqueued.\<close>

theorem message_accounting:
  assumes "permutes ord" "(next_state parse ord)\<^sup>*\<^sup>* (fresh_daemon aw) S"
  shows "distinct (g_enqueued S) \<and>
    mset (g_enqueued S) = mset (g_claimed S) + mset (g_injected S) + queued_keys (queue S) \<and>
    sorted_wrt (\<lambda>x y. snd x < snd y) (g_enqueued S) \<and>
    sorted_wrt (\<lambda>x y. fst x = fst y \<longrightarrow> snd x < snd y) (g_claimed S)"
proof -
  have I: "log_inv S" by (rule log_reachable [OF assms(2,1)])
  then show ?thesis
    using log_invD(2,3,5) [OF I] enqueued_distinct [OF I] by (auto simp: taken_def distinct_map)
qed

theorem message_accounting_witness:
  "mset (g_enqueued demo_exec) = mset (g_claimed demo_exec) + mset (g_injected demo_exec) + queued_keys (queue demo_exec)"
  using message_accounting [OF permutes_id calm_reachable [OF smooth_run_calm [OF smooth_demo_exec]]] by blast

text \<open>A step boundary leaves nothing behind: whenever a running agent takes the late messages of
  its session, its watermark excludes none of them, and afterwards no message of the session is
  queued.\<close>

theorem injection_takes_all:
  assumes "permutes ord" "(next_state parse ord)\<^sup>*\<^sup>* (fresh_daemon aw) S"
    and "Executing sid c w \<in># tasks S"
    and "claim_pending_for_session parse ord sid (Some w) (queue S) = (ms, q)"
  shows "mset (map im_id ms) =
      mset (map pm_id (filter (\<lambda>r. pm_session r = sid \<and> pm_status r = Queued) (pending (queue S)))) \<and>
    (\<forall>r\<in>set (pending q). pm_session r = sid \<longrightarrow> pm_status r \<noteq> Queued)"
proof -
  have I: "log_inv S" by (rule log_reachable [OF assms(2,1)])
  have w: "(sid, w) \<in> set (taken S)" using log_invD(7) [OF I assms(3)] by simp
  have f: "filter (injectable sid (Some w)) (pending (queue S)) =
      filter (\<lambda>r. pm_session r = sid \<and> is_queued r) (pending (queue S))"
    by (rule filter_cong) (simp_all add: injectable_all [OF I w])
  have "mset (map im_id ms) = image_mset pm_id (mset (ord (filter (injectable sid (Some w)) (pending (queue S)))))"
    using assms(4) by (auto simp: claim_pending_for_session_def o_def simp flip: mset_map)
  then have "mset (map im_id ms) =
      mset (map pm_id (filter (\<lambda>r. pm_session r = sid \<and> is_queued r) (pending (queue S))))"
    using assms(1) by (simp add: permutes_def f)
  moreover have "\<forall>r\<in>set (pending q). pm_session r = sid \<longrightarrow> pm_status r \<noteq> Queued"
    using assms(4) injectable_all [OF I w] by (auto simp: claim_pending_for_session_def)
  ultimately show ?thesis by blast
qed

theorem injection_takes_all_witness:
  "\<exists>ms q. claim_pending_for_session Map.empty id ''s'' (Some 1) (queue demo_exec) = (ms, q) \<and>
     mset (map im_id ms) = {#2#} \<and> (\<forall>r\<in>set (pending q). pm_session r = ''s'' \<longrightarrow> pm_status r \<noteq> Queued)"
proof -
  obtain ms q where c: "claim_pending_for_session Map.empty id ''s'' (Some 1) (queue demo_exec) = (ms, q)" by force
  have "Executing ''s'' demo_claim 1 \<in># tasks demo_exec" by (simp add: demo_exec_def)
  from injection_takes_all [OF permutes_id calm_reachable [OF smooth_run_calm [OF smooth_demo_exec]] this c] c
  show ?thesis by (simp add: demo_defs)
qed

text \<open>No message is stranded: after a boot on the tables of any earlier run, and as long as no
  database call fails, the daemon does not crash and no answer is deferred, every queued message
  belongs to a session that has a task: a caller about to spawn the loop, or a loop.\<close>

theorem no_message_stranded:
  assumes "permutes ord" "(next_state parse ord)\<^sup>*\<^sup>* (fresh_daemon aw) S0" "boot parse ord S0 S1"
    "(smooth parse ord)\<^sup>*\<^sup>* S1 S"
  shows "\<forall>r\<in>set (pending (queue S)). pm_status r = Queued \<longrightarrow> (\<exists>t\<in>#tasks S. task_session t = pm_session r)"
  using served_since_boot [OF assms] unfolding served_def by (metis image_iff)

theorem no_message_stranded_witness:
  "\<exists>t\<in>#tasks demo_exec. task_session t = ''s''"
  using no_message_stranded [OF permutes_id rtranclp.rtrancl_refl boot_fresh smooth_demo_exec]
  by (simp add: demo_defs)

text \<open>C28. The queue drains: from a state reached after a boot without faults, when no further message
  arrives, every run of the loops and of the agents' injections has at most \<open>work S\<close> loop steps, in
  whatever order they interleave; and if the loops can do nothing more then every row is gone, queued
  or running, and no task is left.\<close>

theorem queue_drains:
  assumes "permutes ord" "(next_state parse ord)\<^sup>*\<^sup>* (fresh_daemon aw) S0" "boot parse ord S0 S1"
    "(smooth parse ord)\<^sup>*\<^sup>* S1 S" "run parse ord S as S'" "list_all inner as"
  shows "length (filter progress as) \<le> work S \<and>
    ((\<forall>a T. progress a \<longrightarrow> \<not> qstep parse ord a S' T) \<longrightarrow> pending (queue S') = [] \<and> tasks S' = {#})"
proof -
  have "log_inv S" "served S" using served_since_boot [OF assms(1-4)] by auto
  from run_work [OF assms(5,6,1) this]
  have R: "length (filter progress as) \<le> work S" "served S'" by auto
  have "pending (queue S') = []" if "tasks S' = {#}"
    using R(2) that by (auto simp: served_def running_keys_def filter_empty_conv)
      (metis last_in_set pm_status.exhaust)
  then show ?thesis using R(1) task_enabled by (metis multiset_nonemptyE)
qed

theorem queue_drains_witness: "length (filter progress [A_Finish ''s'']) \<le> work demo_exec"
proof -
  have "run Map.empty id demo_exec [A_Finish ''s'']
      (demo_exec\<lparr>tasks := add_mset (Finishing ''s'' demo_claim) {#Enqueuing ''s''#}\<rparr>)"
    by (rule run.go [OF qstep.finish run.stop]) (simp add: demo_exec_def)
  from queue_drains [OF permutes_id rtranclp.rtrancl_refl boot_fresh smooth_demo_exec this]
  show ?thesis by simp
qed

text \<open>The loop terminates and drains its session: started when no other loop holds the session's
  lease, with a database that answers and an executor that succeeds or fails but does not enqueue to
  the session itself, \<open>claim_and_run_loop\<close> returns normally and no row of the session is left.\<close>

theorem claim_loop_drains:
  assumes "keeps_session exec" "\<forall>r\<in>set (pending q). pm_session r = sid \<longrightarrow> pm_status r = Queued"
  shows "\<exists>q'. claim_and_run_loop exec (\<lambda>_. True) (\<lambda>_. True) clk n sid q = Some (Loop_Done, q') \<and>
    (\<forall>r\<in>set (pending q'). pm_session r \<noteq> sid)"
  using assms(2)
proof (induction "card (session_rows sid q)" arbitrary: q n rule: less_induct)
  case less
  obtain x q1 where c: "claim_next_pending sid (clk n) q = (x, q1)" by force
  show ?case
  proof (cases x)
    case None
    then have c': "claim_next_pending sid (clk n) q = (None, q1)" using c by simp
    have "\<forall>r\<in>set (pending q1). pm_session r \<noteq> sid"
      using claim_NoneD [OF c'] less.prems by auto
    then show ?thesis by (subst claim_and_run_loop.simps) (simp add: c')
  next
    case (Some k)
    then have c': "claim_next_pending sid (clk n) q = (Some k, q1)" using c by simp
    note R = loop_round [OF c' assms(1)]
    show ?thesis
      using less.hyps [OF R(1), of "Suc n"] R(2)
      by (subst claim_and_run_loop.simps) (simp add: c' session_rows_def Let_def)
  qed
qed

theorem claim_loop_drains_witness:
  "\<exists>q'. claim_and_run_loop (\<lambda>_ _ q. (False, q)) (\<lambda>_. True) (\<lambda>_. True) int 0 ''s''
      (demo_queue [demo_row 1 ''a'', demo_row 2 ''b'']) = Some (Loop_Done, q') \<and>
    (\<forall>r\<in>set (pending q'). pm_session r \<noteq> ''s'')"
  by (rule claim_loop_drains) (simp_all add: keeps_session_def demo_queue_def demo_row_def)

section \<open>Where the guarantees end\<close>

text \<open>
  A recovery that runs while a message executes drops the lease: the next message of the session is
  claimed at once and two executions of the session run side by side.
\<close>

definition demo_twice :: daemon where
  "demo_twice = \<lparr>queue = demo_queue [(demo_row 2 ''b'')\<lparr>pm_status := Running, pm_started_at := Some 5\<rparr>],
     tasks = {#Executing ''s'' \<lparr>pc_id = 2, pc_payload = ''b''\<rparr> 2, Executing ''s'' demo_claim 1, Enqueuing ''s''#},
     g_enqueued = [(''s'', 1), (''s'', 2)], g_claimed = [(''s'', 1), (''s'', 2)], g_injected = []\<rparr>"

lemma next_stepI: "(next_state parse ord)\<^sup>*\<^sup>* S T \<Longrightarrow> qstep parse ord a T U \<Longrightarrow> U = V \<Longrightarrow> (next_state parse ord)\<^sup>*\<^sup>* S V"
  by (rule rtranclp.rtrancl_into_rtrancl) (auto simp: next_state_def)

lemma late_recovery_breaks_lease:
  "(next_state Map.empty id)\<^sup>*\<^sup>* (fresh_daemon []) demo_twice \<and> size {#t \<in># tasks demo_twice. executes ''s'' t#} = 2"
proof -
  have 1: "(next_state Map.empty id)\<^sup>*\<^sup>* (fresh_daemon []) (demo_exec\<lparr>queue := demo_queue [demo_row 2 ''b''],
      tasks := {#Claiming ''s'', Executing ''s'' demo_claim 1, Enqueuing ''s''#}\<rparr>)"
    by (rule next_stepI [OF calm_reachable [OF smooth_run_calm [OF smooth_demo_exec]]
          qstep.recover [of _ 1 "demo_queue [demo_row 2 ''b'']"]])
      (simp_all add: demo_defs recover_orphaned_running_def sessions_with_queued_def)
  have "(next_state Map.empty id)\<^sup>*\<^sup>* (fresh_daemon []) demo_twice"
    by (rule next_stepI [OF 1 qstep.claim [of _ "''s''" "{#Executing ''s'' demo_claim 1, Enqueuing ''s''#}" 5
          "\<lparr>pc_id = 2, pc_payload = ''b''\<rparr>" "queue demo_twice"]])
      (simp_all add: demo_defs demo_twice_def claim_next_pending_def claimable_def set_running_def)
  then show ?thesis by (simp add: demo_twice_def)
qed

text \<open>
  A row whose delete failed stays running. It is not claimed again, and as long as it is there
  nothing of its session is.
\<close>

lemma undeleted_row_blocks:
  assumes "r \<in> set (pending q)" "pm_session r = sid" "pm_status r = Running"
  shows "claim_next_pending sid now q = (None, q)"
  using assms by (auto simp: claim_next_pending_def claimable_def list_ex_iff)

text \<open>
  The request of a step does not hold the messages the step takes from the queue, although their
  rows are gone after it: if the model ends the turn with this step, no request ever carries them.
\<close>

lemma injected_misses_request:
  assumes "step_request parse ord True sid ctx w ms q = (request, ms', w', q')" "sid \<noteq> []"
  shows "request = ms @ ctx" and "\<exists>new. claim_pending_for_session parse ord sid w q = (new, q') \<and> ms' = ms @ map im_content new"
    and "\<forall>r\<in>set (pending q'). \<not> injectable sid w r"
  using assms by (auto simp: step_request_def Let_def claim_pending_for_session_def)

end
