(* ===== verification/Quest_Dispatch_Properties.thy ===== *)
theory Quest_Dispatch_Properties
  imports Quest_Dispatch_Tick Quest_Registry_Ids Session_Queue_Properties
begin

text \<open>
  The guarantees of quest dispatch, with a small run as their witness, and what the code does where
  they end: an agent that makes its own quest todo, two creations under one parent, a spawn that
  fails, a boot with queued quests, a quest cancelled during a tick, a quest in review, an agent
  name with a wide second character.
\<close>

section \<open>A run\<close>

definition demo_agent :: Agent where
  "demo_agent = \<lparr>ag_id = ''a'', ag_name = ''al'', quest_prefix = Some ''q'', ag_budget_usd = None, max_concurrent = 1\<rparr>"

definition demo_config :: DispatchConfig where
  "demo_config = \<lparr>max_workers = 4, default_timeout_secs = 3600, worker_max_budget_usd = 0, daily_budget_usd = 0,
     adaptive_retry = False, failure_analysis_model = [], max_task_retries = 3\<rparr>"

text \<open>A serialization that keeps the id of the quest.\<close>

definition demo_to_payload :: "QueuedMessage \<Rightarrow> string option" where
  "demo_to_payload m = qm_quest_id m"

definition demo_parse :: payload_parser where
  "demo_parse p = Some (qm_quest ''a'' [] p None (Some 0))"

definition demo_tick :: "string \<Rightarrow> tick_env" where
  "demo_tick sid = \<lparr>te_parse = demo_parse, te_to_payload = demo_to_payload, ready_ok = True, counts_ok = True,
     budget_exhausted = False, cancel_ok = (\<lambda>_. True), limit_ok = (\<lambda>_. True), get_ok = (\<lambda>_. True),
     flip_ok = (\<lambda>_. True), enqueue_ok = (\<lambda>_. True), rollback_ok = (\<lambda>_. True), te_creator = (\<lambda>_. None),
     te_session = (\<lambda>_. sid), te_now = (\<lambda>_. 0)\<rparr>"

definition demo_quest_row :: "QuestStatus \<Rightarrow> quest_row" where
  "demo_quest_row st = (new_quest_row ''q-001'' ''u'' (Some ''a'') SelfScope [] 0)\<lparr>qr_status := show_status st,
     qr_updated_at := (if st = Todo then None else Some 0)\<rparr>"

definition demo_db :: "QuestStatus \<Rightarrow> quest_db" where
  "demo_db st = \<lparr>quest_rows = [demo_quest_row st], quest_sequences = [(''q'', 2)],
     ideas = [\<lparr>ir_id = ''u'', ir_name = ''subject'', ir_content = ''text'', ir_scope = ''self'', ir_agent_id = Some ''a'',
       ir_session_id = None, ir_created_at = 0, ir_kind = ''note'', ir_file_id = None, ir_tags = []\<rparr>],
     agents = [demo_agent]\<rparr>"

definition demo_created :: rail where
  "demo_created = (fresh_rail [demo_agent] [])\<lparr>reg := demo_db Todo\<rparr>"

definition demo_sent :: "string \<Rightarrow> rail" where
  "demo_sent sid = demo_created\<lparr>reg := demo_db InProgress,
     dmn := queue_enqueue demo_parse sid ''q-001'' 0 (fresh_daemon []), g_admitted := [''q-001'']\<rparr>"

lemma demo_quest_root: "root ''q'' 1 = ''q-001''"
  by code_simp

lemma demo_trim: "trim ''subject'' = ''subject''"
  by code_simp

lemmas demo_rail_defs = demo_created_def demo_sent_def demo_db_def demo_quest_row_def new_quest_row_def demo_agent_def fresh_rail_def

lemma demo_row_task: "row_to_task (demo_quest_row Todo) = (with_agent 0 ''q-001'' ''u'' (Some ''a''))\<lparr>metadata := JObject []\<rparr>"
  by (simp add: demo_quest_row_def new_quest_row_def row_to_task_def row_status_def row_priority_def scope_from_str_def
      row_outcome_def with_agent_def default_quest_kind_def)

lemma demo_ready: "ready_tasks (demo_db Todo) = [(with_agent 0 ''q-001'' ''u'' (Some ''a''))\<lparr>metadata := JObject []\<rparr>]"
  by (simp add: ready_tasks_def demo_db_def demo_row_task) (simp add: demo_quest_row_def with_agent_def)

lemma demo_counts: "in_progress_counts_by_agent (demo_db Todo) = []"
  by (simp add: in_progress_counts_by_agent_def demo_db_def demo_quest_row_def)

lemma demo_tick_task:
  "tick_task demo_config (demo_tick sid) 0 ((with_agent 0 ''q-001'' ''u'' (Some ''a''))\<lparr>metadata := JObject []\<rparr>) [] 0
      (demo_created\<lparr>reg := demo_db Todo\<rparr>) =
     ([(''a'', 1)], 1, demo_sent sid)"
  by (simp add: tick_task_def gate_def with_agent_def demo_config_def demo_tick_def get_max_concurrent_def get_agent_def in_flight_def
      admit_def send_quest_def Let_def quest_message_def qm_quest_def demo_to_payload_def set_quest_status_def update_task_status_def
      update_where_def set_status_def closes_def demo_rail_defs)

lemma demo_tick_sends: "Quest_Dispatch.tick demo_config (demo_tick sid) demo_created = (True, demo_sent sid)"
proof -
  have r: "reg demo_created = demo_db Todo" by (simp add: demo_created_def)
  have c: "demo_created\<lparr>reg := demo_db Todo\<rparr> = demo_created" by (simp add: demo_created_def)
  show ?thesis
    unfolding Quest_Dispatch.tick_def Let_def r demo_ready demo_counts
    using demo_tick_task [of sid] c
    by (simp add: demo_tick_def [of sid] demo_config_def del: One_nat_def)
qed

text \<open>The run, section by section: a creation, then a tick.\<close>

abbreviation demo_task :: Quest where
  "demo_task \<equiv> (with_agent 0 ''q-001'' ''u'' (Some ''a''))\<lparr>metadata := JObject []\<rparr>"

definition demo_rounds :: "string \<Rightarrow> Agent option \<Rightarrow> tick_rounds" where
  "demo_rounds sid hand = \<lparr>tk_env = demo_tick sid, tk_total = 0, tk_n = 0, tk_rest = [demo_task], tk_hand = hand,
     tk_per_agent = [], tk_enqueued = 0\<rparr>"

lemma demo_created_reg: "reg demo_created = demo_db Todo"
  by (simp add: demo_created_def)

lemma demo_tick_simps [simp]: "te_parse (demo_tick sid) = demo_parse" "ready_ok (demo_tick sid)" "counts_ok (demo_tick sid)"
  "\<not> budget_exhausted (demo_tick sid)"
  by (simp_all add: demo_tick_def)

lemma fitting_then:
  "(fitting_step parse ord C)\<^sup>*\<^sup>* R S \<Longrightarrow> dstep parse ord C S T \<Longrightarrow> counters_fit S \<Longrightarrow> (fitting_step parse ord C)\<^sup>*\<^sup>* R T"
  by (rule rtranclp.rtrancl_into_rtrancl) (simp_all add: fitting_step_def)

lemma fitting_run: "(fitting_step parse ord C)\<^sup>*\<^sup>* R S \<Longrightarrow> (dstep parse ord C)\<^sup>*\<^sup>* R S"
  by (rule rtranclp_mono [THEN predicate2D]) (auto simp: fitting_step_def)

lemma demo_create_sections:
  "(fitting_step demo_parse ord demo_config)\<^sup>*\<^sup>* (fresh_rail [demo_agent] []) demo_created"
proof -
  let ?d = "(demo_db Todo)\<lparr>quest_rows := []\<rparr>"
  let ?S = "(fresh_rail [demo_agent] [])\<lparr>reg := ?d\<lparr>quest_sequences := []\<rparr>\<rparr>"
  have 1: "dstep demo_parse ord demo_config (fresh_rail [demo_agent] []) ?S"
    by (rule dstep.mint [of id "''subject''" "''text''" "[]" "Some ''a''" SelfScope "''u''" 0 _ "Inr ''u''"])
      (simp add: mint_or_reuse_quest_idea_def demo_trim Let_def qret_def demo_rail_defs)
  have 2: "dstep demo_parse ord demo_config ?S (?S\<lparr>reg := ?d, inserting := inserting ?S @ [new_quest_row ''q-001'' ''u'' (Some ''a'') SelfScope [] 0]\<rparr>)"
    by (rule dstep.number [of "''q''" None]) (simp add: next_quest_id_def next_root_id_def qret_def demo_quest_root demo_db_def)
  let ?T = "?S\<lparr>reg := ?d, inserting := [demo_quest_row Todo]\<rparr>"
  have "dstep demo_parse ord demo_config ?T (?T\<lparr>reg := demo_db Todo, inserting := [] @ []\<rparr>)"
    by (rule dstep.insert [of _ "[]" "demo_quest_row Todo" "[]" "Inr ()"]) (simp_all add: insert_quest_def qret_def demo_db_def)
  then have 3: "dstep demo_parse ord demo_config ?T demo_created" by (simp add: demo_rail_defs)
  have T: "?S\<lparr>reg := ?d, inserting := inserting ?S @ [new_quest_row ''q-001'' ''u'' (Some ''a'') SelfScope [] 0]\<rparr> = ?T"
    by (simp add: demo_rail_defs)
  have fit: "counters_fit (fresh_rail [demo_agent] [])" "counters_fit ?S" "counters_fit ?T"
    by (simp_all add: counters_fit_def demo_rail_defs)
  show ?thesis
    by (rule fitting_then [OF fitting_then [OF fitting_then [OF rtranclp.rtrancl_refl 1 fit(1)] 2 [unfolded T] fit(2)] 3 fit(3)])
qed

lemma demo_tick_sections:
  "(fitting_step demo_parse ord demo_config)\<^sup>*\<^sup>* demo_created (demo_sent sid)"
proof -
  let ?L = "demo_created\<lparr>ticking := Some (Listed (demo_tick sid) [demo_task])\<rparr>"
  let ?P = "demo_created\<lparr>ticking := Some (Rounds (demo_rounds sid None))\<rparr>"
  let ?F = "demo_created\<lparr>reg := demo_db InProgress, ticking := Some (Rounds (demo_rounds sid (Some demo_agent)))\<rparr>"
  let ?E = "(demo_rounds sid None)\<lparr>tk_n := 1, tk_rest := [], tk_per_agent := [(''a'', 1)], tk_enqueued := 1\<rparr>"
  let ?Q = "(demo_sent sid)\<lparr>ticking := Some (Rounds ?E)\<rparr>"
  have "ticking demo_created = None" by (simp add: demo_rail_defs)
  from dstep.tick_begin [OF this, of demo_parse ord demo_config "demo_tick sid"]
  have 1: "dstep demo_parse ord demo_config demo_created ?L" by (simp add: tick_open_def demo_created_reg demo_ready)
  have "dstep demo_parse ord demo_config ?L (?L\<lparr>ticking := Some (Rounds (demo_rounds sid None))\<rparr>)"
    by (rule dstep.tick_go [where T = "Listed (demo_tick sid) [demo_task]"])
      (simp_all add: Let_def demo_created_reg demo_counts demo_rounds_def)
  then have 2: "dstep demo_parse ord demo_config ?L ?P" by simp
  have "dstep demo_parse ord demo_config ?P ((set_quest_status ''q-001'' InProgress 0 ?P)\<lparr>ticking := ticking ?F\<rparr>)"
    by (rule dstep.tick_go [where T = "Rounds (demo_rounds sid None)"])
      (simp_all add: demo_rounds_def round_section_def gate_def with_agent_def demo_config_def get_max_concurrent_def get_agent_def
        in_flight_def demo_created_reg demo_db_def demo_agent_def demo_tick_def)
  moreover have "(set_quest_status ''q-001'' InProgress 0 ?P)\<lparr>ticking := ticking ?F\<rparr> = ?F"
    by (simp add: set_quest_status_def update_task_status_def update_where_def set_status_def closes_def demo_rail_defs)
  ultimately have 3: "dstep demo_parse ord demo_config ?P ?F" by simp
  have "send_quest demo_config (demo_tick sid) 0 demo_task demo_agent [] 0 ?F = ([(''a'', 1)], 1, (demo_sent sid)\<lparr>ticking := ticking ?F\<rparr>)"
    by (simp add: send_quest_def quest_message_def qm_quest_def demo_to_payload_def in_flight_def with_agent_def demo_tick_def
        demo_rail_defs)
  then have "dstep demo_parse ord demo_config ?F ((demo_sent sid)\<lparr>ticking := ticking ?F, ticking := Some (Rounds ?E)\<rparr>)"
    by (intro dstep.tick_go [where T = "Rounds (demo_rounds sid (Some demo_agent))"])
      (simp_all add: round_section_def demo_rounds_def round_over_def)
  then have 4: "dstep demo_parse ord demo_config ?F ?Q" by simp
  have "dstep demo_parse ord demo_config ?Q (?Q\<lparr>ticking := None\<rparr>)"
    by (rule dstep.tick_go [where T = "Rounds ?E"]) (simp_all add: demo_rounds_def)
  then have 5: "dstep demo_parse ord demo_config ?Q (demo_sent sid)" by (simp add: demo_rail_defs)
  have fit: "counters_fit demo_created" "counters_fit ?L" "counters_fit ?P" "counters_fit ?F" "counters_fit ?Q"
    by (simp_all add: counters_fit_def demo_rail_defs)
  show ?thesis
    by (rule fitting_then [OF fitting_then [OF fitting_then [OF fitting_then [OF fitting_then
          [OF rtranclp.rtrancl_refl 1 fit(1)] 2 fit(2)] 3 fit(3)] 4 fit(4)] 5 fit(5)])
qed

lemma demo_fitting:
  "(fitting_step demo_parse ord demo_config)\<^sup>*\<^sup>* (fresh_rail [demo_agent] []) (demo_sent sid)"
  by (rule rtranclp_trans [OF demo_create_sections demo_tick_sections])

lemma demo_reached:
  "(dstep demo_parse ord demo_config)\<^sup>*\<^sup>* (fresh_rail [demo_agent] []) demo_created"
  "(dstep demo_parse ord demo_config)\<^sup>*\<^sup>* (fresh_rail [demo_agent] []) (demo_sent sid)"
  by (rule fitting_run [OF demo_create_sections], rule fitting_run [OF demo_fitting])

section \<open>Guarantees\<close>

text \<open>C29. A quest is sent to the queue at most \<open>max_task_retries\<close> times, and once more for every time
  that a write made it todo again: over every interleaving of the sections of creations, ticks, loop
  steps, executions with any outcome, crashes, boots with a timely or a late recovery, and writes of
  quests by users and by agents, the running agent included. (As long as no retry counter leaves the
  32 bits in which it is read.) Without the second part there is no bound, as the quests tool lets an
  agent make its own quest todo (lemma agent_resends).\<close>

theorem quest_runs_bounded:
  assumes "(fitting_step parse ord C)\<^sup>*\<^sup>* (fresh_rail ags aw) R"
  shows "count_list (g_admitted R) i \<le> unat (max_task_retries C) + count_list (g_reopened R) i"
proof -
  have "int (unat (max_task_retries C)) = uint (max_task_retries C)" by simp
  then show ?thesis using accountD(2) [OF conjunct2 [OF fitting_run_account [OF assms]], of i] by linarith
qed

theorem quest_runs_bounded_witness:
  "count_list (g_admitted (demo_sent ''s1'')) ''q-001'' = 1 \<and> count_list (g_admitted (demo_sent ''s1'')) ''q-001'' \<le> 3"
  using quest_runs_bounded [OF demo_fitting [of id "''s1''"], of "''q-001''"] by (simp add: demo_rail_defs demo_config_def)

text \<open>C30. Dispatch runs on the session queue: whatever the rail does, boots with a late recovery
  included, its daemon makes a run of the queue's own steps; and as long as no recovery has come
  while a loop held a lease, this run is calm and no session has two executions at once. (The boot
  starts the IPC listener before the recovery, so a recovery can come late.)\<close>

theorem rail_refines_queue:
  assumes "(dstep parse ord C)\<^sup>*\<^sup>* (fresh_rail ags aw) R" "permutes ord"
  shows "(next_state parse ord)\<^sup>*\<^sup>* (fresh_daemon aw) (dmn R) \<and>
    (\<not> g_late R \<longrightarrow> (calm_state parse ord)\<^sup>*\<^sup>* (fresh_daemon aw) (dmn R) \<and> size {#t \<in># tasks (dmn R). executes sid t#} \<le> 1)"
proof -
  have d: "dmn (fresh_rail ags aw) = fresh_daemon aw" by (simp add: fresh_rail_def)
  show ?thesis
    using rail_daemon_run [OF assms(1)] exclusive_reachable [OF assms(2), of parse aw "dmn R"]
    unfolding daemon_run_def d by blast
qed

theorem rail_refines_queue_witness:
  "\<not> g_late (demo_sent ''s1'') \<and> size {#t \<in># tasks (dmn (demo_sent ''s1'')). executes ''s1'' t#} \<le> 1"
proof -
  have "\<not> g_late (demo_sent ''s1'')" by (simp add: demo_rail_defs)
  then show ?thesis using rail_refines_queue [OF demo_reached(2) permutes_id] by blast
qed

text \<open>C31. A tick keeps the caps: if the counts and limits are read and failed sends are rolled back,
  then a tick that no other writer of quests interrupts leaves no agent with more quests in progress than its \<open>max_concurrent\<close>, and no more
  than \<open>max_workers\<close> altogether, unless there already were.\<close>

theorem tick_within_caps:
  assumes "counts_ok E" "\<forall>n. limit_ok E n \<and> rollback_ok E n"
    and "distinct (map qr_id (quest_rows (reg R)))" "length (quest_rows (reg R)) < 2 ^ 32"
  shows "in_progress_of a (reg (snd (Quest_Dispatch.tick C E R))) \<le>
      max (in_progress_of a (reg R)) (unat (get_max_concurrent a (reg R))) \<and>
    in_progress_total (reg (snd (Quest_Dispatch.tick C E R))) \<le>
      max (in_progress_total (reg R)) (unat (max_workers C))"
proof -
  let ?pa = "in_progress_counts_by_agent (reg R)"
  have "counters_ok (sum_list (map snd ?pa)) ?pa 0 R"
    using assms(3,4) counts_exact [of "reg R"] by (simp add: counters_ok_def)
  from tick_loop_caps [OF assms(2) this ready_distinct [OF assms(3)]]
  have "within_caps C R (snd (tick_loop C E (sum_list (map snd ?pa)) 0 (ready_tasks (reg R)) ?pa 0 R))"
    using ready_snap by blast
  moreover have "within_caps C R R" by (simp add: within_caps_def)
  ultimately have "within_caps C R (snd (Quest_Dispatch.tick C E R))"
    using assms(1) unfolding Quest_Dispatch.tick_def Let_def by simp
  then show ?thesis by (simp add: within_caps_def)
qed

theorem tick_within_caps_witness:
  "in_progress_of ''a'' (reg (snd (Quest_Dispatch.tick demo_config (demo_tick ''s1'') demo_created))) \<le> 1"
  using tick_within_caps [of "demo_tick ''s1''" demo_created "''a''" demo_config]
  by (simp add: demo_tick_def demo_rail_defs in_progress_of_def get_max_concurrent_def get_agent_def)

text \<open>What a tick dispatches: the quests it sends are some of the ready ones, in the order of
  priority and age; each is within its retry budget and its agent exists, each is in progress
  afterwards, and the queue grows by exactly one message per quest, which names the quest.\<close>

theorem tick_dispatches:
  assumes "distinct (map qr_id (quest_rows (reg R)))"
  shows "\<exists>adm. subseq (map fst adm) (ready_tasks (reg R)) \<and> dispatched C E R (snd (Quest_Dispatch.tick C E R)) adm"
proof -
  have none: "\<exists>adm. subseq (map fst adm) (ready_tasks (reg R)) \<and> dispatched C E R R adm"
    by (rule exI [of _ "[]"]) (simp add: dispatched_def)
  have "\<exists>adm. subseq (map fst adm) (ready_tasks (reg R)) \<and>
      dispatched C E R (snd (tick_loop C E tif 0 (ready_tasks (reg R)) pa 0 R)) adm" for tif pa
    by (rule tick_loop_dispatches [OF ready_distinct [OF assms]]) (use ready_snap in blast)
  moreover have "snd (Quest_Dispatch.tick C E R) = R \<or>
      (\<exists>tif pa. snd (Quest_Dispatch.tick C E R) = snd (tick_loop C E tif 0 (ready_tasks (reg R)) pa 0 R))"
    by (auto simp: Quest_Dispatch.tick_def Let_def)
  ultimately show ?thesis using none by metis
qed

theorem tick_dispatches_witness:
  "\<exists>adm. subseq (map fst adm) (ready_tasks (reg demo_created)) \<and> dispatched demo_config (demo_tick ''s1'') demo_created (demo_sent ''s1'') adm"
  using tick_dispatches [of demo_created demo_config "demo_tick ''s1''"] demo_tick_sends [of "''s1''"]
  by (simp add: demo_created_def demo_db_def)

text \<open>The two ways in which a run ends a quest other than by a retry.\<close>

definition succeeded :: "run_result \<Rightarrow> bool" where
  "succeeded x \<longleftrightarrow> (\<exists>r. x = Ran r \<and> (stop_reason r = EndTurn \<or> stop_reason r = FallbackActivated))"

definition parked :: "exec_env \<Rightarrow> bool" where
  "parked E \<longleftrightarrow> (\<exists>s mode. classified E = Some (s, mode) \<and> mode \<in> {ExternalBlocker, BudgetExhausted})"

lemma terminal_cases:
  "terminal_status E = (if succeeded (x_run E) then Done else if parked E then Backlog else Todo)"
proof (cases "x_run E")
  case (Ran r)
  then show ?thesis
    by (cases "stop_reason r") (auto simp: terminal_status_def classified_def succeeded_def parked_def outcome_to_status_def
        Let_def split: option.splits)
qed (auto simp: terminal_status_def classified_def succeeded_def parked_def outcome_to_status_def Let_def split: option.splits)

text \<open>C32. The outcome of a run settles its quest, whatever was written to it before and during the run: done exactly when the agent ended its turn or fell
  back to another model; otherwise parked in the backlog when the failure was classified as an
  external blocker or an exhausted budget, and else todo again with one retry counted. No other
  quest changes, and the end of the quest is announced exactly when it is done.\<close>

theorem outcome_settles_quest:
  assumes "x_parse E (pc_payload c) = Some m" "is_quest m" "qm_quest_id m = Some qid" "x_spawn E m = Some sp" "x_finalize_ok E"
    and "execute E c R = (b, effs, R')"
  shows "quest_rows (reg R') = map (\<lambda>r. if qr_id r \<noteq> qid then r
      else if succeeded (x_run E) then r\<lparr>qr_status := ''done'', qr_updated_at := Some (x_now E), qr_closed_at := Some (x_now E)\<rparr>
      else if parked E then r\<lparr>qr_status := ''backlog'', qr_updated_at := Some (x_now E)\<rparr>
      else r\<lparr>qr_status := ''todo'', qr_updated_at := Some (x_now E), qr_retry_count := qr_retry_count r + 1\<rparr>)
      (quest_rows (reg (x_during E (spawn_writes E m R)))) \<and>
    (Quest_End qid (snd (run_outcome (x_run E))) \<in> set effs \<longleftrightarrow> succeeded (x_run E))"
proof -
  let ?R = "x_during E (spawn_writes E m R)"
  obtain es where s: "settle_quest E m sp qid ?R = (es, R')" and effs: "effs = inference_effects E sp @ transcript_effects E m sp @ es"
    using assms by (auto simp: execute_def conclude_def split: prod.splits)
  have "quest_rows (reg R') = quest_rows (finalize_quest qid (terminal_status E) (terminal_status E = Todo) (x_now E) (reg ?R))"
    using s assms(5) by (auto simp: settle_quest_def Let_def split: prod.splits)
  moreover have "Quest_End qid (snd (run_outcome (x_run E))) \<in> set es \<longleftrightarrow> terminal_status E = Done"
    using s assms(5) by (auto simp: settle_quest_def Let_def split: prod.splits option.splits if_splits)
  moreover have "Quest_End qid x \<notin> set (inference_effects E sp) \<union> set (transcript_effects E m sp)" for x
    by (auto simp: inference_effects_def transcript_effects_def split: run_result.splits if_splits)
  ultimately show ?thesis
    by (auto simp: effs terminal_cases finalize_quest_def update_where_def set_status_def closes_def)
qed

definition demo_exec_env :: exec_env where
  "demo_exec_env = \<lparr>x_parse = demo_parse, x_to_payload = demo_to_payload,
     x_worktree = Some (''/w'', ''b''), x_during = (\<lambda>R. R),
     x_spawn = (\<lambda>_. Some \<lparr>sp_session_id = ''s1'', sp_agent_id = ''a'', sp_agent_name = ''al'', sp_sandbox = False\<rparr>),
     x_run = Agent_Failed ''e'', x_config = demo_config, x_activity_log = True, x_session_store = True, x_classified = None,
     x_finalize_ok = True, x_enqueue_ok = True, x_now = 9\<rparr>"

theorem outcome_settles_quest_witness:
  "map (\<lambda>r. (qr_status r, qr_retry_count r))
     (quest_rows (reg (snd (snd (execute demo_exec_env \<lparr>pc_id = 1, pc_payload = ''q-001''\<rparr> (demo_sent ''s1'')))))) = [(''todo'', 1)]"
proof -
  let ?c = "\<lparr>pc_id = 1, pc_payload = ''q-001''\<rparr>"
  obtain b effs R' where x: "execute demo_exec_env ?c (demo_sent ''s1'') = (b, effs, R')" by (metis prod.exhaust)
  have "x_parse demo_exec_env (pc_payload ?c) = Some (qm_quest ''a'' [] ''q-001'' None (Some 0))"
    by (simp add: demo_exec_env_def demo_parse_def)
  note out = outcome_settles_quest [OF this _ _ _ _ x, where qid = "''q-001''" and sp = "the (x_spawn demo_exec_env undefined)"]
  have "map (\<lambda>r. (qr_status r, qr_retry_count r)) (quest_rows (reg R')) = [(''todo'', 1)]"
    using out by (simp add: is_quest_def qm_quest_def demo_exec_env_def succeeded_def parked_def classified_def demo_config_def
        spawn_writes_def rewrite_quest_def update_task_def get_task_def find_quest_def Let_def qret_def update_where_def
        keep_worktree_def row_to_task_def write_task_def row_status_def demo_rail_defs)
  then show ?thesis by (simp only: x snd_conv)
qed

text \<open>C33. New quests have new ids: in every state of the rail, as long as the table has fewer than
  2^32 - 1 rows, the id that the registry computes for a new quest, root or child, is in no row of
  the table, and a root id is in no row on its way into it either; and of the rows on their way,
  whose insertion comes in a later section, only that of a child can meet the primary key. (It does
  when another creation under the same parent came between, lemma siblings_collide.)\<close>

theorem new_quest_id_fresh:
  assumes "(dstep parse ord C)\<^sup>*\<^sup>* (fresh_rail ags aw) R" "length (quest_rows (reg R)) < 2 ^ 32 - 1"
    and "next_quest_id pre parent_id (reg R) = (Inr i, d)"
  shows "i \<notin> qr_id ` set (quest_rows (reg R)) \<and> (parent_id = None \<longrightarrow> i \<notin> qr_id ` set (inserting R)) \<and>
    (\<forall>r\<in>set (inserting R). fst (insert_quest r (reg R)) = Inl EConstraint \<longrightarrow> (\<exists>p k. qr_id r = child p k))"
proof -
  have N: "numbered R" by (rule run_numbered [OF assms(1,2)])
  have "i \<notin> quest_ids R \<and> (parent_id = None \<longrightarrow> i \<notin> pending_ids R)"
  proof (cases parent_id)
    case None
    then have "count_list (all_ids R) i = 0" using fresh_root [OF N] assms(3) by (simp add: next_quest_id_def)
    then show ?thesis using root_in_all by blast
  next
    case (Some pid)
    then show ?thesis using fresh_child [OF N assms(2)] assms(3) by (simp add: next_quest_id_def)
  qed
  moreover have "\<exists>p k. qr_id r = child p k" if "r \<in> set (inserting R)" "fst (insert_quest r (reg R)) = Inl EConstraint" for r
    using that pending_root_free [OF N that(1)] by (auto simp: insert_quest_def qret_def qfail_def split: if_splits)
  ultimately show ?thesis by blast
qed

theorem new_quest_id_fresh_witness:
  "\<exists>i d. next_quest_id ''q'' (Some ''q-001'') (reg demo_created) = (Inr i, d) \<and> i \<notin> qr_id ` set (quest_rows (reg demo_created))"
proof -
  obtain i d where i: "next_quest_id ''q'' (Some ''q-001'') (reg demo_created) = (Inr i, d)"
    by (simp add: next_quest_id_def next_child_id_def qret_def child_count_def demo_rail_defs)
  from new_quest_id_fresh [OF demo_reached(1) [of id] _ i] i show ?thesis by (simp add: demo_rail_defs)
qed

section \<open>Where the guarantees end\<close>

text \<open>The quests tool lets an agent make a quest todo, its own as well: each time the next tick may send
  it again, and its retry counter does not move.\<close>

lemma resend:
  assumes "quest_rows (reg R) = [r]" "qr_id r = ''q-001''" "qr_agent_id r = Some ''a''" "qr_depends_on r = []" "qr_retry_count r = 0"
    "agents (reg R) = [demo_agent]" "ticking R = None"
  shows "\<exists>R' r'. (dstep demo_parse ord demo_config)\<^sup>*\<^sup>* R R' \<and> quest_rows (reg R') = [r'] \<and> qr_id r' = ''q-001'' \<and>
    qr_agent_id r' = Some ''a'' \<and> qr_depends_on r' = [] \<and> qr_retry_count r' = 0 \<and> agents (reg R') = [demo_agent] \<and>
    ticking R' = None \<and> g_admitted R' = g_admitted R @ [''q-001'']"
proof -
  let ?f = "tool_update (Some Todo) None None 0"
  let ?S = "rewrite_quest ''q-001'' ?f 0 R"
  let ?r = "write_task (?f (row_to_task r)) 0 r"
  have 1: "dstep demo_parse ord demo_config R ?S" by (rule dstep.rewrite [OF tool_writes_counter(1)])
  have S: "reg ?S = (reg R)\<lparr>quest_rows := [?r]\<rparr>"
    using assms(1,2) by (simp add: rewrite_quest_def Let_def update_task_def get_task_def find_quest_def qret_def update_where_def
        tool_update_def row_to_task_def)
  have r: "qr_id ?r = ''q-001''" "qr_status ?r = ''todo''" "qr_agent_id ?r = Some ''a''" "qr_depends_on ?r = []" "qr_retry_count ?r = 0"
    using assms(2-5) by (simp_all add: write_task_def tool_update_def row_to_task_def)
  let ?t = "row_to_task ?r"
  have t: "quest_id ?t = ''q-001''" "agent_id ?t = Some ''a''" "depends_on ?t = []" "retry_count ?t = 0"
    using r by (simp_all add: row_to_task_def)
  have ready: "ready_tasks (reg ?S) = [?t]" using S r t by (simp add: ready_tasks_def)
  have counts: "in_progress_counts_by_agent (reg ?S) = []" using S r by (simp add: in_progress_counts_by_agent_def)
  let ?F = "set_quest_status ''q-001'' InProgress 0 ?S"
  let ?T = "?F\<lparr>dmn := queue_enqueue demo_parse ''s'' ''q-001'' 0 (dmn ?F), g_admitted := g_admitted ?F @ [''q-001'']\<rparr>"
  have "tick_task demo_config (demo_tick ''s'') 0 ?t [] 0 ?S = ([(''a'', 1)], 1, ?T)"
    using t S assms(6)
    by (simp add: tick_task_def gate_def demo_config_def demo_tick_def get_max_concurrent_def get_agent_def in_flight_def
        admit_def send_quest_def quest_message_def qm_quest_def demo_to_payload_def demo_agent_def del: spawn_writes_fields)
  then have T: "snd (Quest_Dispatch.tick demo_config (demo_tick ''s'') ?S) = ?T"
    unfolding Quest_Dispatch.tick_def Let_def ready counts by (simp add: demo_config_def)
  have "(dstep demo_parse ord demo_config)\<^sup>*\<^sup>* ?S ?T"
    using tick_run [of ?S "demo_tick ''s''" demo_parse ord demo_config] assms(7) T by simp
  with 1 have run: "(dstep demo_parse ord demo_config)\<^sup>*\<^sup>* R ?T" by (rule converse_rtranclp_into_rtranclp)
  show ?thesis
    by (intro exI [of _ ?T] exI [of _ "set_status InProgress 0 ?r"] conjI run)
      (use S r assms(6,7) in \<open>simp_all add: set_quest_status_def update_task_status_def update_where_def set_status_def\<close>)
qed

lemma agent_resends:
  "\<exists>R. (dstep demo_parse ord demo_config)\<^sup>*\<^sup>* (fresh_rail [demo_agent] []) R \<and> count_list (g_admitted R) ''q-001'' = n \<and>
     (\<forall>r\<in>set (quest_rows (reg R)). qr_retry_count r = 0)"
proof -
  have "\<exists>R r. (dstep demo_parse ord demo_config)\<^sup>*\<^sup>* (fresh_rail [demo_agent] []) R \<and> count_list (g_admitted R) ''q-001'' = n \<and>
    quest_rows (reg R) = [r] \<and> qr_id r = ''q-001'' \<and> qr_agent_id r = Some ''a'' \<and> qr_depends_on r = [] \<and>
    qr_retry_count r = 0 \<and> agents (reg R) = [demo_agent] \<and> ticking R = None"
  proof (induction n)
    case 0
    show ?case by (intro exI [of _ demo_created] exI [of _ "demo_quest_row Todo"] conjI demo_reached(1)) (simp_all add: demo_rail_defs)
  next
    case (Suc n)
    then obtain R r where R: "(dstep demo_parse ord demo_config)\<^sup>*\<^sup>* (fresh_rail [demo_agent] []) R" "count_list (g_admitted R) ''q-001'' = n"
      "quest_rows (reg R) = [r]" "qr_id r = ''q-001''" "qr_agent_id r = Some ''a''" "qr_depends_on r = []" "qr_retry_count r = 0"
      "agents (reg R) = [demo_agent]" "ticking R = None" by blast
    from resend [OF R(3-9), of ord] obtain R' r' where "(dstep demo_parse ord demo_config)\<^sup>*\<^sup>* R R'" "quest_rows (reg R') = [r']"
      "qr_id r' = ''q-001''" "qr_agent_id r' = Some ''a''" "qr_depends_on r' = []" "qr_retry_count r' = 0"
      "agents (reg R') = [demo_agent]" "ticking R' = None" "g_admitted R' = g_admitted R @ [''q-001'']" by blast
    then show ?case using R(1,2)
      by (intro exI [of _ R'] exI [of _ r'] conjI rtranclp_trans [OF R(1)]) (simp_all add: count_list_append)
  qed
  then show ?thesis by fastforce
qed

text \<open>Two creations under one parent that compute their ids before either inserts its row compute the
  same id; the second insertion meets the primary key.\<close>

lemma siblings_collide:
  "\<exists>R r. (dstep demo_parse ord demo_config)\<^sup>*\<^sup>* (fresh_rail [demo_agent] []) R \<and> r \<in> set (inserting R) \<and>
     fst (insert_quest r (reg R)) = Inl EConstraint"
proof -
  let ?k = "of_nat (child_count ''q-001'' (demo_db Todo)) + 1 :: u32"
  let ?r = "new_quest_row (child ''q-001'' ?k) ''v'' None Global [] 0"
  have small: "\<not> 2 ^ 32 \<le> child_count ''q-001'' (demo_db Todo)"
    using child_count_le [of "''q-001''" "demo_db Todo"] by (simp add: demo_db_def)
  have n: "next_quest_id ''q'' (Some ''q-001'') (demo_db Todo) = (Inr (child ''q-001'' ?k), demo_db Todo)"
    using small by (simp add: next_quest_id_def next_child_id_def qret_def)
  have c: "reg demo_created = demo_db Todo" "inserting demo_created = []" by (simp_all add: demo_rail_defs)
  let ?S = "demo_created\<lparr>inserting := [?r]\<rparr>" and ?T = "demo_created\<lparr>inserting := [?r, ?r]\<rparr>"
  let ?d = "(demo_db Todo)\<lparr>quest_rows := quest_rows (demo_db Todo) @ [?r]\<rparr>"
  have same: "demo_created\<lparr>reg := demo_db Todo\<rparr> = demo_created" by (simp add: demo_created_def)
  have 1: "dstep demo_parse ord demo_config demo_created ?S"
    using dstep.number [of "''q''" "Some ''q-001''" demo_created] n c same by fastforce
  have "dstep demo_parse ord demo_config ?S (?S\<lparr>reg := demo_db Todo, inserting := inserting ?S @ [?r]\<rparr>)"
    by (rule dstep.number [of "''q''" "Some ''q-001''"]) (simp add: n c)
  then have 2: "dstep demo_parse ord demo_config ?S ?T" using same by (simp add: demo_created_def)
  have new: "child ''q-001'' ?k \<noteq> ''q-001''" by (simp add: child_def)
  then have "insert_quest ?r (reg ?T) = (Inr (), ?d)"
    by (simp add: insert_quest_def qret_def c demo_db_def demo_quest_row_def new_quest_row_def)
  then have 3: "dstep demo_parse ord demo_config ?T (?T\<lparr>reg := ?d, inserting := [] @ [?r]\<rparr>)"
    by (intro dstep.insert [where rs = "[]" and r = ?r]) simp_all
  have "(dstep demo_parse ord demo_config)\<^sup>*\<^sup>* (fresh_rail [demo_agent] []) (?T\<lparr>reg := ?d, inserting := [] @ [?r]\<rparr>)"
    by (rule dsteps_then [OF dsteps_then [OF dsteps_then [OF demo_reached(1) 1] 2] 3])
  moreover have "fst (insert_quest ?r ?d) = Inl EConstraint" by (simp add: insert_quest_def qfail_def)
  ultimately show ?thesis by (intro exI [of _ "?T\<lparr>reg := ?d, inserting := [] @ [?r]\<rparr>"] exI [of _ ?r]) simp
qed

text \<open>The ready list is not hydrated: the body of every quest it holds is empty, and so is the message
  that is sent to the agent.\<close>

lemma sent_message_empty:
  assumes "t \<in> set (ready_tasks d)"
  shows "qm_message (quest_message C E n t ag) = []"
proof -
  obtain r where "t = row_to_task r" using assms by (auto simp: ready_tasks_def)
  then show ?thesis by (simp add: quest_message_def qm_quest_def body_def row_to_task_def)
qed

text \<open>When the session cannot be spawned the executor returns before it settles the quest. The loop
  then deletes the message; the quest stays in progress, and no tick looks at it again.\<close>

lemma spawn_failure_strands:
  assumes "x_parse E (pc_payload c) = Some m" "x_spawn E m = None"
  shows "execute E c R = (False, [], spawn_writes E m R)"
  using assms by (simp add: execute_def)

lemma in_progress_not_ready:
  assumes "distinct (map qr_id (quest_rows d))" "r \<in> set (quest_rows d)" "qr_status r = ''in_progress''"
  shows "qr_id r \<notin> quest_id ` set (ready_tasks d)"
proof
  assume "qr_id r \<in> quest_id ` set (ready_tasks d)"
  then obtain x where "x \<in> set (quest_rows d)" "qr_id x = qr_id r" "qr_status x = ''todo''"
    by (auto simp: ready_tasks_def row_to_task_def)
  moreover have "x = r" using assms(1,2) calculation(1,2) by (auto simp: distinct_map dest: inj_onD)
  ultimately show False using assms(3) by simp
qed

text \<open>A boot puts a quest whose message is still queued back to todo and starts a loop for that
  message; the next tick sends the quest again: two messages for it, each with a task.\<close>

definition demo_restarted :: rail where
  "demo_restarted = snd (Quest_Dispatch.tick demo_config (demo_tick ''s2'') (reboot (demo_sent ''s1'')))"

lemma demo_restarted_reached: "(dstep demo_parse ord demo_config)\<^sup>*\<^sup>* (fresh_rail [demo_agent] []) demo_restarted"
proof -
  have "(dstep demo_parse ord demo_config)\<^sup>*\<^sup>* (fresh_rail [demo_agent] []) (reboot (demo_sent ''s1''))"
    by (rule rtranclp_trans [OF demo_reached(2) reboot_run])
  moreover have "ticking (reboot (demo_sent ''s1'')) = None"
    by (simp add: reboot_def recover_rail_def reset_quests_def crash_rail_def Let_def)
  ultimately show ?thesis
    unfolding demo_restarted_def using tick_run [of "reboot (demo_sent ''s1'')" "demo_tick ''s2''" demo_parse ord demo_config]
    by (simp add: rtranclp_trans)
qed

definition demo_again :: quest_row where
  "demo_again = (demo_quest_row InProgress)\<lparr>qr_status := ''todo'', qr_retry_count := 1\<rparr>"

lemma demo_rebooted:
  "reg (reboot (demo_sent ''s1'')) = (demo_db Todo)\<lparr>quest_rows := [demo_again]\<rparr>"
  "tasks (dmn (reboot (demo_sent ''s1''))) = {#Claiming ''s1''#}"
  "map (\<lambda>p. (pm_session p, pm_payload p, pm_status p)) (pending (queue (dmn (reboot (demo_sent ''s1''))))) =
     [(''s1'', ''q-001'', Queued)]"
  by (simp_all add: reboot_def crash_rail_def reset_quests_def recover_rail_def Let_def reset_stale_in_progress_def update_where_def demo_rail_defs demo_again_def
      recover_orphaned_running_def queue_enqueue_def enqueue_pending_def insert_pending_def clear_if_awaiting_def
      fresh_daemon_def demo_parse_def qm_quest_def is_quest_def sessions_with_queued_def)

lemma demo_again_task: "row_to_task demo_again =
    (with_agent 0 ''q-001'' ''u'' (Some ''a''))\<lparr>metadata := JObject [], retry_count := 1, updated_at := Some 0\<rparr>"
  by (simp add: demo_again_def demo_quest_row_def new_quest_row_def row_to_task_def row_status_def row_priority_def
      scope_from_str_def row_outcome_def with_agent_def default_quest_kind_def)

lemma demo_again_ready: "ready_tasks ((demo_db Todo)\<lparr>quest_rows := [demo_again]\<rparr>) = [row_to_task demo_again]"
  by (simp add: ready_tasks_def demo_again_task) (simp add: demo_again_def with_agent_def)

lemma queue_enqueue_rows:
  "map (\<lambda>p. (pm_session p, pm_payload p, pm_status p)) (pending (queue (queue_enqueue parse sid payload now D))) =
     map (\<lambda>p. (pm_session p, pm_payload p, pm_status p)) (pending (queue D)) @ [(sid, payload, Queued)]"
  by (simp add: queue_enqueue_def enqueue_pending_def insert_pending_def clear_if_awaiting_def split: option.splits prod.splits)

lemma boot_sends_twice:
  "map (\<lambda>p. (pm_session p, pm_payload p, pm_status p)) (pending (queue (dmn demo_restarted))) =
     [(''s1'', ''q-001'', Queued), (''s2'', ''q-001'', Queued)]"
  "tasks (dmn demo_restarted) = {#Claiming ''s1'', Enqueuing ''s2''#}"
proof -
  have c: "in_progress_counts_by_agent ((demo_db Todo)\<lparr>quest_rows := [demo_again]\<rparr>) = []"
    by (simp add: in_progress_counts_by_agent_def demo_again_def)
  have three: "\<not> (3 :: u32) \<le> 1" by (simp add: word_le_nat_alt)
  have d: "dmn demo_restarted = queue_enqueue demo_parse ''s2'' ''q-001'' 0 (dmn (reboot (demo_sent ''s1'')))"
    unfolding demo_restarted_def Quest_Dispatch.tick_def Let_def demo_rebooted(1) demo_again_ready c
    using three by (simp add: demo_rebooted(1) demo_again_task tick_task_def gate_def with_agent_def demo_config_def demo_tick_def
        get_max_concurrent_def get_agent_def in_flight_def admit_def send_quest_def Let_def quest_message_def qm_quest_def
        demo_to_payload_def demo_db_def demo_agent_def)
  show "map (\<lambda>p. (pm_session p, pm_payload p, pm_status p)) (pending (queue (dmn demo_restarted))) =
      [(''s1'', ''q-001'', Queued), (''s2'', ''q-001'', Queued)]"
    unfolding d queue_enqueue_rows demo_rebooted(3) by simp
  show "tasks (dmn demo_restarted) = {#Claiming ''s1'', Enqueuing ''s2''#}"
    unfolding d queue_enqueue_tasks demo_rebooted(2) by simp
qed

text \<open>The flip to in progress does not look at the status it overwrites: a quest that was cancelled
  after the tick read the ready list is run all the same.\<close>

lemma cancelled_quest_reopened:
  "map (\<lambda>r. (qr_status r, qr_closed_at r)) (quest_rows (reg (snd (tick_loop demo_config (demo_tick ''s1'') 0 0
       (ready_tasks (reg demo_created)) [] 0 (set_quest_status ''q-001'' Cancelled 7 demo_created))))) =
     [(''in_progress'', Some 7)]"
proof -
  have r: "reg demo_created = demo_db Todo" by (simp add: demo_created_def)
  show ?thesis
    unfolding r demo_ready
    by (simp add: tick_task_def gate_def with_agent_def demo_config_def demo_tick_def get_max_concurrent_def get_agent_def
        in_flight_def admit_def send_quest_def Let_def quest_message_def qm_quest_def demo_to_payload_def set_quest_status_def
        update_task_status_def update_where_def set_status_def closes_def demo_rail_defs)
qed

text \<open>The status \<open>in_review\<close> is written and not read: any update of a quest in review makes it todo,
  and the next tick may send it.\<close>

lemma status_read_back: "row_status (show_status st) = (if st = InReview then Todo else st)"
  by (cases st) (simp_all add: row_status_def)

lemma update_ends_review:
  assumes "find_quest i d = Some r" "qr_status r = show_status InReview"
  shows "\<exists>q d'. update_task i (\<lambda>q. q) now d = (Inr q, d') \<and> status q = Todo \<and>
    (\<forall>r'\<in>set (quest_rows d'). qr_id r' = i \<longrightarrow> qr_status r' = ''todo'')"
proof -
  have "qr_id r = i" using assms(1) by (auto simp: find_quest_def find_Some_iff)
  then show ?thesis using assms
    by (auto simp: update_task_def get_task_def qret_def row_to_task_def row_status_def update_where_def write_task_def Let_def)
qed

text \<open>The result of a quest goes to its creator as a chat message, and a chat message counts as the answer
  of a person: it clears the question that the session was waiting on.\<close>

lemma result_clears_question:
  assumes "Session_Queue.creator_session_id m = Some creator" "x_session_store E" "x_enqueue_ok E"
    and "\<And>msg. x_to_payload E msg = Some (enc msg)" "\<And>msg. x_parse E (enc msg) = Some msg"
    and "map_of (awaiting (queue (dmn R))) creator = Some (Some question)"
  shows "map_of (awaiting (queue (dmn (fan_out E m sp qid R)))) creator = Some None"
  using assms
  by (cases "run_outcome (x_run E)")
    (simp add: fan_out_def queue_enqueue_def enqueue_pending_def insert_pending_def clear_if_awaiting_def qm_chat_def
      is_quest_def update_conv')

text \<open>Idea names are unique per agent only, and the lookup of an open claim stops at the first idea of
  the name: the open claim of another agent is not found.\<close>

lemma open_claim_missed:
  "find_open_task_by_subject ''c'' (demo_db Todo\<lparr>
     ideas := [\<lparr>ir_id = ''i'', ir_name = ''c'', ir_content = [], ir_scope = ''self'', ir_agent_id = Some ''b'',
         ir_session_id = None, ir_created_at = 0, ir_kind = ''note'', ir_file_id = None, ir_tags = []\<rparr>,
       \<lparr>ir_id = ''u'', ir_name = ''c'', ir_content = [], ir_scope = ''self'', ir_agent_id = Some ''a'',
         ir_session_id = None, ir_created_at = 0, ir_kind = ''note'', ir_file_id = None, ir_tags = []\<rparr>]\<rparr>) = None"
  by (simp add: find_open_task_by_subject_def demo_db_def demo_quest_row_def new_quest_row_def)

text \<open>An agent without a prefix whose name has a wide character across its second byte (here the bytes
  of a letter and an e with an acute accent) cannot be given a quest: the slice panics.\<close>

lemma wide_name_panics:
  "agent_quest_prefix lower ''a'' (demo_db Todo\<lparr>agents := [demo_agent\<lparr>ag_name := [CHR ''x'', CHR 0xC3, CHR 0xA9],
     quest_prefix := None\<rparr>]\<rparr>) = (Inl EPanic, demo_db Todo\<lparr>agents := [demo_agent\<lparr>ag_name := [CHR ''x'', CHR 0xC3, CHR 0xA9],
     quest_prefix := None\<rparr>]\<rparr>)"
  by (simp add: agent_quest_prefix_def get_agent_def demo_agent_def char_boundary_def qfail_def)

end
