(* ===== verification/Quests_Cascade.thy ===== *)
theory Quests_Cascade
  imports Quests_Deps
begin

text \<open>
  Closing a quest: \<open>close\<close> and the climb of \<open>cascade_parent_close\<close> through its
  ancestors. One step of the climb is analysed once, in \<open>cascade_cases\<close>; the two
  properties say which quests change and why, and that no pure container is left open when
  its children are closed.
\<close>

section \<open>One step of the climb\<close>

text \<open>Every append succeeds and every quest can be serialized.\<close>

definition writes_ok :: "world \<Rightarrow> bool" where
  "writes_ok W \<longleftrightarrow> (\<forall>n. append_io W n = IoOk) \<and> (\<forall>q. to_string (codec W) q \<noteq> None)"

lemma update_get:
  assumes "update W i f b = (r, b')" and "board_get i b = Some q"
  shows "board_get j b' =
    (if j = i then Some ((f (utc_now W (tick b)) q)\<lparr>updated_at := Some (utc_now W (Suc (tick b)))\<rparr>)
     else board_get j b)"
  using update_index [of W i f b] assms by (simp add: board_get_def update_conv')

lemma update_ok:
  "writes_ok W \<Longrightarrow> board_get i b = Some q \<Longrightarrow> \<exists>q' b'. update W i f b = (Inr q', b')"
  by (auto simp: update_def persist_def writes_ok_def Let_def split: option.splits)

lemma update_wf: "update W i f b = (r, b') \<Longrightarrow> modest f \<Longrightarrow> index_wf (quests b) \<Longrightarrow> index_wf (quests b')"
  using wf_index.update_keeps [of b f W i] by simp

lemma children_iff:
  assumes "index_wf (quests b)"
  shows "k \<in> set (children p b) \<longleftrightarrow>
    board_get (quest_id k) b = Some k \<and> parent (quest_id k) = Some p"
  using index_quest [OF assms, of k] by (auto simp: children_def board_get_def)

lemma lookup_children_wf:
  "index_wf (quests b) \<Longrightarrow> lookup_children p b = map Some (children p b)"
  by (simp add: lookup_children_def children_iff)

text \<open>A quest whose parent needs no further attention.\<close>

definition settled :: "QuestId \<Rightarrow> QuestBoard \<Rightarrow> bool" where
  "settled c b \<longleftrightarrow> (\<forall>p pq. parent c = Some p \<longrightarrow> board_get p b = Some pq \<longrightarrow>
     is_closed pq \<or> (\<exists>k\<in>set (children p b). \<not> is_closed k) \<or>
     (checkpoints pq \<noteq> [] \<and> status pq = Todo))"

lemma cascade_cases:
  assumes "index_wf (quests b)" and "board_get c b = Some cq"
  obtains (stop) "cascade_parent_close W c b = b" "settled c b"
  | (step) p pq f r b1 where
      "parent c = Some p" "board_get p b = Some pq" "\<not> is_closed pq"
      "\<And>k. k \<in> set (children p b) \<Longrightarrow> is_closed k"
      "update W p f b = (r, b1)" "modest f"
      "(checkpoints pq \<noteq> [] \<and> f = (\<lambda>_ q. q\<lparr>status := Todo\<rparr>) \<and> cascade_parent_close W c b = b1) \<or>
       (checkpoints pq = [] \<and> f = cascade_close (codec W) (map Some (children p b)) \<and>
        (case r of Inl e \<Rightarrow> cascade_parent_close W c b = b1
         | Inr _ \<Rightarrow> cascade_parent_close W c b = cascade_parent_close W p b1))"
proof (cases "\<exists>p pq. parent c = Some p \<and> board_get p b = Some pq \<and> \<not> is_closed pq \<and>
                 (\<forall>k\<in>set (children p b). is_closed k)")
  case False
  have "cascade_parent_close W c b = b"
    using False by (subst cascade_parent_close.simps)
      (auto simp: Let_def lookup_children_wf [OF assms(1)] list_all_iff is_some_and_def
        split: option.splits)
  moreover have "settled c b" using False by (auto simp: settled_def)
  ultimately show thesis by (rule stop)
next
  case True
  then obtain p pq where p: "parent c = Some p" "board_get p b = Some pq" "\<not> is_closed pq"
    and k: "\<And>k. k \<in> set (children p b) \<Longrightarrow> is_closed k" by blast
  have "quest_id cq = c" using assms index_id by (auto simp: board_get_def)
  then have "cq \<in> set (children p b)" using assms p(1) by (simp add: children_iff)
  then have ne: "children p b \<noteq> []" by auto
  have eq: "cascade_parent_close W c b =
     (if checkpoints pq \<noteq> [] then snd (update W p (\<lambda>_ q. q\<lparr>status := Todo\<rparr>) b)
      else (case update W p (cascade_close (codec W) (map Some (children p b))) b of
                  (Inl e, b') \<Rightarrow> b'
                | (Inr _, b') \<Rightarrow> cascade_parent_close W p b'))"
    using p ne k by (subst cascade_parent_close.simps)
      (simp add: Let_def lookup_children_wf [OF assms(1)] list_all_iff is_some_and_def)
  define f where "f = (if checkpoints pq \<noteq> [] then (\<lambda>_ q. q\<lparr>status := Todo\<rparr>)
     else cascade_close (codec W) (map Some (children p b)))"
  obtain r b1 where u: "update W p f b = (r, b1)" by fastforce
  have "modest f" by (simp add: f_def modest_closures)
  with p k u show thesis
    by (rule step) (use u in \<open>auto simp: f_def eq split: sum.splits\<close>)
qed

text \<open>The verdict on a parent one of whose children is done.\<close>

lemma cascade_close_done:
  assumes "k \<in> set ks" and "status k \<noteq> Cancelled"
  shows "status (cascade_close S (map Some ks) t q) = Done"
  using assms
  by (auto simp: cascade_close_def cascade_verdict_def is_some_and_def list_all_iff close_with_def)

section \<open>The climb\<close>

definition parent_of :: "(QuestId \<times> QuestId) set" where
  "parent_of = {(c, p). parent c = Some p}"

lemma ancestor_shorter: "(c, j) \<in> parent_of\<^sup>+ \<Longrightarrow> length j < length c"
  by (induction rule: trancl_induct) (auto simp: parent_of_def dest: parent_shorter)

text \<open>
  Why an ancestor changed: it was open, and either it has checkpoints and is queued again, or
  it is done and all its children are closed.
\<close>

definition explained :: "QuestBoard \<Rightarrow> QuestId \<Rightarrow> QuestBoard \<Rightarrow> bool" where
  "explained b j b' \<longleftrightarrow> (\<exists>q q'. board_get j b = Some q \<and> \<not> is_closed q \<and> board_get j b' = Some q' \<and>
     checkpoints q' = checkpoints q \<and>
     (if checkpoints q \<noteq> [] then status q' = Todo
      else status q' = Done \<and> (\<forall>k\<in>set (children j b'). is_closed k)))"

lemma children_same:
  assumes "index_wf (quests b)" "index_wf (quests b')"
    and "\<And>k. parent k = Some p \<Longrightarrow> board_get k b' = board_get k b"
  shows "set (children p b') = set (children p b)"
  using assms(3) by (auto simp: children_iff [OF assms(1)] children_iff [OF assms(2)])

lemma cascade_wf: "index_wf (quests b) \<Longrightarrow> index_wf (quests (cascade_parent_close W c b))"
  by (rule wf_index.cascade_keeps)

lemma cascade_checkpoints [simp]: "checkpoints (cascade_close S ms t q) = checkpoints q"
  by (simp add: cascade_close_def close_with_def split: prod.splits)

text \<open>What a climb from \<open>c\<close> does to the board.\<close>

definition changes_explained :: "QuestId \<Rightarrow> QuestBoard \<Rightarrow> QuestBoard \<Rightarrow> bool" where
  "changes_explained c b b' \<longleftrightarrow> (\<forall>j. board_get j b' \<noteq> board_get j b \<longrightarrow>
     (c, j) \<in> parent_of\<^sup>+ \<and> explained b j b')"

definition changes_settled :: "QuestId \<Rightarrow> QuestBoard \<Rightarrow> QuestBoard \<Rightarrow> bool" where
  "changes_settled c b b' \<longleftrightarrow> settled c b' \<and> (\<forall>j q. board_get j b' \<noteq> board_get j b \<longrightarrow>
     board_get j b' = Some q \<longrightarrow> is_closed q \<longrightarrow> settled j b')"

text \<open>The update of the parent alone.\<close>

lemma update_explained:
  assumes wf: "index_wf (quests b)" and "board_get c b = Some cq" "status cq = Done"
    and p: "parent c = Some p" "board_get p b = Some pq" "\<not> is_closed pq"
    and closed: "\<And>k. k \<in> set (children p b) \<Longrightarrow> is_closed k"
    and u: "update W p f b = (r, b1)" "modest f"
    and f: "f = (if checkpoints pq \<noteq> [] then (\<lambda>_ q. q\<lparr>status := Todo\<rparr>)
                 else cascade_close (codec W) (map Some (children p b)))"
  shows "index_wf (quests b1)" "\<And>j. j \<noteq> p \<Longrightarrow> board_get j b1 = board_get j b"
    "explained b p b1" "\<exists>q. board_get p b1 = Some q \<and> (status q = Done \<or> checkpoints q \<noteq> [] \<and> status q = Todo)"
proof -
  show wf1: "index_wf (quests b1)" using update_wf [OF u wf] .
  show other: "board_get j b1 = board_get j b" if "j \<noteq> p" for j
    using update_get [OF u(1) p(2)] that by simp
  have "cq \<in> set (children p b)"
    using assms(2) p(1) wf index_id by (simp add: children_iff board_get_def)
  then have verdict: "status (cascade_close (codec W) (map Some (children p b)) t q) = Done" for t q
    by (rule cascade_close_done) (simp add: assms(3))
  have "set (children p b1) = set (children p b)"
    by (rule children_same [OF wf wf1]) (auto intro!: other dest: parent_shorter)
  with update_get [OF u(1) p(2), of p] p closed verdict
  show "explained b p b1" and "\<exists>q. board_get p b1 = Some q \<and>
      (status q = Done \<or> checkpoints q \<noteq> [] \<and> status q = Todo)"
    by (auto simp: explained_def f)
qed

lemma explained_trans:
  assumes "index_wf (quests b1)" "index_wf (quests b2)" and e: "explained b p b1"
    and same: "\<And>j. length p \<le> length j \<Longrightarrow> board_get j b2 = board_get j b1"
  shows "explained b p b2"
proof -
  have kids: "set (children p b2) = set (children p b1)"
    by (rule children_same [OF assms(1,2)]) (auto intro!: same dest: parent_shorter)
  have "board_get p b2 = board_get p b1" by (simp add: same)
  with e show ?thesis unfolding explained_def kids by simp
qed

lemma explained_later:
  "explained b1 j b2 \<Longrightarrow> board_get j b1 = board_get j b \<Longrightarrow> explained b j b2"
  by (simp add: explained_def)

text \<open>The update of the parent, followed by the climb from there.\<close>

lemma climb_spec:
  assumes "index_wf (quests b1)" and other: "\<And>j. j \<noteq> p \<Longrightarrow> board_get j b1 = board_get j b"
    and e: "explained b p b1" and q1: "board_get p b1 = Some q1" "status q1 = Done"
    and cp: "(c, p) \<in> parent_of"
    and B: "B = cascade_parent_close W p b1" and IH: "changes_explained p b1 B"
  shows "changes_explained c b B" and "changes_settled p b1 B \<Longrightarrow> changes_settled c b B"
proof -
  have wf2: "index_wf (quests B)" unfolding B by (rule cascade_wf [OF assms(1)])
  have short: "length j < length p" if "board_get j B \<noteq> board_get j b1" for j
    using IH that ancestor_shorter unfolding changes_explained_def by blast
  then have same: "length p \<le> length j \<Longrightarrow> board_get j B = board_get j b1" for j
    by (meson leD)
  have ep: "explained b p B" by (rule explained_trans [OF assms(1) wf2 e same])
  have changed: "(c, j) \<in> parent_of\<^sup>+ \<and> explained b j B" if "board_get j B \<noteq> board_get j b" for j
  proof (cases "board_get j B = board_get j b1")
    case True
    with that other have "j = p" by metis
    with ep cp show ?thesis by auto
  next
    case False
    then have "(p, j) \<in> parent_of\<^sup>+" "explained b1 j B"
      using IH unfolding changes_explained_def by blast+
    moreover have "j \<noteq> p" using short [OF False] by auto
    ultimately show ?thesis using cp explained_later other by (meson trancl_into_trancl2)
  qed
  then show "changes_explained c b B" by (simp add: changes_explained_def)
  assume s: "changes_settled p b1 B"
  have "settled c B" using same [of p] q1 cp by (simp add: settled_def parent_of_def is_closed_def)
  moreover have "settled j B" if "board_get j B \<noteq> board_get j b" "board_get j B = Some q" "is_closed q"
    for j q
    using that s other unfolding changes_settled_def by metis
  ultimately show "changes_settled c b B" unfolding changes_settled_def by blast
qed

lemma cascade_spec:
  assumes "index_wf (quests b)" and "board_get c b = Some cq" and "status cq = Done"
  shows "changes_explained c b (cascade_parent_close W c b) \<and>
         (writes_ok W \<longrightarrow> changes_settled c b (cascade_parent_close W c b))"
  using assms
proof (induction "length c" arbitrary: c b cq rule: less_induct)
  case less
  let ?B = "cascade_parent_close W c b"
  from less(2,3) show ?case
  proof (cases rule: cascade_cases [where W = W])
    case stop
    then show ?thesis by (simp add: changes_explained_def changes_settled_def)
  next
    case (step p pq f r b1)
    have f: "f = (if checkpoints pq \<noteq> [] then (\<lambda>_ q. q\<lparr>status := Todo\<rparr>)
                 else cascade_close (codec W) (map Some (children p b)))" using step(7) by auto
    note one = update_explained [OF less(2-4) step(1-6) f]
    obtain q1 where q1: "board_get p b1 = Some q1"
      "status q1 = Done \<or> checkpoints q1 \<noteq> [] \<and> status q1 = Todo" using one(4) by blast
    have cp: "(c, p) \<in> parent_of" using step(1) by (simp add: parent_of_def)
    have base: "changes_explained c b b1" unfolding changes_explained_def
      using one(2,3) cp by (metis trancl.r_into_trancl)
    consider (requeue) "checkpoints pq \<noteq> []" "?B = b1"
      | (failed) e where "r = Inl e" "?B = b1"
      | (climb) x where "r = Inr x" "checkpoints pq = []" "?B = cascade_parent_close W p b1"
      using step(7) by (cases r) auto
    then show ?thesis
    proof cases
      case requeue
      have "status q1 = Todo" using one(3) step(2) requeue(1) q1(1) by (auto simp: explained_def)
      moreover have "settled c b1" using q1 step(1) by (auto simp: settled_def is_closed_def)
      moreover have "board_get j b1 \<noteq> board_get j b \<Longrightarrow> j = p" for j using one(2) by blast
      ultimately have "changes_settled c b b1" using q1(1)
        by (auto simp: changes_settled_def is_closed_def)
      with base requeue show ?thesis by simp
    next
      case failed
      have "\<not> writes_ok W" using update_ok [of W p b pq f] step(2,5) failed(1) by auto
      with base failed show ?thesis by simp
    next
      case climb
      have dn: "status q1 = Done" using one(3) step(2) climb(2) q1(1) by (auto simp: explained_def)
      note IH = less(1) [OF parent_shorter [OF step(1)] one(1) q1(1) dn]
      show ?thesis using climb_spec [OF one(1-3) q1(1) dn cp refl] IH climb(3) by simp
    qed
  qed
qed

section \<open>Closing a quest\<close>

lemma close_ok:
  assumes "close W i why b = (Inr q, b')"
  obtains q0 b1 where "board_get i b = Some q0"
    "update W i (close_with (codec W) Done OutcomeDone why) b = (Inr q, b1)"
    "b' = cascade_parent_close W (quest_id q) b1"
proof -
  obtain b1 where u: "update W i (close_with (codec W) Done OutcomeDone why) b = (Inr q, b1)"
    "b' = cascade_parent_close W (quest_id q) b1"
    using assms by (auto simp: close_def split: prod.splits sum.splits)
  from u(1) obtain q0 where "board_get i b = Some q0"
    by (auto simp: update_def split: option.splits)
  with u that show thesis by blast
qed

lemma close_updated:
  assumes wf: "index_wf (quests b)" and u: "board_get i b = Some q0"
    "update W i (close_with (codec W) Done OutcomeDone why) b = (Inr q, b1)"
  shows "index_wf (quests b1)" "board_get i b1 = Some q" "quest_id q = i" "status q = Done"
    "\<And>j. j \<noteq> i \<Longrightarrow> board_get j b1 = board_get j b"
proof -
  show "index_wf (quests b1)" using update_wf [OF u(2) modest_closures(2) wf] .
  have q: "q = (close_with (codec W) Done OutcomeDone why (utc_now W (tick b)) q0)
      \<lparr>updated_at := Some (utc_now W (Suc (tick b)))\<rparr>"
    using u by (auto simp: update_def Let_def split: prod.splits sum.splits)
  show "board_get i b1 = Some q" "\<And>j. j \<noteq> i \<Longrightarrow> board_get j b1 = board_get j b"
    using update_get [OF u(2,1)] q by simp_all
  show "quest_id q = i" "status q = Done"
    using u(1) index_id [OF wf] by (simp_all add: q close_with_def board_get_def)
qed

lemma close_changes:
  assumes wf: "index_wf (quests b)" and c: "close W i why b = (Inr q, b')"
    and j: "j \<noteq> i" "board_get j b' \<noteq> board_get j b"
  shows "(i, j) \<in> parent_of\<^sup>+ \<and> explained b j b'"
proof -
  from c obtain q0 b1 where u: "board_get i b = Some q0"
    "update W i (close_with (codec W) Done OutcomeDone why) b = (Inr q, b1)"
    "b' = cascade_parent_close W (quest_id q) b1" by (rule close_ok)
  note c1 = close_updated [OF wf u(1,2)]
  have "changes_explained i b1 b'"
    using cascade_spec [OF c1(1,2,4), of W] u(3) c1(3) by simp
  with j c1(5) [OF j(1)] show ?thesis
    unfolding changes_explained_def by (metis explained_later)
qed

text \<open>A container with one step, and the board after the step is closed.\<close>

definition demo_tree :: QuestBoard where
  "demo_tree = snd (create_child (demo_world []) ''as-001'' ''Step'' demo1)"

definition demo_closed :: "Quest outcome" where
  "demo_closed = close (demo_world []) ''as-001.1'' ''built'' demo_tree"

lemma demo_closed_result:
  "close (demo_world []) ''as-001.1'' ''built'' demo_tree =
     (Inr (projr (fst demo_closed)), snd demo_closed)"
proof -
  have "isl (fst demo_closed) = False" by code_simp
  then show ?thesis by (simp add: demo_closed_def)
qed

lemma demo_tree_facts:
  "index_wf (quests demo_tree)"
  "board_get ''as-001'' (snd demo_closed) \<noteq> board_get ''as-001'' demo_tree"
  "map_option status (board_get ''as-001'' (snd demo_closed)) = Some Done"
  by code_simp+

lemma demo_writes_ok: "writes_ok (demo_world ks)"
  by (simp add: writes_ok_def demo_world_def)

section \<open>Properties\<close>

text \<open>Closing a quest changes only that quest and its ancestors, and every change of an
  ancestor is explained: the ancestor was open; if it has checkpoints it is queued again as
  Todo, otherwise it is Done and all its children are closed. An ancestor is never marked
  Cancelled, and no closed quest is reopened.\<close>

theorem close_changes_explained:
  assumes "index_wf (quests b)" and "close W i why b = (Inr q, b')"
    and "j \<noteq> i" and "board_get j b' \<noteq> board_get j b"
  shows "(i, j) \<in> parent_of\<^sup>+ \<and> explained b j b'"
  by (rule close_changes [OF assms])

theorem close_changes_explained_witness:
  "(''as-001.1'', ''as-001'') \<in> parent_of\<^sup>+ \<and> explained demo_tree ''as-001'' (snd demo_closed)"
  by (rule close_changes_explained [OF demo_tree_facts(1) demo_closed_result _ demo_tree_facts(2)])
     simp

text \<open>When the file operations succeed, a close leaves nothing to be done above it. For
  the closed quest, and for every ancestor that the cascade closed, the parent (if it is
  stored) is closed, or has an open child, or has checkpoints and is queued again.\<close>

theorem close_settles:
  assumes "index_wf (quests b)" and "writes_ok W" and "close W i why b = (Inr q, b')"
    and "board_get j b' = Some q'" "is_closed q'" "j = i \<or> board_get j b' \<noteq> board_get j b"
  shows "settled j b'"
proof -
  from assms(3) obtain q0 b1 where u: "board_get i b = Some q0"
    "update W i (close_with (codec W) Done OutcomeDone why) b = (Inr q, b1)"
    "b' = cascade_parent_close W (quest_id q) b1" by (rule close_ok)
  note c1 = close_updated [OF assms(1) u(1,2)]
  have s: "changes_settled i b1 b'"
    using cascade_spec [OF c1(1,2,4), of W] u(3) c1(3) assms(2) by simp
  show ?thesis
  proof (cases "j = i")
    case True
    with s show ?thesis by (simp add: changes_settled_def)
  next
    case False
    then have "board_get j b' \<noteq> board_get j b1" using assms(6) c1(5) by simp
    with s assms(4,5) show ?thesis unfolding changes_settled_def by blast
  qed
qed

theorem close_settles_witness: "settled ''as-001'' (snd demo_closed)"
proof -
  obtain q where q: "board_get ''as-001'' (snd demo_closed) = Some q" "status q = Done"
    using demo_tree_facts(3) by auto
  show ?thesis
    by (rule close_settles [OF demo_tree_facts(1) demo_writes_ok demo_closed_result q(1)])
       (simp_all add: q(2) is_closed_def demo_tree_facts(2))
qed

end
