(* ===== verification/Quests_Persist.thy ===== *)
theory Quests_Persist
  imports Quests_Cascade
begin

text \<open>
  The JSONL files behind the index. Each file is a log of quest versions, and the invariant
  \<open>saved\<close> says that the last version of each quest in its log is the one in memory. The
  abstraction is the ghost log \<open>L\<close>, from file names to lists of quests: the files are its
  text, the index is its replay. Hence a reload gives back the index, and compacts the logs.
\<close>

section \<open>Text of a log\<close>

text \<open>The \<open>idea\<close> snapshot is \<open>#[serde(skip)]\<close>.\<close>

definition unhydrated :: "Quest \<Rightarrow> Quest" where
  "unhydrated q = q\<lparr>idea := None\<rparr>"

text \<open>
  What \<open>serde_json\<close> documents, for one quest: a compact object on one line, which reads
  back as the quest. It does not hold for every quest (a cost that is not a number is written
  as null), so it is asked of the quests of a run only.
\<close>

definition codec_ok :: "serde \<Rightarrow> Quest \<Rightarrow> bool" where
  "codec_ok S q \<longleftrightarrow> (case to_string S q of
     None \<Rightarrow> False
   | Some s \<Rightarrow> s \<noteq> [] \<and> hd s = CHR ''{'' \<and> last s = CHR ''}'' \<and> CHR 0x0A \<notin> set s \<and>
       to_string S (unhydrated q) = Some s \<and> from_str S s = Some (unhydrated q))"

definition log_text :: "serde \<Rightarrow> Quest list \<Rightarrow> string" where
  "log_text S qs = concat (map (\<lambda>q. the (to_string S q) @ [CHR 0x0A]) qs)"

lemma log_text_simps [simp]:
  "log_text S [] = []"
  "log_text S (qs @ [q]) = log_text S qs @ the (to_string S q) @ [CHR 0x0A]"
  "log_text S (q # qs) = the (to_string S q) @ CHR 0x0A # log_text S qs"
  by (simp_all add: log_text_def)

lemma log_text_Nil_iff [simp]: "log_text S qs = [] \<longleftrightarrow> qs = []"
  by (cases qs) auto

lemma whole_log: "whole_lines (log_text S qs)"
  by (cases qs rule: rev_cases) (simp_all add: whole_lines_def)

lemma serialize_log: "list_all (codec_ok S) qs \<Longrightarrow> serialize_all S qs = Some (log_text S qs)"
  by (induction qs) (auto simp: codec_ok_def split: option.splits)

lemma lines_log:
  "list_all (codec_ok S) qs \<Longrightarrow> lines (log_text S qs) = map (\<lambda>q. the (to_string S q)) qs"
proof (induction qs rule: rev_induct)
  case (snoc q qs)
  then have "CHR 0x0A \<notin> set (the (to_string S q))" "last (the (to_string S q)) \<noteq> CHR 0x0D"
    by (auto simp: codec_ok_def split: option.splits)
  with snoc show ?case by (simp add: lines_append [OF whole_log])
qed (simp add: lines_def)

lemma load_line_log:
  assumes "codec_ok (codec W) q"
  shows "load_line W (the (to_string (codec W) q)) b =
    b\<lparr>sequences := track_sequence q (sequences b),
      quests := AList.update (quest_id q) (unhydrated q) (quests b)\<rparr>"
proof -
  obtain s where s: "to_string (codec W) q = Some s" "s \<noteq> []" "hd s = CHR ''{''" "last s = CHR ''}''"
    "from_str (codec W) s = Some (unhydrated q)"
    using assms by (auto simp: codec_ok_def split: option.splits)
  moreover have "trim s = s" using s(2-4) by (cases s) (auto intro: trim_braces)
  ultimately show ?thesis
    by (simp add: load_line_def Let_def track_sequence_def unhydrated_def)
qed

section \<open>Replaying a log\<close>

definition load_quest :: "Quest \<Rightarrow> QuestBoard \<Rightarrow> QuestBoard" where
  "load_quest q b = b\<lparr>sequences := track_sequence q (sequences b),
     quests := AList.update (quest_id q) (unhydrated q) (quests b)\<rparr>"

definition last_version :: "string \<Rightarrow> Quest list \<Rightarrow> Quest option" where
  "last_version i qs = map_option unhydrated (find (\<lambda>q. quest_id q = i) (rev qs))"

lemma last_version_simps [simp]:
  "last_version i [] = None"
  "last_version i (qs @ [q]) = (if quest_id q = i then Some (unhydrated q) else last_version i qs)"
  by (simp_all add: last_version_def)

lemma last_version_None: "last_version i qs = None \<longleftrightarrow> i \<notin> quest_id ` set qs"
  by (auto simp: last_version_def find_None_iff)

lemma fold_load_lines:
  "list_all (codec_ok (codec W)) qs \<Longrightarrow>
   fold (load_line W) (map (\<lambda>q. the (to_string (codec W) q)) qs) b = fold load_quest qs b"
  by (induction qs arbitrary: b) (simp_all add: load_line_log load_quest_def)

lemma load_quests_get:
  "board_get i (fold load_quest qs b) =
     (case last_version i qs of Some q \<Rightarrow> Some q | None \<Rightarrow> board_get i b)"
  by (induction qs rule: rev_induct) (simp_all add: load_quest_def board_get_def update_conv')

lemma load_quests_same [simp]:
  "files (fold load_quest qs b) = files b" "tick (fold load_quest qs b) = tick b"
  by (induction qs arbitrary: b) (simp_all add: load_quest_def)

lemma load_quests_wf: "index_wf (quests b) \<Longrightarrow> index_wf (quests (fold load_quest qs b))"
  by (induction qs arbitrary: b) (simp_all add: load_quest_def index_wf_update unhydrated_def)

section \<open>The invariant\<close>

definition storable :: "world \<Rightarrow> Quest \<Rightarrow> bool" where
  "storable W q \<longleftrightarrow> codec_ok (codec W) q \<and> id_prefix (quest_id q) \<noteq> [] \<and> CHR ''/'' \<notin> set (id_prefix (quest_id q))"

definition all_storable :: "world \<Rightarrow> QuestBoard \<Rightarrow> bool" where
  "all_storable W b \<longleftrightarrow> (\<forall>i q. board_get i b = Some q \<longrightarrow> storable W q)"

definition quest_file :: "string \<Rightarrow> string" where
  "quest_file i = file_name (id_prefix i)"

definition logged :: "world \<Rightarrow> (string \<Rightarrow> Quest list) \<Rightarrow> (string \<times> string) list \<Rightarrow> bool" where
  "logged W L fs \<longleftrightarrow> distinct (map fst fs) \<and>
     (\<forall>n. file_content n fs = log_text (codec W) (L n)) \<and>
     (\<forall>n. \<forall>q\<in>set (L n). storable W q \<and> quest_file (quest_id q) = n)"

definition replays :: "(string \<Rightarrow> Quest list) \<Rightarrow> QuestBoard \<Rightarrow> bool" where
  "replays L b \<longleftrightarrow>
     (\<forall>i. map_option unhydrated (board_get i b) = last_version i (L (quest_file i)))"

definition saved :: "world \<Rightarrow> QuestBoard \<Rightarrow> bool" where
  "saved W b \<longleftrightarrow> index_wf (quests b) \<and> (\<exists>L. logged W L (files b) \<and> replays L b)"

lemma file_content_update:
  "file_content n (AList.update m c fs) = (if n = m then c else file_content n fs)"
  by (simp add: file_content_def update_conv')

lemma is_jsonl_file_name: "is_jsonl (file_name p) \<longleftrightarrow> p \<noteq> []"
proof -
  have "rsplit_once CHR ''.'' (file_name p) = Some (p, ''jsonl'')"
    by (simp add: rsplit_once_Some file_name_def)
  then show ?thesis by (simp add: is_jsonl_def)
qed

lemma logged_append:
  assumes "logged W L fs" and "storable W q"
  shows "logged W (L(quest_file (quest_id q) := L (quest_file (quest_id q)) @ [q]))
    (append_file (quest_file (quest_id q)) (the (to_string (codec W) q) @ [CHR 0x0A]) fs)"
  using assms
  by (auto simp: logged_def append_file_def file_content_update distinct_update)

text \<open>Appending a version and storing it in the index, in either order, keeps the invariant.\<close>

lemma saved_write:
  assumes "saved W b" and "storable W q"
    and "quests b' = AList.update (quest_id q) q (quests b)"
    and "files b' = append_file (quest_file (quest_id q))
           (the (to_string (codec W) q) @ [CHR 0x0A]) (files b)"
  shows "saved W b'"
proof -
  from assms(1) obtain L where L: "logged W L (files b)" "replays L b" "index_wf (quests b)"
    by (auto simp: saved_def)
  let ?L = "L(quest_file (quest_id q) := L (quest_file (quest_id q)) @ [q])"
  have "logged W ?L (files b')" using logged_append [OF L(1) assms(2)] assms(4) by simp
  moreover have "replays ?L b'"
    using L(2) assms(3) by (auto simp: replays_def board_get_def update_conv')
  moreover have "index_wf (quests b')" using L(3) assms(3) by (simp add: index_wf_update)
  ultimately show ?thesis by (auto simp: saved_def)
qed

lemma saved_cong:
  "saved W b \<Longrightarrow> quests b' = quests b \<Longrightarrow> files b' = files b \<Longrightarrow> saved W b'"
  by (simp add: saved_def replays_def board_get_def)

section \<open>Operations keep the invariant\<close>

definition io_ok :: "world \<Rightarrow> bool" where
  "io_ok W \<longleftrightarrow> (\<forall>n. append_io W n = IoOk \<and> write_io W n = IoOk \<and> read_io W n \<and> dir_io W n)"

lemma persist_ok:
  assumes "io_ok W" and "storable W q"
  shows "persist W q b = (Inr (), tock b\<lparr>files := append_file (quest_file (quest_id q))
    (the (to_string (codec W) q) @ [CHR 0x0A]) (files b)\<rparr>)"
  using assms
  by (auto simp: persist_def io_ok_def storable_def codec_ok_def quest_file_def Let_def
      split: option.splits)

lemma saved_insert:
  assumes "saved W b" and "io_ok W" and "storable W q" and "persist_insert W q b = (r, b')"
  shows "saved W b'"
  by (rule saved_write [OF assms(1,3)])
     (use assms(4) in \<open>auto simp: persist_insert_def persist_ok [OF assms(2,3)]\<close>)

lemma saved_update:
  assumes "saved W b" and "io_ok W" and "modest f" and u: "update W i f b = (r, b')"
    and st: "\<And>q. board_get i b' = Some q \<Longrightarrow> storable W q"
  shows "saved W b'"
proof (cases "board_get i b")
  case None
  then show ?thesis using u assms(1) by (simp add: update_def)
next
  case (Some q)
  let ?q = "(f (utc_now W (tick b)) q)\<lparr>updated_at := Some (utc_now W (Suc (tick b)))\<rparr>"
  have "storable W ?q" using st update_get [OF u Some, of i] by simp
  moreover have "quest_id ?q = i"
    using Some assms(1,3) index_id by (auto simp: saved_def board_get_def modestD)
  ultimately show ?thesis
    by (intro saved_write [OF assms(1), of ?q])
       (use u Some in \<open>auto simp: update_def Let_def persist_ok [OF assms(2)]\<close>)
qed

text \<open>The climb stores each ancestor once: a quest as long as its start is not written again.\<close>

lemma cascade_shorter:
  "length c \<le> length j \<Longrightarrow> board_get j (cascade_parent_close W c b) = board_get j b"
proof (induction W c b rule: cascade_parent_close.induct)
  case (1 W c b)
  show ?case
  proof (cases "\<exists>p pq. parent c = Some p \<and> board_get p b = Some pq")
    case True
    then obtain p pq where p: "parent c = Some p" "board_get p b = Some pq" by blast
    then have j: "j \<noteq> p" "length p \<le> length j" using parent_shorter [OF p(1)] 1(2) by auto
    have u: "board_get j b' = board_get j b" if "update W p f b = (r, b')" for f r b'
      using update_get [OF that p(2)] j(1) by simp
    obtain r b' where c: "update W p (cascade_close (codec W) (lookup_children p b)) b = (r, b')"
      by fastforce
    obtain r2 b2 where t: "update W p (\<lambda>_ q. q\<lparr>status := Todo\<rparr>) b = (r2, b2)" by fastforce
    show ?thesis using 1(1) [OF p refl] p c t u [OF c] u [OF t] j(2)
      by (subst cascade_parent_close.simps) (auto simp: Let_def split: sum.splits)
  qed (auto simp: cascade_parent_close.simps [of W c b] split: option.splits)
qed

lemma saved_cascade:
  "io_ok W \<Longrightarrow> saved W b \<Longrightarrow>
   (\<And>i q. board_get i (cascade_parent_close W c b) = Some q \<Longrightarrow> storable W q) \<Longrightarrow>
   saved W (cascade_parent_close W c b)"
proof (induction W c b rule: cascade_parent_close.induct)
  case (1 W c b)
  show ?case
  proof (cases "\<exists>p pq. parent c = Some p \<and> board_get p b = Some pq")
    case True
    then obtain p pq where p: "parent c = Some p" "board_get p b = Some pq" by blast
    let ?B = "cascade_parent_close W c b"
    obtain r b1 where c: "update W p (cascade_close (codec W) (lookup_children p b)) b = (r, b1)"
      by fastforce
    obtain r2 b2 where t: "update W p (\<lambda>_ q. q\<lparr>status := Todo\<rparr>) b = (r2, b2)" by fastforce
    consider "?B = b" | "?B = b2" | "?B = b1" | x where "r = Inr x" "?B = cascade_parent_close W p b1"
        "\<not> (is_closed pq \<or> lookup_children p b = [] \<or>
            \<not> list_all (is_some_and is_closed) (lookup_children p b))" "\<not> checkpoints pq \<noteq> []"
      using p c t cascade_parent_close.simps [of W c b]
      by (auto simp: Let_def split: if_splits sum.splits)
    then show ?thesis
    proof cases
      case 1
      then show ?thesis using \<open>saved W b\<close> by simp
    next
      case 2
      have "saved W b2"
        by (rule saved_update [OF \<open>saved W b\<close> \<open>io_ok W\<close> modest_closures(1) t])
           (use 1(4) 2 in simp)
      with 2 show ?thesis by simp
    next
      case 3
      have "saved W b1"
        by (rule saved_update [OF \<open>saved W b\<close> \<open>io_ok W\<close> modest_closures(3) c])
           (use 1(4) 3 in simp)
      with 3 show ?thesis by simp
    next
      case (4 x)
      have "board_get p b1 = board_get p ?B" unfolding 4(2) by (simp add: cascade_shorter)
      then have "saved W b1"
        using saved_update [OF \<open>saved W b\<close> \<open>io_ok W\<close> modest_closures(3) c] 1(4) by simp
      with 1(1) [OF p refl 4(3,4) c [symmetric] 4(1)] \<open>io_ok W\<close> 1(4) 4(2) show ?thesis by simp
    qed
  qed (use 1 in \<open>auto simp: cascade_parent_close.simps [of W c b] split: option.splits\<close>)
qed

section \<open>Reload\<close>

text \<open>Loading the files replays every log.\<close>

lemma load_entries_log:
  assumes "io_ok W" and "distinct (map fst fs)"
    and "\<And>n. n \<in> fst ` set fs \<Longrightarrow> the (map_of fs n) = log_text (codec W) (L n)"
    and "\<And>n q. q \<in> set (L n) \<Longrightarrow> storable W q \<and> quest_file (quest_id q) = n"
  shows "\<exists>b'. load_entries W fs b = (Inr (), b') \<and> files b' = files b \<and>
    (index_wf (quests b) \<longrightarrow> index_wf (quests b')) \<and>
    (\<forall>i. board_get i b' = (if quest_file i \<in> fst ` set fs \<and> last_version i (L (quest_file i)) \<noteq> None
       then last_version i (L (quest_file i)) else board_get i b))"
  using assms(2,3)
proof (induction fs arbitrary: b)
  case (Cons f fs)
  obtain n tx where f: "f = (n, tx)" by (cases f)
  have tx: "tx = log_text (codec W) (L n)" using Cons.prems(2) [of n] f by simp
  have ok: "list_all (codec_ok (codec W)) (L n)"
    using assms(4) by (auto simp: list_all_iff storable_def)
  define b1 where "b1 = (if is_jsonl n then fold load_quest (L n) (tock (tock b)) else tock b)"
  have load: "load_entries W (f # fs) b = load_entries W fs b1"
    using assms(1) by (simp add: f io_ok_def load_file_def tx lines_log [OF ok]
        fold_load_lines [OF ok] b1_def)
  have "L n = []" if "\<not> is_jsonl n"
  proof (rule ccontr)
    assume "L n \<noteq> []"
    then obtain q where "q \<in> set (L n)" by (cases "L n") auto
    from assms(4) [OF this] that show False
      by (auto simp: storable_def quest_file_def is_jsonl_file_name)
  qed
  then have b1: "board_get i b1 = (case last_version i (L n) of Some q \<Rightarrow> Some q | None \<Rightarrow> board_get i b)"
    for i by (auto simp: b1_def load_quests_get) (simp_all add: board_get_def split: option.splits)
  have own: "quest_file i = n" if "last_version i (L n) \<noteq> None" for i
    using that assms(4) by (auto simp: last_version_None)
  have "the (map_of fs m) = log_text (codec W) (L m)" if "m \<in> fst ` set fs" for m
  proof -
    have "m \<noteq> n" using Cons.prems(1) that f by auto
    then show ?thesis using Cons.prems(2) [of m] that f by simp
  qed
  with Cons.IH [of b1] Cons.prems(1) obtain b' where b': "load_entries W fs b1 = (Inr (), b')"
    "files b' = files b1" "index_wf (quests b1) \<longrightarrow> index_wf (quests b')"
    "\<And>i. board_get i b' = (if quest_file i \<in> fst ` set fs \<and> last_version i (L (quest_file i)) \<noteq> None
       then last_version i (L (quest_file i)) else board_get i b1)" by auto
  have "board_get i b' = (if quest_file i \<in> fst ` set (f # fs) \<and> last_version i (L (quest_file i)) \<noteq> None
       then last_version i (L (quest_file i)) else board_get i b)" for i
    using Cons.prems(1) own [of i] by (auto simp: b' b1 f split: option.splits)
  with b' load show ?case by (auto simp: b1_def load_quests_wf)
qed simp

lemma map_of_dir_entries: "map_of (dir_entries fs) n = (if listed n then map_of fs n else None)"
  by (induction fs) (auto simp: dir_entries_def)

lemma load_all_saved:
  assumes "io_ok W" and "logged W L (files b)" and "quests b = []"
  shows "\<exists>b'. load_all W b = (Inr (), b') \<and> files b' = files b \<and> index_wf (quests b') \<and>
    (\<forall>i. board_get i b' = last_version i (L (quest_file i)))"
proof -
  have the_of: "the (map_of (files b) n) = log_text (codec W) (L n)" if "n \<in> fst ` set (files b)" for n
    using assms(2) that map_of_eq_None_iff [of "files b" n]
    by (auto simp: logged_def file_content_def split: option.splits)
  have none: "L n = []" if "n \<notin> fst ` set (files b)" for n
  proof -
    have "map_of (files b) n = None" using that by (simp add: map_of_eq_None_iff)
    then have "file_content n (files b) = []" by (simp add: file_content_def)
    then show ?thesis using assms(2) by (metis logged_def log_text_Nil_iff)
  qed
  have none': "L n = []" if "n \<notin> fst ` set (dir_entries (files b))" for n
  proof (cases "listed n")
    case True
    then show ?thesis using none [of n] that by (force simp: dir_entries_def)
  next
    case False
    have "q \<notin> set (L n)" for q
    proof
      assume "q \<in> set (L n)"
      then have "storable W q" "quest_file (quest_id q) = n" using assms(2) by (auto simp: logged_def)
      then show False using False by (auto simp: storable_def quest_file_def file_name_def listed_def)
    qed
    then show ?thesis by (cases "L n") auto
  qed
  have the_of': "the (map_of (dir_entries (files b)) n) = log_text (codec W) (L n)" if "n \<in> fst ` set (dir_entries (files b))" for n
  proof -
    have "listed n" "n \<in> fst ` set (files b)" using that by (auto simp: dir_entries_def)
    then show ?thesis using the_of [of n] by (simp add: map_of_dir_entries)
  qed
  have "distinct (map fst (dir_entries (files b)))"
    using assms(2) by (auto simp: logged_def dir_entries_def intro: distinct_map_filter)
  then obtain b' where b': "load_entries W (dir_entries (files b)) (tock b) = (Inr (), b')" "files b' = files b"
    "index_wf (quests b')"
    "\<And>i. board_get i b' = (if quest_file i \<in> fst ` set (dir_entries (files b)) \<and>
         last_version i (L (quest_file i)) \<noteq> None
       then last_version i (L (quest_file i)) else board_get i (tock b))"
    using load_entries_log [OF assms(1) _ the_of', of "tock b"] assms(2,3)
    by (auto simp: logged_def index_wf_def)
  have "board_get i b' = last_version i (L (quest_file i))" for i
  proof (cases "quest_file i \<in> fst ` set (dir_entries (files b)) \<and> last_version i (L (quest_file i)) \<noteq> None")
    case True
    then show ?thesis by (simp add: b'(4))
  next
    case False
    then have "last_version i (L (quest_file i)) = None" using none' by fastforce
    moreover have "board_get i (tock b) = None" by (simp add: board_get_def assms(3))
    ultimately show ?thesis unfolding b'(4) by simp
  qed
  with b' assms(1) show ?thesis by (auto simp: load_all_def io_ok_def)
qed

text \<open>Compaction rewrites the log of a prefix to one version per quest.\<close>

lemma unhydrated_sel [simp]: "quest_id (unhydrated q) = quest_id q" "unhydrated (unhydrated q) = unhydrated q"
  by (simp_all add: unhydrated_def)

lemma storable_unhydrated: "storable W q \<Longrightarrow> storable W (unhydrated q)"
  by (auto simp: storable_def codec_ok_def split: option.splits)

lemma last_version_index:
  assumes wf: "index_wf (quests b)"
  shows "last_version i (by_prefix (id_prefix i) b) = map_option unhydrated (board_get i b)"
proof (cases "find (\<lambda>q. quest_id q = i) (rev (by_prefix (id_prefix i) b))")
  case None
  then have "q \<in> snd ` set (quests b) \<Longrightarrow> quest_id q \<noteq> i" for q
    by (auto simp: find_None_iff by_prefix_def)
  then have "board_get i b = None"
    using index_id [OF wf] index_quest [OF wf] unfolding board_get_def by (metis option.exhaust)
  with None show ?thesis by (simp add: last_version_def)
next
  case (Some q)
  then have "quest_id q = i" "q \<in> set (by_prefix (id_prefix i) b)"
    by (auto simp: find_Some_iff) (metis nth_mem set_rev length_rev)
  then have "board_get i b = Some q"
    using index_quest [OF wf, of q] by (auto simp: by_prefix_def board_get_def)
  with Some show ?thesis by (simp add: last_version_def)
qed

lemma file_name_inj [simp]: "file_name p = file_name p' \<longleftrightarrow> p = p'"
  by (simp add: file_name_def)

lemma rewrite_prefix_saved:
  assumes "saved W b" and "io_ok W" and st: "all_storable W b"
  shows "\<exists>b'. rewrite_prefix W p b = (Inr (), b') \<and> saved W b' \<and> quests b' = quests b \<and>
    sequences b' = sequences b"
proof -
  from assms(1) obtain L where L: "logged W L (files b)" "replays L b" and wf: "index_wf (quests b)"
    by (auto simp: saved_def)
  have mem: "storable W q \<and> id_prefix (quest_id q) = p" if "q \<in> set (by_prefix p b)" for q
    using that st index_quest [OF wf, of q]
    by (auto simp: by_prefix_def board_get_def all_storable_def)
  let ?text = "log_text (codec W) (by_prefix p b)" and ?L = "L(file_name p := by_prefix p b)"
  let ?b = "tock b\<lparr>files := AList.update (file_name p) ?text (files b)\<rparr>"
  have "serialize_all (codec W) (by_prefix p b) = Some ?text"
    by (rule serialize_log) (use mem in \<open>auto simp: list_all_iff storable_def\<close>)
  then have "rewrite_prefix W p b = (Inr (), ?b)" using assms(2) by (simp add: rewrite_prefix_def io_ok_def)
  moreover have "logged W ?L (files ?b)"
    using L(1) mem by (auto simp: logged_def file_content_update distinct_update quest_file_def)
  moreover have "replays ?L ?b"
    using L(2) last_version_index [OF wf] by (auto simp: replays_def board_get_def quest_file_def)
  ultimately show ?thesis using wf by (auto simp: saved_def)
qed

lemma rewrite_prefixes_saved:
  "saved W b \<Longrightarrow> io_ok W \<Longrightarrow> all_storable W b \<Longrightarrow>
   \<exists>b'. rewrite_prefixes W ps b = (Inr (), b') \<and> saved W b' \<and> quests b' = quests b \<and>
    sequences b' = sequences b"
proof (induction ps arbitrary: b)
  case (Cons p ps)
  from rewrite_prefix_saved [OF Cons.prems, where p = p] obtain b1 where b1:
    "rewrite_prefix W p b = (Inr (), b1)" "saved W b1" "quests b1 = quests b"
    "sequences b1 = sequences b" by blast
  with Cons.IH [of b1] Cons.prems show ?case by (auto simp: board_get_def all_storable_def)
qed simp

lemma reload_saved:
  assumes "saved W b" and "io_ok W"
  shows "\<exists>b'. reload W b = (Inr (), b') \<and> saved W b' \<and>
    (\<forall>i. board_get i b' = map_option unhydrated (board_get i b))"
proof -
  from assms(1) obtain L where L: "logged W L (files b)" "replays L b" by (auto simp: saved_def)
  obtain b1 where b1: "load_all W (b\<lparr>quests := [], sequences := []\<rparr>) = (Inr (), b1)"
    "files b1 = files b" "index_wf (quests b1)"
    and get: "\<And>i. board_get i b1 = last_version i (L (quest_file i))"
    using load_all_saved [OF assms(2), of L "b\<lparr>quests := [], sequences := []\<rparr>"] L(1) by auto
  have "map_option unhydrated (board_get i b1) = board_get i b1" for i
    by (simp add: get last_version_def option.map_comp o_def)
  with get have "replays L b1" by (simp add: replays_def)
  with b1 L(1) have s1: "saved W b1" by (auto simp: saved_def)
  have "storable W q" if "board_get i b1 = Some q" for i q
  proof -
    from that obtain q0 where "q = unhydrated q0" "q0 \<in> set (L (quest_file i))"
      by (auto simp: get last_version_def find_Some_iff) (metis nth_mem set_rev length_rev)
    with L(1) show ?thesis by (auto simp: logged_def intro: storable_unhydrated)
  qed
  then have "all_storable W b1" by (auto simp: all_storable_def)
  from rewrite_prefixes_saved [OF s1 assms(2) this,
      where ps = "remdups (map (id_prefix \<circ> quest_id \<circ> snd) (quests b1))"]
  obtain b' where b': "compact_all W b1 = (Inr (), b')" "saved W b'" "quests b' = quests b1"
    unfolding compact_all_def by blast
  then have "board_get i b' = map_option unhydrated (board_get i b)" for i
    using get L(2) by (simp add: replays_def board_get_def)
  with b' b1(1) show ?thesis by (auto simp: reload_def)
qed

section \<open>Runs\<close>

text \<open>
  The operations that a run is made of, reload included, as long as every stored quest is
  storable. A batch of inferred dependencies is a sequence of single ones.
\<close>

inductive saved_op :: "world \<Rightarrow> QuestBoard \<Rightarrow> QuestBoard \<Rightarrow> bool" for W where
  so_create: "create_with_agent W p name agent b = (r, b') \<Longrightarrow> storable W (new_root W p name agent b) \<Longrightarrow>
    saved_op W b b'"
| so_child: "create_child W p name b = (r, b') \<Longrightarrow> storable W (new_child W p name b) \<Longrightarrow> saved_op W b b'"
| so_update: "update W i f b = (r, b') \<Longrightarrow> modest f \<Longrightarrow>
    (\<And>q. board_get i b' = Some q \<Longrightarrow> storable W q) \<Longrightarrow> saved_op W b b'"
| so_checkout: "checkout W i worker b = (r, b') \<Longrightarrow>
    (\<And>q. board_get i b' = Some q \<Longrightarrow> storable W q) \<Longrightarrow> saved_op W b b'"
| so_close: "close W i why b = (r, b') \<Longrightarrow>
    (\<And>j q. board_get j b' = Some q \<Longrightarrow> storable W q) \<Longrightarrow> saved_op W b b'"
| so_cancel: "cancel W i why b = (r, b') \<Longrightarrow>
    (\<And>q. board_get i b' = Some q \<Longrightarrow> storable W q) \<Longrightarrow> saved_op W b b'"
| so_depend: "add_dependency W i dep b = (u, b') \<Longrightarrow>
    (\<And>q. board_get i b' = Some q \<Longrightarrow> storable W q) \<Longrightarrow> saved_op W b b'"
| so_reload: "reload W b = (u, b') \<Longrightarrow> saved_op W b b'"

lemma saved_depend:
  assumes "saved W b" "io_ok W" and a: "add_dependency W i d b = (u, b')"
    and st: "\<And>q. board_get i b' = Some q \<Longrightarrow> storable W q"
  shows "saved W b'"
proof (cases "i = d \<or> would_cycle i d b \<or> board_get i b = None")
  case False
  then obtain q where q: "board_get i b = Some q" by auto
  obtain r b1 where up: "update W i (\<lambda>_. push_dep d) b = (r, b1)" by fastforce
  with a False have b1: "b1 = b'" by (auto simp: add_dependency_def split: sum.splits)
  let ?q = "(push_dep d q)\<lparr>updated_at := Some (utc_now W (Suc (tick b)))\<rparr>"
  have "storable W ?q" using st update_get [OF up q, of i] b1 by simp
  moreover have "quest_id ?q = i"
    using q assms(1) index_id by (auto simp: saved_def board_get_def push_dep_def)
  ultimately show ?thesis
    by (intro saved_write [OF assms(1), of ?q])
       (use up q b1 in \<open>auto simp: update_def Let_def persist_ok [OF assms(2)]\<close>)
next
  case True
  then have "b' = b" using a by (auto simp: add_dependency_def update_def split: if_splits)
  with assms(1) show ?thesis by simp
qed

lemma saved_op_keeps:
  assumes "io_ok W"
  shows "saved_op W b b' \<Longrightarrow> saved W b \<Longrightarrow> saved W b'"
proof (induction rule: saved_op.induct)
  case (so_create p name agent b r b')
  then have "saved W (tock b\<lparr>sequences := AList.update p (next_seq p b) (sequences b)\<rparr>)"
    by (auto intro: saved_cong)
  from saved_insert [OF this assms so_create(2)] so_create(1) show ?case by (simp add: create_eq)
next
  case (so_child p name b r b')
  then have "saved W (tock b)" by (auto intro: saved_cong)
  from saved_insert [OF this assms so_child(2)] so_child(1) show ?case
    by (simp add: create_child_eq)
next
  case (so_update i f b r b')
  then show ?case using saved_update [OF _ assms] by blast
next
  case (so_checkout i worker b r b')
  then show ?case using saved_update [OF _ assms modest_closures(1)]
    by (auto simp: checkout_def split: option.splits if_splits)
next
  case (so_close i why b r b')
  obtain r1 b1 where u: "update W i (close_with (codec W) Done OutcomeDone why) b = (r1, b1)"
    by fastforce
  show ?case
  proof (cases r1)
    case (Inl e)
    with u so_close saved_update [OF so_close(3) assms modest_closures(2) u] show ?thesis
      by (simp add: close_def)
  next
    case (Inr q)
    then have b': "b' = cascade_parent_close W (quest_id q) b1" using so_close(1) u by (simp add: close_def)
    obtain q0 where q0: "board_get i b = Some q0" using u Inr by (auto simp: update_def split: option.splits)
    have "index_wf (quests b)" using so_close(3) by (simp add: saved_def)
    from close_updated(3) [OF this q0] u Inr have "quest_id q = i" by blast
    then have "board_get i b' = board_get i b1" unfolding b' by (simp add: cascade_shorter)
    then have "saved W b1"
      using saved_update [OF so_close(3) assms modest_closures(2) u] so_close(2) by metis
    then show ?thesis using saved_cascade [OF assms] so_close(2) unfolding b' by blast
  qed
next
  case (so_cancel i why b r b')
  then show ?case using saved_update [OF _ assms modest_closures(2)] by (metis cancel_def)
next
  case (so_depend i dep b u b')
  then show ?case using saved_depend [OF _ assms] by blast
next
  case (so_reload b u b')
  then show ?case using reload_saved [OF _ assms] by fastforce
qed

lemma saved_empty: "board_open W [] = (r, b) \<Longrightarrow> saved W b"
proof -
  assume "board_open W [] = (r, b)"
  then have "quests b = []" "files b = []" by (auto dest: empty_board)
  then show ?thesis
    by (auto simp: saved_def index_wf_def logged_def replays_def board_get_def file_content_def
        intro!: exI [of _ "\<lambda>_. []"])
qed

lemma run_saved:
  assumes "io_ok W" and "(saved_op W)\<^sup>*\<^sup>* b b'" and "saved W b"
  shows "saved W b'"
  using assms(2,3) by (induction rule: rtranclp_induct) (auto intro: saved_op_keeps [OF assms(1)])

section \<open>Sequence numbers after a restart\<close>

text \<open>A prefix whose ids can be taken apart again.\<close>

definition plain_prefix :: "string \<Rightarrow> bool" where
  "plain_prefix p \<longleftrightarrow> CHR ''-'' \<notin> set p \<and> CHR ''.'' \<notin> set p"

lemma track_root:
  assumes "plain_prefix p" and "quest_id q = root p n"
  shows "track_sequence q seqs =
    AList.update p (max (case map_of seqs p of None \<Rightarrow> 0 | Some m \<Rightarrow> m) n) seqs"
proof -
  have "split CHR ''-'' (root p n) = [p, show_pad3 (unat n)]"
    using assms(1) by (simp add: root_def plain_prefix_def split_append_sep split_no_sep)
  moreover have "depth (root p n) = 0" using assms(1) by (simp add: depth_0 root_def plain_prefix_def)
  ultimately show ?thesis
    using assms
    by (simp add: track_sequence_def Let_def id_prefix_root plain_prefix_def split_no_sep parse_show_pad3)
qed

lemma track_mono:
  "(case map_of seqs p of None \<Rightarrow> 0 | Some m \<Rightarrow> m) \<le>
   (case map_of (track_sequence q seqs) p of None \<Rightarrow> 0 | Some m \<Rightarrow> m)"
  by (auto simp: track_sequence_def Let_def update_conv' split: option.splits)

lemma load_line_counted:
  assumes "roots_counted plain_prefix b"
  shows "roots_counted plain_prefix (load_line W raw b)"
proof (cases "load_line W raw b = b")
  case False
  then obtain q where q: "load_line W raw b = b\<lparr>sequences := track_sequence q (sequences b),
      quests := AList.update (quest_id q) q (quests b)\<rparr>"
    by (auto simp: load_line_def Let_def split: if_splits option.splits)
  have "n \<le> seq_of p (load_line W raw b)"
    if "plain_prefix p" "root p n \<in> dom (map_of (quests (load_line W raw b)))" for p n
  proof (cases "quest_id q = root p n")
    case True
    then show ?thesis using track_root [OF that(1) True] by (simp add: q seq_of_def update_conv')
  next
    case False
    then have "root p n \<in> dom (map_of (quests b))" using that(2) by (simp add: q update_conv')
    then have "n \<le> seq_of p b" using assms that(1) unfolding roots_counted_def by blast
    also have "\<dots> \<le> seq_of p (load_line W raw b)" using track_mono by (simp add: q seq_of_def)
    finally show ?thesis .
  qed
  then show ?thesis by (simp add: roots_counted_def)
qed (use assms in simp)

lemma counted_tock: "roots_counted P (tock b) = roots_counted P b"
  by (simp add: roots_counted_def seq_of_def)

lemma fold_load_counted:
  "roots_counted plain_prefix b \<Longrightarrow> roots_counted plain_prefix (fold (load_line W) ls b)"
  by (induction ls arbitrary: b) (simp_all add: load_line_counted)

lemma load_entries_counted:
  "roots_counted plain_prefix b \<Longrightarrow> roots_counted plain_prefix (snd (load_entries W fs b))"
  by (induction W fs b rule: load_entries.induct)
     (auto simp: load_file_def counted_tock fold_load_counted split: prod.splits sum.splits)

lemma load_all_counted:
  "roots_counted plain_prefix b \<Longrightarrow> roots_counted plain_prefix (snd (load_all W b))"
  by (simp add: load_all_def load_entries_counted counted_tock)

lemma open_counted: "board_open W fs = (r, b) \<Longrightarrow> roots_counted plain_prefix b"
  using load_all_counted [of "tock \<lparr>files = fs, quests = [], sequences = [], tick = 0\<rparr>" W]
  by (auto simp: board_open_def Let_def roots_counted_def split: if_splits)

section \<open>Concrete runs\<close>

definition demo_quest :: Quest where
  "demo_quest = new_root (demo_world []) ''as'' ''Epic'' None demo0"

definition demo_disk :: "(string \<times> string) list" where
  "demo_disk = [(''as.jsonl'', demo_line demo_quest @ [CHR 0x0A])]"

lemma demo_io_ok: "io_ok (demo_world ks)"
  by (simp add: io_ok_def demo_world_def)

lemma demo_open_disk:
  "board_open (demo_world ks) fs = (Inr (), snd (board_open (demo_world ks) fs))"
proof -
  have "fst (load_entries (demo_world ks) es b) = Inr ()" for es b
    by (induction "demo_world ks" es b rule: load_entries.induct)
       (auto simp: demo_world_def load_file_def)
  then show ?thesis
    by (simp add: board_open_def load_all_def Let_def prod_eq_iff) (simp add: demo_world_def)
qed

text \<open>
  A prefix with a hyphen is not recovered: the file of \<open>a-b-001\<close> is that of \<open>a\<close>, and
  after a restart the prefix \<open>a-b\<close> counts from one again.
\<close>

lemma hyphen_prefix_reused:
  "let q = with_agent 0 ''a-b-001'' ''Epic'' None;
       b = snd (board_open (demo_world [q]) [(''a.jsonl'', demo_line q @ [CHR 0x0A])])
   in board_get (root ''a-b'' (next_seq ''a-b'' b)) b = Some q"
  by code_simp

text \<open>
  After a torn append, the next line is glued to the fragment: its quest is created
  successfully and is gone after a reload.
\<close>

lemma torn_append_loses_next:
  "let W = (demo_world [])\<lparr>append_io := (\<lambda>n. if n < 4 then IoTorn 3 else IoOk)\<rparr>;
       b1 = snd (create_with_agent W ''as'' ''Epic'' None demo0);
       (r, b2) = create_with_agent W ''as'' ''Fix'' None b1;
       W2 = (demo_world (map snd (quests b2)))
   in \<not> isl r \<and> board_get ''as-002'' b2 \<noteq> None \<and> board_get ''as-002'' (snd (reload W2 b2)) = None"
  by code_simp

text \<open>
  A prefix with a slash names a file in a sub-directory. If that exists, the quest is created
  successfully; a reload does not list the file, and the quest is gone.
\<close>

lemma slash_prefix_lost:
  "let W = demo_world [];
       (r, b) = create_with_agent W ''a/b'' ''Epic'' None demo0;
       W2 = demo_world (map snd (quests b))
   in \<not> isl r \<and> board_get ''a/b-001'' b \<noteq> None \<and> board_get ''a/b-001'' (snd (reload W2 b)) = None"
  by code_simp

text \<open>Cancelling the last open child leaves its container open.\<close>

lemma cancel_does_not_cascade:
  "map_option status (board_get ''as-001'' (snd (cancel (demo_world []) ''as-001.1'' ''no'' demo_tree))) =
     Some Todo"
  by code_simp

text \<open>The tenth child counts the first one among its ancestors.\<close>

lemma sibling_is_ancestor: "is_ancestor_of (child i 1) (child i 10)"
proof -
  have "show_nat (unat (1 :: u32)) = ''1''" "show_nat (unat (10 :: u32)) = ''10''" by code_simp+
  then show ?thesis by (simp add: is_ancestor_of_def child_def)
qed

section \<open>Properties\<close>

text \<open>C19. The files lose nothing. Start from an empty directory and run any sequence of
  creations, modest updates, checkouts, closes, cancellations, dependencies and reloads, with
  file operations that succeed and quests that \<open>serde_json\<close> round-trips under a non-empty
  prefix without a slash (a slash leads to a directory that \<open>reload\<close> does not list, lemma
  slash prefix lost): then \<open>reload\<close> succeeds, and every quest is what it was, except for the \<open>idea\<close>
  snapshot, which is not serialized.\<close>

theorem reload_restores_board:
  assumes "io_ok W" and "board_open W [] = (r, b0)" and "(saved_op W)\<^sup>*\<^sup>* b0 b"
  shows "\<exists>b'. reload W b = (Inr (), b') \<and>
    (\<forall>i. board_get i b' = map_option unhydrated (board_get i b))"
  using reload_saved [OF run_saved [OF assms(1,3) saved_empty [OF assms(2)]] assms(1)] by blast

theorem reload_restores_board_witness:
  "\<exists>b'. reload (demo_world [demo_quest]) demo1 = (Inr (), b') \<and>
    (\<forall>i. board_get i b' = map_option unhydrated (board_get i demo1))"
proof -
  let ?W = "demo_world [demo_quest]"
  have "board_open ?W [] = (Inr (), demo0)" unfolding demo0_def by code_simp
  moreover have "saved_op ?W demo0 demo1"
  proof (rule so_create)
    show "create_with_agent ?W ''as'' ''Epic'' None demo0 =
      (fst (create_with_agent ?W ''as'' ''Epic'' None demo0), demo1)"
      by (rule prod_eqI, simp) (unfold demo1_def snd_conv, code_simp)
    show "storable ?W (new_root ?W ''as'' ''Epic'' None demo0)" by code_simp
  qed
  ultimately show ?thesis
    by (intro reload_restores_board [OF demo_io_ok]) auto
qed

text \<open>Ids are not reused after a restart. On a board opened on any directory, whatever its
  files hold and whether or not they can be read, and after any operations, the next root id
  of a prefix without hyphen and dot names no stored quest, until the sequence number wraps.\<close>

theorem restart_ids_fresh:
  assumes "board_open W fs = (r, b0)" and "(board_op W)\<^sup>*\<^sup>* b0 b"
    and "plain_prefix p" and "next_seq p b \<noteq> 0"
  shows "board_get (root p (next_seq p b)) b = None"
  by (rule root_is_new [OF run_roots_counted [OF assms(2) open_counted [OF assms(1)]] assms(3,4)])

theorem restart_ids_fresh_witness:
  "board_get ''as-002'' (snd (board_open (demo_world [demo_quest]) demo_disk)) = None"
proof -
  let ?b = "snd (board_open (demo_world [demo_quest]) demo_disk)"
  have "root ''as'' (next_seq ''as'' ?b) = ''as-002''" by code_simp
  moreover have "board_get (root ''as'' (next_seq ''as'' ?b)) ?b = None"
  proof (rule restart_ids_fresh [OF demo_open_disk rtranclp.rtrancl_refl])
    show "plain_prefix ''as''" by code_simp
    show "next_seq ''as'' ?b \<noteq> 0" by code_simp
  qed
  ultimately show ?thesis by simp
qed

end
