(* ===== verification/Role_Graph.thy ===== *)
theory Role_Graph
  imports Prelude
begin

text \<open>
  Walks over a table of edges (parent, child), as SQLite runs a recursive common table expression
  with \<open>UNION\<close>: a queue of rows, and a table of the rows seen so far; the rows that the front of
  the queue joins to and that are not in the table yet go to both. When the rows are the nodes of the
  graph the walk ends and gives what is reachable. When they carry their depth too it ends on the
  part of the graph without a cycle only, and is partial. The rest are the facts about acyclic
  graphs that replacing the edges of a node needs.
\<close>

section \<open>Rows not seen yet\<close>

fun add_new :: "'r list \<Rightarrow> 'r list \<Rightarrow> 'r list" where
  "add_new seen [] = []"
| "add_new seen (y # ys) = (if y \<in> set seen then add_new seen ys else y # add_new (y # seen) ys)"

lemma set_add_new [simp]: "set (add_new seen ys) = set ys - set seen"
  by (induction seen ys rule: add_new.induct) auto

lemma distinct_add_new [simp]: "distinct (add_new seen ys)"
  by (induction seen ys rule: add_new.induct) auto

lemma seen_less:
  assumes "finite U" "set ys \<subseteq> U"
  shows "2 * card (U - set (seen @ add_new seen ys)) + length (add_new seen ys) \<le> 2 * card (U - set seen)"
proof -
  let ?n = "add_new seen ys"
  have "U - set (seen @ ?n) = (U - set seen) - set ?n" by auto
  moreover have "set ?n \<subseteq> U - set seen" using assms(2) by auto
  ultimately have "card (U - set (seen @ ?n)) = card (U - set seen) - card (set ?n)"
    "card (set ?n) \<le> card (U - set seen)"
    using assms(1) by (simp_all add: card_Diff_subset card_mono)
  moreover have "card (set ?n) = length ?n" by (rule distinct_card) simp
  ultimately show ?thesis by simp
qed

section \<open>A walk whose rows are nodes\<close>

definition children_of :: "('a \<times> 'a) list \<Rightarrow> 'a \<Rightarrow> 'a list" where
  "children_of E x = map snd (filter (\<lambda>e. fst e = x) E)"

definition parents_of :: "('a \<times> 'a) list \<Rightarrow> 'a \<Rightarrow> 'a list" where
  "parents_of E x = map fst (filter (\<lambda>e. snd e = x) E)"

lemma set_children_of [simp]: "set (children_of E x) = {y. (x, y) \<in> set E}"
  by (force simp: children_of_def)

lemma set_parents_of [simp]: "set (parents_of E x) = {y. (y, x) \<in> set E}"
  by (force simp: parents_of_def)

function walk :: "('a \<times> 'a) list \<Rightarrow> 'a list \<Rightarrow> 'a list \<Rightarrow> 'a list" where
  "walk E seen [] = seen"
| "walk E seen (x # q) =
     (let new = add_new seen (children_of E x) in walk E (seen @ new) (q @ new))"
  by pat_completeness auto
termination
proof (relation "measure (\<lambda>(E, seen, q). 2 * card (snd ` set E - set seen) + length q)", goal_cases)
  case (2 E seen x q new)
  have "set (children_of E x) \<subseteq> snd ` set E" by force
  then show ?case
    using seen_less [of "snd ` set E" "children_of E x" seen] 2 by simp
qed simp

definition descend :: "('a \<times> 'a) list \<Rightarrow> 'a list \<Rightarrow> 'a list" where
  "descend E S = (let init = add_new [] S in walk E init init)"

lemma walk_keeps: "set seen \<subseteq> set (walk E seen q)"
  by (induction E seen q rule: walk.induct) (auto simp: Let_def)

lemma walk_sound:
  "set q \<subseteq> set seen \<Longrightarrow> set (walk E seen q) \<subseteq> (set E)\<^sup>* `` set seen"
proof (induction E seen q rule: walk.induct)
  case (2 E seen x q)
  let ?new = "add_new seen (children_of E x)"
  have "set (seen @ ?new) \<subseteq> (set E)\<^sup>* `` set seen" using 2(2) by auto
  then have "(set E)\<^sup>* `` set (seen @ ?new) \<subseteq> (set E)\<^sup>* `` ((set E)\<^sup>* `` set seen)"
    by (rule Image_mono [OF order_refl])
  also have "\<dots> = (set E)\<^sup>* `` set seen" by (simp add: relcomp_Image [symmetric])
  finally have "(set E)\<^sup>* `` set (seen @ ?new) \<subseteq> (set E)\<^sup>* `` set seen" .
  moreover have "set (walk E (seen @ ?new) (q @ ?new)) \<subseteq> (set E)\<^sup>* `` set (seen @ ?new)"
    using 2 by (intro 2(1)) auto
  ultimately show ?case by (simp add: Let_def)
qed auto

lemma walk_closed:
  "(\<And>x y. x \<in> set seen \<Longrightarrow> x \<notin> set q \<Longrightarrow> (x, y) \<in> set E \<Longrightarrow> y \<in> set seen) \<Longrightarrow>
   set E `` set (walk E seen q) \<subseteq> set (walk E seen q)"
proof (induction E seen q rule: walk.induct)
  case (2 E seen x q)
  let ?new = "add_new seen (children_of E x)"
  have "set E `` set (walk E (seen @ ?new) (q @ ?new)) \<subseteq> set (walk E (seen @ ?new) (q @ ?new))"
  proof (rule 2(1))
    fix a b assume "a \<in> set (seen @ ?new)" "a \<notin> set (q @ ?new)" "(a, b) \<in> set E"
    then show "b \<in> set (seen @ ?new)" using 2(2) [of a b] by (cases "a = x") auto
  qed simp
  then show ?case by (simp add: Let_def)
qed auto

lemma set_descend: "set (descend E S) = (set E)\<^sup>* `` set S"
proof
  show "set (descend E S) \<subseteq> (set E)\<^sup>* `` set S"
    using walk_sound [of "add_new [] S" "add_new [] S" E] by (simp add: descend_def Let_def)
  have "set E `` set (descend E S) \<subseteq> set (descend E S)"
    using walk_closed [of "add_new [] S" "add_new [] S" E] by (simp add: descend_def Let_def)
  moreover have "set S \<subseteq> set (descend E S)"
    using walk_keeps [of "add_new [] S" E "add_new [] S"] by (simp add: descend_def Let_def)
  ultimately show "(set E)\<^sup>* `` set S \<subseteq> set (descend E S)"
    by (metis Image_closed_trancl Image_mono order_refl)
qed

lemma distinct_walk: "distinct seen \<Longrightarrow> distinct (walk E seen q)"
  by (induction E seen q rule: walk.induct) (auto simp: Let_def)

lemma distinct_descend [simp]: "distinct (descend E S)"
  by (simp add: descend_def Let_def distinct_walk)

section \<open>A walk whose rows are anything\<close>

partial_function (option) walk_rows :: "('r \<Rightarrow> 'r list) \<Rightarrow> 'r list \<Rightarrow> 'r list \<Rightarrow> 'r list option" where
  "walk_rows f seen q = (case q of
     [] \<Rightarrow> Some seen
   | x # q' \<Rightarrow> (let new = add_new seen (f x) in walk_rows f (seen @ new) (q' @ new)))"

lemma walk_rows_Nil [simp]: "walk_rows f seen [] = Some seen"
  by (subst walk_rows.simps) simp

lemma walk_rows_Cons:
  "walk_rows f seen (x # q) = walk_rows f (seen @ add_new seen (f x)) (q @ add_new seen (f x))"
  by (subst walk_rows.simps) (simp add: Let_def)

text \<open>It ends when the rows stay inside a finite set.\<close>

lemma walk_rows_ends:
  assumes "finite U" "\<And>x. x \<in> U \<Longrightarrow> set (f x) \<subseteq> U" "set q \<subseteq> U"
  shows "\<exists>R. walk_rows f seen q = Some R"
  using assms(3)
proof (induction "2 * card (U - set seen) + length q" arbitrary: seen q rule: less_induct)
  case less
  show ?case
  proof (cases q)
    case (Cons x q')
    with less.prems have x: "set (f x) \<subseteq> U" using assms(2) by auto
    have "\<exists>R. walk_rows f (seen @ add_new seen (f x)) (q' @ add_new seen (f x)) = Some R"
      using seen_less [OF assms(1) x, of seen] x less.prems Cons by (intro less.hyps) auto
    then show ?thesis by (simp add: Cons walk_rows_Cons)
  qed simp
qed

text \<open>A result holds the rows of before, is closed under the step, and has what every closed
  property of the rows has.\<close>

lemma walk_rows_induct [consumes 1, case_names nil cons]:
  assumes "walk_rows f seen q = Some R"
    and "\<And>seen. P seen [] seen"
    and "\<And>seen x q R. P (seen @ add_new seen (f x)) (q @ add_new seen (f x)) R \<Longrightarrow> P seen (x # q) R"
  shows "P seen q R"
proof -
  let ?step = "\<lambda>f. \<forall>seen x q R. P (seen @ add_new seen (f x)) (q @ add_new seen (f x)) R \<longrightarrow> P seen (x # q) R"
  have "?step f \<longrightarrow> P seen q R"
  proof (rule walk_rows.raw_induct [OF _ assms(1), where P = "\<lambda>f seen q R. ?step f \<longrightarrow> P seen q R"], rule impI)
    fix walk_rows f seen q R
    assume IH: "\<And>f seen q R. walk_rows f seen q = Some R \<Longrightarrow> ?step f \<longrightarrow> P seen q R"
      and eq: "(case q of [] \<Rightarrow> Some seen
        | x # q' \<Rightarrow> let new = add_new seen (f x) in walk_rows f (seen @ new) (q' @ new)) = Some R"
      and step: "?step f"
    show "P seen q R"
    proof (cases q)
      case Nil
      with eq assms(2) [of seen] show ?thesis by simp
    next
      case (Cons x q')
      with eq have "walk_rows f (seen @ add_new seen (f x)) (q' @ add_new seen (f x)) = Some R"
        by (simp add: Let_def)
      from IH [OF this] step Cons show ?thesis by blast
    qed
  qed
  with assms(3) show ?thesis by blast
qed

lemma walk_rows_keeps: "walk_rows f seen q = Some R \<Longrightarrow> set seen \<subseteq> set R"
  by (induction rule: walk_rows_induct) auto

lemma walk_rows_closed:
  "walk_rows f seen q = Some R \<Longrightarrow> (\<And>x. x \<in> set seen \<Longrightarrow> x \<notin> set q \<Longrightarrow> set (f x) \<subseteq> set seen) \<Longrightarrow>
   x \<in> set R \<Longrightarrow> set (f x) \<subseteq> set R"
proof (induction rule: walk_rows_induct)
  case (cons seen y q R)
  show ?case
  proof (rule cons.IH)
    fix z assume "z \<in> set (seen @ add_new seen (f y))" "z \<notin> set (q @ add_new seen (f y))"
    then show "set (f z) \<subseteq> set (seen @ add_new seen (f y))"
      using cons.prems(1) [of z] by (cases "z = y") auto
  qed (rule cons.prems)
qed auto

lemma walk_rows_sound:
  "walk_rows f seen q = Some R \<Longrightarrow> (\<And>x y. P x \<Longrightarrow> y \<in> set (f x) \<Longrightarrow> P y) \<Longrightarrow>
   (\<And>x. x \<in> set seen \<union> set q \<Longrightarrow> P x) \<Longrightarrow> x \<in> set R \<Longrightarrow> P x"
proof (induction rule: walk_rows_induct)
  case (cons seen y q R)
  show ?case
  proof (rule cons.IH)
    fix z assume "z \<in> set (seen @ add_new seen (f y)) \<union> set (q @ add_new seen (f y))"
    then show "P z" using cons.prems(2) cons.prems(1) [of y z] by auto
  qed (use cons.prems in auto)
qed auto

section \<open>Acyclic graphs\<close>

lemma acyclic_subset': "acyclic E \<Longrightarrow> F \<subseteq> E \<Longrightarrow> acyclic F"
  by (rule acyclic_subset)

text \<open>A path that does not use an edge into \<open>r\<close> after its start.\<close>

lemma path_avoiding:
  assumes "(a, b) \<in> E\<^sup>*"
  shows "(a, b) \<in> {e \<in> E. snd e \<noteq> r}\<^sup>* \<or> ((a, r) \<in> E\<^sup>* \<and> (r, b) \<in> {e \<in> E. snd e \<noteq> r}\<^sup>*)"
  using assms
proof (induction rule: rtrancl_induct)
  case (step y z)
  show ?case
  proof (cases "z = r")
    case True
    with step show ?thesis by (auto intro: rtrancl_into_rtrancl)
  next
    case False
    with step(2) have "(y, z) \<in> {e \<in> E. snd e \<noteq> r}" by simp
    with step.IH show ?thesis by (meson rtrancl.rtrancl_into_rtrancl)
  qed
qed simp

text \<open>The edges into \<open>r\<close> are replaced by edges from \<open>P\<close>.\<close>

definition with_parents :: "('a \<times> 'a) set \<Rightarrow> 'a \<Rightarrow> 'a set \<Rightarrow> ('a \<times> 'a) set" where
  "with_parents E r P = {e \<in> E. snd e \<noteq> r} \<union> P \<times> {r}"

lemma with_parents_acyclic:
  assumes "acyclic E"
  shows "acyclic (with_parents E r P) \<longleftrightarrow> r \<notin> P \<and> (\<forall>p\<in>P. (r, p) \<notin> E\<^sup>+)"
proof
  assume a: "acyclic (with_parents E r P)"
  show "r \<notin> P \<and> (\<forall>p\<in>P. (r, p) \<notin> E\<^sup>+)"
  proof (intro conjI ballI notI)
    assume "r \<in> P"
    then have "(r, r) \<in> with_parents E r P" by (simp add: with_parents_def)
    with a show False by (meson acyclic_def r_into_trancl)
  next
    fix p assume p: "p \<in> P" and "(r, p) \<in> E\<^sup>+"
    then have "(r, p) \<in> E\<^sup>*" by simp
    with path_avoiding [of r p E r] have "(r, p) \<in> {e \<in> E. snd e \<noteq> r}\<^sup>*" by auto
    then have "(r, p) \<in> (with_parents E r P)\<^sup>*"
      by (rule rtrancl_mono [THEN subsetD, rotated]) (auto simp: with_parents_def)
    moreover from p have "(p, r) \<in> with_parents E r P" by (simp add: with_parents_def)
    ultimately show False using a by (meson acyclic_def rtrancl_into_trancl1)
  qed
next
  let ?E = "{e \<in> E. snd e \<noteq> r}"
  assume b: "r \<notin> P \<and> (\<forall>p\<in>P. (r, p) \<notin> E\<^sup>+)"
  have c: "acyclic ?E" using assms by (rule acyclic_subset) auto
  have d: "(r, p) \<notin> ?E\<^sup>*" if "p \<in> P" for p
  proof
    assume "(r, p) \<in> ?E\<^sup>*"
    then have "(r, p) \<in> E\<^sup>*" by (rule rtrancl_mono [THEN subsetD, rotated]) auto
    with b that show False by (auto simp: rtrancl_eq_or_trancl)
  qed
  show "acyclic (with_parents E r P)"
  proof (rule acyclicI, rule allI, rule notI)
    fix x assume x: "(x, x) \<in> (with_parents E r P)\<^sup>+"
    have "(u, v) \<in> (with_parents E r P)\<^sup>+ \<Longrightarrow>
        (u, v) \<in> ?E\<^sup>+ \<or> ((\<exists>p\<in>P. (u, p) \<in> ?E\<^sup>*) \<and> (r, v) \<in> ?E\<^sup>*)" for u v
    proof (induction rule: trancl_induct)
      case (base y)
      then show ?case by (auto simp: with_parents_def)
    next
      case (step y z)
      from step(2) consider (old) "(y, z) \<in> ?E" | (new) "y \<in> P" "z = r"
        by (auto simp: with_parents_def)
      then show ?case
      proof cases
        case old
        with step.IH show ?thesis by (meson rtrancl.rtrancl_into_rtrancl trancl.trancl_into_trancl)
      next
        case new
        with step.IH d [of y] show ?thesis by (auto intro: trancl_into_rtrancl)
      qed
    qed
    from this [OF x] c have "\<exists>p\<in>P. (x, p) \<in> ?E\<^sup>* \<and> (r, x) \<in> ?E\<^sup>*" by (auto simp: acyclic_def)
    then show False using d by (meson rtrancl_trans)
  qed
qed

text \<open>The edges out of \<open>r\<close> are replaced by edges to \<open>C\<close>.\<close>

definition with_children :: "('a \<times> 'a) set \<Rightarrow> 'a \<Rightarrow> 'a set \<Rightarrow> ('a \<times> 'a) set" where
  "with_children E r C = {e \<in> E. fst e \<noteq> r} \<union> {r} \<times> C"

lemma with_children_acyclic:
  assumes "acyclic E"
  shows "acyclic (with_children E r C) \<longleftrightarrow> r \<notin> C \<and> (\<forall>c\<in>C. (c, r) \<notin> E\<^sup>+)"
proof -
  have "with_children E r C = (with_parents (E\<inverse>) r C)\<inverse>"
    by (auto simp: with_children_def with_parents_def)
  then have "acyclic (with_children E r C) \<longleftrightarrow> acyclic (with_parents (E\<inverse>) r C)"
    by (simp add: acyclic_converse)
  also have "\<dots> \<longleftrightarrow> r \<notin> C \<and> (\<forall>c\<in>C. (r, c) \<notin> (E\<inverse>)\<^sup>+)"
    using assms by (intro with_parents_acyclic) (simp add: acyclic_converse)
  finally show ?thesis by (simp add: trancl_converse)
qed

text \<open>New edges into a set of nodes from one that they do not reach.\<close>

lemma acyclic_regraft:
  assumes "acyclic E" "F \<subseteq> E \<union> {p} \<times> R" "p \<notin> E\<^sup>* `` R"
  shows "acyclic F"
proof (rule acyclic_subset [OF _ assms(2)], rule acyclicI, rule allI, rule notI)
  fix x assume x: "(x, x) \<in> (E \<union> {p} \<times> R)\<^sup>+"
  have "(u, v) \<in> (E \<union> {p} \<times> R)\<^sup>+ \<Longrightarrow> (u, v) \<in> E\<^sup>+ \<or> ((u, p) \<in> E\<^sup>* \<and> v \<in> E\<^sup>* `` R)" for u v
  proof (induction rule: trancl_induct)
    case (step y z)
    from step(2) consider (old) "(y, z) \<in> E" | (new) "y = p" "z \<in> R" by auto
    then show ?case
    proof cases
      case old
      with step.IH show ?thesis by (auto intro: trancl_into_trancl rtrancl_into_rtrancl)
    next
      case new
      with step.IH assms(3) show ?thesis by (auto intro: trancl_into_rtrancl)
    qed
  qed auto
  from this [OF x] assms(1) have "(x, p) \<in> E\<^sup>*" "x \<in> E\<^sup>* `` R" by (auto simp: acyclic_def)
  then have "p \<in> E\<^sup>* `` R" by (auto intro: rtrancl_trans)
  with assms(3) show False ..
qed

end
