(* ===== verification/Role_Registry.thy ===== *)
theory Role_Registry
  imports Budget_Registry_Schema Role_Graph "HOL-Library.List_Lexorder" "HOL-Library.Char_ord"
begin

text \<open>
  The role registry (\<open>crates/aeqi-orchestrator/src/role_registry.rs\<close>): the org chart of an entity.
  A role is a slot with an occupant (a person, an agent, another trust, nobody), a type and a set of
  grants; the edges (parent, child) say who controls whom, and authority is their transitive closure.
  The tables are those of the database the budget registry shares, so that removing a role meets the
  references that budgets and their events hold. Each statement commits on its own: an operation
  that fails half way keeps what it has done. The clock and the UUIDs are arguments.
\<close>

section \<open>Roles\<close>

datatype OccupantKind = Human | Agent | Trust | Vacant

fun occupant_as_db :: "OccupantKind \<Rightarrow> string" where
  "occupant_as_db Human = ''human''"
| "occupant_as_db Agent = ''agent''"
| "occupant_as_db Trust = ''trust''"
| "occupant_as_db Vacant = ''vacant''"

definition occupant_from_str :: "string \<Rightarrow> OccupantKind option" where
  "occupant_from_str s =
     (if s = ''human'' then Some Human else if s = ''agent'' then Some Agent
      else if s = ''trust'' then Some Trust else if s = ''vacant'' then Some Vacant else None)"

datatype RegRoleType = Director | Operational | Advisor

fun role_type_as_db :: "RegRoleType \<Rightarrow> string" where
  "role_type_as_db Director = ''director''"
| "role_type_as_db Operational = ''operational''"
| "role_type_as_db Advisor = ''advisor''"

definition role_type_from_str :: "string \<Rightarrow> RegRoleType option" where
  "role_type_from_str s =
     (if s = ''director'' then Some Director else if s = ''operational'' then Some Operational
      else if s = ''advisor'' then Some Advisor else None)"

definition GRANT_ROLES_MANAGE :: string where "GRANT_ROLES_MANAGE = ''roles.manage''"
definition GRANT_AGENTS_SPAWN :: string where "GRANT_AGENTS_SPAWN = ''agents.spawn''"
definition GRANT_AGENTS_CONFIGURE :: string where "GRANT_AGENTS_CONFIGURE = ''agents.configure''"
definition GRANT_TREASURY_READ :: string where "GRANT_TREASURY_READ = ''treasury.read''"
definition GRANT_GOVERNANCE_READ :: string where "GRANT_GOVERNANCE_READ = ''governance.read''"
definition GRANT_SETTINGS_MODIFY :: string where "GRANT_SETTINGS_MODIFY = ''settings.modify''"

definition ALL_GRANTS :: "string list" where
  "ALL_GRANTS = [GRANT_ROLES_MANAGE, GRANT_AGENTS_SPAWN, GRANT_AGENTS_CONFIGURE, GRANT_TREASURY_READ,
     GRANT_GOVERNANCE_READ, GRANT_SETTINGS_MODIFY]"

fun default_grants_for_type :: "RegRoleType \<Rightarrow> string list" where
  "default_grants_for_type Director = ALL_GRANTS"
| "default_grants_for_type Operational =
     [GRANT_ROLES_MANAGE, GRANT_AGENTS_SPAWN, GRANT_AGENTS_CONFIGURE, GRANT_TREASURY_READ]"
| "default_grants_for_type Advisor = [GRANT_TREASURY_READ, GRANT_GOVERNANCE_READ]"

record RegRole =
  rl_id :: string
  rl_trust_id :: string
  rl_title :: string
  rl_occupant_kind :: OccupantKind
  rl_occupant_id :: "string option"
  rl_role_type :: RegRoleType
  rl_founder :: bool
  rl_grants :: "string list"
  rl_description_idea_id :: "string option"
  rl_created_at :: stamp
  rl_updated_at :: "stamp option"

definition row_to_role :: "string \<times> role_row \<Rightarrow> RegRole" where
  "row_to_role = (\<lambda>(r, row).
     \<lparr>rl_id = r, rl_trust_id = rr_trust_id row, rl_title = rr_title row,
      rl_occupant_kind = (case occupant_from_str (rr_occupant_kind row) of Some k \<Rightarrow> k | None \<Rightarrow> Vacant),
      rl_occupant_id = rr_occupant_id row,
      rl_role_type = (case role_type_from_str (rr_role_type row) of Some t \<Rightarrow> t | None \<Rightarrow> Operational),
      rl_founder = rr_founder row, rl_grants = [],
      rl_description_idea_id = rr_description_idea_id row,
      rl_created_at = rr_created_at row, rl_updated_at = rr_updated_at row\<rparr>)"

section \<open>Statements\<close>

text \<open>The checks of the table \<open>roles\<close>.\<close>

definition role_row_ok :: "role_row \<Rightarrow> bool" where
  "role_row_ok row \<longleftrightarrow>
     (if rr_occupant_kind row = ''vacant'' then rr_occupant_id row = None
      else rr_occupant_kind row \<in> {''human'', ''agent'', ''trust''} \<and> rr_occupant_id row \<noteq> None) \<and>
     rr_role_type row \<in> {''director'', ''advisor'', ''operational''}"

text \<open>\<open>INSERT \<dots> ON CONFLICT(id) DO NOTHING\<close>\<close>

definition insert_role_if_absent :: "string \<Rightarrow> role_row \<Rightarrow> reg_db \<Rightarrow> reg_db option" where
  "insert_role_if_absent r row d =
     (if \<not> role_row_ok row then None else if has (roles d) r then Some d else insert_role r row d)"

text \<open>\<open>UPDATE roles SET \<dots> WHERE id = \<dots>\<close>\<close>

definition update_row :: "string \<Rightarrow> (role_row \<Rightarrow> role_row) \<Rightarrow> reg_db \<Rightarrow> reg_db option" where
  "update_row r f d = (case map_of (roles d) r of
     None \<Rightarrow> Some d
   | Some row \<Rightarrow> if role_row_ok (f row) then Some (d\<lparr>roles := AList.update r (f row) (roles d)\<rparr>) else None)"

definition delete_grants :: "string \<Rightarrow> reg_db \<Rightarrow> reg_db" where
  "delete_grants r d = d\<lparr>role_grants := filter (\<lambda>g. fst g \<noteq> r) (role_grants d)\<rparr>"

definition delete_edges :: "(string \<times> string \<Rightarrow> bool) \<Rightarrow> reg_db \<Rightarrow> reg_db" where
  "delete_edges P d = d\<lparr>role_edges := filter (\<lambda>e. \<not> P e) (role_edges d)\<rparr>"

text \<open>The references to a role that do not cascade: budgets, policies, events, configurations.\<close>

definition role_referenced :: "reg_db \<Rightarrow> string \<Rightarrow> bool" where
  "role_referenced d r \<longleftrightarrow>
     list_ex (\<lambda>(_, b). owner_role_id b = r \<or> created_by_role_id b = Some r) (budgets d) \<or>
     list_ex (\<lambda>(_, p). set_by_role_id p = Some r) (policies d) \<or>
     list_ex (\<lambda>e. acting_role_id e = r) (events d) \<or>
     list_ex (\<lambda>(_, c). admin_role_id c = r) (configs d)"

text \<open>\<open>DELETE FROM roles WHERE \<dots>\<close>: edges and grants go with the role.\<close>

definition delete_roles :: "(string \<times> role_row \<Rightarrow> bool) \<Rightarrow> reg_db \<Rightarrow> reg_db option" where
  "delete_roles P d =
     (let gone = map fst (filter P (roles d)) in
      if list_ex (role_referenced d) gone then None
      else Some (d\<lparr>roles := filter (\<lambda>x. \<not> P x) (roles d),
             role_grants := filter (\<lambda>g. fst g \<notin> set gone) (role_grants d),
             role_edges := filter (\<lambda>e. fst e \<notin> set gone \<and> snd e \<notin> set gone) (role_edges d)\<rparr>))"

fun insert_parents :: "string list \<Rightarrow> string \<Rightarrow> reg_db \<Rightarrow> unit reg" where
  "insert_parents [] r d = (Inr (), d)"
| "insert_parents (p # ps) r d = bindR (exec (insert_edge p r d) d) (\<lambda>_. insert_parents ps r)"

fun insert_children :: "string \<Rightarrow> string list \<Rightarrow> reg_db \<Rightarrow> unit reg" where
  "insert_children r [] d = (Inr (), d)"
| "insert_children r (c # cs) d = bindR (exec (insert_edge r c d) d) (\<lambda>_. insert_children r cs)"

section \<open>Reads\<close>

definition in_entity :: "string \<Rightarrow> reg_db \<Rightarrow> (string \<times> role_row) list" where
  "in_entity trust d = filter (\<lambda>(_, row). rr_trust_id row = trust) (roles d)"

definition list_for_entity :: "string \<Rightarrow> reg_db \<Rightarrow> RegRole list" where
  "list_for_entity trust d = map row_to_role (sort_key (rr_created_at \<circ> snd) (in_entity trust d))"

definition list_edges_for_entity :: "string \<Rightarrow> reg_db \<Rightarrow> (string \<times> string) list" where
  "list_edges_for_entity trust d = filter (\<lambda>(p, _). role_in_trust p trust d) (role_edges d)"

definition list_for_entity_with_grants :: "string \<Rightarrow> reg_db \<Rightarrow> RegRole list \<times> (string \<times> string) list" where
  "list_for_entity_with_grants trust d =
     (map (\<lambda>role. role\<lparr>rl_grants := map snd (filter (\<lambda>(r, _). r = rl_id role) (role_grants d))\<rparr>)
        (list_for_entity trust d), list_edges_for_entity trust d)"

definition get_grants :: "string \<Rightarrow> reg_db \<Rightarrow> string list" where
  "get_grants r d = sort (map snd (filter (\<lambda>(x, _). x = r) (role_grants d)))"

definition get_role :: "string \<Rightarrow> reg_db \<Rightarrow> RegRole option" where
  "get_role r d = map_option (\<lambda>row. (row_to_role (r, row))\<lparr>rl_grants := get_grants r d\<rparr>) (map_of (roles d) r)"

definition get_by_occupant :: "string \<Rightarrow> string \<Rightarrow> reg_db \<Rightarrow> RegRole option" where
  "get_by_occupant trust occupant d =
     (case sort_key (rr_created_at \<circ> snd)
             (filter (\<lambda>(_, row). rr_occupant_id row = Some occupant) (in_entity trust d)) of
        [] \<Rightarrow> None
      | x # _ \<Rightarrow> Some ((row_to_role x)\<lparr>rl_grants := get_grants (fst x) d\<rparr>))"

definition occupies :: "string \<Rightarrow> string \<Rightarrow> role_row \<Rightarrow> bool" where
  "occupies kind who row \<longleftrightarrow> rr_occupant_kind row = kind \<and> rr_occupant_id row = Some who"

definition user_grants_for_entity :: "string \<Rightarrow> string \<Rightarrow> reg_db \<Rightarrow> string list" where
  "user_grants_for_entity trust user d = sort (remdups (map snd (filter
     (\<lambda>(r, _). list_ex (\<lambda>(x, row). x = r \<and> occupies ''human'' user row) (in_entity trust d))
     (role_grants d))))"

definition user_has_grant :: "string \<Rightarrow> string \<Rightarrow> string \<Rightarrow> reg_db \<Rightarrow> bool" where
  "user_has_grant trust user grant d \<longleftrightarrow> list_ex (\<lambda>g. g = grant) (user_grants_for_entity trust user d)"

section \<open>Authority\<close>

text \<open>The walks join an edge with its child's row and stay inside the entity.\<close>

definition edges_within :: "string \<Rightarrow> reg_db \<Rightarrow> (string \<times> string) list" where
  "edges_within trust d = filter (\<lambda>(_, c). role_in_trust c trust d) (role_edges d)"

definition has_parent :: "string \<Rightarrow> reg_db \<Rightarrow> bool" where
  "has_parent r d \<longleftrightarrow> list_ex (\<lambda>(_, c). c = r) (role_edges d)"

definition managed :: "string \<Rightarrow> string \<Rightarrow> string \<Rightarrow> reg_db \<Rightarrow> string list" where
  "managed trust user grant d = descend (edges_within trust d)
     (map fst (filter (\<lambda>(r, row). occupies ''human'' user row \<and> (r, grant) \<in> set (role_grants d))
       (in_entity trust d)))"

definition user_can_create_root_role :: "string \<Rightarrow> string \<Rightarrow> reg_db \<Rightarrow> bool" where
  "user_can_create_root_role trust user d \<longleftrightarrow>
     list_ex (\<lambda>(r, row). occupies ''human'' user row \<and> rr_role_type row = ''director'' \<and>
       (r, GRANT_ROLES_MANAGE) \<in> set (role_grants d)) (in_entity trust d)"

definition user_can_manage_role :: "string \<Rightarrow> string \<Rightarrow> string \<Rightarrow> reg_db \<Rightarrow> bool" where
  "user_can_manage_role trust user target d \<longleftrightarrow>
     (if \<not> role_in_trust target trust d then False
      else if \<not> has_parent target d \<and> user_can_create_root_role trust user d then True
      else target \<in> set (managed trust user GRANT_ROLES_MANAGE d))"

definition role_exists :: "string \<Rightarrow> string \<Rightarrow> reg_db \<Rightarrow> bool" where
  "role_exists r trust d \<longleftrightarrow> role_in_trust r trust d"

datatype QuestCallerPrincipal = User string | AgentCaller string

fun principal :: "QuestCallerPrincipal \<Rightarrow> string \<times> string" where
  "principal (User i) = (''human'', i)"
| "principal (AgentCaller i) = (''agent'', i)"

definition controlled :: "string \<Rightarrow> string \<Rightarrow> string \<Rightarrow> reg_db \<Rightarrow> string list" where
  "controlled trust kind who d = descend (edges_within trust d)
     (map fst (filter (\<lambda>(_, row). occupies kind who row) (in_entity trust d)))"

definition can_claim_role :: "QuestCallerPrincipal \<Rightarrow> string \<Rightarrow> string \<Rightarrow> reg_db \<Rightarrow> bool" where
  "can_claim_role caller target trust d = (case principal caller of (kind, who) \<Rightarrow>
     if \<not> role_in_trust target trust d then False
     else if list_ex (\<lambda>(r, row). r = target \<and> occupies kind who row) (in_entity trust d) then True
     else target \<in> set (controlled trust kind who d))"

section \<open>Writes\<close>

definition fresh_role :: "string \<Rightarrow> string \<Rightarrow> OccupantKind \<Rightarrow> string option \<Rightarrow> RegRoleType \<Rightarrow> bool \<Rightarrow> stamp \<Rightarrow> role_row"
where
  "fresh_role trust title kind occupant ty founder now =
     \<lparr>rr_trust_id = trust, rr_title = title, rr_occupant_kind = occupant_as_db kind,
      rr_occupant_id = occupant, rr_role_type = role_type_as_db ty, rr_founder = founder,
      rr_created_at = now, rr_updated_at = None, rr_description_idea_id = None\<rparr>"

definition upsert_role :: "string \<Rightarrow> string \<Rightarrow> string \<Rightarrow> OccupantKind \<Rightarrow> string option \<Rightarrow> stamp \<Rightarrow> reg_db \<Rightarrow> unit reg"
where
  "upsert_role r trust title kind occupant now d =
     exec (insert_role_if_absent r (fresh_role trust title kind occupant Operational False now) d) d"

definition effective_grants :: "RegRoleType \<Rightarrow> string list option \<Rightarrow> string list" where
  "effective_grants ty grants = (case grants of
     Some g \<Rightarrow> if g \<noteq> [] then g else default_grants_for_type ty
   | None \<Rightarrow> default_grants_for_type ty)"

definition create_with_type :: "string \<Rightarrow> string \<Rightarrow> OccupantKind \<Rightarrow> string option \<Rightarrow> RegRoleType \<Rightarrow> bool \<Rightarrow>
  string list option \<Rightarrow> string \<Rightarrow> stamp \<Rightarrow> reg_db \<Rightarrow> RegRole reg" where
  "create_with_type trust title kind occupant ty founder grants uuid now d =
     (let gs = effective_grants ty grants in
      bindR (exec (insert_role uuid (fresh_role trust title kind occupant ty founder now) d) d) (\<lambda>_ d.
      bindR (exec (insert_grants uuid gs d) d) (\<lambda>_ d.
      case map_of (roles d) uuid of
        None \<Rightarrow> (Inl (Message ''role not found after insert''), d)
      | Some row \<Rightarrow> (Inr ((row_to_role (uuid, row))\<lparr>rl_grants := gs\<rparr>), d))))"

definition create_role :: "string \<Rightarrow> string \<Rightarrow> OccupantKind \<Rightarrow> string option \<Rightarrow> string \<Rightarrow> stamp \<Rightarrow> reg_db \<Rightarrow> RegRole reg"
where
  "create_role trust title kind occupant = create_with_type trust title kind occupant Operational False None"

definition set_grants :: "string \<Rightarrow> string list \<Rightarrow> reg_db \<Rightarrow> unit reg" where
  "set_grants r gs d = (let d1 = delete_grants r d in exec (insert_grants r gs d1) d1)"

definition update_role :: "string \<Rightarrow> string option \<Rightarrow> RegRoleType option \<Rightarrow> string list option \<Rightarrow> stamp \<Rightarrow> reg_db \<Rightarrow> unit reg"
where
  "update_role r title ty grants now d =
     bindR (case (title, ty) of
          (Some t, Some rt) \<Rightarrow> exec (update_row r (\<lambda>row. row\<lparr>rr_title := t,
              rr_role_type := role_type_as_db rt, rr_updated_at := Some now\<rparr>) d) d
        | (Some t, None) \<Rightarrow> exec (update_row r (\<lambda>row. row\<lparr>rr_title := t, rr_updated_at := Some now\<rparr>) d) d
        | (None, Some rt) \<Rightarrow> exec (update_row r (\<lambda>row. row\<lparr>rr_role_type := role_type_as_db rt,
              rr_updated_at := Some now\<rparr>) d) d
        | (None, None) \<Rightarrow> (Inr (), d))
       (\<lambda>_ d. case grants of None \<Rightarrow> (Inr (), d) | Some gs \<Rightarrow> set_grants r gs d)"

definition archive_role :: "string \<Rightarrow> reg_db \<Rightarrow> unit reg" where
  "archive_role r d = exec (delete_roles (\<lambda>(x, _). x = r) d) d"

definition set_description_idea :: "string \<Rightarrow> string option \<Rightarrow> stamp \<Rightarrow> reg_db \<Rightarrow> unit reg" where
  "set_description_idea r idea now d =
     exec (update_row r (\<lambda>row. row\<lparr>rr_description_idea_id := idea, rr_updated_at := Some now\<rparr>) d) d"

definition add_edge :: "string \<Rightarrow> string \<Rightarrow> reg_db \<Rightarrow> unit reg" where
  "add_edge par ch d =
     (if par = ch then (Inl (Message ''self-loop edges are forbidden''), d)
      else exec (insert_edge par ch d) d)"

text \<open>A \<open>BTreeSet\<close> of the ids that are not empty.\<close>

definition id_set :: "string list \<Rightarrow> string list" where
  "id_set xs = sort (remdups (filter (\<lambda>x. x \<noteq> []) xs))"

text \<open>The rows of the walk from \<open>r\<close> start with its children.\<close>

definition descendants :: "string \<Rightarrow> reg_db \<Rightarrow> string list" where
  "descendants r d = descend (role_edges d) (children_of (role_edges d) r)"

fun check_parents :: "string \<Rightarrow> string \<Rightarrow> string list \<Rightarrow> reg_db \<Rightarrow> string option" where
  "check_parents r trust [] d = None"
| "check_parents r trust (p # ps) d = (case map_of (roles d) p of
     None \<Rightarrow> Some (''parent role not found: '' @ p)
   | Some row \<Rightarrow>
       if rr_trust_id row \<noteq> trust then Some ''role edge crosses entity boundary''
       else if p \<in> set (descendants r d) then Some ''role edge would create a cycle''
       else check_parents r trust ps d)"

fun check_children :: "string \<Rightarrow> string \<Rightarrow> string list \<Rightarrow> reg_db \<Rightarrow> string option" where
  "check_children r trust [] d = None"
| "check_children r trust (c # cs) d = (case map_of (roles d) c of
     None \<Rightarrow> Some (''child role not found: '' @ c)
   | Some row \<Rightarrow>
       if rr_trust_id row \<noteq> trust then Some ''role edge crosses entity boundary''
       else if r \<in> set (descendants c d) then Some ''role edge would create a cycle''
       else check_children r trust cs d)"

definition set_parent_edges :: "string \<Rightarrow> string list \<Rightarrow> stamp \<Rightarrow> reg_db \<Rightarrow> unit reg" where
  "set_parent_edges r parent_ids now d =
     (let parents = id_set parent_ids in
      if r \<in> set parents then (Inl (Message ''self-loop edges are forbidden''), d)
      else case map_of (roles d) r of
        None \<Rightarrow> (Inl (Message ''role not found''), d)
      | Some row \<Rightarrow> (case check_parents r (rr_trust_id row) parents d of
          Some e \<Rightarrow> (Inl (Message e), d)
        | None \<Rightarrow> bindR (insert_parents parents r (delete_edges (\<lambda>(_, c). c = r) d)) (\<lambda>_ d1.
            exec (update_row r (\<lambda>row. row\<lparr>rr_updated_at := Some now\<rparr>) d1) d1)))"

definition set_child_edges :: "string \<Rightarrow> string list \<Rightarrow> stamp \<Rightarrow> reg_db \<Rightarrow> unit reg" where
  "set_child_edges r child_ids now d =
     (let children = id_set child_ids in
      if r \<in> set children then (Inl (Message ''self-loop edges are forbidden''), d)
      else case map_of (roles d) r of
        None \<Rightarrow> (Inl (Message ''role not found''), d)
      | Some row \<Rightarrow> (case check_children r (rr_trust_id row) children d of
          Some e \<Rightarrow> (Inl (Message e), d)
        | None \<Rightarrow> bindR (insert_children r children (delete_edges (\<lambda>(p, _). p = r) d)) (\<lambda>_ d1.
            exec (update_row r (\<lambda>row. row\<lparr>rr_updated_at := Some now\<rparr>) d1) d1)))"

definition update_occupant :: "string \<Rightarrow> OccupantKind \<Rightarrow> string option \<Rightarrow> stamp \<Rightarrow> reg_db \<Rightarrow> unit reg" where
  "update_occupant r kind occupant now d =
     exec (update_row r (\<lambda>row. row\<lparr>rr_occupant_kind := occupant_as_db kind, rr_occupant_id := occupant,
       rr_updated_at := Some now\<rparr>) d) d"

definition delete_for_entity :: "string \<Rightarrow> reg_db \<Rightarrow> unit reg" where
  "delete_for_entity trust d =
     (let d1 = delete_edges (\<lambda>(p, c). role_in_trust p trust d \<or> role_in_trust c trust d) d
      in exec (delete_roles (\<lambda>(_, row). rr_trust_id row = trust) d1) d1)"

text \<open>\<open>LIMIT 1\<close> without an order takes the first row of the table.\<close>

definition ensure_founding_director :: "string \<Rightarrow> string \<Rightarrow> string \<Rightarrow> stamp \<Rightarrow> reg_db \<Rightarrow> RegRole reg" where
  "ensure_founding_director trust user uuid now d =
     (case filter (\<lambda>(_, row). rr_role_type row = ''director'' \<and> rr_founder row) (in_entity trust d) of
        x # _ \<Rightarrow> (Inr ((row_to_role x)\<lparr>rl_grants := get_grants (fst x) d\<rparr>), d)
      | [] \<Rightarrow> create_with_type trust ''Director'' Human (Some user) Director True None uuid now d)"

end
