(* ===== verification/Role_Handlers.thy ===== *)
theory Role_Handlers
  imports Role_Registry Quests_Quest
begin

text \<open>
  The commands on roles (\<open>ipc/roles.rs\<close>, with \<open>request_field\<close> and \<open>is_allowed\<close> of \<open>ipc\<close>): parsing of
  the request, the gate on the caller's branch, the registry operations in their order, and for a
  change of occupant the rotation of the sessions anchored to the role. A command answers with an error
  or a value, together with the database it leaves: nothing is rolled back. \<open>allowed\<close> is the list
  of entities the caller may see, \<open>None\<close> when there is no restriction.
\<close>

section \<open>Requests\<close>

definition field :: "json \<Rightarrow> string \<Rightarrow> json option" where
  "field req k = Option.bind (as_object req) (\<lambda>m. map_of m k)"

fun as_str :: "json \<Rightarrow> string option" where
  "as_str (JString s) = Some s"
| "as_str _ = None"

fun as_array :: "json \<Rightarrow> json list option" where
  "as_array (JArray xs) = Some xs"
| "as_array _ = None"

definition request_field :: "json \<Rightarrow> string \<Rightarrow> string option" where
  "request_field req k = (case Option.bind (field req k) as_str of
     Some s \<Rightarrow> if s = [] then None else Some s
   | None \<Rightarrow> None)"

definition string_array :: "json \<Rightarrow> string \<Rightarrow> string list option" where
  "string_array req k = map_option (List.map_filter as_str) (Option.bind (field req k) as_array)"

definition caller_user_id :: "json \<Rightarrow> string" where
  "caller_user_id req = (case Option.bind (field req ''caller_user_id'') as_str of Some s \<Rightarrow> s | None \<Rightarrow> [])"

definition is_allowed :: "string list option \<Rightarrow> string \<Rightarrow> bool" where
  "is_allowed allowed x = (case allowed of None \<Rightarrow> True | Some xs \<Rightarrow> list_ex (\<lambda>c. c = x) xs)"

definition description_idea_from_field :: "json \<Rightarrow> string option option" where
  "description_idea_from_field f =
     (if f = JNull then Some None else map_option (\<lambda>s. if s = [] then None else Some s) (as_str f))"

section \<open>Answers\<close>

datatype role_error =
    Required string | AccessDenied | AuthRequired | OutsideBranch | DirectorRequired
  | UnknownOccupantKind string | UnknownRoleType string | OccupantRequired | NotFound | Vanished
  | Registry reg_error

type_synonym 'a answer = "(role_error + 'a) \<times> reg_db"

definition lift :: "'a reg \<Rightarrow> 'a answer" where
  "lift m = (case m of (Inl e, d) \<Rightarrow> (Inl (Registry e), d) | (Inr x, d) \<Rightarrow> (Inr x, d))"

definition bindA :: "'a answer \<Rightarrow> ('a \<Rightarrow> reg_db \<Rightarrow> 'b answer) \<Rightarrow> 'b answer" where
  "bindA m f = (case m of (Inl e, d) \<Rightarrow> (Inl e, d) | (Inr x, d) \<Rightarrow> f x d)"

text \<open>A read that answers with an error or goes on.\<close>

definition ask :: "role_error + 'a \<Rightarrow> ('a \<Rightarrow> reg_db \<Rightarrow> 'b answer) \<Rightarrow> reg_db \<Rightarrow> 'b answer" where
  "ask r f d = (case r of Inl e \<Rightarrow> (Inl e, d) | Inr x \<Rightarrow> f x d)"

definition need :: "role_error option \<Rightarrow> (reg_db \<Rightarrow> 'b answer) \<Rightarrow> reg_db \<Rightarrow> 'b answer" where
  "need r f d = (case r of Some e \<Rightarrow> (Inl e, d) | None \<Rightarrow> f d)"

definition required :: "json \<Rightarrow> string \<Rightarrow> role_error + string" where
  "required req k = (case request_field req k of None \<Rightarrow> Inl (Required k) | Some s \<Rightarrow> Inr s)"

definition the_role :: "role_error \<Rightarrow> string \<Rightarrow> reg_db \<Rightarrow> role_error + RegRole" where
  "the_role e r d = (case get_role r d of None \<Rightarrow> Inl e | Some x \<Rightarrow> Inr x)"

section \<open>Gates\<close>

definition require_can_manage_role :: "string \<Rightarrow> string \<Rightarrow> string \<Rightarrow> reg_db \<Rightarrow> role_error option" where
  "require_can_manage_role trust r caller d =
     (if caller = [] then Some AuthRequired
      else if user_can_manage_role trust caller r d then None else Some OutsideBranch)"

definition require_can_create_root_role :: "string \<Rightarrow> string \<Rightarrow> reg_db \<Rightarrow> role_error option" where
  "require_can_create_root_role trust caller d =
     (if caller = [] then Some AuthRequired
      else if user_can_create_root_role trust caller d then None else Some DirectorRequired)"

definition parse_kind :: "json \<Rightarrow> role_error + OccupantKind" where
  "parse_kind req =
     (let s = (case request_field req ''occupant_kind'' of Some s \<Rightarrow> s | None \<Rightarrow> ''vacant'')
      in case occupant_from_str s of Some k \<Rightarrow> Inr k | None \<Rightarrow> Inl (UnknownOccupantKind s))"

definition parse_type :: "string \<Rightarrow> role_error + RegRoleType" where
  "parse_type s = (case role_type_from_str s of Some t \<Rightarrow> Inr t | None \<Rightarrow> Inl (UnknownRoleType s))"

definition occupant_missing :: "OccupantKind \<Rightarrow> string option \<Rightarrow> role_error option" where
  "occupant_missing kind occupant =
     (if kind \<noteq> Vacant \<and> occupant = None then Some OccupantRequired else None)"

section \<open>Reading\<close>

definition handle_list_roles :: "string list option \<Rightarrow> json \<Rightarrow> reg_db \<Rightarrow> (RegRole list \<times> (string \<times> string) list) answer"
where
  "handle_list_roles allowed req = ask (required req ''trust_id'') (\<lambda>trust d.
     if \<not> is_allowed allowed trust then (Inl AccessDenied, d)
     else (Inr (list_for_entity_with_grants trust d), d))"

definition handle_get_role :: "json \<Rightarrow> reg_db \<Rightarrow> (RegRole \<times> string list \<times> string list) answer" where
  "handle_get_role req = ask (required req ''role_id'') (\<lambda>r d. ask (the_role NotFound r d) (\<lambda>role d.
     (let es = list_edges_for_entity (rl_trust_id role) d in
      (Inr (role, parents_of es r, children_of es r), d))) d)"

definition handle_user_grants :: "string list option \<Rightarrow> json \<Rightarrow> reg_db \<Rightarrow> string list answer" where
  "handle_user_grants allowed req = ask (required req ''trust_id'') (\<lambda>trust.
     ask (required req ''user_id'') (\<lambda>user d.
       if \<not> is_allowed allowed trust then (Inl AccessDenied, d)
       else (Inr (user_grants_for_entity trust user d), d)))"

section \<open>Creating\<close>

text \<open>An occupant that has a role in the entity keeps it: the row is adopted and rewritten.\<close>

definition adopt_or_create :: "string \<Rightarrow> string \<Rightarrow> string \<Rightarrow> OccupantKind \<Rightarrow> string option \<Rightarrow> RegRoleType \<Rightarrow> bool \<Rightarrow>
  string list option \<Rightarrow> string \<Rightarrow> (nat \<Rightarrow> stamp) \<Rightarrow> reg_db \<Rightarrow> RegRole answer" where
  "adopt_or_create trust caller ti kind occupant ty founder grants uuid clk d = (case occupant of
     None \<Rightarrow> lift (create_with_type trust ti kind None ty founder grants uuid (clk 0) d)
   | Some occ \<Rightarrow> (case get_by_occupant trust occ d of
       None \<Rightarrow> lift (create_with_type trust ti kind (Some occ) ty founder grants uuid (clk 0) d)
     | Some existing \<Rightarrow>
         need (require_can_manage_role trust (rl_id existing) caller d) (\<lambda>d.
           bindA (lift (update_role (rl_id existing) (Some ti) (Some ty)
                   (Some (effective_grants ty grants)) (clk 0) d)) (\<lambda>_ d.
             ask (the_role Vanished (rl_id existing) d) (\<lambda>role d. (Inr role, d)) d)) d))"

definition write_description :: "json \<Rightarrow> string \<Rightarrow> stamp \<Rightarrow> reg_db \<Rightarrow> unit answer" where
  "write_description req r now d = (case Option.bind (field req ''description_idea_id'') description_idea_from_field of
     None \<Rightarrow> (Inr (), d)
   | Some i \<Rightarrow> lift (set_description_idea r i now d))"

definition place_role :: "string \<Rightarrow> string \<Rightarrow> string \<Rightarrow> OccupantKind \<Rightarrow> RegRoleType \<Rightarrow> bool \<Rightarrow> json \<Rightarrow> string \<Rightarrow>
  (nat \<Rightarrow> stamp) \<Rightarrow> reg_db \<Rightarrow> RegRole answer" where
  "place_role trust caller ti kind ty founder req uuid clk d =
     bindA (adopt_or_create trust caller ti kind (request_field req ''occupant_id'') ty founder
         (string_array req ''grants'') uuid clk d) (\<lambda>role d.
     bindA (case request_field req ''parent_role_id'' of
         None \<Rightarrow> (Inr (), d) | Some p \<Rightarrow> lift (add_edge p (rl_id role) d)) (\<lambda>_ d.
     bindA (write_description req (rl_id role) (clk 1) d) (\<lambda>_ d.
     ask (the_role Vanished (rl_id role) d) (\<lambda>role d. (Inr role, d)) d)))"

definition handle_create_role :: "string list option \<Rightarrow> json \<Rightarrow> string \<Rightarrow> (nat \<Rightarrow> stamp) \<Rightarrow> reg_db \<Rightarrow> RegRole answer"
where
  "handle_create_role allowed req uuid clk = ask (required req ''trust_id'') (\<lambda>trust d.
     if \<not> is_allowed allowed trust then (Inl AccessDenied, d)
     else
       (let caller = caller_user_id req;
            parent = request_field req ''parent_role_id'';
            ti = (case request_field req ''title'' of Some s \<Rightarrow> s | None \<Rightarrow> []);
            founder = (case Option.bind (field req ''founder'') as_bool of Some b \<Rightarrow> b | None \<Rightarrow> False)
        in need (case parent of
               Some p \<Rightarrow> require_can_manage_role trust p caller d
             | None \<Rightarrow> require_can_create_root_role trust caller d)
          (ask (parse_kind req) (\<lambda>kind.
           need (occupant_missing kind (request_field req ''occupant_id''))
          (ask (parse_type (case request_field req ''role_type'' of Some s \<Rightarrow> s | None \<Rightarrow> ''operational'')) (\<lambda>ty.
           place_role trust caller ti kind ty founder req uuid clk)))) d))"

section \<open>Updating\<close>

definition handle_update_role :: "json \<Rightarrow> (nat \<Rightarrow> stamp) \<Rightarrow> reg_db \<Rightarrow> RegRole answer" where
  "handle_update_role req clk = ask (required req ''role_id'') (\<lambda>r d. ask (the_role NotFound r d) (\<lambda>role d.
     need (require_can_manage_role (rl_trust_id role) r (caller_user_id req) d)
    (ask (case request_field req ''role_type'' of None \<Rightarrow> Inr None | Some s \<Rightarrow> map_sum id Some (parse_type s)) (\<lambda>ty d.
       bindA (lift (update_role r (request_field req ''title'') ty (string_array req ''grants'') (clk 0) d)) (\<lambda>_ d.
       bindA (write_description req r (clk 1) d) (\<lambda>_ d.
       ask (the_role Vanished r d) (\<lambda>role d. (Inr role, d)) d)))) d) d)"

fun require_all :: "string \<Rightarrow> string list \<Rightarrow> string \<Rightarrow> reg_db \<Rightarrow> role_error option" where
  "require_all trust [] caller d = None"
| "require_all trust (r # rs) caller d = (case require_can_manage_role trust r caller d of
     Some e \<Rightarrow> Some e
   | None \<Rightarrow> require_all trust rs caller d)"

definition handle_update_role_edges :: "json \<Rightarrow> (nat \<Rightarrow> stamp) \<Rightarrow> reg_db \<Rightarrow> (RegRole \<times> (string \<times> string) list) answer"
where
  "handle_update_role_edges req clk = ask (required req ''role_id'') (\<lambda>r d. ask (the_role NotFound r d) (\<lambda>role d.
     let trust = rl_trust_id role; caller = caller_user_id req in
     need (require_can_manage_role trust r caller d) (\<lambda>d.
       bindA (case string_array req ''parent_role_ids'' of
            None \<Rightarrow> (Inr (), d)
          | Some ps \<Rightarrow> need (require_all trust ps caller d) (\<lambda>d. lift (set_parent_edges r ps (clk 0) d)) d) (\<lambda>_ d.
       bindA (case string_array req ''child_role_ids'' of
            None \<Rightarrow> (Inr (), d)
          | Some cs \<Rightarrow> need (require_all trust cs caller d) (\<lambda>d. lift (set_child_edges r cs (clk 1) d)) d) (\<lambda>_ d.
       ask (the_role Vanished r d) (\<lambda>role d. (Inr (role, list_edges_for_entity trust d), d)) d))) d) d)"

definition handle_archive_role :: "json \<Rightarrow> reg_db \<Rightarrow> string answer" where
  "handle_archive_role req = ask (required req ''role_id'') (\<lambda>r d. ask (the_role NotFound r d) (\<lambda>role d.
     need (require_can_manage_role (rl_trust_id role) r (caller_user_id req) d) (\<lambda>d.
       bindA (lift (archive_role r d)) (\<lambda>_ d. (Inr r, d))) d) d)"

section \<open>Changing the occupant\<close>

text \<open>
  The session tables: sessions with their target role, participants, messages. A participant row is
  inserted with \<open>OR IGNORE\<close>, so one of a kind that the table's check does not know is not inserted.
\<close>

record session_row =
  sn_id :: string
  sn_target_role_id :: "string option"
  sn_status :: string

record participant =
  pa_session_id :: string
  pa_kind :: string
  pa_id :: string
  pa_joined_by :: "string option"

record session_tables =
  sessions :: "session_row list"
  participants :: "participant list"
  messages :: "(string \<times> string \<times> string) list"

definition sessions_by_target_role :: "string \<Rightarrow> session_tables \<Rightarrow> string list" where
  "sessions_by_target_role r s = map sn_id (filter (\<lambda>x. sn_target_role_id x = Some r \<and> sn_status x = ''active'') (sessions s))"

definition is_participant :: "string \<Rightarrow> string \<Rightarrow> string \<Rightarrow> participant \<Rightarrow> bool" where
  "is_participant sid kind i p \<longleftrightarrow> pa_session_id p = sid \<and> pa_kind p = kind \<and> pa_id p = i"

definition remove_session_participant :: "string \<Rightarrow> string \<Rightarrow> string \<Rightarrow> session_tables \<Rightarrow> session_tables" where
  "remove_session_participant sid kind i s =
     s\<lparr>participants := filter (\<lambda>p. \<not> is_participant sid kind i p) (participants s)\<rparr>"

definition add_session_participant :: "string \<Rightarrow> string \<Rightarrow> string \<Rightarrow> string option \<Rightarrow> session_tables \<Rightarrow> session_tables"
where
  "add_session_participant sid kind i who s =
     (if kind \<in> {''user'', ''agent'', ''position'', ''external''} \<and> list_ex (\<lambda>x. sn_id x = sid) (sessions s) \<and>
         \<not> list_ex (is_participant sid kind i) (participants s)
      then s\<lparr>participants := participants s @
        [\<lparr>pa_session_id = sid, pa_kind = kind, pa_id = i, pa_joined_by = who\<rparr>]\<rparr>
      else s)"

definition append_message_from :: "string \<Rightarrow> string \<Rightarrow> string \<Rightarrow> session_tables \<Rightarrow> session_tables" where
  "append_message_from sid role text s = s\<lparr>messages := messages s @ [(sid, role, text)]\<rparr>"

fun participant_kind :: "OccupantKind \<Rightarrow> string" where
  "participant_kind Human = ''user''"
| "participant_kind Agent = ''agent''"
| "participant_kind Trust = ''trust''"
| "participant_kind Vacant = ''vacant''"

definition label :: "OccupantKind \<Rightarrow> string option \<Rightarrow> string" where
  "label kind occupant = (case occupant of Some i \<Rightarrow> participant_kind kind @ '':'' @ i | None \<Rightarrow> ''vacant'')"

definition rotate :: "OccupantKind \<Rightarrow> string option \<Rightarrow> OccupantKind \<Rightarrow> string option \<Rightarrow> string \<Rightarrow>
  session_tables \<Rightarrow> session_tables" where
  "rotate old_kind old new_kind new sid s =
     (let s1 = (case old of Some i \<Rightarrow> if old_kind \<noteq> Vacant
                 then remove_session_participant sid (participant_kind old_kind) i s else s | None \<Rightarrow> s);
          s2 = (case new of Some i \<Rightarrow> if new_kind \<noteq> Vacant
                 then add_session_participant sid (participant_kind new_kind) i (Some ''system'') s1 else s1
               | None \<Rightarrow> s1)
      in append_message_from sid ''system'' (label old_kind old @ '' handed off to '' @ label new_kind new) s2)"

definition handle_change_occupant :: "json \<Rightarrow> stamp \<Rightarrow> session_tables option \<Rightarrow> reg_db \<Rightarrow>
  nat answer \<times> session_tables option" where
  "handle_change_occupant req now ss d =
     (let m = ask (required req ''role_id'') (\<lambda>r.
          ask (parse_kind req) (\<lambda>kind.
          let occupant = request_field req ''occupant_id'' in
          need (occupant_missing kind occupant) (\<lambda>d.
          ask (the_role NotFound r d) (\<lambda>role d.
          need (require_can_manage_role (rl_trust_id role) r (caller_user_id req) d) (\<lambda>d.
          bindA (lift (update_occupant r kind occupant now d)) (\<lambda>_ d.
            (Inr (r, role, kind, occupant), d))) d) d))) d
      in case m of
        (Inl e, d) \<Rightarrow> ((Inl e, d), ss)
      | (Inr (r, role, kind, occupant), d) \<Rightarrow> (case ss of
          None \<Rightarrow> ((Inr 0, d), None)
        | Some s \<Rightarrow> (let anchored = sessions_by_target_role r s in
            ((Inr (length anchored), d),
             Some (fold (rotate (rl_occupant_kind role) (rl_occupant_id role) kind occupant) anchored s)))))"

end
