(* ===== verification/Role_Registry_Chart.thy ===== *)
theory Role_Registry_Chart
  imports Role_Registry Budget_Registry_Properties
begin

text \<open>
  The statements of the role registry keep the schema the two registries share; the locale
  \<open>chart_invariant\<close> carries a property from the statements to the operations, collected in the
  step relation \<open>role_op\<close>. It is interpreted on the schema, on the org chart being a directed acyclic
  graph, on its edges staying inside an entity, and, as a sublocale, on every property of the money
  of the budget registry.
\<close>

section \<open>Statements and the schema\<close>

definition trust_of :: "string \<Rightarrow> reg_db \<Rightarrow> string option" where
  "trust_of r d = map_option rr_trust_id (map_of (roles d) r)"

lemma role_in_trust_eq: "role_in_trust r t d \<longleftrightarrow> trust_of r d = Some t"
  by (auto simp: role_in_trust_def trust_of_def split: option.splits)

lemma trust_of_has: "has (roles d) r \<longleftrightarrow> trust_of r d \<noteq> None"
  by (simp add: has_def trust_of_def)

lemma update_row_cases:
  assumes "update_row r f d = Some d'"
  obtains "map_of (roles d) r = None" "d' = d"
    | w where "map_of (roles d) r = Some w" "role_row_ok (f w)"
      "d' = d\<lparr>roles := AList.update r (f w) (roles d)\<rparr>"
  using assms by (auto simp: update_row_def split: option.splits if_splits)

lemma update_row_has [simp]: "update_row r f d = Some d' \<Longrightarrow> has (roles d') x \<longleftrightarrow> has (roles d) x"
  by (erule update_row_cases) (auto simp: has_def update_conv')

lemma delete_edges_simps [simp]:
  "roles (delete_edges P d) = roles d" "role_grants (delete_edges P d) = role_grants d"
  "role_edges (delete_edges P d) = filter (\<lambda>e. \<not> P e) (role_edges d)"
  "trust_of r (delete_edges P d) = trust_of r d"
  by (simp_all add: delete_edges_def trust_of_def)

lemma delete_grants_simps [simp]:
  "roles (delete_grants r d) = roles d" "role_edges (delete_grants r d) = role_edges d"
  by (simp_all add: delete_grants_def)

lemma has_same_keys: "has t = has u \<Longrightarrow> has_opt t = has_opt u"
  by (intro ext) (simp add: has_opt_def split: option.split)

lemma update_row_schema:
  assumes "schema d" "update_row r f d = Some d'"
  shows "schema d'"
  using assms(2)
proof (cases rule: update_row_cases)
  case (2 w)
  have h: "has (AList.update r (f w) (roles d)) = has (roles d)"
    using 2(1) by (intro ext) (auto simp: has_def update_conv')
  show ?thesis using assms(1) unfolding 2(3) schema_defs
    by (simp add: h has_same_keys [OF h] distinct_update)
qed (use assms in simp)

lemma delete_grants_schema: "schema d \<Longrightarrow> schema (delete_grants r d)"
  by (auto simp: schema_defs delete_grants_def)

lemma delete_edges_schema: "schema d \<Longrightarrow> schema (delete_edges P d)"
  by (auto simp: schema_defs delete_edges_def)

lemma delete_roles_cases:
  assumes "delete_roles P d = Some d'"
  obtains gone where "gone = fst ` {x \<in> set (roles d). P x}" "\<forall>r\<in>gone. \<not> role_referenced d r"
    "d' = d\<lparr>roles := filter (\<lambda>x. \<not> P x) (roles d),
      role_grants := filter (\<lambda>g. fst g \<notin> gone) (role_grants d),
      role_edges := filter (\<lambda>e. fst e \<notin> gone \<and> snd e \<notin> gone) (role_edges d)\<rparr>"
  using assms by (auto simp: delete_roles_def Let_def list_ex_iff image_iff split: if_splits)

lemma delete_roles_schema:
  assumes "schema d" "delete_roles P d = Some d'"
  shows "schema d'"
  using assms(2)
proof (rule delete_roles_cases)
  fix gone assume g: "gone = fst ` {x \<in> set (roles d). P x}" "\<forall>r\<in>gone. \<not> role_referenced d r"
    and d': "d' = d\<lparr>roles := filter (\<lambda>x. \<not> P x) (roles d),
      role_grants := filter (\<lambda>g. fst g \<notin> gone) (role_grants d),
      role_edges := filter (\<lambda>e. fst e \<notin> gone \<and> snd e \<notin> gone) (role_edges d)\<rparr>"
  have h: "has (roles d) r \<Longrightarrow> r \<notin> gone \<Longrightarrow> has (filter (\<lambda>x. \<not> P x) (roles d)) r" for r
    by (auto simp: has_set g(1) image_iff)
  have o: "has_opt (roles d) k \<Longrightarrow> (\<And>r. k = Some r \<Longrightarrow> r \<notin> gone) \<Longrightarrow>
      has_opt (filter (\<lambda>x. \<not> P x) (roles d)) k" for k
    using h by (cases k) auto
  have ref: "role_referenced d r \<Longrightarrow> r \<notin> gone" for r using g(2) by blast
  note R = role_referenced_def list_ex_iff
  have "budgets_ok d'" using assms(1) unfolding schema_def budgets_ok_def d'
    by (auto intro!: h o ref) (force simp: R)+
  moreover have "policies_ok d'" using assms(1) unfolding schema_def policies_ok_def d'
    by (auto intro!: o ref) (force simp: R)
  moreover have "events_ok d'" using assms(1) unfolding schema_def events_ok_def d'
    by (auto intro!: h ref) (force simp: R)
  moreover have "admin_role_id c \<notin> gone" if "(k, c) \<in> set (configs d)" for k c
    using that by (intro ref) (force simp: R)
  then have "roles_ok d'" using assms(1) unfolding schema_def roles_ok_def
    by (auto simp: d' distinct_map_fst_filter intro!: h)
  ultimately show "schema d'" using assms(1) by (simp add: schema_def d' rows_ok_def)
qed

section \<open>What the operations are made of\<close>

definition edge_set :: "reg_db \<Rightarrow> (string \<times> string) set" where
  "edge_set d = set (role_edges d)"

lemma descendants_eq: "p \<in> set (descendants r d) \<longleftrightarrow> (r, p) \<in> (edge_set d)\<^sup>+"
  by (auto simp: descendants_def set_descend edge_set_def trancl_unfold_left)

lemma insert_edge_cases:
  assumes "insert_edge p c d = Some d'"
  obtains e where "d' = d\<lparr>role_edges := e\<rparr>" "set e = insert (p, c) (edge_set d)"
  using insert_edge_frame [OF assms] by (auto simp: edge_set_def)

locale chart_invariant =
  fixes P :: "reg_db \<Rightarrow> bool"
  assumes well_formed: "P d \<Longrightarrow> schema d"
    and role: "insert_role r w d = Some d' \<Longrightarrow> P d \<Longrightarrow> P d'"
    and grant: "insert_grant r g d = Some d' \<Longrightarrow> P d \<Longrightarrow> P d'"
    and row: "update_row r f d = Some d' \<Longrightarrow> P d \<Longrightarrow> (\<And>w. rr_trust_id (f w) = rr_trust_id w) \<Longrightarrow> P d'"
    and no_grants: "P d \<Longrightarrow> P (delete_grants r d)"
    and no_edges: "P d \<Longrightarrow> P (delete_edges Q d)"
    and no_roles: "delete_roles R d = Some d' \<Longrightarrow> P d \<Longrightarrow> P d'"
    and edge: "insert_edge p c d = Some d' \<Longrightarrow> P d \<Longrightarrow> (c, p) \<notin> (edge_set d)\<^sup>* \<Longrightarrow>
      trust_of p d = trust_of c d \<Longrightarrow> P d'"
begin

lemmas keep = bindR_keeps [of P] exec_keeps [of P]

lemma seq:
  assumes "P d" "\<And>d'. r = Some d' \<Longrightarrow> P d'" "\<And>d'. P d' \<Longrightarrow> r = Some d' \<Longrightarrow> P (snd (f () d'))"
  shows "P (snd (bindR (exec r d) f))"
  using assms by (auto simp: bindR_def exec_def split: option.splits)

lemma seq_reg:
  assumes "P (snd m)" "\<And>x d'. m = (Inr x, d') \<Longrightarrow> P d' \<Longrightarrow> P (snd (f x d'))"
  shows "P (snd (bindR m f))"
  using assms by (auto simp: bindR_def split: prod.splits sum.splits)

lemma grants_keeps: "insert_grants r gs d = Some d' \<Longrightarrow> P d \<Longrightarrow> P d'"
  by (induction gs arbitrary: d) (auto simp: bind_eq_Some_conv, metis grant)

lemma upsert_keeps: "P d \<Longrightarrow> P (snd (upsert_role r t ti k oc now d))"
  unfolding upsert_role_def
  by (rule keep(2)) (auto simp: insert_role_if_absent_def split: if_splits intro: role)

lemma create_keeps: "P d \<Longrightarrow> P (snd (create_with_type t ti k oc ty fo gs uuid now d))"
  unfolding create_with_type_def Let_def
  by (intro seq) (auto intro: role grants_keeps split: option.splits)

lemma set_grants_keeps: "P d \<Longrightarrow> P (snd (set_grants r gs d))"
  unfolding set_grants_def Let_def by (rule keep(2)) (auto intro: no_grants grants_keeps)

lemma row_exec: "P d \<Longrightarrow> (\<And>w. rr_trust_id (f w) = rr_trust_id w) \<Longrightarrow> P (snd (exec (update_row r f d) d))"
  by (rule keep(2)) (auto intro: row)

lemma update_role_keeps: "P d \<Longrightarrow> P (snd (update_role r ti ty gs now d))"
  unfolding update_role_def
  by (rule seq_reg) (auto split: option.splits intro!: row_exec set_grants_keeps)

lemma archive_keeps: "P d \<Longrightarrow> P (snd (archive_role r d))"
  unfolding archive_role_def by (rule keep(2)) (auto intro: no_roles)

lemma describe_keeps: "P d \<Longrightarrow> P (snd (set_description_idea r i now d))"
  unfolding set_description_idea_def by (rule row_exec) auto

lemma occupant_keeps: "P d \<Longrightarrow> P (snd (update_occupant r k oc now d))"
  unfolding update_occupant_def by (rule row_exec) auto

lemma entity_keeps: "P d \<Longrightarrow> P (snd (delete_for_entity t d))"
  unfolding delete_for_entity_def Let_def by (rule keep(2)) (auto intro: no_edges no_roles)

lemma founder_keeps: "P d \<Longrightarrow> P (snd (ensure_founding_director t u uuid now d))"
  by (auto simp: ensure_founding_director_def create_keeps split: list.splits)

lemma add_edge_keeps:
  "P d \<Longrightarrow> (c, p) \<notin> (edge_set d)\<^sup>* \<Longrightarrow> trust_of p d = trust_of c d \<Longrightarrow> P (snd (add_edge p c d))"
  unfolding add_edge_def by (auto intro!: keep(2) intro: edge)

lemma insert_parents_keeps:
  "P d \<Longrightarrow> (\<And>p. p \<in> set ps \<Longrightarrow> (r, p) \<notin> (edge_set d)\<^sup>* \<and> trust_of p d = trust_of r d) \<Longrightarrow>
   P (snd (insert_parents ps r d))"
proof (induction ps arbitrary: d)
  case (Cons p ps)
  have "P (snd (insert_parents ps r d'))" if e: "insert_edge p r d = Some d'" for d'
  proof (rule Cons.IH)
    show "P d'" using Cons.prems by (intro edge [OF e]) auto
    fix q assume q: "q \<in> set ps"
    from e show "(r, q) \<notin> (edge_set d')\<^sup>* \<and> trust_of q d' = trust_of r d'"
      using Cons.prems(2) [of q] Cons.prems(2) [of p] q
      by (auto elim!: insert_edge_cases simp: edge_set_def trust_of_def rtrancl_insert)
  qed
  then show ?case using Cons.prems(1) by (auto simp: bindR_def exec_def split: option.splits)
qed simp

lemma insert_children_keeps:
  "P d \<Longrightarrow> (\<And>c. c \<in> set cs \<Longrightarrow> (c, r) \<notin> (edge_set d)\<^sup>* \<and> trust_of c d = trust_of r d) \<Longrightarrow>
   P (snd (insert_children r cs d))"
proof (induction cs arbitrary: d)
  case (Cons c cs)
  have "P (snd (insert_children r cs d'))" if e: "insert_edge r c d = Some d'" for d'
  proof (rule Cons.IH)
    show "P d'" using Cons.prems(2) [of c] by (intro edge [OF e Cons.prems(1)]) auto
    fix q assume q: "q \<in> set cs"
    from e show "(q, r) \<notin> (edge_set d')\<^sup>* \<and> trust_of q d' = trust_of r d'"
      using Cons.prems(2) [of q] Cons.prems(2) [of c] q
      by (auto elim!: insert_edge_cases simp: edge_set_def trust_of_def rtrancl_insert)
  qed
  then show ?case using Cons.prems(1) by (auto simp: bindR_def exec_def split: option.splits)
qed simp

end

section \<open>What the checks have established\<close>

lemma check_parents_None:
  "check_parents r t ps d = None \<longleftrightarrow> (\<forall>p\<in>set ps. trust_of p d = Some t \<and> (r, p) \<notin> (edge_set d)\<^sup>+)"
  by (induction ps) (auto simp: trust_of_def descendants_eq split: option.splits)

lemma check_children_None:
  "check_children r t cs d = None \<longleftrightarrow> (\<forall>c\<in>set cs. trust_of c d = Some t \<and> (c, r) \<notin> (edge_set d)\<^sup>+)"
  by (induction cs) (auto simp: trust_of_def descendants_eq split: option.splits)

lemma set_id_set [simp]: "set (id_set xs) = set xs - {[]}"
  by (auto simp: id_set_def)

lemma edge_set_delete: "edge_set (delete_edges P d) \<subseteq> edge_set d"
  by (auto simp: edge_set_def)

lemma reach_fewer: "(a, b) \<in> (edge_set (delete_edges P d))\<^sup>+ \<Longrightarrow> (a, b) \<in> (edge_set d)\<^sup>+"
  using trancl_mono [OF _ edge_set_delete] by blast

context chart_invariant
begin

lemma parents_keeps:
  assumes "P d"
  shows "P (snd (set_parent_edges r ps now d))"
proof -
  have "P (snd (bindR (insert_parents (id_set ps) r (delete_edges (\<lambda>(_, c). c = r) d)) (\<lambda>_ d1.
      exec (update_row r (\<lambda>row. row\<lparr>rr_updated_at := Some now\<rparr>) d1) d1)))"
    if "r \<notin> set (id_set ps)" "map_of (roles d) r = Some w" "check_parents r (rr_trust_id w) (id_set ps) d = None" for w
  proof (rule seq_reg)
    show "P (snd (insert_parents (id_set ps) r (delete_edges (\<lambda>(_, c). c = r) d)))"
      using assms that
      by (intro insert_parents_keeps no_edges)
        (auto simp: check_parents_None trust_of_def rtrancl_eq_or_trancl dest: reach_fewer)
  qed (auto intro: row_exec)
  then show ?thesis using assms by (auto simp: set_parent_edges_def Let_def split: option.splits)
qed

lemma children_keeps:
  assumes "P d"
  shows "P (snd (set_child_edges r cs now d))"
proof -
  have "P (snd (bindR (insert_children r (id_set cs) (delete_edges (\<lambda>(p, _). p = r) d)) (\<lambda>_ d1.
      exec (update_row r (\<lambda>row. row\<lparr>rr_updated_at := Some now\<rparr>) d1) d1)))"
    if "r \<notin> set (id_set cs)" "map_of (roles d) r = Some w" "check_children r (rr_trust_id w) (id_set cs) d = None" for w
  proof (rule seq_reg)
    show "P (snd (insert_children r (id_set cs) (delete_edges (\<lambda>(p, _). p = r) d)))"
      using assms that
      by (intro insert_children_keeps no_edges)
        (auto simp: check_children_None trust_of_def rtrancl_eq_or_trancl dest: reach_fewer)
  qed (auto intro: row_exec)
  then show ?thesis using assms by (auto simp: set_child_edges_def Let_def split: option.splits)
qed

end

section \<open>The operations as steps\<close>

text \<open>
  Each operation, whatever its result. \<open>add_edge\<close> checks nothing but the loop: its callers see to it
  that the child does not control the parent and that both are roles of one entity.
\<close>

inductive role_op :: "reg_db \<Rightarrow> reg_db \<Rightarrow> bool" where
  "role_op d (snd (upsert_role r t ti k oc now d))"
| "role_op d (snd (create_with_type t ti k oc ty fo gs uuid now d))"
| "role_op d (snd (set_grants r gl d))"
| "role_op d (snd (update_role r tio tyo gs now d))"
| "role_op d (snd (archive_role r d))"
| "role_op d (snd (set_description_idea r oc now d))"
| "(c, p) \<notin> (edge_set d)\<^sup>* \<Longrightarrow> trust_of p d = trust_of c d \<Longrightarrow> role_op d (snd (add_edge p c d))"
| "role_op d (snd (set_parent_edges r gl now d))"
| "role_op d (snd (set_child_edges r gl now d))"
| "role_op d (snd (update_occupant r k oc now d))"
| "role_op d (snd (delete_for_entity t d))"
| "role_op d (snd (ensure_founding_director t u uuid now d))"

context chart_invariant
begin

lemma role_op_keeps: "role_op d d' \<Longrightarrow> P d \<Longrightarrow> P d'"
  by (induction rule: role_op.induct)
    (simp_all add: upsert_keeps create_keeps set_grants_keeps update_role_keeps archive_keeps describe_keeps
      add_edge_keeps parents_keeps children_keeps occupant_keeps entity_keeps founder_keeps)

end

section \<open>The invariants\<close>

interpretation chart_schema: chart_invariant schema
  by unfold_locales (auto intro: insert_role_schema insert_grant_schema update_row_schema
      delete_grants_schema delete_edges_schema delete_roles_schema insert_edge_schema)

text \<open>The org chart is a directed acyclic graph over rows that satisfy the checks of the table.\<close>

definition chart_ok :: "reg_db \<Rightarrow> bool" where
  "chart_ok d \<longleftrightarrow> schema d \<and> acyclic (edge_set d) \<and> (\<forall>(_, w)\<in>set (roles d). role_row_ok w)"

lemma chart_okD: "chart_ok d \<Longrightarrow> schema d" "chart_ok d \<Longrightarrow> acyclic (edge_set d)"
  "chart_ok d \<Longrightarrow> map_of (roles d) r = Some w \<Longrightarrow> role_row_ok w"
  by (auto simp: chart_ok_def dest!: map_of_SomeD)

lemma insert_role_checked: "insert_role r w d = Some d' \<Longrightarrow> role_row_ok w"
  by (auto simp: insert_role_def role_row_ok_def split: if_splits)

lemma insert_edge_acyclic:
  "insert_edge p c d = Some d' \<Longrightarrow> acyclic (edge_set d) \<Longrightarrow> (c, p) \<notin> (edge_set d)\<^sup>* \<Longrightarrow> acyclic (edge_set d')"
  by (erule insert_edge_cases) (simp add: edge_set_def acyclic_insert)

lemma chart_ok_frame:
  "chart_ok d \<Longrightarrow> schema d' \<Longrightarrow> edge_set d' \<subseteq> edge_set d \<Longrightarrow> set (roles d') \<subseteq> set (roles d) \<Longrightarrow> chart_ok d'"
  using acyclic_subset unfolding chart_ok_def by blast

lemma chart_ok_same:
  "chart_ok d \<Longrightarrow> schema d' \<Longrightarrow> role_edges d' = role_edges d \<Longrightarrow> roles d' = roles d \<Longrightarrow> chart_ok d'"
  by (simp add: chart_ok_def edge_set_def)

interpretation chart: chart_invariant chart_ok
proof (unfold_locales, goal_cases)
  case (2 r w d d')
  then show ?case using insert_role_checked [OF 2(1)] insert_role_eq [OF 2(1)] insert_role_schema [of d r w d']
    by (auto simp: chart_ok_def edge_set_def)
next
  case (3 r g d d')
  then show ?case using insert_grant_schema [of d r g d'] insert_grant_frame [OF 3(1)]
    by (auto simp: chart_ok_def edge_set_def)
next
  case (4 r f d d')
  from 4(1) show ?case
  proof (cases rule: update_row_cases)
    case (2 w)
    have "schema d'" by (rule update_row_schema [OF chart_okD(1) [OF 4(2)] 4(1)])
    moreover have "role_row_ok v" if "(x, v) \<in> set (roles d')" for x v
      using that 4(2) 2 by (auto simp: chart_ok_def dest!: update_split)
    ultimately show ?thesis using 4(2) 2(3) by (auto simp: chart_ok_def edge_set_def)
  qed (use 4 in simp)
next
  case (7 R d d')
  then have "schema d'" by (metis delete_roles_schema chart_okD(1))
  with 7 show ?case by (auto simp: edge_set_def elim!: delete_roles_cases intro: chart_ok_frame)
next
  case (8 p c d d')
  then show ?case using insert_edge_acyclic [OF 8(1)] insert_edge_schema [of d p c d'] insert_edge_frame [OF 8(1)]
    by (auto simp: chart_ok_def)
next
  case (5 d r)
  then show ?case using delete_grants_schema [of d r] by (simp add: chart_ok_def edge_set_def)
next
  case (6 d Q)
  show ?case by (rule chart_ok_frame [OF 6 delete_edges_schema [OF chart_okD(1) [OF 6]]]) (auto simp: edge_set_def)
qed (rule chart_okD)

text \<open>Hiring adds a role to the chart; the other operations on budgets leave it alone.\<close>

interpretation chart_budget: reg_invariant chart_ok "\<lambda>_. True"
proof (unfold_locales, goal_cases)
  case (9 r r' d d')
  have "(r', r) \<notin> (edge_set d)\<^sup>*"
  proof
    assume "(r', r) \<in> (edge_set d)\<^sup>*"
    then show False
    proof (cases rule: converse_rtranclE)
      case base
      then show False using edge_ends [of d' r r'] insert_edge_frame [OF 9(1)]
          insert_edge_schema [OF chart_okD(1) [OF 9(2)] 9(1)] by auto
    next
      case (step y)
      then show False using 9(3) [of "(r', y)"] by (simp add: edge_set_def)
    qed
  qed
  then show ?case using 9 insert_edge_acyclic [OF 9(1)] insert_edge_schema [of d r r' d'] insert_edge_frame [OF 9(1)]
    by (auto simp: chart_ok_def)
next
  case (2 e d d')
  from schema_inv.event [OF 2(1) _ 2(3)] 2(1,2) show ?case
    by (intro chart_ok_same [OF 2(2)]) (auto simp: stmt chart_ok_def)
next
  case (3 b d d')
  from schema_inv.budget [OF 3(1)] 3 show ?case
    by (intro chart_ok_same [OF 3(2)]) (auto simp: stmt chart_ok_def)
next
  case (4 p d d')
  from schema_inv.new_policy [OF 4(1)] 4 show ?case
    by (intro chart_ok_same [OF 4(2)]) (auto simp: stmt chart_ok_def)
next
  case (5 p d d')
  from schema_inv.put_policy [OF 5(1)] 5 show ?case
    by (intro chart_ok_same [OF 5(2)]) (auto simp: stmt chart_ok_def)
next
  case (6 d bk ep c now)
  from schema_inv.row [OF chart_okD(1) [OF 6(1)] 6(2,3)] 6 show ?case
    by (intro chart_ok_same [OF 6(1)]) (auto simp: with_row_def)
next
  case (10 d op par ch x h pep cep now)
  from schema_inv.move [OF chart_okD(1) [OF 10(1)] 10(2-4)] 10 show ?case
    by (intro chart_ok_same [OF 10(1)]) (auto simp: moved_def)
next
  case (11 d bk amt hash actor gw clk ep now own d')
  from schema_inv.inference [OF chart_okD(1) [OF 11(1)] 11(2-4)] 11 show ?case
    by (intro chart_ok_same [OF 11(1)]) (auto simp: stmt)
next
  case (12 d bk dest amt memo caller agent key clk ep now d')
  from schema_inv.treasury [OF chart_okD(1) [OF 12(1)] 12(2-4)] 12 show ?case
    by (intro chart_ok_same [OF 12(1)]) (auto simp: stmt)
next
  case (13 d bk caller agent key now)
  from schema_inv.remove [OF chart_okD(1) [OF 13(1)] 13(2,3)] 13 show ?case
    by (intro chart_ok_same [OF 13(1)]) (auto simp: removed_def delete_budget_def)
next
  case (14 d t flag caller agent now cfg)
  from schema_inv.pause [OF chart_okD(1) [OF 14(1)] 14(2-4)] 14 show ?case
    by (intro chart_ok_same [OF 14(1)]) auto
next
  case (15 d t gw admin now)
  from schema_inv.config [OF chart_okD(1) [OF 15(1)] 15(2,3)] 15 show ?case
    by (intro chart_ok_same [OF 15(1)]) auto
qed (auto intro: chart.role chart.grant dest: chart_okD)

text \<open>The edges stay inside an entity.\<close>

definition chart_local :: "reg_db \<Rightarrow> bool" where
  "chart_local d \<longleftrightarrow> schema d \<and> (\<forall>(p, c)\<in>edge_set d. trust_of p d = trust_of c d)"

lemma chart_local_frame:
  "chart_local d \<Longrightarrow> schema d' \<Longrightarrow> edge_set d' \<subseteq> edge_set d \<Longrightarrow>
   (\<And>p c. (p, c) \<in> edge_set d' \<Longrightarrow> trust_of p d' = trust_of p d \<and> trust_of c d' = trust_of c d) \<Longrightarrow> chart_local d'"
  by (force simp: chart_local_def)

lemma trust_of_new_role:
  "insert_role r w d = Some d' \<Longrightarrow> x \<noteq> r \<Longrightarrow> trust_of x d' = trust_of x d"
  by (auto simp: trust_of_def map_add_def dest!: insert_role_eq split: option.splits)

lemma trust_of_update_row:
  assumes "update_row r f d = Some d'" "\<And>w. rr_trust_id (f w) = rr_trust_id w"
  shows "trust_of x d' = trust_of x d"
  using assms(1) by (cases rule: update_row_cases) (auto simp: trust_of_def update_conv' assms(2))

lemma map_of_delete_roles:
  assumes "schema d" "delete_roles P d = Some d'" "has (roles d') x"
  shows "map_of (roles d') x = map_of (roles d) x"
proof -
  have "distinct (map fst (roles d))" using assms(1) by (simp add: schema_defs)
  moreover from assms(2) have "roles d' = filter (\<lambda>x. \<not> P x) (roles d)"
    by (rule delete_roles_cases) simp
  moreover obtain w where "(x, w) \<in> set (roles d')" "\<not> P (x, w)"
    using assms(3) calculation(2) by (auto simp: has_set)
  ultimately show ?thesis by (auto simp: distinct_map_fst_filter)
qed

interpretation chart_entity: chart_invariant chart_local
proof (unfold_locales, goal_cases)
  case (2 r w d d')
  have "schema d'" using 2 by (auto simp: chart_local_def intro: insert_role_schema)
  with 2(2) show ?case
    using edge_ends [of d] insert_role_eq [OF 2(1)] trust_of_new_role [OF 2(1)]
    by (intro chart_local_frame [OF 2(2)]) (auto simp: edge_set_def chart_local_def, metis+)
next
  case (3 r g d d')
  then show ?case using insert_grant_schema [of d r g d'] insert_grant_frame [OF 3(1)]
    by (auto simp: chart_local_def edge_set_def trust_of_def)
next
  case (4 r f d d')
  have "schema d'" "edge_set d' = edge_set d" using 4(1,2) update_row_schema [of d r f d']
    by (auto simp: chart_local_def edge_set_def update_row_def split: option.splits if_splits)
  then show ?case using trust_of_update_row [OF 4(1,3)]
    by (intro chart_local_frame [OF 4(2)]) auto
next
  case (5 d r)
  then show ?case using delete_grants_schema [of d r] by (simp add: chart_local_def edge_set_def trust_of_def)
next
  case (6 d Q)
  then show ?case using delete_edges_schema [of d Q]
    by (intro chart_local_frame [OF 6]) (auto simp: chart_local_def edge_set_def)
next
  case (7 R d d')
  have S: "schema d" "schema d'" using 7 by (auto simp: chart_local_def intro: delete_roles_schema)
  have "edge_set d' \<subseteq> edge_set d" using 7(1) by (rule delete_roles_cases) (auto simp: edge_set_def)
  then show ?case using map_of_delete_roles [OF S(1) 7(1)] edge_ends [OF S(2)]
    by (intro chart_local_frame [OF 7(2) S(2)]) (auto simp: edge_set_def trust_of_def)
next
  case (8 p c d d')
  then show ?case using insert_edge_schema [of d p c d'] insert_edge_frame [OF 8(1)]
    by (auto simp: chart_local_def edge_set_def trust_of_def)
qed (simp add: chart_local_def)

text \<open>Editing roles leaves the money alone.\<close>

definition same_money :: "reg_db \<Rightarrow> reg_db \<Rightarrow> bool" where
  "same_money d d' \<longleftrightarrow> budgets d' = budgets d \<and> allowances d' = allowances d \<and> events d' = events d \<and>
     configs d' = configs d"

lemma same_money:
  "insert_role r w d = Some d' \<Longrightarrow> same_money d d'" "insert_grant r g d = Some d' \<Longrightarrow> same_money d d'"
  "update_row r f d = Some d' \<Longrightarrow> same_money d d'" "delete_roles R d = Some d' \<Longrightarrow> same_money d d'"
  "insert_edge p c d = Some d' \<Longrightarrow> same_money d d'" "same_money d (delete_grants r d)"
  "same_money d (delete_edges Q d)"
  by (auto simp: same_money_def insert_role_def insert_grant_def update_row_def delete_roles_def insert_edge_def
      Let_def delete_grants_def delete_edges_def split: if_splits option.splits)

context money_invariant
begin

lemma kept_with_money: "schema d \<and> Q d \<Longrightarrow> same_money d d' \<Longrightarrow> schema d' \<Longrightarrow> schema d' \<and> Q d'"
  using other [of d d'] by (simp add: same_money_def)

end

sublocale money_invariant \<subseteq> org: chart_invariant "\<lambda>d. schema d \<and> Q d"
proof (unfold_locales, goal_cases)
  case (2 r w d d')
  then show ?case by (intro kept_with_money [OF 2(2)] same_money(1) insert_role_schema [OF _ 2(1)]) auto
next
  case (3 r g d d')
  then show ?case by (intro kept_with_money [OF 3(2)] same_money(2) insert_grant_schema [OF _ 3(1)]) auto
next
  case (4 r f d d')
  then show ?case by (intro kept_with_money [OF 4(2)] same_money(3) update_row_schema [OF _ 4(1)]) auto
next
  case (5 d r)
  then show ?case by (intro kept_with_money [OF 5] same_money(6) delete_grants_schema) auto
next
  case (6 d R)
  then show ?case by (intro kept_with_money [OF 6] same_money(7) delete_edges_schema) auto
next
  case (7 R d d')
  then show ?case by (intro kept_with_money [OF 7(2)] same_money(4) delete_roles_schema [OF _ 7(1)]) auto
next
  case (8 p c d d')
  then show ?case by (intro kept_with_money [OF 8(2)] same_money(5) insert_edge_schema [OF _ 8(1)]) auto
qed simp

section \<open>Both registries\<close>

text \<open>The two registries work on one database; their operations interleave.\<close>

inductive org_op :: "reg_db \<Rightarrow> reg_db \<Rightarrow> bool" where
  roles_step: "role_op d d' \<Longrightarrow> org_op d d'"
| budget_step: "good_op op \<Longrightarrow> org_op d (apply_op op d)"

lemma org_run_keeps:
  assumes "org_op\<^sup>*\<^sup>* d d'" "chart_ok d" "rails_ok d"
  shows "chart_ok d' \<and> rails_ok d'"
  using assms
proof (induction rule: rtranclp_induct)
  case (step y z)
  from step(2) show ?case
  proof cases
    case roles_step
    then show ?thesis using step chart.role_op_keeps rails_inv.org.role_op_keeps [of y z] chart_okD(1) by blast
  next
    case (budget_step op)
    then show ?thesis using step chart_budget.apply_op_keeps [of y op] rails_inv.apply_op_keeps [of y op] chart_okD(1)
      by blast
  qed
qed simp

end
