(* ===== verification/Role_Registry_Edges.thy ===== *)
theory Role_Registry_Edges
  imports Role_Registry_Chart
begin

text \<open>
  What replacing the edges above or below a role does, on every branch: it succeeds exactly when all
  ends are roles of its entity and the new graph has no cycle.
\<close>

section \<open>Replacing edges\<close>

lemma insert_edge_ok:
  "has (roles d) p \<Longrightarrow> has (roles d) c \<Longrightarrow> p \<noteq> c \<Longrightarrow>
   \<exists>e. insert_edge p c d = Some (d\<lparr>role_edges := e\<rparr>) \<and> set e = insert (p, c) (edge_set d)"
  by (cases "(p, c) \<in> set (role_edges d)")
    (auto simp: insert_edge_def edge_set_def intro: exI [of _ "role_edges d"])

lemma insert_parents_ok:
  "has (roles d) r \<Longrightarrow> (\<And>p. p \<in> set ps \<Longrightarrow> has (roles d) p \<and> p \<noteq> r) \<Longrightarrow>
   \<exists>e. insert_parents ps r d = (Inr (), d\<lparr>role_edges := e\<rparr>) \<and> set e = edge_set d \<union> set ps \<times> {r}"
proof (induction ps arbitrary: d)
  case (Cons p ps)
  obtain e where e: "insert_edge p r d = Some (d\<lparr>role_edges := e\<rparr>)" "set e = insert (p, r) (edge_set d)"
    using Cons.prems(1) Cons.prems(2) [of p] insert_edge_ok [of d p r] by auto
  let ?d = "d\<lparr>role_edges := e\<rparr>"
  obtain e' where e': "insert_parents ps r ?d = (Inr (), ?d\<lparr>role_edges := e'\<rparr>)" "set e' = edge_set ?d \<union> set ps \<times> {r}"
    using Cons.IH [of ?d] Cons.prems by auto
  have "insert_parents (p # ps) r d = (Inr (), d\<lparr>role_edges := e'\<rparr>)" using e' by (simp add: bindR_def exec_def e(1))
  moreover have "set e' = edge_set d \<union> set (p # ps) \<times> {r}" using e' e(2) by (auto simp: edge_set_def)
  ultimately show ?case by blast
next
  case (Nil d)
  show ?case by (auto simp: edge_set_def intro: exI [of _ "role_edges d"])
qed

lemma insert_children_ok:
  "has (roles d) r \<Longrightarrow> (\<And>c. c \<in> set cs \<Longrightarrow> has (roles d) c \<and> c \<noteq> r) \<Longrightarrow>
   \<exists>e. insert_children r cs d = (Inr (), d\<lparr>role_edges := e\<rparr>) \<and> set e = edge_set d \<union> {r} \<times> set cs"
proof (induction cs arbitrary: d)
  case (Cons c cs)
  obtain e where e: "insert_edge r c d = Some (d\<lparr>role_edges := e\<rparr>)" "set e = insert (r, c) (edge_set d)"
    using Cons.prems(1) Cons.prems(2) [of c] insert_edge_ok [of d r c] by auto
  let ?d = "d\<lparr>role_edges := e\<rparr>"
  obtain e' where e': "insert_children r cs ?d = (Inr (), ?d\<lparr>role_edges := e'\<rparr>)" "set e' = edge_set ?d \<union> {r} \<times> set cs"
    using Cons.IH [of ?d] Cons.prems by auto
  have "insert_children r (c # cs) d = (Inr (), d\<lparr>role_edges := e'\<rparr>)" using e' by (simp add: bindR_def exec_def e(1))
  moreover have "set e' = edge_set d \<union> {r} \<times> set (c # cs)" using e' e(2) by (auto simp: edge_set_def)
  ultimately show ?case by blast
next
  case (Nil d)
  show ?case by (auto simp: edge_set_def intro: exI [of _ "role_edges d"])
qed

text \<open>The database after a successful replacement: new edges, and the time on the role.\<close>

definition rewired :: "string \<Rightarrow> (string \<times> string) list \<Rightarrow> stamp \<Rightarrow> reg_db \<Rightarrow> reg_db" where
  "rewired r e now d = d\<lparr>role_edges := e, roles := (case map_of (roles d) r of None \<Rightarrow> roles d
     | Some w \<Rightarrow> AList.update r (w\<lparr>rr_updated_at := Some now\<rparr>) (roles d))\<rparr>"

lemma role_row_ok_touch [simp]: "role_row_ok (w\<lparr>rr_updated_at := x\<rparr>) = role_row_ok w"
  by (simp add: role_row_ok_def)

lemma touch_row:
  assumes "map_of (roles d) r = Some w" "role_row_ok w"
  shows "exec (update_row r (\<lambda>row. row\<lparr>rr_updated_at := Some now\<rparr>) (d\<lparr>role_edges := e\<rparr>)) d1 =
    (Inr (), rewired r e now d)"
  using assms by (simp add: update_row_def exec_def rewired_def)

lemma edge_set_without: "edge_set (delete_edges P d) = {x \<in> edge_set d. \<not> P x}"
  by (auto simp: edge_set_def)

lemma if_failI: "\<not> c \<Longrightarrow> f \<Longrightarrow> if c then a else f"
  by simp

lemma if_okI: "c \<Longrightarrow> a \<Longrightarrow> if c then a else f"
  by simp

lemma set_parent_edges_result:
  assumes "chart_ok d" and N: "N = set ps - {[]}"
  shows "if (\<exists>t. trust_of r d = Some t \<and> (\<forall>p\<in>N. trust_of p d = Some t)) \<and>
      acyclic (with_parents (edge_set d) r N)
    then \<exists>e. set_parent_edges r ps now d = (Inr (), rewired r e now d) \<and> set e = with_parents (edge_set d) r N
    else \<exists>m. set_parent_edges r ps now d = (Inl (Message m), d)"
    (is "if ?cond then ?ok else ?fail")
proof -
  note A = with_parents_acyclic [OF chart_okD(2) [OF assms(1)], of r N]
  consider (loop) "r \<in> N" | (missing) "r \<notin> N" "map_of (roles d) r = None"
    | (checked) w where "r \<notin> N" "map_of (roles d) r = Some w" by fastforce
  then show ?thesis
  proof cases
    case loop
    then have "\<not> ?cond" ?fail using A by (simp_all add: set_parent_edges_def Let_def N)
    then show ?thesis by (rule if_failI)
  next
    case missing
    then have "\<not> ?cond" ?fail by (simp_all add: set_parent_edges_def Let_def N trust_of_def)
    then show ?thesis by (rule if_failI)
  next
    case (checked w)
    then have r: "trust_of r d = Some (rr_trust_id w)" by (simp add: trust_of_def)
    let ?check = "check_parents r (rr_trust_id w) (id_set ps) d"
    have c: "?check = None \<longleftrightarrow> ?cond" using A checked(1) r by (auto simp: check_parents_None N)
    show ?thesis
    proof (cases ?check)
      case None
      with c have cond: ?cond by simp
      let ?d = "delete_edges (\<lambda>(_, c). c = r) d"
      have "has (roles ?d) r" "\<And>p. p \<in> set (id_set ps) \<Longrightarrow> has (roles ?d) p \<and> p \<noteq> r"
        using cond checked(1) by (auto simp: N trust_of_has)
      then obtain e where e: "insert_parents (id_set ps) r ?d = (Inr (), ?d\<lparr>role_edges := e\<rparr>)"
        "set e = edge_set ?d \<union> set (id_set ps) \<times> {r}"
        using insert_parents_ok by blast
      have "set e = with_parents (edge_set d) r N"
        unfolding e(2) with_parents_def N set_id_set edge_set_without by force
      moreover have "set_parent_edges r ps now d = (Inr (), rewired r e now d)"
        using checked None e(1) touch_row [OF checked(2) chart_okD(3) [OF assms(1) checked(2)], of now e]
        by (simp add: set_parent_edges_def Let_def N bindR_def delete_edges_def)
      ultimately have ?ok by blast
      with cond show ?thesis by (rule if_okI)
    next
      case (Some m)
      with c have "\<not> ?cond" by simp
      moreover have ?fail using checked Some by (simp add: set_parent_edges_def Let_def N)
      ultimately show ?thesis by (rule if_failI)
    qed
  qed
qed

lemma set_child_edges_result:
  assumes "chart_ok d" and N: "N = set cs - {[]}"
  shows "if (\<exists>t. trust_of r d = Some t \<and> (\<forall>c\<in>N. trust_of c d = Some t)) \<and>
      acyclic (with_children (edge_set d) r N)
    then \<exists>e. set_child_edges r cs now d = (Inr (), rewired r e now d) \<and> set e = with_children (edge_set d) r N
    else \<exists>m. set_child_edges r cs now d = (Inl (Message m), d)"
    (is "if ?cond then ?ok else ?fail")
proof -
  note A = with_children_acyclic [OF chart_okD(2) [OF assms(1)], of r N]
  consider (loop) "r \<in> N" | (missing) "r \<notin> N" "map_of (roles d) r = None"
    | (checked) w where "r \<notin> N" "map_of (roles d) r = Some w" by fastforce
  then show ?thesis
  proof cases
    case loop
    then have "\<not> ?cond" ?fail using A by (simp_all add: set_child_edges_def Let_def N)
    then show ?thesis by (rule if_failI)
  next
    case missing
    then have "\<not> ?cond" ?fail by (simp_all add: set_child_edges_def Let_def N trust_of_def)
    then show ?thesis by (rule if_failI)
  next
    case (checked w)
    then have r: "trust_of r d = Some (rr_trust_id w)" by (simp add: trust_of_def)
    let ?check = "check_children r (rr_trust_id w) (id_set cs) d"
    have c: "?check = None \<longleftrightarrow> ?cond" using A checked(1) r by (auto simp: check_children_None N)
    show ?thesis
    proof (cases ?check)
      case None
      with c have cond: ?cond by simp
      let ?d = "delete_edges (\<lambda>(p, _). p = r) d"
      have "has (roles ?d) r" "\<And>c. c \<in> set (id_set cs) \<Longrightarrow> has (roles ?d) c \<and> c \<noteq> r"
        using cond checked(1) by (auto simp: N trust_of_has)
      then obtain e where e: "insert_children r (id_set cs) ?d = (Inr (), ?d\<lparr>role_edges := e\<rparr>)"
        "set e = edge_set ?d \<union> {r} \<times> set (id_set cs)"
        using insert_children_ok by blast
      have "set e = with_children (edge_set d) r N"
        unfolding e(2) with_children_def N set_id_set edge_set_without by force
      moreover have "set_child_edges r cs now d = (Inr (), rewired r e now d)"
        using checked None e(1) touch_row [OF checked(2) chart_okD(3) [OF assms(1) checked(2)], of now e]
        by (simp add: set_child_edges_def Let_def N bindR_def delete_edges_def)
      ultimately have ?ok by blast
      with cond show ?thesis by (rule if_okI)
    next
      case (Some m)
      with c have "\<not> ?cond" by simp
      moreover have ?fail using checked Some by (simp add: set_child_edges_def Let_def N)
      ultimately show ?thesis by (rule if_failI)
    qed
  qed
qed

end
