(* ===== verification/Role_Authority.thy ===== *)
theory Role_Authority
  imports Role_Handlers Role_Registry_Edges
begin

text \<open>
  Who may do what. The walks of the registry decide the existence of a chain of edges from a seat of
  the caller; a command changes nothing but the role it names, and only for a caller who manages that
  role.
\<close>

section \<open>The walks decide the chains\<close>

text \<open>The seats of a caller: the roles of the entity it occupies, and those that carry a grant.\<close>

definition seat :: "string \<Rightarrow> string \<Rightarrow> string \<Rightarrow> reg_db \<Rightarrow> string set" where
  "seat trust kind who d = {r. \<exists>w. map_of (roles d) r = Some w \<and> rr_trust_id w = trust \<and> occupies kind who w}"

definition granted :: "string \<Rightarrow> reg_db \<Rightarrow> string set" where
  "granted g d = {r. (r, g) \<in> set (role_grants d)}"

lemma in_entity_set:
  "schema d \<Longrightarrow> (r, w) \<in> set (in_entity trust d) \<longleftrightarrow> map_of (roles d) r = Some w \<and> rr_trust_id w = trust"
  by (auto simp: in_entity_def schema_defs dest: map_of_SomeD)

lemma starts_set:
  assumes "schema d"
  shows "set (map fst (filter (\<lambda>(r, w). P r w) (in_entity trust d))) =
     {r. \<exists>w. map_of (roles d) r = Some w \<and> rr_trust_id w = trust \<and> P r w}"
  unfolding conj_assoc [symmetric] in_entity_set [OF assms, symmetric] by force

lemma ex_entity:
  "schema d \<Longrightarrow> list_ex (\<lambda>(r, w). P r w) (in_entity trust d) \<longleftrightarrow>
     (\<exists>r w. map_of (roles d) r = Some w \<and> rr_trust_id w = trust \<and> P r w)"
  unfolding list_ex_iff conj_assoc [symmetric] in_entity_set [symmetric] by auto

text \<open>Edges of the entity that leave it again are not followed; there are none in a local chart.\<close>

lemma within_reach:
  assumes "chart_local d" "trust_of m d = Some trust"
  shows "(m, r) \<in> (set (edges_within trust d))\<^sup>* \<longleftrightarrow> (m, r) \<in> (edge_set d)\<^sup>*"
proof
  assume "(m, r) \<in> (set (edges_within trust d))\<^sup>*"
  then show "(m, r) \<in> (edge_set d)\<^sup>*"
    by (rule rtrancl_mono [THEN subsetD, rotated]) (auto simp: edges_within_def edge_set_def)
next
  assume "(m, r) \<in> (edge_set d)\<^sup>*"
  then have "(m, r) \<in> (set (edges_within trust d))\<^sup>* \<and> trust_of r d = Some trust"
  proof (induction rule: rtrancl_induct)
    case (step y z)
    then have "trust_of z d = Some trust" using assms(1) by (auto simp: chart_local_def)
    moreover from this step(2) have "(y, z) \<in> set (edges_within trust d)"
      by (auto simp: edges_within_def edge_set_def role_in_trust_eq)
    ultimately show ?case using step.IH by (auto intro: rtrancl_into_rtrancl)
  qed (use assms(2) in simp)
  then show "(m, r) \<in> (set (edges_within trust d))\<^sup>*" ..
qed

lemma descend_within:
  assumes "chart_local d" "\<And>m. m \<in> set S \<Longrightarrow> trust_of m d = Some trust"
  shows "r \<in> set (descend (edges_within trust d) S) \<longleftrightarrow> (\<exists>m\<in>set S. (m, r) \<in> (edge_set d)\<^sup>*)"
  using within_reach [OF assms(1) assms(2)] by (auto simp: set_descend Image_iff)

lemma managed_eq:
  assumes "schema d" "chart_local d"
  shows "r \<in> set (managed trust user g d) \<longleftrightarrow>
    (\<exists>m\<in>seat trust ''human'' user d \<inter> granted g d. (m, r) \<in> (edge_set d)\<^sup>*)"
  unfolding managed_def
  by (subst descend_within [OF assms(2)], unfold starts_set [OF assms(1)])
    (auto simp: seat_def granted_def trust_of_def)

lemma controlled_eq:
  assumes "schema d" "chart_local d"
  shows "r \<in> set (controlled trust kind who d) \<longleftrightarrow> (\<exists>m\<in>seat trust kind who d. (m, r) \<in> (edge_set d)\<^sup>*)"
  unfolding controlled_def
  by (subst descend_within [OF assms(2)], unfold starts_set [OF assms(1), of "\<lambda>_. occupies kind who"])
    (auto simp: seat_def trust_of_def)

lemma root_director_eq:
  assumes "schema d"
  shows "user_can_create_root_role trust user d \<longleftrightarrow>
    (\<exists>m w. m \<in> seat trust ''human'' user d \<inter> granted GRANT_ROLES_MANAGE d \<and>
       map_of (roles d) m = Some w \<and> rr_role_type w = ''director'')"
  unfolding user_can_create_root_role_def ex_entity [OF assms] seat_def granted_def by (rule iffI; clarsimp; blast)

lemma has_parent_eq: "has_parent r d \<longleftrightarrow> (\<exists>p. (p, r) \<in> edge_set d)"
  by (auto simp: has_parent_def list_ex_iff edge_set_def)

lemma direct_seat:
  assumes "schema d"
  shows "list_ex (\<lambda>(r, w). r = t \<and> occupies kind who w) (in_entity trust d) \<longleftrightarrow> t \<in> seat trust kind who d"
  unfolding ex_entity [OF assms] seat_def by auto

lemma can_manage_eq:
  assumes "schema d" "chart_local d"
  shows "user_can_manage_role trust user r d \<longleftrightarrow> trust_of r d = Some trust \<and>
    ((\<exists>m\<in>seat trust ''human'' user d \<inter> granted GRANT_ROLES_MANAGE d. (m, r) \<in> (edge_set d)\<^sup>*) \<or>
     (\<forall>p. (p, r) \<notin> edge_set d) \<and> user_can_create_root_role trust user d)"
  using managed_eq [OF assms] by (auto simp: user_can_manage_role_def role_in_trust_eq has_parent_eq)

lemma can_claim_eq:
  assumes "schema d" "chart_local d"
  shows "can_claim_role caller r trust d \<longleftrightarrow> trust_of r d = Some trust \<and>
    (\<exists>m\<in>seat trust (fst (principal caller)) (snd (principal caller)) d. (m, r) \<in> (edge_set d)\<^sup>*)"
  using controlled_eq [OF assms] direct_seat [OF assms(1)]
  by (cases "principal caller") (auto simp: can_claim_role_def role_in_trust_eq)

section \<open>A command touches one role\<close>

text \<open>Nothing is different but the row, the grants and the edges of \<open>r\<close>.\<close>

definition touches :: "string \<Rightarrow> reg_db \<Rightarrow> reg_db \<Rightarrow> bool" where
  "touches r d d' \<longleftrightarrow> same_money d d' \<and> entities d' = entities d \<and> policies d' = policies d \<and>
     (\<forall>x. x \<noteq> r \<longrightarrow> map_of (roles d') x = map_of (roles d) x \<and>
        filter (\<lambda>g. fst g = x) (role_grants d') = filter (\<lambda>g. fst g = x) (role_grants d)) \<and>
     (\<forall>p c. p \<noteq> r \<longrightarrow> c \<noteq> r \<longrightarrow> (p, c) \<in> edge_set d' \<longleftrightarrow> (p, c) \<in> edge_set d)"

lemma touches_refl [simp]: "touches r d d"
  by (simp add: touches_def same_money_def)

lemma touches_trans: "touches r d d' \<Longrightarrow> touches r d' d'' \<Longrightarrow> touches r d d''"
  by (simp add: touches_def same_money_def)

lemma touches_row: "update_row r f d = Some d' \<Longrightarrow> touches r d d'"
  by (auto simp: update_row_def touches_def same_money_def edge_set_def update_conv' split: option.splits if_splits)

lemma map_of_other: "x \<noteq> r \<Longrightarrow> map_of (filter (\<lambda>y. \<not> (case y of (k, _) \<Rightarrow> k = r)) t) x = map_of t x"
  by (induction t) auto

lemma grants_other: "x \<notin> S \<Longrightarrow> filter (\<lambda>g. fst g = x) (filter (\<lambda>g. fst g \<notin> S) t) = filter (\<lambda>g. fst g = x) t"
  by (induction t) auto

lemma touches_archive: "delete_roles (\<lambda>(x, _). x = r) d = Some d' \<Longrightarrow> touches r d d'"
proof (erule delete_roles_cases)
  fix gone assume "gone = fst ` {y \<in> set (roles d). case y of (x, _) \<Rightarrow> x = r}"
    and d': "d' = d\<lparr>roles := filter (\<lambda>y. \<not> (case y of (x, _) \<Rightarrow> x = r)) (roles d),
      role_grants := filter (\<lambda>g. fst g \<notin> gone) (role_grants d),
      role_edges := filter (\<lambda>e. fst e \<notin> gone \<and> snd e \<notin> gone) (role_edges d)\<rparr>"
  then have g: "x \<notin> gone" if "x \<noteq> r" for x using that by auto
  show "touches r d d'" unfolding d' touches_def same_money_def edge_set_def
    by (simp add: map_of_other grants_other g del: filter_filter)
qed

lemma touches_edge: "insert_edge p c d = Some d' \<Longrightarrow> p = r \<or> c = r \<Longrightarrow> touches r d d'"
  by (auto simp: insert_edge_def touches_def same_money_def edge_set_def split: if_splits)

lemma touches_no_edges: "(\<And>p c. P (p, c) \<Longrightarrow> p = r \<or> c = r) \<Longrightarrow> touches r d (delete_edges P d)"
  by (auto simp: delete_edges_def touches_def same_money_def edge_set_def)

lemma touches_no_grants: "touches r d (delete_grants r d)"
  by (auto simp: delete_grants_def touches_def same_money_def edge_set_def intro!: filter_cong)

lemma touches_grants: "insert_grants r gs d = Some d' \<Longrightarrow> touches r d d'"
proof (induction gs arbitrary: d)
  case (Cons g gs)
  then obtain d1 where "insert_grant r g d = Some d1" "insert_grants r gs d1 = Some d'"
    by (auto simp: bind_eq_Some_conv)
  moreover from this(1) have "touches r d d1"
    by (auto simp: insert_grant_def touches_def same_money_def edge_set_def split: if_splits)
  ultimately show ?case using Cons.IH touches_trans by blast
qed simp

lemma touches_exec: "(\<And>d'. m = Some d' \<Longrightarrow> touches r d d') \<Longrightarrow> touches r d (snd (exec m d))"
  by (auto simp: exec_def split: option.splits)

lemma touches_bindR:
  "touches r d (snd m) \<Longrightarrow> (\<And>x d'. touches r d' (snd (f x d'))) \<Longrightarrow> touches r d (snd (bindR m f))"
  by (auto simp: bindR_def split: prod.splits sum.splits intro: touches_trans)

lemma touches_statements:
  "touches r d (snd (exec (update_row r f d) d))" "touches r d (snd (exec (insert_edge p r d) d))"
  "touches r d (snd (exec (insert_edge r c d) d))" "touches r d (snd (exec (insert_grants r gs d) d))"
  "touches r d (snd (exec (delete_roles (\<lambda>(x, _). x = r) d) d))"
  by (rule touches_exec, simp add: touches_row touches_edge touches_grants touches_archive)+

lemma touches_parents: "touches r d (snd (insert_parents ps r d))"
  by (induction ps arbitrary: d) (auto intro!: touches_bindR touches_statements)

lemma touches_children: "touches r d (snd (insert_children r cs d))"
  by (induction cs arbitrary: d) (auto intro!: touches_bindR touches_statements)

lemma touches_set_grants: "touches r d (snd (set_grants r gs d))"
  unfolding set_grants_def Let_def
  by (rule touches_trans [OF touches_no_grants touches_statements(4)])

lemma touches_ops:
  "touches r d (snd (update_role r ti ty gs now d))" "touches r d (snd (archive_role r d))"
  "touches r d (snd (set_description_idea r oc now d))" "touches r d (snd (update_occupant r k oc now d))"
  unfolding update_role_def archive_role_def set_description_idea_def update_occupant_def
  by (auto intro!: touches_bindR touches_statements touches_set_grants split: option.splits)

lemma touches_set_parents: "touches r d (snd (set_parent_edges r ps now d))"
proof -
  have "touches r d (delete_edges (\<lambda>(_, c). c = r) d)" by (rule touches_no_edges) auto
  then have "touches r d (snd (bindR (insert_parents (id_set ps) r (delete_edges (\<lambda>(_, c). c = r) d)) (\<lambda>_ d1.
      exec (update_row r (\<lambda>row. row\<lparr>rr_updated_at := Some now\<rparr>) d1) d1)))"
    by (rule touches_trans) (auto intro!: touches_bindR touches_parents touches_statements)
  then show ?thesis by (simp add: set_parent_edges_def Let_def split: option.splits)
qed

lemma touches_set_children: "touches r d (snd (set_child_edges r cs now d))"
proof -
  have "touches r d (delete_edges (\<lambda>(p, _). p = r) d)" by (rule touches_no_edges) auto
  then have "touches r d (snd (bindR (insert_children r (id_set cs) (delete_edges (\<lambda>(p, _). p = r) d)) (\<lambda>_ d1.
      exec (update_row r (\<lambda>row. row\<lparr>rr_updated_at := Some now\<rparr>) d1) d1)))"
    by (rule touches_trans) (auto intro!: touches_bindR touches_children touches_statements)
  then show ?thesis by (simp add: set_child_edges_def Let_def split: option.splits)
qed

section \<open>Commands\<close>

text \<open>What a command leaves when it is past its gate touches the role; before the gate it changes nothing.\<close>

definition gated :: "json \<Rightarrow> reg_db \<Rightarrow> reg_db \<Rightarrow> bool" where
  "gated req d d' \<longleftrightarrow> d' = d \<or> (\<exists>r w. request_field req ''role_id'' = Some r \<and> map_of (roles d) r = Some w \<and>
     caller_user_id req \<noteq> [] \<and> user_can_manage_role (rr_trust_id w) (caller_user_id req) r d \<and> touches r d d')"

lemma bindA_snd:
  "touches r d (snd m) \<Longrightarrow> (\<And>x d'. m = (Inr x, d') \<Longrightarrow> touches r d' (snd (f x d'))) \<Longrightarrow> touches r d (snd (bindA m f))"
  by (auto simp: bindA_def split: prod.splits sum.splits intro: touches_trans)

lemma lift_snd [simp]: "snd (lift m) = snd m"
  by (auto simp: lift_def split: prod.splits sum.splits)

lemma ask_snd: "(\<And>x. e = Inr x \<Longrightarrow> touches r d (snd (f x d))) \<Longrightarrow> touches r d (snd (ask e f d))"
  by (auto simp: ask_def split: sum.splits)

lemma need_snd: "(e = None \<Longrightarrow> touches r d (snd (f d))) \<Longrightarrow> touches r d (snd (need e f d))"
  by (auto simp: need_def split: option.splits)

lemma describe_snd: "touches r d (snd (write_description req r now d))"
  by (auto simp: write_description_def touches_ops split: option.splits)

lemma gate_None:
  "require_can_manage_role t r caller d = None \<longleftrightarrow> caller \<noteq> [] \<and> user_can_manage_role t caller r d"
  by (simp add: require_can_manage_role_def)

lemma gatedI:
  assumes "\<And>r role w. required req ''role_id'' = Inr r \<Longrightarrow> the_role NotFound r d = Inr role \<Longrightarrow>
    map_of (roles d) r = Some w \<Longrightarrow> rl_trust_id role = rr_trust_id w \<Longrightarrow> d' \<noteq> d \<Longrightarrow>
    require_can_manage_role (rr_trust_id w) r (caller_user_id req) d = None \<and> touches r d d'"
    and "\<And>e. required req ''role_id'' = Inl e \<Longrightarrow> d' = d"
    and "\<And>e r. required req ''role_id'' = Inr r \<Longrightarrow> the_role NotFound r d = Inl e \<Longrightarrow> d' = d"
  shows "gated req d d'"
proof (cases "required req ''role_id''")
  case (Inr r)
  then have r: "request_field req ''role_id'' = Some r" by (auto simp: required_def split: option.splits)
  show ?thesis
  proof (cases "the_role NotFound r d")
    case (Inr role)
    then obtain w where "map_of (roles d) r = Some w" "rl_trust_id role = rr_trust_id w"
      by (auto simp: the_role_def get_role_def row_to_role_def split: option.splits)
    then show ?thesis using assms(1) [OF \<open>required _ _ = _\<close> Inr] r by (auto simp: gated_def gate_None)
  qed (use assms(3) Inr in \<open>auto simp: gated_def\<close>)
qed (use assms(2) in \<open>auto simp: gated_def\<close>)

end
