(* ===== verification/Role_Commands.thy ===== *)
theory Role_Commands
  imports Role_Authority
begin

text \<open>
  The commands on roles, whatever the request: past its gate a command touches the role it names and
  nothing else, and what every registry operation keeps, every command keeps. The exception is the
  creation of a role for an occupant that has one: the row is adopted and hung below the
  parent without a check, so the invariants need the condition \<open>hangs_safely\<close> there.
\<close>

section \<open>Gates\<close>

lemma update_gated: "gated req d (snd (handle_update_role req clk d))"
proof (rule gatedI, goal_cases)
  case (1 r role w)
  let ?k = "ask (case request_field req ''role_type'' of None \<Rightarrow> Inr None | Some s \<Rightarrow> map_sum id Some (parse_type s))
    (\<lambda>ty d. bindA (lift (update_role r (request_field req ''title'') ty (string_array req ''grants'') (clk 0) d)) (\<lambda>_ d.
       bindA (write_description req r (clk 1) d) (\<lambda>_ d. ask (the_role Vanished r d) (\<lambda>role d. (Inr role, d)) d)))"
  have e: "handle_update_role req clk d = need (require_can_manage_role (rr_trust_id w) r (caller_user_id req) d) ?k d"
    using 1 by (simp add: handle_update_role_def ask_def)
  have "touches r d (snd (?k d))"
    by (intro ask_snd bindA_snd describe_snd) (simp_all add: touches_ops)
  then show ?case using 1(5) e by (auto simp: need_def split: option.splits)
qed (simp_all add: handle_update_role_def ask_def)

lemma archive_gated: "gated req d (snd (handle_archive_role req d))"
proof (rule gatedI, goal_cases)
  case (1 r role w)
  have e: "handle_archive_role req d = need (require_can_manage_role (rr_trust_id w) r (caller_user_id req) d)
      (\<lambda>d. bindA (lift (archive_role r d)) (\<lambda>_ d. (Inr r, d))) d"
    using 1 by (simp add: handle_archive_role_def ask_def)
  have "touches r d (snd (bindA (lift (archive_role r d)) (\<lambda>_ d. (Inr r, d))))"
    by (intro bindA_snd) (simp_all add: touches_ops)
  then show ?case using 1(5) e by (auto simp: need_def split: option.splits)
qed (simp_all add: handle_archive_role_def ask_def)

lemma edges_gated: "gated req d (snd (handle_update_role_edges req clk d))"
proof (rule gatedI, goal_cases)
  case (1 r role w)
  let ?t = "rr_trust_id w" and ?c = "caller_user_id req"
  let ?p = "\<lambda>d. case string_array req ''parent_role_ids'' of None \<Rightarrow> (Inr (), d)
    | Some ps \<Rightarrow> need (require_all ?t ps ?c d) (\<lambda>d. lift (set_parent_edges r ps (clk 0) d)) d"
  let ?q = "\<lambda>d. case string_array req ''child_role_ids'' of None \<Rightarrow> (Inr (), d)
    | Some cs \<Rightarrow> need (require_all ?t cs ?c d) (\<lambda>d. lift (set_child_edges r cs (clk 1) d)) d"
  let ?k = "\<lambda>d. bindA (?p d) (\<lambda>_ d. bindA (?q d) (\<lambda>_ d.
    ask (the_role Vanished r d) (\<lambda>role d. (Inr (role, list_edges_for_entity ?t d), d)) d))"
  have e: "handle_update_role_edges req clk d = need (require_can_manage_role ?t r ?c d) ?k d"
    unfolding handle_update_role_edges_def ask_def Let_def 1(1) sum.case 1(2) 1(4) by (rule refl)
  have "touches r d (snd (?k d))"
    by (intro bindA_snd ask_snd)
      (auto intro!: need_snd simp: touches_set_parents touches_set_children split: option.splits)
  then show ?case using 1(5) e by (auto simp: need_def split: option.splits)
qed (simp_all add: handle_update_role_edges_def ask_def)

definition occupant_command :: "json \<Rightarrow> stamp \<Rightarrow> reg_db \<Rightarrow> (string \<times> RegRole \<times> OccupantKind \<times> string option) answer" where
  "occupant_command req now = ask (required req ''role_id'') (\<lambda>r.
     ask (parse_kind req) (\<lambda>kind.
     let occupant = request_field req ''occupant_id'' in
     need (occupant_missing kind occupant) (\<lambda>d.
     ask (the_role NotFound r d) (\<lambda>role d.
     need (require_can_manage_role (rl_trust_id role) r (caller_user_id req) d) (\<lambda>d.
     bindA (lift (update_occupant r kind occupant now d)) (\<lambda>_ d. (Inr (r, role, kind, occupant), d))) d) d)))"

lemma change_occupant_db: "snd (fst (handle_change_occupant req now ss d)) = snd (occupant_command req now d)"
  by (auto simp: handle_change_occupant_def occupant_command_def Let_def split: sum.splits prod.splits option.splits)

lemma occupant_gated: "gated req d (snd (occupant_command req now d))"
proof (rule gatedI, goal_cases)
  case (1 r role w)
  let ?k = "\<lambda>kind d. bindA (lift (update_occupant r kind (request_field req ''occupant_id'') now d))
    (\<lambda>_ d. (Inr (r, role, kind, request_field req ''occupant_id''), d))"
  obtain kind where "parse_kind req = Inr kind" and e: "occupant_command req now d =
      need (require_can_manage_role (rr_trust_id w) r (caller_user_id req) d) (?k kind) d"
    using 1 by (cases "parse_kind req")
      (auto simp: occupant_command_def ask_def Let_def need_def occupant_missing_def split: if_splits)
  have "touches r d (snd (?k kind d))"
    by (intro bindA_snd) (simp_all add: touches_ops)
  then show ?case using 1(5) e by (auto simp: need_def split: option.splits)
qed (auto simp: occupant_command_def ask_def need_def Let_def split: sum.splits option.splits)

section \<open>Invariants\<close>

lemma trust_of_gate:
  "require_can_manage_role t p caller d = None \<Longrightarrow> trust_of p d = Some t"
  by (auto simp: gate_None user_can_manage_role_def role_in_trust_eq split: if_splits)

lemma existing_trust: "get_by_occupant t occ d = Some e \<Longrightarrow> schema d \<Longrightarrow> trust_of (rl_id e) d = Some t"
proof -
  assume e: "get_by_occupant t occ d = Some e" and S: "schema d"
  let ?xs = "sort_key (rr_created_at \<circ> snd) (filter (\<lambda>(_, row). rr_occupant_id row = Some occ) (in_entity t d))"
  obtain x xs where x: "?xs = x # xs" "rl_id e = fst x"
    using e by (auto simp: get_by_occupant_def row_to_role_def split: list.splits)
  then have "x \<in> set ?xs" by simp
  then have "(fst x, snd x) \<in> set (in_entity t d)" by auto
  then show ?thesis unfolding in_entity_set [OF S] using x(2) by (auto simp: trust_of_def)
qed

text \<open>What a role is and who controls it survives a change of its row.\<close>

definition same_chart :: "reg_db \<Rightarrow> reg_db \<Rightarrow> bool" where
  "same_chart d d' \<longleftrightarrow> edge_set d' = edge_set d \<and> (\<forall>x. trust_of x d' = trust_of x d)"

lemma same_chart_refl [simp]: "same_chart d d"
  by (simp add: same_chart_def)

lemma same_chart_bindR:
  "same_chart d (snd m) \<Longrightarrow> (\<And>x d'. same_chart d' (snd (f x d'))) \<Longrightarrow> same_chart d (snd (bindR m f))"
  by (auto simp: bindR_def same_chart_def split: prod.splits sum.splits)

lemma same_chart_row:
  "(\<And>w. rr_trust_id (f w) = rr_trust_id w) \<Longrightarrow> same_chart d (snd (exec (update_row r f d) d))"
  by (auto simp: exec_def same_chart_def edge_set_def trust_of_update_row split: option.splits)
    (auto simp: update_row_def split: option.splits if_splits)

lemma same_chart_grants: "same_chart d (snd (set_grants r gs d))"
  using insert_grants_frame [of r gs "delete_grants r d"]
  by (auto simp: same_chart_def set_grants_def Let_def exec_def edge_set_def trust_of_def split: option.splits)

lemma update_role_frame: "update_role r ti ty gs now d = (x, d') \<Longrightarrow> same_chart d d'"
proof -
  have "same_chart d (snd (update_role r ti ty gs now d))" unfolding update_role_def
    by (rule same_chart_bindR) (auto intro!: same_chart_row simp: same_chart_grants split: option.splits)
  then show "update_role r ti ty gs now d = (x, d') \<Longrightarrow> same_chart d d'" by simp
qed

lemma create_frame:
  assumes "create_with_type t ti k oc ty fo gs uuid now d = (Inr role, d')"
  shows "rl_id role = uuid" "\<not> has (roles d) uuid" "edge_set d' = edge_set d" "trust_of uuid d' = Some t"
    "x \<noteq> uuid \<Longrightarrow> trust_of x d' = trust_of x d"
proof -
  obtain d1 row where 1: "insert_role uuid (fresh_role t ti k oc ty fo now) d = Some d1"
    and 2: "insert_grants uuid (effective_grants ty gs) d1 = Some d'"
    and 3: "map_of (roles d') uuid = Some row" "role = (row_to_role (uuid, row))\<lparr>rl_grants := effective_grants ty gs\<rparr>"
    using assms by (auto simp: create_with_type_def Let_def ok_simps split: option.splits)
  note R = insert_role_eq [OF 1] insert_grants_frame [OF 2]
  show "rl_id role = uuid" using 3 by (simp add: row_to_role_def)
  show "\<not> has (roles d) uuid" "edge_set d' = edge_set d" using R by (auto simp: edge_set_def)
  have "map_of (roles d) uuid = None" using R by (simp add: has_def)
  then show "trust_of uuid d' = Some t" using R by (auto simp: trust_of_def fresh_role_def map_add_def)
  show "trust_of x d' = trust_of x d" if "x \<noteq> uuid"
    using that R by (auto simp: trust_of_def map_add_def split: option.splits)
qed

text \<open>An adopted role does not control the parent it is to be hung below.\<close>

definition hangs_safely :: "string \<Rightarrow> json \<Rightarrow> reg_db \<Rightarrow> bool" where
  "hangs_safely t req d \<longleftrightarrow> (\<forall>p occ e. request_field req ''parent_role_id'' = Some p \<longrightarrow>
     request_field req ''occupant_id'' = Some occ \<longrightarrow> get_by_occupant t occ d = Some e \<longrightarrow>
     (rl_id e, p) \<notin> (edge_set d)\<^sup>*)"

lemma bindA_Inr: "bindA m f = (Inr y, d'') \<longleftrightarrow> (\<exists>x d'. m = (Inr x, d') \<and> f x d' = (Inr y, d''))"
  by (auto simp: bindA_def split: prod.splits sum.splits)

lemma ask_Inr: "ask e f d = (Inr y, d') \<longleftrightarrow> (\<exists>x. e = Inr x \<and> f x d = (Inr y, d'))"
  by (auto simp: ask_def split: sum.splits)

lemma need_Inr: "need e f d = (Inr y, d') \<longleftrightarrow> e = None \<and> f d = (Inr y, d')"
  by (auto simp: need_def split: option.splits)

lemma lift_Inr: "lift m = (Inr y, d') \<longleftrightarrow> m = (Inr y, d')"
  by (auto simp: lift_def split: prod.splits sum.splits)

lemma hung_role:
  assumes S: "schema d" and p: "trust_of p d = Some t" and c: "adopt_or_create t caller ti k oc ty fo gs uuid clk d = (Inr role, d')"
    and safe: "\<And>occ e. oc = Some occ \<Longrightarrow> get_by_occupant t occ d = Some e \<Longrightarrow> (rl_id e, p) \<notin> (edge_set d)\<^sup>*"
  shows "(rl_id role, p) \<notin> (edge_set d')\<^sup>* \<and> trust_of p d' = trust_of (rl_id role) d'"
proof -
  have made: ?thesis if "create_with_type t ti k oc ty fo gs uuid now d = (Inr role, d')" for now
  proof -
    note C = create_frame [OF that]
    have ne: "p \<noteq> uuid" using C(2) p by (auto simp: trust_of_has)
    have "(uuid, p) \<notin> (edge_set d)\<^sup>*"
    proof
      assume "(uuid, p) \<in> (edge_set d)\<^sup>*"
      then show False using ne C(2) edge_ends [OF S, of uuid]
        by (cases rule: converse_rtranclE) (auto simp: edge_set_def)
    qed
    with ne show ?thesis using C(1,3,4) C(5) [of p] p by simp
  qed
  show ?thesis
  proof (cases oc)
    case (Some occ)
    show ?thesis
    proof (cases "get_by_occupant t occ d")
      case (Some e)
      with c \<open>oc = Some occ\<close> have u: "update_role (rl_id e) (Some ti) (Some ty)
          (Some (effective_grants ty gs)) (clk 0) d = (Inr (), d')" and r: "get_role (rl_id e) d' = Some role"
        by (auto simp: adopt_or_create_def bindA_Inr ask_Inr need_Inr lift_Inr the_role_def split: option.splits)
      have "rl_id role = rl_id e" using r by (auto simp: get_role_def row_to_role_def)
      then show ?thesis using update_role_frame [OF u] safe [OF \<open>oc = Some occ\<close> Some] p existing_trust [OF Some S]
        by (simp add: same_chart_def)
    qed (use c Some in \<open>auto simp: adopt_or_create_def lift_Inr intro!: made\<close>)
  qed (use c in \<open>auto simp: adopt_or_create_def lift_Inr intro!: made\<close>)
qed

context chart_invariant
begin

lemma keep_bindA: "P (snd m) \<Longrightarrow> (\<And>x d'. m = (Inr x, d') \<Longrightarrow> P d' \<Longrightarrow> P (snd (f x d'))) \<Longrightarrow> P (snd (bindA m f))"
  by (auto simp: bindA_def split: prod.splits sum.splits)

lemma keep_ask: "P d \<Longrightarrow> (\<And>x. e = Inr x \<Longrightarrow> P (snd (f x d))) \<Longrightarrow> P (snd (ask e f d))"
  by (auto simp: ask_def split: sum.splits)

lemma keep_need: "P d \<Longrightarrow> (e = None \<Longrightarrow> P (snd (f d))) \<Longrightarrow> P (snd (need e f d))"
  by (auto simp: need_def split: option.splits)

lemma keep_describe: "P d \<Longrightarrow> P (snd (write_description req r now d))"
  by (auto simp: write_description_def describe_keeps split: option.splits)

lemma keep_adopt: "P d \<Longrightarrow> P (snd (adopt_or_create t caller ti k oc ty fo gs uuid clk d))"
  unfolding adopt_or_create_def
  by (auto simp: create_keeps update_role_keeps split: option.splits intro!: keep_need keep_bindA keep_ask)

lemma keep_place:
  assumes "P d" "hangs_safely t req d"
    and parent: "\<And>p. request_field req ''parent_role_id'' = Some p \<Longrightarrow> trust_of p d = Some t"
  shows "P (snd (place_role t caller ti k ty fo req uuid clk d))"
  unfolding place_role_def
proof (rule keep_bindA [OF keep_adopt [OF assms(1)]])
  fix role d'
  assume c: "adopt_or_create t caller ti k (request_field req ''occupant_id'') ty fo (string_array req ''grants'') uuid clk d =
      (Inr role, d')" and "P d'"
  moreover have "(rl_id role, p) \<notin> (edge_set d')\<^sup>* \<and> trust_of p d' = trust_of (rl_id role) d'"
    if "request_field req ''parent_role_id'' = Some p" for p
    using that assms(2) parent [OF that]
    by (intro hung_role [OF well_formed [OF assms(1)] _ c]) (auto simp: hangs_safely_def)
  ultimately show "P (snd (bindA (case request_field req ''parent_role_id'' of
         None \<Rightarrow> (Inr (), d') | Some p \<Rightarrow> lift (add_edge p (rl_id role) d')) (\<lambda>_ d.
     bindA (write_description req (rl_id role) (clk 1) d) (\<lambda>_ d.
     ask (the_role Vanished (rl_id role) d) (\<lambda>role d. (Inr role, d)) d))))"
    by (intro keep_bindA keep_ask keep_describe) (auto simp: add_edge_keeps split: option.splits)
qed

lemma keep_create:
  assumes "P d" "\<And>t. required req ''trust_id'' = Inr t \<Longrightarrow> hangs_safely t req d"
  shows "P (snd (handle_create_role allowed req uuid clk d))"
  unfolding handle_create_role_def Let_def
proof (rule keep_ask [OF assms(1)])
  fix t assume t: "required req ''trust_id'' = Inr t"
  let ?gate = "case request_field req ''parent_role_id'' of
      Some p \<Rightarrow> require_can_manage_role t p (caller_user_id req) d
    | None \<Rightarrow> require_can_create_root_role t (caller_user_id req) d"
  let ?rest = "\<lambda>ti fo. ask (parse_kind req) (\<lambda>kind. need (occupant_missing kind (request_field req ''occupant_id''))
    (ask (parse_type (case request_field req ''role_type'' of Some s \<Rightarrow> s | None \<Rightarrow> ''operational'')) (\<lambda>ty.
      place_role t (caller_user_id req) ti kind ty fo req uuid clk)))"
  have "P (snd (need ?gate (?rest ti fo) d))" for ti fo
  proof (rule keep_need [OF assms(1)])
    assume g: "?gate = None"
    have "trust_of p d = Some t" if "request_field req ''parent_role_id'' = Some p" for p
      using g that by (auto intro: trust_of_gate)
    from keep_place [OF assms(1) assms(2) [OF t] this] show "P (snd (?rest ti fo d))"
      by (intro keep_ask keep_need assms(1))
  qed
  then show "P (snd (if \<not> is_allowed allowed t then (Inl AccessDenied, d) else need ?gate
     (?rest (case request_field req ''title'' of None \<Rightarrow> [] | Some s \<Rightarrow> s)
       (case Option.bind (field req ''founder'') as_bool of None \<Rightarrow> False | Some b \<Rightarrow> b)) d))"
    using assms(1) by simp
qed

lemma keep_update: "P d \<Longrightarrow> P (snd (handle_update_role req clk d))"
  unfolding handle_update_role_def
  by (intro keep_ask keep_need keep_bindA keep_describe) (simp_all add: update_role_keeps)

lemma keep_edges: "P d \<Longrightarrow> P (snd (handle_update_role_edges req clk d))"
  unfolding handle_update_role_edges_def Let_def
  by (intro keep_ask keep_need keep_bindA)
    (auto simp: parents_keeps children_keeps split: option.splits intro!: keep_need)

lemma keep_archive: "P d \<Longrightarrow> P (snd (handle_archive_role req d))"
  unfolding handle_archive_role_def by (intro keep_ask keep_need keep_bindA) (simp_all add: archive_keeps)

lemma keep_occupant: "P d \<Longrightarrow> P (snd (occupant_command req now d))"
  unfolding occupant_command_def Let_def
  by (intro keep_ask keep_need keep_bindA) (simp_all add: occupant_keeps)

end

section \<open>Commands and registries\<close>

inductive org_step :: "reg_db \<Rightarrow> reg_db \<Rightarrow> bool" where
  registries: "org_op d d' \<Longrightarrow> org_step d d'"
| "\<forall>t. required req ''trust_id'' = Inr t \<longrightarrow> hangs_safely t req d \<Longrightarrow>
     org_step d (snd (handle_create_role allowed req uuid clk d))"
| "org_step d (snd (handle_update_role req clk d))"
| "org_step d (snd (handle_update_role_edges req clk d))"
| "org_step d (snd (handle_archive_role req d))"
| "org_step d (snd (fst (handle_change_occupant req now ss d)))"

lemma org_steps_keep:
  assumes "org_step\<^sup>*\<^sup>* d d'" "chart_ok d" "rails_ok d"
  shows "chart_ok d' \<and> rails_ok d'"
  using assms
proof (induction rule: rtranclp_induct)
  case (step y z)
  from step(2) show ?case
  proof cases
    case registries
    then show ?thesis using org_run_keeps [OF r_into_rtranclp [of org_op]] step by blast
  qed (use step in \<open>auto simp: change_occupant_db chart.keep_create chart.keep_update chart.keep_edges
      chart.keep_archive chart.keep_occupant dest: chart_okD intro!: rails_inv.org.keep_create [THEN conjunct2]
      rails_inv.org.keep_update [THEN conjunct2] rails_inv.org.keep_edges [THEN conjunct2]
      rails_inv.org.keep_archive [THEN conjunct2] rails_inv.org.keep_occupant [THEN conjunct2]\<close>)
qed simp

end
