(* ===== verification/Agent_Tree.thy ===== *)
theory Agent_Tree
  imports Role_Registry_Edges Quests_Quest
begin

text \<open>
  The tree of agents (\<open>AgentRegistry\<close> in \<open>agent_registry.rs\<close>) and the scopes of visibility above it
  (\<open>scope_visibility.rs\<close>). Agents have no parents of their own: who is above whom is read off the
  roles they occupy. \<open>get_ancestor_ids\<close> walks upwards over pairs of a role and its depth, a walk
  that ends only where the chart has no cycle: it is partial, \<open>None\<close> when it does not return. As in
  the role registry each statement commits on its own. The rows of \<open>agents\<close> are kept with the columns
  used here; \<open>slugs\<close> is the unique column of \<open>entities\<close>.
\<close>

section \<open>Tables\<close>

record agent_row =
  at_id :: string
  at_name :: string
  at_trust_id :: "string option"
  at_status :: string
  at_created_at :: stamp

record org_db =
  reg :: reg_db
  agents :: "agent_row list"
  slugs :: "(string \<times> string) list"

datatype tree_error =
    ParentHasNoEntity string | WouldCreateCycle | HasNoRole string | NewParentHasNoRole string
  | AgentNotFound string | Statement_Failed

type_synonym 'a tree = "(tree_error + 'a) \<times> org_db"

definition bindT :: "'a tree \<Rightarrow> ('a \<Rightarrow> org_db \<Rightarrow> 'b tree) \<Rightarrow> 'b tree" where
  "bindT m f = (case m of (Inl e, d) \<Rightarrow> (Inl e, d) | (Inr x, d) \<Rightarrow> f x d)"

text \<open>\<open>db.execute(..)?\<close> on the tables of roles.\<close>

definition execT :: "(reg_db \<Rightarrow> reg_db option) \<Rightarrow> org_db \<Rightarrow> unit tree" where
  "execT f d = (case f (reg d) of None \<Rightarrow> (Inl Statement_Failed, d) | Some x \<Rightarrow> (Inr (), d\<lparr>reg := x\<rparr>))"

definition tree_agent :: "string \<Rightarrow> org_db \<Rightarrow> agent_row option" where
  "tree_agent a d = find (\<lambda>x. at_id x = a) (agents d)"

text \<open>The roles an agent occupies, the agent that occupies a role.\<close>

definition roles_of :: "string \<Rightarrow> reg_db \<Rightarrow> (string \<times> role_row) list" where
  "roles_of a d = filter (\<lambda>(_, w). occupies ''agent'' a w) (roles d)"

definition role_ids_of :: "string \<Rightarrow> reg_db \<Rightarrow> string list" where
  "role_ids_of a d = map fst (roles_of a d)"

definition agent_of :: "reg_db \<Rightarrow> string \<Rightarrow> string option" where
  "agent_of d r = (case map_of (roles d) r of
     None \<Rightarrow> None
   | Some w \<Rightarrow> if rr_occupant_kind w = ''agent'' then rr_occupant_id w else None)"

text \<open>\<open>ORDER BY created_at ASC LIMIT 1\<close>\<close>

definition first_role :: "(string \<times> role_row) list \<Rightarrow> string option" where
  "first_role rs = (case sort_key (rr_created_at \<circ> snd) rs of [] \<Rightarrow> None | x # _ \<Rightarrow> Some (fst x))"

section \<open>Spawning\<close>

text \<open>A fresh root: its entity, unless the caller names one that exists.\<close>

definition insert_entity :: "string \<Rightarrow> string \<Rightarrow> stamp \<Rightarrow> org_db \<Rightarrow> unit tree" where
  "insert_entity e slug now d =
     (if has (entities (reg d)) e \<or> slug \<in> set (map snd (slugs d)) then (Inl Statement_Failed, d)
      else (Inr (), d\<lparr>reg := (reg d)\<lparr>entities := entities (reg d) @ [(e, Some now)]\<rparr>,
             slugs := slugs d @ [(e, slug)]\<rparr>))"

definition resolve_entity :: "string \<Rightarrow> string option \<Rightarrow> string option \<Rightarrow> string option \<Rightarrow> string \<Rightarrow> stamp \<Rightarrow>
  org_db \<Rightarrow> (string \<times> string option) tree" where
  "resolve_entity cname par override slug fresh now d = (case par of
     Some p \<Rightarrow> (case Option.bind (tree_agent p d) at_trust_id of
         None \<Rightarrow> (Inl (ParentHasNoEntity p), d)
       | Some t \<Rightarrow> (Inr (t, first_role (filter (\<lambda>(_, w). rr_trust_id w = t) (roles_of p (reg d)))), d))
   | None \<Rightarrow>
       (let e = (case override of Some x \<Rightarrow> x | None \<Rightarrow> fresh) in
        if override \<noteq> None \<and> has (entities (reg d)) e then (Inr (e, None), d)
        else bindT (insert_entity e (case slug of Some s \<Rightarrow> s | None \<Rightarrow> cname) now d)
               (\<lambda>_ d. (Inr (e, None), d))))"

definition insert_agent :: "agent_row \<Rightarrow> org_db \<Rightarrow> unit tree" where
  "insert_agent a d =
     (if list_ex (\<lambda>x. at_id x = at_id a) (agents d) \<or> \<not> has_opt (entities (reg d)) (at_trust_id a)
      then (Inl Statement_Failed, d) else (Inr (), d\<lparr>agents := agents d @ [a]\<rparr>))"

definition spawn_with_entity_id :: "string \<Rightarrow> string option \<Rightarrow> string option \<Rightarrow> string option \<Rightarrow>
  string \<Rightarrow> string \<Rightarrow> string \<Rightarrow> stamp \<Rightarrow> org_db \<Rightarrow> agent_row tree" where
  "spawn_with_entity_id name par override slug aid role_id fresh now d =
     (let cname = trim name in
      bindT (resolve_entity cname par override slug fresh now d) (\<lambda>(trust, parent_role) d.
      let a = \<lparr>at_id = aid, at_name = cname, at_trust_id = Some trust, at_status = ''active'',
               at_created_at = now\<rparr> in
      bindT (insert_agent a d) (\<lambda>_ d.
      bindT (execT (insert_role role_id (fresh_role trust cname Agent (Some aid) Operational False now)) d) (\<lambda>_ d.
      bindT (case parent_role of None \<Rightarrow> (Inr (), d) | Some p \<Rightarrow> execT (insert_edge p role_id) d) (\<lambda>_ d.
      (Inr a, d))))))"

definition spawn :: "string \<Rightarrow> string option \<Rightarrow> string \<Rightarrow> string \<Rightarrow> string \<Rightarrow> stamp \<Rightarrow> org_db \<Rightarrow> agent_row tree" where
  "spawn name par = spawn_with_entity_id name par None None"

section \<open>Reading the tree\<close>

definition get_children :: "string \<Rightarrow> org_db \<Rightarrow> agent_row list" where
  "get_children a d = sort_key at_name (filter (\<lambda>x. at_status x = ''active'' \<and>
     list_ex (\<lambda>(p, c). agent_of (reg d) p = Some a \<and> agent_of (reg d) c = Some (at_id x)) (role_edges (reg d)))
     (agents d))"

definition climb :: "reg_db \<Rightarrow> string \<times> nat \<Rightarrow> (string \<times> nat) list" where
  "climb d = (\<lambda>(r, n). map (\<lambda>p. (p, Suc n)) (parents_of (role_edges d) r))"

definition ancestor_roles :: "string \<Rightarrow> reg_db \<Rightarrow> (string \<times> nat) list option" where
  "ancestor_roles a d =
     (let init = add_new [] (map (\<lambda>r. (r, 0)) (role_ids_of a d)) in walk_rows (climb d) init init)"

definition occupant_depth :: "reg_db \<Rightarrow> (string \<times> nat) list \<Rightarrow> string \<Rightarrow> nat" where
  "occupant_depth d rows x = min_list (map snd (filter (\<lambda>(r, _). agent_of d r = Some x) rows))"

definition get_ancestor_ids :: "string \<Rightarrow> reg_db \<Rightarrow> string list option" where
  "get_ancestor_ids a d = map_option (\<lambda>rows. sort_key (occupant_depth d rows)
     (remdups (List.map_filter (agent_of d \<circ> fst) rows))) (ancestor_roles a d)"

definition get_ancestors :: "string \<Rightarrow> org_db \<Rightarrow> agent_row list option" where
  "get_ancestors a d = map_option (List.map_filter (\<lambda>i. tree_agent i d)) (get_ancestor_ids a (reg d))"

definition list_descendants :: "string \<Rightarrow> reg_db \<Rightarrow> string list" where
  "list_descendants a d = filter (\<lambda>x. x \<noteq> a)
     (remdups (List.map_filter (agent_of d) (descend (role_edges d) (role_ids_of a d))))"

definition list_siblings :: "string \<Rightarrow> reg_db \<Rightarrow> string list" where
  "list_siblings a d =
     (let parents = concat (map (parents_of (role_edges d)) (role_ids_of a d));
          children = concat (map (children_of (role_edges d)) parents)
      in remdups (filter (\<lambda>x. x \<noteq> a) (List.map_filter (agent_of d) (filter (\<lambda>r. r \<in> set children) (map fst (roles d))))))"

definition get_subtree :: "string \<Rightarrow> org_db \<Rightarrow> agent_row list" where
  "get_subtree a d =
     (let below = descend (role_edges (reg d)) (role_ids_of a (reg d))
      in sort_key at_created_at (filter (\<lambda>x. list_ex (\<lambda>r. r \<in> set below) (role_ids_of (at_id x) (reg d))) (agents d)))"

definition topmost :: "reg_db \<Rightarrow> string \<Rightarrow> bool" where
  "topmost d a \<longleftrightarrow> list_ex (\<lambda>r. \<not> has_parent r d) (role_ids_of a d)"

definition get_default_agent :: "org_db \<Rightarrow> agent_row option" where
  "get_default_agent d =
     (case sort_key at_created_at (filter (\<lambda>x. at_status x = ''active'' \<and> topmost (reg d) (at_id x)) (agents d)) of
        [] \<Rightarrow> None | x # _ \<Rightarrow> Some x)"

definition list_entity_agents :: "org_db \<Rightarrow> agent_row list" where
  "list_entity_agents d = sort_key at_name (filter (\<lambda>x. topmost (reg d) (at_id x)) (agents d))"

section \<open>Moving and deleting\<close>

fun graft :: "string \<Rightarrow> string list \<Rightarrow> org_db \<Rightarrow> unit tree" where
  "graft p [] d = (Inr (), d)"
| "graft p (r # rs) d = bindT (execT (insert_edge p r) d) (\<lambda>_. graft p rs)"

definition move_agent :: "string \<Rightarrow> string option \<Rightarrow> org_db \<Rightarrow> unit tree" where
  "move_agent a new_parent d =
     (if (case new_parent of None \<Rightarrow> False | Some p \<Rightarrow> list_ex (\<lambda>x. at_id x = p) (get_subtree a d))
      then (Inl WouldCreateCycle, d)
      else
        (let rs = role_ids_of a (reg d) in
         if rs = [] then (Inl (HasNoRole a), d)
         else
           (let d1 = d\<lparr>reg := delete_edges (\<lambda>(_, c). c \<in> set rs) (reg d)\<rparr> in
            case new_parent of
              None \<Rightarrow> (Inr (), d1)
            | Some p \<Rightarrow> (case first_role (roles_of p (reg d1)) of
                None \<Rightarrow> (Inl (NewParentHasNoRole p), d1)
              | Some pr \<Rightarrow> graft pr rs d1))))"

fun promote :: "(string \<times> string) list \<Rightarrow> org_db \<Rightarrow> unit tree" where
  "promote [] d = (Inr (), d)"
| "promote ((p, c) # es) d = bindT (execT (insert_edge p c) d) (\<lambda>_. promote es)"

fun drop_roles :: "string list \<Rightarrow> org_db \<Rightarrow> unit tree" where
  "drop_roles [] d = (Inr (), d)"
| "drop_roles (r # rs) d = bindT (execT (delete_roles (\<lambda>(x, _). x = r)) d) (\<lambda>_. drop_roles rs)"

definition delete_agent :: "string \<Rightarrow> bool \<Rightarrow> org_db \<Rightarrow> nat tree" where
  "delete_agent a cascade d =
     (if \<not> cascade then
        (let rs = role_ids_of a (reg d);
             es = role_edges (reg d);
             parents = remdups (map fst (filter (\<lambda>(_, c). c \<in> set rs) es));
             children = remdups (map snd (filter (\<lambda>(p, _). p \<in> set rs) es))
         in bindT (promote (concat (map (\<lambda>c. map (\<lambda>p. (p, c)) parents) children)) d) (\<lambda>_ d.
            bindT (drop_roles rs d) (\<lambda>_ d.
            let rest = filter (\<lambda>x. at_id x \<noteq> a) (agents d); n = length (agents d) - length rest in
            if n = 0 then (Inl (AgentNotFound a), d) else (Inr n, d\<lparr>agents := rest\<rparr>))))
      else
        (let subtree = list_descendants a (reg d) @ [a] in
         if tree_agent a d = None then (Inl (AgentNotFound a), d)
         else
           (let rest = filter (\<lambda>x. at_id x \<notin> set subtree) (agents d);
                n = length (agents d) - length rest
            in bindT (execT (delete_roles (\<lambda>(_, w). rr_occupant_kind w = ''agent'' \<and>
                        (case rr_occupant_id w of None \<Rightarrow> False | Some x \<Rightarrow> x \<in> set subtree)))
                      (d\<lparr>agents := rest\<rparr>)) (\<lambda>_ d. (Inr n, d)))))"

section \<open>Scopes\<close>

definition push_missing :: "string list \<Rightarrow> string list \<Rightarrow> string list" where
  "push_missing ids extra = fold (\<lambda>s acc. if s \<in> set acc then acc else acc @ [s]) extra ids"

definition visible_agent_ids :: "string \<Rightarrow> Scope \<Rightarrow> reg_db \<Rightarrow> string list option" where
  "visible_agent_ids viewer sc d = (case sc of
     Global \<Rightarrow> Some []
   | SelfScope \<Rightarrow> get_ancestor_ids viewer d
   | Siblings \<Rightarrow> map_option (\<lambda>ids. push_missing ids (list_siblings viewer d)) (get_ancestor_ids viewer d)
   | Children \<Rightarrow> get_ancestor_ids viewer d
   | Branch \<Rightarrow> map_option (\<lambda>ids. push_missing ids (list_siblings viewer d)) (get_ancestor_ids viewer d))"

fun join_with :: "string \<Rightarrow> string list \<Rightarrow> string" where
  "join_with sep [] = []"
| "join_with sep [x] = x"
| "join_with sep (x # xs) = x @ sep @ join_with sep xs"

definition in_clause :: "string \<Rightarrow> string list \<Rightarrow> string list \<times> string list \<Rightarrow> string list \<times> string list" where
  "in_clause sc anchors = (\<lambda>(parts, binds).
     if anchors = [] then (parts, binds)
     else (parts @ [''(scope='' @ [CHR 0x27] @ sc @ [CHR 0x27] @ '' AND agent_id IN ('' @
             join_with '','' (replicate (length anchors) ''?'') @ ''))''], binds @ anchors))"

definition visibility_sql_clause :: "string \<Rightarrow> reg_db \<Rightarrow> (string \<times> string list) option" where
  "visibility_sql_clause viewer d = map_option (\<lambda>up.
     let sib = push_missing up (list_siblings viewer d);
         (parts, binds) = in_clause ''branch'' sib (in_clause ''children'' up (in_clause ''siblings'' sib
           (in_clause ''self'' up ([''scope='' @ [CHR 0x27] @ ''global'' @ [CHR 0x27]], []))))
     in (''('' @ join_with '' OR '' parts @ '')'', binds)) (get_ancestor_ids viewer d)"

end
