(* ===== verification/Agent_Tree_Walks.thy ===== *)
theory Agent_Tree_Walks
  imports Agent_Tree
begin

text \<open>
  The walks over the tree of agents. The upward walk over pairs of a role and a depth returns exactly
  when no cycle lies above the agent's roles; then it finds the agents above, the converse of what the
  downward walk finds, and the scopes of visibility follow from it.
\<close>

section \<open>The rows of the upward walk\<close>

text \<open>A row (y, n) says that \<open>y\<close> is \<open>n\<close> edges above a role of the agent.\<close>

definition above :: "reg_db \<Rightarrow> string set \<Rightarrow> (string \<times> nat) set" where
  "above d S = {(y, n). \<exists>r\<in>S. (y, r) \<in> edge_set d ^^ n}"

lemma set_climb: "set (climb d (r, n)) = {(p, Suc n) | p. (p, r) \<in> edge_set d}"
  by (auto simp: climb_def edge_set_def)

lemma above_step: "x \<in> above d S \<Longrightarrow> y \<in> set (climb d x) \<Longrightarrow> y \<in> above d S"
  by (cases x) (auto simp: above_def set_climb intro: relpow_Suc_I2)

lemma above_Un: "above d S = (\<Union>r\<in>S. above d {r})"
  by (auto simp: above_def)

lemma above_one: "above d {r} = insert (r, 0) (\<Union>p\<in>{p. (p, r) \<in> edge_set d}. (\<lambda>(y, n). (y, Suc n)) ` above d {p})"
  (is "?L = ?R")
proof (rule set_eqI, clarify)
  fix y n
  show "(y, n) \<in> ?L \<longleftrightarrow> (y, n) \<in> ?R"
  proof (cases n)
    case (Suc m)
    have "(y, r) \<in> edge_set d ^^ Suc m \<longleftrightarrow> (\<exists>p. (p, r) \<in> edge_set d \<and> (y, p) \<in> edge_set d ^^ m)"
      by (auto elim: relpow_Suc_E intro: relpow_Suc_I)
    then show ?thesis by (simp add: above_def Suc image_iff del: relpow.simps)
  qed (auto simp: above_def)
qed

text \<open>No cycle above \<open>S\<close>.\<close>

definition clear_above :: "reg_db \<Rightarrow> string set \<Rightarrow> bool" where
  "clear_above d S \<longleftrightarrow> (\<forall>r\<in>S. \<forall>y. (y, r) \<in> (edge_set d)\<^sup>* \<longrightarrow> (y, y) \<notin> (edge_set d)\<^sup>+)"

lemma finite_above:
  assumes "finite S" "clear_above d S"
  shows "finite (above d S)"
proof -
  define A where "A = {y. \<exists>r\<in>S. (y, r) \<in> (edge_set d)\<^sup>*}"
  let ?F = "{(p, r) \<in> edge_set d. r \<in> A}"
  have A: "p \<in> A" if "(p, r) \<in> edge_set d" "r \<in> A" for p r
    using that by (auto simp: A_def intro: converse_rtrancl_into_rtrancl)
  have "(x, y) \<in> ?F\<^sup>+ \<Longrightarrow> (x, y) \<in> (edge_set d)\<^sup>+" for x y
    by (erule trancl_mono) auto
  moreover have "(x, y) \<in> ?F\<^sup>+ \<Longrightarrow> y \<in> A" for x y
    by (erule trancl_induct) auto
  ultimately have "acyclic ?F" using assms(2) unfolding acyclic_def clear_above_def A_def by blast
  moreover have "finite ?F" by (rule finite_subset [of _ "edge_set d"]) (auto simp: edge_set_def)
  ultimately have "wf ?F" by (rule finite_acyclic_wf [rotated])
  then have "r \<in> A \<longrightarrow> finite (above d {r})" for r
  proof (induction r)
    case (less r)
    have "finite {p. (p, r) \<in> edge_set d}"
      by (rule finite_subset [of _ "fst ` edge_set d"]) (force simp: edge_set_def)+
    then show ?case using less A by (subst above_one) auto
  qed
  then show ?thesis using assms(1) by (subst above_Un) (auto simp: A_def)
qed

lemma set_role_ids [simp]: "set (map (\<lambda>r. (r, 0::nat)) xs) = {(r, 0) | r. r \<in> set xs}"
  by auto

lemma ancestor_roles_set:
  assumes "ancestor_roles a d = Some rows"
  shows "set rows = above d (set (role_ids_of a d))"
proof
  let ?i = "add_new [] (map (\<lambda>r. (r, 0)) (role_ids_of a d))"
  have w: "walk_rows (climb d) ?i ?i = Some rows" using assms by (simp add: ancestor_roles_def Let_def)
  have start: "x \<in> above d (set (role_ids_of a d))" if "x \<in> set ?i" for x
    using that by (auto simp: above_def)
  show "set rows \<subseteq> above d (set (role_ids_of a d))"
    using walk_rows_sound [OF w, of "\<lambda>x. x \<in> above d (set (role_ids_of a d))"] start above_step
    by blast
  have closed: "set (climb d x) \<subseteq> set rows" if "x \<in> set rows" for x
    using walk_rows_closed [OF w _ that] by auto
  have "(y, r) \<in> edge_set d ^^ n \<Longrightarrow> (r, k) \<in> set rows \<Longrightarrow> (y, n + k) \<in> set rows" for y r n k
  proof (induction n arbitrary: y)
    case (Suc n)
    then obtain z where z: "(y, z) \<in> edge_set d" "(z, r) \<in> edge_set d ^^ n" by (meson relpow_Suc_E2)
    have "(z, n + k) \<in> set rows" using Suc.IH z(2) Suc.prems(2) by blast
    then have "set (climb d (z, n + k)) \<subseteq> set rows" by (rule closed)
    then show ?case using z(1) unfolding set_climb by auto
  qed simp
  moreover have "(r, 0) \<in> set rows" if "r \<in> set (role_ids_of a d)" for r
    using walk_rows_keeps [OF w] that by auto
  ultimately have "(y, n) \<in> set rows" if "r \<in> set (role_ids_of a d)" "(y, r) \<in> edge_set d ^^ n" for y n r
    using that by (metis add_0_right)
  then show "above d (set (role_ids_of a d)) \<subseteq> set rows" by (auto simp: above_def)
qed

lemma ancestor_roles_ends:
  assumes "clear_above d (set (role_ids_of a d))"
  shows "\<exists>rows. ancestor_roles a d = Some rows"
  unfolding ancestor_roles_def Let_def
  by (rule walk_rows_ends [OF finite_above [OF _ assms]]) (auto intro: above_step, auto simp: above_def)

lemma ancestor_roles_loops:
  assumes "\<not> clear_above d (set (role_ids_of a d))"
  shows "ancestor_roles a d = None"
proof (cases "ancestor_roles a d")
  case (Some rows)
  obtain r y where r: "r \<in> set (role_ids_of a d)" "(y, r) \<in> (edge_set d)\<^sup>*" "(y, y) \<in> (edge_set d)\<^sup>+"
    using assms by (auto simp: clear_above_def)
  obtain n k where n: "(y, r) \<in> edge_set d ^^ n" and k: "(y, y) \<in> edge_set d ^^ Suc k"
    using r(2,3) by (metis rtrancl_imp_relpow trancl_power gr0_implies_Suc)
  have "(y, r) \<in> edge_set d ^^ (m * Suc k + n)" for m
  proof (induction m)
    case (Suc m)
    have "(y, r) \<in> edge_set d ^^ (Suc k + (m * Suc k + n))"
      by (subst relpow_add) (use k Suc in blast)
    then show ?case by (simp add: algebra_simps)
  qed (use n in simp)
  then have "(\<lambda>m. (y, m * Suc k + n)) ` UNIV \<subseteq> set rows"
    using ancestor_roles_set [OF Some] r(1) by (auto simp: above_def)
  moreover have "inj (\<lambda>m. (y, m * Suc k + n))" by (rule injI) (simp del: mult_Suc_right)
  ultimately show ?thesis by (meson List.finite_set finite_imageD finite_subset infinite_UNIV_nat)
qed

section \<open>Above and below\<close>

text \<open>\<open>x\<close> occupies a role at or above a role of \<open>a\<close>.\<close>

definition over :: "reg_db \<Rightarrow> string \<Rightarrow> string \<Rightarrow> bool" where
  "over d x a \<longleftrightarrow> (\<exists>r\<in>set (role_ids_of a d). \<exists>y. agent_of d y = Some x \<and> (y, r) \<in> (edge_set d)\<^sup>*)"

lemma role_ids_agent: "schema d \<Longrightarrow> r \<in> set (role_ids_of a d) \<longleftrightarrow> agent_of d r = Some a"
proof -
  assume "schema d"
  then have "(r, w) \<in> set (roles d) \<longleftrightarrow> map_of (roles d) r = Some w" for w
    by (auto simp: schema_defs dest: map_of_SomeD)
  then show ?thesis
    by (force simp: role_ids_of_def roles_of_def agent_of_def occupies_def split: option.splits)
qed

lemma ancestor_ids_set:
  assumes "get_ancestor_ids a d = Some ids"
  shows "x \<in> set ids \<longleftrightarrow> over d x a"
proof -
  obtain rows where rows: "ancestor_roles a d = Some rows"
    "ids = sort_key (occupant_depth d rows) (remdups (List.map_filter (agent_of d \<circ> fst) rows))"
    using assms by (auto simp: get_ancestor_ids_def)
  have "x \<in> set ids \<longleftrightarrow> (\<exists>y n. (y, n) \<in> above d (set (role_ids_of a d)) \<and> agent_of d y = Some x)"
    by (force simp: rows(2) set_map_filter ancestor_roles_set [OF rows(1)])
  also have "\<dots> \<longleftrightarrow> over d x a"
    by (auto simp: over_def above_def rtrancl_power)
  finally show ?thesis .
qed

lemma descendants_set: "x \<in> set (list_descendants a d) \<longleftrightarrow>
    x \<noteq> a \<and> (\<exists>r\<in>set (role_ids_of a d). \<exists>y. agent_of d y = Some x \<and> (r, y) \<in> (edge_set d)\<^sup>*)"
  by (auto simp: list_descendants_def set_map_filter set_descend edge_set_def)

lemma over_below: "schema d \<Longrightarrow> x \<noteq> a \<Longrightarrow> over d x a \<longleftrightarrow> a \<in> set (list_descendants x d)"
  unfolding descendants_set over_def using role_ids_agent [of d] by blast

section \<open>Scopes\<close>

lemma set_push_missing [simp]: "set (push_missing ids extra) = set ids \<union> set extra"
proof (induction extra arbitrary: ids)
  case (Cons s extra)
  have "push_missing ids (s # extra) = push_missing (if s \<in> set ids then ids else ids @ [s]) extra"
    by (simp add: push_missing_def)
  with Cons show ?case by auto
qed (simp add: push_missing_def)

text \<open>The rule of the documentation: who may see a row with anchor \<open>a\<close> (a global row is for everyone).\<close>

fun documented :: "Scope \<Rightarrow> reg_db \<Rightarrow> string \<Rightarrow> string \<Rightarrow> bool" where
  "documented SelfScope d viewer a \<longleftrightarrow> viewer = a \<or> over d viewer a"
| "documented Siblings d viewer a \<longleftrightarrow> viewer = a \<or> over d viewer a \<or> viewer \<in> set (list_siblings a d)"
| "documented Children d viewer a \<longleftrightarrow> viewer = a \<or> over d viewer a \<or> over d a viewer"
| "documented Branch d viewer a \<longleftrightarrow> viewer = a \<or> over d viewer a \<or> viewer \<in> set (list_siblings a d) \<or> over d a viewer"
| "documented Global d viewer a \<longleftrightarrow> True"

text \<open>What the code shows.\<close>

definition shows_row :: "Scope \<Rightarrow> reg_db \<Rightarrow> string \<Rightarrow> string \<Rightarrow> bool" where
  "shows_row sc d viewer a \<longleftrightarrow> sc = Global \<or> (\<exists>ids. visible_agent_ids viewer sc d = Some ids \<and> a \<in> set ids)"

lemma shows_row_eq:
  assumes "get_ancestor_ids viewer d \<noteq> None"
  shows "shows_row SelfScope d viewer a \<longleftrightarrow> over d a viewer"
    and "shows_row Children d viewer a \<longleftrightarrow> over d a viewer"
    and "shows_row Siblings d viewer a \<longleftrightarrow> over d a viewer \<or> a \<in> set (list_siblings viewer d)"
    and "shows_row Branch d viewer a \<longleftrightarrow> over d a viewer \<or> a \<in> set (list_siblings viewer d)"
  using assms ancestor_ids_set [of viewer d] by (auto simp: shows_row_def visible_agent_ids_def)

end
