(* ===== verification/Agent_Tree_Moves.thy ===== *)
theory Agent_Tree_Moves
  imports Agent_Tree
begin

text \<open>
  Hiring, moving and removing agents. The operations keep what the registry operations keep, as long
  as a move stays in the entity and a removed agent has one seat. Removing such an agent
  hangs the roles below it under the roles above it: who is above whom does not change for
  anyone else.
\<close>

section \<open>Taking a node out of a graph\<close>

text \<open>The node's successors become successors of its predecessors.\<close>

definition bridged :: "('a \<times> 'a) set \<Rightarrow> 'a \<Rightarrow> ('a \<times> 'a) set" where
  "bridged E r = E \<union> {(p, c). (p, r) \<in> E \<and> (r, c) \<in> E}"

lemma bridged_reach: "(bridged E r)\<^sup>+ = E\<^sup>+"
proof (rule set_eqI, clarify)
  fix x y
  have "(x, y) \<in> (bridged E r)\<^sup>+ \<Longrightarrow> (x, y) \<in> E\<^sup>+"
    by (erule trancl_induct) (auto simp: bridged_def intro: trancl_trans r_into_trancl)
  moreover have "(x, y) \<in> E\<^sup>+ \<Longrightarrow> (x, y) \<in> (bridged E r)\<^sup>+"
    by (erule trancl_mono) (simp add: bridged_def)
  ultimately show "(x, y) \<in> (bridged E r)\<^sup>+ \<longleftrightarrow> (x, y) \<in> E\<^sup>+" by blast
qed

lemma removed_reach:
  assumes "acyclic E" "x \<noteq> r" "y \<noteq> r"
  shows "(x, y) \<in> {e \<in> bridged E r. fst e \<noteq> r \<and> snd e \<noteq> r}\<^sup>+ \<longleftrightarrow> (x, y) \<in> E\<^sup>+"
    (is "_ \<in> ?G\<^sup>+ \<longleftrightarrow> _")
proof
  assume "(x, y) \<in> ?G\<^sup>+"
  then have "(x, y) \<in> (bridged E r)\<^sup>+" by (rule trancl_mono) auto
  then show "(x, y) \<in> E\<^sup>+" by (simp add: bridged_reach)
next
  have loop: "(r, r) \<notin> E" using assms(1) by (auto simp: acyclic_def)
  assume "(x, y) \<in> E\<^sup>+"
  then have "if y = r then \<exists>p. (p, r) \<in> E \<and> p \<noteq> r \<and> (x, p) \<in> ?G\<^sup>* else (x, y) \<in> ?G\<^sup>+"
  proof (induction rule: trancl_induct)
    case (base y)
    then show ?case using assms(2) by (auto simp: bridged_def)
  next
    case (step y z)
    show ?case
    proof (cases "y = r")
      case True
      then obtain p where p: "(p, r) \<in> E" "p \<noteq> r" "(x, p) \<in> ?G\<^sup>*" using step.IH by auto
      have "z \<noteq> r" using step(2) True loop by auto
      then have "(p, z) \<in> ?G" using p step(2) True by (auto simp: bridged_def)
      with p(3) \<open>z \<noteq> r\<close> show ?thesis by (simp add: rtrancl_into_trancl1)
    next
      case False
      with step.IH have "(x, y) \<in> ?G\<^sup>+" by simp
      moreover have "z \<noteq> r \<Longrightarrow> (y, z) \<in> ?G" using step(2) False by (auto simp: bridged_def)
      ultimately show ?thesis using step(2) False by (auto intro: trancl_into_trancl trancl_into_rtrancl)
    qed
  qed
  with assms(3) show "(x, y) \<in> ?G\<^sup>+" by simp
qed

section \<open>Adding edges\<close>

lemma bindT_reg:
  "(\<And>x d'. m = (Inr x, d') \<Longrightarrow> Q (snd (f x d'))) \<Longrightarrow> Q (snd m) \<Longrightarrow> Q (snd (bindT m f))"
  by (auto simp: bindT_def split: prod.splits sum.splits)

lemma execT_reg: "(\<And>x. f (reg d) = Some x \<Longrightarrow> Q (d\<lparr>reg := x\<rparr>)) \<Longrightarrow> Q d \<Longrightarrow> Q (snd (execT f d))"
  by (auto simp: execT_def split: option.splits)

lemma graft_promote: "graft p rs d = promote (map (Pair p) rs) d"
  by (induction rs arbitrary: d) (auto simp: bindT_def split: prod.splits sum.splits)

lemma promote_ok:
  "(\<And>p c. (p, c) \<in> set es \<Longrightarrow> has (roles (reg d)) p \<and> has (roles (reg d)) c \<and> p \<noteq> c) \<Longrightarrow>
   \<exists>e. promote es d = (Inr (), d\<lparr>reg := (reg d)\<lparr>role_edges := e\<rparr>\<rparr>) \<and> set e = edge_set (reg d) \<union> set es"
proof (induction es arbitrary: d)
  case (Cons x es)
  obtain p c where x: "x = (p, c)" by fastforce
  obtain e where e: "insert_edge p c (reg d) = Some ((reg d)\<lparr>role_edges := e\<rparr>)"
    "set e = insert (p, c) (edge_set (reg d))"
    using Cons.prems [of p c] x insert_edge_ok [of "reg d" p c] by auto
  let ?d = "d\<lparr>reg := (reg d)\<lparr>role_edges := e\<rparr>\<rparr>"
  obtain e' where e': "promote es ?d = (Inr (), ?d\<lparr>reg := (reg ?d)\<lparr>role_edges := e'\<rparr>\<rparr>)"
    "set e' = edge_set (reg ?d) \<union> set es"
    using Cons.IH [of ?d] Cons.prems by auto
  have "promote (x # es) d = (Inr (), d\<lparr>reg := (reg d)\<lparr>role_edges := e'\<rparr>\<rparr>)"
    using e' by (simp add: x bindT_def execT_def e(1))
  moreover have "set e' = edge_set (reg d) \<union> set (x # es)" using e' e(2) x by (auto simp: edge_set_def)
  ultimately show ?case by blast
next
  case (Nil d)
  have "d\<lparr>reg := (reg d)\<lparr>role_edges := role_edges (reg d)\<rparr>\<rparr> = d" by simp
  then show ?case by (auto simp: edge_set_def intro: exI [of _ "role_edges (reg d)"])
qed

context chart_invariant
begin

text \<open>The new edges and the old ones lie in an order \<open>K\<close>.\<close>

lemma promote_keeps:
  "P (reg d) \<Longrightarrow> edge_set (reg d) \<union> set es \<subseteq> K \<Longrightarrow> trans K \<Longrightarrow> irrefl K \<Longrightarrow>
   (\<And>p c. (p, c) \<in> set es \<Longrightarrow> trust_of p (reg d) = trust_of c (reg d)) \<Longrightarrow> P (reg (snd (promote es d)))"
proof (induction es arbitrary: d)
  case (Cons x es)
  obtain p c where x: "x = (p, c)" by fastforce
  have "(edge_set (reg d))\<^sup>+ \<subseteq> K"
    using Cons.prems(2,3) by (metis Un_subset_iff trancl_id trancl_mono_subset)
  moreover have "(p, c) \<in> K" "(c, c) \<notin> K" using Cons.prems(2,4) x by (auto simp: irrefl_def)
  ultimately have down: "(c, p) \<notin> (edge_set (reg d))\<^sup>*"
    using transD [OF Cons.prems(3), of c p c] by (auto simp: rtrancl_eq_or_trancl)
  have "P (reg (snd (promote es (d\<lparr>reg := y\<rparr>))))" if e: "insert_edge p c (reg d) = Some y" for y
  proof (rule Cons.IH)
    show "P (reg (d\<lparr>reg := y\<rparr>))" using Cons.prems(1,5) x down edge [OF e] by simp
    show "edge_set (reg (d\<lparr>reg := y\<rparr>)) \<union> set es \<subseteq> K" "\<And>q b. (q, b) \<in> set es \<Longrightarrow>
        trust_of q (reg (d\<lparr>reg := y\<rparr>)) = trust_of b (reg (d\<lparr>reg := y\<rparr>))"
      using Cons.prems(2,5) x e by (auto elim!: insert_edge_cases simp: edge_set_def trust_of_def)
  qed (use Cons.prems in auto)
  then show ?case using Cons.prems(1) by (simp add: x bindT_def execT_def split: option.split)
qed simp

lemma drop_roles_keeps: "P (reg d) \<Longrightarrow> P (reg (snd (drop_roles rs d)))"
  by (induction rs arbitrary: d) (auto simp: bindT_def execT_def no_roles split: option.splits)

end

section \<open>Hiring\<close>

lemma first_role_in: "first_role rs = Some r \<Longrightarrow> \<exists>w. (r, w) \<in> set rs"
proof -
  assume "first_role rs = Some r"
  then obtain x xs where x: "sort_key (rr_created_at \<circ> snd) rs = x # xs" "r = fst x"
    by (auto simp: first_role_def split: list.splits)
  then have "x \<in> set (sort_key (rr_created_at \<circ> snd) rs)" by (metis list.set_intros(1))
  then have "x \<in> set rs" by simp
  then show ?thesis unfolding x(2) by (metis prod.collapse)
qed

lemma row_trust: "schema d \<Longrightarrow> (r, w) \<in> set (roles d) \<Longrightarrow> trust_of r d = Some (rr_trust_id w)"
  by (auto simp: schema_defs trust_of_def)

text \<open>An edge to a role without edges below it, from another role, cannot close a cycle.\<close>

lemma fresh_below:
  assumes "schema d" "\<not> has (roles d) r" "p \<noteq> r"
  shows "(r, p) \<notin> (edge_set d)\<^sup>*"
proof
  assume "(r, p) \<in> (edge_set d)\<^sup>*"
  then show False
  proof (cases rule: converse_rtranclE)
    case (step y)
    then show False using edge_ends [OF assms(1), of r y] assms(2) by (simp add: edge_set_def)
  qed (use assms(3) in simp)
qed

context chart_invariant
begin

lemma resolve_keeps:
  assumes "P (reg d)" "\<And>d x. P d \<Longrightarrow> P (d\<lparr>entities := entities d @ [x]\<rparr>)"
  shows "P (reg (snd (resolve_entity cname par override slug fresh now d)))"
  using assms by (auto simp: resolve_entity_def insert_entity_def bindT_def Let_def split: option.splits)

lemma spawn_keeps:
  assumes "P (reg d)" "\<And>d x. P d \<Longrightarrow> P (d\<lparr>entities := entities d @ [x]\<rparr>)"
  shows "P (reg (snd (spawn_with_entity_id nm par override slug aid rid fresh now d)))"
  unfolding spawn_with_entity_id_def Let_def
proof (rule bindT_reg [where Q = "\<lambda>d. P (reg d)"], clarify)
  fix t pr d1
  assume r: "resolve_entity (trim nm) par override slug fresh now d = (Inr (t, pr), d1)"
  then have P1: "P (reg d1)" using resolve_keeps [OF assms, of "trim nm" par override slug fresh now] by simp
  have trust: "trust_of p (reg d1) = Some t" if "pr = Some p" for p
  proof -
    have "d1 = d" "\<exists>q. first_role (filter (\<lambda>(_, w). rr_trust_id w = t) (roles_of q (reg d))) = Some p"
      using r that by (auto simp: resolve_entity_def bindT_def Let_def split: option.splits prod.splits sum.splits if_splits)
    then obtain w where "(p, w) \<in> set (roles (reg d))" "rr_trust_id w = t"
      by (auto simp: roles_of_def dest!: first_role_in)
    then show ?thesis using row_trust [OF well_formed [OF assms(1)]] \<open>d1 = d\<close> by simp
  qed
  let ?a = "\<lparr>at_id = aid, at_name = trim nm, at_trust_id = Some t, at_status = ''active'', at_created_at = now\<rparr>"
  let ?row = "fresh_role t (trim nm) Agent (Some aid) Operational False now"
  have "P (reg (snd (bindT (execT (insert_role rid ?row) d2) (\<lambda>_ d. bindT (case pr of None \<Rightarrow> (Inr (), d)
      | Some p \<Rightarrow> execT (insert_edge p rid) d) (\<lambda>_ d. (Inr ?a, d))))))" if "reg d2 = reg d1" for d2
  proof -
    have "P (reg (snd (bindT (execT (insert_edge p rid) (d2\<lparr>reg := x\<rparr>)) (\<lambda>_ d. (Inr ?a, d)))))"
      if i: "insert_role rid ?row (reg d1) = Some x" and p: "pr = Some p" for x p
    proof -
      note n = insert_role_eq [OF i]
      have ne: "p \<noteq> rid" using trust [OF p] n by (auto simp: trust_of_has)
      have "(rid, p) \<notin> (edge_set x)\<^sup>*"
        using fresh_below [OF well_formed [OF P1] _ ne] n by (simp add: edge_set_def)
      moreover have "trust_of p x = trust_of rid x"
        using trust [OF p] trust_of_new_role [OF i ne] n
        by (simp add: trust_of_def map_add_def has_def fresh_role_def)
      ultimately have "P y" if "insert_edge p rid x = Some y" for y
        using edge [OF that role [OF i P1]] by simp
      then show ?thesis using role [OF i P1] by (simp add: bindT_def execT_def split: option.split)
    qed
    then show ?thesis using role [OF _ P1] P1 that
      by (auto simp: bindT_def execT_def split: option.split)
  qed
  then show "P (reg (snd (bindT (insert_agent ?a d1) (\<lambda>_ d. bindT (execT (insert_role rid ?row) d) (\<lambda>_ d.
      bindT (case pr of None \<Rightarrow> (Inr (), d) | Some p \<Rightarrow> execT (insert_edge p rid) d) (\<lambda>_ d. (Inr ?a, d)))))))"
    using P1 by (simp add: bindT_def insert_agent_def)
qed (rule resolve_keeps [OF assms])

end

section \<open>Moving\<close>

lemma get_subtree_set:
  "x \<in> set (get_subtree a d) \<longleftrightarrow> x \<in> set (agents d) \<and>
     (\<exists>r\<in>set (role_ids_of (at_id x) (reg d)). \<exists>s\<in>set (role_ids_of a (reg d)). (s, r) \<in> (edge_set (reg d))\<^sup>*)"
  by (auto simp: get_subtree_def Let_def list_ex_iff set_descend edge_set_def)

lemma tree_agent_in: "tree_agent p d \<noteq> None \<Longrightarrow> \<exists>x\<in>set (agents d). at_id x = p"
  by (auto simp: tree_agent_def find_None_iff)

lemma roles_of_same: "roles d' = roles d \<Longrightarrow> roles_of a d' = roles_of a d"
  by (simp add: roles_of_def)

context chart_invariant
begin

lemma move_keeps:
  assumes "P (reg d)" "acyclic (edge_set (reg d))"
    and target: "\<And>p. new_parent = Some p \<Longrightarrow> tree_agent p d \<noteq> None \<and>
      (\<forall>r\<in>set (role_ids_of a (reg d)). \<forall>q\<in>set (role_ids_of p (reg d)). trust_of q (reg d) = trust_of r (reg d))"
  shows "P (reg (snd (move_agent a new_parent d)))"
proof -
  let ?R = "set (role_ids_of a (reg d))"
  let ?d = "d\<lparr>reg := delete_edges (\<lambda>(_, c). c \<in> ?R) (reg d)\<rparr>"
  have P1: "P (reg ?d)" using assms(1) by (simp add: no_edges)
  have "P (reg (snd (graft pr (role_ids_of a (reg d)) ?d)))"
    if n: "new_parent = Some p" and below: "\<not> list_ex (\<lambda>x. at_id x = p) (get_subtree a d)"
      and pr: "first_role (roles_of p (reg ?d)) = Some pr" for p pr
  proof -
    let ?E = "edge_set (reg ?d)"
    have q: "pr \<in> set (role_ids_of p (reg d))"
      using first_role_in [OF pr] roles_of_same [of "reg ?d" "reg d" p] by (force simp: role_ids_of_def)
    obtain x where x: "x \<in> set (agents d)" "at_id x = p" using target [OF n] tree_agent_in by blast
    have "x \<notin> set (get_subtree a d)" using below x(2) by (auto simp: list_ex_iff)
    then have "pr \<notin> (edge_set (reg d))\<^sup>* `` ?R" using x q unfolding get_subtree_set by blast
    moreover have sub: "?E \<subseteq> edge_set (reg d)" using edge_set_delete by simp
    ultimately have out: "pr \<notin> ?E\<^sup>* `` ?R" using rtrancl_mono [OF sub] by blast
    have "acyclic (?E \<union> {pr} \<times> ?R)"
      by (rule acyclic_regraft [OF acyclic_subset [OF assms(2) sub] subset_refl out])
    then have "irrefl ((?E \<union> {pr} \<times> ?R)\<^sup>+)" by (simp add: acyclic_irrefl)
    moreover have "?E \<union> set (map (Pair pr) (role_ids_of a (reg d))) \<subseteq> (?E \<union> {pr} \<times> ?R)\<^sup>+" by auto
    moreover have "trust_of x (reg ?d) = trust_of y (reg ?d)"
      if "(x, y) \<in> set (map (Pair pr) (role_ids_of a (reg d)))" for x y
      using that target [OF n] q by auto
    ultimately show ?thesis unfolding graft_promote
      by (intro promote_keeps [OF P1 _ trans_trancl])
  qed
  then show ?thesis using assms(1) P1
    by (cases new_parent) (simp_all add: move_agent_def Let_def split: option.split)
qed

end

section \<open>Removing\<close>

text \<open>The edges after the roles above the seat \<open>r\<close> have been joined with those below it.\<close>

definition bridges :: "string \<Rightarrow> reg_db \<Rightarrow> (string \<times> string) list" where
  "bridges r d =
     (let es = role_edges d;
          parents = remdups (map fst (filter (\<lambda>(_, c). c \<in> set [r]) es));
          children = remdups (map snd (filter (\<lambda>(p, _). p \<in> set [r]) es))
      in concat (map (\<lambda>c. map (\<lambda>p. (p, c)) parents) children))"

lemma bridges_set: "set (bridges r d) = {(p, c). (p, r) \<in> edge_set d \<and> (r, c) \<in> edge_set d}"
proof -
  have "set (map fst (filter (\<lambda>(_, c). c = r) es)) = {p. (p, r) \<in> set es}" for es :: "(string \<times> string) list"
    by (auto simp: image_iff)
  moreover have "set (map snd (filter (\<lambda>(p, _). p = r) es)) = {c. (r, c) \<in> set es}" for es :: "(string \<times> string) list"
    by (auto simp: image_iff)
  ultimately show ?thesis unfolding bridges_def Let_def edge_set_def by auto
qed

lemma delete_agent_seat:
  assumes "role_ids_of a (reg d) = [r]"
  shows "delete_agent a False d = bindT (promote (bridges r (reg d)) d) (\<lambda>_ d.
    bindT (execT (delete_roles (\<lambda>(x, _). x = r)) d) (\<lambda>_ d.
    let rest = filter (\<lambda>x. at_id x \<noteq> a) (agents d); n = length (agents d) - length rest in
    if n = 0 then (Inl (AgentNotFound a), d) else (Inr n, d\<lparr>agents := rest\<rparr>)))"
proof -
  have "bindT (bindT m (\<lambda>_ d. (Inr (), d))) k = bindT m k" for m and k :: "unit \<Rightarrow> org_db \<Rightarrow> nat tree"
    by (auto simp: bindT_def split: prod.splits sum.splits)
  moreover have "drop_roles [] = (\<lambda>d. (Inr (), d))" by (intro ext) simp
  ultimately show ?thesis unfolding delete_agent_def Let_def bridges_def assms by simp
qed

lemma delete_one_role:
  assumes "distinct (map fst (roles d))" "has (roles d) r"
  shows "delete_roles (\<lambda>(x, _). x = r) d =
    (if role_referenced d r then None else Some (d\<lparr>roles := filter (\<lambda>x. fst x \<noteq> r) (roles d),
       role_grants := filter (\<lambda>g. fst g \<noteq> r) (role_grants d),
       role_edges := filter (\<lambda>e. fst e \<noteq> r \<and> snd e \<noteq> r) (role_edges d)\<rparr>))"
proof -
  have g: "set (map fst (filter (\<lambda>(x, _). x = r) (roles d))) = {r}"
    using assms(2) by (force simp: has_set)
  moreover have "list_ex (role_referenced d) (map fst (filter (\<lambda>(x, _). x = r) (roles d))) = role_referenced d r"
    unfolding list_ex_iff g by simp
  ultimately show ?thesis unfolding delete_roles_def Let_def by (simp add: case_prod_beta)
qed

lemma delete_agent_result:
  assumes "chart_ok (reg d)" "role_ids_of a (reg d) = [r]" "tree_agent a d \<noteq> None"
  shows "\<exists>e. set e = bridged (edge_set (reg d)) r \<and>
    (if role_referenced (reg d) r
     then delete_agent a False d = (Inl Statement_Failed, d\<lparr>reg := (reg d)\<lparr>role_edges := e\<rparr>\<rparr>)
     else \<exists>n. delete_agent a False d = (Inr n, d\<lparr>reg := (reg d)\<lparr>role_edges := filter (\<lambda>e. fst e \<noteq> r \<and> snd e \<noteq> r) e,
         roles := filter (\<lambda>x. fst x \<noteq> r) (roles (reg d)),
         role_grants := filter (\<lambda>g. fst g \<noteq> r) (role_grants (reg d))\<rparr>,
       agents := filter (\<lambda>x. at_id x \<noteq> a) (agents d)\<rparr>))"
proof -
  have S: "schema (reg d)" "acyclic (edge_set (reg d))" using assms(1) by (auto dest: chart_okD)
  have "p \<noteq> c" if "(p, r) \<in> edge_set (reg d)" "(r, c) \<in> edge_set (reg d)" for p c
    using that S(2) unfolding acyclic_def by (metis r_into_trancl trancl.trancl_into_trancl)
  then have "has (roles (reg d)) p \<and> has (roles (reg d)) c \<and> p \<noteq> c" if "(p, c) \<in> set (bridges r (reg d))" for p c
    using that edge_ends [OF S(1)] unfolding bridges_set edge_set_def by auto
  then obtain e where e: "promote (bridges r (reg d)) d = (Inr (), d\<lparr>reg := (reg d)\<lparr>role_edges := e\<rparr>\<rparr>)"
    "set e = edge_set (reg d) \<union> set (bridges r (reg d))"
    using promote_ok by blast
  have seat: "has (roles (reg d)) r"
  proof -
    have "r \<in> set (role_ids_of a (reg d))" by (simp add: assms(2))
    then show ?thesis by (force simp: role_ids_of_def roles_of_def has_set)
  qed
  have ref: "role_referenced ((reg d)\<lparr>role_edges := e\<rparr>) r = role_referenced (reg d) r"
    by (simp add: role_referenced_def)
  have "length (filter (\<lambda>x. at_id x \<noteq> a) (agents d)) < length (agents d)"
    using tree_agent_in [OF assms(3)] by (auto intro!: length_filter_less)
  moreover have "distinct (map fst (roles (reg d)))" using S(1) by (simp add: schema_defs)
  ultimately have "if role_referenced (reg d) r
     then delete_agent a False d = (Inl Statement_Failed, d\<lparr>reg := (reg d)\<lparr>role_edges := e\<rparr>\<rparr>)
     else \<exists>n. delete_agent a False d = (Inr n, d\<lparr>reg := (reg d)\<lparr>role_edges := filter (\<lambda>e. fst e \<noteq> r \<and> snd e \<noteq> r) e,
         roles := filter (\<lambda>x. fst x \<noteq> r) (roles (reg d)),
         role_grants := filter (\<lambda>g. fst g \<noteq> r) (role_grants (reg d))\<rparr>,
       agents := filter (\<lambda>x. at_id x \<noteq> a) (agents d)\<rparr>)"
    using delete_one_role [of "(reg d)\<lparr>role_edges := e\<rparr>" r] seat
    by (simp add: delete_agent_seat [OF assms(2)] e(1) bindT_def execT_def ref Let_def)
  moreover have "set e = bridged (edge_set (reg d)) r" by (auto simp: e(2) bridges_set bridged_def)
  ultimately show ?thesis by blast
qed

context chart_invariant
begin

lemma delete_seat_keeps:
  assumes "P (reg d)" "acyclic (edge_set (reg d))" "chart_local (reg d)" "role_ids_of a (reg d) = [r]"
  shows "P (reg (snd (delete_agent a False d)))"
  unfolding delete_agent_seat [OF assms(4)] Let_def
proof (intro bindT_reg [where Q = "\<lambda>d. P (reg d)"])
  have "irrefl ((edge_set (reg d))\<^sup>+)" using assms(2) by (simp add: acyclic_irrefl)
  moreover have "edge_set (reg d) \<union> set (bridges r (reg d)) \<subseteq> (edge_set (reg d))\<^sup>+"
    by (auto simp: bridges_set)
  moreover have "trust_of p (reg d) = trust_of c (reg d)" if "(p, c) \<in> set (bridges r (reg d))" for p c
  proof -
    have e: "(p, r) \<in> edge_set (reg d)" "(r, c) \<in> edge_set (reg d)" using that by (auto simp: bridges_set)
    have "trust_of x (reg d) = trust_of y (reg d)" if "(x, y) \<in> edge_set (reg d)" for x y
      using assms(3) that by (auto simp: chart_local_def)
    from this [OF e(1)] this [OF e(2)] show ?thesis by simp
  qed
  ultimately show p: "P (reg (snd (promote (bridges r (reg d)) d)))"
    by (intro promote_keeps [OF assms(1) _ trans_trancl])
  fix x :: unit and d1 assume "promote (bridges r (reg d)) d = (Inr x, d1)"
  then have P1: "P (reg d1)" using p by simp
  then show "P (reg (snd (execT (delete_roles (\<lambda>(x, _). x = r)) d1)))"
    by (auto simp: execT_def intro: no_roles split: option.splits)
  fix y :: unit and d2 assume "execT (delete_roles (\<lambda>(x, _). x = r)) d1 = (Inr y, d2)"
  then have "P (reg d2)" using P1 no_roles by (auto simp: execT_def split: option.splits)
  then show "P (reg (snd (if length (agents d2) - length (filter (\<lambda>x. at_id x \<noteq> a) (agents d2)) = 0
      then (Inl (AgentNotFound a), d2) else (Inr (length (agents d2) - length (filter (\<lambda>x. at_id x \<noteq> a) (agents d2))),
        d2\<lparr>agents := filter (\<lambda>x. at_id x \<noteq> a) (agents d2)\<rparr>))))"
    by simp
qed

lemma delete_cascade_keeps: "P (reg d) \<Longrightarrow> P (reg (snd (delete_agent a True d)))"
  by (auto simp: delete_agent_def Let_def bindT_def execT_def intro: no_roles split: option.splits)

end

section \<open>The operations as steps\<close>

text \<open>
  A move stays in the entity and names a parent that exists; an agent removed on its own has one seat.
\<close>

definition joins_locally :: "string \<Rightarrow> string option \<Rightarrow> org_db \<Rightarrow> bool" where
  "joins_locally a new_parent d \<longleftrightarrow> (\<forall>p. new_parent = Some p \<longrightarrow> tree_agent p d \<noteq> None \<and>
     (\<forall>r\<in>set (role_ids_of a (reg d)). \<forall>q\<in>set (role_ids_of p (reg d)). trust_of q (reg d) = trust_of r (reg d)))"

inductive tree_op :: "org_db \<Rightarrow> org_db \<Rightarrow> bool" where
  "role_op (reg d) x \<Longrightarrow> tree_op d (d\<lparr>reg := x\<rparr>)"
| "tree_op d (snd (spawn_with_entity_id nm par override slug aid rid fresh now d))"
| "joins_locally a new_parent d \<Longrightarrow> tree_op d (snd (move_agent a new_parent d))"
| "role_ids_of a (reg d) = [r] \<Longrightarrow> tree_op d (snd (delete_agent a False d))"
| "tree_op d (snd (delete_agent a True d))"

context chart_invariant
begin

lemma tree_op_keeps:
  assumes "tree_op d d'" "P (reg d)" "chart_ok (reg d)" "chart_local (reg d)"
    and "\<And>d x. P d \<Longrightarrow> P (d\<lparr>entities := entities d @ [x]\<rparr>)"
  shows "P (reg d')"
  using assms(1)
proof cases
  case (1 x)
  then show ?thesis using role_op_keeps assms(2) by simp
next
  case 3
  then show ?thesis using assms(2,3) by (auto simp: joins_locally_def intro!: move_keeps dest: chart_okD)
next
  case (4 a r)
  then show ?thesis using assms(2,3,4) by (auto intro!: delete_seat_keeps dest: chart_okD)
qed (use assms(2,5) spawn_keeps delete_cascade_keeps in auto)

end

lemma more_entities: "schema (d\<lparr>entities := x\<rparr>) = schema d" "edge_set (d\<lparr>entities := x\<rparr>) = edge_set d"
  "trust_of r (d\<lparr>entities := x\<rparr>) = trust_of r d"
  by (simp_all add: schema_defs edge_set_def trust_of_def)

lemma tree_run_keeps:
  assumes "tree_op\<^sup>*\<^sup>* d d'" "chart_ok (reg d)" "chart_local (reg d)"
  shows "chart_ok (reg d') \<and> chart_local (reg d')"
  using assms
proof (induction rule: rtranclp_induct)
  case (step y z)
  then have "chart_ok (reg y)" "chart_local (reg y)" by auto
  then show ?case using chart.tree_op_keeps [OF step(2)] chart_entity.tree_op_keeps [OF step(2)]
    by (simp add: chart_ok_def chart_local_def more_entities)
qed simp

end
