(* ===== verification/Role_Properties.thy ===== *)
theory Role_Properties
  imports Role_Commands Agent_Tree_Walks Agent_Tree_Moves
begin

text \<open>
  The properties of the org chart: what every history of operations keeps, what replacing edges
  and removing an agent do, what the gates decide, and where the upward walk returns. The last
  sections run requests on a small company in which the code does what its callers would not
  expect.
\<close>

section \<open>A small company\<close>

text \<open>Three people and an agent in one line; the director and the manager manage roles.\<close>

definition demo_org :: reg_db where
  "demo_org = \<lparr>entities = [(''t'', Some 0)],
     roles = [(''d'', fresh_role ''t'' ''Director'' Human (Some ''ann'') Director True 0),
       (''m'', fresh_role ''t'' ''Manager'' Human (Some ''bob'') Operational False 1),
       (''l'', fresh_role ''t'' ''Lead'' Human (Some ''cal'') Operational False 2),
       (''w'', fresh_role ''t'' ''Worker'' Agent (Some ''a'') Operational False 3)],
     role_grants = [(''d'', ''roles.manage''), (''m'', ''roles.manage''), (''l'', ''roles.manage'')],
     role_edges = [(''d'', ''m''), (''m'', ''l''), (''l'', ''w'')],
     budgets = [], allowances = [], policies = [], events = [], configs = [], next_event = 1\<rparr>"

definition demo_rank :: "string \<Rightarrow> nat" where
  "demo_rank r = (if r = ''d'' then 3 else if r = ''m'' then 2 else if r = ''l'' then 1 else 0)"

lemma ranked_acyclic: "list_all (\<lambda>(p, c). f c < (f p :: nat)) (role_edges d) \<Longrightarrow> acyclic (edge_set d)"
  by (rule acyclicI_order [of _ f]) (auto simp: edge_set_def list_all_iff)

lemma demo_org_ok: "schema demo_org" "chart_ok demo_org" "chart_local demo_org" "rails_ok demo_org"
proof -
  show s: "schema demo_org" by code_simp
  have "list_all (\<lambda>(p, c). demo_rank c < demo_rank p) (role_edges demo_org)" by code_simp
  then have "acyclic (edge_set demo_org)" by (rule ranked_acyclic)
  moreover have "\<forall>(_, w)\<in>set (roles demo_org). role_row_ok w" by code_simp
  ultimately show "chart_ok demo_org" using s by (simp add: chart_ok_def)
  have "\<forall>(p, c)\<in>set (role_edges demo_org). trust_of p demo_org = trust_of c demo_org" by code_simp
  then show "chart_local demo_org" using s by (simp add: chart_local_def edge_set_def)
  show "rails_ok demo_org" by code_simp
qed

definition demo_tree :: org_db where
  "demo_tree = \<lparr>reg = demo_org, agents = [\<lparr>at_id = ''a'', at_name = ''Worker'', at_trust_id = Some ''t'',
     at_status = ''active'', at_created_at = 3\<rparr>], slugs = []\<rparr>"

definition demo_req :: "string \<Rightarrow> string \<Rightarrow> (string \<times> json) list \<Rightarrow> json" where
  "demo_req who r xs = JObject ([(''caller_user_id'', JString who), (''role_id'', JString r)] @ xs)"

section \<open>The code and its callers\<close>

lemma self_promotion:
  "let req = demo_req ''bob'' ''m'' [(''role_type'', JString ''director'')]; (x, d') = handle_update_role req (\<lambda>_. 9) demo_org in
   \<not> isl x \<and> \<not> user_can_create_root_role ''t'' ''bob'' demo_org \<and> user_can_create_root_role ''t'' ''bob'' d'"
  by code_simp

lemma secession:
  "let req = demo_req ''cal'' ''l'' [(''parent_role_ids'', JArray [])]; (x, d') = handle_update_role_edges req (\<lambda>_. 9) demo_org in
   \<not> isl x \<and> user_can_manage_role ''t'' ''bob'' ''l'' demo_org \<and> \<not> user_can_manage_role ''t'' ''bob'' ''l'' d'"
  by code_simp

text \<open>A role is created for an occupant that has one: the row is adopted and hung below its own subordinate.\<close>

definition demo_adopted :: reg_db where
  "demo_adopted = snd (handle_create_role None (JObject [(''caller_user_id'', JString ''bob''), (''trust_id'', JString ''t''),
     (''title'', JString ''Manager''), (''parent_role_id'', JString ''l''), (''occupant_kind'', JString ''human''),
     (''occupant_id'', JString ''bob'')]) ''x'' (\<lambda>_. 9) demo_org)"

lemma adoption_edges: "edge_set demo_adopted = {(''d'', ''m''), (''m'', ''l''), (''l'', ''w''), (''l'', ''m'')}"
proof -
  have "role_edges demo_adopted = [(''d'', ''m''), (''m'', ''l''), (''l'', ''w''), (''l'', ''m'')]" by code_simp
  then show ?thesis by (auto simp: edge_set_def)
qed

lemma adoption_closes_cycle: "\<not> acyclic (edge_set demo_adopted)" "get_ancestor_ids ''a'' demo_adopted = None"
proof -
  have "(''l'', ''m'') \<in> edge_set demo_adopted" "(''m'', ''l'') \<in> edge_set demo_adopted"
    and w: "(''l'', ''w'') \<in> edge_set demo_adopted" by (simp_all add: adoption_edges)
  then have c: "(''l'', ''l'') \<in> (edge_set demo_adopted)\<^sup>+" by (meson r_into_trancl trancl_into_trancl)
  then show "\<not> acyclic (edge_set demo_adopted)" by (auto simp: acyclic_def)
  have "role_ids_of ''a'' demo_adopted = [''w'']" by code_simp
  then have "\<not> clear_above demo_adopted (set (role_ids_of ''a'' demo_adopted))"
    using c w by (auto simp: clear_above_def)
  then show "get_ancestor_ids ''a'' demo_adopted = None"
    by (simp add: get_ancestor_ids_def ancestor_roles_loops)
qed

text \<open>The two halves of a change of edges commit on their own: the first stays when the second fails.\<close>

lemma half_a_rewiring:
  "let req = demo_req ''ann'' ''w'' [(''parent_role_ids'', JArray [JString ''m'']), (''child_role_ids'', JArray [JString ''d''])];
     (x, d') = handle_update_role_edges req (\<lambda>_. 9) demo_org in
   isl x \<and> parents_of (role_edges demo_org) ''w'' = [''l''] \<and> parents_of (role_edges d') ''w'' = [''m'']"
  by code_simp

text \<open>A trust that takes over a role does not join the sessions of the role: its kind is not known to them.\<close>

lemma trust_stays_outside:
  "let req = demo_req ''ann'' ''l'' [(''occupant_kind'', JString ''trust''), (''occupant_id'', JString ''u'')];
     s = \<lparr>sessions = [\<lparr>sn_id = ''s'', sn_target_role_id = Some ''l'', sn_status = ''active''\<rparr>],
       participants = [\<lparr>pa_session_id = ''s'', pa_kind = ''user'', pa_id = ''cal'', pa_joined_by = None\<rparr>],
       messages = []\<rparr>;
     ((x, d'), s') = handle_change_occupant req 9 (Some s) demo_org in
   \<not> isl x \<and> map_option participants s' = Some []"
  by code_simp

text \<open>A hire takes any role of the database as the parent of the new one, another entity's included.\<close>

lemma hire_crosses_entities:
  "let (x, d') = hire ''b'' ''s'' demo_spec (demo_bundle 10) ''r'' None None ''q'' ''n'' (\<lambda>_. 1) (demo_reg False) in
   \<not> isl x \<and> (''s'', ''q'') \<in> set (role_edges d') \<and> trust_of ''s'' d' = Some ''u'' \<and> trust_of ''q'' d' = Some ''t''"
  by code_simp

text \<open>
  A move under an agent without a role removes the edges above before it fails; so the agent is cut off.
\<close>

lemma move_cuts_off:
  "let (x, d') = move_agent ''a'' (Some ''z'') demo_tree in
   x = Inl (NewParentHasNoRole ''z'') \<and> role_edges (reg d') = [(''d'', ''m''), (''m'', ''l'')]"
  by code_simp

text \<open>
  An agent with two seats and a role between them: its removal tries to hang that role under itself
  and stops, with the agent and both seats in place.
\<close>

definition demo_seats :: org_db where
  "demo_seats = \<lparr>reg = demo_org\<lparr>roles := roles demo_org @ [(''v'', fresh_role ''t'' ''Helper'' Agent (Some ''a'') Operational False 4),
     (''y'', fresh_role ''t'' ''Between'' Vacant None Operational False 5)],
     role_edges := role_edges demo_org @ [(''w'', ''y''), (''y'', ''v'')]\<rparr>,
     agents = agents demo_tree, slugs = []\<rparr>"

lemma two_seats_stay:
  "let (x, d') = delete_agent ''a'' False demo_seats in
   x = Inl Statement_Failed \<and> agents d' = agents demo_seats \<and> roles (reg d') = roles (reg demo_seats)"
  by code_simp

text \<open>With two roles between the seats it goes through, and leaves an edge from the lower one to the upper one.\<close>

definition demo_loop :: org_db where
  "demo_loop = \<lparr>reg = demo_org\<lparr>roles := roles demo_org @ [(''v'', fresh_role ''t'' ''Helper'' Agent (Some ''a'') Operational False 4),
     (''y'', fresh_role ''t'' ''Upper'' Vacant None Operational False 5), (''z'', fresh_role ''t'' ''Lower'' Vacant None Operational False 6)],
     role_edges := [(''z'', ''v''), (''y'', ''z''), (''w'', ''y'')]\<rparr>,
     agents = agents demo_tree, slugs = []\<rparr>"

lemma removal_closes_cycle:
  "let (x, d') = delete_agent ''a'' False demo_loop in
   \<not> isl x \<and> set (role_edges (reg d')) = {(''y'', ''z''), (''z'', ''y'')}"
  by code_simp

text \<open>
  The agent below sees what is scoped to the agent above alone, and the one above does not see what is
  scoped to the one below: the direction of the rule is reversed.
\<close>

definition demo_pair :: reg_db where
  "demo_pair = demo_org\<lparr>roles := [(''d'', fresh_role ''t'' ''Boss'' Agent (Some ''b'') Operational False 0),
     (''w'', fresh_role ''t'' ''Worker'' Agent (Some ''a'') Operational False 1)], role_grants := [],
     role_edges := [(''d'', ''w'')]\<rparr>"

lemma demo_pair_over: "over demo_pair ''b'' ''a''" "\<not> over demo_pair ''a'' ''b''"
proof -
  have e: "role_edges demo_pair = [(''d'', ''w'')]" by code_simp
  have r: "role_ids_of ''a'' demo_pair = [''w'']" "role_ids_of ''b'' demo_pair = [''d'']"
    and o: "agent_of demo_pair ''d'' = Some ''b''" by code_simp+
  have "(''d'', ''w'') \<in> (edge_set demo_pair)\<^sup>*"
    by (rule r_into_rtrancl) (simp add: edge_set_def e)
  then show "over demo_pair ''b'' ''a''" using r o by (auto simp: over_def)
  have "y = ''d''" if "(y, ''d'') \<in> (edge_set demo_pair)\<^sup>*" for y
    using that by (rule rtranclE) (simp_all add: edge_set_def e)
  then have "agent_of demo_pair y = Some ''b''" if "(y, ''d'') \<in> (edge_set demo_pair)\<^sup>*" for y
    using that o by blast
  then show "\<not> over demo_pair ''a'' ''b''" using r by (auto simp: over_def)
qed

lemma acyclic_ancestors:
  assumes "acyclic (edge_set d)"
  shows "get_ancestor_ids a d \<noteq> None"
proof -
  have "clear_above d (set (role_ids_of a d))" using assms by (auto simp: clear_above_def acyclic_def)
  then show ?thesis using ancestor_roles_ends by (auto simp: get_ancestor_ids_def)
qed

lemma scope_reversed:
  "shows_row SelfScope demo_pair ''a'' ''b'' \<and> \<not> documented SelfScope demo_pair ''a'' ''b''"
  "\<not> shows_row SelfScope demo_pair ''b'' ''a'' \<and> documented SelfScope demo_pair ''b'' ''a''"
proof -
  have "list_all (\<lambda>(p, c). demo_rank c < demo_rank p) (role_edges demo_pair)" by code_simp
  then have "acyclic (edge_set demo_pair)" by (rule ranked_acyclic)
  note shows_row_eq(1) [OF acyclic_ancestors [OF this]]
  then show "shows_row SelfScope demo_pair ''a'' ''b'' \<and> \<not> documented SelfScope demo_pair ''a'' ''b''"
    "\<not> shows_row SelfScope demo_pair ''b'' ''a'' \<and> documented SelfScope demo_pair ''b'' ''a''"
    using demo_pair_over by simp_all
qed

section \<open>What every history keeps\<close>

text \<open>
  C34. The org chart stays sound: from a database that satisfies the schema, whose edges form no cycle,
  whose rows of roles satisfy the checks of their table and whose allowances are not overspent, after
  any sequence of operations of the role registry, operations of the budget registry and commands on
  roles, failed ones included, all of this still holds. Where the code checks nothing, the callers owe a
  condition: \<open>add_edge\<close> is given a child that is not above the parent, both roles of one entity; a
  request to create a role for an occupant that has one does not name a parent below that one; and the
  amounts of a budget operation are non-negative, the rails of a bundle summing to less than 2^63.
\<close>

theorem org_chart_sound:
  assumes "org_step\<^sup>*\<^sup>* d d'" "chart_ok d" "rails_ok d"
  shows "schema d' \<and> acyclic (edge_set d') \<and> (\<forall>(_, w)\<in>set (roles d'). role_row_ok w) \<and> rails_ok d'"
  using org_steps_keep [OF assms] by (simp add: chart_ok_def)

theorem org_chart_sound_witness:
  "acyclic (edge_set (snd (handle_update_role_edges (demo_req ''ann'' ''w'' [(''parent_role_ids'', JArray [JString ''m''])])
     (\<lambda>_. 9) (snd (set_parent_edges ''w'' [''d''] 9 demo_org)))))"
proof -
  have "org_step demo_org (snd (set_parent_edges ''w'' [''d''] 9 demo_org))"
    by (intro org_step.intros(1) org_op.intros(1) role_op.intros)
  moreover have "org_step d (snd (handle_update_role_edges (demo_req ''ann'' ''w'' [(''parent_role_ids'', JArray [JString ''m''])])
     (\<lambda>_. 9) d))" for d by (rule org_step.intros)
  ultimately have "org_step\<^sup>*\<^sup>* demo_org (snd (handle_update_role_edges (demo_req ''ann'' ''w''
     [(''parent_role_ids'', JArray [JString ''m''])]) (\<lambda>_. 9) (snd (set_parent_edges ''w'' [''d''] 9 demo_org))))"
    by (blast intro: rtranclp.intros)
  from org_chart_sound [OF this demo_org_ok(2,4)] show ?thesis by blast
qed

text \<open>
  C35. Hiring, moving and removing agents keep the chart as well: from a chart without cycles and without
  edges between entities, in a database that satisfies the schema and the checks of its tables, over any
  sequence of role operations, spawns, moves that stay in an entity and name an agent that exists,
  removals of agents with exactly one seat and removals of whole branches, the schema holds, the edges
  never form a cycle and never lead from one entity to another. Among the role operations \<open>add_edge\<close>,
  which checks neither, is called as its callers owe it: the child is not above the parent and both
  are roles of one entity.
\<close>

theorem agent_tree_sound:
  assumes "tree_op\<^sup>*\<^sup>* d d'" "chart_ok (reg d)" "chart_local (reg d)"
  shows "acyclic (edge_set (reg d')) \<and> schema (reg d') \<and>
    (\<forall>(p, c)\<in>edge_set (reg d'). trust_of p (reg d') = trust_of c (reg d'))"
  using tree_run_keeps [OF assms] by (simp add: chart_ok_def chart_local_def)

theorem agent_tree_sound_witness:
  "acyclic (edge_set (reg (snd (spawn_with_entity_id ''Aid'' (Some ''a'') None None ''b'' ''x'' ''e'' 7 demo_tree))))"
proof -
  have "tree_op demo_tree (snd (spawn_with_entity_id ''Aid'' (Some ''a'') None None ''b'' ''x'' ''e'' 7 demo_tree))"
    by (rule tree_op.intros)
  from agent_tree_sound [OF r_into_rtranclp [of tree_op, OF this]] demo_org_ok(2,3) show ?thesis
    by (simp add: demo_tree_def)
qed

section \<open>Replacing edges\<close>

text \<open>
  C36. Replacing the edges above or below a role is exact on a sound chart: the database satisfies the
  schema, its rows of roles pass the checks of their table and its edges form no cycle (the code only
  looks for cycles through the role, so one that is already elsewhere would stay). The ids that are not empty are the new
  parents (children). The operation succeeds exactly when the role and all of them are roles of one
  entity and the new graph has no cycle; then the edges are the old ones with those above (below) the role
  replaced, and nothing else is different but the time on the role. Otherwise it fails and the database is
  untouched.
\<close>

theorem edges_replaced_exactly:
  assumes "chart_ok d" "N = set ids - {[]}"
  shows "(if (\<exists>t. trust_of r d = Some t \<and> (\<forall>p\<in>N. trust_of p d = Some t)) \<and> acyclic (with_parents (edge_set d) r N)
      then \<exists>e. set_parent_edges r ids now d = (Inr (), rewired r e now d) \<and> set e = with_parents (edge_set d) r N
      else \<exists>m. set_parent_edges r ids now d = (Inl (Message m), d)) \<and>
    (if (\<exists>t. trust_of r d = Some t \<and> (\<forall>c\<in>N. trust_of c d = Some t)) \<and> acyclic (with_children (edge_set d) r N)
      then \<exists>e. set_child_edges r ids now d = (Inr (), rewired r e now d) \<and> set e = with_children (edge_set d) r N
      else \<exists>m. set_child_edges r ids now d = (Inl (Message m), d))"
  by (rule conjI [OF set_parent_edges_result set_child_edges_result]; rule assms)

theorem edges_replaced_exactly_witness:
  "\<exists>e. set_parent_edges ''w'' [''m'', []] 9 demo_org = (Inr (), rewired ''w'' e 9 demo_org) \<and>
     set e = {(''d'', ''m''), (''m'', ''l''), (''m'', ''w'')}"
proof -
  have e: "edge_set demo_org = {(''d'', ''m''), (''m'', ''l''), (''l'', ''w'')}"
    by (auto simp: edge_set_def demo_org_def)
  have w: "with_parents (edge_set demo_org) ''w'' {''m''} = {(''d'', ''m''), (''m'', ''l''), (''m'', ''w'')}"
    unfolding with_parents_def e by auto
  have "acyclic (with_parents (edge_set demo_org) ''w'' {''m''})"
    unfolding w by (rule acyclicI_order [of _ demo_rank]) (auto simp: demo_rank_def)
  moreover have "trust_of ''w'' demo_org = Some ''t''" "trust_of ''m'' demo_org = Some ''t''" by code_simp+
  ultimately have c: "(\<exists>t. trust_of ''w'' demo_org = Some t \<and> (\<forall>p\<in>{''m''}. trust_of p demo_org = Some t)) \<and>
      acyclic (with_parents (edge_set demo_org) ''w'' {''m''})" by simp
  have "{''m''} = set [''m'', []] - {[]}" by code_simp
  from conjunct1 [OF edges_replaced_exactly [OF demo_org_ok(2) this, of "''w''" 9]] show ?thesis
    unfolding if_P [OF c] unfolding w .
qed

section \<open>Authority\<close>

text \<open>
  C37. The gates decide chains of authority. In a database that satisfies the schema and whose edges stay
  inside the entities, a person may manage a role exactly when it is a role of the entity and some seat of the person that
  carries the grant \<open>roles.manage\<close> is that role or above it, or the role is a root and one of those
  seats is a director's; and a caller may claim a role exactly when some seat of the caller is that
  role or above it. The recursive walks of the code and the reachability of the graph agree. The
  exception for roots is in the code and not in its comments, which promise that peers, ancestors and
  unrelated branches stay blocked: a director with the grant manages every root of the entity, also one
  beside or above that director's own seat.
\<close>

theorem gates_decide_chains:
  assumes "schema d" "chart_local d"
  shows "(user_can_manage_role trust user r d \<longleftrightarrow> trust_of r d = Some trust \<and>
      ((\<exists>m\<in>seat trust ''human'' user d \<inter> granted GRANT_ROLES_MANAGE d. (m, r) \<in> (edge_set d)\<^sup>*) \<or>
       (\<forall>p. (p, r) \<notin> edge_set d) \<and> (\<exists>m w. m \<in> seat trust ''human'' user d \<inter> granted GRANT_ROLES_MANAGE d \<and>
          map_of (roles d) m = Some w \<and> rr_role_type w = ''director''))) \<and>
    (can_claim_role caller r trust d \<longleftrightarrow> trust_of r d = Some trust \<and>
      (\<exists>m\<in>seat trust (fst (principal caller)) (snd (principal caller)) d. (m, r) \<in> (edge_set d)\<^sup>*))"
  using can_manage_eq [OF assms, of trust user r] root_director_eq [OF assms(1), of trust user]
    can_claim_eq [OF assms, of caller r trust] by (intro conjI) simp_all

theorem gates_decide_chains_witness:
  "user_can_manage_role ''t'' ''bob'' ''w'' demo_org \<and>
   (\<exists>m\<in>seat ''t'' ''human'' ''bob'' demo_org. (m, ''w'') \<in> (edge_set demo_org)\<^sup>*)"
proof -
  have "user_can_manage_role ''t'' ''bob'' ''w'' demo_org" "has_parent ''w'' demo_org" by code_simp+
  then show ?thesis using gates_decide_chains [OF demo_org_ok(1,3), of "''t''" "''bob''" "''w''"]
    by (auto simp: has_parent_eq)
qed

text \<open>
  C38. A command changes nothing but the role it names, and only for a caller above it. Whatever the request for
  an update, for new edges, for an archival or for a change of occupant, and whether it succeeds or not: the database
  is the one of before, or the request names a role of the database and a caller who may manage that role,
  and then entities, budgets, allowances, policies, events, configurations, the rows and grants of all
  other roles and the edges between them are the ones of before.
\<close>

theorem commands_stay_on_branch:
  assumes "d' \<in> {snd (handle_update_role req clk d), snd (handle_update_role_edges req clk d),
      snd (handle_archive_role req d), snd (fst (handle_change_occupant req now ss d))}"
  shows "d' = d \<or> (\<exists>r w. request_field req ''role_id'' = Some r \<and> map_of (roles d) r = Some w \<and>
     caller_user_id req \<noteq> [] \<and> user_can_manage_role (rr_trust_id w) (caller_user_id req) r d \<and>
     entities d' = entities d \<and> budgets d' = budgets d \<and> allowances d' = allowances d \<and>
     policies d' = policies d \<and> events d' = events d \<and> configs d' = configs d \<and>
     (\<forall>x. x \<noteq> r \<longrightarrow> map_of (roles d') x = map_of (roles d) x \<and>
        filter (\<lambda>g. fst g = x) (role_grants d') = filter (\<lambda>g. fst g = x) (role_grants d)) \<and>
     (\<forall>p c. p \<noteq> r \<longrightarrow> c \<noteq> r \<longrightarrow> (p, c) \<in> edge_set d' \<longleftrightarrow> (p, c) \<in> edge_set d))"
proof -
  have "gated req d d'"
    using assms update_gated edges_gated archive_gated occupant_gated by (auto simp: change_occupant_db)
  then show ?thesis unfolding gated_def touches_def same_money_def by blast
qed

theorem commands_stay_on_branch_witness:
  "map_of (roles (snd (handle_update_role (demo_req ''bob'' ''w'' [(''title'', JString ''Clerk'')]) (\<lambda>_. 9) demo_org))) ''m'' =
     map_of (roles demo_org) ''m'' \<and>
   snd (handle_archive_role (demo_req ''cal'' ''m'' []) demo_org) = demo_org"
proof -
  let ?u = "demo_req ''bob'' ''w'' [(''title'', JString ''Clerk'')]" and ?a = "demo_req ''cal'' ''m'' []"
  have "request_field ?u ''role_id'' = Some ''w''" by code_simp
  moreover have "caller_user_id ?a = ''cal''" "request_field ?a ''role_id'' = Some ''m''"
    "map_option rr_trust_id (map_of (roles demo_org) ''m'') = Some ''t''"
    "\<not> user_can_manage_role ''t'' ''cal'' ''m'' demo_org" by code_simp+
  ultimately show ?thesis
    using commands_stay_on_branch [of "snd (handle_update_role ?u (\<lambda>_. 9) demo_org)" ?u "\<lambda>_. 9" demo_org 0 None]
      commands_stay_on_branch [of "snd (handle_archive_role ?a demo_org)" ?a "\<lambda>_. 9" demo_org 0 None]
    by auto
qed

section \<open>Agents\<close>

text \<open>
  C39. The upward walk returns exactly when no cycle lies above the agent's roles; so on a sound chart it
  always returns, and never when a cycle is there. When it returns, it has found the agents that
  occupy a role at or above a role of the agent, and those are the agents among whose descendants
  the downward walk, which always returns, finds it.
\<close>

theorem ancestors_returned:
  assumes "schema d"
  shows "((\<exists>ids. get_ancestor_ids a d = Some ids) \<longleftrightarrow>
      (\<forall>r\<in>set (role_ids_of a d). \<forall>y. (y, r) \<in> (edge_set d)\<^sup>* \<longrightarrow> (y, y) \<notin> (edge_set d)\<^sup>+)) \<and>
    (\<forall>ids x. get_ancestor_ids a d = Some ids \<longrightarrow>
      (x \<in> set ids \<longleftrightarrow> (\<exists>r y. agent_of d r = Some a \<and> agent_of d y = Some x \<and> (y, r) \<in> (edge_set d)\<^sup>*)) \<and>
      (x \<noteq> a \<longrightarrow> (x \<in> set ids \<longleftrightarrow> a \<in> set (list_descendants x d))))"
proof (intro conjI allI impI)
  show "(\<exists>ids. get_ancestor_ids a d = Some ids) \<longleftrightarrow>
      (\<forall>r\<in>set (role_ids_of a d). \<forall>y. (y, r) \<in> (edge_set d)\<^sup>* \<longrightarrow> (y, y) \<notin> (edge_set d)\<^sup>+)"
    using ancestor_roles_ends [of d a] ancestor_roles_loops [of d a]
    unfolding get_ancestor_ids_def clear_above_def by fastforce
next
  fix ids x assume i: "get_ancestor_ids a d = Some ids"
  then show "x \<noteq> a \<Longrightarrow> x \<in> set ids \<longleftrightarrow> a \<in> set (list_descendants x d)"
    using ancestor_ids_set [OF i] over_below [OF assms] by blast
  show "x \<in> set ids \<longleftrightarrow> (\<exists>r y. agent_of d r = Some a \<and> agent_of d y = Some x \<and> (y, r) \<in> (edge_set d)\<^sup>*)"
    using ancestor_ids_set [OF i] role_ids_agent [OF assms] by (auto simp: over_def)
qed

theorem ancestors_returned_witness:
  "(\<exists>ids. get_ancestor_ids ''a'' demo_org = Some ids) \<and> \<not> (\<exists>ids. get_ancestor_ids ''a'' demo_adopted = Some ids)"
proof -
  have "acyclic (edge_set demo_org)" using demo_org_ok(2) by (rule chart_okD)
  then have "\<exists>ids. get_ancestor_ids ''a'' demo_org = Some ids"
    using ancestors_returned [OF demo_org_ok(1), of "''a''"] by (auto simp: acyclic_def)
  then show ?thesis by (simp add: adoption_closes_cycle)
qed

text \<open>
  C40. Removing an agent with one seat changes nobody else's place. On a sound chart the removal fails
  only when a budget, a policy, an event or a configuration refers to the seat; then all agents and roles
  are still there. Otherwise the agent and its seat are gone. In both cases, among the other roles, who is above
  whom is exactly what it was before.
\<close>

theorem delete_agent_promotes:
  assumes "chart_ok (reg d)" "role_ids_of a (reg d) = [r]" "tree_agent a d \<noteq> None"
    and "delete_agent a False d = (x, d')"
  shows "(isl x \<longleftrightarrow> role_referenced (reg d) r) \<and>
    (if isl x then roles (reg d') = roles (reg d) \<and> agents d' = agents d
     else \<not> has (roles (reg d')) r \<and> tree_agent a d' = None \<and>
       (\<forall>s. s \<noteq> r \<longrightarrow> map_of (roles (reg d')) s = map_of (roles (reg d)) s)) \<and>
    (\<forall>p c. p \<noteq> r \<longrightarrow> c \<noteq> r \<longrightarrow> (p, c) \<in> (edge_set (reg d'))\<^sup>+ \<longleftrightarrow> (p, c) \<in> (edge_set (reg d))\<^sup>+)"
proof -
  obtain e where e: "set e = bridged (edge_set (reg d)) r" and R:
    "if role_referenced (reg d) r
     then delete_agent a False d = (Inl Statement_Failed, d\<lparr>reg := (reg d)\<lparr>role_edges := e\<rparr>\<rparr>)
     else \<exists>n. delete_agent a False d = (Inr n, d\<lparr>reg := (reg d)\<lparr>role_edges := filter (\<lambda>e. fst e \<noteq> r \<and> snd e \<noteq> r) e,
         roles := filter (\<lambda>x. fst x \<noteq> r) (roles (reg d)),
         role_grants := filter (\<lambda>g. fst g \<noteq> r) (role_grants (reg d))\<rparr>,
       agents := filter (\<lambda>x. at_id x \<noteq> a) (agents d)\<rparr>)"
    using delete_agent_result [OF assms(1-3)] by blast
  have m: "map_of (filter (\<lambda>x. fst x \<noteq> r) t) s = map_of t s" if "s \<noteq> r" for s and t :: "(string \<times> role_row) list"
    using that by (induction t) auto
  have E: "{x \<in> bridged (edge_set (reg d)) r. fst x \<noteq> r \<and> snd x \<noteq> r} = set (filter (\<lambda>e. fst e \<noteq> r \<and> snd e \<noteq> r) e)"
    by (auto simp: e)
  note G = removed_reach [OF chart_okD(2) [OF assms(1)], of _ r, unfolded E]
  have f: "(isl x \<longleftrightarrow> role_referenced (reg d) r) \<and> (isl x \<longrightarrow> roles (reg d') = roles (reg d) \<and> agents d' = agents d)"
    using R assms(4) by (auto split: if_splits)
  have k: "\<not> isl x \<longrightarrow> \<not> has (roles (reg d')) r \<and> tree_agent a d' = None \<and>
      (\<forall>s. s \<noteq> r \<longrightarrow> map_of (roles (reg d')) s = map_of (roles (reg d)) s)"
    using R assms(4) m by (auto simp: has_set tree_agent_def find_None_iff split: if_splits)
  have "(p, c) \<in> (edge_set (reg d'))\<^sup>+ \<longleftrightarrow> (p, c) \<in> (edge_set (reg d))\<^sup>+" if "p \<noteq> r" "c \<noteq> r" for p c
    using that R assms(4) G [of p c]
    by (auto simp: edge_set_def bridged_reach e [unfolded edge_set_def] split: if_splits)
  with f k show ?thesis by simp
qed

theorem delete_agent_promotes_witness:
  "role_edges (reg (snd (delete_agent ''a'' False demo_tree))) = [(''d'', ''m''), (''m'', ''l'')] \<and>
   (''d'', ''l'') \<in> (edge_set (reg (snd (delete_agent ''a'' False demo_tree))))\<^sup>+"
proof -
  have "role_ids_of ''a'' (reg demo_tree) = [''w'']" "tree_agent ''a'' demo_tree \<noteq> None" by code_simp+
  from delete_agent_promotes [OF _ this prod.collapse [symmetric]]
  have "(''d'', ''l'') \<in> (edge_set (reg (snd (delete_agent ''a'' False demo_tree))))\<^sup>+ \<longleftrightarrow>
      (''d'', ''l'') \<in> (edge_set demo_org)\<^sup>+"
    using demo_org_ok(2) by (auto simp: demo_tree_def)
  moreover have "(''d'', ''m'') \<in> edge_set demo_org" "(''m'', ''l'') \<in> edge_set demo_org"
    by (simp_all add: edge_set_def demo_org_def)
  moreover have "role_edges (reg (snd (delete_agent ''a'' False demo_tree))) = [(''d'', ''m''), (''m'', ''l'')]"
    by code_simp
  ultimately show ?thesis by (meson r_into_trancl trancl_into_trancl)
qed

end
