(* ===== verification/Unifutures_Properties.thy ===== *)
theory Unifutures_Properties
  imports Aeqi_Unifutures
begin

text \<open>
  The properties of the capital primitives of \<open>aeqi_unifutures\<close>, and the concrete markets on
  which they are evaluated.
\<close>

section \<open>Properties\<close>

text \<open>The books of every market stay sound: in every state reached from the empty store, each
  curve has sold at most its maximal supply and holds at most what it collected, each sale's
  counters agree and stay within its overflow bound, each exit has at most its proceeds left
  and has paid nothing before it was settled, and each pool's fee is below 100%.
\<close>

theorem uni_accounts_sound:
  assumes "(uni_step P S)\<^sup>*\<^sup>* (Map.empty, tk) (L, tk')" and "L k = Some a"
  shows "sound_acct a"
proof -
  have "uni_inv (Map.empty, tk)" by (simp add: uni_inv_def)
  from uni_inv_at [OF uni_run.run_keeps [OF assms(1) this] assms(2)] show ?thesis .
qed

text \<open>
  C4. Swaps and withdrawals never cost the remaining liquidity providers: over any sequence of
  them that keeps LP tokens outstanding, the product of the reserves per squared LP supply
  does not fall.
\<close>

theorem pool_value_never_falls:
  assumes "(\<lambda>L L'. pool_trade P S k L L' \<and> 0 < at pool_lp_square L' k)\<^sup>*\<^sup>* L L'"
    and "0 < at pool_lp_square L k"
  shows "at pool_product L k * at pool_lp_square L' k \<le> at pool_product L' k * at pool_lp_square L k"
  using pool_value.run_fair [OF assms] by blast

text \<open>Buying from a curve and selling the same amount back never drains it: afterwards the
  supply is what it was and the reserve is at least what it was.
\<close>

theorem curve_round_trip_no_profit:
  assumes "uni_buy_from_curve P S x n mxc L tk = Inr (L1, tk1, ev1)"
    and "uni_sell_to_curve P S y n mn L1 tk1' = Inr (L2, tk2, ev2)" and "ck_curve y = ck_curve x"
    and "L (ck_curve x) = Some (CurveA c)" and "cv_reserve_ratio_ppm c \<le> 1000000"
  shows "\<exists>c2. L2 (ck_curve x) = Some (CurveA c2) \<and> cv_current_supply c2 = cv_current_supply c \<and>
    cv_reserve_balance c \<le> cv_reserve_balance c2"
proof -
  from assms(1) obtain c' ct and cost :: u64 and sup r1 pr where "L (ck_curve x) = Some (CurveA c')"
    and b': "curve_type_from_u8 (cv_curve_type c') = Some ct"
    "0 < n" "unat sup = unat (cv_current_supply c') + unat n"
    "purchase_cost ct (cv_start_price c') (cv_end_price c') (ucast (cv_max_supply c'))
       (ucast (cv_current_supply c')) (ucast n) = Some (ucast cost)"
    "unat r1 = unat (cv_reserve_balance c') + unat cost"
    "L1 = L(ck_curve x \<mapsto> CurveA (c'\<lparr>cv_current_supply := sup, cv_reserve_balance := r1,
       cv_proceeds_collected := pr\<rparr>))"
    by (rule uni_buy_ok)
  with assms(4) have "c' = c" by simp
  note b = b' [unfolded this]
  from assms(2) obtain c1 ct' and ret :: u64 and sup' r2 where
    c1: "L1 (ck_curve y) = Some (CurveA c1)" "curve_type_from_u8 (cv_curve_type c1) = Some ct'"
    and s': "unat (cv_current_supply c1) = unat sup' + unat n"
    "sale_return ct' (cv_start_price c1) (cv_end_price c1) (ucast (cv_max_supply c1))
       (ucast (cv_current_supply c1)) (ucast n) (cv_reserve_ratio_ppm c1) = Some (ucast ret)"
    "unat (cv_reserve_balance c1) = unat r2 + unat ret"
    "L2 = L1(ck_curve y \<mapsto> CurveA (c1\<lparr>cv_current_supply := sup', cv_reserve_balance := r2\<rparr>))"
    by (rule uni_sell_ok)
  from c1(1) assms(3) have c1_eq: "c1 = c\<lparr>cv_current_supply := sup, cv_reserve_balance := r1,
    cv_proceeds_collected := pr\<rparr>" by (simp add: b(6))
  from c1(2) b(1) have ct_eq: "ct' = ct" by (simp add: c1_eq)
  from s' have s: "unat sup = unat sup' + unat n"
    "sale_return ct (cv_start_price c) (cv_end_price c) (ucast (cv_max_supply c))
       (ucast sup) (ucast n) (cv_reserve_ratio_ppm c) = Some (ucast ret)"
    "unat r1 = unat r2 + unat ret"
    "L2 (ck_curve x) = Some (CurveA (c1\<lparr>cv_current_supply := sup', cv_reserve_balance := r2\<rparr>))"
    using assms(3) by (simp_all add: c1_eq ct_eq)
  have nz: "(ucast n :: u128) \<noteq> 0" using b(2) by (simp add: word_unat_eq_iff word_less_nat_alt)
  have "(ucast sup :: u128) = ucast (cv_current_supply c) + ucast n"
    unfolding word_unat_eq_iff purchase_cost_Some(2) [OF b(4) nz] using b(3) by simp
  with s(2) have "sale_return ct (cv_start_price c) (cv_end_price c) (ucast (cv_max_supply c))
       (ucast (cv_current_supply c) + ucast n) (ucast n) (cv_reserve_ratio_ppm c) = Some (ucast ret)" by simp
  then have "(ucast ret :: u128) \<le> ucast cost" using sell_back(2) [OF b(4) _ nz] assms(5) by blast
  then have "unat ret \<le> unat cost" by (simp add: word_le_nat_alt)
  moreover have "sup' = cv_current_supply c" using b(3) s(1) by (simp add: word_unat_eq_iff)
  ultimately show ?thesis using s b(5) by (simp add: word_le_nat_alt)
qed

text \<open>An exit pays exactly pro rata: a claim burns the given amount of the exit's own asset
  mint, pays the rounded-down share of the proceeds for the supply at creation, and reduces
  the remaining proceeds by just that.
\<close>

theorem exit_claim_exact:
  assumes "spl_law S" and "vault \<noteq> ata" and "vault \<noteq> qta" and "L ek = Some (ExitA e)"
    and "uni_claim_pro_rata P S ek ea am qm vault ata qta h n L tk = Inr (L', tk', ev)"
  shows "\<exists>rem. L' = L(ek \<mapsto> ExitA (e\<lparr>ex_remaining_proceeds := rem\<rparr>)) \<and> am = ex_asset_mint e \<and>
    (let q = unat n * unat (ex_exit_quote e) div unat (ex_total_supply_snapshot e) in
     unat (ex_remaining_proceeds e) = unat rem + q \<and>
     supply_of S tk' am + unat n = supply_of S tk am \<and> bal S tk' vault + q = bal S tk vault)"
proof -
  from assms(4,5) obtain q tk1 d rem where c: "am = ex_asset_mint e"
    "unat q = unat n * unat (ex_exit_quote e) div unat (ex_total_supply_snapshot e)"
    "unat (ex_remaining_proceeds e) = unat rem + unat q"
    "L' = L(ek \<mapsto> ExitA (e\<lparr>ex_remaining_proceeds := rem\<rparr>))"
    and b: "burn S am ata h n tk = Some tk1" and t: "transfer_checked S vault qm qta ea q d tk1 = Some tk'"
    by (auto elim!: uni_claim_ok)
  have "supply_of S tk' am = supply_of S tk1 am"
    using transfer_bal(5) [OF assms(1) t] by (simp add: supply_of_def)
  with burn_supply [OF assms(1) b] transfer_bal(2) [OF assms(1) t assms(3)] assms(2)
  have "supply_of S tk' am + unat n = supply_of S tk am" "bal S tk' vault + unat q = bal S tk vault"
    by simp_all
  with c show ?thesis by (intro exI [of _ rem]) (simp add: Let_def)
qed

section \<open>Concrete markets\<close>

definition demo_uk :: "seed list \<Rightarrow> pubkey" where
  "demo_uk s = demo_addr s AEQI_UNIFUTURES_ID"

text \<open>Mint 30 is the asset, mint 31 the quote; user 9 holds both. Each market has its vaults.\<close>

definition demo_uni_ledger :: ledger where
  "demo_uni_ledger = \<lparr>mints = [30 \<mapsto> \<lparr>mi_supply = 10000, mi_decimals = 6\<rparr>, 31 \<mapsto> \<lparr>mi_supply = 90000, mi_decimals = 6\<rparr>],
     wallets =
      [40 \<mapsto> \<lparr>ta_mint = 30, ta_owner = demo_uk [Lit ''curve_authority'', B32 demo_trust, B32 1], ta_amount = 5000\<rparr>,
       41 \<mapsto> \<lparr>ta_mint = 31, ta_owner = demo_uk [Lit ''curve_authority'', B32 demo_trust, B32 1], ta_amount = 0\<rparr>,
       42 \<mapsto> \<lparr>ta_mint = 30, ta_owner = 9, ta_amount = 5000\<rparr>,
       43 \<mapsto> \<lparr>ta_mint = 31, ta_owner = 9, ta_amount = 5000\<rparr>,
       44 \<mapsto> \<lparr>ta_mint = 31, ta_owner = demo_uk [Lit ''sale_authority'', B32 demo_trust, B32 2], ta_amount = 0\<rparr>,
       45 \<mapsto> \<lparr>ta_mint = 31, ta_owner = demo_uk [Lit ''exit_authority'', B32 demo_trust, B32 3], ta_amount = 4000\<rparr>,
       46 \<mapsto> \<lparr>ta_mint = 30, ta_owner = demo_uk [Lit ''liquidity_pool_authority'', B32 demo_trust, B32 4], ta_amount = 1000\<rparr>,
       47 \<mapsto> \<lparr>ta_mint = 31, ta_owner = demo_uk [Lit ''liquidity_pool_authority'', B32 demo_trust, B32 4], ta_amount = 1000\<rparr>]\<rparr>"

definition demo_ums :: pubkey where
  "demo_ums = demo_uk [Lit ''unifutures_module'', B32 demo_trust]"

definition demo_curve_ctx :: curve_ctx where
  "demo_curve_ctx = \<lparr>ck_curve = demo_uk [Lit ''curve'', B32 demo_trust, B32 1],
     ck_curve_authority = demo_uk [Lit ''curve_authority'', B32 demo_trust, B32 1],
     ck_asset_mint = 30, ck_quote_mint = 31, ck_curve_asset_vault = 40, ck_curve_quote_vault = 41,
     ck_user_asset_ta = 42, ck_user_quote_ta = 43, ck_user = 9\<rparr>"

text \<open>A linear curve from 1 to 2 over 1000 tokens with 90% reserve.\<close>

definition demo_curve_open :: "UnifuturesError err + uni_store \<times> uni_event list" where
  "demo_curve_open =
     rbind (uni_init demo_sdk demo_open demo_trust demo_ums 7 Map.empty) (\<lambda>(L1, _).
     uni_create_curve demo_sdk demo_spl demo_trust demo_ums (ck_curve demo_curve_ctx) 30 31 7 1 0
       1000000000000000000 2000000000000000000 1000 900000 L1 demo_uni_ledger)"

lemmas demo_uni_defs = uni_accounts_defs trust_account_def load_def require_def seeds_ok_def
  canonical_def init_account_def init_if_needed_def mint_account_def token_account_def spl_call_def
  demo_uk_def demo_ums_def demo_uni_ledger_def demo_spl_def debit_def credit_def resupply_def
  checked_add_def checked_sub_def checked_mul_def checked_div_def try_into_def mul_div_def
  saturating_mul_def saturating_add_def saturating_sub_def ichecked_add_def word_sle_eq word_sless_alt
  demo_trust_defs Let_def

lemmas demo_curve_defs = demo_curve_open_def demo_curve_ctx_def uni_init_def uni_create_curve_def
  uni_buy_from_curve_def uni_sell_to_curve_def curve_type_from_u8_def purchase_cost_def
  sale_return_def price_at_def PRECISION_def min_def

lemma demo_curve_run:
  obtains L1 ev1 L2 tk2 ev2 L3 tk3 ev3 c where "demo_curve_open = Inr (L1, ev1)"
    "uni_buy_from_curve demo_sdk demo_spl demo_curve_ctx 100 200 L1 demo_uni_ledger = Inr (L2, tk2, ev2)"
    "uni_sell_to_curve demo_sdk demo_spl demo_curve_ctx 100 50 L2 tk2 = Inr (L3, tk3, ev3)"
    "L1 (ck_curve demo_curve_ctx) = Some (CurveA c)" "cv_reserve_ratio_ppm c = 900000"
proof -
  have "\<exists>L1 ev1 L2 tk2 ev2 L3 tk3 ev3 c. demo_curve_open = Inr (L1, ev1) \<and>
    uni_buy_from_curve demo_sdk demo_spl demo_curve_ctx 100 200 L1 demo_uni_ledger = Inr (L2, tk2, ev2) \<and>
    uni_sell_to_curve demo_sdk demo_spl demo_curve_ctx 100 50 L2 tk2 = Inr (L3, tk3, ev3) \<and>
    L1 (ck_curve demo_curve_ctx) = Some (CurveA c) \<and> cv_reserve_ratio_ppm c = 900000"
    by (simp add: demo_curve_defs demo_uni_defs AEQI_UNIFUTURES_ID_def)
  then show thesis using that by blast
qed

theorem curve_round_trip_no_profit_witness:
  "\<exists>L1 L2 L3 tk2 tk3 ev2 ev3 c c3.
     uni_buy_from_curve demo_sdk demo_spl demo_curve_ctx 100 200 L1 demo_uni_ledger = Inr (L2, tk2, ev2) \<and>
     uni_sell_to_curve demo_sdk demo_spl demo_curve_ctx 100 50 L2 tk2 = Inr (L3, tk3, ev3) \<and>
     L1 (ck_curve demo_curve_ctx) = Some (CurveA c) \<and> L3 (ck_curve demo_curve_ctx) = Some (CurveA c3) \<and>
     cv_reserve_balance c \<le> cv_reserve_balance c3"
proof -
  obtain L1 L2 tk2 ev2 L3 tk3 ev3 c where
    b: "uni_buy_from_curve demo_sdk demo_spl demo_curve_ctx 100 200 L1 demo_uni_ledger = Inr (L2, tk2, ev2)"
    and s: "uni_sell_to_curve demo_sdk demo_spl demo_curve_ctx 100 50 L2 tk2 = Inr (L3, tk3, ev3)"
    and c: "L1 (ck_curve demo_curve_ctx) = Some (CurveA c)" "cv_reserve_ratio_ppm c = 900000"
    by (rule demo_curve_run)
  from curve_round_trip_no_profit [OF b s refl c(1)] c(2) obtain c3 where
    "L3 (ck_curve demo_curve_ctx) = Some (CurveA c3)" "cv_reserve_balance c \<le> cv_reserve_balance c3"
    by auto
  with b s c(1) show ?thesis by blast
qed

theorem uni_accounts_sound_witness:
  "\<exists>L tk a. (uni_step demo_sdk demo_spl)\<^sup>*\<^sup>* (Map.empty, demo_uni_ledger) (L, tk) \<and>
     L (ck_curve demo_curve_ctx) = Some a \<and> sound_acct a"
proof -
  obtain L1 ev1 L2 tk2 ev2 c where o: "demo_curve_open = Inr (L1, ev1)"
    and b: "uni_buy_from_curve demo_sdk demo_spl demo_curve_ctx 100 200 L1 demo_uni_ledger = Inr (L2, tk2, ev2)"
    by (rule demo_curve_run)
  from o have "(uni_step demo_sdk demo_spl)\<^sup>*\<^sup>* (Map.empty, demo_uni_ledger) (L1, demo_uni_ledger)"
    unfolding demo_curve_open_def
    by (auto simp: rbind_Inr dest!: uni_step.init [where S = demo_spl and tk = demo_uni_ledger]
        uni_step.create_curve intro: rtranclp.rtrancl_into_rtrancl)
  also have "uni_step demo_sdk demo_spl (L1, demo_uni_ledger) (L2, tk2)"
    using b by (rule uni_step.buy)
  finally have run: "(uni_step demo_sdk demo_spl)\<^sup>*\<^sup>* (Map.empty, demo_uni_ledger) (L2, tk2)" .
  from b obtain a where a: "L2 (ck_curve demo_curve_ctx) = Some a" by (rule uni_buy_ok) simp
  from uni_accounts_sound [OF run a] run a show ?thesis by blast
qed

text \<open>A pool with equal reserves, in which user 9 swaps 100 of the base.\<close>

definition demo_pool :: uni_store where
  "demo_pool = [demo_uk [Lit ''liquidity_pool'', B32 demo_trust, B32 4] \<mapsto> PoolA
     \<lparr>pl_trust = demo_trust, pl_pool_id = 4, pl_base_mint = 30, pl_quote_mint = 31, pl_base_vault = 46,
      pl_quote_vault = 47, pl_lp_mint = 32, pl_lp_supply = 1000, pl_base_reserve = 1000,
      pl_quote_reserve = 1000, pl_fee_bps = 30, pl_bump = 255\<rparr>]"

definition demo_pool_ctx :: pool_ctx where
  "demo_pool_ctx = \<lparr>pk_pool = demo_uk [Lit ''liquidity_pool'', B32 demo_trust, B32 4],
     pk_pool_authority = demo_uk [Lit ''liquidity_pool_authority'', B32 demo_trust, B32 4],
     pk_base_mint = 30, pk_quote_mint = 31, pk_lp_mint = 32, pk_user_base_ta = 42,
     pk_user_quote_ta = 43, pk_user_lp_ta = 0, pk_base_vault = 46, pk_quote_vault = 47, pk_user = 9\<rparr>"

lemma demo_swap:
  "\<exists>L' tk' ev. uni_swap_exact_in demo_sdk demo_spl demo_pool_ctx 0 100 80 demo_pool demo_uni_ledger =
     Inr (L', tk', ev) \<and> 0 < at pool_lp_square L' (pk_pool demo_pool_ctx) \<and>
     0 < at pool_lp_square demo_pool (pk_pool demo_pool_ctx)"
  by (simp add: uni_swap_exact_in_def swap_direction_from_u8_def require_pool_mints_def
      quote_swap_exact_in_def FEE_BPS_DENOMINATOR_def demo_pool_def demo_pool_ctx_def
      pool_authority_seeds_def demo_uni_defs AEQI_UNIFUTURES_ID_def at_def)

theorem pool_value_never_falls_witness:
  "\<exists>L'. pool_trade demo_sdk demo_spl (pk_pool demo_pool_ctx) demo_pool L' \<and>
     at pool_product demo_pool (pk_pool demo_pool_ctx) * at pool_lp_square L' (pk_pool demo_pool_ctx)
     \<le> at pool_product L' (pk_pool demo_pool_ctx) * at pool_lp_square demo_pool (pk_pool demo_pool_ctx)"
proof -
  obtain L' tk' ev where
    w: "uni_swap_exact_in demo_sdk demo_spl demo_pool_ctx 0 100 80 demo_pool demo_uni_ledger = Inr (L', tk', ev)"
    and lp: "0 < at pool_lp_square L' (pk_pool demo_pool_ctx)"
      "0 < at pool_lp_square demo_pool (pk_pool demo_pool_ctx)" using demo_swap by blast
  from w have t: "pool_trade demo_sdk demo_spl (pk_pool demo_pool_ctx) demo_pool L'"
    by (rule pool_trade.swap) simp
  with lp have "(\<lambda>L L'. pool_trade demo_sdk demo_spl (pk_pool demo_pool_ctx) L L' \<and>
      0 < at pool_lp_square L' (pk_pool demo_pool_ctx))\<^sup>*\<^sup>* demo_pool L'"
    by (intro r_into_rtranclp) simp
  from pool_value_never_falls [OF this lp(2)] t show ?thesis by blast
qed

text \<open>
  Additions are another matter: the amounts taken are rounded down, so a new provider can pay
  less than the LP tokens are worth. With 1999 of each reserve behind 1000 LP tokens, one LP
  token costs one of each, and the value behind the other tokens falls.
\<close>

lemma add_liquidity_dilutes:
  "quote_add_liquidity 2 2 1999 1999 1000 = Some \<lparr>lq_lp_out = 1, lq_base_used = 1, lq_quote_used = 1\<rparr>"
  "(2000 :: nat) * 2000 * 1000\<^sup>2 < 1999 * 1999 * 1001\<^sup>2"
  by (simp_all add: quote_add_liquidity_def Let_def checked_mul_def checked_div_def try_into_def min_def)

text \<open>An exit of 4000 for the 10000 tokens of mint 30, settled; user 9 burns 500.\<close>

definition demo_exit :: Exit where
  "demo_exit = \<lparr>ex_trust = demo_trust, ex_exit_id = 3, ex_creator = 7, ex_asset_mint = 30,
     ex_exit_quote = 4000, ex_total_supply_snapshot = 10000, ex_proceeds_collected = 4000,
     ex_remaining_proceeds = 4000, ex_status = 0, ex_start_time = 0, ex_end_time = 100, ex_bump = 255\<rparr>"

definition demo_ek :: pubkey where
  "demo_ek = demo_uk [Lit ''exit'', B32 demo_trust, B32 3]"

definition demo_exit_claim :: "UnifuturesError err + uni_store \<times> ledger \<times> uni_event list" where
  "demo_exit_claim = uni_claim_pro_rata demo_sdk demo_spl demo_ek
     (demo_uk [Lit ''exit_authority'', B32 demo_trust, B32 3]) 30 31 45 42 43 9 500
     [demo_ek \<mapsto> ExitA demo_exit] demo_uni_ledger"

lemma demo_exit_claimed: "\<exists>L' tk' ev. demo_exit_claim = Inr (L', tk', ev)"
  by (simp add: demo_exit_claim_def uni_claim_pro_rata_def exit_authority_seeds_def demo_ek_def
      demo_exit_def demo_uni_defs)

theorem exit_claim_exact_witness:
  "\<exists>L' tk' ev. demo_exit_claim = Inr (L', tk', ev) \<and>
     bal demo_spl tk' 45 + 200 = bal demo_spl demo_uni_ledger 45"
proof -
  obtain L' tk' ev where c: "demo_exit_claim = Inr (L', tk', ev)" using demo_exit_claimed by blast
  have e: "[demo_ek \<mapsto> ExitA demo_exit] demo_ek = Some (ExitA demo_exit)" by simp
  from exit_claim_exact [OF demo_spl_law _ _ e c [unfolded demo_exit_claim_def]] c show ?thesis
    by (auto simp: demo_exit_def Let_def)
qed

definition demo_sale_run :: "UnifuturesError err + uni_store \<times> ledger \<times> uni_event list" where
  "demo_sale_run =
     (let sk = demo_uk [Lit ''sale'', B32 demo_trust, B32 2];
          sa = demo_uk [Lit ''sale_authority'', B32 demo_trust, B32 2];
          ck = demo_uk [Lit ''sale_commitment'', B32 demo_trust, B32 2, B32 9] in
      rbind (uni_init demo_sdk demo_open demo_trust demo_ums 7 Map.empty) (\<lambda>(L1, _).
      rbind (uni_create_commitment_sale demo_sdk \<lparr>slot = 1, unix_timestamp = 100\<rparr> demo_trust demo_ums
        sk 7 2 1000 500 2000 50 L1) (\<lambda>(L2, _).
      rbind (uni_commit_to_sale demo_sdk demo_spl \<lparr>slot = 2, unix_timestamp = 120\<rparr> sk sa 31 44 43 ck 9 1000
        L2 demo_uni_ledger) (\<lambda>(L3, tk3, _).
      rbind (uni_finalize_sale demo_sdk \<lparr>slot = 3, unix_timestamp = 200\<rparr> sk 8 L3) (\<lambda>(L4, _).
      uni_claim_allocation demo_sdk demo_spl sk sa 31 44 ck 43 9 L4 tk3)))))"

text \<open>
  A commitment can be claimed out of the sale's own proceeds: \<open>claim_allocation\<close> takes the
  asset mint and the asset vault from the caller and asks only that the sale's authority owns
  the vault, as it owns the vault of the quote mint. A buyer who commits 1000 of the quote
  mint takes the same 1000 back after the sale is finalized.
\<close>

theorem sale_claim_takes_proceeds:
  "\<exists>L tk ev. demo_sale_run = Inr (L, tk, ev) \<and> bal demo_spl tk 44 = 0 \<and> bal demo_spl tk 43 = 5000"
  by (simp add: demo_sale_run_def uni_init_def uni_create_commitment_sale_def uni_commit_to_sale_def
      uni_finalize_sale_def uni_claim_allocation_def sale_authority_seeds_def commitment_seeds_def
      zero_commitment_def demo_uni_defs AEQI_UNIFUTURES_ID_def bal_def)

end
