(* ===== verification/Spec2Isabelle.thy ===== *)
theory Spec2Isabelle
  imports Aeqi_Factory Budget_Registry_Safety Aeqi_Fund Aeqi_Funding Aeqi_Treasury Aeqi_Vesting Indexer_Snapshot
    Quest_Dispatch_Properties Quests_Persist Role_Properties Unifutures_Properties
begin

text \<open>
  A verification of the core of aeqi: the Solana programs under \<open>projects/aeqi-solana/programs\<close>
  with the vote snapshot of the indexer beside them, and, off chain, the quest store
  (\<open>crates/aeqi-quests\<close>), the budget registry, the role registry with its commands and the tree of agents,
  the session queue and the dispatch of quests (\<open>crates/aeqi-orchestrator\<close>).

  \<^bold>\<open>The system.\<close> A company is a TRUST account of \<open>aeqi_trust\<close>: an authority, a creation mode, a pause
  flag, a counter of registered modules, configuration slots and an ACL graph. While a TRUST is in
  creation mode each module program may open one module account for it (\<open>init\<close>); \<open>finalize\<close> ends
  that. The modules are independent programs that read the TRUST: \<open>aeqi_role\<close> (a forest of roles
  with vote checkpoints and delegation), \<open>aeqi_governance\<close> (proposals, role votes, token votes
  against a Merkle root, thresholds, execution), \<open>aeqi_token\<close> (the cap-table mint), \<open>aeqi_budget\<close>,
  \<open>aeqi_treasury\<close>, \<open>aeqi_vesting\<close>, \<open>aeqi_fund\<close> (NAV shares, carry), \<open>aeqi_unifutures\<close> (bonding
  curves, constant-product pools, commitment sales, exits) and \<open>aeqi_funding\<close>, which turns requests
  backed by a budget into markets of \<open>aeqi_unifutures\<close>. \<open>aeqi_factory\<close> assembles companies out of
  calls into \<open>aeqi_trust\<close>, \<open>aeqi_role\<close>, \<open>aeqi_token\<close> and \<open>aeqi_governance\<close>. The indexer lists the
  token holders and builds the Merkle tree whose root \<open>aeqi_governance\<close> verifies votes against.
  Off chain, agents work on quests: \<open>QuestBoard\<close> keeps them in memory and in one append-only JSON
  lines file per prefix, with dependencies between them and parents that close with their
  children. What agents may spend is kept by \<open>BudgetRegistry\<close> in SQLite: budgets owned by roles,
  one allowance row per budget and epoch with four rails, allocations between budgets, hires, and
  an audit log. Who may do what is kept beside them by \<open>RoleRegistry\<close>: roles with an occupant, a type
  and grants, and edges between them whose transitive closure is authority. Commands change roles
  for a caller above them; agents occupy roles, and the tree of agents that scopes what each one sees is
  read off the chart. Agents run in sessions: a message for a session is a row of \<open>pending_messages\<close>, a
  loop claims and runs the rows of a session one at a time, the running row being the lease, and
  a running agent takes the messages that arrive meanwhile at its step boundaries. The daemon keeps
  its own quests in SQLite: a tick admits ready ones into the session queue under caps and a retry
  budget, the executor that runs the message settles the quest.

  \<^bold>\<open>How programs are modelled.\<close> A program's accounts are a finite map from addresses to the
  program's account types (\<open>trust_store\<close>, \<open>role_store\<close>, \<dots>), one map per program, because only the
  owner of an account writes it. For an instruction \<open>f\<close> of program \<open>p\<close> with the context struct \<open>X\<close>,
  \<open>X_accounts\<close> is the validation that Anchor derives from the struct, in field order (existence,
  discriminator, seeds and bump, \<open>init\<close>, mint and owner constraints), and \<open>p_f\<close> is the handler: it
  takes the keys and the signer of the context, the arguments and the stores, and returns
  \<open>Inl\<close> an error of the program's own error enum, of Anchor or of the token program, or \<open>Inr\<close> the
  new stores and the emitted events. Guards stand in the order of the code. A call into another
  program is that program's modelled instruction. Integers are words of their width; \<open>checked_add\<close>
  and its kin return an option as in Rust, a 32-byte array or key is a 256-bit word.

  The off-chain components mutate their state and fail half way: an operation returns its result
  together with the state it leaves. For the quest store that state is the board and the files (by
  their path relative to the directory of the store, which lists only the names without a slash),
  and the outcomes of writes (success, failure, torn) are given by a record \<open>world\<close>; for the budget
  registry it is the record of tables \<open>reg_db\<close>, a statement being a partial function that fails when
  a constraint of the schema is violated, and a transaction keeping the database of before when it
  fails. The session queue is a step relation \<open>qstep\<close> on a \<open>daemon\<close>, its table and the multiset of
  its tasks, one rule per atomic section; failing database calls, a crash and the boot recovery are
  steps like the others, and ghost fields log what was enqueued, claimed and injected. The dispatch of quests
  is a step relation \<open>dstep\<close> on a \<open>rail\<close>, the quest tables beside that daemon, one rule per section under a
  lock: a creation (idea, id, row), the rounds of a tick, an execution (spawn, settlement), a boot (crash,
  reset, recovery), and the writes of users and running agents to quests interrupt one another
  anywhere; the functions for a whole creation, tick, execution and boot are the runs of their sections
  that nobody interrupts. Ghost fields log what was sent to the queue (\<open>g_admitted\<close>), what a write made
  todo again (\<open>g_reopened\<close>) and whether a recovery came while a session was leased (\<open>g_late\<close>). What the
  database, the provider and the clock answer during a tick or an execution is a record of the environment.
  Strings are byte lists; the \<open>i64\<close> arithmetic of the registry wraps explicitly.

  Parameters, since their code is not in the repository: the address derivation of the Solana SDK
  (\<open>pda_sdk\<close>, with \<open>pda_law\<close>), the SPL token programs (\<open>spl\<close>, with \<open>spl_law\<close>, which holds for the
  concrete ledger \<open>demo_spl\<close>), the hash function of the Merkle trees, the raw bytes of a foreign
  account (\<open>raw_law\<close>), the serialization of a quest to JSON (\<open>serde\<close>), the clock and the UUIDs.

  \<^bold>\<open>The theories.\<close>
  \<^item> \<open>Prelude\<close>: machine types, checked arithmetic with its number-level meaning (collection \<open>num\<close>),
    results and their inversion (collection \<open>res\<close>), accounts, the locales \<open>kept_by_steps\<close> and
    \<open>ordered_by_steps\<close> for invariants and monotone relations of a step relation, sums over a store.
  \<^item> \<open>Bytes\<close>: little-endian encodings, slices and their round trips. \<open>Prorata\<close>: rounded-down shares
    and the locale \<open>share_pool\<close>: if every trade keeps value per share, so does every run.
    \<open>Spl_Interface\<close>: the token programs.
  \<^item> \<open>Aeqi_Trust\<close> (\<open>aeqi-trust/src\<close>): the module counter is exact, the lifecycle only moves forward,
    only the authority changes a TRUST, a pause blocks; the locale \<open>module_init\<close> is the contract of
    every module program's \<open>init\<close>, interpreted for the nine of them.
  \<^item> \<open>Aeqi_Role\<close> (\<open>aeqi-role/src\<close>): the bounded walk over parent pointers decides ancestry, the life
    of a role, who may assign, conservation of votes.
  \<^item> \<open>Aeqi_Governance\<close> (\<open>aeqi-governance/src\<close>): the counters are the sum of the vote records, one vote
    per voter, what execution requires, finality, and that the first committed root is taken.
  \<^item> \<open>Indexer_Snapshot\<close> (\<open>indexer/src/snapshot.rs\<close>): the proofs the indexer builds are the ones the
    program accepts; the snapshot is exactly the holders.
  \<^item> \<open>Aeqi_Budget\<close>, \<open>Aeqi_Treasury\<close>, \<open>Aeqi_Vesting\<close>, \<open>Aeqi_Fund\<close>, \<open>Aeqi_Token\<close>: caps, exact transfers,
    the vesting curve, share conservation and fairness, the supply cap, the decoder of raw
    configuration accounts.
  \<^item> \<open>Unifutures_Pool\<close>, \<open>Unifutures_Curve\<close> (\<open>pool.rs\<close>, \<open>curve.rs\<close>): the integer square root with its
    termination, quotes and prices. \<open>Aeqi_Unifutures\<close>, \<open>Unifutures_Properties\<close> (\<open>lib.rs\<close>): the books of
    every market, the value of a pool, curve round trips, exits.
  \<^item> \<open>Aeqi_Funding\<close>: the lifecycle of a request and that an activated request has its market.
    \<open>Aeqi_Factory\<close>: what the full spawn and the replay of a template leave behind, and that the
    spawn goes through on fresh canonical addresses.
  \<^item> \<open>Rust_Str\<close>: byte strings, splitting, decimal numbers. \<open>Quests_Quest\<close> (\<open>quest.rs\<close>),
    \<open>Quests_Board\<close> (\<open>store.rs\<close>, \<open>query.rs\<close>): the operations. \<open>Quests_Deps\<close>: the cycle check decides
    reachability, dependencies stay acyclic, some open quest is always ready; the locale
    \<open>index_invariant\<close>. \<open>Quests_Cascade\<close>: what closing a quest changes. \<open>Quests_Persist\<close>: reloading
    the files restores the board and ids are not reused.
  \<^item> \<open>Budget_Registry\<close> (\<open>budget_registry.rs\<close>): tables, statements, operations.
    \<open>Budget_Registry_Schema\<close>: what the schema guarantees; the operations as one datatype.
    \<open>Budget_Registry_Steps\<close>: the locale \<open>reg_invariant\<close>: what every statement keeps, every operation
    keeps. \<open>Budget_Registry_Properties\<close>: the locale \<open>money_invariant\<close> below it and its
    interpretations: no overspending, the audit log reconciles. \<open>Budget_Registry_Safety\<close>: pause,
    ownership, idempotency, conservation, hiring, and what the gap between check and write allows.
  \<^item> \<open>Role_Graph\<close>: worklist walks over edges, rows and acyclic graphs. \<open>Role_Registry\<close>
    (\<open>role_registry.rs\<close>): statements, reads, authority, writes. \<open>Role_Registry_Chart\<close>: the locale
    \<open>chart_invariant\<close> (what every statement keeps, every operation keeps), interpreted on the schema, on the
    chart having no cycle and staying inside entities, and, as a sublocale, on the money of the
    budget registry. \<open>Role_Registry_Edges\<close>: what replacing edges does. \<open>Role_Handlers\<close> (\<open>ipc/roles.rs\<close>): the
    commands. \<open>Role_Authority\<close>, \<open>Role_Commands\<close>: the walks decide chains of authority, a command
    touches one role, commands keep the invariants. \<open>Agent_Tree\<close> (the agents of \<open>agent_registry.rs\<close>,
    \<open>scope_visibility.rs\<close>): spawning, walks, moves, removals, scopes. \<open>Agent_Tree_Walks\<close>: where the
    upward walk returns and what it finds. \<open>Agent_Tree_Moves\<close>: what moves and removals keep.
    \<open>Role_Properties\<close>: the properties, and requests after which the chart is not what its callers expect.
  \<^item> \<open>Session_Queue\<close> (\<open>session_queue.rs\<close>, the queue of \<open>session_store.rs\<close>, \<open>QueuedMessage\<close>, the
    injection of \<open>aeqi-core\<close>): table, loop, steps. \<open>Session_Queue_Protocol\<close>: the invariants under
    every interleaving. \<open>Session_Queue_Liveness\<close>: runs without faults, the work that is left, the
    loop alone. \<open>Session_Queue_Properties\<close>: exclusive execution, accounting, drainage, and what a
    late recovery, a failed delete and a late injection do.
  \<^item> \<open>Quest_Registry\<close> (the quests of \<open>agent_registry.rs\<close>), \<open>Quest_Dispatch\<close> (\<open>quest_enqueuer.rs\<close>,
    \<open>queue_executor.rs\<close>, the boot of \<open>daemon.rs\<close>): tables, tick, execution, steps.
    \<open>Quest_Dispatch_Sections\<close>: whole operations are runs of their sections. \<open>Quest_Dispatch_Runs\<close>: rows
    move on unless a write reopens them. \<open>Quest_Dispatch_Account\<close>: the account of the sends of a quest
    over every interleaving. \<open>Quest_Dispatch_Queue\<close>: the rail refines the session queue. \<open>Quest_Dispatch_Tick\<close>: the rounds of a tick, its counters.
    \<open>Quest_Registry_Ids\<close>: new ids. \<open>Quest_Dispatch_Properties\<close>: bounded runs, caps, how outcomes settle
    quests, and where these guarantees end (an agent that reopens its quest, a late recovery, two
    children created at once).
  \<^item> This theory: the properties that span programs.

  \<^bold>\<open>Steps and runs.\<close> Each program has a step relation, one rule per instruction, where the stores it
  only reads and the token state may be arbitrary; invariants are proved for every store reachable
  from the empty one. Loops are structural recursions, except Newton's iteration of
  \<open>integer_sqrt\<close> and the walk over the edges of the chart, which have their own termination proofs, the
  claim loop, which is a partial function with a proof that it returns, and the upward walk over roles
  and depths, a partial function that returns exactly when no cycle is above; no definition needs fuel.

  \<^bold>\<open>Not modelled.\<close> Rent, compute limits and transaction atomicity (a failing instruction returns no
  store, which is the runtime's rollback); account reallocation and closing, which the programs do
  not use; Token-2022 extensions; the network and database code of the indexer; the connection pool
  and the scheduling of the asynchronous tasks around the budget and role registries and the agent tree,
  whose operations run one after the other, except where the two halves of a spend are interleaved on
  purpose (the session queue and the dispatch of quests are interleaved section by section). In the commands on roles
  only constraints of the schema make a statement fail. The other off-chain
  crates (web, tools, providers, \<dots>) are listed in the manifest: they are mostly asynchronous
  input/output over SQLite, HTTP and third-party services.
\<close>

section \<open>Properties that span the programs\<close>

text \<open>
  C8. A finalized TRUST is sealed: once a TRUST has left creation mode, then after any further
  run of \<open>aeqi_trust\<close> none of the nine module programs initializes a module for it, whoever
  signs and whatever accounts are passed.
\<close>

theorem finalized_trust_sealed:
  assumes "TL trust = Some (TrustA t)" and "\<not> t_creation_mode t" and "(trust_next P)\<^sup>*\<^sup>* TL TL'"
  shows "(\<forall>L r. role_init P TL' trust ms a L \<noteq> Inr r) \<and> (\<forall>L r. token_init P TL' trust ms a L \<noteq> Inr r) \<and>
    (\<forall>L r. gov_init P TL' trust ms a L \<noteq> Inr r) \<and> (\<forall>L r. budget_init P TL' trust ms a L \<noteq> Inr r) \<and>
    (\<forall>ta L r. treasury_init ta P TL' trust ms a L \<noteq> Inr r) \<and>
    (\<forall>L r. vesting_init P TL' trust ms a L \<noteq> Inr r) \<and> (\<forall>L r. fund_init P TL' trust ms a L \<noteq> Inr r) \<and>
    (\<forall>L r. funding_init P TL' trust ms a L \<noteq> Inr r) \<and> (\<forall>L r. uni_init P TL' trust ms a L \<noteq> Inr r)"
  by (intro conjI allI)
    (rule role_module.never_after_finalize [OF assms] token_module.never_after_finalize [OF assms]
      gov_module.never_after_finalize [OF assms] budget_module.never_after_finalize [OF assms]
      treasury_module.never_after_finalize [OF assms] vesting_module.never_after_finalize [OF assms]
      fund_module.never_after_finalize [OF assms] funding_module.never_after_finalize [OF assms]
      uni_module.never_after_finalize [OF assms])+

theorem finalized_trust_sealed_witness:
  "demo_live demo_trust = Some (TrustA (demo_t False False 1)) \<and>
   (\<forall>L r. role_init demo_sdk demo_live demo_trust 3 7 L \<noteq> Inr r)"
proof -
  have t: "demo_live demo_trust = Some (TrustA (demo_t False False 1))"
    by (simp add: demo_trust_defs)
  have "\<not> t_creation_mode (demo_t False False 1)" by (simp add: demo_t_def)
  from finalized_trust_sealed [of demo_live demo_trust, OF t this, where ms = 3 and a = 7] t
  show ?thesis by auto
qed

text \<open>The tally accepts a choice whenever the sum fits.\<close>

lemma apply_vote_tally_fits:
  assumes "choice \<in> {0, 1, 2}" and "unat (counter p choice) + unat w < 2 ^ 128"
  shows "\<exists>p'. apply_vote_tally p choice w = Inr p'"
proof -
  from assms(2) obtain n where "checked_add (counter p choice) w = Some n"
    using checked_add_fits [of "counter p choice" w] by auto
  with assms(1) show ?thesis by (auto simp: apply_vote_tally_def counter_def)
qed

text \<open>
  C6. Every holder can vote: when the root that the indexer computed for the holders of a token
  is the one committed to a proposal and the vote is open, then each listed holder has a
  Merkle proof, the one the indexer builds, with which \<open>cast_vote_token\<close> accepts the holder's
  first vote, on any of the three choices, and adds exactly the snapshot balance to it.
\<close>

theorem snapshot_holder_can_vote:
  assumes "snapshot_proposal H accounts = Inr s" and "i < length (ms_leaves s)"
    and "ms_leaves s ! i = (voter, balance)"
    and "CommitSnapshotRoot_accounts P L k = Inr p" and "p_snapshot_root p = ms_root s" "ms_root s \<noteq> 0"
    and "require_vote_open p (unix_timestamp clk) = Inr ()"
    and "find_program_address P (vote_seeds p voter) AEQI_GOVERNANCE_ID = (j, bump)" and "L j = None"
    and "choice \<in> {0, 1, 2}" and "unat (counter p choice) + unat balance < 2 ^ 128"
  shows "\<exists>path L' ev p'.
    merkle_proof H (map (\<lambda>(q, b). indexer_token_vote_leaf H q b) (ms_leaves s)) i = Some path \<and>
    gov_cast_vote_token P H clk k j voter choice balance path L = Inr (L', ev) \<and>
    L' k = Some (ProposalA p') \<and>
    unat (counter p' choice) = unat (counter p choice) + unat balance"
proof -
  let ?leaves = "map (\<lambda>(q, b). token_vote_leaf H q b) (ms_leaves s)"
  have "indexer_token_vote_leaf H = token_vote_leaf H"
    by (intro ext) (simp add: indexer_token_vote_leaf_def token_vote_leaf_def)
  then obtain path where
    path: "merkle_proof H (map (\<lambda>(q, b). indexer_token_vote_leaf H q b) (ms_leaves s)) i = Some path"
      "verify_merkle_proof H (token_vote_leaf H voter balance) path (ms_root s)"
    using merkle_proof_verifies [of i ?leaves H] assms(2,3) snapshot_ok(3) [OF assms(1)] by auto
  have "(voter, balance) \<in> set (holders_of accounts)"
    using nth_mem [OF assms(2)] assms(3) snapshot_ok(1) [OF assms(1)] by simp
  then have "0 < balance" by (auto simp: holders_of_def word_neq_0_conv)
  have w: "unat (ucast balance :: u128) = unat balance" by (simp add: unat_ucast_wide)
  with assms(10,11) obtain p' where p': "apply_vote_tally p choice (ucast balance) = Inr p'"
    using apply_vote_tally_fits [of choice p "ucast balance"] by auto
  have k: "L k = Some (ProposalA p)" "seeds_ok P (proposal_seeds (p_trust p) (p_proposal_id p))
      (p_bump p) AEQI_GOVERNANCE_ID k"
    using assms(4) by (simp_all add: gov_accounts_defs res)
  then have "j \<noteq> k" using assms(9) by auto
  from p' have "tallied p choice (ucast balance) p'" by (rule apply_vote_tally_ok)
  then have "unat (counter p' choice) = unat (counter p choice) + unat balance"
    using assms(10) w by (auto simp: tallied_def)
  moreover have "gov_cast_vote_token P H clk k j voter choice balance path L =
      Inr (L(k \<mapsto> ProposalA p', j \<mapsto> VoteA (record_vote p' voter choice (ucast balance) bump)), [])"
    using k assms(5-9) path(2) p' \<open>0 < balance\<close>
    by (simp add: gov_cast_vote_token_def gov_accounts_defs load_def init_account_def canonical_def Let_def)
  ultimately show ?thesis using path(1) \<open>j \<noteq> k\<close> by auto
qed

lemma demo_root:
  "compute_merkle_root demo_hash [token_vote_leaf demo_hash 1 7, token_vote_leaf demo_hash 2 5] \<noteq> 0"
  by code_simp

theorem snapshot_holder_can_vote_witness:
  "\<exists>s path L ev p'. snapshot_proposal demo_hash [(100, demo_account 2 5), (101, demo_account 1 7)] = Inr s \<and>
     gov_cast_vote_token demo_sdk demo_hash demo_clock demo_pk (demo_vk 2) 2 1 5 path
       (demo_gov (demo_proposal (ms_root s) 0 False)) = Inr (L, ev) \<and>
     L demo_pk = Some (ProposalA p') \<and> unat (counter p' 1) = 5"
proof -
  obtain s where s: "snapshot_proposal demo_hash [(100, demo_account 2 5), (101, demo_account 1 7)] = Inr s"
    "ms_leaves s = [(1, 7), (2, 5)]" using demo_snapshot by blast
  let ?p = "demo_proposal (ms_root s) 0 False"
  have acc: "CommitSnapshotRoot_accounts demo_sdk (demo_gov ?p) demo_pk = Inr ?p"
    by (simp add: gov_accounts_defs load_def require_def seeds_ok_def demo_gov_defs)
  have root: "ms_root s \<noteq> 0"
    using s(2) snapshot_ok(3) [OF s(1)] demo_root by simp
  have op: "require_vote_open ?p (unix_timestamp demo_clock) = Inr ()"
    by (simp add: require_vote_open_def proposal_vote_end_def ichecked_add_def require_def word_sle_eq
        word_sless_alt demo_gov_defs)
  have j: "find_program_address demo_sdk (vote_seeds ?p 2) AEQI_GOVERNANCE_ID = (demo_vk 2, 255)"
    by (simp add: demo_sdk_def demo_vk_def vote_seeds_def demo_proposal_def)
  have free: "demo_gov ?p (demo_vk 2) = None" by (simp add: demo_gov_defs)
  show ?thesis
    using snapshot_holder_can_vote [OF s(1) _ _ acc _ root op j free, of 1 5 1] s
    by (auto simp: demo_proposal_def counter_def)
qed

end
